(* ===== verification/JsPrelude.thy ===== *)
theory JsPrelude
  imports Complex_Main "HOL-Library.AList" "HOL-Library.Multiset"
begin

text \<open>
  What the JavaScript of \<open>web-ui/src\<close> is written in, as far as the modelled code uses it.

  \<^item> \<open>jsnum\<close>: the Number type: the finite values, both infinities and NaN, with the
    language's rules for them (a comparison with NaN is false, \<open>1 / 0\<close> is Infinity, \<open>0 / 0\<close>
    is NaN, a NaN operand makes an arithmetic result NaN). The finite values are exact reals:
    rounding of IEEE doubles, overflow to Infinity and the sign of zero are not modelled.
  \<^item> \<open>rd xs i\<close>: reading a number out of an array; an index outside the array yields
    \<open>undefined\<close>, which every numeric operator of the modelled code turns into NaN.
  \<^item> \<open>for_loop\<close>: a counted loop over an explicit state, with one induction rule.
  \<^item> \<open>slice_last\<close>, \<open>slice_first\<close>, \<open>map_set\<close>, \<open>map_get\<close>, \<open>map_delete\<close>: \<open>Array.slice\<close>
    and the insertion-ordered \<open>Map\<close> and plain-object operations.
\<close>

section \<open>Numbers\<close>

named_theorems js_defs \<open>definitions of the number operations\<close>
named_theorems js_fin \<open>number operations on finite operands\<close>

datatype jsnum = Fin real | PInf | NInf | NaN

instantiation jsnum :: "{zero, one, uminus, plus, minus, times, inverse, ord, abs}"
begin

definition zero_jsnum :: jsnum where
  "zero_jsnum = Fin 0"

definition one_jsnum :: jsnum where
  "one_jsnum = Fin 1"

fun uminus_jsnum :: "jsnum \<Rightarrow> jsnum" where
  "uminus_jsnum (Fin a) = Fin (- a)"
| "uminus_jsnum PInf = NInf"
| "uminus_jsnum NInf = PInf"
| "uminus_jsnum NaN = NaN"

fun plus_jsnum :: "jsnum \<Rightarrow> jsnum \<Rightarrow> jsnum" where
  "plus_jsnum (Fin a) (Fin b) = Fin (a + b)"
| "plus_jsnum NaN y = NaN"
| "plus_jsnum x NaN = NaN"
| "plus_jsnum PInf NInf = NaN"
| "plus_jsnum NInf PInf = NaN"
| "plus_jsnum PInf y = PInf"
| "plus_jsnum x PInf = PInf"
| "plus_jsnum NInf y = NInf"
| "plus_jsnum x NInf = NInf"

definition minus_jsnum :: "jsnum \<Rightarrow> jsnum \<Rightarrow> jsnum" where
  "minus_jsnum x y = plus x (uminus y)"

text \<open>An infinity of the sign of \<open>a\<close>; NaN for \<open>a = 0\<close>.\<close>

fun times_jsnum :: "jsnum \<Rightarrow> jsnum \<Rightarrow> jsnum" where
  "times_jsnum (Fin a) (Fin b) = Fin (a * b)"
| "times_jsnum NaN y = NaN"
| "times_jsnum x NaN = NaN"
| "times_jsnum PInf PInf = PInf"
| "times_jsnum NInf NInf = PInf"
| "times_jsnum PInf NInf = NInf"
| "times_jsnum NInf PInf = NInf"
| "times_jsnum PInf (Fin b) = (if b > 0 then PInf else if b < 0 then NInf else NaN)"
| "times_jsnum (Fin b) PInf = (if b > 0 then PInf else if b < 0 then NInf else NaN)"
| "times_jsnum NInf (Fin b) = (if b > 0 then NInf else if b < 0 then PInf else NaN)"
| "times_jsnum (Fin b) NInf = (if b > 0 then NInf else if b < 0 then PInf else NaN)"

fun divide_jsnum :: "jsnum \<Rightarrow> jsnum \<Rightarrow> jsnum" where
  "divide_jsnum (Fin a) (Fin b) =
     (if b \<noteq> 0 then Fin (a / b) else if a > 0 then PInf else if a < 0 then NInf else NaN)"
| "divide_jsnum NaN y = NaN"
| "divide_jsnum x NaN = NaN"
| "divide_jsnum (Fin a) y = Fin 0"
| "divide_jsnum PInf (Fin b) = (if b \<ge> 0 then PInf else NInf)"
| "divide_jsnum NInf (Fin b) = (if b \<ge> 0 then NInf else PInf)"
| "divide_jsnum x y = NaN"

definition inverse_jsnum :: "jsnum \<Rightarrow> jsnum" where
  "inverse_jsnum x = divide (Fin 1) x"

fun less_jsnum :: "jsnum \<Rightarrow> jsnum \<Rightarrow> bool" where
  "less_jsnum (Fin a) (Fin b) \<longleftrightarrow> a < b"
| "less_jsnum (Fin a) PInf \<longleftrightarrow> True"
| "less_jsnum NInf (Fin b) \<longleftrightarrow> True"
| "less_jsnum NInf PInf \<longleftrightarrow> True"
| "less_jsnum _ _ \<longleftrightarrow> False"

fun less_eq_jsnum :: "jsnum \<Rightarrow> jsnum \<Rightarrow> bool" where
  "less_eq_jsnum (Fin a) (Fin b) \<longleftrightarrow> a \<le> b"
| "less_eq_jsnum NaN y \<longleftrightarrow> False"
| "less_eq_jsnum x NaN \<longleftrightarrow> False"
| "less_eq_jsnum x PInf \<longleftrightarrow> True"
| "less_eq_jsnum NInf y \<longleftrightarrow> True"
| "less_eq_jsnum _ _ \<longleftrightarrow> False"

fun abs_jsnum :: "jsnum \<Rightarrow> jsnum" where
  "abs_jsnum (Fin a) = Fin \<bar>a\<bar>"
| "abs_jsnum NaN = NaN"
| "abs_jsnum _ = PInf"

instance ..

end

text \<open>Addition and multiplication are commutative and associative also where infinities and
  NaN are involved, which gives numerals and powers; they do not distribute.\<close>

lemma jsnum_add_assoc: "(a + b) + c = a + (b + (c::jsnum))"
  by (cases a; cases b; cases c) simp_all

lemma jsnum_add_commute: "a + b = b + (a::jsnum)"
  by (cases a; cases b) simp_all

lemma jsnum_mult_commute: "a * b = b * (a::jsnum)"
  by (cases a; cases b) simp_all

lemma jsnum_mult_assoc: "(a * b) * c = a * (b * (c::jsnum))"
  by (cases a; cases b; cases c) (auto simp: zero_less_mult_iff mult_less_0_iff)

instance jsnum :: comm_monoid_add
proof
  fix a b c :: jsnum
  show "a + b + c = a + (b + c)" by (rule jsnum_add_assoc)
  show "a + b = b + a" by (rule jsnum_add_commute)
  show "0 + a = a" by (cases a) (simp_all add: zero_jsnum_def)
qed

instance jsnum :: comm_monoid_mult
proof
  fix a b c :: jsnum
  show "a * b * c = a * (b * c)" by (rule jsnum_mult_assoc)
  show "a * b = b * a" by (rule jsnum_mult_commute)
  show "1 * a = a" by (cases a) (simp_all add: one_jsnum_def)
qed

instance jsnum :: numeral ..

lemma zero_Fin [simp, js_fin]: "(0::jsnum) = Fin 0"
  by (simp add: zero_jsnum_def)

lemma one_Fin [simp, js_fin]: "(1::jsnum) = Fin 1"
  by (simp add: one_jsnum_def)

lemma numeral_Fin [simp, js_fin]: "(numeral n :: jsnum) = Fin (numeral n)"
proof (induction n)
  case (Bit0 n)
  then show ?case by (simp only: numeral.simps plus_jsnum.simps)
next
  case (Bit1 n)
  then show ?case by (simp only: numeral.simps plus_jsnum.simps one_Fin)
qed (simp add: numeral_One)

lemma minus_Fin [simp, js_fin]: "Fin a - Fin b = Fin (a - b)"
  by (simp add: minus_jsnum_def)

lemma minus_NaN [simp]: "NaN - x = NaN" "x - NaN = NaN"
  by (cases x; simp add: minus_jsnum_def)+

lemma NaN_arith [simp]: "x + NaN = NaN" "x * NaN = NaN" "x / NaN = NaN"
  by (cases x; simp)+

lemma power_Fin [simp, js_fin]: "Fin a ^ n = Fin (a ^ n)"
  by (induction n) simp_all

lemma Fin_add_0 [simp]: "Fin 0 + x = x" "x + Fin 0 = x"
  by (cases x; simp)+

lemma less_NaN [simp]: "\<not> NaN < x" "\<not> x < NaN"
  by (cases x; simp)+

lemma le_NaN [simp]: "\<not> NaN \<le> x" "\<not> x \<le> NaN"
  by (cases x; simp)+

lemma jsnum_less_imp_le: "x < y \<Longrightarrow> x \<le> (y::jsnum)"
  by (cases x; cases y) simp_all

lemma jsnum_not_less: "x \<noteq> NaN \<Longrightarrow> y \<noteq> NaN \<Longrightarrow> (\<not> x < y) \<longleftrightarrow> y \<le> (x::jsnum)"
  by (cases x; cases y) auto

lemma jsnum_le_trans: "x \<le> y \<Longrightarrow> y \<le> z \<Longrightarrow> x \<le> (z::jsnum)"
  by (cases x; cases y; cases z) simp_all

lemma jsnum_less_irrefl [simp]: "\<not> x < (x::jsnum)"
  by (cases x) simp_all

text \<open>\<open>===\<close> on numbers (NaN differs from itself), truthiness and \<open>||\<close>.\<close>

definition jeq :: "jsnum \<Rightarrow> jsnum \<Rightarrow> bool" where
  [js_defs]: "jeq x y \<longleftrightarrow> x = y \<and> x \<noteq> NaN"

definition truthy :: "jsnum \<Rightarrow> bool" where
  [js_defs]: "truthy x \<longleftrightarrow> x \<noteq> Fin 0 \<and> x \<noteq> NaN"

definition jor :: "jsnum \<Rightarrow> jsnum \<Rightarrow> jsnum" where
  [js_defs]: "jor x y = (if truthy x then x else y)"

definition jmax :: "jsnum \<Rightarrow> jsnum \<Rightarrow> jsnum" where
  [js_defs]: "jmax x y = (if x = NaN \<or> y = NaN then NaN else if x \<le> y then y else x)"

definition jmin :: "jsnum \<Rightarrow> jsnum \<Rightarrow> jsnum" where
  [js_defs]: "jmin x y = (if x = NaN \<or> y = NaN then NaN else if x \<le> y then x else y)"

definition jmax_list :: "jsnum list \<Rightarrow> jsnum" where
  "jmax_list xs = foldl jmax NInf xs"

definition jmin_list :: "jsnum list \<Rightarrow> jsnum" where
  "jmin_list xs = foldl jmin PInf xs"

fun jsqrt :: "jsnum \<Rightarrow> jsnum" where
  "jsqrt (Fin a) = (if a < 0 then NaN else Fin (sqrt a))"
| "jsqrt PInf = PInf"
| "jsqrt _ = NaN"

fun jlog :: "jsnum \<Rightarrow> jsnum" where
  "jlog (Fin a) = (if a < 0 then NaN else if a = 0 then NInf else Fin (ln a))"
| "jlog PInf = PInf"
| "jlog _ = NaN"

fun jexp :: "jsnum \<Rightarrow> jsnum" where
  "jexp (Fin a) = Fin (exp a)"
| "jexp PInf = PInf"
| "jexp NInf = Fin 0"
| "jexp NaN = NaN"

fun jfloor :: "jsnum \<Rightarrow> jsnum" where
  "jfloor (Fin a) = Fin (real_of_int \<lfloor>a\<rfloor>)"
| "jfloor x = x"

fun jceil :: "jsnum \<Rightarrow> jsnum" where
  "jceil (Fin a) = Fin (real_of_int \<lceil>a\<rceil>)"
| "jceil x = x"

text \<open>\<open>Math.round\<close> rounds a half upwards.\<close>

fun jround :: "jsnum \<Rightarrow> jsnum" where
  "jround (Fin a) = Fin (real_of_int \<lfloor>a + 1 / 2\<rfloor>)"
| "jround x = x"

abbreviation jnat :: "nat \<Rightarrow> jsnum" where
  "jnat n \<equiv> Fin (real n)"

definition is_fin :: "jsnum \<Rightarrow> bool" where
  "is_fin x \<longleftrightarrow> (\<exists>r. x = Fin r)"

lemma is_fin_simps [simp]: "is_fin (Fin r)" "\<not> is_fin PInf" "\<not> is_fin NInf" "\<not> is_fin NaN"
  by (auto simp: is_fin_def)

lemma is_finE: "is_fin x \<Longrightarrow> (\<And>r. x = Fin r \<Longrightarrow> P) \<Longrightarrow> P"
  by (auto simp: is_fin_def)

lemma jeq_Fin [simp, js_fin]: "jeq (Fin a) (Fin b) \<longleftrightarrow> a = b"
  by (simp add: jeq_def)

lemma truthy_simps [simp]: "truthy (Fin a) \<longleftrightarrow> a \<noteq> 0" "\<not> truthy NaN" "truthy PInf" "truthy NInf"
  by (simp_all add: truthy_def)

lemma jmax_Fin [simp, js_fin]: "jmax (Fin a) (Fin b) = Fin (max a b)"
  by (simp add: jmax_def max_def)

lemma jmin_Fin [simp, js_fin]: "jmin (Fin a) (Fin b) = Fin (min a b)"
  by (simp add: jmin_def min_def)

lemma jmax_NInf [simp]: "jmax NInf x = x"
  by (cases x) (simp_all add: jmax_def)

lemma jmin_PInf [simp]: "jmin PInf x = x"
  by (cases x) (simp_all add: jmin_def)

lemma jor_Fin [simp]: "jor (Fin a) y = (if a \<noteq> 0 then Fin a else y)" "jor NaN y = y"
  "jor PInf y = PInf" "jor NInf y = NInf"
  by (simp_all add: jor_def)

lemma is_fin_arith [intro]:
  assumes "is_fin x" and "is_fin y"
  shows "is_fin (x + y)" and "is_fin (x - y)" and "is_fin (x * y)"
  using assms by (auto elim!: is_finE)

lemma jeq_self: "jeq x x \<longleftrightarrow> x \<noteq> NaN"
  by (simp add: jeq_def)

section \<open>Arrays\<close>

definition rd :: "jsnum list \<Rightarrow> nat \<Rightarrow> jsnum" where
  "rd xs i = (if i < length xs then xs ! i else NaN)"

lemma rd_in [simp]: "i < length xs \<Longrightarrow> rd xs i = xs ! i"
  by (simp add: rd_def)

lemma rd_out [simp]: "length xs \<le> i \<Longrightarrow> rd xs i = NaN"
  by (simp add: rd_def)

lemma rd_map_Fin: "i < length rs \<Longrightarrow> rd (map Fin rs) i = Fin (rs ! i)"
  by simp

lemma rd_update: "rd (xs[i := v]) j = (if i = j \<and> i < length xs then v else rd xs j)"
  by (auto simp: rd_def)

text \<open>\<open>xs.reduce((s, v) => s + v, 0)\<close> and loops that add up into a variable set to 0.\<close>

definition jsum :: "jsnum list \<Rightarrow> jsnum" where
  "jsum xs = foldl (+) (Fin 0) xs"

lemma foldl_add_Fin: "foldl (+) (Fin a) (map Fin rs) = Fin (a + sum_list rs)"
  by (induction rs arbitrary: a) (simp_all add: add.assoc)

lemma jsum_Fin [simp, js_fin]: "jsum (map Fin rs) = Fin (sum_list rs)"
  by (simp add: jsum_def foldl_add_Fin)

lemma jsum_Nil [simp]: "jsum [] = Fin 0"
  by (simp add: jsum_def)

lemma foldl_add_jsnum: "foldl (+) (a::jsnum) xs = a + foldl (+) (Fin 0) xs"
proof (induction xs arbitrary: a)
  case (Cons x xs)
  show ?case
    using Cons [of "a + x"] Cons [of "Fin 0 + x"] by (simp add: add.assoc)
qed simp

lemma jsum_Cons [simp]: "jsum (x # xs) = x + jsum xs"
  using foldl_add_jsnum [of x xs] by (simp add: jsum_def)

lemma jsum_append [simp]: "jsum (xs @ ys) = jsum xs + jsum ys"
  by (induction xs) (simp_all add: add.assoc)

text \<open>\<open>xs.slice(-n)\<close> (with \<open>slice(-0)\<close> the whole array) and \<open>xs.slice(0, n)\<close>.\<close>

definition slice_last :: "nat \<Rightarrow> 'a list \<Rightarrow> 'a list" where
  "slice_last n xs = (if n = 0 then xs else drop (length xs - n) xs)"

definition slice_first :: "nat \<Rightarrow> 'a list \<Rightarrow> 'a list" where
  "slice_first n xs = take n xs"

lemma length_slice_last: "0 < n \<Longrightarrow> length (slice_last n xs) = min n (length xs)"
  by (simp add: slice_last_def)

lemma set_slice_last: "set (slice_last n xs) \<subseteq> set xs"
  by (auto simp: slice_last_def dest: in_set_dropD)

lemma slice_last_id: "length xs \<le> n \<Longrightarrow> slice_last n xs = xs"
  by (simp add: slice_last_def)

lemma sorted_slice_last: "sorted_wrt P xs \<Longrightarrow> sorted_wrt P (slice_last n xs)"
  by (simp add: slice_last_def sorted_wrt_drop)

lemma distinct_slice_last: "distinct xs \<Longrightarrow> distinct (slice_last n xs)"
  by (simp add: slice_last_def)

lemma slice_last_map: "slice_last n (map f xs) = map f (slice_last n xs)"
  by (simp add: slice_last_def drop_map)

section \<open>Counted loops\<close>

definition for_loop :: "nat \<Rightarrow> nat \<Rightarrow> (nat \<Rightarrow> 's \<Rightarrow> 's) \<Rightarrow> 's \<Rightarrow> 's" where
  \<comment> \<open>\<open>for (let i = a; i < b; i++) body\<close>\<close>
  "for_loop a b body s = fold body [a..<b] s"

lemma for_loop_empty [simp]: "b \<le> a \<Longrightarrow> for_loop a b body s = s"
  by (simp add: for_loop_def)

lemma for_loop_Suc: "a \<le> b \<Longrightarrow> for_loop a (Suc b) body s = body b (for_loop a b body s)"
  by (simp add: for_loop_def)

lemma for_loop_first: "a < b \<Longrightarrow> for_loop a b body s = for_loop (Suc a) b body (body a s)"
  by (simp add: for_loop_def upt_conv_Cons)

text \<open>The rule every loop proof uses: \<open>P i\<close> holds before the body runs with index \<open>i\<close>.\<close>

lemma for_loop_invariant:
  assumes "a \<le> b" and "P a s"
    and step: "\<And>i t. a \<le> i \<Longrightarrow> i < b \<Longrightarrow> P i t \<Longrightarrow> P (Suc i) (body i t)"
  shows "P b (for_loop a b body s)"
  using assms
proof (induction b)
  case (Suc b)
  show ?case
  proof (cases "a \<le> b")
    case True
    then have "P b (for_loop a b body s)"
      using Suc.IH Suc.prems by (simp add: less_Suc_eq)
    then show ?thesis
      using True Suc.prems(3) by (simp add: for_loop_Suc)
  next
    case False
    with Suc.prems show ?thesis by (simp add: le_Suc_eq)
  qed
qed simp

text \<open>The invariant that does not mention the index, for any bounds.\<close>

lemma for_loop_preserves:
  assumes "P s" and "\<And>i t. a \<le> i \<Longrightarrow> i < b \<Longrightarrow> P t \<Longrightarrow> P (body i t)"
  shows "P (for_loop a b body s)"
proof (cases "a \<le> b")
  case True
  then show ?thesis
    using for_loop_invariant [where P = "\<lambda>_. P"] assms by blast
next
  case False
  then show ?thesis using assms by simp
qed

lemma for_loop_cong:
  assumes "\<And>i s. a \<le> i \<Longrightarrow> i < b \<Longrightarrow> f i s = g i s"
  shows "for_loop a b f s = for_loop a b g s"
  unfolding for_loop_def by (rule fold_cong) (auto simp: assms)

text \<open>A loop that writes \<open>v i\<close> at index \<open>i\<close> of an array.\<close>

lemma for_loop_write:
  assumes "a \<le> b"
  shows "length (for_loop a b (\<lambda>i xs. xs[i := v i]) xs) = length xs \<and>
    (\<forall>j < length xs. for_loop a b (\<lambda>i xs. xs[i := v i]) xs ! j =
       (if a \<le> j \<and> j < b then v j else xs ! j))"
  using assms
  by (rule for_loop_invariant [where P = "\<lambda>i ys. length ys = length xs \<and>
       (\<forall>j < length xs. ys ! j = (if a \<le> j \<and> j < i then v j else xs ! j))"])
     (auto simp: nth_list_update less_Suc_eq)

text \<open>A loop that adds up \<open>f a + ... + f (b - 1)\<close>.\<close>

lemma for_loop_sum:
  "for_loop a b (\<lambda>i s. s + f i) (Fin c) = Fin c + jsum (map f [a..<b])"
proof (induction b)
  case (Suc b)
  then show ?case
    by (cases "a \<le> b") (simp_all add: for_loop_Suc add.assoc)
qed simp

section \<open>Keyed stores\<close>

text \<open>A \<open>Map\<close>, or a plain object with string keys that are not array indices, keeps its
  entries in the order of first insertion; setting a present key leaves its place.\<close>

type_synonym ('k, 'v) jsmap = "('k \<times> 'v) list"

definition map_set :: "'k \<Rightarrow> 'v \<Rightarrow> ('k, 'v) jsmap \<Rightarrow> ('k, 'v) jsmap" where
  "map_set k v m = AList.update k v m"

definition map_delete :: "'k \<Rightarrow> ('k, 'v) jsmap \<Rightarrow> ('k, 'v) jsmap" where
  "map_delete k m = filter (\<lambda>p. fst p \<noteq> k) m"

abbreviation map_get :: "('k, 'v) jsmap \<Rightarrow> 'k \<Rightarrow> 'v option" where
  "map_get \<equiv> map_of"

abbreviation map_has :: "('k, 'v) jsmap \<Rightarrow> 'k \<Rightarrow> bool" where
  "map_has m k \<equiv> map_of m k \<noteq> None"

abbreviation map_keys :: "('k, 'v) jsmap \<Rightarrow> 'k list" where
  "map_keys m \<equiv> map fst m"

abbreviation map_values :: "('k, 'v) jsmap \<Rightarrow> 'v list" where
  "map_values m \<equiv> map snd m"

definition map_ok :: "('k, 'v) jsmap \<Rightarrow> bool" where
  "map_ok m \<longleftrightarrow> distinct (map fst m)"

lemma map_set_Nil [simp]: "map_set k v [] = [(k, v)]"
  by (simp add: map_set_def)

lemma map_set_Cons [simp]:
  "map_set k v (p # m) = (if fst p = k then (k, v) # m else p # map_set k v m)"
  by (simp add: map_set_def)

lemma map_get_set [simp]: "map_get (map_set k v m) = (map_get m)(k \<mapsto> v)"
  by (simp add: map_set_def update_conv')

lemma map_get_delete [simp]: "map_get (map_delete k m) = (map_get m)(k := None)"
  by (induction m) (auto simp: map_delete_def fun_eq_iff)

lemma set_map_set: "set (map_set k v m) \<subseteq> insert (k, v) (set m)"
  by (induction m) auto

lemma keys_map_set: "set (map fst (map_set k v m)) = insert k (set (map fst m))"
  by (induction m) auto

lemma map_ok_Nil [simp]: "map_ok []"
  by (simp add: map_ok_def)

lemma map_ok_set [intro]: "map_ok m \<Longrightarrow> map_ok (map_set k v m)"
  by (simp add: map_ok_def map_set_def distinct_update)

lemma map_ok_delete [intro]: "map_ok m \<Longrightarrow> map_ok (map_delete k m)"
  by (simp add: map_ok_def map_delete_def distinct_map_filter)

lemma map_ok_filter [intro]: "map_ok m \<Longrightarrow> map_ok (filter P m)"
  by (simp add: map_ok_def distinct_map_filter)

lemma length_map_set: "length (map_set k v m) = (if map_has m k then length m else Suc (length m))"
  by (induction m) auto

text \<open>Building a map from entries in order, a later entry replacing an earlier one.\<close>

definition map_set_all :: "('a \<Rightarrow> 'k) \<Rightarrow> ('a \<Rightarrow> 'v) \<Rightarrow> 'a list \<Rightarrow> ('k, 'v) jsmap \<Rightarrow> ('k, 'v) jsmap" where
  "map_set_all key val xs m = foldl (\<lambda>m x. map_set (key x) (val x) m) m xs"

lemma map_set_all_simps [simp]:
  "map_set_all key val [] m = m"
  "map_set_all key val (x # xs) m = map_set_all key val xs (map_set (key x) (val x) m)"
  by (simp_all add: map_set_all_def)

lemma map_set_all_ok: "map_ok m \<Longrightarrow> map_ok (map_set_all key val xs m)"
  by (induction xs arbitrary: m) auto

lemma map_set_all_get_notin:
  "k \<notin> key ` set xs \<Longrightarrow> map_get (map_set_all key val xs m) k = map_get m k"
  by (induction xs arbitrary: m) auto

lemma keys_map_set_all:
  "set (map fst (map_set_all key val xs m)) = set (map fst m) \<union> key ` set xs"
  by (induction xs arbitrary: m) (auto simp: keys_map_set simp del: set_map)

lemma set_map_set_all:
  "set (map_set_all key val xs m) \<subseteq> set m \<union> (\<lambda>x. (key x, val x)) ` set xs"
proof (induction xs arbitrary: m)
  case (Cons x xs)
  then show ?case using set_map_set [of "key x" "val x" m] by fastforce
qed simp

text \<open>A later element wins: splitting the input at the last element with the key.\<close>

lemma map_set_all_append:
  "map_set_all key val (xs @ ys) m = map_set_all key val ys (map_set_all key val xs m)"
  by (simp add: map_set_all_def)

lemma map_set_all_get_last:
  assumes "xs = as @ x # bs" and "key x \<notin> key ` set bs"
  shows "map_get (map_set_all key val xs m) (key x) = Some (val x)"
  using assms by (simp add: map_set_all_append map_set_all_get_notin)

end
