(* ===== verification/JsText.thy ===== *)
theory JsText
  imports JsPrelude
begin

text \<open>
  Strings and JSON payloads: integers printed in decimal (as a template literal prints them),
  the \<open>a|b|c\<close> keys the web UI builds from exchange, symbol and timestamp, lower-casing and
  \<open>includes\<close>, and the type of the JSON values that components pass on unread.
  The lemmas show that printing is injective and that a \<open>|\<close>-joined key determines its parts
  when the parts themselves hold no \<open>|\<close>.
\<close>

section \<open>JSON values\<close>

datatype json =
    JNull
  | JBool bool
  | JNum real
  | JStr string
  | JArr "json list"
  | JObj "(string \<times> json) list"

section \<open>Decimal integers\<close>

definition digit_char :: "nat \<Rightarrow> char" where
  "digit_char d = (''0123456789'' ! d)"

fun show_nat :: "nat \<Rightarrow> string" where
  "show_nat n = (if n < 10 then [digit_char n] else show_nat (n div 10) @ [digit_char (n mod 10)])"

declare show_nat.simps [simp del]

definition show_int :: "int \<Rightarrow> string" where
  "show_int i = (if i < 0 then CHR ''-'' # show_nat (nat (- i)) else show_nat (nat i))"

definition digit_val :: "char \<Rightarrow> nat" where
  "digit_val c = of_char c - 48"

definition read_nat :: "string \<Rightarrow> nat" where
  "read_nat cs = foldl (\<lambda>n c. 10 * n + digit_val c) 0 cs"

lemma less_10_cases: "(d::nat) < 10 \<Longrightarrow>
    d = 0 \<or> d = 1 \<or> d = 2 \<or> d = 3 \<or> d = 4 \<or> d = 5 \<or> d = 6 \<or> d = 7 \<or> d = 8 \<or> d = 9"
  by arith

lemma digit_val_char: "d < 10 \<Longrightarrow> digit_val (digit_char d) = d"
  by (drule less_10_cases) (auto simp: digit_val_def digit_char_def)

lemma digit_char_range: "d < 10 \<Longrightarrow> digit_char d \<in> set ''0123456789''"
  by (drule less_10_cases) (auto simp: digit_char_def)

lemma read_show_nat: "read_nat (show_nat n) = n"
proof (induction n rule: show_nat.induct)
  case (1 n)
  show ?case
  proof (cases "n < 10")
    case True
    then show ?thesis
      by (simp add: show_nat.simps [of n] read_nat_def digit_val_char)
  next
    case False
    then have "read_nat (show_nat (n div 10)) = n div 10" by (rule "1.IH")
    then show ?thesis
      using False by (simp add: show_nat.simps [of n] read_nat_def digit_val_char)
  qed
qed

lemma show_nat_inj: "show_nat m = show_nat n \<Longrightarrow> m = n"
  by (metis read_show_nat)

lemma show_nat_digits: "set (show_nat n) \<subseteq> set ''0123456789''"
proof (induction n rule: show_nat.induct)
  case (1 n)
  show ?case
  proof (cases "n < 10")
    case True
    then show ?thesis using digit_char_range [of n] by (simp add: show_nat.simps [of n])
  next
    case False
    then show ?thesis
      using "1.IH" digit_char_range [of "n mod 10"] by (simp add: show_nat.simps [of n])
  qed
qed

lemma minus_not_digit: "CHR ''-'' \<notin> set (show_nat n)"
  using show_nat_digits [of n] by auto

lemma bar_not_digit: "CHR ''|'' \<notin> set (show_nat n)"
  using show_nat_digits [of n] by auto

lemma show_nat_not_Nil [simp]: "show_nat n \<noteq> []"
  by (subst show_nat.simps) simp

lemma show_int_inj: "show_int a = show_int b \<Longrightarrow> a = b"
proof -
  assume eq: "show_int a = show_int b"
  have neg: "\<not> (x < 0 \<and> 0 \<le> y \<and> show_int x = show_int y)" for x y
    using minus_not_digit [of "nat y"] by (auto simp: show_int_def) (metis list.set_intros(1))
  from eq neg [of a b] neg [of b a] have "(a < 0) = (b < 0)" by force
  with eq show "a = b"
    by (auto simp: show_int_def dest!: show_nat_inj split: if_splits)
qed

lemma bar_not_int: "CHR ''|'' \<notin> set (show_int i)"
  using bar_not_digit by (auto simp: show_int_def)

section \<open>Keys joined with a bar\<close>

definition bar_join :: "string \<Rightarrow> string \<Rightarrow> string" where
  "bar_join a b = a @ CHR ''|'' # b"

lemma bar_join_inj:
  assumes "bar_join a b = bar_join a' b'" and "CHR ''|'' \<notin> set a" and "CHR ''|'' \<notin> set a'"
  shows "a = a' \<and> b = b'"
  using assms
proof (induction a arbitrary: a')
  case Nil
  then show ?case by (cases a') (auto simp: bar_join_def)
next
  case (Cons c a)
  then show ?case by (cases a') (auto simp: bar_join_def)
qed

section \<open>Lower case and substring search\<close>

definition to_lower_char :: "char \<Rightarrow> char" where
  "to_lower_char c = (let n = (of_char c :: nat) in if 65 \<le> n \<and> n \<le> 90 then char_of (n + 32) else c)"

definition to_lower :: "string \<Rightarrow> string" where
  \<comment> \<open>\<open>toLowerCase\<close> on ASCII text\<close>
  "to_lower s = map to_lower_char s"

fun starts_with :: "'a list \<Rightarrow> 'a list \<Rightarrow> bool" where
  "starts_with [] _ \<longleftrightarrow> True"
| "starts_with (p # ps) [] \<longleftrightarrow> False"
| "starts_with (p # ps) (x # xs) \<longleftrightarrow> p = x \<and> starts_with ps xs"

fun str_includes :: "'a list \<Rightarrow> 'a list \<Rightarrow> bool" where
  \<comment> \<open>\<open>xs.includes(q)\<close> on strings\<close>
  "str_includes [] q \<longleftrightarrow> q = []"
| "str_includes (x # xs) q \<longleftrightarrow> starts_with q (x # xs) \<or> str_includes xs q"

lemma starts_with_append: "starts_with p xs \<longleftrightarrow> (\<exists>ys. xs = p @ ys)"
  by (induction p xs rule: starts_with.induct) auto

lemma includes_iff: "str_includes xs q \<longleftrightarrow> (\<exists>as bs. xs = as @ q @ bs)"
proof (induction xs)
  case (Cons x xs)
  show ?case
  proof
    assume "str_includes (x # xs) q"
    then show "\<exists>as bs. x # xs = as @ q @ bs"
    proof (cases "starts_with q (x # xs)")
      case True
      then obtain ys where "x # xs = [] @ q @ ys" by (auto simp: starts_with_append)
      then show ?thesis by blast
    next
      case False
      with \<open>str_includes (x # xs) q\<close> Cons obtain as bs where "xs = as @ q @ bs" by auto
      then have "x # xs = (x # as) @ q @ bs" by simp
      then show ?thesis by blast
    qed
  next
    assume "\<exists>as bs. x # xs = as @ q @ bs"
    then obtain as bs where eq: "x # xs = as @ q @ bs" by blast
    show "str_includes (x # xs) q"
    proof (cases as)
      case Nil
      with eq have "starts_with q (x # xs)" unfolding starts_with_append by simp
      then show ?thesis by simp
    next
      case (Cons a as')
      with eq have "xs = as' @ q @ bs" by simp
      with Cons.IH have "str_includes xs q" by blast
      then show ?thesis by simp
    qed
  qed
qed simp

section \<open>Searching arrays\<close>

fun find_index :: "('a \<Rightarrow> bool) \<Rightarrow> 'a list \<Rightarrow> nat option" where
  \<comment> \<open>\<open>findIndex\<close>, with \<open>None\<close> for -1\<close>
  "find_index P [] = None"
| "find_index P (x # xs) = (if P x then Some 0 else map_option Suc (find_index P xs))"

lemma find_index_None: "find_index P xs = None \<longleftrightarrow> (\<forall>x \<in> set xs. \<not> P x)"
  by (induction xs) auto

lemma find_index_Some:
  "find_index P xs = Some i \<Longrightarrow> i < length xs \<and> P (xs ! i) \<and> (\<forall>j < i. \<not> P (xs ! j))"
proof (induction xs arbitrary: i)
  case (Cons x xs)
  then show ?case
    by (cases i) (auto split: if_splits simp: less_Suc_eq_0_disj)
qed simp

definition splice_one :: "nat \<Rightarrow> 'a list \<Rightarrow> 'a list" where
  \<comment> \<open>\<open>xs.splice(i, 1)\<close>\<close>
  "splice_one i xs = take i xs @ drop (Suc i) xs"

end
