(* ===== verification/Candles.thy ===== *)
theory Candles
  imports JsText
begin

text \<open>
  Candles: the flat array the exchange socket delivers (\<open>utils/candles.js\<close>), the keyed cache
  behind it (\<open>candleMap\<close> of \<open>hooks/useExchangeData.js\<close>), the aggregation into higher
  timeframes (\<open>utils/timeframes.ts\<close>) and the chart's derived data
  (\<open>hooks/useChartCandles.js\<close>).
\<close>

section \<open>Wire candles and their selection\<close>

record candle =
  cd_exchange :: string
  cd_symbol :: string
  cd_timestamp :: int
  cd_open :: jsnum
  cd_high :: jsnum
  cd_low :: jsnum
  cd_close :: jsnum
  cd_volume :: jsnum

definition select_candles :: "candle list option \<Rightarrow> string \<Rightarrow> string \<Rightarrow> candle list" where
  \<comment> \<open>the argument may be null or undefined: \<open>None\<close>\<close>
  "select_candles candles exchange symbol =
     filter (\<lambda>c. cd_exchange c = exchange \<and> cd_symbol c = symbol)
       (case candles of None \<Rightarrow> [] | Some cs \<Rightarrow> cs)"

fun group_loop :: "string \<Rightarrow> candle list \<Rightarrow> (string, candle list) jsmap \<Rightarrow> (string, candle list) jsmap" where
  "group_loop exchange [] out = out"
| "group_loop exchange (c # cs) out =
     (if cd_exchange c \<noteq> exchange then group_loop exchange cs out
      else group_loop exchange cs
        (map_set (cd_symbol c)
          ((case map_get out (cd_symbol c) of None \<Rightarrow> [] | Some xs \<Rightarrow> xs) @ [c]) out))"

definition group_candles :: "candle list option \<Rightarrow> string \<Rightarrow> (string, candle list) jsmap" where
  "group_candles candles exchange =
     group_loop exchange (case candles of None \<Rightarrow> [] | Some cs \<Rightarrow> cs) []"

lemma group_loop_get:
  "map_get (group_loop ex cs out) s =
     (let new = filter (\<lambda>c. cd_exchange c = ex \<and> cd_symbol c = s) cs
      in if new = [] then map_get out s
         else Some ((case map_get out s of None \<Rightarrow> [] | Some xs \<Rightarrow> xs) @ new))"
  by (induction cs arbitrary: out) (auto simp: Let_def split: option.splits)

text \<open>Grouping agrees with selecting each symbol: the two helpers are interchangeable.\<close>

lemma group_candles_select:
  "map_get (group_candles candles ex) s =
     (case select_candles candles ex s of [] \<Rightarrow> None | c # cs \<Rightarrow> Some (c # cs))"
  by (simp add: group_candles_def group_loop_get select_candles_def Let_def split: list.splits)

section \<open>The candle cache\<close>

text \<open>\<open>`${c.exchange}|${c.symbol}|${c.timestamp}`\<close>\<close>

definition candle_key :: "candle \<Rightarrow> string" where
  "candle_key c = bar_join (cd_exchange c) (bar_join (cd_symbol c) (show_int (cd_timestamp c)))"

lemma candle_key_inj:
  assumes "candle_key c = candle_key d"
    and "CHR ''|'' \<notin> set (cd_exchange c)" and "CHR ''|'' \<notin> set (cd_exchange d)"
    and "CHR ''|'' \<notin> set (cd_symbol c)" and "CHR ''|'' \<notin> set (cd_symbol d)"
  shows "cd_exchange c = cd_exchange d \<and> cd_symbol c = cd_symbol d \<and> cd_timestamp c = cd_timestamp d"
  using assms unfolding candle_key_def
  by (metis bar_join_inj show_int_inj)

type_synonym candle_cache = "(string, candle) jsmap"

definition cap_candles :: nat where
  "cap_candles = 500"

definition put_candles :: "candle list \<Rightarrow> candle_cache \<Rightarrow> candle_cache" where
  "put_candles cs m = map_set_all candle_key (\<lambda>c. c) cs m"

definition by_time :: "candle_cache \<Rightarrow> candle list" where
  "by_time m = sort_key cd_timestamp (map_values m)"

text \<open>The \<open>data.candles\<close> branch of the snapshot/candles/sync_state case: the new cache and the
  list handed to \<open>setCandles\<close>.\<close>

definition ingest_candles :: "candle list \<Rightarrow> candle_cache \<Rightarrow> candle_cache \<times> candle list" where
  "ingest_candles cs m =
     (let m1 = put_candles cs m in
      if length m1 > cap_candles then
        let all = by_time m1; toKeep = slice_last cap_candles all
        in (put_candles toKeep [], toKeep)
      else (m1, by_time m1))"

text \<open>The \<open>replay_candles\<close> case: the cache is not trimmed, the displayed list is.\<close>

definition replay_candles :: "candle list \<Rightarrow> candle_cache \<Rightarrow> candle_cache \<times> candle list" where
  "replay_candles cs m =
     (let m1 = put_candles cs m in (m1, slice_last cap_candles (by_time m1)))"

definition cache_ok :: "candle_cache \<Rightarrow> bool" where
  "cache_ok m \<longleftrightarrow> map_ok m \<and> (\<forall>p \<in> set m. fst p = candle_key (snd p))"

lemma cache_ok_Nil [simp]: "cache_ok []"
  by (simp add: cache_ok_def)

lemma cache_ok_put: "cache_ok m \<Longrightarrow> cache_ok (put_candles cs m)"
  unfolding cache_ok_def put_candles_def
  using set_map_set_all [of candle_key "\<lambda>c. c" cs m] by (fastforce intro: map_set_all_ok)

lemma cache_ok_keys: "cache_ok m \<Longrightarrow> map candle_key (map_values m) = map_keys m"
  by (auto simp: cache_ok_def)

lemma put_candles_get: "cache_ok m \<Longrightarrow> map_get m k = Some c \<Longrightarrow> candle_key c = k"
  by (force simp: cache_ok_def dest: map_of_SomeD)

lemma sorted_by_time: "sorted (map cd_timestamp (by_time m))"
  by (simp add: by_time_def)

lemma mset_by_time: "mset (by_time m) = mset (map_values m)"
  by (simp add: by_time_def)

lemma distinct_by_time: "cache_ok m \<Longrightarrow> distinct (map candle_key (by_time m))"
proof -
  assume ok: "cache_ok m"
  have "mset (map candle_key (by_time m)) = mset (map candle_key (map_values m))"
    by (simp add: by_time_def multiset.map_comp)
  then show ?thesis
    using ok cache_ok_keys [OF ok] mset_eq_imp_distinct_iff
    by (metis cache_ok_def map_ok_def)
qed

text \<open>Rebuilding a cache from a list without repeated keys keeps exactly that list.\<close>

lemma map_set_new: "k \<notin> fst ` set m \<Longrightarrow> map_set k v m = m @ [(k, v)]"
  by (induction m) auto

lemma put_candles_distinct:
  "distinct (map candle_key cs) \<Longrightarrow> candle_key ` set cs \<inter> fst ` set m = {} \<Longrightarrow>
     put_candles cs m = m @ map (\<lambda>c. (candle_key c, c)) cs"
proof (induction cs arbitrary: m)
  case (Cons c cs)
  then have "map_set (candle_key c) c m = m @ [(candle_key c, c)]"
    by (intro map_set_new) auto
  moreover have "put_candles cs (m @ [(candle_key c, c)]) =
      (m @ [(candle_key c, c)]) @ map (\<lambda>c. (candle_key c, c)) cs"
    using Cons.prems by (intro Cons.IH) auto
  ultimately show ?case by (simp add: put_candles_def)
qed (simp add: put_candles_def)

lemma put_candles_empty:
  "distinct (map candle_key cs) \<Longrightarrow> map_values (put_candles cs []) = cs"
  by (simp add: put_candles_distinct comp_def)

lemma ingest_cache_ok: "cache_ok m \<Longrightarrow> cache_ok (fst (ingest_candles cs m))"
  by (simp add: ingest_candles_def Let_def cache_ok_put)

lemma ingest_values:
  assumes "cache_ok m"
  shows "mset (map_values (fst (ingest_candles cs m))) = mset (snd (ingest_candles cs m))"
proof -
  let ?m1 = "put_candles cs m"
  have "distinct (map candle_key (slice_last cap_candles (by_time ?m1)))"
    using distinct_by_time [OF cache_ok_put [OF assms]]
    by (simp add: slice_last_map [symmetric] distinct_slice_last)
  from put_candles_empty [OF this] show ?thesis
    by (simp add: ingest_candles_def Let_def mset_by_time del: mset_map)
qed

lemma ingest_sorted: "sorted (map cd_timestamp (snd (ingest_candles cs m)))"
  using sorted_by_time [of "put_candles cs m"]
  by (simp add: ingest_candles_def Let_def slice_last_map [symmetric] sorted_slice_last)

lemma ingest_cap: "length (snd (ingest_candles cs m)) \<le> cap_candles"
  by (auto simp: ingest_candles_def Let_def length_slice_last cap_candles_def by_time_def)

text \<open>What a key holds after a list of writes: its last one, or what it held before.\<close>

definition last_candle :: "candle list \<Rightarrow> candle_cache \<Rightarrow> string \<Rightarrow> candle option" where
  "last_candle cs m k = (case filter (\<lambda>c. candle_key c = k) (rev cs) of [] \<Rightarrow> map_get m k | c # _ \<Rightarrow> Some c)"

lemma put_candles_last: "map_get (put_candles cs m) k = last_candle cs m k"
proof (induction cs arbitrary: m)
  case (Cons c cs)
  have "map_get (put_candles (c # cs) m) k = last_candle cs (map_set (candle_key c) c m) k"
    using Cons [of "map_set (candle_key c) c m"] by (simp add: put_candles_def)
  then show ?case by (auto simp: last_candle_def split: list.splits)
qed (simp add: put_candles_def last_candle_def)

lemma put_candles_values:
  "cache_ok m \<Longrightarrow> c \<in> snd ` set (put_candles cs m) \<longleftrightarrow> last_candle cs m (candle_key c) = Some c"
proof -
  assume "cache_ok m"
  then have ok: "cache_ok (put_candles cs m)" by (rule cache_ok_put)
  then have "c \<in> snd ` set (put_candles cs m) \<longleftrightarrow> (candle_key c, c) \<in> set (put_candles cs m)"
    by (force simp: cache_ok_def)
  also have "\<dots> \<longleftrightarrow> map_get (put_candles cs m) (candle_key c) = Some c"
    using ok by (simp add: cache_ok_def map_ok_def)
  finally show ?thesis by (simp add: put_candles_last)
qed

lemma put_candles_count: "cache_ok m \<Longrightarrow> length (put_candles cs m) = card {k. last_candle cs m k \<noteq> None}"
proof -
  assume "cache_ok m"
  then have "distinct (map fst (put_candles cs m))" using cache_ok_put [of m cs] by (simp add: cache_ok_def map_ok_def)
  then have "length (put_candles cs m) = card (fst ` set (put_candles cs m))" using distinct_card by fastforce
  moreover have "fst ` set (put_candles cs m) = {k. last_candle cs m k \<noteq> None}"
    by (auto simp: map_of_eq_None_iff simp flip: put_candles_last)
  ultimately show ?thesis by simp
qed

lemma ingest_subset: "set (snd (ingest_candles cs m)) \<subseteq> snd ` set (put_candles cs m)"
  using set_slice_last [of cap_candles "by_time (put_candles cs m)"] by (auto simp: ingest_candles_def Let_def by_time_def)

lemma ingest_length: "length (snd (ingest_candles cs m)) = min cap_candles (length (put_candles cs m))"
  by (auto simp: ingest_candles_def Let_def length_slice_last cap_candles_def by_time_def)

text \<open>What trimming drops is never newer than what it keeps.\<close>

lemma ingest_keeps_newest:
  assumes "c \<in> snd ` set (put_candles cs m)" and "c \<notin> set (snd (ingest_candles cs m))"
    and "d \<in> set (snd (ingest_candles cs m))"
  shows "cd_timestamp c \<le> cd_timestamp d"
proof -
  let ?all = "by_time (put_candles cs m)"
  let ?n = "length ?all - cap_candles"
  have c: "c \<in> set ?all" using assms(1) by (simp add: by_time_def)
  have "snd (ingest_candles cs m) = drop ?n ?all"
    using assms(2) c
    by (auto simp: ingest_candles_def Let_def slice_last_def cap_candles_def split: if_splits)
  then have "c \<in> set (take ?n ?all)" and "d \<in> set (drop ?n ?all)"
    using assms(2,3) c by (metis Un_iff append_take_drop_id set_append)+
  moreover have "sorted (map cd_timestamp (take ?n ?all) @ map cd_timestamp (drop ?n ?all))"
    using sorted_by_time [of "put_candles cs m"] by (simp flip: map_append)
  ultimately show ?thesis by (auto simp: sorted_append)
qed

section \<open>Aggregation into timeframes\<close>

record chart_candle =
  cc_time :: int
  cc_open :: jsnum
  cc_high :: jsnum
  cc_low :: jsnum
  cc_close :: jsnum
  cc_volume :: jsnum

record timeframe =
  tf_label :: string
  tf_factor :: int
  tf_seconds :: int

definition TIMEFRAMES :: "timeframe list" where
  "TIMEFRAMES =
    [\<lparr>tf_label = ''5m'', tf_factor = 1, tf_seconds = 300\<rparr>,
     \<lparr>tf_label = ''15m'', tf_factor = 3, tf_seconds = 900\<rparr>,
     \<lparr>tf_label = ''1h'', tf_factor = 12, tf_seconds = 3600\<rparr>,
     \<lparr>tf_label = ''4h'', tf_factor = 48, tf_seconds = 14400\<rparr>]"

definition base_tf :: int where
  "base_tf = 300"

definition bucket_time :: "int \<Rightarrow> int \<Rightarrow> int" where
  "bucket_time factor t = (let bucketSize = base_tf * factor in (t div bucketSize) * bucketSize)"

definition extend_bucket :: "chart_candle \<Rightarrow> chart_candle \<Rightarrow> chart_candle" where
  "extend_bucket bucket c = bucket\<lparr>
     cc_high := jmax (cc_high bucket) (cc_high c),
     cc_low := jmin (cc_low bucket) (cc_low c),
     cc_close := cc_close c,
     cc_volume := cc_volume bucket + cc_volume c\<rparr>"

definition add_to_bucket ::
  "int \<Rightarrow> chart_candle \<Rightarrow> (int, chart_candle) jsmap \<Rightarrow> (int, chart_candle) jsmap" where
  "add_to_bucket factor c buckets =
     (let bt = bucket_time factor (cc_time c) in
      case map_get buckets bt of
        None \<Rightarrow> map_set bt (c\<lparr>cc_time := bt\<rparr>) buckets
      | Some bucket \<Rightarrow> map_set bt (extend_bucket bucket c) buckets)"

definition fill_buckets :: "int \<Rightarrow> chart_candle list \<Rightarrow> (int, chart_candle) jsmap" where
  "fill_buckets factor candles = foldl (\<lambda>bs c. add_to_bucket factor c bs) [] candles"

definition aggregate_candles :: "chart_candle list \<Rightarrow> int \<Rightarrow> chart_candle list" where
  "aggregate_candles candles factor =
     (if candles = [] \<or> factor \<le> 1 then candles
      else sort_key cc_time (map_values (fill_buckets factor candles)))"

text \<open>The invariant of the bucket map: keys are the bucket starts of the candles seen, each once,
  and each bucket carries its own key as its time.\<close>

definition buckets_ok :: "(int, chart_candle) jsmap \<Rightarrow> bool" where
  "buckets_ok bs \<longleftrightarrow> map_ok bs \<and> (\<forall>p \<in> set bs. cc_time (snd p) = fst p)"

lemma buckets_ok_add: "buckets_ok bs \<Longrightarrow> buckets_ok (add_to_bucket f c bs)"
  unfolding buckets_ok_def add_to_bucket_def Let_def
  by (auto split: option.splits simp: extend_bucket_def dest!: subsetD [OF set_map_set] map_of_SomeD)

lemma buckets_ok_fill: "buckets_ok (fill_buckets f cs)"
  unfolding fill_buckets_def
  by (induction cs rule: rev_induct) (auto simp: buckets_ok_def [of "[]"] intro: buckets_ok_add)

lemma keys_add: "set (map fst (add_to_bucket f c bs)) =
    insert (bucket_time f (cc_time c)) (set (map fst bs))"
  by (simp add: add_to_bucket_def Let_def keys_map_set del: set_map split: option.splits)

lemma keys_fill: "set (map fst (fill_buckets f cs)) = (\<lambda>c. bucket_time f (cc_time c)) ` set cs"
  unfolding fill_buckets_def
  by (induction cs rule: rev_induct) (simp_all add: keys_add del: set_map)

definition jvolume :: "chart_candle list \<Rightarrow> jsnum" where
  "jvolume cs = jsum (map cc_volume cs)"

lemma volume_map_set_old:
  "map_ok m \<Longrightarrow> map_get m k = Some old \<Longrightarrow> cc_volume new = cc_volume old + v \<Longrightarrow>
     jvolume (map_values (map_set k new m)) = jvolume (map_values m) + v"
proof (induction m)
  case (Cons p m)
  show ?case
  proof (cases "fst p = k")
    case True
    with Cons.prems show ?thesis
      by (cases p) (auto simp: jvolume_def ac_simps)
  next
    case False
    with Cons show ?thesis
      by (cases p) (auto simp: jvolume_def map_ok_def ac_simps)
  qed
qed simp

lemma volume_map_set_new:
  "map_get m k = None \<Longrightarrow> jvolume (map_values (map_set k new m)) = jvolume (map_values m) + cc_volume new"
  by (induction m) (auto simp: jvolume_def ac_simps split: if_splits)

lemma volume_add:
  assumes "buckets_ok bs"
  shows "jvolume (map_values (add_to_bucket f c bs)) = jvolume (map_values bs) + cc_volume c"
proof (cases "map_get bs (bucket_time f (cc_time c))")
  case None
  then show ?thesis by (simp add: add_to_bucket_def Let_def volume_map_set_new)
next
  case (Some b)
  then show ?thesis
    using assms by (simp add: add_to_bucket_def Let_def volume_map_set_old extend_bucket_def buckets_ok_def)
qed

lemma volume_fill: "jvolume (map_values (fill_buckets f cs)) = jvolume cs"
proof (induction cs rule: rev_induct)
  case (snoc c cs)
  then show ?case
    using volume_add [OF buckets_ok_fill] by (simp add: fill_buckets_def jvolume_def)
qed (simp add: fill_buckets_def jvolume_def)

lemma jsum_mset: "mset xs = mset ys \<Longrightarrow> jsum xs = jsum ys"
proof -
  have "jsum xs = sum_mset (mset xs)" for xs
    by (induction xs) simp_all
  then show "mset xs = mset ys \<Longrightarrow> jsum xs = jsum ys" by simp
qed

lemma jvolume_sort: "jvolume (sort_key k cs) = jvolume cs"
  unfolding jvolume_def by (rule jsum_mset) simp

lemma aggregate_volume: "jvolume (aggregate_candles cs f) = jvolume cs"
  by (simp add: aggregate_candles_def jvolume_sort volume_fill)

text \<open>The bucket of one interval, stated field by field over the candles that fall into it.\<close>

definition merge_bucket :: "int \<Rightarrow> chart_candle list \<Rightarrow> chart_candle option" where
  "merge_bucket bt cs =
     (if cs = [] then None
      else Some \<lparr>cc_time = bt, cc_open = cc_open (hd cs), cc_high = jmax_list (map cc_high cs),
        cc_low = jmin_list (map cc_low cs), cc_close = cc_close (last cs), cc_volume = jsum (map cc_volume cs)\<rparr>)"

lemma merge_bucket_Nil [simp]: "merge_bucket bt [] = None"
  by (simp add: merge_bucket_def)

lemma merge_bucket_snoc:
  "merge_bucket bt (cs @ [c]) =
     (case merge_bucket bt cs of None \<Rightarrow> Some (c\<lparr>cc_time := bt\<rparr>) | Some b \<Rightarrow> Some (extend_bucket b c))"
  by (cases c) (simp add: merge_bucket_def extend_bucket_def jmax_list_def jmin_list_def)

lemma fill_buckets_get:
  "map_get (fill_buckets f cs) bt =
     merge_bucket bt (filter (\<lambda>c. bucket_time f (cc_time c) = bt) cs)"
proof (induction cs rule: rev_induct)
  case (snoc c cs)
  have "fill_buckets f (cs @ [c]) = add_to_bucket f c (fill_buckets f cs)"
    by (simp add: fill_buckets_def)
  then show ?case
    using snoc by (auto simp: add_to_bucket_def Let_def merge_bucket_snoc split: option.splits)
qed (simp add: fill_buckets_def)

lemma aggregate_sorted_distinct:
  assumes "1 < f" and "cs \<noteq> []"
  shows "sorted (map cc_time (aggregate_candles cs f)) \<and>
    distinct (map cc_time (aggregate_candles cs f)) \<and>
    set (map cc_time (aggregate_candles cs f)) = (\<lambda>c. bucket_time f (cc_time c)) ` set cs"
proof -
  let ?bs = "fill_buckets f cs"
  have keys: "map cc_time (map_values ?bs) = map_keys ?bs"
    using buckets_ok_fill [of f cs] by (auto simp: buckets_ok_def)
  have "distinct (map cc_time (map_values ?bs))"
    unfolding keys using buckets_ok_fill [of f cs] by (simp add: buckets_ok_def map_ok_def)
  moreover have "mset (map cc_time (sort_key cc_time (map_values ?bs))) = mset (map cc_time (map_values ?bs))"
    by (simp add: multiset.map_comp)
  ultimately have "distinct (map cc_time (sort_key cc_time (map_values ?bs)))"
    using mset_eq_imp_distinct_iff by blast
  moreover have "set (map cc_time (sort_key cc_time (map_values ?bs))) = set (map cc_time (map_values ?bs))"
    by (simp add: image_image)
  ultimately show ?thesis
    using assms keys_fill [of f cs] keys by (simp add: aggregate_candles_def)
qed

lemma aggregate_get:
  assumes "1 < f" and "b \<in> set (aggregate_candles cs f)"
  shows "Some b = merge_bucket (cc_time b) (filter (\<lambda>c. bucket_time f (cc_time c) = cc_time b) cs)"
proof -
  have "cs \<noteq> []" using assms by (auto simp: aggregate_candles_def)
  with assms have "b \<in> snd ` set (fill_buckets f cs)"
    by (simp add: aggregate_candles_def)
  then obtain k where kb: "(k, b) \<in> set (fill_buckets f cs)" by auto
  then have "k = cc_time b" and "map_get (fill_buckets f cs) k = Some b"
    using buckets_ok_fill [of f cs] by (auto simp: buckets_ok_def map_ok_def)
  then show ?thesis by (simp add: fill_buckets_get)
qed

section \<open>The chart's derived data\<close>

definition to_chart_candle :: "candle \<Rightarrow> chart_candle" where
  "to_chart_candle c = \<lparr>cc_time = cd_timestamp c, cc_open = cd_open c, cc_high = cd_high c,
     cc_low = cd_low c, cc_close = cd_close c, cc_volume = cd_volume c\<rparr>"

definition chart_candles_of :: "candle list \<Rightarrow> string \<Rightarrow> string \<Rightarrow> timeframe \<Rightarrow> chart_candle list" where
  "chart_candles_of candles exchange symbol tf =
     aggregate_candles
       (map to_chart_candle (filter (\<lambda>c. cd_exchange c = exchange \<and> cd_symbol c = symbol) candles))
       (tf_factor tf)"

text \<open>\<open>exchange.prices[selectedExchange]?.[selectedSymbol] || 0\<close>\<close>

definition current_price_of ::
  "(string, (string, jsnum) jsmap) jsmap \<Rightarrow> string \<Rightarrow> string \<Rightarrow> jsnum" where
  "current_price_of prices exchange symbol =
     (case map_get prices exchange of
        None \<Rightarrow> 0
      | Some m \<Rightarrow> jor (case map_get m symbol of None \<Rightarrow> NaN | Some p \<Rightarrow> p) 0)"

definition price_change_of :: "chart_candle list \<Rightarrow> jsnum" where
  "price_change_of candles =
     (if length candles < 2 then 0
      else let first = cc_close (hd candles); lst = cc_close (last candles)
           in if jeq first 0 then 0 else ((lst - first) / first) * 100)"

lemma price_change_Fin:
  assumes "2 \<le> length cs" and "cc_close (hd cs) = Fin a" and "cc_close (last cs) = Fin b"
  shows "price_change_of cs = Fin (if a = 0 then 0 else (b - a) / a * 100)"
  using assms by (auto simp: price_change_of_def Let_def)

section \<open>Properties\<close>

text \<open>
  C9: Ingesting candles keeps the cache and the displayed list the same candles, in time order. Each of them is the last one written
  for its exchange, symbol and timestamp; there are as many as there are such keys, or 500 if there are more; and a candle that is
  dropped to stay within the cap is never newer than one that is kept.
\<close>
theorem candle_ingest_correct:
  fixes cs :: "candle list"
  assumes "cache_ok m"
  defines "r \<equiv> ingest_candles cs m"
  shows "cache_ok (fst r) \<and> mset (map_values (fst r)) = mset (snd r) \<and> sorted (map cd_timestamp (snd r)) \<and>
    (\<forall>c \<in> set (snd r). last_candle cs m (candle_key c) = Some c) \<and>
    length (snd r) = min 500 (card {k. last_candle cs m k \<noteq> None}) \<and>
    (\<forall>k c d. last_candle cs m k = Some c \<and> c \<notin> set (snd r) \<and> d \<in> set (snd r) \<longrightarrow> cd_timestamp c \<le> cd_timestamp d)"
proof -
  have mem: "c \<in> snd ` set (put_candles cs m)" if "last_candle cs m k = Some c" for k c
    using map_of_SomeD [OF that [folded put_candles_last]] by force
  have "last_candle cs m (candle_key c) = Some c" if "c \<in> set (snd r)" for c
    using put_candles_values [OF assms(1)] ingest_subset that unfolding r_def by blast
  moreover have "cd_timestamp c \<le> cd_timestamp d"
    if "last_candle cs m k = Some c" "c \<notin> set (snd r)" "d \<in> set (snd r)" for k c d
    using ingest_keeps_newest [OF mem [OF that(1)]] that(2,3) unfolding r_def by blast
  moreover have "length (snd r) = min 500 (card {k. last_candle cs m k \<noteq> None})"
    unfolding r_def by (simp only: ingest_length cap_candles_def put_candles_count [OF assms(1)])
  ultimately show ?thesis
    using ingest_cache_ok [OF assms(1), of cs] ingest_values [OF assms(1), of cs] ingest_sorted [of cs m]
    unfolding r_def by blast
qed

definition sample_candle :: "int \<Rightarrow> jsnum \<Rightarrow> candle" where
  "sample_candle t p = \<lparr>cd_exchange = ''E'', cd_symbol = ''S'', cd_timestamp = t, cd_open = p, cd_high = p, cd_low = p,
     cd_close = p, cd_volume = 1\<rparr>"

theorem candle_ingest_correct_witness:
  "snd (ingest_candles [sample_candle 5 1, sample_candle 5 2] []) = [sample_candle 5 2]"
proof -
  let ?r = "snd (ingest_candles [sample_candle 5 1, sample_candle 5 2] [])"
  have key: "candle_key (sample_candle t p) = candle_key (sample_candle t q)" for t p q by (simp add: candle_key_def sample_candle_def)
  have last: "last_candle [sample_candle 5 1, sample_candle 5 2] [] k =
      (if k = candle_key (sample_candle 5 1) then Some (sample_candle 5 2) else None)" for k
    by (auto simp: last_candle_def key [of 5 "Fin 2" "Fin 1"])
  then have one: "{k. last_candle [sample_candle 5 1, sample_candle 5 2] [] k \<noteq> None} = {candle_key (sample_candle 5 1)}" by auto
  have "length ?r = 1" "\<forall>c \<in> set ?r. last_candle [sample_candle 5 1, sample_candle 5 2] [] (candle_key c) = Some c"
    using candle_ingest_correct [of "[]" "[sample_candle 5 1, sample_candle 5 2]"] unfolding one by simp_all
  then show ?thesis unfolding last by (cases ?r) (auto split: if_splits)
qed

text \<open>
  C10: Aggregation into a higher timeframe loses nothing: the result has one candle per interval that
  contains a source candle, in time order; each is the merge (first open, highest high, lowest low,
  last close, total volume) of exactly the source candles of its interval; the total volume is that
  of the source.
\<close>
theorem aggregate_candles_correct:
  fixes cs :: "chart_candle list"
  assumes "1 < factor"
  defines "r \<equiv> aggregate_candles cs factor"
  shows "sorted (map cc_time r) \<and> distinct (map cc_time r) \<and>
    set (map cc_time r) = (\<lambda>c. bucket_time factor (cc_time c)) ` set cs \<and>
    (\<forall>b \<in> set r. Some b = merge_bucket (cc_time b) (filter (\<lambda>c. bucket_time factor (cc_time c) = cc_time b) cs)) \<and>
    jsum (map cc_volume r) = jsum (map cc_volume cs)"
proof (cases "cs = []")
  case True
  then show ?thesis by (simp add: r_def aggregate_candles_def)
next
  case False
  then show ?thesis
    using aggregate_sorted_distinct [OF assms(1) False] aggregate_get [OF assms(1), of _ cs]
      aggregate_volume [of cs factor]
    unfolding r_def jvolume_def by blast
qed

theorem aggregate_candles_correct_witness:
  "sorted (map cc_time (aggregate_candles
     [\<lparr>cc_time = 400, cc_open = 1, cc_high = 2, cc_low = 1, cc_close = 2, cc_volume = 3\<rparr>] 3))"
  by (rule aggregate_candles_correct [THEN conjunct1]) simp

end
