(* ===== verification/Interfaces.thy ===== *)
theory Interfaces
  imports JsText
begin

text \<open>
  The contracts several components share, each a locale whose client lemmas are proved once:
  \<^item> \<open>keyed_store\<close>: lookup after store and remove. Client: a batch of writes, where the last
    write to a key wins. Interpreted here on the insertion-ordered map and in \<open>OrderBook\<close> on one
    side of an order book.
  \<^item> \<open>capped_feed\<close>: a newest-first list cut at a length. Client: after any number of pushes the
    feed is the newest part of everything pushed. Interpreted in \<open>ExchangeInvariants\<close> and
    \<open>SignalFeed\<close>.
  \<^item> \<open>averaging\<close>: a recurrence whose step stays between its arguments. Client: the whole series
    stays within the bounds of its inputs. Interpreted in
    \<open>IndicatorLaws\<close>.
\<close>

section \<open>Keyed stores\<close>

definition write_one ::
  "('k \<Rightarrow> 'v \<Rightarrow> 'm \<Rightarrow> 'm) \<Rightarrow> ('k \<Rightarrow> 'm \<Rightarrow> 'm) \<Rightarrow> 'm \<Rightarrow> 'k \<times> 'v option \<Rightarrow> 'm" where
  "write_one st rm m w = (case snd w of Some v \<Rightarrow> st (fst w) v m | None \<Rightarrow> rm (fst w) m)"

definition run_writes ::
  "('k \<Rightarrow> 'v \<Rightarrow> 'm \<Rightarrow> 'm) \<Rightarrow> ('k \<Rightarrow> 'm \<Rightarrow> 'm) \<Rightarrow> ('k \<times> 'v option) list \<Rightarrow> 'm \<Rightarrow> 'm" where
  "run_writes st rm ws m = foldl (write_one st rm) m ws"

definition last_write :: "('k \<times> 'v option) list \<Rightarrow> 'k \<Rightarrow> 'v option option" where
  "last_write ws k = map_of (rev ws) k"

lemma last_write_simps [simp]:
  "last_write [] k = None"
  "last_write (ws @ [w]) k = (if fst w = k then Some (snd w) else last_write ws k)"
  by (cases w; simp add: last_write_def)+

locale keyed_store =
  fixes look :: "'m \<Rightarrow> 'k \<Rightarrow> 'v option"
    and st :: "'k \<Rightarrow> 'v \<Rightarrow> 'm \<Rightarrow> 'm"
    and rm :: "'k \<Rightarrow> 'm \<Rightarrow> 'm"
    and inv :: "'m \<Rightarrow> bool"
  assumes look_st: "inv m \<Longrightarrow> look (st k v m) = (look m)(k \<mapsto> v)"
    and look_rm: "inv m \<Longrightarrow> look (rm k m) = (look m)(k := None)"
    and inv_st: "inv m \<Longrightarrow> inv (st k v m)"
    and inv_rm: "inv m \<Longrightarrow> inv (rm k m)"
begin

lemma inv_write: "inv m \<Longrightarrow> inv (write_one st rm m w)"
  by (auto simp: write_one_def inv_st inv_rm split: option.splits)

lemma look_write: "inv m \<Longrightarrow> look (write_one st rm m w) = (look m)(fst w := snd w)"
  by (auto simp: write_one_def look_st look_rm split: option.splits)

lemma inv_run: "inv m \<Longrightarrow> inv (run_writes st rm ws m)"
  by (induction ws rule: rev_induct) (auto simp: run_writes_def intro: inv_write)

lemma look_run:
  "inv m \<Longrightarrow> look (run_writes st rm ws m) k = (case last_write ws k of None \<Rightarrow> look m k | Some v \<Rightarrow> v)"
proof (induction ws rule: rev_induct)
  case (snoc w ws)
  have "run_writes st rm (ws @ [w]) m = write_one st rm (run_writes st rm ws m) w"
    by (simp add: run_writes_def)
  then show ?case
    using snoc inv_run [OF snoc.prems, of ws] by (simp add: look_write)
qed (simp add: run_writes_def)

end

interpretation js: keyed_store map_get map_set map_delete map_ok
  by unfold_locales auto

section \<open>Capped feeds\<close>

locale capped_feed =
  fixes push :: "'a list \<Rightarrow> 'a list \<Rightarrow> 'a list"
    and cap :: nat
  assumes push_newest: "push new old = take cap (new @ old)"
begin

lemma push_cap: "length (push new old) \<le> cap"
  by (simp add: push_newest)

lemma push_run: "foldl (\<lambda>f b. push b f) [] batches = take cap (concat (rev batches))"
proof (induction batches rule: rev_induct)
  case (snoc b bs)
  then show ?case by (simp add: push_newest min_def)
qed simp

lemma push_run_from:
  "foldl (\<lambda>f b. push b f) old batches =
     (if batches = [] then old else take cap (concat (rev batches) @ old))"
proof (induction batches rule: rev_induct)
  case (snoc b bs)
  then show ?case by (cases "bs = []") (simp_all add: push_newest min_def)
qed simp

lemma push_head: "new \<noteq> [] \<Longrightarrow> 0 < cap \<Longrightarrow> hd (push new old) = hd new"
  by (simp add: push_newest)

end

section \<open>Averaging recurrences\<close>

fun recur :: "(real \<Rightarrow> real \<Rightarrow> real) \<Rightarrow> real \<Rightarrow> real list \<Rightarrow> real" where
  "recur avg a [] = a"
| "recur avg a (x # xs) = recur avg (avg a x) xs"

locale averaging =
  fixes avg :: "real \<Rightarrow> real \<Rightarrow> real"
  assumes avg_le: "a \<le> hi \<Longrightarrow> x \<le> hi \<Longrightarrow> avg a x \<le> hi"
    and avg_ge: "lo \<le> a \<Longrightarrow> lo \<le> x \<Longrightarrow> lo \<le> avg a x"
begin

lemma recur_bounds:
  "lo \<le> a \<and> a \<le> hi \<Longrightarrow> \<forall>x \<in> set xs. lo \<le> x \<and> x \<le> hi \<Longrightarrow>
     lo \<le> recur avg a xs \<and> recur avg a xs \<le> hi"
  by (induction xs arbitrary: a) (auto simp: avg_le avg_ge)

lemma avg_const: "avg a a = a"
  using avg_le [of a a a] avg_ge [of a a a] by simp

end

text \<open>A convex combination is such a step: exponential averages with weight \<open>k\<close>, Wilder's
  smoothing with weight \<open>1 / p\<close>.\<close>

definition blend :: "real \<Rightarrow> real \<Rightarrow> real \<Rightarrow> real" where
  "blend k a x = x * k + a * (1 - k)"

lemma blend_le: "0 \<le> k \<Longrightarrow> k \<le> 1 \<Longrightarrow> a \<le> hi \<Longrightarrow> x \<le> hi \<Longrightarrow> blend k a x \<le> hi"
proof -
  assume "0 \<le> k" "k \<le> 1" "a \<le> hi" "x \<le> hi"
  then have "x * k + a * (1 - k) \<le> hi * k + hi * (1 - k)"
    by (intro add_mono mult_right_mono) auto
  then show ?thesis by (simp add: blend_def algebra_simps)
qed

lemma blend_ge: "0 \<le> k \<Longrightarrow> k \<le> 1 \<Longrightarrow> lo \<le> a \<Longrightarrow> lo \<le> x \<Longrightarrow> lo \<le> blend k a x"
proof -
  assume "0 \<le> k" "k \<le> 1" "lo \<le> a" "lo \<le> x"
  then have "lo * k + lo * (1 - k) \<le> x * k + a * (1 - k)"
    by (intro add_mono mult_right_mono) auto
  then show ?thesis by (simp add: blend_def algebra_simps)
qed

lemma averaging_blend: "0 \<le> k \<Longrightarrow> k \<le> 1 \<Longrightarrow> averaging (blend k)"
  by unfold_locales (auto intro: blend_le blend_ge)

end
