(* ===== verification/OrderBook.thy ===== *)
theory OrderBook
  imports Interfaces
begin

text \<open>
  Order books held by the client: \<open>orderbooks\<close> and \<open>orderbook_deltas\<close> in
  \<open>hooks/useExchangeData.js\<close>, with the delta encoder of the simulator
  (\<open>exchange_simulator/ws_broadcast.py\<close>) that produces what the client applies.
  The lemmas show that one side of a book is a store of quantities keyed by price, that applying
  deltas implements it and keeps the side sorted, and that decoding an encoded delta gives the
  encoder's book up to its tolerance.
\<close>

section \<open>Levels and deltas\<close>

record level =
  lv_price :: real
  lv_quantity :: real

record change =
  ch_p :: real
  ch_q :: real

datatype side = Bids | Asks

record book =
  bk_bids :: "level list"
  bk_asks :: "level list"
  bk_rest :: json

record book_delta =
  dl_bids :: "change list option"
  dl_asks :: "change list option"

definition set_level :: "real \<Rightarrow> real \<Rightarrow> level list \<Rightarrow> level list" where
  "set_level p q levels =
     (case find_index (\<lambda>l. lv_price l = p) levels of
        Some idx \<Rightarrow> levels[idx := \<lparr>lv_price = p, lv_quantity = q\<rparr>]
      | None \<Rightarrow> levels @ [\<lparr>lv_price = p, lv_quantity = q\<rparr>])"

definition drop_level :: "real \<Rightarrow> level list \<Rightarrow> level list" where
  "drop_level p levels =
     (case find_index (\<lambda>l. lv_price l = p) levels of
        Some idx \<Rightarrow> splice_one idx levels
      | None \<Rightarrow> levels)"

definition apply_change :: "level list \<Rightarrow> change \<Rightarrow> level list" where
  "apply_change levels ch =
     (if ch_q ch > 0 then set_level (ch_p ch) (ch_q ch) levels else drop_level (ch_p ch) levels)"

definition sort_side :: "side \<Rightarrow> level list \<Rightarrow> level list" where
  "sort_side side levels =
     (case side of Bids \<Rightarrow> sort_key (\<lambda>l. - lv_price l) levels | Asks \<Rightarrow> sort_key lv_price levels)"

definition apply_deltas :: "side \<Rightarrow> change list \<Rightarrow> level list \<Rightarrow> level list" where
  "apply_deltas side changes levels = sort_side side (foldl apply_change levels changes)"

definition apply_book_delta :: "book_delta \<Rightarrow> book \<Rightarrow> book" where
  "apply_book_delta d b =
     (let b1 = (case dl_bids d of None \<Rightarrow> b | Some cs \<Rightarrow> b\<lparr>bk_bids := apply_deltas Bids cs (bk_bids b)\<rparr>)
      in case dl_asks d of None \<Rightarrow> b1 | Some cs \<Rightarrow> b1\<lparr>bk_asks := apply_deltas Asks cs (bk_asks b1)\<rparr>)"

definition apply_orderbook_deltas ::
  "(string, book_delta) jsmap \<Rightarrow> (string, book) jsmap \<Rightarrow> (string, book) jsmap" where
  "apply_orderbook_deltas deltas prev =
     foldl (\<lambda>next (key, delta).
        case map_get next key of None \<Rightarrow> next | Some existing \<Rightarrow> map_set key (apply_book_delta delta existing) next)
       prev deltas"

section \<open>A side is a store keyed by price\<close>

definition side_ok :: "level list \<Rightarrow> bool" where
  "side_ok levels \<longleftrightarrow> distinct (map lv_price levels)"

definition side_get :: "level list \<Rightarrow> real \<Rightarrow> real option" where
  "side_get levels = map_of (map (\<lambda>l. (lv_price l, lv_quantity l)) levels)"

lemma side_get_simps [simp]:
  "side_get [] p = None"
  "side_get (l # ls) p = (if lv_price l = p then Some (lv_quantity l) else side_get ls p)"
  by (simp_all add: side_get_def)

lemma side_get_append: "side_get (xs @ ys) p = (case side_get xs p of None \<Rightarrow> side_get ys p | Some q \<Rightarrow> Some q)"
  by (induction xs) auto

lemma side_get_None: "side_get ls p = None \<longleftrightarrow> p \<notin> lv_price ` set ls"
  by (induction ls) auto

lemma set_level_simps [simp]:
  "set_level p q [] = [\<lparr>lv_price = p, lv_quantity = q\<rparr>]"
  "set_level p q (l # ls) =
     (if lv_price l = p then \<lparr>lv_price = p, lv_quantity = q\<rparr> # ls else l # set_level p q ls)"
  by (auto simp: set_level_def split: option.splits)

lemma drop_level_simps [simp]:
  "drop_level p [] = []"
  "drop_level p (l # ls) = (if lv_price l = p then ls else l # drop_level p ls)"
  by (auto simp: drop_level_def splice_one_def split: option.splits)

lemma prices_set_level: "lv_price ` set (set_level p q ls) = insert p (lv_price ` set ls)"
  by (induction ls) auto

lemma prices_drop_level: "side_ok ls \<Longrightarrow> lv_price ` set (drop_level p ls) = lv_price ` set ls - {p}"
  by (induction ls) (auto simp: side_ok_def image_iff)

lemma side_ok_set: "side_ok ls \<Longrightarrow> side_ok (set_level p q ls)"
proof (induction ls)
  case (Cons l ls)
  then show ?case using prices_set_level [of p q ls] by (auto simp: side_ok_def)
qed (simp add: side_ok_def)

lemma side_ok_drop: "side_ok ls \<Longrightarrow> side_ok (drop_level p ls)"
proof (induction ls)
  case (Cons l ls)
  then show ?case using prices_drop_level [of ls p] by (auto simp: side_ok_def)
qed (simp add: side_ok_def)

lemma side_get_set: "side_get (set_level p q ls) = (side_get ls)(p \<mapsto> q)"
proof
  show "side_get (set_level p q ls) r = ((side_get ls)(p \<mapsto> q)) r" for r
    by (induction ls) auto
qed

lemma side_get_drop: "side_ok ls \<Longrightarrow> side_get (drop_level p ls) = (side_get ls)(p := None)"
proof
  show "side_ok ls \<Longrightarrow> side_get (drop_level p ls) r = ((side_get ls)(p := None)) r" for r
  proof (induction ls)
    case (Cons l ls)
    then show ?case using side_get_None [of ls "lv_price l"] by (auto simp: side_ok_def)
  qed simp
qed

interpretation side: keyed_store side_get set_level drop_level side_ok
  by unfold_locales (simp_all add: side_get_set side_get_drop side_ok_set side_ok_drop)

text \<open>A change is a write: a positive quantity stores, anything else removes.\<close>

definition change_write :: "change \<Rightarrow> real \<times> real option" where
  "change_write ch = (ch_p ch, if ch_q ch > 0 then Some (ch_q ch) else None)"

lemma apply_changes_run:
  "foldl apply_change ls chs = run_writes set_level drop_level (map change_write chs) ls"
proof -
  have "apply_change ls ch = write_one set_level drop_level ls (change_write ch)" for ls ch
    by (simp add: apply_change_def write_one_def change_write_def)
  then show ?thesis
    by (induction chs arbitrary: ls) (simp_all add: run_writes_def)
qed

lemma mset_sort_side: "mset (sort_side s ls) = mset ls"
  by (cases s) (simp_all add: sort_side_def)

lemma side_ok_mset: "mset xs = mset ys \<Longrightarrow> side_ok xs = side_ok ys"
  unfolding side_ok_def by (metis mset_eq_imp_distinct_iff mset_map)

lemma side_get_mset:
  assumes "mset xs = mset ys" and "side_ok xs"
  shows "side_get xs = side_get ys"
proof -
  let ?f = "map (\<lambda>l. (lv_price l, lv_quantity l))"
  have "distinct (map fst (?f xs))" and "distinct (map fst (?f ys))"
    using assms(2) side_ok_mset [OF assms(1)] by (simp_all add: side_ok_def comp_def)
  moreover have "set (?f xs) = set (?f ys)"
    using mset_eq_setD [OF assms(1)] by simp
  ultimately show ?thesis
    unfolding side_get_def by (rule map_of_inject_set [THEN iffD2])
qed

lemma side_ok_deltas: "side_ok ls \<Longrightarrow> side_ok (apply_deltas s chs ls)"
  using side.inv_run side_ok_mset [OF mset_sort_side]
  by (simp add: apply_deltas_def apply_changes_run)

lemma side_get_deltas:
  assumes "side_ok ls"
  shows "side_get (apply_deltas s chs ls) p =
    (case last_write (map change_write chs) p of None \<Rightarrow> side_get ls p | Some v \<Rightarrow> v)"
proof -
  let ?raw = "run_writes set_level drop_level (map change_write chs) ls"
  have "side_get (sort_side s ?raw) = side_get ?raw"
    using side_ok_mset [OF mset_sort_side] side.inv_run [OF assms]
    by (intro side_get_mset [OF mset_sort_side]) auto
  then show ?thesis
    using side.look_run [OF assms] by (simp add: apply_deltas_def apply_changes_run)
qed

definition side_sorted :: "side \<Rightarrow> level list \<Rightarrow> bool" where
  "side_sorted s ls \<longleftrightarrow>
     (case s of Bids \<Rightarrow> sorted_wrt (\<lambda>a b. lv_price a \<ge> lv_price b) ls
      | Asks \<Rightarrow> sorted_wrt (\<lambda>a b. lv_price a \<le> lv_price b) ls)"

lemma side_sorted_sort: "side_sorted s (sort_side s ls)"
proof (cases s)
  case Bids
  have "sorted (map (\<lambda>l. - lv_price l) (sort_key (\<lambda>l. - lv_price l) ls))" by (rule sorted_sort_key)
  then show ?thesis by (simp add: Bids side_sorted_def sort_side_def sorted_wrt_map)
next
  case Asks
  have "sorted (map lv_price (sort_key lv_price ls))" by (rule sorted_sort_key)
  then show ?thesis by (simp add: Asks side_sorted_def sort_side_def sorted_wrt_map)
qed

lemma side_sorted_deltas: "side_sorted s (apply_deltas s chs ls)"
  by (simp add: apply_deltas_def side_sorted_sort)

definition side_positive :: "level list \<Rightarrow> bool" where
  "side_positive ls \<longleftrightarrow> (\<forall>l \<in> set ls. lv_quantity l > 0)"

lemma side_positive_change: "side_positive ls \<Longrightarrow> side_positive (apply_change ls ch)"
proof -
  have "side_positive ls \<Longrightarrow> q > 0 \<Longrightarrow> side_positive (set_level p q ls)" for p q
    by (induction ls) (auto simp: side_positive_def)
  moreover have "side_positive ls \<Longrightarrow> side_positive (drop_level p ls)" for p
    by (induction ls) (auto simp: side_positive_def)
  ultimately show "side_positive ls \<Longrightarrow> side_positive (apply_change ls ch)"
    by (simp add: apply_change_def)
qed

lemma side_positive_deltas: "side_positive ls \<Longrightarrow> side_positive (apply_deltas s chs ls)"
proof -
  assume "side_positive ls"
  then have "side_positive (foldl apply_change ls chs)"
    by (induction chs arbitrary: ls) (auto intro: side_positive_change)
  then show ?thesis
    using mset_sort_side [of s "foldl apply_change ls chs"]
    by (metis apply_deltas_def set_mset_mset side_positive_def)
qed

section \<open>Whole books\<close>

definition book_ok :: "book \<Rightarrow> bool" where
  "book_ok b \<longleftrightarrow> side_ok (bk_bids b) \<and> side_ok (bk_asks b) \<and>
     side_sorted Bids (bk_bids b) \<and> side_sorted Asks (bk_asks b) \<and>
     side_positive (bk_bids b) \<and> side_positive (bk_asks b)"

definition books_ok :: "(string, book) jsmap \<Rightarrow> bool" where
  "books_ok bs \<longleftrightarrow> (\<forall>p \<in> set bs. book_ok (snd p))"

lemma book_ok_delta: "book_ok b \<Longrightarrow> book_ok (apply_book_delta d b)"
  by (auto simp: book_ok_def apply_book_delta_def Let_def side_ok_deltas side_sorted_deltas
      side_positive_deltas split: option.splits)

lemma books_ok_set: "books_ok bs \<Longrightarrow> book_ok b \<Longrightarrow> books_ok (map_set k b bs)"
  unfolding books_ok_def using set_map_set [of k b bs] by fastforce

lemma books_ok_deltas: "books_ok bs \<Longrightarrow> books_ok (apply_orderbook_deltas ds bs)"
  unfolding apply_orderbook_deltas_def
proof (induction ds arbitrary: bs)
  case (Cons d ds)
  have "book_ok b" if "map_get bs (fst d) = Some b" for b
    using Cons.prems map_of_SomeD [OF that] by (auto simp: books_ok_def)
  then show ?case
    using Cons by (cases d) (auto intro!: Cons.IH books_ok_set book_ok_delta split: option.splits)
qed simp

text \<open>A delta for a book the client never received is ignored, and no delta adds a key.\<close>

lemma keys_orderbook_deltas:
  "fst ` set (apply_orderbook_deltas ds bs) = fst ` set bs"
  unfolding apply_orderbook_deltas_def
proof (induction ds arbitrary: bs)
  case (Cons d ds)
  obtain key delta where d: "d = (key, delta)" by (cases d)
  show ?case
  proof (cases "map_get bs key")
    case None
    then show ?thesis using Cons d by simp
  next
    case (Some b)
    then have "key \<in> fst ` set bs" by (force dest: map_of_SomeD)
    then have "fst ` set (map_set key (apply_book_delta delta b) bs) = fst ` set bs"
      using keys_map_set [of key "apply_book_delta delta b" bs] by auto
    then show ?thesis using Cons Some d by simp
  qed
qed simp

section \<open>The simulator's delta encoder\<close>

text \<open>A Python \<open>dict\<close> from prices to quantities; building it from levels keeps the last quantity
  of a repeated price.\<close>

definition level_dict :: "level list \<Rightarrow> (real, real) jsmap" where
  "level_dict ls = map_set_all lv_price lv_quantity ls []"

definition tolerance :: real where
  "tolerance = 1 / 10 ^ 12"

lemma tolerance_pos: "0 < tolerance"
  by (simp add: tolerance_def)

definition side_changes :: "(real, real) jsmap \<Rightarrow> (real, real) jsmap \<Rightarrow> change list" where
  "side_changes last_side current =
     map (\<lambda>(price, qty). \<lparr>ch_p = price, ch_q = qty\<rparr>)
       (filter (\<lambda>(price, qty).
           case map_get last_side price of None \<Rightarrow> True | Some old \<Rightarrow> \<bar>old - qty\<bar> > tolerance) current)
     @ map (\<lambda>price. \<lparr>ch_p = price, ch_q = 0\<rparr>)
         (filter (\<lambda>price. \<not> map_has current price) (map_keys last_side))"

text \<open>\<open>_compute_orderbook_delta\<close>: the new per-key state and \<open>None\<close> for a first snapshot,
  \<open>Some None\<close> for no change, \<open>Some (Some (bids, asks))\<close> for a delta.\<close>

definition compute_orderbook_delta ::
  "((real, real) jsmap \<times> (real, real) jsmap) option \<Rightarrow> level list \<Rightarrow> level list \<Rightarrow>
   ((real, real) jsmap \<times> (real, real) jsmap) \<times> (change list \<times> change list) option option" where
  "compute_orderbook_delta last_books bids asks =
     (let current_bids = level_dict bids; current_asks = level_dict asks;
          new = (current_bids, current_asks)
      in case last_books of
           None \<Rightarrow> (new, None)
         | Some (last_bids, last_asks) \<Rightarrow>
             (let bid_changes = side_changes last_bids current_bids;
                  ask_changes = side_changes last_asks current_asks
              in (new, Some (if bid_changes = [] \<and> ask_changes = [] then None
                             else Some (bid_changes, ask_changes)))))"

lemma level_dict_ok: "map_ok (level_dict ls)"
  by (simp add: level_dict_def map_set_all_ok)

lemma level_dict_get:
  assumes "side_ok ls"
  shows "map_get (level_dict ls) = side_get ls"
proof -
  have "map_get (map_set_all lv_price lv_quantity ls m) p =
      (case side_get ls p of None \<Rightarrow> map_get m p | Some q \<Rightarrow> Some q)" if "side_ok ls" for m p
    using that
  proof (induction ls arbitrary: m)
    case (Cons l ls)
    then show ?case
      using side_get_None [of ls "lv_price l"] by (auto simp: side_ok_def split: option.splits)
  qed simp
  with assms show ?thesis by (auto simp: level_dict_def fun_eq_iff split: option.splits)
qed

lemma last_write_append:
  "last_write (xs @ ys) k = (case last_write ys k of None \<Rightarrow> last_write xs k | Some v \<Rightarrow> Some v)"
  by (simp add: last_write_def map_add_def split: option.splits)

lemma last_write_distinct:
  assumes "distinct (map fst ws)"
  shows "last_write ws k = map_of ws k"
proof -
  have "distinct (map fst (rev ws))" using assms by (simp add: rev_map [symmetric])
  then have "map_of (rev ws) = map_of ws"
    using map_of_inject_set [OF _ assms] by (metis set_rev)
  then show ?thesis by (simp add: last_write_def)
qed

text \<open>What the encoded changes write at each price.\<close>

lemma last_write_changes:
  assumes ok: "map_ok lst" "map_ok cur" and pos: "\<forall>pq \<in> set cur. snd pq > 0"
  shows "last_write (map change_write (side_changes lst cur)) p =
    (case map_get cur p of
       Some q \<Rightarrow> (case map_get lst p of None \<Rightarrow> Some (Some q)
                 | Some old \<Rightarrow> if \<bar>old - q\<bar> > tolerance then Some (Some q) else None)
     | None \<Rightarrow> (if map_has lst p then Some None else None))"
proof -
  let ?P = "\<lambda>(price, qty). case map_get lst price of None \<Rightarrow> True | Some old \<Rightarrow> \<bar>old - qty\<bar> > tolerance"
  let ?A = "map (\<lambda>(p, q). (p, if q > 0 then Some q else None)) (filter ?P cur)"
  let ?B = "map (\<lambda>p. (p, None :: real option)) (filter (\<lambda>p. \<not> map_has cur p) (map_keys lst))"
  have split: "map change_write (side_changes lst cur) = ?A @ ?B"
    by (auto simp: side_changes_def change_write_def)
  have fstA: "map fst ?A = map fst (filter ?P cur)" and fstB: "map fst ?B = filter (\<lambda>p. \<not> map_has cur p) (map_keys lst)"
    by (auto simp: comp_def)
  have dA: "distinct (map fst ?A)" unfolding fstA using ok by (simp add: map_ok_def distinct_map_filter)
  have dB: "distinct (map fst ?B)" unfolding fstB using ok by (simp add: map_ok_def)
  have B: "last_write ?B p = (if map_has lst p \<and> \<not> map_has cur p then Some None else None)"
    unfolding last_write_distinct [OF dB]
    by (auto simp: map_of_eq_None_iff map_of_map_restrict restrict_map_def)
  have A: "last_write ?A p = (case map_get cur p of None \<Rightarrow> None
      | Some q \<Rightarrow> if ?P (p, q) then Some (Some q) else None)"
  proof (cases "map_get cur p")
    case None
    then have "p \<notin> fst ` set ?A" by (auto simp: map_of_eq_None_iff image_iff)
    then have "map_of ?A p = None" by (rule map_of_eq_None_iff [THEN iffD2])
    with None show ?thesis unfolding last_write_distinct [OF dA] by simp
  next
    case (Some q)
    then have mem: "(p, q) \<in> set cur" by (rule map_of_SomeD)
    with pos have "q > 0" by force
    show ?thesis
    proof (cases "?P (p, q)")
      case True
      with mem \<open>q > 0\<close> have "(p, Some q) \<in> set ?A" by (force simp: image_iff)
      then show ?thesis using True Some dA unfolding last_write_distinct [OF dA] by simp
    next
      case False
      then have "p \<notin> fst ` set ?A"
        using mem ok(2) by (auto simp: image_iff map_ok_def dest: eq_key_imp_eq_value)
      then have "map_of ?A p = None" by (rule map_of_eq_None_iff [THEN iffD2])
      then show ?thesis using False Some unfolding last_write_distinct [OF dA] by simp
    qed
  qed
  show ?thesis
    unfolding split last_write_append A B by (auto split: option.splits)
qed

section \<open>The protocol\<close>

text \<open>
  One broadcast of a book: the simulator compares with what it sent last and sends the full book, nothing, or a delta, which the
  client takes over. \<open>rest\<close> is the remainder of a full book.
\<close>

type_synonym sent_books = "((real, real) jsmap \<times> (real, real) jsmap) option"

definition broadcast_book :: "json \<Rightarrow> level list \<times> level list \<Rightarrow> sent_books \<times> book \<Rightarrow> sent_books \<times> book" where
  "broadcast_book rest snapshot st =
     (case (snapshot, st) of ((bids, asks), (last_books, client)) \<Rightarrow>
        (case compute_orderbook_delta last_books bids asks of (new, d) \<Rightarrow>
           (Some new,
            case d of
              None \<Rightarrow> \<lparr>bk_bids = bids, bk_asks = asks, bk_rest = rest\<rparr>
            | Some None \<Rightarrow> client
            | Some (Some (b, a)) \<Rightarrow> apply_book_delta \<lparr>dl_bids = Some b, dl_asks = Some a\<rparr> client)))"

definition broadcast_books :: "json \<Rightarrow> (level list \<times> level list) list \<Rightarrow> sent_books \<times> book \<Rightarrow> sent_books \<times> book" where
  "broadcast_books rest snapshots st = foldl (\<lambda>st snapshot. broadcast_book rest snapshot st) st snapshots"

text \<open>A side shows the prices of another one, with quantities off by at most \<open>e\<close>.\<close>

definition shows_side :: "real \<Rightarrow> level list \<Rightarrow> level list \<Rightarrow> bool" where
  "shows_side e shown true_side \<longleftrightarrow>
     (\<forall>p. case side_get true_side p of
        None \<Rightarrow> side_get shown p = None
      | Some q \<Rightarrow> (case side_get shown p of None \<Rightarrow> False | Some q' \<Rightarrow> \<bar>q' - q\<bar> \<le> e))"

lemma shows_side_self: "shows_side 0 ls ls"
  by (auto simp: shows_side_def split: option.splits)

text \<open>
  The changes between two dictionaries, applied to a side that shows the old one within \<open>e\<close>, lead to the new one within one tolerance
  more: a change below the tolerance is not sent, and the next one is measured from the quantity that was not sent.
\<close>

lemma shows_side_delta:
  assumes shown: "shows_side e shown old" and e: "0 \<le> e"
    and ok: "side_ok shown" "side_ok old" "side_ok new" and pos: "side_positive new"
  shows "shows_side (e + tolerance) (apply_deltas s (side_changes (level_dict old) (level_dict new)) shown) new"
proof -
  have "\<forall>pq \<in> set (level_dict new). snd pq > 0"
    using set_map_set_all [of lv_price lv_quantity new "[]"] pos
    by (fastforce simp: level_dict_def side_positive_def)
  note lw = last_write_changes [OF level_dict_ok level_dict_ok this, of old]
  show ?thesis
    unfolding shows_side_def
  proof (intro allI)
    fix p
    have "case side_get old p of None \<Rightarrow> side_get shown p = None
        | Some q \<Rightarrow> (case side_get shown p of None \<Rightarrow> False | Some q' \<Rightarrow> \<bar>q' - q\<bar> \<le> e)"
      using shown by (simp add: shows_side_def)
    then show "case side_get new p of None \<Rightarrow> side_get (apply_deltas s (side_changes (level_dict old) (level_dict new)) shown) p = None
        | Some q \<Rightarrow> (case side_get (apply_deltas s (side_changes (level_dict old) (level_dict new)) shown) p of None \<Rightarrow> False
            | Some q' \<Rightarrow> \<bar>q' - q\<bar> \<le> e + tolerance)"
      unfolding side_get_deltas [OF ok(1)] lw using e tolerance_pos
      by (auto simp: level_dict_get ok split: option.splits)
  qed
qed

lemma shows_side_unchanged:
  assumes shown: "shows_side e shown old" and e: "0 \<le> e"
    and ok: "side_ok shown" "side_ok old" "side_ok new" and pos: "side_positive new"
    and same: "side_changes (level_dict old) (level_dict new) = []"
  shows "shows_side (e + tolerance) shown new"
proof -
  have "side_get (apply_deltas Bids [] shown) p = side_get shown p" for p
    by (simp add: side_get_deltas [OF ok(1)] last_write_def)
  then show ?thesis
    using shows_side_delta [OF assms(1-6), of Bids] unfolding same shows_side_def by metis
qed

definition snapshot_ok :: "level list \<times> level list \<Rightarrow> bool" where
  "snapshot_ok b \<longleftrightarrow> side_ok (fst b) \<and> side_ok (snd b) \<and> side_positive (fst b) \<and> side_positive (snd b)"

definition in_step :: "real \<Rightarrow> level list \<times> level list \<Rightarrow> sent_books \<times> book \<Rightarrow> bool" where
  "in_step e b st \<longleftrightarrow> fst st = Some (level_dict (fst b), level_dict (snd b)) \<and>
     side_ok (bk_bids (snd st)) \<and> side_ok (bk_asks (snd st)) \<and>
     shows_side e (bk_bids (snd st)) (fst b) \<and> shows_side e (bk_asks (snd st)) (snd b)"

lemma broadcast_first: "snapshot_ok b \<Longrightarrow> in_step 0 b (broadcast_book rest b (None, client))"
  by (cases b) (simp add: broadcast_book_def compute_orderbook_delta_def in_step_def snapshot_ok_def shows_side_self Let_def)

lemma broadcast_next:
  assumes st: "in_step e old st" and e: "0 \<le> e" and ok: "snapshot_ok old" "snapshot_ok new"
  shows "in_step (e + tolerance) new (broadcast_book rest new st)"
proof -
  obtain client where c: "st = (Some (level_dict (fst old), level_dict (snd old)), client)"
    using st by (cases st) (simp add: in_step_def)
  obtain bids asks where new: "new = (bids, asks)" by fastforce
  let ?b = "side_changes (level_dict (fst old)) (level_dict bids)" and ?a = "side_changes (level_dict (snd old)) (level_dict asks)"
  have h: "shows_side e (bk_bids client) (fst old)" "shows_side e (bk_asks client) (snd old)" "side_ok (bk_bids client)" "side_ok (bk_asks client)"
    using st by (simp_all add: in_step_def c)
  have o: "side_ok (fst old)" "side_ok (snd old)" "side_ok bids" "side_ok asks" "side_positive bids" "side_positive asks"
    using ok by (simp_all add: snapshot_ok_def new)
  note delta = shows_side_delta [OF h(1) e h(3) o(1) o(3) o(5), of Bids] shows_side_delta [OF h(2) e h(4) o(2) o(4) o(6), of Asks]
  note unchanged = shows_side_unchanged [OF h(1) e h(3) o(1) o(3) o(5)] shows_side_unchanged [OF h(2) e h(4) o(2) o(4) o(6)]
  show ?thesis
  proof (cases "?b = [] \<and> ?a = []")
    case True
    then show ?thesis
      using h unchanged by (simp add: broadcast_book_def compute_orderbook_delta_def in_step_def c new Let_def)
  next
    case False
    then show ?thesis
      using h delta False
      by (auto simp: broadcast_book_def compute_orderbook_delta_def in_step_def c new Let_def apply_book_delta_def side_ok_deltas)
  qed
qed

section \<open>Properties\<close>

text \<open>
  C5: applying deltas refines writing to a map from prices to quantities. After any list of
  changes the quantity shown at a price is the one of the last change at that price when it was
  positive, nothing when that change was not positive, and the old one when no change named the
  price; prices stay unique and the side comes out sorted, best price first.
\<close>
theorem apply_deltas_refines_writes:
  assumes "side_ok levels"
  shows "(\<forall>p. side_get (apply_deltas s changes levels) p =
      (case last_write (map change_write changes) p of None \<Rightarrow> side_get levels p | Some v \<Rightarrow> v)) \<and>
    side_ok (apply_deltas s changes levels) \<and> side_sorted s (apply_deltas s changes levels)"
  using side_get_deltas [OF assms] side_ok_deltas [OF assms] side_sorted_deltas by blast

theorem apply_deltas_refines_writes_witness:
  "side_get (apply_deltas Bids [\<lparr>ch_p = 100, ch_q = 0\<rparr>, \<lparr>ch_p = 101, ch_q = 2\<rparr>]
      [\<lparr>lv_price = 100, lv_quantity = 5\<rparr>]) 101 = Some 2"
proof -
  have ok: "side_ok [\<lparr>lv_price = 100, lv_quantity = 5\<rparr>]" by (simp add: side_ok_def)
  show ?thesis
    using apply_deltas_refines_writes [OF ok, of Bids
        "[\<lparr>ch_p = 100, ch_q = 0\<rparr>, \<lparr>ch_p = 101, ch_q = 2\<rparr>]"]
    by (simp add: last_write_def change_write_def)
qed

text \<open>
  C6: the delta protocol round-trips. Over any sequence of snapshots whose sides have distinct prices and positive quantities, the first
  sent in full and the others as what the encoder makes of them, the client's book has on each side exactly the prices of the
  simulator's current book, and after \<open>n\<close> deltas its quantities are those of the simulator up to \<open>n\<close> times the encoder's tolerance of
  1e-12: changes below the tolerance are not sent, and they add up.
\<close>
theorem delta_roundtrip:
  assumes "list_all snapshot_ok (first # later)"
  shows "shows_side (real (length later) * tolerance)
      (bk_bids (snd (broadcast_books rest (first # later) (None, client)))) (fst (last (first # later))) \<and>
    shows_side (real (length later) * tolerance)
      (bk_asks (snd (broadcast_books rest (first # later) (None, client)))) (snd (last (first # later)))"
proof -
  have "in_step (real (length later) * tolerance) (last (first # later)) (broadcast_books rest (first # later) (None, client))"
    using assms
  proof (induction later rule: rev_induct)
    case Nil
    then show ?case by (simp add: broadcast_books_def broadcast_first)
  next
    case (snoc b later)
    have "0 \<le> real (length later) * tolerance" by (simp add: tolerance_def)
    moreover have "snapshot_ok (last (first # later))" using snoc.prems by (auto simp: list_all_iff)
    ultimately have "in_step (real (length later) * tolerance + tolerance) b
        (broadcast_book rest b (broadcast_books rest (first # later) (None, client)))"
      using snoc by (intro broadcast_next) simp_all
    then show ?case by (simp add: broadcast_books_def algebra_simps)
  qed
  then show ?thesis by (simp add: in_step_def)
qed

theorem delta_roundtrip_witness:
  "shows_side (real 1 * tolerance)
    (bk_asks (snd (broadcast_books JNull [([], [\<lparr>lv_price = 7, lv_quantity = 1\<rparr>]), ([], [\<lparr>lv_price = 8, lv_quantity = 3\<rparr>])]
       (None, \<lparr>bk_bids = [], bk_asks = [], bk_rest = JNull\<rparr>)))) [\<lparr>lv_price = 8, lv_quantity = 3\<rparr>]"
  using delta_roundtrip [of "([], [\<lparr>lv_price = 7, lv_quantity = 1\<rparr>])" "[([], [\<lparr>lv_price = 8, lv_quantity = 3\<rparr>])]" JNull
      "\<lparr>bk_bids = [], bk_asks = [], bk_rest = JNull\<rparr>"]
  by (simp add: snapshot_ok_def side_ok_def side_positive_def)

end
