(* ===== verification/ExchangeFeed.thy ===== *)
theory ExchangeFeed
  imports Candles OrderBook
begin

text \<open>
  The exchange data hook, \<open>hooks/useExchangeData.js\<close>: its React state and refs as one record,
  \<open>handleExchangeMessage\<close> as one function per message type, order submission with its
  acknowledgement bookkeeping, and the outgoing commands. A functional state update
  \<open>setX(prev => f prev)\<close> is applied at once, in program order; \<open>Date.now()\<close>, the random part of
  a generated order id and the result of sending are arguments. \<open>sendExchange\<close> is the \<open>send\<close> of
  \<open>WebSocketClient\<close>; here what is handed to it is appended to \<open>ef_outbox\<close>.
\<close>

section \<open>State and messages\<close>

record order =
  or_id :: string
  or_exchange :: string
  or_status :: string
  or_cid :: string
  or_rest :: json

text \<open>A missing string field is the empty string: both are falsy, which is all the code tests.\<close>

record fill =
  fl_order :: "order option"
  fl_received_at :: int

record feed_msg =
  fm_seq :: "int option"
  fm_timestamp :: "int option"
  fm_candles :: "candle list option"
  fm_prices :: "json option"
  fm_accounts :: "json option"
  fm_orderbooks :: "(string, book) jsmap option"
  fm_deltas :: "(string, book_delta) jsmap option"
  fm_funding_rates :: "json option"
  fm_candles_to_funding :: "real option"
  fm_news_event :: "json option"
  fm_weekend_mode :: "bool option"
  fm_trading_active :: "bool option"
  fm_open_orders :: "(string, order list) jsmap option"

datatype exchange_msg =
    MarketData feed_msg  \<comment> \<open>types \<open>snapshot\<close>, \<open>candles\<close> and \<open>sync_state\<close>\<close>
  | FillMsg "order option"
  | FillsBatch "order list option"
  | OrderCancelled "order option"
  | OrdersCancelled string "string list option"
  | ErrorMsg "string option"
  | ArbitrageScan json
  | OptionsChainMsg json
  | ReplayState "bool option"
  | TradingState "bool option"
  | ReplayCandles "candle list option"
  | AuditLogs "json list option"
  | OtherMsg json

datatype out_msg =
    OutSyncState int
  | OutOrder order string
  | OutCancelOrder string string
  | OutCancelAll string "string option"
  | OutClosePosition string string
  | OutOptionsChain string "json option" "json option"
  | OutSetSpeed json
  | OutUpdateConfig json
  | OutReplay string "json option"
  | OutStartTrading
  | OutStopTrading

text \<open>A promise of \<open>submitOrder\<close> is a number; \<open>ef_settled\<close> logs the calls of \<open>resolve\<close> in order, with
  \<open>None\<close> for \<open>null\<close>. A running timeout remembers the client order id and the promise its callback
  closes over.\<close>

record pending_ack =
  pa_promise :: nat
  pa_timer :: "nat option"

text \<open>
  \<open>lastError\<close> is the object built from an error message, or the bare string that the socket error effect
  stores.
\<close>

datatype last_error = ErrorObject string int | ErrorString string

record exchange_state =
  ef_candles :: "candle list"
  ef_prices :: json
  ef_accounts :: json
  ef_arbitrage :: "json option"
  ef_fills :: "fill list"
  ef_audit_logs :: "json list"
  ef_orderbooks :: "(string, book) jsmap"
  ef_funding_rates :: json
  ef_candles_to_funding :: "real option"
  ef_news_event :: json
  ef_weekend_mode :: bool
  ef_replay_paused :: bool
  ef_trading_active :: bool
  ef_options_chain :: "json option"
  ef_last_error :: "last_error option"
  ef_open_orders :: "(string, order) jsmap"
  ef_last_timestamp :: int
  ef_candle_map :: candle_cache
  ef_pending :: "(string, pending_ack) jsmap"
  ef_last_seq :: int
  ef_last_resync :: int
  ef_sender_ready :: bool
  ef_outbox :: "out_msg list"
  ef_settled :: "(nat \<times> order option) list"
  ef_timers :: "(nat \<times> string \<times> nat) list"
  ef_next_promise :: nat
  ef_next_timer :: nat

definition init_exchange :: exchange_state where
  "init_exchange = \<lparr>
     ef_candles = [], ef_prices = JObj [], ef_accounts = JObj [], ef_arbitrage = None,
     ef_fills = [], ef_audit_logs = [], ef_orderbooks = [], ef_funding_rates = JObj [],
     ef_candles_to_funding = None, ef_news_event = JNull, ef_weekend_mode = False,
     ef_replay_paused = False, ef_trading_active = True, ef_options_chain = None,
     ef_last_error = None, ef_open_orders = [], ef_last_timestamp = 0, ef_candle_map = [],
     ef_pending = [], ef_last_seq = 0, ef_last_resync = 0, ef_sender_ready = False,
     ef_outbox = [], ef_settled = [], ef_timers = [], ef_next_promise = 0, ef_next_timer = 0\<rparr>"

definition cap_fills :: nat where
  "cap_fills = 50"

definition cap_audit :: nat where
  "cap_audit = 200"

definition ack_window_ms :: int where
  "ack_window_ms = 5000"

section \<open>Order tracking and acknowledgements\<close>

definition order_key :: "string \<Rightarrow> string \<Rightarrow> string" where
  "order_key exchange oid = bar_join exchange oid"

definition track_order :: "order option \<Rightarrow> (string, order) jsmap \<Rightarrow> (string, order) jsmap" where
  "track_order ord prev =
     (case ord of
        None \<Rightarrow> prev
      | Some o1 \<Rightarrow>
          if or_id o1 = [] \<or> or_exchange o1 = [] then prev
          else let key = order_key (or_exchange o1) (or_id o1) in
            if or_status o1 = ''PENDING''
            then (if map_has prev key then prev else map_set key o1 prev)
            else (if map_has prev key then map_delete key prev else prev))"

definition track_order_status :: "order option \<Rightarrow> exchange_state \<Rightarrow> exchange_state" where
  "track_order_status ord s = s\<lparr>ef_open_orders := track_order ord (ef_open_orders s)\<rparr>"

definition clear_timer :: "nat option \<Rightarrow> exchange_state \<Rightarrow> exchange_state" where
  "clear_timer t s =
     (case t of None \<Rightarrow> s | Some i \<Rightarrow> s\<lparr>ef_timers := filter (\<lambda>x. fst x \<noteq> i) (ef_timers s)\<rparr>)"

definition resolve_ack :: "order option \<Rightarrow> exchange_state \<Rightarrow> exchange_state" where
  "resolve_ack ord s =
     (case ord of
        None \<Rightarrow> s
      | Some o1 \<Rightarrow>
          if or_cid o1 = [] then s
          else (case map_get (ef_pending s) (or_cid o1) of
                  None \<Rightarrow> s
                | Some pending \<Rightarrow>
                    (let s1 = s\<lparr>ef_pending := map_delete (or_cid o1) (ef_pending s)\<rparr>;
                         s2 = clear_timer (pa_timer pending) s1
                     in s2\<lparr>ef_settled := ef_settled s2 @ [(pa_promise pending, ord)]\<rparr>)))"

section \<open>The message handler\<close>

definition emit :: "out_msg \<Rightarrow> exchange_state \<Rightarrow> exchange_state" where
  "emit m s = s\<lparr>ef_outbox := ef_outbox s @ [m]\<rparr>"

definition check_seq :: "int \<Rightarrow> int option \<Rightarrow> exchange_state \<Rightarrow> exchange_state" where
  "check_seq now sq s =
     (case sq of
        None \<Rightarrow> s
      | Some n \<Rightarrow>
          (let lst = ef_last_seq s;
               s1 = (if lst \<noteq> 0 \<and> n > lst + 1 \<and> now - ef_last_resync s > 5000
                     then (let s0 = s\<lparr>ef_last_resync := now\<rparr>
                           in if ef_sender_ready s then emit (OutSyncState (ef_last_timestamp s)) s0 else s0)
                     else s)
           in s1\<lparr>ef_last_seq := n\<rparr>))"

definition bump_timestamp :: "int option \<Rightarrow> exchange_state \<Rightarrow> exchange_state" where
  "bump_timestamp ts s =
     (case ts of
        None \<Rightarrow> s
      | Some t \<Rightarrow> if t = 0 then s else s\<lparr>ef_last_timestamp := max (ef_last_timestamp s) t\<rparr>)"

definition store_candles :: "candle list option \<Rightarrow> exchange_state \<Rightarrow> exchange_state" where
  "store_candles cs s =
     (case cs of
        None \<Rightarrow> s
      | Some xs \<Rightarrow> (case ingest_candles xs (ef_candle_map s) of
          (m, shown) \<Rightarrow> s\<lparr>ef_candle_map := m, ef_candles := shown\<rparr>))"

definition flatten_open_orders :: "(string, order list) jsmap \<Rightarrow> (string, order) jsmap" where
  "flatten_open_orders byex =
     map_set_all (\<lambda>o1. order_key (or_exchange o1) (or_id o1)) (\<lambda>o1. o1) (concat (map_values byex)) []"

definition handle_market_data :: "int \<Rightarrow> feed_msg \<Rightarrow> exchange_state \<Rightarrow> exchange_state" where
  "handle_market_data now d s0 =
     (let s1 = check_seq now (fm_seq d) s0;
          s2 = bump_timestamp (fm_timestamp d) s1;
          s3 = store_candles (fm_candles d) s2;
          s4 = (case fm_prices d of None \<Rightarrow> s3 | Some p \<Rightarrow> s3\<lparr>ef_prices := p\<rparr>);
          s5 = (case fm_accounts d of None \<Rightarrow> s4 | Some a \<Rightarrow> s4\<lparr>ef_accounts := a\<rparr>);
          s6 = (case fm_orderbooks d of None \<Rightarrow> s5 | Some b \<Rightarrow> s5\<lparr>ef_orderbooks := b\<rparr>);
          s7 = (case fm_deltas d of None \<Rightarrow> s6
                | Some ds \<Rightarrow> s6\<lparr>ef_orderbooks := apply_orderbook_deltas ds (ef_orderbooks s6)\<rparr>);
          s8 = (case fm_funding_rates d of None \<Rightarrow> s7 | Some f \<Rightarrow> s7\<lparr>ef_funding_rates := f\<rparr>);
          s9 = (case fm_candles_to_funding d of None \<Rightarrow> s8 | Some c \<Rightarrow> s8\<lparr>ef_candles_to_funding := Some c\<rparr>);
          s10 = (case fm_news_event d of None \<Rightarrow> s9 | Some n \<Rightarrow> s9\<lparr>ef_news_event := n\<rparr>);
          s11 = (case fm_weekend_mode d of None \<Rightarrow> s10 | Some w \<Rightarrow> s10\<lparr>ef_weekend_mode := w\<rparr>);
          s12 = (case fm_trading_active d of None \<Rightarrow> s11 | Some t \<Rightarrow> s11\<lparr>ef_trading_active := t\<rparr>)
      in (case fm_open_orders d of None \<Rightarrow> s12
          | Some os \<Rightarrow> s12\<lparr>ef_open_orders := flatten_open_orders os\<rparr>))"

definition push_fills :: "fill list \<Rightarrow> fill list \<Rightarrow> fill list" where
  "push_fills new prev = slice_first cap_fills (new @ prev)"

definition push_audit :: "json list \<Rightarrow> json list \<Rightarrow> json list" where
  "push_audit logs prev = slice_first cap_audit (logs @ prev)"

definition handle_fill :: "int \<Rightarrow> order option \<Rightarrow> exchange_state \<Rightarrow> exchange_state" where
  "handle_fill now ord s =
     resolve_ack ord (track_order_status ord
       (s\<lparr>ef_fills := push_fills [\<lparr>fl_order = ord, fl_received_at = now\<rparr>] (ef_fills s)\<rparr>))"

definition handle_fills_batch :: "int \<Rightarrow> order list option \<Rightarrow> exchange_state \<Rightarrow> exchange_state" where
  "handle_fills_batch now orders s =
     (case orders of
        None \<Rightarrow> s
      | Some os \<Rightarrow>
          if os = [] then s
          else foldl (\<lambda>t o1. resolve_ack (Some o1) (track_order_status (Some o1) t))
             (s\<lparr>ef_fills := push_fills (map (\<lambda>o1. \<lparr>fl_order = Some o1, fl_received_at = now\<rparr>) os) (ef_fills s)\<rparr>) os)"

definition handle_order_cancelled :: "order option \<Rightarrow> exchange_state \<Rightarrow> exchange_state" where
  "handle_order_cancelled ord s =
     (case ord of
        None \<Rightarrow> s
      | Some o1 \<Rightarrow>
          if or_id o1 = [] then s
          else let key = order_key (or_exchange o1) (or_id o1) in
            if map_has (ef_open_orders s) key
            then s\<lparr>ef_open_orders := map_delete key (ef_open_orders s)\<rparr> else s)"

definition handle_orders_cancelled :: "string \<Rightarrow> string list option \<Rightarrow> exchange_state \<Rightarrow> exchange_state" where
  "handle_orders_cancelled exchange order_ids s =
     (case order_ids of
        None \<Rightarrow> s
      | Some xs \<Rightarrow>
          if xs = [] then s
          else let ids = set (map (order_key exchange) xs);
                   nxt = filter (\<lambda>p. fst p \<notin> ids) (ef_open_orders s)
               in if length nxt = length (ef_open_orders s) then s else s\<lparr>ef_open_orders := nxt\<rparr>)"

definition handle_audit_logs :: "json list option \<Rightarrow> exchange_state \<Rightarrow> exchange_state" where
  "handle_audit_logs logs s =
     (case logs of
        None \<Rightarrow> s
      | Some xs \<Rightarrow> if xs = [] then s else s\<lparr>ef_audit_logs := push_audit xs (ef_audit_logs s)\<rparr>)"

definition handle_replay_candles :: "candle list option \<Rightarrow> exchange_state \<Rightarrow> exchange_state" where
  "handle_replay_candles cs s =
     (case cs of
        None \<Rightarrow> s
      | Some xs \<Rightarrow> (case replay_candles xs (ef_candle_map s) of
          (m, shown) \<Rightarrow> s\<lparr>ef_candle_map := m, ef_candles := shown\<rparr>))"

fun handle_exchange_message :: "int \<Rightarrow> exchange_msg \<Rightarrow> exchange_state \<Rightarrow> exchange_state" where
  "handle_exchange_message now (MarketData d) s = handle_market_data now d s"
| "handle_exchange_message now (FillMsg ord) s = handle_fill now ord s"
| "handle_exchange_message now (FillsBatch os) s = handle_fills_batch now os s"
| "handle_exchange_message now (OrderCancelled ord) s = handle_order_cancelled ord s"
| "handle_exchange_message now (OrdersCancelled ex ids) s = handle_orders_cancelled ex ids s"
| "handle_exchange_message now (ErrorMsg msg) s =
     s\<lparr>ef_last_error := Some (ErrorObject (case msg of None \<Rightarrow> ''Exchange error'' | Some m \<Rightarrow> if m = [] then ''Exchange error'' else m) now)\<rparr>"
| "handle_exchange_message now (ArbitrageScan d) s = s\<lparr>ef_arbitrage := Some d\<rparr>"
| "handle_exchange_message now (OptionsChainMsg d) s = s\<lparr>ef_options_chain := Some d\<rparr>"
| "handle_exchange_message now (ReplayState p) s = s\<lparr>ef_replay_paused := (p = Some True)\<rparr>"
| "handle_exchange_message now (TradingState a) s = s\<lparr>ef_trading_active := (a \<noteq> Some False)\<rparr>"
| "handle_exchange_message now (ReplayCandles cs) s = handle_replay_candles cs s"
| "handle_exchange_message now (AuditLogs logs) s = handle_audit_logs logs s"
| "handle_exchange_message now (OtherMsg d) s = s"

section \<open>Commands\<close>

definition start_timer :: "string \<Rightarrow> nat \<Rightarrow> exchange_state \<Rightarrow> nat \<times> exchange_state" where
  "start_timer cid promise s =
     (ef_next_timer s,
      s\<lparr>ef_timers := ef_timers s @ [(ef_next_timer s, cid, promise)], ef_next_timer := Suc (ef_next_timer s)\<rparr>)"

text \<open>\<open>submitOrder\<close>: \<open>fresh\<close> is the generated \<open>ui_<time>_<random>\<close> id and \<open>sent\<close> what \<open>sendExchange\<close> returned.\<close>

definition submit_order :: "string \<Rightarrow> bool \<Rightarrow> order \<Rightarrow> exchange_state \<Rightarrow> nat \<times> exchange_state" where
  "submit_order fresh sent ord s =
     (let cid = (if or_cid ord \<noteq> [] then or_cid ord else fresh);
          s1 = emit (OutOrder ord cid) s;
          promise = ef_next_promise s1;
          s2 = s1\<lparr>ef_next_promise := Suc promise,
                  ef_pending := map_set cid \<lparr>pa_promise = promise, pa_timer = None\<rparr> (ef_pending s1)\<rparr>
      in if sent
         then (case start_timer cid promise s2 of
                 (t, s3) \<Rightarrow> (promise, s3\<lparr>ef_pending :=
                    map_set cid \<lparr>pa_promise = promise, pa_timer = Some t\<rparr> (ef_pending s3)\<rparr>))
         else (promise, s2))"

text \<open>The callback of an acknowledgement timeout.\<close>

definition ack_timeout :: "nat \<Rightarrow> exchange_state \<Rightarrow> exchange_state" where
  "ack_timeout t s =
     (case map_of (ef_timers s) t of
        None \<Rightarrow> s
      | Some (cid, promise) \<Rightarrow>
          s\<lparr>ef_timers := filter (\<lambda>x. fst x \<noteq> t) (ef_timers s),
            ef_pending := map_delete cid (ef_pending s),
            ef_settled := ef_settled s @ [(promise, None)]\<rparr>)"

text \<open>The effect on \<open>exchangeConnected\<close>: orders queued while offline get their window now.\<close>

definition arm_pending :: "string \<times> pending_ack \<Rightarrow> exchange_state \<Rightarrow> exchange_state" where
  "arm_pending e s =
     (case e of (cid, pending) \<Rightarrow>
        if pa_timer pending = None
        then (case start_timer cid (pa_promise pending) s of
                (t, s1) \<Rightarrow> s1\<lparr>ef_pending := map_set cid (pending\<lparr>pa_timer := Some t\<rparr>) (ef_pending s1)\<rparr>)
        else s)"

definition on_connected_effect :: "bool \<Rightarrow> exchange_state \<Rightarrow> exchange_state" where
  "on_connected_effect conn s =
     (if \<not> conn then s else fold arm_pending (ef_pending s) s)"

text \<open>\<open>onOpen\<close> resets the sequence baseline.\<close>

definition on_socket_open :: "exchange_state \<Rightarrow> exchange_state" where
  "on_socket_open s = s\<lparr>ef_last_seq := 0\<rparr>"

definition on_socket_error :: "string option \<Rightarrow> exchange_state \<Rightarrow> exchange_state" where
  "on_socket_error e s = (case e of None \<Rightarrow> s | Some m \<Rightarrow> if m = [] then s else s\<lparr>ef_last_error := Some (ErrorString m)\<rparr>)"

definition cancel_order :: "string \<Rightarrow> string \<Rightarrow> exchange_state \<Rightarrow> exchange_state" where
  "cancel_order exchange orderId s = emit (OutCancelOrder exchange orderId) s"

definition cancel_all_orders :: "string \<Rightarrow> string \<Rightarrow> exchange_state \<Rightarrow> exchange_state" where
  "cancel_all_orders exchange symbol s =
     emit (OutCancelAll exchange (if symbol = [] then None else Some symbol)) s"

definition close_position :: "string \<Rightarrow> string \<Rightarrow> exchange_state \<Rightarrow> exchange_state" where
  "close_position exchange symbol s = emit (OutClosePosition exchange symbol) s"

definition request_options_chain ::
  "string \<Rightarrow> json option \<Rightarrow> json option \<Rightarrow> exchange_state \<Rightarrow> exchange_state" where
  "request_options_chain symbol strikes expiries s = emit (OutOptionsChain symbol strikes expiries) s"

definition send_speed_change :: "json \<Rightarrow> exchange_state \<Rightarrow> exchange_state" where
  "send_speed_change speed s = emit (OutSetSpeed speed) s"

definition send_config_update :: "json \<Rightarrow> exchange_state \<Rightarrow> exchange_state" where
  "send_config_update updates s = emit (OutUpdateConfig updates) s"

definition toggle_replay :: "exchange_state \<Rightarrow> exchange_state" where
  "toggle_replay s = emit (OutReplay (if ef_replay_paused s then ''resume'' else ''pause'') None) s"

definition scrub_replay :: "json \<Rightarrow> exchange_state \<Rightarrow> exchange_state" where
  "scrub_replay offset s = emit (OutReplay ''scrub'' (Some offset)) s"

definition start_trading :: "exchange_state \<Rightarrow> exchange_state" where
  "start_trading s = emit OutStartTrading s"

definition stop_trading :: "exchange_state \<Rightarrow> exchange_state" where
  "stop_trading s = emit OutStopTrading s"

end
