(* ===== verification/ExchangeInvariants.thy ===== *)
theory ExchangeInvariants
  imports ExchangeFeed
begin

text \<open>
  What the exchange data hook keeps true. \<open>feed_ok\<close>: the candle cache is keyed by its candles,
  the displayed candles are in time order and capped, the fill and audit feeds are capped, every
  order book stays sorted, without duplicate prices and with positive quantities, and the
  open-order map is keyed by its orders. \<open>acks_ok\<close>: every promise of \<open>submitOrder\<close> is either
  settled, once, or waiting, once, and each running timeout belongs to exactly one waiting order.
  Events are whatever can reach the hook; both invariants hold along every run.
\<close>

section \<open>Capped feeds\<close>

interpretation fills: capped_feed push_fills cap_fills
  by unfold_locales (simp add: push_fills_def slice_first_def)

interpretation audit: capped_feed push_audit cap_audit
  by unfold_locales (simp add: push_audit_def slice_first_def)

section \<open>The data invariant\<close>

definition orders_ok :: "(string, order) jsmap \<Rightarrow> bool" where
  "orders_ok m \<longleftrightarrow> map_ok m \<and> (\<forall>p \<in> set m. fst p = order_key (or_exchange (snd p)) (or_id (snd p)))"

definition feed_ok :: "exchange_state \<Rightarrow> bool" where
  "feed_ok s \<longleftrightarrow> cache_ok (ef_candle_map s) \<and> sorted (map cd_timestamp (ef_candles s)) \<and>
     length (ef_candles s) \<le> cap_candles \<and> length (ef_fills s) \<le> cap_fills \<and>
     length (ef_audit_logs s) \<le> cap_audit \<and> books_ok (ef_orderbooks s) \<and> orders_ok (ef_open_orders s)"

text \<open>The server sends well-formed full books.\<close>

definition msg_ok :: "exchange_msg \<Rightarrow> bool" where
  "msg_ok m \<longleftrightarrow> (case m of
     MarketData d \<Rightarrow> (case fm_orderbooks d of None \<Rightarrow> True | Some bs \<Rightarrow> books_ok bs)
   | _ \<Rightarrow> True)"

lemma orders_ok_Nil [simp]: "orders_ok []"
  by (simp add: orders_ok_def)

lemma orders_ok_delete [intro]: "orders_ok m \<Longrightarrow> orders_ok (map_delete k m)"
  by (auto simp: orders_ok_def map_delete_def)

lemma orders_ok_filter [intro]: "orders_ok m \<Longrightarrow> orders_ok (filter P m)"
  by (auto simp: orders_ok_def)

lemma orders_ok_set: "orders_ok m \<Longrightarrow> orders_ok (map_set (order_key (or_exchange x) (or_id x)) x m)"
  using set_map_set [of "order_key (or_exchange x) (or_id x)" x m] by (fastforce simp: orders_ok_def)

lemma orders_ok_track: "orders_ok m \<Longrightarrow> orders_ok (track_order ord m)"
  by (auto simp: track_order_def Let_def orders_ok_set split: option.splits)

lemma orders_ok_flatten: "orders_ok (flatten_open_orders byex)"
proof -
  have "orders_ok m \<Longrightarrow>
      orders_ok (map_set_all (\<lambda>o1. order_key (or_exchange o1) (or_id o1)) (\<lambda>o1. o1) xs m)" for xs m
    by (induction xs arbitrary: m) (auto intro: orders_ok_set)
  then show ?thesis by (simp add: flatten_open_orders_def)
qed

text \<open>The fields the invariant reads are untouched by the bookkeeping functions.\<close>

lemma feed_ok_cong:
  assumes "ef_candle_map t = ef_candle_map s" "ef_candles t = ef_candles s" "ef_fills t = ef_fills s"
    "ef_audit_logs t = ef_audit_logs s" "ef_orderbooks t = ef_orderbooks s" "ef_open_orders t = ef_open_orders s"
  shows "feed_ok t = feed_ok s"
  using assms by (simp add: feed_ok_def)

lemma feed_ok_emit [simp]: "feed_ok (emit m s) = feed_ok s"
  by (rule feed_ok_cong) (simp_all add: emit_def)

lemma feed_ok_check_seq [simp]: "feed_ok (check_seq now q s) = feed_ok s"
  by (rule feed_ok_cong) (simp_all add: check_seq_def emit_def Let_def split: option.splits)

lemma feed_ok_bump [simp]: "feed_ok (bump_timestamp ts s) = feed_ok s"
  by (rule feed_ok_cong) (simp_all add: bump_timestamp_def split: option.splits)

lemma feed_ok_resolve [simp]: "feed_ok (resolve_ack ord s) = feed_ok s"
  by (rule feed_ok_cong) (simp_all add: resolve_ack_def clear_timer_def Let_def split: option.splits)

lemma feed_ok_track: "feed_ok s \<Longrightarrow> feed_ok (track_order_status ord s)"
  by (simp add: feed_ok_def track_order_status_def orders_ok_track)

lemma feed_ok_store_candles: "feed_ok s \<Longrightarrow> feed_ok (store_candles cs s)"
proof (cases cs)
  case (Some xs)
  assume "feed_ok s"
  then show ?thesis
    using ingest_cache_ok [of "ef_candle_map s" xs] ingest_sorted [of xs "ef_candle_map s"]
      ingest_cap [of xs "ef_candle_map s"]
    by (auto simp: Some feed_ok_def store_candles_def split: prod.splits)
qed (simp add: store_candles_def)

lemma feed_ok_replay_candles: "feed_ok s \<Longrightarrow> feed_ok (handle_replay_candles cs s)"
proof (cases cs)
  case (Some xs)
  assume s: "feed_ok s"
  have "sorted (map cd_timestamp (slice_last cap_candles (by_time (put_candles xs (ef_candle_map s)))))"
    using sorted_by_time by (simp add: slice_last_map [symmetric] sorted_slice_last)
  with s show ?thesis
    by (auto simp: Some feed_ok_def handle_replay_candles_def replay_candles_def Let_def cache_ok_put
        length_slice_last cap_candles_def)
qed (simp add: handle_replay_candles_def)

lemma feed_ok_push_fills: "feed_ok s \<Longrightarrow> feed_ok (s\<lparr>ef_fills := push_fills new (ef_fills s)\<rparr>)"
  by (simp add: feed_ok_def fills.push_cap)

lemma feed_ok_fills_batch: "feed_ok s \<Longrightarrow> feed_ok (handle_fills_batch now os s)"
proof -
  have "feed_ok t \<Longrightarrow> feed_ok (foldl (\<lambda>t o1. resolve_ack (Some o1) (track_order_status (Some o1) t)) t xs)" for t xs
    by (induction xs arbitrary: t) (simp_all add: feed_ok_track)
  then show "feed_ok s \<Longrightarrow> feed_ok (handle_fills_batch now os s)"
    by (auto simp: handle_fills_batch_def feed_ok_push_fills split: option.splits)
qed

lemma feed_ok_orders_cancelled: "feed_ok s \<Longrightarrow> feed_ok (handle_orders_cancelled ex ids s)"
  by (auto simp: handle_orders_cancelled_def feed_ok_def Let_def split: option.splits)

lemma feed_ok_order_cancelled: "feed_ok s \<Longrightarrow> feed_ok (handle_order_cancelled ord s)"
  by (auto simp: handle_order_cancelled_def feed_ok_def Let_def split: option.splits)

lemma feed_ok_market_data:
  assumes "feed_ok s" and "msg_ok (MarketData d)"
  shows "feed_ok (handle_market_data now d s)"
proof -
  let ?s3 = "store_candles (fm_candles d) (bump_timestamp (fm_timestamp d) (check_seq now (fm_seq d) s))"
  let ?b6 = "case fm_orderbooks d of None \<Rightarrow> ef_orderbooks ?s3 | Some b \<Rightarrow> b"
  let ?b7 = "case fm_deltas d of None \<Rightarrow> ?b6 | Some ds \<Rightarrow> apply_orderbook_deltas ds ?b6"
  let ?o = "case fm_open_orders d of None \<Rightarrow> ef_open_orders ?s3 | Some os \<Rightarrow> flatten_open_orders os"
  let ?t = "handle_market_data now d s"
  have s3: "feed_ok ?s3" using assms(1) by (simp add: feed_ok_store_candles)
  have "books_ok ?b6" using s3 assms(2) by (auto simp: feed_ok_def msg_ok_def split: option.splits)
  then have b7: "books_ok ?b7" by (auto simp: books_ok_deltas split: option.splits)
  have o: "orders_ok ?o" using s3 by (auto simp: feed_ok_def orders_ok_flatten split: option.splits)
  have "ef_candle_map ?t = ef_candle_map ?s3" "ef_candles ?t = ef_candles ?s3"
    "ef_fills ?t = ef_fills ?s3" "ef_audit_logs ?t = ef_audit_logs ?s3"
    by (simp_all add: handle_market_data_def Let_def split: option.splits)
  moreover have "ef_orderbooks ?t = ?b7" "ef_open_orders ?t = ?o"
    by (simp_all add: handle_market_data_def Let_def split: option.splits)
  ultimately show ?thesis using s3 b7 o by (simp add: feed_ok_def)
qed

lemma feed_ok_handler:
  assumes s: "feed_ok s" and m: "msg_ok m"
  shows "feed_ok (handle_exchange_message now m s)"
proof (cases m)
  case (MarketData d)
  with s m show ?thesis by (simp add: feed_ok_market_data)
next
  case (FillMsg ord)
  with s show ?thesis by (simp add: handle_fill_def feed_ok_push_fills feed_ok_track)
next
  case (FillsBatch os)
  with s show ?thesis by (simp add: feed_ok_fills_batch)
next
  case (OrderCancelled ord)
  with s show ?thesis by (simp add: feed_ok_order_cancelled)
next
  case (OrdersCancelled ex ids)
  with s show ?thesis by (simp add: feed_ok_orders_cancelled)
next
  case (ReplayCandles cs)
  with s show ?thesis by (simp add: feed_ok_replay_candles)
next
  case (AuditLogs logs)
  with s show ?thesis
    by (auto simp: handle_audit_logs_def feed_ok_def audit.push_cap split: option.splits)
qed (use s in \<open>simp_all add: feed_ok_def\<close>)

section \<open>Events and runs\<close>

datatype exchange_event =
    Receive int exchange_msg
  | Submit string bool order
  | AckTimeout nat
  | ConnectedChange bool
  | SocketOpen
  | SocketError "string option"
  | SenderReady
  | Command out_msg

definition exchange_step :: "exchange_event \<Rightarrow> exchange_state \<Rightarrow> exchange_state" where
  "exchange_step e s = (case e of
     Receive now m \<Rightarrow> handle_exchange_message now m s
   | Submit fresh sent ord \<Rightarrow> snd (submit_order fresh sent ord s)
   | AckTimeout t \<Rightarrow> ack_timeout t s
   | ConnectedChange b \<Rightarrow> on_connected_effect b s
   | SocketOpen \<Rightarrow> on_socket_open s
   | SocketError x \<Rightarrow> on_socket_error x s
   | SenderReady \<Rightarrow> s\<lparr>ef_sender_ready := True\<rparr>
   | Command m \<Rightarrow> emit m s)"

definition order_cid :: "string \<Rightarrow> order \<Rightarrow> string" where
  "order_cid fresh ord = (if or_cid ord \<noteq> [] then or_cid ord else fresh)"

text \<open>An event that can happen in \<open>s\<close>: full books are well-formed, and a submitted order does not
  reuse a client order id that is still waiting (the generated ids are time-stamped and random).\<close>

definition event_ok :: "exchange_event \<Rightarrow> exchange_state \<Rightarrow> bool" where
  "event_ok e s \<longleftrightarrow> (case e of
     Receive now m \<Rightarrow> msg_ok m
   | Submit fresh sent ord \<Rightarrow> map_get (ef_pending s) (order_cid fresh ord) = None
   | _ \<Rightarrow> True)"

inductive exchange_reach :: "exchange_state \<Rightarrow> bool" where
  er_init: "exchange_reach init_exchange"
| er_step: "exchange_reach s \<Longrightarrow> event_ok e s \<Longrightarrow> exchange_reach (exchange_step e s)"

lemma feed_ok_submit [simp]: "feed_ok (snd (submit_order fresh sent ord s)) = feed_ok s"
  by (rule feed_ok_cong) (simp_all add: submit_order_def start_timer_def emit_def Let_def)

lemma feed_ok_timeout [simp]: "feed_ok (ack_timeout t s) = feed_ok s"
  by (rule feed_ok_cong) (simp_all add: ack_timeout_def split: option.splits prod.splits)

lemma feed_ok_arm [simp]: "feed_ok (arm_pending e s) = feed_ok s"
  by (rule feed_ok_cong) (simp_all add: arm_pending_def start_timer_def split: prod.splits)

lemma feed_ok_connected [simp]: "feed_ok (on_connected_effect c s) = feed_ok s"
proof -
  have "feed_ok (fold arm_pending es s) = feed_ok s" for es
    by (induction es arbitrary: s) simp_all
  then show ?thesis by (simp add: on_connected_effect_def)
qed

lemma feed_ok_socket [simp]:
  "feed_ok (on_socket_open s) = feed_ok s"
  "feed_ok (on_socket_error x s) = feed_ok s"
  "feed_ok (s\<lparr>ef_sender_ready := b\<rparr>) = feed_ok s"
  by (simp_all add: on_socket_open_def on_socket_error_def feed_ok_def split: option.splits)

lemma feed_ok_step: "feed_ok s \<Longrightarrow> event_ok e s \<Longrightarrow> feed_ok (exchange_step e s)"
  by (cases e) (simp_all add: exchange_step_def event_ok_def feed_ok_handler)

lemma feed_ok_reach: "exchange_reach s \<Longrightarrow> feed_ok s"
proof (induction rule: exchange_reach.induct)
  case er_init
  show ?case by (simp add: feed_ok_def init_exchange_def books_ok_def)
next
  case (er_step s e)
  then show ?case by (blast intro: feed_ok_step)
qed

section \<open>The acknowledgement invariant\<close>

definition waiting :: "exchange_state \<Rightarrow> nat list" where
  "waiting s = map (\<lambda>e. pa_promise (snd e)) (ef_pending s)"

definition settled :: "exchange_state \<Rightarrow> nat list" where
  "settled s = map fst (ef_settled s)"

definition acks_ok :: "exchange_state \<Rightarrow> bool" where
  "acks_ok s \<longleftrightarrow> map_ok (ef_pending s) \<and> distinct (map fst (ef_timers s)) \<and>
     (\<forall>t cid p. (t, cid, p) \<in> set (ef_timers s) \<longleftrightarrow>
        (cid, \<lparr>pa_promise = p, pa_timer = Some t\<rparr>) \<in> set (ef_pending s)) \<and>
     (\<forall>x \<in> set (ef_timers s). fst x < ef_next_timer s) \<and>
     mset (settled s) + mset (waiting s) = mset [0..<ef_next_promise s]"

lemma acks_okD:
  assumes "acks_ok s"
  shows "map_ok (ef_pending s)" and "distinct (map fst (ef_timers s))"
    and "(t, cid, p) \<in> set (ef_timers s) \<longleftrightarrow>
        (cid, \<lparr>pa_promise = p, pa_timer = Some t\<rparr>) \<in> set (ef_pending s)"
    and "x \<in> set (ef_timers s) \<Longrightarrow> fst x < ef_next_timer s"
    and "mset (settled s) + mset (waiting s) = mset [0..<ef_next_promise s]"
  using assms by (auto simp: acks_ok_def)

lemma acks_ok_cong:
  assumes "ef_pending t = ef_pending s" "ef_timers t = ef_timers s" "ef_next_timer t = ef_next_timer s"
    "ef_settled t = ef_settled s" "ef_next_promise t = ef_next_promise s"
  shows "acks_ok t = acks_ok s"
  using assms by (simp add: acks_ok_def settled_def waiting_def)

lemma mset_map_delete:
  assumes "map_ok m" and "map_get m k = Some v"
  shows "mset m = add_mset (k, v) (mset (map_delete k m))"
  using assms
proof (induction m)
  case (Cons e m)
  show ?case
  proof (cases "fst e = k")
    case True
    then have "k \<notin> fst ` set m" using Cons.prems by (auto simp: map_ok_def)
    then have "map_delete k m = m" unfolding map_delete_def by (intro filter_True) force
    then show ?thesis using True Cons.prems by (cases e) (auto simp: map_delete_def)
  next
    case False
    with Cons show ?thesis by (cases e) (auto simp: map_delete_def map_ok_def)
  qed
qed simp

lemma map_delete_iff: "e \<in> set (map_delete k m) \<longleftrightarrow> e \<in> set m \<and> fst e \<noteq> k"
  by (auto simp: map_delete_def)

text \<open>Settling one waiting promise: the entry leaves the map, its timeout is cancelled and the
  promise is logged.\<close>

definition settle :: "string \<Rightarrow> pending_ack \<Rightarrow> order option \<Rightarrow> exchange_state \<Rightarrow> exchange_state" where
  "settle cid pending r s = s\<lparr>ef_pending := map_delete cid (ef_pending s),
     ef_timers := (case pa_timer pending of None \<Rightarrow> ef_timers s
                   | Some t \<Rightarrow> filter (\<lambda>x. fst x \<noteq> t) (ef_timers s)),
     ef_settled := ef_settled s @ [(pa_promise pending, r)]\<rparr>"

lemma acks_ok_settle:
  assumes ok: "acks_ok s" and get: "map_get (ef_pending s) cid = Some pending"
  shows "acks_ok (settle cid pending r s)"
proof -
  let ?P = "ef_pending s" and ?T = "ef_timers s"
  let ?T' = "case pa_timer pending of None \<Rightarrow> ?T | Some t \<Rightarrow> filter (\<lambda>x. fst x \<noteq> t) ?T"
  note D = acks_okD [OF ok]
  have mem: "(cid, pending) \<in> set ?P" using get by (rule map_of_SomeD)
  have uniq: "pa = pending" if "(cid, pa) \<in> set ?P" for pa
    using that mem D(1) by (auto simp: map_ok_def dest: eq_key_imp_eq_value)
  have timers: "(t, c, p) \<in> set ?T' \<longleftrightarrow> (c, \<lparr>pa_promise = p, pa_timer = Some t\<rparr>) \<in> set (map_delete cid ?P)" for t c p
  proof (cases "pa_timer pending")
    case None
    then have "\<not> (t, cid, p) \<in> set ?T" using uniq D(3) by fastforce
    then show ?thesis using None D(3) by (auto simp: map_delete_iff)
  next
    case (Some t0)
    then have t0: "(t0, cid, pa_promise pending) \<in> set ?T"
      using mem by (simp add: D(3)) (metis pending_ack.surjective old.unit.exhaust Some)
    then have "(t0, c, p) \<in> set ?T \<Longrightarrow> c = cid"
      using D(2) eq_key_imp_eq_value by fastforce
    moreover have "(t, cid, p) \<in> set ?T \<Longrightarrow> t = t0"
      using uniq D(3) Some by fastforce
    ultimately show ?thesis using Some D(3) by (auto simp: map_delete_iff)
  qed
  have "mset (waiting s) = add_mset (pa_promise pending) (mset (map (\<lambda>e. pa_promise (snd e)) (map_delete cid ?P)))"
    using mset_map_delete [OF D(1) get] by (simp add: waiting_def)
  then show ?thesis
    using D timers by (auto simp: acks_ok_def settle_def settled_def waiting_def distinct_map_filter split: option.splits)
qed

lemma resolve_ack_settle:
  "resolve_ack ord s =
     (case ord of None \<Rightarrow> s
      | Some o1 \<Rightarrow> (if or_cid o1 = [] then s else
          (case map_get (ef_pending s) (or_cid o1) of None \<Rightarrow> s | Some p \<Rightarrow> settle (or_cid o1) p ord s)))"
  by (auto simp: resolve_ack_def settle_def clear_timer_def Let_def split: option.splits)

lemma acks_ok_resolve: "acks_ok s \<Longrightarrow> acks_ok (resolve_ack ord s)"
  by (auto simp: resolve_ack_settle acks_ok_settle split: option.splits)

lemma ack_timeout_settle:
  assumes ok: "acks_ok s" and "map_of (ef_timers s) t = Some (cid, p)"
  shows "map_get (ef_pending s) cid = Some \<lparr>pa_promise = p, pa_timer = Some t\<rparr>"
    and "ack_timeout t s = settle cid \<lparr>pa_promise = p, pa_timer = Some t\<rparr> None s"
proof -
  have "(t, cid, p) \<in> set (ef_timers s)" using assms(2) by (rule map_of_SomeD)
  then show "map_get (ef_pending s) cid = Some \<lparr>pa_promise = p, pa_timer = Some t\<rparr>"
    using acks_okD(1,3) [OF ok] by (simp add: map_ok_def)
  show "ack_timeout t s = settle cid \<lparr>pa_promise = p, pa_timer = Some t\<rparr> None s"
    using assms(2) by (simp add: ack_timeout_def settle_def)
qed

lemma acks_ok_timeout: "acks_ok s \<Longrightarrow> acks_ok (ack_timeout t s)"
proof (cases "map_of (ef_timers s) t")
  case (Some x)
  assume ok: "acks_ok s"
  obtain cid p where "x = (cid, p)" by (cases x)
  with Some show ?thesis
    using ack_timeout_settle [OF ok, of t cid p] acks_ok_settle [OF ok] by simp
qed (simp add: ack_timeout_def)

lemma map_set_last: "k \<notin> fst ` set m \<Longrightarrow> map_set k v (m @ [(k, w)]) = m @ [(k, v)]"
  by (induction m) auto

lemma acks_ok_submit:
  assumes ok: "acks_ok s" and fresh: "map_get (ef_pending s) (order_cid fr ord) = None"
  shows "acks_ok (snd (submit_order fr sent ord s))"
proof -
  let ?c = "order_cid fr ord" and ?p = "ef_next_promise s" and ?t = "ef_next_timer s"
  note D = acks_okD [OF ok]
  let ?t' = "snd (submit_order fr sent ord s)"
  have new: "?c \<notin> fst ` set (ef_pending s)" using fresh by (simp add: map_of_eq_None_iff)
  have pend: "ef_pending ?t' = ef_pending s @ [(?c, \<lparr>pa_promise = ?p, pa_timer = if sent then Some ?t else None\<rparr>)]"
    using map_set_new [OF new] map_set_last [OF new]
    by (simp add: submit_order_def start_timer_def emit_def Let_def flip: order_cid_def)
  have tm: "ef_timers ?t' = ef_timers s @ (if sent then [(?t, ?c, ?p)] else [])"
    and rest: "ef_next_promise ?t' = Suc ?p" "ef_settled ?t' = ef_settled s"
      "ef_next_timer ?t' = (if sent then Suc ?t else ?t)"
    by (simp_all add: submit_order_def start_timer_def emit_def Let_def order_cid_def)
  have "?t \<notin> fst ` set (ef_timers s)" using D(4) by fastforce
  moreover have "(t, ?c, p) \<notin> set (ef_timers s)" for t p
    using new D(3) by force
  ultimately show ?thesis
    unfolding acks_ok_def pend tm rest settled_def waiting_def
    using D new by (auto simp: map_ok_def settled_def waiting_def less_Suc_eq)
qed

lemma acks_ok_arm:
  assumes ok: "acks_ok s" and mem: "e \<in> set (ef_pending s)"
  shows "acks_ok (arm_pending e s)"
    and "\<And>e'. e' \<in> set (ef_pending s) \<Longrightarrow> fst e' \<noteq> fst e \<Longrightarrow> e' \<in> set (ef_pending (arm_pending e s))"
    and "\<And>e'. e' \<in> set (ef_pending (arm_pending e s)) \<Longrightarrow> e' \<in> set (ef_pending s) \<and> fst e' \<noteq> fst e \<or> pa_timer (snd e') \<noteq> None"
proof -
  obtain cid pa where e: "e = (cid, pa)" by (cases e)
  note D = acks_okD [OF ok]
  let ?t = "ef_next_timer s"
  have split: "\<exists>as bs. ef_pending s = as @ (cid, pa) # bs" using mem e by (auto dest: split_list)
  then obtain as bs where ps: "ef_pending s = as @ (cid, pa) # bs" by blast
  have fresh: "cid \<notin> fst ` set as" "cid \<notin> fst ` set bs"
    using D(1) by (auto simp: ps map_ok_def)
  have upd: "map_set cid v (ef_pending s) = as @ (cid, v) # bs" for v
    using fresh(1) unfolding ps by (induction as) auto
  have tnew: "?t \<notin> fst ` set (ef_timers s)" using D(4) by fastforce
  have cnew: "(t, cid, p) \<notin> set (ef_timers s)" if "pa_timer pa = None" for t p
    using D(3) [of t cid p] that fresh unfolding ps by force
  have arm: "arm_pending e s = (if pa_timer pa = None
      then s\<lparr>ef_timers := ef_timers s @ [(?t, cid, pa_promise pa)], ef_next_timer := Suc ?t,
        ef_pending := as @ (cid, pa\<lparr>pa_timer := Some ?t\<rparr>) # bs\<rparr> else s)"
    by (simp add: arm_pending_def e start_timer_def upd)
  show "acks_ok (arm_pending e s)"
  proof (cases "pa_timer pa")
    case None
    have pa': "pa\<lparr>pa_timer := Some ?t\<rparr> = \<lparr>pa_promise = pa_promise pa, pa_timer = Some ?t\<rparr>" by (cases pa) simp
    have "(t, c, p) \<in> set (ef_timers s @ [(?t, cid, pa_promise pa)]) \<longleftrightarrow>
        (c, \<lparr>pa_promise = p, pa_timer = Some t\<rparr>) \<in> set (as @ (cid, pa\<lparr>pa_timer := Some ?t\<rparr>) # bs)" for t c p
      using D(3) [of t c p] cnew [OF None, of t p] fresh None unfolding ps pa' by force
    then show ?thesis
      using D tnew None unfolding arm
      by (auto simp: acks_ok_def ps map_ok_def settled_def waiting_def less_Suc_eq)
  next
    case (Some t)
    then show ?thesis using ok by (simp add: arm)
  qed
  show "\<And>e'. e' \<in> set (ef_pending s) \<Longrightarrow> fst e' \<noteq> fst e \<Longrightarrow> e' \<in> set (ef_pending (arm_pending e s))"
    unfolding arm by (auto simp: ps e)
  show "\<And>e'. e' \<in> set (ef_pending (arm_pending e s)) \<Longrightarrow> e' \<in> set (ef_pending s) \<and> fst e' \<noteq> fst e \<or> pa_timer (snd e') \<noteq> None"
    unfolding arm using fresh by (force simp: ps e split: if_splits)
qed

lemma acks_ok_arm_all:
  assumes "acks_ok s" and "distinct (map fst es)" and "set es \<subseteq> set (ef_pending s)"
  shows "acks_ok (fold arm_pending es s)"
    and "\<And>e'. e' \<in> set (ef_pending (fold arm_pending es s)) \<Longrightarrow>
      e' \<in> set (ef_pending s) \<and> fst e' \<notin> fst ` set es \<or> pa_timer (snd e') \<noteq> None"
proof -
  have "acks_ok (fold arm_pending es s) \<and> (\<forall>e' \<in> set (ef_pending (fold arm_pending es s)).
      e' \<in> set (ef_pending s) \<and> fst e' \<notin> fst ` set es \<or> pa_timer (snd e') \<noteq> None)"
    using assms
  proof (induction es arbitrary: s)
    case (Cons e es)
    let ?s1 = "arm_pending e s"
    have e: "e \<in> set (ef_pending s)" using Cons.prems by simp
    have sub: "set es \<subseteq> set (ef_pending ?s1)"
    proof
      fix x assume x: "x \<in> set es"
      then have "fst x \<noteq> fst e" using Cons.prems(2) by (metis distinct.simps(2) imageI list.map(2) set_map)
      moreover have "x \<in> set (ef_pending s)" using x Cons.prems(3) by auto
      ultimately show "x \<in> set (ef_pending ?s1)"
        using acks_ok_arm(2) [OF Cons.prems(1) e] by blast
    qed
    from Cons.IH [OF acks_ok_arm(1) [OF Cons.prems(1) e] _ sub] Cons.prems
    have IH: "acks_ok (fold arm_pending es ?s1)"
      "\<forall>e' \<in> set (ef_pending (fold arm_pending es ?s1)).
         e' \<in> set (ef_pending ?s1) \<and> fst e' \<notin> fst ` set es \<or> pa_timer (snd e') \<noteq> None"
      by auto
    then show ?case using acks_ok_arm(3) [OF Cons.prems(1) e] by auto
  qed simp
  then show "acks_ok (fold arm_pending es s)"
    and "\<And>e'. e' \<in> set (ef_pending (fold arm_pending es s)) \<Longrightarrow>
      e' \<in> set (ef_pending s) \<and> fst e' \<notin> fst ` set es \<or> pa_timer (snd e') \<noteq> None"
    by blast+
qed

lemma acks_ok_connected: "acks_ok s \<Longrightarrow> acks_ok (on_connected_effect c s)"
  using acks_ok_arm_all(1) [of s "ef_pending s"] acks_okD(1) [of s]
  by (auto simp: on_connected_effect_def map_ok_def)

lemma connected_all_armed:
  "acks_ok s \<Longrightarrow> e \<in> set (ef_pending (on_connected_effect True s)) \<Longrightarrow> pa_timer (snd e) \<noteq> None"
  using acks_ok_arm_all(2) [of s "ef_pending s" e] acks_okD(1) [of s]
  by (auto simp: on_connected_effect_def map_ok_def)

lemma acks_ok_track [simp]: "acks_ok (track_order_status ord s) = acks_ok s"
  by (rule acks_ok_cong) (simp_all add: track_order_status_def)

lemma acks_ok_fills [simp]: "acks_ok (s\<lparr>ef_fills := f\<rparr>) = acks_ok s"
  by (rule acks_ok_cong) simp_all

lemma acks_ok_market_data [simp]: "acks_ok (handle_market_data now d s) = acks_ok s"
proof -
  let ?s3 = "store_candles (fm_candles d) (bump_timestamp (fm_timestamp d) (check_seq now (fm_seq d) s))"
  have "acks_ok ?s3 = acks_ok s"
    by (rule acks_ok_cong)
      (simp_all add: store_candles_def bump_timestamp_def check_seq_def emit_def Let_def
        split: option.splits prod.splits)
  moreover have "acks_ok (handle_market_data now d s) = acks_ok ?s3"
    by (rule acks_ok_cong) (simp_all add: handle_market_data_def Let_def split: option.splits)
  ultimately show ?thesis by simp
qed

lemma acks_ok_fills_batch: "acks_ok s \<Longrightarrow> acks_ok (handle_fills_batch now os s)"
proof -
  have "acks_ok t \<Longrightarrow> acks_ok (foldl (\<lambda>t o1. resolve_ack (Some o1) (track_order_status (Some o1) t)) t xs)" for t xs
    by (induction xs arbitrary: t) (simp_all add: acks_ok_resolve)
  then show "acks_ok s \<Longrightarrow> acks_ok (handle_fills_batch now os s)"
    by (auto simp: handle_fills_batch_def split: option.splits)
qed

lemma acks_ok_others [simp]:
  "acks_ok (handle_order_cancelled ord s) = acks_ok s"
  "acks_ok (handle_orders_cancelled ex ids s) = acks_ok s"
  "acks_ok (handle_replay_candles cs s) = acks_ok s"
  "acks_ok (handle_audit_logs logs s) = acks_ok s"
  "acks_ok (on_socket_open s) = acks_ok s"
  "acks_ok (on_socket_error x s) = acks_ok s"
  "acks_ok (emit m s) = acks_ok s"
  "acks_ok (s\<lparr>ef_sender_ready := b\<rparr>) = acks_ok s"
  by (rule acks_ok_cong;
      simp add: handle_order_cancelled_def handle_orders_cancelled_def handle_replay_candles_def
        handle_audit_logs_def on_socket_open_def on_socket_error_def emit_def Let_def
        split: option.splits prod.splits)+

lemma acks_ok_fields [simp]:
  "acks_ok (s\<lparr>ef_last_error := e\<rparr>) = acks_ok s"
  "acks_ok (s\<lparr>ef_arbitrage := a\<rparr>) = acks_ok s"
  "acks_ok (s\<lparr>ef_options_chain := oc\<rparr>) = acks_ok s"
  "acks_ok (s\<lparr>ef_replay_paused := b\<rparr>) = acks_ok s"
  "acks_ok (s\<lparr>ef_trading_active := b\<rparr>) = acks_ok s"
  by (rule acks_ok_cong; simp)+

lemma acks_ok_handler: "acks_ok s \<Longrightarrow> acks_ok (handle_exchange_message now m s)"
proof (cases m)
  case (FillMsg ord)
  assume "acks_ok s"
  then show ?thesis by (simp add: FillMsg handle_fill_def acks_ok_resolve)
next
  case (FillsBatch os)
  assume "acks_ok s"
  then show ?thesis by (simp add: FillsBatch acks_ok_fills_batch)
qed simp_all

lemma acks_ok_step: "acks_ok s \<Longrightarrow> event_ok e s \<Longrightarrow> acks_ok (exchange_step e s)"
  by (cases e) (simp_all add: exchange_step_def event_ok_def acks_ok_handler acks_ok_submit
      acks_ok_timeout acks_ok_connected)

lemma acks_ok_reach: "exchange_reach s \<Longrightarrow> acks_ok s"
proof (induction rule: exchange_reach.induct)
  case er_init
  show ?case by (simp add: acks_ok_def init_exchange_def settled_def waiting_def)
next
  case (er_step s e)
  then show ?case by (blast intro: acks_ok_step)
qed

section \<open>Every promise settles\<close>

definition all_armed :: "exchange_state \<Rightarrow> bool" where
  "all_armed s \<longleftrightarrow> (\<forall>e \<in> set (ef_pending s). pa_timer (snd e) \<noteq> None)"

lemma ack_timeout_timers: "ef_timers (ack_timeout t s) = filter (\<lambda>x. fst x \<noteq> t) (ef_timers s)"
proof (cases "map_of (ef_timers s) t")
  case None
  then have "t \<notin> fst ` set (ef_timers s)" by (simp add: map_of_eq_None_iff)
  then have "filter (\<lambda>x. fst x \<noteq> t) (ef_timers s) = ef_timers s" by (intro filter_True) force
  then show ?thesis using None by (simp add: ack_timeout_def)
qed (auto simp: ack_timeout_def split: prod.splits)

lemma ack_timeout_armed: "all_armed s \<Longrightarrow> all_armed (ack_timeout t s)"
  by (auto simp: all_armed_def ack_timeout_def map_delete_iff split: option.splits prod.splits)

lemma timeouts_drain:
  "acks_ok s \<Longrightarrow> all_armed s \<Longrightarrow>
     acks_ok (fold ack_timeout ts s) \<and> all_armed (fold ack_timeout ts s) \<and>
     ef_timers (fold ack_timeout ts s) = filter (\<lambda>x. fst x \<notin> set ts) (ef_timers s)"
proof (induction ts arbitrary: s)
  case (Cons t ts)
  have "acks_ok (ack_timeout t s)" using Cons.prems(1) by (rule acks_ok_timeout)
  from Cons.IH [OF this ack_timeout_armed [OF Cons.prems(2)]] show ?case
    by (auto simp: ack_timeout_timers intro: filter_cong)
qed simp

lemma no_timers_no_waiting:
  assumes "acks_ok s" "all_armed s" "ef_timers s = []"
  shows "ef_pending s = []"
proof (rule ccontr)
  assume "ef_pending s \<noteq> []"
  then obtain cid pa where e: "(cid, pa) \<in> set (ef_pending s)" by (cases "ef_pending s") auto
  then obtain t where "pa_timer pa = Some t" using assms(2) by (auto simp: all_armed_def)
  then have "pa = \<lparr>pa_promise = pa_promise pa, pa_timer = Some t\<rparr>" by (cases pa) simp
  then show False using e acks_okD(3) [OF assms(1), of t cid "pa_promise pa"] assms(3) by simp
qed

lemma drained_after_connect:
  assumes "acks_ok s"
  defines "t \<equiv> on_connected_effect True s"
  shows "ef_pending (fold ack_timeout (map fst (ef_timers t)) t) = []"
proof -
  have t: "acks_ok t" "all_armed t"
    using acks_ok_connected [OF assms(1)] connected_all_armed [OF assms(1)]
    by (auto simp: t_def all_armed_def)
  have "filter (\<lambda>x. fst x \<notin> set (map fst (ef_timers t))) (ef_timers t) = []"
    by (simp add: filter_empty_conv)
  then show ?thesis
    using timeouts_drain [OF t, of "map fst (ef_timers t)"] no_timers_no_waiting by metis
qed

section \<open>What the fills feed holds\<close>

definition fills_of :: "int \<Rightarrow> exchange_msg \<Rightarrow> fill list" where
  "fills_of now m = (case m of
     FillMsg ord \<Rightarrow> [\<lparr>fl_order = ord, fl_received_at = now\<rparr>]
   | FillsBatch (Some os) \<Rightarrow> map (\<lambda>o1. \<lparr>fl_order = Some o1, fl_received_at = now\<rparr>) os
   | _ \<Rightarrow> [])"

lemma fills_bookkeeping [simp]:
  "ef_fills (resolve_ack ord s) = ef_fills s" "ef_fills (track_order_status ord s) = ef_fills s"
  "ef_fills (check_seq now q s) = ef_fills s" "ef_fills (bump_timestamp ts s) = ef_fills s"
  "ef_fills (store_candles cs s) = ef_fills s"
  by (simp_all add: resolve_ack_def track_order_status_def check_seq_def bump_timestamp_def
      store_candles_def clear_timer_def emit_def Let_def split: option.splits prod.splits)

lemma fills_market_data [simp]: "ef_fills (handle_market_data now d s) = ef_fills s"
  by (simp add: handle_market_data_def Let_def split: option.splits)

lemma fills_fold_resolve:
  "ef_fills (foldl (\<lambda>t o1. resolve_ack (Some o1) (track_order_status (Some o1) t)) t xs) = ef_fills t"
  by (induction xs arbitrary: t) simp_all

lemma fills_handler:
  "fills_of now m \<noteq> [] \<Longrightarrow>
     ef_fills (handle_exchange_message now m s) = push_fills (fills_of now m) (ef_fills s)"
  "fills_of now m = [] \<Longrightarrow> ef_fills (handle_exchange_message now m s) = ef_fills s"
  by (cases m; auto simp: fills_of_def handle_fill_def handle_fills_batch_def fills_fold_resolve
      handle_order_cancelled_def handle_orders_cancelled_def handle_replay_candles_def
      handle_audit_logs_def Let_def split: option.splits prod.splits)+

lemma fills_run:
  "ef_fills (foldl (\<lambda>s (now, m). handle_exchange_message now m s) init_exchange ms) =
     foldl (\<lambda>f b. push_fills b f) [] (map (\<lambda>(now, m). fills_of now m) ms)"
proof (induction ms rule: rev_induct)
  case Nil
  show ?case by (simp add: init_exchange_def)
next
  case (snoc x ms)
  obtain now m where x: "x = (now, m)" by (cases x)
  have "length (foldl (\<lambda>f b. push_fills b f) [] (map (\<lambda>(now, m). fills_of now m) ms)) \<le> cap_fills"
    by (simp add: fills.push_run)
  then show ?case
    using snoc fills_handler [of now m] x
    by (cases "fills_of now m = []") (simp_all add: push_fills_def slice_first_def)
qed

section \<open>Properties\<close>

text \<open>
  C1: In every state the exchange hook can reach, the candle cache is keyed by its candles, the
  displayed candles are in time order and at most 500, the fill and audit feeds are within 50
  and 200 entries, every order book is sorted with distinct prices and positive quantities, and the
  open-order map is keyed by its orders; and the acknowledgements are matched: client ids are unique,
  each running timer belongs to exactly one waiting order and each timer an order names is running. The runs are those
  in which the full books of the server are well formed and no client id is reused while it waits.
\<close>
theorem exchange_feed_invariant:
  "exchange_reach s \<Longrightarrow>
     feed_ok s \<and> map_ok (ef_pending s) \<and> distinct (map fst (ef_timers s)) \<and>
     (\<forall>t cid p. (t, cid, p) \<in> set (ef_timers s) \<longleftrightarrow> (cid, \<lparr>pa_promise = p, pa_timer = Some t\<rparr>) \<in> set (ef_pending s))"
  using feed_ok_reach acks_okD(1,2,3) [OF acks_ok_reach] by blast

definition demo_order :: order where
  "demo_order = \<lparr>or_id = ''o1'', or_exchange = ''BINANCE'', or_status = ''FILLED'', or_cid = ''c1'', or_rest = JNull\<rparr>"

lemma demo_reach:
  "exchange_reach (exchange_step (Submit ''ui_1'' True demo_order) init_exchange)"
  "exchange_reach (exchange_step (Receive 7 (FillMsg (Some demo_order)))
     (exchange_step (Submit ''ui_1'' True demo_order) init_exchange))"
  by (intro exchange_reach.intros; simp add: event_ok_def msg_ok_def init_exchange_def)+

theorem exchange_feed_invariant_witness:
  "feed_ok (exchange_step (Receive 7 (FillMsg (Some demo_order)))
     (exchange_step (Submit ''ui_1'' True demo_order) init_exchange)) \<and>
   distinct (map fst (ef_timers (exchange_step (Receive 7 (FillMsg (Some demo_order)))
     (exchange_step (Submit ''ui_1'' True demo_order) init_exchange))))"
  using exchange_feed_invariant [OF demo_reach(2)] by blast

text \<open>
  C2: Exactly-once acknowledgement: in every reachable state the promises handed out by
  \<open>submitOrder\<close> are partitioned, without repetition, into those already settled and those still
  waiting, so no promise is lost and none is resolved twice, whatever the order of fills, timeouts,
  reconnects and submissions.
\<close>
theorem acks_exactly_once:
  "exchange_reach s \<Longrightarrow>
     distinct (settled s @ waiting s) \<and> set (settled s @ waiting s) = {0..<ef_next_promise s}"
proof -
  assume "exchange_reach s"
  then have m: "mset (settled s @ waiting s) = mset [0..<ef_next_promise s]"
    using acks_ok_reach acks_okD(5) by (metis mset_append)
  then show ?thesis using mset_eq_imp_distinct_iff [OF m] mset_eq_setD [OF m] by simp
qed

theorem acks_exactly_once_witness:
  "distinct (settled (exchange_step (Receive 7 (FillMsg (Some demo_order)))
     (exchange_step (Submit ''ui_1'' True demo_order) init_exchange)) @
   waiting (exchange_step (Receive 7 (FillMsg (Some demo_order)))
     (exchange_step (Submit ''ui_1'' True demo_order) init_exchange)))"
  using acks_exactly_once [OF demo_reach(2)] by (rule conjunct1)

text \<open>
  C11: No submitted order waits for ever: from any reachable state, after the effect that runs when the socket has
  connected, and once the acknowledgement windows then running have expired, no promise is left waiting, also for orders
  that were queued while offline, which wait until then.
\<close>
theorem acks_drain:
  "exchange_reach s \<Longrightarrow>
     waiting (fold ack_timeout (map fst (ef_timers (on_connected_effect True s))) (on_connected_effect True s)) = []"
  using drained_after_connect [OF acks_ok_reach] by (simp add: waiting_def)

theorem acks_drain_witness:
  "waiting (fold ack_timeout (map fst (ef_timers (on_connected_effect True
       (exchange_step (Submit ''ui_1'' True demo_order) init_exchange))))
     (on_connected_effect True (exchange_step (Submit ''ui_1'' True demo_order) init_exchange))) = []"
  by (rule acks_drain) (rule demo_reach)

text \<open>
  The fills feed shows the newest 50 fills: after any sequence of messages of any kind it is the
  first 50 entries of all received fills, the latest message first.
\<close>
theorem fills_feed_newest:
  "ef_fills (foldl (\<lambda>s (now, m). handle_exchange_message now m s) init_exchange ms) =
     take 50 (concat (rev (map (\<lambda>(now, m). fills_of now m) ms)))"
  by (simp only: fills_run fills.push_run cap_fills_def)

end
