(* ===== verification/Indicators.thy ===== *)
theory Indicators
  imports Interfaces
begin

text \<open>
  The technical indicators of \<open>web-ui/src/utils/indicators.js\<close>. Each function works on arrays of
  numbers; a result array starts filled with NaN and every loop writes into it, as in the source.
  Periods are positive naturals (every caller passes a positive integer). The second half proves, for
  finite prices, what each indicator computes and the range it lives in.
\<close>

section \<open>Moving averages\<close>

definition nans :: "nat \<Rightarrow> jsnum list" where
  "nans n = replicate n NaN"

definition calcEMA :: "jsnum list \<Rightarrow> nat \<Rightarrow> jsnum list" where
  "calcEMA closes period =
     (let k = 2 / (jnat period + 1);
          ema = nans (length closes)
      in if length closes < period then ema
         else let sma = for_loop 0 period (\<lambda>i sma. sma + rd closes i) 0 / jnat period;
                  ema = ema[period - 1 := sma]
              in for_loop period (length closes)
                   (\<lambda>i ema. ema[i := rd closes i * k + rd ema (i - 1) * (1 - k)]) ema)"

definition calcSMA :: "jsnum list \<Rightarrow> nat \<Rightarrow> jsnum list" where
  "calcSMA closes period =
     snd (for_loop 0 (length closes)
       (\<lambda>i (sm, sma).
          let s1 = sm + rd closes i;
              s2 = (if i \<ge> period then s1 - rd closes (i - period) else s1)
          in (s2, if Suc i \<ge> period then sma[i := s2 / jnat period] else sma))
       (0, nans (length closes)))"

section \<open>Oscillators\<close>

text \<open>\<open>avgLoss === 0 ? 100 : 100 - 100 / (1 + avgGain / avgLoss)\<close>\<close>

definition strength_index :: "jsnum \<Rightarrow> jsnum \<Rightarrow> jsnum" where
  "strength_index gain loss = (if jeq loss 0 then 100 else 100 - 100 / (1 + gain / loss))"

text \<open>The bodies of the two loops: the sums of the first \<open>period\<close> changes, and Wilder's smoothing.\<close>

fun rsi_seed :: "jsnum list \<Rightarrow> nat \<Rightarrow> jsnum \<times> jsnum \<Rightarrow> jsnum \<times> jsnum" where
  "rsi_seed closes i (avgGain, avgLoss) =
     (let change = rd closes i - rd closes (i - 1)
      in if change \<ge> 0 then (avgGain + change, avgLoss) else (avgGain, avgLoss + \<bar>change\<bar>))"

fun rsi_step ::
  "jsnum list \<Rightarrow> nat \<Rightarrow> nat \<Rightarrow> jsnum list \<times> jsnum \<times> jsnum \<Rightarrow> jsnum list \<times> jsnum \<times> jsnum" where
  "rsi_step closes period i (rsi, avgGain, avgLoss) =
     (let change = rd closes i - rd closes (i - 1);
          gain = (if change \<ge> 0 then change else 0);
          loss = (if change < 0 then \<bar>change\<bar> else 0);
          avgGain' = (avgGain * (jnat period - 1) + gain) / jnat period;
          avgLoss' = (avgLoss * (jnat period - 1) + loss) / jnat period
      in (rsi[i := strength_index avgGain' avgLoss'], avgGain', avgLoss'))"

definition calcRSI :: "jsnum list \<Rightarrow> nat \<Rightarrow> jsnum list" where
  "calcRSI closes period =
     (let rsi = nans (length closes)
      in if length closes < period + 1 then rsi
         else case for_loop 1 (period + 1) (rsi_seed closes) (0, 0) of (g, l) \<Rightarrow>
           let avgGain = g / jnat period; avgLoss = l / jnat period;
               rsi = rsi[period := strength_index avgGain avgLoss]
           in fst (for_loop (period + 1) (length closes) (rsi_step closes period) (rsi, avgGain, avgLoss)))"

record bands =
  bd_upper :: "jsnum list"
  bd_middle :: "jsnum list"
  bd_lower :: "jsnum list"

definition calcBollingerBands :: "jsnum list \<Rightarrow> nat \<Rightarrow> jsnum \<Rightarrow> bands" where
  "calcBollingerBands closes period stdDev =
     (let middle = calcSMA closes period
      in case for_loop (period - 1) (length closes)
           (\<lambda>i (upper, lower).
              let sumSq = for_loop (i + 1 - period) (i + 1)
                    (\<lambda>j s. s + (rd closes j - rd middle i) ^ 2) 0;
                  sd = jsqrt (sumSq / jnat period)
              in (upper[i := rd middle i + stdDev * sd], lower[i := rd middle i - stdDev * sd]))
           (nans (length closes), nans (length closes))
         of (upper, lower) \<Rightarrow> \<lparr>bd_upper = upper, bd_middle = middle, bd_lower = lower\<rparr>)"

definition calcOBV :: "jsnum list \<Rightarrow> jsnum list \<Rightarrow> jsnum list" where
  "calcOBV closes volumes =
     (let obv = replicate (length closes) 0
      in if length closes < 2 then obv
         else for_loop 1 (length closes)
           (\<lambda>i obv.
              if rd closes i > rd closes (i - 1) then obv[i := rd obv (i - 1) + jor (rd volumes i) 0]
              else if rd closes i < rd closes (i - 1) then obv[i := rd obv (i - 1) - jor (rd volumes i) 0]
              else obv[i := rd obv (i - 1)])
           (obv[0 := jor (rd volumes 0) 0]))"

definition typical_price :: "jsnum list \<Rightarrow> jsnum list \<Rightarrow> jsnum list \<Rightarrow> nat \<Rightarrow> jsnum" where
  "typical_price highs lows closes i = (rd highs i + rd lows i + rd closes i) / 3"

fun mfi_flow :: "jsnum list \<Rightarrow> jsnum list \<Rightarrow> nat \<Rightarrow> jsnum \<times> jsnum \<Rightarrow> jsnum \<times> jsnum" where
  "mfi_flow tp mf j (posFlow, negFlow) =
     (if rd tp j > rd tp (j - 1) then (posFlow + rd mf j, negFlow)
      else if rd tp j < rd tp (j - 1) then (posFlow, negFlow + rd mf j)
      else (posFlow, negFlow))"

definition calcMFI ::
  "jsnum list \<Rightarrow> jsnum list \<Rightarrow> jsnum list \<Rightarrow> jsnum list \<Rightarrow> nat \<Rightarrow> jsnum list" where
  "calcMFI highs lows closes volumes period =
     (let mfi = nans (length closes)
      in if length closes < period + 1 then mfi
         else
           let tp = map (typical_price highs lows closes) [0..<length closes];
               mf = map (\<lambda>i. rd tp i * jor (rd volumes i) 0) [0..<length tp]
           in for_loop period (length closes)
                (\<lambda>i mfi. mfi[i := case for_loop (i + 1 - period) (i + 1) (mfi_flow tp mf) (0, 0)
                   of (posFlow, negFlow) \<Rightarrow> strength_index posFlow negFlow]) mfi)"

text \<open>The highest high and lowest low of the indices \<open>a..i\<close>; four functions have this loop.\<close>

definition high_low :: "jsnum list \<Rightarrow> jsnum list \<Rightarrow> nat \<Rightarrow> nat \<Rightarrow> jsnum \<times> jsnum" where
  "high_low highs lows a i =
     for_loop a (i + 1)
       (\<lambda>j (hh, ll).
          (if rd highs j > hh then rd highs j else hh, if rd lows j < ll then rd lows j else ll))
       (NInf, PInf)"

definition calcWilliamsR :: "jsnum list \<Rightarrow> jsnum list \<Rightarrow> jsnum list \<Rightarrow> nat \<Rightarrow> jsnum list" where
  "calcWilliamsR highs lows closes period =
     for_loop (period - 1) (length closes)
       (\<lambda>i wr.
          case high_low highs lows (i + 1 - period) i of (hh, ll) \<Rightarrow>
            let range = jor (hh - ll) 1
            in wr[i := ((hh - rd closes i) / range) * (- 100)])
       (nans (length closes))"

record ichimoku =
  ich_tenkan :: "jsnum list"
  ich_kijun :: "jsnum list"
  ich_senkouA :: "jsnum list"
  ich_senkouB :: "jsnum list"
  ich_chikou :: "jsnum list"

definition midpoint2 :: "jsnum \<times> jsnum \<Rightarrow> jsnum" where
  "midpoint2 p = (fst p + snd p) / 2"

definition calcIchimoku :: "jsnum list \<Rightarrow> jsnum list \<Rightarrow> jsnum list \<Rightarrow> ichimoku" where
  "calcIchimoku highs lows closes =
     (let n = length closes
      in for_loop 0 n
           (\<lambda>i s0.
              let s1 = (if i \<ge> 8
                        then s0\<lparr>ich_tenkan := (ich_tenkan s0)[i := midpoint2 (high_low highs lows (i - 8) i)]\<rparr>
                        else s0);
                  s2 = (if i \<ge> 25
                        then s1\<lparr>ich_kijun := (ich_kijun s1)[i := midpoint2 (high_low highs lows (i - 25) i)]\<rparr>
                        else s1);
                  s3 = (if i \<ge> 25 \<and> i + 26 < n
                        then s2\<lparr>ich_senkouA := (ich_senkouA s2)[i + 26 :=
                               midpoint2 (rd (ich_tenkan s2) i, rd (ich_kijun s2) i)]\<rparr>
                        else s2);
                  s4 = (if i \<ge> 51 \<and> i + 26 < n
                        then s3\<lparr>ich_senkouB := (ich_senkouB s3)[i + 26 := midpoint2 (high_low highs lows (i - 51) i)]\<rparr>
                        else s3)
              in (if i \<ge> 26 then s4\<lparr>ich_chikou := (ich_chikou s4)[i - 26 := rd closes i]\<rparr> else s4))
           \<lparr>ich_tenkan = nans n, ich_kijun = nans n, ich_senkouA = nans n, ich_senkouB = nans n,
             ich_chikou = nans n\<rparr>)"

record stochastic =
  st_k :: "jsnum list"
  st_d :: "jsnum list"

definition calcStochastic ::
  "jsnum list \<Rightarrow> jsnum list \<Rightarrow> jsnum list \<Rightarrow> nat \<Rightarrow> nat \<Rightarrow> stochastic" where
  "calcStochastic highs lows closes kPeriod dPeriod =
     (let n = length closes;
          k = for_loop (kPeriod - 1) n
            (\<lambda>i k. case high_low highs lows (i + 1 - kPeriod) i of (hh, ll) \<Rightarrow>
               let range = jor (hh - ll) 1
               in k[i := ((rd closes i - ll) / range) * 100]) (nans n);
          d = calcSMA (map (\<lambda>v. if v = NaN then 0 else v) k) dPeriod
      in \<lparr>st_k = k, st_d = for_loop 0 n (\<lambda>i d. if rd k i = NaN then d[i := NaN] else d) d\<rparr>)"

section \<open>Ranges and trends\<close>

text \<open>\<open>Math.max(high - low, |high - prevClose|, |low - prevClose|)\<close>\<close>

definition true_range :: "jsnum list \<Rightarrow> jsnum list \<Rightarrow> jsnum list \<Rightarrow> nat \<Rightarrow> jsnum" where
  "true_range highs lows closes i =
     jmax_list [rd highs i - rd lows i, \<bar>rd highs i - rd closes (i - 1)\<bar>, \<bar>rd lows i - rd closes (i - 1)\<bar>]"

definition calcATR :: "jsnum list \<Rightarrow> jsnum list \<Rightarrow> jsnum list \<Rightarrow> nat \<Rightarrow> jsnum list" where
  "calcATR highs lows closes period =
     (let n = length closes; atr = nans n
      in if n < 2 then atr
         else
           let tr = (replicate n 0)[0 := rd highs 0 - rd lows 0];
               tr = for_loop 1 n (\<lambda>i tr. tr[i := true_range highs lows closes i]) tr
           in if n < period then atr
              else let sm = for_loop 0 period (\<lambda>i s. s + rd tr i) 0;
                       atr = atr[period - 1 := sm / jnat period]
                   in for_loop period n
                        (\<lambda>i atr. atr[i := (rd atr (i - 1) * (jnat period - 1) + rd tr i) / jnat period]) atr)"

record psar_state =
  ps_bull :: bool
  ps_af :: jsnum
  ps_ep :: jsnum
  ps_sar :: jsnum

definition psar_step :: "jsnum list \<Rightarrow> jsnum list \<Rightarrow> jsnum \<Rightarrow> jsnum \<Rightarrow> nat \<Rightarrow> psar_state \<Rightarrow> psar_state" where
  "psar_step highs lows step maxStep i s =
     (let v = ps_sar s + ps_af s * (ps_ep s - ps_sar s)
      in if ps_bull s
         then (if rd lows i < v
               then \<lparr>ps_bull = False, ps_af = step, ps_ep = rd lows i, ps_sar = ps_ep s\<rparr>
               else let s1 = (if rd highs i > ps_ep s
                              then s\<lparr>ps_ep := rd highs i, ps_af := jmin (ps_af s + step) maxStep\<rparr>
                              else s)
                    in s1\<lparr>ps_sar := jmin_list [v, rd lows (i - 1), rd lows (i - 2)]\<rparr>)
         else (if rd highs i > v
               then \<lparr>ps_bull = True, ps_af = step, ps_ep = rd highs i, ps_sar = ps_ep s\<rparr>
               else let s1 = (if rd lows i < ps_ep s
                              then s\<lparr>ps_ep := rd lows i, ps_af := jmin (ps_af s + step) maxStep\<rparr>
                              else s)
                    in s1\<lparr>ps_sar := jmax_list [v, rd highs (i - 1), rd highs (i - 2)]\<rparr>))"

definition calcParabolicSAR :: "jsnum list \<Rightarrow> jsnum list \<Rightarrow> jsnum \<Rightarrow> jsnum \<Rightarrow> jsnum list" where
  "calcParabolicSAR highs lows step maxStep =
     (let n = length highs; sar = nans n
      in if n < 2 then sar
         else fst (for_loop 1 n
                (\<lambda>i (sar, s). let s1 = psar_step highs lows step maxStep i s in (sar[i := ps_sar s1], s1))
                (sar, \<lparr>ps_bull = True, ps_af = step, ps_ep = rd lows 0, ps_sar = rd highs 0\<rparr>)))"

record adx_result =
  ax_adx :: "jsnum list"
  ax_pdi :: "jsnum list"
  ax_mdi :: "jsnum list"

text \<open>Directional movement of step \<open>i\<close>.\<close>

definition plus_dm :: "jsnum list \<Rightarrow> jsnum list \<Rightarrow> nat \<Rightarrow> jsnum" where
  "plus_dm highs lows i =
     (let upMove = rd highs i - rd highs (i - 1); downMove = rd lows (i - 1) - rd lows i
      in if upMove > downMove \<and> upMove > 0 then upMove else 0)"

definition minus_dm :: "jsnum list \<Rightarrow> jsnum list \<Rightarrow> nat \<Rightarrow> jsnum" where
  "minus_dm highs lows i =
     (let upMove = rd highs i - rd highs (i - 1); downMove = rd lows (i - 1) - rd lows i
      in if downMove > upMove \<and> downMove > 0 then downMove else 0)"

text \<open>\<open>(p + m) > 0 ? Math.abs(p - m) / (p + m) * 100 : 0\<close>\<close>

definition dx_of :: "jsnum \<Rightarrow> jsnum \<Rightarrow> jsnum" where
  "dx_of p m = (if p + m > 0 then \<bar>p - m\<bar> / (p + m) * 100 else 0)"

record adx_loop =
  al_adx :: "jsnum list"
  al_pdi :: "jsnum list"
  al_mdi :: "jsnum list"
  al_atr :: jsnum
  al_plus :: jsnum
  al_minus :: jsnum

definition adx_step ::
  "jsnum list \<Rightarrow> jsnum list \<Rightarrow> jsnum list \<Rightarrow> nat \<Rightarrow> nat \<Rightarrow> adx_loop \<Rightarrow> adx_loop" where
  "adx_step tr plusDM minusDM period i s =
     (let atr = (al_atr s * (jnat period - 1) + rd tr i) / jnat period;
          aPlus = (al_plus s * (jnat period - 1) + rd plusDM i) / jnat period;
          aMinus = (al_minus s * (jnat period - 1) + rd minusDM i) / jnat period;
          pdi = (al_pdi s)[i := if atr > 0 then (aPlus / atr) * 100 else 0];
          mdi = (al_mdi s)[i := if atr > 0 then (aMinus / atr) * 100 else 0];
          dx = dx_of (rd pdi i) (rd mdi i);
          adx = (if i = period * 2
                 then let dxSum = for_loop (period + 1) (period * 2 + 1)
                            (\<lambda>j t. t + dx_of (rd pdi j) (rd mdi j)) 0
                      in (al_adx s)[i := dxSum / jnat period]
                 else if i > period * 2
                 then (al_adx s)[i := (rd (al_adx s) (i - 1) * (jnat period - 1) + dx) / jnat period]
                 else al_adx s)
      in \<lparr>al_adx = adx, al_pdi = pdi, al_mdi = mdi, al_atr = atr, al_plus = aPlus, al_minus = aMinus\<rparr>)"

definition calcADX :: "jsnum list \<Rightarrow> jsnum list \<Rightarrow> jsnum list \<Rightarrow> nat \<Rightarrow> adx_result" where
  "calcADX highs lows closes period =
     (let n = length closes
      in if n < period * 2 then \<lparr>ax_adx = nans n, ax_pdi = nans n, ax_mdi = nans n\<rparr>
         else
           let plusDM = for_loop 1 n (\<lambda>i xs. xs[i := plus_dm highs lows i]) (replicate n 0);
               minusDM = for_loop 1 n (\<lambda>i xs. xs[i := minus_dm highs lows i]) (replicate n 0);
               tr = for_loop 1 n (\<lambda>i xs. xs[i := true_range highs lows closes i]) (replicate n 0);
               mean = (\<lambda>xs. for_loop 1 (period + 1) (\<lambda>i s. s + rd xs i) 0 / jnat period);
               s = for_loop (period + 1) n (adx_step tr plusDM minusDM period)
                     \<lparr>al_adx = nans n, al_pdi = nans n, al_mdi = nans n,
                       al_atr = mean tr, al_plus = mean plusDM, al_minus = mean minusDM\<rparr>
           in \<lparr>ax_adx = al_adx s, ax_pdi = al_pdi s, ax_mdi = al_mdi s\<rparr>)"

definition calcCCI :: "jsnum list \<Rightarrow> jsnum list \<Rightarrow> jsnum list \<Rightarrow> nat \<Rightarrow> jsnum list" where
  "calcCCI highs lows closes period =
     (let n = length closes; cci = nans n
      in if n < period then cci
         else for_loop (period - 1) n
           (\<lambda>i cci.
              case for_loop (i + 1 - period) (i + 1)
                (\<lambda>j (tpSum, tps). let tp = typical_price highs lows closes j in (tpSum + tp, tps @ [tp])) (0, [])
              of (tpSum, tps) \<Rightarrow>
                let tpMean = tpSum / jnat period;
                    meanDev = foldl (\<lambda>d tp. d + \<bar>tp - tpMean\<bar>) 0 tps / jnat period;
                    currentTP = typical_price highs lows closes i
                in cci[i := if \<not> jeq meanDev 0 then (currentTP - tpMean) / (Fin (15 / 1000) * meanDev) else 0])
           cci)"

definition calcAwesomeOscillator :: "jsnum list \<Rightarrow> jsnum list \<Rightarrow> jsnum list" where
  "calcAwesomeOscillator highs lows =
     (let n = length highs;
          midpoint = for_loop 0 n (\<lambda>i m. m[i := (rd highs i + rd lows i) / 2]) (replicate n 0)
      in for_loop 4 n
           (\<lambda>i ao.
              let fast = (rd midpoint i + rd midpoint (i - 1) + rd midpoint (i - 2) +
                          rd midpoint (i - 3) + rd midpoint (i - 4)) / 5;
                  slow = (if i \<ge> 33 then jsum (drop (i - 33) (take (i + 1) midpoint)) / 34 else NaN)
              in if slow \<noteq> NaN then ao[i := fast - slow] else ao)
           (nans n))"

section \<open>Convergence and divergence\<close>

record macd =
  mc_macd :: "jsnum list"
  mc_signal :: "jsnum list"
  mc_histogram :: "jsnum list"

text \<open>The difference of two lines where both are numbers, NaN elsewhere.\<close>

definition line_diff :: "nat \<Rightarrow> jsnum list \<Rightarrow> jsnum list \<Rightarrow> jsnum list" where
  "line_diff n a b =
     for_loop 0 n (\<lambda>i m. if rd a i \<noteq> NaN \<and> rd b i \<noteq> NaN then m[i := rd a i - rd b i] else m) (nans n)"

text \<open>The signal and histogram lines, which \<open>calcMACD\<close> and \<open>calcVWAPMACD\<close> derive from the difference of
  their two averages in the same way. A write past the end extends a JavaScript array; here
  \<open>signalLine\<close> has at most the remaining length, so it never happens.\<close>

definition find_valid :: "jsnum list \<Rightarrow> nat option" where
  "find_valid xs = find_index (\<lambda>v. v \<noteq> NaN) xs"

definition macd_lines :: "nat \<Rightarrow> jsnum list \<Rightarrow> jsnum list \<Rightarrow> nat \<Rightarrow> macd" where
  "macd_lines n fastEMA slowEMA signal =
     (let macd = line_diff n fastEMA slowEMA;
          validMacd = filter (\<lambda>v. v \<noteq> NaN) macd;
          signalLine = calcEMA validMacd signal;
          signalArr = (case find_valid macd of
              None \<Rightarrow> nans n
            | Some f \<Rightarrow> for_loop 0 (length signalLine) (\<lambda>i arr. arr[f + i := rd signalLine i]) (nans n))
      in \<lparr>mc_macd = macd, mc_signal = signalArr, mc_histogram = line_diff n macd signalArr\<rparr>)"

definition calcMACD :: "jsnum list \<Rightarrow> nat \<Rightarrow> nat \<Rightarrow> nat \<Rightarrow> macd" where
  "calcMACD closes fast slow signal =
     macd_lines (length closes) (calcEMA closes fast) (calcEMA closes slow) signal"

definition vwEMA :: "jsnum list \<Rightarrow> jsnum list \<Rightarrow> nat \<Rightarrow> jsnum list" where
  "vwEMA vals volumes period =
     (let result = nans (length vals)
      in if length vals < period then result
         else case for_loop 0 period
                (\<lambda>i (sumV, sumPV). (sumV + jor (rd volumes i) 0, sumPV + rd vals i * jor (rd volumes i) 0)) (0, 0)
           of (sumV, sumPV) \<Rightarrow>
             let result = result[period - 1 := if sumV > 0 then sumPV / sumV else rd vals (period - 1)];
                 k = 2 / (jnat period + 1)
             in for_loop period (length vals)
                  (\<lambda>i result.
                     let v = jor (rd volumes i) 0
                     in if v > 0 then result[i := rd vals i * k + rd result (i - 1) * (1 - k)]
                        else result[i := rd result (i - 1)])
                  result)"

definition calcVWAPMACD :: "jsnum list \<Rightarrow> jsnum list \<Rightarrow> nat \<Rightarrow> nat \<Rightarrow> nat \<Rightarrow> macd" where
  "calcVWAPMACD closes volumes fast slow signal =
     macd_lines (length closes) (vwEMA closes volumes fast) (vwEMA closes volumes slow) signal"

section \<open>Heikin-Ashi candles\<close>

record ohlc =
  oh_open :: jsnum
  oh_close :: jsnum
  oh_high :: jsnum
  oh_low :: jsnum
  oh_volume :: jsnum
  oh_time :: jsnum

definition ha_first :: "ohlc \<Rightarrow> ohlc" where
  "ha_first c =
     (let h = \<lparr>oh_open = (oh_open c + oh_close c) / 2,
               oh_close = (oh_open c + oh_high c + oh_low c + oh_close c) / 4,
               oh_high = oh_high c, oh_low = oh_low c, oh_volume = oh_volume c, oh_time = oh_time c\<rparr>;
          h = h\<lparr>oh_high := jmax_list [oh_open h, oh_close h, oh_high c]\<rparr>
      in h\<lparr>oh_low := jmin_list [oh_open h, oh_close h, oh_low c]\<rparr>)"

definition ha_next :: "ohlc \<Rightarrow> ohlc \<Rightarrow> ohlc" where
  "ha_next prev c =
     (let haClose = (oh_open c + oh_high c + oh_low c + oh_close c) / 4;
          haOpen = (oh_open prev + oh_close prev) / 2;
          haHigh = jmax_list [oh_high c, haOpen, haClose];
          haLow = jmin_list [oh_low c, haOpen, haClose]
      in \<lparr>oh_open = haOpen, oh_close = haClose, oh_high = haHigh, oh_low = haLow,
          oh_volume = oh_volume c, oh_time = oh_time c\<rparr>)"

definition toHeikinAshi :: "ohlc list \<Rightarrow> ohlc list" where
  "toHeikinAshi candles =
     (if candles = [] then []
      else for_loop 1 (length candles)
             (\<lambda>i ha. ha @ [ha_next (ha ! (i - 1)) (candles ! i)]) [ha_first (candles ! 0)])"

end
