(* ===== verification/IndicatorLaws.thy ===== *)
theory IndicatorLaws
  imports Indicators
begin

text \<open>
  What the indicators of \<open>Indicators\<close> compute on finite prices: closed forms of the sliding and
  the recursive averages, ranges of the oscillators, and the algebra between indicators that are
  derived from each other.
\<close>

section \<open>Array loops\<close>

lemma length_nans [simp]: "length (nans n) = n"
  by (simp add: nans_def)

lemma rd_nans [simp]: "rd (nans n) i = NaN"
  by (simp add: rd_def nans_def)

lemma rd_map [simp]: "rd (map Fin xs) i = (if i < length xs then Fin (xs ! i) else NaN)"
  by (simp add: rd_def)

text \<open>A loop whose entry \<open>i\<close> is a function of \<open>i\<close> and the entry before it.\<close>

lemma for_loop_recurrence:
  fixes F :: "nat \<Rightarrow> jsnum \<Rightarrow> jsnum"
  assumes "0 < a" and "n \<le> length xs"
  defines "r \<equiv> for_loop a n (\<lambda>i ys. ys[i := F i (rd ys (i - 1))]) xs"
  shows "length r = length xs" and "j < a \<Longrightarrow> rd r j = rd xs j"
    and "a \<le> j \<Longrightarrow> j < n \<Longrightarrow> rd r j = F j (rd r (j - 1))"
proof -
  let ?P = "\<lambda>i ys. length ys = length xs \<and> (\<forall>j < a. rd ys j = rd xs j) \<and>
      (\<forall>j. a \<le> j \<and> j < i \<longrightarrow> rd ys j = F j (rd ys (j - 1)))"
  have "?P n r \<or> n < a"
  proof (cases "a \<le> n")
    case True
    have "?P n r"
      unfolding r_def
    proof (rule for_loop_invariant [OF True, where P = ?P])
      show "?P a xs" by auto
    next
      fix i t assume i: "a \<le> i" "i < n" and P: "?P i t"
      let ?t = "t[i := F i (rd t (i - 1))]"
      have other: "rd ?t k = rd t k" if "k \<noteq> i" for k using that by (simp add: rd_update)
      have new: "rd ?t i = F i (rd t (i - 1))" using i P assms(2) by simp
      have "rd ?t j = F j (rd ?t (j - 1))" if j: "a \<le> j" "j < Suc i" for j
      proof (cases "j = i")
        case True
        then show ?thesis using new other [of "i - 1"] i assms(1) by simp
      next
        case False
        then show ?thesis using j other [of j] other [of "j - 1"] P assms(1) by simp
      qed
      moreover have "rd ?t j = rd xs j" if "j < a" for j using other [of j] that i P by simp
      ultimately show "?P (Suc i) ?t" using P by simp
    qed
    then show ?thesis by simp
  qed simp
  then show "length r = length xs" and "j < a \<Longrightarrow> rd r j = rd xs j"
    and "a \<le> j \<Longrightarrow> j < n \<Longrightarrow> rd r j = F j (rd r (j - 1))"
    by (auto simp: r_def)
qed

text \<open>A loop whose entry \<open>i\<close> is a function of \<open>i\<close> only.\<close>

lemma for_loop_fill:
  assumes "n \<le> length xs"
  shows "length (for_loop a n (\<lambda>i ys. ys[i := v i]) xs) = length xs"
    and "rd (for_loop a n (\<lambda>i ys. ys[i := v i]) xs) j = (if a \<le> j \<and> j < n then v j else rd xs j)"
proof -
  have *: "length (for_loop a n (\<lambda>i ys. ys[i := v i]) xs) = length xs \<and>
    (\<forall>j < length xs. for_loop a n (\<lambda>i ys. ys[i := v i]) xs ! j = (if a \<le> j \<and> j < n then v j else xs ! j))"
    by (cases "a \<le> n") (use for_loop_write [of a n v xs] in auto)
  then show "length (for_loop a n (\<lambda>i ys. ys[i := v i]) xs) = length xs" ..
  from * show "rd (for_loop a n (\<lambda>i ys. ys[i := v i]) xs) j = (if a \<le> j \<and> j < n then v j else rd xs j)"
    using assms by (auto simp: rd_def)
qed

lemma for_loop_sum_Fin:
  assumes "\<And>i. a \<le> i \<Longrightarrow> i < b \<Longrightarrow> f i = Fin (g i)"
  shows "for_loop a b (\<lambda>i s. s + f i) (Fin c) = Fin (c + (\<Sum>i = a..<b. g i))"
proof (cases "a \<le> b")
  case True
  show ?thesis
    by (rule for_loop_invariant [where P = "\<lambda>i s. s = Fin (c + (\<Sum>k = a..<i. g k))"])
      (use True assms in auto)
qed simp

section \<open>Simple moving average\<close>

definition window_sum :: "real list \<Rightarrow> nat \<Rightarrow> nat \<Rightarrow> real" where
  "window_sum cs a b = (\<Sum>j = a..<b. cs ! j)"

lemma window_sum_Suc: "a \<le> b \<Longrightarrow> window_sum cs a (Suc b) = window_sum cs a b + cs ! b"
  by (simp add: window_sum_def)

lemma window_sum_drop: "a < b \<Longrightarrow> window_sum cs (Suc a) b = window_sum cs a b - cs ! a"
  by (simp add: window_sum_def sum.atLeast_Suc_lessThan)

lemma calcSMA_loop:
  assumes "0 < period"
  shows "length (calcSMA (map Fin cs) period) = length cs \<and>
    (\<forall>j < length cs. rd (calcSMA (map Fin cs) period) j =
       (if Suc j \<ge> period then Fin (window_sum cs (Suc j - period) (Suc j) / real period) else NaN))"
proof -
  let ?n = "length cs"
  let ?body = "\<lambda>i (sm, sma).
     let s1 = sm + rd (map Fin cs) i; s2 = (if i \<ge> period then s1 - rd (map Fin cs) (i - period) else s1)
     in (s2, if Suc i \<ge> period then sma[i := s2 / jnat period] else sma)"
  let ?P = "\<lambda>i (sm, sma). sm = Fin (window_sum cs (i - period) i) \<and> length sma = ?n \<and>
     (\<forall>j < ?n. rd sma j = (if j < i \<and> Suc j \<ge> period
        then Fin (window_sum cs (Suc j - period) (Suc j) / real period) else NaN))"
  have "?P ?n (for_loop 0 ?n ?body (0, nans ?n))"
  proof (rule for_loop_invariant [where P = ?P])
    show "?P 0 (0, nans ?n)" by (simp add: window_sum_def)
  next
    fix i t assume i: "i < ?n" and P: "?P i t"
    obtain sm sma where t: "t = (sm, sma)" by (cases t)
    have s2: "(let s1 = sm + rd (map Fin cs) i
        in if i \<ge> period then s1 - rd (map Fin cs) (i - period) else s1) = Fin (window_sum cs (Suc i - period) (Suc i))"
    proof (cases "period \<le> i")
      case True
      then have "Suc (i - period) = Suc i - period" "i - period < Suc i" by auto
      then show ?thesis
        using True P i assms t window_sum_drop [of "i - period" "Suc i" cs]
        by (simp add: window_sum_Suc)
    next
      case False
      then show ?thesis using P i t by (simp add: window_sum_Suc)
    qed
    show "?P (Suc i) (?body i t)"
      using P i assms s2 unfolding t by (auto simp: rd_update less_Suc_eq Let_def)
  qed simp
  then show ?thesis by (auto simp: calcSMA_def split: prod.splits)
qed

lemma length_calcSMA [simp]: "0 < period \<Longrightarrow> length (calcSMA (map Fin cs) period) = length cs"
  using calcSMA_loop by blast

lemma calcSMA_at:
  assumes "0 < period" and "j < length cs"
  shows "rd (calcSMA (map Fin cs) period) j =
    (if Suc j \<ge> period then Fin (window_sum cs (Suc j - period) (Suc j) / real period) else NaN)"
  using calcSMA_loop [OF assms(1)] assms(2) by blast

section \<open>Exponential moving average\<close>

definition ema_weight :: "nat \<Rightarrow> real" where
  "ema_weight period = 2 / (real period + 1)"

definition segment :: "'a list \<Rightarrow> nat \<Rightarrow> nat \<Rightarrow> 'a list" where
  "segment xs a b = drop a (take b xs)"

lemma segment_Suc: "a \<le> b \<Longrightarrow> b < length xs \<Longrightarrow> segment xs a (Suc b) = segment xs a b @ [xs ! b]"
  by (simp add: segment_def take_Suc_conv_app_nth)

lemma segment_empty [simp]: "segment xs a a = []"
  by (simp add: segment_def)

lemma recur_append [simp]: "recur f a (xs @ ys) = recur f (recur f a xs) ys"
  by (induction xs arbitrary: a) simp_all

lemma calcEMA_short: "length closes < period \<Longrightarrow> calcEMA closes period = nans (length closes)"
  by (simp add: calcEMA_def)

interpretation ema: averaging "blend (ema_weight (Suc q))" for q
  by (rule averaging_blend) (simp_all add: ema_weight_def)

lemma ema_bounds:
  assumes "0 < p" "lo \<le> a \<and> a \<le> hi" "\<forall>x \<in> set xs. lo \<le> x \<and> x \<le> hi"
  shows "lo \<le> recur (blend (ema_weight p)) a xs \<and> recur (blend (ema_weight p)) a xs \<le> hi"
  using ema.recur_bounds [OF assms(2,3), of "p - 1"] assms(1) by simp

lemma calcEMA_steps:
  assumes p: "0 < period" "period \<le> length cs"
  defines "e \<equiv> calcEMA (map Fin cs) period"
  shows "length e = length cs" and "Suc j < period \<Longrightarrow> rd e j = NaN"
    and "rd e (period - 1) = Fin (window_sum cs 0 period / real period)"
    and "period \<le> j \<Longrightarrow> j < length cs \<Longrightarrow>
      rd e j = Fin (cs ! j) * Fin (ema_weight period) + rd e (j - 1) * Fin (1 - ema_weight period)"
proof -
  have seed: "for_loop 0 period (\<lambda>i sma. sma + rd (map Fin cs) i) (Fin 0) = Fin (window_sum cs 0 period)"
    using for_loop_sum_Fin [of 0 period "rd (map Fin cs)" "\<lambda>i. cs ! i" 0] p by (simp add: window_sum_def)
  let ?x0 = "(nans (length cs))[period - 1 := Fin (window_sum cs 0 period / real period)]"
  have "real period + 1 \<noteq> 0" using p(1) by linarith
  then have e: "e = for_loop period (length cs)
      (\<lambda>i ys. ys[i := rd (map Fin cs) i * Fin (ema_weight period) + rd ys (i - 1) * Fin (1 - ema_weight period)]) ?x0"
    using p seed by (simp add: e_def calcEMA_def ema_weight_def Let_def del: rd_map)
  note R = for_loop_recurrence [where F = "\<lambda>i v. rd (map Fin cs) i * Fin (ema_weight period) + v * Fin (1 - ema_weight period)"
      and a = period and n = "length cs" and xs = ?x0, OF p(1), folded e]
  show "length e = length cs" using R(1) by simp
  show "Suc j < period \<Longrightarrow> rd e j = NaN" using R(2) [of j] p by (auto simp: rd_update)
  show "rd e (period - 1) = Fin (window_sum cs 0 period / real period)"
    using R(2) [of "period - 1"] p by (auto simp: rd_update)
  show "period \<le> j \<Longrightarrow> j < length cs \<Longrightarrow>
      rd e j = Fin (cs ! j) * Fin (ema_weight period) + rd e (j - 1) * Fin (1 - ema_weight period)"
    using R(3) [of j] by simp
qed

lemma calcEMA_closed_form:
  assumes "0 < period" and "period \<le> Suc j" and "j < length cs"
  shows "rd (calcEMA (map Fin cs) period) j =
    Fin (recur (blend (ema_weight period)) (window_sum cs 0 period / real period) (segment cs period (Suc j)))"
proof -
  have "period - 1 \<le> j" using assms(2) by simp
  then show ?thesis using assms(3)
  proof (induction j rule: nat_induct_at_least)
    case base
    then show ?case using calcEMA_steps(3) [of period cs] assms(1) by simp
  next
    case (Suc j)
    then show ?case
      using calcEMA_steps(4) [of period cs "Suc j"] assms(1) by (simp add: segment_Suc blend_def)
  qed
qed

section \<open>Highest high and lowest low\<close>

definition highest :: "real list \<Rightarrow> nat \<Rightarrow> nat \<Rightarrow> real" where
  "highest hs a b = Max ((!) hs ` {a..<b})"

definition lowest :: "real list \<Rightarrow> nat \<Rightarrow> nat \<Rightarrow> real" where
  "lowest ls a b = Min ((!) ls ` {a..<b})"

lemma highest_Suc: "a < b \<Longrightarrow> highest hs a (Suc b) = max (highest hs a b) (hs ! b)"
  by (simp add: highest_def atLeastLessThanSuc max.commute)

lemma lowest_Suc: "a < b \<Longrightarrow> lowest ls a (Suc b) = min (lowest ls a b) (ls ! b)"
  by (simp add: lowest_def atLeastLessThanSuc min.commute)

lemma highest_ge: "a \<le> j \<Longrightarrow> j < b \<Longrightarrow> hs ! j \<le> highest hs a b"
  by (simp add: highest_def)

lemma lowest_le: "a \<le> j \<Longrightarrow> j < b \<Longrightarrow> lowest ls a b \<le> ls ! j"
  by (simp add: lowest_def)

lemma high_low_Fin:
  assumes "a \<le> i" "i < length hs" "i < length ls"
  shows "high_low (map Fin hs) (map Fin ls) a i = (Fin (highest hs a (Suc i)), Fin (lowest ls a (Suc i)))"
proof -
  let ?body = "\<lambda>j (hh, ll).
          (if rd (map Fin hs) j > hh then rd (map Fin hs) j else hh, if rd (map Fin ls) j < ll then rd (map Fin ls) j else ll)"
  have first: "?body a (NInf, PInf) = (Fin (highest hs a (Suc a)), Fin (lowest ls a (Suc a)))"
    using assms by (simp add: highest_def lowest_def)
  have "for_loop (Suc a) (Suc i) ?body (?body a (NInf, PInf)) =
      (Fin (highest hs a (Suc i)), Fin (lowest ls a (Suc i)))"
    by (rule for_loop_invariant [where P = "\<lambda>j s. s = (Fin (highest hs a j), Fin (lowest ls a j))"])
      (use assms first in \<open>auto simp: highest_Suc lowest_Suc max_def min_def\<close>)
  then show ?thesis using assms by (simp add: high_low_def for_loop_first)
qed

text \<open>Price bars: as many lows and closes as highs, and each close within its bar.\<close>

definition bars_ok :: "real list \<Rightarrow> real list \<Rightarrow> real list \<Rightarrow> bool" where
  "bars_ok hs ls cs \<longleftrightarrow> length hs = length cs \<and> length ls = length cs \<and>
     (\<forall>j < length cs. ls ! j \<le> cs ! j \<and> cs ! j \<le> hs ! j)"

lemma bars_close_in_range:
  assumes "bars_ok hs ls cs" "a \<le> i" "i < length cs"
  shows "lowest ls a (Suc i) \<le> cs ! i" "cs ! i \<le> highest hs a (Suc i)"
  using assms highest_ge [of a i "Suc i" hs] lowest_le [of a i "Suc i" ls]
  by (force simp: bars_ok_def)+

section \<open>Stochastic oscillator and Williams %R\<close>

lemma stochastic_k_at:
  assumes "bars_ok hs ls cs" "0 < p" "i < length cs"
  shows "rd (st_k (calcStochastic (map Fin hs) (map Fin ls) (map Fin cs) p d)) i =
    (if Suc i < p then NaN
     else let H = highest hs (Suc i - p) (Suc i); L = lowest ls (Suc i - p) (Suc i)
          in Fin ((cs ! i - L) / (if H - L \<noteq> 0 then H - L else 1) * 100))"
proof -
  have "rd (st_k (calcStochastic (map Fin hs) (map Fin ls) (map Fin cs) p d)) i =
      (if p - 1 \<le> i \<and> i < length cs
       then case high_low (map Fin hs) (map Fin ls) (i + 1 - p) i of (hh, ll) \<Rightarrow>
               ((rd (map Fin cs) i - ll) / jor (hh - ll) 1) * 100 else rd (nans (length cs)) i)"
    by (simp add: calcStochastic_def Let_def case_prod_unfold for_loop_fill del: rd_map)
  then show ?thesis
    using assms by (auto simp: bars_ok_def high_low_Fin Let_def)
qed

lemma williams_at:
  assumes "bars_ok hs ls cs" "0 < p" "i < length cs"
  shows "rd (calcWilliamsR (map Fin hs) (map Fin ls) (map Fin cs) p) i =
    (if Suc i < p then NaN
     else let H = highest hs (Suc i - p) (Suc i); L = lowest ls (Suc i - p) (Suc i)
          in Fin ((H - cs ! i) / (if H - L \<noteq> 0 then H - L else 1) * - 100))"
proof -
  have "rd (calcWilliamsR (map Fin hs) (map Fin ls) (map Fin cs) p) i =
      (if p - 1 \<le> i \<and> i < length cs
       then case high_low (map Fin hs) (map Fin ls) (i + 1 - p) i of (hh, ll) \<Rightarrow>
               ((hh - rd (map Fin cs) i) / jor (hh - ll) 1) * (- 100) else rd (nans (length cs)) i)"
    by (simp add: calcWilliamsR_def Let_def case_prod_unfold for_loop_fill del: rd_map)
  then show ?thesis
    using assms by (auto simp: bars_ok_def high_low_Fin Let_def)
qed

lemma scaled_in_unit:
  fixes x r :: real
  assumes "0 \<le> x" "x \<le> r"
  shows "0 \<le> x / (if r \<noteq> 0 then r else 1) * 100" "x / (if r \<noteq> 0 then r else 1) * 100 \<le> 100"
  using assms by (auto simp: field_simps)

section \<open>Relative strength\<close>

lemma strength_index_range:
  assumes "0 \<le> g" "0 \<le> l"
  shows "\<exists>r. strength_index (Fin g) (Fin l) = Fin r \<and> 0 \<le> r \<and> r \<le> 100"
proof (cases "l = 0")
  case False
  then have "1 + g / l \<ge> 1" using assms by simp
  then have "100 / (1 + g / l) \<le> 100" "0 \<le> 100 / (1 + g / l)"
    by (simp_all add: pos_divide_le_eq)
  then show ?thesis using False \<open>1 + g / l \<ge> 1\<close> by (simp add: strength_index_def)
qed (simp add: strength_index_def)

definition in_percent :: "jsnum \<Rightarrow> bool" where
  "in_percent x \<longleftrightarrow> (\<exists>r. x = Fin r \<and> 0 \<le> r \<and> r \<le> 100)"

lemma rsi_seed_nonneg:
  assumes "p < length cs"
  shows "\<exists>g l. for_loop 1 (p + 1) (rsi_seed (map Fin cs)) (0, 0) = (Fin g, Fin l) \<and> 0 \<le> g \<and> 0 \<le> l"
  by (rule for_loop_preserves [where P = "\<lambda>s. \<exists>g l. s = (Fin g, Fin l) \<and> 0 \<le> g \<and> 0 \<le> l"])
    (use assms in \<open>auto simp: Let_def\<close>)

lemma rsi_step_Fin:
  assumes "0 < p" "0 < i" "i < length cs" "0 \<le> a" "0 \<le> b"
  shows "\<exists>x a' b'. rsi_step (map Fin cs) p i (rsi, Fin a, Fin b) = (rsi[i := x], Fin a', Fin b') \<and>
     0 \<le> a' \<and> 0 \<le> b' \<and> in_percent x"
proof -
  let ?c = "cs ! i - cs ! (i - 1)"
  let ?a = "(a * (real p - 1) + (if ?c \<ge> 0 then ?c else 0)) / p"
  let ?b = "(b * (real p - 1) + (if ?c < 0 then \<bar>?c\<bar> else 0)) / p"
  have nn: "0 \<le> ?a" "0 \<le> ?b" using assms by auto
  have "rsi_step (map Fin cs) p i (rsi, Fin a, Fin b) =
      (rsi[i := strength_index (Fin ?a) (Fin ?b)], Fin ?a, Fin ?b)"
  proof -
    have "rd (map Fin cs) i - rd (map Fin cs) (i - 1) = Fin ?c" using assms by simp
    then show ?thesis using assms(1) by (simp add: Let_def del: rd_map)
  qed
  then show ?thesis using nn strength_index_range [OF nn] unfolding in_percent_def by blast
qed

lemma calcRSI_range_aux:
  assumes p: "0 < p" "p < length cs" and j: "j < length cs"
  shows "if j < p then rd (calcRSI (map Fin cs) p) j = NaN else in_percent (rd (calcRSI (map Fin cs) p) j)"
proof -
  let ?n = "length cs"
  obtain g l where init: "for_loop 1 (p + 1) (rsi_seed (map Fin cs)) (0, 0) = (Fin g, Fin l)" "0 \<le> g" "0 \<le> l"
    using rsi_seed_nonneg [OF p(2)] by blast
  let ?x0 = "strength_index (Fin (g / p)) (Fin (l / p))"
  let ?s0 = "((nans ?n)[p := ?x0], Fin (g / p), Fin (l / p))"
  let ?P = "\<lambda>i s. length (fst s) = ?n \<and> (\<exists>a b. snd s = (Fin a, Fin b) \<and> 0 \<le> a \<and> 0 \<le> b) \<and>
      (\<forall>j < ?n. if p \<le> j \<and> j < i then in_percent (rd (fst s) j) else rd (fst s) j = NaN)"
  have "?P ?n (for_loop (p + 1) ?n (rsi_step (map Fin cs) p) ?s0)"
  proof (rule for_loop_invariant [where P = ?P])
    have "in_percent ?x0" using init strength_index_range [of "g / p" "l / p"] by (simp add: in_percent_def)
    then show "?P (p + 1) ?s0" using init p by (auto simp: rd_update simp del: rd_in)
  next
    fix i t assume i: "p + 1 \<le> i" "i < ?n" and P: "?P i t"
    obtain rsi a b where t: "t = (rsi, Fin a, Fin b)" and ab: "0 \<le> a" "0 \<le> b" using P by (cases t) auto
    have Q: "\<And>j. j < ?n \<Longrightarrow> p \<le> j \<Longrightarrow> j < i \<Longrightarrow> in_percent (rd rsi j)"
        "\<And>j. j < ?n \<Longrightarrow> \<not> (p \<le> j \<and> j < i) \<Longrightarrow> rd rsi j = NaN" "length rsi = ?n"
      using P unfolding t by (auto split: if_splits)
    obtain x a' b' where s: "rsi_step (map Fin cs) p i t = (rsi[i := x], Fin a', Fin b')"
        "0 \<le> a'" "0 \<le> b'" "in_percent x"
      using rsi_step_Fin [OF p(1) _ i(2) ab, of rsi] i unfolding t by auto
    show "?P (Suc i) (rsi_step (map Fin cs) p i t)"
      using Q i p unfolding s(1) by (auto simp: rd_update less_Suc_eq s simp del: rd_in)
  qed (use p in simp)
  moreover have "calcRSI (map Fin cs) p = fst (for_loop (p + 1) ?n (rsi_step (map Fin cs) p) ?s0)"
    using p init(1) by (simp add: calcRSI_def Let_def)
  ultimately show ?thesis using j by (auto split: if_splits simp del: rd_in)
qed

section \<open>Bollinger bands\<close>

lemma for_loop_pair:
  "for_loop a b (\<lambda>i (x, y). (f i x, g i y)) (x0, y0) = (for_loop a b f x0, for_loop a b g y0)"
proof (induction b)
  case (Suc b)
  then show ?case by (cases "a \<le> b") (simp_all add: for_loop_Suc)
qed simp

definition window_variance :: "real list \<Rightarrow> nat \<Rightarrow> nat \<Rightarrow> real" where
  "window_variance cs a b =
     (\<Sum>j = a..<b. (cs ! j - window_sum cs a b / real (b - a)) ^ 2) / real (b - a)"

lemma window_variance_nonneg: "0 \<le> window_variance cs a b"
  by (simp add: window_variance_def sum_nonneg)

lemma bollinger_at:
  fixes k :: real
  assumes "0 < p" "p \<le> Suc i" "i < length cs"
  defines "B \<equiv> calcBollingerBands (map Fin cs) p (Fin k)"
    and "m \<equiv> window_sum cs (Suc i - p) (Suc i) / real p"
    and "sd \<equiv> sqrt (window_variance cs (Suc i - p) (Suc i))"
  shows "rd (bd_middle B) i = Fin m" "rd (bd_upper B) i = Fin (m + k * sd)" "rd (bd_lower B) i = Fin (m - k * sd)"
proof -
  let ?mid = "calcSMA (map Fin cs) p"
  let ?sd = "\<lambda>i. jsqrt (for_loop (i + 1 - p) (i + 1) (\<lambda>j s. s + (rd (map Fin cs) j - rd ?mid i) ^ 2) 0 / jnat p)"
  have mid: "rd ?mid i = Fin m" using assms calcSMA_at [of p i cs] by simp
  have "for_loop (i + 1 - p) (i + 1) (\<lambda>j s. s + (rd (map Fin cs) j - Fin m) ^ 2) (Fin 0) =
      Fin (0 + (\<Sum>j = i + 1 - p..<i + 1. (cs ! j - m) ^ 2))"
    by (rule for_loop_sum_Fin) (use assms in auto)
  moreover have "Suc i - (Suc i - p) = p" using assms by simp
  ultimately have sd: "?sd i = Fin sd"
    using assms(1) window_variance_nonneg [of cs "Suc i - p" "Suc i"]
    by (simp add: mid sd_def window_variance_def m_def not_less del: rd_map)
  have pi: "p - 1 \<le> i \<and> i < length cs" using assms(1-3) by simp
  have B: "B = \<lparr>bd_upper = for_loop (p - 1) (length cs) (\<lambda>i u. u[i := rd ?mid i + Fin k * ?sd i]) (nans (length cs)),
      bd_middle = ?mid,
      bd_lower = for_loop (p - 1) (length cs) (\<lambda>i l. l[i := rd ?mid i - Fin k * ?sd i]) (nans (length cs))\<rparr>"
    unfolding B_def calcBollingerBands_def Let_def by (simp add: for_loop_pair)
  show "rd (bd_middle B) i = Fin m" by (simp only: B mid bands.simps)
  show "rd (bd_upper B) i = Fin (m + k * sd)"
    unfolding B bands.simps by (simp only: for_loop_fill [OF eq_refl] length_nans pi if_True mid sd [unfolded mid])
      (simp add: minus_jsnum_def)
  show "rd (bd_lower B) i = Fin (m - k * sd)"
    unfolding B bands.simps by (simp only: for_loop_fill [OF eq_refl] length_nans pi if_True mid sd [unfolded mid])
      (simp add: minus_jsnum_def)
qed

section \<open>On-balance volume\<close>

definition signed_volume :: "real list \<Rightarrow> real list \<Rightarrow> nat \<Rightarrow> real" where
  "signed_volume cs vs i =
     (if i = 0 then vs ! 0
      else if cs ! i > cs ! (i - 1) then vs ! i
      else if cs ! i < cs ! (i - 1) then - (vs ! i) else 0)"

lemma jor_zero [simp]: "jor (Fin x) (Fin 0) = Fin x"
  by (simp add: jor_def)

lemma calcOBV_sum:
  assumes n: "2 \<le> length cs" "length vs = length cs"
  shows "i < length cs \<Longrightarrow> rd (calcOBV (map Fin cs) (map Fin vs)) i = Fin (\<Sum>j = 0..i. signed_volume cs vs j)"
proof -
  let ?F = "\<lambda>i v. if rd (map Fin cs) i > rd (map Fin cs) (i - 1) then v + jor (rd (map Fin vs) i) 0
     else if rd (map Fin cs) i < rd (map Fin cs) (i - 1) then v - jor (rd (map Fin vs) i) 0 else v"
  let ?x0 = "(replicate (length cs) 0)[0 := jor (rd (map Fin vs) 0) 0]"
  have body: "(\<lambda>i obv. if rd (map Fin cs) i > rd (map Fin cs) (i - 1) then obv[i := rd obv (i - 1) + jor (rd (map Fin vs) i) 0]
      else if rd (map Fin cs) i < rd (map Fin cs) (i - 1) then obv[i := rd obv (i - 1) - jor (rd (map Fin vs) i) 0]
      else obv[i := rd obv (i - 1)]) = (\<lambda>i ys. ys[i := ?F i (rd ys (i - 1))])"
    by (auto simp: fun_eq_iff simp del: rd_map)
  have e: "calcOBV (map Fin cs) (map Fin vs) = for_loop 1 (length cs) (\<lambda>i ys. ys[i := ?F i (rd ys (i - 1))]) ?x0"
    using n unfolding calcOBV_def Let_def body by (simp del: rd_map)
  note R = for_loop_recurrence [where a = 1 and n = "length cs" and F = ?F and xs = ?x0, folded e]
  show "i < length cs \<Longrightarrow> rd (calcOBV (map Fin cs) (map Fin vs)) i = Fin (\<Sum>j = 0..i. signed_volume cs vs j)"
  proof (induction i)
    case 0
    then show ?case using R(2) [of 0] n by (simp add: signed_volume_def)
  next
    case (Suc i)
    then have IH: "rd (calcOBV (map Fin cs) (map Fin vs)) i = Fin (\<Sum>j = 0..i. signed_volume cs vs j)" by simp
    show ?case using R(3) [of "Suc i"] Suc.prems n IH by (simp add: signed_volume_def del: rd_in)
  qed
qed

section \<open>True range and ATR\<close>

definition tr_real :: "real list \<Rightarrow> real list \<Rightarrow> real list \<Rightarrow> nat \<Rightarrow> real" where
  "tr_real hs ls cs i =
     (if i = 0 then hs ! 0 - ls ! 0
      else max (hs ! i - ls ! i) (max \<bar>hs ! i - cs ! (i - 1)\<bar> \<bar>ls ! i - cs ! (i - 1)\<bar>))"

lemma true_range_Fin:
  assumes "length hs = length cs" "length ls = length cs" "0 < i" "i < length cs"
  shows "true_range (map Fin hs) (map Fin ls) (map Fin cs) i = Fin (tr_real hs ls cs i)"
proof -
  have "i - 1 < length cs" using assms by simp
  then show ?thesis
    using assms by (simp add: true_range_def jmax_list_def tr_real_def max.assoc)
qed

lemma tr_real_nonneg: "bars_ok hs ls cs \<Longrightarrow> i < length cs \<Longrightarrow> 0 \<le> tr_real hs ls cs i"
  by (force simp: tr_real_def bars_ok_def le_max_iff_disj)

interpretation wilder: averaging "blend (1 / real (Suc q))" for q
  by (rule averaging_blend) simp_all

lemma wilder_bounds:
  assumes "0 < p"
  shows "lo \<le> a \<and> a \<le> hi \<Longrightarrow> \<forall>x \<in> set xs. lo \<le> x \<and> x \<le> hi \<Longrightarrow>
      lo \<le> recur (blend (1 / real p)) a xs \<and> recur (blend (1 / real p)) a xs \<le> hi"
    and "a \<le> hi \<Longrightarrow> x \<le> hi \<Longrightarrow> blend (1 / real p) a x \<le> hi"
    and "lo \<le> a \<Longrightarrow> lo \<le> x \<Longrightarrow> lo \<le> blend (1 / real p) a x"
  using wilder.recur_bounds [of lo a hi xs "p - 1"] wilder.avg_le [of a hi x "p - 1"]
    wilder.avg_ge [of lo a x "p - 1"] assms by simp_all

lemma wilder_blend: "0 < p \<Longrightarrow> (a * (real p - 1) + x) / real p = blend (1 / real p) a x"
  by (simp add: blend_def field_simps)

lemma atr_at:
  assumes p: "0 < p" "p \<le> Suc i" and i: "i < length cs" and n: "2 \<le> length cs"
    and len: "length hs = length cs" "length ls = length cs"
  shows "rd (calcATR (map Fin hs) (map Fin ls) (map Fin cs) p) i =
    Fin (recur (blend (1 / real p)) ((\<Sum>j = 0..<p. tr_real hs ls cs j) / real p)
      (map (tr_real hs ls cs) [p..<Suc i]))"
proof -
  let ?n = "length cs" and ?T = "tr_real hs ls cs"
  let ?base = "(replicate ?n 0)[0 := rd (map Fin hs) 0 - rd (map Fin ls) 0]"
  define tr where "tr = for_loop 1 ?n (\<lambda>i tr. tr[i := true_range (map Fin hs) (map Fin ls) (map Fin cs) i]) ?base"
  have tr: "rd tr j = Fin (?T j)" if "j < ?n" for j
  proof -
    have "rd tr j = (if 1 \<le> j \<and> j < ?n then true_range (map Fin hs) (map Fin ls) (map Fin cs) j else rd ?base j)"
      unfolding tr_def by (rule for_loop_fill(2)) simp
    then show ?thesis using that n len by (cases "j = 0") (simp_all add: true_range_Fin tr_real_def)
  qed
  have sm: "for_loop 0 p (\<lambda>i s. s + rd tr i) 0 = Fin (\<Sum>j = 0..<p. ?T j)"
    using for_loop_sum_Fin [of 0 p "rd tr" ?T 0] tr p i by simp
  let ?F = "\<lambda>i v. (v * (jnat p - 1) + rd tr i) / jnat p"
  let ?init = "(nans ?n)[p - 1 := for_loop 0 p (\<lambda>i s. s + rd tr i) 0 / jnat p]"
  let ?r = "for_loop p ?n (\<lambda>i ys. ys[i := ?F i (rd ys (i - 1))]) ?init"
  have e: "calcATR (map Fin hs) (map Fin ls) (map Fin cs) p = ?r"
    using n p i unfolding calcATR_def Let_def length_map tr_def [symmetric] by (simp del: rd_map)
  note R = for_loop_recurrence [where a = p and n = ?n and F = ?F and xs = ?init, OF p(1)]
  have "p - 1 \<le> i" using p by simp
  then have "rd ?r i = Fin (recur (blend (1 / real p)) ((\<Sum>j = 0..<p. ?T j) / real p) (map ?T [p..<Suc i]))"
    using i
  proof (induction i rule: nat_induct_at_least)
    case base
    then show ?case using R(2) [of "p - 1"] p sm by (simp add: rd_update del: rd_in)
  next
    case (Suc j)
    have "p \<le> Suc j" using Suc(1) by simp
    with Suc show ?case using R(3) [of "Suc j"] p tr [of "Suc j"]
      by (simp add: wilder_blend del: rd_in upt_Suc) (simp add: upt_Suc_append wilder_blend)
  qed
  then show ?thesis by (simp only: e)
qed

section \<open>MACD\<close>

text \<open>A loop that writes an entry only under a condition on its index.\<close>

lemma for_loop_fill_if:
  assumes "n \<le> length xs"
  shows "length (for_loop a n (\<lambda>i ys. if c i then ys[i := v i] else ys) xs) = length xs"
    and "rd (for_loop a n (\<lambda>i ys. if c i then ys[i := v i] else ys) xs) j =
      (if a \<le> j \<and> j < n \<and> c j then v j else rd xs j)"
proof -
  let ?P = "\<lambda>i ys. length ys = length xs \<and> (\<forall>j. rd ys j = (if a \<le> j \<and> j < i \<and> c j then v j else rd xs j))"
  have "?P n (for_loop a n (\<lambda>i ys. if c i then ys[i := v i] else ys) xs)"
  proof (cases "a \<le> n")
    case True
    then show ?thesis
      by (rule for_loop_invariant [where P = ?P]) (use assms in \<open>auto simp: rd_update less_Suc_eq simp del: rd_in\<close>)
  qed auto
  then show "length (for_loop a n (\<lambda>i ys. if c i then ys[i := v i] else ys) xs) = length xs"
    and "rd (for_loop a n (\<lambda>i ys. if c i then ys[i := v i] else ys) xs) j =
      (if a \<le> j \<and> j < n \<and> c j then v j else rd xs j)" by auto
qed

lemma line_diff_at:
  "length (line_diff n a b) = n"
  "rd (line_diff n a b) j = (if j < n \<and> rd a j \<noteq> NaN \<and> rd b j \<noteq> NaN then rd a j - rd b j else NaN)"
  unfolding line_diff_def using for_loop_fill_if [of n "nans n"] by simp_all

lemma rd_eqI: "length xs = length ys \<Longrightarrow> (\<And>i. i < length xs \<Longrightarrow> rd xs i = rd ys i) \<Longrightarrow> xs = ys"
  by (rule nth_equalityI) simp_all

text \<open>A line that is NaN up to \<open>f\<close> and finite from there on.\<close>

definition warm_line :: "nat \<Rightarrow> nat \<Rightarrow> jsnum list \<Rightarrow> bool" where
  "warm_line n f xs \<longleftrightarrow> length xs = n \<and> (\<forall>i < n. is_fin (rd xs i) \<longleftrightarrow> f \<le> i) \<and> (\<forall>i < f. rd xs i = NaN)"

lemma warm_lineD:
  assumes "warm_line n f xs"
  shows "length xs = n" "i < f \<Longrightarrow> rd xs i = NaN" "f \<le> i \<Longrightarrow> i < n \<Longrightarrow> \<exists>r. rd xs i = Fin r"
  using assms by (auto simp: warm_line_def is_fin_def simp del: rd_in)

lemma warm_lineI:
  "length xs = n \<Longrightarrow> (\<And>i. i < f \<Longrightarrow> rd xs i = NaN) \<Longrightarrow>
     (\<And>i. f \<le> i \<Longrightarrow> i < n \<Longrightarrow> \<exists>r. rd xs i = Fin r) \<Longrightarrow> warm_line n f xs"
  by (auto simp: warm_line_def is_fin_def simp del: rd_in) (metis jsnum.distinct(5) not_less)

lemma warm_line_split:
  assumes "warm_line n f xs" "f \<le> n"
  shows "\<exists>ms. xs = nans f @ map Fin ms \<and> length ms = n - f"
proof -
  let ?ms = "map (\<lambda>i. case xs ! i of Fin r \<Rightarrow> r | _ \<Rightarrow> 0) [f..<n]"
  have "xs = nans f @ map Fin ?ms"
  proof (rule nth_equalityI)
    show "length xs = length (nans f @ map Fin ?ms)" using assms by (simp add: warm_line_def)
    fix i assume i: "i < length xs"
    show "xs ! i = (nans f @ map Fin ?ms) ! i"
    proof (cases "i < f")
      case True
      then show ?thesis using warm_lineD(2) [OF assms(1) True] i by (simp add: nth_append nans_def)
    next
      case False
      then obtain r where "rd xs i = Fin r" using warm_lineD(1,3) [OF assms(1)] i by force
      then show ?thesis using False i warm_lineD(1) [OF assms(1)] by (simp add: nth_append)
    qed
  qed
  then show ?thesis by (intro exI [of _ ?ms]) simp
qed

lemma warm_line_EMA: "0 < p \<Longrightarrow> p \<le> length cs \<Longrightarrow> warm_line (length cs) (p - 1) (calcEMA (map Fin cs) p)"
  using calcEMA_closed_form [of p _ cs] calcEMA_steps(1,2) [of p cs]
  by (auto simp: warm_line_def simp del: rd_in) (metis Suc_le_eq Suc_pred is_fin_simps(4) not_less)

lemma line_diff_warm:
  assumes "warm_line n f a" "warm_line n g b"
  shows "warm_line n (max f g) (line_diff n a b)"
proof -
  have "is_fin (rd (line_diff n a b) i) \<longleftrightarrow> max f g \<le> i" if i: "i < n" for i
  proof (cases "max f g \<le> i")
    case True
    then obtain x y where "rd a i = Fin x" "rd b i = Fin y"
      using assms [THEN warm_lineD(3)] i by (meson max.bounded_iff)
    then show ?thesis using True i by (simp add: line_diff_at(2) del: rd_in)
  next
    case False
    then have "rd a i = NaN \<or> rd b i = NaN" using assms [THEN warm_lineD(2)] by (auto simp del: rd_in)
    then show ?thesis using False by (auto simp: line_diff_at(2) simp del: rd_in)
  qed
  moreover have "rd (line_diff n a b) i = NaN" if "i < max f g" for i
    using that assms [THEN warm_lineD(2), of i] by (auto simp: line_diff_at(2) less_max_iff_disj simp del: rd_in)
  ultimately show ?thesis by (simp add: warm_line_def line_diff_at(1) del: rd_in)
qed

lemma find_index_append_nans:
  "find_index (\<lambda>v. v \<noteq> NaN) (nans f @ x # xs) = (if x \<noteq> NaN then Some f else map_option (\<lambda>i. Suc (f + i)) (find_index (\<lambda>v. v \<noteq> NaN) xs))"
proof (induction f)
  case 0
  show ?case by (simp add: nans_def)
next
  case (Suc f)
  have "nans (Suc f) = NaN # nans f" by (simp add: nans_def)
  then show ?case using Suc by (simp add: option.map_comp comp_def)
qed

text \<open>The signal line is the average of the valid part of the difference, back in its place.\<close>

lemma macd_lines_warm:
  assumes w: "warm_line n f (line_diff n a b)" and f: "f < n" and sg: "0 < sg" "sg \<le> n - f"
  defines "M \<equiv> macd_lines n a b sg"
  shows "mc_macd M = line_diff n a b"
    and "f \<le> i \<Longrightarrow> i < n \<Longrightarrow> rd (mc_signal M) i = rd (calcEMA (drop f (mc_macd M)) sg) (i - f)"
    and "warm_line n (f + sg - 1) (mc_signal M)"
    and "warm_line n (f + sg - 1) (mc_histogram M)"
    and "f + sg - 1 \<le> i \<Longrightarrow> i < n \<Longrightarrow> rd (mc_histogram M) i = rd (mc_macd M) i - rd (mc_signal M) i"
proof -
  obtain ms where ms: "line_diff n a b = nans f @ map Fin ms" "length ms = n - f"
    using warm_line_split [OF w] f by auto
  have fil: "filter (\<lambda>v. v \<noteq> NaN) (nans f) = []" "filter (\<lambda>v. v \<noteq> NaN) (map Fin ms) = map Fin ms"
    by (simp_all add: nans_def filter_empty_conv filter_id_conv)
  obtain x xs where x: "ms = x # xs" using ms(2) f by (cases ms) auto
  have find: "find_valid (nans f @ map Fin ms) = Some f"
    unfolding find_valid_def x by (simp add: find_index_append_nans)
  let ?line = "calcEMA (map Fin ms) sg"
  have line: "warm_line (n - f) (sg - 1) ?line" using warm_line_EMA [of sg ms] sg ms(2) by simp
  let ?sig = "for_loop 0 (n - f) (\<lambda>i arr. arr[f + i := rd ?line i]) (nans n)"
  show M1: "mc_macd M = line_diff n a b" by (simp add: M_def macd_lines_def Let_def)
  have M2: "mc_signal M = ?sig"
    using warm_lineD(1) [OF line] by (simp add: M_def macd_lines_def Let_def ms(1) fil find)
  have "length ?sig = n \<and> (\<forall>j. rd ?sig j = (if f \<le> j \<and> j < f + (n - f) then rd ?line (j - f) else NaN))"
    by (rule for_loop_invariant [where P = "\<lambda>i t. length t = n \<and>
          (\<forall>j. rd t j = (if f \<le> j \<and> j < f + i then rd ?line (j - f) else NaN))"])
      (use f in \<open>auto simp: rd_update simp del: rd_in\<close>)
  then have sig: "length ?sig = n" "\<And>j. rd ?sig j = (if f \<le> j \<and> j < n then rd ?line (j - f) else NaN)"
    using f by (auto simp del: rd_in)
  show "f \<le> i \<Longrightarrow> i < n \<Longrightarrow> rd (mc_signal M) i = rd (calcEMA (drop f (mc_macd M)) sg) (i - f)"
    by (simp add: M1 M2 sig ms(1) del: rd_in)
  show S: "warm_line n (f + sg - 1) (mc_signal M)"
    using line f sg unfolding M2 warm_line_def sig by (auto simp del: rd_in)
  have M3: "mc_histogram M = line_diff n (mc_macd M) (mc_signal M)"
    by (simp add: M_def macd_lines_def Let_def)
  show H: "warm_line n (f + sg - 1) (mc_histogram M)"
  proof -
    have "max f (f + sg - 1) = f + sg - 1" using sg by simp
    then show ?thesis using line_diff_warm [OF w [folded M1] S] by (simp only: M3)
  qed
  show "f + sg - 1 \<le> i \<Longrightarrow> i < n \<Longrightarrow> rd (mc_histogram M) i = rd (mc_macd M) i - rd (mc_signal M) i"
    using warm_lineD(3) [OF H, of i] unfolding M3 by (auto simp: line_diff_at(2) simp del: rd_in split: if_splits)
qed

section \<open>Volume-weighted average\<close>

lemma vwEMA_warm:
  assumes p: "0 < p" "p \<le> length cs" and len: "length vs = length cs" and v: "\<forall>x \<in> set vs. 0 \<le> x"
  shows "warm_line (length cs) (p - 1) (vwEMA (map Fin cs) (map Fin vs) p)"
proof -
  let ?V = "\<lambda>i. jor (rd (map Fin vs) i) 0" and ?n = "length cs"
  let ?b = "\<lambda>i (sumV, sumPV). (sumV + ?V i, sumPV + rd (map Fin cs) i * ?V i)"
  have "\<exists>a b. for_loop 0 p ?b (0, 0) = (Fin a, Fin b)"
    by (rule for_loop_preserves [where P = "\<lambda>s. \<exists>a b. s = (Fin a, Fin b)"]) (use p len in auto)
  then obtain a b where seed: "for_loop 0 p ?b (0, 0) = (Fin a, Fin b)" by blast
  let ?x = "if Fin a > 0 then Fin b / Fin a else rd (map Fin cs) (p - 1)"
  let ?F = "\<lambda>i w. if ?V i > 0 then rd (map Fin cs) i * (2 / (jnat p + 1)) + w * (1 - 2 / (jnat p + 1)) else w"
  let ?init = "(nans ?n)[p - 1 := ?x]"
  let ?r = "for_loop p ?n (\<lambda>i ys. ys[i := ?F i (rd ys (i - 1))]) ?init"
  have body: "(\<lambda>i result. let v = ?V i in if v > 0 then result[i := rd (map Fin cs) i * (2 / (jnat p + 1)) + rd result (i - 1) * (1 - 2 / (jnat p + 1))]
        else result[i := rd result (i - 1)]) = (\<lambda>i ys. ys[i := ?F i (rd ys (i - 1))])"
    by (auto simp: fun_eq_iff Let_def simp del: rd_map)
  have e: "vwEMA (map Fin cs) (map Fin vs) p = ?r"
    using p unfolding vwEMA_def Let_def seed length_map body [unfolded Let_def] by simp
  note R = for_loop_recurrence [where a = p and n = ?n and F = ?F and xs = ?init, OF p(1)]
  have pos: "real p + 1 \<noteq> 0" by linarith
  have "\<exists>r. rd ?r i = Fin r" if "p - 1 \<le> i" "i < ?n" for i
    using that
  proof (induction i rule: nat_induct_at_least)
    case base
    then show ?case using R(2) [of "p - 1"] p by (auto simp: rd_update simp del: rd_in)
  next
    case (Suc i)
    then have "p \<le> Suc i" by simp
    with Suc show ?case using R(3) [of "Suc i"] len pos by (auto simp del: rd_in)
  qed
  moreover have "rd ?r i = NaN" if "i < p - 1" for i
    using R(2) [of i] that p by (simp add: rd_update del: rd_in)
  moreover have "length ?r = ?n" using R(1) by simp
  ultimately show ?thesis
    unfolding e by (intro warm_lineI) auto
qed

section \<open>Awesome oscillator\<close>

lemma sum_list_segment: "b \<le> length xs \<Longrightarrow> a \<le> b \<Longrightarrow> sum_list (drop a (take b xs)) = window_sum xs a b"
  by (simp add: window_sum_def sum_list_sum_nth add.commute flip: sum.shift_bounds_nat_ivl)

lemma awesome_is_sma_difference:
  assumes len: "length ls = length hs"
  defines "mid \<equiv> map2 (\<lambda>h l. (h + l) / 2) hs ls"
  assumes i: "i < length hs"
  shows "rd (calcAwesomeOscillator (map Fin hs) (map Fin ls)) i =
     rd (calcSMA (map Fin mid) 5) i - rd (calcSMA (map Fin mid) 34) i"
proof -
  let ?n = "length hs"
  have lm: "length mid = ?n" using len by (simp add: mid_def)
  have "for_loop 0 ?n (\<lambda>i m. m[i := (rd (map Fin hs) i + rd (map Fin ls) i) / 2]) (replicate ?n 0) = map Fin mid"
    (is "?M = map Fin mid")
  proof (rule rd_eqI)
    show "length ?M = length (map Fin mid)" by (simp add: for_loop_fill(1) lm)
    fix j assume "j < length ?M"
    then have j: "j < ?n" by (simp add: for_loop_fill(1))
    then show "rd ?M j = rd (map Fin mid) j"
      by (simp add: for_loop_fill(2) lm len mid_def del: rd_in map_map)
  qed
  note mid_eq = this
  have ao: "calcAwesomeOscillator (map Fin hs) (map Fin ls) = for_loop 4 ?n
     (\<lambda>i ao. if (if i \<ge> 33 then jsum (drop (i - 33) (take (i + 1) (map Fin mid))) / 34 else NaN) \<noteq> NaN
        then ao[i := (rd (map Fin mid) i + rd (map Fin mid) (i - 1) + rd (map Fin mid) (i - 2) +
           rd (map Fin mid) (i - 3) + rd (map Fin mid) (i - 4)) / 5 -
          (if i \<ge> 33 then jsum (drop (i - 33) (take (i + 1) (map Fin mid))) / 34 else NaN)] else ao) (nans ?n)"
    unfolding calcAwesomeOscillator_def Let_def length_map mid_eq by (rule refl)
  show ?thesis
  proof (cases "33 \<le> i")
    case False
    then show ?thesis using i lm
      unfolding ao by (subst for_loop_fill_if(2)) (simp_all add: calcSMA_at del: rd_in)
  next
    case True
    have slow: "jsum (drop (i - 33) (take (i + 1) (map Fin mid))) = Fin (window_sum mid (Suc i - 34) (Suc i))"
      using True i lm by (simp add: take_map drop_map sum_list_segment)
    obtain k where k: "i = k + 4" using that [of "i - 4"] True by simp
    have fast: "window_sum mid (Suc i - 5) (Suc i) = mid ! i + mid ! (i - 1) + mid ! (i - 2) + mid ! (i - 3) + mid ! (i - 4)"
      unfolding k by (simp add: window_sum_def numeral_eq_Suc)
    have "i - 1 < ?n" "i - 2 < ?n" "i - 3 < ?n" "i - 4 < ?n" using i by simp_all
    then show ?thesis using i lm True slow fast
      unfolding ao by (subst for_loop_fill_if(2)) (simp_all add: calcSMA_at del: rd_in)
  qed
qed

section \<open>Directional movement\<close>

text \<open>What the ADX loop keeps: a directional movement never exceeds the true range, so both
  directional indices, their spread and its averages stay between 0 and 100.\<close>

lemma dm_Fin:
  assumes "length hs = length cs" "length ls = length cs" "0 < i" "i < length cs"
  shows "\<exists>r. plus_dm (map Fin hs) (map Fin ls) i = Fin r \<and> 0 \<le> r"
    and "\<exists>r. minus_dm (map Fin hs) (map Fin ls) i = Fin r \<and> 0 \<le> r"
proof -
  have "i - 1 < length cs" using assms by simp
  then show "\<exists>r. plus_dm (map Fin hs) (map Fin ls) i = Fin r \<and> 0 \<le> r"
    and "\<exists>r. minus_dm (map Fin hs) (map Fin ls) i = Fin r \<and> 0 \<le> r"
    using assms by (auto simp: plus_dm_def minus_dm_def Let_def)
qed

lemma dm_le_tr:
  assumes ok: "bars_ok hs ls cs" and i: "0 < i" "i < length cs"
  shows "plus_dm (map Fin hs) (map Fin ls) i \<le> Fin (tr_real hs ls cs i)"
    and "minus_dm (map Fin hs) (map Fin ls) i \<le> Fin (tr_real hs ls cs i)"
proof -
  have i1: "i - 1 < length cs" using i by simp
  have len: "length hs = length cs" "length ls = length cs" using ok by (simp_all add: bars_ok_def)
  have c: "ls ! (i - 1) \<le> cs ! (i - 1)" "cs ! (i - 1) \<le> hs ! (i - 1)" "ls ! i \<le> hs ! i"
    using ok i i1 by (auto simp: bars_ok_def intro: order_trans)
  have "hs ! i - hs ! (i - 1) \<le> tr_real hs ls cs i" "ls ! (i - 1) - ls ! i \<le> tr_real hs ls cs i"
    "0 \<le> tr_real hs ls cs i"
    using c i by (auto simp: tr_real_def le_max_iff_disj)
  then show "plus_dm (map Fin hs) (map Fin ls) i \<le> Fin (tr_real hs ls cs i)"
    and "minus_dm (map Fin hs) (map Fin ls) i \<le> Fin (tr_real hs ls cs i)"
    using i i1 len by (auto simp: plus_dm_def minus_dm_def Let_def)
qed

lemma dx_range: "0 \<le> p \<Longrightarrow> 0 \<le> m \<Longrightarrow> in_percent (dx_of (Fin p) (Fin m))"
proof -
  assume pm: "0 \<le> p" "0 \<le> m"
  then have "\<bar>p - m\<bar> \<le> p + m" by (simp add: abs_le_iff)
  then have "\<bar>p - m\<bar> * 100 \<le> 100 * (p + m)" by (metis mult.commute mult_left_mono zero_le_numeral)
  then show ?thesis using pm by (auto simp: dx_of_def in_percent_def pos_divide_le_eq)
qed

lemma percent_avg:
  assumes "0 < p" "in_percent a" "in_percent x"
  shows "in_percent ((a * (jnat p - 1) + x) / jnat p)"
proof -
  obtain r s where r: "a = Fin r" "0 \<le> r" "r \<le> 100" "x = Fin s" "0 \<le> s" "s \<le> 100"
    using assms by (auto simp: in_percent_def)
  show ?thesis
    using r assms(1) wilder_bounds(2,3) [OF assms(1)] by (simp add: in_percent_def wilder_blend)
qed

lemma percent_mean:
  assumes "0 < p" and "\<And>j. a \<le> j \<Longrightarrow> j < a + p \<Longrightarrow> in_percent (f j)"
  shows "in_percent (for_loop a (a + p) (\<lambda>j t. t + f j) 0 / jnat p)"
proof -
  have "\<exists>r. for_loop a (a + p) (\<lambda>j t. t + f j) (Fin 0) = Fin r \<and> 0 \<le> r \<and> r \<le> 100 * (real (a + p) - real a)"
  proof (rule for_loop_invariant [where P = "\<lambda>i s. \<exists>r. s = Fin r \<and> 0 \<le> r \<and> r \<le> 100 * (real i - real a)"])
    fix i t assume i: "a \<le> i" "i < a + p" and "\<exists>r. t = Fin r \<and> 0 \<le> r \<and> r \<le> 100 * (real i - real a)"
    moreover from i assms(2) obtain s where "f i = Fin s" "0 \<le> s" "s \<le> 100" by (auto simp: in_percent_def)
    ultimately show "\<exists>r. t + f i = Fin r \<and> 0 \<le> r \<and> r \<le> 100 * (real (Suc i) - real a)" by auto
  qed simp_all
  then obtain r where "for_loop a (a + p) (\<lambda>j t. t + f j) (Fin 0) = Fin r" "0 \<le> r" "r \<le> 100 * real p" by auto
  then show ?thesis using assms(1) by (simp add: in_percent_def pos_divide_le_eq)
qed

lemma ratio_percent: "0 \<le> b \<Longrightarrow> b \<le> a \<Longrightarrow> in_percent (if Fin a > 0 then Fin b / Fin a * 100 else 0)"
  by (auto simp: in_percent_def pos_divide_le_eq)

definition adx_inv :: "nat \<Rightarrow> nat \<Rightarrow> nat \<Rightarrow> adx_loop \<Rightarrow> bool" where
  "adx_inv n p i s \<longleftrightarrow>
     length (al_adx s) = n \<and> length (al_pdi s) = n \<and> length (al_mdi s) = n \<and>
     (\<exists>a b c. al_atr s = Fin a \<and> al_plus s = Fin b \<and> al_minus s = Fin c \<and> 0 \<le> b \<and> b \<le> a \<and> 0 \<le> c \<and> c \<le> a) \<and>
     (\<forall>j < i. p < j \<longrightarrow> in_percent (rd (al_pdi s) j) \<and> in_percent (rd (al_mdi s) j)) \<and>
     (\<forall>j < i. 2 * p \<le> j \<longrightarrow> in_percent (rd (al_adx s) j)) \<and>
     (\<forall>j. j \<le> p \<or> i \<le> j \<longrightarrow> rd (al_pdi s) j = NaN \<and> rd (al_mdi s) j = NaN) \<and>
     (\<forall>j. j < 2 * p \<or> i \<le> j \<longrightarrow> rd (al_adx s) j = NaN)"

lemma wilder_le: "0 < p \<Longrightarrow> b \<le> a \<Longrightarrow> y \<le> x \<Longrightarrow> (b * (real p - 1) + y) / real p \<le> (a * (real p - 1) + x) / real p"
  by (intro divide_right_mono add_mono mult_right_mono) simp_all

lemma dx_in_percent: "in_percent a \<Longrightarrow> in_percent b \<Longrightarrow> in_percent (dx_of a b)"
  using dx_range by (auto simp: in_percent_def [of a] in_percent_def [of b])

lemma adx_step_inv:
  assumes inv: "adx_inv n p i s" and i: "p < i" "i < n" and p: "0 < p"
    and rdt: "rd tr i = Fin t" "rd pl i = Fin x" "rd mi i = Fin y"
    and xy: "0 \<le> x" "x \<le> t" "0 \<le> y" "y \<le> t"
  shows "adx_inv n p (Suc i) (adx_step tr pl mi p i s)"
proof -
  obtain a b c where abc: "al_atr s = Fin a" "al_plus s = Fin b" "al_minus s = Fin c"
      "0 \<le> b" "b \<le> a" "0 \<le> c" "c \<le> a" using inv by (auto simp: adx_inv_def)
  let ?a = "(a * (real p - 1) + t) / real p" and ?b = "(b * (real p - 1) + x) / real p"
    and ?c = "(c * (real p - 1) + y) / real p"
  let ?s = "adx_step tr pl mi p i s"
  have ord: "0 \<le> ?b" "?b \<le> ?a" "0 \<le> ?c" "?c \<le> ?a"
    using abc xy p by (auto intro!: wilder_le)
  define P where "P = (if Fin ?a > 0 then Fin ?b / Fin ?a * 100 else 0)"
  define M where "M = (if Fin ?a > 0 then Fin ?c / Fin ?a * 100 else 0)"
  have PM: "in_percent P" "in_percent M" unfolding P_def M_def using ord by (simp_all only: ratio_percent)
  have avgs: "al_atr ?s = Fin ?a" "al_plus ?s = Fin ?b" "al_minus ?s = Fin ?c"
    using abc rdt p by (simp_all add: adx_step_def Let_def)
  have pdi: "al_pdi ?s = (al_pdi s)[i := P]" "al_mdi ?s = (al_mdi s)[i := M]"
    using abc rdt p by (simp_all add: adx_step_def Let_def P_def M_def)
  define A where "A = (if i = p * 2 then for_loop (p + 1) (p * 2 + 1) (\<lambda>j t. t + dx_of (rd (al_pdi ?s) j) (rd (al_mdi ?s) j)) 0 / jnat p
      else (rd (al_adx s) (i - 1) * (jnat p - 1) + dx_of P M) / jnat p)"
  have adx: "al_adx ?s = (if i < p * 2 then al_adx s else (al_adx s)[i := A])"
    using inv i unfolding A_def pdi
    by (simp add: adx_step_def Let_def rdt abc p P_def M_def adx_inv_def)
  have dirs: "in_percent (rd (al_pdi ?s) j)" "in_percent (rd (al_mdi ?s) j)" if "p < j" "j < Suc i" for j
    using that inv PM i unfolding pdi by (auto simp: rd_update adx_inv_def less_Suc_eq simp del: rd_in)
  have "in_percent A" if "p * 2 \<le> i"
  proof (cases "i = p * 2")
    case True
    have "in_percent (for_loop (p + 1) (p + 1 + p) (\<lambda>j t. t + dx_of (rd (al_pdi ?s) j) (rd (al_mdi ?s) j)) 0 / jnat p)"
      by (rule percent_mean [OF p], rule dx_in_percent) (use True dirs in auto)
    also have "p + 1 + p = p * 2 + 1" by simp
    finally show ?thesis using True by (simp only: A_def if_True refl)
  next
    case False
    then have "in_percent (rd (al_adx s) (i - 1))" using that inv by (simp add: adx_inv_def del: rd_in)
    then show ?thesis using False percent_avg [OF p _ dx_in_percent [OF PM]] by (simp add: A_def del: rd_in)
  qed
  then show ?thesis
    using inv i dirs unfolding adx_inv_def [of n p "Suc i"] avgs using ord
    by (auto simp: adx pdi adx_inv_def rd_update less_Suc_eq simp del: rd_in)
qed

lemma calcADX_inv:
  assumes ok: "bars_ok hs ls cs" and p: "0 < p" "p * 2 \<le> length cs"
  defines "A \<equiv> calcADX (map Fin hs) (map Fin ls) (map Fin cs) p"
  shows "\<exists>s. adx_inv (length cs) p (max (p + 1) (length cs)) s \<and>
     ax_adx A = al_adx s \<and> ax_pdi A = al_pdi s \<and> ax_mdi A = al_mdi s"
proof -
  let ?n = "length cs"
  define pl where "pl = for_loop 1 ?n (\<lambda>i xs. xs[i := plus_dm (map Fin hs) (map Fin ls) i]) (replicate ?n 0)"
  define mi where "mi = for_loop 1 ?n (\<lambda>i xs. xs[i := minus_dm (map Fin hs) (map Fin ls) i]) (replicate ?n 0)"
  define tr where "tr = for_loop 1 ?n (\<lambda>i xs. xs[i := true_range (map Fin hs) (map Fin ls) (map Fin cs) i]) (replicate ?n 0)"
  have len: "length hs = ?n" "length ls = ?n" using ok by (simp_all add: bars_ok_def)
  have rds: "rd pl i = plus_dm (map Fin hs) (map Fin ls) i" "rd mi i = minus_dm (map Fin hs) (map Fin ls) i"
      "rd tr i = Fin (tr_real hs ls cs i)" if "0 < i" "i < ?n" for i
    using that true_range_Fin [OF len that] by (simp_all add: pl_def mi_def tr_def for_loop_fill del: rd_in)
  have bounds: "\<exists>t x y. rd tr i = Fin t \<and> rd pl i = Fin x \<and> rd mi i = Fin y \<and> 0 \<le> x \<and> x \<le> t \<and> 0 \<le> y \<and> y \<le> t"
    if "0 < i" "i < ?n" for i
    using dm_Fin [OF len that] dm_le_tr [OF ok that] rds [OF that] by auto
  let ?sum = "\<lambda>xs. for_loop 1 (p + 1) (\<lambda>i s. s + rd xs i) 0"
  have "\<exists>t x y. ?sum tr = Fin t \<and> ?sum pl = Fin x \<and> ?sum mi = Fin y \<and> 0 \<le> x \<and> x \<le> t \<and> 0 \<le> y \<and> y \<le> t"
  proof -
    let ?Q = "\<lambda>i u. \<exists>t x y. for_loop 1 i (\<lambda>i s. s + rd tr i) 0 = Fin t \<and> for_loop 1 i (\<lambda>i s. s + rd pl i) 0 = Fin x \<and>
        for_loop 1 i (\<lambda>i s. s + rd mi i) 0 = Fin y \<and> 0 \<le> x \<and> x \<le> t \<and> 0 \<le> y \<and> y \<le> t"
    have "?Q i ()" if "1 \<le> i" "i \<le> p + 1" for i
      using that
    proof (induction i rule: nat_induct_at_least)
      case (Suc i)
      then obtain t x y where "for_loop 1 i (\<lambda>i s. s + rd tr i) 0 = Fin t" "for_loop 1 i (\<lambda>i s. s + rd pl i) 0 = Fin x"
        "for_loop 1 i (\<lambda>i s. s + rd mi i) 0 = Fin y" "0 \<le> x" "x \<le> t" "0 \<le> y" "y \<le> t" by auto
      moreover obtain t' x' y' where "rd tr i = Fin t'" "rd pl i = Fin x'" "rd mi i = Fin y'"
          "0 \<le> x'" "x' \<le> t'" "0 \<le> y'" "y' \<le> t'"
        using bounds [of i] Suc p by force
      ultimately show ?case using Suc(1) by (auto simp: for_loop_Suc simp del: rd_in)
    qed simp
    then show ?thesis using p by simp
  qed
  then obtain t x y where sums: "?sum tr = Fin t" "?sum pl = Fin x" "?sum mi = Fin y"
      "0 \<le> x" "x \<le> t" "0 \<le> y" "y \<le> t" by blast
  define s0 where "s0 = \<lparr>al_adx = nans ?n, al_pdi = nans ?n, al_mdi = nans ?n,
      al_atr = ?sum tr / jnat p, al_plus = ?sum pl / jnat p, al_minus = ?sum mi / jnat p\<rparr>"
  have s0: "adx_inv ?n p (p + 1) s0"
  proof -
    have "0 \<le> x / p" "x / p \<le> t / p" "0 \<le> y / p" "y / p \<le> t / p"
      using sums by (simp_all add: divide_right_mono)
    then show ?thesis unfolding s0_def sums using p(1) unfolding adx_inv_def by (simp add: divide_le_cancel)
  qed
  define s where "s = for_loop (p + 1) ?n (adx_step tr pl mi p) s0"
  have A: "A = \<lparr>ax_adx = al_adx s, ax_pdi = al_pdi s, ax_mdi = al_mdi s\<rparr>"
    using p len unfolding A_def calcADX_def Let_def s_def s0_def pl_def mi_def tr_def length_map by simp
  have "adx_inv ?n p (max (p + 1) ?n) s"
  proof (cases "p + 1 \<le> ?n")
    case True
    have "adx_inv ?n p ?n s"
      unfolding s_def
    proof (rule for_loop_invariant [OF True, where P = "adx_inv ?n p"], rule s0)
      fix i st assume i: "p + 1 \<le> i" "i < ?n" and inv: "adx_inv ?n p i st"
      obtain t x y where "rd tr i = Fin t" "rd pl i = Fin x" "rd mi i = Fin y" "0 \<le> x" "x \<le> t" "0 \<le> y" "y \<le> t"
        using bounds [of i] i by auto
      then show "adx_inv ?n p (Suc i) (adx_step tr pl mi p i st)"
        using i inv p by (intro adx_step_inv [where t = t and x = x and y = y]) (simp_all del: rd_in)
    qed
    then show ?thesis using True by simp
  next
    case False
    then show ?thesis using s0 by (simp add: s_def)
  qed
  then show ?thesis using A by auto
qed

section \<open>Parabolic SAR\<close>

text \<open>All prices of the run lie in \<open>[lo, hi]\<close>; so does the stop, and the acceleration stays
  between \<open>0\<close> and \<open>max step maxStep\<close>.\<close>

definition psar_ok :: "real \<Rightarrow> real \<Rightarrow> real \<Rightarrow> real \<Rightarrow> psar_state \<Rightarrow> bool" where
  "psar_ok step mx lo hi s \<longleftrightarrow> (\<exists>a e v. ps_af s = Fin a \<and> ps_ep s = Fin e \<and> ps_sar s = Fin v \<and>
     0 \<le> a \<and> a \<le> max step mx \<and> lo \<le> e \<and> e \<le> hi \<and> lo \<le> v \<and> v \<le> hi)"

lemma psar_move:
  fixes a e v lo hi :: real
  assumes "0 \<le> a" "a \<le> 1" "lo \<le> e" "e \<le> hi" "lo \<le> v" "v \<le> hi"
  shows "lo \<le> v + a * (e - v)" "v + a * (e - v) \<le> hi"
  using blend_le [of a v hi e] blend_ge [of a lo v e] assms by (simp_all add: blend_def algebra_simps)

lemma psar_step_ok:
  assumes s: "psar_ok step mx lo hi s" and i: "0 < i" "i < length hs" "length ls = length hs"
    and pr: "\<forall>x \<in> set hs \<union> set ls. lo \<le> x \<and> x \<le> hi"
    and st: "0 \<le> step" "0 \<le> mx" "step \<le> 1" "mx \<le> 1"
  shows "psar_ok step mx lo hi (psar_step (map Fin hs) (map Fin ls) (Fin step) (Fin mx) i s)"
proof -
  obtain a e v where s': "ps_af s = Fin a" "ps_ep s = Fin e" "ps_sar s = Fin v"
      "0 \<le> a" "a \<le> max step mx" "lo \<le> e" "e \<le> hi" "lo \<le> v" "v \<le> hi"
    using s by (auto simp: psar_ok_def)
  let ?v = "v + a * (e - v)"
  have v: "lo \<le> ?v" "?v \<le> hi" using psar_move [of a lo e hi v] s' st by (auto simp: le_max_iff_disj)
  have i1: "i - 1 < length hs" "i - 2 < length hs" using i by auto
  have P: "lo \<le> hs ! j" "hs ! j \<le> hi" "lo \<le> ls ! j" "ls ! j \<le> hi" if "j < length hs" for j
    using pr that i by auto
  note Pi = P [OF i(2)] P [OF i1(1)] P [OF i1(2)]
  show ?thesis
    using s' v i i1 Pi st unfolding psar_ok_def psar_step_def
    by (auto simp: Let_def jmin_list_def jmax_list_def min_def max_def)
qed

lemma calcParabolicSAR_range:
  assumes len: "length ls = length hs" "2 \<le> length hs"
    and pr: "\<forall>x \<in> set hs \<union> set ls. lo \<le> x \<and> x \<le> hi"
    and st: "0 \<le> step" "0 \<le> mx" "step \<le> 1" "mx \<le> 1"
    and j: "0 < j" "j < length hs"
  shows "\<exists>r. rd (calcParabolicSAR (map Fin hs) (map Fin ls) (Fin step) (Fin mx)) j = Fin r \<and> lo \<le> r \<and> r \<le> hi"
proof -
  let ?n = "length hs"
  let ?b = "\<lambda>i (sar, s). let s1 = psar_step (map Fin hs) (map Fin ls) (Fin step) (Fin mx) i s in (sar[i := ps_sar s1], s1)"
  let ?s0 = "\<lparr>ps_bull = True, ps_af = Fin step, ps_ep = Fin (ls ! 0), ps_sar = Fin (hs ! 0)\<rparr>"
  let ?P = "\<lambda>i x. length (fst x) = ?n \<and> psar_ok step mx lo hi (snd x) \<and>
      (\<forall>j. 0 < j \<and> j < i \<longrightarrow> (\<exists>r. rd (fst x) j = Fin r \<and> lo \<le> r \<and> r \<le> hi))"
  have "?P ?n (for_loop 1 ?n ?b (nans ?n, ?s0))"
  proof (rule for_loop_invariant [where P = ?P])
    have "hs ! 0 \<in> set hs" "ls ! 0 \<in> set ls" using len by (auto intro!: nth_mem)
    then show "?P 1 (nans ?n, ?s0)" using pr st by (auto simp: psar_ok_def)
  next
    fix i x assume i: "1 \<le> i" "i < ?n" and P: "?P i x"
    obtain sar s where x: "x = (sar, s)" by (cases x)
    have ok: "psar_ok step mx lo hi (psar_step (map Fin hs) (map Fin ls) (Fin step) (Fin mx) i s)" (is "psar_ok _ _ _ _ ?t")
      using P i len pr st unfolding x by (intro psar_step_ok) auto
    then have "\<exists>r. ps_sar ?t = Fin r \<and> lo \<le> r \<and> r \<le> hi" by (auto simp: psar_ok_def)
    then show "?P (Suc i) (?b i x)"
      using P ok i unfolding x by (auto simp: Let_def rd_update less_Suc_eq simp del: rd_in)
  qed (use len in simp)
  moreover have "calcParabolicSAR (map Fin hs) (map Fin ls) (Fin step) (Fin mx) = fst (for_loop 1 ?n ?b (nans ?n, ?s0))"
    using len by (cases hs; cases ls) (simp_all add: calcParabolicSAR_def Let_def)
  ultimately show ?thesis using j by (simp del: rd_in)
qed

section \<open>Heikin-Ashi\<close>

lemma toHeikinAshi_nth:
  assumes "cs \<noteq> []"
  shows "length (toHeikinAshi cs) = length cs" and "toHeikinAshi cs ! 0 = ha_first (cs ! 0)"
    and "0 < i \<Longrightarrow> i < length cs \<Longrightarrow> toHeikinAshi cs ! i = ha_next (toHeikinAshi cs ! (i - 1)) (cs ! i)"
proof -
  let ?b = "\<lambda>i ha. ha @ [ha_next (ha ! (i - 1)) (cs ! i)]"
  let ?P = "\<lambda>i ha. length ha = i \<and> ha ! 0 = ha_first (cs ! 0) \<and>
     (\<forall>j. 0 < j \<and> j < i \<longrightarrow> ha ! j = ha_next (ha ! (j - 1)) (cs ! j))"
  have "?P (length cs) (for_loop 1 (length cs) ?b [ha_first (cs ! 0)])"
    by (rule for_loop_invariant [where P = ?P]) (use assms in \<open>auto simp: nth_append Suc_le_eq less_Suc_eq\<close>)
  moreover have "toHeikinAshi cs = for_loop 1 (length cs) ?b [ha_first (cs ! 0)]"
    using assms by (simp add: toHeikinAshi_def)
  ultimately show "length (toHeikinAshi cs) = length cs" and "toHeikinAshi cs ! 0 = ha_first (cs ! 0)"
    and "0 < i \<Longrightarrow> i < length cs \<Longrightarrow> toHeikinAshi cs ! i = ha_next (toHeikinAshi cs ! (i - 1)) (cs ! i)"
    by auto
qed

definition ohlc_fin :: "ohlc \<Rightarrow> bool" where
  "ohlc_fin c \<longleftrightarrow> is_fin (oh_open c) \<and> is_fin (oh_close c) \<and> is_fin (oh_high c) \<and> is_fin (oh_low c)"

definition ohlc_ordered :: "ohlc \<Rightarrow> bool" where
  "ohlc_ordered c \<longleftrightarrow> oh_low c \<le> oh_open c \<and> oh_low c \<le> oh_close c \<and>
     oh_open c \<le> oh_high c \<and> oh_close c \<le> oh_high c"

lemma three_bounds:
  "\<exists>m. jmin_list [Fin a, Fin b, Fin c] = Fin m \<and> m \<le> a \<and> m \<le> b \<and> m \<le> c"
  "\<exists>m. jmax_list [Fin a, Fin b, Fin c] = Fin m \<and> a \<le> m \<and> b \<le> m \<and> c \<le> m"
  by (auto simp: jmin_list_def jmax_list_def min_def max_def)

lemma is_fin_divide: "is_fin x \<Longrightarrow> c \<noteq> 0 \<Longrightarrow> is_fin (x / Fin c)"
  by (auto elim!: is_finE)

lemma ha_first_ok: "ohlc_fin c \<Longrightarrow> ohlc_fin (ha_first c) \<and> ohlc_ordered (ha_first c)"
proof -
  assume "ohlc_fin c"
  then have "is_fin ((oh_open c + oh_close c) / 2)" "is_fin ((oh_open c + oh_high c + oh_low c + oh_close c) / 4)"
      "is_fin (oh_high c)" "is_fin (oh_low c)"
    by (auto simp: ohlc_fin_def intro!: is_fin_divide)
  then obtain x y h l where xy: "(oh_open c + oh_close c) / 2 = Fin x"
      "(oh_open c + oh_high c + oh_low c + oh_close c) / 4 = Fin y" "oh_high c = Fin h" "oh_low c = Fin l"
    unfolding is_fin_def by blast
  then show ?thesis
    using three_bounds(1) [of x y l] three_bounds(2) [of x y h]
    by (auto simp: ohlc_fin_def ohlc_ordered_def ha_first_def Let_def)
qed

lemma ha_next_ok:
  "ohlc_fin prev \<Longrightarrow> ohlc_fin c \<Longrightarrow> ohlc_fin (ha_next prev c) \<and> ohlc_ordered (ha_next prev c) \<and>
     oh_low (ha_next prev c) \<le> oh_low c \<and> oh_high c \<le> oh_high (ha_next prev c)"
proof -
  assume "ohlc_fin prev" "ohlc_fin c"
  then have "is_fin ((oh_open prev + oh_close prev) / 2)"
      "is_fin ((oh_open c + oh_high c + oh_low c + oh_close c) / 4)" "is_fin (oh_high c)" "is_fin (oh_low c)"
    by (auto simp: ohlc_fin_def intro!: is_fin_divide)
  then obtain x y h l where xy: "(oh_open prev + oh_close prev) / 2 = Fin x"
      "(oh_open c + oh_high c + oh_low c + oh_close c) / 4 = Fin y" "oh_high c = Fin h" "oh_low c = Fin l"
    unfolding is_fin_def by blast
  then show ?thesis
    using three_bounds(1) [of l x y] three_bounds(2) [of h x y]
    by (auto simp: ohlc_fin_def ohlc_ordered_def ha_next_def Let_def)
qed

lemma toHeikinAshi_ok:
  assumes "\<forall>c \<in> set cs. ohlc_fin c" and "i < length cs"
  shows "ohlc_fin (toHeikinAshi cs ! i) \<and> ohlc_ordered (toHeikinAshi cs ! i)"
  using assms(2)
proof (induction i)
  case 0
  then show ?case using assms toHeikinAshi_nth(2) [of cs] ha_first_ok [of "cs ! 0"] by auto
next
  case (Suc i)
  then have "cs \<noteq> []" by auto
  then show ?case
    using Suc assms toHeikinAshi_nth(3) [of cs "Suc i"] ha_next_ok [of "toHeikinAshi cs ! i" "cs ! Suc i"] by auto
qed

section \<open>Properties\<close>

text \<open>
  The sliding sum of \<open>calcSMA\<close> is the mean of the last \<open>period\<close> closes at every index, and NaN
  while fewer than \<open>period\<close> closes have been seen; adding the new close and subtracting the one that
  leaves the window never drifts from recomputing the window.
\<close>
theorem sma_is_window_mean:
  "0 < period \<Longrightarrow> j < length cs \<Longrightarrow>
     rd (calcSMA (map Fin cs) period) j =
       (if Suc j < period then NaN
        else Fin ((\<Sum>k = Suc j - period..<Suc j. cs ! k) / real period))"
  by (auto simp: calcSMA_at window_sum_def simp del: rd_in)

theorem sma_is_window_mean_witness: "rd (calcSMA (map Fin [1, 2, 6, 4]) 2) 2 = Fin 4"
  using sma_is_window_mean [of 2 2 "[1, 2, 6, 4]"] by (simp add: numeral_eq_Suc)

text \<open>
  \<open>calcEMA\<close> starts at the mean of the first \<open>period\<close> closes and from there blends each close with
  weight \<open>2 / (period + 1)\<close>, so it never leaves the range of the closes.
\<close>
theorem ema_within_range:
  assumes "0 < period" "period \<le> Suc j" "j < length cs" and "\<forall>c \<in> set cs. lo \<le> c \<and> c \<le> hi"
  shows "\<exists>r. rd (calcEMA (map Fin cs) period) j = Fin r \<and> lo \<le> r \<and> r \<le> hi \<and>
    r = recur (blend (2 / (real period + 1))) ((\<Sum>k = 0..<period. cs ! k) / real period) (drop period (take (Suc j) cs))"
proof -
  let ?s = "window_sum cs 0 period / real period"
  have c: "lo \<le> cs ! k \<and> cs ! k \<le> hi" if "k < period" for k using that assms by simp
  have "(\<Sum>k = 0..<period. cs ! k) \<le> real period * hi" "real period * lo \<le> (\<Sum>k = 0..<period. cs ! k)"
    using sum_bounded_above [of "{0..<period}" "(!) cs" hi] sum_bounded_below [of "{0..<period}" lo "(!) cs"] c by auto
  then have "lo \<le> ?s \<and> ?s \<le> hi"
    using assms(1) by (simp add: window_sum_def pos_divide_le_eq pos_le_divide_eq mult.commute)
  moreover have "\<forall>x \<in> set (segment cs period (Suc j)). lo \<le> x \<and> x \<le> hi"
    using assms(4) by (auto simp: segment_def dest: in_set_dropD in_set_takeD)
  ultimately show ?thesis
    using ema_bounds [OF assms(1)] calcEMA_closed_form [OF assms(1-3)]
    by (auto simp: window_sum_def segment_def ema_weight_def simp del: rd_in)
qed

theorem ema_within_range_witness:
  "\<exists>r. rd (calcEMA (map Fin [1, 3, 5]) 2) 2 = Fin r \<and> 1 \<le> r \<and> r \<le> 5"
  using ema_within_range [of 2 2 "[1, 3, 5]" 1 5] by auto

text \<open>
  \<open>calcRSI\<close> is NaN for the first \<open>period\<close> entries and lies between 0 and 100 from there on, for any
  finite closes, also where the average loss is 0.
\<close>
theorem rsi_between_0_and_100:
  "0 < p \<Longrightarrow> p < length cs \<Longrightarrow> j < length cs \<Longrightarrow>
     (if j < p then rd (calcRSI (map Fin cs) p) j = NaN
      else \<exists>r. rd (calcRSI (map Fin cs) p) j = Fin r \<and> 0 \<le> r \<and> r \<le> 100)"
  by (rule calcRSI_range_aux [unfolded in_percent_def])

theorem rsi_between_0_and_100_witness:
  "\<exists>r. rd (calcRSI (map Fin [1, 2, 1, 3]) 2) 3 = Fin r \<and> 0 \<le> r \<and> r \<le> 100"
  using rsi_between_0_and_100 [of 2 "[1, 2, 1, 3]" 3] by auto

text \<open>
  \<open>calcBollingerBands\<close>: the middle band is the window mean and the upper and lower bands lie the
  population standard deviation of the window, times the multiplier, above and below it.
\<close>
theorem bollinger_bands_correct:
  assumes "0 < p" "p \<le> Suc i" "i < length cs"
  shows "let B = calcBollingerBands (map Fin cs) p (Fin k);
             m = (\<Sum>j = Suc i - p..<Suc i. cs ! j) / real p;
             sd = sqrt ((\<Sum>j = Suc i - p..<Suc i. (cs ! j - m) ^ 2) / real p)
         in rd (bd_middle B) i = Fin m \<and> rd (bd_upper B) i = Fin (m + k * sd) \<and> rd (bd_lower B) i = Fin (m - k * sd)"
proof -
  have "Suc i - (Suc i - p) = p" using assms by simp
  then show ?thesis
    using bollinger_at [OF assms, of k] by (simp add: Let_def window_variance_def window_sum_def)
qed

theorem bollinger_bands_correct_witness:
  "rd (bd_upper (calcBollingerBands (map Fin [1, 3]) 2 (Fin 2))) 1 = Fin 4"
  using bollinger_bands_correct [of 2 1 "[1, 3]" 2] by (simp add: Let_def numeral_eq_Suc)

text \<open>
  On bars whose close lies between low and high, the stochastic %K is between 0 and 100 and
  Williams %R is between -100 and 0; over a window that is not flat they are the same indicator,
  shifted: %R = %K - 100.
\<close>
theorem stochastic_williams:
  assumes "bars_ok hs ls cs" "0 < p" "p \<le> Suc i" "i < length cs"
  shows "\<exists>k w. rd (st_k (calcStochastic (map Fin hs) (map Fin ls) (map Fin cs) p d)) i = Fin k \<and>
     rd (calcWilliamsR (map Fin hs) (map Fin ls) (map Fin cs) p) i = Fin w \<and>
     0 \<le> k \<and> k \<le> 100 \<and> -100 \<le> w \<and> w \<le> 0 \<and>
     (highest hs (Suc i - p) (Suc i) \<noteq> lowest ls (Suc i - p) (Suc i) \<longrightarrow> w = k - 100)"
proof -
  let ?H = "highest hs (Suc i - p) (Suc i)" and ?L = "lowest ls (Suc i - p) (Suc i)"
  let ?r = "if ?H - ?L \<noteq> 0 then ?H - ?L else 1"
  have in_range: "?L \<le> cs ! i" "cs ! i \<le> ?H"
    using bars_close_in_range [OF assms(1) _ assms(4), of "Suc i - p"] assms(2) by simp_all
  have k: "0 \<le> (cs ! i - ?L) / ?r * 100" "(cs ! i - ?L) / ?r * 100 \<le> 100"
    using scaled_in_unit [of "cs ! i - ?L" "?H - ?L"] in_range by simp_all
  have w: "0 \<le> (?H - cs ! i) / ?r * 100" "(?H - cs ! i) / ?r * 100 \<le> 100"
    using scaled_in_unit [of "?H - cs ! i" "?H - ?L"] in_range by simp_all
  have "(?H - cs ! i) / ?r * - 100 = (cs ! i - ?L) / ?r * 100 - 100" if "?H \<noteq> ?L"
    using that by (simp add: field_simps)
  then show ?thesis
    using stochastic_k_at [OF assms(1,2,4), of d] williams_at [OF assms(1,2,4)] assms(3) k w
    by (simp add: Let_def not_less del: rd_in)
qed

theorem stochastic_williams_witness:
  "\<exists>k. rd (st_k (calcStochastic (map Fin [3, 4]) (map Fin [1, 2]) (map Fin [2, 3]) 2 3)) 1 = Fin k \<and> k \<le> 100"
  using stochastic_williams [of "[3, 4]" "[1, 2]" "[2, 3]" 2 1 3]
  by (auto simp: bars_ok_def numeral_eq_Suc less_Suc_eq)

text \<open>
  \<open>calcOBV\<close> at an index is the running sum of the volumes, counted positive on a rise of the close,
  negative on a fall and not at all when it is unchanged.
\<close>
theorem obv_is_signed_volume:
  "2 \<le> length cs \<Longrightarrow> length vs = length cs \<Longrightarrow> i < length cs \<Longrightarrow>
     rd (calcOBV (map Fin cs) (map Fin vs)) i = Fin (\<Sum>j = 0..i. signed_volume cs vs j)"
  by (rule calcOBV_sum)

theorem obv_is_signed_volume_witness:
  "rd (calcOBV (map Fin [1, 2, 1]) (map Fin [5, 7, 3])) 2 = Fin 9"
  using obv_is_signed_volume [of "[1, 2, 1]" "[5, 7, 3]" 2] by (simp add: signed_volume_def numeral_eq_Suc)

text \<open>
  \<open>calcATR\<close> is Wilder's average of the true ranges, seeded with their mean over the first period;
  it is never negative and never exceeds the largest true range seen.
\<close>
theorem atr_bounds:
  assumes "bars_ok hs ls cs" "0 < p" "p \<le> Suc i" "i < length cs" "2 \<le> length cs"
    and "\<forall>j \<le> i. tr_real hs ls cs j \<le> M"
  shows "\<exists>r. rd (calcATR (map Fin hs) (map Fin ls) (map Fin cs) p) i = Fin r \<and> 0 \<le> r \<and> r \<le> M"
proof -
  let ?T = "tr_real hs ls cs"
  have len: "length hs = length cs" "length ls = length cs" using assms(1) by (simp_all add: bars_ok_def)
  have T: "0 \<le> ?T j \<and> ?T j \<le> M" if "j \<le> i" for j using that assms tr_real_nonneg [of hs ls cs j] by auto
  have "(\<Sum>j = 0..<p. ?T j) \<le> real p * M" "0 \<le> (\<Sum>j = 0..<p. ?T j)"
    using sum_bounded_above [of "{0..<p}" ?T M] T assms(3) by (auto intro!: sum_nonneg)
  then have "0 \<le> (\<Sum>j = 0..<p. ?T j) / real p \<and> (\<Sum>j = 0..<p. ?T j) / real p \<le> M"
    using assms(2) by (simp add: pos_divide_le_eq mult.commute)
  moreover have "\<forall>x \<in> set (map ?T [p..<Suc i]). 0 \<le> x \<and> x \<le> M" using T by auto
  ultimately show ?thesis
    using wilder_bounds(1) [OF assms(2)] atr_at [OF assms(2-5) len] by blast
qed

theorem atr_bounds_witness:
  "\<exists>r. rd (calcATR (map Fin [3, 4]) (map Fin [1, 2]) (map Fin [2, 3]) 1) 1 = Fin r \<and> 0 \<le> r \<and> r \<le> 2"
  by (rule atr_bounds) (auto simp: bars_ok_def less_Suc_eq tr_real_def le_Suc_eq)

text \<open>
  On well-formed bars both directional indices of \<open>calcADX\<close> and the ADX itself are between 0 and
  100 wherever they are defined: from index \<open>period + 1\<close> and from index \<open>2 period\<close> on.
\<close>
theorem adx_between_0_and_100:
  assumes "bars_ok hs ls cs" "0 < p" "p < i" "i < length cs" "p * 2 \<le> length cs"
  shows "let A = calcADX (map Fin hs) (map Fin ls) (map Fin cs) p
    in in_percent (rd (ax_pdi A) i) \<and> in_percent (rd (ax_mdi A) i) \<and>
       (if 2 * p \<le> i then in_percent (rd (ax_adx A) i) else rd (ax_adx A) i = NaN)"
  using calcADX_inv [OF assms(1,2,5)] assms(3,4) by (auto simp: adx_inv_def Let_def simp del: rd_in)

theorem adx_between_0_and_100_witness:
  "in_percent (rd (ax_pdi (calcADX (map Fin [3, 4, 6]) (map Fin [1, 2, 3]) (map Fin [2, 3, 5]) 1)) 2)"
  using adx_between_0_and_100 [of "[3, 4, 6]" "[1, 2, 3]" "[2, 3, 5]" 1 2]
  by (simp add: bars_ok_def less_Suc_eq numeral_eq_Suc Let_def del: rd_in)

text \<open>
  The stop of \<open>calcParabolicSAR\<close> is a number at every index from 1 and never leaves the range of
  the highs and lows, for accelerations up to 1.
\<close>
theorem parabolic_sar_range:
  assumes "length ls = length hs" "\<forall>x \<in> set hs \<union> set ls. lo \<le> x \<and> x \<le> hi"
    and "0 \<le> step" "0 \<le> mx" "step \<le> 1" "mx \<le> 1" "0 < j" "j < length hs"
  shows "\<exists>r. rd (calcParabolicSAR (map Fin hs) (map Fin ls) (Fin step) (Fin mx)) j = Fin r \<and> lo \<le> r \<and> r \<le> hi"
  by (rule calcParabolicSAR_range) (use assms in auto)

theorem parabolic_sar_range_witness:
  "\<exists>r. rd (calcParabolicSAR (map Fin [3, 4]) (map Fin [1, 2]) (Fin (1 / 50)) (Fin (1 / 5))) 1 = Fin r \<and> 1 \<le> r \<and> r \<le> 4"
  by (rule parabolic_sar_range) auto

text \<open>
  \<open>calcMACD\<close>: with \<open>fast \<le> slow\<close> and enough closes, the MACD line is the difference of the two
  averages from index \<open>slow - 1\<close> on, the signal line is the average of its valid part shifted back into
  place, and the histogram is their difference exactly from index \<open>slow + signal - 2\<close> on.
\<close>
theorem macd_alignment:
  assumes "0 < fast" "fast \<le> slow" "0 < signal" "slow + signal - 1 \<le> length cs" "i < length cs"
  shows "let M = calcMACD (map Fin cs) fast slow signal
    in (is_fin (rd (mc_macd M) i) \<longleftrightarrow> slow - 1 \<le> i) \<and>
       (slow - 1 \<le> i \<longrightarrow>
          rd (mc_macd M) i = rd (calcEMA (map Fin cs) fast) i - rd (calcEMA (map Fin cs) slow) i \<and>
          rd (mc_signal M) i = rd (calcEMA (drop (slow - 1) (mc_macd M)) signal) (i - (slow - 1))) \<and>
       (is_fin (rd (mc_histogram M) i) \<longleftrightarrow> slow + signal - 2 \<le> i) \<and>
       (slow + signal - 2 \<le> i \<longrightarrow> rd (mc_histogram M) i = rd (mc_macd M) i - rd (mc_signal M) i)"
proof -
  let ?n = "length cs" and ?a = "calcEMA (map Fin cs) fast" and ?b = "calcEMA (map Fin cs) slow"
  have mx: "max (fast - 1) (slow - 1) = slow - 1" using assms(2) by simp
  have w: "warm_line ?n (slow - 1) (line_diff ?n ?a ?b)"
    using line_diff_warm [OF warm_line_EMA warm_line_EMA, of fast cs slow] assms by (simp add: mx)
  have "slow - 1 < ?n" "signal \<le> ?n - (slow - 1)" using assms by simp_all
  note L = macd_lines_warm [OF w this(1) assms(3) this(2)]
  have eq: "slow - 1 + signal - 1 = slow + signal - 2" using assms by simp
  have M: "calcMACD (map Fin cs) fast slow signal = macd_lines ?n ?a ?b signal" by (simp add: calcMACD_def)
  have "rd (line_diff ?n ?a ?b) i = rd ?a i - rd ?b i" if "slow - 1 \<le> i"
    using warm_lineD(3) [OF w that assms(5)] by (auto simp: line_diff_at(2) simp del: rd_in split: if_splits)
  moreover have "is_fin (rd (line_diff ?n ?a ?b) i) \<longleftrightarrow> slow - 1 \<le> i"
    using w assms(5) by (simp only: warm_line_def)
  moreover have "is_fin (rd (mc_histogram (macd_lines ?n ?a ?b signal)) i) \<longleftrightarrow> slow + signal - 2 \<le> i"
    using L(4) assms(5) by (simp only: warm_line_def eq)
  ultimately show ?thesis
    using L(2,5) [of i] assms(5) unfolding Let_def M L(1) eq by blast
qed

theorem macd_alignment_witness:
  "is_fin (rd (mc_histogram (calcMACD (map Fin [1, 2, 4, 8]) 1 2 2)) 2)"
  by (rule macd_alignment [of 1 2 2 "[1, 2, 4, 8]" 2, unfolded Let_def, THEN conjunct2, THEN conjunct2,
        THEN conjunct1, THEN iffD2]) simp_all

text \<open>
  \<open>calcAwesomeOscillator\<close>, which recomputes its two windows with a fixed sum and a slice, equals
  the 5-bar minus the 34-bar simple moving average of the bar midpoints, at every index.
\<close>
theorem awesome_oscillator_is_sma_difference:
  "length ls = length hs \<Longrightarrow> i < length hs \<Longrightarrow>
     rd (calcAwesomeOscillator (map Fin hs) (map Fin ls)) i =
       rd (calcSMA (map Fin (map2 (\<lambda>h l. (h + l) / 2) hs ls)) 5) i -
       rd (calcSMA (map Fin (map2 (\<lambda>h l. (h + l) / 2) hs ls)) 34) i"
  by (rule awesome_is_sma_difference)

theorem awesome_oscillator_is_sma_difference_witness:
  "rd (calcAwesomeOscillator (map Fin [3, 4]) (map Fin [1, 2])) 1 =
     rd (calcSMA (map Fin (map2 (\<lambda>h l. (h + l) / 2) [3, 4] [1, 2])) 5) 1 -
     rd (calcSMA (map Fin (map2 (\<lambda>h l. (h + l) / 2) [3, 4] [1, 2])) 34) 1"
  by (rule awesome_oscillator_is_sma_difference) simp_all

text \<open>
  \<open>toHeikinAshi\<close> turns any candles with finite prices, in order, into as many candles with
  finite prices in which the low is at most, and the high at least, both open and close.
\<close>
theorem heikin_ashi_well_formed:
  assumes "\<forall>c \<in> set cs. ohlc_fin c"
  shows "length (toHeikinAshi cs) = length cs \<and> (\<forall>h \<in> set (toHeikinAshi cs). ohlc_fin h \<and> ohlc_ordered h)"
proof (cases "cs = []")
  case False
  then show ?thesis
    using toHeikinAshi_ok [OF assms] toHeikinAshi_nth(1) [OF False] by (auto simp: in_set_conv_nth)
qed (simp add: toHeikinAshi_def)

theorem heikin_ashi_well_formed_witness:
  "length (toHeikinAshi [\<lparr>oh_open = 1, oh_close = 2, oh_high = 3, oh_low = 1, oh_volume = 5, oh_time = 0\<rparr>]) = 1"
  using heikin_ashi_well_formed [of "[\<lparr>oh_open = 1, oh_close = 2, oh_high = 3, oh_low = 1, oh_volume = 5, oh_time = 0\<rparr>]"]
  by (simp add: ohlc_fin_def)

end
