(* ===== verification/Backtest.thy ===== *)
theory Backtest
  imports Indicators
begin

text \<open>
  The strategy backtester of \<open>web-ui/src/utils/backtestEngine.js\<close>: the rule evaluator, the closing
  of a position, the handling of one bar and the metrics of a run. The mutable locals of
  \<open>runBacktest\<close> are the record \<open>bt_state\<close>; a missing position is \<open>None\<close>. Candles are the \<open>ohlc\<close>
  records of \<open>Indicators\<close>. Conditions and actions are strings, and an unknown one does nothing.
\<close>

section \<open>Inputs\<close>

record rule =
  ru_condition :: string
  ru_value :: jsnum
  ru_action :: string

record bt_options =
  op_balance :: jsnum
  op_fee_pct :: jsnum
  op_slippage_pct :: jsnum
  op_borrow_pct :: jsnum
  op_size_pct :: jsnum
  op_ema_fast :: nat
  op_ema_slow :: nat
  op_rsi :: nat

definition default_options :: bt_options where
  "default_options = \<lparr>op_balance = 10000, op_fee_pct = Fin (75 / 1000), op_slippage_pct = Fin (5 / 100),
     op_borrow_pct = Fin (1 / 100), op_size_pct = Fin (1 / 10), op_ema_fast = 9, op_ema_slow = 21, op_rsi = 14\<rparr>"

datatype side = LONG | SHORT

record bt_position =
  po_side :: side
  po_entry :: jsnum
  po_qty :: jsnum
  po_time :: jsnum

record bt_trade =
  tr_entry_time :: jsnum
  tr_exit_time :: jsnum
  tr_side :: side
  tr_entry :: jsnum
  tr_exit :: jsnum
  tr_qty :: jsnum
  tr_pnl :: jsnum
  tr_pnl_pct :: jsnum
  tr_reason :: string

section \<open>Conditions\<close>

definition avgVolume :: "jsnum list \<Rightarrow> nat \<Rightarrow> jsnum list" where
  "avgVolume volumes period =
     for_loop 0 (length volumes)
       (\<lambda>i result.
          let start = i + 1 - period;
              sm = for_loop start (i + 1) (\<lambda>j s. s + rd volumes j) 0
          in result[i := sm / jnat (i - start + 1)])
       (replicate (length volumes) 0)"

record bt_indicators =
  bi_fast :: "jsnum list"
  bi_slow :: "jsnum list"
  bi_rsi :: "jsnum list"
  bi_vol :: "jsnum list"

definition rule_matches :: "ohlc list \<Rightarrow> nat \<Rightarrow> bt_indicators \<Rightarrow> rule \<Rightarrow> bool" where
  "rule_matches candles i ind rule =
     (let candle = candles ! i;
          closes = map oh_close candles;
          c = ru_condition rule
      in if c = ''price_above'' then oh_close candle > ru_value rule
         else if c = ''price_below'' then oh_close candle < ru_value rule
         else if c = ''rsi_above'' then rd (bi_rsi ind) i > ru_value rule
         else if c = ''rsi_below'' then rd (bi_rsi ind) i < ru_value rule
         else if c = ''ema_cross_up'' then
           i > 0 \<and> rd (bi_fast ind) i > rd (bi_slow ind) i \<and> rd (bi_fast ind) (i - 1) \<le> rd (bi_slow ind) (i - 1)
         else if c = ''ema_cross_down'' then
           i > 0 \<and> rd (bi_fast ind) i < rd (bi_slow ind) i \<and> rd (bi_fast ind) (i - 1) \<ge> rd (bi_slow ind) (i - 1)
         else if c = ''volume_spike'' then
           rd (bi_vol ind) i > 0 \<and> oh_volume candle > rd (bi_vol ind) i * ru_value rule
         else if c = ''price_change_5'' then
           i \<ge> 5 \<and> \<not> jeq (rd closes (i - 5)) 0 \<and>
             ((oh_close candle - rd closes (i - 5)) / rd closes (i - 5)) * 100 > ru_value rule
         else False)"

definition evaluateConditions :: "ohlc list \<Rightarrow> nat \<Rightarrow> bt_indicators \<Rightarrow> rule list \<Rightarrow> rule list" where
  "evaluateConditions candles i ind rules = filter (rule_matches candles i ind) rules"

section \<open>The run\<close>

record bt_state =
  bt_balance :: jsnum
  bt_pos :: "bt_position option"
  bt_trades :: "bt_trade list"
  bt_equity :: "jsnum list"
  bt_peak :: jsnum
  bt_maxdd :: jsnum
  bt_maxdd_dur :: nat
  bt_cur_dur :: nat
  bt_returns :: "jsnum list"

definition bt_init :: "bt_options \<Rightarrow> bt_state" where
  "bt_init opt = \<lparr>bt_balance = op_balance opt, bt_pos = None, bt_trades = [], bt_equity = [],
     bt_peak = op_balance opt, bt_maxdd = 0, bt_maxdd_dur = 0, bt_cur_dur = 0, bt_returns = []\<rparr>"

definition closePosition :: "bt_options \<Rightarrow> ohlc \<Rightarrow> string \<Rightarrow> bt_position \<Rightarrow> bt_state \<Rightarrow> bt_state" where
  "closePosition opt candle reason p s =
     (let exitPrice = (if po_side p = LONG then oh_close candle * (1 - op_slippage_pct opt / 100)
                       else oh_close candle * (1 + op_slippage_pct opt / 100));
          pnl = (if po_side p = LONG then (exitPrice - po_entry p) * po_qty p
                 else (po_entry p - exitPrice) * po_qty p);
          fee = (po_qty p * exitPrice * op_fee_pct opt) / 100;
          borrowFee = (if po_side p = SHORT \<and> op_borrow_pct opt > 0
                       then (po_entry p * po_qty p * op_borrow_pct opt / 100) * ((oh_time candle - po_time p) / 86400)
                       else 0);
          entryNotional = po_entry p * po_qty p
      in s\<lparr>bt_balance := bt_balance s + (pnl - fee - borrowFee),
           bt_trades := bt_trades s @
             [\<lparr>tr_entry_time = po_time p, tr_exit_time = oh_time candle, tr_side = po_side p,
               tr_entry = po_entry p, tr_exit = exitPrice, tr_qty = po_qty p,
               tr_pnl = pnl - fee - borrowFee,
               tr_pnl_pct = (if \<not> jeq entryNotional 0 then ((pnl - fee - borrowFee) / entryNotional) * 100 else 0),
               tr_reason = reason\<rparr>],
           bt_pos := None\<rparr>)"

definition open_position :: "bt_options \<Rightarrow> side \<Rightarrow> ohlc \<Rightarrow> bt_state \<Rightarrow> bt_state" where
  "open_position opt sd candle s =
     (let fillPrice = (if sd = LONG then oh_close candle * (1 + op_slippage_pct opt / 100)
                       else oh_close candle * (1 - op_slippage_pct opt / 100));
          qty = (bt_balance s * op_size_pct opt) / fillPrice;
          fee = (qty * fillPrice * op_fee_pct opt) / 100
      in s\<lparr>bt_balance := bt_balance s - fee,
           bt_pos := Some \<lparr>po_side = sd, po_entry = fillPrice, po_qty = qty, po_time = oh_time candle\<rparr>\<rparr>)"

definition apply_rule :: "bt_options \<Rightarrow> ohlc \<Rightarrow> rule \<Rightarrow> bt_state \<Rightarrow> bt_state" where
  "apply_rule opt candle rule s =
     (if ru_action rule = ''buy'' then
        (if bt_pos s = None \<and> oh_close candle > 0 then open_position opt LONG candle s else s)
      else if ru_action rule = ''sell'' then
        (if bt_pos s = None \<and> oh_close candle > 0 then open_position opt SHORT candle s else s)
      else if ru_action rule = ''close_all'' then
        (case bt_pos s of None \<Rightarrow> s | Some p \<Rightarrow> closePosition opt candle ''CLOSE_ALL'' p s)
      else s)"

text \<open>The equity of a bar, the return over the bar before, and the drawdown bookkeeping.\<close>

definition mark_to_market :: "ohlc \<Rightarrow> bt_state \<Rightarrow> jsnum" where
  "mark_to_market candle s =
     (case bt_pos s of
        None \<Rightarrow> bt_balance s
      | Some p \<Rightarrow> bt_balance s +
          (if po_side p = LONG then (oh_close candle - po_entry p) * po_qty p
           else (po_entry p - oh_close candle) * po_qty p))"

definition track_return :: "nat \<Rightarrow> jsnum \<Rightarrow> bt_state \<Rightarrow> bt_state" where
  "track_return i equity s =
     (if i > 0 \<and> rd (bt_equity s) (i - 1) > 0
      then s\<lparr>bt_returns := bt_returns s @ [(equity - rd (bt_equity s) (i - 1)) / rd (bt_equity s) (i - 1)]\<rparr>
      else s)"

definition track_drawdown :: "jsnum \<Rightarrow> bt_state \<Rightarrow> bt_state" where
  "track_drawdown equity s =
     (if equity > bt_peak s then s\<lparr>bt_peak := equity, bt_cur_dur := 0\<rparr>
      else let s1 = s\<lparr>bt_cur_dur := bt_cur_dur s + 1\<rparr>;
               dd = (if bt_peak s > 0 then (bt_peak s - equity) / bt_peak s else 0)
           in if dd > bt_maxdd s1 then s1\<lparr>bt_maxdd := dd, bt_maxdd_dur := bt_cur_dur s1\<rparr> else s1)"

definition bar_step :: "bt_options \<Rightarrow> rule list \<Rightarrow> ohlc list \<Rightarrow> bt_indicators \<Rightarrow> nat \<Rightarrow> bt_state \<Rightarrow> bt_state" where
  "bar_step opt rules candles ind i s =
     (let candle = candles ! i;
          triggered = (if i > 0 then evaluateConditions candles (i - 1) ind rules else []);
          s1 = fold (apply_rule opt candle) triggered s;
          equity = mark_to_market candle s1;
          s2 = s1\<lparr>bt_equity := bt_equity s1 @ [equity]\<rparr>;
          s3 = track_return i equity s2
      in track_drawdown equity s3)"

definition bt_precompute :: "bt_options \<Rightarrow> ohlc list \<Rightarrow> bt_indicators" where
  "bt_precompute opt candles =
     (let closes = map oh_close candles; volumes = map oh_volume candles
      in \<lparr>bi_fast = calcEMA closes (op_ema_fast opt), bi_slow = calcEMA closes (op_ema_slow opt),
          bi_rsi = calcRSI closes (op_rsi opt), bi_vol = avgVolume volumes 20\<rparr>)"

definition bt_run :: "bt_options \<Rightarrow> rule list \<Rightarrow> ohlc list \<Rightarrow> nat \<Rightarrow> bt_state" where
  \<comment> \<open>the state after the first \<open>k\<close> bars\<close>
  "bt_run opt rules candles k =
     for_loop 0 k (bar_step opt rules candles (bt_precompute opt candles)) (bt_init opt)"

definition bt_flush :: "bt_options \<Rightarrow> ohlc list \<Rightarrow> bt_state \<Rightarrow> bt_state" where
  "bt_flush opt candles s =
     (case bt_pos s of None \<Rightarrow> s
      | Some p \<Rightarrow> closePosition opt (candles ! (length candles - 1)) ''END'' p s)"

section \<open>The metrics\<close>

record bt_result =
  br_error :: "string option"
  br_initial :: jsnum
  br_final :: jsnum
  br_return_pct :: jsnum
  br_total :: nat
  br_winning :: nat
  br_losing :: nat
  br_win_rate :: jsnum
  br_avg_win :: jsnum
  br_avg_loss :: jsnum
  br_profit_factor :: jsnum
  br_maxdd_pct :: jsnum
  br_sharpe :: jsnum
  br_sortino :: jsnum
  br_calmar :: jsnum
  br_equity :: "jsnum list"
  br_trades :: "bt_trade list"
  br_maxdd_dur :: nat
  br_recovery :: jsnum

definition pnl_sum :: "bt_trade list \<Rightarrow> jsnum" where
  "pnl_sum ts = foldl (\<lambda>s t. s + tr_pnl t) 0 ts"

definition bt_metrics :: "bt_options \<Rightarrow> ohlc list \<Rightarrow> bt_state \<Rightarrow> bt_result" where
  "bt_metrics opt candles s =
     (let initialBalance = op_balance opt; finalBalance = bt_balance s; trades = bt_trades s;
          returns = bt_returns s; maxDrawdown = bt_maxdd s;
          totalReturnPct = (if \<not> jeq initialBalance 0
            then ((finalBalance - initialBalance) / initialBalance) * 100 else 0);
          winningTrades = filter (\<lambda>t. tr_pnl t > 0) trades;
          losingTrades = filter (\<lambda>t. tr_pnl t \<le> 0) trades;
          totalTrades = length trades;
          winRate = (if totalTrades > 0 then (jnat (length winningTrades) / jnat totalTrades) * 100 else 0);
          avgWin = (if length winningTrades > 0 then pnl_sum winningTrades / jnat (length winningTrades) else 0);
          avgLoss = (if length losingTrades > 0 then \<bar>pnl_sum losingTrades / jnat (length losingTrades)\<bar> else 0);
          grossProfit = pnl_sum winningTrades;
          grossLoss = \<bar>pnl_sum losingTrades\<bar>;
          profitFactor = (if grossLoss > 0 then grossProfit / grossLoss
                          else if grossProfit > 0 then Fin (99999 / 100) else 0);
          maxDrawdownPct = maxDrawdown * 100;
          periodsPerYear = 105120;
          avgReturn = (if length returns > 0 then jsum returns / jnat (length returns) else 0);
          stdReturn = (if length returns > 1
            then jsqrt (foldl (\<lambda>s r. s + (r - avgReturn) ^ 2) 0 returns / jnat (length returns - 1)) else 0);
          sharpeRatio = (if stdReturn > 0 then (avgReturn / stdReturn) * jsqrt periodsPerYear else 0);
          downsideReturns = filter (\<lambda>r. r < 0) returns;
          downsideDev = (if length downsideReturns > 1
            then jsqrt (foldl (\<lambda>s r. s + r * r) 0 downsideReturns / jnat (length downsideReturns)) else 0);
          sortinoRatio = (if downsideDev > 0 then (avgReturn / downsideDev) * jsqrt periodsPerYear else 0);
          annualizedReturn = totalReturnPct * (periodsPerYear / jnat (length candles));
          calmarRatio = (if maxDrawdownPct > 0 then annualizedReturn / maxDrawdownPct else 0);
          recoveryFactor = (if maxDrawdownPct > 0 \<and> \<not> jeq initialBalance 0
            then (finalBalance - initialBalance) / (initialBalance * maxDrawdown) else 0)
      in \<lparr>br_error = None, br_initial = initialBalance, br_final = finalBalance,
          br_return_pct = totalReturnPct, br_total = totalTrades, br_winning = length winningTrades,
          br_losing = length losingTrades, br_win_rate = winRate, br_avg_win = avgWin,
          br_avg_loss = avgLoss, br_profit_factor = profitFactor, br_maxdd_pct = maxDrawdownPct,
          br_sharpe = sharpeRatio, br_sortino = sortinoRatio, br_calmar = calmarRatio,
          br_equity = bt_equity s, br_trades = trades, br_maxdd_dur = bt_maxdd_dur s,
          br_recovery = recoveryFactor\<rparr>)"

definition runBacktest :: "ohlc list \<Rightarrow> rule list \<Rightarrow> bt_options \<Rightarrow> bt_result" where
  "runBacktest candles rules opt =
     (if length candles < 30
      then \<lparr>br_error = Some ''Need at least 30 candles to backtest'', br_initial = op_balance opt,
            br_final = op_balance opt, br_return_pct = 0, br_total = 0, br_winning = 0, br_losing = 0,
            br_win_rate = 0, br_avg_win = 0, br_avg_loss = 0, br_profit_factor = 0, br_maxdd_pct = 0,
            br_sharpe = 0, br_sortino = 0, br_calmar = 0, br_equity = [op_balance opt], br_trades = [],
            br_maxdd_dur = 0, br_recovery = 0\<rparr>
      else bt_metrics opt candles (bt_flush opt candles (bt_run opt rules candles (length candles))))"

end
