(* ===== verification/BacktestLaws.thy ===== *)
theory BacktestLaws
  imports Backtest IndicatorLaws
begin

text \<open>
  What the backtester guarantees: every unit of money is accounted for (final balance, trade
  results and entry fees), trades never overlap in time, the drawdown it reports is the drawdown of
  its equity curve, and no bar influences what happened before it (no lookahead).
\<close>

section \<open>Finite values\<close>

definition val :: "jsnum \<Rightarrow> real" where
  "val x = (case x of Fin r \<Rightarrow> r | _ \<Rightarrow> 0)"

lemma val_Fin [simp]: "val (Fin r) = r"
  by (simp add: val_def)

definition options_ok :: "bt_options \<Rightarrow> bool" where
  "options_ok opt \<longleftrightarrow> is_fin (op_balance opt) \<and> is_fin (op_fee_pct opt) \<and> is_fin (op_borrow_pct opt) \<and>
     is_fin (op_size_pct opt) \<and> (\<exists>r. op_slippage_pct opt = Fin r \<and> -100 < r \<and> r < 100)"

definition bar_fin :: "ohlc \<Rightarrow> bool" where
  "bar_fin c \<longleftrightarrow> is_fin (oh_close c) \<and> is_fin (oh_time c)"

definition pos_fin :: "bt_position \<Rightarrow> bool" where
  "pos_fin p \<longleftrightarrow> is_fin (po_entry p) \<and> is_fin (po_qty p) \<and> is_fin (po_time p)"

definition trade_fin :: "bt_trade \<Rightarrow> bool" where
  "trade_fin t \<longleftrightarrow> is_fin (tr_entry t) \<and> is_fin (tr_qty t) \<and> is_fin (tr_pnl t) \<and>
     is_fin (tr_entry_time t) \<and> is_fin (tr_exit_time t)"

section \<open>The books balance\<close>

text \<open>The fee paid on opening is the fee percentage of the entry notional; it is taken from the
  balance at once and is not part of the result of the trade.\<close>

definition open_fee :: "bt_options \<Rightarrow> jsnum \<Rightarrow> jsnum \<Rightarrow> real" where
  "open_fee opt qty entry = val qty * val entry * val (op_fee_pct opt) / 100"

definition trades_pnl :: "bt_trade list \<Rightarrow> real" where
  "trades_pnl ts = (\<Sum>t \<leftarrow> ts. val (tr_pnl t))"

definition trades_fees :: "bt_options \<Rightarrow> bt_trade list \<Rightarrow> real" where
  "trades_fees opt ts = (\<Sum>t \<leftarrow> ts. open_fee opt (tr_qty t) (tr_entry t))"

definition books_balance :: "bt_options \<Rightarrow> bt_state \<Rightarrow> bool" where
  "books_balance opt s \<longleftrightarrow>
     (\<forall>t \<in> set (bt_trades s). trade_fin t) \<and>
     (\<forall>p. bt_pos s = Some p \<longrightarrow> pos_fin p) \<and>
     bt_balance s = Fin (val (op_balance opt) + trades_pnl (bt_trades s) - trades_fees opt (bt_trades s) -
       (case bt_pos s of None \<Rightarrow> 0 | Some p \<Rightarrow> open_fee opt (po_qty p) (po_entry p)))"

lemma books_balance_close:
  assumes ok: "options_ok opt" and c: "bar_fin c" and b: "books_balance opt s" and p: "bt_pos s = Some p"
  shows "books_balance opt (closePosition opt c reason p s)"
proof -
  obtain cl tm where c': "oh_close c = Fin cl" "oh_time c = Fin tm" using c by (auto simp: bar_fin_def elim!: is_finE)
  obtain fee bor sl where o: "op_fee_pct opt = Fin fee" "op_borrow_pct opt = Fin bor" "op_slippage_pct opt = Fin sl"
    using ok by (auto simp: options_ok_def elim!: is_finE)
  obtain en q t where p': "po_entry p = Fin en" "po_qty p = Fin q" "po_time p = Fin t"
    using b p by (auto simp: books_balance_def pos_fin_def elim!: is_finE)
  show ?thesis
    using b unfolding books_balance_def p
    by (cases "po_side p")
      (simp_all add: closePosition_def Let_def c' o p' trade_fin_def trades_pnl_def trades_fees_def open_fee_def)
qed

lemma books_balance_open:
  assumes ok: "options_ok opt" and c: "bar_fin c" "oh_close c > 0" and b: "books_balance opt s" and p: "bt_pos s = None"
  shows "books_balance opt (open_position opt sd c s)"
proof -
  obtain cl tm where c': "oh_close c = Fin cl" "oh_time c = Fin tm" using c by (auto simp: bar_fin_def elim!: is_finE)
  obtain fee sz sl where o: "op_fee_pct opt = Fin fee" "op_size_pct opt = Fin sz" "op_slippage_pct opt = Fin sl"
      "-100 < sl" "sl < 100"
    using ok by (auto simp: options_ok_def elim!: is_finE)
  have nz: "cl * (1 + sl / 100) \<noteq> 0" "cl * (1 - sl / 100) \<noteq> 0" using c(2) o c' by auto
  show ?thesis
    using b nz unfolding books_balance_def p
    by (cases sd) (simp_all add: open_position_def Let_def c' o pos_fin_def open_fee_def)
qed

lemma books_balance_rule:
  "options_ok opt \<Longrightarrow> bar_fin c \<Longrightarrow> books_balance opt s \<Longrightarrow> books_balance opt (apply_rule opt c r s)"
  by (auto simp: apply_rule_def books_balance_open books_balance_close split: option.splits)

lemma books_balance_rules:
  "options_ok opt \<Longrightarrow> bar_fin c \<Longrightarrow> books_balance opt s \<Longrightarrow> books_balance opt (fold (apply_rule opt c) rs s)"
  by (induction rs arbitrary: s) (simp_all add: books_balance_rule)

text \<open>The bookkeeping after the rules leaves balance, position and trades alone.\<close>

lemma tracking_fields [simp]:
  "bt_balance (track_drawdown e s) = bt_balance s" "bt_pos (track_drawdown e s) = bt_pos s"
  "bt_trades (track_drawdown e s) = bt_trades s" "bt_equity (track_drawdown e s) = bt_equity s"
  "bt_balance (track_return i e s) = bt_balance s" "bt_pos (track_return i e s) = bt_pos s"
  "bt_trades (track_return i e s) = bt_trades s" "bt_equity (track_return i e s) = bt_equity s"
  "bt_peak (track_return i e s) = bt_peak s" "bt_maxdd (track_return i e s) = bt_maxdd s"
  "bt_returns (track_drawdown e s) = bt_returns s"
  by (simp_all add: track_drawdown_def track_return_def Let_def)

lemma books_balance_bar:
  assumes "options_ok opt" "bar_fin (cs ! i)" "books_balance opt s"
  shows "books_balance opt (bar_step opt rules cs ind i s)"
  using books_balance_rules [OF assms]
  by (simp add: bar_step_def Let_def books_balance_def)

lemma books_balance_run:
  assumes "options_ok opt" "\<forall>c \<in> set cs. bar_fin c" "k \<le> length cs"
  shows "books_balance opt (bt_run opt rules cs k)"
  unfolding bt_run_def
proof (rule for_loop_preserves)
  show "books_balance opt (bt_init opt)"
    using assms(1) by (auto simp: books_balance_def bt_init_def options_ok_def trades_pnl_def trades_fees_def elim!: is_finE)
qed (use assms books_balance_bar in auto)

lemma books_balance_flush:
  assumes "options_ok opt" "\<forall>c \<in> set cs. bar_fin c" "cs \<noteq> []" "books_balance opt s"
  shows "books_balance opt (bt_flush opt cs s)"
  using assms books_balance_close [OF assms(1) _ assms(4)] by (auto simp: bt_flush_def split: option.splits)

lemma flush_flat [simp]: "bt_pos (bt_flush opt cs s) = None"
  by (auto simp: bt_flush_def closePosition_def Let_def split: option.splits)

section \<open>Equity and drawdown\<close>

lemma mark_fin: "bar_fin c \<Longrightarrow> books_balance opt s \<Longrightarrow> is_fin (mark_to_market c s)"
  by (auto simp: mark_to_market_def bar_fin_def books_balance_def pos_fin_def split: option.splits elim!: is_finE)

definition running_peak :: "real \<Rightarrow> real list \<Rightarrow> nat \<Rightarrow> real" where
  "running_peak p0 es i = Max (insert p0 (set (take (Suc i) es)))"

definition drawdowns :: "real \<Rightarrow> real list \<Rightarrow> real set" where
  "drawdowns p0 es = (\<lambda>i. (running_peak p0 es i - es ! i) / running_peak p0 es i) ` {..<length es}"

text \<open>The bookkeeping on reals.\<close>

lemma running_peak_snoc: "i < length es \<Longrightarrow> running_peak p0 (es @ [e]) i = running_peak p0 es i"
  by (simp add: running_peak_def)

lemma drawdowns_snoc:
  "drawdowns p0 (es @ [e]) = insert ((max (Max (insert p0 (set es))) e - e) / max (Max (insert p0 (set es))) e) (drawdowns p0 es)"
proof -
  have "running_peak p0 (es @ [e]) (length es) = max (Max (insert p0 (set es))) e"
  proof -
    have "insert p0 (set (take (Suc (length es)) (es @ [e]))) = insert e (insert p0 (set es))" by auto
    then show ?thesis unfolding running_peak_def by (simp only: Max_insert) (simp add: max.commute)
  qed
  moreover have "{..<length (es @ [e])} = insert (length es) {..<length es}" by auto
  moreover have "(\<lambda>i. (running_peak p0 (es @ [e]) i - (es @ [e]) ! i) / running_peak p0 (es @ [e]) i) ` {..<length es} = drawdowns p0 es"
    unfolding drawdowns_def by (rule image_cong) (simp_all add: running_peak_snoc nth_append)
  ultimately show ?thesis by (simp add: drawdowns_def)
qed

lemma finite_drawdowns [simp]: "finite (drawdowns p0 es)"
  by (simp add: drawdowns_def)

definition peak_of :: "real \<Rightarrow> real list \<Rightarrow> real" where
  "peak_of p0 es = Max (insert p0 (set es))"

definition worst_drawdown :: "real \<Rightarrow> real list \<Rightarrow> real" where
  "worst_drawdown p0 es = Max (insert 0 (drawdowns p0 es))"

lemma peak_of_pos: "0 < p0 \<Longrightarrow> 0 < peak_of p0 es"
  by (simp add: peak_of_def less_max_iff_disj Max_gr_iff)

lemma peak_of_snoc: "peak_of p0 (es @ [e]) = max (peak_of p0 es) e"
proof -
  have "insert p0 (set (es @ [e])) = insert e (insert p0 (set es))" by auto
  then show ?thesis unfolding peak_of_def by (simp only: Max_insert finite_insert finite_set) (simp add: max.commute)
qed

lemma worst_drawdown_nonneg: "0 \<le> worst_drawdown p0 es"
  by (simp add: worst_drawdown_def)

lemma worst_drawdown_snoc:
  "worst_drawdown p0 (es @ [e]) = max (worst_drawdown p0 es) ((max (peak_of p0 es) e - e) / max (peak_of p0 es) e)"
proof -
  have "insert 0 (drawdowns p0 (es @ [e])) =
      insert ((max (peak_of p0 es) e - e) / max (peak_of p0 es) e) (insert 0 (drawdowns p0 es))"
    by (auto simp: drawdowns_snoc peak_of_def)
  then show ?thesis
    unfolding worst_drawdown_def by (simp only: Max_insert finite_insert finite_drawdowns) (simp add: max.commute)
qed

definition dd_inv :: "real \<Rightarrow> bt_state \<Rightarrow> bool" where
  "dd_inv p0 s \<longleftrightarrow> (\<exists>es. bt_equity s = map Fin es \<and> bt_peak s = Fin (peak_of p0 es) \<and>
     bt_maxdd s = Fin (worst_drawdown p0 es))"

lemma dd_inv_track:
  assumes p0: "0 < p0" and es: "bt_equity s = map Fin es" and pk: "bt_peak s = Fin (peak_of p0 es)"
    and dd: "bt_maxdd s = Fin (worst_drawdown p0 es)"
  shows "dd_inv p0 (track_drawdown (Fin e) (s\<lparr>bt_equity := bt_equity s @ [Fin e]\<rparr>))"
proof (cases "e > peak_of p0 es")
  case True
  with worst_drawdown_nonneg [of p0 es] show ?thesis unfolding dd_inv_def
    by (intro exI [of _ "es @ [e]"]) (simp add: track_drawdown_def es pk dd peak_of_snoc worst_drawdown_snoc max_def)
next
  case False
  with peak_of_pos [OF p0, of es] show ?thesis unfolding dd_inv_def
    by (intro exI [of _ "es @ [e]"])
      (simp add: track_drawdown_def Let_def es pk dd peak_of_snoc worst_drawdown_snoc max_def)
qed

lemma dd_inv_cong:
  "bt_equity t = bt_equity s \<Longrightarrow> bt_peak t = bt_peak s \<Longrightarrow> bt_maxdd t = bt_maxdd s \<Longrightarrow> dd_inv p0 t = dd_inv p0 s"
  by (simp add: dd_inv_def)

lemma rule_fields [simp]:
  "bt_equity (apply_rule opt c r s) = bt_equity s" "bt_peak (apply_rule opt c r s) = bt_peak s"
  "bt_maxdd (apply_rule opt c r s) = bt_maxdd s"
  by (simp_all add: apply_rule_def closePosition_def open_position_def Let_def split: option.splits)

lemma rules_fields [simp]:
  "bt_equity (fold (apply_rule opt c) rs s) = bt_equity s" "bt_peak (fold (apply_rule opt c) rs s) = bt_peak s"
  "bt_maxdd (fold (apply_rule opt c) rs s) = bt_maxdd s"
  by (induction rs arbitrary: s) simp_all

lemma track_commute: "track_drawdown e (track_return i x s) = track_return i x (track_drawdown e s)"
  by (simp add: track_drawdown_def track_return_def Let_def)

lemma dd_inv_bar:
  assumes "0 < p0" "options_ok opt" "bar_fin (cs ! i)" "books_balance opt s" "dd_inv p0 s"
  shows "dd_inv p0 (bar_step opt rules cs ind i s)"
proof -
  let ?s1 = "fold (apply_rule opt (cs ! i)) (if i > 0 then evaluateConditions cs (i - 1) ind rules else []) s"
  obtain e where e: "mark_to_market (cs ! i) ?s1 = Fin e"
    using mark_fin [OF assms(3) books_balance_rules [OF assms(2-4)]] by (auto elim!: is_finE)
  have "dd_inv p0 ?s1" using assms(5) by (simp add: dd_inv_def)
  then obtain es where "bt_equity ?s1 = map Fin es" "bt_peak ?s1 = Fin (peak_of p0 es)" "bt_maxdd ?s1 = Fin (worst_drawdown p0 es)"
    unfolding dd_inv_def by blast
  from dd_inv_track [OF assms(1) this, of e]
  have *: "dd_inv p0 (track_drawdown (Fin e) (?s1\<lparr>bt_equity := bt_equity ?s1 @ [Fin e]\<rparr>))" .
  have "bar_step opt rules cs ind i s =
      track_return i (Fin e) (track_drawdown (Fin e) (?s1\<lparr>bt_equity := bt_equity ?s1 @ [Fin e]\<rparr>))"
    unfolding bar_step_def Let_def e track_commute ..
  moreover have "dd_inv p0 (track_return i x t) = dd_inv p0 t" for x t
    by (rule dd_inv_cong) (simp_all add: track_return_def)
  ultimately show ?thesis using * by simp
qed

lemma dd_inv_run:
  assumes "op_balance opt = Fin p0" "0 < p0" "options_ok opt" "\<forall>c \<in> set cs. bar_fin c" "k \<le> length cs"
  shows "dd_inv p0 (bt_run opt rules cs k)"
proof -
  have "books_balance opt (bt_run opt rules cs k) \<and> dd_inv p0 (bt_run opt rules cs k)"
    unfolding bt_run_def
  proof (rule for_loop_preserves)
    have "dd_inv p0 (bt_init opt)"
      using assms(1,2) by (simp add: dd_inv_def bt_init_def peak_of_def worst_drawdown_def drawdowns_def)
    then show "books_balance opt (bt_init opt) \<and> dd_inv p0 (bt_init opt)"
      using books_balance_run [OF assms(3,4), of 0 rules] by (simp add: bt_run_def)
  qed (use assms dd_inv_bar books_balance_bar in auto)
  then show ?thesis ..
qed

lemma flush_fields [simp]:
  "bt_equity (bt_flush opt cs s) = bt_equity s" "bt_peak (bt_flush opt cs s) = bt_peak s"
  "bt_maxdd (bt_flush opt cs s) = bt_maxdd s"
  by (simp_all add: bt_flush_def closePosition_def Let_def split: option.splits)

section \<open>Trades in time order\<close>

definition trade_times :: "bt_trade list \<Rightarrow> real list" where
  "trade_times ts = concat (map (\<lambda>t. [val (tr_entry_time t), val (tr_exit_time t)]) ts)"

definition timed :: "real \<Rightarrow> bt_state \<Rightarrow> bool" where
  "timed now s \<longleftrightarrow> sorted (trade_times (bt_trades s) @
     (case bt_pos s of None \<Rightarrow> [] | Some p \<Rightarrow> [val (po_time p)]) @ [now])"

lemma timed_close: "timed (val (oh_time c)) s \<Longrightarrow> bt_pos s = Some p \<Longrightarrow> timed (val (oh_time c)) (closePosition opt c reason p s)"
  by (simp add: timed_def closePosition_def Let_def trade_times_def sorted_append)

lemma timed_open: "timed (val (oh_time c)) s \<Longrightarrow> bt_pos s = None \<Longrightarrow> timed (val (oh_time c)) (open_position opt sd c s)"
  by (simp add: timed_def open_position_def Let_def trade_times_def sorted_append)

lemma timed_rule: "timed (val (oh_time c)) s \<Longrightarrow> timed (val (oh_time c)) (apply_rule opt c r s)"
  by (auto simp: apply_rule_def timed_open timed_close split: option.splits)

lemma timed_rules: "timed (val (oh_time c)) s \<Longrightarrow> timed (val (oh_time c)) (fold (apply_rule opt c) rs s)"
  by (induction rs arbitrary: s) (simp_all add: timed_rule)

lemma timed_later: "timed now s \<Longrightarrow> now \<le> later \<Longrightarrow> timed later s"
  by (auto simp: timed_def sorted_append)

lemma timed_bar: "timed (val (oh_time (cs ! i))) s \<Longrightarrow> timed (val (oh_time (cs ! i))) (bar_step opt rules cs ind i s)"
  using timed_rules by (simp add: bar_step_def Let_def timed_def)

lemma timed_run:
  assumes "sorted (map (\<lambda>c. val (oh_time c)) cs)" "0 < k" "k \<le> length cs"
  shows "timed (val (oh_time (cs ! (k - 1)))) (bt_run opt rules cs k)"
  using assms(2,3)
proof (induction k)
  case (Suc k)
  let ?T = "\<lambda>i. val (oh_time (cs ! i))"
  have step: "bt_run opt rules cs (Suc k) = bar_step opt rules cs (bt_precompute opt cs) k (bt_run opt rules cs k)"
    by (simp add: bt_run_def for_loop_Suc)
  have "timed (?T k) (bt_run opt rules cs k)"
  proof (cases k)
    case 0
    then show ?thesis by (simp add: bt_run_def bt_init_def timed_def trade_times_def)
  next
    case (Suc j)
    then have "?T j \<le> ?T k"
      using assms(1) Suc.prems sorted_nth_mono [OF assms(1), of j k] by simp
    then show ?thesis using Suc.IH Suc.prems Suc timed_later by simp
  qed
  then show ?case unfolding step by (simp add: timed_bar)
qed simp

section \<open>No lookahead\<close>

text \<open>Two arrays that agree on their first \<open>k\<close> entries; an indicator is causal when it keeps that.\<close>

definition agree :: "nat \<Rightarrow> jsnum list \<Rightarrow> jsnum list \<Rightarrow> bool" where
  "agree k xs ys \<longleftrightarrow> k \<le> length xs \<and> k \<le> length ys \<and> (\<forall>j < k. rd xs j = rd ys j)"

lemma agreeD: "agree k xs ys \<Longrightarrow> j < k \<Longrightarrow> rd xs j = rd ys j"
  by (simp add: agree_def del: rd_in)

lemma for_loop_rel:
  assumes "R s t" and "\<And>i s t. a \<le> i \<Longrightarrow> i < b \<Longrightarrow> R s t \<Longrightarrow> R (f i s) (g i t)"
  shows "R (for_loop a b f s) (for_loop a b g t)"
  using assms
proof (induction b)
  case (Suc b)
  then show ?case by (cases "a \<le> b") (simp_all add: for_loop_Suc)
qed simp

lemma for_loop_split: "a \<le> b \<Longrightarrow> b \<le> c \<Longrightarrow> for_loop a c f s = for_loop b c f (for_loop a b f s)"
  using upt_add_eq_append [of a b "c - b"] by (simp add: for_loop_def)

lemma ema_general:
  assumes "0 < p"
  shows "Suc j < p \<Longrightarrow> rd (calcEMA xs p) j = NaN"
    and "p \<le> length xs \<Longrightarrow> rd (calcEMA xs p) (p - 1) = for_loop 0 p (\<lambda>i s. s + rd xs i) 0 / jnat p"
    and "p \<le> j \<Longrightarrow> j < length xs \<Longrightarrow> rd (calcEMA xs p) j =
      rd xs j * (2 / (jnat p + 1)) + rd (calcEMA xs p) (j - 1) * (1 - 2 / (jnat p + 1))"
proof -
  let ?k = "2 / (jnat p + 1)"
  let ?init = "(nans (length xs))[p - 1 := for_loop 0 p (\<lambda>i s. s + rd xs i) 0 / jnat p]"
  have e: "calcEMA xs p = for_loop p (length xs) (\<lambda>i ys. ys[i := rd xs i * ?k + rd ys (i - 1) * (1 - ?k)]) ?init"
    if "p \<le> length xs" using that by (simp only: calcEMA_def Let_def not_less [symmetric] if_False)
  note R = for_loop_recurrence [where F = "\<lambda>i v. rd xs i * ?k + v * (1 - ?k)" and a = p and n = "length xs" and xs = ?init, OF assms]
  show "Suc j < p \<Longrightarrow> rd (calcEMA xs p) j = NaN"
  proof (cases "p \<le> length xs")
    case True
    assume j: "Suc j < p"
    then have "p - 1 \<noteq> j" by simp
    with j show ?thesis unfolding e [OF True] using R(2) [of j] by (simp add: rd_update del: rd_in)
  qed (simp add: calcEMA_short)
  show "p \<le> length xs \<Longrightarrow> rd (calcEMA xs p) (p - 1) = for_loop 0 p (\<lambda>i s. s + rd xs i) 0 / jnat p"
    using R(2) [of "p - 1"] assms e by (simp add: rd_update del: rd_in)
  show "p \<le> j \<Longrightarrow> j < length xs \<Longrightarrow> rd (calcEMA xs p) j = rd xs j * ?k + rd (calcEMA xs p) (j - 1) * (1 - ?k)"
    using R(3) [of j] e by (simp del: rd_in)
qed

lemma length_calcEMA [simp]: "0 < p \<Longrightarrow> length (calcEMA xs p) = length xs"
proof (cases "p \<le> length xs")
  case True
  assume "0 < p"
  with True show ?thesis
    unfolding calcEMA_def Let_def
    by (simp only: not_less [symmetric] if_False)
      (rule for_loop_preserves [where P = "\<lambda>t. length t = length xs"], simp_all)
qed (simp add: calcEMA_short)

lemma ema_agree:
  assumes a: "agree k xs ys" and p: "0 < p"
  shows "agree k (calcEMA xs p) (calcEMA ys p)"
proof -
  have "rd (calcEMA xs p) j = rd (calcEMA ys p) j" if "j < k" for j
  proof (cases "Suc j < p")
    case True
    then show ?thesis by (simp add: ema_general(1) [OF p] del: rd_in)
  next
    case False
    then have "p - 1 \<le> j" by simp
    then show ?thesis using that
    proof (induction j rule: nat_induct_at_least)
      case base
      then have "p \<le> length xs" "p \<le> length ys" "p \<le> k" using a p by (auto simp: agree_def)
      moreover have "for_loop 0 p (\<lambda>i s. s + rd xs i) 0 = for_loop 0 p (\<lambda>i s. s + rd ys i) (0::jsnum)"
        by (rule for_loop_cong) (use agreeD [OF a] \<open>p \<le> k\<close> in \<open>simp del: rd_in\<close>)
      ultimately show ?case by (simp only: ema_general(2) [OF p])
    next
      case (Suc j)
      have "p \<le> Suc j" "Suc j < length xs" "Suc j < length ys" using Suc p a by (auto simp: agree_def)
      then show ?case
        using Suc ema_general(3) [OF p] agreeD [OF a, of "Suc j"] by (simp del: rd_in)
    qed
  qed
  then show ?thesis using a p by (auto simp: agree_def)
qed

lemma avgVolume_agree:
  assumes "agree k xs ys"
  shows "agree k (avgVolume xs p) (avgVolume ys p)"
proof -
  let ?v = "\<lambda>xs i. for_loop (i + 1 - p) (i + 1) (\<lambda>j s. s + rd xs j) 0 / jnat (i - (i + 1 - p) + 1)"
  have *: "avgVolume xs p = for_loop 0 (length xs) (\<lambda>i r. r[i := ?v xs i]) (replicate (length xs) 0)" for xs
    by (simp only: avgVolume_def Let_def)
  have "?v xs j = ?v ys j" if "j < k" for j
  proof -
    have "for_loop (j + 1 - p) (j + 1) (\<lambda>j s. s + rd xs j) 0 = for_loop (j + 1 - p) (j + 1) (\<lambda>j s. s + rd ys j) (0::jsnum)"
      by (rule for_loop_cong) (use agreeD [OF assms] that in \<open>simp del: rd_in\<close>)
    then show ?thesis by simp
  qed
  then show ?thesis
    using assms unfolding agree_def * by (simp add: for_loop_fill del: rd_in)
qed

lemma rsi_step_other: "length (fst t) = n \<Longrightarrow> length (fst (rsi_step xs p i t)) = n"
    "j \<noteq> i \<Longrightarrow> rd (fst (rsi_step xs p i t)) j = rd (fst t) j"
  by (cases t; simp add: Let_def rd_update del: rd_in)+

lemma rsi_loop_before:
  "j < a \<Longrightarrow> rd (fst (for_loop a b (rsi_step xs p) s)) j = rd (fst s) j"
  by (rule for_loop_preserves [where P = "\<lambda>t. rd (fst t) j = rd (fst s) j"]) (simp_all add: rsi_step_other del: rd_in)

lemma rsi_loop_length: "length (fst (for_loop a b (rsi_step xs p) s)) = length (fst s)"
  by (rule for_loop_preserves [where P = "\<lambda>t. length (fst t) = length (fst s)"]) (simp_all add: rsi_step_other)

definition rsi_start :: "jsnum list \<Rightarrow> nat \<Rightarrow> jsnum list \<times> jsnum \<times> jsnum" where
  "rsi_start xs p = (case for_loop 1 (p + 1) (rsi_seed xs) (0, 0) of (g, l) \<Rightarrow>
     ((nans (length xs))[p := strength_index (g / jnat p) (l / jnat p)], g / jnat p, l / jnat p))"

lemma calcRSI_start:
  "p < length xs \<Longrightarrow> calcRSI xs p = fst (for_loop (p + 1) (length xs) (rsi_step xs p) (rsi_start xs p))"
  by (simp add: calcRSI_def rsi_start_def Let_def split: prod.splits)

lemma length_rsi_start [simp]: "length (fst (rsi_start xs p)) = length xs"
  by (simp add: rsi_start_def split: prod.splits)

lemma calcRSI_before: "j < p \<Longrightarrow> rd (calcRSI xs p) j = NaN"
proof (cases "p < length xs")
  case True
  assume "j < p"
  then show ?thesis
    by (simp add: calcRSI_start [OF True] rsi_loop_before del: rd_in)
      (simp add: rsi_start_def rd_update split: prod.splits del: rd_in)
qed (simp add: calcRSI_def)

lemma length_calcRSI [simp]: "length (calcRSI xs p) = length xs"
  by (cases "p < length xs") (simp_all add: calcRSI_start rsi_loop_length, simp add: calcRSI_def)

lemma rsi_agree:
  assumes a: "agree k xs ys"
  shows "agree k (calcRSI xs p) (calcRSI ys p)"
proof -
  have "rd (calcRSI xs p) j = rd (calcRSI ys p) j" if j: "j < k" for j
  proof (cases "p < k")
    case False
    then show ?thesis using j by (simp add: calcRSI_before del: rd_in)
  next
    case True
    then have len: "p < length xs" "p < length ys" "k \<le> length xs" "k \<le> length ys" using a by (auto simp: agree_def)
    let ?R = "\<lambda>s t :: jsnum list \<times> jsnum \<times> jsnum. snd s = snd t \<and> length (fst s) = length xs \<and> length (fst t) = length ys \<and>
        (\<forall>j < k. rd (fst s) j = rd (fst t) j)"
    have seed: "for_loop 1 (p + 1) (rsi_seed xs) (0, 0) = for_loop 1 (p + 1) (rsi_seed ys) (0, 0)"
    proof (rule for_loop_cong)
      fix i and s :: "jsnum \<times> jsnum"
      assume "1 \<le> i" "i < p + 1"
      then show "rsi_seed xs i s = rsi_seed ys i s"
        using agreeD [OF a, of i] agreeD [OF a, of "i - 1"] True by (cases s) (simp add: Let_def del: rd_in)
    qed
    have "?R (for_loop (p + 1) k (rsi_step xs p) (rsi_start xs p)) (for_loop (p + 1) k (rsi_step ys p) (rsi_start ys p))"
    proof (rule for_loop_rel [where R = ?R])
      show "?R (rsi_start xs p) (rsi_start ys p)"
        using len unfolding rsi_start_def seed by (auto simp: rd_update simp del: rd_in split: prod.splits)
      fix i and s t :: "jsnum list \<times> jsnum \<times> jsnum"
      assume i: "p + 1 \<le> i" "i < k" and R: "?R s t"
      obtain u g l where s: "s = (u, g, l)" by (cases s)
      obtain v where t: "t = (v, g, l)" using R s by (cases t) auto
      show "?R (rsi_step xs p i s) (rsi_step ys p i t)"
        using R i len agreeD [OF a, of i] agreeD [OF a, of "i - 1"] unfolding s t
        by (simp add: Let_def rd_update del: rd_in)
    qed
    then have "rd (fst (for_loop (p + 1) k (rsi_step xs p) (rsi_start xs p))) j =
        rd (fst (for_loop (p + 1) k (rsi_step ys p) (rsi_start ys p))) j" using j by blast
    moreover have "for_loop (p + 1) (length zs) (rsi_step zs p) s =
        for_loop k (length zs) (rsi_step zs p) (for_loop (p + 1) k (rsi_step zs p) s)" if "k \<le> length zs" for zs s
      using True that by (intro for_loop_split) auto
    ultimately show ?thesis using len j
      by (simp add: calcRSI_start rsi_loop_before del: rd_in)
  qed
  then show ?thesis using a by (simp add: agree_def del: rd_in)
qed

definition ind_agree :: "nat \<Rightarrow> bt_indicators \<Rightarrow> bt_indicators \<Rightarrow> bool" where
  "ind_agree k a b \<longleftrightarrow> agree k (bi_fast a) (bi_fast b) \<and> agree k (bi_slow a) (bi_slow b) \<and>
     agree k (bi_rsi a) (bi_rsi b) \<and> agree k (bi_vol a) (bi_vol b)"

lemma precompute_agree:
  assumes "take k cs = take k cs'" "k \<le> length cs" "k \<le> length cs'" "0 < op_ema_fast opt" "0 < op_ema_slow opt"
  shows "ind_agree k (bt_precompute opt cs) (bt_precompute opt cs')"
proof -
  have nth: "cs ! j = cs' ! j" if "j < k" for j using assms(1) that by (metis nth_take)
  have "agree k (map f cs) (map f cs')" for f :: "ohlc \<Rightarrow> jsnum"
    using assms(2,3) nth by (simp add: agree_def)
  then show ?thesis
    using assms(4,5) by (simp add: ind_agree_def bt_precompute_def Let_def ema_agree rsi_agree avgVolume_agree)
qed

lemma matches_agree:
  assumes t: "take k cs = take k cs'" "k \<le> length cs" "k \<le> length cs'" and i: "i < k" and ind: "ind_agree k ia ib"
  shows "rule_matches cs i ia r = rule_matches cs' i ib r"
proof -
  have nth: "cs ! j = cs' ! j" if "j < k" for j using t(1) that by (metis nth_take)
  have closes: "rd (map oh_close cs) (i - 5) = rd (map oh_close cs') (i - 5)"
  proof -
    have "i - 5 < k" "i - 5 < length cs" "i - 5 < length cs'" using t i by auto
    then show ?thesis using nth [of "i - 5"] by simp
  qed
  have "rd (bi_fast ia) j = rd (bi_fast ib) j" "rd (bi_slow ia) j = rd (bi_slow ib) j"
    "rd (bi_rsi ia) j = rd (bi_rsi ib) j" "rd (bi_vol ia) j = rd (bi_vol ib) j" if "j < k" for j
    using ind that by (auto simp: ind_agree_def dest: agreeD)
  note eqs = this [OF i] this [of "i - 1"]
  have "i - 1 < k" using i by simp
  note eqs = eqs(1-4) eqs(5-8) [OF this]
  show ?thesis unfolding rule_matches_def Let_def eqs closes nth [OF i] by (rule refl)
qed

lemma bar_agree:
  assumes "take k cs = take k cs'" "k \<le> length cs" "k \<le> length cs'" "i < k" "ind_agree k ia ib"
  shows "bar_step opt rules cs ia i s = bar_step opt rules cs' ib i s"
proof -
  have nth: "cs ! i = cs' ! i" using assms(1,4) by (metis nth_take)
  have "evaluateConditions cs (i - 1) ia rules = evaluateConditions cs' (i - 1) ib rules"
    unfolding evaluateConditions_def
    by (rule filter_cong) (use assms matches_agree [OF assms(1-3) _ assms(5), of "i - 1"] in auto)
  then show ?thesis unfolding bar_step_def Let_def nth by simp
qed

lemma bt_run_prefix:
  assumes "take k cs = take k cs'" "k \<le> length cs" "k \<le> length cs'" "0 < op_ema_fast opt" "0 < op_ema_slow opt"
  shows "bt_run opt rules cs k = bt_run opt rules cs' k"
  unfolding bt_run_def
  by (rule for_loop_cong) (use bar_agree [OF assms(1-3) _ precompute_agree [OF assms]] in auto)

text \<open>Later bars only extend the equity curve and the trade list.\<close>

lemma bar_extends:
  "\<exists>e ts. bt_equity (bar_step opt rules cs ind i s) = bt_equity s @ [e] \<and>
     bt_trades (bar_step opt rules cs ind i s) = bt_trades s @ ts"
proof -
  have rule: "\<exists>ts. bt_trades (apply_rule opt c r s) = bt_trades s @ ts" for c r s
    by (auto simp: apply_rule_def closePosition_def open_position_def Let_def split: option.splits)
  have "\<exists>ts. bt_trades (fold (apply_rule opt c) rs s) = bt_trades s @ ts" for c rs
  proof (induction rs arbitrary: s)
    case (Cons r rs)
    then show ?case using rule [of c r s] by (metis append.assoc fold_simps(2))
  qed simp
  then show ?thesis by (simp add: bar_step_def Let_def)
qed

lemma run_extends:
  assumes "k \<le> n"
  shows "\<exists>es ts. bt_equity (bt_run opt rules cs n) = bt_equity (bt_run opt rules cs k) @ es \<and>
     bt_trades (bt_run opt rules cs n) = bt_trades (bt_run opt rules cs k) @ ts \<and> length es = n - k"
  using assms
proof (induction n rule: nat_induct_at_least)
  case (Suc n)
  have "bt_run opt rules cs (Suc n) = bar_step opt rules cs (bt_precompute opt cs) n (bt_run opt rules cs n)"
    by (simp add: bt_run_def for_loop_Suc)
  then show ?case
    using Suc bar_extends [of opt rules cs "bt_precompute opt cs" n "bt_run opt rules cs n"]
    by (force simp: Suc_diff_le)
qed auto

lemma run_equity_length: "length (bt_equity (bt_run opt rules cs k)) = k"
  using run_extends [of 0 k opt rules cs] by (auto simp: bt_run_def bt_init_def)

section \<open>Properties\<close>

text \<open>Thirty flat bars, for the examples.\<close>

definition flat_bars :: "ohlc list" where
  "flat_bars = map (\<lambda>i. \<lparr>oh_open = 100, oh_close = 100, oh_high = 100, oh_low = 100, oh_volume = 1,
     oh_time = jnat i\<rparr>) [0..<30]"

lemma flat_bars_simps [simp]: "length flat_bars = 30" "\<forall>c \<in> set flat_bars. bar_fin c"
  by (auto simp: flat_bars_def bar_fin_def)

lemma flat_bars_sorted: "sorted (map (\<lambda>c. val (oh_time c)) flat_bars)"
  by (simp add: flat_bars_def comp_def sorted_iff_nth_mono)

lemma default_options_ok: "options_ok default_options"
  by (simp add: options_ok_def default_options_def) (rule exI [of _ "1 / 20"], simp)

lemma runBacktest_long:
  "30 \<le> length cs \<Longrightarrow> runBacktest cs rules opt =
     bt_metrics opt cs (bt_flush opt cs (bt_run opt rules cs (length cs)))"
  by (simp add: runBacktest_def)

lemma metrics_fields [simp]:
  "br_final (bt_metrics opt cs s) = bt_balance s" "br_trades (bt_metrics opt cs s) = bt_trades s"
  "br_equity (bt_metrics opt cs s) = bt_equity s" "br_maxdd_pct (bt_metrics opt cs s) = bt_maxdd s * 100"
  "br_total (bt_metrics opt cs s) = length (bt_trades s)"
  by (simp_all add: bt_metrics_def Let_def)

text \<open>
  C3: The backtester's books balance: over any finite candles and any rules the final balance is the
  initial balance plus the recorded result of every trade minus the entry fee of every trade, and
  nothing else; an open position is closed at the end, so no fee is left unmatched.
\<close>
theorem backtest_books_balance:
  assumes "options_ok opt" "\<forall>c \<in> set cs. bar_fin c" "30 \<le> length cs"
  shows "let r = runBacktest cs rules opt
    in (\<forall>t \<in> set (br_trades r). trade_fin t) \<and>
       br_final r = Fin (val (op_balance opt) + (\<Sum>t \<leftarrow> br_trades r. val (tr_pnl t)) -
         (\<Sum>t \<leftarrow> br_trades r. val (tr_qty t) * val (tr_entry t) * val (op_fee_pct opt) / 100))"
proof -
  have "books_balance opt (bt_flush opt cs (bt_run opt rules cs (length cs)))"
    by (rule books_balance_flush) (use assms books_balance_run in auto)
  then show ?thesis
    unfolding Let_def runBacktest_long [OF assms(3)]
    by (simp add: books_balance_def trades_pnl_def trades_fees_def open_fee_def)
qed

theorem backtest_books_balance_witness:
  "is_fin (br_final (runBacktest flat_bars [\<lparr>ru_condition = ''price_above'', ru_value = 50, ru_action = ''buy''\<rparr>] default_options))"
  using backtest_books_balance [OF default_options_ok, of flat_bars "[\<lparr>ru_condition = ''price_above'', ru_value = 50, ru_action = ''buy''\<rparr>]"]
  by (simp add: Let_def)

text \<open>
  C4: No lookahead: two candle histories that agree on their first \<open>k\<close> bars produce the same equity
  curve up to bar \<open>k\<close> and the same state (balance, position, trades) after it, although all
  indicators are computed over the whole history first.
\<close>
theorem backtest_no_lookahead:
  assumes "take k cs = take k cs'" "k \<le> length cs" "k \<le> length cs'" "30 \<le> length cs" "30 \<le> length cs'"
    "0 < op_ema_fast opt" "0 < op_ema_slow opt"
  shows "bt_run opt rules cs k = bt_run opt rules cs' k \<and>
    take k (br_equity (runBacktest cs rules opt)) = take k (br_equity (runBacktest cs' rules opt))"
proof -
  have "take k (bt_equity (bt_run opt rules ds (length ds))) = bt_equity (bt_run opt rules ds k)" if "k \<le> length ds" for ds
    using run_extends [OF that, of opt rules ds] run_equity_length [of opt rules ds k] by auto
  then show ?thesis
    using bt_run_prefix [OF assms(1-3,6,7), of rules] assms(2-5) by (simp add: runBacktest_long)
qed

theorem backtest_no_lookahead_witness:
  "bt_run default_options [] flat_bars 30 = bt_run default_options [] (flat_bars @ flat_bars) 30"
  using backtest_no_lookahead [of 30 flat_bars "flat_bars @ flat_bars" default_options "[]"]
  by (simp add: default_options_def)

text \<open>
  C14: The reported maximum drawdown is the drawdown of the reported equity curve: 100 times the
  largest relative distance of an equity value below the highest equity seen so far (or the initial
  balance), and the curve has one entry per bar.
\<close>
theorem backtest_max_drawdown:
  assumes "options_ok opt" "op_balance opt = Fin p0" "0 < p0" "\<forall>c \<in> set cs. bar_fin c" "30 \<le> length cs"
  shows "\<exists>es. br_equity (runBacktest cs rules opt) = map Fin es \<and> length es = length cs \<and>
    br_maxdd_pct (runBacktest cs rules opt) =
      Fin (100 * Max (insert 0 ((\<lambda>i. (running_peak p0 es i - es ! i) / running_peak p0 es i) ` {..<length es})))"
proof -
  obtain es where es: "bt_equity (bt_run opt rules cs (length cs)) = map Fin es"
      "bt_maxdd (bt_run opt rules cs (length cs)) = Fin (worst_drawdown p0 es)"
    using dd_inv_run [OF assms(2,3,1,4), of "length cs" rules] by (auto simp: dd_inv_def)
  moreover have "length es = length cs" using run_equity_length [of opt rules cs "length cs"] es(1) by simp
  ultimately show ?thesis
    unfolding runBacktest_long [OF assms(5)]
    by (intro exI [of _ es]) (simp add: worst_drawdown_def drawdowns_def)
qed

theorem backtest_max_drawdown_witness:
  "\<exists>es. br_equity (runBacktest flat_bars [] default_options) = map Fin es \<and> length es = 30"
  using backtest_max_drawdown [OF default_options_ok, of 10000 flat_bars "[]"]
  by (auto simp: default_options_def)

text \<open>
  Trades never overlap: on candles in time order the entry and exit times of the trades, listed
  trade by trade, are in order, so every trade ends after it began and before the next one starts.
\<close>
theorem backtest_trades_in_order:
  assumes "sorted (map (\<lambda>c. val (oh_time c)) cs)" "30 \<le> length cs"
  shows "sorted (concat (map (\<lambda>t. [val (tr_entry_time t), val (tr_exit_time t)]) (br_trades (runBacktest cs rules opt))))"
proof -
  have "timed (val (oh_time (cs ! (length cs - 1)))) (bt_run opt rules cs (length cs))"
    by (rule timed_run [OF assms(1)]) (use assms(2) in auto)
  then have "timed (val (oh_time (cs ! (length cs - 1)))) (bt_flush opt cs (bt_run opt rules cs (length cs)))"
    by (auto simp: bt_flush_def timed_close split: option.splits)
  then show ?thesis
    unfolding runBacktest_long [OF assms(2)] by (simp add: timed_def trade_times_def sorted_append)
qed

theorem backtest_trades_in_order_witness:
  "sorted (concat (map (\<lambda>t. [val (tr_entry_time t), val (tr_exit_time t)]) (br_trades (runBacktest flat_bars [] default_options))))"
  by (rule backtest_trades_in_order [OF flat_bars_sorted]) simp

end
