(* ===== verification/WebSocketClient.thy ===== *)
theory WebSocketClient
  imports Interfaces
begin

text \<open>
  The reconnecting socket of \<open>web-ui/src/hooks/useWebSocket.ts\<close>. The refs and the React state of the
  hook are the record \<open>ws_client\<close>; a socket is a number with a ready state, and the sockets created
  so far stay in \<open>wc_ready\<close>, because the browser delivers the close event of an old socket later.
  Running timeouts and intervals are kept apart from the refs that name them, so a timer whose ref
  was overwritten keeps running, as in the browser. \<open>wc_sent\<close> logs what was written to which
  socket. The options of the hook change from render to render, and a socket or a timer keeps those
  its callback has closed over: \<open>ws_hook\<close> adds the closures to the refs and the state. The server, the
  browser and the renders are the events of \<open>ws_event\<close>.
\<close>

section \<open>State\<close>

datatype ready = Connecting | Opened | Closing | Closed

datatype ws_frame = FAuth string | FSyncState int | FSubscribe | FPing | FData json

record ws_message =
  wm_type :: string
  wm_timestamp :: int
  wm_received_at :: int
  wm_time :: int
  wm_body :: json

datatype ws_error = ErrMaxReached nat | ErrSocket nat | ErrCreate string

record ws_config =
  cf_auto_connect :: bool
  cf_auth_token :: "string option"
  cf_sync_on_reconnect :: bool
  cf_max_reconnects :: nat

definition default_config :: ws_config where
  "default_config = \<lparr>cf_auto_connect = True, cf_auth_token = None, cf_sync_on_reconnect = False,
     cf_max_reconnects = 20\<rparr>"

record ws_client =
  wc_ws :: "nat option"
  wc_ready :: "(nat, ready) jsmap"
  wc_retry_timer :: "nat option"
  wc_timeouts :: "(nat \<times> int) list"
  wc_ping_timer :: "nat option"
  wc_countdown :: "nat option"
  wc_intervals :: "nat list"
  wc_next_id :: nat
  wc_last_ping :: int
  wc_attempts :: nat
  wc_backoff :: int
  wc_last_ts :: int
  wc_manual :: bool
  wc_is_retry :: bool
  wc_queue :: "json list"
  wc_connected :: bool
  wc_error :: "ws_error option"
  wc_latency :: "int option"
  wc_reconnects :: nat
  wc_next_in :: "int option"
  wc_sent :: "(nat \<times> ws_frame) list"
  wc_delivered :: "ws_message list"

definition init_client :: ws_client where
  "init_client = \<lparr>wc_ws = None, wc_ready = [], wc_retry_timer = None, wc_timeouts = [],
     wc_ping_timer = None, wc_countdown = None, wc_intervals = [], wc_next_id = 0, wc_last_ping = 0,
     wc_attempts = 0, wc_backoff = 1000, wc_last_ts = 0, wc_manual = False, wc_is_retry = False,
     wc_queue = [], wc_connected = False, wc_error = None, wc_latency = None, wc_reconnects = 0,
     wc_next_in = None, wc_sent = [], wc_delivered = []\<rparr>"

section \<open>Timers\<close>

definition clear_interval :: "nat option \<Rightarrow> ws_client \<Rightarrow> ws_client" where
  "clear_interval t s = (case t of None \<Rightarrow> s
     | Some i \<Rightarrow> s\<lparr>wc_intervals := filter (\<lambda>x. x \<noteq> i) (wc_intervals s)\<rparr>)"

definition clear_timeout :: "nat option \<Rightarrow> ws_client \<Rightarrow> ws_client" where
  "clear_timeout t s = (case t of None \<Rightarrow> s
     | Some i \<Rightarrow> s\<lparr>wc_timeouts := filter (\<lambda>x. fst x \<noteq> i) (wc_timeouts s)\<rparr>)"

definition is_open :: "ws_client \<Rightarrow> nat option \<Rightarrow> bool" where
  "is_open s w = (case w of None \<Rightarrow> False | Some i \<Rightarrow> map_get (wc_ready s) i = Some Opened)"

section \<open>Reconnecting\<close>

definition scheduleRetry :: "ws_config \<Rightarrow> ws_client \<Rightarrow> ws_client" where
  "scheduleRetry cfg s0 =
     (let s1 = s0\<lparr>wc_attempts := wc_attempts s0 + 1\<rparr>
      in if \<not> cf_auto_connect cfg \<or> wc_attempts s1 \<ge> cf_max_reconnects cfg
         then s1\<lparr>wc_error := Some (ErrMaxReached (cf_max_reconnects cfg)), wc_next_in := None\<rparr>
         else let delay = wc_backoff s1;
                  s2 = s1\<lparr>wc_backoff := min (wc_backoff s1 * 2) 30000,
                          wc_next_in := Some ((delay + 999) div 1000)\<rparr>;
                  s3 = clear_interval (wc_countdown s2) s2;
                  c = wc_next_id s3
              in s3\<lparr>wc_countdown := Some c, wc_intervals := wc_intervals s3 @ [c],
                    wc_retry_timer := Some (Suc c), wc_timeouts := wc_timeouts s3 @ [(Suc c, delay)],
                    wc_next_id := Suc (Suc c)\<rparr>)"

text \<open>\<open>created\<close> is \<open>None\<close> where \<open>new WebSocket(url)\<close> returns and the message where it throws.\<close>

definition connect_socket :: "ws_config \<Rightarrow> string option \<Rightarrow> ws_client \<Rightarrow> ws_client" where
  "connect_socket cfg created s0 =
     (if is_open s0 (wc_ws s0) then s0
      else let s1 = (clear_timeout (wc_retry_timer s0) s0)\<lparr>wc_retry_timer := None\<rparr>;
               s2 = (if wc_is_retry s1 then s1\<lparr>wc_is_retry := False\<rparr> else s1\<lparr>wc_attempts := 0\<rparr>);
               s3 = s2\<lparr>wc_manual := False\<rparr>
           in case created of
                Some msg \<Rightarrow> scheduleRetry cfg (s3\<lparr>wc_error := Some (ErrCreate msg)\<rparr>)
              | None \<Rightarrow>
                  let i = wc_next_id s3
                  in s3\<lparr>wc_ws := Some i, wc_ready := map_set i Connecting (wc_ready s3), wc_next_id := Suc i\<rparr>)"

definition retry_fires :: "ws_config \<Rightarrow> string option \<Rightarrow> nat \<Rightarrow> ws_client \<Rightarrow> ws_client" where
  "retry_fires cfg created t s0 =
     (let s1 = (clear_timeout (Some t) s0)\<lparr>wc_retry_timer := None\<rparr>;
          s2 = clear_interval (wc_countdown s1) s1
      in connect_socket cfg created (s2\<lparr>wc_next_in := None, wc_is_retry := True\<rparr>))"

definition countdown_tick :: "ws_client \<Rightarrow> ws_client" where
  "countdown_tick s = s\<lparr>wc_next_in :=
     (case wc_next_in s of None \<Rightarrow> None | Some p \<Rightarrow> if p > 1 then Some (p - 1) else None)\<rparr>"

section \<open>Socket callbacks\<close>

definition write_frame :: "nat \<Rightarrow> ws_frame \<Rightarrow> ws_client \<Rightarrow> ws_client" where
  "write_frame i f s = s\<lparr>wc_sent := wc_sent s @ [(i, f)]\<rparr>"

definition last_known :: "int option \<Rightarrow> ws_client \<Rightarrow> int" where
  \<comment> \<open>\<open>getLastTimestamp?.() || lastTimestampRef.current || 0\<close>\<close>
  "last_known lt s = (case lt of None \<Rightarrow> wc_last_ts s | Some t \<Rightarrow> if t \<noteq> 0 then t else wc_last_ts s)"

definition flush_queue :: "nat \<Rightarrow> ws_client \<Rightarrow> ws_client" where
  "flush_queue i s =
     (if length (wc_queue s) > 0
      then fold (\<lambda>m t. write_frame i (FData m) t) (wc_queue s) (s\<lparr>wc_queue := []\<rparr>) else s)"

definition on_open :: "ws_config \<Rightarrow> int option \<Rightarrow> nat \<Rightarrow> ws_client \<Rightarrow> ws_client" where
  "on_open cfg lt i s0 =
     (let s0 = s0\<lparr>wc_ready := map_set i Opened (wc_ready s0)\<rparr>;
          wasReconnect = (wc_attempts s0 > 0);
          s1 = s0\<lparr>wc_connected := True, wc_error := None, wc_next_in := None\<rparr>;
          s2 = (case wc_countdown s1 of None \<Rightarrow> s1
                | Some c \<Rightarrow> (clear_interval (Some c) s1)\<lparr>wc_countdown := None\<rparr>);
          s3 = s2\<lparr>wc_backoff := 1000, wc_attempts := 0,
                  wc_reconnects := (if wasReconnect then wc_reconnects s2 + 1 else wc_reconnects s2)\<rparr>;
          s4 = (case cf_auth_token cfg of None \<Rightarrow> s3
                | Some tok \<Rightarrow> if tok \<noteq> [] then write_frame i (FAuth tok) s3 else s3);
          s5 = (if cf_sync_on_reconnect cfg \<and> wasReconnect then write_frame i (FSyncState (last_known lt s4)) s4
                else write_frame i FSubscribe s4);
          s6 = flush_queue i s5
      in s6\<lparr>wc_ping_timer := Some (wc_next_id s6), wc_intervals := wc_intervals s6 @ [wc_next_id s6],
            wc_next_id := Suc (wc_next_id s6)\<rparr>)"

definition on_message :: "int \<Rightarrow> ws_message option \<Rightarrow> ws_client \<Rightarrow> ws_client" where
  \<comment> \<open>\<open>None\<close>: the frame does not parse\<close>
  "on_message now d s =
     (case d of None \<Rightarrow> s
      | Some m \<Rightarrow>
          let s1 = (if wm_type m = ''pong'' \<and> wc_last_ping s > 0
                    then s\<lparr>wc_latency := Some (now - wc_last_ping s), wc_last_ping := 0\<rparr> else s);
              ts = (if wm_timestamp m \<noteq> 0 then wm_timestamp m
                    else if wm_received_at m \<noteq> 0 then wm_received_at m else wm_time m);
              s2 = (if ts > wc_last_ts s1 then s1\<lparr>wc_last_ts := ts\<rparr> else s1)
          in s2\<lparr>wc_delivered := wc_delivered s2 @ [m]\<rparr>)"

definition on_error :: "ws_client \<Rightarrow> ws_client" where
  "on_error s = s\<lparr>wc_error := Some (ErrSocket (wc_attempts s))\<rparr>"

definition on_close :: "ws_config \<Rightarrow> nat \<Rightarrow> ws_client \<Rightarrow> ws_client" where
  "on_close cfg i s0 =
     (let s1 = s0\<lparr>wc_ready := map_set i Closed (wc_ready s0), wc_connected := False, wc_latency := None\<rparr>;
          s2 = clear_interval (wc_ping_timer s1) s1
      in if \<not> wc_manual s2 then scheduleRetry cfg s2 else s2)"

definition ping_tick :: "int \<Rightarrow> ws_client \<Rightarrow> ws_client" where
  "ping_tick now s =
     (case wc_ws s of None \<Rightarrow> s
      | Some i \<Rightarrow> if is_open s (Some i) then write_frame i FPing (s\<lparr>wc_last_ping := now\<rparr>) else s)"

section \<open>Operations of the hook\<close>

text \<open>\<open>close()\<close> on a socket that is closed already does nothing.\<close>

definition close_socket :: "nat option \<Rightarrow> ws_client \<Rightarrow> ws_client" where
  "close_socket w s = (case w of None \<Rightarrow> s
     | Some i \<Rightarrow> if map_get (wc_ready s) i = Some Closed then s
                else s\<lparr>wc_ready := map_set i Closing (wc_ready s)\<rparr>)"

definition disconnect :: "ws_client \<Rightarrow> ws_client" where
  "disconnect s0 =
     (let s1 = (clear_timeout (wc_retry_timer s0) s0)\<lparr>wc_retry_timer := None\<rparr>;
          s2 = clear_interval (wc_ping_timer s1) s1;
          s3 = clear_interval (wc_countdown s2) s2;
          s4 = s3\<lparr>wc_next_in := None, wc_queue := [], wc_manual := True\<rparr>;
          s5 = close_socket (wc_ws s4) s4
      in s5\<lparr>wc_ws := None, wc_connected := False, wc_latency := None\<rparr>)"

definition queue_cap :: nat where
  "queue_cap = 100"

definition send_message :: "json \<Rightarrow> ws_client \<Rightarrow> bool \<times> ws_client" where
  "send_message d s =
     (case wc_ws s of
        Some i \<Rightarrow> if is_open s (Some i) then (True, write_frame i (FData d) s)
                 else (False, if length (wc_queue s) < queue_cap then s\<lparr>wc_queue := wc_queue s @ [d]\<rparr> else s)
      | None \<Rightarrow> (False, if length (wc_queue s) < queue_cap then s\<lparr>wc_queue := wc_queue s @ [d]\<rparr> else s))"

text \<open>
  What a \<open>connect\<close> has closed over: the options of the render that made it, and its \<open>scheduleRetry\<close>, which was made by the last
  render that changed \<open>autoConnect\<close> and holds that render's options and \<open>connect\<close>. An operation that schedules retries is given the
  latter options; \<open>maxReconnectsRef\<close> keeps its first value, so every closure counts with that one.
\<close>

record ws_closure =
  wl_config :: ws_config
  wl_retry :: ws_config

text \<open>The effect's body and its cleanup on unmount or when \<open>connect\<close> changes.\<close>

definition mount :: "ws_closure \<Rightarrow> string option \<Rightarrow> ws_client \<Rightarrow> ws_client" where
  "mount cl created s = (if cf_auto_connect (wl_config cl) then connect_socket (wl_retry cl) created s else s)"

definition unmount :: "ws_client \<Rightarrow> ws_client" where
  "unmount s0 =
     (let s1 = s0\<lparr>wc_manual := True\<rparr>;
          s2 = clear_timeout (wc_retry_timer s1) s1;
          s3 = clear_interval (wc_ping_timer s2) s2;
          s4 = clear_interval (wc_countdown s3) s3
      in close_socket (wc_ws s4) s4)"

section \<open>Renders\<close>

text \<open>
  The hook: \<open>wh_max\<close> is \<open>maxReconnectsRef\<close>, \<open>wh_options\<close> and \<open>wh_closure\<close> the options and the \<open>connect\<close> of the last render, \<open>wh_made\<close>
  the closure that made each socket and timer, \<open>wh_rendered\<close> the options of all renders.
\<close>

record ws_hook =
  wh_client :: ws_client
  wh_max :: nat
  wh_options :: ws_config
  wh_closure :: ws_closure
  wh_made :: "(nat, ws_closure) jsmap"
  wh_rendered :: "ws_config list"

definition init_hook :: "ws_config \<Rightarrow> ws_hook" where
  "init_hook cfg = \<lparr>wh_client = init_client, wh_max = cf_max_reconnects cfg, wh_options = cfg,
     wh_closure = \<lparr>wl_config = cfg, wl_retry = cfg\<rparr>, wh_made = [], wh_rendered = [cfg]\<rparr>"

text \<open>An operation of the refs and the state by a closure, which owns the sockets and timers it makes.\<close>

definition run_with :: "ws_closure \<Rightarrow> (ws_client \<Rightarrow> ws_client) \<Rightarrow> ws_hook \<Rightarrow> ws_hook" where
  "run_with cl f h =
     h\<lparr>wh_client := f (wh_client h),
       wh_made := fold (\<lambda>i. map_set i cl) [wc_next_id (wh_client h)..<wc_next_id (f (wh_client h))] (wh_made h)\<rparr>"

text \<open>\<open>useCallback\<close>: \<open>connect\<close> is made anew when an option changes, \<open>scheduleRetry\<close> only when \<open>autoConnect\<close> does.\<close>

definition next_closure :: "ws_config \<Rightarrow> ws_hook \<Rightarrow> ws_closure" where
  "next_closure cfg h =
     (if cfg = wh_options h then wh_closure h
      else let cfg' = cfg\<lparr>cf_max_reconnects := wh_max h\<rparr>
           in \<lparr>wl_config = cfg',
               wl_retry = (if cf_auto_connect cfg = cf_auto_connect (wh_options h) then wl_retry (wh_closure h) else cfg')\<rparr>)"

definition render_hook :: "ws_config \<Rightarrow> string option \<Rightarrow> ws_hook \<Rightarrow> ws_hook" where
  "render_hook cfg created h =
     (let cl = next_closure cfg h;
          h1 = h\<lparr>wh_options := cfg, wh_closure := cl, wh_rendered := wh_rendered h @ [cfg]\<rparr>
      in if cfg = wh_options h then h1 else run_with cl (\<lambda>s. mount cl created (unmount s)) h1)"

section \<open>Events\<close>

datatype ws_event =
    Mount "string option"
  | Unmount
  | Render ws_config "string option"
  | ConnectCall "string option"
  | DisconnectCall
  | SendCall json
  | SocketOpened "int option" nat
  | SocketMessage int "ws_message option"
  | SocketFailed
  | SocketClosed nat
  | RetryTimer "string option" nat
  | CountdownTimer nat
  | PingTimer int nat

definition by_maker :: "nat \<Rightarrow> (ws_closure \<Rightarrow> ws_hook \<Rightarrow> ws_hook) \<Rightarrow> ws_hook \<Rightarrow> ws_hook" where
  "by_maker i f h = (case map_get (wh_made h) i of None \<Rightarrow> h | Some cl \<Rightarrow> f cl h)"

definition ws_step :: "ws_event \<Rightarrow> ws_hook \<Rightarrow> ws_hook" where
  "ws_step e h = (case e of
     Mount c \<Rightarrow> run_with (wh_closure h) (mount (wh_closure h) c) h
   | Unmount \<Rightarrow> run_with (wh_closure h) unmount h
   | Render cfg c \<Rightarrow> render_hook cfg c h
   | ConnectCall c \<Rightarrow> run_with (wh_closure h) (connect_socket (wl_retry (wh_closure h)) c) h
   | DisconnectCall \<Rightarrow> run_with (wh_closure h) disconnect h
   | SendCall d \<Rightarrow> run_with (wh_closure h) (\<lambda>s. snd (send_message d s)) h
   | SocketOpened lt i \<Rightarrow> by_maker i (\<lambda>cl. run_with cl (on_open (wl_config cl) lt i)) h
   | SocketMessage now d \<Rightarrow> run_with (wh_closure h) (on_message now d) h
   | SocketFailed \<Rightarrow> run_with (wh_closure h) on_error h
   | SocketClosed i \<Rightarrow> by_maker i (\<lambda>cl. run_with cl (on_close (wl_retry cl) i)) h
   | RetryTimer c t \<Rightarrow> by_maker t (\<lambda>cl. run_with \<lparr>wl_config = wl_retry cl, wl_retry = wl_retry cl\<rparr> (retry_fires (wl_retry cl) c t)) h
   | CountdownTimer t \<Rightarrow> run_with (wh_closure h) countdown_tick h
   | PingTimer now t \<Rightarrow> run_with (wh_closure h) (ping_tick now) h)"

text \<open>What the browser can deliver in a state: a socket opens while it is connecting, closes once,
  and only running timers fire.\<close>

definition ws_enabled :: "ws_event \<Rightarrow> ws_hook \<Rightarrow> bool" where
  "ws_enabled e h = (let s = wh_client h in case e of
     SocketOpened lt i \<Rightarrow> map_get (wc_ready s) i = Some Connecting
   | SocketClosed i \<Rightarrow> (case map_get (wc_ready s) i of None \<Rightarrow> False | Some r \<Rightarrow> r \<noteq> Closed)
   | RetryTimer c t \<Rightarrow> t \<in> fst ` set (wc_timeouts s)
   | CountdownTimer t \<Rightarrow> t \<in> set (wc_intervals s)
   | PingTimer now t \<Rightarrow> t \<in> set (wc_intervals s)
   | _ \<Rightarrow> True)"

inductive ws_reach :: "ws_hook \<Rightarrow> bool" where
  wr_init: "ws_reach (init_hook cfg)"
| wr_step: "ws_reach h \<Longrightarrow> ws_enabled e h \<Longrightarrow> ws_reach (ws_step e h)"

inductive_cases ws_reachE: "ws_reach h"

end
