(* ===== verification/WebSocketLaws.thy ===== *)
theory WebSocketLaws
  imports WebSocketClient
begin

text \<open>
  What holds along every run of the reconnecting socket, with options that change from render to
  render: bounded backoff and queue, no retry beyond the cap, the handshake first on every socket,
  queued messages delivered in order, and a server that never accepts is tried a fixed number of
  times. The last sections show the runs where it goes wrong: the close event of a replaced socket
  marks the new, open one as disconnected, and a retry authenticates with the token of an old render.
\<close>

section \<open>Invariant\<close>

definition frames_to :: "nat \<Rightarrow> ws_client \<Rightarrow> ws_frame list" where
  "frames_to i s = map snd (filter (\<lambda>x. fst x = i) (wc_sent s))"

definition auth_frames :: "ws_config \<Rightarrow> ws_frame list" where
  "auth_frames cfg = (case cf_auth_token cfg of None \<Rightarrow> [] | Some t \<Rightarrow> if t \<noteq> [] then [FAuth t] else [])"

definition starts_handshake :: "ws_config \<Rightarrow> ws_frame list \<Rightarrow> bool" where
  "starts_handshake cfg fs \<longleftrightarrow>
     (\<exists>f rest. fs = auth_frames cfg @ f # rest \<and> (f = FSubscribe \<or> (\<exists>t. f = FSyncState t)))"

definition delay_ok :: "int \<Rightarrow> bool" where
  "delay_ok d \<longleftrightarrow> 1000 \<le> d \<and> d \<le> 30000"

definition ws_ok :: "(nat \<Rightarrow> ws_config) \<Rightarrow> ws_client \<Rightarrow> bool" where
  "ws_ok own s \<longleftrightarrow> delay_ok (wc_backoff s) \<and> length (wc_queue s) \<le> queue_cap \<and>
     (\<forall>x \<in> set (wc_timeouts s). delay_ok (snd x)) \<and>
     (\<forall>i. map_get (wc_ready s) i = None \<or> map_get (wc_ready s) i = Some Connecting \<longrightarrow> frames_to i s = []) \<and>
     (\<forall>i. map_get (wc_ready s) i = Some Opened \<longrightarrow> frames_to i s \<noteq> []) \<and>
     (\<forall>i. frames_to i s \<noteq> [] \<longrightarrow> starts_handshake (own i) (frames_to i s)) \<and>
     (\<forall>i. map_get (wc_ready s) i \<noteq> None \<longrightarrow> i < wc_next_id s)"

lemma frames_to_write [simp]:
  "frames_to j (write_frame i f s) = (if i = j then frames_to j s @ [f] else frames_to j s)"
  by (simp add: frames_to_def write_frame_def)

lemma frames_to_fields [simp]:
  "frames_to i (s\<lparr>wc_ready := r\<rparr>) = frames_to i s" "frames_to i (s\<lparr>wc_ws := w\<rparr>) = frames_to i s"
  "frames_to i (s\<lparr>wc_next_id := n\<rparr>) = frames_to i s"
  by (simp_all add: frames_to_def)

lemma starts_handshake_append: "starts_handshake cfg fs \<Longrightarrow> starts_handshake cfg (fs @ gs)"
  by (auto simp: starts_handshake_def)

lemma clear_fields [simp]:
  "wc_sent (clear_interval t s) = wc_sent s" "wc_sent (clear_timeout t s) = wc_sent s"
  "wc_ready (clear_interval t s) = wc_ready s" "wc_ready (clear_timeout t s) = wc_ready s"
  "wc_next_id (clear_interval t s) = wc_next_id s" "wc_next_id (clear_timeout t s) = wc_next_id s"
  "wc_queue (clear_interval t s) = wc_queue s" "wc_queue (clear_timeout t s) = wc_queue s"
  "wc_backoff (clear_interval t s) = wc_backoff s" "wc_backoff (clear_timeout t s) = wc_backoff s"
  "wc_timeouts (clear_interval t s) = wc_timeouts s"
  "wc_manual (clear_interval t s) = wc_manual s" "wc_manual (clear_timeout t s) = wc_manual s"
  "wc_attempts (clear_interval t s) = wc_attempts s" "wc_attempts (clear_timeout t s) = wc_attempts s"
  "wc_is_retry (clear_interval t s) = wc_is_retry s" "wc_is_retry (clear_timeout t s) = wc_is_retry s"
  "wc_ws (clear_interval t s) = wc_ws s" "wc_ws (clear_timeout t s) = wc_ws s"
  "wc_retry_timer (clear_interval t s) = wc_retry_timer s" "wc_retry_timer (clear_timeout t s) = wc_retry_timer s"
  "wc_last_ts (clear_interval t s) = wc_last_ts s"
  "wc_countdown (clear_interval t s) = wc_countdown s" "wc_error (clear_interval t s) = wc_error s"
  by (simp_all add: clear_interval_def clear_timeout_def split: option.splits)

lemma clear_timeout_subset: "x \<in> set (wc_timeouts (clear_timeout t s)) \<Longrightarrow> x \<in> set (wc_timeouts s)"
  by (auto simp: clear_timeout_def split: option.splits)

text \<open>An operation that leaves the log, the sockets and the queue alone, and only removes timeouts.\<close>

lemma ws_ok_quiet:
  assumes "ws_ok own s" "wc_sent t = wc_sent s" "wc_ready t = wc_ready s" "wc_next_id s \<le> wc_next_id t"
    "length (wc_queue t) \<le> length (wc_queue s)" "delay_ok (wc_backoff t)"
    "\<forall>x \<in> set (wc_timeouts t). x \<in> set (wc_timeouts s) \<or> delay_ok (snd x)"
  shows "ws_ok own t"
proof -
  have "frames_to i t = frames_to i s" for i using assms(2) by (simp add: frames_to_def)
  with assms show ?thesis unfolding ws_ok_def by (auto intro: less_le_trans)
qed

lemma ws_ok_schedule: "ws_ok own s \<Longrightarrow> ws_ok own (scheduleRetry cfg s)"
proof -
  assume s: "ws_ok own s"
  then have "delay_ok (wc_backoff s)" by (simp add: ws_ok_def)
  with s show ?thesis
    by (intro ws_ok_quiet [OF s]) (auto simp: scheduleRetry_def Let_def delay_ok_def)
qed

lemma ws_ok_new_socket:
  assumes "ws_ok own s"
  shows "ws_ok own (s\<lparr>wc_ws := w, wc_ready := map_set (wc_next_id s) Connecting (wc_ready s), wc_next_id := Suc (wc_next_id s)\<rparr>)"
proof -
  have "map_get (wc_ready s) (wc_next_id s) = None"
    using assms unfolding ws_ok_def by (metis less_irrefl)
  with assms show ?thesis unfolding ws_ok_def by (auto simp: less_Suc_eq)
qed

lemma ws_ok_connect: "ws_ok own s \<Longrightarrow> ws_ok own (connect_socket cfg c s)"
proof -
  assume s: "ws_ok own s"
  let ?s1 = "(clear_timeout (wc_retry_timer s) s)\<lparr>wc_retry_timer := None\<rparr>"
  let ?s3 = "(if wc_is_retry ?s1 then ?s1\<lparr>wc_is_retry := False\<rparr> else ?s1\<lparr>wc_attempts := 0\<rparr>)\<lparr>wc_manual := False\<rparr>"
  have s3: "ws_ok own ?s3" and s3e: "ws_ok own (?s3\<lparr>wc_error := e\<rparr>)" for e
    using s by (auto intro!: ws_ok_quiet [OF s] dest: clear_timeout_subset simp: ws_ok_def [of own s])
  show ?thesis
    using s ws_ok_new_socket [OF s3] ws_ok_schedule [OF s3e]
    by (auto simp: connect_socket_def Let_def split: option.splits if_splits)
qed

lemma ws_ok_retry: "ws_ok own s \<Longrightarrow> ws_ok own (retry_fires cfg c t s)"
  unfolding retry_fires_def Let_def
  by (rule ws_ok_connect, rule ws_ok_quiet, assumption)
    (auto dest: clear_timeout_subset simp: ws_ok_def [of own s])

lemma flush_queue_sent:
  "wc_sent (flush_queue i s) = wc_sent s @ map (\<lambda>m. (i, FData m)) (wc_queue s)"
  "wc_queue (flush_queue i s) = []"
  "wc_ready (flush_queue i s) = wc_ready s" "wc_next_id (flush_queue i s) = wc_next_id s"
  "wc_backoff (flush_queue i s) = wc_backoff s" "wc_timeouts (flush_queue i s) = wc_timeouts s"
  "wc_ws (flush_queue i s) = wc_ws s"
proof -
  have *: "fold (\<lambda>m t. write_frame i (FData m) t) ms t = t\<lparr>wc_sent := wc_sent t @ map (\<lambda>m. (i, FData m)) ms\<rparr>" for ms t
    by (induction ms arbitrary: t) (simp_all add: write_frame_def)
  show "wc_sent (flush_queue i s) = wc_sent s @ map (\<lambda>m. (i, FData m)) (wc_queue s)"
    "wc_queue (flush_queue i s) = []" "wc_ready (flush_queue i s) = wc_ready s"
    "wc_next_id (flush_queue i s) = wc_next_id s" "wc_backoff (flush_queue i s) = wc_backoff s"
    "wc_timeouts (flush_queue i s) = wc_timeouts s" "wc_ws (flush_queue i s) = wc_ws s"
    by (simp_all add: flush_queue_def *)
qed

definition handshake :: "ws_config \<Rightarrow> int option \<Rightarrow> ws_client \<Rightarrow> ws_frame list" where
  "handshake cfg lt s = auth_frames cfg @
     [if cf_sync_on_reconnect cfg \<and> wc_attempts s > 0 then FSyncState (last_known lt s) else FSubscribe]"

lemma on_open_fields:
  "wc_sent (on_open cfg lt i s) =
     wc_sent s @ map (\<lambda>f. (i, f)) (handshake cfg lt s @ map FData (wc_queue s))"
  "wc_ready (on_open cfg lt i s) = map_set i Opened (wc_ready s)"
  "wc_queue (on_open cfg lt i s) = []" "wc_backoff (on_open cfg lt i s) = 1000"
  "wc_timeouts (on_open cfg lt i s) = wc_timeouts s" "wc_next_id (on_open cfg lt i s) = Suc (wc_next_id s)"
  "wc_ws (on_open cfg lt i s) = wc_ws s"
  by (auto simp: on_open_def Let_def flush_queue_sent write_frame_def handshake_def auth_frames_def last_known_def
      comp_def split: option.splits)

lemma frames_on_open:
  "frames_to j (on_open cfg lt i s) =
     frames_to j s @ (if i = j then handshake cfg lt s @ map FData (wc_queue s) else [])"
  by (simp add: frames_to_def on_open_fields filter_map comp_def)

lemma ws_ok_open:
  assumes "ws_ok own s" "map_get (wc_ready s) i = Some Connecting" "own i = cfg"
  shows "ws_ok own (on_open cfg lt i s)"
proof -
  have "frames_to i s = []" using assms unfolding ws_ok_def by blast
  moreover have "starts_handshake cfg (handshake cfg lt s @ rest)" for rest
    by (auto simp: starts_handshake_def handshake_def)
  moreover have "handshake cfg lt s \<noteq> []" by (simp add: handshake_def)
  ultimately show ?thesis
    using assms unfolding ws_ok_def by (auto simp: frames_on_open on_open_fields delay_ok_def)
qed

lemma ws_ok_write: "ws_ok own s \<Longrightarrow> is_open s (Some i) \<Longrightarrow> ws_ok own (write_frame i f s)"
proof -
  assume s: "ws_ok own s" and o: "is_open s (Some i)"
  have "frames_to i s \<noteq> []" using s o by (auto simp: ws_ok_def is_open_def)
  then have "starts_handshake (own i) (frames_to i s @ [f])"
    using s starts_handshake_append unfolding ws_ok_def by blast
  moreover have "wc_ready (write_frame i f s) = wc_ready s" "wc_backoff (write_frame i f s) = wc_backoff s"
    "wc_queue (write_frame i f s) = wc_queue s" "wc_timeouts (write_frame i f s) = wc_timeouts s"
    "wc_next_id (write_frame i f s) = wc_next_id s" by (simp_all add: write_frame_def)
  ultimately show ?thesis using s o unfolding ws_ok_def is_open_def by auto
qed

lemma ws_ok_ready:
  assumes "ws_ok own s" "r = Closing \<or> r = Closed" "map_get (wc_ready s) i \<noteq> None"
  shows "ws_ok own (s\<lparr>wc_ready := map_set i r (wc_ready s)\<rparr>)"
  using assms unfolding ws_ok_def by auto

lemma ws_ok_close_socket:
  "ws_ok own s \<Longrightarrow> (\<And>i. w = Some i \<Longrightarrow> map_get (wc_ready s) i \<noteq> None) \<Longrightarrow> ws_ok own (close_socket w s)"
  by (auto simp: close_socket_def ws_ok_ready split: option.splits)

lemma ws_ok_on_close:
  assumes "ws_ok own s" "map_get (wc_ready s) i \<noteq> None"
  shows "ws_ok own (on_close cfg i s)"
proof -
  let ?s1 = "s\<lparr>wc_ready := map_set i Closed (wc_ready s), wc_connected := False, wc_latency := None\<rparr>"
  have "ws_ok own (clear_interval (wc_ping_timer ?s1) ?s1)"
    by (rule ws_ok_quiet [OF ws_ok_ready [OF assms(1) _ assms(2), of Closed]]) (use assms in \<open>auto simp: ws_ok_def\<close>)
  then show ?thesis using ws_ok_schedule by (auto simp: on_close_def Let_def)
qed

text \<open>The socket of the ref has been created.\<close>

definition ref_ok :: "ws_client \<Rightarrow> bool" where
  "ref_ok s \<longleftrightarrow> (\<forall>i. wc_ws s = Some i \<longrightarrow> map_get (wc_ready s) i \<noteq> None)"

lemma schedule_fields [simp]:
  "wc_ws (scheduleRetry cfg s) = wc_ws s" "wc_ready (scheduleRetry cfg s) = wc_ready s"
  "wc_manual (scheduleRetry cfg s) = wc_manual s" "wc_is_retry (scheduleRetry cfg s) = wc_is_retry s"
  by (simp_all add: scheduleRetry_def Let_def)

lemma ref_ok_connect: "ref_ok s \<Longrightarrow> ref_ok (connect_socket cfg c s)"
  by (auto simp: ref_ok_def connect_socket_def Let_def split: option.splits)

lemma ref_ok_close: "ref_ok s \<Longrightarrow> ref_ok (close_socket w s)"
  by (auto simp: ref_ok_def close_socket_def split: option.splits)

lemma ref_ok_cong: "wc_ws t = wc_ws s \<Longrightarrow> wc_ready t = wc_ready s \<Longrightarrow> ref_ok t = ref_ok s"
  by (simp add: ref_ok_def)

lemma ws_ok_detach: "ws_ok own s \<Longrightarrow> ws_ok own (s\<lparr>wc_ws := None, wc_connected := False, wc_latency := None\<rparr>)"
  by (rule ws_ok_quiet, assumption) (simp_all add: ws_ok_def)

text \<open>
  What every operation does for given owners of the sockets: it keeps the invariant, and a timer is set only while the attempts are
  below the cap \<open>m\<close>.
\<close>

definition good_step :: "(nat \<Rightarrow> ws_config) \<Rightarrow> nat \<Rightarrow> ws_client \<Rightarrow> ws_client \<Rightarrow> bool" where
  "good_step own m s s' \<longleftrightarrow> ws_ok own s' \<and> ref_ok s' \<and> wc_next_id s \<le> wc_next_id s' \<and>
     (set (wc_timeouts s') \<subseteq> set (wc_timeouts s) \<or> wc_attempts s' < m)"

lemma good_step_trans:
  "good_step own m t u \<Longrightarrow> wc_next_id s \<le> wc_next_id t \<Longrightarrow> set (wc_timeouts t) \<subseteq> set (wc_timeouts s) \<Longrightarrow> good_step own m s u"
  by (auto simp: good_step_def)

text \<open>Operations that leave the log, the sockets and the ref alone.\<close>

lemma good_quiet:
  assumes "ws_ok own s" "ref_ok s" "wc_sent t = wc_sent s" "wc_ready t = wc_ready s" "wc_ws t = wc_ws s" "wc_next_id t = wc_next_id s"
    "length (wc_queue t) \<le> length (wc_queue s)" "wc_backoff t = wc_backoff s" "set (wc_timeouts t) \<subseteq> set (wc_timeouts s)"
  shows "good_step own m s t"
proof -
  have "delay_ok (wc_backoff s)" using assms(1) by (simp add: ws_ok_def)
  then have "ws_ok own t" by (intro ws_ok_quiet [OF assms(1)]) (use assms in auto)
  then show ?thesis using assms ref_ok_cong [of t s] by (simp add: good_step_def)
qed

lemma good_schedule:
  assumes "ws_ok own s" "ref_ok s" "cf_max_reconnects cfg = m"
  shows "good_step own m s (scheduleRetry cfg s)"
proof -
  have "wc_next_id s \<le> wc_next_id (scheduleRetry cfg s) \<and>
      (set (wc_timeouts (scheduleRetry cfg s)) \<subseteq> set (wc_timeouts s) \<or> wc_attempts (scheduleRetry cfg s) < m)"
    using assms(3) by (auto simp: scheduleRetry_def Let_def)
  then show ?thesis using ws_ok_schedule [OF assms(1)] ref_ok_cong [of "scheduleRetry cfg s" s] assms(2) by (simp add: good_step_def)
qed

lemma good_connect:
  assumes s: "ws_ok own s" "ref_ok s" and m: "cf_max_reconnects cfg = m"
  shows "good_step own m s (connect_socket cfg c s)"
proof -
  have ref: "ref_ok (connect_socket cfg c s)" by (rule ref_ok_connect [OF s(2)])
  have "wc_next_id s \<le> wc_next_id (connect_socket cfg c s) \<and>
      (set (wc_timeouts (connect_socket cfg c s)) \<subseteq> set (wc_timeouts s) \<or> wc_attempts (connect_socket cfg c s) < m)"
    using m by (auto simp: connect_socket_def scheduleRetry_def Let_def split: option.splits dest: clear_timeout_subset)
  then show ?thesis using ws_ok_connect [OF s(1)] ref by (simp add: good_step_def)
qed

lemma good_retry:
  assumes "ws_ok own s" "ref_ok s" "cf_max_reconnects cfg = m"
  shows "good_step own m s (retry_fires cfg c t s)"
proof -
  define u where "u = (clear_timeout (Some t) s)\<lparr>wc_retry_timer := None\<rparr>"
  define v where "v = (clear_interval (wc_countdown u) u)\<lparr>wc_next_in := None, wc_is_retry := True\<rparr>"
  have v: "good_step own m s v"
    by (rule good_quiet [OF assms(1,2)]) (auto simp: v_def u_def dest: clear_timeout_subset)
  have "good_step own m v (connect_socket cfg c v)" using v assms(3) by (intro good_connect) (auto simp: good_step_def)
  moreover have "wc_next_id s \<le> wc_next_id v" "set (wc_timeouts v) \<subseteq> set (wc_timeouts s)"
    by (auto simp: v_def u_def dest: clear_timeout_subset)
  ultimately show ?thesis by (simp only: retry_fires_def Let_def flip: u_def v_def) (rule good_step_trans)
qed

lemma good_open:
  assumes "ws_ok own s" "ref_ok s" "map_get (wc_ready s) i = Some Connecting" "own i = cfg"
  shows "good_step own m s (on_open cfg lt i s)"
proof -
  have "ref_ok (on_open cfg lt i s)" using assms(2) by (auto simp: ref_ok_def on_open_fields)
  then show ?thesis using ws_ok_open [OF assms(1,3,4)] by (simp add: good_step_def on_open_fields)
qed

lemma good_close:
  assumes "ws_ok own s" "ref_ok s" "map_get (wc_ready s) i \<noteq> None" "cf_max_reconnects cfg = m"
  shows "good_step own m s (on_close cfg i s)"
proof -
  define t where "t = s\<lparr>wc_ready := map_set i Closed (wc_ready s), wc_connected := False, wc_latency := None\<rparr>"
  define u where "u = clear_interval (wc_ping_timer t) t"
  have ok: "ws_ok own u"
    unfolding u_def t_def by (rule ws_ok_quiet [OF ws_ok_ready [OF assms(1) _ assms(3), of Closed]]) (use assms in \<open>auto simp: ws_ok_def\<close>)
  have ref: "ref_ok u" using assms(2) by (auto simp: ref_ok_def u_def t_def)
  have u: "wc_next_id s \<le> wc_next_id u" "set (wc_timeouts u) \<subseteq> set (wc_timeouts s)" by (simp_all add: u_def t_def)
  have "good_step own m u (if \<not> wc_manual u then scheduleRetry cfg u else u)"
    using good_schedule [OF ok ref assms(4)] ok ref by (simp add: good_step_def)
  then show ?thesis
    using u by (simp only: on_close_def Let_def flip: t_def u_def) (rule good_step_trans)
qed

lemma good_close_socket:
  assumes "ws_ok own s" "ref_ok s" "wc_ws s = w"
  shows "good_step own m s (close_socket w s)"
proof -
  have "ws_ok own (close_socket w s)" using assms by (intro ws_ok_close_socket) (auto simp: ref_ok_def)
  moreover have "wc_next_id (close_socket w s) = wc_next_id s" "wc_timeouts (close_socket w s) = wc_timeouts s"
    by (simp_all add: close_socket_def split: option.split)
  ultimately show ?thesis using ref_ok_close [OF assms(2)] by (simp add: good_step_def)
qed

text \<open>The state in which cleanup and \<open>disconnect\<close> close the socket.\<close>

lemma quiet_clears:
  assumes "ws_ok own s" "ref_ok s"
  shows "good_step own m s (clear_interval a (clear_interval b (clear_timeout (wc_retry_timer s) (s\<lparr>wc_manual := True\<rparr>))))"
  by (rule good_quiet [OF assms]) (auto dest: clear_timeout_subset)

lemma unmount_keeps:
  assumes "ws_ok own s" "ref_ok s"
  shows "good_step own m s (unmount s) \<and> set (wc_timeouts (unmount s)) \<subseteq> set (wc_timeouts s)"
proof -
  define t where "t = clear_timeout (wc_retry_timer s) (s\<lparr>wc_manual := True\<rparr>)"
  define u where "u = clear_interval (wc_countdown (clear_interval (wc_ping_timer t) t)) (clear_interval (wc_ping_timer t) t)"
  have g: "good_step own m s u" using quiet_clears [OF assms, of m] by (simp add: t_def u_def)
  have u: "wc_next_id s \<le> wc_next_id u" "set (wc_timeouts u) \<subseteq> set (wc_timeouts s)"
    by (auto simp: u_def t_def dest: clear_timeout_subset)
  have e: "unmount s = close_socket (wc_ws u) u" by (simp add: unmount_def Let_def u_def t_def)
  have "good_step own m u (unmount s)" unfolding e using g by (intro good_close_socket) (auto simp: good_step_def)
  moreover have "wc_timeouts (unmount s) = wc_timeouts u" by (simp add: e close_socket_def split: option.split)
  ultimately show ?thesis using u good_step_trans by auto
qed

lemma good_disconnect:
  assumes "ws_ok own s" "ref_ok s"
  shows "good_step own m s (disconnect s)"
proof -
  define t where "t = (clear_timeout (wc_retry_timer s) s)\<lparr>wc_retry_timer := None\<rparr>"
  define u where "u = (clear_interval (wc_countdown (clear_interval (wc_ping_timer t) t)) (clear_interval (wc_ping_timer t) t))
    \<lparr>wc_next_in := None, wc_queue := [], wc_manual := True\<rparr>"
  have g: "good_step own m s u" by (rule good_quiet [OF assms]) (auto simp: u_def t_def dest: clear_timeout_subset)
  have c: "good_step own m u (close_socket (wc_ws u) u)" using g by (intro good_close_socket) (auto simp: good_step_def)
  have e: "disconnect s = (close_socket (wc_ws u) u)\<lparr>wc_ws := None, wc_connected := False, wc_latency := None\<rparr>"
    by (simp add: disconnect_def Let_def u_def t_def)
  have "good_step own m u (disconnect s)"
    using c ws_ok_detach unfolding e by (auto simp: good_step_def ref_ok_def)
  then show ?thesis by (rule good_step_trans) (auto simp: u_def t_def dest: clear_timeout_subset)
qed

lemma good_send:
  assumes "ws_ok own s" "ref_ok s"
  shows "good_step own m s (snd (send_message d s))"
proof -
  have "ws_ok own (s\<lparr>wc_queue := wc_queue s @ [d]\<rparr>)" if "length (wc_queue s) < queue_cap"
    using assms(1) that unfolding ws_ok_def by (simp add: frames_to_def)
  then have "ws_ok own (snd (send_message d s))"
    using assms(1) by (auto simp: send_message_def ws_ok_write split: option.splits)
  then show ?thesis
    using assms(2) by (auto simp: good_step_def ref_ok_def send_message_def write_frame_def split: option.splits)
qed

lemma good_ping:
  assumes "ws_ok own s" "ref_ok s"
  shows "good_step own m s (ping_tick now s)"
proof -
  have "ws_ok own (s\<lparr>wc_last_ping := now\<rparr>)" by (rule ws_ok_quiet [OF assms(1)]) (use assms in \<open>auto simp: ws_ok_def\<close>)
  then have "ws_ok own (write_frame i FPing (s\<lparr>wc_last_ping := now\<rparr>))" if "is_open s (Some i)" for i
    using that by (intro ws_ok_write) (auto simp: is_open_def)
  then have "ws_ok own (ping_tick now s)" using assms(1) by (auto simp: ping_tick_def split: option.splits)
  then show ?thesis using assms(2) by (auto simp: good_step_def ref_ok_def ping_tick_def write_frame_def split: option.splits)
qed

lemma good_quiet_ops:
  assumes "ws_ok own s" "ref_ok s"
  shows "good_step own m s (on_message now d s)" "good_step own m s (on_error s)" "good_step own m s (countdown_tick s)"
  by (rule good_quiet [OF assms]; simp add: on_message_def on_error_def countdown_tick_def Let_def split: option.split)+

lemma good_mount:
  assumes "ws_ok own s" "ref_ok s" "cf_max_reconnects (wl_retry cl) = m"
  shows "good_step own m s (mount cl c s)"
  using good_connect [OF assms] assms(1,2) by (simp add: mount_def good_step_def)

section \<open>The hook\<close>

text \<open>The options under which a socket was made, and closures over options that were rendered.\<close>

definition owner :: "ws_hook \<Rightarrow> nat \<Rightarrow> ws_config" where
  "owner h i = (case map_get (wh_made h) i of None \<Rightarrow> wh_options h | Some cl \<Rightarrow> wl_config cl)"

definition closes_over :: "ws_hook \<Rightarrow> ws_config \<Rightarrow> bool" where
  "closes_over h c \<longleftrightarrow> (\<exists>cfg \<in> set (wh_rendered h). c = cfg\<lparr>cf_max_reconnects := wh_max h\<rparr>)"

definition closure_ok :: "ws_hook \<Rightarrow> ws_closure \<Rightarrow> bool" where
  "closure_ok h cl \<longleftrightarrow> closes_over h (wl_config cl) \<and> closes_over h (wl_retry cl)"

definition hook_ok :: "ws_hook \<Rightarrow> bool" where
  "hook_ok h \<longleftrightarrow> ws_ok (owner h) (wh_client h) \<and> ref_ok (wh_client h) \<and>
     (\<forall>i. (\<exists>cl. map_get (wh_made h) i = Some cl) \<longleftrightarrow> i < wc_next_id (wh_client h)) \<and>
     (\<forall>i cl. map_get (wh_made h) i = Some cl \<longrightarrow> closure_ok h cl) \<and> closure_ok h (wh_closure h) \<and>
     wh_rendered h \<noteq> [] \<and> wh_max h = cf_max_reconnects (hd (wh_rendered h))"

lemma closure_max: "closure_ok h cl \<Longrightarrow> cf_max_reconnects (wl_config cl) = wh_max h \<and> cf_max_reconnects (wl_retry cl) = wh_max h"
  by (auto simp: closure_ok_def closes_over_def)

lemma made_fold: "map_get (fold (\<lambda>i. map_set i cl) is m) j = (if j \<in> set is then Some cl else map_get m j)"
  by (induction "is" arbitrary: m) auto

lemma made_run_with:
  "map_get (wh_made (run_with cl f h)) j =
     (if wc_next_id (wh_client h) \<le> j \<and> j < wc_next_id (f (wh_client h)) then Some cl else map_get (wh_made h) j)"
  by (simp add: run_with_def made_fold)

lemma run_with_fields [simp]:
  "wh_client (run_with cl f h) = f (wh_client h)" "wh_max (run_with cl f h) = wh_max h" "wh_options (run_with cl f h) = wh_options h"
  "wh_closure (run_with cl f h) = wh_closure h" "wh_rendered (run_with cl f h) = wh_rendered h"
  "closure_ok (run_with cl f h) = closure_ok h"
  by (simp_all add: run_with_def closure_ok_def closes_over_def fun_eq_iff)

lemma ws_ok_owner:
  assumes "ws_ok own s" "\<And>i. i < wc_next_id s \<Longrightarrow> own' i = own i"
  shows "ws_ok own' s"
proof -
  have "i < wc_next_id s" if "frames_to i s \<noteq> []" for i using assms(1) that unfolding ws_ok_def by blast
  then show ?thesis using assms unfolding ws_ok_def by auto
qed

text \<open>One operation of the hook keeps its invariant, if it is a good step for all owners that agree on the sockets there are.\<close>

lemma run_with_ok:
  assumes h: "hook_ok h" and cl: "closure_ok h cl"
    and f: "\<And>own. ws_ok own (wh_client h) \<Longrightarrow> (\<And>i. i < wc_next_id (wh_client h) \<Longrightarrow> own i = owner h i) \<Longrightarrow>
      good_step own (wh_max h) (wh_client h) (f (wh_client h))"
  shows "hook_ok (run_with cl f h) \<and> good_step (owner (run_with cl f h)) (wh_max h) (wh_client h) (f (wh_client h))"
proof -
  let ?h = "run_with cl f h"
  have own: "owner ?h i = owner h i" if "i < wc_next_id (wh_client h)" for i
    using that by (simp add: owner_def made_run_with split: option.split)
  have "ws_ok (owner ?h) (wh_client h)" using h own by (auto simp: hook_ok_def intro: ws_ok_owner)
  then have good: "good_step (owner ?h) (wh_max h) (wh_client h) (f (wh_client h))" using own by (rule f)
  have grows: "wc_next_id (wh_client h) \<le> wc_next_id (f (wh_client h))" and ws: "ws_ok (owner ?h) (f (wh_client h))" "ref_ok (f (wh_client h))"
    using good unfolding good_step_def by simp_all
  have "(\<exists>cl'. map_get (wh_made h) i = Some cl') \<longleftrightarrow> i < wc_next_id (wh_client h)" for i using h by (simp add: hook_ok_def)
  then have ids: "(\<exists>cl'. map_get (wh_made ?h) i = Some cl') \<longleftrightarrow> i < wc_next_id (wh_client ?h)" for i
    using grows by (auto simp: made_run_with)
  have "closure_ok h cl'" if "map_get (wh_made h) i = Some cl'" for i cl' using h that by (simp add: hook_ok_def)
  then have owned: "closure_ok ?h cl'" if "map_get (wh_made ?h) i = Some cl'" for i cl'
    using that cl by (simp add: made_run_with split: if_splits)
  have "hook_ok ?h" using h ws ids owned by (simp add: hook_ok_def)
  then show ?thesis using good by blast
qed

definition no_retry_over :: "ws_hook \<Rightarrow> ws_hook \<Rightarrow> bool" where
  "no_retry_over h h' \<longleftrightarrow> set (wc_timeouts (wh_client h')) \<subseteq> set (wc_timeouts (wh_client h)) \<or> wc_attempts (wh_client h') < wh_max h'"

lemma run_with_step:
  assumes "hook_ok h" "closure_ok h cl"
    "\<And>own. ws_ok own (wh_client h) \<Longrightarrow> (\<And>i. i < wc_next_id (wh_client h) \<Longrightarrow> own i = owner h i) \<Longrightarrow>
      good_step own (wh_max h) (wh_client h) (f (wh_client h))"
  shows "hook_ok (run_with cl f h) \<and> no_retry_over h (run_with cl f h)"
proof -
  have ok: "hook_ok (run_with cl f h) \<and> good_step (owner (run_with cl f h)) (wh_max h) (wh_client h) (f (wh_client h))"
    using assms by (rule run_with_ok)
  then have "set (wc_timeouts (f (wh_client h))) \<subseteq> set (wc_timeouts (wh_client h)) \<or> wc_attempts (f (wh_client h)) < wh_max h"
    by (simp only: good_step_def)
  then have "no_retry_over h (run_with cl f h)" by (simp only: no_retry_over_def run_with_fields)
  then show ?thesis using ok by (simp only:)
qed

lemma render_ok:
  assumes h: "hook_ok h"
  shows "hook_ok (render_hook cfg c h) \<and> no_retry_over h (render_hook cfg c h)"
proof -
  define cl where "cl = next_closure cfg h"
  define h1 where "h1 = h\<lparr>wh_options := cfg, wh_closure := cl, wh_rendered := wh_rendered h @ [cfg]\<rparr>"
  have over: "closes_over h1 c" if "closes_over h c" for c using that by (auto simp: closes_over_def h1_def)
  have old: "closure_ok h1 cl'" if "closure_ok h cl'" for cl' using that over by (simp add: closure_ok_def)
  have new: "closes_over h1 (cfg\<lparr>cf_max_reconnects := wh_max h\<rparr>)" by (auto simp: closes_over_def h1_def)
  have now: "closure_ok h (wh_closure h)" using h by (simp add: hook_ok_def)
  have cl: "closure_ok h1 cl"
    using new old [OF now] over now by (simp add: cl_def next_closure_def Let_def closure_ok_def)
  have ids: "(\<exists>cl. map_get (wh_made h) i = Some cl) \<longleftrightarrow> i < wc_next_id (wh_client h)" for i
    using h by (simp add: hook_ok_def)
  have own: "owner h1 i = owner h i" if "i < wc_next_id (wh_client h)" for i
  proof -
    have "\<exists>cl'. map_get (wh_made h) i = Some cl'" using that by (rule iffD2 [OF ids])
    then obtain cl' where "map_get (wh_made h) i = Some cl'" ..
    then show ?thesis by (simp add: owner_def h1_def)
  qed
  then have "ws_ok (owner h1) (wh_client h)" using h by (auto simp: hook_ok_def intro: ws_ok_owner)
  then have h1: "hook_ok h1" using h cl old by (auto simp: hook_ok_def h1_def)
  have "hook_ok (run_with cl (\<lambda>s. mount cl c (unmount s)) h1) \<and> no_retry_over h1 (run_with cl (\<lambda>s. mount cl c (unmount s)) h1)"
  proof (rule run_with_step [OF h1 cl])
    fix own assume ok: "ws_ok own (wh_client h1)"
    have ref: "ref_ok (wh_client h1)" using h1 by (simp add: hook_ok_def)
    note un = unmount_keeps [OF ok ref, of "wh_max h1"]
    have "good_step own (wh_max h1) (unmount (wh_client h1)) (mount cl c (unmount (wh_client h1)))"
      using un closure_max [OF cl] by (intro good_mount) (auto simp: good_step_def)
    then show "good_step own (wh_max h1) (wh_client h1) (mount cl c (unmount (wh_client h1)))"
      by (rule good_step_trans) (use un in \<open>simp_all add: good_step_def\<close>)
  qed
  moreover have "no_retry_over h h1" "no_retry_over h1 x = no_retry_over h x" for x by (simp_all add: no_retry_over_def h1_def)
  moreover have "render_hook cfg c h = (if cfg = wh_options h then h1 else run_with cl (\<lambda>s. mount cl c (unmount s)) h1)"
    by (simp only: render_hook_def Let_def cl_def h1_def)
  ultimately show ?thesis using h1 by simp
qed

lemma hook_ok_step:
  assumes h: "hook_ok h" and en: "ws_enabled e h"
  shows "hook_ok (ws_step e h) \<and> no_retry_over h (ws_step e h)"
proof -
  have cl: "closure_ok h (wh_closure h)" and ref: "ref_ok (wh_client h)" using h by (simp_all add: hook_ok_def)
  note max = closure_max [OF cl]
  have made: "closure_ok h cl" if "map_get (wh_made h) i = Some cl" for i cl using h that by (auto simp: hook_ok_def)
  have same: "hook_ok h \<and> no_retry_over h h" using h by (simp add: no_retry_over_def)
  show ?thesis
  proof (cases e)
    case (Render cfg c)
    then show ?thesis using render_ok [OF h] by (simp add: ws_step_def)
  next
    case (SocketOpened lt i)
    have ready: "map_get (wc_ready (wh_client h)) i = Some Connecting" using en SocketOpened by (simp add: ws_enabled_def)
    then have i: "i < wc_next_id (wh_client h)" using h by (auto simp: hook_ok_def ws_ok_def)
    show ?thesis
    proof (cases "map_get (wh_made h) i")
      case (Some cl)
      have "hook_ok (run_with cl (on_open (wl_config cl) lt i) h) \<and> no_retry_over h (run_with cl (on_open (wl_config cl) lt i) h)"
        using Some i by (intro run_with_step [OF h made [OF Some]] good_open ref ready) (auto simp: owner_def)
      then show ?thesis by (simp add: ws_step_def SocketOpened by_maker_def Some)
    qed (use same in \<open>simp add: ws_step_def SocketOpened by_maker_def\<close>)
  next
    case (SocketClosed i)
    have ready: "map_get (wc_ready (wh_client h)) i \<noteq> None" using en SocketClosed by (simp add: ws_enabled_def split: option.splits)
    show ?thesis
    proof (cases "map_get (wh_made h) i")
      case (Some cl)
      have "hook_ok (run_with cl (on_close (wl_retry cl) i) h) \<and> no_retry_over h (run_with cl (on_close (wl_retry cl) i) h)"
        by (intro run_with_step [OF h made [OF Some]] good_close ref ready conjunct2 [OF closure_max [OF made [OF Some]]])
      then show ?thesis by (simp add: ws_step_def SocketClosed by_maker_def Some)
    qed (use same in \<open>simp add: ws_step_def SocketClosed by_maker_def\<close>)
  next
    case (RetryTimer c t)
    show ?thesis
    proof (cases "map_get (wh_made h) t")
      case (Some cl)
      let ?r = "\<lparr>wl_config = wl_retry cl, wl_retry = wl_retry cl\<rparr>"
      have "closure_ok h ?r" using made [OF Some] by (simp add: closure_ok_def)
      then have "hook_ok (run_with ?r (retry_fires (wl_retry cl) c t) h) \<and> no_retry_over h (run_with ?r (retry_fires (wl_retry cl) c t) h)"
        by (intro run_with_step [OF h] good_retry ref conjunct2 [OF closure_max [OF made [OF Some]]])
      then show ?thesis by (simp add: ws_step_def RetryTimer by_maker_def Some)
    qed (use same in \<open>simp add: ws_step_def RetryTimer by_maker_def\<close>)
  qed (use max in \<open>auto simp: ws_step_def intro!: run_with_step [OF h cl] good_mount good_connect good_disconnect good_send good_ping
      good_quiet_ops ref conjunct1 [OF unmount_keeps]\<close>)
qed

lemma ws_reach_ok: "ws_reach h \<Longrightarrow> hook_ok h"
proof (induction rule: ws_reach.induct)
  case (wr_init cfg)
  have "cfg\<lparr>cf_max_reconnects := cf_max_reconnects cfg\<rparr> = cfg" by simp
  then show ?case
    by (simp add: hook_ok_def ws_ok_def ref_ok_def init_hook_def init_client_def frames_to_def delay_ok_def closure_ok_def closes_over_def)
qed (simp add: hook_ok_step)

section \<open>A server that never accepts\<close>

text \<open>One refused attempt: the socket closes without having opened, then the retry timer fires.\<close>

definition refused_round :: "ws_config \<Rightarrow> ws_client \<Rightarrow> ws_client" where
  "refused_round cfg s =
     (case wc_ws s of None \<Rightarrow> s
      | Some i \<Rightarrow>
          let t = on_close cfg i s
          in case wc_timeouts t of [] \<Rightarrow> t | x # _ \<Rightarrow> retry_fires cfg None (fst x) t)"

definition trying :: "nat \<Rightarrow> ws_client \<Rightarrow> bool" where
  "trying n s \<longleftrightarrow> wc_attempts s = n \<and> wc_timeouts s = [] \<and> wc_retry_timer s = None \<and>
     \<not> wc_manual s \<and> \<not> wc_is_retry s \<and> length (wc_ready s) = Suc n \<and>
     (\<forall>i \<in> fst ` set (wc_ready s). i < wc_next_id s) \<and>
     (\<exists>i. wc_ws s = Some i \<and> map_get (wc_ready s) i = Some Connecting)"

lemma keys_set: "fst ` set (map_set k v m) = insert k (fst ` set m)"
  using keys_map_set [of k v m] by simp

lemma trying_round:
  assumes t: "trying n s" and auto: "cf_auto_connect cfg" and more: "Suc n < cf_max_reconnects cfg"
  shows "trying (Suc n) (refused_round cfg s)"
proof -
  obtain i where i: "wc_ws s = Some i" "map_get (wc_ready s) i = Some Connecting"
    using t by (auto simp: trying_def)
  let ?r = "map_set i Closed (wc_ready s)"
  have len: "length ?r = Suc n" using t i by (simp add: trying_def length_map_set)
  have lt: "j < wc_next_id s" if "j \<in> fst ` set ?r" for j
  proof -
    have "i \<in> fst ` set (wc_ready s)" using map_of_SomeD [OF i(2)] by force
    then have "j \<in> fst ` set (wc_ready s)" using that by (auto simp: keys_set)
    then show ?thesis using t by (auto simp: trying_def)
  qed
  have lt_i: "i < wc_next_id s" using lt by (simp add: keys_set)
  have lt_old: "a < wc_next_id s" if "(a, b) \<in> set (wc_ready s)" for a b
    using lt [of a] that by (force simp: keys_set)
  have new: "wc_next_id s + 2 \<notin> fst ` set ?r" using lt by fastforce
  let ?t = "on_close cfg i s"
  have T: "wc_timeouts ?t = [(Suc (wc_next_id s), wc_backoff s)]" "wc_attempts ?t = Suc n"
    "wc_ready ?t = ?r" "wc_next_id ?t = wc_next_id s + 2" "\<not> wc_is_retry ?t" "wc_ws ?t = Some i"
    using t i auto more by (simp_all add: on_close_def scheduleRetry_def Let_def trying_def)
  let ?u = "(clear_timeout (Some (Suc (wc_next_id s))) ?t)\<lparr>wc_retry_timer := None\<rparr>"
  let ?v = "(clear_interval (wc_countdown ?u) ?u)\<lparr>wc_next_in := None, wc_is_retry := True\<rparr>"
  have V: "wc_timeouts ?v = []" "wc_attempts ?v = Suc n" "wc_ready ?v = ?r" "wc_next_id ?v = wc_next_id s + 2"
    "wc_is_retry ?v" "wc_ws ?v = Some i" "wc_retry_timer ?v = None"
    using T by (simp_all add: clear_timeout_def)
  have "refused_round cfg s = connect_socket cfg None ?v"
    by (simp add: refused_round_def i T retry_fires_def Let_def)
  moreover have "map_get ?r (wc_next_id s + 2) = None" using new by (simp only: map_of_eq_None_iff not_False_eq_True)
  ultimately show ?thesis
    using V len lt unfolding trying_def
    by (auto simp: connect_socket_def Let_def is_open_def length_map_set keys_set clear_timeout_def)
      (use lt_i lt_old in \<open>fastforce intro: less_SucI\<close>)+
qed

lemma trying_last:
  assumes t: "trying n s" and more: "cf_max_reconnects cfg = Suc n"
  shows "wc_timeouts (refused_round cfg s) = [] \<and> length (wc_ready (refused_round cfg s)) = Suc n \<and>
    wc_error (refused_round cfg s) = Some (ErrMaxReached (Suc n)) \<and> \<not> wc_connected (refused_round cfg s)"
  using assms by (auto simp: refused_round_def trying_def on_close_def scheduleRetry_def Let_def clear_interval_def
      length_map_set split: option.splits)

lemma trying_start: "trying 0 (connect_socket cfg None init_client)"
  by (simp add: trying_def connect_socket_def init_client_def is_open_def Let_def clear_timeout_def)

lemma trying_rounds:
  "cf_auto_connect cfg \<Longrightarrow> n < cf_max_reconnects cfg \<Longrightarrow>
     trying n ((refused_round cfg ^^ n) (connect_socket cfg None init_client))"
  by (induction n) (simp_all add: trying_start trying_round)

section \<open>Sockets of the last render\<close>

text \<open>The closure of the last render is over its options; a socket that is made by anything but a retry timer is made by it.\<close>

definition current_closure :: "ws_hook \<Rightarrow> bool" where
  "current_closure h \<longleftrightarrow> wl_config (wh_closure h) = (wh_options h)\<lparr>cf_max_reconnects := wh_max h\<rparr>"

lemma current_step: "current_closure h \<Longrightarrow> current_closure (ws_step e h)"
  by (auto simp: current_closure_def ws_step_def render_hook_def next_closure_def by_maker_def Let_def split: ws_event.split option.split)

lemma current_reach: "ws_reach h \<Longrightarrow> current_closure h"
proof (induction rule: ws_reach.induct)
  case (wr_init cfg)
  then show ?case by (simp add: current_closure_def init_hook_def)
qed (simp add: current_step)

definition makes_socket :: "ws_event \<Rightarrow> ws_hook \<Rightarrow> nat \<Rightarrow> bool" where
  "makes_socket e h i \<longleftrightarrow> map_get (wc_ready (wh_client h)) i = None \<and> map_get (wc_ready (wh_client (ws_step e h))) i \<noteq> None"

definition new_ids :: "ws_client \<Rightarrow> ws_client \<Rightarrow> bool" where
  "new_ids s s' \<longleftrightarrow> (\<forall>i. map_get (wc_ready s) i = None \<longrightarrow> map_get (wc_ready s') i \<noteq> None \<longrightarrow> wc_next_id s \<le> i \<and> i < wc_next_id s')"

lemma new_ids_connect: "new_ids s (connect_socket cfg c s)"
  by (auto simp: new_ids_def connect_socket_def Let_def split: option.splits if_splits)

lemma ready_close_socket: "wc_ws s = w \<Longrightarrow> ref_ok s \<Longrightarrow> map_get (wc_ready (close_socket w s)) i = None \<longleftrightarrow> map_get (wc_ready s) i = None"
  by (auto simp: close_socket_def ref_ok_def split: option.split)

lemma ready_unmount: "ref_ok s \<Longrightarrow> map_get (wc_ready (unmount s)) i = None \<longleftrightarrow> map_get (wc_ready s) i = None"
  unfolding unmount_def Let_def by (subst ready_close_socket) (auto simp: ref_ok_def)

lemma ready_disconnect: "ref_ok s \<Longrightarrow> map_get (wc_ready (disconnect s)) i = None \<longleftrightarrow> map_get (wc_ready s) i = None"
  unfolding disconnect_def Let_def
  by (simp, subst ready_close_socket) (auto simp: ref_ok_def)

lemma ready_others:
  "wc_ready (snd (send_message d s)) = wc_ready s" "wc_ready (ping_tick now s) = wc_ready s" "wc_ready (on_message now m s) = wc_ready s"
  "wc_ready (on_error s) = wc_ready s" "wc_ready (countdown_tick s) = wc_ready s"
  by (simp_all add: send_message_def ping_tick_def write_frame_def on_message_def on_error_def countdown_tick_def Let_def
      split: option.split)

lemma next_unmount: "wc_next_id (unmount s) = wc_next_id s"
  by (simp add: unmount_def Let_def close_socket_def split: option.split)

lemma new_socket_is_current:
  assumes h: "hook_ok h" "current_closure h" and en: "ws_enabled e h" and e: "\<nexists>c t. e = RetryTimer c t" and i: "makes_socket e h i"
  shows "\<exists>cl. map_get (wh_made (ws_step e h)) i = Some cl \<and> cf_auth_token (wl_config cl) = cf_auth_token (wh_options (ws_step e h))"
proof -
  have ref: "ref_ok (wh_client h)" using h(1) by (simp add: hook_ok_def)
  have none: "map_get (wc_ready (wh_client h)) i = None" using i by (simp add: makes_socket_def)
  have run: ?thesis if s: "ws_step e h = run_with (wh_closure h1) f h1" and f: "new_ids (wh_client h1) (f (wh_client h1))"
      and h1: "wh_client h1 = wh_client h" for f h1
  proof -
    have "map_get (wc_ready (f (wh_client h1))) i \<noteq> None" using i by (simp add: makes_socket_def s)
    then have "wc_next_id (wh_client h1) \<le> i \<and> i < wc_next_id (f (wh_client h1))" using f none h1 by (simp add: new_ids_def)
    then have "map_get (wh_made (ws_step e h)) i = Some (wh_closure (ws_step e h))" by (simp add: s made_run_with)
    then show ?thesis using current_step [OF h(2), of e] by (simp add: current_closure_def)
  qed
  show ?thesis
  proof (cases e)
    case (Mount c)
    have "new_ids (wh_client h) (mount (wh_closure h) c (wh_client h))"
      using new_ids_connect by (simp add: mount_def new_ids_def)
    then show ?thesis by (intro run) (auto simp: ws_step_def Mount)
  next
    case (ConnectCall c)
    then show ?thesis by (intro run) (auto simp: ws_step_def intro: new_ids_connect)
  next
    case (Render cfg c)
    define h1 where "h1 = h\<lparr>wh_options := cfg, wh_closure := next_closure cfg h, wh_rendered := wh_rendered h @ [cfg]\<rparr>"
    define f where "f = (\<lambda>s. mount (wh_closure h1) c (unmount s))"
    have "new_ids (wh_client h) (f (wh_client h))"
      using new_ids_connect [of "unmount (wh_client h)" "wl_retry (wh_closure h1)" c] ready_unmount [OF ref]
      unfolding f_def mount_def by (cases "cf_auto_connect (wl_config (wh_closure h1))") (simp_all add: new_ids_def next_unmount del: not_None_eq)
    then have new: "new_ids (wh_client h1) (f (wh_client h1))" by (simp add: h1_def)
    have "ws_step e h = (if cfg = wh_options h then h1 else run_with (wh_closure h1) f h1)"
      by (simp add: ws_step_def Render render_hook_def Let_def h1_def f_def)
    moreover have "cfg \<noteq> wh_options h" using i calculation none by (auto simp: makes_socket_def h1_def)
    ultimately have "ws_step e h = run_with (wh_closure h1) f h1" by (simp only: if_False)
    then show ?thesis using new by (rule run) (simp add: h1_def)
  next
    case (SocketOpened lt j)
    then have False using i en
      by (auto simp: makes_socket_def ws_step_def ws_enabled_def by_maker_def on_open_fields split: option.splits if_splits)
    then show ?thesis ..
  next
    case (SocketClosed j)
    then have False using i en
      by (auto simp: makes_socket_def ws_step_def ws_enabled_def by_maker_def on_close_def Let_def split: option.splits if_splits)
    then show ?thesis ..
  qed (use i e ref in \<open>auto simp: makes_socket_def ws_step_def ready_unmount ready_disconnect ready_others\<close>)
qed

section \<open>Properties\<close>

text \<open>
  C7: Along every run of the socket hook, whatever the server, the user, the timers and the renders do, the backoff and every
  scheduled retry delay lie between 1 and 30 seconds, at most 100 outgoing messages are queued, and no event schedules a retry
  unless it leaves the number of failed attempts below the \<open>maxReconnects\<close> of the first render, the cap the ref keeps.
\<close>
theorem socket_bounds:
  "ws_reach h \<Longrightarrow>
     1000 \<le> wc_backoff (wh_client h) \<and> wc_backoff (wh_client h) \<le> 30000 \<and> length (wc_queue (wh_client h)) \<le> 100 \<and>
     (\<forall>x \<in> set (wc_timeouts (wh_client h)). 1000 \<le> snd x \<and> snd x \<le> 30000) \<and>
     (\<forall>e x. ws_enabled e h \<longrightarrow> x \<in> set (wc_timeouts (wh_client (ws_step e h))) \<longrightarrow> x \<notin> set (wc_timeouts (wh_client h)) \<longrightarrow>
        wc_attempts (wh_client (ws_step e h)) < cf_max_reconnects (hd (wh_rendered h)))"
proof -
  assume r: "ws_reach h"
  have ok: "hook_ok h" using r by (rule ws_reach_ok)
  have "wc_attempts (wh_client (ws_step e h)) < cf_max_reconnects (hd (wh_rendered h))"
    if "ws_enabled e h" "x \<in> set (wc_timeouts (wh_client (ws_step e h)))" "x \<notin> set (wc_timeouts (wh_client h))" for e x
  proof -
    note step = hook_ok_step [OF ok that(1)]
    then have "wc_attempts (wh_client (ws_step e h)) < wh_max (ws_step e h)" using that by (auto simp: no_retry_over_def)
    moreover have "wh_max (ws_step e h) = wh_max h"
      by (simp add: ws_step_def render_hook_def by_maker_def Let_def split: ws_event.split option.split)
    ultimately show ?thesis using ok by (simp add: hook_ok_def)
  qed
  then show ?thesis using ok unfolding hook_ok_def ws_ok_def delay_ok_def queue_cap_def by blast
qed

text \<open>The first connection, open: its hook and its log.\<close>

definition opened_demo :: "ws_config \<Rightarrow> ws_hook" where
  "opened_demo cfg = ws_step (SocketOpened None 0) (ws_step (Mount None) (init_hook cfg))"

definition token_config :: "string option \<Rightarrow> ws_config" where
  "token_config t = default_config\<lparr>cf_auth_token := t\<rparr>"

lemmas run_defs = ws_step_def run_with_def by_maker_def render_hook_def next_closure_def mount_def unmount_def disconnect_def
  on_close_def scheduleRetry_def retry_fires_def on_open_def connect_socket_def close_socket_def init_client_def init_hook_def
  token_config_def default_config_def is_open_def Let_def clear_timeout_def clear_interval_def write_frame_def flush_queue_def

lemma opened_demo_reach: "ws_reach (opened_demo (token_config t))"
  unfolding opened_demo_def
  by (intro ws_reach.intros) (simp_all add: ws_enabled_def run_defs)

lemma opened_demo_frames:
  "frames_to 0 (wh_client (opened_demo (token_config t))) = auth_frames (token_config t) @ [FSubscribe]"
  by (auto simp: opened_demo_def auth_frames_def frames_to_def run_defs upt_rec split: option.split)

theorem socket_bounds_witness:
  "wc_attempts (wh_client (ws_step (SocketClosed 0) (opened_demo default_config))) < 20"
proof -
  have d: "default_config = token_config None" by (simp add: token_config_def default_config_def)
  have en: "ws_enabled (SocketClosed 0) (opened_demo (token_config None))" by (simp add: opened_demo_def ws_enabled_def run_defs upt_rec)
  have timer: "(3, 1000) \<in> set (wc_timeouts (wh_client (ws_step (SocketClosed 0) (opened_demo (token_config None)))))"
    "(3, 1000) \<notin> set (wc_timeouts (wh_client (opened_demo (token_config None))))"
    "cf_max_reconnects (hd (wh_rendered (opened_demo (token_config None)))) = 20"
    by (simp_all add: opened_demo_def run_defs upt_rec)
  show ?thesis using socket_bounds [OF opened_demo_reach, of None] en timer unfolding d by (metis (no_types))
qed

text \<open>
  C12: The handshake comes first, with the token its socket was made for: on every socket that was ever written to, the log starts
  with the authentication frame of the options that the \<open>connect\<close> which made the socket closed over, options of some render, if
  they have a token, directly followed by the subscribe or state-sync frame; no queued or user message and no ping can precede
  them. A socket made by mounting, rendering or calling \<open>connect\<close> is made for the token of the last render. One made by a
  retry timer need not be: see \<open>retry_uses_old_token\<close>.
\<close>
theorem handshake_first:
  assumes "ws_reach h"
  shows "(frames_to i (wh_client h) \<noteq> [] \<longrightarrow>
      (\<exists>cl cfg f rest. map_get (wh_made h) i = Some cl \<and> cfg \<in> set (wh_rendered h) \<and> cf_auth_token (wl_config cl) = cf_auth_token cfg \<and>
         frames_to i (wh_client h) = auth_frames cfg @ f # rest \<and> (f = FSubscribe \<or> (\<exists>t. f = FSyncState t)))) \<and>
    (\<forall>e j. ws_enabled e h \<longrightarrow> (\<nexists>c t. e = RetryTimer c t) \<longrightarrow> makes_socket e h j \<longrightarrow>
      (\<exists>cl. map_get (wh_made (ws_step e h)) j = Some cl \<and> cf_auth_token (wl_config cl) = cf_auth_token (wh_options (ws_step e h))))"
proof (intro conjI impI allI)
  have ok: "hook_ok h" using assms by (rule ws_reach_ok)
  show "\<exists>cl. map_get (wh_made (ws_step e h)) j = Some cl \<and> cf_auth_token (wl_config cl) = cf_auth_token (wh_options (ws_step e h))"
    if "ws_enabled e h" "\<nexists>c t. e = RetryTimer c t" "makes_socket e h j" for e j
    using new_socket_is_current [OF ok current_reach [OF assms] that] .
  assume written: "frames_to i (wh_client h) \<noteq> []"
  then have start: "starts_handshake (owner h i) (frames_to i (wh_client h))" and "i < wc_next_id (wh_client h)"
    using ok unfolding hook_ok_def ws_ok_def by blast+
  then obtain cl where cl: "map_get (wh_made h) i = Some cl" "closure_ok h cl" using ok unfolding hook_ok_def by blast
  then obtain cfg where cfg: "cfg \<in> set (wh_rendered h)" "wl_config cl = cfg\<lparr>cf_max_reconnects := wh_max h\<rparr>"
    by (auto simp: closure_ok_def closes_over_def)
  have "auth_frames (owner h i) = auth_frames cfg" by (simp add: owner_def cl(1) cfg(2) auth_frames_def)
  then show "\<exists>cl cfg f rest. map_get (wh_made h) i = Some cl \<and> cfg \<in> set (wh_rendered h) \<and>
      cf_auth_token (wl_config cl) = cf_auth_token cfg \<and>
      frames_to i (wh_client h) = auth_frames cfg @ f # rest \<and> (f = FSubscribe \<or> (\<exists>t. f = FSyncState t))"
    using start cl(1) cfg unfolding starts_handshake_def
    by (intro exI [of _ cl] exI [of _ cfg]) auto
qed

theorem handshake_first_witness:
  "\<exists>f rest. frames_to 0 (wh_client (opened_demo (token_config (Some ''t'')))) = FAuth ''t'' # f # rest"
proof -
  let ?h = "opened_demo (token_config (Some ''t''))"
  have written: "frames_to 0 (wh_client ?h) \<noteq> []" by (simp add: opened_demo_frames)
  have rendered: "set (wh_rendered ?h) = {token_config (Some ''t'')}" by (simp add: opened_demo_def run_defs)
  have auth: "auth_frames (token_config (Some ''t'')) = [FAuth ''t'']" by (simp add: auth_frames_def token_config_def)
  show ?thesis
    using handshake_first [OF opened_demo_reach, of 0 "Some ''t''"] written unfolding rendered by (auto simp: auth)
qed

text \<open>
  Nothing queued while offline is lost or reordered by a reconnect: when a socket opens, the frames
  written are the handshake and then every queued message, oldest first, on that socket, and the
  queue is empty afterwards.
\<close>
theorem open_flushes_queue:
  "wc_sent (on_open cfg lt i s) =
     wc_sent s @ map (\<lambda>f. (i, f)) (handshake cfg lt s @ map FData (wc_queue s)) \<and> wc_queue (on_open cfg lt i s) = []"
  by (simp only: on_open_fields simp_thms)

text \<open>
  C13: The retry cap is reached: against a server that refuses every connection, a client with
  automatic reconnects makes exactly \<open>maxReconnects\<close> connection attempts, then no timer is left
  running and the error says so.
\<close>
theorem retries_end_at_cap:
  assumes "cf_auto_connect cfg" "0 < cf_max_reconnects cfg"
  shows "let s = (refused_round cfg ^^ cf_max_reconnects cfg) (connect_socket cfg None init_client)
    in length (wc_ready s) = cf_max_reconnects cfg \<and> wc_timeouts s = [] \<and> \<not> wc_connected s \<and>
       wc_error s = Some (ErrMaxReached (cf_max_reconnects cfg))"
proof -
  obtain n where n: "cf_max_reconnects cfg = Suc n" using assms(2) by (cases "cf_max_reconnects cfg") auto
  show ?thesis
    using trying_last [OF trying_rounds [OF assms(1), of n] n] by (simp add: n Let_def)
qed

theorem retries_end_at_cap_witness:
  "length (wc_ready ((refused_round default_config ^^ 20) (connect_socket default_config None init_client))) = 20"
  using retries_end_at_cap [of default_config] by (simp add: default_config_def Let_def)

section \<open>The token of a retry\<close>

text \<open>
  The retry timer calls the \<open>connect\<close> of the render that made \<open>scheduleRetry\<close>. After a login the first connection authenticates;
  when it is lost, the automatic reconnect runs the \<open>connect\<close> of the first render and sends no authentication frame.
\<close>

definition login_run :: "ws_hook" where
  "login_run = fold ws_step [Render (token_config (Some ''t'')) None, SocketOpened None 2, SocketClosed 2, RetryTimer None 5,
     SocketOpened None 6] (opened_demo (token_config None))"

lemma login_run_reach: "ws_reach login_run"
  unfolding login_run_def fold.simps comp_def id_def
  by (intro ws_reach.intros opened_demo_reach) (simp_all add: opened_demo_def ws_enabled_def run_defs upt_rec)

theorem retry_uses_old_token:
  "cf_auth_token (wh_options login_run) = Some ''t'' \<and> frames_to 2 (wh_client login_run) = [FAuth ''t'', FSubscribe] \<and>
   wc_ws (wh_client login_run) = Some 6 \<and> is_open (wh_client login_run) (Some 6) \<and> frames_to 6 (wh_client login_run) = [FSubscribe]"
  by (simp add: login_run_def opened_demo_def frames_to_def run_defs upt_rec)

section \<open>The close event of a replaced socket\<close>

text \<open>\<open>disconnect()\<close> followed by \<open>connect()\<close> resets \<open>manualCloseRef\<close> before the old socket's close event
  arrives. When it does, the hook reports the client as disconnected and schedules a retry although
  the new socket is open.\<close>

definition replaced_run :: ws_hook where
  "replaced_run = fold ws_step [DisconnectCall, ConnectCall None, SocketOpened None 2, SocketClosed 0] (opened_demo (token_config None))"

lemma replaced_run_stale:
  "wc_connected (wh_client replaced_run) = False \<and> is_open (wh_client replaced_run) (wc_ws (wh_client replaced_run)) \<and>
   wc_timeouts (wh_client replaced_run) \<noteq> []"
  by (simp add: replaced_run_def opened_demo_def run_defs upt_rec)

lemma replaced_run_reach: "ws_reach replaced_run"
  unfolding replaced_run_def fold.simps comp_def id_def
  by (intro ws_reach.intros opened_demo_reach) (simp_all add: opened_demo_def ws_enabled_def run_defs upt_rec)

end
