(* ===== verification/Kalman.thy ===== *)
theory Kalman
  imports Interfaces
begin

text \<open>
  The Kalman filters of \<open>web-ui/src/utils/kalmanMath.js\<close>: the scalar filter that smooths a price and
  the position/velocity filter. An instance is a record; \<open>update\<close> returns the new instance. The laws
  show that the scalar filter's variance stays positive and below the measurement noise, that its gain
  is a proper weight, so the estimate is an average of prior estimate and measurement; and that the
  two-dimensional update does not compute the covariance its comment announces.
\<close>

section \<open>The scalar filter\<close>

record kalman1 =
  k1_x :: jsnum
  k1_p :: jsnum
  k1_q :: jsnum
  k1_r :: jsnum
  k1_k :: jsnum
  k1_gains :: "jsnum list"
  k1_estimates :: "jsnum list"
  k1_variances :: "jsnum list"

definition kalman1_new :: "jsnum \<Rightarrow> jsnum \<Rightarrow> jsnum \<Rightarrow> jsnum \<Rightarrow> kalman1" where
  "kalman1_new processNoise measurementNoise initialEstimate initialVariance =
     \<lparr>k1_x = initialEstimate, k1_p = initialVariance, k1_q = processNoise, k1_r = measurementNoise,
      k1_k = 0, k1_gains = [], k1_estimates = [], k1_variances = []\<rparr>"

definition kalman1_update :: "jsnum \<Rightarrow> kalman1 \<Rightarrow> jsnum \<times> kalman1" where
  "kalman1_update measurement f0 =
     (let f1 = f0\<lparr>k1_p := k1_p f0 + k1_q f0\<rparr>;
          f2 = f1\<lparr>k1_k := k1_p f1 / (k1_p f1 + k1_r f1)\<rparr>;
          f3 = f2\<lparr>k1_x := k1_x f2 + k1_k f2 * (measurement - k1_x f2)\<rparr>;
          f4 = f3\<lparr>k1_p := (1 - k1_k f3) * k1_p f3\<rparr>;
          f5 = f4\<lparr>k1_gains := k1_gains f4 @ [k1_k f4], k1_estimates := k1_estimates f4 @ [k1_x f4],
                  k1_variances := k1_variances f4 @ [k1_p f4]\<rparr>;
          f6 = (if length (k1_gains f5) > 200
                then f5\<lparr>k1_gains := tl (k1_gains f5), k1_estimates := tl (k1_estimates f5),
                        k1_variances := tl (k1_variances f5)\<rparr>
                else f5)
      in (k1_x f6, f6))"

definition kalman1_run :: "jsnum list \<Rightarrow> kalman1 \<Rightarrow> kalman1" where
  "kalman1_run zs f = foldl (\<lambda>f z. snd (kalman1_update z f)) f zs"

section \<open>The position and velocity filter\<close>

record kalman2 =
  k2_x0 :: jsnum
  k2_x1 :: jsnum
  k2_p00 :: jsnum
  k2_p01 :: jsnum
  k2_p10 :: jsnum
  k2_p11 :: jsnum
  k2_q00 :: jsnum
  k2_q11 :: jsnum
  k2_r00 :: jsnum
  k2_dt :: jsnum
  k2_estimates :: "jsnum list"
  k2_velocities :: "jsnum list"

text \<open>The matrices \<open>F = [[1, dt], [0, 1]]\<close> and \<open>H = [[1, 0]]\<close> are constant, as are the zero entries of \<open>Q\<close>
  and \<open>R\<close>; the record keeps the entries that vary.\<close>

definition kalman2_new :: "jsnum \<Rightarrow> jsnum \<Rightarrow> jsnum \<Rightarrow> kalman2" where
  "kalman2_new processNoise measurementNoise dt =
     \<lparr>k2_x0 = 0, k2_x1 = 0, k2_p00 = 1, k2_p01 = 0, k2_p10 = 0, k2_p11 = 1,
      k2_q00 = processNoise * dt, k2_q11 = processNoise * dt, k2_r00 = measurementNoise, k2_dt = dt,
      k2_estimates = [], k2_velocities = []\<rparr>"

definition kalman2_predict :: "kalman2 \<Rightarrow> kalman2" where
  "kalman2_predict f =
     (let dt = k2_dt f; p00 = k2_p00 f; p01 = k2_p01 f; p10 = k2_p10 f; p11 = k2_p11 f
      in f\<lparr>k2_x0 := 1 * k2_x0 f + dt * k2_x1 f, k2_x1 := 0 * k2_x0 f + 1 * k2_x1 f,
           k2_p00 := p00 + dt * p10 + dt * (p01 + dt * p11) + k2_q00 f,
           k2_p01 := p01 + dt * p11 + 0, k2_p10 := p10 + dt * p11 + 0, k2_p11 := p11 + k2_q11 f\<rparr>)"

definition kalman2_update :: "jsnum \<Rightarrow> kalman2 \<Rightarrow> (jsnum \<times> jsnum) \<times> kalman2" where
  "kalman2_update measurement f0 =
     (let f1 = kalman2_predict f0;
          S = 1 * k2_p00 f1 * 1 + k2_r00 f1;
          K0 = k2_p00 f1 * 1 / S; K1 = k2_p10 f1 * 1 / S;
          y = measurement - 1 * k2_x0 f1;
          f2 = f1\<lparr>k2_x0 := k2_x0 f1 + K0 * y, k2_x1 := k2_x1 f1 + K1 * y,
                  k2_p00 := (1 - K0 * 1) * k2_p00 f1, k2_p01 := (1 - K0 * 1) * k2_p01 f1,
                  k2_p10 := (1 - K1 * 1) * k2_p10 f1, k2_p11 := (1 - K1 * 1) * k2_p11 f1\<rparr>;
          f3 = f2\<lparr>k2_estimates := k2_estimates f2 @ [k2_x0 f2], k2_velocities := k2_velocities f2 @ [k2_x1 f2]\<rparr>;
          f4 = (if length (k2_estimates f3) > 200
                then f3\<lparr>k2_estimates := tl (k2_estimates f3), k2_velocities := tl (k2_velocities f3)\<rparr> else f3)
      in ((k2_x0 f4, k2_x1 f4), f4))"

section \<open>Laws of the scalar filter\<close>

definition kalman1_ok :: "real \<Rightarrow> real \<Rightarrow> real \<Rightarrow> kalman1 \<Rightarrow> bool" where
  "kalman1_ok q lo hi f \<longleftrightarrow> (\<exists>x p r. k1_x f = Fin x \<and> k1_p f = Fin p \<and> k1_q f = Fin q \<and> k1_r f = Fin r \<and>
     0 < p \<and> 0 < r \<and> lo \<le> x \<and> x \<le> hi \<and>
     length (k1_gains f) \<le> 200 \<and> length (k1_estimates f) = length (k1_gains f) \<and>
     length (k1_variances f) = length (k1_gains f) \<and>
     (\<forall>g \<in> set (k1_gains f). \<exists>k. g = Fin k \<and> 0 < k \<and> k < 1) \<and>
     (\<forall>v \<in> set (k1_variances f). \<exists>w. v = Fin w \<and> 0 < w \<and> w < r) \<and>
     (\<forall>e \<in> set (k1_estimates f). \<exists>y. e = Fin y \<and> lo \<le> y \<and> y \<le> hi))"

lemma gain_bounds:
  fixes p r :: real
  assumes "0 < p" "0 < r"
  shows "0 < p / (p + r)" "p / (p + r) < 1" "0 < (1 - p / (p + r)) * p" "(1 - p / (p + r)) * p < r"
proof -
  have pr: "0 < p + r" using assms by simp
  show "0 < p / (p + r)" "p / (p + r) < 1" using assms by simp_all
  have "(1 - p / (p + r)) * p = r * (p / (p + r))" using pr by (simp add: field_simps)
  moreover have "r * (p / (p + r)) < r * 1" by (rule mult_strict_left_mono) (use assms in auto)
  ultimately show "0 < (1 - p / (p + r)) * p" "(1 - p / (p + r)) * p < r" using assms pr by simp_all
qed

lemma blend_between:
  fixes k x z lo hi :: real
  assumes "0 < k" "k < 1" "lo \<le> x" "x \<le> hi" "lo \<le> z" "z \<le> hi"
  shows "lo \<le> x + k * (z - x)" "x + k * (z - x) \<le> hi"
  using blend_le [of k x hi z] blend_ge [of k lo x z] assms by (simp_all add: blend_def algebra_simps)

lemma in_set_tl: "x \<in> set (tl xs) \<Longrightarrow> x \<in> set xs"
  by (cases xs) auto

lemma kalman1_update_ok:
  assumes ok: "kalman1_ok q lo hi f" and q: "0 \<le> q" and z: "lo \<le> z" "z \<le> hi"
  shows "kalman1_ok q lo hi (snd (kalman1_update (Fin z) f))"
proof -
  obtain x p r where f: "k1_x f = Fin x" "k1_p f = Fin p" "k1_q f = Fin q" "k1_r f = Fin r"
      "0 < p" "0 < r" "lo \<le> x" "x \<le> hi" "length (k1_gains f) \<le> 200" "length (k1_estimates f) = length (k1_gains f)"
      "length (k1_variances f) = length (k1_gains f)"
    and gs: "\<forall>g \<in> set (k1_gains f). \<exists>k. g = Fin k \<and> 0 < k \<and> k < 1"
    and vs: "\<forall>v \<in> set (k1_variances f). \<exists>w. v = Fin w \<and> 0 < w \<and> w < r"
    and es: "\<forall>e \<in> set (k1_estimates f). \<exists>y. e = Fin y \<and> lo \<le> y \<and> y \<le> hi"
    using ok unfolding kalman1_ok_def by blast
  let ?p = "p + q"
  have pos: "0 < ?p" "?p + r \<noteq> 0" using f q by auto
  define k where "k = ?p / (?p + r)"
  have k: "0 < k" "k < 1" "0 < (1 - k) * ?p" "(1 - k) * ?p < r"
    using gain_bounds [of ?p r] pos f by (simp_all add: k_def)
  note e = blend_between [OF k(1,2) f(7,8) z]
  let ?gs = "k1_gains f @ [Fin k]" and ?es = "k1_estimates f @ [Fin (x + k * (z - x))]"
    and ?vs = "k1_variances f @ [Fin ((1 - k) * ?p)]"
  define cut where "cut = (\<lambda>xs::jsnum list. if length ?gs > 200 then tl xs else xs)"
  have u: "snd (kalman1_update (Fin z) f) = f\<lparr>k1_p := Fin ((1 - k) * ?p), k1_k := Fin k, k1_x := Fin (x + k * (z - x)),
      k1_gains := cut ?gs, k1_estimates := cut ?es, k1_variances := cut ?vs\<rparr>"
    using f pos by (simp add: kalman1_update_def Let_def k_def cut_def)
  have sub: "y \<in> set (cut xs) \<Longrightarrow> y \<in> set xs" for y xs by (auto simp: cut_def in_set_tl split: if_splits)
  have "length (cut ?gs) \<le> 200" "length (cut ?es) = length (cut ?gs)" "length (cut ?vs) = length (cut ?gs)"
    using f by (auto simp: cut_def)
  moreover have "\<forall>g \<in> set (cut ?gs). \<exists>k. g = Fin k \<and> 0 < k \<and> k < 1"
    "\<forall>v \<in> set (cut ?vs). \<exists>w. v = Fin w \<and> 0 < w \<and> w < r"
    "\<forall>e \<in> set (cut ?es). \<exists>y. e = Fin y \<and> lo \<le> y \<and> y \<le> hi"
    using gs vs es k e by (auto dest!: sub)
  ultimately show ?thesis unfolding kalman1_ok_def u using f k e by simp
qed

lemma kalman1_run_ok:
  "kalman1_ok q lo hi f \<Longrightarrow> 0 \<le> q \<Longrightarrow> \<forall>z \<in> set zs. lo \<le> z \<and> z \<le> hi \<Longrightarrow> kalman1_ok q lo hi (kalman1_run (map Fin zs) f)"
  unfolding kalman1_run_def by (induction zs arbitrary: f) (simp_all add: kalman1_update_ok)

section \<open>Properties\<close>

text \<open>
  Along any series of measurements the scalar Kalman filter stays well-defined: every recorded gain
  lies strictly between 0 and 1, every posterior variance is positive and below the measurement noise,
  every estimate stays in the range of the measurements and the initial estimate, and the three
  histories have the same length, at most 200.
\<close>
theorem kalman_1d_sound:
  assumes "0 \<le> q" "0 < r" "0 < p0" "lo \<le> x0" "x0 \<le> hi" "\<forall>z \<in> set zs. lo \<le> z \<and> z \<le> hi"
  shows "let f = kalman1_run (map Fin zs) (kalman1_new (Fin q) (Fin r) (Fin x0) (Fin p0))
    in (\<forall>g \<in> set (k1_gains f). \<exists>k. g = Fin k \<and> 0 < k \<and> k < 1) \<and>
       (\<forall>v \<in> set (k1_variances f). \<exists>w. v = Fin w \<and> 0 < w) \<and>
       (\<forall>e \<in> set (k1_estimates f). \<exists>y. e = Fin y \<and> lo \<le> y \<and> y \<le> hi) \<and>
       length (k1_estimates f) \<le> 200 \<and> length (k1_gains f) = length (k1_estimates f) \<and>
       length (k1_variances f) = length (k1_estimates f)"
proof -
  have "kalman1_ok q lo hi (kalman1_new (Fin q) (Fin r) (Fin x0) (Fin p0))"
    using assms by (simp add: kalman1_ok_def kalman1_new_def)
  from kalman1_run_ok [OF this assms(1,6)] show ?thesis
    unfolding kalman1_ok_def Let_def by fastforce
qed

theorem kalman_1d_sound_witness:
  "length (k1_estimates (kalman1_run (map Fin [1, 3]) (kalman1_new (Fin 1) (Fin 1) (Fin 2) (Fin 1)))) \<le> 200"
  using kalman_1d_sound [of 1 1 1 1 2 3 "[1, 3]"] by (simp add: Let_def)

section \<open>The covariance of the two-dimensional filter\<close>

text \<open>The comment states the update \<open>P = (I - K H) P\<close>, which keeps a symmetric \<open>P\<close> symmetric. The code scales
  the second row by \<open>1 - K[1]\<close> instead of subtracting \<open>K[1]\<close> times the first row: already the first
  update of a fresh filter leaves \<open>P\<close> with two different off-diagonal entries.\<close>

lemma kalman2_loses_symmetry:
  "let f = snd (kalman2_update z (kalman2_new 0 1 1)) in k2_p01 f = Fin (1 / 3) \<and> k2_p10 f = Fin (2 / 3)"
  by (simp add: kalman2_update_def kalman2_predict_def kalman2_new_def Let_def)

end
