(* ===== verification/KMeans.thy ===== *)
theory KMeans
  imports JsText
begin

text \<open>
  K-means clustering of \<open>web-ui/src/utils/kmeansMath.js\<close>: feature extraction, k-means++ seeding, Lloyd's
  iterations, silhouette score and normalisation. A point is an array of numbers. The random numbers
  of the seeding are an argument: the list of the values \<open>rng()\<close> returns, consumed from the front.
  The laws show that an assignment step gives every point a nearest centroid, that labels stay
  within range, and that normalised features lie in the unit interval.
\<close>

section \<open>Features\<close>

record features =
  ft_mean :: jsnum
  ft_vol :: jsnum
  ft_skew :: jsnum
  ft_kurt :: jsnum
  ft_mar :: jsnum
  ft_ac1 :: jsnum
  ft_r2 :: jsnum
  ft_index :: nat

definition window_features :: "jsnum list \<Rightarrow> nat \<Rightarrow> features" where
  "window_features window i =
     (let n = length window;
          mean = jsum window / jnat n;
          variance = jsum (map (\<lambda>r. (r - mean) ^ 2) window) / jnat n;
          vol = jsqrt variance;
          skew = (if vol > 0 then jsum (map (\<lambda>r. ((r - mean) / vol) ^ 3) window) / jnat n else 0);
          kurt = (if vol > 0 then jsum (map (\<lambda>r. ((r - mean) / vol) ^ 4) window) / jnat n - 3 else 0);
          mar = jsum (map abs window) / jnat n;
          ac1Num = for_loop 1 n (\<lambda>j s. s + (rd window j - mean) * (rd window (j - 1) - mean)) 0;
          ac1Den = for_loop 0 n (\<lambda>j s. s + (rd window j - mean) ^ 2) 0;
          ac1 = (if ac1Den > 0 then ac1Num / ac1Den else 0);
          xMean = (jnat n - 1) / 2;
          sxy = for_loop 0 n (\<lambda>j s. s + (jnat j - xMean) * (rd window j - mean)) 0;
          sxx = for_loop 0 n (\<lambda>j s. s + (jnat j - xMean) ^ 2) 0;
          syy = for_loop 0 n (\<lambda>j s. s + (rd window j - mean) ^ 2) 0;
          r2 = (if sxx > 0 \<and> syy > 0 then (sxy / jsqrt (sxx * syy)) ^ 2 else 0)
      in \<lparr>ft_mean = mean, ft_vol = vol, ft_skew = skew, ft_kurt = kurt, ft_mar = mar, ft_ac1 = ac1,
          ft_r2 = r2, ft_index = i\<rparr>)"

definition extractFeatures :: "jsnum list \<Rightarrow> nat \<Rightarrow> features list" where
  "extractFeatures returns windowSize =
     map (\<lambda>i. window_features (drop (i - windowSize) (take i returns)) i) [windowSize..<length returns]"

section \<open>Distances and seeding\<close>

definition sqDistance :: "jsnum list \<Rightarrow> jsnum list \<Rightarrow> jsnum" where
  "sqDistance a b = for_loop 0 (length a) (\<lambda>i d. d + (rd a i - rd b i) ^ 2) 0"

definition euclidean :: "jsnum list \<Rightarrow> jsnum list \<Rightarrow> jsnum" where
  "euclidean a b = jsqrt (sqDistance a b)"

definition min_dist :: "jsnum list list \<Rightarrow> jsnum list \<Rightarrow> jsnum" where
  "min_dist centroids p = foldl (\<lambda>m cent. let d = sqDistance p cent in if d < m then d else m) PInf centroids"

text \<open>\<open>Math.floor(rng() * n)\<close> as an index.\<close>

definition random_index :: "jsnum \<Rightarrow> nat \<Rightarrow> nat" where
  "random_index u n = (case jfloor (u * jnat n) of Fin x \<Rightarrow> nat \<lfloor>x\<rfloor> | _ \<Rightarrow> n)"

text \<open>The weighted draw: the first index at which the remaining \<open>r\<close> drops to 0 or below, else 0.\<close>

fun weighted_index :: "jsnum \<Rightarrow> nat \<Rightarrow> jsnum list \<Rightarrow> nat" where
  "weighted_index r i [] = 0"
| "weighted_index r i (d # ds) = (if r - d \<le> 0 then i else weighted_index (r - d) (Suc i) ds)"

definition next_centroid :: "jsnum list list \<Rightarrow> jsnum list list \<Rightarrow> jsnum \<Rightarrow> jsnum list" where
  "next_centroid data centroids u =
     (let dists = map (min_dist centroids) data; total = jsum dists
      in if jeq total 0 then data ! random_index u (length data)
         else data ! weighted_index (u * total) 0 dists)"

fun seed_loop :: "jsnum list list \<Rightarrow> jsnum list \<Rightarrow> nat \<Rightarrow> jsnum list list \<Rightarrow> jsnum list list" where
  "seed_loop data us 0 centroids = centroids"
| "seed_loop data us (Suc c) centroids =
     seed_loop data (tl us) c (centroids @ [next_centroid data centroids (hd us)])"

definition kmeansPlusPlus :: "jsnum list list \<Rightarrow> nat \<Rightarrow> jsnum list \<Rightarrow> jsnum list list" where
  "kmeansPlusPlus data k us =
     (if length data < k then data
      else seed_loop data (tl us) (k - 1) [data ! random_index (hd us) (length data)])"

section \<open>Lloyd's iterations\<close>

text \<open>The index of the nearest centroid, the first one on ties; with it, its distance.\<close>

definition nearest :: "jsnum list list \<Rightarrow> jsnum list \<Rightarrow> jsnum \<times> nat" where
  "nearest centroids p =
     for_loop 0 (length centroids)
       (\<lambda>c (minDist, best). let d = sqDistance p (centroids ! c)
          in if d < minDist then (d, c) else (minDist, best)) (PInf, 0)"

definition assign_step :: "jsnum list list \<Rightarrow> jsnum list list \<Rightarrow> nat list \<Rightarrow> nat list" where
  "assign_step data centroids labels = map (\<lambda>i. snd (nearest centroids (data ! i))) [0..<length data]"

definition mean_point :: "jsnum list list \<Rightarrow> jsnum list" where
  "mean_point cluster =
     map (\<lambda>j. jsum (map (\<lambda>p. rd p j) cluster) / jnat (length cluster)) [0..<length (hd cluster)]"

definition members :: "jsnum list list \<Rightarrow> nat list \<Rightarrow> nat \<Rightarrow> jsnum list list" where
  "members data labels c = map (\<lambda>i. data ! i) (filter (\<lambda>i. labels ! i = c) [0..<length data])"

definition update_step :: "jsnum list list \<Rightarrow> nat list \<Rightarrow> jsnum list list \<Rightarrow> jsnum list list" where
  "update_step data labels centroids =
     map (\<lambda>c. let cluster = members data labels c
               in if cluster = [] then centroids ! c else mean_point cluster) [0..<length centroids]"

text \<open>The \<open>iter\<close> loop with \<open>break\<close>: the fuel is the number of iterations left.\<close>

fun lloyd :: "nat \<Rightarrow> jsnum list list \<Rightarrow> nat list \<Rightarrow> jsnum list list \<Rightarrow> nat list \<times> jsnum list list" where
  "lloyd 0 data labels centroids = (labels, centroids)"
| "lloyd (Suc fuel) data labels centroids =
     (let labels' = assign_step data centroids labels
      in if labels' = labels then (labels, centroids)
         else lloyd fuel data labels' (update_step data labels' centroids))"

definition kmeansIterate :: "jsnum list list \<Rightarrow> jsnum list list \<Rightarrow> nat \<Rightarrow> nat list \<times> jsnum list list" where
  "kmeansIterate data centroids maxIter = lloyd maxIter data (replicate (length data) 0) centroids"

definition cluster_cost :: "jsnum list list \<Rightarrow> nat list \<Rightarrow> jsnum list list \<Rightarrow> jsnum" where
  "cluster_cost data labels centroids =
     for_loop 0 (length data)
       (\<lambda>i w. for_loop 0 (length (data ! i))
          (\<lambda>j w. w + (rd (data ! i) j - rd (centroids ! (labels ! i)) j) ^ 2) w) 0"

definition kmeans :: "jsnum list list \<Rightarrow> nat \<Rightarrow> nat \<Rightarrow> jsnum list \<Rightarrow> nat list \<times> jsnum list list \<times> jsnum" where
  "kmeans data k maxIter us =
     (if length data < k then (map (\<lambda>i. i mod k) [0..<length data], data, 0)
      else case kmeansIterate data (kmeansPlusPlus data k us) maxIter of
        (labels, centroids) \<Rightarrow> (labels, centroids, cluster_cost data labels centroids))"

section \<open>Silhouette and normalisation\<close>

definition mean_distance :: "jsnum list list \<Rightarrow> nat \<Rightarrow> nat list \<Rightarrow> jsnum \<times> nat" where
  "mean_distance data i js = foldl (\<lambda>(s, c) j. (s + euclidean (data ! i) (data ! j), c + 1)) (0, 0) js"

definition silhouetteScore :: "jsnum list list \<Rightarrow> nat list \<Rightarrow> nat \<Rightarrow> jsnum" where
  "silhouetteScore data labels k =
     (if k < 2 then 0
      else let n = length data;
               total = for_loop 0 n
                 (\<lambda>i t.
                    let ci = labels ! i;
                        a = (case mean_distance data i (filter (\<lambda>j. \<not> (i = j \<or> labels ! j \<noteq> ci)) [0..<n]) of
                               (aSum, aCount) \<Rightarrow> if aCount > 0 then aSum / jnat aCount else 0);
                        b = for_loop 0 k
                          (\<lambda>c b. if c = ci then b
                             else case mean_distance data i (filter (\<lambda>j. labels ! j = c) [0..<n]) of
                               (bSum, bCount) \<Rightarrow> if bCount > 0 then jmin b (bSum / jnat bCount) else b) PInf
                    in if b = PInf then t else t + (b - a) / jmax a b) 0
           in if n > 0 then total / jnat n else 0)"

record feature_stat =
  fs_min :: jsnum
  fs_max :: jsnum

text \<open>\<open>f[k]\<close> is read as the \<open>k\<close>-th entry of a feature row.\<close>

definition feature_stats :: "jsnum list list \<Rightarrow> nat list \<Rightarrow> (nat \<times> feature_stat) list" where
  "feature_stats fs ks = map (\<lambda>k. let vals = map (\<lambda>f. rd f k) fs
     in (k, \<lparr>fs_min = jmin_list vals, fs_max = jmax_list vals\<rparr>)) ks"

definition normalize :: "jsnum list list \<Rightarrow> nat list \<Rightarrow> jsnum list list \<times> (nat \<times> feature_stat) list" where
  "normalize fs ks =
     (let stats = feature_stats fs ks
      in (map (\<lambda>f. map (\<lambda>(k, s). if fs_max s - fs_min s > 0 then (rd f k - fs_min s) / (fs_max s - fs_min s) else 0) stats) fs,
          stats))"

section \<open>Laws\<close>

lemma sqDistance_Fin:
  assumes "length b = length a"
  shows "sqDistance (map Fin a) (map Fin b) = Fin (\<Sum>i = 0..<length a. (a ! i - b ! i) ^ 2)"
proof -
  have "for_loop 0 (length a) (\<lambda>i d. d + (rd (map Fin a) i - rd (map Fin b) i) ^ 2) (Fin 0) =
      Fin (\<Sum>i = 0..<length a. (a ! i - b ! i) ^ 2)"
    by (rule for_loop_invariant [where P = "\<lambda>n s. s = Fin (\<Sum>i = 0..<n. (a ! i - b ! i) ^ 2)"]) (use assms in auto)
  then show ?thesis by (simp add: sqDistance_def)
qed

lemma nearest_min:
  assumes "centroids \<noteq> []" and fin: "\<And>c. c < length centroids \<Longrightarrow> is_fin (sqDistance p (centroids ! c))"
  shows "snd (nearest centroids p) < length centroids \<and>
    (\<forall>c < length centroids. sqDistance p (centroids ! snd (nearest centroids p)) \<le> sqDistance p (centroids ! c)) \<and>
    (\<forall>c < snd (nearest centroids p). sqDistance p (centroids ! snd (nearest centroids p)) < sqDistance p (centroids ! c))"
proof -
  let ?d = "\<lambda>c. sqDistance p (centroids ! c)" and ?n = "length centroids"
  let ?b = "\<lambda>c (minDist, best). let d = ?d c in if d < minDist then (d, c) else (minDist, best)"
  let ?P = "\<lambda>i s. snd s < i \<and> fst s = ?d (snd s) \<and> (\<forall>c < i. fst s \<le> ?d c) \<and> (\<forall>c < snd s. fst s < ?d c)"
  have le: "?d c \<le> ?d c" if "c < ?n" for c using fin [OF that] by (auto elim!: is_finE)
  have first: "?b 0 (PInf, 0) = (?d 0, 0)" using fin [of 0] assms(1) by (auto elim!: is_finE)
  have "?P ?n (for_loop 1 ?n ?b (?d 0, 0))"
  proof (rule for_loop_invariant [where P = ?P])
    show "?P 1 (?d 0, 0)" using le [of 0] assms(1) by auto
  next
    fix i s assume i: "1 \<le> i" "i < ?n" and P: "?P i s"
    obtain m b where s: "s = (m, b)" by (cases s)
    obtain x where x: "?d i = Fin x" using fin [OF i(2)] by (auto elim: is_finE)
    obtain y where y: "m = Fin y" using P s fin [of b] i by (auto elim: is_finE)
    show "?P (Suc i) (?b i s)"
    proof (cases "?d i < m")
      case True
      have "Fin x < ?d c" if c: "c < i" for c
      proof -
        have "is_fin (?d c)" using fin [of c] c i by simp
        then obtain z where z: "?d c = Fin z" by (auto elim: is_finE)
        from P c have "fst s \<le> ?d c" by blast
        then have "m \<le> ?d c" by (simp only: s fst_conv)
        then have "y \<le> z" using y z by simp
        moreover have "x < y" using True x y by simp
        ultimately show ?thesis using z by simp
      qed
      then have "Fin x \<le> ?d c" if "c < i" for c using that jsnum_less_imp_le by blast
      then show ?thesis using True x \<open>\<And>c. c < i \<Longrightarrow> Fin x < ?d c\<close> by (auto simp: s Let_def less_Suc_eq)
    next
      case False
      then have "m \<le> ?d i" using x y by simp
      then have "fst s \<le> ?d i" by (simp only: s fst_conv)
      moreover have "?b i s = s" using False by (simp add: s Let_def)
      moreover from P have "snd s < Suc i" "fst s = ?d (snd s)" "\<forall>c < snd s. fst s < ?d c" by (blast intro: less_SucI)+
      moreover have "\<forall>c < Suc i. fst s \<le> ?d c"
      proof (intro allI impI)
        fix c assume "c < Suc i"
        then consider "c < i" | "c = i" by linarith
        then show "fst s \<le> ?d c" using P \<open>fst s \<le> ?d i\<close> by cases blast+
      qed
      ultimately show ?thesis by (simp only: simp_thms)
    qed
  qed (use assms(1) in \<open>simp add: Suc_le_eq\<close>)
  moreover have "nearest centroids p = for_loop 1 ?n ?b (?d 0, 0)"
    using assms(1) unfolding nearest_def by (subst for_loop_first) (simp_all add: first [simplified])
  ultimately show ?thesis by (metis (no_types, lifting))
qed

lemma nearest_index: "centroids \<noteq> [] \<Longrightarrow> snd (nearest centroids p) < length centroids"
proof -
  assume "centroids \<noteq> []"
  then show ?thesis
    unfolding nearest_def
    by (intro for_loop_preserves [where P = "\<lambda>s. snd s < length centroids"]) (auto simp: Let_def split: prod.splits)
qed

lemma length_update [simp]: "length (update_step data labels centroids) = length centroids"
  by (simp add: update_step_def)

lemma lloyd_labels:
  assumes "centroids \<noteq> []" "length labels = length data" "\<forall>l \<in> set labels. l < length centroids"
  shows "length (fst (lloyd fuel data labels centroids)) = length data \<and>
    length (snd (lloyd fuel data labels centroids)) = length centroids \<and>
    (\<forall>l \<in> set (fst (lloyd fuel data labels centroids)). l < length centroids)"
  using assms
proof (induction fuel arbitrary: labels centroids)
  case (Suc fuel)
  let ?l = "assign_step data centroids labels"
  have "\<forall>l \<in> set ?l. l < length centroids" using Suc.prems nearest_index by (auto simp: assign_step_def)
  moreover have "length ?l = length data" by (simp add: assign_step_def)
  moreover have "update_step data ?l centroids \<noteq> []" using Suc.prems by (metis length_0_conv length_update)
  ultimately show ?case
    using Suc.prems Suc.IH [of "update_step data ?l centroids" ?l] by (simp add: Let_def)
qed simp

lemma foldl_jmin_Fin: "foldl jmin (Fin a) (map Fin xs) = Fin (foldl min a xs)"
  by (induction xs arbitrary: a) simp_all

lemma foldl_jmax_Fin: "foldl jmax (Fin a) (map Fin xs) = Fin (foldl max a xs)"
  by (induction xs arbitrary: a) simp_all

lemma foldl_min_le: "foldl min a xs \<le> a" "x \<in> set xs \<Longrightarrow> foldl min a xs \<le> (x::real)"
proof -
  show *: "foldl min a xs \<le> a" for a and xs :: "real list"
  proof (induction xs arbitrary: a)
    case (Cons x xs)
    show ?case using Cons.IH [of "min a x"] by simp
  qed simp
  show "x \<in> set xs \<Longrightarrow> foldl min a xs \<le> x"
    using * by (induction xs arbitrary: a) (auto, metis min.bounded_iff)
qed

lemma foldl_max_ge: "a \<le> foldl max a xs" "x \<in> set xs \<Longrightarrow> (x::real) \<le> foldl max a xs"
proof -
  show *: "a \<le> foldl max a xs" for a and xs :: "real list"
  proof (induction xs arbitrary: a)
    case (Cons x xs)
    show ?case using Cons.IH [of "max a x"] by simp
  qed simp
  show "x \<in> set xs \<Longrightarrow> x \<le> foldl max a xs"
    using * by (induction xs arbitrary: a) (auto, metis max.bounded_iff)
qed

lemma list_extremes:
  assumes "xs \<noteq> []"
  shows "\<exists>m M. jmin_list (map Fin xs) = Fin m \<and> jmax_list (map Fin xs) = Fin M \<and> (\<forall>x \<in> set xs. m \<le> x \<and> x \<le> M)"
proof -
  obtain y ys where xs: "xs = y # ys" using assms by (cases xs) auto
  show ?thesis
    using foldl_min_le [of y ys] foldl_max_ge [of y ys]
    by (auto simp: xs jmin_list_def jmax_list_def foldl_jmin_Fin foldl_jmax_Fin foldl_min_le foldl_max_ge)
qed

section \<open>Properties\<close>

text \<open>
  The assignment step of k-means gives every point the first nearest centroid: no centroid is
  closer, and every centroid with a smaller index is strictly farther.
\<close>
theorem kmeans_assigns_nearest:
  assumes "centroids \<noteq> []" "\<forall>c \<in> set centroids. length c = length p"
  shows "let b = snd (nearest (map (map Fin) centroids) (map Fin p))
    in b < length centroids \<and>
       (\<forall>c < length centroids. (\<Sum>i = 0..<length p. (p ! i - centroids ! b ! i) ^ 2) \<le>
          (\<Sum>i = 0..<length p. (p ! i - centroids ! c ! i) ^ 2)) \<and>
       (\<forall>c < b. (\<Sum>i = 0..<length p. (p ! i - centroids ! b ! i) ^ 2) <
          (\<Sum>i = 0..<length p. (p ! i - centroids ! c ! i) ^ 2))"
proof -
  let ?cs = "map (map Fin) centroids" and ?p = "map Fin p"
  have d: "sqDistance ?p (map Fin (centroids ! c)) = Fin (\<Sum>i = 0..<length p. (p ! i - centroids ! c ! i) ^ 2)"
    if "c < length centroids" for c
    using sqDistance_Fin [of "centroids ! c" p] assms(2) that by simp
  have N: "snd (nearest ?cs ?p) < length ?cs \<and>
    (\<forall>c < length ?cs. sqDistance ?p (?cs ! snd (nearest ?cs ?p)) \<le> sqDistance ?p (?cs ! c)) \<and>
    (\<forall>c < snd (nearest ?cs ?p). sqDistance ?p (?cs ! snd (nearest ?cs ?p)) < sqDistance ?p (?cs ! c))"
    by (rule nearest_min) (use assms(1) d in auto)
  then have b: "snd (nearest ?cs ?p) < length centroids" by simp
  show ?thesis
    unfolding Let_def
  proof (intro conjI allI impI b)
    fix c assume "c < length centroids"
    then show "(\<Sum>i = 0..<length p. (p ! i - centroids ! snd (nearest ?cs ?p) ! i) ^ 2) \<le>
        (\<Sum>i = 0..<length p. (p ! i - centroids ! c ! i) ^ 2)"
      using N b d [OF b] d [of c] by auto
  next
    fix c assume c: "c < snd (nearest ?cs ?p)"
    then have "c < length centroids" using b by simp
    then show "(\<Sum>i = 0..<length p. (p ! i - centroids ! snd (nearest ?cs ?p) ! i) ^ 2) <
        (\<Sum>i = 0..<length p. (p ! i - centroids ! c ! i) ^ 2)"
      using N b c d [OF b] d [of c] by auto
  qed
qed

theorem kmeans_assigns_nearest_witness:
  "snd (nearest (map (map Fin) [[0], [4]]) (map Fin [3])) < 2"
  using kmeans_assigns_nearest [of "[[0], [4]]" "[3]"] by (simp add: Let_def)

text \<open>
  \<open>kmeansIterate\<close> stops after at most \<open>maxIter\<close> rounds with one label per point, each the index of a
  centroid, and with the number of centroids it was given.
\<close>
theorem kmeans_iterate_sound:
  assumes "centroids \<noteq> []"
  shows "case kmeansIterate data centroids maxIter of (labels, cs) \<Rightarrow>
    length labels = length data \<and> length cs = length centroids \<and> (\<forall>l \<in> set labels. l < length centroids)"
  using lloyd_labels [OF assms, of "replicate (length data) 0" data maxIter] assms
  by (auto simp: kmeansIterate_def split: prod.splits)

theorem kmeans_iterate_sound_witness: "length (fst (kmeansIterate [[Fin 1]] [[Fin 0]] 100)) = 1"
  using kmeans_iterate_sound [of "[[Fin 0]]" "[[Fin 1]]" 100] by (auto split: prod.splits)

text \<open>
  \<open>normalize\<close> maps finite features into the unit interval, also where a feature is constant.
\<close>
theorem normalize_unit_interval:
  assumes "\<forall>f \<in> set fs. \<forall>k \<in> set ks. k < length f" "i < length fs" "j < length ks"
  shows "\<exists>r. fst (normalize (map (map Fin) fs) ks) ! i ! j = Fin r \<and> 0 \<le> r \<and> r \<le> 1"
proof -
  let ?k = "ks ! j" and ?f = "fs ! i"
  have k: "?k < length f" if "f \<in> set fs" for f using assms that by auto
  have vals: "map (\<lambda>f. rd f ?k) (map (map Fin) fs) = map Fin (map (\<lambda>f. f ! ?k) fs)" using k by simp
  obtain m M where mM: "jmin_list (map Fin (map (\<lambda>f. f ! ?k) fs)) = Fin m"
      "jmax_list (map Fin (map (\<lambda>f. f ! ?k) fs)) = Fin M" "\<forall>x \<in> set (map (\<lambda>f. f ! ?k) fs). m \<le> x \<and> x \<le> M"
    using list_extremes [of "map (\<lambda>f. f ! ?k) fs"] assms(2) by fastforce
  have stats: "feature_stats (map (map Fin) fs) ks ! j = (?k, \<lparr>fs_min = Fin m, fs_max = Fin M\<rparr>)"
    using mM(1,2) assms(3) by (simp only: feature_stats_def Let_def vals nth_map)
  have f: "rd (map Fin ?f) ?k = Fin (?f ! ?k)" "m \<le> ?f ! ?k" "?f ! ?k \<le> M" using assms(2) k mM(3) by auto
  have "length (feature_stats (map (map Fin) fs) ks) = length ks" by (simp add: feature_stats_def)
  then have "fst (normalize (map (map Fin) fs) ks) ! i ! j =
      (if Fin M - Fin m > 0 then (rd (map Fin ?f) ?k - Fin m) / (Fin M - Fin m) else 0)"
    using assms(2,3) stats unfolding normalize_def Let_def by (simp del: minus_Fin rd_in)
  then show ?thesis using f by (auto simp: divide_le_eq_1)
qed

theorem normalize_unit_interval_witness:
  "\<exists>r. fst (normalize (map (map Fin) [[1], [3]]) [0]) ! 1 ! 0 = Fin r \<and> 0 \<le> r \<and> r \<le> 1"
  by (rule normalize_unit_interval) simp_all

section \<open>One cluster\<close>

text \<open>Labels start at 0, so when the first assignment puts every point into cluster 0 nothing has
  changed and the loop breaks before the first update step: with one centroid it is never moved to
  the mean of the points.\<close>

lemma kmeans_single_cluster_not_moved:
  "kmeansIterate [[Fin 0], [Fin 2]] [[Fin 0]] 100 = ([0, 0], [[Fin 0]])"
proof -
  have near: "snd (nearest [[Fin 0]] p) = 0" for p by (simp add: nearest_def for_loop_def Let_def)
  have "lloyd (Suc n) [[Fin 0], [Fin 2]] [0, 0] [[Fin 0]] = ([0, 0], [[Fin 0]])" for n
    by (simp add: assign_step_def near Let_def)
  from this [of 99] show ?thesis by (simp add: kmeansIterate_def numeral_2_eq_2)
qed

end
