(* ===== verification/Regression.thy ===== *)
theory Regression
  imports JsText
begin

text \<open>
  The Engle-Granger tools of \<open>web-ui/src/utils/cointegrationMath.js\<close>: ordinary least squares, the
  augmented Dickey-Fuller statistic, the half-life of mean reversion and the Pearson correlation. A
  result that the code returns as \<open>null\<close> is \<open>None\<close>. The laws are the normal equations of the fit, the
  range of \<open>R\<^sup>2\<close> and of the correlation, and where the half-life is a number.
\<close>

section \<open>Least squares\<close>

definition mean_of :: "jsnum list \<Rightarrow> jsnum" where
  "mean_of xs = jsum xs / jnat (length xs)"

record ols =
  ls_alpha :: jsnum
  ls_beta :: jsnum
  ls_residuals :: "jsnum list"
  ls_r2 :: jsnum
  ls_std :: jsnum
  ls_zscore :: jsnum
  ls_n :: nat

definition linearRegression :: "jsnum list \<Rightarrow> jsnum list \<Rightarrow> ols option" where
  "linearRegression y x =
     (let n = min (length y) (length x)
      in if n < 5 then None
         else
           let meanX = jsum (take n x) / jnat n;
               meanY = jsum (take n y) / jnat n;
               num = for_loop 0 n (\<lambda>i s. s + (rd x i - meanX) * (rd y i - meanY)) 0;
               den = for_loop 0 n (\<lambda>i s. s + (rd x i - meanX) ^ 2) 0;
               beta = (if den > 0 then num / den else 0);
               alpha = meanY - beta * meanX;
               residuals = map (\<lambda>i. rd y i - (alpha + beta * rd x i)) [0..<n];
               ssRes = jsum (map (\<lambda>v. v * v) residuals);
               ssTot = jsum (map (\<lambda>v. (v - meanY) ^ 2) (take n y));
               rSquared = (if ssTot > 0 then 1 - ssRes / ssTot else 0);
               stdResidual = jsqrt (ssRes / jmax (jnat n - 2) 1);
               zScore = (if stdResidual > 0 then rd residuals (length residuals - 1) / stdResidual else 0)
           in Some \<lparr>ls_alpha = alpha, ls_beta = beta, ls_residuals = residuals, ls_r2 = rSquared,
                ls_std = stdResidual, ls_zscore = zScore, ls_n = n\<rparr>)"

section \<open>Regression of the differences on the lagged level\<close>

text \<open>\<open>calcADF\<close> and \<open>calcHalfLife\<close> build these two series and sums in the same way.\<close>

definition delta_series :: "jsnum list \<Rightarrow> jsnum list" where
  "delta_series r = map (\<lambda>i. rd r i - rd r (i - 1)) [1..<length r]"

definition lag_series :: "jsnum list \<Rightarrow> jsnum list" where
  "lag_series r = map (\<lambda>i. rd r (i - 1)) [1..<length r]"

definition lag_num :: "jsnum list \<Rightarrow> jsnum" where
  "lag_num r = (let dy = delta_series r; ly = lag_series r
     in for_loop 0 (length dy) (\<lambda>i s. s + (rd ly i - mean_of ly) * (rd dy i - mean_of dy)) 0)"

definition lag_den :: "jsnum list \<Rightarrow> jsnum" where
  "lag_den r = (let ly = lag_series r
     in for_loop 0 (length (delta_series r)) (\<lambda>i s. s + (rd ly i - mean_of ly) ^ 2) 0)"

definition lag_slope :: "jsnum list \<Rightarrow> jsnum" where
  "lag_slope r = (if lag_den r > 0 then lag_num r / lag_den r else 0)"

record adf =
  ad_t :: jsnum
  ad_stationary :: bool
  ad_significance :: string
  ad_rho :: jsnum

definition calcADF :: "jsnum list \<Rightarrow> adf option" where
  "calcADF residuals =
     (if length residuals < 30 then None
      else
        let dy = delta_series residuals; ly = lag_series residuals; m = length dy;
            rho = lag_slope residuals;
            residuals2 = map (\<lambda>i. rd dy i - mean_of dy - rho * (rd ly i - mean_of ly)) [0..<m];
            rss = jsum (map (\<lambda>v. v * v) residuals2);
            se = (if lag_den residuals > 0 then jsqrt (rss / (jnat m - 2) / lag_den residuals) else 0);
            tStat = (if se > 0 then rho / se else 0)
        in Some (if tStat < Fin (- 343 / 100) then \<lparr>ad_t = tStat, ad_stationary = True, ad_significance = ''99%'', ad_rho = rho\<rparr>
                 else if tStat < Fin (- 286 / 100) then \<lparr>ad_t = tStat, ad_stationary = True, ad_significance = ''95%'', ad_rho = rho\<rparr>
                 else if tStat < Fin (- 257 / 100) then \<lparr>ad_t = tStat, ad_stationary = True, ad_significance = ''90%'', ad_rho = rho\<rparr>
                 else \<lparr>ad_t = tStat, ad_stationary = False, ad_significance = ''none'', ad_rho = rho\<rparr>))"

definition calcHalfLife :: "jsnum list \<Rightarrow> jsnum option" where
  "calcHalfLife residuals =
     (if length residuals < 20 then None
      else let phi = lag_slope residuals
           in Some (if phi \<ge> 0 then PInf else jmax 0 (- jlog 2 / jlog (1 + phi))))"

section \<open>Correlation\<close>

definition calcCorrelation :: "jsnum list \<Rightarrow> jsnum list \<Rightarrow> jsnum" where
  "calcCorrelation a b =
     (let n = min (length a) (length b)
      in if n < 5 then 0
         else
           let meanA = jsum (take n a) / jnat n;
               meanB = jsum (take n b) / jnat n;
               num = for_loop 0 n (\<lambda>i s. s + (rd a i - meanA) * (rd b i - meanB)) 0;
               denA = for_loop 0 n (\<lambda>i s. s + (rd a i - meanA) * (rd a i - meanA)) 0;
               denB = for_loop 0 n (\<lambda>i s. s + (rd b i - meanB) * (rd b i - meanB)) 0;
               den = jsqrt (denA * denB)
           in if den > 0 then num / den else 0)"

section \<open>Sums of squares\<close>

lemma residual_square_sum:
  fixes a b :: "nat \<Rightarrow> real"
  assumes "sxx \<noteq> 0" and "sxx = (\<Sum>i \<in> I. a i ^ 2)" "sxy = (\<Sum>i \<in> I. a i * b i)" "syy = (\<Sum>i \<in> I. b i ^ 2)"
  shows "(\<Sum>i \<in> I. (b i - sxy / sxx * a i) ^ 2) = syy - sxy ^ 2 / sxx"
proof -
  define k where "k = sxy / sxx"
  have "(\<Sum>i \<in> I. (b i - k * a i) ^ 2) = (\<Sum>i \<in> I. b i ^ 2 - 2 * k * (a i * b i) + k ^ 2 * a i ^ 2)"
    by (rule sum.cong) (simp_all add: power2_eq_square algebra_simps)
  also have "\<dots> = syy - 2 * k * sxy + k ^ 2 * sxx"
    unfolding sum.distrib sum_subtractf sum_distrib_left [symmetric] assms(2-4) ..
  also have "\<dots> = syy - sxy ^ 2 / sxx" using assms(1) by (simp add: k_def power2_eq_square field_simps)
  finally show ?thesis unfolding k_def .
qed

lemma cauchy_schwarz_sum:
  fixes a b :: "nat \<Rightarrow> real"
  shows "(\<Sum>i \<in> I. a i * b i) ^ 2 \<le> (\<Sum>i \<in> I. a i ^ 2) * (\<Sum>i \<in> I. b i ^ 2)"
proof (cases "(\<Sum>i \<in> I. a i ^ 2) = 0")
  case True
  show ?thesis
  proof (cases "finite I")
    case fin: True
    then have "a i = 0" if "i \<in> I" for i
      using that True by (simp add: sum_nonneg_eq_0_iff)
    then show ?thesis by simp
  qed simp
next
  case False
  let ?x = "\<Sum>i \<in> I. a i ^ 2" and ?y = "\<Sum>i \<in> I. b i ^ 2" and ?s = "\<Sum>i \<in> I. a i * b i"
  have "0 \<le> (\<Sum>i \<in> I. (b i - ?s / ?x * a i) ^ 2)" by (rule sum_nonneg) simp
  then have "?s ^ 2 / ?x \<le> ?y" using residual_square_sum [OF False, of a I ?s b ?y] by simp
  moreover have "0 < ?x" using False by (simp add: less_le sum_nonneg)
  ultimately show ?thesis by (simp add: pos_divide_le_eq mult.commute)
qed

lemma sum_loop_Fin:
  "(\<And>i. i < n \<Longrightarrow> f i = Fin (g i)) \<Longrightarrow> for_loop 0 n (\<lambda>i s. s + f i) (Fin 0) = Fin (\<Sum>i = 0..<n. g i)"
  by (rule for_loop_invariant [where P = "\<lambda>i s. s = Fin (\<Sum>k = 0..<i. g k)"]) auto

lemma grid_loop_Fin:
  "for_loop 0 m (\<lambda>i. for_loop 0 n (\<lambda>j s. s + Fin (t i j))) (Fin c) = Fin (c + (\<Sum>i \<in> {0..<m}. \<Sum>j \<in> {0..<n}. t i j))"
proof -
  have row: "for_loop 0 n (\<lambda>j s. s + Fin (t i j)) (Fin c) = Fin (c + (\<Sum>j \<in> {0..<n}. t i j))" for i c
    by (induction n) (simp_all add: for_loop_Suc)
  show ?thesis by (induction m) (simp_all add: for_loop_Suc row)
qed

lemma moments_loop:
  "for_loop 0 n (\<lambda>i (num, dx, dy). (num + Fin (f i) * Fin (g i), dx + Fin (f i) ^ 2, dy + Fin (g i) ^ 2)) (0, 0, 0) =
     (Fin (\<Sum>i \<in> {0..<n}. f i * g i), Fin (\<Sum>i \<in> {0..<n}. f i ^ 2), Fin (\<Sum>i \<in> {0..<n}. g i ^ 2))"
  by (induction n) (simp_all add: for_loop_Suc zero_jsnum_def)

lemma jsum_map_upt: "(\<And>i. i < n \<Longrightarrow> f i = Fin (g i)) \<Longrightarrow> jsum (map f [0..<n]) = Fin (\<Sum>i = 0..<n. g i)"
proof -
  assume f: "\<And>i. i < n \<Longrightarrow> f i = Fin (g i)"
  then have "map f [0..<n] = map Fin (map g [0..<n])" by simp
  then show ?thesis by (simp only: jsum_Fin interv_sum_list_conv_sum_set_nat atLeastLessThan_upt)
qed

lemma take_as_map: "n \<le> length xs \<Longrightarrow> take n xs = map (\<lambda>i. xs ! i) [0..<n]"
  by (rule nth_equalityI) simp_all

definition mean_real :: "real list \<Rightarrow> nat \<Rightarrow> real" where
  "mean_real xs n = (\<Sum>i = 0..<n. xs ! i) / real n"

lemma mean_take: "n \<le> length xs \<Longrightarrow> 0 < n \<Longrightarrow> jsum (take n (map Fin xs)) / jnat n = Fin (mean_real xs n)"
  by (simp add: take_as_map mean_real_def jsum_map_upt [of n _ "\<lambda>i. xs ! i"])

lemma deviations_sum_0: "0 < n \<Longrightarrow> (\<Sum>i = 0..<n. xs ! i - mean_real xs n) = 0"
  by (simp add: sum_subtractf mean_real_def)

section \<open>Properties\<close>

text \<open>Least squares over the reals: sums of squares, slope, intercept and residuals of the first \<open>n\<close> pairs.\<close>

definition sxx_real :: "real list \<Rightarrow> nat \<Rightarrow> real" where
  "sxx_real xs n = (\<Sum>i = 0..<n. (xs ! i - mean_real xs n) ^ 2)"

definition sxy_real :: "real list \<Rightarrow> real list \<Rightarrow> nat \<Rightarrow> real" where
  "sxy_real xs ys n = (\<Sum>i = 0..<n. (xs ! i - mean_real xs n) * (ys ! i - mean_real ys n))"

definition slope_real :: "real list \<Rightarrow> real list \<Rightarrow> nat \<Rightarrow> real" where
  "slope_real xs ys n = (if sxx_real xs n > 0 then sxy_real xs ys n / sxx_real xs n else 0)"

definition const_real :: "real list \<Rightarrow> real list \<Rightarrow> nat \<Rightarrow> real" where
  "const_real xs ys n = mean_real ys n - slope_real xs ys n * mean_real xs n"

definition resid_real :: "real list \<Rightarrow> real list \<Rightarrow> nat \<Rightarrow> nat \<Rightarrow> real" where
  "resid_real xs ys n i = ys ! i - (const_real xs ys n + slope_real xs ys n * xs ! i)"

definition r2_real :: "real list \<Rightarrow> real list \<Rightarrow> nat \<Rightarrow> real" where
  "r2_real xs ys n =
     (if sxx_real ys n > 0 then 1 - (\<Sum>i = 0..<n. resid_real xs ys n i * resid_real xs ys n i) / sxx_real ys n else 0)"

lemma sxx_nonneg: "0 \<le> sxx_real xs n"
  unfolding sxx_real_def by (rule sum_nonneg) simp

lemma resid_deviation: "resid_real xs ys n i = (ys ! i - mean_real ys n) - slope_real xs ys n * (xs ! i - mean_real xs n)"
  by (simp add: resid_real_def const_real_def algebra_simps)

lemma resid_sum: "0 < n \<Longrightarrow> (\<Sum>i = 0..<n. resid_real xs ys n i) = 0"
  unfolding resid_deviation using deviations_sum_0 [of n] by (simp add: sum_subtractf flip: sum_distrib_left)

lemma resid_orthogonal:
  assumes "0 < n"
  shows "(\<Sum>i = 0..<n. resid_real xs ys n i * xs ! i) = 0"
proof -
  let ?e = "resid_real xs ys n" and ?dx = "\<lambda>i. xs ! i - mean_real xs n"
  have "sxx_real xs n = 0 \<Longrightarrow> i < n \<Longrightarrow> ?dx i = 0" for i unfolding sxx_real_def by (simp add: sum_nonneg_eq_0_iff)
  then have z: "sxy_real xs ys n = 0" if "sxx_real xs n = 0" using that unfolding sxy_real_def by (simp add: sum.neutral)
  have "(\<Sum>i = 0..<n. ?e i * xs ! i) = (\<Sum>i = 0..<n. ?e i * ?dx i) + mean_real xs n * (\<Sum>i = 0..<n. ?e i)"
    by (simp add: sum_distrib_left algebra_simps flip: sum.distrib)
  also have "(\<Sum>i = 0..<n. ?e i * ?dx i) = sxy_real xs ys n - slope_real xs ys n * sxx_real xs n"
    unfolding resid_deviation sxy_real_def sxx_real_def
    by (simp add: algebra_simps power2_eq_square sum_distrib_left flip: sum_subtractf)
  also have "\<dots> = 0" using z sxx_nonneg [of xs n] by (auto simp: slope_real_def)
  finally show ?thesis using resid_sum [OF assms] by simp
qed

lemma r2_range: "0 \<le> r2_real xs ys n" "r2_real xs ys n \<le> 1"
proof -
  let ?sse = "\<Sum>i = 0..<n. resid_real xs ys n i * resid_real xs ys n i"
  have "?sse = sxx_real ys n - (if sxx_real xs n > 0 then sxy_real xs ys n ^ 2 / sxx_real xs n else 0)"
  proof (cases "sxx_real xs n > 0")
    case True
    then show ?thesis
      unfolding resid_deviation using residual_square_sum [OF _ sxx_real_def sxy_real_def sxx_real_def]
      by (simp add: slope_real_def flip: power2_eq_square)
  next
    case False
    then show ?thesis unfolding resid_deviation by (simp add: slope_real_def sxx_real_def power2_eq_square)
  qed
  then have "?sse \<le> sxx_real ys n" using sxx_nonneg [of xs n] by simp
  moreover have "0 \<le> ?sse" by (rule sum_nonneg) simp
  ultimately show "0 \<le> r2_real xs ys n" "r2_real xs ys n \<le> 1" by (auto simp: r2_real_def divide_le_eq_1)
qed

lemma linearRegression_Fin:
  fixes xs ys :: "real list"
  defines "n \<equiv> min (length ys) (length xs)"
  assumes "5 \<le> n"
  shows "\<exists>L. linearRegression (map Fin ys) (map Fin xs) = Some L \<and> ls_alpha L = Fin (const_real xs ys n) \<and>
    ls_beta L = Fin (slope_real xs ys n) \<and> ls_residuals L = map Fin (map (resid_real xs ys n) [0..<n]) \<and> ls_r2 L = Fin (r2_real xs ys n)"
proof -
  let ?mx = "mean_real xs n" and ?my = "mean_real ys n" and ?a = "const_real xs ys n" and ?b = "slope_real xs ys n"
    and ?e = "resid_real xs ys n"
  have n: "0 < n" "n \<le> length ys" "n \<le> length xs" using assms by auto
  have num: "for_loop 0 n (\<lambda>i s. s + (rd (map Fin xs) i - Fin ?mx) * (rd (map Fin ys) i - Fin ?my)) (Fin 0) = Fin (sxy_real xs ys n)"
    unfolding sxy_real_def using n by (intro sum_loop_Fin) simp
  have den: "for_loop 0 n (\<lambda>i s. s + (rd (map Fin xs) i - Fin ?mx) ^ 2) (Fin 0) = Fin (sxx_real xs n)"
    unfolding sxx_real_def using n by (intro sum_loop_Fin) simp
  let ?res = "map (\<lambda>i. rd (map Fin ys) i - (Fin ?a + Fin ?b * rd (map Fin xs) i)) [0..<n]"
  have res: "?res = map Fin (map ?e [0..<n])" using n by (simp add: resid_real_def)
  have ssres: "jsum (map (\<lambda>v. v * v) ?res) = Fin (\<Sum>i = 0..<n. ?e i * ?e i)"
    unfolding res map_map by (rule jsum_map_upt) simp
  have sstot: "jsum (map (\<lambda>v. (v - Fin ?my) ^ 2) (take n (map Fin ys))) = Fin (sxx_real ys n)"
    unfolding sxx_real_def using n(2) by (simp add: take_as_map comp_def) (rule jsum_map_upt, simp)
  have beta: "(if Fin (sxx_real xs n) > 0 then Fin (sxy_real xs ys n) / Fin (sxx_real xs n) else 0) = Fin ?b"
    by (simp add: slope_real_def)
  have alpha: "Fin ?my - Fin ?b * Fin ?mx = Fin ?a" by (simp add: const_real_def)
  have r2: "(if Fin (sxx_real ys n) > 0 then 1 - Fin (\<Sum>i = 0..<n. ?e i * ?e i) / Fin (sxx_real ys n) else 0) = Fin (r2_real xs ys n)"
    by (simp add: r2_real_def)
  show ?thesis
    using assms(2)
    unfolding linearRegression_def Let_def length_map n_def [symmetric] mean_take [OF n(2,1)] mean_take [OF n(3,1)] zero_Fin
      num den beta [unfolded zero_Fin] alpha ssres sstot r2 [unfolded zero_Fin]
    unfolding res by (auto simp del: rd_in)
qed

text \<open>
  C15: \<open>linearRegression\<close> on at least five finite pairs satisfies the normal equations: the residuals are
  those of the returned line, they sum to zero and, unless all x agree, are orthogonal to x; the
  reported \<open>R\<^sup>2\<close> is between 0 and 1.
\<close>
theorem linear_regression_normal_equations:
  assumes "5 \<le> min (length ys) (length xs)"
  shows "\<exists>L a b es R. linearRegression (map Fin ys) (map Fin xs) = Some L \<and>
    ls_alpha L = Fin a \<and> ls_beta L = Fin b \<and> ls_residuals L = map Fin es \<and> ls_r2 L = Fin R \<and>
    length es = min (length ys) (length xs) \<and>
    (\<forall>i < length es. es ! i = ys ! i - (a + b * xs ! i)) \<and>
    (\<Sum>i = 0..<length es. es ! i) = 0 \<and> (\<Sum>i = 0..<length es. es ! i * xs ! i) = 0 \<and> 0 \<le> R \<and> R \<le> 1"
proof -
  let ?n = "min (length ys) (length xs)"
  have n: "0 < ?n" using assms by linarith
  have es: "resid_real xs ys ?n i = ys ! i - (const_real xs ys ?n + slope_real xs ys ?n * xs ! i)" for i
    by (simp add: resid_real_def)
  have "(\<Sum>i = 0..<?n. map (resid_real xs ys ?n) [0..<?n] ! i) = 0"
    "(\<Sum>i = 0..<?n. map (resid_real xs ys ?n) [0..<?n] ! i * xs ! i) = 0"
    using resid_sum [OF n, of xs ys] resid_orthogonal [OF n, of xs ys] by simp_all
  moreover obtain L where "linearRegression (map Fin ys) (map Fin xs) = Some L" "ls_alpha L = Fin (const_real xs ys ?n)"
      "ls_beta L = Fin (slope_real xs ys ?n)" "ls_residuals L = map Fin (map (resid_real xs ys ?n) [0..<?n])"
      "ls_r2 L = Fin (r2_real xs ys ?n)"
    using linearRegression_Fin [OF assms] by blast
  ultimately show ?thesis
    using es r2_range [of xs ys ?n]
    by (intro exI [of _ L] exI [of _ "const_real xs ys ?n"] exI [of _ "slope_real xs ys ?n"]
        exI [of _ "map (resid_real xs ys ?n) [0..<?n]"] exI [of _ "r2_real xs ys ?n"]) simp
qed

theorem linear_regression_normal_equations_witness:
  "\<exists>L. linearRegression (map Fin [1, 2, 3, 4, 6]) (map Fin [1, 2, 3, 4, 5]) = Some L"
  using linear_regression_normal_equations [of "[1, 2, 3, 4, 6]" "[1, 2, 3, 4, 5]"] by auto

text \<open>
  \<open>calcCorrelation\<close> of finite series is always a number between -1 and 1; it is 0 where one series
  does not vary or there are fewer than five pairs.
\<close>
theorem correlation_range:
  "\<exists>r. calcCorrelation (map Fin xs) (map Fin ys) = Fin r \<and> -1 \<le> r \<and> r \<le> 1"
proof -
  let ?n = "min (length xs) (length ys)"
  show ?thesis
  proof (cases "?n < 5")
    case False
    then have n: "0 < ?n" "?n \<le> length xs" "?n \<le> length ys" by auto
    let ?da = "\<lambda>i. xs ! i - mean_real xs ?n" and ?db = "\<lambda>i. ys ! i - mean_real ys ?n"
    let ?sa = "\<Sum>i = 0..<?n. ?da i * ?da i" and ?sb = "\<Sum>i = 0..<?n. ?db i * ?db i" and ?s = "\<Sum>i = 0..<?n. ?da i * ?db i"
    have L: "for_loop 0 ?n (\<lambda>i s. s + (rd (map Fin xs) i - Fin (mean_real xs ?n)) * (rd (map Fin ys) i - Fin (mean_real ys ?n))) (Fin 0) = Fin ?s"
      "for_loop 0 ?n (\<lambda>i s. s + (rd (map Fin xs) i - Fin (mean_real xs ?n)) * (rd (map Fin xs) i - Fin (mean_real xs ?n))) (Fin 0) = Fin ?sa"
      "for_loop 0 ?n (\<lambda>i s. s + (rd (map Fin ys) i - Fin (mean_real ys ?n)) * (rd (map Fin ys) i - Fin (mean_real ys ?n))) (Fin 0) = Fin ?sb"
      by (rule sum_loop_Fin; simp)+
    have nn: "0 \<le> ?sa * ?sb" by (intro mult_nonneg_nonneg sum_nonneg zero_le_square)
    have c: "calcCorrelation (map Fin xs) (map Fin ys) =
        (if Fin (sqrt (?sa * ?sb)) > 0 then Fin ?s / Fin (sqrt (?sa * ?sb)) else 0)"
      using False nn unfolding calcCorrelation_def Let_def length_map mean_take [OF n(2,1)] mean_take [OF n(3,1)] zero_Fin L
      by simp
    have "?s ^ 2 \<le> ?sa * ?sb" using cauchy_schwarz_sum [of ?da ?db "{0..<?n}"] by (simp add: power2_eq_square)
    then have "sqrt (?s ^ 2) \<le> sqrt (?sa * ?sb)" by (simp only: real_sqrt_le_iff)
    then have "\<bar>?s\<bar> \<le> sqrt (?sa * ?sb)" by simp
    then show ?thesis unfolding c by (auto simp: pos_le_divide_eq pos_divide_le_eq abs_le_iff)
  qed (simp add: calcCorrelation_def)
qed

text \<open>
  The half-life of mean reversion is infinite exactly when the fitted slope is not negative, and a
  non-negative number when it lies in (-1, 0).
\<close>
theorem half_life_cases:
  assumes "20 \<le> length residuals" "lag_slope residuals = Fin phi" "-1 < phi"
  shows "\<exists>h. calcHalfLife residuals = Some h \<and> (h = PInf \<longleftrightarrow> 0 \<le> phi) \<and>
    (phi < 0 \<longrightarrow> h = Fin (ln 2 / - ln (1 + phi)) \<and> 0 \<le> ln 2 / - ln (1 + phi))"
proof (cases "0 \<le> phi")
  case True
  then show ?thesis using assms by (simp add: calcHalfLife_def Let_def)
next
  case False
  then have neg: "ln (1 + phi) < 0" using assms(3) by (subst ln_less_zero_iff) auto
  then have "0 \<le> ln 2 / - ln (1 + phi)" by (simp add: divide_nonneg_neg)
  moreover have "max 0 (- ln 2 / ln (1 + phi)) = ln 2 / - ln (1 + phi)" using calculation by (simp add: max_def)
  ultimately show ?thesis
    using assms False neg by (simp add: calcHalfLife_def Let_def)
qed

theorem half_life_cases_witness:
  "\<exists>h. calcHalfLife (replicate 20 (Fin 1)) = Some h \<and> h = PInf"
proof -
  have lag: "lag_series (replicate 20 (Fin 1)) = map Fin (replicate 19 1)"
    by (rule nth_equalityI) (simp_all add: lag_series_def)
  have "lag_den (replicate 20 (Fin 1)) = Fin 0"
  proof -
    have m: "mean_of (map Fin (replicate 19 1)) = Fin 1"
      unfolding mean_of_def jsum_Fin by (simp add: sum_list_replicate)
    have "for_loop 0 19 (\<lambda>i s. s + (rd (map Fin (replicate 19 1)) i - Fin 1) ^ 2) (Fin 0) = Fin (\<Sum>i = (0::nat)..<19. 0)"
      by (rule sum_loop_Fin) (simp add: rd_def)
    moreover have "length (delta_series (replicate 20 (Fin 1))) = 19" by (simp add: delta_series_def)
    ultimately show ?thesis by (simp only: lag_den_def Let_def lag m zero_Fin) simp
  qed
  then have "lag_slope (replicate 20 (Fin 1)) = Fin 0" by (simp add: lag_slope_def)
  then show ?thesis using half_life_cases [of "replicate 20 (Fin 1)" 0] by auto
qed

end
