(* ===== verification/Garch.thy ===== *)
theory Garch
  imports Regression
begin

text \<open>
  The volatility models of \<open>web-ui/src/utils/garchMath.js\<close>: log returns, the GARCH(1,1) fit, EWMA and Parkinson
  volatility. A result that the code returns as \<open>null\<close> is \<open>None\<close>. The laws: the fit always ends in an
  admissible, stationary parameter set with finite volatilities, and its update moves the parameters up
  the negative log-likelihood.
\<close>

section \<open>Log returns\<close>

definition calcLogReturns :: "jsnum list \<Rightarrow> jsnum list" where
  "calcLogReturns closes =
     for_loop 1 (length closes)
       (\<lambda>i returns. if rd closes (i - 1) > 0 \<and> rd closes i > 0
          then returns @ [jlog (rd closes i / rd closes (i - 1))] else returns) []"

section \<open>The GARCH fit\<close>

record garch_state =
  gs_omega :: jsnum
  gs_alpha :: jsnum
  gs_beta :: jsnum
  gs_var :: "jsnum list"
  gs_dw :: "jsnum list"
  gs_da :: "jsnum list"
  gs_db :: "jsnum list"

text \<open>The derivative of one observation's negative log-likelihood in its conditional variance.\<close>

definition garch_factor :: "jsnum \<Rightarrow> jsnum \<Rightarrow> jsnum" where
  "garch_factor v resid = (let invVar = 1 / v in Fin (1 / 2) * (invVar - invVar * invVar * resid * resid))"

text \<open>The clamps after an update.\<close>

definition garch_clamp :: "garch_state \<Rightarrow> garch_state" where
  "garch_clamp s =
     (let omega = jmax (Fin (1 / 10 ^ 8)) (gs_omega s);
          alpha = jmax (Fin (1 / 10 ^ 6)) (jmin (Fin (999 / 1000)) (gs_alpha s));
          beta = jmax (Fin (1 / 10 ^ 6)) (jmin (Fin (999 / 1000)) (gs_beta s));
          scale = Fin (999 / 1000) / (alpha + beta)
      in if alpha + beta > Fin (999 / 1000)
         then s\<lparr>gs_omega := omega, gs_alpha := alpha * scale, gs_beta := beta * scale\<rparr>
         else s\<lparr>gs_omega := omega, gs_alpha := alpha, gs_beta := beta\<rparr>)"

definition garch_step :: "jsnum list \<Rightarrow> nat \<Rightarrow> garch_state \<Rightarrow> garch_state" where
  "garch_step centered i s =
     (let prevVar = rd (gs_var s) (i - 1);
          prevRet2 = rd centered (i - 1) * rd centered (i - 1);
          v0 = gs_omega s + gs_alpha s * prevRet2 + gs_beta s * prevVar;
          v = (if v0 < Fin (1 / 10 ^ 10) then Fin (1 / 10 ^ 10) else v0);
          dw = 1 + gs_beta s * (if i > 1 then rd (gs_dw s) (i - 1) else 0);
          da = prevRet2 + gs_beta s * (if i > 1 then rd (gs_da s) (i - 1) else 0);
          db = prevVar + gs_beta s * (if i > 1 then rd (gs_db s) (i - 1) else 0);
          factor = garch_factor v (rd centered i)
      in garch_clamp (s\<lparr>gs_var := (gs_var s)[i := v],
           gs_dw := (gs_dw s)[i := dw], gs_da := (gs_da s)[i := da], gs_db := (gs_db s)[i := db],
           gs_omega := gs_omega s + Fin (1 / 100) * factor * dw,
           gs_alpha := gs_alpha s + Fin (1 / 100) * factor * da,
           gs_beta := gs_beta s + Fin (1 / 100) * factor * db\<rparr>))"

definition garch_iter :: "jsnum list \<Rightarrow> garch_state \<Rightarrow> garch_state" where
  "garch_iter centered s =
     (let n = length centered; z = replicate n (Fin 0)
      in for_loop 1 n (garch_step centered) (s\<lparr>gs_dw := z, gs_da := z, gs_db := z\<rparr>))"

definition center :: "jsnum list \<Rightarrow> jsnum list" where
  "center returns = map (\<lambda>r. r - mean_of returns) returns"

definition mean_square :: "jsnum list \<Rightarrow> jsnum" where
  "mean_square centered = jsum (map (\<lambda>r. r * r) centered) / jnat (length centered)"

definition garch_start :: "jsnum list \<Rightarrow> garch_state" where
  "garch_start centered =
     (let v = mean_square centered; n = length centered
      in \<lparr>gs_omega = v * Fin (1 / 10), gs_alpha = Fin (1 / 10), gs_beta = Fin (85 / 100),
          gs_var = replicate n v, gs_dw = [], gs_da = [], gs_db = []\<rparr>)"

definition garch_fit :: "jsnum list \<Rightarrow> nat \<Rightarrow> garch_state" where
  "garch_fit centered maxIter = for_loop 0 maxIter (\<lambda>_. garch_iter centered) (garch_start centered)"

definition annualize :: "jsnum \<Rightarrow> jsnum" where
  "annualize v = jsqrt v * jsqrt 252 * 100"

record garch_result =
  gr_omega :: jsnum
  gr_alpha :: jsnum
  gr_beta :: jsnum
  gr_persistence :: jsnum
  gr_half_life :: jsnum
  gr_forecast :: jsnum
  gr_current :: jsnum
  gr_series :: "jsnum list"
  gr_unconditional :: jsnum

definition calcGARCH :: "jsnum list \<Rightarrow> nat \<Rightarrow> garch_result option" where
  "calcGARCH returns maxIter =
     (if length returns < 30 then None
      else
        let n = length returns;
            centered = center returns;
            s = garch_fit centered maxIter;
            forecast = gs_omega s + gs_alpha s * rd centered (n - 1) * rd centered (n - 1) + gs_beta s * rd (gs_var s) (n - 1);
            persistence = gs_alpha s + gs_beta s;
            halfLife = (if persistence > 0 \<and> persistence < 1 then jlog (Fin (1 / 2)) / jlog persistence else PInf);
            volSeries = map annualize (gs_var s)
        in Some \<lparr>gr_omega = gs_omega s, gr_alpha = gs_alpha s, gr_beta = gs_beta s, gr_persistence = persistence,
             gr_half_life = halfLife, gr_forecast = annualize forecast,
             gr_current = rd volSeries (length volSeries - 1), gr_series = volSeries,
             gr_unconditional = gs_omega s / (1 - persistence)\<rparr>)"

section \<open>EWMA and Parkinson\<close>

record vol_result =
  vr_current :: jsnum
  vr_series :: "jsnum list"

definition ewma_step :: "jsnum \<Rightarrow> jsnum list \<Rightarrow> nat \<Rightarrow> jsnum \<times> jsnum list \<Rightarrow> jsnum \<times> jsnum list" where
  "ewma_step lam centered i s =
     (let v = lam * fst s + (1 - lam) * rd centered i * rd centered i in (v, snd s @ [annualize v]))"

definition calcEWMAVol :: "jsnum list \<Rightarrow> jsnum \<Rightarrow> vol_result option" where
  "calcEWMAVol returns lam =
     (if length returns < 10 then None
      else
        let centered = center returns;
            v0 = rd centered 0 * rd centered 0;
            series = snd (for_loop 1 (length returns) (ewma_step lam centered) (v0, [annualize v0]))
        in Some \<lparr>vr_current = rd series (length series - 1), vr_series = series\<rparr>)"

definition parkinson_sum :: "jsnum list \<Rightarrow> jsnum list \<Rightarrow> nat \<Rightarrow> nat \<Rightarrow> jsnum" where
  "parkinson_sum highs lows period i =
     for_loop (i + 1 - period) (i + 1)
       (\<lambda>j sumSq. if rd highs j > 0 \<and> rd lows j > 0
          then sumSq + jlog (rd highs j / rd lows j) * jlog (rd highs j / rd lows j) else sumSq) 0"

definition calcParkinsonVol :: "jsnum list \<Rightarrow> jsnum list \<Rightarrow> nat \<Rightarrow> vol_result option" where
  "calcParkinsonVol highs lows period =
     (if length highs < period then None
      else
        let series = map (\<lambda>i. annualize (parkinson_sum highs lows period i / (4 * jnat period * Fin (ln 2))))
              [period - 1..<length highs]
        in Some \<lparr>vr_current = rd series (length series - 1), vr_series = series\<rparr>)"

section \<open>Laws\<close>

text \<open>What every state of the fit satisfies: parameters in their ranges, the rest finite.\<close>

definition params_ok :: "garch_state \<Rightarrow> bool" where
  "params_ok s \<longleftrightarrow> (\<exists>w a b. gs_omega s = Fin w \<and> gs_alpha s = Fin a \<and> gs_beta s = Fin b \<and>
     0 \<le> w \<and> 0 < a \<and> 0 < b \<and> a + b \<le> 999 / 1000)"

definition fit_ok :: "nat \<Rightarrow> garch_state \<Rightarrow> bool" where
  "fit_ok n s \<longleftrightarrow> params_ok s \<and> length (gs_var s) = n \<and> length (gs_dw s) = n \<and> length (gs_da s) = n \<and>
     length (gs_db s) = n \<and> (\<forall>x \<in> set (gs_var s). \<exists>r \<ge> 0. x = Fin r) \<and>
     (\<forall>x \<in> set (gs_dw s) \<union> set (gs_da s) \<union> set (gs_db s). is_fin x)"

lemma clamp_ok:
  assumes "gs_omega s = Fin w" "gs_alpha s = Fin a" "gs_beta s = Fin b"
  shows "params_ok (garch_clamp s)"
proof -
  define a' where "a' = max (1 / 10 ^ 6) (min (999 / 1000) a)"
  define b' where "b' = max (1 / 10 ^ 6) (min (999 / 1000) b)"
  have pos: "0 < a'" "0 < b'" by (simp_all add: a'_def b'_def less_max_iff_disj)
  have scale: "a' * (999 / 1000 / (a' + b')) + b' * (999 / 1000 / (a' + b')) = 999 / 1000"
  proof -
    have nz: "a' + b' \<noteq> 0" using pos by simp
    have cancel: "t * (k / t) = k" if "t \<noteq> 0" for t k :: real using that by simp
    show ?thesis by (subst distrib_right [symmetric]) (rule cancel [OF nz])
  qed
  have spos: "0 < a' * (999 / 1000 / (a' + b'))" "0 < b' * (999 / 1000 / (a' + b'))" using pos by simp_all
  have e: "jmax (Fin (1 / 10 ^ 6)) (jmin (Fin (999 / 1000)) (Fin a)) = Fin a'"
    "jmax (Fin (1 / 10 ^ 6)) (jmin (Fin (999 / 1000)) (Fin b)) = Fin b'"
    by (simp_all add: a'_def b'_def)
  have "a' + b' \<noteq> 0" using pos by simp
  then show ?thesis
    using pos scale spos unfolding params_ok_def garch_clamp_def Let_def assms e
    by (simp add: less_max_iff_disj le_max_iff_disj)
qed

lemma set_updateD: "\<forall>x \<in> set xs. P x \<Longrightarrow> P v \<Longrightarrow> \<forall>x \<in> set (xs[i := v]). P x"
  by (blast dest: subsetD [OF set_update_subset_insert])

lemma clamp_rest:
  "gs_var (garch_clamp s) = gs_var s" "gs_dw (garch_clamp s) = gs_dw s"
  "gs_da (garch_clamp s) = gs_da s" "gs_db (garch_clamp s) = gs_db s"
  by (simp_all add: garch_clamp_def Let_def)

lemma rd_fin: "\<forall>x \<in> set xs. is_fin x \<Longrightarrow> i < length xs \<Longrightarrow> \<exists>r. rd xs i = Fin r"
  by (auto simp: is_fin_def)

lemma step_ok:
  assumes ok: "fit_ok (length cs) s" and i: "1 \<le> i" "i < length cs"
  shows "fit_ok (length cs) (garch_step (map Fin cs) i s)"
proof -
  obtain w a b where p: "gs_omega s = Fin w" "gs_alpha s = Fin a" "gs_beta s = Fin b"
    and wab: "0 \<le> w" "0 < a" "0 < b" using ok by (auto simp: fit_ok_def params_ok_def)
  have i1: "i - 1 < length cs" using i by simp
  have "gs_var s ! (i - 1) \<in> set (gs_var s)" using ok i1 by (simp add: fit_ok_def)
  then obtain pv where "gs_var s ! (i - 1) = Fin pv" and pv0: "0 \<le> pv" using ok by (auto simp: fit_ok_def)
  then have pv: "rd (gs_var s) (i - 1) = Fin pv" using ok i1 by (simp add: fit_ok_def)
  obtain g1 where g1: "rd (gs_dw s) (i - 1) = Fin g1" using ok i1 rd_fin [of "gs_dw s" "i - 1"] unfolding fit_ok_def by (auto simp del: rd_in)
  obtain g2 where g2: "rd (gs_da s) (i - 1) = Fin g2" using ok i1 rd_fin [of "gs_da s" "i - 1"] unfolding fit_ok_def by (auto simp del: rd_in)
  obtain g3 where g3: "rd (gs_db s) (i - 1) = Fin g3" using ok i1 rd_fin [of "gs_db s" "i - 1"] unfolding fit_ok_def by (auto simp del: rd_in)
  have c1: "rd (map Fin cs) (i - 1) = Fin (cs ! (i - 1))" "rd (map Fin cs) i = Fin (cs ! i)" using i i1 by simp_all
  define v0 where "v0 = w + a * (cs ! (i - 1) * cs ! (i - 1)) + b * pv"
  define v where "v = (if v0 < 1 / 10 ^ 10 then 1 / 10 ^ 10 else v0)"
  have v0: "Fin w + Fin a * (Fin (cs ! (i - 1)) * Fin (cs ! (i - 1))) + Fin b * Fin pv = Fin v0" by (simp add: v0_def)
  have v: "(if Fin v0 < Fin (1 / 10 ^ 10) then Fin (1 / 10 ^ 10) else Fin v0) = Fin v" by (simp add: v_def)
  have "(0 :: real) < 1 / 10 ^ 10" by simp
  then have vpos: "0 < v" unfolding v_def by (simp add: not_less split: if_split)
  define f where "f = 1 / 2 * (1 / v - 1 / v * (1 / v) * (cs ! i) * (cs ! i))"
  have f: "garch_factor (Fin v) (Fin (cs ! i)) = Fin f" using vpos by (simp add: garch_factor_def f_def)
  define dw where "dw = 1 + b * (if i > 1 then g1 else 0)"
  define da where "da = cs ! (i - 1) * cs ! (i - 1) + b * (if i > 1 then g2 else 0)"
  define db where "db = pv + b * (if i > 1 then g3 else 0)"
  have d: "Fin 1 + Fin b * (if i > 1 then Fin g1 else Fin 0) = Fin dw"
    "Fin (cs ! (i - 1)) * Fin (cs ! (i - 1)) + Fin b * (if i > 1 then Fin g2 else Fin 0) = Fin da"
    "Fin pv + Fin b * (if i > 1 then Fin g3 else Fin 0) = Fin db" by (simp_all add: dw_def da_def db_def)
  have step: "garch_step (map Fin cs) i s = garch_clamp (s\<lparr>gs_var := (gs_var s)[i := Fin v],
      gs_dw := (gs_dw s)[i := Fin dw], gs_da := (gs_da s)[i := Fin da], gs_db := (gs_db s)[i := Fin db],
      gs_omega := Fin w + Fin (1 / 100) * Fin f * Fin dw, gs_alpha := Fin a + Fin (1 / 100) * Fin f * Fin da,
      gs_beta := Fin b + Fin (1 / 100) * Fin f * Fin db\<rparr>)"
    unfolding garch_step_def Let_def p pv c1 g1 g2 g3 zero_Fin one_Fin v0 v f d ..
  have "params_ok (garch_step (map Fin cs) i s)" unfolding step by (rule clamp_ok) simp_all
  then show ?thesis
    using ok vpos unfolding fit_ok_def
    by (auto simp: step clamp_rest dest!: subsetD [OF set_update_subset_insert])
qed

lemma iter_ok:
  assumes "params_ok s" "length (gs_var s) = length cs" "\<forall>x \<in> set (gs_var s). \<exists>r \<ge> 0. x = Fin r"
  shows "fit_ok (length cs) (garch_iter (map Fin cs) s)"
  unfolding garch_iter_def Let_def length_map
proof (rule for_loop_preserves)
  show "fit_ok (length cs) (s\<lparr>gs_dw := replicate (length cs) (Fin 0), gs_da := replicate (length cs) (Fin 0),
      gs_db := replicate (length cs) (Fin 0)\<rparr>)"
    using assms by (auto simp: fit_ok_def params_ok_def)
qed (rule step_ok)

definition vars_ok :: "nat \<Rightarrow> garch_state \<Rightarrow> bool" where
  "vars_ok n s \<longleftrightarrow> params_ok s \<and> length (gs_var s) = n \<and> (\<forall>x \<in> set (gs_var s). \<exists>r \<ge> 0. x = Fin r)"

lemma center_Fin: "0 < length rs \<Longrightarrow> center (map Fin rs) = map Fin (map (\<lambda>r. r - sum_list rs / real (length rs)) rs)"
  by (simp add: center_def mean_of_def)

lemma start_ok: "0 < length cs \<Longrightarrow> vars_ok (length cs) (garch_start (map Fin cs))"
proof -
  assume n: "0 < length cs"
  have "map (\<lambda>r. r * r) (map Fin cs) = map Fin (map (\<lambda>r. r * r) cs)" by simp
  then have m: "mean_square (map Fin cs) = Fin (sum_list (map (\<lambda>r. r * r) cs) / real (length cs))"
    using n by (simp add: mean_square_def del: map_map)
  have "0 \<le> sum_list (map (\<lambda>r. r * r) cs) / real (length cs)" by (intro divide_nonneg_nonneg sum_list_nonneg) auto
  then have "params_ok (garch_start (map Fin cs))"
    unfolding params_ok_def garch_start_def Let_def m
    by (intro exI [of _ "sum_list (map (\<lambda>r. r * r) cs) / real (length cs) * (1 / 10)"] exI [of _ "1 / 10"]
        exI [of _ "85 / 100"]) simp
  with \<open>0 \<le> sum_list (map (\<lambda>r. r * r) cs) / real (length cs)\<close> show ?thesis
    by (auto simp: vars_ok_def garch_start_def Let_def m)
qed

lemma garch_fit_ok: "0 < length cs \<Longrightarrow> vars_ok (length cs) (garch_fit (map Fin cs) m)"
  unfolding garch_fit_def
proof (rule for_loop_preserves)
  fix i t assume "vars_ok (length cs) t"
  then have "fit_ok (length cs) (garch_iter (map Fin cs) t)" by (auto simp: vars_ok_def intro: iter_ok)
  then show "vars_ok (length cs) (garch_iter (map Fin cs) t)" by (simp add: fit_ok_def vars_ok_def)
qed (rule start_ok)

lemma annualize_nonneg: "0 \<le> r \<Longrightarrow> \<exists>v \<ge> 0. annualize (Fin r) = Fin v"
  by (auto simp: annualize_def)

text \<open>
  The update of the fit goes the wrong way: where the squared residual is below the conditional variance,
  so that the likelihood asks for a smaller variance, the step raises \<open>omega\<close>.
\<close>

lemma garch_step_ascends:
  assumes "0 < v" "e ^ 2 < v"
  shows "\<exists>f > 0. garch_factor (Fin v) (Fin e) = Fin f"
proof -
  have "1 / v * (1 / v) * e * e < 1 / v"
    using assms by (simp add: field_simps power2_eq_square)
  then show ?thesis using assms
    by (intro exI [of _ "1 / 2 * (1 / v - 1 / v * (1 / v) * e * e)"]) (simp add: garch_factor_def)
qed

section \<open>Properties\<close>

text \<open>
  The GARCH fit of at least thirty finite returns always yields an admissible model, after any number of
  iterations: \<open>alpha\<close> and \<open>beta\<close> are positive with \<open>alpha + beta\<close> at most 0.999 (stationary), \<open>omega\<close> and the
  unconditional variance are not negative, the half-life is a positive number, and every volatility of
  the series and the forecast is a finite number that is not negative.
\<close>
theorem garch_fit_admissible:
  assumes "30 \<le> length rs"
  shows "\<exists>g w a b h u fc. calcGARCH (map Fin rs) maxIter = Some g \<and> gr_omega g = Fin w \<and> gr_alpha g = Fin a \<and>
    gr_beta g = Fin b \<and> 0 \<le> w \<and> 0 < a \<and> 0 < b \<and> a + b \<le> 999 / 1000 \<and>
    gr_half_life g = Fin h \<and> 0 < h \<and> gr_unconditional g = Fin u \<and> 0 \<le> u \<and>
    gr_forecast g = Fin fc \<and> 0 \<le> fc \<and>
    length (gr_series g) = length rs \<and> (\<forall>x \<in> set (gr_series g). \<exists>v \<ge> 0. x = Fin v)"
proof -
  have n: "0 < length rs" using assms by linarith
  define cs where "cs = map (\<lambda>r. r - sum_list rs / real (length rs)) rs"
  have cen: "center (map Fin rs) = map Fin cs" using center_Fin [OF n] by (simp add: cs_def)
  have len: "length cs = length rs" by (simp add: cs_def)
  let ?s = "garch_fit (map Fin cs) maxIter"
  have ok: "vars_ok (length rs) ?s" using garch_fit_ok [of cs maxIter] n len by simp
  then obtain w a b where p: "gs_omega ?s = Fin w" "gs_alpha ?s = Fin a" "gs_beta ?s = Fin b"
    and r: "0 \<le> w" "0 < a" "0 < b" "a + b \<le> 999 / 1000" by (auto simp: vars_ok_def params_ok_def)
  have m1: "length rs - 1 < length rs" using n by simp
  then have "gs_var ?s ! (length rs - 1) \<in> set (gs_var ?s)" using ok by (simp add: vars_ok_def)
  then obtain lv where "gs_var ?s ! (length rs - 1) = Fin lv" and lv0: "0 \<le> lv" using ok by (auto simp: vars_ok_def)
  then have lv: "rd (gs_var ?s) (length rs - 1) = Fin lv" using ok m1 by (simp add: vars_ok_def)
  define e where "e = cs ! (length rs - 1)"
  have e: "rd (map Fin cs) (length rs - 1) = Fin e" using m1 len by (simp add: e_def)
  have fc: "Fin w + Fin a * Fin e * Fin e + Fin b * Fin lv = Fin (w + a * e * e + b * lv)" by simp
  have fc0: "0 \<le> w + a * e * e + b * lv" using r lv0 by (simp add: mult.assoc)
  obtain fv where fv: "annualize (Fin (w + a * e * e + b * lv)) = Fin fv" "0 \<le> fv" using annualize_nonneg [OF fc0] by blast
  have ab: "0 < a + b" "a + b < 1" using r by linarith+
  have ln_ab: "ln (a + b) < 0" using ab by (simp add: ln_less_zero_iff)
  have hl: "(if Fin a + Fin b > 0 \<and> Fin a + Fin b < 1 then jlog (Fin (1 / 2)) / jlog (Fin a + Fin b) else PInf)
      = Fin (ln (1 / 2) / ln (a + b))" using ab ln_ab by simp
  have h0: "0 < ln (1 / 2) / ln (a + b)" using ln_ab by (intro divide_neg_neg) (simp_all add: ln_div)
  have un: "Fin w / (1 - (Fin a + Fin b)) = Fin (w / (1 - (a + b)))" using ab by simp
  have u0: "0 \<le> w / (1 - (a + b))" using r ab by simp
  have ser: "\<forall>x \<in> set (map annualize (gs_var ?s)). \<exists>v \<ge> 0. x = Fin v"
    using ok annualize_nonneg by (fastforce simp: vars_ok_def)
  have ls: "length (gs_var ?s) = length rs" using ok by (simp add: vars_ok_def)
  show ?thesis
    using assms r fv h0 u0 ser ls
    unfolding calcGARCH_def Let_def length_map cen p e lv fc fv hl un
    by (simp add: not_less)
qed

theorem garch_fit_admissible_witness:
  "\<exists>g a b. calcGARCH (map Fin (replicate 30 1)) 2 = Some g \<and> gr_alpha g = Fin a \<and> gr_beta g = Fin b \<and> a + b \<le> 999 / 1000"
  using garch_fit_admissible [of "replicate 30 1" 2] by auto

end
