(* ===== verification/HiddenMarkov.thy ===== *)
theory HiddenMarkov
  imports JsText
begin

text \<open>
  The hidden Markov model of \<open>web-ui/src/utils/hmmMath.js\<close>: scaled forward and backward passes, the Viterbi
  decoder in log space, one Baum-Welch step and the EM loop, quantisation of returns. Matrices are lists
  of rows; a matrix too small for the loops makes the code throw, and the laws are about matrices of the
  right shape. The draws of \<open>Math.random\<close> are a parameter.
\<close>

type_synonym matrix = "jsnum list list"

definition row :: "matrix \<Rightarrow> nat \<Rightarrow> jsnum list" where
  "row m i = (if i < length m then m ! i else [])"

definition sum_to :: "nat \<Rightarrow> (nat \<Rightarrow> jsnum) \<Rightarrow> jsnum" where
  \<comment> \<open>\<open>let s = 0; for (i < n) s += f(i)\<close>\<close>
  "sum_to n f = for_loop 0 n (\<lambda>i s. s + f i) 0"

section \<open>Forward and backward\<close>

definition scale_of :: "jsnum list \<Rightarrow> jsnum" where
  "scale_of r = (let sum = jsum r in if sum > 0 then sum else Fin (1 / 10 ^ 10))"

definition scale_row :: "jsnum list \<Rightarrow> jsnum list" where
  "scale_row r = map (\<lambda>a. a / scale_of r) r"

definition first_row :: "nat \<Rightarrow> nat \<Rightarrow> matrix \<Rightarrow> jsnum list \<Rightarrow> jsnum list" where
  "first_row N ob B p0 = map (\<lambda>i. rd p0 i * rd (row B i) ob) [0..<N]"

definition next_row :: "nat \<Rightarrow> nat \<Rightarrow> matrix \<Rightarrow> matrix \<Rightarrow> jsnum list \<Rightarrow> jsnum list" where
  "next_row N ob A B prev =
     map (\<lambda>j. sum_to N (\<lambda>i. rd prev i * rd (row A i) j) * rd (row B j) ob) [0..<N]"

definition forward_step ::
  "nat list \<Rightarrow> matrix \<Rightarrow> matrix \<Rightarrow> nat \<Rightarrow> matrix \<times> jsnum list \<Rightarrow> matrix \<times> jsnum list" where
  "forward_step obs A B t s =
     (let r = next_row (length A) (obs ! t) A B (row (fst s) (t - 1))
      in (fst s @ [scale_row r], snd s @ [scale_of r]))"

record forward_result =
  fw_alpha :: matrix
  fw_scales :: "jsnum list"
  fw_loglik :: jsnum

definition forward :: "nat list \<Rightarrow> matrix \<Rightarrow> matrix \<Rightarrow> jsnum list \<Rightarrow> forward_result option" where
  \<comment> \<open>\<open>None\<close>: without observations \<open>alpha[0]\<close> is undefined and the code throws\<close>
  "forward obs A B p0 =
     (if obs = [] then None
      else
        let r0 = first_row (length A) (obs ! 0) B p0;
            s = for_loop 1 (length obs) (forward_step obs A B) ([scale_row r0], [scale_of r0])
        in Some \<lparr>fw_alpha = fst s, fw_scales = snd s, fw_loglik = jsum (map jlog (snd s))\<rparr>)"

definition backward_row :: "nat \<Rightarrow> nat \<Rightarrow> matrix \<Rightarrow> matrix \<Rightarrow> jsnum list \<Rightarrow> jsnum \<Rightarrow> jsnum list" where
  "backward_row N ob A B next sc =
     map (\<lambda>i. sum_to N (\<lambda>j. rd (row A i) j * rd (row B j) ob * rd next j) / sc) [0..<N]"

text \<open>The loop counts down from \<open>T - 2\<close>; the list holds the rows from the current one on.\<close>

definition backward :: "nat list \<Rightarrow> matrix \<Rightarrow> matrix \<Rightarrow> jsnum list \<Rightarrow> matrix" where
  "backward obs A B scales =
     (let N = length A; T = length obs
      in for_loop 0 (T - 1)
           (\<lambda>k beta. let t = T - 2 - k in backward_row N (obs ! (t + 1)) A B (row beta 0) (rd scales t) # beta)
           [replicate N (1 / rd scales (T - 1))])"

section \<open>Viterbi\<close>

definition best_of :: "nat \<Rightarrow> (nat \<Rightarrow> jsnum) \<Rightarrow> jsnum \<times> nat" where
  "best_of n val = for_loop 0 n (\<lambda>i b. if val i > fst b then (val i, i) else b) (NInf, 0)"

definition safe_log :: "jsnum \<Rightarrow> jsnum" where
  "safe_log p = jlog (jmax (Fin (1 / 10 ^ 10)) p)"

definition viterbi_step ::
  "nat list \<Rightarrow> matrix \<Rightarrow> matrix \<Rightarrow> nat \<Rightarrow> matrix \<times> nat list list \<Rightarrow> matrix \<times> nat list list" where
  "viterbi_step obs A B t s =
     (let N = length A;
          best = (\<lambda>j. best_of N (\<lambda>i. rd (row (fst s) (t - 1)) i + safe_log (rd (row A i) j)))
      in (fst s @ [map (\<lambda>j. fst (best j) + safe_log (rd (row B j) (obs ! t))) [0..<N]],
          snd s @ [map (\<lambda>j. snd (best j)) [0..<N]]))"

definition backtrack :: "nat list list \<Rightarrow> nat \<Rightarrow> nat \<Rightarrow> nat list" where
  "backtrack psi T bestLast =
     for_loop 0 (T - 1) (\<lambda>k states. let t = T - 2 - k in (psi ! (t + 1) ! hd states) # states) [bestLast]"

record viterbi_result =
  vt_states :: "nat list"
  vt_logprob :: jsnum

definition viterbi :: "nat list \<Rightarrow> matrix \<Rightarrow> matrix \<Rightarrow> jsnum list \<Rightarrow> viterbi_result option" where
  "viterbi obs A B p0 =
     (if obs = [] then None
      else
        let N = length A; T = length obs;
            d0 = map (\<lambda>i. safe_log (rd p0 i * rd (row B i) (obs ! 0))) [0..<N];
            s = for_loop 1 T (viterbi_step obs A B) ([d0], [replicate N 0]);
            best = best_of N (\<lambda>i. rd (row (fst s) (T - 1)) i)
        in Some \<lparr>vt_states = backtrack (snd s) T (snd best), vt_logprob = fst best\<rparr>)"

section \<open>Baum-Welch\<close>

definition normalize_if_positive :: "jsnum list \<Rightarrow> jsnum list" where
  "normalize_if_positive r = (let sum = jsum r in if sum > 0 then map (\<lambda>v. v / sum) r else r)"

definition gamma_rows :: "nat \<Rightarrow> nat \<Rightarrow> matrix \<Rightarrow> matrix \<Rightarrow> matrix" where
  "gamma_rows N T alpha beta =
     map (\<lambda>t. normalize_if_positive (map (\<lambda>i. rd (row alpha t) i * rd (row beta t) i) [0..<N])) [0..<T]"

definition xi_raw :: "nat list \<Rightarrow> matrix \<Rightarrow> matrix \<Rightarrow> matrix \<Rightarrow> matrix \<Rightarrow> nat \<Rightarrow> nat \<Rightarrow> nat \<Rightarrow> jsnum" where
  "xi_raw obs A B alpha beta t i j =
     rd (row alpha t) i * rd (row A i) j * rd (row B j) (obs ! (t + 1)) * rd (row beta (t + 1)) j"

definition xi_denom :: "nat \<Rightarrow> nat list \<Rightarrow> matrix \<Rightarrow> matrix \<Rightarrow> matrix \<Rightarrow> matrix \<Rightarrow> nat \<Rightarrow> jsnum" where
  "xi_denom N obs A B alpha beta t =
     for_loop 0 N (\<lambda>i d. for_loop 0 N (\<lambda>j d. d + xi_raw obs A B alpha beta t i j) d) 0"

definition xi :: "nat \<Rightarrow> nat list \<Rightarrow> matrix \<Rightarrow> matrix \<Rightarrow> matrix \<Rightarrow> matrix \<Rightarrow> nat \<Rightarrow> nat \<Rightarrow> nat \<Rightarrow> jsnum" where
  "xi N obs A B alpha beta t i j =
     (let denom = xi_denom N obs A B alpha beta t; v = xi_raw obs A B alpha beta t i j
      in if denom > 0 then v / denom else v)"

record bw_result =
  bw_A :: matrix
  bw_B :: matrix
  bw_pi :: "jsnum list"
  bw_loglik :: jsnum
  bw_gamma :: matrix

definition baumWelchStep :: "nat list \<Rightarrow> matrix \<Rightarrow> matrix \<Rightarrow> jsnum list \<Rightarrow> bw_result option" where
  "baumWelchStep obs A B p0 =
     (case forward obs A B p0 of
        None \<Rightarrow> None
      | Some fw \<Rightarrow>
          let N = length A; M = length (row B 0); T = length obs;
              alpha = fw_alpha fw;
              beta = backward obs A B (fw_scales fw);
              gamma = gamma_rows N T alpha beta;
              newA = map (\<lambda>i. let denomA = sum_to (T - 1) (\<lambda>t. rd (row gamma t) i)
                       in map (\<lambda>j. let numA = sum_to (T - 1) (\<lambda>t. xi N obs A B alpha beta t i j)
                            in if denomA > 0 then numA / denomA else 1 / jnat N) [0..<N]) [0..<N];
              newB = map (\<lambda>j. let denomB = sum_to T (\<lambda>t. rd (row gamma t) j)
                       in map (\<lambda>k. let numB = for_loop 0 T (\<lambda>t s. if obs ! t = k then s + rd (row gamma t) j else s) 0
                            in if denomB > 0 then numB / denomB else 1 / jnat M) [0..<M]) [0..<N]
          in Some \<lparr>bw_A = newA, bw_B = newB, bw_pi = row gamma 0, bw_loglik = fw_loglik fw, bw_gamma = gamma\<rparr>)"

definition normRow :: "jsnum list \<Rightarrow> jsnum list" where
  "normRow r = (let s = jsum r in map (\<lambda>v. v / s) r)"

text \<open>The \<open>k\<close>-th draw is \<open>rnd k\<close>; state \<open>i\<close> uses one for \<open>pi\<close>, \<open>N\<close> for its row of \<open>A\<close> and \<open>M\<close> for that of \<open>B\<close>.\<close>

definition draw :: "(nat \<Rightarrow> jsnum) \<Rightarrow> nat \<Rightarrow> jsnum" where
  "draw rnd k = Fin (3 / 10) + rnd k * Fin (4 / 10)"

definition bw_start :: "(nat \<Rightarrow> jsnum) \<Rightarrow> nat \<Rightarrow> nat \<Rightarrow> matrix \<times> matrix \<times> jsnum list" where
  "bw_start rnd N M =
     (let base = (\<lambda>i. i * (1 + N + M));
          p0 = map (\<lambda>i. draw rnd (base i)) [0..<N];
          A = map (\<lambda>i. map (\<lambda>j. draw rnd (base i + 1 + j)) [0..<N]) [0..<N];
          B = map (\<lambda>i. map (\<lambda>k. draw rnd (base i + 1 + N + k)) [0..<M]) [0..<N]
      in (map normRow A, map normRow B, normRow p0))"

fun bw_loop :: "nat \<Rightarrow> nat list \<Rightarrow> matrix \<times> matrix \<times> jsnum list \<Rightarrow> jsnum \<Rightarrow> (matrix \<times> matrix \<times> jsnum list \<times> jsnum) option" where
  "bw_loop 0 obs (A, B, p0) prev = Some (A, B, p0, prev)"
| "bw_loop (Suc fuel) obs (A, B, p0) prev =
     (case baumWelchStep obs A B p0 of
        None \<Rightarrow> None
      | Some st \<Rightarrow>
          if \<bar>bw_loglik st - prev\<bar> < Fin (1 / 10 ^ 6) then Some (A, B, p0, prev)
          else bw_loop fuel obs (bw_A st, bw_B st, bw_pi st) (bw_loglik st))"

definition baumWelch ::
  "(nat \<Rightarrow> jsnum) \<Rightarrow> nat list \<Rightarrow> nat \<Rightarrow> nat \<Rightarrow> nat \<Rightarrow> (matrix \<times> matrix \<times> jsnum list \<times> jsnum) option" where
  "baumWelch rnd obs N M maxIter = bw_loop maxIter obs (bw_start rnd N M) NInf"

section \<open>Quantisation\<close>

definition quantile_cuts :: "real list \<Rightarrow> nat \<Rightarrow> jsnum list" where
  "quantile_cuts returns M =
     (let sorted = map Fin (sort returns) in map (\<lambda>i. rd sorted (i * length returns div M)) [1..<M])"

definition quantize :: "real list \<Rightarrow> nat \<Rightarrow> nat list" where
  "quantize returns M =
     (let q = quantile_cuts returns M
      in map (\<lambda>r. for_loop 0 (length q) (\<lambda>i idx. if Fin r > rd q i then i + 1 else idx) 0) returns)"

end
