(* ===== verification/HiddenMarkovLaws.thy ===== *)
theory HiddenMarkovLaws
  imports HiddenMarkov Regression
begin

text \<open>
  Laws of the hidden Markov model, over finite parameters of the right shape. The references are the joint
  probability of a path of states with the observations, its sum over all paths (the likelihood), and the
  logarithm of a path's probability with the floor of 1e-10 that the decoder puts under every factor.
\<close>

section \<open>Shapes\<close>

type_synonym rmatrix = "real list list"

definition jm :: "rmatrix \<Rightarrow> matrix" where
  "jm m = map (map Fin) m"

definition hmm_shape :: "nat \<Rightarrow> nat \<Rightarrow> rmatrix \<Rightarrow> rmatrix \<Rightarrow> real list \<Rightarrow> nat list \<Rightarrow> bool" where
  "hmm_shape N M A B p obs \<longleftrightarrow> 0 < N \<and> length A = N \<and> (\<forall>r \<in> set A. length r = N) \<and>
     length B = N \<and> (\<forall>r \<in> set B. length r = M) \<and> length p = N \<and> obs \<noteq> [] \<and> (\<forall>k \<in> set obs. k < M)"

lemma rd_jm: "i < length m \<Longrightarrow> j < length (m ! i) \<Longrightarrow> rd (row (jm m) i) j = Fin (m ! i ! j)"
  by (simp add: row_def jm_def)

lemma shape_rd:
  assumes "hmm_shape N M A B p obs" "i < N"
  shows "j < N \<Longrightarrow> rd (row (jm A) i) j = Fin (A ! i ! j)"
    "t < length obs \<Longrightarrow> rd (row (jm B) i) (obs ! t) = Fin (B ! i ! (obs ! t))"
    "rd (map Fin p) i = Fin (p ! i)" "length (jm A) = N"
proof -
  have A: "length (A ! i) = N" and B: "length (B ! i) = M" using assms by (auto simp: hmm_shape_def)
  show "j < N \<Longrightarrow> rd (row (jm A) i) j = Fin (A ! i ! j)" using assms A by (simp add: rd_jm hmm_shape_def)
  show "t < length obs \<Longrightarrow> rd (row (jm B) i) (obs ! t) = Fin (B ! i ! (obs ! t))"
    using assms B by (simp add: rd_jm hmm_shape_def)
  show "rd (map Fin p) i = Fin (p ! i)" using assms by (simp add: hmm_shape_def)
  show "length (jm A) = N" using assms by (simp add: hmm_shape_def jm_def)
qed

lemma sum_to_Fin: "(\<And>i. i < n \<Longrightarrow> f i = Fin (g i)) \<Longrightarrow> sum_to n f = Fin (\<Sum>i = 0..<n. g i)"
  unfolding sum_to_def zero_Fin by (rule sum_loop_Fin)

lemma map_upt_cong: "(\<And>i. i < n \<Longrightarrow> f i = g i) \<Longrightarrow> map f [0..<n] = map g [0..<n]"
  by simp

lemma jsum_upt: "jsum (map (\<lambda>i. Fin (g i)) [0..<n]) = Fin (\<Sum>i = 0..<n. g i)"
  by (rule jsum_map_upt) simp

section \<open>The likelihood\<close>

text \<open>The probability of the first \<open>t + 1\<close> observations ending in state \<open>j\<close>, and their likelihood.\<close>

primrec joint :: "nat \<Rightarrow> rmatrix \<Rightarrow> rmatrix \<Rightarrow> real list \<Rightarrow> nat list \<Rightarrow> nat \<Rightarrow> nat \<Rightarrow> real" where
  "joint N A B p obs 0 j = p ! j * B ! j ! (obs ! 0)"
| "joint N A B p obs (Suc t) j = (\<Sum>i = 0..<N. joint N A B p obs t i * A ! i ! j) * B ! j ! (obs ! Suc t)"

definition lik :: "nat \<Rightarrow> rmatrix \<Rightarrow> rmatrix \<Rightarrow> real list \<Rightarrow> nat list \<Rightarrow> nat \<Rightarrow> real" where
  "lik N A B p obs t = (\<Sum>j = 0..<N. joint N A B p obs t j)"

definition lik_before :: "nat \<Rightarrow> rmatrix \<Rightarrow> rmatrix \<Rightarrow> real list \<Rightarrow> nat list \<Rightarrow> nat \<Rightarrow> real" where
  "lik_before N A B p obs t = (case t of 0 \<Rightarrow> 1 | Suc s \<Rightarrow> lik N A B p obs s)"

definition alpha_row :: "nat \<Rightarrow> rmatrix \<Rightarrow> rmatrix \<Rightarrow> real list \<Rightarrow> nat list \<Rightarrow> nat \<Rightarrow> jsnum list" where
  "alpha_row N A B p obs t = map (\<lambda>j. Fin (joint N A B p obs t j / lik N A B p obs t)) [0..<N]"

text \<open>One row of the forward pass, scaled: a common factor of the row before cancels.\<close>

lemma scaled_row:
  assumes "0 < c" "0 < (\<Sum>j = 0..<N. f j)"
  shows "scale_of (map (\<lambda>j. Fin (f j / c)) [0..<N]) = Fin ((\<Sum>j = 0..<N. f j) / c)"
    "scale_row (map (\<lambda>j. Fin (f j / c)) [0..<N]) = map (\<lambda>j. Fin (f j / (\<Sum>j = 0..<N. f j))) [0..<N]"
proof -
  have s: "jsum (map (\<lambda>j. Fin (f j / c)) [0..<N]) = Fin ((\<Sum>j = 0..<N. f j) / c)"
    by (simp add: jsum_upt sum_divide_distrib)
  show sc: "scale_of (map (\<lambda>j. Fin (f j / c)) [0..<N]) = Fin ((\<Sum>j = 0..<N. f j) / c)"
    using assms by (simp add: scale_of_def s)
  show "scale_row (map (\<lambda>j. Fin (f j / c)) [0..<N]) = map (\<lambda>j. Fin (f j / (\<Sum>j = 0..<N. f j))) [0..<N]"
    using assms unfolding scale_row_def sc by simp
qed

lemma first_row_joint:
  assumes "hmm_shape N M A B p obs"
  shows "first_row N (obs ! 0) (jm B) (map Fin p) = map (\<lambda>j. Fin (joint N A B p obs 0 j / 1)) [0..<N]"
proof -
  have "0 < length obs" using assms by (simp add: hmm_shape_def)
  then show ?thesis
    unfolding first_row_def by (intro map_upt_cong) (simp add: shape_rd [OF assms] del: rd_in)
qed

lemma next_row_joint:
  assumes shape: "hmm_shape N M A B p obs" and t: "Suc t < length obs"
  shows "next_row N (obs ! Suc t) (jm A) (jm B) (alpha_row N A B p obs t)
    = map (\<lambda>j. Fin (joint N A B p obs (Suc t) j / lik N A B p obs t)) [0..<N]"
  unfolding next_row_def
proof (intro map_upt_cong)
  fix j assume j: "j < N"
  have "sum_to N (\<lambda>i. rd (alpha_row N A B p obs t) i * rd (row (jm A) i) j)
      = Fin (\<Sum>i = 0..<N. joint N A B p obs t i / lik N A B p obs t * A ! i ! j)"
    using j by (intro sum_to_Fin) (simp add: shape_rd(1) [OF shape] alpha_row_def)
  then show "sum_to N (\<lambda>i. rd (alpha_row N A B p obs t) i * rd (row (jm A) i) j) * rd (row (jm B) j) (obs ! Suc t)
      = Fin (joint N A B p obs (Suc t) j / lik N A B p obs t)"
    using shape_rd(2) [OF shape j t] by (simp add: sum_divide_distrib sum_distrib_right)
qed

definition forward_inv where
  "forward_inv N A B p obs t s \<longleftrightarrow> length (fst s) = t \<and> length (snd s) = t \<and>
     (\<forall>k < t. fst s ! k = alpha_row N A B p obs k \<and> snd s ! k = Fin (lik N A B p obs k / lik_before N A B p obs k))"

lemma forward_loop:
  assumes shape: "hmm_shape N M A B p obs" and pos: "\<forall>t < length obs. 0 < lik N A B p obs t"
  defines "r0 \<equiv> first_row (length (jm A)) (obs ! 0) (jm B) (map Fin p)"
  shows "forward_inv N A B p obs (length obs)
    (for_loop 1 (length obs) (forward_step obs (jm A) (jm B)) ([scale_row r0], [scale_of r0]))"
proof (rule for_loop_invariant)
  have ne: "0 < length obs" "0 < N" using shape by (auto simp: hmm_shape_def)
  then show "1 \<le> length obs" by (simp add: Suc_le_eq)
  have len: "length (jm A) = N" using shape_rd(4) [OF shape ne(2)] .
  have "0 < (\<Sum>j = 0..<N. joint N A B p obs 0 j)" using pos [rule_format, OF ne(1)] by (simp only: lik_def)
  then show "forward_inv N A B p obs 1 ([scale_row r0], [scale_of r0])"
    unfolding r0_def len first_row_joint [OF shape]
    by (subst scaled_row, simp, simp, subst scaled_row, simp, simp)
      (simp add: forward_inv_def alpha_row_def lik_def lik_before_def)
next
  fix t s
  assume t: "1 \<le> t" "t < length obs" and inv: "forward_inv N A B p obs t s"
  have len: "length (jm A) = N" using shape_rd(4) [OF shape, of 0] shape by (simp add: hmm_shape_def)
  obtain u where u: "t = Suc u" using t by (cases t) auto
  have r: "row (fst s) u = alpha_row N A B p obs u" using inv u by (simp add: forward_inv_def row_def)
  have p1: "0 < lik N A B p obs u" "0 < (\<Sum>j = 0..<N. joint N A B p obs (Suc u) j)"
    using pos t u by (simp_all add: lik_def [symmetric] del: joint.simps)
  have "forward_step obs (jm A) (jm B) t s = (fst s @ [alpha_row N A B p obs t],
      snd s @ [Fin (lik N A B p obs t / lik N A B p obs u)])"
    unfolding u forward_step_def Let_def diff_Suc_1 r len next_row_joint [OF shape t(2) [unfolded u]]
      scaled_row [OF p1] by (simp only: alpha_row_def lik_def)
  then show "forward_inv N A B p obs (Suc t) (forward_step obs (jm A) (jm B) t s)"
    using inv u by (auto simp: forward_inv_def nth_append less_Suc_eq lik_before_def)
qed

lemma log_telescope:
  assumes "\<forall>t < n. 0 < lik N A B p obs t" "0 < n"
  shows "(\<Sum>t = 0..<n. ln (lik N A B p obs t / lik_before N A B p obs t)) = ln (lik N A B p obs (n - 1))"
  using assms
proof (induction n)
  case (Suc n)
  show ?case
  proof (cases n)
    case 0
    then show ?thesis by (simp add: lik_before_def)
  next
    case (Suc k)
    then have "0 < lik N A B p obs k" "0 < lik N A B p obs n" using \<open>\<forall>t < Suc n. 0 < lik N A B p obs t\<close> by simp_all
    then have d: "ln (lik N A B p obs n / lik N A B p obs k) = ln (lik N A B p obs n) - ln (lik N A B p obs k)"
      by (simp add: ln_div)
    show ?thesis using Suc.IH Suc.prems Suc d by (simp add: lik_before_def)
  qed
qed simp

section \<open>Sum over paths\<close>

definition path_prob :: "rmatrix \<Rightarrow> rmatrix \<Rightarrow> real list \<Rightarrow> nat list \<Rightarrow> nat list \<Rightarrow> real" where
  "path_prob A B p obs qs = p ! (qs ! 0) * B ! (qs ! 0) ! (obs ! 0) *
     (\<Prod>t = 1..<length qs. A ! (qs ! (t - 1)) ! (qs ! t) * B ! (qs ! t) ! (obs ! t))"

definition paths :: "nat \<Rightarrow> nat \<Rightarrow> nat list set" where
  "paths N n = {qs. length qs = n \<and> set qs \<subseteq> {0..<N}}"

lemma paths_finite [simp]: "finite (paths N n)"
  unfolding paths_def using finite_lists_length_eq [of "{0..<N}" n] by (simp add: conj_commute)

lemma paths_Suc: "paths N (Suc n) = (\<lambda>(qs, j). qs @ [j]) ` (paths N n \<times> {0..<N})"
proof (intro equalityI subsetI)
  fix qs assume qs: "qs \<in> paths N (Suc n)"
  then have ne: "qs \<noteq> []" by (auto simp: paths_def)
  then have "last qs \<in> {0..<N}" using qs last_in_set by (fastforce simp: paths_def)
  then show "qs \<in> (\<lambda>(qs, j). qs @ [j]) ` (paths N n \<times> {0..<N})"
    using ne qs by (intro image_eqI [of _ _ "(butlast qs, last qs)"]) (auto simp: paths_def dest: in_set_butlastD)
qed (auto simp: paths_def)

lemma paths_1: "paths N 1 = (\<lambda>j. [j]) ` {0..<N}"
  by (auto simp: paths_def length_Suc_conv image_def)

lemma path_prob_snoc:
  assumes "qs \<noteq> []"
  shows "path_prob A B p obs (qs @ [j]) =
    path_prob A B p obs qs * (A ! last qs ! j * B ! j ! (obs ! length qs))"
proof -
  have "(\<Prod>t = 1..<length qs. A ! ((qs @ [j]) ! (t - 1)) ! ((qs @ [j]) ! t) * B ! ((qs @ [j]) ! t) ! (obs ! t))
      = (\<Prod>t = 1..<length qs. A ! (qs ! (t - 1)) ! (qs ! t) * B ! (qs ! t) ! (obs ! t))"
    by (rule prod.cong) (auto simp: nth_append)
  moreover have "1 \<le> length qs" using assms by (cases qs) auto
  ultimately show ?thesis
    using assms by (simp add: path_prob_def nth_append last_conv_nth prod.atLeastLessThan_Suc ac_simps)
qed

lemma joint_paths: "j < N \<Longrightarrow> joint N A B p obs t j = (\<Sum>qs \<in> {qs \<in> paths N (Suc t). last qs = j}. path_prob A B p obs qs)"
proof (induction t arbitrary: j)
  case 0
  have "{qs \<in> paths N (Suc 0). last qs = j} = {[j]}" using 0 paths_1 [of N] by auto
  then show ?case by (simp add: path_prob_def)
next
  case (Suc t)
  have inj: "inj_on (\<lambda>qs. qs @ [j]) (paths N (Suc t))" by (simp add: inj_on_def)
  have set: "{qs \<in> paths N (Suc (Suc t)). last qs = j} = (\<lambda>qs. qs @ [j]) ` paths N (Suc t)"
    using Suc.prems unfolding paths_Suc [of N "Suc t"] by auto
  have split: "paths N (Suc t) = (\<Union>i \<in> {0..<N}. {qs \<in> paths N (Suc t). last qs = i})"
    by (auto simp: paths_def) (metis atLeastLessThan_iff last_in_set length_0_conv old.nat.distinct(2) subsetD)
  have "(\<Sum>qs \<in> {qs \<in> paths N (Suc (Suc t)). last qs = j}. path_prob A B p obs qs)
      = (\<Sum>qs \<in> paths N (Suc t). path_prob A B p obs (qs @ [j]))"
    unfolding set by (simp add: sum.reindex [OF inj])
  also have "\<dots> = (\<Sum>qs \<in> paths N (Suc t). path_prob A B p obs qs * (A ! last qs ! j * B ! j ! (obs ! Suc t)))"
  proof (rule sum.cong)
    fix qs assume "qs \<in> paths N (Suc t)"
    then have "qs \<noteq> []" "length qs = Suc t" by (auto simp: paths_def)
    then show "path_prob A B p obs (qs @ [j]) = path_prob A B p obs qs * (A ! last qs ! j * B ! j ! (obs ! Suc t))"
      by (simp add: path_prob_snoc)
  qed simp
  also have "\<dots> = (\<Sum>i = 0..<N. \<Sum>qs \<in> {qs \<in> paths N (Suc t). last qs = i}.
      path_prob A B p obs qs * (A ! last qs ! j * B ! j ! (obs ! Suc t)))"
    by (subst split, subst sum.UNION_disjoint) auto
  also have "\<dots> = (\<Sum>i = 0..<N. joint N A B p obs t i * (A ! i ! j * B ! j ! (obs ! Suc t)))"
    by (rule sum.cong) (simp_all add: Suc.IH sum_distrib_right)
  also have "\<dots> = joint N A B p obs (Suc t) j" by (simp add: sum_distrib_right mult.assoc)
  finally show ?case ..
qed

lemma lik_paths: "lik N A B p obs t = (\<Sum>qs \<in> paths N (Suc t). path_prob A B p obs qs)"
proof -
  have split: "paths N (Suc t) = (\<Union>i \<in> {0..<N}. {qs \<in> paths N (Suc t). last qs = i})"
    by (auto simp: paths_def) (metis atLeastLessThan_iff last_in_set length_0_conv old.nat.distinct(2) subsetD)
  have "(\<Sum>qs \<in> paths N (Suc t). path_prob A B p obs qs)
      = (\<Sum>i = 0..<N. \<Sum>qs \<in> {qs \<in> paths N (Suc t). last qs = i}. path_prob A B p obs qs)"
    by (subst split, subst sum.UNION_disjoint) auto
  also have "\<dots> = lik N A B p obs t" unfolding lik_def by (rule sum.cong) (simp_all add: joint_paths)
  finally show ?thesis ..
qed

section \<open>Positivity\<close>

definition hmm_nonneg :: "rmatrix \<Rightarrow> rmatrix \<Rightarrow> real list \<Rightarrow> bool" where
  "hmm_nonneg A B p \<longleftrightarrow> (\<forall>r \<in> set A. \<forall>x \<in> set r. 0 \<le> x) \<and> (\<forall>r \<in> set B. \<forall>x \<in> set r. 0 \<le> x) \<and> (\<forall>x \<in> set p. 0 \<le> x)"

lemma nonneg_entries:
  assumes "hmm_shape N M A B p obs" "hmm_nonneg A B p" "i < N"
  shows "j < N \<Longrightarrow> 0 \<le> A ! i ! j" "t < length obs \<Longrightarrow> 0 \<le> B ! i ! (obs ! t)" "0 \<le> p ! i"
proof -
  have A: "A ! i \<in> set A" "length (A ! i) = N" and B: "B ! i \<in> set B" "length (B ! i) = M"
    using assms by (auto simp: hmm_shape_def)
  show "j < N \<Longrightarrow> 0 \<le> A ! i ! j" using A assms(2) nth_mem [of j "A ! i"] by (auto simp: hmm_nonneg_def)
  show "0 \<le> B ! i ! (obs ! t)" if "t < length obs"
  proof -
    have "obs ! t < M" using that assms(1) by (simp add: hmm_shape_def)
    then show ?thesis using B assms(2) nth_mem [of "obs ! t" "B ! i"] by (auto simp: hmm_nonneg_def)
  qed
  show "0 \<le> p ! i" using assms by (auto simp: hmm_shape_def hmm_nonneg_def)
qed

lemma joint_nonneg:
  assumes "hmm_shape N M A B p obs" "hmm_nonneg A B p"
  shows "t < length obs \<Longrightarrow> j < N \<Longrightarrow> 0 \<le> joint N A B p obs t j"
proof (induction t arbitrary: j)
  case 0
  then show ?case using nonneg_entries [OF assms] by (simp add: mult_nonneg_nonneg)
next
  case (Suc t)
  then show ?case using nonneg_entries [OF assms]
    by (auto intro!: mult_nonneg_nonneg sum_nonneg)
qed

lemma lik_pos_before:
  assumes ok: "hmm_shape N M A B p obs" "hmm_nonneg A B p" and t: "Suc t < length obs" and pos: "0 < lik N A B p obs (Suc t)"
  shows "0 < lik N A B p obs t"
proof (rule ccontr)
  assume neg: "\<not> 0 < lik N A B p obs t"
  have nn: "\<And>j. j < N \<Longrightarrow> 0 \<le> joint N A B p obs t j" using joint_nonneg [OF ok] t by simp
  then have "lik N A B p obs t = 0" using neg sum_nonneg [of "{0..<N}" "joint N A B p obs t"] by (simp add: lik_def)
  then have "\<forall>j \<in> {0..<N}. joint N A B p obs t j = 0"
    using nn unfolding lik_def by (subst (asm) sum_nonneg_eq_0_iff) auto
  then have "lik N A B p obs (Suc t) = 0" by (simp add: lik_def)
  then show False using pos by simp
qed

lemma lik_all_pos:
  assumes "hmm_shape N M A B p obs" "hmm_nonneg A B p" "0 < lik N A B p obs (length obs - 1)"
  shows "\<forall>t < length obs. 0 < lik N A B p obs t"
proof -
  have key: "k < length obs \<Longrightarrow> 0 < lik N A B p obs (length obs - 1 - k)" for k
  proof (induction k)
    case (Suc k)
    then have "length obs - 1 - k = Suc (length obs - 1 - Suc k)" by simp
    then show ?case using Suc lik_pos_before [OF assms(1,2), of "length obs - 1 - Suc k"] by simp
  qed (use assms in simp)
  show ?thesis
  proof (intro allI impI)
    fix t assume "t < length obs"
    then show "0 < lik N A B p obs t" using key [of "length obs - 1 - t"] by simp
  qed
qed

section \<open>Properties of the forward pass\<close>

text \<open>
  C17: The scaled forward pass computes the likelihood: for non-negative parameters under which the
  observations are possible, \<open>logLik\<close> is the logarithm of the probability of the observations, summed over
  all paths of hidden states, and every row of \<open>alpha\<close> is the distribution of the state given the
  observations so far, so that it sums to one.
\<close>
theorem forward_computes_likelihood:
  assumes shape: "hmm_shape N M A B p obs" and nn: "hmm_nonneg A B p"
    and pos: "0 < (\<Sum>qs \<in> paths N (length obs). path_prob A B p obs qs)"
  shows "\<exists>f. forward obs (jm A) (jm B) (map Fin p) = Some f \<and>
    fw_loglik f = Fin (ln (\<Sum>qs \<in> paths N (length obs). path_prob A B p obs qs)) \<and>
    length (fw_alpha f) = length obs \<and> (\<forall>r \<in> set (fw_alpha f). jsum r = 1)"
proof -
  have ne: "obs \<noteq> []" "0 < length obs" using shape by (auto simp: hmm_shape_def)
  then have lp: "lik N A B p obs (length obs - 1) = (\<Sum>qs \<in> paths N (length obs). path_prob A B p obs qs)"
    by (simp add: lik_paths)
  have allpos: "\<forall>t < length obs. 0 < lik N A B p obs t" using lik_all_pos [OF shape nn] pos lp by simp
  define s where "s = for_loop 1 (length obs) (forward_step obs (jm A) (jm B))
    ([scale_row (first_row (length (jm A)) (obs ! 0) (jm B) (map Fin p))],
     [scale_of (first_row (length (jm A)) (obs ! 0) (jm B) (map Fin p))])"
  have inv: "forward_inv N A B p obs (length obs) s"
    unfolding s_def by (rule forward_loop [OF shape allpos])
  have f: "forward obs (jm A) (jm B) (map Fin p) = Some \<lparr>fw_alpha = fst s, fw_scales = snd s, fw_loglik = jsum (map jlog (snd s))\<rparr>"
    using ne by (simp add: forward_def Let_def s_def)
  have before: "0 < lik_before N A B p obs t" if "t < length obs" for t
    using allpos that by (cases t) (simp_all add: lik_before_def)
  have "map jlog (snd s) = map (\<lambda>t. Fin (ln (lik N A B p obs t / lik_before N A B p obs t))) [0..<length obs]"
  proof (intro nth_equalityI)
    fix t assume t: "t < length (map jlog (snd s))"
    then have "t < length obs" using inv by (simp add: forward_inv_def)
    then have "0 < lik N A B p obs t / lik_before N A B p obs t" "lik N A B p obs t \<noteq> 0" "lik_before N A B p obs t \<noteq> 0"
      using allpos before [of t] by auto
    then show "map jlog (snd s) ! t = map (\<lambda>t. Fin (ln (lik N A B p obs t / lik_before N A B p obs t))) [0..<length obs] ! t"
      using inv \<open>t < length obs\<close> by (simp add: forward_inv_def)
  qed (use inv in \<open>simp add: forward_inv_def\<close>)
  then have "jsum (map jlog (snd s)) = Fin (ln (lik N A B p obs (length obs - 1)))"
    using log_telescope [OF allpos ne(2)] by (simp add: jsum_upt)
  moreover have "jsum r = 1" if r: "r \<in> set (fst s)" for r
  proof -
    obtain k where k: "k < length obs" "r = alpha_row N A B p obs k"
      using r inv by (auto simp: forward_inv_def in_set_conv_nth)
    then have "lik N A B p obs k \<noteq> 0" using allpos by auto
    then have "(\<Sum>j = 0..<N. joint N A B p obs k j / lik N A B p obs k) = 1"
      by (simp add: sum_divide_distrib [symmetric] lik_def [symmetric])
    then show ?thesis by (simp add: k alpha_row_def jsum_upt)
  qed
  moreover have "length (fst s) = length obs" using inv by (simp add: forward_inv_def)
  ultimately show ?thesis unfolding lp by (simp add: f)
qed

theorem forward_computes_likelihood_witness:
  "\<exists>f. forward [0, 1] (jm [[1 / 2, 1 / 2], [1 / 2, 1 / 2]]) (jm [[1 / 2, 1 / 2], [1 / 2, 1 / 2]])
     (map Fin [1 / 2, 1 / 2]) = Some f \<and> length (fw_alpha f) = 2"
proof -
  let ?A = "[[1 / 2, 1 / 2], [1 / 2, 1 / 2]] :: rmatrix" and ?p = "[1 / 2, 1 / 2] :: real list"
  have shape: "hmm_shape 2 2 ?A ?A ?p [0, 1]" by (simp add: hmm_shape_def)
  have nn: "hmm_nonneg ?A ?A ?p" by (simp add: hmm_nonneg_def)
  have "lik 2 ?A ?A ?p [0, 1] 1 = 1 / 4" by (simp add: lik_def numeral_2_eq_2)
  then have "0 < (\<Sum>qs \<in> paths 2 (length [0 :: nat, 1]). path_prob ?A ?A ?p [0, 1] qs)"
    using lik_paths [of 2 ?A ?A ?p "[0, 1]" 1] by (simp add: numeral_2_eq_2)
  from forward_computes_likelihood [OF shape nn this] show ?thesis by auto
qed

section \<open>Viterbi\<close>

text \<open>The score of a path: the sum of the logarithms of its factors, each at least 1e-10.\<close>

definition flog :: "real \<Rightarrow> real" where
  "flog x = ln (max (1 / 10 ^ 10) x)"

definition path_score :: "rmatrix \<Rightarrow> rmatrix \<Rightarrow> real list \<Rightarrow> nat list \<Rightarrow> nat list \<Rightarrow> real" where
  "path_score A B p obs qs = flog (p ! (qs ! 0) * B ! (qs ! 0) ! (obs ! 0)) +
     (\<Sum>t = 1..<length qs. flog (A ! (qs ! (t - 1)) ! (qs ! t)) + flog (B ! (qs ! t) ! (obs ! t)))"

lemma safe_log_Fin: "safe_log (Fin x) = Fin (flog x)"
proof -
  have "0 < max (1 / 10 ^ 10) x" by (simp add: less_max_iff_disj)
  then show ?thesis by (simp add: safe_log_def flog_def not_less)
qed

lemma path_score_snoc:
  assumes "qs \<noteq> []"
  shows "path_score A B p obs (qs @ [j]) =
    path_score A B p obs qs + (flog (A ! last qs ! j) + flog (B ! j ! (obs ! length qs)))"
proof -
  have "(\<Sum>t = 1..<length qs. flog (A ! ((qs @ [j]) ! (t - 1)) ! ((qs @ [j]) ! t)) + flog (B ! ((qs @ [j]) ! t) ! (obs ! t)))
      = (\<Sum>t = 1..<length qs. flog (A ! (qs ! (t - 1)) ! (qs ! t)) + flog (B ! (qs ! t) ! (obs ! t)))"
    by (rule sum.cong) (auto simp: nth_append)
  moreover have "1 \<le> length qs" using assms by (cases qs) auto
  ultimately show ?thesis
    using assms by (simp add: path_score_def nth_append last_conv_nth sum.atLeastLessThan_Suc)
qed

text \<open>The argmax loop over finite values.\<close>

lemma best_of_max:
  assumes "0 < n" "\<And>i. i < n \<Longrightarrow> f i = Fin (g i)"
  shows "\<exists>m. best_of n f = (Fin (g m), m) \<and> m < n \<and> (\<forall>i < n. g i \<le> g m)"
proof -
  have "(\<lambda>k s. if k = 0 then s = (NInf, 0) else \<exists>m. s = (Fin (g m), m) \<and> m < k \<and> (\<forall>i < k. g i \<le> g m)) n (best_of n f)"
    unfolding best_of_def
  proof (rule for_loop_invariant)
    fix i t assume i: "i < n" and inv: "if i = 0 then t = (NInf, 0) else \<exists>m. t = (Fin (g m), m) \<and> m < i \<and> (\<forall>k < i. g k \<le> g m)"
    show "if Suc i = 0 then (if fst t < f i then (f i, i) else t) = (NInf, 0)
       else \<exists>m. (if fst t < f i then (f i, i) else t) = (Fin (g m), m) \<and> m < Suc i \<and> (\<forall>k < Suc i. g k \<le> g m)"
    proof (cases "i = 0")
      case True
      then show ?thesis using inv assms(2) [OF i] by auto
    next
      case False
      then obtain m where m: "t = (Fin (g m), m)" "m < i" "\<forall>k < i. g k \<le> g m" using inv by auto
      show ?thesis
      proof (cases "g m < g i")
        case True
        then show ?thesis using m assms(2) [OF i] by (auto simp: less_Suc_eq intro!: exI [of _ i] dest: order_trans)
      next
        case False
        then show ?thesis using m assms(2) [OF i] by (auto simp: less_Suc_eq intro!: exI [of _ m])
      qed
    qed
  qed simp_all
  then show ?thesis using assms(1) by simp
qed

text \<open>
  What row \<open>t\<close> of \<open>delta\<close> and the back pointers up to \<open>t\<close> mean: \<open>delta ! t ! j\<close> bounds the score of every path
  ending in \<open>j\<close> and is the score of the path that the pointers give.
\<close>

primrec trace :: "nat list list \<Rightarrow> nat \<Rightarrow> nat \<Rightarrow> nat list" where
  "trace psi 0 j = [j]"
| "trace psi (Suc t) j = trace psi t (psi ! Suc t ! j) @ [j]"

definition delta_ok where
  "delta_ok N A B p obs d psi t \<longleftrightarrow> (\<forall>j < N.
     rd d j = Fin (path_score A B p obs (trace psi t j)) \<and> trace psi t j \<in> paths N (Suc t) \<and>
     (\<forall>qs \<in> paths N (Suc t). last qs = j \<longrightarrow>
        path_score A B p obs qs \<le> path_score A B p obs (trace psi t j)))"

definition viterbi_inv where
  "viterbi_inv N A B p obs t s \<longleftrightarrow> length (fst s) = t \<and> length (snd s) = t \<and>
     (\<forall>k < t. delta_ok N A B p obs (fst s ! k) (snd s) k)"

lemma trace_last [simp]: "last (trace psi t j) = j"
  by (cases t) simp_all

lemma trace_not_Nil [simp]: "trace psi t j \<noteq> []"
  by (cases t) simp_all

lemma trace_cong: "(\<And>k. k \<le> t \<Longrightarrow> psi ! k = psi' ! k) \<Longrightarrow> trace psi t j = trace psi' t j"
  by (induction t arbitrary: j) simp_all

lemma paths_snocI: "qs \<in> paths N n \<Longrightarrow> j < N \<Longrightarrow> qs @ [j] \<in> paths N (Suc n)"
  by (simp add: paths_def)

lemma paths_last_less: "qs \<in> paths N n \<Longrightarrow> qs \<noteq> [] \<Longrightarrow> last qs < N"
proof -
  assume "qs \<in> paths N n" "qs \<noteq> []"
  then have "set qs \<subseteq> {0..<N}" "last qs \<in> set qs" by (auto simp: paths_def)
  then show ?thesis by auto
qed

lemma delta_step:
  assumes shape: "hmm_shape N M A B p obs" and t: "Suc t < length obs"
    and ok: "delta_ok N A B p obs d psi t" and len: "length psi = Suc t"
  defines "best \<equiv> \<lambda>j. best_of N (\<lambda>i. rd d i + safe_log (rd (row (jm A) i) j))"
  shows "delta_ok N A B p obs (map (\<lambda>j. fst (best j) + safe_log (rd (row (jm B) j) (obs ! Suc t))) [0..<N])
    (psi @ [map (\<lambda>j. snd (best j)) [0..<N]]) (Suc t)"
  unfolding delta_ok_def
proof (intro allI impI)
  fix j assume j: "j < N"
  let ?psi = "psi @ [map (\<lambda>j. snd (best j)) [0..<N]]"
  define g where "g i = path_score A B p obs (trace psi t i)" for i
  have g: "rd d i = Fin (g i)" "trace psi t i \<in> paths N (Suc t)"
    "qs \<in> paths N (Suc t) \<Longrightarrow> last qs = i \<Longrightarrow> path_score A B p obs qs \<le> g i" if "i < N" for i qs
    using ok that unfolding delta_ok_def g_def by auto
  have "\<exists>m. best j = (Fin (g m + flog (A ! m ! j)), m) \<and> m < N \<and>
      (\<forall>i < N. g i + flog (A ! i ! j) \<le> g m + flog (A ! m ! j))"
    unfolding best_def using j g(1)
    by (intro best_of_max [of N _ "\<lambda>i. g i + flog (A ! i ! j)"]) (auto simp: shape_rd(1) [OF shape] safe_log_Fin)
  then obtain m where m: "best j = (Fin (g m + flog (A ! m ! j)), m)" "m < N"
    "\<And>i. i < N \<Longrightarrow> g i + flog (A ! i ! j) \<le> g m + flog (A ! m ! j)" by blast
  have tr: "trace ?psi (Suc t) j = trace psi t m @ [j]"
  proof -
    have "?psi ! Suc t ! j = m" using j len m(1) by (simp add: nth_append)
    moreover have "trace ?psi t m = trace psi t m" by (rule trace_cong) (simp add: nth_append len)
    ultimately show ?thesis by simp
  qed
  define v where "v = g m + flog (A ! m ! j) + flog (B ! j ! (obs ! Suc t))"
  have "rd (map (\<lambda>j. fst (best j) + safe_log (rd (row (jm B) j) (obs ! Suc t))) [0..<N]) j = Fin v"
    using j m(1) shape_rd(2) [OF shape j t] by (simp add: safe_log_Fin v_def)
  moreover have "path_score A B p obs (trace psi t m @ [j]) = v"
    using g(2) [OF m(2)] by (simp add: path_score_snoc v_def paths_def g_def)
  moreover have "path_score A B p obs qs \<le> v" if qs: "qs \<in> paths N (Suc (Suc t))" "last qs = j" for qs
  proof -
    obtain rs where rs: "qs = rs @ [j]" "rs \<in> paths N (Suc t)" using qs unfolding paths_Suc [of N "Suc t"] by auto
    have ne: "rs \<noteq> []" "length rs = Suc t" using rs(2) by (auto simp: paths_def)
    then have l: "last rs < N" using paths_last_less [OF rs(2)] by simp
    have "path_score A B p obs rs \<le> g (last rs)" using g(3) [OF l rs(2)] by simp
    then show ?thesis using m(3) [OF l] ne by (simp add: rs(1) path_score_snoc v_def)
  qed
  moreover have "trace psi t m @ [j] \<in> paths N (Suc (Suc t))" using g(2) [OF m(2)] j by (rule paths_snocI)
  ultimately show "rd (map (\<lambda>j. fst (best j) + safe_log (rd (row (jm B) j) (obs ! Suc t))) [0..<N]) j =
        Fin (path_score A B p obs (trace ?psi (Suc t) j)) \<and> trace ?psi (Suc t) j \<in> paths N (Suc (Suc t)) \<and>
      (\<forall>qs \<in> paths N (Suc (Suc t)). last qs = j \<longrightarrow>
         path_score A B p obs qs \<le> path_score A B p obs (trace ?psi (Suc t) j))"
    unfolding tr by simp
qed

lemma delta_ok_extend:
  assumes "delta_ok N A B p obs d psi k" "k < length psi"
  shows "delta_ok N A B p obs d (psi @ [x]) k"
proof -
  have "trace (psi @ [x]) k j = trace psi k j" for j
    by (rule trace_cong) (use assms(2) in \<open>simp add: nth_append\<close>)
  then show ?thesis using assms(1) by (simp add: delta_ok_def)
qed

lemma viterbi_loop:
  assumes shape: "hmm_shape N M A B p obs"
  defines "d0 \<equiv> map (\<lambda>i. safe_log (rd (map Fin p) i * rd (row (jm B) i) (obs ! 0))) [0..<N]"
  shows "viterbi_inv N A B p obs (length obs)
    (for_loop 1 (length obs) (viterbi_step obs (jm A) (jm B)) ([d0], [replicate N 0]))"
proof (rule for_loop_invariant)
  have ne: "0 < length obs" "0 < N" using shape by (auto simp: hmm_shape_def)
  then show "1 \<le> length obs" by (simp add: Suc_le_eq)
  have "rd d0 j = Fin (flog (p ! j * B ! j ! (obs ! 0)))" if "j < N" for j
    using that ne shape_rd(2,3) [OF shape that] unfolding d0_def by (simp add: safe_log_Fin del: rd_map_Fin)
  then show "viterbi_inv N A B p obs 1 ([d0], [replicate N 0])"
    using paths_1 [of N] by (auto simp: viterbi_inv_def delta_ok_def path_score_def)
next
  fix t s assume t: "1 \<le> t" "t < length obs" and inv: "viterbi_inv N A B p obs t s"
  obtain u where u: "t = Suc u" using t by (cases t) auto
  have len: "length (jm A) = N" using shape by (simp add: hmm_shape_def jm_def)
  have r: "row (fst s) u = fst s ! u" using inv u by (simp add: viterbi_inv_def row_def)
  have "delta_ok N A B p obs (fst s ! u) (snd s) u" "length (snd s) = Suc u" using inv u by (auto simp: viterbi_inv_def)
  from delta_step [OF shape t(2) [unfolded u] this]
  show "viterbi_inv N A B p obs (Suc t) (viterbi_step obs (jm A) (jm B) t s)"
    using inv u unfolding viterbi_step_def Let_def len u diff_Suc_1 r viterbi_inv_def
    by (auto simp: nth_append less_Suc_eq intro: delta_ok_extend)
qed

lemma backtrack_trace: "0 < T \<Longrightarrow> backtrack psi T j = trace psi (T - 1) j"
proof -
  assume T: "0 < T"
  define body where "body = (\<lambda>k states. (psi ! (T - 2 - k + 1) ! hd states) # states)"
  have "k \<le> T - 1 \<Longrightarrow> \<exists>q qs. for_loop 0 k body [j] = q # qs \<and> trace psi (T - 1 - k) q @ qs = trace psi (T - 1) j" for k
  proof (induction k)
    case 0
    then show ?case by simp
  next
    case (Suc k)
    then obtain q qs where q: "for_loop 0 k body [j] = q # qs" "trace psi (T - 1 - k) q @ qs = trace psi (T - 1) j"
      by auto
    have e: "T - 1 - k = Suc (T - 1 - Suc k)" "T - 2 - k + 1 = Suc (T - 1 - Suc k)" using Suc.prems by simp_all
    have "body k (q # qs) = (psi ! Suc (T - 1 - Suc k) ! q) # q # qs" unfolding body_def e(2) by simp
    moreover have "trace psi (T - 1 - Suc k) (psi ! Suc (T - 1 - Suc k) ! q) @ q # qs = trace psi (T - 1 - k) q @ qs"
      unfolding e(1) by simp
    ultimately show ?case using q by (simp only: for_loop_Suc le0) blast
  qed
  from this [of "T - 1"] show ?thesis
    by (auto simp: backtrack_def Let_def body_def)
qed

text \<open>
  C16: The Viterbi decoder is optimal: the states it returns form a path of the length of the observations
  whose score, the sum of the floored logarithms of its start, transition and emission probabilities, is
  the reported \<open>logProb\<close>, and no path has a higher one.
\<close>
theorem viterbi_is_optimal:
  assumes shape: "hmm_shape N M A B p obs"
  shows "\<exists>v lp. viterbi obs (jm A) (jm B) (map Fin p) = Some v \<and> vt_logprob v = Fin lp \<and>
    vt_states v \<in> paths N (length obs) \<and> path_score A B p obs (vt_states v) = lp \<and>
    (\<forall>qs \<in> paths N (length obs). path_score A B p obs qs \<le> lp)"
proof -
  have ne: "obs \<noteq> []" "0 < length obs" "0 < N" using shape by (auto simp: hmm_shape_def)
  have len: "length (jm A) = N" using shape by (simp add: hmm_shape_def jm_def)
  define s where "s = for_loop 1 (length obs) (viterbi_step obs (jm A) (jm B))
    ([map (\<lambda>i. safe_log (rd (map Fin p) i * rd (row (jm B) i) (obs ! 0))) [0..<N]], [replicate N 0])"
  have inv: "viterbi_inv N A B p obs (length obs) s" unfolding s_def by (rule viterbi_loop [OF shape])
  let ?T = "length obs - 1"
  have T: "Suc ?T = length obs" using ne by simp
  have r: "row (fst s) ?T = fst s ! ?T" using inv ne by (simp add: viterbi_inv_def row_def)
  have "delta_ok N A B p obs (fst s ! ?T) (snd s) ?T" using inv ne by (simp add: viterbi_inv_def)
  moreover define g where "g i = path_score A B p obs (trace (snd s) ?T i)" for i
  ultimately have g: "rd (fst s ! ?T) i = Fin (g i)" "trace (snd s) ?T i \<in> paths N (length obs)"
    "qs \<in> paths N (length obs) \<Longrightarrow> last qs = i \<Longrightarrow> path_score A B p obs qs \<le> g i" if "i < N" for i qs
    using that unfolding delta_ok_def T by auto
  obtain m where m: "best_of N (\<lambda>i. rd (row (fst s) ?T) i) = (Fin (g m), m)" "m < N" "\<forall>i < N. g i \<le> g m"
    using best_of_max [of N "\<lambda>i. rd (row (fst s) ?T) i" g, OF ne(3)] g(1) unfolding r by blast
  have v: "viterbi obs (jm A) (jm B) (map Fin p) = Some \<lparr>vt_states = trace (snd s) ?T m, vt_logprob = Fin (g m)\<rparr>"
    unfolding viterbi_def Let_def len s_def [symmetric] m(1) using ne(1,2) by (simp add: backtrack_trace)
  have "path_score A B p obs qs \<le> g m" if qs: "qs \<in> paths N (length obs)" for qs
  proof -
    have "qs \<noteq> []" using qs ne by (auto simp: paths_def)
    then have l: "last qs < N" by (rule paths_last_less [OF qs])
    then have "path_score A B p obs qs \<le> g (last qs)" using g(3) [OF l qs] by simp
    then show ?thesis using m(3) l by fastforce
  qed
  then show ?thesis using g(2) [OF m(2)] by (simp add: v g_def)
qed

theorem viterbi_is_optimal_witness:
  "\<exists>v. viterbi [0, 1] (jm [[1 / 2, 1 / 2], [1 / 2, 1 / 2]]) (jm [[1 / 2, 1 / 2], [1 / 2, 1 / 2]])
     (map Fin [1 / 2, 1 / 2]) = Some v \<and> vt_states v \<in> paths 2 2"
proof -
  have "hmm_shape 2 2 [[1 / 2, 1 / 2], [1 / 2, 1 / 2]] [[1 / 2, 1 / 2], [1 / 2, 1 / 2]] [1 / 2, 1 / 2] [0, 1]"
    by (simp add: hmm_shape_def)
  from viterbi_is_optimal [OF this] show ?thesis by (auto simp: numeral_2_eq_2)
qed

end
