(* ===== verification/JsSort.thy ===== *)
theory JsSort
  imports JsPrelude
begin

text \<open>
  \<open>Array.prototype.sort\<close> with the comparator of a numeric key, as the panels use it.
\<close>

section \<open>Sorting by a number\<close>

text \<open>\<open>xs.sort((a, b) => f(a) - f(b))\<close>: stable; the comparator is only consistent on finite keys.\<close>

fun insert_by :: "('a \<Rightarrow> jsnum) \<Rightarrow> 'a \<Rightarrow> 'a list \<Rightarrow> 'a list" where
  "insert_by f x [] = [x]"
| "insert_by f x (y # ys) = (if f x < f y then x # y # ys else y # insert_by f x ys)"

definition sort_by :: "('a \<Rightarrow> jsnum) \<Rightarrow> 'a list \<Rightarrow> 'a list" where
  "sort_by f xs = fold (insert_by f) xs []"

lemma set_insert_by [simp]: "set (insert_by f x ys) = insert x (set ys)"
  by (induction ys) auto

lemma set_sort_by [simp]: "set (sort_by f xs) = set xs"
proof -
  have "set (fold (insert_by f) xs ys) = set xs \<union> set ys" for ys by (induction xs arbitrary: ys) auto
  then show ?thesis by (simp add: sort_by_def)
qed

lemma sorted_insert_by:
  assumes "sorted_wrt (\<lambda>a b. f a \<le> f b) ys" "\<forall>z \<in> insert x (set ys). f z \<noteq> NaN"
  shows "sorted_wrt (\<lambda>a b. f a \<le> f b) (insert_by f x ys)"
  using assms
proof (induction ys)
  case (Cons y ys)
  show ?case
  proof (cases "f x < f y")
    case True
    then show ?thesis using Cons.prems by (auto dest: jsnum_less_imp_le intro: jsnum_le_trans)
  next
    case False
    then have "f y \<le> f x" using Cons.prems(2) jsnum_not_less by auto
    then show ?thesis using Cons False by auto
  qed
qed simp

lemma sorted_sort_by:
  assumes "\<forall>x \<in> set xs. f x \<noteq> NaN"
  shows "sorted_wrt (\<lambda>a b. f a \<le> f b) (sort_by f xs)"
proof -
  have "sorted_wrt (\<lambda>a b. f a \<le> f b) ys \<Longrightarrow> \<forall>z \<in> set xs \<union> set ys. f z \<noteq> NaN \<Longrightarrow>
      sorted_wrt (\<lambda>a b. f a \<le> f b) (fold (insert_by f) xs ys)" for ys
    using assms
  proof (induction xs arbitrary: ys)
    case (Cons x xs)
    have "sorted_wrt (\<lambda>a b. f a \<le> f b) (insert_by f x ys)" using Cons.prems by (intro sorted_insert_by) auto
    moreover have "\<forall>z \<in> set xs \<union> set (insert_by f x ys). f z \<noteq> NaN" using Cons.prems by auto
    ultimately show ?case using Cons.IH Cons.prems(3) by simp
  qed simp
  then show ?thesis using assms by (simp add: sort_by_def)
qed

lemma sort_by_hd:
  assumes "xs \<noteq> []" "\<forall>x \<in> set xs. f x \<noteq> NaN"
  obtains b rest where "sort_by f xs = b # rest" "b \<in> set xs" "\<And>x. x \<in> set xs \<Longrightarrow> f b \<le> f x"
proof (cases "sort_by f xs")
  case Nil
  then show ?thesis using set_sort_by [of f xs] assms(1) by simp
next
  case (Cons b rest)
  have "b \<in> set xs" using set_sort_by [of f xs] Cons by (metis list.set_intros(1))
  moreover have "f b \<le> f x" if "x \<in> set xs" for x
  proof -
    have "x = b \<or> x \<in> set rest" using set_sort_by [of f xs] Cons that by auto
    then show ?thesis
      using sorted_sort_by [OF assms(2)] Cons assms(2) calculation jsnum_not_less [of "f b" "f b"] by auto
  qed
  ultimately show ?thesis using that Cons by blast
qed

lemma length_insert_by [simp]: "length (insert_by f x ys) = Suc (length ys)"
  by (induction ys) auto

lemma length_sort_by [simp]: "length (sort_by f xs) = length xs"
proof -
  have "length (fold (insert_by f) xs ys) = length xs + length ys" for ys by (induction xs arbitrary: ys) auto
  then show ?thesis by (simp add: sort_by_def)
qed

lemma mset_insert_by [simp]: "mset (insert_by f x ys) = add_mset x (mset ys)"
  by (induction ys) auto

lemma mset_sort_by [simp]: "mset (sort_by f xs) = mset xs"
proof -
  have "mset (fold (insert_by f) xs ys) = mset xs + mset ys" for ys by (induction xs arbitrary: ys) auto
  then show ?thesis by (simp add: sort_by_def)
qed

lemma distinct_sort_by: "distinct (map g xs) \<Longrightarrow> distinct (map g (sort_by f xs))"
proof -
  have "mset (map g (sort_by f xs)) = mset (map g xs)" by simp
  then show "distinct (map g xs) \<Longrightarrow> distinct (map g (sort_by f xs))" by (metis mset_eq_imp_distinct_iff)
qed

end
