(* ===== verification/TimeWarping.thy ===== *)
theory TimeWarping
  imports Candles Regression JsSort
begin

text \<open>
  Dynamic time warping, \<open>web-ui/src/components/DynamicTimeWarping.jsx\<close>: the dynamic program over the band, the
  backtracking loop, the price templates and the matching of the current window against them. The laws:
  the table entry is the least cost of a warping path inside the band, the returned path attains it, and
  the pattern the panel reports is a nearest one.
\<close>

section \<open>The dynamic program\<close>

definition cell :: "jsnum list list \<Rightarrow> nat \<Rightarrow> nat \<Rightarrow> jsnum" where
  "cell D i j = (if i < length D then rd (D ! i) j else NaN)"

definition jmin3 :: "jsnum \<Rightarrow> jsnum \<Rightarrow> jsnum \<Rightarrow> jsnum" where
  "jmin3 a b c = jmin (jmin a b) c"

definition band_width :: "nat option \<Rightarrow> nat \<Rightarrow> nat \<Rightarrow> nat" where
  "band_width window n m =
     (case window of Some v \<Rightarrow> max v (max (n - m) (m - n)) | None \<Rightarrow> max n m)"

definition dtw_init :: "nat \<Rightarrow> nat \<Rightarrow> jsnum list list" where
  "dtw_init n m = (let D = replicate (n + 1) (replicate (m + 1) PInf) in D[0 := (D ! 0)[0 := 0]])"

definition dtw_cell :: "jsnum list \<Rightarrow> jsnum list \<Rightarrow> nat \<Rightarrow> nat \<Rightarrow> jsnum list list \<Rightarrow> jsnum list list" where
  "dtw_cell x y i j D =
     (let cost = (rd x (i - 1) - rd y (j - 1)) ^ 2
      in D[i := (D ! i)[j := cost + jmin3 (cell D (i - 1) j) (cell D i (j - 1)) (cell D (i - 1) (j - 1))]])"

definition dtw_row :: "jsnum list \<Rightarrow> jsnum list \<Rightarrow> nat \<Rightarrow> nat \<Rightarrow> jsnum list list \<Rightarrow> jsnum list list" where
  "dtw_row x y w i D =
     (let jStart = max 1 (i - w); jEnd = min (length y) (i + w)
      in for_loop jStart (jEnd + 1) (dtw_cell x y i) D)"

definition dtw_table :: "jsnum list \<Rightarrow> jsnum list \<Rightarrow> nat \<Rightarrow> jsnum list list" where
  "dtw_table x y w = for_loop 1 (length x + 1) (dtw_row x y w) (dtw_init (length x) (length y))"

type_synonym path = "(nat \<times> nat) list"

function dtw_back :: "jsnum list list \<Rightarrow> nat \<Rightarrow> nat \<Rightarrow> path \<Rightarrow> path" where
  "dtw_back D i j path =
     (if i > 0 \<and> j > 0
      then let path' = (i - 1, j - 1) # path;
               minVal = jmin3 (cell D (i - 1) j) (cell D i (j - 1)) (cell D (i - 1) (j - 1))
           in if jeq minVal (cell D (i - 1) (j - 1)) then dtw_back D (i - 1) (j - 1) path'
              else if jeq minVal (cell D (i - 1) j) then dtw_back D (i - 1) j path'
              else dtw_back D i (j - 1) path'
      else path)"
  by pat_completeness auto
termination
  by (relation "measure (\<lambda>(D, i, j, path). i + j)") auto

declare dtw_back.simps [simp del]

record warp_result =
  wr_distance :: jsnum
  wr_path :: path
  wr_cost :: jsnum

definition dtw :: "jsnum list \<Rightarrow> jsnum list \<Rightarrow> nat option \<Rightarrow> warp_result" where
  "dtw x y window =
     (let n = length x; m = length y;
          w = band_width window n m;
          D = dtw_table x y w
      in \<lparr>wr_distance = jsqrt (cell D n m), wr_path = dtw_back D n m [], wr_cost = cell D n m\<rparr>)"

section \<open>Windows and templates\<close>

definition extractWindows :: "jsnum list \<Rightarrow> nat \<Rightarrow> (nat \<times> jsnum list) list" where
  "extractWindows prices windowSize =
     (if windowSize \<le> length prices
      then map (\<lambda>i. (i, take windowSize (drop i prices))) [0..<length prices - windowSize + 1] else [])"

definition zscore :: "jsnum list \<Rightarrow> jsnum list" where
  "zscore arr =
     (let mean = jsum arr / jnat (length arr);
          std = jsqrt (jsum (map (\<lambda>v. (v - mean) ^ 2) arr) / jnat (length arr))
      in map (\<lambda>v. if std > 0 then (v - mean) / std else 0) arr)"

definition computeReturns :: "jsnum list \<Rightarrow> jsnum list" where
  "computeReturns prices =
     map (\<lambda>i. (rd prices i - rd prices (i - 1)) / rd prices (i - 1)) [1..<length prices]"

text \<open>The samples in tenths.\<close>

definition TEMPLATES :: "(string \<times> int list) list" where
  "TEMPLATES =
    [(''doubleBottom'', [10, 5, 0, -3, -5, -3, 0, 5, 10, 5, 0, -3, -5, -3, 0, 5, 10, 15, 20]),
     (''headAndShoulders'', [5, 10, 15, 10, 5, 10, 15, 20, 25, 20, 15, 10, 5, 10, 15, 10, 5]),
     (''ascendingTriangle'', [0, 5, 0, 8, 2, 10, 4, 10, 6, 10, 8, 10, 10, 15, 20, 25]),
     (''descendingTriangle'', [25, 20, 15, 10, 10, 8, 10, 6, 10, 4, 10, 2, 8, 0, 5, 0]),
     (''cupAndHandle'', [20, 15, 10, 5, 0, -3, -5, -3, 0, 5, 10, 15, 20, 18, 15, 18, 22, 25, 30]),
     (''vReversal'', [20, 15, 10, 5, 0, -5, -10, -15, -20, -15, -10, -5, 0, 5, 10, 15, 20, 25]),
     (''flag'', [0, 10, 20, 30, 25, 20, 15, 20, 25, 20, 15, 20, 25, 30, 35, 40, 45]),
     (''channel'', [0, 5, 10, 5, 0, -5, -10, -5, 0, 5, 10, 5, 0, -5, -10, -5, 0, 5, 10])]"

definition template_samples :: "int list \<Rightarrow> jsnum list" where
  "template_samples t = map (\<lambda>k. Fin (real_of_int k / 10)) t"

section \<open>The panel\<close>

record template_match =
  tm_name :: string
  tm_distance :: jsnum
  tm_similarity :: jsnum
  tm_path :: path
  tm_template :: "jsnum list"

record window_match =
  wm_start :: nat
  wm_distance :: jsnum
  wm_similarity :: jsnum
  wm_path :: path
  wm_data :: "jsnum list"
  wm_end_price :: jsnum
  wm_start_price :: jsnum

definition match_templates :: "jsnum list \<Rightarrow> nat \<Rightarrow> template_match list" where
  "match_templates currentNorm dtwWindow =
     sort_by tm_distance
       (map (\<lambda>(name, template).
          let templateNorm = zscore (template_samples template);
              r = dtw currentNorm templateNorm (Some dtwWindow)
          in \<lparr>tm_name = name, tm_distance = wr_distance r, tm_similarity = 1 / (1 + wr_distance r),
              tm_path = wr_path r, tm_template = templateNorm\<rparr>) TEMPLATES)"

definition match_windows :: "jsnum list \<Rightarrow> nat \<Rightarrow> nat \<Rightarrow> int list \<Rightarrow> window_match list" where
  "match_windows prices windowSize dtwWindow template =
     (let templateNorm = zscore (template_samples template)
      in sort_by wm_distance
           (map (\<lambda>(start, data).
              let winNorm = zscore data;
                  r = dtw winNorm templateNorm (Some dtwWindow)
              in \<lparr>wm_start = start, wm_distance = wr_distance r, wm_similarity = 1 / (1 + wr_distance r),
                  wm_path = wr_path r, wm_data = winNorm, wm_end_price = rd data (length data - 1),
                  wm_start_price = rd data 0\<rparr>) (extractWindows prices windowSize)))"

definition projection_of :: "jsnum list \<Rightarrow> nat \<Rightarrow> window_match list \<Rightarrow> jsnum list option" where
  "projection_of prices windowSize results =
     (case results of
        [] \<Rightarrow> None
      | best # _ \<Rightarrow>
          let matchEndIdx = wm_start best + windowSize
          in if matchEndIdx + 10 < length prices then Some (take 10 (drop matchEndIdx prices)) else None)"

datatype pattern_signal = Neutral | Buy | Sell

definition bullishPatterns :: "string list" where
  "bullishPatterns = [''doubleBottom'', ''cupAndHandle'', ''vReversal'', ''ascendingTriangle'', ''flag'']"

definition bearishPatterns :: "string list" where
  "bearishPatterns = [''headAndShoulders'', ''descendingTriangle'']"

definition signal_of :: "template_match list \<Rightarrow> pattern_signal" where
  "signal_of results =
     (case results of
        [] \<Rightarrow> Neutral
      | best # _ \<Rightarrow>
          if tm_name best \<in> set bullishPatterns \<and> tm_similarity best > Fin (3 / 10) then Buy
          else if tm_name best \<in> set bearishPatterns \<and> tm_similarity best > Fin (3 / 10) then Sell
          else Neutral)"

datatype panel_matches =
  AllTemplates "template_match list" pattern_signal
| OneTemplate "window_match list" "jsnum list option"

definition warping_panel ::
  "candle list option \<Rightarrow> string \<Rightarrow> string \<Rightarrow> nat \<Rightarrow> nat \<Rightarrow> int list \<Rightarrow> bool \<Rightarrow> panel_matches option" where
  \<comment> \<open>\<open>None\<close>: fewer than 40 candles; the display text of the reason is left out\<close>
  "warping_panel candles exchange symbol windowSize dtwWindow template scanAll =
     (let cds = select_candles candles exchange symbol
      in if length cds < 40 then None
         else
           let prices = map cd_close cds;
               currentNorm = zscore (slice_last windowSize prices)
           in Some (if scanAll
                then let results = match_templates currentNorm dtwWindow in AllTemplates results (signal_of results)
                else let results = match_windows prices windowSize dtwWindow template
                     in OneTemplate results (projection_of prices windowSize results)))"

section \<open>The table\<close>

text \<open>The recurrence that the table holds, over indices shifted by one, and the band.\<close>

definition in_band :: "nat \<Rightarrow> nat \<Rightarrow> nat \<Rightarrow> bool" where
  "in_band w i j \<longleftrightarrow> i \<le> j + w \<and> j \<le> i + w"

fun dtw_at :: "real list \<Rightarrow> real list \<Rightarrow> nat \<Rightarrow> nat \<Rightarrow> nat \<Rightarrow> jsnum" where
  "dtw_at x y w 0 0 = Fin 0"
| "dtw_at x y w 0 (Suc j) = PInf"
| "dtw_at x y w (Suc i) 0 = PInf"
| "dtw_at x y w (Suc i) (Suc j) =
     (if in_band w (Suc i) (Suc j)
      then Fin ((x ! i - y ! j) ^ 2) + jmin3 (dtw_at x y w i (Suc j)) (dtw_at x y w (Suc i) j) (dtw_at x y w i j)
      else PInf)"

lemma dtw_at_cases: "dtw_at x y w i j = PInf \<or> (\<exists>r. dtw_at x y w i j = Fin r)"
proof (induction x y w i j rule: dtw_at.induct)
  case (4 x y w i j)
  then show ?case by (auto simp: jmin3_def jmin_def)
qed auto

lemma dtw_at_out: "\<not> in_band w i j \<Longrightarrow> dtw_at x y w i j = PInf"
  by (cases i; cases j) (auto simp: in_band_def)

lemma cell_write:
  "i < length D \<Longrightarrow> j < length (D ! i) \<Longrightarrow>
   cell (D[i := (D ! i)[j := v]]) k l = (if k = i \<and> l = j then v else cell D k l)"
  by (auto simp: cell_def rd_update nth_list_update)

definition table_shape :: "nat \<Rightarrow> nat \<Rightarrow> jsnum list list \<Rightarrow> bool" where
  "table_shape n m D \<longleftrightarrow> length D = Suc n \<and> (\<forall>r \<in> set D. length r = Suc m)"

lemma table_shape_write:
  "table_shape n m D \<Longrightarrow> i \<le> n \<Longrightarrow> table_shape n m (D[i := (D ! i)[j := v]])"
  by (auto simp: table_shape_def dest!: set_update_subset_insert [THEN subsetD])

text \<open>The cells filled so far hold the recurrence, the others their initial value.\<close>

definition filled :: "real list \<Rightarrow> real list \<Rightarrow> nat \<Rightarrow> (nat \<Rightarrow> nat \<Rightarrow> bool) \<Rightarrow> jsnum list list \<Rightarrow> bool" where
  "filled x y w ready D \<longleftrightarrow> table_shape (length x) (length y) D \<and>
     (\<forall>k \<le> length x. \<forall>l \<le> length y.
        cell D k l = (if ready k l then dtw_at x y w k l else if k = 0 \<and> l = 0 then Fin 0 else PInf))"

lemma filled_init: "filled x y w (\<lambda>k l. k < 1) (dtw_init (length x) (length y))"
proof -
  have c: "cell (dtw_init (length x) (length y)) k l = (if k = 0 \<and> l = 0 then Fin 0 else PInf)"
    if "k \<le> length x" "l \<le> length y" for k l
    using that by (auto simp: dtw_init_def Let_def cell_def rd_def nth_list_update nth_Cons split: nat.splits)
  moreover have "dtw_at x y w 0 l = (if l = 0 then Fin 0 else PInf)" for l by (cases l) simp_all
  moreover have "table_shape (length x) (length y) (dtw_init (length x) (length y))"
    by (auto simp: dtw_init_def Let_def table_shape_def dest!: set_update_subset_insert [THEN subsetD])
  ultimately show ?thesis by (simp add: filled_def)
qed

lemma filled_cell:
  assumes f: "filled x y w (\<lambda>k l. k < i \<or> k = i \<and> l < j) D"
    and i: "1 \<le> i" "i \<le> length x" and j: "1 \<le> j" "j \<le> length y" and band: "in_band w i j"
  shows "filled x y w (\<lambda>k l. k < i \<or> k = i \<and> l < Suc j) (dtw_cell (map Fin x) (map Fin y) i j D)"
proof -
  obtain i' j' where s: "i = Suc i'" "j = Suc j'" using i(1) j(1) by (cases i; cases j) auto
  have shape: "table_shape (length x) (length y) D"
    and c: "\<And>k l. k \<le> length x \<Longrightarrow> l \<le> length y \<Longrightarrow> cell D k l =
      (if k < i \<or> k = i \<and> l < j then dtw_at x y w k l else if k = 0 \<and> l = 0 then Fin 0 else PInf)"
    using f by (simp_all add: filled_def)
  then have len: "i < length D" "j < length (D ! i)" using i j by (auto simp: table_shape_def)
  have "(rd (map Fin x) (i - 1) - rd (map Fin y) (j - 1)) ^ 2 = Fin ((x ! i' - y ! j') ^ 2)"
    using i j s by simp
  moreover have "cell D (i - 1) j = dtw_at x y w i' j" "cell D i (j - 1) = dtw_at x y w i j'"
    "cell D (i - 1) (j - 1) = dtw_at x y w i' j'"
    using c i j s by simp_all
  ultimately have "dtw_cell (map Fin x) (map Fin y) i j D = D[i := (D ! i)[j := dtw_at x y w i j]]"
    using band s by (simp add: dtw_cell_def)
  then show ?thesis
    using c shape i len unfolding filled_def
    by (auto simp: cell_write table_shape_write less_Suc_eq)
qed

lemma filled_row:
  assumes f: "filled x y w (\<lambda>k l. k < i) D" and i: "1 \<le> i" "i \<le> length x" and w: "length x \<le> length y + w"
  shows "filled x y w (\<lambda>k l. k < Suc i) (dtw_row (map Fin x) (map Fin y) w i D)"
proof -
  let ?a = "max 1 (i - w)" and ?b = "min (length y) (i + w) + 1"
  have ini: "dtw_at x y w i l = PInf" if "l < ?a" for l
    using that i by (cases "l = 0") (auto simp: in_band_def dtw_at_out gr0_conv_Suc Suc_le_eq)
  have fin: "dtw_at x y w i l = PInf" if "?b \<le> l" "l \<le> length y" for l
    using that by (auto simp: in_band_def intro!: dtw_at_out)
  have "filled x y w (\<lambda>k l. k < i \<or> k = i \<and> l < ?b)
    (for_loop ?a ?b (dtw_cell (map Fin x) (map Fin y) i) D)"
  proof (rule for_loop_invariant)
    show "?a \<le> ?b" using i w by auto
    show "filled x y w (\<lambda>k l. k < i \<or> k = i \<and> l < ?a) D"
      using f i ini unfolding filled_def by (auto simp: less_max_iff_disj)
    fix j E assume "?a \<le> j" "j < ?b" "filled x y w (\<lambda>k l. k < i \<or> k = i \<and> l < j) E"
    then show "filled x y w (\<lambda>k l. k < i \<or> k = i \<and> l < Suc j) (dtw_cell (map Fin x) (map Fin y) i j E)"
      using i by (intro filled_cell) (auto simp: in_band_def)
  qed
  then show ?thesis
    using i fin unfolding filled_def dtw_row_def Let_def by (auto simp: less_Suc_eq)
qed

lemma table_cells:
  assumes "length x \<le> length y + w" "k \<le> length x" "l \<le> length y"
  shows "cell (dtw_table (map Fin x) (map Fin y) w) k l = dtw_at x y w k l"
proof -
  have "filled x y w (\<lambda>k l. k < length x + 1) (dtw_table (map Fin x) (map Fin y) w)"
    unfolding dtw_table_def length_map
  proof (rule for_loop_invariant)
    fix i D assume "1 \<le> i" "i < length x + 1" "filled x y w (\<lambda>k l. k < i) D"
    then show "filled x y w (\<lambda>k l. k < Suc i) (dtw_row (map Fin x) (map Fin y) w i D)"
      using assms(1) by (intro filled_row) auto
  qed (simp_all add: filled_init [simplified])
  then show ?thesis using assms by (simp add: filled_def)
qed

section \<open>Warping paths\<close>

text \<open>A warping path starts at the first pair, ends at the given one, advances one or both sequences by one
  sample at every step and stays in the band.\<close>

definition warp_step :: "nat \<times> nat \<Rightarrow> nat \<times> nat \<Rightarrow> bool" where
  "warp_step p q \<longleftrightarrow> q \<in> {(Suc (fst p), snd p), (fst p, Suc (snd p)), (Suc (fst p), Suc (snd p))}"

definition warping_path :: "nat \<Rightarrow> nat \<Rightarrow> nat \<Rightarrow> path \<Rightarrow> bool" where
  "warping_path w i j p \<longleftrightarrow> p \<noteq> [] \<and> hd p = (0, 0) \<and> last p = (i, j) \<and> successively warp_step p \<and>
     (\<forall>(a, b) \<in> set p. in_band w a b)"

definition path_cost :: "real list \<Rightarrow> real list \<Rightarrow> path \<Rightarrow> real" where
  "path_cost x y p = (\<Sum>(a, b)\<leftarrow>p. (x ! a - y ! b) ^ 2)"

lemma path_cost_simps [simp]:
  "path_cost x y [] = 0" "path_cost x y (p @ [(i, j)]) = path_cost x y p + (x ! i - y ! j) ^ 2"
  by (simp_all add: path_cost_def)

lemma in_band_Suc [simp]: "in_band w (Suc i) (Suc j) = in_band w i j"
  by (simp add: in_band_def)

lemma warping_path_single: "warping_path w 0 0 [(0, 0)]"
  by (simp add: warping_path_def in_band_def)

lemma warping_path_snoc:
  assumes "warping_path w a b p" "warp_step (a, b) (i, j)" "in_band w i j"
  shows "warping_path w i j (p @ [(i, j)])"
  using assms by (auto simp: warping_path_def successively_append_iff)

lemma warping_path_snocE:
  assumes "warping_path w i j (p @ [q])"
  obtains "p = []" "q = (0, 0)" "i = 0" "j = 0"
  | a b where "warping_path w a b p" "warp_step (a, b) (i, j)" "q = (i, j)" "in_band w i j"
proof (cases "p = []")
  case True
  then show ?thesis using assms that(1) by (auto simp: warping_path_def)
next
  case False
  obtain a b where "last p = (a, b)" by (cases "last p")
  then show ?thesis using False assms that(2) [of a b]
    by (auto simp: warping_path_def successively_append_iff)
qed

lemma jmin3_le:
  assumes "a \<noteq> NaN" "b \<noteq> NaN" "c \<noteq> NaN"
  shows "jmin3 a b c \<le> a" "jmin3 a b c \<le> b" "jmin3 a b c \<le> c" "jmin3 a b c \<in> {a, b, c}"
  using assms by (cases a; cases b; cases c; auto simp: jmin3_def jmin_def)+

lemma dtw_at_not_NaN [simp]: "dtw_at x y w i j \<noteq> NaN"
  using dtw_at_cases [of x y w i j] by auto

text \<open>Every path is at least as costly as the table entry.\<close>

lemma dtw_at_lower:
  "warping_path w i j p \<Longrightarrow> dtw_at x y w (Suc i) (Suc j) \<le> Fin (path_cost x y p)"
proof (induction p arbitrary: i j rule: rev_induct)
  case Nil
  then show ?case by (simp add: warping_path_def)
next
  case (snoc q p)
  from snoc.prems show ?case
  proof (cases rule: warping_path_snocE)
    case 1
    then show ?thesis by (simp add: in_band_def jmin3_def jmin_def path_cost_def)
  next
    case (2 a b)
    let ?m = "jmin3 (dtw_at x y w i (Suc j)) (dtw_at x y w (Suc i) j) (dtw_at x y w i j)"
    have "dtw_at x y w (Suc a) (Suc b) \<le> Fin (path_cost x y p)" by (rule snoc.IH [OF 2(1)])
    moreover have "?m \<le> dtw_at x y w (Suc a) (Suc b)"
      using 2(2) jmin3_le(1-3) [of "dtw_at x y w i (Suc j)" "dtw_at x y w (Suc i) j" "dtw_at x y w i j"]
      by (auto simp: warp_step_def)
    ultimately have "?m \<le> Fin (path_cost x y p)" using jsnum_le_trans by blast
    then show ?thesis using 2(3,4) by (cases ?m) (auto simp: path_cost_def)
  qed
qed

text \<open>Every cell of the band is reached by a path.\<close>

lemma dtw_at_finite:
  "in_band w i j \<Longrightarrow> \<exists>r. dtw_at x y w (Suc i) (Suc j) = Fin r"
proof (induction "i + j" arbitrary: i j rule: less_induct)
  case less
  have "\<exists>a b. (a, b) \<in> {(i, Suc j), (Suc i, j), (i, j)} \<and> (\<exists>r. dtw_at x y w a b = Fin r)"
  proof (cases "i = 0 \<or> j = 0")
    case True
    then consider "i = 0" "j = 0" | j' where "i = 0" "j = Suc j'" | i' where "i = Suc i'" "j = 0"
      by (cases i; cases j) auto
    then show ?thesis
    proof cases
      case 1
      then show ?thesis by (intro exI [of _ 0]) simp
    next
      case (2 j')
      then have "\<exists>r. dtw_at x y w (Suc 0) (Suc j') = Fin r" using less.prems by (intro less.hyps) (auto simp: in_band_def)
      then show ?thesis using 2 by (intro exI [of _ "Suc 0"] exI [of _ "Suc j'"]) simp
    next
      case (3 i')
      then have "\<exists>r. dtw_at x y w (Suc i') (Suc 0) = Fin r" using less.prems by (intro less.hyps) (auto simp: in_band_def)
      then show ?thesis using 3 by (intro exI [of _ "Suc i'"] exI [of _ "Suc 0"]) simp
    qed
  next
    case False
    then obtain i' j' where s: "i = Suc i'" "j = Suc j'" by (cases i; cases j) auto
    then have "\<exists>r. dtw_at x y w (Suc i') (Suc j') = Fin r" using less.prems by (intro less.hyps) (auto simp: in_band_def)
    then show ?thesis using s by (intro exI [of _ i] exI [of _ j]) simp
  qed
  then obtain a b r where "(a, b) \<in> {(i, Suc j), (Suc i, j), (i, j)}" "dtw_at x y w a b = Fin r" by blast
  then have "jmin3 (dtw_at x y w i (Suc j)) (dtw_at x y w (Suc i) j) (dtw_at x y w i j) \<le> Fin r"
    using jmin3_le(1-3) [of "dtw_at x y w i (Suc j)" "dtw_at x y w (Suc i) j" "dtw_at x y w i j"] by auto
  then have "dtw_at x y w (Suc i) (Suc j) \<noteq> PInf" using less.prems
    by (cases "jmin3 (dtw_at x y w i (Suc j)) (dtw_at x y w (Suc i) j) (dtw_at x y w i j)") auto
  then show ?case using dtw_at_cases [of x y w "Suc i" "Suc j"] by blast
qed

text \<open>The backtracking loop rebuilds a path of the cost of the cell it starts from.\<close>

lemma dtw_at_Fin_Suc:
  assumes "dtw_at x y w i j = Fin c" "i + j > 0"
  obtains i' j' where "i = Suc i'" "j = Suc j'" "in_band w i' j'"
  using assms by (cases i; cases j) (auto split: if_splits)

lemma dtw_back_0: "dtw_back D 0 j path = path"
  by (simp add: dtw_back.simps)

lemma back_path:
  assumes cells: "\<And>k l. k \<le> n \<Longrightarrow> l \<le> m \<Longrightarrow> cell D k l = dtw_at x y w k l"
  shows "dtw_at x y w (Suc i) (Suc j) = Fin c \<Longrightarrow> i < n \<Longrightarrow> j < m \<Longrightarrow>
    \<exists>p. dtw_back D (Suc i) (Suc j) acc = p @ acc \<and> warping_path w i j p \<and> path_cost x y p = c"
proof (induction "i + j" arbitrary: i j c acc rule: less_induct)
  case less
  let ?a = "dtw_at x y w i (Suc j)" and ?b = "dtw_at x y w (Suc i) j" and ?e = "dtw_at x y w i j"
  let ?m = "jmin3 ?a ?b ?e"
  have band: "in_band w i j" using less.prems(1) by (auto split: if_splits)
  then obtain r where m: "?m = Fin r" "c = (x ! i - y ! j) ^ 2 + r"
    using less.prems(1) by (cases ?m) auto
  have step: "dtw_back D (Suc i) (Suc j) acc =
    (if ?e = Fin r then dtw_back D i j ((i, j) # acc)
     else if ?a = Fin r then dtw_back D i (Suc j) ((i, j) # acc)
     else dtw_back D (Suc i) j ((i, j) # acc))"
    using less.prems(2,3) m(1) by (subst dtw_back.simps) (auto simp: cells jeq_def Let_def)
  have extend: "\<exists>p. dtw_back D k l ((i, j) # acc) = p @ acc \<and> warping_path w i j p \<and> path_cost x y p = c"
    if d: "dtw_at x y w k l = Fin r" and kl: "(k, l) \<in> {(i, j), (i, Suc j), (Suc i, j)}" "k + l > 0" for k l
  proof -
    obtain k' l' where s: "k = Suc k'" "l = Suc l'" "in_band w k' l'" using dtw_at_Fin_Suc [OF d kl(2)] by blast
    have "k' + l' < i + j" "k' < n" "l' < m" using kl(1) s less.prems(2,3) by auto
    from less.hyps [OF this(1) d [unfolded s] this(2,3), of "(i, j) # acc"]
    obtain p where p: "dtw_back D k l ((i, j) # acc) = p @ (i, j) # acc" "warping_path w k' l' p" "path_cost x y p = r"
      using s by auto
    have "warp_step (k', l') (i, j)" using kl(1) s by (auto simp: warp_step_def)
    then have "warping_path w i j (p @ [(i, j)])" using p(2) band by (intro warping_path_snoc)
    then show ?thesis using p m(2) by (intro exI [of _ "p @ [(i, j)]"]) simp
  qed
  have "Fin r \<in> {?a, ?b, ?e}"
    using jmin3_le(4) [OF dtw_at_not_NaN dtw_at_not_NaN dtw_at_not_NaN] unfolding m(1) [symmetric] .
  then have mem: "?a = Fin r \<or> ?b = Fin r \<or> ?e = Fin r" by (simp only: insert_iff empty_iff) metis
  consider "?e = Fin r" "i + j = 0" | "?e = Fin r" "i + j \<noteq> 0" | "?e \<noteq> Fin r" "?a = Fin r"
    | "?e \<noteq> Fin r" "?a \<noteq> Fin r" "?b = Fin r"
    using mem by argo
  then show ?case
  proof cases
    case 1
    then have "i = 0" "j = 0" "r = 0" by auto
    then show ?thesis using m(2) step 1
      by (intro exI [of _ "[(0, 0)]"]) (simp add: warping_path_single path_cost_def dtw_back_0)
  next
    case 2
    then show ?thesis using step extend [of i j] by simp
  next
    case 3
    then show ?thesis using step extend [of i "Suc j"] by simp
  next
    case 4
    then show ?thesis using step extend [of "Suc i" j] by simp
  qed
qed

lemma band_width_ge: "n \<le> m + band_width window n m" "m \<le> n + band_width window n m"
  by (auto simp: band_width_def split: option.splits)

lemma dtw_value:
  fixes x y :: "real list" and window :: "nat option"
  assumes "x \<noteq> []" "y \<noteq> []"
  defines "w \<equiv> band_width window (length x) (length y)"
  obtains p where
    "dtw (map Fin x) (map Fin y) window =
       \<lparr>wr_distance = Fin (sqrt (path_cost x y p)), wr_path = p, wr_cost = Fin (path_cost x y p)\<rparr>"
    "warping_path w (length x - 1) (length y - 1) p"
    "\<And>q. warping_path w (length x - 1) (length y - 1) q \<Longrightarrow> path_cost x y p \<le> path_cost x y q"
proof -
  obtain n m where nm: "length x = Suc n" "length y = Suc m" using assms(1,2) by (cases x; cases y) auto
  let ?D = "dtw_table (map Fin x) (map Fin y) w"
  have le: "length x \<le> length y + w" "length y \<le> length x + w" unfolding w_def by (rule band_width_ge)+
  have cells: "cell ?D k l = dtw_at x y w k l" if "k \<le> Suc n" "l \<le> Suc m" for k l
    using table_cells [OF le(1)] that nm by simp
  have "in_band w n m" using le nm by (simp add: in_band_def)
  then obtain c where c: "dtw_at x y w (Suc n) (Suc m) = Fin c" using dtw_at_finite by blast
  obtain p where p: "dtw_back ?D (Suc n) (Suc m) [] = p" "warping_path w n m p" "path_cost x y p = c"
    using back_path [OF cells c, where acc = "[]"] by auto
  have "0 \<le> path_cost x y p" unfolding path_cost_def by (auto intro!: sum_list_nonneg)
  then have "dtw (map Fin x) (map Fin y) window =
      \<lparr>wr_distance = Fin (sqrt (path_cost x y p)), wr_path = p, wr_cost = Fin (path_cost x y p)\<rparr>"
    using cells [of "Suc n" "Suc m"] c p nm by (simp add: dtw_def Let_def w_def)
  moreover have "path_cost x y p \<le> path_cost x y q" if "warping_path w n m q" for q
    using dtw_at_lower [OF that, of x y] c p(3) by simp
  ultimately show ?thesis using that p(2) nm by simp
qed

section \<open>The nearest pattern\<close>

lemma zscore_Fin:
  assumes "xs \<noteq> []"
  obtains zs where "zscore (map Fin xs) = map Fin zs" "length zs = length xs"
proof -
  define mean where "mean = sum_list xs / real (length xs)"
  define var where "var = sum_list (map (\<lambda>v. (v - mean) ^ 2) xs) / real (length xs)"
  have "0 \<le> var" unfolding var_def by (intro divide_nonneg_nonneg sum_list_nonneg) auto
  have m: "jsum (map Fin xs) / jnat (length (map Fin xs)) = Fin mean" using assms by (simp add: mean_def)
  have "map (\<lambda>v. (v - Fin mean) ^ 2) (map Fin xs) = map Fin (map (\<lambda>v. (v - mean) ^ 2) xs)" by simp
  then have e: "jsqrt (jsum (map (\<lambda>v. (v - Fin mean) ^ 2) (map Fin xs)) / jnat (length (map Fin xs))) = Fin (sqrt var)"
    using assms \<open>0 \<le> var\<close> unfolding jsum_Fin by (simp add: var_def del: map_map)
  have z: "zscore (map Fin xs) =
      map Fin (map (\<lambda>v. if sqrt var > 0 then (v - mean) / sqrt var else 0) xs)"
    unfolding zscore_def Let_def m e by simp
  show ?thesis by (rule that [OF z]) simp
qed

section \<open>Properties\<close>

text \<open>
  C19: The distance is the least cost over all warping paths in the band, and the returned path is one that
  attains it: for any two non-empty sequences of numbers, with any window or none, the band leaves at least one
  path, and \<open>path\<close> runs from the first pair to the last with a cost that no other path undercuts.
\<close>
theorem dtw_is_optimal:
  fixes x y :: "real list" and window :: "nat option"
  assumes "x \<noteq> []" "y \<noteq> []"
  defines "w \<equiv> band_width window (length x) (length y)" and "r \<equiv> dtw (map Fin x) (map Fin y) window"
  shows "wr_cost r = Fin (path_cost x y (wr_path r)) \<and>
    wr_distance r = Fin (sqrt (path_cost x y (wr_path r))) \<and>
    warping_path w (length x - 1) (length y - 1) (wr_path r) \<and>
    (\<forall>p. warping_path w (length x - 1) (length y - 1) p \<longrightarrow> path_cost x y (wr_path r) \<le> path_cost x y p)"
  using dtw_value [OF assms(1,2), of window] unfolding w_def r_def by (metis warp_result.select_convs)

theorem dtw_is_optimal_witness:
  "wr_cost (dtw (map Fin [0, 1, 2]) (map Fin [0, 2]) (Some 1)) =
    Fin (path_cost [0, 1, 2] [0, 2] (wr_path (dtw (map Fin [0, 1, 2]) (map Fin [0, 2]) (Some 1))))"
  using dtw_is_optimal [where x = "[0, 1, 2]" and y = "[0, 2]" and window = "Some 1"] by simp

text \<open>
  The pattern the panel reports is a nearest one: for a window of numbers the first match has the least
  distance of all eight templates, every distance is a number, and the signal is \<open>Buy\<close> only for a bullish
  and \<open>Sell\<close> only for a bearish first match.
\<close>
theorem reported_pattern_is_nearest:
  assumes "cur \<noteq> []"
  shows "\<exists>best rest. match_templates (map Fin cur) band = best # rest \<and>
    (\<exists>t. (tm_name best, t) \<in> set TEMPLATES) \<and>
    (\<forall>(name, t) \<in> set TEMPLATES.
       tm_distance best \<le> wr_distance (dtw (map Fin cur) (zscore (template_samples t)) (Some band))) \<and>
    (signal_of (best # rest) = Buy \<longrightarrow> tm_name best \<in> set bullishPatterns) \<and>
    (signal_of (best # rest) = Sell \<longrightarrow> tm_name best \<in> set bearishPatterns)"
proof -
  let ?d = "\<lambda>t. wr_distance (dtw (map Fin cur) (zscore (template_samples t)) (Some band))"
  let ?m = "\<lambda>(name, t). \<lparr>tm_name = name, tm_distance = ?d t, tm_similarity = 1 / (1 + ?d t),
      tm_path = wr_path (dtw (map Fin cur) (zscore (template_samples t)) (Some band)),
      tm_template = zscore (template_samples t)\<rparr>"
  have fin: "?d t \<noteq> NaN" if "(name, t) \<in> set TEMPLATES" for name t
  proof -
    have ne: "t \<noteq> []" using that by (auto simp: TEMPLATES_def)
    have "template_samples t = map Fin (map (\<lambda>k. real_of_int k / 10) t)" by (simp add: template_samples_def)
    then obtain zs where z: "zscore (template_samples t) = map Fin zs" "length zs = length t"
      using zscore_Fin [of "map (\<lambda>k. real_of_int k / 10) t"] ne by auto
    then have "zs \<noteq> []" using ne by auto
    from dtw_value [OF assms this, of "Some band"] show ?thesis unfolding z by (metis jsnum.distinct(5) warp_result.select_convs(1))
  qed
  define ms where "ms = map ?m TEMPLATES"
  have "ms \<noteq> []" by (simp add: ms_def TEMPLATES_def)
  moreover have "\<forall>x \<in> set ms. tm_distance x \<noteq> NaN" using fin by (auto simp: ms_def)
  ultimately obtain best rest where b: "sort_by tm_distance ms = best # rest"
    "best \<in> set ms" "\<And>x. x \<in> set ms \<Longrightarrow> tm_distance best \<le> tm_distance x"
    by (rule sort_by_hd) blast
  have "match_templates (map Fin cur) band = best # rest" using b(1) by (simp add: match_templates_def Let_def ms_def)
  moreover have "\<exists>t. (tm_name best, t) \<in> set TEMPLATES" using b(2) by (auto simp: ms_def)
  moreover have "\<forall>(name, t) \<in> set TEMPLATES. tm_distance best \<le> ?d t" using b(3) by (fastforce simp: ms_def)
  ultimately show ?thesis by (auto simp: signal_of_def)
qed

theorem reported_pattern_is_nearest_witness:
  "\<exists>best rest. match_templates (map Fin [1, 2, 3]) 5 = best # rest"
  using reported_pattern_is_nearest [of "[1, 2, 3]" 5] by blast

end
