(* ===== verification/WaveletLaws.thy ===== *)
theory WaveletLaws
  imports Wavelet
begin

text \<open>
  Laws of \<open>Wavelet\<close>. The locale \<open>filter_bank\<close> states what a pair of filters must satisfy for the periodic
  transform to be orthogonal; the laws are proved in it and it is interpreted on the filters of the code.
\<close>

section \<open>Accumulating loops over finite values\<close>

lemma for_loop_Fin_sum: "for_loop 0 n (\<lambda>j c. c + Fin (f j)) (Fin 0) = Fin (\<Sum>j<n. f j)"
  by (induction n) (simp_all add: for_loop_Suc)

lemma for_loop_scatter:
  assumes "\<And>i. i < n \<Longrightarrow> ix i < length z"
  shows "for_loop 0 n (\<lambda>i s. s[ix i := rd s (ix i) + Fin (v i)]) (map Fin z) =
    map Fin (map (\<lambda>k. z ! k + (\<Sum>i<n. if ix i = k then v i else 0)) [0..<length z])"
  using assms
proof (induction n)
  case 0
  then show ?case by (auto intro!: nth_equalityI)
next
  case (Suc n)
  then show ?case by (simp add: for_loop_Suc) (auto intro!: nth_equalityI simp: nth_list_update)
qed

lemma map_Fin_eq: "map Fin a = map Fin b \<longleftrightarrow> a = b"
  by (simp add: inj_map_eq_map inj_def)

lemma sum_4: "(\<Sum>j<4. F j) = F 0 + F 1 + F 2 + F (3 :: nat)" for F :: "nat \<Rightarrow> real"
  by (simp add: eval_nat_numeral)

section \<open>A filter bank\<close>

text \<open>The filters padded with zeros, and the real synthesis.\<close>

definition cf :: "real list \<Rightarrow> nat \<Rightarrow> real" where
  "cf f j = (if j < length f then f ! j else 0)"

definition synth :: "real list \<Rightarrow> real list \<Rightarrow> nat \<Rightarrow> (nat \<Rightarrow> real) \<Rightarrow> (nat \<Rightarrow> real) \<Rightarrow> nat \<Rightarrow> real" where
  "synth h g n a d k =
     (\<Sum>i<n. \<Sum>j<length h. if (2 * i + j) mod (2 * n) = k then cf h j * a i + cf g j * d i else 0)"

definition analysis :: "real list \<Rightarrow> real list \<Rightarrow> nat \<Rightarrow> real" where
  "analysis f s i = (\<Sum>j<length f. cf f j * s ! ((2 * i + j) mod length s))"

locale filter_bank =
  fixes wavelet :: string and h g :: "real list"
  assumes h: "filter_h wavelet = map Fin h" and g: "filter_g wavelet = map Fin g"
    and taps: "length g = length h" "length h \<le> 4"
    and unit: "\<And>q r. q < 2 \<Longrightarrow> r < 2 \<Longrightarrow>
      cf h q * cf h r + cf g q * cf g r + cf h (q + 2) * cf h (r + 2) + cf g (q + 2) * cf g (r + 2) = (if q = r then 1 else 0)"
    and shifted: "\<And>q r. q < 2 \<Longrightarrow> r < 2 \<Longrightarrow> cf h q * cf h (r + 2) + cf g q * cf g (r + 2) = 0"
begin

lemma sum_taps: "(\<Sum>j<length h. F (cf h j) (cf g j) j) = (\<Sum>j<4. F (cf h j) (cf g j) j)"
  if "\<And>j. F 0 0 j = (0 :: real)" for F
  using taps that by (intro sum.mono_neutral_left) (auto simp: cf_def)

lemma dwt_Fin:
  assumes "s \<noteq> []"
  shows "dwt (map Fin s) wavelet =
    (map Fin (map (analysis h s) [0..<length s div 2]), map Fin (map (analysis g s) [0..<length s div 2]))"
proof -
  have "dwt_coeff (map Fin f) (map Fin s) i = Fin (analysis f s i)" for f i
  proof -
    have "dwt_coeff (map Fin f) (map Fin s) i = for_loop 0 (length f) (\<lambda>j c. c + Fin (cf f j * s ! ((2 * i + j) mod length s))) (Fin 0)"
      unfolding dwt_coeff_def length_map zero_Fin
      by (rule for_loop_cong) (use assms in \<open>simp add: cf_def\<close>)
    then show ?thesis by (simp add: for_loop_Fin_sum analysis_def)
  qed
  then show ?thesis by (simp add: dwt_def Let_def h g)
qed

lemma idwt_Fin:
  assumes "length d = length a"
  shows "idwt (map Fin a) (map Fin d) wavelet =
    map Fin (map (synth h g (length a) ((!) a) ((!) d)) [0..<2 * length a])"
proof -
  let ?n = "length a"
  let ?v = "\<lambda>i j. cf h j * a ! i + cf g j * d ! i" and ?ix = "\<lambda>i j. (2 * i + j) mod (2 * ?n)"
  define S where "S k = map Fin (map (\<lambda>l. \<Sum>i<k. \<Sum>j<length h. if ?ix i j = l then ?v i j else 0) [0..<2 * ?n])" for k
  have row: "for_loop 0 (length h) (idwt_tap (map Fin h) (map Fin g) (map Fin a) (map Fin d) k) (S k) = S (Suc k)"
    if "k < ?n" for k
  proof -
    have "for_loop 0 (length h) (idwt_tap (map Fin h) (map Fin g) (map Fin a) (map Fin d) k) (S k) =
        for_loop 0 (length h) (\<lambda>j s. s[?ix k j := rd s (?ix k j) + Fin (?v k j)]) (S k)"
      using that assms taps by (intro for_loop_cong) (simp add: idwt_tap_def Let_def cf_def mult.commute)
    then show ?thesis
      using that unfolding S_def by (subst (asm) for_loop_scatter) (auto simp: S_def intro!: mod_less_divisor)
  qed
  have "for_loop 0 ?n (\<lambda>i. for_loop 0 (length h) (idwt_tap (map Fin h) (map Fin g) (map Fin a) (map Fin d) i)) (S 0) = S ?n"
    by (rule for_loop_invariant [where P = "\<lambda>k s. s = S k"]) (simp_all add: row)
  moreover have "replicate (?n * 2) 0 = S 0" by (simp add: S_def map_replicate_const mult.commute)
  ultimately show ?thesis by (simp add: idwt_def Let_def h g S_def synth_def)
qed

text \<open>Each output sample has contributions from two positions only.\<close>

lemma tap_index: "(2 * i + j) mod (2 * n) = 2 * ((i + j div 2) mod n) + j mod 2" for i j n :: nat
proof -
  have "(2 * i + j) div 2 = i + j div 2" "(2 * i + j) mod 2 = j mod 2" by presburger+
  then show ?thesis by (simp add: mod_mult2_eq)
qed

lemma prev_index:
  fixes i p n :: nat
  assumes "i < n" "p < n"
  shows "(i + 1) mod n = p \<longleftrightarrow> i = (p + n - 1) mod n"
proof -
  have "(i + 1) mod n = (if i + 1 = n then 0 else i + 1)" using assms by auto
  moreover have "(p + n - 1) mod n = (if p = 0 then n - 1 else p - 1)"
    using assms by (cases p) auto
  ultimately show ?thesis using assms by auto
qed

lemma synth_sample:
  assumes "p < n" "q < 2"
  defines "p' \<equiv> (p + n - 1) mod n"
  shows "synth h g n a d (2 * p + q) =
    (cf h q * a p + cf g q * d p) + (cf h (q + 2) * a p' + cf g (q + 2) * d p')"
proof -
  have p': "p' < n" using assms by (simp add: p'_def)
  have "(\<Sum>j<length h. if (2 * i + j) mod (2 * n) = 2 * p + q then cf h j * a i + cf g j * d i else 0) =
      (if i = p then cf h q * a i + cf g q * d i else 0) + (if i = p' then cf h (q + 2) * a i + cf g (q + 2) * d i else 0)"
    if i: "i < n" for i
  proof -
    have "(\<Sum>j<length h. if (2 * i + j) mod (2 * n) = 2 * p + q then cf h j * a i + cf g j * d i else 0) =
        (\<Sum>j<4. if (2 * i + j) mod (2 * n) = 2 * p + q then cf h j * a i + cf g j * d i else 0)"
      by (rule sum_taps [of "\<lambda>x y j. if (2 * i + j) mod (2 * n) = 2 * p + q then x * a i + y * d i else 0"]) simp
    also have "\<dots> = (\<Sum>j<4. if j mod 2 = q \<and> (i + j div 2) mod n = p then cf h j * a i + cf g j * d i else 0)"
    proof (intro sum.cong refl if_cong)
      fix j :: nat
      have "2 * x + y = 2 * p + q \<longleftrightarrow> y = q \<and> x = p" if "y < 2" for x y :: nat using that assms(2) by presburger
      then show "(2 * i + j) mod (2 * n) = 2 * p + q \<longleftrightarrow> j mod 2 = q \<and> (i + j div 2) mod n = p"
        unfolding tap_index by simp
    qed
    also have "\<dots> = (if i = p then cf h q * a i + cf g q * d i else 0) + (if i = p' then cf h (q + 2) * a i + cf g (q + 2) * d i else 0)"
    proof -
      have e: "(i + 1) mod n = p \<longleftrightarrow> i = p'" "i mod n = p \<longleftrightarrow> i = p" using prev_index [OF i assms(1)] i by (auto simp: p'_def)
      consider "q = 0" | "q = 1" using assms(2) by linarith
      then show ?thesis using e by cases (simp_all add: sum_4, simp_all add: numeral_2_eq_2 numeral_3_eq_3)
    qed
    finally show ?thesis .
  qed
  then show ?thesis unfolding synth_def using assms(1) p' by (simp add: sum.distrib)
qed

text \<open>Perfect reconstruction of one level.\<close>

lemma analysis_sample:
  assumes "length s = 2 * n" "i < n" "f = h \<or> f = g"
  defines "i' \<equiv> (i + 1) mod n"
  shows "analysis f s i = cf f 0 * s ! (2 * i) + cf f 1 * s ! (2 * i + 1) + cf f 2 * s ! (2 * i') + cf f 3 * s ! (2 * i' + 1)"
proof -
  have "analysis f s i = (\<Sum>j<4. cf f j * s ! (2 * ((i + j div 2) mod n) + j mod 2))"
    using assms(3)
  proof
    assume "f = h"
    then show ?thesis
      using sum_taps [of "\<lambda>x y j. x * s ! ((2 * i + j) mod length s)"]
      unfolding analysis_def assms(1) tap_index by simp
  next
    assume "f = g"
    then show ?thesis
      using sum_taps [of "\<lambda>x y j. y * s ! ((2 * i + j) mod length s)"] taps(1)
      unfolding analysis_def assms(1) tap_index by simp
  qed
  also have "\<dots> = cf f 0 * s ! (2 * i) + cf f 1 * s ! (2 * i + 1) + cf f 2 * s ! (2 * i') + cf f 3 * s ! (2 * i' + 1)"
    using assms(2) by (simp add: sum_4 i'_def)
  finally show ?thesis .
qed

lemma perfect_sample:
  assumes "length s = 2 * n" "p < n" "q < 2"
  shows "synth h g n (analysis h s) (analysis g s) (2 * p + q) = s ! (2 * p + q)"
proof -
  define p' r where "p' = (p + n - 1) mod n" and "r = (p + 1) mod n"
  have bk: "(p' + 1) mod n = p" "p' < n" using prev_index [of p' n p] assms(2) by (auto simp: p'_def)
  let ?c = "\<lambda>q r. cf h q * cf h r + cf g q * cf g r"
  note at_p = analysis_sample [OF assms(1,2), folded r_def] and at_p' = analysis_sample [OF assms(1) bk(2), unfolded bk(1)]
  have "synth h g n (analysis h s) (analysis g s) (2 * p + q) =
    (?c q 0 + ?c (q + 2) 2) * s ! (2 * p) + (?c q 1 + ?c (q + 2) 3) * s ! (2 * p + 1) +
    ?c q 2 * s ! (2 * r) + ?c q 3 * s ! (2 * r + 1) +
    ?c (q + 2) 0 * s ! (2 * p') + ?c (q + 2) 1 * s ! (2 * p' + 1)"
    unfolding synth_sample [OF assms(2,3), folded p'_def] at_p [of h, simplified] at_p [of g, simplified]
      at_p' [of h, simplified] at_p' [of g, simplified]
    by (simp add: algebra_simps)
  moreover have "?c q 0 + ?c (q + 2) 2 = (if q = 0 then 1 else 0)" "?c q 1 + ?c (q + 2) 3 = (if q = 1 then 1 else 0)"
    using unit [of q 0] unit [of q 1] assms(3)
    by (simp_all add: algebra_simps numeral_2_eq_2 numeral_3_eq_3)
  moreover have "?c q 2 = 0" "?c q 3 = 0" "?c (q + 2) 0 = 0" "?c (q + 2) 1 = 0"
    using shifted [of q 0] shifted [of q 1] shifted [of 0 q] shifted [of 1 q] assms(3)
    by (simp_all add: algebra_simps numeral_2_eq_2 numeral_3_eq_3)
  ultimately show ?thesis using assms(3) by (auto simp: less_2_cases_iff)
qed

lemma synth_cong:
  "(\<And>i. i < n \<Longrightarrow> a i = a' i) \<Longrightarrow> (\<And>i. i < n \<Longrightarrow> d i = d' i) \<Longrightarrow> synth h g n a d k = synth h g n a' d' k"
  unfolding synth_def by (intro sum.cong refl if_cong) simp_all

lemma idwt_dwt:
  assumes "s \<noteq> []" "even (length s)"
  shows "\<exists>a d. dwt (map Fin s) wavelet = (map Fin a, map Fin d) \<and> length a = length s div 2 \<and> length d = length s div 2 \<and>
    idwt (map Fin a) (map Fin d) wavelet = map Fin s"
proof -
  obtain n where n: "length s = 2 * n" using assms(2) by (auto elim: evenE)
  let ?a = "map (analysis h s) [0..<n]" and ?d = "map (analysis g s) [0..<n]"
  have "synth h g n ((!) ?a) ((!) ?d) k = s ! k" if "k < 2 * n" for k
  proof -
    have "synth h g n ((!) ?a) ((!) ?d) k = synth h g n (analysis h s) (analysis g s) k"
      by (rule synth_cong) simp_all
    also have "\<dots> = s ! k"
      using perfect_sample [OF n, of "k div 2" "k mod 2"] that by (simp add: less_mult_imp_div_less)
    finally show ?thesis .
  qed
  then have "map (synth h g n ((!) ?a) ((!) ?d)) [0..<2 * n] = s"
    by (intro nth_equalityI) (simp_all add: n)
  moreover have "idwt (map Fin ?a) (map Fin ?d) wavelet = map Fin (map (synth h g n ((!) ?a) ((!) ?d)) [0..<2 * n])"
    using idwt_Fin [of ?d ?a] by (simp del: map_map)
  ultimately have "idwt (map Fin ?a) (map Fin ?d) wavelet = map Fin s" by simp
  moreover have "dwt (map Fin s) wavelet = (map Fin ?a, map Fin ?d)" using dwt_Fin [OF assms(1)] n by simp
  ultimately show ?thesis using n by (intro exI [of _ ?a] exI [of _ ?d]) simp
qed

text \<open>A signal, its details from the finest on, and the approximation that is left.\<close>

fun levels_of :: "real list \<Rightarrow> real list list \<Rightarrow> real list \<Rightarrow> bool" where
  "levels_of a [] c \<longleftrightarrow> a = c"
| "levels_of a (e # es) c \<longleftrightarrow> (\<exists>b. length b = length e \<and> length c = 2 * length b \<and>
     idwt (map Fin b) (map Fin e) wavelet = map Fin c \<and> levels_of a es b)"

lemma decompose_levels:
  assumes "c \<noteq> []" "2 ^ k dvd length c"
  shows "\<exists>a es. decompose_loop k wavelet (map Fin c) ds = (map Fin a, ds @ map (map Fin) es) \<and> levels_of a es c"
  using assms
proof (induction k arbitrary: c ds)
  case 0
  then show ?case by (intro exI [of _ c] exI [of _ "[]"]) simp
next
  case (Suc k)
  then have "even (length c)" by (metis dvd_trans dvd_triv_left power_Suc)
  from idwt_dwt [OF Suc.prems(1) this] obtain b e where be:
    "dwt (map Fin c) wavelet = (map Fin b, map Fin e)" "length b = length c div 2" "length e = length c div 2"
    "idwt (map Fin b) (map Fin e) wavelet = map Fin c" by blast
  have len: "length c = 2 * length b" "length b = length e" using \<open>even (length c)\<close> be(2,3) by simp_all
  show ?case
  proof (cases "length b < 2")
    case True
    then show ?thesis using be(1,4) len by (intro exI [of _ b] exI [of _ "[e]"]) auto
  next
    case False
    then have "b \<noteq> []" "2 ^ k dvd length b" using Suc.prems(2) len(1) False by auto
    from Suc.IH [OF this, of "ds @ [map Fin e]"] obtain a es where
      "decompose_loop k wavelet (map Fin b) (ds @ [map Fin e]) = (map Fin a, (ds @ [map Fin e]) @ map (map Fin) es)"
      "levels_of a es b" by blast
    moreover have "levels_of a (e # es) c" using be(4) len \<open>levels_of a es b\<close> by auto
    ultimately show ?thesis using be(1) False by (intro exI [of _ a] exI [of _ "e # es"]) simp
  qed
qed

lemma reconstruct_levels:
  assumes "levels_of a es c"
  shows "reconstruct \<lparr>dc_approx = map Fin a, dc_details = map (map Fin) es, dc_levels = length es\<rparr> wavelet = map Fin c"
  using assms
proof (induction es arbitrary: c)
  case Nil
  then show ?case by (simp add: reconstruct_def)
next
  case (Cons e es)
  then obtain b where b: "idwt (map Fin b) (map Fin e) wavelet = map Fin c" "levels_of a es b" by auto
  have "for_loop 0 (length es) (\<lambda>k x. idwt x (map (map Fin) (e # es) ! (length (e # es) - 1 - k)) wavelet) (map Fin a) =
      for_loop 0 (length es) (\<lambda>k x. idwt x (map (map Fin) es ! (length es - 1 - k)) wavelet) (map Fin a)"
    by (rule for_loop_cong) (simp add: nth_Cons')
  then show ?case using Cons.IH [OF b(2)] b(1) by (simp add: reconstruct_def for_loop_Suc)
qed

text \<open>The components, as real signals.\<close>

definition up :: "real list \<Rightarrow> real list" where
  "up x = map (synth h g (length x) ((!) x) (\<lambda>_. 0)) [0..<2 * length x]"

definition lift_detail :: "real list \<Rightarrow> real list" where
  "lift_detail e = map (synth h g (length e) (\<lambda>_. 0) ((!) e)) [0..<2 * length e]"

lemma zeros_Fin: "zeros n = map Fin (replicate n 0)"
  by (simp add: zeros_def)

lemma idwt_up: "idwt (map Fin x) (zeros (length x)) wavelet = map Fin (up x)"
  unfolding zeros_Fin by (subst idwt_Fin) (auto simp: up_def intro: synth_cong)

lemma idwt_lift: "idwt (zeros (length e)) (map Fin e) wavelet = map Fin (lift_detail e)"
  unfolding zeros_Fin by (subst idwt_Fin) (auto simp: lift_detail_def intro: synth_cong)

lemma length_up [simp]: "length (up x) = 2 * length x" "length ((up ^^ k) x) = 2 ^ k * length x"
  "length (lift_detail e) = 2 * length e"
  by (induction k) (simp_all add: up_def lift_detail_def)

lemma levels_length:
  "levels_of a es c \<Longrightarrow> length c = 2 ^ length es * length a \<and>
    (\<forall>m < length es. length c = 2 ^ m * (2 * length (es ! m)))"
proof (induction es arbitrary: c)
  case (Cons e es)
  then obtain b where b: "length b = length e" "length c = 2 * length b" "levels_of a es b" by auto
  show ?case using b Cons.IH [OF b(3)] by (auto simp: nth_Cons split: nat.splits)
qed simp

lemma synth_linear:
  fixes L :: nat
  shows
  "synth h g n (\<lambda>i. x i + (\<Sum>m<L. y m i)) d k =
   synth h g n x (\<lambda>_. 0) k + (\<Sum>m<L. synth h g n (y m) (\<lambda>_. 0) k) + synth h g n (\<lambda>_. 0) d k"
proof -
  have add: "synth h g n (\<lambda>i. u i + v i) d k = synth h g n u (\<lambda>_. 0) k + synth h g n v d k" for u v d
    unfolding synth_def sum.distrib [symmetric] by (intro sum.cong refl) (simp add: algebra_simps)
  have "synth h g n (\<lambda>i. \<Sum>m<L. y m i) d k = (\<Sum>m<L. synth h g n (y m) (\<lambda>_. 0) k) + synth h g n (\<lambda>_. 0) d k"
  proof (induction L)
    case (Suc L)
    have "synth h g n (\<lambda>i. \<Sum>m<Suc L. y m i) d k = synth h g n (\<lambda>i. y L i + (\<Sum>m<L. y m i)) d k"
      by (simp add: add.commute)
    then show ?case using Suc add by simp
  qed simp
  then show ?thesis using add by simp
qed

lemma components_sum:
  assumes "levels_of a es c" "i < length c"
  shows "c ! i = (up ^^ length es) a ! i + (\<Sum>m<length es. (up ^^ m) (lift_detail (es ! m)) ! i)"
  using assms
proof (induction es arbitrary: c i)
  case (Cons e es)
  then obtain b where b: "length b = length e" "length c = 2 * length b"
    "idwt (map Fin b) (map Fin e) wavelet = map Fin c" "levels_of a es b" by auto
  note len = levels_length [OF b(4)]
  have c: "c = map (synth h g (length b) ((!) b) ((!) e)) [0..<2 * length b]"
    using b(3) idwt_Fin [OF b(1) [symmetric]] by (simp only: map_Fin_eq)
  have "c ! i = synth h g (length b) ((!) b) ((!) e) i" using Cons.prems(2) b(2) by (simp add: c)
  also have "\<dots> = synth h g (length b)
      (\<lambda>j. (up ^^ length es) a ! j + (\<Sum>m<length es. (up ^^ m) (lift_detail (es ! m)) ! j)) ((!) e) i"
    by (rule synth_cong) (simp_all add: Cons.IH [OF b(4)])
  also have "\<dots> = up ((up ^^ length es) a) ! i + (\<Sum>m<length es. up ((up ^^ m) (lift_detail (es ! m))) ! i) + lift_detail e ! i"
    unfolding synth_linear using Cons.prems(2) b(1,2) len by (auto simp: up_def lift_detail_def intro!: sum.cong)
  finally show ?case by (simp add: sum.lessThan_Suc_shift del: sum.lessThan_Suc)
qed simp

lemma trend_levels:
  "mra_trend \<lparr>dc_approx = map Fin a, dc_details = ds, dc_levels = n\<rparr> wavelet = map Fin ((up ^^ n) a)"
proof -
  have "for_loop 0 n (\<lambda>_ t. idwt t (zeros (length t)) wavelet) (map Fin a) = map Fin ((up ^^ n) a)"
  proof (induction n)
    case (Suc n)
    show ?case unfolding for_loop_Suc [OF le0] Suc length_map idwt_up by simp
  qed simp
  then show ?thesis by (simp add: mra_trend_def)
qed

lemma detail_levels:
  assumes "level < length es"
  shows "mra_detail \<lparr>dc_approx = a, dc_details = map (map Fin) es, dc_levels = length es\<rparr> wavelet level =
    map Fin ((up ^^ level) (lift_detail (es ! level)))"
proof -
  let ?L = "length es" and ?e = "es ! level"
  define P where "P k s \<longleftrightarrow> (if k + level < ?L then snd s = map Fin ?e
    else fst s = map Fin ((up ^^ (k + level - ?L)) (lift_detail ?e)))" for k and s :: "jsnum list \<times> jsnum list"
  have "P ?L (for_loop 0 ?L (mra_detail_step ?L level wavelet) (zeros (length ?e), map Fin ?e))"
  proof (rule for_loop_invariant)
    show "P 0 (zeros (length ?e), map Fin ?e)" using assms by (simp add: P_def)
  next
    fix k s assume k: "k < ?L" and P: "P k s"
    consider "k + level + 1 < ?L" | "k + level + 1 = ?L" | "?L \<le> k + level" by linarith
    then show "P (Suc k) (mra_detail_step ?L level wavelet k s)"
    proof cases
      case 1
      then show ?thesis using P by (auto simp: P_def mra_detail_step_def split: prod.splits)
    next
      case 2
      then have "?L - 1 - k = level" "k + level < ?L" "Suc k + level = ?L" by linarith+
      moreover have "idwt (zeros (length ?e)) (map Fin ?e) wavelet = map Fin (lift_detail ?e)" by (rule idwt_lift)
      ultimately show ?thesis using P by (auto simp: P_def mra_detail_step_def Let_def split: prod.splits)
    next
      case 3
      then have l: "?L - 1 - k \<noteq> level" "Suc k + level - ?L = Suc (k + level - ?L)" using k by linarith+
      have "fst s = map Fin ((up ^^ (k + level - ?L)) (lift_detail ?e))" using P 3 by (simp add: P_def)
      then have "idwt (fst s) (zeros (length (fst s))) wavelet = map Fin ((up ^^ (Suc k + level - ?L)) (lift_detail ?e))"
        unfolding l(2) by (simp only: length_map idwt_up funpow.simps comp_def)
      then show ?thesis using 3 l(1) unfolding P_def by (auto simp: mra_detail_step_def Let_def split: prod.splits)
    qed
  qed simp
  then show ?thesis using assms by (simp add: P_def mra_detail_def)
qed

end

section \<open>The filters of the code\<close>

definition real_h :: "string \<Rightarrow> real list" where
  "real_h wavelet = (if wavelet = ''db4''
     then [(1 + sqrt 3) / (4 * sqrt 2), (3 + sqrt 3) / (4 * sqrt 2), (3 - sqrt 3) / (4 * sqrt 2), (1 - sqrt 3) / (4 * sqrt 2)]
     else [1 / sqrt 2, 1 / sqrt 2])"

definition real_g :: "string \<Rightarrow> real list" where
  "real_g wavelet = (if wavelet = ''db4''
     then [(1 - sqrt 3) / (4 * sqrt 2), - ((3 - sqrt 3) / (4 * sqrt 2)), (3 + sqrt 3) / (4 * sqrt 2), - ((1 + sqrt 3) / (4 * sqrt 2))]
     else [1 / sqrt 2, - 1 / sqrt 2])"

lemma sqrt_products:
  "sqrt 2 * sqrt 2 = (2 :: real)" "sqrt 3 * sqrt 3 = (3 :: real)"
  "sqrt 2 * (sqrt 2 * 16) = (32 :: real)"
  "x / (4 * sqrt 2) * (y / (4 * sqrt 2)) = x * y / 32" for x y :: real
  by (simp_all add: field_simps) (simp add: mult.assoc [symmetric])?

lemma filters_orthogonal: "filter_bank wavelet (real_h wavelet) (real_g wavelet)"
proof
  show "filter_h wavelet = map Fin (real_h wavelet)"
    by (simp add: filter_h_def real_h_def DB4_H_def HAAR_H_def)
  show "filter_g wavelet = map Fin (real_g wavelet)"
    by (simp add: filter_g_def real_g_def DB4_G_def DB4_H_def HAAR_G_def)
  show "length (real_g wavelet) = length (real_h wavelet)" "length (real_h wavelet) \<le> 4"
    by (simp_all add: real_g_def real_h_def)
  fix q r :: nat assume qr: "q < 2" "r < 2"
  let ?h = "cf (real_h wavelet)" and ?g = "cf (real_g wavelet)"
  consider "q = 0" "r = 0" | "q = 0" "r = 1" | "q = 1" "r = 0" | "q = 1" "r = 1" using qr by linarith
  then show "?h q * ?h r + ?g q * ?g r + ?h (q + 2) * ?h (r + 2) + ?g (q + 2) * ?g (r + 2) = (if q = r then 1 else 0)"
    by cases (simp_all add: cf_def real_h_def real_g_def sqrt_products algebra_simps, simp_all add: field_simps)
  show "?h q * ?h (r + 2) + ?g q * ?g (r + 2) = 0"
    using \<open>q < 2\<close> \<open>r < 2\<close>
    by (cases "q = 0"; cases "r = 0") (simp_all add: cf_def real_h_def real_g_def sqrt_products algebra_simps)
qed

interpretation wl: filter_bank wavelet "real_h wavelet" "real_g wavelet" for wavelet
  by (rule filters_orthogonal)

section \<open>Properties\<close>

lemma decompose_exact:
  assumes "s \<noteq> []" "2 ^ min levels (floorlog 2 (length s) - 1) dvd length s"
  obtains a es where
    "waveletDecompose (map Fin s) levels wavelet = \<lparr>dc_approx = map Fin a, dc_details = map (map Fin) es, dc_levels = length es\<rparr>"
    "wl.levels_of wavelet a es s"
  using wl.decompose_levels [OF assms, of wavelet "[]"] by (auto simp: waveletDecompose_def Let_def)

text \<open>
  C20: The decomposition loses nothing: for either wavelet, reconstructing the decomposition of a signal whose
  length is divisible by two as often as levels are taken gives the signal back.
\<close>
theorem wavelet_roundtrip:
  assumes "s \<noteq> []" "2 ^ min levels (floorlog 2 (length s) - 1) dvd length s"
  shows "reconstruct (waveletDecompose (map Fin s) levels wavelet) wavelet = map Fin s"
proof -
  obtain a es where d: "waveletDecompose (map Fin s) levels wavelet =
      \<lparr>dc_approx = map Fin a, dc_details = map (map Fin) es, dc_levels = length es\<rparr>"
    "wl.levels_of wavelet a es s" using decompose_exact [OF assms] .
  show ?thesis unfolding d(1) by (rule wl.reconstruct_levels [OF d(2)])
qed

theorem wavelet_roundtrip_witness:
  "reconstruct (waveletDecompose (map Fin [1, 2, 3, 4]) 2 ''db4'') ''db4'' = map Fin [1, 2, 3, 4]"
proof -
  have "floorlog 2 (Suc (Suc (Suc (Suc 0)))) = 3" by (simp add: compute_floorlog)
  moreover have "4 dvd Suc (Suc (Suc (Suc 0)))" by presburger
  ultimately show ?thesis by (intro wavelet_roundtrip) simp_all
qed

text \<open>The panel pads the prices to a power of two.\<close>

lemma padded_length:
  assumes "prices \<noteq> []"
  shows "length (padded_prices prices) = 2 ^ ceillog2 (length prices)"
  using le_two_power_ceillog2 [of "length prices"] by (simp add: padded_prices_def)

lemma padded_divisible:
  assumes "prices \<noteq> []"
  shows "2 ^ min levels (floorlog 2 (length (padded_prices prices)) - 1) dvd length (padded_prices prices)"
proof -
  have "floorlog 2 ((2 :: nat) ^ k) = Suc k" for k using floorlog_power [of 1 2 k] by (simp add: compute_floorlog)
  then show ?thesis unfolding padded_length [OF assms] by (simp add: le_imp_power_dvd)
qed

lemma padded_Fin:
  assumes "ps \<noteq> []"
  obtains s where "padded_prices (map Fin ps) = map Fin s" "take (length ps) s = ps" "s \<noteq> []"
proof
  show "padded_prices (map Fin ps) = map Fin (ps @ replicate (2 ^ ceillog2 (length ps) - length ps) (ps ! (length ps - 1)))"
    using assms by (simp add: padded_prices_def)
qed (use assms in auto)

text \<open>
  The panel's decomposition is exact: for at least 16 candles with numbers as closing prices, whatever the
  levels and the wavelet, without a threshold the denoised signal is the price series itself, and at every
  candle the trend and the detail components add up to the price.
\<close>
theorem wavelet_panel_exact:
  assumes closes: "map cd_close (select_candles candles exchange symbol) = map Fin ps" and len: "16 \<le> length ps"
    and th: "\<not> threshold > 0"
  shows "\<exists>p. wavelet_panel_of candles exchange symbol levels wavelet threshold = Some p \<and>
    wp_prices p = map Fin ps \<and> wp_denoised p = map Fin ps \<and>
    (\<forall>i < length ps. jsum (map (\<lambda>c. rd (cp_data c) i) (wp_components p)) = Fin (ps ! i))"
proof -
  let ?n = "length ps"
  have ne: "map Fin ps \<noteq> []" using len by auto
  obtain s where s: "padded_prices (map Fin ps) = map Fin s" "take ?n s = ps" "s \<noteq> []"
    using padded_Fin [of ps] ne by auto
  have "2 ^ min levels (floorlog 2 (length s) - 1) dvd length s"
    using padded_divisible [OF ne, of levels] unfolding s(1) by simp
  then obtain a es where d: "waveletDecompose (map Fin s) levels wavelet =
      \<lparr>dc_approx = map Fin a, dc_details = map (map Fin) es, dc_levels = length es\<rparr>"
    and lv: "wl.levels_of wavelet a es s" using decompose_exact [OF s(3)] by blast
  have ns: "?n \<le> length s" using s(2) by (metis length_take min.cobounded1 min.commute)
  note lens = wl.levels_length [OF lv]
  let ?up = "wl.up wavelet" and ?ld = "wl.lift_detail wavelet"
  have shown: "rd (take ?n (pad_last ?n (map Fin x))) i = Fin (x ! i)" if "i < ?n" "length x = length s" for i x
    using that ns by (simp add: pad_last_def)
  let ?cs = "mraReconstruct (waveletDecompose (map Fin s) levels wavelet) ?n wavelet"
  have comps: "jsum (map (\<lambda>c. rd (cp_data c) i) ?cs) = Fin (ps ! i)" if i: "i < ?n" for i
  proof -
    have "length ((?up ^^ length es) a) = length s" using lens by simp
    note trend = shown [OF i this]
    have detail: "rd (take ?n (pad_last ?n (mra_detail \<lparr>dc_approx = map Fin a, dc_details = map (map Fin) es,
        dc_levels = length es\<rparr> wavelet m))) i = Fin ((?up ^^ m) (?ld (es ! m)) ! i)" if "m < length es" for m
    proof -
      have "length ((?up ^^ m) (?ld (es ! m))) = length s" unfolding wl.length_up using lens that by metis
      from shown [OF i this] show ?thesis unfolding wl.detail_levels [OF that] .
    qed
    have eq: "map (\<lambda>c. rd (cp_data c) i) ?cs =
        map Fin ((?up ^^ length es) a ! i # map (\<lambda>m. (?up ^^ m) (?ld (es ! m)) ! i) [0..<length es])"
      unfolding d mraReconstruct_def wl.trend_levels by (simp add: comp_def trend detail)
    have "jsum (map (\<lambda>c. rd (cp_data c) i) ?cs) =
        Fin ((?up ^^ length es) a ! i + (\<Sum>m<length es. (?up ^^ m) (?ld (es ! m)) ! i))"
      unfolding eq jsum_Fin by (simp add: interv_sum_list_conv_sum_set_nat atLeast0LessThan)
    also have "\<dots> = Fin (s ! i)" using wl.components_sum [OF lv] i ns by simp
    also have "s ! i = ps ! i" using i s(2) by (metis nth_take)
    finally show ?thesis .
  qed
  have rec: "take ?n (reconstruct (waveletDecompose (map Fin s) levels wavelet) wavelet) = map Fin ps"
    unfolding d wl.reconstruct_levels [OF lv] by (simp add: take_map s(2))
  have "length (select_candles candles exchange symbol) = ?n" using closes by (metis length_map)
  then show ?thesis
    using len th comps rec by (simp add: wavelet_panel_of_def Let_def closes s(1))
qed

theorem wavelet_panel_exact_witness:
  "\<exists>p. wavelet_panel_of (Some (replicate 16 \<lparr>cd_exchange = ''a'', cd_symbol = ''b'', cd_timestamp = 0,
       cd_open = 1, cd_high = 1, cd_low = 1, cd_close = 1, cd_volume = 1\<rparr>)) ''a'' ''b'' 4 ''haar'' 0 = Some p \<and>
     wp_denoised p = map Fin (replicate 16 1)"
  by (rule exE [OF wavelet_panel_exact [where ps = "replicate 16 1"]]) (auto simp: select_candles_def)

end
