(* ===== verification/FormulaParser.thy ===== *)
theory FormulaParser
  imports Candles Indicators
begin

text \<open>
  The formula panel \<open>web-ui/src/components/IndicatorFormulaParser.jsx\<close>: the tokenizer, the recursive-descent
  parser, the evaluator over the arrays of the chart and the result the panel shows. An error that the code
  throws is \<open>Inl\<close>. A position in the token array is represented by the tokens from it on. The recursion of
  the parser and its loops count down a fuel; \<open>FormulaLaws\<close> shows that \<open>parse_fuel\<close> is always enough.
\<close>

section \<open>Tokens\<close>

datatype token = TOp char | TNum jsnum | TFunc string | TVar string | TComma

definition OPERATORS :: string where
  "OPERATORS = ''+-*/()''"

definition is_num_char :: "char \<Rightarrow> bool" where
  "is_num_char c \<longleftrightarrow> (let n = (of_char c :: nat) in 48 \<le> n \<and> n \<le> 57) \<or> c = CHR ''.''"

definition is_name_start :: "char \<Rightarrow> bool" where
  "is_name_start c \<longleftrightarrow> (let n = (of_char c :: nat) in 65 \<le> n \<and> n \<le> 90 \<or> 97 \<le> n \<and> n \<le> 122) \<or> c = CHR ''_''"

definition is_name_char :: "char \<Rightarrow> bool" where
  "is_name_char c \<longleftrightarrow> is_name_start c \<or> (let n = (of_char c :: nat) in 48 \<le> n \<and> n \<le> 57)"

text \<open>\<open>parseFloat\<close> on a string of digits and points: the longest prefix that is a decimal number.\<close>

definition is_digit :: "char \<Rightarrow> bool" where
  "is_digit c \<longleftrightarrow> is_num_char c \<and> c \<noteq> CHR ''.''"

definition parse_float :: "string \<Rightarrow> jsnum" where
  "parse_float s =
     (let ip = takeWhile is_digit s;
          rest = dropWhile is_digit s;
          fp = (case rest of [] \<Rightarrow> [] | c # cs \<Rightarrow> takeWhile is_digit cs)
      in if ip = [] \<and> fp = [] then NaN
         else Fin (real (read_nat ip) + real (read_nat fp) / 10 ^ length fp))"

function tokenize :: "string \<Rightarrow> token list" where
  "tokenize [] = []"
| "tokenize (c # cs) =
     (if c = CHR '' '' then tokenize cs
      else if c \<in> set OPERATORS then TOp c # tokenize cs
      else if is_num_char c
        then TNum (parse_float (c # takeWhile is_num_char cs)) # tokenize (dropWhile is_num_char cs)
      else if is_name_start c
        then let name = c # takeWhile is_name_char cs; rest = dropWhile is_name_char cs
             in (if take 1 rest = ''('' then TFunc name else TVar name) # tokenize rest
      else if c = CHR '','' then TComma # tokenize cs
      else tokenize cs)"
  by pat_completeness auto
termination
  by (relation "measure length") (auto simp: le_imp_less_Suc length_dropWhile_le)

section \<open>The parser\<close>

datatype ast = Num jsnum | Var string | BinOp char ast ast | Func string "ast list"

datatype formula_error =
  UnexpectedEnd
| UnknownVariable string
| MissingClosing
| UnknownFunction string
| ExpectedOpen string
| MissingCloseFor string
| UnexpectedToken token
| TrailingTokens
| TypeErr
| InheritedCall string
| OutOfFuel

record formula_ctx =
  fc_len :: nat
  fc_vars :: "(string \<times> jsnum list) list"

text \<open>The variables are checked with \<open>hasOwnProperty\<close>, the functions are not, so that the names inherited from
  \<open>Object.prototype\<close> pass.\<close>

definition own_functions :: "string list" where
  "own_functions = [''SMA'', ''EMA'', ''RSI'', ''ATR'', ''BB'', ''MACD'', ''MAX'', ''MIN'', ''ABS'', ''CROSS'']"

definition inherited_names :: "string list" where
  "inherited_names = [''constructor'', ''__defineGetter__'', ''__defineSetter__'', ''hasOwnProperty'',
     ''__lookupGetter__'', ''__lookupSetter__'', ''isPrototypeOf'', ''propertyIsEnumerable'', ''toString'',
     ''valueOf'', ''__proto__'', ''toLocaleString'']"

definition and_then :: "'e + 'a \<Rightarrow> ('a \<Rightarrow> 'e + 'b) \<Rightarrow> 'e + 'b" where
  "and_then r f = (case r of Inl e \<Rightarrow> Inl e | Inr a \<Rightarrow> f a)"

type_synonym parse_result = "formula_error + ast \<times> token list"

text \<open>The functions below \<open>parseExpression\<close> take it as the argument \<open>expr\<close>. Every round of a loop consumes a
  token, so that one more than the number of tokens left is enough fuel for it.\<close>

primrec argsLoop ::
  "nat \<Rightarrow> (token list \<Rightarrow> parse_result) \<Rightarrow> ast list \<Rightarrow> token list \<Rightarrow> formula_error + ast list \<times> token list" where
  "argsLoop 0 expr args ts = Inl OutOfFuel"
| "argsLoop (Suc k) expr args ts =
     (case ts of
        TComma # ts' \<Rightarrow> and_then (expr ts') (\<lambda>(next, rest). argsLoop k expr (args @ [next]) rest)
      | _ \<Rightarrow> Inr (args, ts))"

definition close_paren :: "token list \<Rightarrow> 'a \<Rightarrow> formula_error \<Rightarrow> formula_error + 'a \<times> token list" where
  "close_paren ts result missing =
     (if take 1 ts = [TOp (CHR '')'')] then Inr (result, tl ts) else Inl missing)"

definition parseArgs ::
  "(token list \<Rightarrow> parse_result) \<Rightarrow> token list \<Rightarrow> formula_error + ast list \<times> token list" where
  "parseArgs expr ts =
     (if ts = [] \<or> take 1 ts = [TOp (CHR '')'')] then Inr ([], ts)
      else and_then (expr ts) (\<lambda>(first, rest). argsLoop (length rest + 1) expr [first] rest))"

definition parsePrimary :: "(token list \<Rightarrow> parse_result) \<Rightarrow> formula_ctx \<Rightarrow> token list \<Rightarrow> parse_result" where
  "parsePrimary expr ctx ts =
     (case ts of
        [] \<Rightarrow> Inl UnexpectedEnd
      | t # ts' \<Rightarrow>
          (case t of
             TNum v \<Rightarrow> Inr (Num v, ts')
           | TVar x \<Rightarrow> if map_has (fc_vars ctx) x then Inr (Var x, ts') else Inl (UnknownVariable x)
           | TFunc f \<Rightarrow>
               if f \<notin> set (own_functions @ inherited_names) then Inl (UnknownFunction f)
               else if take 1 ts' \<noteq> [TOp (CHR ''('')] then Inl (ExpectedOpen f)
               else and_then (parseArgs expr (tl ts'))
                 (\<lambda>(args, rest). close_paren rest (Func f args) (MissingCloseFor f))
           | TOp op \<Rightarrow>
               if op = CHR ''(''
               then and_then (expr ts') (\<lambda>(inner, rest). close_paren rest inner MissingClosing)
               else Inl (UnexpectedToken t)
           | TComma \<Rightarrow> Inl (UnexpectedToken t)))"

primrec mulDivLoop ::
  "nat \<Rightarrow> (token list \<Rightarrow> parse_result) \<Rightarrow> formula_ctx \<Rightarrow> ast \<Rightarrow> token list \<Rightarrow> parse_result" where
  "mulDivLoop 0 expr ctx result ts = Inl OutOfFuel"
| "mulDivLoop (Suc k) expr ctx result ts =
     (case ts of
        TOp op # ts' \<Rightarrow>
          if op \<in> {CHR ''*'', CHR ''/''}
          then and_then (parsePrimary expr ctx ts')
            (\<lambda>(right, rest). mulDivLoop k expr ctx (BinOp op result right) rest)
          else Inr (result, ts)
      | _ \<Rightarrow> Inr (result, ts))"

definition parseMulDiv :: "(token list \<Rightarrow> parse_result) \<Rightarrow> formula_ctx \<Rightarrow> token list \<Rightarrow> parse_result" where
  "parseMulDiv expr ctx ts =
     and_then (parsePrimary expr ctx ts) (\<lambda>(result, rest). mulDivLoop (length rest + 1) expr ctx result rest)"

primrec addSubLoop ::
  "nat \<Rightarrow> (token list \<Rightarrow> parse_result) \<Rightarrow> formula_ctx \<Rightarrow> ast \<Rightarrow> token list \<Rightarrow> parse_result" where
  "addSubLoop 0 expr ctx result ts = Inl OutOfFuel"
| "addSubLoop (Suc k) expr ctx result ts =
     (case ts of
        TOp op # ts' \<Rightarrow>
          if op \<in> {CHR ''+'', CHR ''-''}
          then and_then (parseMulDiv expr ctx ts')
            (\<lambda>(right, rest). addSubLoop k expr ctx (BinOp op result right) rest)
          else Inr (result, ts)
      | _ \<Rightarrow> Inr (result, ts))"

text \<open>\<open>parseExpression\<close> only calls \<open>parseAddSub\<close>; the fuel bounds the depth of the parentheses.\<close>

primrec parseAddSub :: "nat \<Rightarrow> formula_ctx \<Rightarrow> token list \<Rightarrow> parse_result" where
  "parseAddSub 0 ctx ts = Inl OutOfFuel"
| "parseAddSub (Suc k) ctx ts =
     and_then (parseMulDiv (parseAddSub k ctx) ctx ts)
       (\<lambda>(result, rest). addSubLoop (length rest + 1) (parseAddSub k ctx) ctx result rest)"

definition parse_fuel :: "token list \<Rightarrow> nat" where
  "parse_fuel ts = length ts + 1"

definition parseExpression :: "formula_ctx \<Rightarrow> token list \<Rightarrow> parse_result" where
  "parseExpression ctx ts = parseAddSub (parse_fuel ts) ctx ts"

definition parse_formula :: "formula_ctx \<Rightarrow> string \<Rightarrow> formula_error + ast" where
  "parse_formula ctx formula =
     and_then (parseExpression ctx (tokenize formula))
       (\<lambda>(result, rest). if rest \<noteq> [] then Inl TrailingTokens else Inr result)"

section \<open>The evaluator\<close>

text \<open>\<open>Math.round(p) || d\<close> where \<open>p\<close> is an argument of a call: an array, or undefined when it is missing. An
  array becomes a number only when it is empty (0) or has one element.\<close>

fun array_number :: "jsnum list option \<Rightarrow> jsnum" where
  "array_number None = NaN"
| "array_number (Some []) = 0"
| "array_number (Some [x]) = x"
| "array_number (Some (x # y # xs)) = NaN"

definition period_or :: "jsnum list option \<Rightarrow> nat \<Rightarrow> nat" where
  \<comment> \<open>a one-element array with a negative or infinite value, which the panel never has, counts as 0\<close>
  "period_or p d =
     (let v = jround (array_number p)
      in if truthy v then (case v of Fin r \<Rightarrow> nat \<lfloor>r\<rfloor> | _ \<Rightarrow> 0) else d)"

definition std_or :: "jsnum list option \<Rightarrow> jsnum" where
  \<comment> \<open>\<open>sd || 2\<close>, an array being truthy, and then its use as a factor\<close>
  "std_or p = (case p of None \<Rightarrow> 2 | Some _ \<Rightarrow> array_number p)"

definition arg :: "jsnum list list \<Rightarrow> nat \<Rightarrow> jsnum list option" where
  "arg args i = (if i < length args then Some (args ! i) else None)"

definition rolling :: "(jsnum list \<Rightarrow> jsnum) \<Rightarrow> jsnum list \<Rightarrow> nat \<Rightarrow> jsnum list" where
  "rolling f arr period =
     for_loop (period - 1) (length arr) (\<lambda>i res. res[i := f (drop (i + 1 - period) (take (i + 1) arr))]) (nans (length arr))"

definition cross :: "jsnum list \<Rightarrow> jsnum list \<Rightarrow> jsnum list" where
  "cross a b =
     for_loop 1 (length a)
       (\<lambda>i res.
          if rd a (i - 1) \<le> rd b (i - 1) \<and> rd a i > rd b i then res[i := 1]
          else if rd a (i - 1) \<ge> rd b (i - 1) \<and> rd a i < rd b i then res[i := - 1]
          else res) (replicate (length a) 0)"

definition call_own :: "string \<Rightarrow> jsnum list list \<Rightarrow> formula_error + jsnum list" where
  \<comment> \<open>a missing array argument makes the function throw a TypeError\<close>
  "call_own f args =
     (case arg args 0 of
        None \<Rightarrow> Inl TypeErr
      | Some a \<Rightarrow>
          if f = ''SMA'' then Inr (calcSMA a (period_or (arg args 1) 20))
          else if f = ''EMA'' then Inr (calcEMA a (period_or (arg args 1) 9))
          else if f = ''RSI'' then Inr (calcRSI a (period_or (arg args 1) 14))
          else if f = ''ATR''
            then (case (arg args 1, arg args 2) of
                (Some l, Some c) \<Rightarrow> Inr (calcATR a l c (period_or (arg args 3) 14))
              | _ \<Rightarrow> Inl TypeErr)
          else if f = ''BB''
            then Inr (bd_upper (calcBollingerBands a (period_or (arg args 1) 20) (std_or (arg args 2))))
          else if f = ''MACD''
            then Inr (mc_macd (calcMACD a (period_or (arg args 1) 12) (period_or (arg args 2) 26) (period_or (arg args 3) 9)))
          else if f = ''MAX'' then Inr (rolling jmax_list a (period_or (arg args 1) 20))
          else if f = ''MIN'' then Inr (rolling jmin_list a (period_or (arg args 1) 20))
          else if f = ''ABS'' then Inr (map abs a)
          else (case arg args 1 of
              Some b \<Rightarrow> Inr (cross a b)
            | None \<Rightarrow> if length a > 1 then Inl TypeErr else Inr (cross a [])))"

definition apply_op :: "char \<Rightarrow> jsnum \<Rightarrow> jsnum \<Rightarrow> jsnum" where
  "apply_op op l r =
     (if op = CHR ''+'' then l + r
      else if op = CHR ''-'' then l - r
      else if op = CHR ''*'' then l * r
      else if op = CHR ''/'' then (if \<not> jeq r 0 then l / r else NaN)
      else NaN)"

definition binop_at :: "char \<Rightarrow> jsnum list \<Rightarrow> jsnum list \<Rightarrow> nat \<Rightarrow> jsnum" where
  "binop_at op left right i =
     (let l = jor (rd left i) 0; r = jor (rd right i) 0
      in if l = NaN \<or> r = NaN then NaN else apply_op op l r)"

text \<open>A call of a name inherited from \<open>Object.prototype\<close> is the outcome \<open>InheritedCall\<close>: what JavaScript's own
  function then does is not followed, and the laws are about the ten functions of the panel.\<close>

fun evalAST :: "formula_ctx \<Rightarrow> ast \<Rightarrow> formula_error + jsnum list"
  and evalArgs :: "formula_ctx \<Rightarrow> ast list \<Rightarrow> formula_error + jsnum list list" where
  "evalAST ctx (Num n) = Inr (replicate (fc_len ctx) n)"
| "evalAST ctx (Var x) = (case map_get (fc_vars ctx) x of Some v \<Rightarrow> Inr v | None \<Rightarrow> Inl TypeErr)"
| "evalAST ctx (BinOp op l r) =
     and_then (evalAST ctx l) (\<lambda>left. and_then (evalAST ctx r)
       (\<lambda>right. Inr (map (binop_at op left right) [0..<fc_len ctx])))"
| "evalAST ctx (Func f args) =
     and_then (evalArgs ctx args)
       (\<lambda>vs. if f \<in> set own_functions then call_own f vs else Inl (InheritedCall f))"
| "evalArgs ctx [] = Inr []"
| "evalArgs ctx (a # as) = and_then (evalAST ctx a) (\<lambda>v. and_then (evalArgs ctx as) (\<lambda>vs. Inr (v # vs)))"

section \<open>The panel\<close>

datatype formula_signal = FNeutral | FBullCross | FBearCross | FBull | FBear

record formula_result =
  fr_values :: "jsnum list"
  fr_last :: jsnum
  fr_prev :: jsnum
  fr_min :: jsnum
  fr_max :: jsnum
  fr_change :: jsnum
  fr_signal :: formula_signal
  fr_n :: nat

datatype formula_outcome = FormulaError formula_error | NoValidValues | FormulaValue formula_result

definition formula_signal_of :: "jsnum \<Rightarrow> jsnum \<Rightarrow> formula_signal" where
  "formula_signal_of final prev =
     (if final > 0 \<and> prev \<le> 0 then FBullCross
      else if final < 0 \<and> prev \<ge> 0 then FBearCross
      else if final > prev then FBull
      else if final < prev then FBear
      else FNeutral)"

definition summarize :: "nat \<Rightarrow> jsnum list \<Rightarrow> formula_outcome" where
  "summarize n values =
     (let validValues = filter (\<lambda>v. v \<noteq> NaN) values;
          final = rd values (length values - 1);
          prev = (if length values < 2 then final else jor (rd values (length values - 2)) final)
      in if validValues = [] then NoValidValues
         else FormulaValue \<lparr>fr_values = values, fr_last = final, fr_prev = prev, fr_min = jmin_list validValues,
           fr_max = jmax_list validValues, fr_change = (final - prev) / \<bar>jor prev 1\<bar> * 100,
           fr_signal = formula_signal_of final prev, fr_n = n\<rparr>)"

definition formula_ctx_of :: "candle list \<Rightarrow> formula_ctx" where
  "formula_ctx_of cs =
     \<lparr>fc_len = length cs,
      fc_vars = [(''closes'', map cd_close cs), (''highs'', map cd_high cs), (''lows'', map cd_low cs),
        (''volumes'', map (\<lambda>c. jor (cd_volume c) 0) cs), (''open'', map cd_open cs)]\<rparr>"

definition formula_panel :: "candle list \<Rightarrow> string \<Rightarrow> string \<Rightarrow> string \<Rightarrow> formula_outcome option" where
  "formula_panel candles exchange symbol formula =
     (let symCandles = slice_last 100 (filter (\<lambda>c. cd_exchange c = exchange \<and> cd_symbol c = symbol) candles)
      in if length symCandles < 30 then None
         else
           let ctx = formula_ctx_of symCandles
           in Some (case and_then (parse_formula ctx formula) (evalAST ctx) of
                Inl e \<Rightarrow> FormulaError e
              | Inr values \<Rightarrow> summarize (length symCandles) values))"

definition default_formula :: string where
  "default_formula = ''EMA(closes, 9) - EMA(closes, 21)''"

end
