(* ===== verification/FormulaLaws.thy ===== *)
theory FormulaLaws
  imports FormulaParser IndicatorLaws
begin

text \<open>
  Laws of \<open>FormulaParser\<close>: the fuel is always enough and does not matter, printing a formula and parsing it gives
  it back, and the arguments meant as periods have no effect, so that the panel's default formula is
  constantly zero.
\<close>

section \<open>Progress and fuel\<close>

lemma and_then_simps [simp]: "and_then (Inl e) f = Inl e" "and_then (Inr a) f = f a"
  by (simp_all add: and_then_def)

lemma and_then_Inr: "and_then r f = Inr x \<longleftrightarrow> (\<exists>a. r = Inr a \<and> f a = Inr x)"
  by (cases r) simp_all

lemma and_then_Inl: "and_then r f = Inl e \<longleftrightarrow> r = Inl e \<or> (\<exists>a. r = Inr a \<and> f a = Inl e)"
  by (cases r) simp_all

lemmas and_then_cases = and_then_Inr and_then_Inl

text \<open>A result that is not for want of fuel and leaves at most \<open>m\<close> tokens; a parser that gives such a result,
  with a token consumed, on inputs shorter than \<open>n\<close>.\<close>

definition leaves :: "formula_error + 'a \<times> token list \<Rightarrow> nat \<Rightarrow> bool" where
  "leaves r m \<longleftrightarrow> (case r of Inl e \<Rightarrow> e \<noteq> OutOfFuel | Inr (a, rest) \<Rightarrow> length rest \<le> m)"

definition fueled :: "(token list \<Rightarrow> formula_error + 'a \<times> token list) \<Rightarrow> nat \<Rightarrow> bool" where
  "fueled p n \<longleftrightarrow> (\<forall>ts. length ts < n \<longrightarrow> leaves (p ts) (length ts - 1))"

lemma leaves_simps [simp]: "leaves (Inl e) m \<longleftrightarrow> e \<noteq> OutOfFuel" "leaves (Inr (a, rest)) m \<longleftrightarrow> length rest \<le> m"
  by (simp_all add: leaves_def)

lemma leaves_then:
  assumes "leaves r m" "\<And>a rest. length rest \<le> m \<Longrightarrow> leaves (f a rest) m'"
  shows "leaves (and_then r (\<lambda>(a, rest). f a rest)) m'"
  using assms by (cases r) auto

lemma leaves_mono: "leaves r m \<Longrightarrow> m \<le> m' \<Longrightarrow> leaves r m'"
  by (auto simp: leaves_def split: sum.splits)

lemma leaves_close: "e \<noteq> OutOfFuel \<Longrightarrow> length ts \<le> Suc m \<Longrightarrow> leaves (close_paren ts a e) m"
  by (auto simp: close_paren_def)

lemma fueledD: "fueled p n \<Longrightarrow> length ts < n \<Longrightarrow> leaves (p ts) (length ts - 1)"
  by (simp add: fueled_def)

lemma argsLoop_leaves:
  assumes "fueled expr n"
  shows "length ts \<le> n \<Longrightarrow> length ts < k \<Longrightarrow> leaves (argsLoop k expr args ts) (length ts)"
proof (induction k arbitrary: args ts)
  case (Suc k)
  show ?case
  proof (cases "\<exists>ts'. ts = TComma # ts'")
    case True
    then obtain ts' where ts: "ts = TComma # ts'" by blast
    have "leaves (argsLoop k expr as rest) (length ts)" if "length rest \<le> length ts' - 1" for as rest
      using Suc.prems that ts by (intro leaves_mono [OF Suc.IH]) auto
    then show ?thesis using fueledD [OF assms, of ts'] Suc.prems ts by (auto intro!: leaves_then)
  qed (auto split: list.splits token.splits)
qed simp

lemma parseArgs_leaves:
  assumes "fueled expr n" "length ts < n"
  shows "leaves (parseArgs expr ts) (length ts)"
  using assms fueledD [OF assms]
  by (auto simp: parseArgs_def simp del: argsLoop.simps intro!: leaves_then leaves_mono [OF argsLoop_leaves [OF assms(1)]])

lemma parsePrimary_fueled:
  assumes "fueled expr n"
  shows "fueled (parsePrimary expr ctx) (Suc n)"
  unfolding fueled_def
proof (intro allI impI)
  fix ts :: "token list" assume ts: "length ts < Suc n"
  show "leaves (parsePrimary expr ctx ts) (length ts - 1)"
  proof (cases ts)
    case (Cons t ts')
    show ?thesis
    proof (cases t)
      case (TFunc f)
      have "length (tl ts') < n \<or> ts' = []" using ts Cons by (cases ts') auto
      then show ?thesis using Cons TFunc
        by (auto simp: parsePrimary_def intro!: leaves_then [OF parseArgs_leaves [OF assms]] leaves_close)
    next
      case (TOp op)
      have "leaves (expr ts') (length ts' - 1)" using fueledD [OF assms, of ts'] ts Cons by simp
      then show ?thesis using Cons TOp by (auto simp: parsePrimary_def intro!: leaves_then leaves_close)
    qed (use Cons in \<open>simp_all add: parsePrimary_def\<close>)
  qed (simp add: parsePrimary_def)
qed

lemma mulDivLoop_leaves:
  assumes "fueled expr n"
  shows "length ts \<le> Suc n \<Longrightarrow> length ts < k \<Longrightarrow> leaves (mulDivLoop k expr ctx e ts) (length ts)"
proof (induction k arbitrary: e ts)
  case (Suc k)
  show ?case
  proof (cases "\<exists>op ts'. ts = TOp op # ts'")
    case True
    then obtain op ts' where ts: "ts = TOp op # ts'" by blast
    have "leaves (mulDivLoop k expr ctx d rest) (length ts)" if "length rest \<le> length ts' - 1" for d rest
      using Suc.prems that ts by (intro leaves_mono [OF Suc.IH]) auto
    then show ?thesis
      using fueledD [OF parsePrimary_fueled [OF assms], of ts' ctx] Suc.prems ts by (auto intro!: leaves_then)
  qed (auto split: list.splits token.splits)
qed simp

lemma parseMulDiv_fueled:
  assumes "fueled expr n"
  shows "fueled (parseMulDiv expr ctx) (Suc n)"
  using fueledD [OF parsePrimary_fueled [OF assms]] unfolding fueled_def parseMulDiv_def
  by (auto simp del: mulDivLoop.simps intro!: leaves_then leaves_mono [OF mulDivLoop_leaves [OF assms]])

lemma addSubLoop_leaves:
  assumes "fueled expr n"
  shows "length ts \<le> Suc n \<Longrightarrow> length ts < k \<Longrightarrow> leaves (addSubLoop k expr ctx e ts) (length ts)"
proof (induction k arbitrary: e ts)
  case (Suc k)
  show ?case
  proof (cases "\<exists>op ts'. ts = TOp op # ts'")
    case True
    then obtain op ts' where ts: "ts = TOp op # ts'" by blast
    have "leaves (addSubLoop k expr ctx d rest) (length ts)" if "length rest \<le> length ts' - 1" for d rest
      using Suc.prems that ts by (intro leaves_mono [OF Suc.IH]) auto
    then show ?thesis
      using fueledD [OF parseMulDiv_fueled [OF assms], of ts' ctx] Suc.prems ts by (auto intro!: leaves_then)
  qed (auto split: list.splits token.splits)
qed simp

lemma parseAddSub_fueled: "fueled (parseAddSub k ctx) k"
proof (induction k)
  case (Suc k)
  then show ?case
    using fueledD [OF parseMulDiv_fueled [OF Suc]] unfolding fueled_def parseAddSub.simps
    by (auto simp del: addSubLoop.simps intro!: leaves_then leaves_mono [OF addSubLoop_leaves [OF Suc]])
qed (simp add: fueled_def)

text \<open>More fuel does not change the result.\<close>

definition agree :: "(token list \<Rightarrow> 'a) \<Rightarrow> (token list \<Rightarrow> 'a) \<Rightarrow> nat \<Rightarrow> bool" where
  "agree p q n \<longleftrightarrow> (\<forall>ts. length ts < n \<longrightarrow> p ts = q ts)"

lemma same_resultD: "agree p q n \<Longrightarrow> length ts < n \<Longrightarrow> q ts = p ts"
  by (simp add: agree_def)

lemma then_agree:
  assumes "leaves r m" "\<And>a rest. length rest \<le> m \<Longrightarrow> f a rest = g a rest"
  shows "and_then r (\<lambda>(a, rest). f a rest) = and_then r (\<lambda>(a, rest). g a rest)"
  using assms by (cases r) auto

lemma argsLoop_agree:
  assumes "fueled p n" "agree p q n"
  shows "length ts \<le> n \<Longrightarrow> argsLoop k p args ts = argsLoop k q args ts"
proof (induction k arbitrary: args ts)
  case (Suc k)
  show ?case
  proof (cases "\<exists>ts'. ts = TComma # ts'")
    case True
    then obtain ts' where ts: "ts = TComma # ts'" by blast
    then have l: "length ts' < n" using Suc.prems by simp
    have "argsLoop k p as rest = argsLoop k q as rest" if "length rest \<le> length ts' - 1" for as rest
      using Suc.prems that ts by (intro Suc.IH) auto
    then show ?thesis using ts same_resultD [OF assms(2) l] by (auto intro: then_agree [OF fueledD [OF assms(1) l]])
  qed (auto split: list.splits token.splits)
qed simp

lemma parsePrimary_agree:
  assumes "fueled p n" "agree p q n"
  shows "agree (parsePrimary p ctx) (parsePrimary q ctx) (Suc n)"
  unfolding agree_def
proof (intro allI impI)
  fix ts :: "token list" assume ts: "length ts < Suc n"
  have args: "parseArgs p us = parseArgs q us" if "length us < n" for us
    using same_resultD [OF assms(2) that] that argsLoop_agree [OF assms]
    by (auto simp: parseArgs_def simp del: argsLoop.simps intro!: then_agree [OF fueledD [OF assms(1) that]])
  show "parsePrimary p ctx ts = parsePrimary q ctx ts"
  proof (cases ts)
    case (Cons t ts')
    then have l: "length ts' < n" "length (tl ts') < n" using ts by auto
    then show ?thesis
      using Cons args same_resultD [OF assms(2)] by (auto simp: parsePrimary_def split: token.splits)
  qed (simp add: parsePrimary_def)
qed

lemma mulDivLoop_agree:
  assumes "fueled p n" "agree p q n"
  shows "length ts \<le> Suc n \<Longrightarrow> mulDivLoop k p ctx e ts = mulDivLoop k q ctx e ts"
proof (induction k arbitrary: e ts)
  case (Suc k)
  show ?case
  proof (cases "\<exists>op ts'. ts = TOp op # ts'")
    case True
    then obtain op ts' where ts: "ts = TOp op # ts'" by blast
    then have l: "length ts' < Suc n" using Suc.prems by simp
    have "mulDivLoop k p ctx d rest = mulDivLoop k q ctx d rest" if "length rest \<le> length ts' - 1" for d rest
      using Suc.prems that ts by (intro Suc.IH) auto
    then show ?thesis
      using ts same_resultD [OF parsePrimary_agree [OF assms] l]
      by (auto intro: then_agree [OF fueledD [OF parsePrimary_fueled [OF assms(1)] l]])
  qed (auto split: list.splits token.splits)
qed simp

lemma parseMulDiv_agree:
  assumes "fueled p n" "agree p q n"
  shows "agree (parseMulDiv p ctx) (parseMulDiv q ctx) (Suc n)"
  unfolding agree_def parseMulDiv_def
proof (intro allI impI)
  fix ts :: "token list" assume l: "length ts < Suc n"
  show "and_then (parsePrimary p ctx ts) (\<lambda>(e, rest). mulDivLoop (length rest + 1) p ctx e rest) =
      and_then (parsePrimary q ctx ts) (\<lambda>(e, rest). mulDivLoop (length rest + 1) q ctx e rest)"
    unfolding same_resultD [OF parsePrimary_agree [OF assms] l]
    using l by (intro then_agree [OF fueledD [OF parsePrimary_fueled [OF assms(1)] l]] mulDivLoop_agree [OF assms]) auto
qed

lemma addSubLoop_agree:
  assumes "fueled p n" "agree p q n"
  shows "length ts \<le> Suc n \<Longrightarrow> addSubLoop k p ctx e ts = addSubLoop k q ctx e ts"
proof (induction k arbitrary: e ts)
  case (Suc k)
  show ?case
  proof (cases "\<exists>op ts'. ts = TOp op # ts'")
    case True
    then obtain op ts' where ts: "ts = TOp op # ts'" by blast
    then have l: "length ts' < Suc n" using Suc.prems by simp
    have "addSubLoop k p ctx d rest = addSubLoop k q ctx d rest" if "length rest \<le> length ts' - 1" for d rest
      using Suc.prems that ts by (intro Suc.IH) auto
    then show ?thesis
      using ts same_resultD [OF parseMulDiv_agree [OF assms] l]
      by (auto intro: then_agree [OF fueledD [OF parseMulDiv_fueled [OF assms(1)] l]])
  qed (auto split: list.splits token.splits)
qed simp

lemma parseAddSub_agree: "k \<le> k' \<Longrightarrow> agree (parseAddSub k ctx) (parseAddSub k' ctx) k"
proof (induction k arbitrary: k')
  case (Suc k)
  then obtain j where j: "k' = Suc j" "k \<le> j" by (cases k') auto
  note ok = parseAddSub_fueled [of k ctx] and same = Suc.IH [OF j(2)]
  show ?case
    unfolding agree_def
  proof (intro allI impI)
    fix ts :: "token list" assume l: "length ts < Suc k"
    show "parseAddSub (Suc k) ctx ts = parseAddSub k' ctx ts"
      unfolding j(1) parseAddSub.simps same_resultD [OF parseMulDiv_agree [OF ok same] l]
      using l by (intro then_agree [OF fueledD [OF parseMulDiv_fueled [OF ok] l]] addSubLoop_agree [OF ok same]) auto
  qed
qed (simp add: agree_def)

lemma parseAddSub_enough: "length ts < k \<Longrightarrow> parseAddSub k ctx ts = parseExpression ctx ts"
  using same_resultD [OF parseAddSub_agree [of "parse_fuel ts" k ctx], of ts] by (simp add: parseExpression_def parse_fuel_def)

section \<open>Printing and reading\<close>

text \<open>
  A formula is printed with parentheses around an operand only where precedence or left association needs them: around a sum or a
  difference that is multiplied, divided or subtracted, and around any operation on the right of \<open>*\<close> or \<open>/\<close>. The argument \<open>extra\<close>
  says which further operands get redundant parentheses. Numbers are natural.
\<close>

definition op_rank :: "char \<Rightarrow> nat" where
  "op_rank c = (if c = CHR ''*'' \<or> c = CHR ''/'' then 1 else 0)"

fun rank :: "ast \<Rightarrow> nat" where
  "rank (BinOp c l r) = op_rank c"
| "rank e = 2"

definition wraps :: "(ast \<Rightarrow> bool) \<Rightarrow> nat \<Rightarrow> ast \<Rightarrow> bool" where
  "wraps extra m e \<longleftrightarrow> rank e < m \<or> extra e"

fun join_args :: "string list \<Rightarrow> string" where
  "join_args [] = []"
| "join_args [a] = a"
| "join_args (a # as) = a @ '','' @ join_args as"

fun print_formula :: "(ast \<Rightarrow> bool) \<Rightarrow> ast \<Rightarrow> string" where
  "print_formula extra (Num v) = (case v of Fin r \<Rightarrow> show_nat (nat \<lfloor>r\<rfloor>) | _ \<Rightarrow> ''.'')"
| "print_formula extra (Var x) = x"
| "print_formula extra (BinOp c l r) =
     (if wraps extra (op_rank c) l then ''('' @ print_formula extra l @ '')'' else print_formula extra l) @ [c] @
     (if wraps extra (Suc (op_rank c)) r then ''('' @ print_formula extra r @ '')'' else print_formula extra r)"
| "print_formula extra (Func f args) = f @ ''('' @ join_args (map (print_formula extra) args) @ '')''"

definition valid_name :: "string \<Rightarrow> bool" where
  "valid_name x \<longleftrightarrow> x \<noteq> [] \<and> is_name_start (hd x) \<and> list_all is_name_char x"

fun printable :: "formula_ctx \<Rightarrow> ast \<Rightarrow> bool" where
  "printable ctx (Num v) \<longleftrightarrow> (\<exists>n. v = Fin (real n))"
| "printable ctx (Var x) \<longleftrightarrow> valid_name x \<and> map_has (fc_vars ctx) x"
| "printable ctx (BinOp c l r) \<longleftrightarrow> c \<in> set ''+-*/'' \<and> printable ctx l \<and> printable ctx r"
| "printable ctx (Func f args) \<longleftrightarrow> valid_name f \<and> f \<in> set own_functions \<and> (\<forall>a \<in> set args. printable ctx a)"

fun join_tokens :: "token list list \<Rightarrow> token list" where
  "join_tokens [] = []"
| "join_tokens [a] = a"
| "join_tokens (a # as) = a @ TComma # join_tokens as"

abbreviation parens :: "token list \<Rightarrow> token list" where
  "parens ts \<equiv> TOp (CHR ''('') # ts @ [TOp (CHR '')'')]"

fun tokens_of :: "(ast \<Rightarrow> bool) \<Rightarrow> ast \<Rightarrow> token list" where
  "tokens_of extra (Num v) = [TNum v]"
| "tokens_of extra (Var x) = [TVar x]"
| "tokens_of extra (BinOp c l r) =
     (if wraps extra (op_rank c) l then parens (tokens_of extra l) else tokens_of extra l) @ TOp c #
     (if wraps extra (Suc (op_rank c)) r then parens (tokens_of extra r) else tokens_of extra r)"
| "tokens_of extra (Func f args) = TFunc f # parens (join_tokens (map (tokens_of extra) args))"

definition operand :: "(ast \<Rightarrow> bool) \<Rightarrow> nat \<Rightarrow> ast \<Rightarrow> token list" where
  "operand extra m e = (if wraps extra m e then parens (tokens_of extra e) else tokens_of extra e)"

lemma tokens_BinOp: "tokens_of extra (BinOp c l r) = operand extra (op_rank c) l @ TOp c # operand extra (Suc (op_rank c)) r"
  by (simp add: operand_def)

text \<open>Tokenizing what was printed, in front of a delimiter.\<close>

definition delimited :: "string \<Rightarrow> bool" where
  "delimited s \<longleftrightarrow> s = [] \<or> hd s \<in> set ''+-*/),''"

lemma delimited_head:
  "delimited s \<Longrightarrow> takeWhile is_num_char s = [] \<and> dropWhile is_num_char s = s \<and>
    takeWhile is_name_char s = [] \<and> dropWhile is_name_char s = s \<and> take 1 s \<noteq> ''(''"
  by (cases s) (auto simp: delimited_def is_num_char_def is_name_char_def is_name_start_def Let_def)

lemma delimited_simps [simp]: "delimited []" "delimited (c # s) \<longleftrightarrow> c \<in> set ''+-*/),''"
  by (simp_all add: delimited_def)

lemma takeWhile_all: "list_all P xs \<Longrightarrow> takeWhile P (xs @ ys) = xs @ takeWhile P ys \<and> dropWhile P (xs @ ys) = dropWhile P ys"
  by (induction xs) auto

lemma digits_num: "list_all is_digit (show_nat n)"
proof -
  have "\<forall>c \<in> set ''0123456789''. is_digit c" by (simp add: is_digit_def is_num_char_def)
  then show ?thesis using show_nat_digits [of n] by (auto simp: list_all_iff)
qed

lemma parse_float_nat: "parse_float (show_nat n) = Fin (real n)"
proof -
  have "takeWhile is_digit (show_nat n) = show_nat n \<and> dropWhile is_digit (show_nat n) = []"
    using takeWhile_all [OF digits_num, of n "[]"] by (simp only: append_Nil2 takeWhile.simps dropWhile.simps)
  note e = conjunct1 [OF this] conjunct2 [OF this]
  show ?thesis unfolding parse_float_def Let_def e by (simp add: read_show_nat) (simp add: read_nat_def)
qed

lemma tokenize_num:
  assumes "delimited s"
  shows "tokenize (show_nat n @ s) = TNum (Fin (real n)) # tokenize s"
proof -
  obtain c cs where c: "show_nat n = c # cs" by (cases "show_nat n") auto
  have "list_all is_num_char (show_nat n)" using digits_num [of n] by (auto simp: list_all_iff is_digit_def)
  then have n: "takeWhile is_num_char (cs @ s) = cs" "dropWhile is_num_char (cs @ s) = s" "is_num_char c"
    using takeWhile_all [of is_num_char cs s] delimited_head [OF assms] by (simp_all add: c)
  have "is_digit c" using digits_num [of n] by (simp add: c)
  then have "c \<noteq> CHR '' ''" "c \<notin> set OPERATORS" by (auto simp: is_digit_def is_num_char_def OPERATORS_def)
  then show ?thesis using n parse_float_nat [of n] by (simp add: c)
qed

lemma tokenize_name:
  assumes "valid_name x"
  shows "delimited s \<Longrightarrow> tokenize (x @ s) = TVar x # tokenize s"
    and "tokenize (x @ CHR ''('' # s) = TFunc x # TOp (CHR ''('') # tokenize s"
proof -
  obtain c cs where c: "x = c # cs" "is_name_start c" "list_all is_name_char cs"
    using assms by (cases x) (auto simp: valid_name_def)
  have n: "c \<noteq> CHR '' ''" "c \<notin> set OPERATORS" "\<not> is_num_char c"
    using c(2) by (auto simp: is_name_start_def is_num_char_def OPERATORS_def Let_def)
  show "tokenize (x @ s) = TVar x # tokenize s" if "delimited s"
    using takeWhile_all [OF c(3), of s] delimited_head [OF that] n c(2) by (simp add: c(1) Let_def)
  have "\<not> is_name_char (CHR ''('')" by (simp add: is_name_char_def is_name_start_def)
  then show "tokenize (x @ CHR ''('' # s) = TFunc x # TOp (CHR ''('') # tokenize s"
    using takeWhile_all [OF c(3), of "CHR ''('' # s"] n c(2) by (simp add: c(1) Let_def OPERATORS_def)
qed

lemma tokenize_op: "c \<in> set OPERATORS \<Longrightarrow> tokenize (c # s) = TOp c # tokenize s"
  by (auto simp: OPERATORS_def)

lemma tokenize_comma: "tokenize (CHR '','' # s) = TComma # tokenize s"
  by (simp add: OPERATORS_def is_num_char_def is_name_start_def)

declare tokenize.simps(2) [simp del]

lemma tokenize_join:
  assumes "\<And>a s. a \<in> set args \<Longrightarrow> delimited s \<Longrightarrow> tokenize (print_formula extra a @ s) = tokens_of extra a @ tokenize s" "delimited s"
  shows "tokenize (join_args (map (print_formula extra) args) @ s) = join_tokens (map (tokens_of extra) args) @ tokenize s"
  using assms
proof (induction args rule: induct_list012)
  case (3 a b bs)
  then show ?case by (simp add: tokenize_comma)
qed simp_all

lemma tokenize_paren:
  "tokenize (CHR ''('' # s) = TOp (CHR ''('') # tokenize s" "tokenize (CHR '')'' # s) = TOp (CHR '')'') # tokenize s"
  by (simp_all add: tokenize_op OPERATORS_def)

lemma tokenize_print:
  "printable ctx e \<Longrightarrow> delimited s \<Longrightarrow> tokenize (print_formula extra e @ s) = tokens_of extra e @ tokenize s"
proof (induction e arbitrary: s)
  case (Num v)
  then show ?case by (auto simp: tokenize_num)
next
  case (Var x)
  then show ?case by (simp add: tokenize_name)
next
  case (BinOp c l r)
  then have c: "c \<in> set OPERATORS" "c \<in> set ''+-*/),''" by (auto simp: OPERATORS_def)
  have l: "tokenize (print_formula extra l @ d # s') = tokens_of extra l @ tokenize (d # s')" if "d \<in> set ''+-*/),''" for d s'
    using BinOp.prems that by (intro BinOp.IH(1)) simp_all
  have r: "tokenize (print_formula extra r @ s') = tokens_of extra r @ tokenize s'" if "delimited s'" for s'
    using BinOp.prems that by (intro BinOp.IH(2)) simp_all
  show ?case using l c r BinOp.prems(2) by (simp add: tokenize_op [OF c(1)] tokenize_paren)
next
  case (Func f args)
  have "tokenize (join_args (map (print_formula extra) args) @ CHR '')'' # s) =
      join_tokens (map (tokens_of extra) args) @ tokenize (CHR '')'' # s)"
    using Func by (intro tokenize_join) auto
  then show ?case using Func.prems by (simp add: tokenize_name(2)) (simp add: tokenize_op OPERATORS_def)
qed

text \<open>Parsing the tokens of a formula, in front of tokens that end an operand.\<close>

definition stops :: "token list \<Rightarrow> bool" where
  "stops ts \<longleftrightarrow> (\<forall>c \<in> set ''+-*/''. take 1 ts \<noteq> [TOp c])"

lemma stops_simps [simp]: "stops (TComma # ts)" "stops (TOp c # ts) \<longleftrightarrow> c \<notin> set ''+-*/''" "stops []"
  by (auto simp: stops_def)

lemma loops_stop:
  assumes "stops ts" "0 < k"
  shows "mulDivLoop k p ctx e ts = Inr (e, ts)" "addSubLoop k p ctx e ts = Inr (e, ts)"
  using assms by (cases k; cases ts; auto split: token.splits)+

lemma add_of_primary:
  assumes "parsePrimary (parseAddSub k ctx) ctx ts = Inr (e, rest)" "stops rest"
  shows "parseAddSub (Suc k) ctx ts = Inr (e, rest)"
  using assms by (simp add: parseMulDiv_def loops_stop del: mulDivLoop.simps addSubLoop.simps)

lemma add_of_binop:
  assumes "c \<in> set ''+-*/''"
    and "parsePrimary (parseAddSub k ctx) ctx ts = Inr (l, TOp c # ts')"
    and "parsePrimary (parseAddSub k ctx) ctx ts' = Inr (r, rest)" "stops rest"
  shows "parseAddSub (Suc k) ctx ts = Inr (BinOp c l r, rest)"
proof (cases "c \<in> {CHR ''*'', CHR ''/''}")
  case True
  have "mulDivLoop (Suc (Suc n)) p ctx l (TOp c # ts') = and_then (parsePrimary p ctx ts')
      (\<lambda>(right, rest). mulDivLoop (Suc n) p ctx (BinOp c l right) rest)" for n p
    using True by (subst mulDivLoop.simps) auto
  then show ?thesis using assms by (simp add: parseMulDiv_def loops_stop del: mulDivLoop.simps addSubLoop.simps)
next
  case False
  then have c: "c \<in> {CHR ''+'', CHR ''-''}" using assms(1) by auto
  have "addSubLoop (Suc (Suc n)) p ctx l (TOp c # ts') = and_then (parseMulDiv p ctx ts')
      (\<lambda>(right, rest). addSubLoop (Suc n) p ctx (BinOp c l right) rest)" for n p
    using c by (subst addSubLoop.simps) auto
  moreover have "mulDivLoop (Suc n) p ctx l (TOp c # ts') = Inr (l, TOp c # ts')" for n p using c by auto
  ultimately show ?thesis using assms by (simp add: parseMulDiv_def loops_stop del: mulDivLoop.simps addSubLoop.simps)
qed

lemma join_tokens_Cons: "join_tokens (a # as) = a @ concat (map (\<lambda>t. TComma # t) as)"
  by (induction as arbitrary: a) auto

lemma tokens_head: "tokens_of extra e \<noteq> [] \<and> hd (tokens_of extra e) \<noteq> TOp (CHR '')'')"
  by (induction e) (simp_all add: hd_append)

lemma tokens_first: "\<not> (tokens_of extra e @ ts = [] \<or> take 1 (tokens_of extra e @ ts) = [TOp (CHR '')'')])"
  using tokens_head [of extra e] by (cases "tokens_of extra e") simp_all

lemma parse_args:
  assumes "\<And>a rest. a \<in> set args \<Longrightarrow> length (tokens_of extra a @ rest) \<le> k \<Longrightarrow> stops rest \<Longrightarrow>
      parseAddSub (Suc k) ctx (tokens_of extra a @ rest) = Inr (a, rest)"
    and "length (join_tokens (map (tokens_of extra) args) @ TOp (CHR '')'') # rest) \<le> k"
  shows "parseArgs (parseAddSub (Suc k) ctx) (join_tokens (map (tokens_of extra) args) @ TOp (CHR '')'') # rest) =
    Inr (args, TOp (CHR '')'') # rest)"
proof (cases args)
  case Nil
  then show ?thesis by (simp add: parseArgs_def)
next
  case (Cons a as)
  let ?tail = "\<lambda>as. concat (map (\<lambda>a. TComma # tokens_of extra a) as) @ TOp (CHR '')'') # rest"
  have stop: "stops (?tail as)" for as by (cases as) simp_all
  have loop: "argsLoop n (parseAddSub (Suc k) ctx) acc (?tail as) = Inr (acc @ as, TOp (CHR '')'') # rest)"
    if "set as \<subseteq> set args" "length (?tail as) \<le> k" "length as < n" for n as acc
    using that
  proof (induction as arbitrary: acc n)
    case Nil
    then show ?case by (cases n) simp_all
  next
    case (Cons b bs)
    then obtain m where m: "n = Suc m" by (cases n) auto
    have "parseAddSub (Suc k) ctx (tokens_of extra b @ ?tail bs) = Inr (b, ?tail bs)"
      using Cons.prems by (intro assms(1) stop) auto
    then show ?case using Cons by (simp add: m)
  qed
  have ts: "join_tokens (map (tokens_of extra) args) @ TOp (CHR '')'') # rest = tokens_of extra a @ ?tail as"
    unfolding Cons by (simp add: join_tokens_Cons comp_def)
  have "parseAddSub (Suc k) ctx (tokens_of extra a @ ?tail as) = Inr (a, ?tail as)"
    using assms(2) Cons unfolding ts by (intro assms(1) stop) auto
  moreover have "length as < length (?tail as) + 1" by (induction as) simp_all
  ultimately show ?thesis
    using assms(2) loop [of as "length (?tail as) + 1" "[a]"] Cons unfolding ts parseArgs_def if_not_P [OF tokens_first]
    by (auto simp del: parseAddSub.simps argsLoop.simps)
qed

text \<open>
  What the loops of the parser do with the tokens of a formula: the first operand \<open>x\<close> is read, and then some number \<open>j\<close> of rounds
  build the formula from the left, whatever fuel is left for the rest.
\<close>

definition reads_term :: "nat \<Rightarrow> formula_ctx \<Rightarrow> token list \<Rightarrow> ast \<Rightarrow> token list \<Rightarrow> bool" where
  "reads_term k ctx ts e rest \<longleftrightarrow> (\<exists>x ts' j. parsePrimary (parseAddSub k ctx) ctx ts = Inr (x, ts') \<and> j + length rest \<le> length ts' \<and>
     (\<forall>n. mulDivLoop (n + j) (parseAddSub k ctx) ctx x ts' = mulDivLoop n (parseAddSub k ctx) ctx e rest))"

definition reads_sum :: "nat \<Rightarrow> formula_ctx \<Rightarrow> token list \<Rightarrow> ast \<Rightarrow> token list \<Rightarrow> bool" where
  "reads_sum k ctx ts e rest \<longleftrightarrow> (\<exists>x ts' j. parseMulDiv (parseAddSub k ctx) ctx ts = Inr (x, ts') \<and> j + length rest \<le> length ts' \<and>
     (\<forall>n. addSubLoop (n + j) (parseAddSub k ctx) ctx x ts' = addSubLoop n (parseAddSub k ctx) ctx e rest))"

definition no_factor :: "token list \<Rightarrow> bool" where
  "no_factor ts \<longleftrightarrow> take 1 ts \<noteq> [TOp (CHR ''*'')] \<and> take 1 ts \<noteq> [TOp (CHR ''/'')]"

lemma mulDivLoop_stop: "no_factor ts \<Longrightarrow> 0 < n \<Longrightarrow> mulDivLoop n p ctx e ts = Inr (e, ts)"
  by (cases n; cases ts) (auto simp: no_factor_def split: token.splits)

lemma mulDivLoop_round:
  "c \<in> {CHR ''*'', CHR ''/''} \<Longrightarrow> parsePrimary p ctx ts = Inr (r, rest) \<Longrightarrow>
   mulDivLoop (Suc n) p ctx l (TOp c # ts) = mulDivLoop n p ctx (BinOp c l r) rest"
  by (subst mulDivLoop.simps) auto

lemma addSubLoop_round:
  "c \<in> {CHR ''+'', CHR ''-''} \<Longrightarrow> parseMulDiv p ctx ts = Inr (r, rest) \<Longrightarrow>
   addSubLoop (Suc n) p ctx l (TOp c # ts) = addSubLoop n p ctx (BinOp c l r) rest"
  by (subst addSubLoop.simps) auto

lemma reads_term_primary:
  "parsePrimary (parseAddSub k ctx) ctx ts = Inr (e, rest) \<Longrightarrow> reads_term k ctx ts e rest"
  unfolding reads_term_def by (intro exI [of _ e] exI [of _ rest] exI [of _ 0]) simp

lemma reads_term_round:
  assumes "reads_term k ctx ts l (TOp c # us)" "c \<in> {CHR ''*'', CHR ''/''}"
    "parsePrimary (parseAddSub k ctx) ctx us = Inr (r, rest)" "length rest \<le> length us"
  shows "reads_term k ctx ts (BinOp c l r) rest"
proof -
  obtain x ts' j where x: "parsePrimary (parseAddSub k ctx) ctx ts = Inr (x, ts')" "j + length (TOp c # us) \<le> length ts'"
      "\<And>n. mulDivLoop (n + j) (parseAddSub k ctx) ctx x ts' = mulDivLoop n (parseAddSub k ctx) ctx l (TOp c # us)"
    using assms(1) by (auto simp: reads_term_def)
  have "mulDivLoop (n + Suc j) (parseAddSub k ctx) ctx x ts' = mulDivLoop n (parseAddSub k ctx) ctx (BinOp c l r) rest" for n
    using x(3) [of "Suc n"] mulDivLoop_round [OF assms(2,3)] by (simp del: mulDivLoop.simps)
  then show ?thesis
    unfolding reads_term_def using x(1,2) assms(4) by (intro exI [of _ x] exI [of _ ts'] exI [of _ "Suc j"]) auto
qed

lemma parseMulDiv_term:
  assumes "reads_term k ctx ts e rest" "no_factor rest"
  shows "parseMulDiv (parseAddSub k ctx) ctx ts = Inr (e, rest)"
proof -
  obtain x ts' j where x: "parsePrimary (parseAddSub k ctx) ctx ts = Inr (x, ts')" "j + length rest \<le> length ts'"
      "\<And>n. mulDivLoop (n + j) (parseAddSub k ctx) ctx x ts' = mulDivLoop n (parseAddSub k ctx) ctx e rest"
    using assms(1) by (auto simp: reads_term_def)
  have "length ts' + 1 = (length ts' + 1 - j) + j" "0 < length ts' + 1 - j" using x(2) by simp_all
  then have "mulDivLoop (length ts' + 1) (parseAddSub k ctx) ctx x ts' = Inr (e, rest)"
    using x(3) [of "length ts' + 1 - j"] mulDivLoop_stop [OF assms(2)] by metis
  then show ?thesis by (simp add: parseMulDiv_def x(1) del: mulDivLoop.simps)
qed

lemma reads_sum_term:
  "parseMulDiv (parseAddSub k ctx) ctx ts = Inr (e, rest) \<Longrightarrow> reads_sum k ctx ts e rest"
  unfolding reads_sum_def by (intro exI [of _ e] exI [of _ rest] exI [of _ 0]) simp

lemma reads_sum_round:
  assumes "reads_sum k ctx ts l (TOp c # us)" "c \<in> {CHR ''+'', CHR ''-''}"
    "parseMulDiv (parseAddSub k ctx) ctx us = Inr (r, rest)" "length rest \<le> length us"
  shows "reads_sum k ctx ts (BinOp c l r) rest"
proof -
  obtain x ts' j where x: "parseMulDiv (parseAddSub k ctx) ctx ts = Inr (x, ts')" "j + length (TOp c # us) \<le> length ts'"
      "\<And>n. addSubLoop (n + j) (parseAddSub k ctx) ctx x ts' = addSubLoop n (parseAddSub k ctx) ctx l (TOp c # us)"
    using assms(1) by (auto simp: reads_sum_def)
  have "addSubLoop (n + Suc j) (parseAddSub k ctx) ctx x ts' = addSubLoop n (parseAddSub k ctx) ctx (BinOp c l r) rest" for n
    using x(3) [of "Suc n"] addSubLoop_round [OF assms(2,3)] by (simp del: addSubLoop.simps)
  then show ?thesis
    unfolding reads_sum_def using x(1,2) assms(4) by (intro exI [of _ x] exI [of _ ts'] exI [of _ "Suc j"]) auto
qed

lemma parseAddSub_sum:
  assumes "reads_sum k ctx ts e rest" "stops rest"
  shows "parseAddSub (Suc k) ctx ts = Inr (e, rest)"
proof -
  obtain x ts' j where x: "parseMulDiv (parseAddSub k ctx) ctx ts = Inr (x, ts')" "j + length rest \<le> length ts'"
      "\<And>n. addSubLoop (n + j) (parseAddSub k ctx) ctx x ts' = addSubLoop n (parseAddSub k ctx) ctx e rest"
    using assms(1) by (auto simp: reads_sum_def)
  have "length ts' + 1 = (length ts' + 1 - j) + j" "0 < length ts' + 1 - j" using x(2) by simp_all
  then have "addSubLoop (length ts' + 1) (parseAddSub k ctx) ctx x ts' = Inr (e, rest)"
    using x(3) [of "length ts' + 1 - j"] loops_stop(2) [OF assms(2)] by metis
  then show ?thesis by (simp add: x(1) del: addSubLoop.simps)
qed

text \<open>
  The tokens of a formula at the three levels of the grammar, and an operand of an operation: in parentheses it is a primary,
  without them its rank is high enough for its place.
\<close>

definition reads_as :: "(ast \<Rightarrow> bool) \<Rightarrow> formula_ctx \<Rightarrow> ast \<Rightarrow> bool" where
  "reads_as extra ctx e \<longleftrightarrow> (\<forall>k rest. length (tokens_of extra e @ rest) \<le> k \<longrightarrow>
     (2 \<le> rank e \<longrightarrow> parsePrimary (parseAddSub k ctx) ctx (tokens_of extra e @ rest) = Inr (e, rest)) \<and>
     (1 \<le> rank e \<longrightarrow> reads_term k ctx (tokens_of extra e @ rest) e rest) \<and>
     (no_factor rest \<longrightarrow> reads_sum k ctx (tokens_of extra e @ rest) e rest))"

lemma reads_asD:
  assumes "reads_as extra ctx e" "length (tokens_of extra e @ rest) \<le> k"
  shows "2 \<le> rank e \<Longrightarrow> parsePrimary (parseAddSub k ctx) ctx (tokens_of extra e @ rest) = Inr (e, rest)"
    and "1 \<le> rank e \<Longrightarrow> reads_term k ctx (tokens_of extra e @ rest) e rest"
    and "no_factor rest \<Longrightarrow> reads_sum k ctx (tokens_of extra e @ rest) e rest"
    and "stops rest \<Longrightarrow> parseAddSub (Suc k) ctx (tokens_of extra e @ rest) = Inr (e, rest)"
proof -
  have *: "(2 \<le> rank e \<longrightarrow> parsePrimary (parseAddSub k ctx) ctx (tokens_of extra e @ rest) = Inr (e, rest)) \<and>
     (1 \<le> rank e \<longrightarrow> reads_term k ctx (tokens_of extra e @ rest) e rest) \<and>
     (no_factor rest \<longrightarrow> reads_sum k ctx (tokens_of extra e @ rest) e rest)"
    using assms unfolding reads_as_def by blast
  then show "2 \<le> rank e \<Longrightarrow> parsePrimary (parseAddSub k ctx) ctx (tokens_of extra e @ rest) = Inr (e, rest)"
    "1 \<le> rank e \<Longrightarrow> reads_term k ctx (tokens_of extra e @ rest) e rest"
    "no_factor rest \<Longrightarrow> reads_sum k ctx (tokens_of extra e @ rest) e rest" by blast+
  have "stops rest \<Longrightarrow> no_factor rest" by (simp add: stops_def no_factor_def)
  then show "stops rest \<Longrightarrow> parseAddSub (Suc k) ctx (tokens_of extra e @ rest) = Inr (e, rest)"
    using * by (intro parseAddSub_sum) auto
qed

lemma primary_in_parens:
  assumes "reads_as extra ctx e" "length (parens (tokens_of extra e) @ rest) \<le> k"
  shows "parsePrimary (parseAddSub k ctx) ctx (parens (tokens_of extra e) @ rest) = Inr (e, rest)"
proof -
  obtain j where j: "k = Suc j" using assms(2) by (cases k) auto
  have "parseAddSub k ctx (tokens_of extra e @ TOp (CHR '')'') # rest) = Inr (e, TOp (CHR '')'') # rest)"
    unfolding j using assms(2) j by (intro reads_asD(4) [OF assms(1)]) simp_all
  then show ?thesis by (simp add: parsePrimary_def close_paren_def del: parseAddSub.simps)
qed

lemma operand_reads:
  assumes "reads_as extra ctx e" "length (operand extra m e @ rest) \<le> k"
  shows "m = 2 \<Longrightarrow> parsePrimary (parseAddSub k ctx) ctx (operand extra m e @ rest) = Inr (e, rest)"
    and "m = 1 \<Longrightarrow> reads_term k ctx (operand extra m e @ rest) e rest"
    and "m = 0 \<Longrightarrow> no_factor rest \<Longrightarrow> reads_sum k ctx (operand extra m e @ rest) e rest"
proof -
  have prim: "parsePrimary (parseAddSub k ctx) ctx (operand extra m e @ rest) = Inr (e, rest)" if "wraps extra m e"
    using primary_in_parens [OF assms(1), of rest k] assms(2) that by (simp add: operand_def)
  have plain: "operand extra m e = tokens_of extra e" "m \<le> rank e" if "\<not> wraps extra m e"
    using that by (simp_all add: operand_def wraps_def)
  note reads = reads_asD [OF assms(1), of rest k]
  show "m = 2 \<Longrightarrow> parsePrimary (parseAddSub k ctx) ctx (operand extra m e @ rest) = Inr (e, rest)"
    using prim plain reads(1) assms(2) by (cases "wraps extra m e") simp_all
  show "m = 1 \<Longrightarrow> reads_term k ctx (operand extra m e @ rest) e rest"
    using reads_term_primary [OF prim] plain reads(2) assms(2) by (cases "wraps extra m e") simp_all
  show "m = 0 \<Longrightarrow> no_factor rest \<Longrightarrow> reads_sum k ctx (operand extra m e @ rest) e rest"
    using reads_sum_term [OF parseMulDiv_term [OF reads_term_primary [OF prim]]] plain reads(3) assms(2)
    by (cases "wraps extra m e") simp_all
qed

lemma parse_tokens: "printable ctx e \<Longrightarrow> reads_as extra ctx e"
proof (induction e)
  case (BinOp c l r)
  then have l: "reads_as extra ctx l" and r: "reads_as extra ctx r" and c: "c \<in> set ''+-*/''" by simp_all
  show ?case
    unfolding reads_as_def
  proof (intro allI impI)
    fix k rest assume len: "length (tokens_of extra (BinOp c l r) @ rest) \<le> k"
    let ?ts = "operand extra (op_rank c) l @ TOp c # operand extra (Suc (op_rank c)) r @ rest"
    have ts: "tokens_of extra (BinOp c l r) @ rest = ?ts" by (simp only: tokens_BinOp append_assoc append_Cons)
    have left: "length ?ts \<le> k" and right: "length (operand extra (Suc (op_rank c)) r @ rest) \<le> k" using len unfolding ts by simp_all
    have shorter: "length rest \<le> length (operand extra (Suc (op_rank c)) r @ rest)" by (simp only: length_append le_add2)
    show "(2 \<le> rank (BinOp c l r) \<longrightarrow> parsePrimary (parseAddSub k ctx) ctx (tokens_of extra (BinOp c l r) @ rest) = Inr (BinOp c l r, rest)) \<and>
      (1 \<le> rank (BinOp c l r) \<longrightarrow> reads_term k ctx (tokens_of extra (BinOp c l r) @ rest) (BinOp c l r) rest) \<and>
      (no_factor rest \<longrightarrow> reads_sum k ctx (tokens_of extra (BinOp c l r) @ rest) (BinOp c l r) rest)"
    proof (cases "c \<in> {CHR ''*'', CHR ''/''}")
      case True
      then have m: "op_rank c = 1" by (auto simp: op_rank_def)
      have "reads_term k ctx ?ts l (TOp c # operand extra (Suc (op_rank c)) r @ rest)"
        using left by (intro operand_reads(2) [OF l] m)
      moreover have "parsePrimary (parseAddSub k ctx) ctx (operand extra (Suc (op_rank c)) r @ rest) = Inr (r, rest)"
        using right by (intro operand_reads(1) [OF r]) (simp_all add: m)
      ultimately have "reads_term k ctx ?ts (BinOp c l r) rest" using True shorter by (intro reads_term_round)
      then show ?thesis using m reads_sum_term [OF parseMulDiv_term] unfolding ts by simp
    next
      case False
      then have c': "c \<in> {CHR ''+'', CHR ''-''}" and m: "op_rank c = 0" using c by (auto simp: op_rank_def)
      have "reads_sum k ctx ?ts (BinOp c l r) rest" if rest: "no_factor rest"
      proof -
        have "reads_sum k ctx ?ts l (TOp c # operand extra (Suc (op_rank c)) r @ rest)"
          using left c' by (intro operand_reads(3) [OF l] m) (auto simp: no_factor_def)
        moreover have "reads_term k ctx (operand extra (Suc (op_rank c)) r @ rest) r rest"
          using right by (intro operand_reads(2) [OF r]) (simp_all add: m)
        ultimately show ?thesis using c' parseMulDiv_term rest shorter by (intro reads_sum_round)
      qed
      then show ?thesis using m unfolding ts by simp
    qed
  qed
next
  case (Func f args)
  show ?case
    unfolding reads_as_def
  proof (intro allI impI)
    fix k rest assume len: "length (tokens_of extra (Func f args) @ rest) \<le> k"
    then obtain j where j: "k = Suc j" by (cases k) auto
    have "parseArgs (parseAddSub (Suc j) ctx) (join_tokens (map (tokens_of extra) args) @ TOp (CHR '')'') # rest) =
        Inr (args, TOp (CHR '')'') # rest)"
      using Func len j by (intro parse_args reads_asD(4)) auto
    then have "parsePrimary (parseAddSub k ctx) ctx (tokens_of extra (Func f args) @ rest) = Inr (Func f args, rest)"
      using Func.prems by (simp add: j parsePrimary_def close_paren_def del: parseAddSub.simps)
    then show "(2 \<le> rank (Func f args) \<longrightarrow> parsePrimary (parseAddSub k ctx) ctx (tokens_of extra (Func f args) @ rest) = Inr (Func f args, rest)) \<and>
      (1 \<le> rank (Func f args) \<longrightarrow> reads_term k ctx (tokens_of extra (Func f args) @ rest) (Func f args) rest) \<and>
      (no_factor rest \<longrightarrow> reads_sum k ctx (tokens_of extra (Func f args) @ rest) (Func f args) rest)"
      using reads_term_primary reads_sum_term [OF parseMulDiv_term] by blast
  qed
qed (auto simp: reads_as_def parsePrimary_def intro!: reads_sum_term parseMulDiv_term reads_term_primary)

lemma parse_print: "printable ctx e \<Longrightarrow> parse_formula ctx (print_formula extra e) = Inr e"
proof -
  assume e: "printable ctx e"
  have t: "tokenize (print_formula extra e) = tokens_of extra e" using tokenize_print [OF e, of "[]"] by simp
  have "parseAddSub (Suc (length (tokens_of extra e))) ctx (tokens_of extra e) = Inr (e, [])"
    using reads_asD(4) [OF parse_tokens [OF e], of extra "[]"] by simp
  then show ?thesis
    by (simp add: parse_formula_def t parseExpression_def parse_fuel_def del: parseAddSub.simps)
qed

section \<open>Properties\<close>

text \<open>
  C21: The parser always ends with a result or one of its own errors: its fuel is never exhausted, and any
  greater fuel gives the same result, for every string and every set of variables.
\<close>
theorem formula_parser_total:
  "parse_formula ctx formula \<noteq> Inl OutOfFuel \<and>
   parseAddSub (parse_fuel (tokenize formula) + k) ctx (tokenize formula) = parseExpression ctx (tokenize formula)"
proof -
  let ?ts = "tokenize formula"
  have "leaves (parseExpression ctx ?ts) (length ?ts - 1)"
    using fueledD [OF parseAddSub_fueled [of "parse_fuel ?ts" ctx], of ?ts] by (simp add: parseExpression_def parse_fuel_def)
  then have "parse_formula ctx formula \<noteq> Inl OutOfFuel"
    by (auto simp: parse_formula_def leaves_def and_then_def split: sum.splits)
  moreover have "parseAddSub (parse_fuel ?ts + k) ctx ?ts = parseExpression ctx ?ts"
    by (rule parseAddSub_enough) (simp add: parse_fuel_def)
  ultimately show ?thesis ..
qed

text \<open>
  C22: Reading back what was printed: a formula built from natural numbers, the variables of the chart, the four operations and
  calls of the panel's functions, printed with as few parentheses as precedence and left association allow, and with any redundant
  ones added, is read by the tokenizer and the parser as the same formula. So \<open>*\<close> and \<open>/\<close> bind more strongly than \<open>+\<close> and \<open>-\<close>, and
  operations of the same strength associate to the left.
\<close>
theorem formula_roundtrip:
  assumes "printable ctx e"
  shows "parse_formula ctx (print_formula extra e) = Inr e"
  using assms by (rule parse_print)

theorem formula_roundtrip_witness:
  "parse_formula \<lparr>fc_len = 1, fc_vars = [(''closes'', [1])]\<rparr> ''1-EMA(closes,9)-2*(closes-21)'' =
     Inr (BinOp (CHR ''-'')
       (BinOp (CHR ''-'') (Num (Fin (real 1))) (Func ''EMA'' [Var ''closes'', Num (Fin (real 9))]))
       (BinOp (CHR ''*'') (Num (Fin (real 2))) (BinOp (CHR ''-'') (Var ''closes'') (Num (Fin (real 21))))))"
proof -
  let ?e = "BinOp (CHR ''-'')
       (BinOp (CHR ''-'') (Num (Fin (real 1))) (Func ''EMA'' [Var ''closes'', Num (Fin (real 9))]))
       (BinOp (CHR ''*'') (Num (Fin (real 2))) (BinOp (CHR ''-'') (Var ''closes'') (Num (Fin (real 21)))))"
  have "printable \<lparr>fc_len = 1, fc_vars = [(''closes'', [1])]\<rparr> ?e"
    by (simp add: valid_name_def is_name_char_def is_name_start_def own_functions_def)
  moreover have "print_formula (\<lambda>_. False) ?e = ''1-EMA(closes,9)-2*(closes-21)''"
    by (simp add: show_nat.simps digit_char_def wraps_def op_rank_def)
  ultimately show ?thesis using formula_roundtrip by metis
qed

text \<open>The second argument is an array of the chart's length, so that it never counts as a period.\<close>

lemma period_ignored: "2 \<le> n \<Longrightarrow> period_or (Some (replicate n v)) d = d"
proof -
  assume "2 \<le> n"
  then obtain k where "n = Suc (Suc k)" by (metis Suc_le_D numeral_2_eq_2 Suc_le_mono)
  then show ?thesis by (simp add: period_or_def)
qed

text \<open>
  The period written in a formula has no effect: with at least two candles, a call of an average, the
  oscillator or an extreme gives the same array for any two numbers as its second argument.
\<close>
theorem period_argument_ignored:
  assumes "2 \<le> fc_len ctx" "f \<in> {''SMA'', ''EMA'', ''RSI'', ''MAX'', ''MIN''}"
  shows "evalAST ctx (Func f [a, Num p]) = evalAST ctx (Func f [a, Num q])"
  using assms by (cases "evalAST ctx a") (auto simp: call_own_def arg_def period_ignored own_functions_def)

theorem period_argument_ignored_witness:
  "evalAST \<lparr>fc_len = 2, fc_vars = [(''closes'', [1, 2])]\<rparr> (Func ''SMA'' [Var ''closes'', Num 1]) =
   evalAST \<lparr>fc_len = 2, fc_vars = [(''closes'', [1, 2])]\<rparr> (Func ''SMA'' [Var ''closes'', Num 2])"
  by (rule period_argument_ignored) simp_all

abbreviation ema_call :: "nat \<Rightarrow> ast" where
  "ema_call p \<equiv> Func ''EMA'' [Var ''closes'', Num (Fin (real p))]"

lemma default_tokens: "tokenize default_formula = tokens_of extra (ema_call 9) @ TOp (CHR ''-'') # tokens_of extra (ema_call 21)"
  by (simp add: default_formula_def tokenize.simps(2) OPERATORS_def is_name_start_def is_name_char_def is_num_char_def
      is_digit_def parse_float_def read_nat_def digit_val_def)

lemma default_parse:
  assumes "map_has (fc_vars ctx) ''closes''"
  shows "parse_formula ctx default_formula = Inr (BinOp (CHR ''-'') (ema_call 9) (ema_call 21))"
proof -
  have e: "printable ctx (ema_call p)" for p
    using assms by (simp add: valid_name_def is_name_char_def is_name_start_def own_functions_def)
  let ?t = "tokens_of (\<lambda>_. False)"
  let ?ts = "?t (ema_call 9) @ TOp (CHR ''-'') # ?t (ema_call 21)"
  have "parsePrimary (parseAddSub (length ?ts) ctx) ctx ?ts = Inr (ema_call 9, TOp (CHR ''-'') # ?t (ema_call 21))"
    by (rule reads_asD(1) [OF parse_tokens [OF e]]) simp_all
  moreover have "parsePrimary (parseAddSub (length ?ts) ctx) ctx (?t (ema_call 21)) = Inr (ema_call 21, [])"
    using reads_asD(1) [OF parse_tokens [OF e], of "\<lambda>_. False" 21 "[]" "length ?ts"] by simp
  ultimately have "parseAddSub (Suc (length ?ts)) ctx ?ts = Inr (BinOp (CHR ''-'') (ema_call 9) (ema_call 21), [])"
    by (intro add_of_binop) simp_all
  then show ?thesis unfolding parse_formula_def default_tokens [of "\<lambda>_. False"] parseExpression_def parse_fuel_def by simp
qed

text \<open>
  The panel's default formula, the difference of two exponential averages, is constantly zero: for at
  least 30 candles with numbers as closing prices it is accepted, all its values are 0 and its signal is
  neutral, because both averages are taken over the default period.
\<close>
theorem default_formula_is_zero:
  assumes "map cd_close (slice_last 100 (filter (\<lambda>c. cd_exchange c = exchange \<and> cd_symbol c = symbol) candles)) = map Fin ps"
    and "30 \<le> length ps"
  shows "\<exists>r. formula_panel candles exchange symbol default_formula = Some (FormulaValue r) \<and>
    fr_values r = replicate (length ps) 0 \<and> fr_signal r = FNeutral"
proof -
  let ?n = "length ps"
  define cs where "cs = slice_last 100 (filter (\<lambda>c. cd_exchange c = exchange \<and> cd_symbol c = symbol) candles)"
  have closes: "map cd_close cs = map Fin ps" "length cs = ?n"
    using assms(1) by (simp_all add: cs_def) (metis length_map)
  define e where "e = calcEMA (map Fin ps) 9"
  have "binop_at (CHR ''-'') e e i = Fin 0" if "i < ?n" for i
    using warm_lineD(2,3) [OF warm_line_EMA [of 9 ps], of i, folded e_def] that assms(2)
    by (cases "i < 8") (auto simp: binop_at_def apply_op_def Let_def split: if_splits simp del: rd_in)
  then have z: "map (binop_at (CHR ''-'') e e) [0..<?n] = replicate ?n 0" by (intro nth_equalityI) simp_all
  have ev: "evalAST (formula_ctx_of cs) (ema_call p) = Inr e" for p
    using assms(2) closes by (simp add: formula_ctx_of_def own_functions_def call_own_def arg_def period_ignored e_def)
  have "map_has (fc_vars (formula_ctx_of cs)) ''closes''" "fc_len (formula_ctx_of cs) = ?n"
    using closes(2) by (simp_all add: formula_ctx_of_def)
  note parse = default_parse [OF this(1)] this(2)
  have v: "and_then (parse_formula (formula_ctx_of cs) default_formula) (evalAST (formula_ctx_of cs)) = Inr (replicate ?n 0)"
    unfolding parse(1) and_then_simps evalAST.simps(3) ev parse(2) z ..
  have "filter (\<lambda>v. v \<noteq> NaN) (replicate ?n (0 :: jsnum)) = replicate ?n 0" by simp
  then have "\<exists>r. summarize ?n (replicate ?n 0) = FormulaValue r \<and> fr_values r = replicate ?n 0 \<and> fr_signal r = FNeutral"
    using assms(2) by (auto simp: summarize_def formula_signal_of_def Let_def)
  then show ?thesis
    using assms(2) closes(2) v by (simp add: formula_panel_def cs_def [symmetric] Let_def)
qed

theorem default_formula_is_zero_witness:
  "\<exists>r. formula_panel (replicate 30 \<lparr>cd_exchange = ''a'', cd_symbol = ''b'', cd_timestamp = 0,
       cd_open = 1, cd_high = 1, cd_low = 1, cd_close = 1, cd_volume = 1\<rparr>) ''a'' ''b'' default_formula =
     Some (FormulaValue r) \<and> fr_values r = replicate 30 0"
  by (rule exE [OF default_formula_is_zero [where ps = "replicate 30 1"]]) (auto simp: slice_last_def)

end
