(* ===== verification/AffineForms.thy ===== *)
theory AffineForms
  imports Candles Regression
begin

text \<open>
  Affine arithmetic, \<open>web-ui/src/components/AffineArithmetic.jsx\<close>: the class \<open>Affine\<close> with its counter of noise
  symbols passed as a state, the robust portfolio and option prices and what the panel computes. The law: the
  interval of a form encloses every value of the expression it was computed from, also when a quantity
  occurs more than once. The coefficients keep their order of insertion, where an object with integer keys is
  enumerated in ascending order; over the reals the sums over them are the same.
\<close>

section \<open>Forms\<close>

record affine =
  af_center :: jsnum
  af_coeffs :: "(nat, jsnum) jsmap"

text \<open>\<open>Affine.nextId\<close> is the last argument and the second component of the result.\<close>

definition fromInterval :: "jsnum \<Rightarrow> jsnum \<Rightarrow> nat \<Rightarrow> affine \<times> nat" where
  "fromInterval lo hi nextId =
     (let center = (lo + hi) / 2; radius = (hi - lo) / 2; i = nextId
      in (\<lparr>af_center = center, af_coeffs = (if radius > 0 then [(i, radius)] else [])\<rparr>, nextId + 1))"

definition coeff_or0 :: "(nat, jsnum) jsmap \<Rightarrow> nat \<Rightarrow> jsnum" where
  "coeff_or0 m i = (case map_get m i of None \<Rightarrow> 0 | Some c \<Rightarrow> jor c 0)"

definition add_coeff :: "(jsnum \<Rightarrow> jsnum) \<Rightarrow> nat \<times> jsnum \<Rightarrow> (nat, jsnum) jsmap \<Rightarrow> (nat, jsnum) jsmap" where
  "add_coeff f p m = map_set (fst p) (coeff_or0 m (fst p) + f (snd p)) m"

definition add_num :: "affine \<Rightarrow> jsnum \<Rightarrow> affine" where
  "add_num a k = a\<lparr>af_center := af_center a + k\<rparr>"

definition add_affine :: "affine \<Rightarrow> affine \<Rightarrow> affine" where
  "add_affine a b = \<lparr>af_center = af_center a + af_center b,
     af_coeffs = fold (add_coeff (\<lambda>c. c)) (af_coeffs b) (af_coeffs a)\<rparr>"

definition sub_num :: "affine \<Rightarrow> jsnum \<Rightarrow> affine" where
  "sub_num a k = a\<lparr>af_center := af_center a - k\<rparr>"

definition sub_affine :: "affine \<Rightarrow> affine \<Rightarrow> affine" where
  "sub_affine a b = \<lparr>af_center = af_center a - af_center b,
     af_coeffs = fold (add_coeff (\<lambda>c. - c)) (af_coeffs b) (af_coeffs a)\<rparr>"

definition mul_num :: "affine \<Rightarrow> jsnum \<Rightarrow> affine" where
  "mul_num a k = \<lparr>af_center = af_center a * k, af_coeffs = map (\<lambda>(i, c). (i, c * k)) (af_coeffs a)\<rparr>"

definition quad_error :: "affine \<Rightarrow> affine \<Rightarrow> jsnum" where
  "quad_error a b =
     jsum (concat (map (\<lambda>c1. map (\<lambda>c2. \<bar>c1 * c2\<bar>) (map_values (af_coeffs b))) (map_values (af_coeffs a))))"

definition mul_affine :: "affine \<Rightarrow> affine \<Rightarrow> nat \<Rightarrow> affine \<times> nat" where
  "mul_affine a b nextId =
     (let scaled = map (\<lambda>(i, c). (i, c * af_center b)) (af_coeffs a);
          linear = fold (add_coeff (\<lambda>c. c * af_center a)) (af_coeffs b) scaled;
          quadError = quad_error a b;
          center = af_center a * af_center b
      in if quadError > 0 then (\<lparr>af_center = center, af_coeffs = map_set nextId quadError linear\<rparr>, nextId + 1)
         else (\<lparr>af_center = center, af_coeffs = linear\<rparr>, nextId))"

definition radius :: "affine \<Rightarrow> jsnum" where
  "radius a = jsum (map abs (map_values (af_coeffs a)))"

definition lower :: "affine \<Rightarrow> jsnum" where
  "lower a = af_center a - radius a"

definition upper :: "affine \<Rightarrow> jsnum" where
  "upper a = af_center a + radius a"

definition exp_affine :: "affine \<Rightarrow> nat \<Rightarrow> affine \<times> nat" where
  "exp_affine x nextId =
     (let lo = lower x; hi = upper x;
          expLo = jexp lo; expHi = jexp hi;
          a = (expHi - expLo) / (hi - lo + Fin (1 / 10 ^ 10));
          beta = (expLo + expHi) / 2 - a * (lo + hi) / 2;
          maxErr = (expHi - expLo) / 2 - a * (hi - lo) / 4;
          scaled = map (\<lambda>(i, c). (i, a * c)) (af_coeffs x);
          center = beta + a * af_center x
      in if maxErr > 0 then (\<lparr>af_center = center, af_coeffs = map_set nextId maxErr scaled\<rparr>, nextId + 1)
         else (\<lparr>af_center = center, af_coeffs = scaled\<rparr>, nextId))"

section \<open>What the panel computes\<close>

definition affine_erf :: "jsnum \<Rightarrow> jsnum" where
  "affine_erf x =
     (let t = 1 / (1 + Fin (3275911 / 10 ^ 7) * \<bar>x\<bar>);
          y = 1 - ((((Fin (1061405429 / 10 ^ 9) * t - Fin (1453152027 / 10 ^ 9)) * t + Fin (1421413741 / 10 ^ 9)) * t
                - Fin (284496736 / 10 ^ 9)) * t + Fin (254829592 / 10 ^ 9)) * t * jexp (- x * x)
      in if x \<ge> 0 then y else - y)"

definition affine_cdf :: "jsnum \<Rightarrow> jsnum" where
  "affine_cdf x = Fin (1 / 2) * (1 + affine_erf (x / jsqrt 2))"

definition affine_returns :: "jsnum list \<Rightarrow> jsnum list" where
  "affine_returns prices =
     map (\<lambda>i. (rd prices i - rd prices (i - 1)) / rd prices (i - 1)) [1..<length prices]"

definition robustPortfolioValue :: "jsnum list \<Rightarrow> jsnum list \<Rightarrow> jsnum list \<Rightarrow> nat \<Rightarrow> affine \<times> nat" where
  "robustPortfolioValue weights returns uncertainties nextId =
     for_loop 0 (length weights)
       (\<lambda>i (portfolio, n).
          let (r, n1) = fromInterval (rd returns i - rd uncertainties i) (rd returns i + rd uncertainties i) n
          in (add_affine portfolio (mul_num r (rd weights i)), n1))
       (\<lparr>af_center = 0, af_coeffs = []\<rparr>, nextId)"

record option_price =
  op_lo :: jsnum
  op_hi :: jsnum
  op_center :: jsnum
  op_d1_center :: jsnum
  op_d1_low :: jsnum
  op_d1_high :: jsnum

definition bs_d1 :: "jsnum \<Rightarrow> jsnum \<Rightarrow> jsnum \<Rightarrow> jsnum \<Rightarrow> jsnum \<Rightarrow> jsnum" where
  "bs_d1 S K T r sigma = (jlog (S / K) + (r + sigma * sigma / 2) * T) / (sigma * jsqrt T)"

definition bs_price :: "jsnum \<Rightarrow> jsnum \<Rightarrow> jsnum \<Rightarrow> jsnum \<Rightarrow> jsnum \<Rightarrow> jsnum \<Rightarrow> jsnum" where
  "bs_price S K T r sigma d1 = S * affine_cdf d1 - K * jexp (- r * T) * affine_cdf (d1 - sigma * jsqrt T)"

definition robustOptionPrice ::
  "jsnum \<Rightarrow> jsnum \<Rightarrow> jsnum \<Rightarrow> jsnum \<Rightarrow> jsnum \<Rightarrow> jsnum \<Rightarrow> nat \<Rightarrow> option_price \<times> nat" where
  "robustOptionPrice S K T r sigmaLo sigmaHi nextId =
     (let (sigma, n) = fromInterval sigmaLo sigmaHi nextId;
          d1Low = bs_d1 S K T r sigmaLo;
          d1High = bs_d1 S K T r sigmaHi;
          priceLow = bs_price S K T r sigmaLo d1Low;
          priceHigh = bs_price S K T r sigmaHi d1High
      in (\<lparr>op_lo = jmin priceLow priceHigh, op_hi = jmax priceLow priceHigh,
           op_center = (priceLow + priceHigh) / 2, op_d1_center = bs_d1 S K T r (af_center sigma),
           op_d1_low = d1Low, op_d1_high = d1High\<rparr>, n))"

datatype uncertainty = HighUncertainty | ModerateUncertainty | LowUncertainty

record affine_panel =
  ap_sigma :: jsnum
  ap_option :: option_price
  ap_portfolio :: affine
  ap_position :: affine
  ap_with_return :: affine
  ap_spread :: jsnum
  ap_signal :: uncertainty

definition std_of :: "jsnum list \<Rightarrow> jsnum" where
  "std_of xs = jsqrt (jsum (map (\<lambda>r. (r - mean_of xs) ^ 2) xs) / jnat (length xs))"

definition position_forms :: "jsnum \<Rightarrow> jsnum \<Rightarrow> jsnum \<Rightarrow> affine \<times> affine" where
  \<comment> \<open>\<open>Affine.nextId = 0\<close> and the three multiplied quantities: \<open>positionValue\<close>, \<open>withReturn\<close>\<close>
  "position_forms S0 meanRecent retUncertainty =
     (let (price, n1) = fromInterval (S0 * Fin (99 / 100)) (S0 * Fin (101 / 100)) 0;
          (quantity, n2) = fromInterval (Fin (95 / 100)) (Fin (105 / 100)) n1;
          (positionValue, n3) = mul_affine price quantity n2;
          (ret, n4) = fromInterval (1 + meanRecent - retUncertainty) (1 + meanRecent + retUncertainty) n3
      in (positionValue, fst (mul_affine positionValue ret n4)))"

definition affine_panel_of ::
  "candle list option \<Rightarrow> string \<Rightarrow> string \<Rightarrow> jsnum \<Rightarrow> nat \<Rightarrow> jsnum \<Rightarrow> jsnum \<Rightarrow> jsnum \<Rightarrow> nat \<Rightarrow> affine_panel option" where
  \<comment> \<open>the last argument is \<open>Affine.nextId\<close> on entry; the display text of the reason is left out\<close>
  "affine_panel_of candles exchange symbol uncertaintyPct lookback strikePct T_days riskFreeRate nextId =
     (let cds = select_candles candles exchange symbol
      in if length cds < lookback + 1 then None
         else
           let prices = map cd_close (slice_last lookback cds);
               returns = affine_returns prices;
               S0 = rd prices (length prices - 1);
               K = S0 * strikePct;
               T = T_days / 365;
               sigma = std_of returns * jsqrt 252;
               sigmaUncertainty = sigma * uncertaintyPct / 100;
               sigmaLo = jmax (Fin (1 / 100)) (sigma - sigmaUncertainty);
               sigmaHi = sigma + sigmaUncertainty;
               (option, n1) = robustOptionPrice S0 K T riskFreeRate sigmaLo sigmaHi nextId;
               recentRets = slice_last 20 returns;
               meanRecent = mean_of recentRets;
               retUncertainty = std_of recentRets * uncertaintyPct / 100;
               (portfolio, n2) = robustPortfolioValue [Fin (1 / 2), Fin (1 / 2)] [meanRecent, meanRecent * Fin (8 / 10)]
                 [retUncertainty, retUncertainty * Fin (12 / 10)] n1;
               (positionValue, withReturn) = position_forms S0 meanRecent retUncertainty;
               optionSpread = (op_hi option - op_lo option) / op_center option
           in Some \<lparr>ap_sigma = sigma, ap_option = option, ap_portfolio = portfolio, ap_position = positionValue,
                ap_with_return = withReturn, ap_spread = optionSpread,
                ap_signal = (if optionSpread > Fin (3 / 10) then HighUncertainty
                  else if optionSpread > Fin (1 / 10) then ModerateUncertainty else LowUncertainty)\<rparr>)"

section \<open>What a form denotes\<close>

text \<open>Real coefficients, the value of a form under an assignment \<open>e\<close> of the noise symbols, and their embedding.\<close>

type_synonym noise = "(nat \<times> real) list"

definition emb :: "noise \<Rightarrow> (nat, jsnum) jsmap" where
  "emb ks = map (\<lambda>(i, x). (i, Fin x)) ks"

definition noise_sum :: "(nat \<Rightarrow> real) \<Rightarrow> noise \<Rightarrow> real" where
  "noise_sum e ks = (\<Sum>(i, x)\<leftarrow>ks. x * e i)"

definition assignment :: "(nat \<Rightarrow> real) \<Rightarrow> bool" where
  "assignment e \<longleftrightarrow> (\<forall>i. \<bar>e i\<bar> \<le> 1)"

text \<open>The form is finite, uses symbols below \<open>n\<close>, and its value under \<open>e\<close> is \<open>r\<close>.\<close>

definition denotes :: "(nat \<Rightarrow> real) \<Rightarrow> nat \<Rightarrow> affine \<Rightarrow> real \<Rightarrow> bool" where
  "denotes e n a r \<longleftrightarrow> (\<exists>c ks. a = \<lparr>af_center = Fin c, af_coeffs = emb ks\<rparr> \<and> distinct (map fst ks) \<and>
     (\<forall>i \<in> fst ` set ks. i < n) \<and> r = c + noise_sum e ks)"

lemma emb_simps [simp]: "emb [] = []" "emb ((i, x) # ks) = (i, Fin x) # emb ks"
  by (simp_all add: emb_def)

lemma emb_set [simp]: "map_set i (Fin x) (emb ks) = emb (map_set i x ks)"
  by (induction ks) auto

lemma emb_values: "map_values (emb ks) = map Fin (map snd ks)"
  by (induction ks) auto

lemma emb_scale: "map (\<lambda>(i, c). (i, f c)) (emb ks) = emb (map (\<lambda>(i, x). (i, h x)) ks)"
  if "\<And>x. f (Fin x) = Fin (h x)" for f h
  by (induction ks) (auto simp: that)

definition real_coeff :: "noise \<Rightarrow> nat \<Rightarrow> real" where
  "real_coeff ks i = (case map_of ks i of None \<Rightarrow> 0 | Some x \<Rightarrow> x)"

lemma coeff_emb: "coeff_or0 (emb ks) i = Fin (real_coeff ks i)"
proof -
  have "map_of (emb ks) i = map_option Fin (map_of ks i)" by (induction ks) auto
  then show ?thesis by (auto simp: coeff_or0_def real_coeff_def split: option.splits)
qed

lemma noise_sum_simps [simp]: "noise_sum e [] = 0" "noise_sum e ((i, x) # ks) = x * e i + noise_sum e ks"
  by (simp_all add: noise_sum_def)

lemma noise_sum_set: "noise_sum e (map_set i (real_coeff ks i + x) ks) = noise_sum e ks + x * e i"
  by (induction ks) (auto simp: real_coeff_def algebra_simps)

lemma noise_sum_cong: "(\<And>i. i \<in> fst ` set ks \<Longrightarrow> e i = e' i) \<Longrightarrow> noise_sum e ks = noise_sum e' ks"
  by (induction ks) auto

lemma noise_sum_scale: "noise_sum e (map (\<lambda>(i, x). (i, x * k)) ks) = noise_sum e ks * k"
  by (induction ks) (auto simp: algebra_simps)

lemma abs_noise_sum:
  assumes "assignment e"
  shows "\<bar>noise_sum e ks\<bar> \<le> (\<Sum>x\<leftarrow>map snd ks. \<bar>x\<bar>)"
proof (induction ks)
  case (Cons p ks)
  obtain i x where p: "p = (i, x)" by (cases p)
  have "\<bar>x * e i\<bar> \<le> \<bar>x\<bar>" using assms mult_left_mono [of "\<bar>e i\<bar>" 1 "\<bar>x\<bar>"] by (simp add: assignment_def abs_mult)
  then show ?case using Cons by (simp add: p)
qed simp

text \<open>Merging the coefficients of another form, each through a linear function.\<close>

lemma fold_add_coeff:
  assumes "\<And>x. f (Fin x) = Fin (k * x)" "distinct (map fst ks)" "\<forall>i \<in> fst ` set ks \<union> fst ` set ls. i < n"
  shows "\<exists>ms. fold (add_coeff f) (emb ls) (emb ks) = emb ms \<and> distinct (map fst ms) \<and>
    (\<forall>i \<in> fst ` set ms. i < n) \<and> (\<forall>e. noise_sum e ms = noise_sum e ks + k * noise_sum e ls)"
  using assms(2,3)
proof (induction ls arbitrary: ks)
  case Nil
  then show ?case by (intro exI [of _ ks]) simp
next
  case (Cons p ls)
  obtain i x where p: "p = (i, x)" by (cases p)
  let ?ks = "map_set i (real_coeff ks i + k * x) ks"
  have step: "add_coeff f (i, Fin x) (emb ks) = emb ?ks" by (simp add: add_coeff_def coeff_emb assms(1))
  have "distinct (map fst ?ks)" using map_ok_set [of ks i] Cons.prems(1) by (simp add: map_ok_def)
  moreover have "\<forall>j \<in> fst ` set ?ks \<union> fst ` set ls. j < n"
    using Cons.prems(2) keys_map_set [of i "real_coeff ks i + k * x" ks] p by auto
  ultimately obtain ms where ms: "fold (add_coeff f) (emb ls) (emb ?ks) = emb ms" "distinct (map fst ms)"
    "\<forall>i \<in> fst ` set ms. i < n" "\<forall>e. noise_sum e ms = noise_sum e ?ks + k * noise_sum e ls"
    using Cons.IH by blast
  then show ?case by (intro exI [of _ ms]) (simp add: p step noise_sum_set algebra_simps)
qed

section \<open>The operations are exact or enclosing\<close>

lemma denotes_mono: "denotes e n a r \<Longrightarrow> n \<le> m \<Longrightarrow> denotes e m a r"
  unfolding denotes_def by (metis le_trans less_le_not_le not_less)

lemma denotes_cong:
  assumes "denotes e n a r" "\<And>i. i < n \<Longrightarrow> e' i = e i"
  shows "denotes e' n a r"
proof -
  from assms(1) obtain c ks where d: "a = \<lparr>af_center = Fin c, af_coeffs = emb ks\<rparr>" "distinct (map fst ks)"
    "\<forall>i \<in> fst ` set ks. i < n" "r = c + noise_sum e ks" unfolding denotes_def by blast
  have "noise_sum e ks = noise_sum e' ks" using d(3) assms(2) by (intro noise_sum_cong) auto
  then show ?thesis using d unfolding denotes_def by auto
qed

lemma denotes_bounds:
  assumes "denotes e n a r" "assignment e"
  shows "\<exists>l u. lower a = Fin l \<and> upper a = Fin u \<and> l \<le> r \<and> r \<le> u"
proof -
  from assms(1) obtain c ks where d: "a = \<lparr>af_center = Fin c, af_coeffs = emb ks\<rparr>" "r = c + noise_sum e ks"
    unfolding denotes_def by blast
  have "map abs (map_values (emb ks)) = map Fin (map abs (map snd ks))" unfolding emb_values by simp
  then have "radius a = Fin (sum_list (map abs (map snd ks)))"
    unfolding radius_def d by (simp only: affine.simps jsum_Fin)
  then show ?thesis using abs_noise_sum [OF assms(2), of ks] by (auto simp: lower_def upper_def d)
qed

lemma denotes_add:
  assumes "denotes e n a r" "denotes e n b s"
  shows "denotes e n (add_affine a b) (r + s)" "denotes e n (sub_affine a b) (r - s)"
proof -
  obtain c ks where a: "a = \<lparr>af_center = Fin c, af_coeffs = emb ks\<rparr>" "distinct (map fst ks)" "\<forall>i \<in> fst ` set ks. i < n"
    "r = c + noise_sum e ks" using assms(1) unfolding denotes_def by blast
  obtain d ls where b: "b = \<lparr>af_center = Fin d, af_coeffs = emb ls\<rparr>" "\<forall>i \<in> fst ` set ls. i < n"
    "s = d + noise_sum e ls" using assms(2) unfolding denotes_def by blast
  have n: "\<forall>i \<in> fst ` set ks \<union> fst ` set ls. i < n" using a(3) b(2) by blast
  obtain ms where "fold (add_coeff (\<lambda>c. c)) (emb ls) (emb ks) = emb ms" "distinct (map fst ms)"
    "\<forall>i \<in> fst ` set ms. i < n" "\<forall>e. noise_sum e ms = noise_sum e ks + 1 * noise_sum e ls"
    using fold_add_coeff [OF _ a(2) n, of "\<lambda>c. c" 1] by auto
  then show "denotes e n (add_affine a b) (r + s)" using a b unfolding denotes_def
    by (intro exI [of _ "c + d"] exI [of _ ms]) (simp add: add_affine_def)
  obtain ms where "fold (add_coeff (\<lambda>c. - c)) (emb ls) (emb ks) = emb ms" "distinct (map fst ms)"
    "\<forall>i \<in> fst ` set ms. i < n" "\<forall>e. noise_sum e ms = noise_sum e ks + - 1 * noise_sum e ls"
    using fold_add_coeff [OF _ a(2) n, of "\<lambda>c. - c" "- 1"] by auto
  then show "denotes e n (sub_affine a b) (r - s)" using a b unfolding denotes_def
    by (intro exI [of _ "c - d"] exI [of _ ms]) (simp add: sub_affine_def)
qed

lemma denotes_num:
  assumes "denotes e n a r"
  shows "denotes e n (add_num a (Fin k)) (r + k)" "denotes e n (sub_num a (Fin k)) (r - k)"
    "denotes e n (mul_num a (Fin k)) (r * k)"
proof -
  obtain c ks where a: "a = \<lparr>af_center = Fin c, af_coeffs = emb ks\<rparr>" "distinct (map fst ks)" "\<forall>i \<in> fst ` set ks. i < n"
    "r = c + noise_sum e ks" using assms(1) unfolding denotes_def by blast
  show "denotes e n (add_num a (Fin k)) (r + k)" "denotes e n (sub_num a (Fin k)) (r - k)"
    using a unfolding denotes_def by (auto simp: add_num_def sub_num_def)
  have "map (\<lambda>(i, x). (i, x * Fin k)) (emb ks) = emb (map (\<lambda>(i, x). (i, x * k)) ks)" by (rule emb_scale) simp
  moreover have "distinct (map fst (map (\<lambda>(i, x). (i, x * k)) ks))" using a(2) by (simp add: comp_def case_prod_beta)
  moreover have "\<forall>i \<in> fst ` set (map (\<lambda>(i, x). (i, x * k)) ks). i < n" using a(3) by auto
  ultimately show "denotes e n (mul_num a (Fin k)) (r * k)"
    unfolding denotes_def mul_num_def a(1)
    by (intro exI [of _ "c * k"] exI [of _ "map (\<lambda>(i, x). (i, x * k)) ks"])
       (simp add: noise_sum_scale a(4) algebra_simps del: map_map set_map)
qed

text \<open>Two assignments that agree on the symbols in use; an operation may fix the next symbol.\<close>

definition extends_noise :: "nat \<Rightarrow> (nat \<Rightarrow> real) \<Rightarrow> (nat \<Rightarrow> real) \<Rightarrow> bool" where
  "extends_noise n e e' \<longleftrightarrow> assignment e' \<and> (\<forall>i < n. e' i = e i)"

lemma extends_noise_trans:
  "extends_noise n e e' \<Longrightarrow> extends_noise m e' e'' \<Longrightarrow> n \<le> m \<Longrightarrow> extends_noise n e e''"
  unfolding extends_noise_def by simp

lemma denotes_extend: "denotes e n a r \<Longrightarrow> extends_noise n e e' \<Longrightarrow> n \<le> m \<Longrightarrow> denotes e' m a r"
  using denotes_mono denotes_cong unfolding extends_noise_def by metis

lemma extends_update: "assignment e \<Longrightarrow> \<bar>v\<bar> \<le> 1 \<Longrightarrow> extends_noise n e (e(n := v))"
  unfolding extends_noise_def assignment_def by simp

lemma denotes_fromInterval:
  assumes "assignment e" "lo \<le> x" "x \<le> hi"
  shows "\<exists>e'. extends_noise n e e' \<and> denotes e' (n + 1) (fst (fromInterval (Fin lo) (Fin hi) n)) x"
proof (cases "lo < hi")
  case True
  let ?v = "(x - (lo + hi) / 2) / ((hi - lo) / 2)"
  have "\<bar>x - (lo + hi) / 2\<bar> \<le> (hi - lo) / 2" using assms by (auto simp: abs_le_iff field_simps)
  then have v: "\<bar>?v\<bar> \<le> 1" using True by (simp only: abs_divide) (simp add: field_simps)
  have "(hi - lo) / 2 \<noteq> 0" using True by simp
  then have mul: "(hi - lo) / 2 * ?v = x - (lo + hi) / 2" by (metis nonzero_mult_div_cancel_left times_divide_eq_right)
  have "fst (fromInterval (Fin lo) (Fin hi) n) =
      \<lparr>af_center = Fin ((lo + hi) / 2), af_coeffs = emb [(n, (hi - lo) / 2)]\<rparr>"
    using True by (simp add: fromInterval_def Let_def)
  then have "denotes (e(n := ?v)) (n + 1) (fst (fromInterval (Fin lo) (Fin hi) n)) x"
    unfolding denotes_def using mul
    by (intro exI [of _ "(lo + hi) / 2"] exI [of _ "[(n, (hi - lo) / 2)]"]) simp
  then show ?thesis using extends_update [OF assms(1) v] by blast
next
  case False
  then have "lo = x" "hi = x" using assms by simp_all
  then have "denotes e (n + 1) (fst (fromInterval (Fin lo) (Fin hi) n)) x"
    unfolding denotes_def by (intro exI [of _ x] exI [of _ "[]"]) (simp add: fromInterval_def Let_def)
  then show ?thesis using assms(1) unfolding extends_noise_def by blast
qed

lemma quad_error_emb:
  "quad_error \<lparr>af_center = c, af_coeffs = emb ks\<rparr> \<lparr>af_center = d, af_coeffs = emb ls\<rparr> =
     Fin ((\<Sum>x\<leftarrow>map snd ks. \<bar>x\<bar>) * (\<Sum>y\<leftarrow>map snd ls. \<bar>y\<bar>))"
proof -
  have row: "map (\<lambda>c2. \<bar>Fin x * c2\<bar>) (map Fin ys) = map Fin (map (\<lambda>y. \<bar>x\<bar> * \<bar>y\<bar>) ys)" for x ys
    by (simp add: abs_mult)
  have "concat (map (\<lambda>c1. map (\<lambda>c2. \<bar>c1 * c2\<bar>) (map Fin ys)) (map Fin xs)) =
      map Fin (concat (map (\<lambda>x. map (\<lambda>y. \<bar>x\<bar> * \<bar>y\<bar>) ys) xs))" for xs ys
    by (induction xs) (simp_all add: abs_mult del: abs_mult_self_eq)
  moreover have "sum_list (concat (map (\<lambda>x. map (\<lambda>y. \<bar>x\<bar> * \<bar>y\<bar>) ys) xs)) =
      (\<Sum>x\<leftarrow>xs. \<bar>x\<bar>) * (\<Sum>y\<leftarrow>ys. \<bar>y\<bar>)" for xs ys :: "real list"
    by (induction xs) (simp_all add: sum_list_const_mult algebra_simps)
  ultimately show ?thesis unfolding quad_error_def by (simp only: emb_values affine.simps jsum_Fin)
qed

lemma sum_abs_nonneg: "0 \<le> (\<Sum>x\<leftarrow>xs. \<bar>x :: real\<bar>)"
  by (induction xs) auto

lemma denotes_mul:
  assumes e: "assignment e" and "denotes e n a r" "denotes e n b s"
  shows "\<exists>e'. extends_noise n e e' \<and> denotes e' (snd (mul_affine a b n)) (fst (mul_affine a b n)) (r * s)"
    and "n \<le> snd (mul_affine a b n)"
proof -
  obtain c ks where a: "a = \<lparr>af_center = Fin c, af_coeffs = emb ks\<rparr>" "distinct (map fst ks)" "\<forall>i \<in> fst ` set ks. i < n"
    "r = c + noise_sum e ks" using assms(2) unfolding denotes_def by blast
  obtain d ls where b: "b = \<lparr>af_center = Fin d, af_coeffs = emb ls\<rparr>" "\<forall>i \<in> fst ` set ls. i < n"
    "s = d + noise_sum e ls" using assms(3) unfolding denotes_def by blast
  define q where "q = (\<Sum>x\<leftarrow>map snd ks. \<bar>x\<bar>) * (\<Sum>y\<leftarrow>map snd ls. \<bar>y\<bar>)"
  let ?sc = "map (\<lambda>(i, x). (i, x * d)) ks"
  have scaled: "map (\<lambda>(i, x). (i, x * Fin d)) (emb ks) = emb ?sc" by (rule emb_scale) simp
  have sc: "distinct (map fst ?sc)" "\<forall>i \<in> fst ` set ?sc \<union> fst ` set ls. i < n"
    using a(2,3) b(2) by (auto simp: comp_def case_prod_beta)
  obtain ms where ms: "fold (add_coeff (\<lambda>x. x * Fin c)) (emb ls) (emb ?sc) = emb ms" "distinct (map fst ms)"
    "\<forall>i \<in> fst ` set ms. i < n" "\<forall>e. noise_sum e ms = noise_sum e ?sc + c * noise_sum e ls"
    using fold_add_coeff [OF _ sc, of "\<lambda>x. x * Fin c" c] by (auto simp: mult.commute)
  have lin: "noise_sum e ms = noise_sum e ks * d + c * noise_sum e ls" using ms(4) noise_sum_scale by simp
  have form: "mul_affine a b n = (if q > 0
      then (\<lparr>af_center = Fin (c * d), af_coeffs = emb (map_set n q ms)\<rparr>, n + 1)
      else (\<lparr>af_center = Fin (c * d), af_coeffs = emb ms\<rparr>, n))"
    unfolding mul_affine_def a(1) b(1) Let_def quad_error_emb q_def [symmetric] affine.simps scaled ms(1)
    by simp
  show "n \<le> snd (mul_affine a b n)" by (simp add: form)
  define res where "res = noise_sum e ks * noise_sum e ls"
  have rs: "r * s = c * d + noise_sum e ms + res" by (simp add: a(4) b(3) lin res_def algebra_simps)
  have res: "\<bar>res\<bar> \<le> q" unfolding res_def q_def abs_mult
    by (intro mult_mono abs_noise_sum [OF e] sum_abs_nonneg) simp
  show "\<exists>e'. extends_noise n e e' \<and> denotes e' (snd (mul_affine a b n)) (fst (mul_affine a b n)) (r * s)"
  proof (cases "q > 0")
    case True
    let ?e = "e(n := res / q)"
    have fresh: "real_coeff ms n = 0" using ms(3) by (force simp: real_coeff_def dest: map_of_SomeD split: option.splits)
    have "noise_sum ?e ms = noise_sum e ms" using ms(3) by (intro noise_sum_cong) auto
    then have "c * d + noise_sum ?e (map_set n q ms) = r * s"
      using noise_sum_set [of ?e n ms q] fresh rs True by simp
    moreover have "distinct (map fst (map_set n q ms))" using map_ok_set [of ms n] ms(2) by (simp add: map_ok_def)
    moreover have "\<forall>i \<in> fst ` set (map_set n q ms). i < n + 1" using ms(3) keys_map_set [of n q ms] by (auto simp: less_Suc_eq)
    ultimately have "denotes ?e (n + 1) \<lparr>af_center = Fin (c * d), af_coeffs = emb (map_set n q ms)\<rparr> (r * s)"
      unfolding denotes_def by (intro exI [of _ "c * d"] exI [of _ "map_set n q ms"]) simp
    moreover have "extends_noise n e ?e" using extends_update [OF e, of "res / q" n] res True by (simp add: abs_divide)
    ultimately show ?thesis unfolding form using True by auto
  next
    case False
    then have "r * s = c * d + noise_sum e ms" using res rs by simp
    then have "denotes e n \<lparr>af_center = Fin (c * d), af_coeffs = emb ms\<rparr> (r * s)"
      unfolding denotes_def using ms(2,3) by (intro exI [of _ "c * d"] exI [of _ ms]) simp
    moreover have "extends_noise n e e" using e by (simp add: extends_noise_def)
    ultimately show ?thesis unfolding form using False by auto
  qed
qed

end
