(* ===== verification/AffineLaws.thy ===== *)
theory AffineLaws
  imports AffineForms
begin

text \<open>
  Sequences of the operations of \<open>Affine\<close> enclose the exact result: the expressions over given intervals, their value by forms and
  their exact value, with exponentials of arguments that are narrower than 1. For wider ones the error that \<open>exp\<close> adds is too
  small, and a counterexample shows that the enclosure is lost. The position of the panel is one of the expressions.
\<close>

section \<open>Expressions over uncertain inputs\<close>

datatype aexpr =
  Input nat
| AddE aexpr aexpr
| SubE aexpr aexpr
| MulE aexpr aexpr
| AddNum aexpr real
| SubNum aexpr real
| MulNum aexpr real
| ExpE aexpr

primrec exact_value :: "real list \<Rightarrow> aexpr \<Rightarrow> real" where
  "exact_value xs (Input i) = xs ! i"
| "exact_value xs (AddE a b) = exact_value xs a + exact_value xs b"
| "exact_value xs (SubE a b) = exact_value xs a - exact_value xs b"
| "exact_value xs (MulE a b) = exact_value xs a * exact_value xs b"
| "exact_value xs (AddNum a k) = exact_value xs a + k"
| "exact_value xs (SubNum a k) = exact_value xs a - k"
| "exact_value xs (MulNum a k) = exact_value xs a * k"
| "exact_value xs (ExpE a) = exp (exact_value xs a)"

text \<open>The same expression on forms, the operands from left to right; \<open>nextId\<close> is threaded through.\<close>

primrec affine_value :: "affine list \<Rightarrow> aexpr \<Rightarrow> nat \<Rightarrow> affine \<times> nat" where
  "affine_value fs (Input i) n = (fs ! i, n)"
| "affine_value fs (AddE a b) n =
     (let (x, n1) = affine_value fs a n; (y, n2) = affine_value fs b n1 in (add_affine x y, n2))"
| "affine_value fs (SubE a b) n =
     (let (x, n1) = affine_value fs a n; (y, n2) = affine_value fs b n1 in (sub_affine x y, n2))"
| "affine_value fs (MulE a b) n =
     (let (x, n1) = affine_value fs a n; (y, n2) = affine_value fs b n1 in mul_affine x y n2)"
| "affine_value fs (AddNum a k) n = (let (x, n1) = affine_value fs a n in (add_num x (Fin k), n1))"
| "affine_value fs (SubNum a k) n = (let (x, n1) = affine_value fs a n in (sub_num x (Fin k), n1))"
| "affine_value fs (MulNum a k) n = (let (x, n1) = affine_value fs a n in (mul_num x (Fin k), n1))"
| "affine_value fs (ExpE a) n = (let (x, n1) = affine_value fs a n in exp_affine x n1)"

text \<open>Every form whose exponential is taken is narrower than 1.\<close>

primrec narrow_exp :: "affine list \<Rightarrow> aexpr \<Rightarrow> nat \<Rightarrow> bool" where
  "narrow_exp fs (Input i) n \<longleftrightarrow> True"
| "narrow_exp fs (AddE a b) n \<longleftrightarrow> narrow_exp fs a n \<and> narrow_exp fs b (snd (affine_value fs a n))"
| "narrow_exp fs (SubE a b) n \<longleftrightarrow> narrow_exp fs a n \<and> narrow_exp fs b (snd (affine_value fs a n))"
| "narrow_exp fs (MulE a b) n \<longleftrightarrow> narrow_exp fs a n \<and> narrow_exp fs b (snd (affine_value fs a n))"
| "narrow_exp fs (AddNum a k) n \<longleftrightarrow> narrow_exp fs a n"
| "narrow_exp fs (SubNum a k) n \<longleftrightarrow> narrow_exp fs a n"
| "narrow_exp fs (MulNum a k) n \<longleftrightarrow> narrow_exp fs a n"
| "narrow_exp fs (ExpE a) n \<longleftrightarrow> narrow_exp fs a n \<and>
     (let x = fst (affine_value fs a n) in upper x - lower x \<le> Fin (1 - 1 / 10 ^ 10))"

primrec inputs_below :: "nat \<Rightarrow> aexpr \<Rightarrow> bool" where
  "inputs_below k (Input i) \<longleftrightarrow> i < k"
| "inputs_below k (AddE a b) \<longleftrightarrow> inputs_below k a \<and> inputs_below k b"
| "inputs_below k (SubE a b) \<longleftrightarrow> inputs_below k a \<and> inputs_below k b"
| "inputs_below k (MulE a b) \<longleftrightarrow> inputs_below k a \<and> inputs_below k b"
| "inputs_below k (AddNum a x) \<longleftrightarrow> inputs_below k a"
| "inputs_below k (SubNum a x) \<longleftrightarrow> inputs_below k a"
| "inputs_below k (MulNum a x) \<longleftrightarrow> inputs_below k a"
| "inputs_below k (ExpE a) \<longleftrightarrow> inputs_below k a"

text \<open>One form for each interval, made in order.\<close>

primrec input_forms :: "(real \<times> real) list \<Rightarrow> nat \<Rightarrow> affine list \<times> nat" where
  "input_forms [] n = ([], n)"
| "input_forms (p # ps) n =
     (let (f, n1) = fromInterval (Fin (fst p)) (Fin (snd p)) n; (fs, n2) = input_forms ps n1 in (f # fs, n2))"

definition in_interval :: "real \<times> real \<Rightarrow> real \<Rightarrow> bool" where
  "in_interval p x \<longleftrightarrow> fst p \<le> x \<and> x \<le> snd p"

section \<open>Enclosure\<close>

lemma snd_fromInterval: "snd (fromInterval lo hi n) = n + 1"
  by (simp add: fromInterval_def Let_def)

lemma input_forms_denote:
  assumes "assignment e" "list_all2 in_interval ps xs"
  shows "\<exists>e'. extends_noise n e e' \<and> n \<le> snd (input_forms ps n) \<and>
    list_all2 (denotes e' (snd (input_forms ps n))) (fst (input_forms ps n)) xs"
  using assms(2,1)
proof (induction ps xs arbitrary: e n rule: list_all2_induct)
  case Nil
  then show ?case by (auto simp: extends_noise_def)
next
  case (Cons p ps x xs)
  let ?m = "snd (input_forms ps (n + 1))"
  obtain e1 where e1: "extends_noise n e e1" "denotes e1 (n + 1) (fst (fromInterval (Fin (fst p)) (Fin (snd p)) n)) x"
    using denotes_fromInterval [of e "fst p" x "snd p" n] Cons by (auto simp: in_interval_def)
  then obtain e2 where e2: "extends_noise (n + 1) e1 e2" "n + 1 \<le> ?m"
    "list_all2 (denotes e2 ?m) (fst (input_forms ps (n + 1))) xs"
    using Cons.IH [of e1 "n + 1"] by (auto simp: extends_noise_def)
  have "denotes e2 ?m (fst (fromInterval (Fin (fst p)) (Fin (snd p)) n)) x"
    using denotes_extend [OF e1(2) e2(1,2)] .
  moreover have "extends_noise n e e2" using extends_noise_trans [OF e1(1) e2(1)] by simp
  ultimately show ?case using e2(2,3)
    by (intro exI [of _ e2]) (auto simp: case_prod_beta Let_def snd_fromInterval)
qed

lemma list_all2_denotes_extend:
  assumes "list_all2 (denotes e n) fs xs" "extends_noise n e e'" "n \<le> m"
  shows "list_all2 (denotes e' m) fs xs"
  using assms(1) by (rule list_all2_mono) (rule denotes_extend [OF _ assms(2,3)])

text \<open>A computation from the counter \<open>n\<close> with result \<open>p\<close>, a form and the next counter, denotes \<open>r\<close>.\<close>

definition sound_at :: "nat \<Rightarrow> affine list \<Rightarrow> real list \<Rightarrow> affine \<times> nat \<Rightarrow> real \<Rightarrow> bool" where
  "sound_at n fs xs p r \<longleftrightarrow> (\<forall>e. assignment e \<longrightarrow> list_all2 (denotes e n) fs xs \<longrightarrow>
     (\<exists>e'. extends_noise n e e' \<and> n \<le> snd p \<and> denotes e' (snd p) (fst p) r))"

lemma two_operands:
  assumes "sound_at n fs xs p r" "sound_at (snd p) fs xs q s" "assignment e" "list_all2 (denotes e n) fs xs"
  shows "\<exists>e'. extends_noise n e e' \<and> n \<le> snd q \<and> denotes e' (snd q) (fst p) r \<and> denotes e' (snd q) (fst q) s"
proof -
  obtain e1 where e1: "extends_noise n e e1" "n \<le> snd p" "denotes e1 (snd p) (fst p) r"
    using assms unfolding sound_at_def by blast
  have "assignment e1" using e1(1) by (simp add: extends_noise_def)
  moreover have "list_all2 (denotes e1 (snd p)) fs xs" by (rule list_all2_denotes_extend [OF assms(4) e1(1,2)])
  ultimately obtain e2 where e2: "extends_noise (snd p) e1 e2" "snd p \<le> snd q" "denotes e2 (snd q) (fst q) s"
    using assms(2) unfolding sound_at_def by blast
  have "denotes e2 (snd q) (fst p) r" by (rule denotes_extend [OF e1(3) e2(1,2)])
  then show ?thesis using extends_noise_trans [OF e1(1) e2(1) e1(2)] e1(2) e2 le_trans by blast
qed

lemma sound_input: "i < length xs \<Longrightarrow> sound_at n fs xs (fs ! i, n) (xs ! i)"
  unfolding sound_at_def by (auto simp: extends_noise_def list_all2_conv_all_nth)

text \<open>An operation is sound on two forms when its result denotes the exact result, possibly with one more symbol.\<close>

definition sound_op :: "nat \<Rightarrow> affine \<Rightarrow> affine \<Rightarrow> affine \<times> nat \<Rightarrow> (real \<Rightarrow> real \<Rightarrow> real) \<Rightarrow> bool" where
  "sound_op n x y p opr \<longleftrightarrow> (\<forall>e r s. assignment e \<longrightarrow> denotes e n x r \<longrightarrow> denotes e n y s \<longrightarrow>
     (\<exists>e'. extends_noise n e e' \<and> n \<le> snd p \<and> denotes e' (snd p) (fst p) (opr r s)))"

lemma sound_op_add: "sound_op n x y (add_affine x y, n) (+)" "sound_op n x y (sub_affine x y, n) (-)"
  unfolding sound_op_def using denotes_add by (auto simp: extends_noise_def)

lemma sound_op_mul: "sound_op n x y (mul_affine x y n) (*)"
  unfolding sound_op_def using denotes_mul by blast

lemma sound_op_num:
  "sound_op n x x (add_num x (Fin k), n) (\<lambda>r s. r + k)"
  "sound_op n x x (sub_num x (Fin k), n) (\<lambda>r s. r - k)"
  "sound_op n x x (mul_num x (Fin k), n) (\<lambda>r s. r * k)"
  unfolding sound_op_def using denotes_num by (auto simp: extends_noise_def)

lemma sound_binary:
  assumes "sound_at n fs xs p r" "sound_at (snd p) fs xs q s" "sound_op (snd q) (fst p) (fst q) t opr"
  shows "sound_at n fs xs t (opr r s)"
  unfolding sound_at_def
proof (intro allI impI)
  fix e assume e: "assignment e" "list_all2 (denotes e n) fs xs"
  obtain e1 where e1: "extends_noise n e e1" "n \<le> snd q" "denotes e1 (snd q) (fst p) r" "denotes e1 (snd q) (fst q) s"
    using two_operands [OF assms(1,2) e] by blast
  then obtain e2 where e2: "extends_noise (snd q) e1 e2" "snd q \<le> snd t" "denotes e2 (snd t) (fst t) (opr r s)"
    using assms(3) unfolding sound_op_def extends_noise_def by blast
  then show "\<exists>e'. extends_noise n e e' \<and> n \<le> snd t \<and> denotes e' (snd t) (fst t) (opr r s)"
    using extends_noise_trans [OF e1(1) e2(1) e1(2)] e1(2) by (intro exI [of _ e2]) simp
qed

lemma sound_unary:
  assumes "sound_at n fs xs p r" "sound_op (snd p) (fst p) (fst p) t (\<lambda>r s. opr r)"
  shows "sound_at n fs xs t (opr r)"
  unfolding sound_at_def
proof (intro allI impI)
  fix e assume e: "assignment e" "list_all2 (denotes e n) fs xs"
  obtain e1 where e1: "extends_noise n e e1" "n \<le> snd p" "denotes e1 (snd p) (fst p) r"
    using assms(1) e unfolding sound_at_def by blast
  then obtain e2 where e2: "extends_noise (snd p) e1 e2" "snd p \<le> snd t" "denotes e2 (snd t) (fst t) (opr r)"
    using assms(2) unfolding sound_op_def extends_noise_def by blast
  then show "\<exists>e'. extends_noise n e e' \<and> n \<le> snd t \<and> denotes e' (snd t) (fst t) (opr r)"
    using extends_noise_trans [OF e1(1) e2(1) e1(2)] e1(2) by (intro exI [of _ e2]) simp
qed

section \<open>The exponential\<close>

text \<open>How far the exponential falls below the chord of an interval.\<close>

lemma exp_chord:
  fixes lo hi x :: real
  assumes "lo < hi" "lo \<le> x" "x \<le> hi"
  defines "gap \<equiv> ((hi - x) * exp lo + (x - lo) * exp hi) / (hi - lo) - exp x"
  shows "0 \<le> gap" "gap \<le> (x - lo) * (hi - x) / (hi - lo) * (exp hi - exp lo)"
proof -
  have "0 \<le> gap \<and> gap \<le> (x - lo) * (hi - x) / (hi - lo) * (exp hi - exp lo)"
  proof (cases "lo < x \<and> x < hi")
    case True
    have "\<exists>z. lo < z \<and> z < x \<and> exp x - exp lo = (x - lo) * exp z"
      using True by (intro MVT2) (auto intro!: derivative_eq_intros)
    then obtain z1 where z1: "lo < z1" "z1 < x" "exp x - exp lo = (x - lo) * exp z1" by auto
    have "\<exists>z. x < z \<and> z < hi \<and> exp hi - exp x = (hi - x) * exp z"
      using True by (intro MVT2) (auto intro!: derivative_eq_intros)
    then obtain z2 where z2: "x < z2" "z2 < hi" "exp hi - exp x = (hi - x) * exp z2" by auto
    have "gap = ((x - lo) * (exp hi - exp x) - (hi - x) * (exp x - exp lo)) / (hi - lo)"
      using assms(1) unfolding gap_def by (simp add: field_simps)
    moreover have num: "(x - lo) * ((hi - x) * exp z2) - (hi - x) * ((x - lo) * exp z1) = (x - lo) * (hi - x) * (exp z2 - exp z1)"
      by (simp add: algebra_simps)
    ultimately have gap: "gap = (x - lo) * (hi - x) / (hi - lo) * (exp z2 - exp z1)"
      unfolding z1(3) z2(3) num by simp
    have c: "0 \<le> (x - lo) * (hi - x) / (hi - lo)" using True by simp
    have "exp z1 \<le> exp z2" "exp lo \<le> exp z1" "exp z2 \<le> exp hi" using z1 z2 by simp_all
    then show ?thesis unfolding gap using c by (intro conjI mult_nonneg_nonneg mult_left_mono) linarith+
  next
    case False
    then have "x = lo \<or> x = hi" using assms by linarith
    then show ?thesis using assms(1) unfolding gap_def by auto
  qed
  then show "0 \<le> gap" "gap \<le> (x - lo) * (hi - x) / (hi - lo) * (exp hi - exp lo)" by simp_all
qed

text \<open>The line the code takes, and its error bound, which is enough on an interval narrower than 1.\<close>

definition line_slope :: "real \<Rightarrow> real \<Rightarrow> real" where
  "line_slope lo hi = (exp hi - exp lo) / (hi - lo + 1 / 10 ^ 10)"

definition line_start :: "real \<Rightarrow> real \<Rightarrow> real" where
  "line_start lo hi = (exp lo + exp hi) / 2 - line_slope lo hi * (lo + hi) / 2"

definition line_error :: "real \<Rightarrow> real \<Rightarrow> real" where
  "line_error lo hi = (exp hi - exp lo) / 2 - line_slope lo hi * (hi - lo) / 4"

lemma line_encloses:
  assumes x: "lo \<le> x" "x \<le> hi" and narrow: "hi - lo \<le> 1 - 1 / 10 ^ 10"
  shows "\<bar>exp x - (line_start lo hi + line_slope lo hi * x)\<bar> \<le> line_error lo hi"
proof (cases "lo < hi")
  case False
  then have "lo = x" "hi = x" using x by simp_all
  then show ?thesis by (simp add: line_start_def line_slope_def line_error_def)
next
  case True
  define w D v where "w = hi - lo" and "D = exp hi - exp lo" and "v = w + 1 / 10 ^ 10"
  define t where "t = (x - lo) / w"
  have w: "0 < w" "w < v" "v \<le> 1" using True narrow by (simp_all add: w_def v_def)
  have t: "0 \<le> t" "t \<le> 1" using x w by (simp_all add: t_def w_def)
  have D: "0 < D" using True by (simp add: D_def)
  have xt: "x = lo + t * w" using w by (simp add: t_def)
  define gap where "gap = ((hi - x) * exp lo + (x - lo) * exp hi) / (hi - lo) - exp x"
  have chord: "((hi - x) * exp lo + (x - lo) * exp hi) / (hi - lo) = exp lo + t * D"
    using w by (simp add: xt w_def [symmetric] D_def field_simps) (simp add: w_def algebra_simps)
  have "(x - lo) * (hi - x) / (hi - lo) * (exp hi - exp lo) = t * (1 - t) * w * D"
    using w by (simp add: xt w_def [symmetric] D_def [symmetric]) (simp add: w_def algebra_simps)
  then have gap: "0 \<le> gap" "gap \<le> t * (1 - t) * w * D"
    using exp_chord [OF True x] unfolding gap_def [symmetric] by simp_all
  have slope: "line_slope lo hi = D / v" by (simp add: line_slope_def D_def v_def w_def)
  have line: "line_start lo hi + line_slope lo hi * x = exp lo + t * D + (1 / 2 - t) * (1 - w / v) * D"
  proof -
    have "line_start lo hi + line_slope lo hi * x = (exp lo + exp hi) / 2 + D / v * (x - (lo + hi) / 2)"
      by (simp add: line_start_def slope algebra_simps add_divide_distrib)
    also have "(lo + hi) / 2 = lo + w / 2" by (simp add: w_def field_simps)
    also have "x - (lo + w / 2) = (t - 1 / 2) * w" unfolding xt by (simp add: algebra_simps)
    also have "(exp lo + exp hi) / 2 = exp lo + D / 2" by (simp add: D_def field_simps)
    also have "exp lo + D / 2 + D / v * ((t - 1 / 2) * w) = exp lo + t * D + (1 / 2 - t) * (1 - w / v) * D"
      using w by (simp add: field_simps)
    finally show ?thesis .
  qed
  have err: "line_error lo hi = (1 / 2 - w / v / 4) * D"
    by (simp add: line_error_def slope D_def [symmetric] w_def [symmetric] algebra_simps)
  define q where "q = w / v"
  have q: "0 \<le> q" "q \<le> 1" "w \<le> q" using w by (simp_all add: q_def field_simps)
  have diff: "exp x - (line_start lo hi + line_slope lo hi * x) = - gap - (1 / 2 - t) * (1 - q) * D"
    unfolding line gap_def chord q_def by simp
  have tt: "t * (1 - t) \<le> 1 / 4" using zero_le_power2 [of "t - 1 / 2"] by (simp add: power2_eq_square algebra_simps)
  have "t * (1 - t) * w \<le> 1 / 4 * q" using tt q w t by (intro mult_mono) simp_all
  then have "t * (1 - t) * w * D \<le> 1 / 4 * q * D" using D by (intro mult_right_mono) simp_all
  then have g: "gap \<le> q / 4 * D" using gap(2) by simp
  have k: "(1 / 2 - t) * (1 - q) \<le> 1 / 2 * (1 - q)" "- (1 / 2) * (1 - q) \<le> (1 / 2 - t) * (1 - q)"
    using t q by (intro mult_right_mono; simp)+
  have h: "(1 / 2 - t) * (1 - q) * D \<le> 1 / 2 * (1 - q) * D" "- (1 / 2) * (1 - q) * D \<le> (1 / 2 - t) * (1 - q) * D"
    by (rule mult_right_mono [OF k(1) less_imp_le [OF D]], rule mult_right_mono [OF k(2) less_imp_le [OF D]])
  have e: "1 / 2 * (1 - q) * D = D / 2 - q * D / 2" "- (1 / 2) * (1 - q) * D = q * D / 2 - D / 2"
    "(1 / 2 - q / 4) * D = D / 2 - q * D / 4" "q / 4 * D = q * D / 4"
    by (simp_all add: field_simps)
  have "0 \<le> q * D" using q D by simp
  then show ?thesis
    unfolding diff err q_def [symmetric] e(3) using g [unfolded e(4)] h [unfolded e(1,2)] gap(1) by linarith
qed

lemma exp_form:
  assumes "lower \<lparr>af_center = Fin c, af_coeffs = emb ks\<rparr> = Fin lo" "upper \<lparr>af_center = Fin c, af_coeffs = emb ks\<rparr> = Fin hi"
    "lo \<le> hi"
  defines "ls \<equiv> map (\<lambda>(i, x). (i, line_slope lo hi * x)) ks" and "b \<equiv> line_start lo hi + line_slope lo hi * c"
  shows "exp_affine \<lparr>af_center = Fin c, af_coeffs = emb ks\<rparr> n =
    (if line_error lo hi > 0
     then (\<lparr>af_center = Fin b, af_coeffs = emb (map_set n (line_error lo hi) ls)\<rparr>, n + 1)
     else (\<lparr>af_center = Fin b, af_coeffs = emb ls\<rparr>, n))"
proof -
  have slope: "(Fin (exp hi) - Fin (exp lo)) / (Fin hi - Fin lo + Fin (1 / 10 ^ 10)) = Fin (line_slope lo hi)"
    using assms(3) by (simp add: line_slope_def add_nonneg_eq_0_iff)
  have start: "(Fin (exp lo) + Fin (exp hi)) / 2 - Fin (line_slope lo hi) * (Fin lo + Fin hi) / 2 = Fin (line_start lo hi)"
    by (simp add: line_start_def)
  have err: "(Fin (exp hi) - Fin (exp lo)) / 2 - Fin (line_slope lo hi) * (Fin hi - Fin lo) / 4 = Fin (line_error lo hi)"
    by (simp add: line_error_def)
  have scaled: "map (\<lambda>(i, x). (i, Fin (line_slope lo hi) * x)) (emb ks) = emb ls" unfolding ls_def by (rule emb_scale) simp
  show ?thesis
    unfolding exp_affine_def assms(1,2) jexp.simps Let_def slope start err affine.simps scaled by (simp add: b_def)
qed

lemma sound_op_exp:
  assumes "upper x - lower x \<le> Fin (1 - 1 / 10 ^ 10)"
  shows "sound_op n x x (exp_affine x n) (\<lambda>r s. exp r)"
  unfolding sound_op_def
proof (intro allI impI)
  fix e r s assume e: "assignment e" and x: "denotes e n x r"
  obtain c ks where c: "x = \<lparr>af_center = Fin c, af_coeffs = emb ks\<rparr>" "distinct (map fst ks)" "\<forall>i \<in> fst ` set ks. i < n"
    "r = c + noise_sum e ks" using x unfolding denotes_def by blast
  obtain lo hi where b: "lower x = Fin lo" "upper x = Fin hi" "lo \<le> r" "r \<le> hi" using denotes_bounds [OF x e] by blast
  have narrow: "hi - lo \<le> 1 - 1 / 10 ^ 10" using assms b by simp
  define a err st where "a = line_slope lo hi" and "err = line_error lo hi" and "st = line_start lo hi + a * c"
  define ls where "ls = map (\<lambda>(i, x). (i, a * x)) ks"
  have form: "exp_affine x n = (if err > 0 then (\<lparr>af_center = Fin st, af_coeffs = emb (map_set n err ls)\<rparr>, n + 1)
      else (\<lparr>af_center = Fin st, af_coeffs = emb ls\<rparr>, n))"
    using exp_form [of c ks lo hi n] b unfolding c(1) a_def err_def st_def ls_def by simp
  have ls: "distinct (map fst ls)" "\<forall>i \<in> fst ` set ls. i < n" using c(2,3) by (auto simp: ls_def comp_def case_prod_beta)
  have lin: "noise_sum e' ls = a * noise_sum e' ks" for e'
    using noise_sum_scale [of e' a ks] by (simp add: ls_def mult.commute)
  define res where "res = exp r - (st + noise_sum e ls)"
  have "st + noise_sum e ls = line_start lo hi + a * r" unfolding lin st_def c(4) by (simp add: algebra_simps)
  then have res: "\<bar>res\<bar> \<le> err" using line_encloses [OF b(3,4) narrow] by (simp add: res_def a_def err_def)
  show "\<exists>e'. extends_noise n e e' \<and> n \<le> snd (exp_affine x n) \<and> denotes e' (snd (exp_affine x n)) (fst (exp_affine x n)) (exp r)"
  proof (cases "err > 0")
    case True
    let ?e = "e(n := res / err)"
    have fresh: "real_coeff ls n = 0" using ls(2) by (force simp: real_coeff_def dest: map_of_SomeD split: option.splits)
    have "noise_sum ?e ls = noise_sum e ls" using ls(2) by (intro noise_sum_cong) auto
    then have "st + noise_sum ?e (map_set n err ls) = exp r"
      using noise_sum_set [of ?e n ls err] fresh True by (simp add: res_def)
    moreover have "distinct (map fst (map_set n err ls))" using map_ok_set [of ls n] ls(1) by (simp add: map_ok_def)
    moreover have "\<forall>i \<in> fst ` set (map_set n err ls). i < n + 1" using ls(2) keys_map_set [of n err ls] by (auto simp: less_Suc_eq)
    ultimately have "denotes ?e (n + 1) \<lparr>af_center = Fin st, af_coeffs = emb (map_set n err ls)\<rparr> (exp r)"
      unfolding denotes_def by (intro exI [of _ st] exI [of _ "map_set n err ls"]) simp
    moreover have "extends_noise n e ?e" using extends_update [OF e, of "res / err" n] res True by (simp add: abs_divide)
    ultimately show ?thesis unfolding form using True by auto
  next
    case False
    then have "exp r = st + noise_sum e ls" using res by (simp add: res_def)
    then have "denotes e n \<lparr>af_center = Fin st, af_coeffs = emb ls\<rparr> (exp r)"
      unfolding denotes_def using ls by (intro exI [of _ st] exI [of _ ls]) simp
    moreover have "extends_noise n e e" using e by (simp add: extends_noise_def)
    ultimately show ?thesis unfolding form using False by auto
  qed
qed

section \<open>Expressions are enclosed\<close>

lemma affine_value_sound:
  "inputs_below (length xs) a \<Longrightarrow> narrow_exp fs a n \<Longrightarrow> sound_at n fs xs (affine_value fs a n) (exact_value xs a)"
proof (induction a arbitrary: n)
  case (Input i)
  then show ?case using sound_input by simp
next
  case (AddE a b)
  then show ?case
    using sound_binary [OF AddE.IH(1) AddE.IH(2) sound_op_add(1)] by (simp add: case_prod_beta Let_def)
next
  case (SubE a b)
  then show ?case
    using sound_binary [OF SubE.IH(1) SubE.IH(2) sound_op_add(2)] by (simp add: case_prod_beta Let_def)
next
  case (MulE a b)
  then show ?case
    using sound_binary [OF MulE.IH(1) MulE.IH(2) sound_op_mul] by (simp add: case_prod_beta Let_def)
next
  case (AddNum a k)
  then show ?case using sound_unary [OF AddNum.IH sound_op_num(1)] by (simp add: case_prod_beta Let_def)
next
  case (SubNum a k)
  then show ?case using sound_unary [OF SubNum.IH sound_op_num(2)] by (simp add: case_prod_beta Let_def)
next
  case (MulNum a k)
  then show ?case using sound_unary [OF MulNum.IH sound_op_num(3)] by (simp add: case_prod_beta Let_def)
next
  case (ExpE a)
  then show ?case using sound_unary [OF ExpE.IH sound_op_exp] by (simp add: case_prod_beta Let_def)
qed

text \<open>
  C23: Affine arithmetic is sound: give every uncertain input an interval and evaluate any expression built from
  the operations of \<open>Affine\<close> (sum, difference and product of forms and with numbers, and exponentials, with inputs used as often
  as one likes), where the forms whose exponential is taken are narrower than 1; for every choice of the inputs within their intervals the exact value of the expression lies
  between \<open>lower()\<close> and \<open>upper()\<close> of the resulting form, which are finite.
\<close>

theorem affine_encloses:
  assumes "list_all2 in_interval ps xs" "inputs_below (length ps) ex"
    "narrow_exp (fst (input_forms ps n)) ex (snd (input_forms ps n))"
  shows "\<exists>l u. lower (fst (affine_value (fst (input_forms ps n)) ex (snd (input_forms ps n)))) = Fin l \<and>
    upper (fst (affine_value (fst (input_forms ps n)) ex (snd (input_forms ps n)))) = Fin u \<and>
    l \<le> exact_value xs ex \<and> exact_value xs ex \<le> u"
proof -
  let ?fs = "fst (input_forms ps n)" and ?n = "snd (input_forms ps n)"
  have "assignment (\<lambda>_. 0)" by (simp add: assignment_def)
  from input_forms_denote [OF this assms(1), of n]
  obtain e where e: "extends_noise n (\<lambda>_. 0) e" "list_all2 (denotes e ?n) ?fs xs" by blast
  have len: "length ps = length xs" using assms(1) by (rule list_all2_lengthD)
  have "sound_at ?n ?fs xs (affine_value ?fs ex ?n) (exact_value xs ex)"
    using affine_value_sound assms(2,3) len by simp
  then obtain e' where "extends_noise ?n e e'"
    "denotes e' (snd (affine_value ?fs ex ?n)) (fst (affine_value ?fs ex ?n)) (exact_value xs ex)"
    using e unfolding sound_at_def extends_noise_def by blast
  then show ?thesis using denotes_bounds unfolding extends_noise_def by blast
qed

theorem affine_encloses_witness:
  "\<exists>l u. lower (fst (affine_value (fst (input_forms [(0, 1 / 2), (3, 5)] 0)) (SubE (MulE (ExpE (Input 0)) (Input 1)) (Input 0))
      (snd (input_forms [(0, 1 / 2), (3, 5)] 0)))) = Fin l \<and>
    upper (fst (affine_value (fst (input_forms [(0, 1 / 2), (3, 5)] 0)) (SubE (MulE (ExpE (Input 0)) (Input 1)) (Input 0))
      (snd (input_forms [(0, 1 / 2), (3, 5)] 0)))) = Fin u \<and> l \<le> exp (1 / 4) * 4 - 1 / 4 \<and> exp (1 / 4) * 4 - 1 / 4 \<le> u"
  using affine_encloses [of "[(0, 1 / 2), (3, 5)]" "[1 / 4, 4]" "SubE (MulE (ExpE (Input 0)) (Input 1)) (Input 0)" 0]
  by (simp add: in_interval_def fromInterval_def lower_def upper_def radius_def Let_def)

text \<open>
  On wide arguments the error \<open>exp\<close> adds is too small, about a quarter of the range of the values where the chord is further away: for an
  input in [0, 10] the form of \<open>exp(x) - s x\<close>, with \<open>s\<close> the slope of the chord, does not reach down to the value at 7.
\<close>

lemma wide_exp_not_enclosed:
  fixes s :: real
  defines "s \<equiv> (exp 10 - 1) / 10"
  shows "\<exists>l. lower (fst (affine_value (fst (input_forms [(0, 10)] 0)) (SubE (ExpE (Input 0)) (MulNum (Input 0) s)) 1)) = Fin l \<and>
    exact_value [7] (SubE (ExpE (Input 0)) (MulNum (Input 0) s)) < l"
proof -
  let ?x = "\<lparr>af_center = Fin 5, af_coeffs = emb [(0, 5)]\<rparr>"
  define D where "D = exp 10 - (1 :: real)"
  define a where "a = line_slope 0 10"
  define err where "err = line_error 0 10"
  have input: "fst (input_forms [(0, 10)] 0) = [?x]" by (simp add: fromInterval_def Let_def)
  have D: "0 < D" by (simp add: D_def)
  have a: "a = D / (10 + 1 / 10 ^ 10)" "0 < a" "a \<le> D / 10" "(1 - 1 / 10 ^ 10) * D / 10 \<le> a"
    using D by (simp_all add: a_def line_slope_def D_def [symmetric] field_simps)
  have err: "err = D / 2 - a * 10 / 4" by (simp add: err_def line_error_def a_def D_def)
  have "0 < err" using a D unfolding err by simp
  then have form: "exp_affine ?x 1 = (\<lparr>af_center = Fin (line_start 0 10 + a * 5), af_coeffs = emb [(0, a * 5), (1, err)]\<rparr>, 2)"
    using exp_form [of 5 "[(0, 5)]" 0 10 1] by (simp add: lower_def upper_def radius_def a_def err_def numeral_2_eq_2)
  have center: "line_start 0 10 + a * 5 - 5 * s = 1" by (simp add: line_start_def a_def s_def field_simps)
  have "lower (fst (affine_value [?x] (SubE (ExpE (Input 0)) (MulNum (Input 0) s)) 1)) =
      Fin (line_start 0 10 + a * 5 - 5 * s - (\<bar>a * 5 - 5 * s\<bar> + \<bar>err\<bar>))"
    by (simp add: form [simplified] sub_affine_def mul_num_def add_coeff_def coeff_or0_def lower_def radius_def)
  moreover have "exp 7 - 7 * s < line_start 0 10 + a * 5 - 5 * s - (\<bar>a * 5 - 5 * s\<bar> + \<bar>err\<bar>)"
  proof -
    have "exp (10 :: real) = exp 7 * exp 3" by (simp flip: exp_add)
    moreover have "(4 :: real) \<le> exp 3" using exp_ge_add_one_self [of 3] by simp
    ultimately have "4 * exp 7 \<le> exp (10 :: real)" by (simp add: mult.commute)
    then have e: "4 * exp 7 \<le> D + 1" by (simp add: D_def)
    have s: "s = D / 10" by (simp add: s_def D_def)
    have "\<bar>a * 5 - 5 * s\<bar> = 5 * (D / 10 - a)" using a(3) by (simp add: s)
    then show ?thesis unfolding center using e a D \<open>0 < err\<close> unfolding err s by simp
  qed
  ultimately show ?thesis unfolding input exact_value.simps nth_Cons_0 by (simp only: mult.commute [of 7]) blast
qed

text \<open>
  The panel's position and position with return enclose the product of any price within one percent of the
  last price, any quantity within five percent of one and any return within the estimated uncertainty.
\<close>

theorem position_encloses:
  assumes "in_interval (s * (99 / 100), s * (101 / 100)) p" "in_interval (95 / 100, 105 / 100) q"
    "in_interval (1 + m - w, 1 + m + w) t"
  shows "\<exists>l u. lower (fst (position_forms (Fin s) (Fin m) (Fin w))) = Fin l \<and>
      upper (fst (position_forms (Fin s) (Fin m) (Fin w))) = Fin u \<and> l \<le> p * q \<and> p * q \<le> u"
    and "\<exists>l u. lower (snd (position_forms (Fin s) (Fin m) (Fin w))) = Fin l \<and>
      upper (snd (position_forms (Fin s) (Fin m) (Fin w))) = Fin u \<and> l \<le> p * q * t \<and> p * q * t \<le> u"
proof -
  define pf where "pf = fst (fromInterval (Fin (s * (99 / 100))) (Fin (s * (101 / 100))) 0)"
  define qf where "qf = fst (fromInterval (Fin (95 / 100)) (Fin (105 / 100)) 1)"
  define v where "v = mul_affine pf qf 2"
  define tf where "tf = fst (fromInterval (Fin (1 + m - w)) (Fin (1 + m + w)) (snd v))"
  have forms: "position_forms (Fin s) (Fin m) (Fin w) = (fst v, fst (mul_affine (fst v) tf (snd v + 1)))"
    unfolding position_forms_def pf_def qf_def v_def tf_def
    by (simp add: case_prod_beta Let_def snd_fromInterval numeral_2_eq_2)
  have "assignment (\<lambda>_. 0)" by (simp add: assignment_def)
  moreover have "s * (99 / 100) \<le> p" "p \<le> s * (101 / 100)" using assms(1) by (simp_all add: in_interval_def)
  ultimately obtain e1 where "extends_noise 0 (\<lambda>_. 0) e1"
    "denotes e1 (0 + 1) (fst (fromInterval (Fin (s * (99 / 100))) (Fin (s * (101 / 100))) 0)) p"
    using denotes_fromInterval by blast
  then have e1: "assignment e1" "denotes e1 1 pf p" by (simp_all add: pf_def extends_noise_def)
  obtain e2 where e2: "extends_noise 1 e1 e2" "denotes e2 2 qf q"
    using denotes_fromInterval [of e1 "95 / 100" q "105 / 100" 1] assms(2) e1(1)
    by (auto simp: in_interval_def qf_def numeral_2_eq_2)
  have a2: "assignment e2" using e2(1) by (simp add: extends_noise_def)
  have p2: "denotes e2 2 pf p" using denotes_extend [OF e1(2) e2(1)] by simp
  obtain e3 where e3: "extends_noise 2 e2 e3" "denotes e3 (snd v) (fst v) (p * q)"
    using denotes_mul(1) [OF a2 p2 e2(2)] unfolding v_def by blast
  have a3: "assignment e3" using e3(1) by (simp add: extends_noise_def)
  then show "\<exists>l u. lower (fst (position_forms (Fin s) (Fin m) (Fin w))) = Fin l \<and>
      upper (fst (position_forms (Fin s) (Fin m) (Fin w))) = Fin u \<and> l \<le> p * q \<and> p * q \<le> u"
    unfolding forms fst_conv using denotes_bounds [OF e3(2)] by blast
  obtain e4 where e4: "extends_noise (snd v) e3 e4" "denotes e4 (snd v + 1) tf t"
    using denotes_fromInterval [OF a3, of "1 + m - w" t "1 + m + w" "snd v"] assms(3)
    by (auto simp: in_interval_def tf_def)
  have a4: "assignment e4" using e4(1) by (simp add: extends_noise_def)
  have "denotes e4 (snd v + 1) (fst v) (p * q)" using denotes_extend [OF e3(2) e4(1)] by simp
  from denotes_mul(1) [OF a4 this e4(2)]
  show "\<exists>l u. lower (snd (position_forms (Fin s) (Fin m) (Fin w))) = Fin l \<and>
      upper (snd (position_forms (Fin s) (Fin m) (Fin w))) = Fin u \<and> l \<le> p * q * t \<and> p * q * t \<le> u"
    unfolding forms snd_conv using denotes_bounds unfolding extends_noise_def by blast
qed

end
