(* ===== verification/JsDecimal.thy ===== *)
theory JsDecimal
  imports JsText
begin

text \<open>
  Decimal text of JavaScript numbers: \<open>parseFloat\<close>, \<open>toFixed\<close> and \<open>Number(x.toFixed(d))\<close>, and that parsing undoes
  printing. Numbers from 1e21 on, which \<open>toFixed\<close> prints with an exponent, keep their value.
\<close>

section \<open>parseFloat\<close>

definition is_dec :: "char \<Rightarrow> bool" where
  "is_dec c \<longleftrightarrow> c \<in> set ''0123456789''"

definition is_js_space :: "char \<Rightarrow> bool" where
  "is_js_space c \<longleftrightarrow> (of_char c :: nat) \<in> {9, 10, 11, 12, 13, 32, 160}"

definition parse_exponent :: "string \<Rightarrow> int" where
  "parse_exponent s =
     (case s of
        [] \<Rightarrow> 0
      | c # cs \<Rightarrow>
          if c \<in> {CHR ''e'', CHR ''E''}
          then let neg = (take 1 cs = ''-''); ds = takeWhile is_dec (if take 1 cs \<in> {''-'', ''+''} then tl cs else cs);
                   e = int (read_nat ds)
               in if ds = [] then 0 else if neg then - e else e
          else 0)"

definition parse_unsigned :: "string \<Rightarrow> jsnum" where
  "parse_unsigned s =
     (if starts_with ''Infinity'' s then PInf
      else
        let ip = takeWhile is_dec s;
            rest = dropWhile is_dec s;
            point = (take 1 rest = ''.'');
            fp = (if point then takeWhile is_dec (tl rest) else []);
            rest2 = (if point then dropWhile is_dec (tl rest) else rest)
        in if ip = [] \<and> fp = [] then NaN
           else Fin ((real (read_nat ip) + real (read_nat fp) / 10 ^ length fp) * 10 powi parse_exponent rest2))"

definition parse_float_js :: "string \<Rightarrow> jsnum" where
  "parse_float_js s =
     (let t = dropWhile is_js_space s
      in if take 1 t = ''-'' then - parse_unsigned (tl t)
         else if take 1 t = ''+'' then parse_unsigned (tl t)
         else parse_unsigned t)"

section \<open>toFixed\<close>

definition fixed_digits :: "nat \<Rightarrow> real \<Rightarrow> nat" where
  "fixed_digits d x = nat \<lfloor>\<bar>x\<bar> * 10 ^ d + 1 / 2\<rfloor>"

definition pad_zeros :: "nat \<Rightarrow> string \<Rightarrow> string" where
  "pad_zeros d s = replicate (d - length s) CHR ''0'' @ s"

fun show_fixed :: "nat \<Rightarrow> jsnum \<Rightarrow> string" where
  "show_fixed d (Fin x) =
     (let n = fixed_digits d x
      in (if x < 0 then ''-'' else []) @ show_nat (n div 10 ^ d) @
         (if d = 0 then [] else ''.'' @ pad_zeros d (show_nat (n mod 10 ^ d))))"
| "show_fixed d PInf = ''Infinity''"
| "show_fixed d NInf = ''-Infinity''"
| "show_fixed d NaN = ''NaN''"

text \<open>\<open>Number(x.toFixed(d))\<close>: the nearest decimal, a tie away from zero.\<close>

fun to_fixed :: "nat \<Rightarrow> jsnum \<Rightarrow> jsnum" where
  "to_fixed d (Fin x) =
     (if \<bar>x\<bar> \<ge> 10 ^ 21 then Fin x
      else Fin (sgn x * (real_of_int \<lfloor>\<bar>x\<bar> * 10 ^ d + 1 / 2\<rfloor> / 10 ^ d)))"
| "to_fixed d v = v"

lemma to_fixed_mono:
  assumes "0 \<le> x" "x \<le> y" "y < 10 ^ 21"
  shows "\<exists>a b. to_fixed d (Fin x) = Fin a \<and> to_fixed d (Fin y) = Fin b \<and> a \<le> b"
proof -
  have pos: "to_fixed d (Fin z) = Fin (real_of_int \<lfloor>z * 10 ^ d + 1 / 2\<rfloor> / 10 ^ d)" if "0 \<le> z" "z < 10 ^ 21" for z
  proof (cases "z = 0")
    case False
    then have "sgn z = 1" using that by simp
    then show ?thesis using that by simp
  qed simp
  have "\<lfloor>x * 10 ^ d + 1 / 2\<rfloor> \<le> \<lfloor>y * 10 ^ d + 1 / 2\<rfloor>"
    by (rule floor_mono) (use assms in \<open>simp add: mult_right_mono\<close>)
  then have "real_of_int \<lfloor>x * 10 ^ d + 1 / 2\<rfloor> / 10 ^ d \<le> real_of_int \<lfloor>y * 10 ^ d + 1 / 2\<rfloor> / 10 ^ d"
    by (intro divide_right_mono) simp_all
  then show ?thesis using pos [of x] pos [of y] assms by auto
qed

lemma to_fixed_int: "to_fixed d (Fin (of_nat k)) = Fin (of_nat k)"
proof -
  have "\<lfloor>real k * 10 ^ d + 1 / 2\<rfloor> = int k * 10 ^ d" by (rule floor_unique) simp_all
  then show ?thesis by (cases "k = 0") (simp_all add: sgn_if)
qed

section \<open>Parsing undoes printing\<close>

lemma dec_show_nat: "\<forall>c \<in> set (show_nat n). is_dec c"
  using show_nat_digits [of n] unfolding is_dec_def by blast

lemma is_dec_chars: "is_dec CHR ''0''" "\<not> is_dec CHR ''I''" "\<not> is_dec CHR ''.''" "\<not> is_dec CHR ''-''" "\<not> is_dec CHR ''+''"
  by (simp_all add: is_dec_def)

lemma digits_not_space: "\<forall>c \<in> set ''0123456789''. \<not> is_js_space c"
  by code_simp

lemma dec_not_space: "is_dec c \<Longrightarrow> \<not> is_js_space c"
  using digits_not_space unfolding is_dec_def by blast

lemma takeWhile_dec:
  assumes "\<forall>c \<in> set s. is_dec c" "t = [] \<or> \<not> is_dec (hd t)"
  shows "takeWhile is_dec (s @ t) = s" "dropWhile is_dec (s @ t) = t"
proof -
  have "takeWhile is_dec t = []" "dropWhile is_dec t = t" using assms(2) by (cases t; simp)+
  then show "takeWhile is_dec (s @ t) = s" "dropWhile is_dec (s @ t) = t"
    using assms(1) by (simp_all add: takeWhile_append2 dropWhile_append2)
qed

lemma length_show_nat: "0 < d \<Longrightarrow> n < 10 ^ d \<Longrightarrow> length (show_nat n) \<le> d"
proof (induction d arbitrary: n)
  case (Suc d)
  show ?case
  proof (cases "n < 10")
    case False
    then have "0 < d" "n div 10 < 10 ^ d" using Suc.prems by (cases d; auto simp: less_mult_imp_div_less)+
    then show ?thesis using Suc.IH [of "n div 10"] False by (subst show_nat.simps) simp
  qed (subst show_nat.simps, simp)
qed simp

lemma read_nat_zeros: "read_nat (replicate k CHR ''0'' @ s) = read_nat s"
proof -
  have "foldl (\<lambda>n c. 10 * n + digit_val c) 0 (replicate k CHR ''0'') = 0"
    by (induction k) (simp_all add: digit_val_def)
  then show ?thesis by (simp add: read_nat_def)
qed

lemma pad_zeros_read:
  assumes "n < 10 ^ d" "0 < d"
  shows "read_nat (pad_zeros d (show_nat n)) = n" "length (pad_zeros d (show_nat n)) = d"
    "\<forall>c \<in> set (pad_zeros d (show_nat n)). is_dec c"
proof -
  show "read_nat (pad_zeros d (show_nat n)) = n" by (simp add: pad_zeros_def read_nat_zeros read_show_nat)
  show "length (pad_zeros d (show_nat n)) = d" using length_show_nat [OF assms(2,1)] by (simp add: pad_zeros_def)
  show "\<forall>c \<in> set (pad_zeros d (show_nat n)). is_dec c"
    using dec_show_nat [of n] is_dec_chars(1) by (simp add: pad_zeros_def ball_Un)
qed

lemma parse_decimal:
  assumes "0 < d"
  shows "parse_unsigned (show_nat (n div 10 ^ d) @ ''.'' @ pad_zeros d (show_nat (n mod 10 ^ d))) =
    Fin (real n / 10 ^ d)"
proof -
  let ?a = "show_nat (n div 10 ^ d)" and ?b = "pad_zeros d (show_nat (n mod 10 ^ d))"
  have b: "read_nat ?b = n mod 10 ^ d" "length ?b = d" "\<forall>c \<in> set ?b. is_dec c"
    using pad_zeros_read [of "n mod 10 ^ d" d] assms by simp_all
  have cut: "takeWhile is_dec (?a @ ''.'' @ ?b) = ?a" "dropWhile is_dec (?a @ ''.'' @ ?b) = ''.'' @ ?b"
    using takeWhile_dec [OF dec_show_nat, of "''.'' @ ?b"] is_dec_chars(3) by simp_all
  have bs: "takeWhile is_dec ?b = ?b" "dropWhile is_dec ?b = []" using takeWhile_dec [OF b(3), of "[]"] by simp_all
  obtain c cs where c: "?a = c # cs" by (cases ?a) simp_all
  have "is_dec c" using dec_show_nat [of "n div 10 ^ d"] by (simp add: c)
  then have "c \<noteq> CHR ''I''" using is_dec_chars(2) by blast
  then have "\<not> starts_with ''Infinity'' (?a @ ''.'' @ ?b)"
    unfolding c append_Cons starts_with.simps(3) by blast
  moreover have "?a \<noteq> []" by (rule show_nat_not_Nil)
  moreover have "real (n div 10 ^ d) + real (n mod 10 ^ d) / 10 ^ d = real n / 10 ^ d"
  proof -
    have "real n = real (n div 10 ^ d * 10 ^ d + n mod 10 ^ d)" by (simp only: div_mult_mod_eq)
    then have "real n = real (n div 10 ^ d) * 10 ^ d + real (n mod 10 ^ d)"
      by (simp only: of_nat_add of_nat_mult of_nat_power of_nat_numeral)
    then show ?thesis by (simp only: add_divide_distrib) simp
  qed
  ultimately show ?thesis
    unfolding parse_unsigned_def Let_def cut by (simp add: bs b read_show_nat parse_exponent_def)
qed

lemma show_fixed_parse:
  assumes "0 < d" "\<bar>x\<bar> < 10 ^ 21"
  shows "parse_float_js (show_fixed d (Fin x)) = to_fixed d (Fin x)"
proof -
  let ?n = "fixed_digits d x" and ?t = "show_nat (fixed_digits d x div 10 ^ d) @ ''.'' @ pad_zeros d (show_nat (fixed_digits d x mod 10 ^ d))"
  have n: "real ?n = real_of_int \<lfloor>\<bar>x\<bar> * 10 ^ d + 1 / 2\<rfloor>" by (simp add: fixed_digits_def)
  obtain c cs where a: "show_nat (?n div 10 ^ d) = c # cs" by (cases "show_nat (?n div 10 ^ d)") simp_all
  have c: "is_dec c" using dec_show_nat [of "?n div 10 ^ d"] by (simp add: a)
  then have "c \<noteq> CHR ''-''" "c \<noteq> CHR ''+''" "\<not> is_js_space c" using is_dec_chars dec_not_space by blast+
  then have "parse_float_js ?t = parse_unsigned ?t" by (simp add: a parse_float_js_def)
  then have plain: "parse_float_js ?t = Fin (real ?n / 10 ^ d)" using parse_decimal [OF assms(1)] by simp
  have neg: "parse_float_js (CHR ''-'' # ?t) = Fin (- (real ?n / 10 ^ d))"
    using parse_decimal [OF assms(1), of ?n] dec_not_space
    by (simp add: parse_float_js_def) (simp add: is_js_space_def)
  show ?thesis
  proof (cases "x < 0")
    case True
    then show ?thesis using neg assms n by (simp add: Let_def)
  next
    case False
    then have "x = 0 \<or> sgn x = 1" by (cases "x = 0") simp_all
    then show ?thesis using False plain assms n by (auto simp: Let_def fixed_digits_def)
  qed
qed

end
