(* ===== verification/JsRandom.thy ===== *)
theory JsRandom
  imports JsPrelude "HOL-Library.State_Monad"
begin

text \<open>
  \<open>Math.random()\<close> and \<open>Math.cos\<close>. The values that \<open>Math.random()\<close> returns are an infinite sequence; a computation that
  draws is a state monad over it, and \<open>yields P m\<close> says that its result satisfies \<open>P\<close> whatever is drawn.
\<close>

section \<open>Random draws\<close>

type_synonym draws = "nat \<Rightarrow> real"

definition random_draw :: "(draws, jsnum) state" where
  "random_draw = State (\<lambda>s. (Fin (s 0), \<lambda>i. s (Suc i)))"

fun jcos :: "jsnum \<Rightarrow> jsnum" where
  "jcos (Fin x) = Fin (cos x)"
| "jcos _ = NaN"

lemma random_run: "run_state random_draw r = (Fin (r 0), \<lambda>i. r (Suc i))"
  by (simp add: random_draw_def)

primrec fold_state :: "('a \<Rightarrow> 'b \<Rightarrow> (draws, 'b) state) \<Rightarrow> 'a list \<Rightarrow> 'b \<Rightarrow> (draws, 'b) state" where
  "fold_state f [] b = State_Monad.return b"
| "fold_state f (x # xs) b = do { b' \<leftarrow> f x b; fold_state f xs b' }"

section \<open>What a drawing computation yields\<close>

definition yields :: "('a \<Rightarrow> bool) \<Rightarrow> (draws, 'a) state \<Rightarrow> bool" where
  "yields P m \<longleftrightarrow> (\<forall>s. P (fst (run_state m s)))"

lemma yields_return [simp]: "yields P (State_Monad.return x) \<longleftrightarrow> P x"
  by (simp add: yields_def)

lemma yields_bind: "yields Q m \<Longrightarrow> (\<And>x. Q x \<Longrightarrow> yields P (f x)) \<Longrightarrow> yields P (State_Monad.bind m f)"
  unfolding yields_def by (simp add: case_prod_beta)

lemma yields_any: "(\<And>x. yields P (f x)) \<Longrightarrow> yields P (State_Monad.bind m f)"
  using yields_bind [of "\<lambda>_. True" m P f] by (simp add: yields_def)

lemma yields_fold:
  assumes "I b" "\<And>x b. x \<in> set xs \<Longrightarrow> I b \<Longrightarrow> yields I (f x b)"
  shows "yields I (fold_state f xs b)"
  using assms
proof (induction xs arbitrary: b)
  case (Cons x xs)
  have "yields I (fold_state f xs b')" if "I b'" for b' using that Cons by simp
  then show ?case using Cons.prems by (auto intro: yields_bind)
qed simp

end
