(* ===== verification/MockData.thy ===== *)
theory MockData
  imports Candles JsDecimal JsRandom
begin

text \<open>
  The demonstration feed's generators, \<open>web-ui/src/utils/mockData.js\<close>: candles, order books, signals, fills,
  news, accounts and the positions that open and close at random. The values of \<open>Math.random()\<close> are an infinite
  sequence, passed along by the state monad in the order in which the code draws them; the clock is an argument.
\<close>

section \<open>Random numbers\<close>

definition gaussianRandom :: "jsnum \<Rightarrow> jsnum \<Rightarrow> (draws, jsnum) state" where
  "gaussianRandom mean std = do {
     r1 \<leftarrow> random_draw;
     u2 \<leftarrow> random_draw;
     let u1 = jmax (Fin (1 / 10 ^ 10)) r1;
         z = jsqrt (- 2 * jlog u1) * jcos (2 * Fin pi * u2)
     in State_Monad.return (mean + z * std)
   }"

text \<open>\<open>xs[Math.floor(Math.random() * xs.length)]\<close>\<close>

definition pick :: "'a list \<Rightarrow> jsnum \<Rightarrow> 'a" where
  "pick xs r = (case jfloor (r * jnat (length xs)) of Fin k \<Rightarrow> xs ! nat \<lfloor>k\<rfloor> | _ \<Rightarrow> xs ! 0)"

section \<open>Tables\<close>

definition MOCK_SYMBOLS :: "string list" where
  "MOCK_SYMBOLS =
     [''BTCUSDT'', ''ETHUSDT'', ''SOLUSDT'', ''BNBUSDT'', ''XRPUSDT'',
      ''ADAUSDT'', ''DOGEUSDT'', ''DOTUSDT'', ''MATICUSDT'', ''SHIBUSDT'',
      ''AVAXUSDT'', ''LINKUSDT'', ''UNIUSDT'', ''ATOMUSDT'', ''LTCUSDT'',
      ''NEARUSDT'', ''XLMUSDT'', ''ALGOUSDT'', ''VETUSDT'', ''FILUSDT'',
      ''APTUSDT'', ''INJUSDT'', ''OPUSDT'', ''ARBUSDT'', ''QNTUSDT'',
      ''ETCUSDT'', ''HBARUSDT'', ''ICPUSDT'', ''LDOUSDT'', ''GRTUSDT'',
      ''STXUSDT'', ''AAVEUSDT'', ''MKRUSDT'', ''COMPUSDT'', ''SUSHIUSDT'',
      ''CRVUSDT'', ''1INCHUSDT'', ''SNXUSDT'', ''MANAUSDT'', ''SANDUSDT'',
      ''AXSUSDT'', ''ENJUSDT'', ''FTMUSDT'', ''CROUSDT'', ''GLMUSDT'',
      ''KAVAUSDT'', ''ROSEUSDT'', ''CELOUSDT'', ''MINAUSDT'']"

definition MOCK_EXCHANGES :: "string list" where
  "MOCK_EXCHANGES = [''binance'', ''bybit'', ''okx'']"

record headline =
  hl_title :: string
  hl_impact :: string
  hl_severity :: string

definition NEWS_HEADLINES :: "headline list" where
  "NEWS_HEADLINES = map (\<lambda>(t, i, s). \<lparr>hl_title = t, hl_impact = i, hl_severity = s\<rparr>)
    [(''Fed signals possible rate pause'', ''positive'', ''medium''),
     (''Major exchange announces new listing'', ''positive'', ''low''),
     (''Regulatory concerns in EU markets'', ''negative'', ''medium''),
     (''Institutional inflow reaches record high'', ''positive'', ''high''),
     (''Large whale wallet movement detected'', ''neutral'', ''low''),
     (''DeFi TVL crosses new milestone'', ''positive'', ''low''),
     (''Market liquidation cascade underway'', ''negative'', ''high''),
     (''Options expiry may increase volatility'', ''neutral'', ''medium''),
     (''Mining difficulty adjusts upward'', ''neutral'', ''low''),
     (''Central bank considers digital currency pilot'', ''positive'', ''medium'')]"

definition STRATEGIES :: "string list" where
  "STRATEGIES = [''trend_following'', ''mean_reversion'', ''market_making'', ''stat_arb'', ''sentiment'', ''ml_ensemble'']"

definition BASE_PRICES :: "(string, jsnum) jsmap" where
  "BASE_PRICES =
     [(''BTCUSDT'', 65000), (''ETHUSDT'', 3500), (''SOLUSDT'', 145), (''DOGEUSDT'', Fin (12 / 100)),
      (''ADAUSDT'', Fin (45 / 100))]"

definition map_or :: "(string, jsnum) jsmap \<Rightarrow> string \<Rightarrow> jsnum \<Rightarrow> jsnum" where
  \<comment> \<open>\<open>m[k] || d\<close>\<close>
  "map_or m k d = (case map_get m k of None \<Rightarrow> d | Some v \<Rightarrow> jor v d)"

section \<open>Market data\<close>

text \<open>One candle of the random walk and the unrounded close from which the next one starts.\<close>

definition mock_candle :: "string \<Rightarrow> string \<Rightarrow> int \<Rightarrow> jsnum \<Rightarrow> (draws, candle \<times> jsnum) state" where
  "mock_candle symbol exchange timestamp open_price = do {
     ret0 \<leftarrow> gaussianRandom 0 (Fin (2 / 1000));
     jump \<leftarrow> random_draw;
     ret \<leftarrow> (if jump < Fin (2 / 100)
       then do { r \<leftarrow> random_draw; State_Monad.return (ret0 + (r - Fin (1 / 2)) * Fin (1 / 100) * 2) }
       else State_Monad.return ret0);
     let close = open_price * jexp ret;
     g1 \<leftarrow> gaussianRandom 0 (Fin (2 / 1000) * Fin (1 / 2));
     let high = jmax open_price close * (1 + \<bar>g1\<bar>);
     g2 \<leftarrow> gaussianRandom 0 (Fin (2 / 1000) * Fin (1 / 2));
     let low = jmin open_price close * (1 - \<bar>g2\<bar>);
     g3 \<leftarrow> gaussianRandom 100 30;
     State_Monad.return
       (\<lparr>cd_exchange = exchange, cd_symbol = symbol, cd_timestamp = timestamp,
         cd_open = to_fixed 6 open_price, cd_high = to_fixed 6 high, cd_low = to_fixed 6 low,
         cd_close = to_fixed 6 close, cd_volume = jmax 1 (to_fixed 2 \<bar>g3\<bar>)\<rparr>, close)
   }"

primrec mock_walk :: "string \<Rightarrow> string \<Rightarrow> int \<Rightarrow> int \<Rightarrow> nat \<Rightarrow> jsnum \<Rightarrow> (draws, candle list) state" where
  "mock_walk symbol exchange timestamp step 0 price = State_Monad.return []"
| "mock_walk symbol exchange timestamp step (Suc n) price = do {
     (c, price') \<leftarrow> mock_candle symbol exchange timestamp price;
     cs \<leftarrow> mock_walk symbol exchange (timestamp + step) step n price';
     State_Monad.return (c # cs)
   }"

definition generateCandles :: "int \<Rightarrow> string \<Rightarrow> string \<Rightarrow> nat \<Rightarrow> int \<Rightarrow> (draws, candle list) state" where
  \<comment> \<open>the first argument is \<open>Math.floor(Date.now() / 1000)\<close>\<close>
  "generateCandles now_sec symbol exchange cnt interval_sec =
     mock_walk symbol exchange (now_sec - int cnt * interval_sec) interval_sec cnt (map_or BASE_PRICES symbol 100)"

record mock_level =
  ml_price :: jsnum
  ml_quantity :: jsnum

record mock_book =
  mb_bids :: "mock_level list"
  mb_asks :: "mock_level list"
  mb_spread :: jsnum
  mb_mid :: jsnum
  mb_timestamp :: int

definition mock_level_pair :: "jsnum \<Rightarrow> nat \<Rightarrow> (draws, mock_level \<times> mock_level) state" where
  "mock_level_pair mid i = do {
     g \<leftarrow> gaussianRandom 5 2;
     let spread = mid * Fin (5 / 10000);
         depth = 1 + jnat i * Fin (3 / 10000);
         bid = mid - spread / 2 - mid * depth * Fin (1 / 1000);
         ask = mid + spread / 2 + mid * depth * Fin (1 / 1000);
         size = \<bar>g\<bar> * (1 + jnat i * Fin (1 / 10))
     in State_Monad.return
       (\<lparr>ml_price = to_fixed 6 bid, ml_quantity = to_fixed 4 size\<rparr>,
        \<lparr>ml_price = to_fixed 6 ask, ml_quantity = to_fixed 4 size\<rparr>)
   }"

definition generateOrderBook :: "int \<Rightarrow> jsnum \<Rightarrow> (draws, mock_book) state" where
  \<comment> \<open>the fields \<open>exchange\<close> and \<open>symbol\<close> are the key under which the book is stored\<close>
  "generateOrderBook now_ms mid = do {
     levels \<leftarrow> State_Monad.traverse_list (mock_level_pair mid) [0..<20];
     State_Monad.return \<lparr>mb_bids = map fst levels, mb_asks = map snd levels,
       mb_spread = ml_price (snd (levels ! 0)) - ml_price (fst (levels ! 0)), mb_mid = mid, mb_timestamp = now_ms\<rparr>
   }"

record mock_signal =
  ms_symbol :: string
  ms_exchange :: string
  ms_strategy :: string
  ms_direction :: string
  ms_confidence :: jsnum
  ms_price :: jsnum
  ms_timestamp :: jsnum
  ms_rsi :: jsnum
  ms_adx :: jsnum
  ms_ema_cross :: string

definition generateSignal :: "int \<Rightarrow> string \<Rightarrow> string \<Rightarrow> jsnum \<Rightarrow> (draws, mock_signal) state" where
  "generateSignal now_ms symbol exchange price = do {
     r1 \<leftarrow> random_draw;
     r2 \<leftarrow> random_draw;
     r3 \<leftarrow> random_draw;
     r4 \<leftarrow> random_draw;
     r5 \<leftarrow> random_draw;
     r6 \<leftarrow> random_draw;
     State_Monad.return \<lparr>ms_symbol = symbol, ms_exchange = exchange, ms_strategy = pick STRATEGIES r1,
       ms_direction = (if r2 > Fin (1 / 2) then ''LONG'' else ''SHORT''),
       ms_confidence = to_fixed 1 (50 + r3 * 45), ms_price = to_fixed 6 price,
       ms_timestamp = Fin (of_int now_ms) / 1000, ms_rsi = to_fixed 1 (30 + r4 * 40),
       ms_adx = to_fixed 1 (15 + r5 * 35), ms_ema_cross = (if r6 > Fin (1 / 2) then ''bullish'' else ''bearish'')\<rparr>
   }"

record mock_fill =
  mf_id :: string
  mf_exchange :: string
  mf_symbol :: string
  mf_side :: string
  mf_quantity :: jsnum
  mf_price :: jsnum
  mf_fee :: jsnum
  mf_received_at :: int

definition generateFill :: "int \<Rightarrow> string \<Rightarrow> string \<Rightarrow> jsnum \<Rightarrow> (draws, mock_fill) state" where
  \<comment> \<open>the constant fields and the copies of quantity and price are left out\<close>
  "generateFill now_ms symbol exchange price = do {
     r1 \<leftarrow> random_draw;
     r2 \<leftarrow> random_draw;
     r3 \<leftarrow> random_draw;
     let qty = to_fixed 4 (Fin (1 / 100) + r2 * Fin (1 / 2));
         filledPrice = to_fixed 6 price;
         serial = (case jfloor (r3 * 10000) of Fin k \<Rightarrow> show_int \<lfloor>k\<rfloor> | _ \<Rightarrow> ''NaN'')
     in State_Monad.return \<lparr>mf_id = ''mock-'' @ show_int now_ms @ ''-'' @ serial, mf_exchange = exchange,
       mf_symbol = symbol, mf_side = (if r1 > Fin (1 / 2) then ''BUY'' else ''SELL''), mf_quantity = qty,
       mf_price = filledPrice, mf_fee = to_fixed 6 (qty * filledPrice * Fin (1 / 1000)), mf_received_at = now_ms\<rparr>
   }"

definition generateNewsEvent :: "int \<Rightarrow> (draws, headline \<times> jsnum) state" where
  "generateNewsEvent now_ms = do {
     r \<leftarrow> random_draw;
     State_Monad.return (pick NEWS_HEADLINES r, Fin (of_int now_ms) / 1000)
   }"

section \<open>Accounts\<close>

record mock_position =
  mp_symbol :: string
  mp_exchange :: string
  mp_side :: string
  mp_quantity :: jsnum
  mp_entry :: jsnum
  mp_opened_at :: jsnum
  mp_unrealized :: jsnum
  mp_margin :: jsnum

record mock_trade =
  mt_symbol :: string
  mt_exchange :: string
  mt_side :: string
  mt_quantity :: jsnum
  mt_entry :: jsnum
  mt_exit :: jsnum
  mt_pnl :: jsnum

record mock_account =
  ma_balance :: jsnum
  ma_equity :: jsnum
  ma_positions :: "mock_position list"
  ma_history :: "mock_trade list"
  ma_total_pnl :: jsnum
  ma_total_fees :: jsnum
  ma_trades :: nat
  ma_wins :: nat
  ma_win_rate :: jsnum

type_synonym mock_accounts = "(string, mock_account) jsmap"

definition generateAccounts :: mock_accounts where
  \<comment> \<open>the constant fields \<open>exchange\<close>, \<open>currency\<close> and \<open>leverage\<close> are left out\<close>
  "generateAccounts = map_set_all (\<lambda>ex. ex)
     (\<lambda>_. \<lparr>ma_balance = 10000, ma_equity = 10000, ma_positions = [], ma_history = [], ma_total_pnl = 0,
       ma_total_fees = 0, ma_trades = 0, ma_wins = 0, ma_win_rate = 0\<rparr>) MOCK_EXCHANGES []"

definition side_sign :: "string \<Rightarrow> jsnum" where
  "side_sign side = (if side = ''BUY'' then 1 else - 1)"

definition close_mock_position :: "string \<Rightarrow> string \<Rightarrow> jsnum \<Rightarrow> nat \<Rightarrow> mock_account \<Rightarrow> mock_account" where
  "close_mock_position symbol exchange price idx acct =
     (let pos = ma_positions acct ! idx;
          pnl = (price - mp_entry pos) * mp_quantity pos * side_sign (mp_side pos);
          trades = ma_trades acct + 1;
          wins = (if pnl > 0 then ma_wins acct + 1 else ma_wins acct);
          trade = \<lparr>mt_symbol = symbol, mt_exchange = exchange, mt_side = mp_side pos,
            mt_quantity = mp_quantity pos, mt_entry = mp_entry pos, mt_exit = to_fixed 6 price, mt_pnl = pnl\<rparr>;
          history = ma_history acct @ [trade]
      in acct\<lparr>ma_total_pnl := ma_total_pnl acct + pnl, ma_trades := trades, ma_wins := wins,
           ma_win_rate := (if trades > 0 then jnat wins / jnat trades * 100 else 0),
           ma_balance := ma_balance acct + pnl,
           ma_history := (if length history > 20 then tl history else history),
           ma_positions := splice_one idx (ma_positions acct)\<rparr>)"

definition open_mock_position ::
  "int \<Rightarrow> string \<Rightarrow> string \<Rightarrow> jsnum \<Rightarrow> mock_account \<Rightarrow> (draws, mock_account) state" where
  "open_mock_position now_ms symbol exchange price acct = do {
     r1 \<leftarrow> random_draw;
     r2 \<leftarrow> random_draw;
     State_Monad.return (acct\<lparr>ma_positions := ma_positions acct @
       [\<lparr>mp_symbol = symbol, mp_exchange = exchange, mp_side = (if r1 > Fin (1 / 2) then ''BUY'' else ''SELL''),
         mp_quantity = to_fixed 4 (Fin (1 / 100) + r2 * Fin (1 / 10)), mp_entry = to_fixed 6 price,
         mp_opened_at = Fin (of_int now_ms) / 1000, mp_unrealized = 0, mp_margin = 0\<rparr>]\<rparr>)
   }"

definition mark_positions :: "string \<Rightarrow> jsnum \<Rightarrow> mock_account \<Rightarrow> mock_account" where
  "mark_positions symbol price acct =
     (let mark = (\<lambda>pos.
            let currentPrice = (if mp_symbol pos = symbol then price else map_or BASE_PRICES (mp_symbol pos) price)
            in pos\<lparr>mp_unrealized := (currentPrice - mp_entry pos) * mp_quantity pos * side_sign (mp_side pos)\<rparr>);
          positions = map mark (ma_positions acct)
      in acct\<lparr>ma_positions := positions,
           ma_equity := ma_balance acct + foldl (\<lambda>s p. s + mp_unrealized p + jor (mp_margin p) 0) 0 positions\<rparr>)"

definition maybeUpdatePosition ::
  "int \<Rightarrow> mock_accounts \<Rightarrow> string \<Rightarrow> string \<Rightarrow> jsnum \<Rightarrow> (draws, mock_accounts) state" where
  "maybeUpdatePosition now_ms accounts symbol exchange price =
     (case map_get accounts exchange of
        None \<Rightarrow> State_Monad.return accounts
      | Some acct \<Rightarrow> do {
          r \<leftarrow> random_draw;
          acct' \<leftarrow> (if r < Fin (1 / 10)
            then case find_index (\<lambda>p. mp_symbol p = symbol) (ma_positions acct) of
                Some idx \<Rightarrow> State_Monad.return (close_mock_position symbol exchange price idx acct)
              | None \<Rightarrow> open_mock_position now_ms symbol exchange price acct
            else State_Monad.return acct);
          State_Monad.return (map_set exchange (mark_positions symbol price acct') accounts)
        })"

section \<open>The initial snapshot\<close>

definition mock_key :: "string \<Rightarrow> string \<Rightarrow> string" where
  "mock_key exchange symbol = bar_join exchange symbol"

definition mock_pairs :: "(string \<times> string) list" where
  "mock_pairs = concat (map (\<lambda>exchange. map (\<lambda>symbol. (exchange, symbol)) MOCK_SYMBOLS) MOCK_EXCHANGES)"

record mock_snapshot =
  sn_candles :: "candle list"
  sn_prices :: "(string, jsnum) jsmap"
  sn_accounts :: mock_accounts
  sn_orderbooks :: "(string, mock_book) jsmap"

definition snapshot_pair :: "int \<Rightarrow> int \<Rightarrow> string \<times> string \<Rightarrow> mock_snapshot \<Rightarrow> (draws, mock_snapshot) state" where
  "snapshot_pair now_sec now_ms p sn = do {
     cs \<leftarrow> generateCandles now_sec (snd p) (fst p) 100 60;
     let lastPrice = cd_close (cs ! (length cs - 1));
     let key = mock_key (fst p) (snd p);
     ob \<leftarrow> generateOrderBook now_ms lastPrice;
     State_Monad.return (sn\<lparr>sn_candles := sn_candles sn @ cs, sn_prices := map_set key lastPrice (sn_prices sn),
       sn_orderbooks := map_set key ob (sn_orderbooks sn)\<rparr>)
   }"

definition generateInitialSnapshot :: "int \<Rightarrow> int \<Rightarrow> (draws, mock_snapshot) state" where
  "generateInitialSnapshot now_sec now_ms =
     fold_state (snapshot_pair now_sec now_ms) mock_pairs
       \<lparr>sn_candles = [], sn_prices = [], sn_accounts = generateAccounts, sn_orderbooks = []\<rparr>"

end
