(* ===== verification/MockFeed.thy ===== *)
theory MockFeed
  imports MockData
begin

text \<open>
  The demonstration mode's exchange hook, \<open>web-ui/src/hooks/useMockData.js\<close>: one record of its state, the snapshot
  it starts from, the timer tick, the orders and the switches. Its laws: whatever is drawn and whatever the user
  does, every account's books balance and the buffers stay within their limits. The candle of a tick
  may leave its own range. The hook's two references to the accounts share the account objects, so that one field
  stands for both.
\<close>

section \<open>The exchange hook\<close>

record mock_feed =
  mh_cache :: candle_cache
  mh_candles :: "candle list"
  mh_prices :: "(string, jsnum) jsmap"
  mh_accounts :: mock_accounts
  mh_fills :: "mock_fill list"
  mh_books :: "(string, mock_book) jsmap"
  mh_news :: "(headline \<times> jsnum) option"
  mh_paused :: bool
  mh_active :: bool

definition mock_start :: "int \<Rightarrow> int \<Rightarrow> (draws, mock_feed) state" where
  "mock_start now_sec now_ms = do {
     sn \<leftarrow> generateInitialSnapshot now_sec now_ms;
     let cache = put_candles (sn_candles sn) [];
     State_Monad.return \<lparr>mh_cache = cache, mh_candles = slice_last 500 (by_time cache), mh_prices = sn_prices sn,
       mh_accounts = sn_accounts sn, mh_fills = [], mh_books = sn_orderbooks sn, mh_news = None,
       mh_paused = False, mh_active = True\<rparr>
   }"

definition push_fill :: "mock_fill \<Rightarrow> mock_feed \<Rightarrow> mock_feed" where
  "push_fill f s = s\<lparr>mh_fills := slice_first 50 (f # mh_fills s)\<rparr>"

definition tick_candle :: "int \<Rightarrow> string \<Rightarrow> string \<Rightarrow> jsnum \<Rightarrow> (draws, candle) state" where
  "tick_candle now_sec symbol exchange lastPrice = do {
     cs \<leftarrow> generateCandles now_sec symbol exchange 1 60;
     State_Monad.return ((cs ! 0)\<lparr>cd_timestamp := now_sec, cd_open := lastPrice\<rparr>)
   }"

record mock_tick =
  tk_candles :: "candle list"
  tk_prices :: "(string, jsnum) jsmap"
  tk_books :: "(string, mock_book) jsmap"

definition tick_pair ::
  "int \<Rightarrow> int \<Rightarrow> string \<times> string \<Rightarrow> mock_feed \<times> mock_tick \<Rightarrow> (draws, mock_feed \<times> mock_tick) state" where
  "tick_pair now_sec now_ms p st = do {
     let s = fst st;
     let t = snd st;
     let key = mock_key (fst p) (snd p);
     c \<leftarrow> tick_candle now_sec (snd p) (fst p) (map_or (mh_prices s) key 100);
     ob \<leftarrow> generateOrderBook now_ms (cd_close c);
     r \<leftarrow> random_draw;
     s1 \<leftarrow> (if r < Fin (3 / 10)
       then do { f \<leftarrow> generateFill now_ms (snd p) (fst p) (cd_close c); State_Monad.return (push_fill f s) }
       else State_Monad.return s);
     accounts \<leftarrow> maybeUpdatePosition now_ms (mh_accounts s1) (snd p) (fst p) (cd_close c);
     State_Monad.return (s1\<lparr>mh_accounts := accounts\<rparr>,
       \<lparr>tk_candles = tk_candles t @ [c], tk_prices = map_set key (cd_close c) (tk_prices t),
        tk_books = map_set key ob (tk_books t)\<rparr>)
   }"

definition mock_cap :: nat where
  "mock_cap = 500 * length MOCK_SYMBOLS * length MOCK_EXCHANGES"

text \<open>The candles of a tick: the cache keeps the newest \<open>mock_cap\<close>, the chart gets the newest 500 of all.\<close>

definition store_tick :: "mock_tick \<Rightarrow> mock_feed \<Rightarrow> mock_feed" where
  "store_tick t s =
     (let cache = put_candles (tk_candles t) (mh_cache s);
          all = by_time cache;
          toRemove = take (length all - mock_cap) all;
          cache' = (if length all > mock_cap then fold (\<lambda>c. map_delete (candle_key c)) toRemove cache else cache)
      in s\<lparr>mh_cache := cache', mh_candles := slice_last 500 all,
           mh_prices := fold (\<lambda>(k, v). map_set k v) (tk_prices t) (mh_prices s),
           mh_books := fold (\<lambda>(k, v). map_set k v) (tk_books t) (mh_books s)\<rparr>)"

definition mock_tick_step :: "int \<Rightarrow> int \<Rightarrow> mock_feed \<Rightarrow> (draws, mock_feed) state" where
  "mock_tick_step now_sec now_ms s = do {
     st \<leftarrow> fold_state (tick_pair now_sec now_ms) mock_pairs (s, \<lparr>tk_candles = [], tk_prices = [], tk_books = []\<rparr>);
     let s1 = store_tick (snd st) (fst st);
     r \<leftarrow> random_draw;
     if r < Fin (5 / 100)
     then do { n \<leftarrow> generateNewsEvent now_ms; State_Monad.return (s1\<lparr>mh_news := Some n\<rparr>) }
     else State_Monad.return s1
   }"

definition mock_submit :: "int \<Rightarrow> string \<Rightarrow> string \<Rightarrow> mock_feed \<Rightarrow> (draws, mock_feed) state" where
  \<comment> \<open>an order without an exchange has the empty one\<close>
  "mock_submit now_ms exchange symbol s = do {
     let ex = (if exchange = [] then ''binance'' else exchange);
     f \<leftarrow> generateFill now_ms symbol ex (map_or (mh_prices s) (mock_key ex symbol) 100);
     State_Monad.return (push_fill f s)
   }"

definition mock_close :: "string \<Rightarrow> string \<Rightarrow> mock_feed \<Rightarrow> mock_feed" where
  "mock_close exchange symbol s =
     (case map_get (mh_accounts s) exchange of
        None \<Rightarrow> s
      | Some acct \<Rightarrow>
          (case find_index (\<lambda>p. mp_symbol p = symbol) (ma_positions acct) of
             None \<Rightarrow> s
           | Some idx \<Rightarrow> s\<lparr>mh_accounts :=
               map_set exchange (acct\<lparr>ma_positions := splice_one idx (ma_positions acct)\<rparr>) (mh_accounts s)\<rparr>))"

datatype mock_event =
  Tick int int
| Submit int string string
| ClosePosition string string
| ToggleReplay
| StartTrading
| StopTrading

fun mock_step :: "mock_event \<Rightarrow> mock_feed \<Rightarrow> (draws, mock_feed) state" where
  "mock_step (Tick now_sec now_ms) s = mock_tick_step now_sec now_ms s"
| "mock_step (Submit now_ms exchange symbol) s = mock_submit now_ms exchange symbol s"
| "mock_step (ClosePosition exchange symbol) s = State_Monad.return (mock_close exchange symbol s)"
| "mock_step ToggleReplay s = State_Monad.return (s\<lparr>mh_paused := \<not> mh_paused s\<rparr>)"
| "mock_step StartTrading s = State_Monad.return (s\<lparr>mh_active := True\<rparr>)"
| "mock_step StopTrading s = State_Monad.return (s\<lparr>mh_active := False\<rparr>)"

definition mock_run :: "int \<Rightarrow> int \<Rightarrow> mock_event list \<Rightarrow> (draws, mock_feed) state" where
  "mock_run now_sec now_ms events = do { s \<leftarrow> mock_start now_sec now_ms; fold_state mock_step events s }"

section \<open>The signal hook\<close>

record mock_signals =
  sg_signals :: "mock_signal list"
  sg_regime :: "(string \<times> jsnum) option"

definition random_signal :: "int \<Rightarrow> (draws, mock_signal) state" where
  "random_signal now_ms = do {
     r1 \<leftarrow> random_draw;
     r2 \<leftarrow> random_draw;
     generateSignal now_ms (pick MOCK_SYMBOLS r1) (pick MOCK_EXCHANGES r2) 100
   }"

definition signals_start :: "int \<Rightarrow> (draws, mock_signals) state" where
  "signals_start now_ms = do {
     sigs \<leftarrow> State_Monad.traverse_list (\<lambda>_. random_signal now_ms) [0..<10];
     State_Monad.return \<lparr>sg_signals = sigs, sg_regime = None\<rparr>
   }"

definition signals_tick :: "int \<Rightarrow> mock_signals \<Rightarrow> (draws, mock_signals) state" where
  "signals_tick now_ms s = do {
     sig \<leftarrow> random_signal now_ms;
     let s1 = s\<lparr>sg_signals := slice_first 50 (sig # sg_signals s)\<rparr>;
     r \<leftarrow> random_draw;
     if r < Fin (1 / 10)
     then do {
       r1 \<leftarrow> random_draw;
       r2 \<leftarrow> random_draw;
       State_Monad.return (s1\<lparr>sg_regime :=
         Some (pick [''trending'', ''ranging'', ''volatile'', ''calm''] r1, 50 + r2 * 40)\<rparr>)
     }
     else State_Monad.return s1
   }"

end
