(* ===== verification/MockLaws.thy ===== *)
theory MockLaws
  imports MockFeed
begin

text \<open>
  Laws of the demonstration feed: an invariant of accounts and buffers over all draws and events, by a small
  calculus of what a drawing computation yields, and the candle of a tick that leaves its own range.
\<close>

section \<open>Accounts\<close>

definition account_ok :: "mock_account \<Rightarrow> bool" where
  "account_ok a \<longleftrightarrow> ma_balance a = 10000 + ma_total_pnl a \<and> distinct (map mp_symbol (ma_positions a)) \<and>
     length (ma_history a) = min 20 (ma_trades a) \<and> ma_wins a \<le> ma_trades a \<and>
     ma_win_rate a = (if ma_trades a > 0 then jnat (ma_wins a) / jnat (ma_trades a) * 100 else 0) \<and>
     (ma_trades a \<le> 20 \<longrightarrow> ma_total_pnl a = jsum (map mt_pnl (ma_history a)))"

definition accounts_ok :: "mock_accounts \<Rightarrow> bool" where
  "accounts_ok m \<longleftrightarrow> map_keys m = MOCK_EXCHANGES \<and> (\<forall>a \<in> set (map_values m). account_ok a)"

lemma distinct_splice: "distinct (map f xs) \<Longrightarrow> distinct (map f (splice_one i xs))"
  using set_take_disj_set_drop_if_distinct [of "map f xs" i "Suc i"]
  by (simp add: splice_one_def take_map [symmetric] drop_map [symmetric] del: set_map)

lemma account_ok_close:
  assumes "account_ok a"
  shows "account_ok (close_mock_position symbol exchange price idx a)"
proof -
  have "jsum (map mt_pnl (h @ [t])) = jsum (map mt_pnl h) + mt_pnl t" for h t by (simp add: jsum_append)
  moreover have "length (tl (h @ [t])) = 20" if "length h = 20" for h :: "mock_trade list" and t using that by simp
  ultimately show ?thesis using assms unfolding account_ok_def close_mock_position_def Let_def
    by (auto simp: distinct_splice add.assoc)
qed

lemma account_ok_open:
  assumes "account_ok a" "find_index (\<lambda>p. mp_symbol p = symbol) (ma_positions a) = None"
  shows "yields account_ok (open_mock_position now_ms symbol exchange price a)"
  unfolding open_mock_position_def
  by (intro yields_any) (use assms in \<open>auto simp: account_ok_def find_index_None\<close>)

lemma account_ok_mark: "account_ok a \<Longrightarrow> account_ok (mark_positions symbol price a)"
  by (simp add: account_ok_def mark_positions_def Let_def comp_def)

lemma account_ok_drop: "account_ok a \<Longrightarrow> account_ok (a\<lparr>ma_positions := splice_one i (ma_positions a)\<rparr>)"
  by (simp add: account_ok_def distinct_splice)

lemma accounts_ok_set:
  assumes "accounts_ok m" "map_get m k = Some a" "account_ok b"
  shows "accounts_ok (map_set k b m)"
proof -
  have "map_keys (map_set k b m) = map_keys m"
    using assms(2) by (induction m) (auto split: if_splits)
  moreover have "account_ok v" if "v \<in> set (map_values (map_set k b m))" for v
    using that assms set_map_set [of k b m] unfolding accounts_ok_def by force
  ultimately show ?thesis using assms(1) unfolding accounts_ok_def by simp
qed

lemma accounts_ok_get: "accounts_ok m \<Longrightarrow> map_get m k = Some a \<Longrightarrow> account_ok a"
  unfolding accounts_ok_def by (force dest: map_of_SomeD)

lemma accounts_ok_start: "accounts_ok generateAccounts"
  by (simp add: accounts_ok_def generateAccounts_def MOCK_EXCHANGES_def account_ok_def jsum_def)

lemma accounts_ok_update:
  assumes "accounts_ok m"
  shows "yields accounts_ok (maybeUpdatePosition now_ms m symbol exchange price)"
proof (cases "map_get m exchange")
  case None
  then show ?thesis using assms by (simp add: maybeUpdatePosition_def)
next
  case (Some a)
  have a: "account_ok a" using accounts_ok_get assms Some .
  have "yields account_ok (if r < Fin (1 / 10)
      then case find_index (\<lambda>p. mp_symbol p = symbol) (ma_positions a) of
          Some idx \<Rightarrow> State_Monad.return (close_mock_position symbol exchange price idx a)
        | None \<Rightarrow> open_mock_position now_ms symbol exchange price a
      else State_Monad.return a)" for r
    using a account_ok_close account_ok_open by (auto split: option.split)
  then show ?thesis unfolding maybeUpdatePosition_def Some option.case
    by (intro yields_any yields_bind [where Q = account_ok])
       (auto intro!: accounts_ok_set [OF assms Some] account_ok_mark)
qed

section \<open>The buffers\<close>

lemma table_sizes: "length MOCK_SYMBOLS = 49" "length MOCK_EXCHANGES = 3" "mock_cap = 73500" "length mock_pairs = 147"
  by (simp_all add: MOCK_SYMBOLS_def MOCK_EXCHANGES_def mock_cap_def mock_pairs_def)

lemma length_walk: "yields (\<lambda>cs. length cs = n) (mock_walk symbol exchange t step n price)"
proof (induction n arbitrary: t price)
  case (Suc n)
  have "yields (\<lambda>cs. length cs = Suc n)
      (State_Monad.bind (mock_walk symbol exchange t' step n p') (\<lambda>cs. State_Monad.return (c # cs)))" for t' p' c
    by (rule yields_bind [OF Suc.IH]) simp
  then show ?case by (auto intro: yields_any split: prod.split)
qed simp

lemma snapshot_sizes:
  "yields (\<lambda>sn'. sn_accounts sn' = sn_accounts sn \<and> length (sn_candles sn') = length (sn_candles sn) + 100 * length ps)
     (fold_state (snapshot_pair now_sec now_ms) ps sn)"
proof (induction ps arbitrary: sn)
  case (Cons p ps)
  have "yields (\<lambda>sn'. sn_accounts sn' = sn_accounts sn \<and> length (sn_candles sn') = length (sn_candles sn) + 100)
      (snapshot_pair now_sec now_ms p sn)"
    unfolding snapshot_pair_def generateCandles_def by (intro yields_bind [OF length_walk]) (simp add: Let_def yields_any)
  then have "yields (\<lambda>sn'. sn_accounts sn' = sn_accounts sn \<and>
      length (sn_candles sn') = length (sn_candles sn) + 100 * length (p # ps))
      (State_Monad.bind (snapshot_pair now_sec now_ms p sn) (fold_state (snapshot_pair now_sec now_ms) ps))"
    by (rule yields_bind) (use Cons.IH in \<open>auto simp: yields_def\<close>)
  then show ?case by simp
qed simp

lemma length_put_candles: "length (put_candles cs m) \<le> length m + length cs"
  unfolding put_candles_def
proof (induction cs arbitrary: m)
  case (Cons c cs)
  then show ?case using Cons.IH [of "map_set (candle_key c) c m"] by (auto simp: length_map_set split: if_splits)
qed simp

lemma keys_delete_all: "set (map_keys (fold map_delete ks m)) = set (map_keys m) - set ks"
  by (induction ks arbitrary: m) (auto simp: map_delete_def image_iff)

lemma map_ok_delete_all: "map_ok m \<Longrightarrow> map_ok (fold map_delete ks m)"
  by (induction ks arbitrary: m) (auto intro: map_ok_delete)

lemma map_ok_card: "map_ok m \<Longrightarrow> length m = card (set (map_keys m))"
  unfolding map_ok_def by (metis distinct_card length_map)

lemma length_delete_all:
  assumes "map_ok m" "distinct ks" "set ks \<subseteq> set (map_keys m)"
  shows "length (fold map_delete ks m) = length m - length ks"
proof -
  have "length (fold map_delete ks m) = card (set (map_keys m) - set ks)"
    using map_ok_card [OF map_ok_delete_all [OF assms(1)]] by (simp only: keys_delete_all)
  then show ?thesis using card_Diff_subset [OF _ assms(3)] map_ok_card [OF assms(1)] distinct_card [OF assms(2)] by simp
qed

lemma cache_ok_delete_all: "cache_ok m \<Longrightarrow> cache_ok (fold map_delete ks m)"
proof (induction ks arbitrary: m)
  case (Cons k ks)
  then have "cache_ok (map_delete k m)" by (simp add: cache_ok_def map_ok_delete) (simp add: map_delete_def)
  then show ?case using Cons.IH by simp
qed simp

definition buffers_ok :: "mock_feed \<Rightarrow> bool" where
  "buffers_ok s \<longleftrightarrow> cache_ok (mh_cache s) \<and> length (mh_cache s) \<le> mock_cap \<and> length (mh_candles s) \<le> 500 \<and>
     sorted (map cd_timestamp (mh_candles s)) \<and> length (mh_fills s) \<le> 50"

definition mock_ok :: "mock_feed \<Rightarrow> bool" where
  "mock_ok s \<longleftrightarrow> accounts_ok (mh_accounts s) \<and> buffers_ok s"

lemma length_by_time: "length (by_time m) = length m"
  by (simp add: by_time_def)

lemma shown_ok: "length (slice_last 500 (by_time m)) \<le> 500 \<and> sorted (map cd_timestamp (slice_last 500 (by_time m)))"
  using sorted_slice_last [of "(\<le>)" "map cd_timestamp (by_time m)" 500] sorted_by_time [of m]
  by (simp add: length_slice_last slice_last_map)

lemma mock_ok_start: "yields mock_ok (mock_start now_sec now_ms)"
proof -
  have "yields (\<lambda>sn. sn_accounts sn = generateAccounts \<and> length (sn_candles sn) = 14700)
      (generateInitialSnapshot now_sec now_ms)"
    using snapshot_sizes [of _ mock_pairs now_sec now_ms] by (simp add: generateInitialSnapshot_def table_sizes yields_def)
  then show ?thesis unfolding mock_start_def
    by (rule yields_bind)
       (use shown_ok length_put_candles [of _ "[]"] in
         \<open>simp add: mock_ok_def buffers_ok_def accounts_ok_start cache_ok_put table_sizes Let_def order_trans [OF length_put_candles]\<close>)
qed

lemma store_tick_ok:
  assumes "mock_ok s"
  shows "mock_ok (store_tick t s)"
proof -
  let ?m = "put_candles (tk_candles t) (mh_cache s)"
  let ?old = "take (length (by_time ?m) - mock_cap) (by_time ?m)"
  have ok: "cache_ok ?m" using assms by (simp add: mock_ok_def buffers_ok_def cache_ok_put)
  have keys: "fold (\<lambda>c. map_delete (candle_key c)) cs m = fold map_delete (map candle_key cs) m" for cs m
    by (simp add: fold_map comp_def)
  have "candle_key ` set (by_time ?m) = set (map_keys ?m)"
    using cache_ok_keys [OF ok] mset_by_time [of ?m] by (metis list.set_map mset_eq_setD)
  then have sub: "set (map candle_key ?old) \<subseteq> set (map_keys ?m)" using set_take_subset by fastforce
  have d: "distinct (map candle_key ?old)" using distinct_by_time [OF ok] by (simp add: take_map [symmetric] del: set_map)
  have "length (fold map_delete (map candle_key ?old) ?m) = length ?m - length ?old"
    using length_delete_all [OF _ d sub] ok by (simp add: cache_ok_def)
  then have "length ?m > mock_cap \<longrightarrow> length (fold map_delete (map candle_key ?old) ?m) \<le> mock_cap"
    by (simp add: length_by_time)
  moreover have "cache_ok (fold map_delete (map candle_key ?old) ?m)" using cache_ok_delete_all [OF ok] .
  ultimately show ?thesis
    using assms ok shown_ok [of ?m] unfolding mock_ok_def buffers_ok_def store_tick_def Let_def keys
    by (simp add: length_by_time)
qed

lemma mock_ok_push: "mock_ok s \<Longrightarrow> mock_ok (push_fill f s)"
  by (simp add: mock_ok_def buffers_ok_def push_fill_def slice_first_def)

lemma mock_ok_accounts: "mock_ok s \<Longrightarrow> accounts_ok m \<Longrightarrow> mock_ok (s\<lparr>mh_accounts := m\<rparr>)"
  by (simp add: mock_ok_def buffers_ok_def)

lemma tick_pair_ok:
  assumes "mock_ok (fst st)"
  shows "yields (\<lambda>st. mock_ok (fst st)) (tick_pair now_sec now_ms p st)"
proof -
  have accounts: "yields (\<lambda>st. mock_ok (fst st)) (State_Monad.bind (maybeUpdatePosition now_ms (mh_accounts s) sym ex price)
      (\<lambda>accounts. State_Monad.return (s\<lparr>mh_accounts := accounts\<rparr>, t)))" if "mock_ok s" for s sym ex price t
    using that by (intro yields_bind [OF accounts_ok_update]) (auto simp: mock_ok_accounts, simp add: mock_ok_def)
  have fills: "yields mock_ok (if r < Fin (3 / 10)
      then State_Monad.bind (generateFill now_ms sym ex price) (\<lambda>f. State_Monad.return (push_fill f (fst st)))
      else State_Monad.return (fst st))" for r sym ex price
    using assms yields_any [of mock_ok "\<lambda>f. State_Monad.return (push_fill f (fst st))"] by (simp add: mock_ok_push)
  show ?thesis unfolding tick_pair_def Let_def
    by (rule yields_any, rule yields_any, rule yields_any, rule yields_bind [OF fills], rule accounts)
qed

lemma tick_ok:
  assumes "mock_ok s"
  shows "yields mock_ok (mock_tick_step now_sec now_ms s)"
proof -
  have news: "mock_ok (s\<lparr>mh_news := n\<rparr>)" if "mock_ok s" for s n using that by (simp add: mock_ok_def buffers_ok_def)
  have "yields mock_ok (if r < Fin (5 / 100)
      then State_Monad.bind (generateNewsEvent now_ms) (\<lambda>n. State_Monad.return (s1\<lparr>mh_news := Some n\<rparr>))
      else State_Monad.return s1)" if "mock_ok s1" for r s1
    using that yields_any [of mock_ok "\<lambda>n. State_Monad.return (s1\<lparr>mh_news := Some n\<rparr>)"] by (simp add: news)
  moreover have "yields (\<lambda>st. mock_ok (fst st)) (fold_state (tick_pair now_sec now_ms) mock_pairs (s, t))" for t
    by (rule yields_fold) (simp_all add: assms tick_pair_ok)
  ultimately show ?thesis unfolding mock_tick_step_def Let_def
    by (intro yields_bind [where Q = "\<lambda>st. mock_ok (fst st)"] yields_any) (simp_all add: store_tick_ok)
qed

lemma mock_close_ok:
  assumes "mock_ok s"
  shows "mock_ok (mock_close exchange symbol s)"
  using assms accounts_ok_set accounts_ok_get account_ok_drop mock_ok_accounts
  by (auto simp: mock_close_def mock_ok_def split: option.split)

lemma mock_step_ok: "mock_ok s \<Longrightarrow> yields mock_ok (mock_step ev s)"
proof (cases ev)
  case (Submit now_ms exchange symbol)
  assume "mock_ok s"
  then show ?thesis by (simp add: Submit mock_submit_def Let_def yields_any mock_ok_push)
qed (simp_all add: tick_ok mock_close_ok, simp_all add: mock_ok_def buffers_ok_def)

text \<open>
  C24: Demonstration mode keeps its books: from the start, whatever is drawn and whatever sequence of ticks, orders,
  closed positions and switches follows, every account's balance is 10000 plus its total pnl, it has at most one
  position per symbol, its win rate is that of its trades, its history has the last 20 trades and sums to the total
  pnl while there are no more; at most 50 fills, 500 candles in order of time and 73500 cached candles are kept,
  one per key.
\<close>

theorem mock_feed_books_balance: "mock_ok (fst (run_state (mock_run now_sec now_ms events) rnd))"
proof -
  have "yields mock_ok (mock_run now_sec now_ms events)"
    unfolding mock_run_def by (rule yields_bind [OF mock_ok_start]) (rule yields_fold, simp_all add: mock_step_ok)
  then show ?thesis by (simp add: yields_def)
qed

section \<open>The candle of a tick\<close>

text \<open>Draws for which every Gaussian is at its mean, and draws for which the return is two per mille.\<close>

definition quiet :: draws where
  "quiet = (\<lambda>i. 1 / 4)"

definition upward :: draws where
  "upward = (\<lambda>i. if i = 0 then exp (- 1 / 2) else if i = 1 then 0 else 1 / 4)"

lemma gaussian_run:
  assumes "0 \<le> r 0" "r 0 < 1"
  shows "run_state (gaussianRandom (Fin m) (Fin sd)) r =
    (Fin (m + sqrt (- 2 * ln (max (1 / 10 ^ 10) (r 0))) * cos (2 * pi * r 1) * sd), \<lambda>i. r (Suc (Suc i)))"
proof -
  let ?u = "max (1 / 10 ^ 10) (r 0)"
  have "0 < ?u" "ln ?u \<le> 0" using assms by (simp_all add: max_def)
  then have "jsqrt (- 2 * jlog (Fin ?u)) = Fin (sqrt (- 2 * ln ?u))" by simp
  moreover have "jmax (Fin (1 / 10 ^ 10)) (Fin (r 0)) = Fin ?u" by simp
  ultimately show ?thesis by (simp add: gaussianRandom_def random_run Let_def del: jsqrt.simps)
qed

lemma gaussian_quiet: "run_state (gaussianRandom (Fin m) (Fin sd)) (\<lambda>i. 1 / 4) = (Fin m, \<lambda>i. 1 / 4)"
proof -
  have "cos (2 * pi * (1 / 4)) = 0" by simp
  then show ?thesis using gaussian_run [of "\<lambda>i. 1 / 4" m sd] by (simp only: mult_zero_right mult_zero_left add_0_right)
qed

lemma gaussian_quiet_0: "run_state (gaussianRandom 0 (Fin sd)) (\<lambda>i. 1 / 4) = (Fin 0, \<lambda>i. 1 / 4)"
  using gaussian_quiet [of 0 sd] by (simp only: zero_jsnum_def)

lemma base_btc: "map_or BASE_PRICES ''BTCUSDT'' d = Fin 65000"
  by (simp add: map_or_def BASE_PRICES_def)

lemma tick_candle_quiet:
  "fst (run_state (tick_candle now ''BTCUSDT'' ex p) quiet) =
     \<lparr>cd_exchange = ex, cd_symbol = ''BTCUSDT'', cd_timestamp = now, cd_open = p, cd_high = Fin 65000,
      cd_low = Fin 65000, cd_close = Fin 65000, cd_volume = Fin 100\<rparr>"
  using to_fixed_int [of 6 65000] to_fixed_int [of 2 100]
  by (simp add: tick_candle_def generateCandles_def mock_candle_def base_btc quiet_def gaussian_quiet gaussian_quiet_0 random_run
      Let_def)

lemma upward_close:
  "\<exists>v. cd_close (fst (run_state (tick_candle now ''BTCUSDT'' ex p) upward)) = Fin v \<and> 65001 \<le> v"
proof -
  have max: "max (1 / 10 ^ 10) (exp (- 1 / 2)) = (exp (- 1 / 2) :: real)"
    using exp_ge_add_one_self [of "- 1 / 2 :: real"] by (simp add: max_def)
  have shift: "(\<lambda>i. upward (Suc (Suc i))) = (\<lambda>i. 1 / 4)" by (simp add: upward_def fun_eq_iff)
  have first0: "run_state (gaussianRandom (Fin 0) (Fin (1 / 500))) upward = (Fin (1 / 500), \<lambda>i. 1 / 4)"
    using gaussian_run [of upward 0 "1 / 500"] max by (simp add: shift) (simp add: upward_def)
  then have first: "run_state (gaussianRandom 0 (Fin (1 / 500))) upward = (Fin (1 / 500), \<lambda>i. 1 / 4)"
    by (simp only: zero_jsnum_def)
  have close: "cd_close (fst (run_state (tick_candle now ''BTCUSDT'' ex p) upward)) = to_fixed 6 (Fin (65000 * exp (1 / 500)))"
    by (simp add: tick_candle_def generateCandles_def mock_candle_def base_btc first first0 gaussian_quiet gaussian_quiet_0
      random_run Let_def del: to_fixed.simps)
  have "65001 \<le> 65000 * exp (1 / 500 :: real)" using exp_ge_add_one_self [of "1 / 500 :: real"] by simp
  moreover have "exp (1 / 500 :: real) \<le> 3" using exp_le exp_le_cancel_iff [of "1 / 500 :: real" 1] by linarith
  ultimately show ?thesis
    using to_fixed_mono [of 65001 "65000 * exp (1 / 500)" 6] to_fixed_int [of 6 65001] by (auto simp: close)
qed

text \<open>
  A tick's candle is drawn from the base price of its symbol but opened at the last price. After one candle
  that closed higher, a quiet tick makes a candle whose open is above its high: the candle is not within its
  own range.
\<close>

theorem mock_candle_leaves_range:
  "cd_high (fst (run_state (tick_candle t2 ''BTCUSDT'' ex
       (cd_close (fst (run_state (tick_candle t1 ''BTCUSDT'' ex p) upward)))) quiet))
   < cd_open (fst (run_state (tick_candle t2 ''BTCUSDT'' ex
       (cd_close (fst (run_state (tick_candle t1 ''BTCUSDT'' ex p) upward)))) quiet))"
proof -
  obtain v where "cd_close (fst (run_state (tick_candle t1 ''BTCUSDT'' ex p) upward)) = Fin v" "65001 \<le> v"
    using upward_close by blast
  then show ?thesis by (simp add: tick_candle_quiet)
qed

end
