(* ===== verification/TradeTicket.thy ===== *)
theory TradeTicket
  imports JsDecimal
begin

text \<open>
  The order ticket \<open>web-ui/src/components/OrderForm.jsx\<close> and the list of positions \<open>components/PositionsPanel.jsx\<close>:
  the fields, the checks that enable the button, the order that is sent, what an acknowledgement shows, the sizing
  buttons and the risk calculator. The laws: one order is in flight at a time and every order sent passed the
  checks; the sizing buttons hit the wanted notional; the liquidation price leaves the maintenance margin.
\<close>

section \<open>The ticket\<close>

datatype order_side = Buy | Sell

datatype order_kind = Market | Limit | StopLimit | TrailingStop | Iceberg

definition EXCHANGE_FEES :: "(string, jsnum) jsmap" where
  "EXCHANGE_FEES = [(''binance'', Fin (4 / 100)), (''bybit'', Fin (6 / 100)), (''okx'', Fin (5 / 100))]"

definition EXCHANGE_SLIPPAGE :: "(string, jsnum) jsmap" where
  "EXCHANGE_SLIPPAGE = [(''binance'', 2), (''bybit'', 3), (''okx'', Fin (25 / 10))]"

definition MAINTENANCE_MARGIN_RATE :: jsnum where
  "MAINTENANCE_MARGIN_RATE = Fin (5 / 1000)"

text \<open>The props; a missing price or balance is NaN. The feature flag comes from its hook.\<close>

record ticket_env =
  te_exchange :: string
  te_symbol :: string
  te_price :: jsnum
  te_connected :: bool
  te_balance :: jsnum
  te_active :: bool
  te_trailing :: bool

datatype ticket_msg =
  Filled jsnum
| Resting jsnum
| Rejected string
| Cancelled "string option"
| NotConnected
| AwaitingAck

record ticket_order =
  od_exchange :: string
  od_symbol :: string
  od_side :: order_side
  od_quantity :: jsnum
  od_type :: order_kind
  od_price :: "jsnum option"
  od_stop_loss :: "jsnum option"
  od_take_profit :: "jsnum option"
  od_stop_price :: "jsnum option"
  od_limit_price :: "jsnum option"
  od_trail :: "(jsnum \<times> bool) option"
  od_iceberg :: "jsnum option"

text \<open>The state of the form. \<open>tf_sent\<close> is the history of the calls of \<open>onSubmit\<close>, each with the props and the
  leverage at the time; \<open>tf_acks\<close> counts the awaited results.\<close>

record ticket =
  tf_env :: ticket_env
  tf_side :: order_side
  tf_type :: order_kind
  tf_quantity :: string
  tf_limit :: string
  tf_stop_loss :: string
  tf_take_profit :: string
  tf_submitting :: bool
  tf_msg :: "ticket_msg option"
  tf_leverage :: nat
  tf_show_risk :: bool
  tf_stop :: string
  tf_trail :: string
  tf_trail_pct :: bool
  tf_iceberg :: string
  tf_sent :: "(ticket_order \<times> ticket_env \<times> nat) list"
  tf_acks :: nat

definition ticket_init :: "ticket_env \<Rightarrow> ticket" where
  "ticket_init env =
     \<lparr>tf_env = env, tf_side = Buy, tf_type = Market, tf_quantity = ''0.01'', tf_limit = [], tf_stop_loss = [],
      tf_take_profit = [], tf_submitting = False, tf_msg = None, tf_leverage = 10, tf_show_risk = False,
      tf_stop = [], tf_trail = [], tf_trail_pct = True, tf_iceberg = [], tf_sent = [], tf_acks = 0\<rparr>"

definition availBalance :: "ticket_env \<Rightarrow> jsnum" where
  "availBalance env = jor (te_balance env) 10000"

definition qtyNum :: "ticket \<Rightarrow> jsnum" where
  "qtyNum t = jor (parse_float_js (tf_quantity t)) 0"

definition marginNeeded :: "jsnum \<Rightarrow> ticket_env \<Rightarrow> nat \<Rightarrow> jsnum" where
  "marginNeeded qty env leverage = qty * te_price env / jnat leverage"

definition marginExceeds :: "ticket \<Rightarrow> bool" where
  "marginExceeds t \<longleftrightarrow> marginNeeded (qtyNum t) (tf_env t) (tf_leverage t) > availBalance (tf_env t)"

definition canSubmit :: "ticket \<Rightarrow> bool" where
  "canSubmit t \<longleftrightarrow> te_connected (tf_env t) \<and> te_active (tf_env t) \<and> \<not> tf_submitting t \<and> qtyNum t > 0 \<and>
     \<not> marginExceeds t"

definition setQtyFromBalance :: "jsnum \<Rightarrow> ticket \<Rightarrow> ticket" where
  "setQtyFromBalance pct t =
     (let price = te_price (tf_env t)
      in if \<not> truthy price \<or> price \<le> 0 then t
         else t\<lparr>tf_quantity := show_fixed 4 (availBalance (tf_env t) * pct / 100 / price)\<rparr>)"

definition when_text :: "string \<Rightarrow> jsnum option" where
  "when_text s = (if s = [] then None else Some (parse_float_js s))"

definition build_order :: "ticket \<Rightarrow> ticket_order" where
  "build_order t =
     \<lparr>od_exchange = te_exchange (tf_env t), od_symbol = te_symbol (tf_env t), od_side = tf_side t,
      od_quantity = qtyNum t, od_type = tf_type t,
      od_price = (if tf_type t = Limit then when_text (tf_limit t) else None),
      od_stop_loss = when_text (tf_stop_loss t), od_take_profit = when_text (tf_take_profit t),
      od_stop_price = (if tf_type t = StopLimit then Some (parse_float_js (tf_stop t)) else None),
      od_limit_price = (if tf_type t = StopLimit then Some (parse_float_js (tf_limit t)) else None),
      od_trail = (if tf_type t = TrailingStop then Some (parse_float_js (tf_trail t), tf_trail_pct t) else None),
      od_iceberg = (if tf_type t = Iceberg then Some (parse_float_js (tf_iceberg t)) else None)\<rparr>"

definition handleSubmit :: "ticket \<Rightarrow> ticket" where
  \<comment> \<open>up to the \<open>await\<close>\<close>
  "handleSubmit t =
     (if \<not> te_connected (tf_env t) \<or> \<not> te_active (tf_env t) \<or> qtyNum t \<le> 0 then t
      else t\<lparr>tf_submitting := True, tf_sent := tf_sent t @ [(build_order t, tf_env t, tf_leverage t)]\<rparr>)"

text \<open>What \<open>onSubmit\<close> resolves to: an acknowledgement object, \<open>false\<close>, or anything else.\<close>

datatype order_ack =
  AckObject (ack_status: string) (ack_filled: jsnum) (ack_price: jsnum) (ack_reason: "string option")
| AckFalse
| AckOther

definition truthy_reason :: "string option \<Rightarrow> string option" where
  "truthy_reason r = (if r = Some [] then None else r)"

definition ack_message :: "order_ack \<Rightarrow> ticket_msg" where
  "ack_message a =
     (case a of
        AckObject status filled price reason \<Rightarrow>
          if status = ''FILLED'' then Filled filled
          else if status = ''PENDING'' then Resting price
          else if status = ''REJECTED'' then Rejected (case truthy_reason reason of None \<Rightarrow> ''unknown'' | Some r \<Rightarrow> r)
          else if status = ''CANCELLED'' then Cancelled (truthy_reason reason)
          else AwaitingAck
      | AckFalse \<Rightarrow> NotConnected
      | AckOther \<Rightarrow> AwaitingAck)"

definition after_await :: "order_ack \<Rightarrow> ticket \<Rightarrow> ticket" where
  "after_await a t = t\<lparr>tf_msg := Some (ack_message a), tf_submitting := False, tf_acks := tf_acks t + 1\<rparr>"

text \<open>The effect that leaves the trailing stop when its flag is off, run after the props change.\<close>

definition trailing_effect :: "ticket \<Rightarrow> ticket" where
  "trailing_effect t =
     (if \<not> te_trailing (tf_env t) \<and> tf_type t = TrailingStop then t\<lparr>tf_type := Market\<rparr> else t)"

definition offered_kinds :: "ticket_env \<Rightarrow> order_kind list" where
  "offered_kinds env =
     filter (\<lambda>k. k \<noteq> TrailingStop \<or> te_trailing env) [Market, Limit, StopLimit, TrailingStop, Iceberg]"

datatype ticket_event =
  SetSide order_side
| SetType order_kind
| SetQuantity string
| SetLimit string
| SetStopLoss string
| SetTakeProfit string
| SetStop string
| SetTrail string
| SetTrailPct bool
| SetIceberg string
| SetLeverage nat
| QuickSize jsnum
| ToggleRisk
| SubmitForm
| AckArrives order_ack
| MessageTimeout
| PropsChange ticket_env

text \<open>Only what the page offers happens: a button of the list, a slider between 1 and 50, a submit button that is
  enabled, and a result for an order that is awaited.\<close>

fun ticket_step :: "ticket_event \<Rightarrow> ticket \<Rightarrow> ticket" where
  "ticket_step (SetSide s) t = t\<lparr>tf_side := s\<rparr>"
| "ticket_step (SetType k) t = (if k \<in> set (offered_kinds (tf_env t)) then t\<lparr>tf_type := k\<rparr> else t)"
| "ticket_step (SetQuantity q) t = t\<lparr>tf_quantity := q\<rparr>"
| "ticket_step (SetLimit q) t = t\<lparr>tf_limit := q\<rparr>"
| "ticket_step (SetStopLoss q) t = t\<lparr>tf_stop_loss := q\<rparr>"
| "ticket_step (SetTakeProfit q) t = t\<lparr>tf_take_profit := q\<rparr>"
| "ticket_step (SetStop q) t = t\<lparr>tf_stop := q\<rparr>"
| "ticket_step (SetTrail q) t = t\<lparr>tf_trail := q\<rparr>"
| "ticket_step (SetTrailPct b) t = t\<lparr>tf_trail_pct := b\<rparr>"
| "ticket_step (SetIceberg q) t = t\<lparr>tf_iceberg := q\<rparr>"
| "ticket_step (SetLeverage n) t = (if 1 \<le> n \<and> n \<le> 50 then t\<lparr>tf_leverage := n\<rparr> else t)"
| "ticket_step (QuickSize pct) t = setQtyFromBalance pct t"
| "ticket_step ToggleRisk t = t\<lparr>tf_show_risk := \<not> tf_show_risk t\<rparr>"
| "ticket_step SubmitForm t = (if canSubmit t then handleSubmit t else t)"
| "ticket_step (AckArrives a) t = (if tf_submitting t then after_await a t else t)"
| "ticket_step MessageTimeout t = t\<lparr>tf_msg := None\<rparr>"
| "ticket_step (PropsChange env) t = trailing_effect (t\<lparr>tf_env := env\<rparr>)"

definition ticket_run :: "ticket_env \<Rightarrow> ticket_event list \<Rightarrow> ticket" where
  "ticket_run env evs = fold ticket_step evs (ticket_init env)"

section \<open>Costs and risk\<close>

definition rate_or :: "(string, jsnum) jsmap \<Rightarrow> string \<Rightarrow> jsnum \<Rightarrow> jsnum" where
  "rate_or m ex d = (case map_get m ex of None \<Rightarrow> d | Some v \<Rightarrow> jor v d)"

definition ticket_fee :: "string \<Rightarrow> jsnum \<Rightarrow> jsnum" where
  "ticket_fee ex notional = notional * rate_or EXCHANGE_FEES ex (Fin (5 / 100)) / 100"

definition ticket_slippage :: "string \<Rightarrow> jsnum \<Rightarrow> jsnum" where
  "ticket_slippage ex notional = notional * rate_or EXCHANGE_SLIPPAGE ex (Fin (25 / 10)) / 10000"

definition ticket_total_cost :: "string \<Rightarrow> jsnum \<Rightarrow> jsnum" where
  "ticket_total_cost ex notional =
     notional * (rate_or EXCHANGE_FEES ex (Fin (5 / 100)) / 100 + rate_or EXCHANGE_SLIPPAGE ex (Fin (25 / 10)) / 10000)"

record risk_calc =
  rk_margin :: jsnum
  rk_margin_pct :: jsnum
  rk_danger :: bool
  rk_fee :: jsnum
  rk_liq :: jsnum
  rk_sl_dist :: jsnum
  rk_tp_dist :: jsnum
  rk_sl_loss :: jsnum
  rk_tp_profit :: jsnum
  rk_ratio :: jsnum

definition risk_of :: "ticket \<Rightarrow> risk_calc" where
  "risk_of t =
     (let qty = qtyNum t;
          entry = te_price (tf_env t);
          notional = qty * entry;
          leverage = jnat (tf_leverage t);
          margin = notional / leverage;
          slPrice = (if tf_stop_loss t \<noteq> [] then parse_float_js (tf_stop_loss t) else entry * Fin (98 / 100));
          tpPrice = (if tf_take_profit t \<noteq> [] then parse_float_js (tf_take_profit t) else entry * Fin (104 / 100));
          isLong = (tf_side t = Buy);
          slLoss = (if isLong then (slPrice - entry) * qty else (entry - slPrice) * qty);
          tpProfit = (if isLong then (tpPrice - entry) * qty else (entry - tpPrice) * qty);
          marginPct = (if availBalance (tf_env t) > 0 then margin / availBalance (tf_env t) * 100 else 0)
      in \<lparr>rk_margin = margin, rk_margin_pct = marginPct, rk_danger = (marginPct > 80),
          rk_fee = ticket_fee (te_exchange (tf_env t)) notional,
          rk_liq = (if isLong then entry * (1 - 1 / leverage + MAINTENANCE_MARGIN_RATE)
            else entry * (1 + 1 / leverage - MAINTENANCE_MARGIN_RATE)),
          rk_sl_dist = \<bar>(slPrice - entry) / entry * 100\<bar>, rk_tp_dist = \<bar>(tpPrice - entry) / entry * 100\<bar>,
          rk_sl_loss = slLoss, rk_tp_profit = tpProfit,
          rk_ratio = (if \<bar>slLoss\<bar> > 0 then \<bar>tpProfit / slLoss\<bar> else 0)\<rparr>)"

section \<open>The list of positions\<close>

record open_position =
  op_symbol :: string
  op_side :: string
  op_entry :: jsnum
  op_quantity :: jsnum
  op_stop_loss :: jsnum
  op_take_profit :: jsnum
  op_pnl :: jsnum

record listed_position =
  lp_position :: open_position
  lp_exchange :: string
  lp_leverage :: jsnum

definition list_positions :: "(string \<times> (jsnum \<times> open_position list) option) list \<Rightarrow> listed_position list" where
  \<comment> \<open>the accounts by exchange, each null or a leverage with its positions\<close>
  "list_positions accounts =
     concat (map (\<lambda>(ex, acc). case acc of None \<Rightarrow> []
       | Some (leverage, ps) \<Rightarrow>
           map (\<lambda>p. \<lparr>lp_position = p, lp_exchange = ex, lp_leverage = jor leverage 10\<rparr>) ps) accounts)"

record position_totals =
  pt_pnl :: jsnum
  pt_margin :: jsnum
  pt_longs :: nat
  pt_shorts :: nat

definition position_totals_of :: "listed_position list \<Rightarrow> position_totals" where
  "position_totals_of ps =
     (let longs = length (filter (\<lambda>p. op_side (lp_position p) = ''BUY'') ps)
      in \<lparr>pt_pnl = foldl (\<lambda>s p. s + jor (op_pnl (lp_position p)) 0) 0 ps,
          pt_margin = foldl (\<lambda>s p. s + op_entry (lp_position p) * op_quantity (lp_position p) / jor (lp_leverage p) 10) 0 ps,
          pt_longs = longs, pt_shorts = length ps - longs\<rparr>)"

record position_row =
  pr_margin :: jsnum
  pr_liq :: jsnum
  pr_sl_progress :: jsnum
  pr_tp_progress :: jsnum
  pr_danger :: jsnum

definition position_row_of :: "jsnum \<Rightarrow> listed_position \<Rightarrow> position_row" where
  \<comment> \<open>the first argument is \<open>currentPrices?.[exchange]?.[symbol]\<close>, NaN when missing\<close>
  "position_row_of price lp =
     (let pos = lp_position lp;
          isLong = (op_side pos = ''BUY'');
          entry = op_entry pos;
          currentPx = jor price entry;
          currentDist = \<bar>currentPx - entry\<bar>;
          slProgress = jmin 100 (currentDist / \<bar>entry - op_stop_loss pos\<bar> * 100);
          tpProgress = jmin 100 (currentDist / \<bar>entry - op_take_profit pos\<bar> * 100);
          nearSL = (if isLong then currentPx < entry else currentPx > entry)
      in \<lparr>pr_margin = entry * op_quantity pos / lp_leverage lp,
          pr_liq = (if isLong then entry * (1 - 1 / lp_leverage lp + Fin (5 / 1000))
            else entry * (1 + 1 / lp_leverage lp - Fin (5 / 1000))),
          pr_sl_progress = slProgress, pr_tp_progress = tpProgress, pr_danger = (if nearSL then slProgress else 0)\<rparr>)"

section \<open>One order in flight\<close>

definition sent_ok :: "ticket_order \<times> ticket_env \<times> nat \<Rightarrow> bool" where
  "sent_ok p = (case p of (od, env, leverage) \<Rightarrow>
     te_connected env \<and> te_active env \<and> od_exchange od = te_exchange env \<and> od_symbol od = te_symbol env \<and>
     od_quantity od > 0 \<and> \<not> marginNeeded (od_quantity od) env leverage > availBalance env \<and>
     1 \<le> leverage \<and> leverage \<le> 50 \<and> (od_type od = TrailingStop \<longrightarrow> te_trailing env) \<and>
     (od_trail od \<noteq> None \<longleftrightarrow> od_type od = TrailingStop) \<and> (od_stop_price od \<noteq> None \<longleftrightarrow> od_type od = StopLimit) \<and>
     (od_iceberg od \<noteq> None \<longleftrightarrow> od_type od = Iceberg))"

definition ticket_ok :: "ticket \<Rightarrow> bool" where
  "ticket_ok t \<longleftrightarrow> 1 \<le> tf_leverage t \<and> tf_leverage t \<le> 50 \<and>
     length (tf_sent t) = tf_acks t + (if tf_submitting t then 1 else 0) \<and>
     (tf_type t = TrailingStop \<longrightarrow> te_trailing (tf_env t)) \<and> (\<forall>p \<in> set (tf_sent t). sent_ok p)"

lemma ticket_ok_submit:
  assumes "ticket_ok t" "canSubmit t"
  shows "ticket_ok (handleSubmit t)"
proof -
  have "\<not> qtyNum t \<le> 0" using assms(2) by (cases "qtyNum t") (simp_all add: canSubmit_def zero_jsnum_def)
  then have h: "handleSubmit t =
      t\<lparr>tf_submitting := True, tf_sent := tf_sent t @ [(build_order t, tf_env t, tf_leverage t)]\<rparr>"
    using assms(2) by (simp add: handleSubmit_def canSubmit_def)
  have "sent_ok (build_order t, tf_env t, tf_leverage t)"
    using assms by (auto simp: sent_ok_def ticket_ok_def build_order_def canSubmit_def marginExceeds_def)
  then show ?thesis using assms unfolding h ticket_ok_def by (simp add: canSubmit_def)
qed

lemma ticket_ok_step: "ticket_ok t \<Longrightarrow> ticket_ok (ticket_step e t)"
proof (cases e)
  case SubmitForm
  then show "ticket_ok t \<Longrightarrow> ?thesis" using ticket_ok_submit by simp
next
  case (AckArrives a)
  then show "ticket_ok t \<Longrightarrow> ?thesis" by (simp add: after_await_def ticket_ok_def)
next
  case (PropsChange env)
  then show "ticket_ok t \<Longrightarrow> ?thesis" by (simp add: trailing_effect_def ticket_ok_def)
next
  case (QuickSize pct)
  then show "ticket_ok t \<Longrightarrow> ?thesis" by (simp add: setQtyFromBalance_def Let_def ticket_ok_def)
qed (simp_all add: ticket_ok_def offered_kinds_def)

text \<open>
  C25: The ticket sends one order at a time and only admissible ones: after any sequence of inputs, clicks, results
  and changes of the props, the orders sent are as many as the results that came back, plus one exactly while the
  form is waiting; and every order was sent connected, with trading active, with a positive quantity, a leverage
  between 1 and 50 and a margin that does not exceed the available balance at that time, a trailing stop only
  with its flag on, and with the extra fields of its type only.
\<close>

theorem orders_single_flight: "ticket_ok (ticket_run env evs)"
proof -
  have "ticket_ok t \<Longrightarrow> ticket_ok (fold ticket_step evs t)" for t
    by (induction evs arbitrary: t) (simp_all add: ticket_ok_step)
  moreover have "ticket_ok (ticket_init env)" by (simp add: ticket_init_def ticket_ok_def)
  ultimately show ?thesis by (simp add: ticket_run_def)
qed

section \<open>Sizing\<close>

lemma fixed_error:
  assumes "0 \<le> x" "x < 10 ^ 21"
  shows "\<exists>q. to_fixed d (Fin x) = Fin q \<and> \<bar>q - x\<bar> \<le> 1 / (2 * 10 ^ d) \<and> 0 \<le> q"
proof -
  let ?k = "real_of_int \<lfloor>x * 10 ^ d + 1 / 2\<rfloor>"
  have q: "to_fixed d (Fin x) = Fin (?k / 10 ^ d)"
    using assms by (cases "x = 0") (simp_all add: sgn_if)
  have "\<bar>?k - x * 10 ^ d\<bar> \<le> 1 / 2" by linarith
  then have "\<bar>?k - x * 10 ^ d\<bar> / 10 ^ d \<le> (1 / 2) / 10 ^ d" by (intro divide_right_mono) simp_all
  moreover have "?k / 10 ^ d - x = (?k - x * 10 ^ d) / 10 ^ d" by (simp add: diff_divide_distrib)
  then have "\<bar>?k / 10 ^ d - x\<bar> = \<bar>?k - x * 10 ^ d\<bar> / 10 ^ d" by (simp only: abs_divide) simp
  ultimately have "\<bar>?k / 10 ^ d - x\<bar> \<le> 1 / (2 * 10 ^ d)" by simp
  moreover have "0 \<le> ?k / 10 ^ d" using assms(1) by simp
  ultimately show ?thesis unfolding q by blast
qed

text \<open>
  A sizing button sets the quantity to the wanted part of the balance: the text that it writes parses to a
  quantity whose notional differs from that part by at most half of the fourth decimal times the price. The 100%
  button may round up beyond the balance, see \<open>full_size_may_exceed\<close>.
\<close>

theorem quick_size_hits_notional:
  assumes env: "te_price (tf_env t) = Fin p" "availBalance (tf_env t) = Fin b"
    and "0 < p" "0 < b" "0 < pct" "b * pct / 100 / p < 10 ^ 21" "1 / 10000 \<le> b * pct / 100 / p"
  shows "\<exists>q. qtyNum (ticket_step (QuickSize (Fin pct)) t) = Fin q \<and> \<bar>q * p - b * pct / 100\<bar> \<le> p / 20000"
proof -
  let ?x = "b * pct / 100 / p"
  have x: "0 \<le> ?x" using assms by simp
  obtain q where q: "to_fixed 4 (Fin ?x) = Fin q" "\<bar>q - ?x\<bar> \<le> 1 / (2 * 10 ^ 4)" "0 \<le> q"
    using fixed_error [OF x assms(6)] by blast
  have "\<bar>?x\<bar> < 10 ^ 21" using x assms(6) by (simp only: abs_of_nonneg)
  from show_fixed_parse [OF _ this, of 4] have "parse_float_js (show_fixed 4 (Fin ?x)) = Fin q" unfolding q(1) by simp
  moreover have "ticket_step (QuickSize (Fin pct)) t = t\<lparr>tf_quantity := show_fixed 4 (Fin ?x)\<rparr>"
    using assms by (simp add: setQtyFromBalance_def Let_def zero_jsnum_def del: show_fixed.simps)
  moreover have "1 / (2 * 10 ^ 4) = (1 / 20000 :: real)" by simp
  then have "q > 0" using q(2) assms(7) by linarith
  ultimately have "qtyNum (ticket_step (QuickSize (Fin pct)) t) = Fin q"
    by (simp add: qtyNum_def del: show_fixed.simps)
  moreover have "\<bar>q * p - b * pct / 100\<bar> \<le> p / 20000"
  proof -
    have "q * p - b * pct / 100 = (q - ?x) * p" using assms(3) by (simp add: left_diff_distrib)
    then have "\<bar>q * p - b * pct / 100\<bar> = \<bar>q - ?x\<bar> * p" using assms(3) by (simp only: abs_mult)
    also have "\<dots> \<le> 1 / (2 * 10 ^ 4) * p" using q(2) assms(3) by (intro mult_right_mono) simp_all
    finally show ?thesis by simp
  qed
  ultimately show ?thesis by blast
qed

definition sample_env :: "real \<Rightarrow> ticket_env" where
  "sample_env p = \<lparr>te_exchange = ''binance'', te_symbol = ''BTCUSDT'', te_price = Fin p, te_connected = True,
     te_balance = Fin 10000, te_active = True, te_trailing = False\<rparr>"

theorem quick_size_hits_notional_witness:
  "\<exists>q. qtyNum (ticket_step (QuickSize (Fin 50)) (ticket_init (sample_env 50))) = Fin q \<and>
     \<bar>q * 50 - 10000 * 50 / 100\<bar> \<le> 50 / (20000 :: real)"
  by (rule quick_size_hits_notional) (simp_all add: ticket_init_def sample_env_def availBalance_def)

text \<open>At leverage 1 and a price of 6 the 100% button asks for 1666.6667 units, 10000.0002 of notional: the
  ticket then refuses the order it has sized itself.\<close>

lemma full_size_may_exceed:
  "marginExceeds (ticket_step (QuickSize (Fin 100)) (ticket_step (SetLeverage 1) (ticket_init (sample_env 6))))"
proof -
  have e: "10000 * 100 / 100 / 6 = (5000 / 3 :: real)" by simp
  have "parse_float_js (show_fixed 4 (Fin (5000 / 3))) = Fin (16666667 / 10000)"
    using show_fixed_parse [of 4 "5000 / 3"] by (simp add: floor_eq_iff sgn_if del: show_fixed.simps)
  then show ?thesis
    by (simp add: marginExceeds_def marginNeeded_def qtyNum_def ticket_init_def sample_env_def availBalance_def
      setQtyFromBalance_def Let_def zero_jsnum_def e del: show_fixed.simps)
qed

section \<open>Liquidation\<close>

text \<open>
  The liquidation price of the risk calculator leaves the maintenance margin: it is positive, below the entry for
  a long and above it for a short position, and the loss at that price is the margin less half a percent of the
  notional. The list of positions shows the same price for a position with this entry and leverage.
\<close>

theorem liquidation_leaves_maintenance:
  assumes "te_price (tf_env t) = Fin p" "0 < p" "qtyNum t = Fin q" "0 < q" "1 \<le> tf_leverage t" "tf_leverage t \<le> 50"
  shows "\<exists>liq m. rk_liq (risk_of t) = Fin liq \<and> rk_margin (risk_of t) = Fin m \<and> 0 < liq \<and>
    (if tf_side t = Buy then liq < p \<and> (p - liq) * q = m - 5 / 1000 * (p * q)
     else p < liq \<and> (liq - p) * q = m - 5 / 1000 * (p * q)) \<and>
    (\<forall>pos ex price. op_entry pos = Fin p \<and> op_side pos = (if tf_side t = Buy then ''BUY'' else ''SELL'') \<longrightarrow>
       pr_liq (position_row_of price \<lparr>lp_position = pos, lp_exchange = ex, lp_leverage = jnat (tf_leverage t)\<rparr>) = Fin liq)"
proof -
  define L where "L = real (tf_leverage t)"
  have L: "1 \<le> L" "L \<le> 50" using assms(5,6) by (simp_all add: L_def)
  define liq where "liq = (if tf_side t = Buy then p * (1 - 1 / L + 5 / 1000) else p * (1 + 1 / L - 5 / 1000))"
  have inv: "1 / 50 \<le> 1 / L" "1 / L \<le> 1" using L by (simp_all add: field_simps)
  have pos: "0 < liq" using inv assms(2) by (auto simp: liq_def intro!: mult_pos_pos)
  have side: "if tf_side t = Buy then liq < p else p < liq"
    using inv assms(2) by (auto simp: liq_def mult_less_cancel_left2 mult_less_cancel_left1)
  have loss: "if tf_side t = Buy then (p - liq) * q = q * p / L - 5 / 1000 * (p * q)
      else (liq - p) * q = q * p / L - 5 / 1000 * (p * q)"
    by (simp add: liq_def algebra_simps)
  have "rk_liq (risk_of t) = Fin liq" "rk_margin (risk_of t) = Fin (q * p / L)"
    using L by (simp_all add: risk_of_def Let_def assms(1,3) MAINTENANCE_MARGIN_RATE_def liq_def flip: L_def)
  moreover have "pr_liq (position_row_of price \<lparr>lp_position = pos, lp_exchange = ex, lp_leverage = jnat (tf_leverage t)\<rparr>) = Fin liq"
    if "op_entry pos = Fin p" "op_side pos = (if tf_side t = Buy then ''BUY'' else ''SELL'')" for pos ex price
    using L that by (cases "tf_side t") (simp_all add: position_row_of_def Let_def liq_def flip: L_def)
  ultimately show ?thesis using pos side loss by (intro exI [of _ liq] exI [of _ "q * p / L"]) auto
qed

theorem liquidation_leaves_maintenance_witness:
  "\<exists>liq m. rk_liq (risk_of ((ticket_init (sample_env 100))\<lparr>tf_quantity := ''2''\<rparr>)) = Fin liq \<and>
     rk_margin (risk_of ((ticket_init (sample_env 100))\<lparr>tf_quantity := ''2''\<rparr>)) = Fin m \<and> 0 < liq \<and> liq < 100 \<and>
     (100 - liq) * 2 = m - 5 / 1000 * (100 * 2)"
proof -
  let ?t = "(ticket_init (sample_env 100))\<lparr>tf_quantity := ''2''\<rparr>"
  have "qtyNum ?t = Fin 2" by (simp add: qtyNum_def) code_simp
  then show ?thesis using liquidation_leaves_maintenance [of ?t 100 2] by (auto simp: ticket_init_def sample_env_def)
qed

end
