(* ===== verification/PriceAlerts.thy ===== *)
theory PriceAlerts
  imports JsDecimal
begin

text \<open>
  The price alerts of \<open>web-ui/src/components/PriceAlerts.jsx\<close>: the list, the set of triggered alerts, the effect that
  compares them with the current price and the effect that forgets removed ones. Sounds and the calls of
  \<open>onAlert\<close> are kept as a history. The laws: no alert fires twice and none that is hit stays silent; the price
  of another symbol fires it too.
\<close>

section \<open>State\<close>

datatype alert_direction = Above | Below

record price_alert =
  al_id :: real
  al_threshold :: jsnum
  al_direction :: alert_direction
  al_symbol :: string
  al_exchange :: string

record alerts_state =
  as_price :: jsnum
  as_symbol :: string
  as_exchange :: string
  as_alerts :: "price_alert list"
  as_show_form :: bool
  as_threshold :: string
  as_direction :: alert_direction
  as_sound :: bool
  as_triggered :: "real list"
  as_beeps :: nat
  as_fired :: "(price_alert \<times> jsnum) list"

definition alerts_init :: "jsnum \<Rightarrow> string \<Rightarrow> string \<Rightarrow> alerts_state" where
  "alerts_init price symbol exchange =
     \<lparr>as_price = price, as_symbol = symbol, as_exchange = exchange, as_alerts = [], as_show_form = False,
      as_threshold = [], as_direction = Above, as_sound = True, as_triggered = [], as_beeps = 0, as_fired = []\<rparr>"

definition alert_hit :: "jsnum \<Rightarrow> price_alert \<Rightarrow> bool" where
  "alert_hit price a = (if al_direction a = Above then price \<ge> al_threshold a else price \<le> al_threshold a)"

definition set_add :: "'a \<Rightarrow> 'a list \<Rightarrow> 'a list" where
  "set_add x xs = (if x \<in> set xs then xs else xs @ [x])"

text \<open>The loop of the effect: \<open>triggered\<close> is the set captured when it starts.\<close>

fun check_loop :: "real list \<Rightarrow> price_alert list \<Rightarrow> alerts_state \<Rightarrow> alerts_state" where
  "check_loop triggered [] s = s"
| "check_loop triggered (a # as) s =
     (if al_id a \<in> set triggered then check_loop triggered as s
      else if alert_hit (as_price s) a
        then check_loop triggered as
          (s\<lparr>as_triggered := set_add (al_id a) (as_triggered s),
             as_beeps := (if as_sound s then as_beeps s + 1 else as_beeps s),
             as_fired := as_fired s @ [(a, as_price s)]\<rparr>)
      else check_loop triggered as s)"

definition check_alerts :: "alerts_state \<Rightarrow> alerts_state" where
  "check_alerts s = (if \<not> truthy (as_price s) then s else check_loop (as_triggered s) (as_alerts s) s)"

definition clean_triggered :: "alerts_state \<Rightarrow> alerts_state" where
  "clean_triggered s = s\<lparr>as_triggered := filter (\<lambda>i. i \<in> al_id ` set (as_alerts s)) (as_triggered s)\<rparr>"

definition addAlert :: "real \<Rightarrow> alerts_state \<Rightarrow> alerts_state" where
  \<comment> \<open>the first argument is the identifier drawn from clock and chance\<close>
  "addAlert i s =
     (let t = parse_float_js (as_threshold s)
      in if t = NaN \<or> t \<le> 0 then s
         else s\<lparr>as_alerts := as_alerts s @ [\<lparr>al_id = i, al_threshold = t, al_direction = as_direction s,
             al_symbol = as_symbol s, al_exchange = as_exchange s\<rparr>],
           as_threshold := [], as_show_form := False\<rparr>)"

definition removeAlert :: "real \<Rightarrow> alerts_state \<Rightarrow> alerts_state" where
  "removeAlert i s = s\<lparr>as_alerts := filter (\<lambda>a. al_id a \<noteq> i) (as_alerts s),
     as_triggered := filter (\<lambda>j. j \<noteq> i) (as_triggered s)\<rparr>"

definition activeAlerts :: "alerts_state \<Rightarrow> price_alert list" where
  "activeAlerts s = filter (\<lambda>a. al_id a \<notin> set (as_triggered s)) (as_alerts s)"

definition triggeredAlerts :: "alerts_state \<Rightarrow> price_alert list" where
  "triggeredAlerts s = filter (\<lambda>a. al_id a \<in> set (as_triggered s)) (as_alerts s)"

datatype alert_event =
  NewProps jsnum string string
| TypeThreshold string
| ChooseDirection alert_direction
| AddClicked real
| RemoveClicked real
| ToggleSound
| ToggleForm

fun alert_update :: "alert_event \<Rightarrow> alerts_state \<Rightarrow> alerts_state" where
  "alert_update (NewProps p sy ex) s = s\<lparr>as_price := p, as_symbol := sy, as_exchange := ex\<rparr>"
| "alert_update (TypeThreshold t) s = s\<lparr>as_threshold := t\<rparr>"
| "alert_update (ChooseDirection d) s = s\<lparr>as_direction := d\<rparr>"
| "alert_update (AddClicked i) s = addAlert i s"
| "alert_update (RemoveClicked i) s = removeAlert i s"
| "alert_update ToggleSound s = s\<lparr>as_sound := \<not> as_sound s\<rparr>"
| "alert_update ToggleForm s = s\<lparr>as_show_form := \<not> as_show_form s\<rparr>"

text \<open>An event, the render and its two effects; \<open>settled\<close> shows that the effects of the second render, which the new
  set causes, change nothing.\<close>

definition alert_step :: "alert_event \<Rightarrow> alerts_state \<Rightarrow> alerts_state" where
  "alert_step e s = clean_triggered (check_alerts (alert_update e s))"

definition alert_run :: "alerts_state \<Rightarrow> alert_event list \<Rightarrow> alerts_state" where
  "alert_run s evs = fold alert_step evs s"

section \<open>The effect\<close>

definition fresh_hits :: "real list \<Rightarrow> jsnum \<Rightarrow> price_alert list \<Rightarrow> price_alert list" where
  "fresh_hits triggered price as = filter (\<lambda>a. al_id a \<notin> set triggered \<and> alert_hit price a) as"

lemma set_set_add [simp]: "set (set_add x xs) = insert x (set xs)"
  by (auto simp: set_add_def)

lemma check_loop_effect:
  "set (as_triggered (check_loop tr as s)) = set (as_triggered s) \<union> al_id ` set (fresh_hits tr (as_price s) as) \<and>
   as_fired (check_loop tr as s) = as_fired s @ map (\<lambda>a. (a, as_price s)) (fresh_hits tr (as_price s) as) \<and>
   as_alerts (check_loop tr as s) = as_alerts s \<and> as_price (check_loop tr as s) = as_price s \<and>
   as_symbol (check_loop tr as s) = as_symbol s"
proof (induction as arbitrary: s)
  case (Cons a as)
  show ?case using Cons.IH by (auto simp: fresh_hits_def)
qed (simp add: fresh_hits_def)

definition new_hits :: "alerts_state \<Rightarrow> price_alert list" where
  "new_hits s = (if truthy (as_price s) then fresh_hits (as_triggered s) (as_price s) (as_alerts s) else [])"

lemma check_alerts_effect:
  "set (as_triggered (check_alerts s)) = set (as_triggered s) \<union> al_id ` set (new_hits s)"
  "as_fired (check_alerts s) = as_fired s @ map (\<lambda>a. (a, as_price s)) (new_hits s)"
  "as_alerts (check_alerts s) = as_alerts s"
  "as_price (check_alerts s) = as_price s"
  "as_symbol (check_alerts s) = as_symbol s"
  using check_loop_effect [of "as_triggered s" "as_alerts s" s] by (simp_all add: check_alerts_def new_hits_def)

lemma settled: "check_alerts (clean_triggered (check_alerts s)) = clean_triggered (check_alerts s)"
proof -
  let ?s = "clean_triggered (check_alerts s)"
  have idle: "check_loop tr as s' = s'" if "fresh_hits tr (as_price s') as = []" for tr as s'
    using that by (induction as) (auto simp: fresh_hits_def split: if_splits)
  have "fresh_hits (as_triggered ?s) (as_price ?s) (as_alerts ?s) = []" if "truthy (as_price s)"
    using that by (auto simp: clean_triggered_def check_alerts_effect new_hits_def fresh_hits_def filter_empty_conv)
  then show ?thesis using idle [of "as_triggered ?s" ?s "as_alerts ?s"]
    by (auto simp: check_alerts_def [of ?s]) (simp add: clean_triggered_def check_alerts_effect)
qed

section \<open>Once and not missed\<close>

definition alerts_ok :: "real set \<Rightarrow> alerts_state \<Rightarrow> bool" where
  "alerts_ok used s \<longleftrightarrow> distinct (map al_id (as_alerts s)) \<and> al_id ` set (as_alerts s) \<subseteq> used \<and>
     set (as_triggered s) \<subseteq> used \<and> distinct (map (al_id \<circ> fst) (as_fired s)) \<and> (al_id \<circ> fst) ` set (as_fired s) \<subseteq> used \<and>
     (\<forall>a \<in> set (as_alerts s). al_id a \<in> (al_id \<circ> fst) ` set (as_fired s) \<longleftrightarrow> al_id a \<in> set (as_triggered s)) \<and>
     (\<forall>(a, p) \<in> set (as_fired s). alert_hit p a \<and> truthy p)"

fun new_ids :: "alert_event \<Rightarrow> real list" where
  "new_ids (AddClicked i) = [i]"
| "new_ids _ = []"

lemma alerts_ok_update:
  assumes "alerts_ok used s" "set (new_ids e) \<inter> used = {}"
  shows "alerts_ok (used \<union> set (new_ids e)) (alert_update e s)"
proof (cases e)
  case (AddClicked i)
  then show ?thesis using assms by (auto simp: alerts_ok_def addAlert_def Let_def)
next
  case (RemoveClicked i)
  have "distinct (map al_id (filter (\<lambda>a. al_id a \<noteq> i) (as_alerts s)))"
    using assms(1) by (simp add: alerts_ok_def distinct_map_filter)
  then show ?thesis using assms(1) by (auto simp: RemoveClicked alerts_ok_def removeAlert_def)
qed (use assms in \<open>auto simp: alerts_ok_def\<close>)

lemma alerts_ok_check:
  assumes "alerts_ok used s"
  shows "alerts_ok used (check_alerts s)"
proof -
  have sub: "set (new_hits s) \<subseteq> set (as_alerts s)" by (auto simp: new_hits_def fresh_hits_def)
  have hit: "al_id a \<notin> set (as_triggered s)" "alert_hit (as_price s) a" "truthy (as_price s)" if "a \<in> set (new_hits s)" for a
    using that by (auto simp: new_hits_def fresh_hits_def split: if_splits)
  have "distinct (map al_id (new_hits s))"
    using assms by (simp add: alerts_ok_def new_hits_def fresh_hits_def distinct_map_filter)
  moreover have "al_id ` set (new_hits s) \<inter> (al_id \<circ> fst) ` set (as_fired s) = {}"
    using assms sub hit(1) unfolding alerts_ok_def by blast
  ultimately have "distinct (map (al_id \<circ> fst) (as_fired s @ map (\<lambda>a. (a, as_price s)) (new_hits s)))"
    using assms by (auto simp: alerts_ok_def comp_def)
  moreover have "al_id ` set (new_hits s) \<subseteq> used" using assms sub unfolding alerts_ok_def by blast
  moreover have "(al_id \<circ> fst) ` set (as_fired s @ map (\<lambda>a. (a, as_price s)) (new_hits s)) =
      (al_id \<circ> fst) ` set (as_fired s) \<union> al_id ` set (new_hits s)"
    by (simp add: image_Un image_image comp_def)
  moreover have "\<forall>(a, p) \<in> set (as_fired s @ map (\<lambda>a. (a, as_price s)) (new_hits s)). alert_hit p a \<and> truthy p"
    using assms hit by (auto simp: alerts_ok_def)
  ultimately show ?thesis using assms unfolding alerts_ok_def check_alerts_effect by simp
qed

lemma alerts_ok_clean: "alerts_ok used s \<Longrightarrow> alerts_ok used (clean_triggered s)"
  by (auto simp: alerts_ok_def clean_triggered_def)

lemma alerts_ok_run:
  "alerts_ok used s \<Longrightarrow> distinct (concat (map new_ids evs)) \<Longrightarrow> set (concat (map new_ids evs)) \<inter> used = {} \<Longrightarrow>
     alerts_ok (used \<union> set (concat (map new_ids evs))) (alert_run s evs)"
proof (induction evs arbitrary: s used)
  case (Cons e evs)
  have "alerts_ok (used \<union> set (new_ids e)) (alert_step e s)"
    using Cons.prems unfolding alert_step_def by (intro alerts_ok_clean alerts_ok_check alerts_ok_update) auto
  then have "alerts_ok ((used \<union> set (new_ids e)) \<union> set (concat (map new_ids evs))) (alert_run (alert_step e s) evs)"
    using Cons.prems by (intro Cons.IH) auto
  then show ?case by (simp add: alert_run_def Un_assoc)
qed (simp add: alert_run_def)

text \<open>
  C26: Over any run in which new alerts get new identifiers: every alert has fired at most once, at a price that
  reached its threshold from its side, the alerts shown as triggered are those that have fired, and after every event
  no alert that the current price hits is still waiting.
\<close>

theorem alerts_fire_once:
  assumes "distinct (concat (map new_ids evs))" "evs \<noteq> []"
  shows "distinct (map (al_id \<circ> fst) (as_fired (alert_run (alerts_init p sy ex) evs))) \<and>
    (\<forall>(a, q) \<in> set (as_fired (alert_run (alerts_init p sy ex) evs)). alert_hit q a) \<and>
    (\<forall>a \<in> set (triggeredAlerts (alert_run (alerts_init p sy ex) evs)).
       al_id a \<in> (al_id \<circ> fst) ` set (as_fired (alert_run (alerts_init p sy ex) evs))) \<and>
    (\<forall>a \<in> set (activeAlerts (alert_run (alerts_init p sy ex) evs)).
       \<not> (truthy (as_price (alert_run (alerts_init p sy ex) evs)) \<and>
          alert_hit (as_price (alert_run (alerts_init p sy ex) evs)) a))"
proof -
  let ?s = "alert_run (alerts_init p sy ex) evs"
  have "alerts_ok {} (alerts_init p sy ex)" by (simp add: alerts_ok_def alerts_init_def)
  from alerts_ok_run [OF this assms(1)] have ok: "alerts_ok (set (concat (map new_ids evs))) ?s" by simp
  obtain evs' e where "evs = evs' @ [e]" using assms(2) by (metis append_butlast_last_id)
  then obtain s0 where s: "?s = clean_triggered (check_alerts s0)" by (auto simp: alert_run_def alert_step_def)
  have "\<not> (truthy (as_price ?s) \<and> alert_hit (as_price ?s) a)" if "a \<in> set (activeAlerts ?s)" for a
    using that unfolding s
    by (auto simp: activeAlerts_def clean_triggered_def check_alerts_effect new_hits_def fresh_hits_def split: if_splits)
  then show ?thesis using ok by (auto simp: alerts_ok_def triggeredAlerts_def)
qed

definition alert_demo :: "alert_event list" where
  "alert_demo = [TypeThreshold ''100'', AddClicked 1, NewProps (Fin 90) ''BTC'' ''okx'', NewProps (Fin 120) ''ETH'' ''okx'',
     NewProps (Fin 130) ''ETH'' ''okx'']"

theorem alerts_fire_once_witness:
  "distinct (map (al_id \<circ> fst) (as_fired (alert_run (alerts_init (Fin 90) ''BTC'' ''okx'') alert_demo)))"
  using alerts_fire_once [of alert_demo "Fin 90" "''BTC''" "''okx''"] by (simp add: alert_demo_def)

text \<open>An alert set for one symbol fires at the price of another: the effect compares the price of the symbol
  on display, and nothing checks the alert's own.\<close>

lemma alert_ignores_symbol:
  "map (\<lambda>(a, p). (al_symbol a, p)) (as_fired (alert_run (alerts_init (Fin 90) ''BTC'' ''okx'') alert_demo)) =
     [(''BTC'', Fin 120)] \<and>
   as_symbol (alert_run (alerts_init (Fin 90) ''BTC'' ''okx'') (take 4 alert_demo)) = ''ETH''"
proof -
  have "parse_float_js ''100'' = Fin 100" by code_simp
  then show ?thesis
    by (simp add: alert_run_def alert_demo_def alert_step_def alerts_init_def addAlert_def check_alerts_def
      clean_triggered_def alert_hit_def set_add_def zero_jsnum_def)
qed

end
