(* ===== verification/KellyLaws.thy ===== *)
theory KellyLaws
  imports Kelly
begin

text \<open>
  Laws of the Kelly panel: no fraction grows faster than the reported one, the simulation ends when the draws are not
  forever zero, and the inverse covariance of two assets with the same variance ignores their covariance.
\<close>

section \<open>The best fraction\<close>

definition log_growth :: "real \<Rightarrow> real \<Rightarrow> real \<Rightarrow> real" where
  "log_growth p b f = p * ln (1 + b * f) + (1 - p) * ln (1 - f)"

lemma growth_below_edge:
  assumes "0 \<le> p" "p \<le> 1" "0 < b" "0 \<le> f" "f < 1"
  shows "log_growth p b f \<le> f * (p * b - (1 - p))"
proof -
  have "ln (1 + b * f) \<le> b * f" using assms by (intro ln_add_one_self_le_self) simp
  moreover have "ln (1 - f) \<le> - f" using ln_le_minus_one [of "1 - f"] assms by simp
  ultimately have "p * ln (1 + b * f) \<le> p * (b * f)" "(1 - p) * ln (1 - f) \<le> (1 - p) * (- f)"
    using assms mult_left_mono [of "ln (1 - f)" "- f" "1 - p"] by (simp_all add: mult_left_mono)
  then show ?thesis by (simp add: log_growth_def algebra_simps)
qed

lemma growth_best:
  assumes p: "0 < p" "p < 1" "0 < b" and f: "0 \<le> f" "f < 1"
  shows "log_growth p b f \<le> log_growth p b ((p * b - (1 - p)) / b)"
proof -
  define k where "k = (p * b - (1 - p)) / b"
  have k1: "1 + b * k = p * (1 + b)" and k2: "1 - k = (1 - p) * (1 + b) / b"
    using p by (simp_all add: k_def field_simps)
  have pos: "0 < 1 + b * k" "0 < 1 - k" "0 < 1 + b * f" "0 < 1 - f"
    unfolding k1 k2 using p f by (simp_all add: add_pos_nonneg)
  have u: "ln (1 + b * f) - ln (1 + b * k) \<le> (1 + b * f) / (1 + b * k) - 1"
    using ln_le_minus_one [of "(1 + b * f) / (1 + b * k)"] pos by (simp add: ln_div)
  have d: "ln (1 - f) - ln (1 - k) \<le> (1 - f) / (1 - k) - 1"
    using ln_le_minus_one [of "(1 - f) / (1 - k)"] pos by (simp add: ln_div)
  have "p * (ln (1 + b * f) - ln (1 + b * k)) + (1 - p) * (ln (1 - f) - ln (1 - k))
      \<le> p * ((1 + b * f) / (1 + b * k) - 1) + (1 - p) * ((1 - f) / (1 - k) - 1)"
    using u d p by (intro add_mono mult_left_mono) simp_all
  also have "\<dots> = 0"
  proof -
    have "p * ((1 + b * f) / (1 + b * k)) = (1 + b * f) / (1 + b)" unfolding k1 using p by simp
    moreover have "(1 - p) * ((1 - f) / (1 - k)) = (1 - f) * b / (1 + b)" unfolding k2 using p by simp
    ultimately show ?thesis using p by (simp add: right_diff_distrib add_divide_distrib [symmetric]) (simp add: field_simps)
  qed
  finally show ?thesis unfolding k_def [symmetric] by (simp add: log_growth_def algebra_simps)
qed

text \<open>
  The fraction of \<open>kellySingle\<close> is the best one: for a win probability strictly between 0 and 1 and a
  positive win/loss ratio, the reported growth rate is the largest expected logarithmic growth over all fractions from
  0 up to 1, attained at the reported fraction when that is positive and at 0 (no bet) when it is not.
\<close>

theorem kelly_fraction_optimal:
  assumes "0 < p" "p < 1" "0 < b"
  shows "\<exists>k g. kl_fstar (kellySingle (Fin p) (Fin b)) = Fin k \<and> kl_growth (kellySingle (Fin p) (Fin b)) = Fin g \<and>
    (\<forall>f. 0 \<le> f \<and> f < 1 \<longrightarrow> log_growth p b f \<le> g) \<and> g = log_growth p b (max 0 k) \<and> k < 1"
proof -
  let ?k = "(p * b - (1 - p)) / b"
  have k2: "1 - ?k = (1 - p) * (1 + b) / b" using assms by (simp add: field_simps)
  have "0 < (1 - p) * (1 + b) / b" using assms by (intro divide_pos_pos mult_pos_pos) simp_all
  then have k: "?k < 1" unfolding k2 [symmetric] by linarith
  have fstar: "kl_fstar (kellySingle (Fin p) (Fin b)) = Fin ?k" using assms by (simp add: kellySingle_def Let_def)
  show ?thesis
  proof (cases "0 < ?k")
    case True
    then have "0 < 1 + b * ?k" using assms by (simp add: add_pos_pos)
    then have "kl_growth (kellySingle (Fin p) (Fin b)) = Fin (log_growth p b ?k)"
      using True k assms by (simp add: kellySingle_def Let_def zero_jsnum_def log_growth_def)
    then show ?thesis using fstar growth_best [OF assms] True k by (intro exI) (auto simp: max_def)
  next
    case False
    then have "p * b - (1 - p) \<le> 0" using assms(3) by (simp add: divide_le_0_iff zero_less_divide_iff not_less)
    then have "log_growth p b f \<le> 0" if "0 \<le> f" "f < 1" for f
      using growth_below_edge [of p b f] mult_nonneg_nonpos [of f "p * b - (1 - p)"] assms that by linarith
    moreover have "kl_growth (kellySingle (Fin p) (Fin b)) = Fin 0"
      using False assms by (simp add: kellySingle_def Let_def zero_jsnum_def)
    ultimately show ?thesis using fstar False k by (intro exI) (auto simp: max_def log_growth_def)
  qed
qed

theorem kelly_fraction_optimal_witness:
  "\<exists>k g. kl_fstar (kellySingle (Fin (1 / 2)) (Fin 2)) = Fin k \<and> kl_growth (kellySingle (Fin (1 / 2)) (Fin 2)) = Fin g \<and>
    g = log_growth (1 / 2) 2 (max 0 k)"
  using kelly_fraction_optimal [of "1 / 2" 2] by auto

section \<open>The simulation ends\<close>

definition restless :: "draws \<Rightarrow> bool" where
  "restless s \<longleftrightarrow> (\<forall>n. \<exists>i \<ge> n. s i \<noteq> 0)"

lemma restless_shift: "restless s \<Longrightarrow> restless (\<lambda>i. s (Suc i))"
  unfolding restless_def by (metis Suc_le_D Suc_le_mono)

lemma nonzero_draw_ends: "s i \<noteq> 0 \<Longrightarrow> restless s \<Longrightarrow> \<exists>u s'. nonzero_draw s = Some (u, s') \<and> restless s'"
proof (induction i arbitrary: s)
  case (Suc i)
  then show ?case using restless_shift [of s] by (cases "s 0 = 0") (auto simp: nonzero_draw.simps [of s])
qed (auto simp: nonzero_draw.simps restless_shift)

lemma nonzero_draw_restless: "restless s \<Longrightarrow> \<exists>u s'. nonzero_draw s = Some (u, s') \<and> restless s'"
  by (frule spec [of "\<lambda>n. \<exists>i \<ge> n. s i \<noteq> 0" 0, OF restless_def [THEN iffD1]]) (blast intro: nonzero_draw_ends)

lemma randomNormal_ends:
  assumes "restless s"
  shows "\<exists>z s'. randomNormal s = Some (z, s') \<and> restless s'"
proof -
  obtain u s1 where "nonzero_draw s = Some (u, s1)" "restless s1" using nonzero_draw_restless assms by blast
  moreover obtain v s2 where "nonzero_draw s1 = Some (v, s2)" "restless s2"
    using nonzero_draw_restless calculation(2) by blast
  ultimately show ?thesis by (simp add: randomNormal_def)
qed

lemma wealth_path_ends:
  "restless s \<Longrightarrow> \<exists>ws s'. wealth_path n f m v w s = Some (ws, s') \<and> restless s' \<and> length ws = n"
proof (induction n arbitrary: w s)
  case (Suc n)
  obtain z s1 where "randomNormal s = Some (z, s1)" "restless s1" using randomNormal_ends Suc.prems by blast
  then show ?case using Suc.IH [of s1 "w * (1 + f * (m + v * z))"] by auto
qed simp

lemma wealth_paths_ends:
  "restless s \<Longrightarrow> \<exists>wss s'. wealth_paths n k f m v s = Some (wss, s') \<and> restless s' \<and> length wss = n"
proof (induction n arbitrary: s)
  case (Suc n)
  obtain ws s1 where "wealth_path k f m v 1 s = Some (ws, s1)" "restless s1" using wealth_path_ends Suc.prems by blast
  then show ?case using Suc.IH [of s1] by auto
qed simp

lemma simulate_ends: "restless s \<Longrightarrow> \<exists>r s'. simulateKelly f m v n k s = Some (r, s') \<and> restless s'"
  using wealth_paths_ends [of s n k f m v] by (auto simp: simulateKelly_def Let_def)

lemma simulate_all_ends: "restless s \<Longrightarrow> \<exists>rs s'. simulate_all ps s = Some (rs, s') \<and> length rs = length ps"
proof (induction ps arbitrary: s)
  case (Cons p ps)
  obtain r s1 where "simulateKelly (fst p) (fst (snd p) / 252) (snd (snd p) / jsqrt 252) 500 252 s = Some (r, s1)"
    "restless s1" using simulate_ends Cons.prems by blast
  then show ?case using Cons.IH [of s1] by auto
qed simp

text \<open>
  The panel's computation ends unless the draws are zero from some point on: its rejection loops find a draw,
  every asset gets its simulation, and every position of the result is clamped to the leverage.
\<close>

theorem kelly_panel_ends:
  assumes "restless s" "maxLeverage = Fin L" "0 \<le> L"
  shows "\<exists>r. multi_asset candles exchange symbols lookback fraction maxLeverage s = Some r \<and>
    (\<forall>k. r = Some k \<longrightarrow> length (kp_sims k) = length (kp_symbols k) \<and> 2 \<le> length (kp_symbols k) \<and>
      (\<forall>x \<in> set (kp_clamped k). x = NaN \<or> (- Fin L \<le> x \<and> x \<le> Fin L)))"
proof -
  have clamp: "jmax (- Fin L) (jmin (Fin L) f) = NaN \<or>
      (- Fin L \<le> jmax (- Fin L) (jmin (Fin L) f) \<and> jmax (- Fin L) (jmin (Fin L) f) \<le> Fin L)" for f
    using assms(3) by (cases f) (auto simp: jmax_def jmin_def)
  define valid where "valid = asset_returns (group_candles candles exchange) lookback
    (case symbols of None \<Rightarrow> [] | Some xs \<Rightarrow> xs)"
  show ?thesis
  proof (cases "group_candles candles exchange = [] \<or>
      length (case symbols of None \<Rightarrow> [] | Some xs \<Rightarrow> xs) < 2 \<or> length valid < 2")
    case True
    then show ?thesis by (simp add: multi_asset_def Let_def valid_def)
  next
    case False
    let ?k = "kellyMulti (map snd valid)"
    let ?clamped = "map (\<lambda>f. jmax (- Fin L) (jmin (Fin L) f)) (map (\<lambda>f. f * fraction) (km_fstar ?k))"
    let ?ps = "map (\<lambda>i. (rd ?clamped i, rd (km_mu ?k) i, rd (km_vols ?k) i)) [0..<length valid]"
    obtain rs s' where "simulate_all ?ps s = Some (rs, s')" "length rs = length ?ps"
      using simulate_all_ends [OF assms(1)] by blast
    then have "multi_asset candles exchange symbols lookback fraction maxLeverage s =
        Some (Some \<lparr>kp_multi = ?k, kp_symbols = map fst valid, kp_fractional = map (\<lambda>f. f * fraction) (km_fstar ?k),
          kp_clamped = ?clamped, kp_gross = jsum (map abs ?clamped), kp_sims = rs\<rparr>)" "length rs = length valid"
      using False unfolding multi_asset_def Let_def assms(2) valid_def [symmetric] by simp_all
    then show ?thesis using False clamp by auto
  qed
qed

theorem kelly_panel_ends_witness:
  "\<exists>r. multi_asset None ''okx'' (Some [''A'', ''B'']) 20 (Fin (1 / 2)) (Fin 3) (\<lambda>_. 1 / 2) = Some r"
proof -
  have "restless (\<lambda>_. 1 / 2)" by (auto simp: restless_def)
  then show ?thesis
    using kelly_panel_ends [of "\<lambda>_. 1 / 2" "Fin 3" 3 None "''okx''" "Some [''A'', ''B'']" 20 "Fin (1 / 2)"] by auto
qed

section \<open>The rotation\<close>

lemma two_by_two_entry:
  "entry [[a, b], [c, d]] 0 0 = a" "entry [[a, b], [c, d]] 0 1 = b"
  "entry [[a, b], [c, d]] 1 0 = c" "entry [[a, b], [c, d]] 1 1 = d"
  by (simp_all add: entry_def rd_def)

lemma for_2: "for_loop 0 2 f s = f 1 (f 0 s)"
  by (simp add: for_loop_def upt_conv_Cons)

lemma for_1_2: "for_loop (Suc 0) 2 f s = f 1 s"
  by (simp add: for_loop_def upt_conv_Cons)

lemma rotate_nothing:
  "rotate_columns 2 0 1 1 0 [[Fin a, Fin b], [Fin c, Fin d]] = [[Fin a, Fin b], [Fin c, Fin d]]"
  "rotate_rows 2 0 1 1 0 [[Fin a, Fin b], [Fin c, Fin d]] = [[Fin a, Fin b], [Fin c, Fin d]]"
  by (simp_all add: rotate_columns_def rotate_rows_def for_2 two_by_two_entry [unfolded One_nat_def] put_def Let_def
    zero_jsnum_def)

lemma largest_2:
  "largest_off_diagonal 2 [[a, Fin r], [b, c]] = (if r = 0 then (0, 0, 0) else (Fin \<bar>r\<bar>, 0, 1))"
  by (simp add: largest_off_diagonal_def for_2 for_1_2 two_by_two_entry [unfolded One_nat_def] zero_jsnum_def)

lemma tangent_zero: "r \<noteq> 0 \<Longrightarrow> rotation_tangent [[Fin a, Fin r], [b, Fin a]] 0 1 = 0"
  by (simp add: rotation_tangent_def two_by_two_entry [unfolded One_nat_def] jsign_def Let_def zero_jsnum_def)

text \<open>
  The covariance of two assets with the same variance is ignored: for a symmetric 2 by 2 matrix with equal
  diagonal entries the angle comes out as 0, the off-diagonal entries are overwritten with 0, and the result is
  the inverse of the diagonal, not of the matrix.
\<close>

theorem inverse_ignores_covariance:
  assumes "1 / 10 ^ 10 < \<bar>a\<bar>" "1 / 10 ^ 10 \<le> \<bar>r\<bar>"
  shows "matrixInverse [[Fin a, Fin r], [Fin r, Fin a]] = [[Fin (1 / a), 0], [0, Fin (1 / a)]]"
proof -
  let ?tol = "Fin (1 / 10 ^ 10)"
  let ?V = "[[Fin 1, Fin 0], [Fin 0, Fin 1]]" and ?D = "[[Fin a, Fin 0], [Fin 0, Fin a]]"
  have r: "r \<noteq> 0" "\<not> Fin \<bar>r\<bar> < ?tol" using assms(2) by auto
  have cs: "1 / jsqrt (0 * 0 + 1) = (1 :: jsnum)" "0 * 1 = (0 :: jsnum)" by (simp_all add: zero_jsnum_def)
  have stop: "jacobi_loop (Suc k) 2 ?tol ?D ?V = (?D, ?V)" for k by (simp add: largest_2 zero_jsnum_def)
  have "jacobi_loop (Suc (Suc k)) 2 ?tol [[Fin a, Fin r], [Fin r, Fin a]] ?V = (?D, ?V)" for k
    unfolding jacobi_loop.simps(2) [of "Suc k"] largest_2 tangent_zero [OF r(1)] Let_def
    using r stop [of k] by (simp only: if_False prod.case tangent_zero [OF r(1)] cs rotate_nothing)
      (simp add: put_def zero_jsnum_def)
  from this [of 98] have "jacobiEig [[Fin a, Fin r], [Fin r, Fin a]] = ([Fin a, Fin a], ?V)"
    by (simp add: jacobiEig_def Let_def numeral_2_eq_2 [symmetric] upt_conv_Cons two_by_two_entry [unfolded One_nat_def] zero_jsnum_def
      del: jacobi_loop.simps)
  then show ?thesis using assms(1)
    by (simp add: matrixInverse_def Let_def numeral_2_eq_2 [symmetric] upt_conv_Cons for_2 two_by_two_entry [unfolded One_nat_def]
      rd_def zero_jsnum_def)
qed

theorem inverse_ignores_covariance_witness:
  "matrixInverse [[Fin 2, Fin 1], [Fin 1, Fin 2]] = [[Fin (1 / 2), 0], [0, Fin (1 / 2)]]"
  using inverse_ignores_covariance [of 2 1] by simp

end
