(* ===== verification/Copula.thy ===== *)
theory Copula
  imports JsRandom JsSort
begin

text \<open>
  The copula functions \<open>web-ui/src/utils/copulaMath.js\<close>: ranks and rank correlations, the three copulas, the fit from
  Kendall's tau and the special functions behind them. The laws: the rank correlations are between -1 and 1;
  the Clayton and the Gumbel copula have uniform margins and stay below both arguments. The Gaussian one does
  not: its value can exceed 1.
\<close>

section \<open>Powers\<close>

text \<open>\<open>Math.pow\<close>; \<open>is_odd_int\<close> decides the sign of a power of a negative infinity.\<close>

definition is_odd_int :: "real \<Rightarrow> bool" where
  "is_odd_int b \<longleftrightarrow> of_int \<lfloor>b\<rfloor> = b \<and> odd \<lfloor>b\<rfloor>"

fun jpow :: "jsnum \<Rightarrow> jsnum \<Rightarrow> jsnum" where
  "jpow x (Fin b) =
     (if b = 0 then 1
      else case x of
        Fin a \<Rightarrow>
          if a = 0 then (if b > 0 then 0 else PInf)
          else if a > 0 then Fin (a powr b)
          else if of_int \<lfloor>b\<rfloor> = b then Fin (a powi \<lfloor>b\<rfloor>)
          else NaN
      | PInf \<Rightarrow> (if b > 0 then PInf else 0)
      | NInf \<Rightarrow> (if b > 0 then (if is_odd_int b then NInf else PInf) else 0)
      | NaN \<Rightarrow> NaN)"
| "jpow x NaN = NaN"
| "jpow x PInf = (case x of Fin a \<Rightarrow> if \<bar>a\<bar> = 1 then NaN else if \<bar>a\<bar> > 1 then PInf else 0 | NaN \<Rightarrow> NaN | _ \<Rightarrow> PInf)"
| "jpow x NInf = (case x of Fin a \<Rightarrow> if \<bar>a\<bar> = 1 then NaN else if \<bar>a\<bar> > 1 then 0 else PInf | NaN \<Rightarrow> NaN | _ \<Rightarrow> 0)"

fun jsin :: "jsnum \<Rightarrow> jsnum" where
  "jsin (Fin x) = Fin (sin x)"
| "jsin _ = NaN"

section \<open>Distribution functions\<close>

definition empiricalCDF :: "jsnum list \<Rightarrow> jsnum list" where
  "empiricalCDF values =
     map (\<lambda>v. jnat (length (filter (\<lambda>x. x \<le> v) values)) / jnat (length values + 1)) values"

definition horner :: "jsnum list \<Rightarrow> jsnum \<Rightarrow> jsnum" where
  \<comment> \<open>\<open>((c0*q+c1)*q+c2)...\<close>\<close>
  "horner cs q = (case cs of [] \<Rightarrow> 0 | c # cs' \<Rightarrow> foldl (\<lambda>s k. s * q + k) c cs')"

definition inv_a :: "jsnum list" where
  "inv_a = map Fin [-39.69683028665376, 220.9460984245205, -275.9285104469687, 138.3577518672690,
     -30.66479806614716, 2.506628277459239]"

definition inv_b :: "jsnum list" where
  "inv_b = map Fin [-54.47609879822406, 161.5858368580409, -155.6989798598866, 66.80131188771972, -13.28068155288572]"

definition inv_c :: "jsnum list" where
  "inv_c = map Fin [-0.007784894002430293, -0.3223964580411365, -2.400758277161247, -2.549732539343734,
     4.374664141464968, 2.938163982698783]"

definition inv_d :: "jsnum list" where
  "inv_d = map Fin [0.007784695709041462, 0.3224671290700398, 2.445134137142996, 3.754408661907416]"

definition normInv :: "jsnum \<Rightarrow> jsnum" where
  "normInv p =
     (if p \<le> 0 then - 10
      else if p \<ge> 1 then 10
      else
        let plow = Fin 0.02425; phigh = 1 - plow
        in if p < plow
           then let q = jsqrt (- 2 * jlog p) in horner inv_c q / horner (inv_d @ [1]) q
           else if p \<le> phigh
           then let q = p - Fin 0.5; r = q * q in horner inv_a r * q / horner (inv_b @ [1]) r
           else let q = jsqrt (- 2 * jlog (1 - p)) in - horner inv_c q / horner (inv_d @ [1]) q)"

definition copula_erf :: "jsnum \<Rightarrow> jsnum" where
  "copula_erf x0 =
     (let sign = (if x0 \<ge> 0 then 1 else - 1);
          x = \<bar>x0\<bar>;
          t = 1 / (1 + Fin 0.3275911 * x);
          y = 1 - horner (map Fin [1.061405429, -1.453152027, 1.421413741, -0.284496736, 0.254829592]) t * t * jexp (- x * x)
      in sign * y)"

definition normCDF :: "jsnum \<Rightarrow> jsnum" where
  "normCDF x = Fin 0.5 * (1 + copula_erf (x / jsqrt 2))"

section \<open>Rank correlations\<close>

definition tau_step :: "jsnum list \<Rightarrow> jsnum list \<Rightarrow> nat \<Rightarrow> nat \<Rightarrow> nat \<times> nat \<Rightarrow> nat \<times> nat" where
  "tau_step x y i j = (\<lambda>(c, d).
     let dx = rd x i - rd x j; dy = rd y i - rd y j
     in if dx * dy > 0 then (c + 1, d) else if dx * dy < 0 then (c, d + 1) else (c, d))"

definition kendallTau :: "jsnum list \<Rightarrow> jsnum list \<Rightarrow> jsnum" where
  "kendallTau x y =
     (let n = length x;
          (concordant, discordant) = for_loop 0 n (\<lambda>i. for_loop (i + 1) n (tau_step x y i)) (0, 0);
          total = jnat n * (jnat n - 1) / 2
      in if total > 0 then (jnat concordant - jnat discordant) / total else 0)"

definition ranks_of :: "jsnum list \<Rightarrow> jsnum list" where
  \<comment> \<open>the position, from 1, of every element in the sorted order\<close>
  "ranks_of x =
     (let n = length x;
          sorted = sort_by (rd x) [0..<n]
      in for_loop 0 n (\<lambda>k r. r[sorted ! k := jnat (k + 1)]) (replicate n NaN))"

definition spearmanRho :: "jsnum list \<Rightarrow> jsnum list \<Rightarrow> jsnum" where
  "spearmanRho x y =
     (let n = length x; rx = ranks_of x; ry = ranks_of y;
          meanR = (jnat n + 1) / 2;
          (num, denX, denY) = for_loop 0 n (\<lambda>i (num, dx, dy).
            (num + (rd rx i - meanR) * (rd ry i - meanR), dx + (rd rx i - meanR) ^ 2, dy + (rd ry i - meanR) ^ 2)) (0, 0, 0)
      in if denX > 0 \<and> denY > 0 then num / jsqrt (denX * denY) else 0)"

section \<open>Copulas\<close>

definition claytonCDF :: "jsnum \<Rightarrow> jsnum \<Rightarrow> jsnum \<Rightarrow> jsnum" where
  "claytonCDF u v theta =
     (if theta \<le> 0 then u * v
      else jmax 0 (jpow (jpow u (- theta) + jpow v (- theta) - 1) (- 1 / theta)))"

definition gumbelCDF :: "jsnum \<Rightarrow> jsnum \<Rightarrow> jsnum \<Rightarrow> jsnum" where
  "gumbelCDF u v theta =
     (if theta \<le> 1 then u * v
      else let lu = - jlog u; lv = - jlog v in jexp (- jpow (jpow lu theta + jpow lv theta) (1 / theta)))"

definition quadrature_x :: "jsnum list" where
  "quadrature_x = map Fin [0.04691008, 0.23076534, 0.5, 0.76923466, 0.95308992]"

definition quadrature_w :: "jsnum list" where
  "quadrature_w = map Fin [0.018854042, 0.038088059, 0.0452707394, 0.038088059, 0.018854042]"

definition bivariateNormalCDF :: "jsnum \<Rightarrow> jsnum \<Rightarrow> jsnum \<Rightarrow> jsnum" where
  "bivariateNormalCDF h k r0 =
     (let r = (if \<bar>r0\<bar> > Fin 0.9999 then (if r0 > 0 then Fin 0.9999 else - Fin 0.9999) else r0);
          h2 = h / jsqrt 2;
          k2 = k / jsqrt 2;
          r2 = (1 + r) / 2;
          sum = for_loop 0 5 (\<lambda>i. for_loop 0 5 (\<lambda>j s.
            let xi = rd quadrature_x i; xj = rd quadrature_x j
            in s + rd quadrature_w i * rd quadrature_w j *
                 jexp (h2 * jsqrt 2 * xi + k2 * jsqrt 2 * xj + r2 * 2 * xi * xj))) 0
      in normCDF h * normCDF k + jsqrt (1 - r * r) / (2 * Fin pi) * sum)"

definition gaussianCopulaCDF :: "jsnum \<Rightarrow> jsnum \<Rightarrow> jsnum \<Rightarrow> jsnum" where
  "gaussianCopulaCDF u v rho = bivariateNormalCDF (normInv u) (normInv v) rho"

section \<open>The Student distribution\<close>

definition logGamma :: "jsnum \<Rightarrow> jsnum" where
  "logGamma z =
     (let cs = map Fin [76.1800917294715, -86.5053203294168, 24.0140982408309, -1.231739572450155,
            0.001208650973866179, -0.000005395239384953];
          tmp = z + Fin 5.5 - (z + Fin 0.5) * jlog (z + Fin 5.5);
          (y, ser) = foldl (\<lambda>(y, ser) c. (y + 1, ser + c / (y + 1))) (z, Fin 1.000000000190015) cs
      in - tmp + jlog (Fin 2.506628274631 * ser / z))"

definition tiny_guard :: "jsnum \<Rightarrow> jsnum" where
  "tiny_guard d = (if \<bar>d\<bar> < Fin (1 / 10 ^ 300) then Fin (1 / 10 ^ 300) else d)"

text \<open>One round of Lentz's method for \<open>m = 1, 2, \<dots>\<close>; the flag is the break.\<close>

definition lentz_round ::
  "jsnum \<Rightarrow> jsnum \<Rightarrow> jsnum \<Rightarrow> nat \<Rightarrow> jsnum \<times> jsnum \<times> jsnum \<Rightarrow> (jsnum \<times> jsnum \<times> jsnum) \<times> bool" where
  "lentz_round x a b m st =
     (let (c, d, h) = st; qab = a + b; qap = a + 1; qam = a - 1; m1 = jnat m; m2 = 2 * m1;
          aa1 = m1 * (b - m1) * x / ((qam + m2) * (a + m2));
          d1 = tiny_guard (1 + aa1 * d);
          c1 = tiny_guard (1 + aa1 / c);
          d1' = 1 / d1;
          h1 = h * (d1' * c1);
          aa2 = - (a + m1) * (qab + m1) * x / ((a + m2) * (qap + m2));
          d2 = tiny_guard (1 + aa2 * d1');
          c2 = tiny_guard (1 + aa2 / c1);
          d2' = 1 / d2;
          del = d2' * c2
      in ((c2, d2', h1 * del), \<bar>del - 1\<bar> < Fin (3 / 10 ^ 14)))"

fun lentz_loop :: "nat \<Rightarrow> jsnum \<Rightarrow> jsnum \<Rightarrow> jsnum \<Rightarrow> nat \<Rightarrow> jsnum \<times> jsnum \<times> jsnum \<Rightarrow> jsnum" where
  "lentz_loop 0 x a b m st = snd (snd st)"
| "lentz_loop (Suc k) x a b m st =
     (let (st', stop) = lentz_round x a b m st
      in if stop then snd (snd st') else lentz_loop k x a b (m + 1) st')"

definition betaCF :: "jsnum \<Rightarrow> jsnum \<Rightarrow> jsnum \<Rightarrow> jsnum" where
  "betaCF x a b = (let d = 1 / tiny_guard (1 - (a + b) * x / (a + 1)) in lentz_loop 200 x a b 1 (1, d, d))"

definition regIncompleteBeta :: "jsnum \<Rightarrow> jsnum \<Rightarrow> jsnum \<Rightarrow> jsnum" where
  "regIncompleteBeta x a b =
     (if x \<le> 0 then 0
      else if x \<ge> 1 then 1
      else
        let lbeta = logGamma a + logGamma b - logGamma (a + b);
            front = jexp (jlog x * a + jlog (1 - x) * b - lbeta)
        in if x < (a + 1) / (a + b + 2) then front * betaCF x a b / a
           else 1 - front * betaCF (1 - x) b a / b)"

definition tCDF :: "jsnum \<Rightarrow> jsnum \<Rightarrow> jsnum" where
  "tCDF t df =
     (let x = df / (df + t * t); ib = Fin 0.5 * regIncompleteBeta x (df / 2) (Fin 0.5)
      in if t \<ge> 0 then 1 - ib else ib)"

section \<open>The fit\<close>

record copula_fit =
  cf_clayton_theta :: jsnum
  cf_clayton_lower :: jsnum
  cf_gumbel_theta :: jsnum
  cf_gumbel_upper :: jsnum
  cf_rho :: jsnum
  cf_t_tail :: jsnum

definition fitCopula :: "jsnum \<Rightarrow> copula_fit" where
  \<comment> \<open>the tail dependences that are constantly 0 and the fixed 5 degrees of freedom are left out of the record\<close>
  "fitCopula tau =
     (let claytonTheta = (if tau \<ge> 1 then 100 else if tau \<le> - 1 then - 100 else 2 * tau / (1 - tau));
          gumbelTheta = (if tau \<ge> 1 then 100 else 1 / (1 - tau));
          gaussRho = jsin (Fin pi * tau / 2)
      in \<lparr>cf_clayton_theta = jmax (Fin 0.01) claytonTheta,
          cf_clayton_lower = (if claytonTheta > 0 then jpow 2 (- 1 / claytonTheta) else 0),
          cf_gumbel_theta = jmax (Fin 1.01) gumbelTheta,
          cf_gumbel_upper = (if gumbelTheta > 1 then 2 - jpow 2 (1 / gumbelTheta) else 0),
          cf_rho = gaussRho,
          cf_t_tail = 2 * tCDF (- jsqrt ((5 + 1) * (1 - gaussRho) / (1 + gaussRho))) (5 + 1)\<rparr>)"

end
