(* ===== verification/CopulaLaws.thy ===== *)
theory CopulaLaws
  imports Copula Regression
begin

text \<open>
  Laws of the copula functions: bounds of the rank correlations, the margins of the Clayton and the Gumbel copula, and
  a value of the Gaussian copula above 1.
\<close>

section \<open>Rank correlations\<close>

lemma tau_step_le: "fst (tau_step x y i j p) + snd (tau_step x y i j p) \<le> fst p + snd p + 1"
  by (cases p) (simp add: tau_step_def Let_def)

lemma tau_row_le:
  assumes "i < n"
  shows "int (fst (for_loop (i + 1) n (tau_step x y i) p) + snd (for_loop (i + 1) n (tau_step x y i) p))
    \<le> int (fst p + snd p) + (int n - int i - 1)"
proof -
  let ?P = "\<lambda>j q. int (fst q + snd q) \<le> int (fst p + snd p) + (int j - int i - 1)"
  have "?P n (for_loop (i + 1) n (tau_step x y i) p)"
  proof (rule for_loop_invariant [where P = ?P])
    fix j q assume "?P j q"
    then show "?P (Suc j) (tau_step x y i j q)" using tau_step_le [of x y i j q] by simp
  qed (use assms in simp_all)
  then show ?thesis by simp
qed

lemma tau_pairs_le:
  "2 * int (fst (for_loop 0 n (\<lambda>i. for_loop (i + 1) n (tau_step x y i)) (0, 0)) +
     snd (for_loop 0 n (\<lambda>i. for_loop (i + 1) n (tau_step x y i)) (0, 0))) \<le> int n * (int n - 1)"
proof -
  let ?P = "\<lambda>i q. 2 * int (fst q + snd q) \<le> int i * (2 * int n - int i - 1)"
  have "?P n (for_loop 0 n (\<lambda>i. for_loop (i + 1) n (tau_step x y i)) (0, 0))"
  proof (rule for_loop_invariant [where P = ?P])
    fix i q assume i: "i < n" and q: "?P i q"
    have "2 * int (fst (for_loop (i + 1) n (tau_step x y i) q) + snd (for_loop (i + 1) n (tau_step x y i) q))
        \<le> int i * (2 * int n - int i - 1) + 2 * (int n - int i - 1)"
      using tau_row_le [OF i, of x y q] q by simp
    then show "?P (Suc i) (for_loop (i + 1) n (tau_step x y i) q)" by (simp add: algebra_simps)
  qed simp_all
  then show ?thesis by (simp add: algebra_simps)
qed

lemma kendall_range: "\<exists>t. kendallTau x y = Fin t \<and> - 1 \<le> t \<and> t \<le> 1"
proof -
  define p where "p = for_loop 0 (length x) (\<lambda>i. for_loop (i + 1) (length x) (tau_step x y i)) (0, 0)"
  let ?n = "real (length x)" and ?c = "real (fst p)" and ?d = "real (snd p)"
  have "2 * real_of_int (int (fst p + snd p)) \<le> real_of_int (int (length x) * (int (length x) - 1))"
    using tau_pairs_le [of "length x" x y] unfolding p_def by linarith
  then have le: "2 * (?c + ?d) \<le> ?n * (?n - 1)" by simp
  have tau: "kendallTau x y = (if Fin (?n * (?n - 1) / 2) > 0 then Fin (?c - ?d) / Fin (?n * (?n - 1) / 2) else 0)"
    unfolding kendallTau_def Let_def p_def [symmetric] by (simp add: case_prod_beta)
  show ?thesis
  proof (cases "0 < ?n * (?n - 1) / 2")
    case True
    let ?t = "(?c - ?d) / (?n * (?n - 1) / 2)"
    have "x \<noteq> []" "length x \<noteq> Suc 0" using True by auto
    then have "kendallTau x y = Fin ?t" using True by (simp add: tau zero_jsnum_def)
    moreover have "- 1 \<le> ?t" "?t \<le> 1" using True le by (simp_all add: le_divide_eq divide_le_eq)
    ultimately show ?thesis by blast
  next
    case False
    then show ?thesis by (simp add: tau zero_jsnum_def)
  qed
qed

lemma ranks_finite:
  obtains r where "ranks_of x = map Fin r" "length r = length x"
proof -
  let ?n = "length x" and ?s = "sort_by (rd x) [0..<length x]"
  have s: "set ?s = {0..<?n}" "length ?s = ?n" by simp_all
  let ?P = "\<lambda>k r. length r = ?n \<and> (\<forall>i \<in> set (take k ?s). \<exists>v. r ! i = Fin v)"
  have "?P ?n (for_loop 0 ?n (\<lambda>k r. r[?s ! k := jnat (k + 1)]) (replicate ?n NaN))"
  proof (rule for_loop_invariant [where P = ?P])
    fix k r assume k: "k < ?n" and P: "?P k r"
    have "take (Suc k) ?s = take k ?s @ [?s ! k]" using k s(2) by (simp add: take_Suc_conv_app_nth)
    moreover have "?s ! k < ?n" using nth_mem [of k ?s] k s by simp
    ultimately show "?P (Suc k) (r[?s ! k := jnat (k + 1)])" using P by (auto simp: nth_list_update)
  qed simp_all
  then have r: "length (ranks_of x) = ?n" "\<forall>i < ?n. \<exists>v. ranks_of x ! i = Fin v"
    using s by (simp_all add: ranks_of_def Let_def)
  let ?r = "map (\<lambda>v. case v of Fin a \<Rightarrow> a | _ \<Rightarrow> 0) (ranks_of x)"
  have "ranks_of x = map Fin ?r" using r by (intro nth_equalityI) fastforce+
  then show ?thesis using that [of ?r] r(1) by simp
qed

lemma spearman_range:
  assumes "length y = length x"
  shows "\<exists>t. spearmanRho x y = Fin t \<and> - 1 \<le> t \<and> t \<le> 1"
proof -
  let ?n = "length x"
  obtain rx ry where r: "ranks_of x = map Fin rx" "length rx = ?n" "ranks_of y = map Fin ry" "length ry = ?n"
    using ranks_finite [of x] ranks_finite [of y] assms by metis
  define m where "m = (real ?n + 1) / 2"
  define f where "f = (\<lambda>i. rx ! i - m)"
  define g where "g = (\<lambda>i. ry ! i - m)"
  define sxy where "sxy = (\<Sum>i \<in> {0..<?n}. f i * g i)"
  define sxx where "sxx = (\<Sum>i \<in> {0..<?n}. f i ^ 2)"
  define syy where "syy = (\<Sum>i \<in> {0..<?n}. g i ^ 2)"
  have "for_loop 0 ?n (\<lambda>i (num, dx, dy).
      (num + (rd (map Fin rx) i - (jnat ?n + 1) / 2) * (rd (map Fin ry) i - (jnat ?n + 1) / 2),
       dx + (rd (map Fin rx) i - (jnat ?n + 1) / 2) ^ 2, dy + (rd (map Fin ry) i - (jnat ?n + 1) / 2) ^ 2)) (0, 0, 0) =
     for_loop 0 ?n (\<lambda>i (num, dx, dy). (num + Fin (f i) * Fin (g i), dx + Fin (f i) ^ 2, dy + Fin (g i) ^ 2)) (0, 0, 0)"
    using r by (intro for_loop_cong) (auto simp: f_def g_def m_def)
  then have rho: "spearmanRho x y = (if Fin sxx > 0 \<and> Fin syy > 0 then Fin sxy / jsqrt (Fin sxx * Fin syy) else 0)"
    unfolding spearmanRho_def Let_def r moments_loop sxy_def sxx_def syy_def by simp
  show ?thesis
  proof (cases "0 < sxx \<and> 0 < syy")
    case True
    then have prod: "0 < sxx * syy" by simp
    then have q: "0 < sqrt (sxx * syy)" by simp
    have "sxy ^ 2 \<le> sxx * syy" unfolding sxy_def sxx_def syy_def by (rule cauchy_schwarz_sum)
    then have "\<bar>sxy\<bar> \<le> sqrt (sxx * syy)" by (metis real_sqrt_abs real_sqrt_le_iff)
    then have "- 1 \<le> sxy / sqrt (sxx * syy)" "sxy / sqrt (sxx * syy) \<le> 1"
      using q by (simp_all add: le_divide_eq divide_le_eq abs_le_iff del: real_sqrt_gt_0_iff)
    moreover have "spearmanRho x y = Fin (sxy / sqrt (sxx * syy))" using True q prod by (simp add: rho zero_jsnum_def not_less less_imp_le)
    ultimately show ?thesis by blast
  qed (auto simp: rho zero_jsnum_def)
qed

text \<open>
  Kendall's tau and Spearman's rho of two samples of the same size are numbers between -1 and 1, also with ties,
  with missing values and for samples too small to have a pair.
\<close>

theorem rank_correlations_bounded:
  assumes "length y = length x"
  shows "\<exists>t r. kendallTau x y = Fin t \<and> - 1 \<le> t \<and> t \<le> 1 \<and> spearmanRho x y = Fin r \<and> - 1 \<le> r \<and> r \<le> 1"
  using kendall_range [of x y] spearman_range [OF assms] by blast

theorem rank_correlations_bounded_witness:
  "\<exists>t r. kendallTau [1, 2, NaN] [3, 3, 1] = Fin t \<and> - 1 \<le> t \<and> t \<le> 1 \<and> spearmanRho [1, 2, NaN] [3, 3, 1] = Fin r \<and>
     - 1 \<le> r \<and> r \<le> 1"
  by (rule rank_correlations_bounded) simp

section \<open>Margins of the copulas\<close>

text \<open>What is checked of a copula: grounded, uniform margins, symmetric, increasing, and below both arguments.\<close>

definition copula_like :: "(jsnum \<Rightarrow> jsnum \<Rightarrow> jsnum) \<Rightarrow> bool" where
  "copula_like C \<longleftrightarrow> (\<forall>u v. 0 \<le> u \<and> u \<le> 1 \<and> 0 \<le> v \<and> v \<le> 1 \<longrightarrow>
     (\<exists>c. C (Fin u) (Fin v) = Fin c \<and> C (Fin v) (Fin u) = Fin c \<and> 0 \<le> c \<and> c \<le> min u v \<and>
       (u = 0 \<longrightarrow> c = 0) \<and> (v = 1 \<longrightarrow> c = u) \<and>
       (\<forall>u' c'. u \<le> u' \<and> u' \<le> 1 \<and> C (Fin u') (Fin v) = Fin c' \<longrightarrow> c \<le> c')))"

lemma copula_product: "copula_like (\<lambda>u v. u * v)"
  unfolding copula_like_def
proof (intro allI impI, elim conjE)
  fix u v :: real assume r: "0 \<le> u" "u \<le> 1" "0 \<le> v" "v \<le> 1"
  have "u * v \<le> min u v" using r by (simp add: mult_left_le mult_left_le_one_le)
  moreover have "u * v \<le> u' * v" if "u \<le> u'" for u' using that r(3) by (rule mult_right_mono)
  ultimately show "\<exists>c. Fin u * Fin v = Fin c \<and> Fin v * Fin u = Fin c \<and> 0 \<le> c \<and> c \<le> min u v \<and>
       (u = 0 \<longrightarrow> c = 0) \<and> (v = 1 \<longrightarrow> c = u) \<and> (\<forall>u' c'. u \<le> u' \<and> u' \<le> 1 \<and> Fin u' * Fin v = Fin c' \<longrightarrow> c \<le> c')"
    using r by (intro exI [of _ "u * v"]) (simp add: mult.commute [of v u])
qed

text \<open>
  Both families are Archimedean: \<open>C(u, v) = g (f u + f v)\<close> where the generator \<open>f\<close> falls to 0 at 1 and \<open>g\<close> undoes it.
\<close>

definition archimedean :: "(real \<Rightarrow> real) \<Rightarrow> (real \<Rightarrow> real) \<Rightarrow> real \<Rightarrow> real \<Rightarrow> real" where
  "archimedean f g u v = (if u = 0 \<or> v = 0 then 0 else g (f u + f v))"

lemma archimedean_copula:
  assumes f: "\<And>u. 0 < u \<Longrightarrow> u \<le> 1 \<Longrightarrow> 0 \<le> f u" "f 1 = 0" "\<And>u u'. 0 < u \<Longrightarrow> u \<le> u' \<Longrightarrow> u' \<le> 1 \<Longrightarrow> f u' \<le> f u"
    and g: "\<And>s. 0 \<le> s \<Longrightarrow> 0 \<le> g s" "\<And>s s'. 0 \<le> s \<Longrightarrow> s \<le> s' \<Longrightarrow> g s' \<le> g s" "\<And>u. 0 < u \<Longrightarrow> u \<le> 1 \<Longrightarrow> g (f u) = u"
    and C: "\<And>u v. 0 \<le> u \<Longrightarrow> u \<le> 1 \<Longrightarrow> 0 \<le> v \<Longrightarrow> v \<le> 1 \<Longrightarrow> C (Fin u) (Fin v) = Fin (archimedean f g u v)"
  shows "copula_like C"
proof -
  have le_u: "g (f u + f v) \<le> u" if "0 < u" "u \<le> 1" "0 < v" "v \<le> 1" for u v
    using g(2) [of "f u" "f u + f v"] g(3) f(1) that by simp
  have le_v: "g (f u + f v) \<le> v" if "0 < u" "u \<le> 1" "0 < v" "v \<le> 1" for u v
    using le_u [of v u] that by (simp add: add.commute)
  have nonneg: "0 \<le> g (f u + f v)" if "0 < u" "u \<le> 1" "0 < v" "v \<le> 1" for u v
    using g(1) f(1) that by (simp add: add_nonneg_nonneg)
  have mono: "g (f u + f v) \<le> g (f u' + f v)" if "0 < u" "u \<le> u'" "u' \<le> 1" "0 < v" "v \<le> 1" for u u' v
  proof -
    have "0 \<le> f u' + f v" using f(1) [of u'] f(1) [of v] that by simp
    moreover have "f u' + f v \<le> f u + f v" using f(3) that by simp
    ultimately show ?thesis by (rule g(2))
  qed
  show ?thesis unfolding copula_like_def
  proof (intro allI impI, elim conjE)
    fix u v :: real assume r: "0 \<le> u" "u \<le> 1" "0 \<le> v" "v \<le> 1"
    let ?c = "archimedean f g u v"
    have "C (Fin u) (Fin v) = Fin ?c" "C (Fin v) (Fin u) = Fin ?c"
      using C r by (auto simp: archimedean_def add.commute)
    moreover have "0 \<le> ?c" "?c \<le> min u v" "u = 0 \<longrightarrow> ?c = 0"
      using r nonneg [of u v] le_u [of u v] le_v [of u v] by (auto simp: archimedean_def)
    moreover have "v = 1 \<longrightarrow> ?c = u" using r f(2) g(3) by (simp add: archimedean_def)
    moreover have "?c \<le> c'" if "u \<le> u'" "u' \<le> 1" "C (Fin u') (Fin v) = Fin c'" for u' c'
    proof -
      have "c' = archimedean f g u' v" using C [of u' v] r that by simp
      then show ?thesis using that r mono [of u u' v] nonneg [of u' v] by (auto simp: archimedean_def)
    qed
    ultimately show "\<exists>c. C (Fin u) (Fin v) = Fin c \<and> C (Fin v) (Fin u) = Fin c \<and> 0 \<le> c \<and> c \<le> min u v \<and>
       (u = 0 \<longrightarrow> c = 0) \<and> (v = 1 \<longrightarrow> c = u) \<and>
       (\<forall>u' c'. u \<le> u' \<and> u' \<le> 1 \<and> C (Fin u') (Fin v) = Fin c' \<longrightarrow> c \<le> c')" by blast
  qed
qed

lemma inverse_power_ge_1: "0 < u \<Longrightarrow> u \<le> 1 \<Longrightarrow> 0 < \<theta> \<Longrightarrow> 1 \<le> u powr - (\<theta> :: real)"
  using powr_mono' [of "- \<theta>" 0 u] by simp

lemma clayton_eval:
  assumes "0 < \<theta>" "0 \<le> u" "u \<le> 1" "0 \<le> v" "v \<le> 1"
  shows "claytonCDF (Fin u) (Fin v) (Fin \<theta>) =
    Fin (archimedean (\<lambda>u. u powr - \<theta> - 1) (\<lambda>s. (s + 1) powr (- 1 / \<theta>)) u v)"
proof (cases "u = 0 \<or> v = 0")
  case True
  have "jpow (Fin w) (Fin (- \<theta>)) = (if w = 0 then PInf else Fin (w powr - \<theta>))" if "0 \<le> w" for w
    using assms(1) that by (simp add: zero_jsnum_def)
  then have "jpow (Fin u) (- Fin \<theta>) + jpow (Fin v) (- Fin \<theta>) - 1 = PInf"
    using True assms by (auto simp: minus_jsnum_def)
  then show ?thesis using True assms(1)
    by (simp add: claytonCDF_def archimedean_def zero_jsnum_def jmax_def divide_less_0_iff del: jpow.simps)
       (simp add: zero_jsnum_def)
next
  case False
  then have "1 \<le> u powr - \<theta>" "1 \<le> v powr - \<theta>" using assms inverse_power_ge_1 by simp_all
  then have pos: "0 < u powr - \<theta> + v powr - \<theta> - 1" by linarith
  have "jpow (Fin u) (- Fin \<theta>) + jpow (Fin v) (- Fin \<theta>) - 1 = Fin (u powr - \<theta> + v powr - \<theta> - 1)"
    using False assms by simp
  then show ?thesis using False assms(1) pos
    by (simp add: claytonCDF_def archimedean_def zero_jsnum_def del: jpow.simps) simp
qed

lemma copula_clayton: "copula_like (\<lambda>u v. claytonCDF u v (Fin \<theta>))"
proof (cases "0 < \<theta>")
  case True
  show ?thesis
  proof (rule archimedean_copula [where f = "\<lambda>u. u powr - \<theta> - 1" and g = "\<lambda>s. (s + 1) powr (- 1 / \<theta>)"])
    show "u' powr - \<theta> - 1 \<le> u powr - \<theta> - 1" if "0 < u" "u \<le> u'" for u u'
      using True that by (simp add: powr_mono2')
    show "(s' + 1) powr (- 1 / \<theta>) \<le> (s + 1) powr (- 1 / \<theta>)" if "0 \<le> s" "s \<le> s'" for s s'
      using True that by (intro powr_mono2') auto
  qed (use True inverse_power_ge_1 clayton_eval in \<open>simp_all add: powr_powr\<close>)
next
  case False
  then show ?thesis using copula_product by (simp add: claytonCDF_def zero_jsnum_def)
qed

lemma gumbel_eval:
  assumes "1 < \<theta>" "0 \<le> u" "u \<le> 1" "0 \<le> v" "v \<le> 1"
  shows "gumbelCDF (Fin u) (Fin v) (Fin \<theta>) =
    Fin (archimedean (\<lambda>u. (- ln u) powr \<theta>) (\<lambda>s. exp (- (s powr (1 / \<theta>)))) u v)"
proof (cases "u = 0 \<or> v = 0")
  case True
  have "- jlog (Fin w) = (if w = 0 then PInf else Fin (- ln w))" if "0 \<le> w" for w
    using that by (simp add: zero_jsnum_def)
  moreover have "jpow (Fin (- ln w)) (Fin \<theta>) = Fin ((- ln w) powr \<theta>)" if "0 < w" "w \<le> 1" for w
    using that assms(1) by (auto simp: zero_jsnum_def ln_le_zero_iff order.order_iff_strict)
  ultimately have "jpow (- jlog (Fin u)) (Fin \<theta>) + jpow (- jlog (Fin v)) (Fin \<theta>) = PInf"
    using True assms by auto
  then show ?thesis using True assms(1)
    by (simp add: gumbelCDF_def archimedean_def one_jsnum_def Let_def del: jpow.simps jlog.simps)
       (simp add: zero_jsnum_def)
next
  case False
  have pow: "jpow (Fin w) (Fin t) = Fin (w powr t)" if "0 \<le> w" "0 < t" for w t
    using that by (auto simp: zero_jsnum_def)
  have "0 \<le> - ln u" "0 \<le> - ln v" using False assms by simp_all
  then have "jpow (- jlog (Fin u)) (Fin \<theta>) + jpow (- jlog (Fin v)) (Fin \<theta>) = Fin ((- ln u) powr \<theta> + (- ln v) powr \<theta>)"
    using False assms pow by (simp del: jpow.simps)
  then show ?thesis using False assms(1) pow
    by (simp add: gumbelCDF_def archimedean_def one_jsnum_def Let_def del: jpow.simps jlog.simps)
qed

lemma copula_gumbel: "copula_like (\<lambda>u v. gumbelCDF u v (Fin \<theta>))"
proof (cases "1 < \<theta>")
  case True
  show ?thesis
  proof (rule archimedean_copula [where f = "\<lambda>u. (- ln u) powr \<theta>" and g = "\<lambda>s. exp (- (s powr (1 / \<theta>)))"])
    show "(- ln u') powr \<theta> \<le> (- ln u) powr \<theta>" if "0 < u" "u \<le> u'" "u' \<le> 1" for u u'
      using True that by (intro powr_mono2) auto
    show "exp (- (s' powr (1 / \<theta>))) \<le> exp (- (s powr (1 / \<theta>)))" if "0 \<le> s" "s \<le> s'" for s s'
      using True that by (simp add: powr_mono2)
  qed (use True gumbel_eval in \<open>simp_all add: powr_powr\<close>)
next
  case False
  then show ?thesis using copula_product by (simp add: gumbelCDF_def one_jsnum_def)
qed

text \<open>
  for every parameter, the Clayton and the Gumbel function have what makes a copula usable as a joint
  distribution of two uniform variables: on the unit square they are symmetric numbers, 0 where an argument is 0, equal to the
  other argument where one is 1, increasing, and never above either argument. The limits of \<open>Math.pow\<close> and \<open>Math.log\<close> at 0
  carry the border.
\<close>

theorem copula_margins:
  "copula_like (\<lambda>u v. claytonCDF u v (Fin \<theta>)) \<and> copula_like (\<lambda>u v. gumbelCDF u v (Fin \<theta>))"
  using copula_clayton copula_gumbel by blast

section \<open>The Gaussian copula\<close>

lemma normCDF_finite: "\<exists>p. normCDF (Fin h) = Fin p"
proof -
  have "\<exists>y. copula_erf (Fin x) = Fin y" for x
  proof -
    have "1 + 3275911 * \<bar>x\<bar> / 10000000 \<noteq> 0" using abs_ge_zero [of x] by linarith
    then show ?thesis by (simp add: copula_erf_def Let_def horner_def one_jsnum_def zero_jsnum_def)
  qed
  then obtain y where "copula_erf (Fin (h / sqrt 2)) = Fin y" by blast
  then have "normCDF (Fin h) = Fin (1 / 2 * (1 + y))" by (simp add: normCDF_def one_jsnum_def)
  then show ?thesis by blast
qed

lemma normInv_1: "normInv 1 = Fin 10"
  by (simp add: normInv_def zero_jsnum_def one_jsnum_def)

text \<open>
  the Gaussian copula is not a copula: at the corner (1, 1), where every distribution function is 1, it returns a number
  above 1, also for independent assets. The quadrature adds the exponentials of large arguments to the product of the margins,
  where the correction to that product vanishes at correlation 0.
\<close>

theorem gaussian_copula_exceeds_1: "\<exists>c. gaussianCopulaCDF 1 1 0 = Fin c \<and> c > 1"
proof -
  let ?x = "[0.04691008, 0.23076534, 0.5, 0.76923466, 0.95308992] :: real list"
  let ?w = "[0.018854042, 0.038088059, 0.0452707394, 0.038088059, 0.018854042] :: real list"
  define t where "t = (\<lambda>i j. ?w ! i * ?w ! j * exp (10 * ?x ! i + 10 * ?x ! j + ?x ! i * ?x ! j))"
  define S where "S = (\<Sum>i \<in> {0..<5}. \<Sum>j \<in> {0..<5}. t i j)"
  obtain p where p: "normCDF (Fin 10) = Fin p" using normCDF_finite by blast
  have pos: "0 \<le> t i j" if "i < 5" "j < 5" for i j
  proof -
    have "\<forall>x \<in> set ?w. 0 \<le> x" by simp
    moreover have "length ?w = 5" by simp
    ultimately have "0 \<le> ?w ! k" if "k < 5" for k using that by (metis nth_mem)
    then show ?thesis using that by (simp add: t_def)
  qed
  have "t 4 4 \<le> (\<Sum>j \<in> {0..<5}. t 4 j)" using pos by (intro member_le_sum) auto
  also have "\<dots> \<le> S" unfolding S_def
    by (rule member_le_sum [of 4 "{0..<5}" "\<lambda>i. \<Sum>j \<in> {0..<5}. t i j"]) (auto intro!: sum_nonneg pos)
  finally have S: "t 4 4 \<le> S" .
  have "(2 :: real) \<le> exp 1" using exp_ge_add_one_self [of 1] by simp
  then have "(2 :: real) ^ 19 \<le> exp 1 ^ 19" by (rule power_mono) simp
  also have "\<dots> = exp 19" by (simp add: exp_of_nat_mult [symmetric])
  also have "\<dots> \<le> exp (10 * 0.95308992 + 10 * 0.95308992 + 0.95308992 * 0.95308992)" by simp
  finally have "0.018854042 * 0.018854042 * 524288 \<le> t 4 4" by (simp add: t_def)
  then have "100 < S" using S by simp
  moreover have "pi < 4" by (rule pi_less_4)
  ultimately have "1 < S / (2 * pi)" by (simp add: less_divide_eq)
  then have "1 < p * p + S / (2 * pi)" by (simp add: add_nonneg_pos add_strict_increasing2)
  moreover have "gaussianCopulaCDF 1 1 0 = Fin (p * p + S / (2 * pi))"
  proof -
    have x: "rd quadrature_x i = Fin (?x ! i)" "rd quadrature_w i = Fin (?w ! i)" if "i < 5" for i
      using that unfolding quadrature_x_def quadrature_w_def by (subst rd_map_Fin; simp)+
    have e: "jexp (Fin 10 / jsqrt 2 * jsqrt 2 * Fin a + Fin 10 / jsqrt 2 * jsqrt 2 * Fin a' + (1 + 0) / 2 * 2 * Fin a * Fin a')
      = Fin (exp (10 * a + 10 * a' + a * a'))" for a a'
      by (simp add: one_jsnum_def zero_jsnum_def)
    have "for_loop 0 5 (\<lambda>i. for_loop 0 5 (\<lambda>j s. s + rd quadrature_w i * rd quadrature_w j *
        jexp (Fin 10 / jsqrt 2 * jsqrt 2 * rd quadrature_x i + Fin 10 / jsqrt 2 * jsqrt 2 * rd quadrature_x j +
          (1 + 0) / 2 * 2 * rd quadrature_x i * rd quadrature_x j))) 0 =
      for_loop 0 5 (\<lambda>i. for_loop 0 5 (\<lambda>j s. s + Fin (t i j))) (Fin 0)"
      unfolding zero_jsnum_def [symmetric] by (intro for_loop_cong) (simp only: x e t_def times_jsnum.simps)
    then have "bivariateNormalCDF (Fin 10) (Fin 10) 0 = Fin p * Fin p + jsqrt (1 - 0 * 0) / (2 * Fin pi) * Fin (0 + S)"
      unfolding bivariateNormalCDF_def Let_def p grid_loop_Fin S_def by (simp add: zero_jsnum_def)
    then show ?thesis
      unfolding gaussianCopulaCDF_def normInv_1 by (simp add: one_jsnum_def zero_jsnum_def)
  qed
  ultimately show ?thesis by blast
qed

end
