(* ===== verification/DynamicModeling.thy ===== *)
theory DynamicModeling
  imports JsSort Candles
begin

text \<open>
  Empirical dynamic modelling: \<open>web-ui/src/utils/edmMath.js\<close> and the result of the panel
  \<open>components/EmpiricalDynamicModeling.jsx\<close>. Lags, dimensions and steps are whole numbers, lags and dimensions from 1, as the
  inputs of the panel require; library sizes and the predicted time may be negative, as the panel computes them.
\<close>

section \<open>Mutual information\<close>

text \<open>\<open>x.slice(0, k)\<close> for a \<open>k\<close> that may be negative: then it counts from the end.\<close>

definition slice_to :: "int \<Rightarrow> 'a list \<Rightarrow> 'a list" where
  "slice_to k xs = take (nat (if k < 0 then k + int (length xs) else k)) xs"

definition bin_of :: "jsnum \<Rightarrow> jsnum \<Rightarrow> jsnum \<Rightarrow> jsnum" where
  "bin_of lowest binW v = jmin 9 (jfloor ((v - lowest) / binW))"

definition joint_share :: "jsnum list \<Rightarrow> jsnum list \<Rightarrow> nat \<Rightarrow> nat \<Rightarrow> jsnum" where
  "joint_share bins1 bins2 i j =
     jnat (length (filter (\<lambda>k. jeq (bins1 ! k) (jnat i) \<and> jeq (rd bins2 k) (jnat j)) [0..<length bins1])) / jnat (length bins1)"

definition bin_share :: "jsnum list \<Rightarrow> nat \<Rightarrow> jsnum" where
  "bin_share bins i = jnat (length (filter (\<lambda>b. jeq b (jnat i)) bins)) / jnat (length bins)"

definition info_term :: "jsnum list \<Rightarrow> jsnum list \<Rightarrow> nat \<Rightarrow> nat \<Rightarrow> jsnum \<Rightarrow> jsnum" where
  "info_term bins1 bins2 i j mi =
     (let pxy = joint_share bins1 bins2 i j; px = bin_share bins1 i; py = bin_share bins2 j
      in if pxy > 0 \<and> px > 0 \<and> py > 0 then mi + pxy * jlog (pxy / (px * py)) else mi)"

definition info_at :: "jsnum list \<Rightarrow> nat \<Rightarrow> jsnum" where
  "info_at x tau =
     (let n = length x;
          x1 = slice_to (int n - int tau) x;
          x2 = drop tau x;
          lowest = jmin_list x; highest = jmax_list x;
          binW = (highest - lowest) / 10
      in if jeq binW 0 then 0
         else
           let bins1 = map (bin_of lowest binW) x1; bins2 = map (bin_of lowest binW) x2
           in for_loop 0 10 (\<lambda>i. for_loop 0 10 (info_term bins1 bins2 i)) 0)"

definition first_dip :: "jsnum list \<Rightarrow> nat" where
  "first_dip mis =
     (case find (\<lambda>i. rd mis i < rd mis (i - 1) \<and> rd mis i < rd mis (i + 1)) [1..<length mis - 1] of
        None \<Rightarrow> 1 | Some i \<Rightarrow> i + 1)"

definition mutualInfo :: "jsnum list \<Rightarrow> nat \<Rightarrow> jsnum list \<times> nat" where
  "mutualInfo x maxTau = (let mis = map (info_at x) [1..<maxTau + 1] in (mis, first_dip mis))"

section \<open>False nearest neighbours\<close>

definition n_embed :: "nat \<Rightarrow> nat \<Rightarrow> nat \<Rightarrow> nat" where
  \<comment> \<open>a loop bound: negative counts as 0\<close>
  "n_embed n E tau = n - (E - 1) * tau"

definition delay_distance :: "jsnum list \<Rightarrow> nat \<Rightarrow> nat \<Rightarrow> nat \<Rightarrow> nat \<Rightarrow> jsnum" where
  "delay_distance x E tau i j =
     jsqrt (for_loop 0 E (\<lambda>k s. s + (rd x (i + k * tau) - rd x (j + k * tau)) ^ 2) 0)"

definition nearest_other :: "jsnum list \<Rightarrow> nat \<Rightarrow> nat \<Rightarrow> nat \<Rightarrow> nat \<Rightarrow> jsnum \<times> nat option" where
  "nearest_other x E tau nEmbed i =
     for_loop 0 nEmbed (\<lambda>j (minDist, nn).
       if j = i then (minDist, nn)
       else let d = delay_distance x E tau i j in if d < minDist then (d, Some j) else (minDist, nn)) (PInf, None)"

definition fnn_step :: "jsnum list \<Rightarrow> nat \<Rightarrow> nat \<Rightarrow> nat \<Rightarrow> nat \<Rightarrow> nat \<times> nat \<Rightarrow> nat \<times> nat" where
  "fnn_step x E tau nEmbed i = (\<lambda>(falseCount, totalPairs).
     case nearest_other x E tau nEmbed i of
       (minDist, Some nnIdx) \<Rightarrow>
         if minDist > 0
         then let distE1 = \<bar>rd x (i + E * tau) - rd x (nnIdx + E * tau)\<bar>;
                  ratio = distE1 / minDist;
                  size = jsqrt (jsum (map (\<lambda>v. v * v) x) / jnat (length x))
              in (if ratio > 10 \<or> distE1 / size > 2 then falseCount + 1 else falseCount, totalPairs + 1)
         else (falseCount, totalPairs)
     | (_, None) \<Rightarrow> (falseCount, totalPairs))"

definition fnn_ratio :: "jsnum list \<Rightarrow> nat \<Rightarrow> nat \<Rightarrow> jsnum" where
  "fnn_ratio x tau E =
     (let nEmbed = n_embed (length x) E tau;
          (falseCount, totalPairs) = for_loop 0 nEmbed (fnn_step x E tau nEmbed) (0, 0)
      in if totalPairs > 0 then jnat falseCount / jnat totalPairs else 0)"

definition falseNearestNeighbors :: "jsnum list \<Rightarrow> nat \<Rightarrow> nat \<Rightarrow> jsnum list \<times> nat" where
  "falseNearestNeighbors x tau maxE =
     (let fnnRatios = map (fnn_ratio x tau) [1..<maxE + 1];
          optE = (case find (\<lambda>E. rd fnnRatios (E - 1) < Fin 0.05) [1..<length fnnRatios + 1] of None \<Rightarrow> 2 | Some E \<Rightarrow> E)
      in (fnnRatios, optE))"

section \<open>Embedding and simplex projection\<close>

definition delay_embed :: "jsnum list \<Rightarrow> nat \<Rightarrow> nat \<Rightarrow> jsnum list list" where
  "delay_embed x E tau = map (\<lambda>i. map (\<lambda>k. rd x (i + k * tau)) [0..<E]) [0..<n_embed (length x) E tau]"

text \<open>The \<open>E + 1\<close> library points nearest to a target, without the target itself: positions and distances.\<close>

definition vector_distance :: "nat \<Rightarrow> jsnum list \<Rightarrow> jsnum list \<Rightarrow> jsnum" where
  "vector_distance E target v = jsqrt (for_loop 0 E (\<lambda>k s. s + (rd target k - rd v k) ^ 2) 0)"

definition neighbours :: "jsnum list list \<Rightarrow> nat \<Rightarrow> nat \<Rightarrow> nat \<Rightarrow> (nat \<times> jsnum) list" where
  "neighbours embedded E t libEnd =
     take (E + 1) (sort_by snd
       (map (\<lambda>i. (i, vector_distance E (embedded ! t) (embedded ! i))) (filter (\<lambda>i. i \<noteq> t) [0..<libEnd])))"

definition neighbour_weights :: "(nat \<times> jsnum) list \<Rightarrow> jsnum list" where
  "neighbour_weights nbs =
     (let minDist = jor (snd (hd nbs)) (Fin 0.001) in map (\<lambda>nb. jexp (- snd nb / minDist)) nbs)"

text \<open>\<open>use\<close> is the time a neighbour contributes, \<open>guard\<close> the time that is tested to be in the series.\<close>

definition weighted_estimate ::
  "jsnum list \<Rightarrow> (nat \<times> jsnum) list \<Rightarrow> (nat \<Rightarrow> nat) \<Rightarrow> (nat \<Rightarrow> nat) \<Rightarrow> jsnum" where
  "weighted_estimate x nbs guard use =
     (let weights = neighbour_weights nbs; totalW = jsum weights
      in for_loop 0 (length nbs) (\<lambda>i pred.
           if guard (fst (nbs ! i)) < length x then pred + weights ! i / totalW * rd x (use (fst (nbs ! i))) else pred) 0)"

definition simplexForecast :: "jsnum list \<Rightarrow> nat \<Rightarrow> nat \<Rightarrow> int \<Rightarrow> int \<Rightarrow> jsnum option" where
  "simplexForecast x E tau tPred libSize =
     (let embedded = delay_embed x E tau; n = length embedded; libEnd = nat (min libSize (int n - 1))
      in if tPred < 0 \<or> int n \<le> tPred then None
         else
           let nbs = neighbours embedded E (nat tPred) libEnd
           in if length nbs < 2 then None
              else Some (weighted_estimate x nbs (\<lambda>i. i + 1) (\<lambda>i. i + 1 + (E - 1) * tau)))"

section \<open>Cross mapping\<close>

text \<open>The correlation of two series of the length of the first, with the guard against a zero denominator.\<close>

definition guarded_correlation :: "jsnum list \<Rightarrow> jsnum list \<Rightarrow> jsnum" where
  "guarded_correlation xs ys =
     (let n = length xs; meanX = jsum xs / jnat n; meanY = jsum ys / jnat (length ys);
          (num, denX, denY) = for_loop 0 n (\<lambda>i (num, dx, dy).
            (num + (rd xs i - meanX) * (rd ys i - meanY), dx + (rd xs i - meanX) ^ 2, dy + (rd ys i - meanY) ^ 2)) (0, 0, 0)
      in num / (jsqrt denX * jsqrt denY + Fin (1 / 10 ^ 10)))"

text \<open>The estimate of the first series at one time, \<open>None\<close> for a time that is skipped.\<close>

definition cross_estimate :: "jsnum list \<Rightarrow> jsnum list list \<Rightarrow> nat \<Rightarrow> nat \<Rightarrow> nat \<Rightarrow> nat \<Rightarrow> (jsnum \<times> jsnum) list" where
  "cross_estimate X embeddedY E tau actualLib t =
     (let nbs = neighbours embeddedY E t actualLib
      in if length nbs < 2 then []
         else [(weighted_estimate X nbs (\<lambda>i. i + (E - 1) * tau) (\<lambda>i. i + (E - 1) * tau), rd X (t + (E - 1) * tau))])"

text \<open>
  One library size. A second series too short for the library makes the code read a coordinate of an undefined vector, which
  throws: \<open>None\<close>.
\<close>

definition ccm_lib :: "jsnum list \<Rightarrow> jsnum list \<Rightarrow> nat \<Rightarrow> nat \<Rightarrow> int \<Rightarrow> (int \<times> jsnum) list option" where
  "ccm_lib X Y E tau libSize =
     (let actualLib = min libSize (int (length X) - int E * int tau)
      in if actualLib < int E + 2 then Some []
         else
           let embeddedY = delay_embed Y E tau; nEmbed = length embeddedY; lib = nat actualLib
           in if 0 < nEmbed \<and> nEmbed < lib then None
              else
                let pairs = concat (map (cross_estimate X embeddedY E tau lib) [0..<min nEmbed lib])
                in if length pairs > 2 then Some [(actualLib, guarded_correlation (map fst pairs) (map snd pairs))] else Some [])"

fun ccm :: "jsnum list \<Rightarrow> jsnum list \<Rightarrow> nat \<Rightarrow> nat \<Rightarrow> int list \<Rightarrow> (int \<times> jsnum) list option" where
  "ccm X Y E tau [] = Some []"
| "ccm X Y E tau (libSize # libSizes) =
     (case ccm_lib X Y E tau libSize of
        None \<Rightarrow> None
      | Some rs \<Rightarrow> map_option ((@) rs) (ccm X Y E tau libSizes))"

section \<open>The panel\<close>

definition price_returns :: "jsnum list \<Rightarrow> jsnum list" where
  "price_returns prices = map (\<lambda>i. (rd prices i - rd prices (i - 1)) / rd prices (i - 1)) [1..<length prices]"

record forecast =
  fc_step :: nat
  fc_predicted :: jsnum
  fc_actual :: jsnum

definition forecast_at :: "jsnum list \<Rightarrow> nat \<Rightarrow> nat \<Rightarrow> int \<Rightarrow> nat \<Rightarrow> forecast list" where
  "forecast_at returns E tau libSize s =
     (let tPred = libSize + int s
      in case simplexForecast returns E tau tPred libSize of
           None \<Rightarrow> []
         | Some p \<Rightarrow> [\<lparr>fc_step = s + 1, fc_predicted = p, fc_actual = rd returns (nat (tPred + (int E - 1) * int tau))\<rparr>])"

definition forecasts_of :: "jsnum list \<Rightarrow> nat \<Rightarrow> nat \<Rightarrow> nat \<Rightarrow> forecast list" where
  "forecasts_of returns E tau forecastSteps =
     (let libSize = int (length returns) - int forecastSteps - int E * int tau
      in concat (map (forecast_at returns E tau libSize) [0..<forecastSteps]))"

definition forecast_skill :: "forecast list \<Rightarrow> jsnum" where
  "forecast_skill fs = (if length fs > 2 then guarded_correlation (map fc_predicted fs) (map fc_actual fs) else 0)"

text \<open>The first other symbol with fifty candles whose cross mapping is not empty; \<open>Inl ()\<close> is the exception of \<open>ccm\<close>.\<close>

fun ccm_search ::
  "(string, candle list) jsmap \<Rightarrow> string \<Rightarrow> jsnum list \<Rightarrow> nat \<Rightarrow> nat \<Rightarrow> string list \<Rightarrow>
     unit + (string \<times> (int \<times> jsnum) list) option" where
  "ccm_search bySym symbol returns E tau [] = Inr None"
| "ccm_search bySym symbol returns E tau (s # syms) =
     (if s = symbol then ccm_search bySym symbol returns E tau syms
      else case map_get bySym s of
        None \<Rightarrow> ccm_search bySym symbol returns E tau syms
      | Some cds2 \<Rightarrow>
          if length cds2 < 50 then ccm_search bySym symbol returns E tau syms
          else
            let returns2 = price_returns (map cd_close cds2);
                minLen = min (length returns) (length returns2);
                libs = [20, 30, 40, 50, 60, 70, 80, min 100 (int minLen - int E * int tau)]
            in case ccm (slice_last minLen returns) (slice_last minLen returns2) E tau libs of
                 None \<Rightarrow> Inl ()
               | Some results \<Rightarrow>
                   if results \<noteq> [] then Inr (Some (s, results)) else ccm_search bySym symbol returns E tau syms)"

definition forecast_signal :: "forecast list \<Rightarrow> string" where
  "forecast_signal fs =
     (if fs = [] then ''NEUTRAL''
      else let p = fc_predicted (fs ! (length fs - 1))
           in if p > Fin 0.002 then ''BUY'' else if p < - Fin 0.002 then ''SELL'' else ''NEUTRAL'')"

record edm_panel =
  ep_mis :: "jsnum list"
  ep_optTau :: nat
  ep_fnnRatios :: "jsnum list"
  ep_optE :: nat
  ep_forecasts :: "forecast list"
  ep_forecastRho :: jsnum
  ep_ccm :: "(string \<times> (int \<times> jsnum) list) option"
  ep_signal :: string
  ep_returns :: "jsnum list"
  ep_prices :: "jsnum list"

text \<open>The result of the panel without the text of the reason: an exception, no result, or the record.\<close>

definition edm_result ::
  "candle list option \<Rightarrow> string \<Rightarrow> string \<Rightarrow> string list option \<Rightarrow> nat \<Rightarrow> nat \<Rightarrow> nat \<Rightarrow> unit + edm_panel option" where
  "edm_result candles exchange symbol symbols maxE maxTau forecastSteps =
     (let cds = select_candles candles exchange symbol
      in if length cds < 50 then Inr None
         else
           let bySym = group_candles candles exchange; prices = map cd_close cds; returns = price_returns prices;
               (mis, optTau) = mutualInfo returns maxTau;
               (fnnRatios, optE) = falseNearestNeighbors returns optTau maxE;
               forecasts = forecasts_of returns optE optTau forecastSteps;
               syms = (case symbols of None \<Rightarrow> [] | Some ss \<Rightarrow> if length ss > 1 then ss else [])
           in case ccm_search bySym symbol returns optE optTau syms of
                Inl e \<Rightarrow> Inl e
              | Inr found \<Rightarrow> Inr (Some \<lparr>ep_mis = mis, ep_optTau = optTau, ep_fnnRatios = fnnRatios, ep_optE = optE,
                  ep_forecasts = forecasts, ep_forecastRho = forecast_skill forecasts, ep_ccm = found,
                  ep_signal = forecast_signal forecasts, ep_returns = returns, ep_prices = slice_last 50 prices\<rparr>))"

end
