(* ===== verification/DynamicLaws.thy ===== *)
theory DynamicLaws
  imports DynamicModeling Regression KMeans
begin

text \<open>
  Laws of empirical dynamic modelling: mutual information is never negative, a simplex forecast is a convex combination of what
  followed the nearest library points, and a cross mapping is a list of correlations.
\<close>

section \<open>Mutual information\<close>

text \<open>Counting pairs \<open>(a k, b k)\<close> of bins; Gibbs' inequality for the shares.\<close>

lemma sum_counts:
  assumes "finite K" "a ` K \<subseteq> I" "finite I"
  shows "(\<Sum>i \<in> I. card {k \<in> K. a k = i}) = card K"
proof -
  have "(\<Sum>i \<in> I. card {k \<in> K. a k = i}) = card (\<Union>i \<in> I. {k \<in> K. a k = i})"
    using assms by (intro card_UN_disjoint [symmetric]) auto
  also have "(\<Union>i \<in> I. {k \<in> K. a k = i}) = K" using assms by auto
  finally show ?thesis .
qed

lemma gibbs_term:
  assumes "0 \<le> (p :: real)" "0 \<le> q" "0 < p \<Longrightarrow> 0 < q"
  shows "p - q \<le> (if 0 < p then p * ln (p / q) else 0)"
proof (cases "0 < p")
  case True
  then have "ln (q / p) \<le> q / p - 1" using assms(3) by (intro ln_le_minus_one) simp
  then have "1 - q / p \<le> ln (p / q)" using True assms(3) by (simp add: ln_div)
  then have "p * (1 - q / p) \<le> p * ln (p / q)" using True by (intro mult_left_mono) simp_all
  then show ?thesis using True by (simp add: right_diff_distrib)
qed (use assms in simp)

definition info_value :: "nat \<Rightarrow> (nat \<Rightarrow> nat) \<Rightarrow> (nat \<Rightarrow> nat) \<Rightarrow> nat \<Rightarrow> nat \<Rightarrow> real" where
  "info_value n a b i j =
     (let p = real (card {k \<in> {..<n}. a k = i \<and> b k = j}) / real n; r = real (card {k \<in> {..<n}. a k = i}) / real n;
          s = real (card {k \<in> {..<n}. b k = j}) / real n
      in if 0 < p then p * ln (p / (r * s)) else 0)"

lemma gibbs_counts:
  assumes n: "0 < n" and a: "\<And>k. k < n \<Longrightarrow> a k < m" and b: "\<And>k. k < n \<Longrightarrow> b k < m"
  shows "0 \<le> (\<Sum>i \<in> {0..<m}. \<Sum>j \<in> {0..<m}. info_value n a b i j)"
proof -
  define p where "p = (\<lambda>i j. real (card {k \<in> {..<n}. a k = i \<and> b k = j}) / real n)"
  define r where "r = (\<lambda>i. real (card {k \<in> {..<n}. a k = i}) / real n)"
  define s where "s = (\<lambda>j. real (card {k \<in> {..<n}. b k = j}) / real n)"
  have rows: "(\<Sum>j \<in> {0..<m}. p i j) = r i" for i
  proof -
    have "(\<Sum>j \<in> {0..<m}. card {k \<in> {k \<in> {..<n}. a k = i}. b k = j}) = card {k \<in> {..<n}. a k = i}"
      using b by (intro sum_counts) auto
    moreover have "{k \<in> {k \<in> {..<n}. a k = i}. b k = j} = {k \<in> {..<n}. a k = i \<and> b k = j}" for j by auto
    ultimately show ?thesis by (simp add: p_def r_def sum_divide_distrib [symmetric] flip: of_nat_sum)
  qed
  have one: "(\<Sum>i \<in> {0..<m}. r i) = 1" "(\<Sum>j \<in> {0..<m}. s j) = 1"
  proof -
    have "(\<Sum>i \<in> {0..<m}. card {k \<in> {..<n}. a k = i}) = card {..<n}" using a by (intro sum_counts) auto
    moreover have "(\<Sum>j \<in> {0..<m}. card {k \<in> {..<n}. b k = j}) = card {..<n}" using b by (intro sum_counts) auto
    ultimately show "(\<Sum>i \<in> {0..<m}. r i) = 1" "(\<Sum>j \<in> {0..<m}. s j) = 1"
      using n by (simp_all add: r_def s_def sum_divide_distrib [symmetric] flip: of_nat_sum)
  qed
  have pos: "0 < r i * s j" if "0 < p i j" for i j
  proof -
    have "{k \<in> {..<n}. a k = i \<and> b k = j} \<noteq> {}"
    proof
      assume e: "{k \<in> {..<n}. a k = i \<and> b k = j} = {}"
      show False using that unfolding p_def e by simp
    qed
    then have "{k \<in> {..<n}. a k = i} \<noteq> {}" "{k \<in> {..<n}. b k = j} \<noteq> {}" by auto
    then show ?thesis using n by (simp add: r_def s_def card_gt_0_iff)
  qed
  have "p i j - r i * s j \<le> info_value n a b i j" for i j
  proof -
    have "info_value n a b i j = (if 0 < p i j then p i j * ln (p i j / (r i * s j)) else 0)"
      by (simp only: info_value_def Let_def p_def r_def s_def)
    moreover have "0 \<le> p i j" "0 \<le> r i * s j" by (simp_all add: p_def r_def s_def)
    ultimately show ?thesis using gibbs_term [of "p i j" "r i * s j"] pos [of i j] by simp
  qed
  then have "(\<Sum>i \<in> {0..<m}. \<Sum>j \<in> {0..<m}. p i j - r i * s j) \<le> (\<Sum>i \<in> {0..<m}. \<Sum>j \<in> {0..<m}. info_value n a b i j)"
    by (intro sum_mono)
  moreover have "(\<Sum>i \<in> {0..<m}. \<Sum>j \<in> {0..<m}. p i j - r i * s j) = 0"
    by (simp add: sum_subtractf rows one flip: sum_product sum_distrib_left)
  ultimately show ?thesis by simp
qed

text \<open>The bins of finite values are the numbers 0 to 9.\<close>

definition bin_nat :: "real \<Rightarrow> real \<Rightarrow> real \<Rightarrow> nat" where
  "bin_nat lo w v = min 9 (nat \<lfloor>(v - lo) / w\<rfloor>)"

lemma bin_of_Fin: "0 < w \<Longrightarrow> lo \<le> v \<Longrightarrow> bin_of (Fin lo) (Fin w) (Fin v) = Fin (real (bin_nat lo w v))"
proof -
  assume w: "0 < w" "lo \<le> v"
  then have "0 \<le> \<lfloor>(v - lo) / w\<rfloor>" by simp
  then have "real_of_int \<lfloor>(v - lo) / w\<rfloor> = real (nat \<lfloor>(v - lo) / w\<rfloor>)" by simp
  then have "real (min 9 (nat \<lfloor>(v - lo) / w\<rfloor>)) = min 9 (real_of_int \<lfloor>(v - lo) / w\<rfloor>)" by (simp add: of_nat_min)
  then show ?thesis using w by (simp add: bin_of_def bin_nat_def)
qed

lemma bin_share_value:
  assumes "0 < n"
  shows "bin_share (map (\<lambda>k. Fin (real (a k))) [0..<n]) i = Fin (real (card {k \<in> {..<n}. a k = i}) / real n)"
proof -
  have "length (filter (\<lambda>b. jeq b (jnat i)) (map (\<lambda>k. Fin (real (a k))) [0..<n])) = length (filter (\<lambda>k. a k = i) [0..<n])"
    by (simp add: filter_map comp_def)
  also have "\<dots> = card {k \<in> {..<n}. a k = i}"
    by (simp add: distinct_length_filter Collect_conj_eq [symmetric] Int_def) (rule arg_cong [where f = card], auto)
  finally show ?thesis using assms by (simp add: bin_share_def)
qed

lemma joint_share_value:
  assumes "0 < n"
  shows "joint_share (map (\<lambda>k. Fin (real (a k))) [0..<n]) (map (\<lambda>k. Fin (real (b k))) [0..<n]) i j =
    Fin (real (card {k \<in> {..<n}. a k = i \<and> b k = j}) / real n)"
proof -
  let ?A = "map (\<lambda>k. Fin (real (a k))) [0..<n]" and ?B = "map (\<lambda>k. Fin (real (b k))) [0..<n]"
  have "filter (\<lambda>k. jeq (?A ! k) (jnat i) \<and> jeq (rd ?B k) (jnat j)) [0..<n] = filter (\<lambda>k. a k = i \<and> b k = j) [0..<n]"
    by (rule filter_cong) simp_all
  moreover have "length (filter (\<lambda>k. a k = i \<and> b k = j) [0..<n]) = card {k \<in> {..<n}. a k = i \<and> b k = j}"
    by (simp add: distinct_length_filter Int_def) (rule arg_cong [where f = card], auto)
  ultimately show ?thesis using assms by (simp add: joint_share_def)
qed

lemma info_term_value:
  assumes "0 < n"
  shows "info_term (map (\<lambda>k. Fin (real (a k))) [0..<n]) (map (\<lambda>k. Fin (real (b k))) [0..<n]) i j mi =
    mi + Fin (info_value n a b i j)"
proof -
  define p where "p = real (card {k \<in> {..<n}. a k = i \<and> b k = j}) / real n"
  define r where "r = real (card {k \<in> {..<n}. a k = i}) / real n"
  define s where "s = real (card {k \<in> {..<n}. b k = j}) / real n"
  have info: "info_value n a b i j = (if 0 < p then p * ln (p / (r * s)) else 0)"
    by (simp only: info_value_def Let_def p_def r_def s_def)
  have pos: "0 < r \<and> 0 < s" if "0 < p"
  proof -
    have "{k \<in> {..<n}. a k = i \<and> b k = j} \<noteq> {}"
    proof
      assume e: "{k \<in> {..<n}. a k = i \<and> b k = j} = {}"
      show False using that unfolding p_def e by simp
    qed
    then have "0 < card {k \<in> {..<n}. a k = i}" "0 < card {k \<in> {..<n}. b k = j}" by (auto simp: card_gt_0_iff)
    then show ?thesis using assms by (simp add: r_def s_def)
  qed
  have step: "info_term (map (\<lambda>k. Fin (real (a k))) [0..<n]) (map (\<lambda>k. Fin (real (b k))) [0..<n]) i j mi =
      (if Fin p > 0 \<and> Fin r > 0 \<and> Fin s > 0 then mi + Fin p * jlog (Fin p / (Fin r * Fin s)) else mi)"
    unfolding info_term_def joint_share_value [OF assms] bin_share_value [OF assms] Let_def p_def r_def s_def ..
  show ?thesis
  proof (cases "0 < p")
    case True
    then have "0 < p / (r * s)" using pos by simp
    moreover from this have "\<not> p / (r * s) < 0" by linarith
    ultimately show ?thesis using True pos unfolding step info by auto
  qed (simp add: step info)
qed

lemma info_at_nonneg:
  assumes "0 < tau"
  shows "\<exists>m. info_at (map Fin xs) tau = Fin m \<and> 0 \<le> m"
proof (cases "tau < length xs")
  case True
  define n where "n = length xs - tau"
  obtain lo hi where x: "jmin_list (map Fin xs) = Fin lo" "jmax_list (map Fin xs) = Fin hi" "\<forall>x \<in> set xs. lo \<le> x \<and> x \<le> hi"
    using list_extremes [of xs] True by (metis length_greater_0_conv not_less_zero gr_zeroI)
  define w where "w = (hi - lo) / 10"
  have "xs ! 0 \<in> set xs" using True by (intro nth_mem) (cases xs, simp_all)
  then have "lo \<le> xs ! 0" "xs ! 0 \<le> hi" using x(3) by blast+
  show ?thesis
  proof (cases "w = 0")
    case True
    then show ?thesis by (simp add: info_at_def Let_def x w_def)
  next
    case False
    then have w: "0 < w" using \<open>lo \<le> xs ! 0\<close> \<open>xs ! 0 \<le> hi\<close> by (simp add: w_def)
    define a where "a = (\<lambda>k. bin_nat lo w (xs ! k))"
    define b where "b = (\<lambda>k. bin_nat lo w (xs ! (tau + k)))"
    have n: "0 < n" using True by (simp add: n_def)
    have bin: "bin_of (Fin lo) (Fin w) (Fin (xs ! k)) = Fin (real (bin_nat lo w (xs ! k)))" if "k < length xs" for k
      using bin_of_Fin [OF w, of lo "xs ! k"] x(3) that nth_mem by blast
    have "map (bin_of (Fin lo) (Fin w)) (slice_to (int (length xs) - int tau) (map Fin xs)) = map (\<lambda>k. Fin (real (a k))) [0..<n]"
      using True bin by (intro nth_equalityI) (auto simp: slice_to_def n_def a_def)
    moreover have "map (bin_of (Fin lo) (Fin w)) (drop tau (map Fin xs)) = map (\<lambda>k. Fin (real (b k))) [0..<n]"
      using True bin by (intro nth_equalityI) (auto simp: n_def b_def)
    moreover have info: "info_term (map (\<lambda>k. Fin (real (a k))) [0..<n]) (map (\<lambda>k. Fin (real (b k))) [0..<n]) i =
        (\<lambda>j mi. mi + Fin (info_value n a b i j))" for i
      by (intro ext) (rule info_term_value [OF n])
    moreover have "(Fin hi - Fin lo) / 10 = Fin w" "\<not> jeq (Fin w) 0" using w by (simp_all add: w_def)
    ultimately have "info_at (map Fin xs) tau =
        for_loop 0 10 (\<lambda>i. for_loop 0 10 (\<lambda>j mi. mi + Fin (info_value n a b i j))) (Fin 0)"
      unfolding info_at_def Let_def length_map x by (simp add: info)
    also have "\<dots> = Fin (0 + (\<Sum>i \<in> {0..<10}. \<Sum>j \<in> {0..<10}. info_value n a b i j))" by (rule grid_loop_Fin)
    finally show ?thesis using gibbs_counts [OF n, of a 10 b] by (simp add: a_def b_def bin_nat_def)
  qed
next
  case False
  have "info_term bins1 [] i = (\<lambda>j mi. mi)" for bins1 i by (intro ext) (simp add: info_term_def bin_share_def)
  moreover have "for_loop 0 10 (\<lambda>i s. s) = (\<lambda>s :: jsnum. s)" by (intro ext) (rule for_loop_preserves, simp_all)
  ultimately show ?thesis using False by (simp add: info_at_def Let_def)
qed

text \<open>
  the mutual information the panel computes for a finite series is, at every lag, a number that is not negative, also for
  constant series, for series shorter than the lag, and where the largest value falls into the clamped last bin.
\<close>

theorem mutual_information_nonnegative:
  "length (fst (mutualInfo (map Fin xs) maxTau)) = maxTau \<and>
   list_all (\<lambda>m. case m of Fin r \<Rightarrow> 0 \<le> r | _ \<Rightarrow> False) (fst (mutualInfo (map Fin xs) maxTau))"
proof -
  have "case info_at (map Fin xs) tau of Fin r \<Rightarrow> 0 \<le> r | _ \<Rightarrow> False" if "0 < tau" for tau
    using info_at_nonneg [OF that, of xs] by auto
  then show ?thesis by (simp add: mutualInfo_def list_all_iff Let_def del: upt_Suc)
qed

section \<open>False neighbours\<close>

text \<open>
  The last points of the embedding have no coordinate in the next dimension: their distance there is NaN, and they count as true
  neighbours whatever the series does.
\<close>

theorem missing_coordinate_counts_as_true:
  assumes "nearest_other x E tau nEmbed i = (minDist, Some j)" "0 < minDist" "length x \<le> i + E * tau"
  shows "fnn_step x E tau nEmbed i (falseCount, totalPairs) = (falseCount, totalPairs + 1)"
proof -
  have "\<bar>rd x (i + E * tau) - rd x (j + E * tau)\<bar> = NaN" using assms(3) by simp
  moreover have "NaN / y = NaN" for y by (cases y) simp_all
  ultimately show ?thesis using assms(1,2) by (simp add: fnn_step_def Let_def)
qed

section \<open>Neighbours and weights\<close>

lemma square_distance_Fin:
  assumes "\<And>k. k < E \<Longrightarrow> rd u k = Fin (f k)" "\<And>k. k < E \<Longrightarrow> rd v k = Fin (g k)"
  shows "vector_distance E u v = Fin (sqrt (\<Sum>k = 0..<E. (f k - g k) ^ 2))"
proof -
  have "for_loop 0 E (\<lambda>k s. s + (rd u k - rd v k) ^ 2) (Fin 0) = Fin (\<Sum>k = 0..<E. (f k - g k) ^ 2)"
    using assms by (intro sum_loop_Fin) simp
  moreover have "0 \<le> (\<Sum>k = 0..<E. (f k - g k) ^ 2)" by (intro sum_nonneg) simp
  ultimately show ?thesis by (simp add: vector_distance_def)
qed

definition embed_distance :: "real list \<Rightarrow> nat \<Rightarrow> nat \<Rightarrow> nat \<Rightarrow> nat \<Rightarrow> real" where
  "embed_distance xs E tau t i = sqrt (\<Sum>k = 0..<E. (xs ! (t + k * tau) - xs ! (i + k * tau)) ^ 2)"

lemma length_embed [simp]: "length (delay_embed x E tau) = n_embed (length x) E tau"
  by (simp add: delay_embed_def)

lemma embed_in_range: "i < n_embed n E tau \<Longrightarrow> k < E \<Longrightarrow> i + k * tau < n"
proof -
  assume i: "i < n_embed n E tau" and k: "k < E"
  then have "k * tau \<le> (E - 1) * tau" by (intro mult_right_mono) simp_all
  then show ?thesis using i unfolding n_embed_def by linarith
qed

lemma embed_distance_Fin:
  assumes "t < n_embed (length xs) E tau" "i < n_embed (length xs) E tau"
  shows "vector_distance E (delay_embed (map Fin xs) E tau ! t) (delay_embed (map Fin xs) E tau ! i) = Fin (embed_distance xs E tau t i)"
  unfolding embed_distance_def using assms
  by (intro square_distance_Fin) (simp_all add: delay_embed_def embed_in_range)

text \<open>The chosen neighbours: distinct library points other than the target, none farther than a point left out.\<close>

definition nearest_points :: "real list \<Rightarrow> nat \<Rightarrow> nat \<Rightarrow> nat \<Rightarrow> nat \<Rightarrow> nat list \<Rightarrow> bool" where
  "nearest_points xs E tau t lib ns \<longleftrightarrow>
     distinct ns \<and> length ns \<le> E + 1 \<and> set ns \<subseteq> {0..<lib} - {t} \<and>
     (\<forall>i \<in> set ns. \<forall>j \<in> {0..<lib} - {t} - set ns. embed_distance xs E tau t i \<le> embed_distance xs E tau t j)"

lemma neighbours_nearest:
  assumes t: "t < n_embed (length xs) E tau" and lib: "lib \<le> n_embed (length xs) E tau"
  obtains ns where "neighbours (delay_embed (map Fin xs) E tau) E t lib = map (\<lambda>i. (i, Fin (embed_distance xs E tau t i))) ns"
    "nearest_points xs E tau t lib ns"
proof -
  let ?d = "embed_distance xs E tau t" and ?cs = "filter (\<lambda>i. i \<noteq> t) [0..<lib]"
  let ?pt = "\<lambda>i. (i, Fin (?d i))"
  define s where "s = sort_by snd (map ?pt ?cs)"
  have "map (\<lambda>i. (i, vector_distance E (delay_embed (map Fin xs) E tau ! t) (delay_embed (map Fin xs) E tau ! i))) ?cs = map ?pt ?cs"
    using t lib by (intro map_cong) (auto simp: embed_distance_Fin)
  then have nb: "neighbours (delay_embed (map Fin xs) E tau) E t lib = take (E + 1) s"
    by (simp only: neighbours_def s_def)
  have sets: "set s = ?pt ` ({0..<lib} - {t})" by (auto simp: s_def)
  have "mset s = mset (map ?pt ?cs)" by (simp add: s_def)
  moreover have "distinct (map ?pt ?cs)" by (auto simp: distinct_map inj_on_def)
  ultimately have ds: "distinct s" by (metis mset_eq_imp_distinct_iff)
  have so: "sorted_wrt (\<lambda>a b. snd a \<le> snd b) s" unfolding s_def by (intro sorted_sort_by) auto
  define ns where "ns = map fst (take (E + 1) s)"
  have mem: "x = ?pt (fst x)" if "x \<in> set s" for x using that sets by auto
  have pts: "take (E + 1) s = map ?pt ns"
    unfolding ns_def map_map using mem by (intro map_idI [symmetric]) (metis comp_apply in_set_takeD)
  have "nearest_points xs E tau t lib ns"
    unfolding nearest_points_def
  proof (intro conjI ballI)
    have "distinct (map ?pt ns)" using ds pts by (metis distinct_take)
    then show "distinct ns" by (simp add: distinct_map)
    show "length ns \<le> E + 1" by (simp add: ns_def)
    show "set ns \<subseteq> {0..<lib} - {t}" using sets by (auto simp: ns_def dest!: in_set_takeD)
    fix i j assume i: "i \<in> set ns" and j: "j \<in> {0..<lib} - {t} - set ns"
    have "?pt j \<in> set s" using j sets by auto
    moreover have "?pt j \<notin> set (take (E + 1) s)" using j unfolding pts by auto
    ultimately have "?pt j \<in> set (drop (E + 1) s)" by (metis append_take_drop_id set_append Un_iff)
    moreover have "?pt i \<in> set (take (E + 1) s)" using i unfolding pts by auto
    moreover have "sorted_wrt (\<lambda>a b. snd a \<le> snd b) (take (E + 1) s @ drop (E + 1) s)" using so by simp
    ultimately show "?d i \<le> ?d j" unfolding sorted_wrt_append by fastforce
  qed
  then show ?thesis using that nb pts by simp
qed

section \<open>Forecasts\<close>

lemma weighted_estimate_convex:
  assumes ne: "ns \<noteq> []" and inside: "\<And>i. i \<in> set ns \<Longrightarrow> guard i < length xs \<and> use i < length xs"
  obtains ws where "length ws = length ns" "\<forall>w \<in> set ws. 0 < w" "sum_list ws = 1"
    "weighted_estimate (map Fin xs) (map (\<lambda>i. (i, Fin (d i))) ns) guard use = Fin (\<Sum>k = 0..<length ns. ws ! k * xs ! use (ns ! k))"
proof -
  define m where "m = (if d (hd ns) \<noteq> 0 then d (hd ns) else 0.001)"
  define v where "v = map (\<lambda>i. exp (- d i / m)) ns"
  define T where "T = sum_list v"
  define ws where "ws = map (\<lambda>x. x / T) v"
  have m: "m \<noteq> 0" by (simp add: m_def)
  have weights: "neighbour_weights (map (\<lambda>i. (i, Fin (d i))) ns) = map Fin v"
    using m ne by (simp add: neighbour_weights_def Let_def hd_map v_def m_def)
  have T: "0 < T"
  proof -
    have "0 < exp (- d (hd ns) / m)" by simp
    moreover have "exp (- d (hd ns) / m) \<in> set v" unfolding v_def set_map using ne by (intro imageI) simp
    moreover have "\<And>x. x \<in> set v \<Longrightarrow> 0 \<le> x" by (auto simp: v_def)
    ultimately show ?thesis unfolding T_def by (meson less_le_trans member_le_sum_list)
  qed
  have "sum_list (map (\<lambda>x. x / T) v) = sum_list v / T" for v by (induction v) (simp_all add: add_divide_distrib)
  then have "sum_list ws = 1" using T by (simp add: ws_def T_def)
  moreover have "\<forall>w \<in> set ws. 0 < w" using T by (auto simp: ws_def v_def)
  moreover have "weighted_estimate (map Fin xs) (map (\<lambda>i. (i, Fin (d i))) ns) guard use =
      for_loop 0 (length ns) (\<lambda>k s. s + Fin (ws ! k * xs ! use (ns ! k))) (Fin 0)"
    unfolding weighted_estimate_def Let_def weights zero_Fin length_map
  proof (rule for_loop_cong)
    fix k and s :: jsnum assume "0 \<le> k" "k < length ns"
    then have "guard (ns ! k) < length xs" "use (ns ! k) < length xs" "k < length v"
      using inside [of "ns ! k"] by (simp_all add: v_def)
    moreover from this have "map Fin v ! k / jsum (map Fin v) = Fin (ws ! k)"
      using T by (simp add: T_def [symmetric] ws_def)
    ultimately show "(if guard (fst (map (\<lambda>i. (i, Fin (d i))) ns ! k)) < length xs
        then s + map Fin v ! k / jsum (map Fin v) * rd (map Fin xs) (use (fst (map (\<lambda>i. (i, Fin (d i))) ns ! k))) else s) =
      s + Fin (ws ! k * xs ! use (ns ! k))"
      using \<open>k < length ns\<close> by (simp del: jsum_Fin)
  qed
  then have "weighted_estimate (map Fin xs) (map (\<lambda>i. (i, Fin (d i))) ns) guard use =
      Fin (\<Sum>k = 0..<length ns. ws ! k * xs ! use (ns ! k))" using sum_loop_Fin by simp
  ultimately show ?thesis using that [of ws] by (simp add: ws_def v_def)
qed

text \<open>
  a forecast of the simplex projection is a convex combination of the values that followed the nearest points of the
  library: at least two and at most \<open>E + 1\<close> distinct points other than the target, no point left out is nearer than a chosen
  one, the weights are positive and add up to 1, and every value it reads is in the series.
\<close>

theorem simplex_forecast_convex:
  assumes "simplexForecast (map Fin xs) E tau t lib = Some p"
  shows "\<exists>ns ws r. p = Fin r \<and>
    nearest_points xs E tau (nat t) (nat (min lib (int (n_embed (length xs) E tau) - 1))) ns \<and> 2 \<le> length ns \<and>
    length ws = length ns \<and> list_all (\<lambda>w. 0 < w) ws \<and> sum_list ws = 1 \<and>
    list_all (\<lambda>i. i + 1 + (E - 1) * tau < length xs) ns \<and>
    r = (\<Sum>k = 0..<length ns. ws ! k * xs ! (ns ! k + 1 + (E - 1) * tau))"
proof -
  define m where "m = n_embed (length xs) E tau"
  define L where "L = nat (min lib (int m - 1))"
  have t: "0 \<le> t" "t < int m"
    and p: "2 \<le> length (neighbours (delay_embed (map Fin xs) E tau) E (nat t) L)"
      "p = weighted_estimate (map Fin xs) (neighbours (delay_embed (map Fin xs) E tau) E (nat t) L) (\<lambda>i. i + 1)
        (\<lambda>i. i + 1 + (E - 1) * tau)"
    using assms by (auto simp: simplexForecast_def Let_def m_def L_def split: if_splits)
  have L: "L < m" using t by (simp add: L_def)
  obtain ns where ns: "neighbours (delay_embed (map Fin xs) E tau) E (nat t) L =
      map (\<lambda>i. (i, Fin (embed_distance xs E tau (nat t) i))) ns" "nearest_points xs E tau (nat t) L ns"
  proof (rule neighbours_nearest)
    show "nat t < n_embed (length xs) E tau" "L \<le> n_embed (length xs) E tau" using t L by (simp_all add: m_def)
  qed
  have inside: "i + 1 + (E - 1) * tau < length xs" if "i \<in> set ns" for i
  proof -
    have "i < L" using ns(2) that by (auto simp: nearest_points_def)
    then show ?thesis using L unfolding m_def n_embed_def by linarith
  qed
  have "2 \<le> length ns" using p(1) ns(1) by simp
  moreover from this have "ns \<noteq> []" by auto
  moreover obtain ws where "length ws = length ns" "\<forall>w \<in> set ws. 0 < w" "sum_list ws = 1"
    "weighted_estimate (map Fin xs) (map (\<lambda>i. (i, Fin (embed_distance xs E tau (nat t) i))) ns) (\<lambda>i. i + 1)
        (\<lambda>i. i + 1 + (E - 1) * tau) = Fin (\<Sum>k = 0..<length ns. ws ! k * xs ! (ns ! k + 1 + (E - 1) * tau))"
  proof (rule weighted_estimate_convex)
    show "i + 1 < length xs \<and> i + 1 + (E - 1) * tau < length xs" if "i \<in> set ns" for i
      using inside [OF that] by linarith
  qed (use \<open>ns \<noteq> []\<close> in auto)
  then have "length ws = length ns" "\<forall>w \<in> set ws. 0 < w" "sum_list ws = 1"
    "p = Fin (\<Sum>k = 0..<length ns. ws ! k * xs ! (ns ! k + 1 + (E - 1) * tau))"
    using p(2) ns(1) by simp_all
  moreover have "list_all (\<lambda>i. i + 1 + (E - 1) * tau < length xs) ns" using inside by (simp add: list_all_iff)
  ultimately show ?thesis
    using ns(2) unfolding L_def m_def
    by (intro exI [of _ ns] exI [of _ ws] exI [of _ "\<Sum>k = 0..<length ns. ws ! k * xs ! (ns ! k + 1 + (E - 1) * tau)"])
       (simp add: list_all_iff)
qed

theorem simplex_forecast_convex_witness:
  "\<exists>p ns. simplexForecast (map Fin [1, 2, 3, 4]) 1 1 3 3 = Some p \<and> is_fin p \<and> 2 \<le> length ns \<and>
    nearest_points [1, 2, 3, 4] 1 1 (nat 3) (nat (min 3 (int (n_embed (length [1, 2, 3, 4 :: real]) 1 1) - 1))) ns"
proof -
  have "length (neighbours (delay_embed (map Fin [1, 2, 3, 4]) 1 1) 1 3 3) = 2"
    by (simp add: neighbours_def upt_rec)
  then have "simplexForecast (map Fin [1, 2, 3, 4]) 1 1 3 3 \<noteq> None"
    by (simp add: simplexForecast_def Let_def n_embed_def)
  then obtain p where p: "simplexForecast (map Fin [1, 2, 3, 4]) 1 1 3 3 = Some p" by blast
  from simplex_forecast_convex [OF p] show ?thesis using p by (elim exE conjE) (intro exI conjI, auto simp only: is_fin_simps)
qed

text \<open>
  The panel compares a forecast with the last coordinate of the point it was made from, a value the forecast was given, not
  with the value that followed.
\<close>

theorem forecast_compared_with_input:
  assumes "f \<in> set (forecasts_of returns E tau steps)" "0 < E"
  shows "\<exists>t < n_embed (length returns) E tau. fc_actual f = rd (delay_embed returns E tau ! t) (E - 1)"
proof -
  define lib where "lib = int (length returns) - int steps - int E * int tau"
  obtain s where s: "f \<in> set (forecast_at returns E tau lib s)"
    using assms(1) by (auto simp: forecasts_of_def Let_def lib_def)
  then have p: "simplexForecast returns E tau (lib + int s) lib \<noteq> None"
    "fc_actual f = rd returns (nat (lib + int s + (int E - 1) * int tau))"
    by (cases "simplexForecast returns E tau (lib + int s) lib"; simp add: forecast_at_def Let_def)+
  then have t: "0 \<le> lib + int s" "lib + int s < int (n_embed (length returns) E tau)"
    by (auto simp: simplexForecast_def Let_def split: if_splits)
  define t where "t = nat (lib + int s)"
  have "lib + int s + (int E - 1) * int tau = int (t + (E - 1) * tau)"
    using t(1) assms(2) by (simp add: t_def of_nat_diff)
  then have "nat (lib + int s + (int E - 1) * int tau) = t + (E - 1) * tau" by (simp only: nat_int)
  then show ?thesis using p(2) t assms(2) by (intro exI [of _ t]) (auto simp: t_def delay_embed_def)
qed

section \<open>Cross mapping\<close>

lemma guarded_correlation_range:
  assumes "length bs = length as" "as \<noteq> []"
  shows "\<exists>r. guarded_correlation (map Fin as) (map Fin bs) = Fin r \<and> \<bar>r\<bar> \<le> 1"
proof -
  let ?n = "length as"
  define f where "f = (\<lambda>i. as ! i - sum_list as / real ?n)"
  define g where "g = (\<lambda>i. bs ! i - sum_list bs / real ?n)"
  define sxy where "sxy = (\<Sum>i \<in> {0..<?n}. f i * g i)"
  define sxx where "sxx = (\<Sum>i \<in> {0..<?n}. f i ^ 2)"
  define syy where "syy = (\<Sum>i \<in> {0..<?n}. g i ^ 2)"
  let ?mx = "jsum (map Fin as) / jnat ?n" and ?my = "jsum (map Fin bs) / jnat (length bs)"
  have "for_loop 0 ?n (\<lambda>i (num, dx, dy).
      (num + (rd (map Fin as) i - ?mx) * (rd (map Fin bs) i - ?my), dx + (rd (map Fin as) i - ?mx) ^ 2,
       dy + (rd (map Fin bs) i - ?my) ^ 2)) (0, 0, 0) =
     for_loop 0 ?n (\<lambda>i (num, dx, dy). (num + Fin (f i) * Fin (g i), dx + Fin (f i) ^ 2, dy + Fin (g i) ^ 2)) (0, 0, 0)"
    using assms by (intro for_loop_cong) (auto simp: f_def g_def)
  then have rho: "guarded_correlation (map Fin as) (map Fin bs) =
      Fin sxy / (jsqrt (Fin sxx) * jsqrt (Fin syy) + Fin (1 / 10 ^ 10))"
    unfolding guarded_correlation_def Let_def length_map moments_loop sxy_def sxx_def syy_def by simp
  have nonneg: "0 \<le> sxx" "0 \<le> syy" by (simp_all add: sxx_def syy_def sum_nonneg)
  let ?d = "sqrt sxx * sqrt syy + 1 / 10 ^ 10"
  have "sxy ^ 2 \<le> sxx * syy" unfolding sxy_def sxx_def syy_def by (rule cauchy_schwarz_sum)
  then have "\<bar>sxy\<bar> \<le> sqrt (sxx * syy)" by (metis real_sqrt_abs real_sqrt_le_iff)
  then have "\<bar>sxy\<bar> \<le> ?d" by (simp add: real_sqrt_mult)
  moreover have d: "0 < ?d" using nonneg by (intro add_nonneg_pos) simp_all
  ultimately have "\<bar>sxy / ?d\<bar> \<le> 1" by (simp add: abs_divide divide_le_eq)
  moreover have "guarded_correlation (map Fin as) (map Fin bs) = Fin (sxy / ?d)"
    using d nonneg by (simp add: rho)
  ultimately show ?thesis by blast
qed

lemma cross_estimate_Fin:
  assumes t: "t < lib" and lib: "lib \<le> length xs - (E - 1) * tau" "lib \<le> n_embed (length ys) E tau"
  shows "\<forall>q \<in> set (cross_estimate (map Fin xs) (delay_embed (map Fin ys) E tau) E tau lib t). \<exists>a b. q = (Fin a, Fin b)"
proof -
  obtain ns where ns: "neighbours (delay_embed (map Fin ys) E tau) E t lib =
      map (\<lambda>i. (i, Fin (embed_distance ys E tau t i))) ns" "nearest_points ys E tau t lib ns"
  proof (rule neighbours_nearest)
    show "t < n_embed (length ys) E tau" "lib \<le> n_embed (length ys) E tau" using t lib by simp_all
  qed
  have inside: "i + (E - 1) * tau < length xs" if "i < lib" for i using that lib(1) by linarith
  show ?thesis
  proof (cases "length ns < 2")
    case False
    then have ne: "ns \<noteq> []" by auto
    obtain ws where "weighted_estimate (map Fin xs) (map (\<lambda>i. (i, Fin (embed_distance ys E tau t i))) ns)
        (\<lambda>i. i + (E - 1) * tau) (\<lambda>i. i + (E - 1) * tau) = Fin (\<Sum>k = 0..<length ns. ws ! k * xs ! (ns ! k + (E - 1) * tau))"
    proof (rule weighted_estimate_convex)
      show "i + (E - 1) * tau < length xs \<and> i + (E - 1) * tau < length xs" if "i \<in> set ns" for i
        using inside [of i] ns(2) that by (auto simp: nearest_points_def)
    qed (use ne in auto)
    then show ?thesis using inside [OF t] by (simp add: cross_estimate_def Let_def ns(1))
  qed (simp add: cross_estimate_def Let_def ns(1))
qed

lemma ccm_lib_range:
  assumes len: "length ys = length xs" and E: "0 < E"
  obtains rs where "ccm_lib (map Fin xs) (map Fin ys) E tau libSize = Some rs" "length rs \<le> 1"
    "list_all (\<lambda>(size, rho). size \<le> libSize \<and> int E + 2 \<le> size \<and> (\<exists>r. rho = Fin r \<and> \<bar>r\<bar> \<le> 1)) rs"
proof -
  define actual where "actual = min libSize (int (length xs) - int E * int tau)"
  define lib where "lib = nat actual"
  define pairs where "pairs = concat (map (cross_estimate (map Fin xs) (delay_embed (map Fin ys) E tau) E tau lib)
    [0..<min (n_embed (length ys) E tau) lib])"
  show ?thesis
  proof (cases "actual < int E + 2")
    case True
    then show ?thesis using that [of "[]"] by (simp add: ccm_lib_def Let_def actual_def)
  next
    case False
    then have "int lib = actual" by (simp add: lib_def)
    then have "int lib + int E * int tau \<le> int (length xs)" unfolding actual_def by linarith
    then have "lib + E * tau \<le> length xs" by (metis of_nat_add of_nat_le_iff of_nat_mult)
    moreover have "(E - 1) * tau \<le> E * tau" by (intro mult_right_mono) simp_all
    ultimately have lib: "lib \<le> length xs - (E - 1) * tau" by linarith
    then have emb: "lib \<le> n_embed (length ys) E tau" by (simp add: n_embed_def len)
    then have res: "ccm_lib (map Fin xs) (map Fin ys) E tau libSize =
        (if length pairs > 2 then Some [(actual, guarded_correlation (map fst pairs) (map snd pairs))] else Some [])"
      using False by (simp add: ccm_lib_def Let_def actual_def [symmetric] lib_def [symmetric] pairs_def not_less)
    have "\<forall>q \<in> set pairs. \<exists>a b. q = (Fin a, Fin b)"
    proof
      fix q assume "q \<in> set pairs"
      then obtain t where "t < lib" "q \<in> set (cross_estimate (map Fin xs) (delay_embed (map Fin ys) E tau) E tau lib t)"
        by (auto simp: pairs_def)
      then show "\<exists>a b. q = (Fin a, Fin b)" using cross_estimate_Fin [OF _ lib emb] by blast
    qed
    then have "\<exists>as bs. map fst pairs = map Fin as \<and> map snd pairs = map Fin bs \<and> length bs = length as \<and> length as = length pairs"
    proof (induction pairs)
      case (Cons q qs)
      then obtain as bs a b where "map fst qs = map Fin as \<and> map snd qs = map Fin bs \<and> length bs = length as \<and> length as = length qs"
        "q = (Fin a, Fin b)" by auto
      then show ?case by (intro exI [of _ "a # as"] exI [of _ "b # bs"]) simp
    qed simp
    then obtain as bs where ab: "map fst pairs = map Fin as" "map snd pairs = map Fin bs" "length bs = length as"
      "length as = length pairs" by blast
    show ?thesis
    proof (cases "length pairs > 2")
      case True
      then have "as \<noteq> []" using ab(4) by auto
      then have "\<exists>r. guarded_correlation (map fst pairs) (map snd pairs) = Fin r \<and> \<bar>r\<bar> \<le> 1"
        unfolding ab using ab(3) by (intro guarded_correlation_range)
      moreover have "actual \<le> libSize" by (simp add: actual_def)
      ultimately show ?thesis
        using that [of "[(actual, guarded_correlation (map fst pairs) (map snd pairs))]"] True False res by simp
    qed (use that [of "[]"] res in simp)
  qed
qed

text \<open>
  convergent cross mapping of two finite series of the same length never reads a missing vector and returns, for any list of
  library sizes, only sizes that were asked for at most and are large enough, each with a correlation between -1 and 1.
\<close>

theorem ccm_correlations_bounded:
  assumes "length ys = length xs" "0 < E"
  shows "\<exists>rs. ccm (map Fin xs) (map Fin ys) E tau libSizes = Some rs \<and> length rs \<le> length libSizes \<and>
    list_all (\<lambda>(size, rho). (\<exists>l \<in> set libSizes. size \<le> l) \<and> int E + 2 \<le> size \<and> (\<exists>r. rho = Fin r \<and> \<bar>r\<bar> \<le> 1)) rs"
proof (induction libSizes)
  case (Cons l ls)
  let ?P = "\<lambda>ls (size, rho). (\<exists>l \<in> set ls. size \<le> l) \<and> int E + 2 \<le> size \<and> (\<exists>r. rho = Fin r \<and> \<bar>r\<bar> \<le> 1)"
  obtain rs where rs: "ccm (map Fin xs) (map Fin ys) E tau ls = Some rs" "length rs \<le> length ls" "list_all (?P ls) rs"
    using Cons.IH by blast
  obtain qs where qs: "ccm_lib (map Fin xs) (map Fin ys) E tau l = Some qs" "length qs \<le> 1"
    "list_all (\<lambda>(size, rho). size \<le> l \<and> int E + 2 \<le> size \<and> (\<exists>r. rho = Fin r \<and> \<bar>r\<bar> \<le> 1)) qs"
    using ccm_lib_range [OF assms] by blast
  have "list_all (?P (l # ls)) rs" using rs(3) by (rule list.pred_mono_strong) auto
  moreover have "list_all (?P (l # ls)) qs" using qs(3) by (rule list.pred_mono_strong) auto
  ultimately show ?case using rs qs by (intro exI [of _ "qs @ rs"]) simp
qed simp

theorem ccm_correlations_bounded_witness:
  "\<exists>rs. ccm (map Fin [1, 2, 3, 5, 8]) (map Fin [0, 1, 0, 1, 0]) 1 1 [20, -3] = Some rs \<and> length rs \<le> Suc (Suc 0) \<and>
    list_all (\<lambda>(size, rho). (\<exists>l \<in> {20, -3}. size \<le> l) \<and> 3 \<le> size \<and> (\<exists>r. rho = Fin r \<and> \<bar>r\<bar> \<le> 1)) rs"
  using ccm_correlations_bounded [of "[0, 1, 0, 1, 0]" "[1, 2, 3, 5, 8]" 1 1 "[20, -3]"] by simp

end
