(* ===== verification/ExecutionBot.thy ===== *)
theory ExecutionBot
  imports JsPrelude
begin

text \<open>
  The execution bot \<open>components/ExecutionBot.jsx\<close>: it splits an order into slices and sends one at once and one per tick of an
  interval timer. A timer keeps the values its \<open>sendSlice\<close> closed over when the run was started; timers are named by the numbers
  \<open>setInterval\<close> returns, and a step may let any live timer fire. Times and texts of the log and the drawing are left out.
\<close>

section \<open>State\<close>

text \<open>What one \<open>sendSlice\<close> has closed over.\<close>

record bot_run =
  br_slices :: jsnum
  br_side :: string
  br_qty :: jsnum
  br_vwap :: bool
  br_symbol :: string
  br_submit :: bool

record bot_order =
  bo_side :: string
  bo_quantity :: jsnum
  bo_symbol :: string
  bo_limit :: "jsnum option" \<comment> \<open>\<open>order_type\<close> LIMIT with its price\<close>

datatype log_kind = Slice_Sent | Execution_Done

record exec_bot =
  eb_vwap :: bool
  eb_side :: string
  eb_totalQty :: jsnum
  eb_slices :: jsnum
  eb_running :: bool
  eb_progress :: "nat \<times> jsnum" \<comment> \<open>sent and average price\<close>
  eb_log :: "log_kind list"
  eb_idx :: nat
  eb_timers :: "(nat \<times> bot_run) list"
  eb_interval :: "nat option" \<comment> \<open>\<open>intervalRef\<close>\<close>
  eb_next_timer :: nat
  eb_prices :: "jsnum list"
  eb_price :: jsnum
  eb_connected :: bool
  eb_submit :: bool \<comment> \<open>the prop \<open>onSubmit\<close> is there\<close>
  eb_symbol :: string
  eb_orders :: "bot_order list" \<comment> \<open>everything submitted so far\<close>

definition initial_bot :: "jsnum \<Rightarrow> bool \<Rightarrow> bool \<Rightarrow> string \<Rightarrow> exec_bot" where
  "initial_bot price online submit symbol =
     \<lparr>eb_vwap = False, eb_side = ''BUY'', eb_totalQty = 1, eb_slices = 10, eb_running = False, eb_progress = (0, 0),
      eb_log = [], eb_idx = 0, eb_timers = [], eb_interval = None, eb_next_timer = 1, eb_prices = [], eb_price = price,
      eb_connected = online, eb_submit = submit, eb_symbol = symbol, eb_orders = []\<rparr>"

definition sliceQty :: "exec_bot \<Rightarrow> jsnum" where
  "sliceQty s = (if eb_slices s > 0 then eb_totalQty s / eb_slices s else 0)"

definition current_run :: "exec_bot \<Rightarrow> bot_run" where
  "current_run s = \<lparr>br_slices = eb_slices s, br_side = eb_side s, br_qty = sliceQty s, br_vwap = eb_vwap s,
     br_symbol = eb_symbol s, br_submit = eb_submit s\<rparr>"

section \<open>Operations\<close>

definition stopExecution :: "exec_bot \<Rightarrow> exec_bot" where
  "stopExecution s =
     (case eb_interval s of
        None \<Rightarrow> s
      | Some t \<Rightarrow> s\<lparr>eb_timers := filter (\<lambda>(i, _). i \<noteq> t) (eb_timers s), eb_interval := None\<rparr>)\<lparr>eb_running := False\<rparr>"

definition order_price :: "bot_run \<Rightarrow> exec_bot \<Rightarrow> jsnum" where
  "order_price run s =
     (if br_vwap run \<and> eb_prices s \<noteq> []
      then let recent = slice_last 20 (eb_prices s) in jsum recent / jnat (length recent)
      else eb_price s)"

definition sendSlice :: "bot_run \<Rightarrow> exec_bot \<Rightarrow> exec_bot" where
  "sendSlice run s =
     (if jnat (eb_idx s) \<ge> br_slices run
      then let s1 = stopExecution s in s1\<lparr>eb_log := eb_log s1 @ [Execution_Done]\<rparr>
      else
        let price = eb_price s;
            orderPrice = order_price run s;
            prices = eb_prices s @ [price];
            order = \<lparr>bo_side = br_side run, bo_quantity = br_qty run, bo_symbol = br_symbol run,
              bo_limit = (if br_vwap run then Some orderPrice else None)\<rparr>;
            idx = eb_idx s + 1
        in s\<lparr>eb_prices := prices,
             eb_orders := (if br_submit run then eb_orders s @ [order] else eb_orders s),
             eb_idx := idx,
             eb_progress := (idx, jsum prices / jnat (length prices)),
             eb_log := slice_last 10 (eb_log s) @ [Slice_Sent]\<rparr>)"

definition startExecution :: "exec_bot \<Rightarrow> exec_bot" where
  "startExecution s =
     (if \<not> eb_connected s \<or> \<not> eb_submit s then s
      else
        let run = current_run s;
            s1 = s\<lparr>eb_idx := 0, eb_prices := [], eb_log := [], eb_progress := (0, 0), eb_running := True\<rparr>;
            s2 = sendSlice run s1
        in s2\<lparr>eb_timers := eb_timers s2 @ [(eb_next_timer s2, run)], eb_interval := Some (eb_next_timer s2),
             eb_next_timer := eb_next_timer s2 + 1\<rparr>)"

definition unmountBot :: "exec_bot \<Rightarrow> exec_bot" where
  "unmountBot s =
     (case eb_interval s of None \<Rightarrow> s | Some t \<Rightarrow> s\<lparr>eb_timers := filter (\<lambda>(i, _). i \<noteq> t) (eb_timers s)\<rparr>)"

section \<open>Events\<close>

text \<open>
  The start button is shown while nothing runs, the stop button while something does; the number inputs are disabled during a
  run, strategy and side are not.
\<close>

datatype bot_event =
    Set_Strategy bool
  | Set_Side string
  | Set_Total jsnum
  | Set_Slices jsnum
  | Press_Start
  | Press_Stop
  | Timer_Fires nat
  | Price_Moves jsnum
  | New_Props bool bool string

fun bot_step :: "bot_event \<Rightarrow> exec_bot \<Rightarrow> exec_bot" where
  "bot_step (Set_Strategy vwap) s = s\<lparr>eb_vwap := vwap\<rparr>"
| "bot_step (Set_Side side) s = s\<lparr>eb_side := side\<rparr>"
| "bot_step (Set_Total q) s = (if eb_running s then s else s\<lparr>eb_totalQty := q\<rparr>)"
| "bot_step (Set_Slices n) s = (if eb_running s then s else s\<lparr>eb_slices := n\<rparr>)"
| "bot_step Press_Start s = (if eb_running s \<or> \<not> eb_connected s then s else startExecution s)"
| "bot_step Press_Stop s = (if eb_running s then stopExecution s else s)"
| "bot_step (Timer_Fires t) s = (case map_of (eb_timers s) t of None \<Rightarrow> s | Some run \<Rightarrow> sendSlice run s)"
| "bot_step (Price_Moves p) s = s\<lparr>eb_price := p\<rparr>"
| "bot_step (New_Props online submit symbol) s =
     s\<lparr>eb_connected := online, eb_submit := submit, eb_symbol := symbol\<rparr>"

definition bot_trace :: "bot_event list \<Rightarrow> exec_bot \<Rightarrow> exec_bot" where
  "bot_trace es s = fold bot_step es s"

section \<open>Invariant\<close>

text \<open>Slice counts as the panel means them: whole and at least 1.\<close>

definition whole_slices :: "bot_event \<Rightarrow> bool" where
  "whole_slices e = (case e of Set_Slices n \<Rightarrow> (\<exists>k \<ge> 1. n = jnat k) | _ \<Rightarrow> True)"

text \<open>
  The last run: \<open>n\<close> slices of \<open>q\<close>, of which as many were submitted as \<open>eb_idx\<close> says, all alike; while it runs there is exactly
  one timer, the one \<open>intervalRef\<close> names, and otherwise none.
\<close>

definition run_orders :: "bot_run \<Rightarrow> exec_bot \<Rightarrow> bool" where
  "run_orders run s \<longleftrightarrow> (\<exists>n total older sent. br_slices run = jnat n \<and> br_qty run = total / jnat n \<and> 1 \<le> n \<and> eb_idx s \<le> n \<and> br_submit run \<and>
     eb_orders s = older @ sent \<and> length sent = eb_idx s \<and>
     (\<forall>o' \<in> set sent. bo_side o' = br_side run \<and> bo_quantity o' = br_qty run \<and> bo_symbol o' = br_symbol run \<and>
        (bo_limit o' = None \<longleftrightarrow> \<not> br_vwap run)))"

definition bot_inv :: "exec_bot \<Rightarrow> bool" where
  "bot_inv s \<longleftrightarrow>
     (\<exists>n \<ge> 1. eb_slices s = jnat n) \<and>
     (if eb_running s then \<exists>t run. eb_timers s = [(t, run)] \<and> eb_interval s = Some t \<and> 1 \<le> eb_idx s \<and> run_orders run s
      else eb_timers s = [] \<and> eb_interval s = None \<and> (eb_idx s = 0 \<or> (\<exists>run. run_orders run s)))"

lemma run_orders_cong:
  "eb_idx s' = eb_idx s \<Longrightarrow> eb_orders s' = eb_orders s \<Longrightarrow> run_orders run s' = run_orders run s"
  by (simp add: run_orders_def)

lemma stop_fields [simp]:
  "eb_idx (stopExecution s) = eb_idx s" "eb_orders (stopExecution s) = eb_orders s" "eb_running (stopExecution s) = False"
  "eb_slices (stopExecution s) = eb_slices s"
  by (simp_all add: stopExecution_def split: option.splits)

lemma stop_timer: "eb_timers s = [(t, run)] \<Longrightarrow> eb_interval s = Some t \<Longrightarrow>
    eb_timers (stopExecution s) = [] \<and> eb_interval (stopExecution s) = None"
  by (simp add: stopExecution_def)

lemma bot_inv_stop:
  assumes "bot_inv s" "eb_running s"
  shows "bot_inv (stopExecution s)"
  using assms stop_timer by (fastforce simp: bot_inv_def run_orders_cong [OF stop_fields(1,2)])

text \<open>A slice that is sent extends the orders of its run by one of the run's quantity.\<close>

lemma send_extends:
  assumes "run_orders run s" "\<not> jnat (eb_idx s) \<ge> br_slices run"
  shows "run_orders run (sendSlice run s)" "eb_idx (sendSlice run s) = eb_idx s + 1"
proof -
  obtain n total older sent where r: "br_slices run = jnat n" "br_qty run = total / jnat n" "1 \<le> n" "br_submit run"
    "eb_orders s = older @ sent" "length sent = eb_idx s"
    "\<forall>o' \<in> set sent. bo_side o' = br_side run \<and> bo_quantity o' = br_qty run \<and> bo_symbol o' = br_symbol run \<and>
        (bo_limit o' = None \<longleftrightarrow> \<not> br_vwap run)"
    using assms(1) by (auto simp: run_orders_def)
  then have lt: "eb_idx s < n" using assms(2) by simp
  let ?o = "\<lparr>bo_side = br_side run, bo_quantity = br_qty run, bo_symbol = br_symbol run,
      bo_limit = (if br_vwap run then Some (order_price run s) else None)\<rparr>"
  have sent: "eb_orders (sendSlice run s) = older @ (sent @ [?o])" "eb_idx (sendSlice run s) = eb_idx s + 1"
    using assms(2) r by (simp_all add: sendSlice_def Let_def)
  show "eb_idx (sendSlice run s) = eb_idx s + 1" by (rule sent(2))
  show "run_orders run (sendSlice run s)"
    unfolding run_orders_def
    by (rule exI [of _ n], rule exI [of _ total], rule exI [of _ older], rule exI [of _ "sent @ [?o]"])
       (use r lt sent in auto)
qed

lemma send_fields:
  assumes "\<not> jnat (eb_idx s) \<ge> br_slices run"
  shows "eb_timers (sendSlice run s) = eb_timers s" "eb_interval (sendSlice run s) = eb_interval s"
    "eb_running (sendSlice run s) = eb_running s" "eb_slices (sendSlice run s) = eb_slices s"
    "eb_next_timer (sendSlice run s) = eb_next_timer s"
  using assms by (simp_all add: sendSlice_def Let_def)

lemma send_stops:
  assumes "jnat (eb_idx s) \<ge> br_slices run"
  shows "sendSlice run s = (stopExecution s)\<lparr>eb_log := eb_log (stopExecution s) @ [Execution_Done]\<rparr>"
  using assms by (simp add: sendSlice_def Let_def)

text \<open>What a press of start leaves behind: the first slice is sent and the timer is set.\<close>

lemma start_runs:
  assumes inv: "bot_inv s" "\<not> eb_running s" and on: "eb_connected s" "eb_submit s"
  defines "s' \<equiv> startExecution s" and "run \<equiv> current_run s"
  shows "eb_running s'" "eb_timers s' = [(eb_next_timer s, run)]" "eb_interval s' = Some (eb_next_timer s)" "eb_idx s' = 1"
    "run_orders run s'" "eb_slices s' = eb_slices s"
proof -
  let ?s1 = "s\<lparr>eb_idx := 0, eb_prices := [], eb_log := [], eb_progress := (0, 0), eb_running := True\<rparr>"
  obtain n where n: "eb_slices s = jnat n" "1 \<le> n" using inv(1) by (auto simp: bot_inv_def)
  have go: "\<not> jnat (eb_idx ?s1) \<ge> br_slices run" using n by (simp add: run_def current_run_def)
  have "run_orders run ?s1"
    using n on by (auto simp: run_orders_def run_def current_run_def sliceQty_def zero_jsnum_def)
  note ext = send_extends [OF this go]
  have s': "s' = (sendSlice run ?s1)\<lparr>eb_timers := eb_timers s @ [(eb_next_timer s, run)],
      eb_interval := Some (eb_next_timer s), eb_next_timer := eb_next_timer s + 1\<rparr>"
    using on by (simp add: s'_def startExecution_def Let_def run_def [symmetric] send_fields [OF go, simplified])
  show "eb_running s'" "eb_timers s' = [(eb_next_timer s, run)]" "eb_interval s' = Some (eb_next_timer s)" "eb_idx s' = 1"
    "eb_slices s' = eb_slices s"
    using inv ext(2) send_fields [OF go] by (simp_all add: s' bot_inv_def)
  show "run_orders run s'" using ext(1) by (subst run_orders_cong [of _ "sendSlice run ?s1"]) (simp_all add: s')
qed

lemma bot_inv_tick:
  assumes "bot_inv s" "map_of (eb_timers s) t = Some run"
  shows "bot_inv (sendSlice run s)"
proof -
  have run: "eb_running s" "eb_timers s = [(t, run)]" "eb_interval s = Some t" "1 \<le> eb_idx s" "run_orders run s"
    using assms by (auto simp: bot_inv_def split: if_splits)
  show ?thesis
  proof (cases "jnat (eb_idx s) \<ge> br_slices run")
    case True
    have "bot_inv (stopExecution s)" using assms(1) run(1) by (rule bot_inv_stop)
    then show ?thesis
      unfolding send_stops [OF True] by (simp add: bot_inv_def run_orders_cong [of "stopExecution s"] run_orders_def)
  next
    case False
    then show ?thesis
      using assms(1) run send_extends [OF run(5) False] send_fields [OF False] by (auto simp: bot_inv_def)
  qed
qed

lemma bot_inv_step: "bot_inv s \<Longrightarrow> whole_slices e \<Longrightarrow> bot_inv (bot_step e s)"
proof (cases e)
  case Press_Start
  assume inv: "bot_inv s"
  show ?thesis
  proof (cases "eb_running s \<or> \<not> eb_connected s \<or> \<not> eb_submit s")
    case True
    then show ?thesis using inv Press_Start by (auto simp: startExecution_def)
  next
    case False
    then show ?thesis using start_runs [OF inv] Press_Start inv by (auto simp: bot_inv_def)
  qed
next
  case (Timer_Fires t)
  assume "bot_inv s"
  then show ?thesis using Timer_Fires bot_inv_tick by (simp split: option.split)
next
  case Press_Stop
  assume "bot_inv s"
  then show ?thesis using Press_Stop bot_inv_stop by simp
qed (auto simp: bot_inv_def whole_slices_def run_orders_def split: if_splits)

theorem bot_invariant: "list_all whole_slices es \<Longrightarrow> bot_inv s \<Longrightarrow> bot_inv (bot_trace es s)"
  unfolding bot_trace_def by (induction es arbitrary: s) (simp_all add: bot_inv_step)

lemma bot_inv_initial: "bot_inv (initial_bot price online submit symbol)"
  by (auto simp: bot_inv_def initial_bot_def intro!: exI [of _ 10])

section \<open>Properties\<close>

text \<open>
  What the panel was told: at every press of start that begins a run, the total, the number of slices, the side and the symbol of
  the state in which it is pressed. The runs of a trace are listed in their order.
\<close>

record run_plan =
  rp_total :: jsnum
  rp_slices :: jsnum
  rp_side :: string
  rp_symbol :: string

definition plan_of :: "exec_bot \<Rightarrow> run_plan" where
  "plan_of s = \<lparr>rp_total = eb_totalQty s, rp_slices = eb_slices s, rp_side = eb_side s, rp_symbol = eb_symbol s\<rparr>"

definition starts_run :: "bot_event \<Rightarrow> exec_bot \<Rightarrow> bool" where
  "starts_run e s \<longleftrightarrow> e = Press_Start \<and> \<not> eb_running s \<and> eb_connected s \<and> eb_submit s"

fun run_plans :: "bot_event list \<Rightarrow> exec_bot \<Rightarrow> run_plan list" where
  "run_plans [] s = []"
| "run_plans (e # es) s = (if starts_run e s then [plan_of s] else []) @ run_plans es (bot_step e s)"

text \<open>The orders of one run keep to its plan: no more than the slices, each its share, and no more than the total together.\<close>

definition within_plan :: "run_plan \<Rightarrow> bot_order list \<Rightarrow> bool" where
  "within_plan p sent \<longleftrightarrow> sent \<noteq> [] \<and> jnat (length sent) \<le> rp_slices p \<and>
     list_all (\<lambda>o'. bo_quantity o' = rp_total p / rp_slices p \<and> bo_side o' = rp_side p \<and> bo_symbol o' = rp_symbol p) sent \<and>
     (\<forall>q \<ge> 0. rp_total p = Fin q \<longrightarrow> jsum (map bo_quantity sent) \<le> Fin q)"

lemma shares_within_total:
  assumes "1 \<le> n" "length xs \<le> n" "0 \<le> q" "\<forall>x \<in> set xs. x = Fin (q / real n)"
  shows "jsum xs \<le> Fin q"
proof -
  have "xs = map Fin (replicate (length xs) (q / real n))" using assms(4) by (simp add: list_eq_iff_nth_eq)
  then have "jsum xs = Fin (sum_list (replicate (length xs) (q / real n)))" by (metis jsum_Fin)
  also have "sum_list (replicate (length xs) (q / real n)) = real (length xs) * (q / real n)" by (simp add: sum_list_replicate)
  also have "\<dots> \<le> real n * (q / real n)" using assms by (intro mult_right_mono) simp_all
  finally show ?thesis using assms(1) by simp
qed

text \<open>The orders a state may still see before the next start: those its timer's run has left.\<close>

definition continues :: "exec_bot \<Rightarrow> bot_order list \<Rightarrow> bool" where
  "continues s rest \<longleftrightarrow>
     (case eb_timers s of [] \<Rightarrow> rest = []
      | (_, run) # _ \<Rightarrow> (\<exists>n. br_slices run = jnat n \<and> eb_idx s + length rest \<le> n) \<and>
          (\<forall>o' \<in> set rest. bo_quantity o' = br_qty run \<and> bo_side o' = br_side run \<and> bo_symbol o' = br_symbol run))"

lemma continues_cong: "eb_timers s' = eb_timers s \<Longrightarrow> eb_idx s' = eb_idx s \<Longrightarrow> continues s' = continues s"
  by (cases "eb_timers s") (auto simp: continues_def fun_eq_iff)

lemma continues_other [simp]:
  "continues (s\<lparr>eb_vwap := v\<rparr>) = continues s" "continues (s\<lparr>eb_side := a\<rparr>) = continues s"
  "continues (s\<lparr>eb_totalQty := q\<rparr>) = continues s" "continues (s\<lparr>eb_slices := n\<rparr>) = continues s"
  "continues (s\<lparr>eb_price := p\<rparr>) = continues s"
  "continues (s\<lparr>eb_connected := online, eb_submit := submit, eb_symbol := symbol\<rparr>) = continues s"
  by (auto intro!: continues_cong)

lemma continues_Nil: "bot_inv s \<Longrightarrow> continues s []"
  by (auto simp: bot_inv_def continues_def run_orders_def split: if_splits)

lemma tick_continues:
  assumes inv: "bot_inv s" and timer: "map_of (eb_timers s) t = Some run" and rest: "continues (sendSlice run s) rest"
  shows "\<exists>more. eb_orders (sendSlice run s) @ rest = eb_orders s @ more \<and> continues s more"
proof -
  have run: "eb_timers s = [(t, run)]" "eb_interval s = Some t" "run_orders run s"
    using inv timer by (auto simp: bot_inv_def split: if_splits)
  show ?thesis
  proof (cases "jnat (eb_idx s) \<ge> br_slices run")
    case True
    then have "rest = []" using rest stop_timer [OF run(1,2)] by (simp add: send_stops continues_def)
    moreover have "eb_orders (sendSlice run s) = eb_orders s" by (simp add: send_stops [OF True])
    ultimately show ?thesis using continues_Nil [OF inv] by auto
  next
    case False
    let ?o = "\<lparr>bo_side = br_side run, bo_quantity = br_qty run, bo_symbol = br_symbol run,
      bo_limit = (if br_vwap run then Some (order_price run s) else None)\<rparr>"
    have "eb_orders (sendSlice run s) = eb_orders s @ [?o]" "eb_idx (sendSlice run s) = eb_idx s + 1"
      using False run(3) by (auto simp: sendSlice_def Let_def run_orders_def)
    moreover have "continues s (?o # rest)"
      using rest send_fields(1) [OF False] calculation(2) by (auto simp: continues_def run(1))
    ultimately show ?thesis by auto
  qed
qed

lemma start_continues:
  assumes inv: "bot_inv s" "starts_run e s" and rest: "continues (bot_step e s) rest"
  shows "\<exists>sent. eb_orders (bot_step e s) @ rest = eb_orders s @ sent \<and> within_plan (plan_of s) sent"
proof -
  have on: "\<not> eb_running s" "eb_connected s" "eb_submit s" "bot_step e s = startExecution s"
    using inv(2) by (auto simp: starts_run_def)
  obtain n where n: "eb_slices s = jnat n" "1 \<le> n" using inv(1) by (auto simp: bot_inv_def)
  note st = start_runs [OF inv(1) on(1-3)]
  let ?run = "current_run s"
  let ?o = "\<lparr>bo_side = br_side ?run, bo_quantity = br_qty ?run, bo_symbol = br_symbol ?run,
      bo_limit = (if br_vwap ?run then Some (eb_price s) else None)\<rparr>"
  have orders: "eb_orders (startExecution s) = eb_orders s @ [?o]"
    using n on by (simp add: startExecution_def Let_def sendSlice_def current_run_def order_price_def)
  have share: "br_qty ?run = eb_totalQty s / jnat n"
    using n by (simp add: current_run_def sliceQty_def zero_jsnum_def)
  have len: "length (?o # rest) \<le> n"
    and each: "\<forall>o' \<in> set (?o # rest). bo_quantity o' = eb_totalQty s / jnat n \<and> bo_side o' = eb_side s \<and> bo_symbol o' = eb_symbol s"
    using rest st n share by (auto simp: continues_def on(4) current_run_def)
  have total: "jsum (map bo_quantity (?o # rest)) \<le> Fin q" if "0 \<le> q" "eb_totalQty s = Fin q" for q
    by (rule shares_within_total [of n]) (use that n len each in auto)
  have "within_plan (plan_of s) (?o # rest)"
    unfolding within_plan_def using len each total n by (simp add: plan_of_def list_all_iff)
  then show ?thesis using orders on(4) by auto
qed

lemma other_step_continues:
  assumes inv: "bot_inv s" and e: "\<not> starts_run e s" and rest: "continues (bot_step e s) rest"
  shows "\<exists>more. eb_orders (bot_step e s) @ rest = eb_orders s @ more \<and> continues s more"
proof (cases e)
  case (Timer_Fires t)
  show ?thesis
  proof (cases "map_of (eb_timers s) t")
    case None
    then show ?thesis using rest Timer_Fires by auto
  next
    case (Some run)
    then show ?thesis using tick_continues [OF inv Some] rest Timer_Fires by simp
  qed
next
  case Press_Stop
  show ?thesis
  proof (cases "eb_running s")
    case True
    then obtain t run where "eb_timers s = [(t, run)]" "eb_interval s = Some t" using inv by (auto simp: bot_inv_def)
    from stop_timer [OF this] have "rest = []" using rest True Press_Stop by (simp add: continues_def)
    then show ?thesis using True Press_Stop continues_Nil [OF inv] by auto
  next
    case False
    then show ?thesis using rest Press_Stop by auto
  qed
next
  case Press_Start
  then have "bot_step e s = s" using e by (auto simp: starts_run_def startExecution_def)
  then show ?thesis using rest by auto
qed (use rest in \<open>auto split: if_splits\<close>)

lemma trace_keeps_to_plans:
  assumes "bot_inv s" "list_all whole_slices es"
  shows "\<exists>rest sent. eb_orders (bot_trace es s) = eb_orders s @ rest @ concat sent \<and> continues s rest \<and>
    list_all2 within_plan (run_plans es s) sent"
  using assms
proof (induction es arbitrary: s)
  case Nil
  then show ?case by (intro exI [of _ "[]"]) (simp add: bot_trace_def continues_Nil)
next
  case (Cons e es)
  have "bot_inv (bot_step e s)" "list_all whole_slices es" using Cons.prems by (simp_all add: bot_inv_step)
  from Cons.IH [OF this] obtain rest sent where ih: "eb_orders (bot_trace es (bot_step e s)) = eb_orders (bot_step e s) @ rest @ concat sent"
      "continues (bot_step e s) rest" "list_all2 within_plan (run_plans es (bot_step e s)) sent"
    by blast
  have tr: "bot_trace (e # es) s = bot_trace es (bot_step e s)" by (simp add: bot_trace_def)
  show ?case
  proof (cases "starts_run e s")
    case True
    obtain now where "eb_orders (bot_step e s) @ rest = eb_orders s @ now" "within_plan (plan_of s) now"
      using start_continues [OF Cons.prems(1) True ih(2)] by blast
    then show ?thesis
      using ih True continues_Nil [OF Cons.prems(1)] unfolding tr
      by (intro exI [of _ "[]"] exI [of _ "now # sent"]) (simp flip: append_assoc)
  next
    case False
    obtain more where "eb_orders (bot_step e s) @ rest = eb_orders s @ more" "continues s more"
      using other_step_continues [OF Cons.prems(1) False ih(2)] by blast
    then show ?thesis
      using ih False unfolding tr by (intro exI [of _ more] exI [of _ sent]) (simp flip: append_assoc)
  qed
qed

text \<open>
  C27: with whole slice counts the bot never sends more than it was told. Whatever is clicked, whichever prices and properties
  come and whenever the timers fire, the orders sent are, in order, one block for every press of start that began a run, and each
  block keeps to what the panel showed at that press: no more orders than its number of slices, each of its total divided by that
  number, for its side and its symbol, together no more than its total; and there is a live timer exactly while the bot runs. A
  fractional slice count, which the field accepts, is excluded: it oversends (\<open>fractional_slices_oversend\<close>).
\<close>

theorem execution_never_oversends:
  fixes price :: jsnum and online submit :: bool and symbol :: string
  assumes "list_all whole_slices es"
  defines "init \<equiv> initial_bot price online submit symbol"
  shows "(\<exists>sent. eb_orders (bot_trace es init) = concat sent \<and> list_all2 within_plan (run_plans es init) sent) \<and>
    length (eb_timers (bot_trace es init)) = (if eb_running (bot_trace es init) then 1 else 0)"
proof
  have inv: "bot_inv init" unfolding init_def by (rule bot_inv_initial)
  obtain rest sent where "eb_orders (bot_trace es init) = eb_orders init @ rest @ concat sent" "continues init rest"
      "list_all2 within_plan (run_plans es init) sent"
    using trace_keeps_to_plans [OF inv assms(1)] by blast
  moreover have "eb_orders init = []" "eb_timers init = []" by (simp_all add: init_def initial_bot_def)
  ultimately show "\<exists>sent. eb_orders (bot_trace es init) = concat sent \<and> list_all2 within_plan (run_plans es init) sent"
    by (auto simp: continues_def)
  show "length (eb_timers (bot_trace es init)) = (if eb_running (bot_trace es init) then 1 else 0)"
    using bot_invariant [OF assms(1) inv] by (auto simp: bot_inv_def)
qed

theorem execution_never_oversends_witness:
  "\<exists>sent. eb_orders (bot_trace [Set_Slices (jnat 2), Press_Start, Timer_Fires 1, Timer_Fires 1] (initial_bot 100 True True ''BTC''))
      = concat sent \<and>
    list_all2 within_plan [\<lparr>rp_total = 1, rp_slices = jnat 2, rp_side = ''BUY'', rp_symbol = ''BTC''\<rparr>] sent"
proof -
  let ?es = "[Set_Slices (jnat 2), Press_Start, Timer_Fires 1, Timer_Fires 1]"
  have plans: "run_plans ?es (initial_bot 100 True True ''BTC'') =
      [\<lparr>rp_total = 1, rp_slices = jnat 2, rp_side = ''BUY'', rp_symbol = ''BTC''\<rparr>]"
    by (simp add: initial_bot_def starts_run_def plan_of_def)
  have "list_all whole_slices ?es" by (auto simp: whole_slices_def)
  from execution_never_oversends [OF this, of 100 True True "''BTC''"] show ?thesis unfolding plans by blast
qed

text \<open>A run that is left alone but for price changes and clicks on strategy and side.\<close>

definition undisturbed :: "nat \<Rightarrow> bot_event \<Rightarrow> bool" where
  "undisturbed t e = (case e of Timer_Fires i \<Rightarrow> i = t | Price_Moves _ \<Rightarrow> True | Set_Strategy _ \<Rightarrow> True | Set_Side _ \<Rightarrow> True | _ \<Rightarrow> False)"

definition ticks :: "bot_event list \<Rightarrow> nat" where
  "ticks es = length (filter (\<lambda>e. case e of Timer_Fires _ \<Rightarrow> True | _ \<Rightarrow> False) es)"

definition running_with :: "nat \<Rightarrow> bot_run \<Rightarrow> bot_order list \<Rightarrow> exec_bot \<Rightarrow> bool" where
  "running_with t run older s \<longleftrightarrow> eb_running s \<and> eb_timers s = [(t, run)] \<and> eb_interval s = Some t \<and> br_submit run \<and>
     (\<exists>sent. eb_orders s = older @ sent \<and> length sent = eb_idx s \<and>
       (\<forall>o' \<in> set sent. bo_quantity o' = br_qty run \<and> bo_side o' = br_side run \<and> bo_symbol o' = br_symbol run))"

lemma stopped_stays:
  assumes "eb_timers s = []" "\<not> eb_running s" "list_all (undisturbed t) es"
  shows "eb_orders (bot_trace es s) = eb_orders s \<and> \<not> eb_running (bot_trace es s)"
  using assms unfolding bot_trace_def
proof (induction es arbitrary: s)
  case (Cons e es)
  then show ?case by (cases e) (simp_all add: undisturbed_def)
qed simp

lemma running_tick:
  assumes run: "running_with t run older s" and go: "\<not> jnat (eb_idx s) \<ge> br_slices run"
  shows "running_with t run older (sendSlice run s) \<and> eb_idx (sendSlice run s) = eb_idx s + 1"
proof -
  obtain sent where s: "eb_orders s = older @ sent" "length sent = eb_idx s"
    "\<forall>o' \<in> set sent. bo_quantity o' = br_qty run \<and> bo_side o' = br_side run \<and> bo_symbol o' = br_symbol run"
    using run by (auto simp: running_with_def)
  let ?o = "\<lparr>bo_side = br_side run, bo_quantity = br_qty run, bo_symbol = br_symbol run,
      bo_limit = (if br_vwap run then Some (order_price run s) else None)\<rparr>"
  have "eb_orders (sendSlice run s) = older @ (sent @ [?o])" "eb_idx (sendSlice run s) = eb_idx s + 1"
    using go run s by (simp_all add: sendSlice_def Let_def running_with_def)
  then show ?thesis
    using run s send_fields [OF go] unfolding running_with_def by (intro conjI exI [of _ "sent @ [?o]"]) auto
qed

lemma running_completes:
  assumes "running_with t run older s" "br_slices run = jnat n" "eb_idx s \<le> n" "list_all (undisturbed t) es"
    "n + 1 \<le> eb_idx s + ticks es"
  shows "\<not> eb_running (bot_trace es s) \<and> (\<exists>sent. eb_orders (bot_trace es s) = older @ sent \<and> length sent = n \<and>
    (\<forall>o' \<in> set sent. bo_quantity o' = br_qty run \<and> bo_side o' = br_side run \<and> bo_symbol o' = br_symbol run))"
  using assms
proof (induction es arbitrary: s)
  case Nil
  then show ?case by (simp add: ticks_def)
next
  case (Cons e es)
  show ?case
  proof (cases "\<exists>i. e = Timer_Fires i")
    case True
    then have e: "e = Timer_Fires t" using Cons.prems(4) by (auto simp: undisturbed_def)
    then have step: "bot_step e s = sendSlice run s" using Cons.prems(1) by (simp add: running_with_def)
    show ?thesis
    proof (cases "eb_idx s = n")
      case True
      then have stop: "jnat (eb_idx s) \<ge> br_slices run" using Cons.prems(2) by simp
      have s': "eb_timers (bot_step e s) = []" "\<not> eb_running (bot_step e s)" "eb_orders (bot_step e s) = eb_orders s"
        using stop_timer [of s t run] Cons.prems(1) unfolding step send_stops [OF stop] by (simp_all add: running_with_def)
      have "eb_orders (bot_trace es (bot_step e s)) = eb_orders s \<and> \<not> eb_running (bot_trace es (bot_step e s))"
        using stopped_stays [OF s'(1,2), of t es] s'(3) Cons.prems(4) by simp
      then show ?thesis using Cons.prems(1) True by (auto simp: bot_trace_def running_with_def)
    next
      case False
      then have go: "\<not> jnat (eb_idx s) \<ge> br_slices run" using Cons.prems(2,3) by simp
      have "running_with t run older (bot_step e s)" "eb_idx (bot_step e s) = eb_idx s + 1"
        using running_tick [OF Cons.prems(1) go] by (simp_all add: step)
      moreover have "ticks (e # es) = ticks es + 1" by (simp add: e ticks_def)
      ultimately show ?thesis
        using Cons.IH [of "bot_step e s"] Cons.prems False by (simp add: bot_trace_def)
    qed
  next
    case False
    then have "running_with t run older (bot_step e s)" "eb_idx (bot_step e s) = eb_idx s" "ticks (e # es) = ticks es"
      using Cons.prems(1,4) by (cases e; simp add: undisturbed_def running_with_def ticks_def)+
    then show ?thesis using Cons.IH [of "bot_step e s"] Cons.prems by (simp add: bot_trace_def)
  qed
qed

text \<open>
  C28: the bot completes. A run of \<open>n\<close> slices that is started and left alone, whatever the price does and whichever strategy and
  side are clicked meanwhile, has stopped after \<open>n\<close> ticks of its timer and has submitted exactly \<open>n\<close> further orders, all for the
  side of the start and each for the total divided by \<open>n\<close>; later ticks send nothing.
\<close>

theorem execution_completes:
  assumes "list_all whole_slices before" and s: "s = bot_trace before (initial_bot price online submit symbol)"
    and start: "\<not> eb_running s" "eb_connected s" "eb_submit s" and n: "eb_slices s = jnat n"
    and es: "list_all (undisturbed (eb_next_timer s)) es" "n \<le> ticks es"
  shows "\<exists>sent. eb_orders (bot_trace (Press_Start # es) s) = eb_orders s @ sent \<and> length sent = n \<and>
    list_all (\<lambda>o'. bo_quantity o' = eb_totalQty s / jnat n \<and> bo_side o' = eb_side s \<and> bo_symbol o' = eb_symbol s) sent \<and>
    \<not> eb_running (bot_trace (Press_Start # es) s)"
proof -
  have inv: "bot_inv s" unfolding s using assms(1) bot_inv_initial by (rule bot_invariant)
  define s' where "s' = startExecution s"
  define run where "run = current_run s"
  have n1: "1 \<le> n" using inv n by (auto simp: bot_inv_def)
  note st = start_runs [OF inv start, folded s'_def run_def]
  have orders: "eb_orders s' = eb_orders s @ [\<lparr>bo_side = br_side run, bo_quantity = br_qty run, bo_symbol = br_symbol run,
      bo_limit = (if br_vwap run then Some (eb_price s) else None)\<rparr>]"
    using n n1 start
    by (simp add: s'_def startExecution_def Let_def sendSlice_def run_def current_run_def order_price_def)
  have "running_with (eb_next_timer s) run (eb_orders s) s'"
    using st orders start by (auto simp: running_with_def run_def current_run_def)
  moreover have "br_slices run = jnat n" using n by (simp add: run_def current_run_def)
  ultimately have "\<not> eb_running (bot_trace es s') \<and> (\<exists>sent. eb_orders (bot_trace es s') = eb_orders s @ sent \<and> length sent = n \<and>
    (\<forall>o' \<in> set sent. bo_quantity o' = br_qty run \<and> bo_side o' = br_side run \<and> bo_symbol o' = br_symbol run))"
    using running_completes [of "eb_next_timer s" run "eb_orders s" s' n es] st(4) n1 es by simp
  moreover have "bot_trace (Press_Start # es) s = bot_trace es s'" using start by (simp add: bot_trace_def s'_def)
  moreover have "br_qty run = eb_totalQty s / jnat n" using n n1 by (simp add: run_def current_run_def sliceQty_def zero_jsnum_def)
  moreover have "br_side run = eb_side s" "br_symbol run = eb_symbol s" by (simp_all add: run_def current_run_def)
  ultimately show ?thesis by (auto simp: list_all_iff)
qed

theorem execution_completes_witness:
  "\<exists>sent. eb_orders (bot_trace (Press_Start # [Timer_Fires 1, Price_Moves 101, Set_Side ''SELL'', Timer_Fires 1])
      (bot_trace [Set_Slices (jnat 2)] (initial_bot 100 True True ''BTC''))) = sent \<and> length sent = 2 \<and>
    list_all (\<lambda>o'. bo_quantity o' = 1 / jnat 2 \<and> bo_side o' = ''BUY'' \<and> bo_symbol o' = ''BTC'') sent"
proof -
  let ?s = "bot_trace [Set_Slices (jnat 2)] (initial_bot 100 True True ''BTC'')"
  have "list_all whole_slices [Set_Slices (jnat 2)]" by (auto simp: whole_slices_def)
  moreover have "\<not> eb_running ?s" "eb_connected ?s" "eb_submit ?s" "eb_slices ?s = jnat 2" "eb_orders ?s = []"
    "eb_totalQty ?s = 1" "eb_side ?s = ''BUY''" "eb_symbol ?s = ''BTC''" "eb_next_timer ?s = 1"
    by (simp_all add: bot_trace_def initial_bot_def)
  moreover have "list_all (undisturbed 1) [Timer_Fires 1, Price_Moves 101, Set_Side ''SELL'', Timer_Fires 1]"
    "2 \<le> ticks [Timer_Fires 1, Price_Moves 101, Set_Side ''SELL'', Timer_Fires 1]"
    by (simp_all add: undisturbed_def ticks_def)
  ultimately show ?thesis
    using execution_completes [of "[Set_Slices (jnat 2)]" ?s 100 True True "''BTC''" 2
        "[Timer_Fires 1, Price_Moves 101, Set_Side ''SELL'', Timer_Fires 1]"] by auto
qed

section \<open>Slice counts the input allows\<close>

text \<open>A fractional number of slices sends more than the total: 2.5 slices of 1 are three orders of 0.4.\<close>

lemma fractional_slices_oversend:
  "map bo_quantity (eb_orders (bot_trace [Set_Slices (Fin (5 / 2)), Press_Start, Timer_Fires 1, Timer_Fires 1, Timer_Fires 1]
      (initial_bot 100 True True ''BTC''))) = [Fin (2 / 5), Fin (2 / 5), Fin (2 / 5)]"
  by (simp add: bot_trace_def initial_bot_def startExecution_def sendSlice_def stopExecution_def current_run_def sliceQty_def
      slice_last_def Let_def)

text \<open>
  With an empty slice field (0) a start stops at once and sets its timer afterwards. When the field is then filled and a run
  started, the reference is overwritten, and the timer left over stops the run at its next tick, and itself never goes away.
\<close>

lemma leftover_timer_stops_run:
  "let s = bot_trace [Set_Slices 0, Press_Start, Set_Slices 10, Press_Start, Timer_Fires 1] (initial_bot 100 True True ''BTC'')
   in map fst (eb_timers s) = [1] \<and> eb_interval s = None \<and> \<not> eb_running s \<and> length (eb_orders s) = 1"
  by (simp add: bot_trace_def initial_bot_def startExecution_def sendSlice_def stopExecution_def current_run_def sliceQty_def
      order_price_def Let_def)

text \<open>
  The price is that of the symbol on display, the symbol of the orders that of the start: after the display has changed to another
  symbol, a VWAP run sends limit orders on the first symbol at an average of both prices.
\<close>

lemma vwap_mixes_symbols:
  "map (\<lambda>o'. (bo_symbol o', bo_limit o')) (eb_orders (bot_trace
     [Set_Strategy True, Press_Start, New_Props True True ''ETH'', Price_Moves 10, Timer_Fires 1, Timer_Fires 1]
     (initial_bot 100 True True ''BTC''))) = [(''BTC'', Some 100), (''BTC'', Some 100), (''BTC'', Some (Fin 55))]"
  by (simp add: bot_trace_def initial_bot_def startExecution_def sendSlice_def current_run_def sliceQty_def order_price_def
      slice_last_def Let_def)

end
