(* ===== verification/Options.thy ===== *)
theory Options
  imports Copula
begin

text \<open>
  The option panels: \<open>components/OptionsPricing.jsx\<close> and \<open>GreeksCalculator.jsx\<close> (Black-Scholes prices and Greeks) and
  \<open>OptionsStrategies.jsx\<close> (premium, extremes, break-even prices and payoff of four strategies). Forms and drawings are left out.
\<close>

section \<open>Black-Scholes\<close>

definition bs_d1 :: "jsnum \<Rightarrow> jsnum \<Rightarrow> jsnum \<Rightarrow> jsnum \<Rightarrow> jsnum \<Rightarrow> jsnum" where
  "bs_d1 S K T sigma r = (jlog (S / K) + (r + Fin 0.5 * sigma ^ 2) * T) / (sigma * jsqrt T)"

definition bs_d2 :: "jsnum \<Rightarrow> jsnum \<Rightarrow> jsnum \<Rightarrow> jsnum" where
  "bs_d2 d1 T sigma = d1 - sigma * jsqrt T"

definition bs_cdf :: "jsnum \<Rightarrow> jsnum" where
  "bs_cdf x = Fin 0.5 * (1 + copula_erf (x / jsqrt 2))"

definition bs_pdf :: "jsnum \<Rightarrow> jsnum" where
  "bs_pdf x = jexp (- Fin 0.5 * x ^ 2) / jsqrt (2 * Fin pi)"

record bs_params =
  bp_S :: jsnum
  bp_K :: jsnum
  bp_T :: jsnum
  bp_sigma :: jsnum
  bp_r :: jsnum

record greeks =
  gk_price :: jsnum
  gk_delta :: jsnum
  gk_gamma :: jsnum
  gk_theta :: jsnum
  gk_vega :: jsnum
  gk_rho :: jsnum

definition option_results :: "bs_params \<Rightarrow> bool \<Rightarrow> greeks" where
  \<comment> \<open>the panel's result; the flag says call\<close>
  "option_results p is_call =
     (let S = bp_S p; K = bp_K p; T = bp_T p; sigma = bp_sigma p; r = bp_r p;
          d1 = bs_d1 S K T sigma r;
          d2 = bs_d2 d1 T sigma;
          price = (if is_call then S * bs_cdf d1 - K * jexp (- r * T) * bs_cdf d2
                   else K * jexp (- r * T) * bs_cdf (- d2) - S * bs_cdf (- d1));
          decay = - (S * bs_pdf d1 * sigma) / (2 * jsqrt T)
      in \<lparr>gk_price = jmax 0 price,
          gk_delta = (if is_call then bs_cdf d1 else bs_cdf d1 - 1),
          gk_gamma = bs_pdf d1 / (S * sigma * jsqrt T),
          gk_theta = (if is_call then (decay - r * K * jexp (- r * T) * bs_cdf d2) / 365
                      else (decay + r * K * jexp (- r * T) * bs_cdf (- d2)) / 365),
          gk_vega = S * bs_pdf d1 * jsqrt T / 100,
          gk_rho = (if is_call then K * T * jexp (- r * T) * bs_cdf d2 / 100
                    else - K * T * jexp (- r * T) * bs_cdf (- d2) / 100)\<rparr>)"

section \<open>The Greeks calculator\<close>

definition greeks_normCDF :: "jsnum \<Rightarrow> jsnum" where
  "greeks_normCDF x0 =
     (let sign = (if x0 < 0 then - 1 else 1);
          x = \<bar>x0\<bar> / jsqrt 2;
          t = 1 / (1 + Fin 0.3275911 * x);
          y = 1 - horner (map Fin [1.061405429, -1.453152027, 1.421413741, -0.284496736, 0.254829592]) t * t * jexp (- x * x)
      in Fin 0.5 * (1 + sign * y))"

definition greeks_normPDF :: "jsnum \<Rightarrow> jsnum" where
  "greeks_normPDF x = jexp (- x * x / 2) / jsqrt (2 * Fin pi)"

definition greeks_d1 :: "jsnum \<Rightarrow> jsnum \<Rightarrow> jsnum \<Rightarrow> jsnum \<Rightarrow> jsnum \<Rightarrow> jsnum" where
  "greeks_d1 S K T r sigma = (jlog (S / K) + (r + sigma * sigma / 2) * T) / (sigma * jsqrt T)"

definition calcGreeks :: "jsnum \<Rightarrow> jsnum \<Rightarrow> jsnum \<Rightarrow> jsnum \<Rightarrow> jsnum \<Rightarrow> bool \<Rightarrow> greeks" where
  "calcGreeks S K T r sigma is_call =
     (if T \<le> 0 \<or> sigma \<le> 0 \<or> S \<le> 0 \<or> K \<le> 0
      then \<lparr>gk_price = 0, gk_delta = 0, gk_gamma = 0, gk_theta = 0, gk_vega = 0, gk_rho = 0\<rparr>
      else
        let d1 = greeks_d1 S K T r sigma;
            d2 = d1 - sigma * jsqrt T;
            decay = - S * greeks_normPDF d1 * sigma / (2 * jsqrt T)
        in \<lparr>gk_price = (if is_call then S * greeks_normCDF d1 - K * jexp (- r * T) * greeks_normCDF d2
                        else K * jexp (- r * T) * greeks_normCDF (- d2) - S * greeks_normCDF (- d1)),
            gk_delta = (if is_call then greeks_normCDF d1 else greeks_normCDF d1 - 1),
            gk_gamma = greeks_normPDF d1 / (S * sigma * jsqrt T),
            gk_theta = (if is_call then (decay - r * K * jexp (- r * T) * greeks_normCDF d2) / 365
                        else (decay + r * K * jexp (- r * T) * greeks_normCDF (- d2)) / 365),
            gk_vega = S * greeks_normPDF d1 * jsqrt T / 100,
            gk_rho = (if is_call then K * T * jexp (- r * T) * greeks_normCDF d2 / 100
                      else - K * T * jexp (- r * T) * greeks_normCDF (- d2) / 100)\<rparr>)"

definition greeks_panel :: "jsnum \<Rightarrow> bool \<Rightarrow> jsnum \<Rightarrow> jsnum \<Rightarrow> jsnum \<Rightarrow> jsnum \<Rightarrow> greeks" where
  "greeks_panel currentPrice is_call strike daysToExpiry volatility riskFreeRate =
     calcGreeks (jor currentPrice strike) strike (daysToExpiry / 365) (riskFreeRate / 100) (volatility / 100) is_call"

section \<open>Strategies\<close>

text \<open>
  \<open>for (let price = a; price <= b; price += 1)\<close>: the prices it visits. With an infinite bound the loop never ends: \<open>None\<close>.
\<close>

function price_steps :: "real \<Rightarrow> real \<Rightarrow> real list" where
  "price_steps a b = (if a \<le> b then a # price_steps (a + 1) b else [])"
  by auto

termination price_steps
  by (relation "measure (\<lambda>(a, b). nat \<lfloor>b - a + 1\<rfloor>)") (auto simp: nat_less_iff, linarith)

declare price_steps.simps [simp del]

definition price_grid :: "jsnum \<Rightarrow> jsnum \<Rightarrow> jsnum list option" where
  "price_grid a b =
     (case (a, b) of (Fin x, Fin y) \<Rightarrow> Some (map Fin (price_steps x y)) | _ \<Rightarrow> if a \<le> b then None else Some [])"

record strategy_params =
  sp_S :: jsnum
  sp_K :: jsnum
  sp_K_call :: jsnum
  sp_K_put :: jsnum
  sp_K_call_high :: jsnum
  sp_K_call_low :: jsnum
  sp_K_put_high :: jsnum
  sp_K_put_low :: jsnum
  sp_K_low :: jsnum
  sp_K_middle :: jsnum
  sp_K_high :: jsnum
  sp_T :: jsnum
  sp_sigma :: jsnum
  sp_r :: jsnum

datatype strategy = Straddle | Strangle | Iron_Condor | Butterfly

definition strategy_d1 :: "strategy_params \<Rightarrow> jsnum \<Rightarrow> jsnum" where
  "strategy_d1 p K =
     (jlog (sp_S p / K) + (sp_r p + Fin 0.5 * sp_sigma p ^ 2) * sp_T p) / (sp_sigma p * jsqrt (sp_T p))"

definition strategy_d2 :: "strategy_params \<Rightarrow> jsnum \<Rightarrow> jsnum" where
  "strategy_d2 p K = strategy_d1 p K - sp_sigma p * jsqrt (sp_T p)"

definition callPrice :: "strategy_params \<Rightarrow> jsnum \<Rightarrow> jsnum" where
  "callPrice p K = sp_S p * bs_cdf (strategy_d1 p K) - K * jexp (- sp_r p * sp_T p) * bs_cdf (strategy_d2 p K)"

definition putPrice :: "strategy_params \<Rightarrow> jsnum \<Rightarrow> jsnum" where
  "putPrice p K = K * jexp (- sp_r p * sp_T p) * bs_cdf (- strategy_d2 p K) - sp_S p * bs_cdf (- strategy_d1 p K)"

record strategy_result =
  sr_maxProfit :: jsnum
  sr_maxLoss :: jsnum
  sr_breakEvens :: "jsnum list"
  sr_payoff :: "(jsnum \<times> jsnum) list option"

definition payoffs :: "(jsnum \<Rightarrow> jsnum) \<Rightarrow> jsnum \<Rightarrow> jsnum \<Rightarrow> (jsnum \<times> jsnum) list option" where
  "payoffs f a b = map_option (map (\<lambda>price. (price, f price))) (price_grid a b)"

text \<open>A straddle is the strangle of two equal strikes but for the prices it visits.\<close>

definition strangle_payoff :: "jsnum \<Rightarrow> jsnum \<Rightarrow> jsnum \<Rightarrow> jsnum \<Rightarrow> jsnum \<Rightarrow> jsnum" where
  "strangle_payoff position K_call K_put totalPremium price =
     position * jmax 0 (price - K_call) + position * jmax 0 (K_put - price) - totalPremium"

definition straddle_result :: "strategy_params \<Rightarrow> bool \<Rightarrow> strategy_result" where
  "straddle_result p long =
     (let K = sp_K p; position = (if long then 1 else - 1);
          totalPremium = position * (callPrice p K + putPrice p K)
      in \<lparr>sr_maxProfit = (if long then PInf else totalPremium),
          sr_maxLoss = (if long then - totalPremium else PInf),
          sr_breakEvens = [K - totalPremium, K + totalPremium],
          sr_payoff = payoffs (strangle_payoff position K K totalPremium) (K * Fin 0.5) (K * Fin 1.5)\<rparr>)"

definition strangle_result :: "strategy_params \<Rightarrow> bool \<Rightarrow> strategy_result" where
  "strangle_result p long =
     (let position = (if long then 1 else - 1);
          totalPremium = position * (callPrice p (sp_K_call p) + putPrice p (sp_K_put p))
      in \<lparr>sr_maxProfit = (if long then PInf else totalPremium),
          sr_maxLoss = (if long then - totalPremium else PInf),
          sr_breakEvens = [sp_K_put p - totalPremium, sp_K_call p + totalPremium],
          sr_payoff = payoffs (strangle_payoff position (sp_K_call p) (sp_K_put p) totalPremium)
            (jmin (sp_K_put p) (sp_K_call p) * Fin 0.5) (jmax (sp_K_put p) (sp_K_call p) * Fin 1.5)\<rparr>)"

definition condor_payoff :: "strategy_params \<Rightarrow> jsnum \<Rightarrow> jsnum \<Rightarrow> jsnum" where
  "condor_payoff p netPremium price =
     (jmax 0 (sp_K_put_low p - price) - jmax 0 (sp_K_put_high p - price)) +
     (jmax 0 (price - sp_K_call_high p) - jmax 0 (price - sp_K_call_low p)) + netPremium"

definition condor_result :: "strategy_params \<Rightarrow> strategy_result" where
  "condor_result p =
     (let netPremium = (putPrice p (sp_K_put_high p) - putPrice p (sp_K_put_low p)) +
            (callPrice p (sp_K_call_low p) - callPrice p (sp_K_call_high p));
          putSpreadWidth = sp_K_put_high p - sp_K_put_low p;
          callSpreadWidth = sp_K_call_high p - sp_K_call_low p
      in \<lparr>sr_maxProfit = netPremium,
          sr_maxLoss = - jmax putSpreadWidth callSpreadWidth + netPremium,
          sr_breakEvens = [sp_K_put_high p - netPremium, sp_K_call_low p + netPremium],
          sr_payoff = payoffs (condor_payoff p netPremium)
            (jmin (sp_K_put_low p) (sp_K_put_high p) * Fin 0.5) (jmax (sp_K_call_high p) (sp_K_call_low p) * Fin 1.5)\<rparr>)"

definition butterfly_payoff :: "strategy_params \<Rightarrow> bool \<Rightarrow> jsnum \<Rightarrow> jsnum \<Rightarrow> jsnum" where
  "butterfly_payoff p long netPremium price =
     (if long
      then jmax 0 (price - sp_K_low p) - 2 * jmax 0 (price - sp_K_middle p) + jmax 0 (price - sp_K_high p) - netPremium
      else - jmax 0 (price - sp_K_low p) + 2 * jmax 0 (price - sp_K_middle p) - jmax 0 (price - sp_K_high p) - netPremium)"

definition butterfly_result :: "strategy_params \<Rightarrow> bool \<Rightarrow> strategy_result" where
  "butterfly_result p long =
     (let cl = callPrice p (sp_K_low p); cm = callPrice p (sp_K_middle p); ch = callPrice p (sp_K_high p);
          netPremium = (if long then cl - 2 * cm + ch else - cl + 2 * cm - ch)
      in \<lparr>sr_maxProfit = (if long then sp_K_middle p - sp_K_low p - netPremium else - netPremium),
          sr_maxLoss = (if long then - netPremium else - (sp_K_middle p - sp_K_low p) - netPremium),
          sr_breakEvens = (if long then [sp_K_low p + netPremium, sp_K_high p - netPremium]
                           else [sp_K_low p - netPremium, sp_K_high p + netPremium]),
          sr_payoff = payoffs (butterfly_payoff p long netPremium) (sp_K_low p * Fin 0.5) (sp_K_high p * Fin 1.5)\<rparr>)"

definition strategy_results :: "strategy \<Rightarrow> strategy_params \<Rightarrow> bool \<Rightarrow> strategy_result" where
  "strategy_results s p long =
     (case s of Straddle \<Rightarrow> straddle_result p long | Strangle \<Rightarrow> strangle_result p long
      | Iron_Condor \<Rightarrow> condor_result p | Butterfly \<Rightarrow> butterfly_result p long)"

end
