(* ===== verification/OptionLaws.thy ===== *)
theory OptionLaws
  imports Options CopulaLaws
begin

text \<open>
  Laws of the option panels: put-call parity of the Greeks, and the extremes and break-even prices of the strategies against
  their payoffs, with two cases where the panel reports a wrong extreme.
\<close>

section \<open>Put-call parity\<close>

text \<open>The distribution function of the calculator is symmetric but at 0.\<close>

lemma greeks_normCDF_magnitude:
  obtains y where "\<And>s. \<bar>s\<bar> = \<bar>x\<bar> \<Longrightarrow> greeks_normCDF (Fin s) = Fin (1 / 2 * (1 + (if s < 0 then - 1 else 1) * y))"
proof -
  define X where "X = \<bar>x\<bar> / sqrt 2"
  have "0 \<le> X" by (simp add: X_def)
  then have "1 + 0.3275911 * X \<noteq> 0" by simp
  then have t: "1 / (1 + Fin 0.3275911 * Fin X) = Fin (1 / (1 + 0.3275911 * X))" by (simp add: one_jsnum_def)
  define t where "t = 1 / (1 + 0.3275911 * X)"
  have "\<exists>y. 1 - horner (map Fin [1.061405429, -1.453152027, 1.421413741, -0.284496736, 0.254829592]) (Fin t) * Fin t *
      jexp (- Fin X * Fin X) = Fin y"
    by (simp add: horner_def one_jsnum_def)
  then obtain y where y: "1 - horner (map Fin [1.061405429, -1.453152027, 1.421413741, -0.284496736, 0.254829592]) (Fin t) * Fin t *
      jexp (- Fin X * Fin X) = Fin y" by blast
  have "greeks_normCDF (Fin s) = Fin (1 / 2 * (1 + (if s < 0 then - 1 else 1) * y))" if "\<bar>s\<bar> = \<bar>x\<bar>" for s
  proof -
    have "\<bar>Fin s\<bar> / jsqrt 2 = Fin X" using that by (simp add: X_def)
    then show ?thesis
      unfolding greeks_normCDF_def Let_def
      by (simp only: t t_def [symmetric] y) (simp add: one_jsnum_def zero_jsnum_def)
  qed
  then show ?thesis using that by blast
qed

lemma greeks_normCDF_symmetric:
  assumes "x \<noteq> 0"
  obtains v where "greeks_normCDF (Fin x) = Fin v" "greeks_normCDF (Fin (- x)) = Fin (1 - v)"
proof -
  obtain y where y: "\<And>s. \<bar>s\<bar> = \<bar>x\<bar> \<Longrightarrow> greeks_normCDF (Fin s) = Fin (1 / 2 * (1 + (if s < 0 then - 1 else 1) * y))"
    using greeks_normCDF_magnitude [of x] by blast
  let ?v = "1 / 2 * (1 + (if x < 0 then - 1 else 1) * y)"
  have "greeks_normCDF (Fin x) = Fin ?v" "greeks_normCDF (Fin (- x)) = Fin (1 - ?v)"
    using y [of x] y [of "- x"] assms by (auto simp: field_simps)
  then show ?thesis using that by blast
qed

text \<open>
  the calculator's Greeks of a call and a put on the same option satisfy put-call parity exactly, although the normal
  distribution is only approximated: the prices differ by the price less the discounted strike, the deltas by 1, the thetas and
  rhos by the derivatives of that difference, and gamma and vega agree. Excluded is a \<open>d1\<close> or \<open>d2\<close> of exactly 0, where the
  approximation is not symmetric.
\<close>

theorem put_call_parity:
  fixes S K T r \<sigma> :: real
  defines "C \<equiv> calcGreeks (Fin S) (Fin K) (Fin T) (Fin r) (Fin \<sigma>) True"
    and "P \<equiv> calcGreeks (Fin S) (Fin K) (Fin T) (Fin r) (Fin \<sigma>) False"
  assumes pos: "0 < S" "0 < K" "0 < T" "0 < \<sigma>"
    and d: "ln (S / K) + (r + \<sigma> * \<sigma> / 2) * T \<noteq> 0" "ln (S / K) + (r - \<sigma> * \<sigma> / 2) * T \<noteq> 0"
  shows "gk_price C - gk_price P = Fin (S - K * exp (- r * T)) \<and> gk_delta C - gk_delta P = 1 \<and>
    gk_gamma C = gk_gamma P \<and> gk_vega C = gk_vega P \<and>
    gk_theta C - gk_theta P = Fin (- r * K * exp (- r * T) / 365) \<and>
    gk_rho C - gk_rho P = Fin (K * T * exp (- r * T) / 100)"
proof -
  define d1 where "d1 = (ln (S / K) + (r + \<sigma> * \<sigma> / 2) * T) / (\<sigma> * sqrt T)"
  define d2 where "d2 = d1 - \<sigma> * sqrt T"
  have T: "0 < sqrt T" using pos by simp
  have "d2 * (\<sigma> * sqrt T) = ln (S / K) + (r - \<sigma> * \<sigma> / 2) * T"
  proof -
    have "d1 * (\<sigma> * sqrt T) = ln (S / K) + (r + \<sigma> * \<sigma> / 2) * T" using pos T by (simp add: d1_def)
    moreover have "(\<sigma> * sqrt T) * (\<sigma> * sqrt T) = \<sigma> * \<sigma> * T"
    proof -
      have "(\<sigma> * sqrt T) * (\<sigma> * sqrt T) = \<sigma> * \<sigma> * (sqrt T * sqrt T)" by (simp only: ac_simps)
      also have "sqrt T * sqrt T = T" using pos by simp
      finally show ?thesis .
    qed
    ultimately show ?thesis unfolding d2_def left_diff_distrib using pos by (simp add: algebra_simps)
  qed
  then have nz: "d1 \<noteq> 0" "d2 \<noteq> 0" using d pos T by (auto simp: d1_def)
  obtain v1 where v1: "greeks_normCDF (Fin d1) = Fin v1" "greeks_normCDF (Fin (- d1)) = Fin (1 - v1)"
    using greeks_normCDF_symmetric [OF nz(1)] by blast
  obtain v2 where v2: "greeks_normCDF (Fin d2) = Fin v2" "greeks_normCDF (Fin (- d2)) = Fin (1 - v2)"
    using greeks_normCDF_symmetric [OF nz(2)] by blast
  have "0 < S / K" using pos by simp
  moreover from this have "\<not> S / K < 0" by linarith
  ultimately have e1: "greeks_d1 (Fin S) (Fin K) (Fin T) (Fin r) (Fin \<sigma>) = Fin d1"
    using pos T by (auto simp: greeks_d1_def d1_def)
  have e2: "Fin d1 - Fin \<sigma> * Fin (sqrt T) = Fin d2" "- Fin d2 = Fin (- d2)" "- Fin d1 = Fin (- d1)"
    "jsqrt (Fin T) = Fin (sqrt T)" "jexp (- Fin r * Fin T) = Fin (exp (- r * T))"
    using pos by (simp_all add: d2_def)
  have pdf: "\<exists>q. greeks_normPDF (Fin d1) = Fin q" by (simp add: greeks_normPDF_def)
  then obtain q where q: "greeks_normPDF (Fin d1) = Fin q" by blast
  have guard: "\<not> (Fin T \<le> 0 \<or> Fin \<sigma> \<le> 0 \<or> Fin S \<le> 0 \<or> Fin K \<le> 0)" using pos by (simp add: zero_jsnum_def)
  note eval = calcGreeks_def if_not_P [OF guard] Let_def e1 e2 q v1 v2
  show ?thesis
    unfolding C_def P_def eval if_True if_False greeks.simps
    using pos T by (simp add: one_jsnum_def field_simps)
qed

theorem put_call_parity_witness:
  "gk_price (calcGreeks (Fin 100) (Fin 100) (Fin 1) (Fin 1) (Fin 1) True) -
   gk_price (calcGreeks (Fin 100) (Fin 100) (Fin 1) (Fin 1) (Fin 1) False) = Fin (100 - 100 * exp (- 1))"
  using put_call_parity [of 100 100 1 1 1] by simp

section \<open>Strategies\<close>

lemma payoffs_Fin:
  "payoffs f (Fin a) (Fin b) = Some (map (\<lambda>x. (Fin x, f (Fin x))) (price_steps a b))"
  by (simp add: payoffs_def price_grid_def comp_def)

text \<open>The prices of a finite grid run from the lower bound in steps of 1 to the last one within the upper bound.\<close>

lemma price_steps_range: "x \<in> set (price_steps a b) \<Longrightarrow> a \<le> x \<and> x \<le> b"
proof (induction a b rule: price_steps.induct)
  case (1 a b)
  then show ?case by (subst (asm) (2) price_steps.simps) (auto split: if_splits)
qed

definition condor_value :: "real \<Rightarrow> real \<Rightarrow> real \<Rightarrow> real \<Rightarrow> real \<Rightarrow> real \<Rightarrow> real" where
  "condor_value pl ph cl ch net x = (max 0 (pl - x) - max 0 (ph - x)) + (max 0 (x - ch) - max 0 (x - cl)) + net"

lemma condor_value_bounds:
  assumes "pl \<le> ph" "ph \<le> cl" "cl \<le> ch"
  shows "net - max (ph - pl) (ch - cl) \<le> condor_value pl ph cl ch net x" "condor_value pl ph cl ch net x \<le> net"
  using assms by (auto simp: condor_value_def max_def)

text \<open>
  the extremes the panel reports for an iron condor are right. With the four strikes in order, the payoff at every
  price of the chart lies between the reported loss and the reported profit, which is the net premium, and a premium within
  the width of the spreads breaks even exactly at the two reported prices.
\<close>

theorem iron_condor_extremes:
  assumes K: "sp_K_put_low p = Fin pl" "sp_K_put_high p = Fin ph" "sp_K_call_low p = Fin cl" "sp_K_call_high p = Fin ch"
    and order: "pl \<le> ph" "ph \<le> cl" "cl \<le> ch"
    and net: "sr_maxProfit (strategy_results Iron_Condor p long) = Fin net"
  shows "\<exists>rows. sr_payoff (strategy_results Iron_Condor p long) = Some rows \<and>
    list_all (\<lambda>(x, y). \<exists>v. y = Fin v \<and> net - max (ph - pl) (ch - cl) \<le> v \<and> v \<le> net) rows \<and>
    sr_maxLoss (strategy_results Iron_Condor p long) = Fin (net - max (ph - pl) (ch - cl)) \<and>
    sr_breakEvens (strategy_results Iron_Condor p long) = [Fin (ph - net), Fin (cl + net)] \<and>
    (0 \<le> net \<and> net \<le> min (ph - pl) (ch - cl) \<longrightarrow>
       condor_payoff p (Fin net) (Fin (ph - net)) = 0 \<and> condor_payoff p (Fin net) (Fin (cl + net)) = 0)"
proof -
  define prem where "prem = (putPrice p (Fin ph) - putPrice p (Fin pl)) + (callPrice p (Fin cl) - callPrice p (Fin ch))"
  have prem: "prem = Fin net" using net by (simp add: strategy_results_def condor_result_def Let_def K prem_def)
  have payoff: "condor_payoff p (Fin net) (Fin x) = Fin (condor_value pl ph cl ch net x)" for x
    by (simp add: condor_payoff_def condor_value_def K zero_jsnum_def)
  have res: "strategy_results Iron_Condor p long =
      \<lparr>sr_maxProfit = Fin net, sr_maxLoss = - jmax (Fin ph - Fin pl) (Fin ch - Fin cl) + Fin net,
       sr_breakEvens = [Fin ph - Fin net, Fin cl + Fin net],
       sr_payoff = payoffs (condor_payoff p (Fin net)) (jmin (Fin pl) (Fin ph) * Fin 0.5) (jmax (Fin ch) (Fin cl) * Fin 1.5)\<rparr>"
    unfolding strategy_results_def condor_result_def strategy.case Let_def K prem_def [symmetric] prem ..
  show ?thesis
    using condor_value_bounds [OF order] order
    by (simp add: res payoffs_Fin payoff list_all_iff zero_jsnum_def) (auto simp: condor_value_def max_def min_def)
qed

text \<open>Premiums of positive parameters are numbers.\<close>

lemma premium_finite:
  assumes "sp_S p = Fin S" "sp_T p = Fin T" "sp_sigma p = Fin \<sigma>" "sp_r p = Fin r" "0 < S" "0 < T" "0 < \<sigma>" "0 < K"
  shows "\<exists>c. callPrice p (Fin K) = Fin c" "\<exists>c. putPrice p (Fin K) = Fin c"
proof -
  have cdf: "\<exists>v. bs_cdf (Fin x) = Fin v" for x using normCDF_finite [of x] by (simp add: bs_cdf_def normCDF_def)
  have "0 < S / K" "0 < sqrt T" using assms by simp_all
  moreover from this have "\<not> S / K < 0" by linarith
  ultimately have "\<exists>d. strategy_d1 p (Fin K) = Fin d" using assms by (auto simp: strategy_d1_def)
  then obtain d where d: "strategy_d1 p (Fin K) = Fin d" by blast
  then have d2: "strategy_d2 p (Fin K) = Fin (d - \<sigma> * sqrt T)" using assms by (simp add: strategy_d2_def)
  obtain v1 v2 v3 v4 where "bs_cdf (Fin d) = Fin v1" "bs_cdf (Fin (d - \<sigma> * sqrt T)) = Fin v2"
    "bs_cdf (Fin (- d)) = Fin v3" "bs_cdf (Fin (- (d - \<sigma> * sqrt T))) = Fin v4" using cdf by metis
  then show "\<exists>c. callPrice p (Fin K) = Fin c" "\<exists>c. putPrice p (Fin K) = Fin c"
    using assms d d2 by (simp_all add: callPrice_def putPrice_def)
qed

text \<open>The initial parameters of the panel.\<close>

definition initial_params :: strategy_params where
  "initial_params = \<lparr>sp_S = 100, sp_K = 100, sp_K_call = 105, sp_K_put = 95, sp_K_call_high = 110, sp_K_call_low = 105,
     sp_K_put_high = 95, sp_K_put_low = 90, sp_K_low = 90, sp_K_middle = 100, sp_K_high = 110,
     sp_T = Fin 0.25, sp_sigma = Fin 0.2, sp_r = Fin 0.05\<rparr>"

lemma initial_premiums:
  assumes "0 < K"
  obtains c q where "callPrice initial_params (Fin K) = Fin c" "putPrice initial_params (Fin K) = Fin q"
  using premium_finite [of initial_params 100 "1 / 4" "1 / 5" "1 / 20" K] assms by (auto simp: initial_params_def)

theorem iron_condor_extremes_witness:
  "\<exists>net rows. sr_payoff (strategy_results Iron_Condor initial_params True) = Some rows \<and>
    list_all (\<lambda>(x, y). \<exists>v. y = Fin v \<and> net - max (95 - 90) (110 - 105) \<le> v \<and> v \<le> net) rows \<and>
    sr_maxLoss (strategy_results Iron_Condor initial_params True) = Fin (net - max (95 - 90) (110 - 105))"
proof -
  obtain c1 q1 where 1: "callPrice initial_params (Fin 105) = Fin c1" "putPrice initial_params (Fin 105) = Fin q1"
    by (rule initial_premiums [of 105]) simp_all
  obtain c2 q2 where 2: "callPrice initial_params (Fin 110) = Fin c2" "putPrice initial_params (Fin 110) = Fin q2"
    by (rule initial_premiums [of 110]) simp_all
  obtain c3 q3 where 3: "callPrice initial_params (Fin 95) = Fin c3" "putPrice initial_params (Fin 95) = Fin q3"
    by (rule initial_premiums [of 95]) simp_all
  obtain c4 q4 where 4: "callPrice initial_params (Fin 90) = Fin c4" "putPrice initial_params (Fin 90) = Fin q4"
    by (rule initial_premiums [of 90]) simp_all
  have K: "sp_K_put_low initial_params = Fin 90" "sp_K_put_high initial_params = Fin 95"
    "sp_K_call_low initial_params = Fin 105" "sp_K_call_high initial_params = Fin 110"
    by (simp_all add: initial_params_def)
  have "sr_maxProfit (strategy_results Iron_Condor initial_params True) = Fin ((q3 - q4) + (c1 - c2))"
    by (simp add: strategy_results_def condor_result_def Let_def K 1 2 3 4)
  from iron_condor_extremes [OF K _ _ _ this] show ?thesis by auto
qed

section \<open>Straddles, strangles and butterflies\<close>

text \<open>A bought strangle loses at most its premium, which the panel reports, and breaks even at the two reported prices.\<close>

lemma long_strangle_extremes:
  assumes "kp \<le> kc" "0 \<le> prem"
  shows "\<exists>v. strangle_payoff 1 (Fin kc) (Fin kp) (Fin prem) (Fin x) = Fin v \<and> - prem \<le> v"
    and "strangle_payoff 1 (Fin kc) (Fin kp) (Fin prem) (Fin (kp - prem)) = 0"
    and "strangle_payoff 1 (Fin kc) (Fin kp) (Fin prem) (Fin (kc + prem)) = 0"
  using assms by (simp_all add: strangle_payoff_def one_jsnum_def zero_jsnum_def max_def)

text \<open>
  For a sold straddle the panel reports the negative of the greatest profit: the payoff at the strike is the premium received,
  the reported profit is minus that premium.
\<close>

theorem short_straddle_profit_negated:
  assumes "sp_K p = Fin K" "sr_maxProfit (strategy_results Straddle p False) = Fin m"
  shows "strangle_payoff (- 1) (Fin K) (Fin K) (Fin m) (Fin K) = Fin (- m) \<and>
    (\<forall>x. \<exists>v. strangle_payoff (- 1) (Fin K) (Fin K) (Fin m) (Fin x) = Fin v \<and> v \<le> - m)"
  by (auto simp: strangle_payoff_def one_jsnum_def zero_jsnum_def)

text \<open>
  A bought butterfly: with an upper wing no wider than the lower one its loss is at most the premium, as reported; with a wider
  upper wing the payoff above the highest strike falls below the reported loss.
\<close>

lemma long_butterfly_payoff:
  assumes "sp_K_low p = Fin kl" "sp_K_middle p = Fin km" "sp_K_high p = Fin kh"
  shows "butterfly_payoff p True (Fin net) (Fin x) = Fin (max 0 (x - kl) - 2 * max 0 (x - km) + max 0 (x - kh) - net)"
  using assms by (simp add: butterfly_payoff_def zero_jsnum_def)

lemma long_butterfly_extremes:
  assumes "sp_K_low p = Fin kl" "sp_K_middle p = Fin km" "sp_K_high p = Fin kh" "kl \<le> km" "km \<le> kh" "kh - km \<le> km - kl"
  shows "\<exists>v. butterfly_payoff p True (Fin net) (Fin x) = Fin v \<and> - net \<le> v \<and> v \<le> km - kl - net"
  using assms by (auto simp: long_butterfly_payoff max_def)

theorem wide_butterfly_exceeds_loss:
  assumes "sp_K_low p = Fin kl" "sp_K_middle p = Fin km" "sp_K_high p = Fin kh" "kl \<le> km" "km - kl < kh - km" "kh \<le> x"
    and "sr_maxLoss (strategy_results Butterfly p True) = Fin (- net)"
  shows "\<exists>v. butterfly_payoff p True (Fin net) (Fin x) = Fin v \<and> v < - net"
  using assms by (auto simp: long_butterfly_payoff max_def)

end
