(* ===== verification/OptimalExecution.thy ===== *)
theory OptimalExecution
  imports Copula Candles Regression
begin

text \<open>
  The Almgren-Chriss panel \<open>components/AlmgrenChriss.jsx\<close>: the schedule that trades market impact against timing risk, its
  comparison with equal slices (TWAP) and the efficient frontier. The number of steps is whole; drawing is left out. The laws:
  the schedule sells the whole order in positive slices, costs at least as much as TWAP and carries at most its risk.
\<close>

section \<open>The model\<close>

fun jsinh :: "jsnum \<Rightarrow> jsnum" where
  "jsinh (Fin x) = Fin (sinh x)"
| "jsinh x = x"

record ac_point =
  ac_t :: jsnum
  ac_x :: jsnum

record ac_trade =
  at_t :: jsnum
  at_amount :: jsnum
  at_rate :: jsnum

record ac_frontier =
  af_lambda :: jsnum
  af_cost :: jsnum
  af_stdDev :: jsnum
  af_utility :: jsnum

record ac_result =
  ar_trajectory :: "ac_point list"
  ar_trades :: "ac_trade list"
  ar_expectedCost :: jsnum
  ar_stdDev :: jsnum
  ar_utility :: jsnum
  ar_twapCost :: jsnum
  ar_twapStdDev :: jsnum
  ar_twapUtility :: jsnum
  ar_frontier :: "ac_frontier list"
  ar_kappa :: jsnum
  ar_dt :: jsnum
  ar_nSteps :: nat
  ar_permImpactCost :: jsnum
  ar_tempImpactCost :: jsnum

definition held :: "jsnum \<Rightarrow> jsnum \<Rightarrow> jsnum \<Rightarrow> jsnum \<Rightarrow> nat \<Rightarrow> jsnum" where
  \<comment> \<open>what is still held after step \<open>i\<close>\<close>
  "held X T kappa dt i = X * jsinh (kappa * (T - jnat i * dt)) / jsinh (kappa * T)"

definition trajectory_of :: "jsnum \<Rightarrow> jsnum \<Rightarrow> jsnum \<Rightarrow> jsnum \<Rightarrow> nat \<Rightarrow> ac_point list" where
  "trajectory_of X T kappa dt n = map (\<lambda>i. \<lparr>ac_t = jnat i * dt, ac_x = held X T kappa dt i\<rparr>) [0..<n + 1]"

definition trades_of :: "jsnum \<Rightarrow> jsnum \<Rightarrow> jsnum \<Rightarrow> jsnum \<Rightarrow> nat \<Rightarrow> ac_trade list" where
  "trades_of X T kappa dt n =
     map (\<lambda>i. let amount = held X T kappa dt (i - 1) - held X T kappa dt i
              in \<lparr>at_t = jnat i * dt, at_amount = amount, at_rate = amount / dt\<rparr>) [1..<n + 1]"

definition temp_cost :: "jsnum \<Rightarrow> jsnum \<Rightarrow> ac_trade list \<Rightarrow> jsnum" where
  "temp_cost eta dt trades = for_loop 0 (length trades) (\<lambda>i s. let v = at_rate (trades ! i) in s + eta * v * v * dt) 0"

definition twap_trades :: "jsnum \<Rightarrow> jsnum \<Rightarrow> nat \<Rightarrow> ac_trade list" where
  "twap_trades X dt n =
     (let perStep = X / jnat n
      in map (\<lambda>i. \<lparr>at_t = jnat (i + 1) * dt, at_amount = perStep, at_rate = perStep / dt\<rparr>) [0..<n])"

definition twap_variance :: "jsnum \<Rightarrow> jsnum \<Rightarrow> jsnum \<Rightarrow> nat \<Rightarrow> jsnum" where
  "twap_variance X sigma dt n =
     fst (for_loop 0 n (\<lambda>_ (var, remaining). (var + sigma * sigma * remaining * remaining * dt, remaining - X / jnat n)) (0, X))"

definition frontier_point :: "jsnum \<Rightarrow> jsnum \<Rightarrow> jsnum \<Rightarrow> jsnum \<Rightarrow> jsnum \<Rightarrow> jsnum \<Rightarrow> nat \<Rightarrow> jsnum \<Rightarrow> ac_frontier" where
  "frontier_point X T sigma eta gamma dt n li =
     (let lam = jpow 10 li;
          k = jsqrt (lam * sigma * sigma / eta);
          (ec, varc, _) = for_loop 0 (n + 1) (\<lambda>i (ec, varc, prev).
            let x = held X T k dt i; v = (prev - x) / dt
            in (if i > 0 then ec + eta * v * v * dt else ec,
                if i < n then varc + sigma * sigma * x * x * dt else varc, x)) (0, 0, X);
          cost = ec + Fin 0.5 * gamma * X * X
      in \<lparr>af_lambda = lam, af_cost = cost, af_stdDev = jsqrt varc, af_utility = cost + lam * varc\<rparr>)"

definition almgrenChriss ::
  "jsnum \<Rightarrow> jsnum \<Rightarrow> jsnum \<Rightarrow> jsnum \<Rightarrow> jsnum \<Rightarrow> jsnum \<Rightarrow> nat \<Rightarrow> ac_result option" where
  "almgrenChriss X T sigma eta gamma lam n =
     (if X \<le> 0 \<or> T \<le> 0 \<or> sigma \<le> 0 \<or> eta \<le> 0 then None
      else
        let dt = T / jnat n;
            kappa = jsqrt (lam * sigma * sigma / eta);
            trajectory = trajectory_of X T kappa dt n;
            trades = trades_of X T kappa dt n;
            tempImpactCost = temp_cost eta dt trades;
            permImpactCost = Fin 0.5 * gamma * X * X;
            expectedCost = permImpactCost + tempImpactCost;
            variance = for_loop 0 (length trajectory - 1) (\<lambda>i s. s + sigma * sigma * ac_x (trajectory ! i) * ac_x (trajectory ! i) * dt) 0;
            twapCost = permImpactCost + temp_cost eta dt (twap_trades X dt n);
            twapVar = twap_variance X sigma dt n
        in Some \<lparr>ar_trajectory = trajectory, ar_trades = trades, ar_expectedCost = expectedCost, ar_stdDev = jsqrt variance,
             ar_utility = expectedCost + lam * variance, ar_twapCost = twapCost, ar_twapStdDev = jsqrt twapVar,
             ar_twapUtility = twapCost + lam * twapVar,
             ar_frontier = map (\<lambda>k. frontier_point X T sigma eta gamma dt n (Fin (- 3 + real k / 2))) [0..<13],
             ar_kappa = kappa, ar_dt = dt, ar_nSteps = n, ar_permImpactCost = permImpactCost,
             ar_tempImpactCost = tempImpactCost\<rparr>)"

section \<open>The panel\<close>

definition estimated_sigma :: "candle list option \<Rightarrow> string \<Rightarrow> string \<Rightarrow> jsnum" where
  "estimated_sigma candles exchange symbol =
     (let cds = select_candles candles exchange symbol
      in if length cds < 10 then Fin 0.02
         else
           let closes = map cd_close cds;
               returns = map (\<lambda>i. (rd closes i - rd closes (i - 1)) / rd closes (i - 1)) [1..<length cds];
               mean = jsum returns / jnat (length returns);
               variance = jsum (map (\<lambda>r. (r - mean) ^ 2) returns) / jnat (length returns)
           in jsqrt variance)"

text \<open>The frontier point whose risk aversion is nearest to the chosen one.\<close>

definition optimal_index :: "ac_frontier list \<Rightarrow> jsnum \<Rightarrow> nat" where
  "optimal_index frontier riskAversion =
     foldl (\<lambda>best i. if \<bar>af_lambda (frontier ! i) - riskAversion\<bar> < \<bar>af_lambda (frontier ! best) - riskAversion\<bar> then i else best)
       0 [0..<length frontier]"

definition savings_of :: "ac_result \<Rightarrow> jsnum \<times> jsnum" where
  "savings_of r =
     (let savings = ar_twapCost r - ar_expectedCost r
      in (savings, if ar_twapCost r > 0 then savings / ar_twapCost r * 100 else 0))"

section \<open>The schedule over the reals\<close>

lemma sinh_scaled_le:
  assumes "0 \<le> (y :: real)" "0 \<le> c" "c \<le> 1"
  shows "sinh (c * y) \<le> c * sinh y"
proof (cases "0 < c \<and> c < 1 \<and> 0 < y")
  case True
  then have c: "0 < c" "c < 1" "0 < c * y" "c * y < y" by simp_all
  have "\<exists>z. 0 < z \<and> z < c * y \<and> sinh (c * y) - sinh 0 = (c * y - 0) * cosh z"
    using c by (intro MVT2) (auto intro!: derivative_eq_intros)
  then obtain z1 where z1: "0 < z1" "z1 < c * y" "sinh (c * y) = c * y * cosh z1" by auto
  have "\<exists>z. c * y < z \<and> z < y \<and> sinh y - sinh (c * y) = (y - c * y) * cosh z"
    using c by (intro MVT2) (auto intro!: derivative_eq_intros)
  then obtain z2 where z2: "c * y < z2" "z2 < y" "sinh y - sinh (c * y) = (1 - c) * y * cosh z2" by (auto simp: algebra_simps)
  have "cosh z1 \<le> cosh z2" using z1 z2 by (simp add: cosh_real_nonneg_le_iff)
  then have "((1 - c) * c * y) * cosh z1 \<le> ((1 - c) * c * y) * cosh z2" using c True by (intro mult_left_mono) simp_all
  then have "(1 - c) * sinh (c * y) \<le> c * (sinh y - sinh (c * y))"
    unfolding z2(3) unfolding z1(3) by (simp only: ac_simps)
  then show ?thesis by (simp add: algebra_simps)
next
  case False
  then show ?thesis using assms by (cases "c = 0"; cases "c = 1"; cases "y = 0") auto
qed

definition held_real :: "real \<Rightarrow> real \<Rightarrow> real \<Rightarrow> nat \<Rightarrow> nat \<Rightarrow> real" where
  "held_real X T k n i = X * sinh (k * (T - real i * (T / real n))) / sinh (k * T)"

lemma held_Fin:
  assumes "0 < T" "0 < k"
  shows "held (Fin X) (Fin T) (Fin k) (Fin (T / real n)) i = Fin (held_real X T k n i)"
  using assms by (simp add: held_def held_real_def)

lemma held_ends:
  assumes "0 < T" "0 < k" "0 < n"
  shows "held_real X T k n 0 = X" "held_real X T k n n = 0"
  using assms by (simp_all add: held_real_def)

lemma held_decreases:
  assumes "0 < X" "0 < T" "0 < k" "0 < n" "i < n"
  shows "held_real X T k n (Suc i) < held_real X T k n i"
proof -
  have "real i * (T / real n) < real (Suc i) * (T / real n)" using assms by (intro mult_strict_right_mono) simp_all
  then have "k * (T - real (Suc i) * (T / real n)) < k * (T - real i * (T / real n))"
    using assms by (intro mult_strict_left_mono) simp_all
  then have "sinh (k * (T - real (Suc i) * (T / real n))) < sinh (k * (T - real i * (T / real n)))"
    by (rule strict_monoD [OF sinh_real_strict_mono])
  moreover have "0 < sinh (k * T)" using assms by simp
  ultimately show ?thesis unfolding held_real_def using assms by (intro divide_strict_right_mono mult_strict_left_mono)
qed

text \<open>The slices shrink: what is held is a convex function of the step.\<close>

lemma sinh_convex_step: "0 < x \<Longrightarrow> 0 < d \<Longrightarrow> 2 * sinh x < sinh (x + d) + sinh (x - (d :: real))"
proof -
  assume x: "0 < x" and d: "0 < d"
  have "1 < cosh d" using d cosh_real_strict_mono [of 0 d] by simp
  then have "2 * sinh x * 1 < 2 * sinh x * cosh d" using x by (intro mult_strict_left_mono) simp_all
  also have "\<dots> = sinh (x + d) + sinh (x - d)" by (simp add: sinh_add sinh_diff)
  finally show ?thesis by simp
qed

lemma held_slices_shrink:
  assumes "0 < X" "0 < T" "0 < k" "0 < n" "Suc i < n"
  shows "held_real X T k n (Suc i) - held_real X T k n (Suc (Suc i)) < held_real X T k n i - held_real X T k n (Suc i)"
proof -
  define d where "d = k * (T / real n)"
  define x where "x = k * (T - real (Suc i) * (T / real n))"
  have d: "0 < d" using assms by (simp add: d_def)
  have "real (Suc i) * (T / real n) < real n * (T / real n)" using assms by (intro mult_strict_right_mono) simp_all
  then have x: "0 < x" using assms by (simp add: x_def)
  have e: "k * (T - real i * (T / real n)) = x + d" "k * (T - real (Suc (Suc i)) * (T / real n)) = x - d"
    by (simp_all add: x_def d_def algebra_simps add_divide_distrib)
  have "0 < X / sinh (k * T)" using assms by simp
  from mult_strict_left_mono [OF sinh_convex_step [OF x d] this]
  show ?thesis unfolding held_real_def e x_def [symmetric] by (simp add: distrib_left add_divide_distrib mult.left_commute)
qed

lemma held_below_line:
  assumes "0 < X" "0 < T" "0 < k" "0 < n" "i \<le> n"
  shows "0 \<le> held_real X T k n i" "held_real X T k n i \<le> X - real i * (X / real n)"
proof -
  define c where "c = 1 - real i / real n"
  have c: "0 \<le> c" "c \<le> 1" using assms by (simp_all add: c_def)
  have e: "k * (T - real i * (T / real n)) = c * (k * T)" using assms by (simp add: c_def algebra_simps)
  have pos: "0 < sinh (k * T)" using assms by simp
  have "sinh (c * (k * T)) / sinh (k * T) \<le> c"
    using sinh_scaled_le [of "k * T" c] assms c pos by (simp add: divide_le_eq)
  then have "X * (sinh (c * (k * T)) / sinh (k * T)) \<le> X * c" using assms by (intro mult_left_mono) simp_all
  then show "held_real X T k n i \<le> X - real i * (X / real n)" unfolding held_real_def e by (simp add: c_def algebra_simps)
  show "0 \<le> held_real X T k n i" unfolding held_real_def e using assms c pos by simp
qed

section \<open>Costs and risk\<close>

text \<open>Costs of a list of trades: equal amounts are the cheapest.\<close>

lemma temp_cost_Fin:
  assumes "dt \<noteq> 0"
  shows "temp_cost (Fin eta) (Fin dt) (map (\<lambda>i. \<lparr>at_t = tm i, at_amount = am i, at_rate = Fin (a i) / Fin dt\<rparr>) [m..<m + n]) =
    Fin (\<Sum>i = 0..<n. eta * (a (m + i) / dt) * (a (m + i) / dt) * dt)"
  unfolding temp_cost_def Let_def zero_Fin using assms
  by (simp add: sum_loop_Fin [where g = "\<lambda>i. eta * (a (m + i) / dt) * (a (m + i) / dt) * dt"])

lemma sum_squares_mean:
  assumes "0 < n" "(\<Sum>i = 0..<n. a i) = (X :: real)"
  shows "X ^ 2 / real n \<le> (\<Sum>i = 0..<n. a i ^ 2)"
proof -
  have "(\<Sum>i = 0..<n. a i * 1) ^ 2 \<le> (\<Sum>i = 0..<n. a i ^ 2) * (\<Sum>i = 0..<n. 1 ^ 2)" by (rule cauchy_schwarz_sum)
  then show ?thesis using assms by (simp add: divide_le_eq)
qed

lemma telescope_held: "(\<Sum>i = 0..<n. h i - h (Suc i)) = h 0 - (h n :: real)"
  by (induction n) simp_all

lemma twap_variance_Fin:
  assumes "0 < n"
  shows "twap_variance (Fin X) (Fin \<sigma>) (Fin dt) n =
    Fin (\<Sum>i = 0..<n. \<sigma> * \<sigma> * (X - real i * (X / real n)) * (X - real i * (X / real n)) * dt)"
proof -
  have "for_loop 0 m (\<lambda>_ (var, remaining). (var + Fin \<sigma> * Fin \<sigma> * remaining * remaining * Fin dt, remaining - Fin X / jnat n)) (0, Fin X) =
     (Fin (\<Sum>i = 0..<m. \<sigma> * \<sigma> * (X - real i * (X / real n)) * (X - real i * (X / real n)) * dt), Fin (X - real m * (X / real n)))" for m
    using assms by (induction m) (simp_all add: for_loop_Suc zero_jsnum_def distrib_right add_divide_distrib)
  then show ?thesis by (simp add: twap_variance_def)
qed

text \<open>Costs and variances over the reals: selling \<open>a i\<close> in step \<open>i\<close>, holding \<open>h i\<close> before it.\<close>

definition temp_real :: "real \<Rightarrow> real \<Rightarrow> nat \<Rightarrow> (nat \<Rightarrow> real) \<Rightarrow> real" where
  "temp_real \<eta> dt n a = (\<Sum>i = 0..<n. \<eta> * (a i / dt) * (a i / dt) * dt)"

definition risk_real :: "real \<Rightarrow> real \<Rightarrow> nat \<Rightarrow> (nat \<Rightarrow> real) \<Rightarrow> real" where
  "risk_real \<sigma> dt n h = (\<Sum>i = 0..<n. \<sigma> * \<sigma> * h i * h i * dt)"

lemma equal_slices_cheapest:
  assumes "0 < \<eta>" "0 < dt" "0 < n" "(\<Sum>i = 0..<n. a i) = X"
  shows "temp_real \<eta> dt n (\<lambda>_. X / real n) \<le> temp_real \<eta> dt n a"
proof -
  have scale: "\<eta> * (a / dt) * (a / dt) * dt = \<eta> / dt * a ^ 2" for a using assms(2) by (simp add: power2_eq_square)
  have "temp_real \<eta> dt n (\<lambda>_. X / real n) = \<eta> / dt * (X ^ 2 / real n)"
    unfolding temp_real_def scale using assms(3) by (simp add: power2_eq_square)
  also have "\<dots> \<le> \<eta> / dt * (\<Sum>i = 0..<n. a i ^ 2)"
    using sum_squares_mean [OF assms(3,4)] assms(1,2) by (intro mult_left_mono) simp_all
  also have "\<dots> = temp_real \<eta> dt n a" unfolding temp_real_def scale by (simp add: sum_distrib_left)
  finally show ?thesis .
qed

lemma risk_mono:
  assumes "0 < \<sigma>" "0 < dt" "\<And>i. i < n \<Longrightarrow> 0 \<le> g i \<and> g i \<le> h i"
  shows "0 \<le> risk_real \<sigma> dt n g" "risk_real \<sigma> dt n g \<le> risk_real \<sigma> dt n h"
proof -
  show "0 \<le> risk_real \<sigma> dt n g" unfolding risk_real_def using assms by (intro sum_nonneg) simp
  have "\<sigma> * \<sigma> * g i * g i * dt \<le> \<sigma> * \<sigma> * h i * h i * dt" if "i < n" for i
  proof -
    have "g i * g i \<le> h i * h i" using assms(3) [OF that] by (intro mult_mono) simp_all
    then have "(\<sigma> * \<sigma> * dt) * (g i * g i) \<le> (\<sigma> * \<sigma> * dt) * (h i * h i)"
      using assms by (intro mult_left_mono) simp_all
    then show ?thesis by (simp only: ac_simps)
  qed
  then show "risk_real \<sigma> dt n g \<le> risk_real \<sigma> dt n h" unfolding risk_real_def by (intro sum_mono) simp
qed

text \<open>The lists and the loops of the code on real parameters.\<close>

lemma schedule_Fin:
  fixes X T k :: real and n :: nat
  assumes "0 < T" "0 < k"
  defines "h \<equiv> held_real X T k n" and "dt \<equiv> T / real n"
  shows "trajectory_of (Fin X) (Fin T) (Fin k) (Fin dt) n = map (\<lambda>i. \<lparr>ac_t = jnat i * Fin dt, ac_x = Fin (h i)\<rparr>) [0..<n + 1]"
    and "trades_of (Fin X) (Fin T) (Fin k) (Fin dt) n =
      map (\<lambda>i. \<lparr>at_t = jnat i * Fin dt, at_amount = Fin (h (i - 1) - h i), at_rate = Fin (h (i - 1) - h i) / Fin dt\<rparr>) [1..<1 + n]"
  using held_Fin [OF assms(1,2), of X n]
  by (simp_all add: trajectory_of_def trades_of_def Let_def h_def dt_def del: upt_Suc)

lemma schedule_costs_Fin:
  fixes X T k :: real and n :: nat
  assumes "0 < T" "0 < k" "0 < n"
  defines "h \<equiv> held_real X T k n" and "dt \<equiv> T / real n"
  shows "temp_cost (Fin \<eta>) (Fin dt) (trades_of (Fin X) (Fin T) (Fin k) (Fin dt) n) = Fin (temp_real \<eta> dt n (\<lambda>i. h i - h (Suc i)))"
    and "temp_cost (Fin \<eta>) (Fin dt) (twap_trades (Fin X) (Fin dt) n) = Fin (temp_real \<eta> dt n (\<lambda>_. X / real n))"
    and "for_loop 0 (length (trajectory_of (Fin X) (Fin T) (Fin k) (Fin dt) n) - 1)
      (\<lambda>i s. s + Fin \<sigma> * Fin \<sigma> * ac_x (trajectory_of (Fin X) (Fin T) (Fin k) (Fin dt) n ! i) *
      ac_x (trajectory_of (Fin X) (Fin T) (Fin k) (Fin dt) n ! i) * Fin dt) 0 = Fin (risk_real \<sigma> dt n h)"
proof -
  have dt: "0 < dt" using assms(1,3) by (simp add: dt_def)
  note lists = schedule_Fin [where X = X and n = n, OF assms(1,2), folded h_def dt_def]
  show "temp_cost (Fin \<eta>) (Fin dt) (trades_of (Fin X) (Fin T) (Fin k) (Fin dt) n) = Fin (temp_real \<eta> dt n (\<lambda>i. h i - h (Suc i)))"
    unfolding lists using dt by (subst temp_cost_Fin) (simp_all add: temp_real_def)
  have "twap_trades (Fin X) (Fin dt) n =
      map (\<lambda>i. \<lparr>at_t = jnat (i + 1) * Fin dt, at_amount = Fin (X / real n), at_rate = Fin (X / real n) / Fin dt\<rparr>) [0..<0 + n]"
    using assms(3) by (simp add: twap_trades_def Let_def)
  then show "temp_cost (Fin \<eta>) (Fin dt) (twap_trades (Fin X) (Fin dt) n) = Fin (temp_real \<eta> dt n (\<lambda>_. X / real n))"
    using dt by (simp only:) (subst temp_cost_Fin; simp add: temp_real_def)
  have "for_loop 0 n (\<lambda>i s. s + Fin \<sigma> * Fin \<sigma> * ac_x (trajectory_of (Fin X) (Fin T) (Fin k) (Fin dt) n ! i) *
      ac_x (trajectory_of (Fin X) (Fin T) (Fin k) (Fin dt) n ! i) * Fin dt) (Fin 0) = Fin (risk_real \<sigma> dt n h)"
    unfolding risk_real_def lists by (rule sum_loop_Fin) (simp add: nth_append del: upt_Suc)
  then show "for_loop 0 (length (trajectory_of (Fin X) (Fin T) (Fin k) (Fin dt) n) - 1)
      (\<lambda>i s. s + Fin \<sigma> * Fin \<sigma> * ac_x (trajectory_of (Fin X) (Fin T) (Fin k) (Fin dt) n ! i) *
      ac_x (trajectory_of (Fin X) (Fin T) (Fin k) (Fin dt) n ! i) * Fin dt) 0 = Fin (risk_real \<sigma> dt n h)"
    by (simp add: lists zero_jsnum_def)
qed

lemma almgrenChriss_Fin:
  fixes X T \<sigma> \<eta> \<gamma> lam :: real and n :: nat
  assumes pos: "0 < X" "0 < T" "0 < \<sigma>" "0 < \<eta>" "0 < lam" and n: "0 < n"
  defines "k \<equiv> sqrt (lam * \<sigma> * \<sigma> / \<eta>)" and "dt \<equiv> T / real n"
  defines "h \<equiv> held_real X T k n" and "perm \<equiv> Fin 0.5 * Fin \<gamma> * Fin X * Fin X"
  shows "\<exists>r. almgrenChriss (Fin X) (Fin T) (Fin \<sigma>) (Fin \<eta>) (Fin \<gamma>) (Fin lam) n = Some r \<and>
    ar_trajectory r = trajectory_of (Fin X) (Fin T) (Fin k) (Fin dt) n \<and> ar_trades r = trades_of (Fin X) (Fin T) (Fin k) (Fin dt) n \<and>
    ar_expectedCost r = perm + Fin (temp_real \<eta> dt n (\<lambda>i. h i - h (Suc i))) \<and>
    ar_twapCost r = perm + Fin (temp_real \<eta> dt n (\<lambda>_. X / real n)) \<and> ar_stdDev r = jsqrt (Fin (risk_real \<sigma> dt n h)) \<and>
    ar_twapStdDev r = jsqrt (Fin (risk_real \<sigma> dt n (\<lambda>i. X - real i * (X / real n))))"
proof -
  have k: "0 < k" using pos by (simp add: k_def)
  have "0 \<le> lam * \<sigma> * \<sigma> / \<eta>" using pos by simp
  then have "\<not> lam * \<sigma> * \<sigma> / \<eta> < 0" by linarith
  then have kF: "jsqrt (Fin lam * Fin \<sigma> * Fin \<sigma> / Fin \<eta>) = Fin k" using pos by (simp add: k_def)
  have dtF: "Fin T / jnat n = Fin dt" using n by (simp add: dt_def)
  have guard: "\<not> (Fin X \<le> 0 \<or> Fin T \<le> 0 \<or> Fin \<sigma> \<le> 0 \<or> Fin \<eta> \<le> 0)" using pos by (simp add: zero_jsnum_def)
  show ?thesis
    unfolding almgrenChriss_def if_not_P [OF guard] Let_def kF dtF perm_def twap_variance_Fin [OF n]
      schedule_costs_Fin [where X = X, OF pos(2) k n, folded h_def dt_def] risk_real_def [symmetric]
    by simp
qed

text \<open>
  C29: the Almgren-Chriss schedule against TWAP. For positive parameters the schedule starts with the whole order and ends with
  nothing, the trades are positive, each smaller than the one before, and add up to the order; its expected cost is at least that of equal slices and its
  risk at most theirs, so the savings the panel shows are never positive.
\<close>

theorem schedule_against_twap:
  fixes X T \<sigma> \<eta> \<gamma> lam :: real
  assumes pos: "0 < X" "0 < T" "0 < \<sigma>" "0 < \<eta>" "0 < lam" and n: "0 < n"
  shows "\<exists>r amounts c s. almgrenChriss (Fin X) (Fin T) (Fin \<sigma>) (Fin \<eta>) (Fin \<gamma>) (Fin lam) n = Some r \<and>
    ac_x (ar_trajectory r ! 0) = Fin X \<and> ac_x (ar_trajectory r ! n) = 0 \<and>
    map at_amount (ar_trades r) = map Fin amounts \<and> length amounts = n \<and> list_all (\<lambda>a. 0 < a) amounts \<and>
    sorted_wrt (\<lambda>a b. b < a) amounts \<and> sum_list amounts = X \<and>
    ar_twapCost r \<le> ar_expectedCost r \<and> ar_stdDev r \<le> ar_twapStdDev r \<and> savings_of r = (Fin s, c) \<and> s \<le> 0"
proof -
  define k where "k = sqrt (lam * \<sigma> * \<sigma> / \<eta>)"
  define dt where "dt = T / real n"
  define h where "h = held_real X T k n"
  have k: "0 < k" and dt: "0 < dt" using pos n by (simp_all add: k_def dt_def)
  obtain r where r: "almgrenChriss (Fin X) (Fin T) (Fin \<sigma>) (Fin \<eta>) (Fin \<gamma>) (Fin lam) n = Some r"
    "ar_trajectory r = trajectory_of (Fin X) (Fin T) (Fin k) (Fin dt) n" "ar_trades r = trades_of (Fin X) (Fin T) (Fin k) (Fin dt) n"
    "ar_expectedCost r = Fin 0.5 * Fin \<gamma> * Fin X * Fin X + Fin (temp_real \<eta> dt n (\<lambda>i. h i - h (Suc i)))"
    "ar_twapCost r = Fin 0.5 * Fin \<gamma> * Fin X * Fin X + Fin (temp_real \<eta> dt n (\<lambda>_. X / real n))"
    "ar_stdDev r = jsqrt (Fin (risk_real \<sigma> dt n h))"
    "ar_twapStdDev r = jsqrt (Fin (risk_real \<sigma> dt n (\<lambda>i. X - real i * (X / real n))))"
    using almgrenChriss_Fin [OF pos n, of \<gamma>] unfolding k_def dt_def h_def by blast
  have h: "h 0 = X" "h n = 0" using held_ends [OF pos(2) k n] by (simp_all add: h_def)
  define amounts where "amounts = map (\<lambda>i. h i - h (Suc i)) [0..<n]"
  have traded: "map at_amount (ar_trades r) = map Fin amounts"
    unfolding r schedule_Fin [where X = X and n = n, OF pos(2) k, folded h_def dt_def] amounts_def
    by (simp add: comp_def flip: map_Suc_upt del: upt_Suc)
  have total: "(\<Sum>i = 0..<n. h i - h (Suc i)) = X" by (simp add: telescope_held h)
  then have sold: "sum_list amounts = X" by (simp add: amounts_def interv_sum_list_conv_sum_set_nat)
  have dec: "list_all (\<lambda>a. 0 < a) amounts"
    using held_decreases [OF pos(1,2) k n] unfolding amounts_def list_all_iff h_def by auto
  have "transp (\<lambda>a b. b < (a :: real))" by (auto simp: transp_def)
  then have shrink: "sorted_wrt (\<lambda>a b. b < a) amounts"
    unfolding sorted_wrt_iff_nth_Suc_transp [OF \<open>transp _\<close>]
    using held_slices_shrink [OF pos(1,2) k n] by (auto simp: amounts_def h_def)
  have costs: "temp_real \<eta> dt n (\<lambda>_. X / real n) \<le> temp_real \<eta> dt n (\<lambda>i. h i - h (Suc i))"
    by (rule equal_slices_cheapest [OF pos(4) dt n total])
  have "0 \<le> h i \<and> h i \<le> X - real i * (X / real n)" if "i < n" for i
    using held_below_line [OF pos(1,2) k n, of i] that by (simp add: h_def)
  note risks = risk_mono [where g = h and n = n, OF pos(3) dt this]
  have "ac_x (ar_trajectory r ! 0) = Fin X" "ac_x (ar_trajectory r ! n) = 0"
    unfolding r schedule_Fin [where X = X and n = n, OF pos(2) k, folded h_def dt_def] using h by (simp_all add: nth_append zero_jsnum_def del: upt_Suc)
  moreover have "ar_twapCost r \<le> ar_expectedCost r" "ar_stdDev r \<le> ar_twapStdDev r"
    using costs risks by (simp_all add: r)
  moreover have "fst (savings_of r) = Fin (temp_real \<eta> dt n (\<lambda>_. X / real n) - temp_real \<eta> dt n (\<lambda>i. h i - h (Suc i)))"
    by (simp add: savings_of_def Let_def r)
  then obtain c s where "savings_of r = (Fin s, c)" "s \<le> 0" using costs by (cases "savings_of r") simp
  moreover have "length amounts = n" by (simp add: amounts_def)
  ultimately show ?thesis using r(1) traded sold dec shrink by blast
qed

theorem schedule_against_twap_witness:
  "\<exists>r. almgrenChriss (Fin 100) (Fin 1) (Fin (1 / 50)) (Fin (1 / 10)) (Fin (1 / 100)) (Fin (1 / 10 ^ 6)) 20 = Some r \<and>
    ac_x (ar_trajectory r ! 20) = 0 \<and> ar_twapCost r \<le> ar_expectedCost r \<and> ar_stdDev r \<le> ar_twapStdDev r"
  using schedule_against_twap [of 100 1 "1 / 50" "1 / 10" "1 / 10 ^ 6" 20 "1 / 100"] by auto

end
