(* ===== verification/SupportVectors.thy ===== *)
theory SupportVectors
  imports JsRandom JsSort Candles
begin

text \<open>
  The support vector machine panel \<open>components/SupportVectorMachine.jsx\<close>: features of return windows, standardisation, a linear
  machine trained by gradient descent, a kernel machine trained by sequential minimal optimisation (SMO), and the result of the
  panel. The order in which an epoch visits the points is the result of a sort with a random comparator, which the language leaves
  open: it is an argument. The array of errors, which nothing reads, and the drawing are left out.
\<close>

section \<open>Features\<close>

definition window_rsi :: "jsnum list \<Rightarrow> jsnum" where
  "window_rsi window =
     (let (gains, losses) = foldl (\<lambda>(g, l) r. if r > 0 then (g + r, l) else (g, l - r)) (0, 0) window
      in if gains + losses > 0 then 50 + 50 * (gains - losses) / (gains + losses) else 50)"

definition window_autocorrelation :: "jsnum list \<Rightarrow> jsnum \<Rightarrow> jsnum" where
  "window_autocorrelation window mean =
     (let (num, den) = for_loop 1 (length window) (\<lambda>j (num, den).
            (num + (rd window j - mean) * (rd window (j - 1) - mean), den + (rd window j - mean) ^ 2)) (0, 0)
      in if den > 0 then num / den else 0)"

definition window_features :: "jsnum list \<Rightarrow> jsnum list" where
  "window_features window =
     (let n = length window;
          mean = jsum window / jnat n;
          variance = jsum (map (\<lambda>r. (r - mean) ^ 2) window) / jnat n;
          vol = jsqrt variance;
          skew = (if vol > 0 then jsum (map (\<lambda>r. ((r - mean) / vol) ^ 3) window) / jnat n else 0);
          kurt = (if vol > 0 then jsum (map (\<lambda>r. ((r - mean) / vol) ^ 4) window) / jnat n - 3 else 0);
          lastRet = rd window (n - 1);
          momentum = rd window (n - 1) - rd window 0;
          rsi = window_rsi window;
          ac1 = window_autocorrelation window mean
      in [mean * 100, vol * 100, skew, kurt, lastRet * 100, momentum * 100, (rsi - 50) / 50, ac1])"

definition extractSVMFeatures :: "jsnum list \<Rightarrow> nat \<Rightarrow> jsnum list list \<times> jsnum list" where
  "extractSVMFeatures returns windowSize =
     (let is = [windowSize..<length returns - 1]
      in (map (\<lambda>i. window_features (take windowSize (drop (i - windowSize) returns))) is,
          map (\<lambda>i. if rd returns (i + 1) > 0 then 1 else - 1) is))"

definition column_mean :: "jsnum list list \<Rightarrow> nat \<Rightarrow> jsnum" where
  "column_mean features j = for_loop 0 (length features) (\<lambda>i s. s + rd (features ! i) j) 0 / jnat (length features)"

definition column_std :: "jsnum list list \<Rightarrow> nat \<Rightarrow> jsnum" where
  "column_std features j =
     jsqrt (for_loop 0 (length features) (\<lambda>i s. s + (rd (features ! i) j - column_mean features j) ^ 2) 0 / jnat (length features))"

definition standardize :: "jsnum list list \<Rightarrow> jsnum list list \<times> jsnum list \<times> jsnum list" where
  \<comment> \<open>called with at least one row\<close>
  "standardize features =
     (let d = length (hd features); means = map (column_mean features) [0..<d]; stds = map (column_std features) [0..<d]
      in (map (\<lambda>f. map (\<lambda>j. if rd stds j > 0 then (f ! j - rd means j) / rd stds j else 0) [0..<length f]) features, means, stds))"

section \<open>The linear machine\<close>

definition dot :: "jsnum list \<Rightarrow> jsnum list \<Rightarrow> jsnum" where
  "dot a b = for_loop 0 (length a) (\<lambda>i s. s + a ! i * rd b i) 0"

definition sgd_step ::
  "jsnum list list \<Rightarrow> jsnum list \<Rightarrow> jsnum \<Rightarrow> jsnum \<Rightarrow> nat \<Rightarrow> jsnum list \<times> jsnum \<Rightarrow> jsnum list \<times> jsnum" where
  "sgd_step X y C eta i wb =
     (let (w, b) = wb; margin = y ! i * (dot w (X ! i) + b); nC = jnat (length X) * C
      in if margin < 1
         then (map (\<lambda>j. w ! j - eta * (w ! j / nC - y ! i * rd (X ! i) j)) [0..<length w], b + eta * y ! i)
         else (map (\<lambda>j. w ! j - eta * w ! j / nC) [0..<length w], b))"

record linear_model =
  lm_w :: "jsnum list"
  lm_b :: jsnum
  lm_accuracy :: jsnum
  lm_predictions :: "jsnum list"

definition sign_of :: "jsnum \<Rightarrow> jsnum" where
  "sign_of v = (if v > 0 then 1 else - 1)"

definition share_correct :: "jsnum list \<Rightarrow> jsnum list \<Rightarrow> jsnum" where
  "share_correct predictions y =
     jnat (length (filter (\<lambda>i. jeq (predictions ! i) (rd y i)) [0..<length predictions])) / jnat (length predictions)"

definition linearSVM ::
  "jsnum list list \<Rightarrow> jsnum list \<Rightarrow> jsnum \<Rightarrow> nat \<Rightarrow> jsnum \<Rightarrow> (nat \<Rightarrow> nat list) \<Rightarrow> linear_model" where
  \<comment> \<open>the last argument gives the order of each epoch\<close>
  "linearSVM X y C epochs lr order =
     (let (w, b) = for_loop 0 epochs (\<lambda>epoch wb.
            let eta = lr / (1 + jnat epoch * Fin 0.01) in fold (sgd_step X y C eta) (order epoch) wb)
            (replicate (length (hd X)) 0, 0);
          predictions = map (\<lambda>x. sign_of (dot w x + b)) X
      in \<lparr>lm_w = w, lm_b = b, lm_accuracy = share_correct predictions y, lm_predictions = predictions\<rparr>)"

section \<open>Sequential minimal optimisation\<close>

definition rbfKernel :: "jsnum list \<Rightarrow> jsnum list \<Rightarrow> jsnum \<Rightarrow> jsnum" where
  "rbfKernel x1 x2 gamma = jexp (- gamma * for_loop 0 (length x1) (\<lambda>i s. s + (x1 ! i - rd x2 i) ^ 2) 0)"

text \<open>\<open>SVMPredict\<close>; \<open>k\<close> is the kernel of every point with the point asked for, read from the matrix or computed.\<close>

definition SVMPredict :: "jsnum list \<Rightarrow> jsnum list \<Rightarrow> jsnum \<Rightarrow> (nat \<Rightarrow> jsnum) \<Rightarrow> jsnum" where
  "SVMPredict y alpha b k =
     for_loop 0 (length alpha) (\<lambda>i s. if alpha ! i > 0 then s + alpha ! i * rd y i * k i else s) 0 + b"

text \<open>The step for one pair, after its first error: new multipliers and offset, and whether it counts as a change.\<close>

definition pair_bounds :: "jsnum \<Rightarrow> jsnum \<Rightarrow> jsnum \<Rightarrow> jsnum \<Rightarrow> jsnum \<Rightarrow> jsnum \<times> jsnum" where
  "pair_bounds C yi yj ai aj =
     (if \<not> jeq yi yj then (jmax 0 (aj - ai), jmin C (C + aj - ai)) else (jmax 0 (ai + aj - C), jmin C (ai + aj)))"

definition smo_update ::
  "jsnum \<Rightarrow> (nat \<Rightarrow> nat \<Rightarrow> jsnum) \<Rightarrow> jsnum list \<Rightarrow> nat \<Rightarrow> nat \<Rightarrow> jsnum \<Rightarrow> jsnum list \<times> jsnum \<Rightarrow> (jsnum list \<times> jsnum) \<times> bool" where
  "smo_update C K y i j Ei st =
     (let (alpha, b) = st;
          Ej = SVMPredict y alpha b (\<lambda>k. K k j) - rd y j;
          ai = alpha ! i; aj = alpha ! j;
          (L, H) = pair_bounds C (rd y i) (rd y j) ai aj
      in if jeq L H then (st, False)
         else
           let eta = 2 * K i j - K i i - K j j
           in if eta \<ge> 0 then (st, False)
              else
                let aj' = jmax L (jmin H (aj - rd y j * (Ei - Ej) / eta));
                    alpha1 = alpha[j := aj']
                in if \<bar>aj' - aj\<bar> < Fin (1 / 10 ^ 5) then ((alpha1, b), False)
                   else
                     let ai' = ai + rd y i * rd y j * (aj - aj');
                         alpha2 = alpha1[i := ai'];
                         b1 = b - Ei - rd y i * (ai' - ai) * K i i - rd y j * (aj' - aj) * K i j;
                         b2 = b - Ej - rd y i * (ai' - ai) * K i j - rd y j * (aj' - aj) * K j j;
                         b' = (if 0 < ai' \<and> ai' < C then b1 else if 0 < aj' \<and> aj' < C then b2 else (b1 + b2) / 2)
                     in ((alpha2, b'), True))"

definition point_error :: "(nat \<Rightarrow> nat \<Rightarrow> jsnum) \<Rightarrow> jsnum list \<Rightarrow> nat \<Rightarrow> jsnum list \<times> jsnum \<Rightarrow> jsnum" where
  "point_error K y i st = SVMPredict y (fst st) (snd st) (\<lambda>k. K k i) - rd y i"

definition violates :: "jsnum \<Rightarrow> jsnum \<Rightarrow> jsnum \<Rightarrow> jsnum \<Rightarrow> jsnum \<Rightarrow> bool" where
  "violates C tol yi Ei ai \<longleftrightarrow> yi * Ei < - tol \<and> ai < C \<or> yi * Ei > tol \<and> ai > 0"

text \<open>The draw of another point; it never ends when every draw gives \<open>i\<close>.\<close>

partial_function (option) pick_other :: "nat \<Rightarrow> nat \<Rightarrow> draws \<Rightarrow> (nat \<times> draws) option" where
  "pick_other n i s =
     (let j = nat \<lfloor>s 0 * real n\<rfloor> in if j = i then pick_other n i (\<lambda>k. s (Suc k)) else Some (j, \<lambda>k. s (Suc k)))"

definition smo_visit ::
  "jsnum \<Rightarrow> jsnum \<Rightarrow> (nat \<Rightarrow> nat \<Rightarrow> jsnum) \<Rightarrow> jsnum list \<Rightarrow> nat \<Rightarrow> jsnum list \<times> jsnum \<Rightarrow> draws \<Rightarrow>
     ((jsnum list \<times> jsnum) \<times> bool \<times> draws) option" where
  "smo_visit C tol K y i st s =
     (let Ei = point_error K y i st
      in if violates C tol (rd y i) Ei (fst st ! i)
         then (case pick_other (length (fst st)) i s of
                 None \<Rightarrow> None
               | Some (j, s') \<Rightarrow> (let (st', changed) = smo_update C K y i j Ei st in Some (st', changed, s')))
         else Some (st, False, s))"

fun smo_pass ::
  "jsnum \<Rightarrow> jsnum \<Rightarrow> (nat \<Rightarrow> nat \<Rightarrow> jsnum) \<Rightarrow> jsnum list \<Rightarrow> nat list \<Rightarrow> jsnum list \<times> jsnum \<Rightarrow> nat \<Rightarrow> draws \<Rightarrow>
     ((jsnum list \<times> jsnum) \<times> nat \<times> draws) option" where
  "smo_pass C tol K y [] st numChanged s = Some (st, numChanged, s)"
| "smo_pass C tol K y (i # is) st numChanged s =
     (case smo_visit C tol K y i st s of
        None \<Rightarrow> None
      | Some (st', changed, s') \<Rightarrow> smo_pass C tol K y is st' (if changed then numChanged + 1 else numChanged) s')"

text \<open>The outer loop need not end: passes start again at 0 whenever a multiplier has changed.\<close>

partial_function (option) smo_loop ::
  "jsnum \<Rightarrow> jsnum \<Rightarrow> (nat \<Rightarrow> nat \<Rightarrow> jsnum) \<Rightarrow> jsnum list \<Rightarrow> nat \<Rightarrow> nat \<Rightarrow> jsnum list \<times> jsnum \<Rightarrow> draws \<Rightarrow>
     (jsnum list \<times> jsnum) option" where
  "smo_loop C tol K y maxPasses passes st s =
     (if passes < maxPasses
      then (case smo_pass C tol K y [0..<length (fst st)] st 0 s of
              None \<Rightarrow> None
            | Some (st', numChanged, s') \<Rightarrow> smo_loop C tol K y maxPasses (if numChanged = 0 then passes + 1 else 0) st' s')
      else Some st)"

record kernel_model =
  km_alpha :: "jsnum list"
  km_b :: jsnum
  km_svIndices :: "nat list"
  km_accuracy :: jsnum
  km_predictions :: "jsnum list"
  km_gamma :: jsnum

definition smo ::
  "jsnum list list \<Rightarrow> jsnum list \<Rightarrow> jsnum \<Rightarrow> jsnum \<Rightarrow> nat \<Rightarrow> jsnum \<Rightarrow> draws \<Rightarrow> kernel_model option" where
  "smo X y C gamma maxPasses tol s =
     (let n = length X; K = (\<lambda>i j. rbfKernel (X ! i) (X ! j) gamma)
      in case smo_loop C tol K y maxPasses 0 (replicate n 0, 0) s of
           None \<Rightarrow> None
         | Some (alpha, b) \<Rightarrow>
             let predictions = map (\<lambda>i. sign_of (SVMPredict y alpha b (\<lambda>k. K k i))) [0..<n]
             in Some \<lparr>km_alpha = alpha, km_b = b, km_svIndices = filter (\<lambda>i. alpha ! i > Fin (1 / 10 ^ 5)) [0..<n],
                  km_accuracy = share_correct predictions y, km_predictions = predictions, km_gamma = gamma\<rparr>)"

section \<open>The panel\<close>

datatype svm_model = Linear linear_model | Kernel kernel_model

record svm_result =
  sv_model :: svm_model
  sv_trainAccuracy :: jsnum
  sv_testAccuracy :: jsnum
  sv_currentPred :: jsnum
  sv_signal :: string
  sv_confidence :: jsnum
  sv_importance :: "(nat \<times> jsnum) list option" \<comment> \<open>feature number and weight, by decreasing size\<close>
  sv_nTrain :: nat
  sv_nTest :: nat
  sv_nSV :: nat
  sv_testPreds :: "jsnum list"

definition decision :: "svm_model \<Rightarrow> jsnum list list \<Rightarrow> jsnum list \<Rightarrow> jsnum list \<Rightarrow> jsnum" where
  "decision m XTrain yTrain x =
     (case m of
        Linear l \<Rightarrow> dot (lm_w l) x + lm_b l
      | Kernel k \<Rightarrow> SVMPredict yTrain (km_alpha k) (km_b k) (\<lambda>i. rbfKernel (XTrain ! i) x (km_gamma k)))"

definition svm_returns :: "candle list \<Rightarrow> jsnum list" where
  "svm_returns cds =
     (let prices = map cd_close cds in map (\<lambda>i. (rd prices i - rd prices (i - 1)) / rd prices (i - 1)) [1..<length prices])"

text \<open>\<open>None\<close>: the training of the kernel machine never ends; \<open>Some None\<close>: too few candles or features.\<close>

definition svm_panel ::
  "candle list option \<Rightarrow> string \<Rightarrow> string \<Rightarrow> bool \<Rightarrow> jsnum \<Rightarrow> jsnum \<Rightarrow> nat \<Rightarrow> nat \<Rightarrow> (nat \<Rightarrow> nat list) \<Rightarrow> draws \<Rightarrow>
     svm_result option option" where
  "svm_panel candles exchange symbol is_linear C gamma windowSize epochs order s =
     (let cds = select_candles candles exchange symbol
      in if length cds < 50 then Some None
         else
           let (features, labels) = extractSVMFeatures (svm_returns cds) windowSize
           in if length features < 20 then Some None
              else
                let (standardized, _, _) = standardize features;
                    splitIdx = nat \<lfloor>real (length features) * 0.8\<rfloor>;
                    XTrain = take splitIdx standardized; yTrain = take splitIdx labels;
                    XTest = drop splitIdx standardized; yTest = drop splitIdx labels;
                    model = (if is_linear then Some (Linear (linearSVM XTrain yTrain C epochs (Fin 0.01) order))
                             else map_option Kernel (smo XTrain yTrain C gamma 10 (Fin 0.001) s))
                in map_option (\<lambda>m.
                     let testPreds = map (\<lambda>x. sign_of (decision m XTrain yTrain x)) XTest;
                         currentPred = decision m XTrain yTrain (standardized ! (length standardized - 1))
                     in Some \<lparr>sv_model = m,
                          sv_trainAccuracy = (case m of Linear l \<Rightarrow> lm_accuracy l | Kernel k \<Rightarrow> km_accuracy k),
                          sv_testAccuracy = (if XTest \<noteq> [] then share_correct testPreds yTest else 0),
                          sv_currentPred = currentPred,
                          sv_signal = (if currentPred > 0 then ''BUY'' else ''SELL''),
                          sv_confidence = jmin 100 (\<bar>currentPred\<bar> * 50 + 50),
                          sv_importance = (case m of
                              Linear l \<Rightarrow> Some (sort_by (\<lambda>p. - \<bar>snd p\<bar>) (enumerate 0 (lm_w l))) | Kernel _ \<Rightarrow> None),
                          sv_nTrain = length XTrain, sv_nTest = length XTest,
                          sv_nSV = (case m of Linear _ \<Rightarrow> 0 | Kernel k \<Rightarrow> length (km_svIndices k)),
                          sv_testPreds = testPreds\<rparr>) model)"

end
