(* ===== verification/SupportLaws.thy ===== *)
theory SupportLaws
  imports SupportVectors Regression
begin

text \<open>
  Laws of the support vector machine: the SMO steps keep every multiplier within its box and the equality constraint up to a
  bounded drift, and standardised features have mean 0 and variance 1.
\<close>

section \<open>Sequential minimal optimisation\<close>

lemma predict_Fin:
  assumes "\<And>i. i < length as \<Longrightarrow> k i = Fin (kr i)" "length ys = length as"
  shows "\<exists>v. SVMPredict (map Fin ys) (map Fin as) (Fin b) k = Fin v"
proof -
  have "\<exists>v. for_loop 0 (length as) (\<lambda>i s. if map Fin as ! i > 0 then s + map Fin as ! i * rd (map Fin ys) i * k i else s) (Fin 0) = Fin v"
    using assms by (intro for_loop_preserves [where P = "\<lambda>s. \<exists>v. s = Fin v"]) auto
  then show ?thesis by (auto simp: SVMPredict_def zero_jsnum_def)
qed

text \<open>The new multipliers of a pair stay in the box and keep the weighted sum of the pair.\<close>

lemma pair_bounds_box:
  assumes "0 \<le> ai" "ai \<le> C" "0 \<le> aj" "aj \<le> C" "yi \<in> {1, -1}" "yj \<in> {1, -1 :: real}"
  obtains L H where "pair_bounds (Fin C) (Fin yi) (Fin yj) (Fin ai) (Fin aj) = (Fin L, Fin H)" "0 \<le> L" "L \<le> H" "H \<le> C"
    "\<And>x. L \<le> x \<Longrightarrow> x \<le> H \<Longrightarrow> 0 \<le> ai + yi * yj * (aj - x) \<and> ai + yi * yj * (aj - x) \<le> C"
proof (cases "yi = yj")
  case True
  then have "yi * yj = 1" using assms by auto
  then show ?thesis using True assms
    by (intro that [of "max 0 (ai + aj - C)" "min C (ai + aj)"]) (auto simp: pair_bounds_def zero_jsnum_def)
next
  case False
  then have "yi * yj = - 1" using assms by auto
  then show ?thesis using False assms
    by (intro that [of "max 0 (aj - ai)" "min C (C + aj - ai)"]) (auto simp: pair_bounds_def zero_jsnum_def)
qed

lemma rbf_Fin:
  assumes "length x = length z"
  shows "\<exists>v. rbfKernel (map Fin x) (map Fin z) (Fin \<gamma>) = Fin v"
proof -
  have "\<exists>v. for_loop 0 (length x) (\<lambda>i s. s + (map Fin x ! i - rd (map Fin z) i) ^ 2) (Fin 0) = Fin v"
    using assms by (intro for_loop_preserves [where P = "\<lambda>s. \<exists>v. s = Fin v"]) auto
  then show ?thesis by (auto simp: rbfKernel_def zero_jsnum_def)
qed

definition weighted_sum :: "real list \<Rightarrow> real list \<Rightarrow> real" where
  "weighted_sum ys as = (\<Sum>k = 0..<length as. ys ! k * as ! k)"

lemma weighted_sum_update:
  assumes "j < length as"
  shows "weighted_sum ys (as[j := x]) = weighted_sum ys as + ys ! j * (x - as ! j)"
proof -
  have "weighted_sum ys (as[j := x]) = ys ! j * x + (\<Sum>k \<in> {0..<length as} - {j}. ys ! k * as ! k)"
    using assms by (simp add: weighted_sum_def sum.remove [of _ j])
  moreover have "weighted_sum ys as = ys ! j * as ! j + (\<Sum>k \<in> {0..<length as} - {j}. ys ! k * as ! k)"
    using assms by (simp add: weighted_sum_def sum.remove [of _ j])
  ultimately show ?thesis by (simp add: algebra_simps)
qed

definition feasible :: "real \<Rightarrow> nat \<Rightarrow> real list \<Rightarrow> bool" where
  "feasible C n as \<longleftrightarrow> length as = n \<and> list_all (\<lambda>a. 0 \<le> a \<and> a \<le> C) as"

lemma feasible_update: "feasible C n as \<Longrightarrow> 0 \<le> x \<Longrightarrow> x \<le> C \<Longrightarrow> feasible C n (as[j := x])"
  unfolding feasible_def list_all_iff by (auto dest!: set_update_subset_insert [THEN subsetD])

lemma feasible_nth: "feasible C n as \<Longrightarrow> i < n \<Longrightarrow> 0 \<le> as ! i \<and> as ! i \<le> C"
  by (simp add: feasible_def list_all_length)

lemma half_exists: "\<exists>v. (u :: real) = v * 2"
  by (rule exI [of _ "u / 2"]) simp

lemma smo_update_feasible:
  assumes as: "feasible C n as" and ij: "i < n" "j < n" "i \<noteq> j"
    and ys: "length ys = n" "list_all (\<lambda>v. v \<in> {1, -1}) ys" and K: "\<And>a b. a < n \<Longrightarrow> b < n \<Longrightarrow> K a b = Fin (kr a b)"
  obtains as' b' where "fst (smo_update (Fin C) K (map Fin ys) i j (Fin e) (map Fin as, Fin b)) = (map Fin as', Fin b')"
    "feasible C n as'" "\<bar>weighted_sum ys as' - weighted_sum ys as\<bar> < 1 / 10 ^ 5"
proof -
  let ?yi = "ys ! i" and ?yj = "ys ! j" and ?ai = "as ! i" and ?aj = "as ! j"
  have len: "length as = n" using as by (simp add: feasible_def)
  have y: "?yi \<in> {1, -1}" "?yj \<in> {1, -1}" using ys ij by (simp_all add: list_all_length)
  obtain v where "SVMPredict (map Fin ys) (map Fin as) (Fin b) (\<lambda>k. K k j) = Fin v"
    using predict_Fin [of as "\<lambda>k. K k j" "\<lambda>k. kr k j" ys b] K ys ij len by auto
  moreover define Ej where "Ej = v - ?yj"
  ultimately have Ej: "SVMPredict (map Fin ys) (map Fin as) (Fin b) (\<lambda>k. K k j) - Fin ?yj = Fin Ej"
    by simp
  have rds: "rd (map Fin ys) i = Fin ?yi" "rd (map Fin ys) j = Fin ?yj" "map Fin as ! i = Fin ?ai" "map Fin as ! j = Fin ?aj"
    using ij ys len by simp_all
  obtain L H where LH: "pair_bounds (Fin C) (Fin ?yi) (Fin ?yj) (Fin ?ai) (Fin ?aj) = (Fin L, Fin H)" "0 \<le> L" "L \<le> H" "H \<le> C"
    "\<And>x. L \<le> x \<Longrightarrow> x \<le> H \<Longrightarrow> 0 \<le> ?ai + ?yi * ?yj * (?aj - x) \<and> ?ai + ?yi * ?yj * (?aj - x) \<le> C"
    using pair_bounds_box [of ?ai C ?aj ?yi ?yj] feasible_nth [OF as] ij y by blast
  define eta where "eta = 2 * kr i j - kr i i - kr j j"
  have eta: "2 * K i j - K i i - K j j = Fin eta" using ij by (simp add: K eta_def)
  show ?thesis
  proof (cases "L = H \<or> eta \<ge> 0")
    case True
    then have "smo_update (Fin C) K (map Fin ys) i j (Fin e) (map Fin as, Fin b) = ((map Fin as, Fin b), False)"
      unfolding smo_update_def Let_def prod.case Ej rds LH(1) eta by (auto simp: zero_jsnum_def)
    then show ?thesis using that [of as b] as by simp
  next
    case False
    define x where "x = max L (min H (?aj - ?yj * (e - Ej) / eta))"
    have x: "L \<le> x" "x \<le> H" using LH(3) by (auto simp: x_def)
    then have box: "0 \<le> x" "x \<le> C" using LH by linarith+
    have aj': "jmax (Fin L) (jmin (Fin H) (Fin ?aj - Fin ?yj * (Fin e - Fin Ej) / Fin eta)) = Fin x"
      using False by (simp add: x_def)
    define as1 where "as1 = as[j := x]"
    have f1: "feasible C n as1" unfolding as1_def using as box by (rule feasible_update)
    show ?thesis
    proof (cases "\<bar>x - ?aj\<bar> < 1 / 10 ^ 5")
      case True
      then have "smo_update (Fin C) K (map Fin ys) i j (Fin e) (map Fin as, Fin b) = ((map Fin as1, Fin b), False)"
        unfolding smo_update_def Let_def prod.case Ej rds LH(1) eta aj' using False
        by (simp add: zero_jsnum_def as1_def map_update)
      moreover have "\<bar>weighted_sum ys as1 - weighted_sum ys as\<bar> < 1 / 10 ^ 5"
        using True y(2) ij len by (auto simp: as1_def weighted_sum_update abs_minus_commute)
      ultimately show ?thesis using that [of as1 b] f1 by simp
    next
      case big: False
      define z where "z = ?ai + ?yi * ?yj * (?aj - x)"
      define as2 where "as2 = as1[i := z]"
      have f2: "feasible C n as2" unfolding as2_def using f1 LH(5) [OF x] by (intro feasible_update) (simp_all add: z_def)
      have "\<exists>b'. fst (smo_update (Fin C) K (map Fin ys) i j (Fin e) (map Fin as, Fin b)) = (map Fin as2, Fin b')"
        unfolding smo_update_def Let_def prod.case Ej rds LH(1) eta aj' using False big ij
        by (simp add: K zero_jsnum_def as1_def as2_def z_def map_update half_exists)
      then obtain b' where b': "fst (smo_update (Fin C) K (map Fin ys) i j (Fin e) (map Fin as, Fin b)) = (map Fin as2, Fin b')"
        by blast
      have "weighted_sum ys as2 = weighted_sum ys as + ?yj * (x - ?aj) + ?yi * (z - ?ai)"
        using ij len by (simp add: as2_def as1_def weighted_sum_update)
      moreover have "?yj * (x - ?aj) + ?yi * (z - ?ai) = 0" using y by (auto simp: z_def algebra_simps)
      ultimately have "weighted_sum ys as2 = weighted_sum ys as" by simp
      then show ?thesis using that [OF b' f2] by simp
    qed
  qed
qed

lemma choice_on:
  assumes "\<And>a b. a < n \<Longrightarrow> b < n \<Longrightarrow> \<exists>v. K a b = Fin v"
  shows "\<exists>kr. \<forall>a < n. \<forall>b < n. K a b = Fin (kr a b)"
  using assms by (intro exI [of _ "\<lambda>a b. THE v. K a b = Fin v"]) fastforce

text \<open>The step for a pair of points as the loop makes it, the error of the first one included.\<close>

definition pair_step :: "jsnum \<Rightarrow> (nat \<Rightarrow> nat \<Rightarrow> jsnum) \<Rightarrow> jsnum list \<Rightarrow> nat \<times> nat \<Rightarrow> jsnum list \<times> jsnum \<Rightarrow> jsnum list \<times> jsnum" where
  "pair_step C K y p st = fst (smo_update C K y (fst p) (snd p) (point_error K y (fst p) st) st)"

lemma pair_steps_feasible:
  assumes "feasible C n as" "length ys = n" "list_all (\<lambda>v. v \<in> {1, -1}) ys" "\<And>a b. a < n \<Longrightarrow> b < n \<Longrightarrow> K a b = Fin (kr a b)"
    and "list_all (\<lambda>(i, j). i < n \<and> j < n \<and> i \<noteq> j) ps"
  shows "\<exists>as' b'. fold (pair_step (Fin C) K (map Fin ys)) ps (map Fin as, Fin b) = (map Fin as', Fin b') \<and> feasible C n as' \<and>
    \<bar>weighted_sum ys as' - weighted_sum ys as\<bar> \<le> real (length ps) / 10 ^ 5"
  using assms
proof (induction ps arbitrary: as b)
  case (Cons p ps)
  obtain i j where p: "p = (i, j)" "i < n" "j < n" "i \<noteq> j" using Cons.prems(5) by (cases p) auto
  have "\<exists>v. SVMPredict (map Fin ys) (map Fin as) (Fin b) (\<lambda>k. K k i) = Fin v"
    using Cons.prems(1,2,4) p by (intro predict_Fin [where kr = "\<lambda>k. kr k i"]) (simp_all add: feasible_def)
  then obtain e where e: "point_error K (map Fin ys) i (map Fin as, Fin b) = Fin e"
    using p Cons.prems(2) by (auto simp: point_error_def)
  obtain as1 b1 where s1: "pair_step (Fin C) K (map Fin ys) p (map Fin as, Fin b) = (map Fin as1, Fin b1)"
    "feasible C n as1" "\<bar>weighted_sum ys as1 - weighted_sum ys as\<bar> < 1 / 10 ^ 5"
    using smo_update_feasible [OF Cons.prems(1) p(2-4) Cons.prems(2,3), of K kr e b] Cons.prems(4) e by (auto simp: pair_step_def p)
  obtain as2 b2 where s2: "fold (pair_step (Fin C) K (map Fin ys)) ps (map Fin as1, Fin b1) = (map Fin as2, Fin b2)"
    "feasible C n as2" "\<bar>weighted_sum ys as2 - weighted_sum ys as1\<bar> \<le> real (length ps) / 10 ^ 5"
    using Cons.IH [where as = as1 and b = b1, OF s1(2) Cons.prems(2-4)] Cons.prems(5) by (simp add: p) blast
  have "\<bar>weighted_sum ys as2 - weighted_sum ys as\<bar> \<le> real (length (p # ps)) / 10 ^ 5"
    using s1(3) s2(3) abs_triangle_ineq [of "weighted_sum ys as2 - weighted_sum ys as1" "weighted_sum ys as1 - weighted_sum ys as"]
    by (simp add: field_simps)
  then show ?case using s1(1) s2 by (intro exI [of _ as2] exI [of _ b2]) simp
qed auto

text \<open>
  C30: from the initial multipliers, whatever pairs of points the sampling picks and however many, SMO keeps every multiplier a
  number between 0 and \<open>C\<close>, and the sum of the multipliers weighted by the labels, which the dual problem wants to be 0, within
  one hundred-thousandth per step of 0. (It is not kept at 0: a step too small to count changes one multiplier only.)
\<close>

theorem smo_stays_feasible:
  assumes "length ys = length X" "list_all (\<lambda>v. v \<in> {1, -1}) ys" "0 < C" "list_all (\<lambda>x. length x = d) X"
    and "list_all (\<lambda>(i, j). i < length X \<and> j < length X \<and> i \<noteq> j) ps"
  shows "\<exists>as b. fold (pair_step (Fin C) (\<lambda>i j. rbfKernel (map Fin (X ! i)) (map Fin (X ! j)) (Fin \<gamma>)) (map Fin ys)) ps
      (replicate (length X) 0, 0) = (map Fin as, Fin b) \<and> length as = length X \<and> list_all (\<lambda>a. 0 \<le> a \<and> a \<le> C) as \<and>
    \<bar>weighted_sum ys as\<bar> \<le> real (length ps) / 10 ^ 5"
proof -
  define K where "K = (\<lambda>i j. rbfKernel (map Fin (X ! i)) (map Fin (X ! j)) (Fin \<gamma>))"
  have "\<exists>kr. \<forall>a < length X. \<forall>b < length X. K a b = Fin (kr a b)"
    unfolding K_def by (intro choice_on rbf_Fin) (use assms(4) in \<open>simp_all add: list_all_length\<close>)
  then obtain kr where kr: "\<And>a b. a < length X \<Longrightarrow> b < length X \<Longrightarrow> K a b = Fin (kr a b)" by blast
  have f0: "feasible C (length X) (replicate (length X) 0)" using assms(3) by (simp add: feasible_def list_all_length)
  have "weighted_sum ys (replicate (length X) 0) = 0" by (simp add: weighted_sum_def)
  then show ?thesis
    using pair_steps_feasible [OF f0 assms(1,2) kr assms(5), where b = 0] unfolding K_def [symmetric]
    by (simp add: feasible_def zero_jsnum_def)
qed

theorem smo_stays_feasible_witness:
  "\<exists>as b. fold (pair_step (Fin 1) (\<lambda>i j. rbfKernel (map Fin ([[1], [2]] ! i)) (map Fin ([[1], [2]] ! j)) (Fin (1 / 2))) (map Fin [1, - 1]))
      [(0, 1), (1, 0)] (replicate 2 0, 0) = (map Fin as, Fin b) \<and> length as = 2 \<and> list_all (\<lambda>a. 0 \<le> a \<and> a \<le> 1) as \<and>
    \<bar>weighted_sum [1, - 1] as\<bar> \<le> real 2 / 10 ^ 5"
  using smo_stays_feasible [of "[1, - 1]" "[[1], [2]]" 1 1 "[(0, 1), (1, 0)]" "1 / 2"] by (simp add: numeral_2_eq_2)

text \<open>The trainer itself makes such steps only: what it returns is in the box.\<close>

definition boxed :: "real \<Rightarrow> nat \<Rightarrow> jsnum list \<times> jsnum \<Rightarrow> bool" where
  "boxed C n st \<longleftrightarrow> (\<exists>as b. st = (map Fin as, Fin b) \<and> feasible C n as)"

definition unit_draws :: "draws \<Rightarrow> bool" where
  "unit_draws s \<longleftrightarrow> (\<forall>k. 0 \<le> s k \<and> s k < 1)"

lemma unit_draws_Suc: "unit_draws s \<Longrightarrow> unit_draws (\<lambda>k. s (Suc k))"
  by (simp add: unit_draws_def)

lemma pick_other_range:
  assumes "pick_other n i s = Some r" "unit_draws s" "0 < n"
  shows "fst r < n \<and> fst r \<noteq> i \<and> unit_draws (snd r)"
proof -
  have "unit_draws s \<longrightarrow> 0 < n \<longrightarrow> fst r < n \<and> fst r \<noteq> i \<and> unit_draws (snd r)"
  proof (rule pick_other.raw_induct
      [where P = "\<lambda>n i s r. unit_draws s \<longrightarrow> 0 < n \<longrightarrow> fst r < n \<and> fst r \<noteq> i \<and> unit_draws (snd r)", OF _ assms(1)], intro impI)
    fix rec n i s r
    assume IH: "\<And>n i s r. rec n i s = Some r \<Longrightarrow> unit_draws s \<longrightarrow> 0 < n \<longrightarrow> fst r < n \<and> fst r \<noteq> i \<and> unit_draws (snd r)"
      and body: "(let j = nat \<lfloor>s 0 * real n\<rfloor> in if j = i then rec n i (\<lambda>k. s (Suc k)) else Some (j, \<lambda>k. s (Suc k))) = Some r"
      and s: "unit_draws s" and n: "0 < n"
    have "s 0 < 1" "0 \<le> s 0" using s by (simp_all add: unit_draws_def)
    then have "nat \<lfloor>s 0 * real n\<rfloor> < n" using n by (simp add: nat_less_iff floor_less_iff)
    then show "fst r < n \<and> fst r \<noteq> i \<and> unit_draws (snd r)"
      using IH [of n i "\<lambda>k. s (Suc k)" r] body n unit_draws_Suc [OF s] by (auto simp: Let_def split: if_splits)
  qed
  then show ?thesis using assms by simp
qed

lemma smo_visit_boxed:
  assumes "boxed C n st" "smo_visit (Fin C) tol K (map Fin ys) i st s = Some (st', c, s')" "unit_draws s" "i < n"
    and "length ys = n" "list_all (\<lambda>v. v \<in> {1, -1}) ys" "\<And>a b. a < n \<Longrightarrow> b < n \<Longrightarrow> K a b = Fin (kr a b)"
  shows "boxed C n st' \<and> unit_draws s'"
proof -
  obtain as b where st: "st = (map Fin as, Fin b)" "feasible C n as" using assms(1) by (auto simp: boxed_def)
  have len: "length as = n" using st(2) by (simp add: feasible_def)
  show ?thesis
  proof (cases "violates (Fin C) tol (rd (map Fin ys) i) (point_error K (map Fin ys) i st) (fst st ! i)")
    case False
    then show ?thesis using assms by (simp add: smo_visit_def Let_def)
  next
    case True
    then obtain j where j: "pick_other n i s = Some (j, s')"
      "fst (smo_update (Fin C) K (map Fin ys) i j (point_error K (map Fin ys) i st) st) = st'"
      using assms(2) by (auto simp: smo_visit_def Let_def st(1) len split: option.splits prod.splits)
    have r: "j < n \<and> j \<noteq> i \<and> unit_draws s'" using pick_other_range [OF j(1) assms(3)] assms(4) by auto
    have "\<exists>as' b'. fold (pair_step (Fin C) K (map Fin ys)) [(i, j)] (map Fin as, Fin b) = (map Fin as', Fin b') \<and> feasible C n as' \<and>
        \<bar>weighted_sum ys as' - weighted_sum ys as\<bar> \<le> real (length [(i, j)]) / 10 ^ 5"
      by (rule pair_steps_feasible [OF st(2) assms(5-7)]) (use r assms(4) in auto)
    then show ?thesis using j(2) r by (auto simp: pair_step_def st(1) boxed_def)
  qed
qed

lemma smo_pass_boxed:
  assumes "smo_pass (Fin C) tol K (map Fin ys) is st m s = Some (st', m', s')" "boxed C n st" "unit_draws s" "list_all (\<lambda>i. i < n) is"
    and "length ys = n" "list_all (\<lambda>v. v \<in> {1, -1}) ys" "\<And>a b. a < n \<Longrightarrow> b < n \<Longrightarrow> K a b = Fin (kr a b)"
  shows "boxed C n st' \<and> unit_draws s'"
  using assms(1-4)
proof (induction "is" arbitrary: st m s)
  case (Cons i "is")
  then obtain st1 c s1 where v: "smo_visit (Fin C) tol K (map Fin ys) i st s = Some (st1, c, s1)"
    "smo_pass (Fin C) tol K (map Fin ys) is st1 (if c then m + 1 else m) s1 = Some (st', m', s')"
    by (auto split: option.splits)
  then have "boxed C n st1 \<and> unit_draws s1"
    using Cons.prems assms(5-7) by (intro smo_visit_boxed [OF _ v(1)]) auto
  then show ?case using Cons.IH [OF v(2)] Cons.prems(4) by simp
qed simp

lemma smo_loop_boxed:
  assumes "length ys = n" "list_all (\<lambda>v. v \<in> {1, -1}) ys" "\<And>a b. a < n \<Longrightarrow> b < n \<Longrightarrow> K a b = Fin (kr a b)"
    and "smo_loop (Fin C) tol K (map Fin ys) p q st s = Some st'" "boxed C n st \<and> unit_draws s"
  shows "boxed C n st'"
proof -
  have "Fin C = Fin C \<and> K = K \<and> map Fin ys = map Fin ys \<and> boxed C n st \<and> unit_draws s \<longrightarrow> boxed C n st'"
  proof (rule smo_loop.raw_induct
      [where P = "\<lambda>c t k y p q st s st'. c = Fin C \<and> k = K \<and> y = map Fin ys \<and> boxed C n st \<and> unit_draws s \<longrightarrow> boxed C n st'", OF _ assms(4)], intro impI)
    fix rec c t k y p q st s st'
    assume IH: "\<And>c t k y p q st s st'. rec c t k y p q st s = Some st' \<Longrightarrow>
        c = Fin C \<and> k = K \<and> y = map Fin ys \<and> boxed C n st \<and> unit_draws s \<longrightarrow> boxed C n st'"
      and body: "(if q < p
          then case smo_pass c t k y [0..<length (fst st)] st 0 s of None \<Rightarrow> None
               | Some (st', numChanged, s') \<Rightarrow> rec c t k y p (if numChanged = 0 then q + 1 else 0) st' s'
          else Some st) = Some st'"
      and ok: "c = Fin C \<and> k = K \<and> y = map Fin ys \<and> boxed C n st \<and> unit_draws s"
    have len: "length (fst st) = n" using ok by (auto simp: boxed_def feasible_def)
    show "boxed C n st'"
    proof (cases "q < p")
      case False
      then show ?thesis using body ok by auto
    next
      case True
      then obtain st1 m s1 where pass: "smo_pass (Fin C) t K (map Fin ys) [0..<n] st 0 s = Some (st1, m, s1)"
        "rec (Fin C) t K (map Fin ys) p (if m = 0 then q + 1 else 0) st1 s1 = Some st'"
        using body ok by (auto simp: len split: option.splits)
      have "boxed C n st1 \<and> unit_draws s1"
        by (rule smo_pass_boxed [OF pass(1) _ _ _ assms(1-3)]) (use ok in \<open>simp_all add: list_all_length\<close>)
      then show ?thesis using IH [OF pass(2)] by simp
    qed
  qed
  then show ?thesis using assms(5) by simp
qed

lemma smo_result_boxed:
  assumes "smo (map (map Fin) X) (map Fin ys) (Fin C) (Fin \<gamma>) p tol s = Some m" "unit_draws s" "0 < C"
    and "length ys = length X" "list_all (\<lambda>v. v \<in> {1, -1}) ys" "list_all (\<lambda>x. length x = d) X"
  shows "\<exists>as. km_alpha m = map Fin as \<and> feasible C (length X) as"
proof -
  define K where "K = (\<lambda>i j. rbfKernel (map (map Fin) X ! i) (map (map Fin) X ! j) (Fin \<gamma>))"
  have "\<exists>kr. \<forall>a < length X. \<forall>b < length X. K a b = Fin (kr a b)"
    unfolding K_def by (intro choice_on) (use assms(6) rbf_Fin in \<open>simp add: list_all_length\<close>)
  then obtain kr where kr: "\<And>a b. a < length X \<Longrightarrow> b < length X \<Longrightarrow> K a b = Fin (kr a b)" by blast
  obtain st where st: "smo_loop (Fin C) tol K (map Fin ys) p 0 (replicate (length X) 0, 0) s = Some st" "km_alpha m = fst st"
    using assms(1) by (auto simp: smo_def Let_def K_def split: option.splits)
  have "boxed C (length X) (replicate (length X) 0, 0)"
    unfolding boxed_def using assms(3)
    by (intro exI [of _ "replicate (length X) 0"] exI [of _ 0]) (simp add: feasible_def list_all_length zero_jsnum_def)
  then have "boxed C (length X) st"
    using smo_loop_boxed [OF assms(4,5) kr st(1)] assms(2) by blast
  then show ?thesis by (auto simp: boxed_def st(2))
qed

end
