(* ===== verification/PatternScan.thy ===== *)
theory PatternScan
  imports Candles JsSort
begin

text \<open>
  The candlestick patterns of \<open>utils/patterns.ts\<close>. The key of a detection is the text of its time, an underscore and its type; the
  time has no underscore, so the pair of the two stands for it. The description is fixed by the type and left out.
\<close>

section \<open>Detection\<close>

datatype pattern_type =
  DOJI | HAMMER | SHOOTING_STAR | BULLISH_ENGULFING | BEARISH_ENGULFING | THREE_SOLDIERS | THREE_CROWS

datatype pattern_direction = Bullish | Bearish | Neutral

record detected_pattern =
  dp_time :: int
  dp_type :: pattern_type
  dp_direction :: pattern_direction
  dp_confidence :: jsnum

definition candle_body :: "chart_candle \<Rightarrow> jsnum" where
  "candle_body c = \<bar>cc_close c - cc_open c\<bar>"

definition upper_wick :: "chart_candle \<Rightarrow> jsnum" where
  "upper_wick c = cc_high c - jmax (cc_open c) (cc_close c)"

definition lower_wick :: "chart_candle \<Rightarrow> jsnum" where
  "lower_wick c = jmin (cc_open c) (cc_close c) - cc_low c"

definition candle_range :: "chart_candle \<Rightarrow> jsnum" where
  "candle_range c = jor (cc_high c - cc_low c) (Fin 0.0001)"

definition body_ratio :: "chart_candle \<Rightarrow> jsnum" where
  "body_ratio c = candle_body c / candle_range c"

definition single_patterns :: "chart_candle \<Rightarrow> detected_pattern list" where
  "single_patterns c =
     (if body_ratio c < Fin 0.1 \<and> candle_range c > 0
      then [\<lparr>dp_time = cc_time c, dp_type = DOJI, dp_direction = Neutral, dp_confidence = jround ((1 - body_ratio c) * 100)\<rparr>] else [])
     @ (if body_ratio c < Fin 0.35 \<and> lower_wick c > candle_body c * 2 \<and> upper_wick c \<le> candle_body c * 2
        then [\<lparr>dp_time = cc_time c, dp_type = HAMMER, dp_direction = Bullish,
               dp_confidence = jround (lower_wick c / candle_range c * 100)\<rparr>] else [])
     @ (if body_ratio c < Fin 0.35 \<and> upper_wick c > candle_body c * 2 \<and> lower_wick c \<le> candle_body c * 2
        then [\<lparr>dp_time = cc_time c, dp_type = SHOOTING_STAR, dp_direction = Bearish,
               dp_confidence = jround (upper_wick c / candle_range c * 100)\<rparr>] else [])"

definition engulfing_patterns :: "chart_candle \<Rightarrow> chart_candle \<Rightarrow> detected_pattern list" where
  "engulfing_patterns prev c =
     (if cc_close prev < cc_open prev \<and> cc_close c > cc_open c \<and> cc_close c \<ge> cc_open prev \<and> cc_open c \<le> cc_close prev
      then [\<lparr>dp_time = cc_time c, dp_type = BULLISH_ENGULFING, dp_direction = Bullish, dp_confidence = jround (body_ratio c * 100)\<rparr>]
      else [])
     @ (if cc_close prev > cc_open prev \<and> cc_close c < cc_open c \<and> cc_open c \<ge> cc_close prev \<and> cc_close c \<le> cc_open prev
        then [\<lparr>dp_time = cc_time c, dp_type = BEARISH_ENGULFING, dp_direction = Bearish, dp_confidence = jround (body_ratio c * 100)\<rparr>]
        else [])"

definition three_patterns :: "chart_candle \<Rightarrow> chart_candle \<Rightarrow> chart_candle \<Rightarrow> detected_pattern list" where
  "three_patterns prev2 prev c =
     (if cc_close prev2 > cc_open prev2 \<and> cc_close prev > cc_open prev \<and> cc_close c > cc_open c
         \<and> cc_close c > cc_close prev \<and> cc_close prev > cc_close prev2
      then [\<lparr>dp_time = cc_time c, dp_type = THREE_SOLDIERS, dp_direction = Bullish, dp_confidence = 85\<rparr>] else [])
     @ (if cc_close prev2 < cc_open prev2 \<and> cc_close prev < cc_open prev \<and> cc_close c < cc_open c
           \<and> cc_close c < cc_close prev \<and> cc_close prev < cc_close prev2
        then [\<lparr>dp_time = cc_time c, dp_type = THREE_CROWS, dp_direction = Bearish, dp_confidence = 85\<rparr>] else [])"

definition patterns_at :: "chart_candle list \<Rightarrow> nat \<Rightarrow> detected_pattern list" where
  \<comment> \<open>for \<open>2 \<le> i\<close>\<close>
  "patterns_at recent i =
     single_patterns (recent ! i) @ engulfing_patterns (recent ! (i - 1)) (recent ! i)
     @ three_patterns (recent ! (i - 2)) (recent ! (i - 1)) (recent ! i)"

section \<open>The report\<close>

definition pattern_key :: "detected_pattern \<Rightarrow> int \<times> pattern_type" where
  "pattern_key p = (dp_time p, dp_type p)"

definition keep_best ::
  "detected_pattern \<Rightarrow> (int \<times> pattern_type, detected_pattern) jsmap \<Rightarrow> (int \<times> pattern_type, detected_pattern) jsmap" where
  "keep_best p seen =
     (case map_get seen (pattern_key p) of
        None \<Rightarrow> map_set (pattern_key p) p seen
      | Some q \<Rightarrow> if dp_confidence q < dp_confidence p then map_set (pattern_key p) p seen else seen)"

definition detections :: "chart_candle list \<Rightarrow> nat \<Rightarrow> detected_pattern list" where
  "detections candles lookback =
     (let recent = slice_last lookback candles in concat (map (patterns_at recent) [2..<length recent]))"

definition detectCandlePatterns :: "chart_candle list option \<Rightarrow> nat \<Rightarrow> detected_pattern list" where
  "detectCandlePatterns candles lookback =
     (case candles of
        None \<Rightarrow> []
      | Some cs \<Rightarrow>
          if length cs < 3 then []
          else slice_last 20 (sort_by (\<lambda>p. Fin (of_int (dp_time p))) (map_values (fold keep_best (detections cs lookback) []))))"

section \<open>Laws\<close>

text \<open>A candle whose prices are numbers in the order the exchange sends them.\<close>

definition sound_candle :: "chart_candle \<Rightarrow> bool" where
  "sound_candle c \<longleftrightarrow> (case (cc_open c, cc_high c, cc_low c, cc_close c) of
     (Fin a, Fin h, Fin l, Fin b) \<Rightarrow> l \<le> a \<and> l \<le> b \<and> a \<le> h \<and> b \<le> h | _ \<Rightarrow> False)"

lemma sound_candleE:
  assumes "sound_candle c"
  obtains a h l b where "cc_open c = Fin a" "cc_high c = Fin h" "cc_low c = Fin l" "cc_close c = Fin b"
    "l \<le> a" "l \<le> b" "a \<le> h" "b \<le> h"
  using assms by (auto simp: sound_candle_def split: jsnum.splits)

definition percent_number :: "jsnum \<Rightarrow> bool" where
  "percent_number v \<longleftrightarrow> 0 \<le> v \<and> v \<le> 100"

lemma round_percent: "0 \<le> x \<Longrightarrow> x \<le> 1 \<Longrightarrow> percent_number (jround (Fin (x * 100)))"
  by (auto simp: percent_number_def)

lemma percent_number_num: "percent_number v \<Longrightarrow> v \<noteq> NaN"
  by (auto simp: percent_number_def)

lemma candle_ratios:
  assumes "sound_candle c"
  obtains r u l where "body_ratio c = Fin r" "upper_wick c / candle_range c = Fin u" "lower_wick c / candle_range c = Fin l"
    "0 \<le> r" "r \<le> 1" "0 \<le> u" "u \<le> 1" "0 \<le> l" "l \<le> 1"
proof -
  obtain a h l b where c: "cc_open c = Fin a" "cc_high c = Fin h" "cc_low c = Fin l" "cc_close c = Fin b"
    and le: "l \<le> a" "l \<le> b" "a \<le> h" "b \<le> h" using assms by (rule sound_candleE)
  define rg where "rg = (if h - l \<noteq> 0 then h - l else 0.0001)"
  have rg: "0 < rg" using le by (simp add: rg_def)
  have unit: "0 \<le> x / rg \<and> x / rg \<le> 1" if "0 \<le> x" "x \<le> h - l" for x
    using that rg by (auto simp: rg_def split: if_splits)
  have "candle_range c = Fin rg" by (simp add: candle_range_def c rg_def)
  then have "body_ratio c = Fin (\<bar>b - a\<bar> / rg)" "upper_wick c / candle_range c = Fin ((h - max a b) / rg)"
    "lower_wick c / candle_range c = Fin ((min a b - l) / rg)"
    using rg by (simp_all add: body_ratio_def candle_body_def upper_wick_def lower_wick_def c)
  then show ?thesis
    using unit [of "\<bar>b - a\<bar>"] unit [of "h - max a b"] unit [of "min a b - l"] le by (intro that) auto
qed

lemma patterns_at_sound:
  assumes "sound_candle (recent ! i)" "p \<in> set (patterns_at recent i)"
  shows "dp_time p = cc_time (recent ! i) \<and> percent_number (dp_confidence p)"
proof -
  obtain r u l where r: "body_ratio (recent ! i) = Fin r" "upper_wick (recent ! i) / candle_range (recent ! i) = Fin u"
    "lower_wick (recent ! i) / candle_range (recent ! i) = Fin l"
    "0 \<le> r" "r \<le> 1" "0 \<le> u" "u \<le> 1" "0 \<le> l" "l \<le> 1" using assms(1) by (rule candle_ratios)
  have conf: "percent_number (jround ((1 - body_ratio (recent ! i)) * 100))"
    "percent_number (jround (lower_wick (recent ! i) / candle_range (recent ! i) * 100))"
    "percent_number (jround (upper_wick (recent ! i) / candle_range (recent ! i) * 100))"
    "percent_number (jround (body_ratio (recent ! i) * 100))"
    using r round_percent [of r] round_percent [of u] round_percent [of l] round_percent [of "1 - r"]
    by (simp_all del: jround.simps)
  have const: "percent_number 85" by (simp add: percent_number_def)
  have "p \<in> set (single_patterns (recent ! i)) \<or> p \<in> set (engulfing_patterns (recent ! (i - 1)) (recent ! i))
      \<or> p \<in> set (three_patterns (recent ! (i - 2)) (recent ! (i - 1)) (recent ! i))"
    using assms(2) by (simp add: patterns_at_def)
  then show ?thesis
  proof (elim disjE)
    assume "p \<in> set (single_patterns (recent ! i))"
    then show ?thesis unfolding single_patterns_def set_append Un_iff
      by (elim disjE) (simp_all add: conf del: jround.simps numeral_Fin one_Fin split: if_splits)
  next
    assume "p \<in> set (engulfing_patterns (recent ! (i - 1)) (recent ! i))"
    then show ?thesis unfolding engulfing_patterns_def set_append Un_iff
      by (elim disjE) (simp_all add: conf del: jround.simps numeral_Fin one_Fin split: if_splits)
  next
    assume "p \<in> set (three_patterns (recent ! (i - 2)) (recent ! (i - 1)) (recent ! i))"
    then show ?thesis unfolding three_patterns_def set_append Un_iff
      by (elim disjE) (simp_all add: const del: jround.simps numeral_Fin one_Fin split: if_splits)
  qed
qed

lemma detections_sound:
  assumes "list_all sound_candle cs" "p \<in> set (detections cs lookback)"
  shows "percent_number (dp_confidence p) \<and> (\<exists>c \<in> set cs. dp_time p = cc_time c)"
proof -
  obtain i where i: "i < length (slice_last lookback cs)" "p \<in> set (patterns_at (slice_last lookback cs) i)"
    using assms(2) by (auto simp: detections_def Let_def)
  have "slice_last lookback cs ! i \<in> set cs" by (rule subsetD [OF set_slice_last nth_mem [OF i(1)]])
  then show ?thesis
    using patterns_at_sound [OF _ i(2)] assms(1) by (auto simp: list_all_iff)
qed

text \<open>The map of the best detection per key.\<close>

definition best_entry :: "detected_pattern list \<Rightarrow> (int \<times> pattern_type) \<times> detected_pattern \<Rightarrow> bool" where
  "best_entry ds e \<longleftrightarrow> fst e = pattern_key (snd e) \<and> snd e \<in> set ds \<and>
     (\<forall>q \<in> set ds. pattern_key q = fst e \<longrightarrow> dp_confidence q \<le> dp_confidence (snd e))"

definition best_map :: "detected_pattern list \<Rightarrow> (int \<times> pattern_type, detected_pattern) jsmap \<Rightarrow> bool" where
  "best_map ds m \<longleftrightarrow> map_ok m \<and> set (map fst m) = pattern_key ` set ds \<and> (\<forall>e \<in> set m. best_entry ds e)"

lemma best_entry_more:
  assumes "best_entry ds e" "pattern_key p = fst e \<Longrightarrow> dp_confidence p \<le> dp_confidence (snd e)"
  shows "best_entry (ds @ [p]) e"
  using assms by (auto simp: best_entry_def)

lemma keep_best_map:
  assumes m: "best_map ds m" and num: "\<forall>q \<in> set (p # ds). dp_confidence q \<noteq> NaN"
  shows "best_map (ds @ [p]) (keep_best p m)"
proof -
  have ok: "map_ok m" and keys: "set (map fst m) = pattern_key ` set ds" and best: "\<And>e. e \<in> set m \<Longrightarrow> best_entry ds e"
    using m by (simp_all add: best_map_def)
  have self: "dp_confidence p \<le> dp_confidence p" using num by (cases "dp_confidence p") auto
  have keys': "set (map fst (map_set (pattern_key p) p m)) = pattern_key ` set (ds @ [p])"
    unfolding keys_map_set keys by simp
  have ok': "map_ok (map_set (pattern_key p) p m)" using ok by blast
  have other: "e \<in> set m" if "e \<in> set (map_set (pattern_key p) p m)" "fst e \<noteq> pattern_key p" for e
    using that set_map_set by fastforce
  have own: "snd e = p" if "e \<in> set (map_set (pattern_key p) p m)" "fst e = pattern_key p" for e
  proof -
    have "map_get (map_set (pattern_key p) p m) (fst e) = Some (snd e)"
      using that(1) ok' map_of_is_SomeI [of "map_set (pattern_key p) p m" "fst e" "snd e"] unfolding map_ok_def by simp
    then show ?thesis using that(2) by simp
  qed
  have written: "best_map (ds @ [p]) (map_set (pattern_key p) p m)"
    if le: "\<And>q. q \<in> set ds \<Longrightarrow> pattern_key q = pattern_key p \<Longrightarrow> dp_confidence q \<le> dp_confidence p"
    unfolding best_map_def
  proof (intro conjI ballI ok' keys')
    fix e assume e: "e \<in> set (map_set (pattern_key p) p m)"
    show "best_entry (ds @ [p]) e"
    proof (cases "fst e = pattern_key p")
      case True
      then show ?thesis using own [OF e] le self by (auto simp: best_entry_def)
    next
      case False
      then show ?thesis using best [OF other [OF e]] by (intro best_entry_more) auto
    qed
  qed
  show ?thesis
  proof (cases "map_get m (pattern_key p)")
    case None
    then have "pattern_key p \<notin> pattern_key ` set ds" using keys by (simp add: map_of_eq_None_iff)
    then have "best_map (ds @ [p]) (map_set (pattern_key p) p m)" by (intro written) (metis imageI)
    then show ?thesis using None by (simp add: keep_best_def)
  next
    case (Some q)
    then have q: "(pattern_key p, q) \<in> set m" by (rule map_of_SomeD)
    have bq: "best_entry ds (pattern_key p, q)" using best [OF q] .
    show ?thesis
    proof (cases "dp_confidence q < dp_confidence p")
      case True
      then have "dp_confidence r \<le> dp_confidence p" if "r \<in> set ds" "pattern_key r = pattern_key p" for r
        using bq that jsnum_le_trans jsnum_less_imp_le by (auto simp: best_entry_def)
      then show ?thesis using Some True written by (simp add: keep_best_def)
    next
      case False
      then have le: "dp_confidence p \<le> dp_confidence q" using num bq by (simp add: jsnum_not_less best_entry_def)
      have "best_entry (ds @ [p]) e" if e: "e \<in> set m" for e
      proof (rule best_entry_more [OF best [OF e]])
        assume "pattern_key p = fst e"
        then have "snd e = q" using e q ok by (metis eq_key_imp_eq_value map_ok_def prod.collapse)
        then show "dp_confidence p \<le> dp_confidence (snd e)" using le by simp
      qed
      moreover have "pattern_key p \<in> pattern_key ` set ds" using q keys by force
      ultimately have "best_map (ds @ [p]) m" using ok keys by (simp add: best_map_def insert_absorb)
      then show ?thesis using Some False by (simp add: keep_best_def)
    qed
  qed
qed

lemma fold_keep_best:
  assumes "best_map ds m" "\<forall>q \<in> set (ds @ ps). dp_confidence q \<noteq> NaN"
  shows "best_map (ds @ ps) (fold keep_best ps m)"
  using assms
proof (induction ps arbitrary: ds m)
  case (Cons p ps)
  have "best_map (ds @ [p]) (keep_best p m)" using Cons.prems by (intro keep_best_map) auto
  then show ?case using Cons.IH [of "ds @ [p]" "keep_best p m"] Cons.prems(2) by simp
qed simp

text \<open>
  C34: on sound candles the report has at most 20 patterns, in order of time, one per time and type, each detected in the
  window, of a candle's time, with the highest confidence among the detections of its time and type, a number between 0 and 100; and when there are no more
  than 20 kinds of detection, none is missing.
\<close>

theorem pattern_report:
  assumes "list_all sound_candle cs" "3 \<le> length cs"
  shows "length (detectCandlePatterns (Some cs) lookback) \<le> 20 \<and>
    sorted_wrt (\<lambda>p q. dp_time p \<le> dp_time q) (detectCandlePatterns (Some cs) lookback) \<and>
    distinct (map pattern_key (detectCandlePatterns (Some cs) lookback)) \<and>
    list_all (\<lambda>p. p \<in> set (detections cs lookback) \<and> percent_number (dp_confidence p) \<and> dp_time p \<in> set (map cc_time cs) \<and>
        list_all (\<lambda>q. pattern_key q = pattern_key p \<longrightarrow> dp_confidence q \<le> dp_confidence p) (detections cs lookback))
      (detectCandlePatterns (Some cs) lookback) \<and>
    (card (set (map pattern_key (detections cs lookback))) \<le> 20 \<longrightarrow>
      set (map pattern_key (detectCandlePatterns (Some cs) lookback)) = set (map pattern_key (detections cs lookback)))"
proof -
  define ds m where "ds = detections cs lookback" and "m = fold keep_best ds []"
  define all where "all = sort_by (\<lambda>p. Fin (of_int (dp_time p))) (map_values m)"
  have r: "detectCandlePatterns (Some cs) lookback = slice_last 20 all"
    using assms(2) by (simp add: detectCandlePatterns_def all_def m_def ds_def)
  have ds: "percent_number (dp_confidence p) \<and> dp_time p \<in> set (map cc_time cs)" if "p \<in> set ds" for p
    using detections_sound [OF assms(1)] that by (auto simp: ds_def)
  have "best_map ([] @ ds) m"
    unfolding m_def by (rule fold_keep_best) (use ds percent_number_num in \<open>fastforce simp: best_map_def best_entry_def\<close>)+
  then have m: "best_map ds m" by simp
  have all: "set all = set (map_values m)" by (simp add: all_def)
  have keys: "map pattern_key (map_values m) = map fst m" using m by (simp add: best_map_def best_entry_def)
  have "distinct (map fst m)" using m by (simp add: best_map_def map_ok_def)
  then have "distinct (map pattern_key (map_values m))" using keys by argo
  then have "distinct (map pattern_key all)"
    unfolding all_def by (rule distinct_sort_by)
  then have dist: "distinct (map pattern_key (slice_last 20 all))" using distinct_slice_last by (simp add: slice_last_map [symmetric])
  have "sorted_wrt (\<lambda>p q. Fin (of_int (dp_time p)) \<le> Fin (of_int (dp_time q))) all"
    unfolding all_def by (rule sorted_sort_by) simp
  then have sort: "sorted_wrt (\<lambda>p q. dp_time p \<le> dp_time q) (slice_last 20 all)"
    by (intro sorted_slice_last) simp
  have el: "p \<in> set ds \<and> (\<forall>q \<in> set ds. pattern_key q = pattern_key p \<longrightarrow> dp_confidence q \<le> dp_confidence p)"
    if "p \<in> set (slice_last 20 all)" for p
  proof -
    have "p \<in> set (map_values m)" using subsetD [OF set_slice_last that] all by simp
    then obtain k where "(k, p) \<in> set m" by auto
    then have "best_entry ds (k, p)" using m unfolding best_map_def by blast
    then show ?thesis by (simp add: best_entry_def)
  qed
  have full: "set (map pattern_key (slice_last 20 all)) = set (map pattern_key ds)" if "card (set (map pattern_key ds)) \<le> 20"
  proof -
    have kd: "set (map pattern_key all) = set (map pattern_key ds)"
      using m keys all by (metis best_map_def set_map)
    have "length all = card (set (map pattern_key all))"
      using \<open>distinct (map pattern_key all)\<close> distinct_card by fastforce
    then have "length all \<le> 20" using that kd by simp
    then show ?thesis using kd by (simp add: slice_last_id)
  qed
  show ?thesis
    using dist sort el full ds by (simp add: r ds_def [symmetric] length_slice_last list_all_iff)
qed

theorem pattern_report_witness:
  "length (detectCandlePatterns (Some (replicate 3 \<lparr>cc_time = 0, cc_open = 1, cc_high = 1, cc_low = 1, cc_close = 1, cc_volume = 0\<rparr>)) 50) \<le> 20"
proof -
  define c :: chart_candle where "c = \<lparr>cc_time = 0, cc_open = 1, cc_high = 1, cc_low = 1, cc_close = 1, cc_volume = 0\<rparr>"
  have "list_all sound_candle (replicate 3 c)" by (simp add: sound_candle_def c_def list_all_iff)
  then show ?thesis using pattern_report [of "replicate 3 c" 50] by (simp add: c_def)
qed

end
