(* ===== verification/PerformanceStats.thy ===== *)
theory PerformanceStats
  imports JsDecimal JsSort
begin

text \<open>
  The performance dashboard: the metrics of \<open>utils/performance.ts\<close>, the win rate and drawdown of the report of
  \<open>utils/performanceReport.js\<close>, and the figures of \<open>components/PerformanceDashboard.jsx\<close> and its parts
  \<open>performance/RiskMetricsPanel.jsx\<close> and \<open>StreakPanel.jsx\<close>. A field that may be missing is NaN when it is, which the
  code's \<open>|| 0\<close> cannot tell from \<open>undefined\<close>.
\<close>

section \<open>Metrics over the accounts\<close>

record account_data =
  ad_balance :: jsnum
  ad_equity :: jsnum
  ad_total_pnl :: jsnum
  ad_pnl :: jsnum
  ad_total_fees :: jsnum
  ad_fees :: jsnum
  ad_total_trades :: jsnum
  ad_winning_trades :: jsnum
  ad_positions :: "nat option"

type_synonym exchange_ref = "string \<times> jsnum"

record aggregate_metrics =
  am_totalBalance :: jsnum
  am_totalEquity :: jsnum
  am_totalPnl :: jsnum
  am_totalFees :: jsnum
  am_totalTrades :: jsnum
  am_totalWins :: jsnum \<comment> \<open>a local of the loop, not in the result\<close>
  am_totalPositions :: jsnum
  am_best :: "exchange_ref option"
  am_worst :: "exchange_ref option"

definition no_metrics :: aggregate_metrics where
  "no_metrics = \<lparr>am_totalBalance = 0, am_totalEquity = 0, am_totalPnl = 0, am_totalFees = 0, am_totalTrades = 0, am_totalWins = 0,
     am_totalPositions = 0, am_best = None, am_worst = None\<rparr>"

definition account_pnl :: "account_data \<Rightarrow> jsnum" where
  "account_pnl acc = jor (ad_total_pnl acc) (jor (ad_pnl acc) 0)"

definition add_account :: "string \<times> account_data \<Rightarrow> aggregate_metrics \<Rightarrow> aggregate_metrics" where
  "add_account entry m =
     (let (i, acc) = entry;
          balance = jor (ad_balance acc) 0;
          equity = jor (ad_equity acc) balance;
          pnl = account_pnl acc;
          fees = jor (ad_total_fees acc) (jor (ad_fees acc) 0)
      in m\<lparr>am_totalBalance := am_totalBalance m + balance, am_totalEquity := am_totalEquity m + equity,
           am_totalPnl := am_totalPnl m + pnl, am_totalFees := am_totalFees m + fees,
           am_totalTrades := am_totalTrades m + jor (ad_total_trades acc) 0,
           am_totalWins := am_totalWins m + jor (ad_winning_trades acc) 0,
           am_totalPositions := am_totalPositions m + (case ad_positions acc of None \<Rightarrow> 0 | Some n \<Rightarrow> jnat n),
           am_best := (case am_best m of None \<Rightarrow> Some (i, pnl) | Some b \<Rightarrow> if pnl > snd b then Some (i, pnl) else Some b),
           am_worst := (case am_worst m of None \<Rightarrow> Some (i, pnl) | Some w \<Rightarrow> if pnl < snd w then Some (i, pnl) else Some w)\<rparr>)"

text \<open>The metrics with the average win rate.\<close>

definition calcAggregateMetrics :: "(string \<times> account_data) list \<Rightarrow> aggregate_metrics \<times> jsnum" where
  "calcAggregateMetrics accounts =
     (let m = fold add_account accounts no_metrics
      in (m, if am_totalTrades m > 0 then am_totalWins m / am_totalTrades m * 100 else 0))"

section \<open>Equity curve and drawdown\<close>

record fill_data =
  fd_received_at :: jsnum
  fd_timestamp :: jsnum
  fd_fee :: jsnum
  fd_pnl :: jsnum

type_synonym equity_point = "jsnum \<times> jsnum" \<comment> \<open>time and value\<close>

definition fill_time :: "fill_data \<Rightarrow> jsnum" where
  "fill_time f = jor (fd_received_at f) (jor (fd_timestamp f) 0)"

definition fill_effect :: "fill_data \<Rightarrow> jsnum" where
  "fill_effect f = jor (fd_pnl f) 0 - jor (fd_fee f) 0"

fun curve_from :: "jsnum \<Rightarrow> jsnum \<Rightarrow> fill_data list \<Rightarrow> equity_point list" where
  \<comment> \<open>the first argument is the present time\<close>
  "curve_from now balance [] = []"
| "curve_from now balance (f # fs) =
     (let balance' = balance + fill_effect f
      in (jor (fd_received_at f) (jor (fd_timestamp f) now), balance') # curve_from now balance' fs)"

definition buildEquityCurve :: "jsnum \<Rightarrow> fill_data list option \<Rightarrow> jsnum \<Rightarrow> equity_point list" where
  "buildEquityCurve now fills initialBalance =
     (case fills of
        None \<Rightarrow> [(0, initialBalance)]
      | Some fs \<Rightarrow> (0, initialBalance) # curve_from now initialBalance (sort_by fill_time fs))"

fun drawdowns_from :: "jsnum \<Rightarrow> equity_point list \<Rightarrow> equity_point list" where
  "drawdowns_from peak [] = []"
| "drawdowns_from peak ((t, v) # ps) =
     (let peak' = jmax peak v
      in (t, if peak' > 0 then (peak' - v) / peak' * 100 else 0) # drawdowns_from peak' ps)"

definition calcDrawdown :: "equity_point list \<Rightarrow> equity_point list" where
  "calcDrawdown curve = (case curve of [] \<Rightarrow> [] | p # ps \<Rightarrow> drawdowns_from (snd p) curve)"

section \<open>Ratios\<close>

definition mean_of :: "jsnum list \<Rightarrow> jsnum" where
  "mean_of xs = jsum xs / jnat (length xs)"

text \<open>Both take the \<open>pnl\<close> fields of the trades.\<close>

definition calcSharpeRatio :: "jsnum list \<Rightarrow> jsnum" where
  "calcSharpeRatio trades =
     (if length trades < 2 then 0
      else
        let pnls = map (\<lambda>p. jor p 0) trades;
            mean = mean_of pnls;
            stdDev = jsqrt (mean_of (map (\<lambda>v. (v - mean) ^ 2) pnls))
        in if jeq stdDev 0 then 0 else mean / stdDev * jsqrt 252)"

definition calcSortinoRatio :: "jsnum list \<Rightarrow> jsnum" where
  "calcSortinoRatio trades =
     (if length trades < 2 then 0
      else
        let pnls = map (\<lambda>p. jor p 0) trades;
            mean = mean_of pnls;
            downside = filter (\<lambda>v. v < 0) pnls
        in if downside = [] then (if mean > 0 then PInf else 0)
           else
             let dev = jsqrt (mean_of (map (\<lambda>v. v * v) downside))
             in if jeq dev 0 then 0 else mean / dev * jsqrt 252)"

section \<open>What the panel and the report show\<close>

definition shown_max_drawdown :: "equity_point list \<Rightarrow> jsnum" where
  "shown_max_drawdown drawdown = (if drawdown \<noteq> [] then to_fixed 2 (jmin_list (map snd drawdown)) else 0)"

definition profit_factor :: "jsnum list \<Rightarrow> jsnum option" where
  \<comment> \<open>\<open>None\<close>: two dashes; infinity is shown as its sign\<close>
  "profit_factor pnls =
     (let gp = jsum (filter (\<lambda>p. jor p 0 > 0) pnls); gl = \<bar>jsum (filter (\<lambda>p. jor p 0 < 0) pnls)\<bar>
      in if gl > 0 then Some (to_fixed 2 (gp / gl)) else if gp > 0 then Some PInf else None)"

definition avg_win :: "jsnum list \<Rightarrow> jsnum option" where
  "avg_win pnls = (let wins = filter (\<lambda>p. jor p 0 > 0) pnls in if wins \<noteq> [] then Some (to_fixed 2 (mean_of wins)) else None)"

definition avg_loss :: "jsnum list \<Rightarrow> jsnum option" where
  "avg_loss pnls =
     (let losses = filter (\<lambda>p. jor p 0 < 0) pnls
      in if losses \<noteq> [] then Some (to_fixed 2 (\<bar>jsum losses\<bar> / jnat (length losses))) else None)"

definition fees_share :: "(string \<times> account_data) list \<Rightarrow> jsnum option" where
  "fees_share accounts =
     (let total = am_totalPnl (fst (calcAggregateMetrics accounts))
      in if \<not> jeq total 0
         then Some (to_fixed 1 \<bar>jsum (map (\<lambda>(i, a). jor (ad_total_fees a) 0) accounts) / total * 100\<bar>) else None)"

text \<open>The report is given these metrics, which have no fields \<open>winningTrades\<close> and \<open>maxDrawdown\<close>: both are read as \<open>undefined\<close>.\<close>

definition report_cards :: "aggregate_metrics \<Rightarrow> jsnum \<times> jsnum" where
  "report_cards metrics =
     (let totalTrades = jor (am_totalTrades metrics) 0; winningTrades = NaN; maxDrawdown = NaN
      in (if totalTrades > 0 then to_fixed 1 (jor winningTrades 0 / totalTrades * 100) else 0, to_fixed 2 (jor maxDrawdown 0)))"

section \<open>Streaks\<close>

record closed_trade =
  ct_pnl :: jsnum
  ct_close_time :: jsnum

record streaks =
  sk_curWin :: nat
  sk_curLoss :: nat
  sk_maxWin :: nat
  sk_maxLoss :: nat

definition add_to_streak :: "closed_trade \<Rightarrow> streaks \<Rightarrow> streaks" where
  "add_to_streak t s =
     (if ct_pnl t \<ge> 0
      then s\<lparr>sk_curWin := sk_curWin s + 1, sk_curLoss := 0, sk_maxWin := max (sk_maxWin s) (sk_curWin s + 1)\<rparr>
      else s\<lparr>sk_curLoss := sk_curLoss s + 1, sk_curWin := 0, sk_maxLoss := max (sk_maxLoss s) (sk_curLoss s + 1)\<rparr>)"

definition count_streaks :: "closed_trade list \<Rightarrow> streaks" where
  "count_streaks trades =
     fold add_to_streak (sort_by (\<lambda>t. - ct_close_time t) trades) \<lparr>sk_curWin = 0, sk_curLoss = 0, sk_maxWin = 0, sk_maxLoss = 0\<rparr>"

definition currentStreak :: "closed_trade list \<Rightarrow> int" where
  "currentStreak trades =
     (let s = count_streaks trades in if sk_curWin s > 0 then int (sk_curWin s) else - int (sk_curLoss s))"

end
