(* ===== verification/PerformanceLaws.thy ===== *)
theory PerformanceLaws
  imports PerformanceStats
begin

text \<open>
  Laws of the performance dashboard: the equity curve and its drawdown are right, but the panel shows the smallest drawdown,
  the report a win rate of 0, and the current streak is that of the oldest trades.
\<close>

section \<open>Equity curve and drawdown\<close>

definition effect_real :: "fill_data \<Rightarrow> real" where
  "effect_real f = (case fill_effect f of Fin r \<Rightarrow> r | _ \<Rightarrow> 0)"

fun running :: "real \<Rightarrow> real list \<Rightarrow> real list" where
  "running c [] = []"
| "running c (x # xs) = (c + x) # running (c + x) xs"

lemma length_running [simp]: "length (running c xs) = length xs"
  by (induction xs arbitrary: c) auto

lemma running_nth: "i < length xs \<Longrightarrow> running c xs ! i = c + sum_list (take (Suc i) xs)"
proof (induction xs arbitrary: c i)
  case (Cons x xs)
  then show ?case by (cases i) simp_all
qed simp

lemma curve_from_Fin:
  "list_all (\<lambda>f. is_fin (fill_effect f)) fs \<Longrightarrow>
    map snd (curve_from now (Fin c) fs) = map Fin (running c (map effect_real fs))"
proof (induction fs arbitrary: c)
  case (Cons f fs)
  then have "fill_effect f = Fin (effect_real f)" by (auto simp: effect_real_def elim!: is_finE)
  then show ?case using Cons by (simp add: Let_def)
qed simp

definition equity_values :: "real \<Rightarrow> fill_data list \<Rightarrow> real list" where
  "equity_values c fs = c # running c (map effect_real (sort_by fill_time fs))"

lemma equity_curve_values:
  assumes "list_all (\<lambda>f. is_fin (fill_effect f)) fs"
  shows "map snd (buildEquityCurve now (Some fs) (Fin c)) = map Fin (equity_values c fs)"
proof -
  have "list_all (\<lambda>f. is_fin (fill_effect f)) (sort_by fill_time fs)" using assms by (simp add: list_all_iff)
  then show ?thesis using curve_from_Fin by (simp add: buildEquityCurve_def equity_values_def)
qed

lemma drawdowns_from_Fin:
  assumes "map snd ps = map Fin vs" "0 < p"
  shows "map snd (drawdowns_from (Fin p) ps) =
    map (\<lambda>i. Fin ((Max (insert p (set (take (Suc i) vs))) - vs ! i) / Max (insert p (set (take (Suc i) vs))) * 100)) [0..<length vs]"
  using assms
proof (induction ps arbitrary: p vs)
  case (Cons q ps)
  obtain t v vs' where q: "q = (t, Fin v)" "vs = v # vs'" "map snd ps = map Fin vs'"
    using Cons.prems(1) by (cases q; cases vs) auto
  have m: "0 < max p v" using Cons.prems(2) by simp
  have step: "Max (insert (max p v) (set (take (Suc i) vs'))) = Max (insert p (set (take (Suc (Suc i)) vs)))" for i
  proof -
    have "Max (insert p (insert v (set (take (Suc i) vs')))) = max p (Max (insert v (set (take (Suc i) vs'))))" by simp
    moreover have "Max (insert (max p v) (set (take (Suc i) vs'))) = max p (Max (insert v (set (take (Suc i) vs'))))"
      by (cases "set (take (Suc i) vs') = {}") (auto simp: max.assoc)
    ultimately show ?thesis by (simp add: q)
  qed
  have "[0..<length vs] = 0 # map Suc [0..<length vs']" by (simp add: q upt_conv_Cons map_Suc_upt del: upt_Suc)
  then show ?case
    using Cons.IH [OF q(3) m] m by (simp add: q step [unfolded q] Let_def del: upt_Suc)
qed simp

definition peak_to :: "real list \<Rightarrow> nat \<Rightarrow> real" where
  "peak_to vs i = Max (set (take (Suc i) vs))"

text \<open>
  on fills with finite effects and a positive start the drawdown at each point of the equity curve is the fall from the running
  peak in percent, a number that is not negative; but the figure the panel calls maximum drawdown is the smallest of them, which is
  always 0.
\<close>

theorem shown_drawdown_is_zero:
  assumes "list_all (\<lambda>f. is_fin (fill_effect f)) fs" "0 < c"
  shows "map snd (calcDrawdown (buildEquityCurve now (Some fs) (Fin c))) =
      map (\<lambda>i. Fin ((peak_to (equity_values c fs) i - equity_values c fs ! i) / peak_to (equity_values c fs) i * 100)) [0..<length fs + 1] \<and>
    list_all (\<lambda>v. 0 \<le> v) (map snd (calcDrawdown (buildEquityCurve now (Some fs) (Fin c)))) \<and>
    shown_max_drawdown (calcDrawdown (buildEquityCurve now (Some fs) (Fin c))) = 0"
proof -
  define vs where "vs = equity_values c fs"
  define d where "d = (\<lambda>i. (peak_to vs i - vs ! i) / peak_to vs i * 100)"
  have vs: "map snd (buildEquityCurve now (Some fs) (Fin c)) = map Fin vs" "length vs = length fs + 1" "vs ! 0 = c"
    using equity_curve_values [OF assms(1)] by (simp_all add: vs_def equity_values_def)
  have tk: "set (take (Suc i) vs) = insert c (set (take (Suc i) vs))" for i
    using vs by (cases vs) (auto simp: vs_def)
  have "calcDrawdown (buildEquityCurve now (Some fs) (Fin c)) = drawdowns_from (Fin c) (buildEquityCurve now (Some fs) (Fin c))"
    by (simp add: calcDrawdown_def buildEquityCurve_def)
  then have dd: "map snd (calcDrawdown (buildEquityCurve now (Some fs) (Fin c))) = map Fin (map d [0..<length fs + 1])"
    using drawdowns_from_Fin [OF vs(1) assms(2)] tk unfolding d_def peak_to_def by (simp add: vs(2) del: upt_Suc)
  have "0 \<le> d i" if "i < length vs" for i
  proof -
    have "c \<le> peak_to vs i" "vs ! i \<le> peak_to vs i"
      unfolding peak_to_def by (rule Max_ge; use tk [of i] that in \<open>auto simp: take_Suc_conv_app_nth\<close>)+
    then show ?thesis using assms(2) by (simp add: d_def)
  qed
  then have nn: "list_all (\<lambda>v. 0 \<le> v) (map d [0..<length fs + 1])" using vs by (auto simp: list_all_iff)
  have d0: "d 0 = 0" using vs by (cases vs) (simp_all add: d_def peak_to_def)
  have fold: "foldl jmin (Fin a) (map Fin xs) = Fin a" if "list_all (\<lambda>v. a \<le> v) xs" for a xs
    using that by (induction xs) auto
  have "jmin_list (map snd (calcDrawdown (buildEquityCurve now (Some fs) (Fin c)))) = 0"
  proof -
    have "[0..<length fs + 1] = 0 # [1..<length fs + 1]" by (simp add: upt_conv_Cons del: upt_Suc)
    then show ?thesis unfolding dd jmin_list_def using nn d0 fold [of 0 "map d [1..<length fs + 1]"] by (simp del: upt_Suc)
  qed
  moreover have "calcDrawdown (buildEquityCurve now (Some fs) (Fin c)) \<noteq> []" using dd by auto
  ultimately have "shown_max_drawdown (calcDrawdown (buildEquityCurve now (Some fs) (Fin c))) = 0"
    by (simp add: shown_max_drawdown_def)
  then show ?thesis using dd nn unfolding d_def vs_def by (auto simp: list_all_iff simp del: upt_Suc)
qed

theorem shown_drawdown_is_zero_witness:
  "snd (calcDrawdown (buildEquityCurve 0 (Some [\<lparr>fd_received_at = 1, fd_timestamp = 1, fd_fee = 0, fd_pnl = - 50\<rparr>]) 100) ! 1) = 50 \<and>
   shown_max_drawdown (calcDrawdown (buildEquityCurve 0 (Some [\<lparr>fd_received_at = 1, fd_timestamp = 1, fd_fee = 0, fd_pnl = - 50\<rparr>]) 100)) = 0"
  using shown_drawdown_is_zero [of "[\<lparr>fd_received_at = 1, fd_timestamp = 1, fd_fee = 0, fd_pnl = - 50\<rparr>]" 100 0]
  by (simp add: fill_effect_def buildEquityCurve_def calcDrawdown_def sort_by_def)

text \<open>The report shows a win rate and a drawdown of 0, whatever the accounts.\<close>

lemma report_shows_zero:
  assumes "calcAggregateMetrics accounts = (m, rate)" "is_fin (am_totalTrades m)"
  shows "report_cards m = (0, 0)"
  using assms(2) by (auto simp: report_cards_def Let_def elim!: is_finE)

section \<open>Streaks\<close>

abbreviation wins :: "closed_trade \<Rightarrow> bool" where
  "wins t \<equiv> ct_pnl t \<ge> 0"

definition no_streaks :: streaks where
  "no_streaks = \<lparr>sk_curWin = 0, sk_curLoss = 0, sk_maxWin = 0, sk_maxLoss = 0\<rparr>"

definition longest_run :: "('a \<Rightarrow> bool) \<Rightarrow> 'a list \<Rightarrow> nat \<Rightarrow> bool" where
  "longest_run P xs m \<longleftrightarrow> (\<exists>as ws bs. xs = as @ ws @ bs \<and> list_all P ws \<and> length ws = m) \<and>
     (\<forall>as ws bs. xs = as @ ws @ bs \<and> list_all P ws \<longrightarrow> length ws \<le> m)"

lemma suffix_run: "xs = as @ ws \<Longrightarrow> list_all P ws \<Longrightarrow> length ws \<le> length (takeWhile P (rev xs))"
  using takeWhile_append2 [of "rev ws" P "rev as"] by (simp add: list_all_iff)

lemma suffix_run_exists: "\<exists>as ws. xs = as @ ws \<and> list_all P ws \<and> length ws = length (takeWhile P (rev xs))"
proof -
  have "xs = rev (takeWhile P (rev xs) @ dropWhile P (rev xs))" by simp
  then have "xs = rev (dropWhile P (rev xs)) @ rev (takeWhile P (rev xs))" by (metis rev_append)
  moreover have "list_all P (rev (takeWhile P (rev xs)))" by (auto simp: list_all_iff dest: set_takeWhileD)
  ultimately show ?thesis by (metis length_rev)
qed

lemma longest_run_snoc:
  assumes "longest_run P xs m"
  shows "longest_run P (xs @ [x]) (if P x then max m (length (takeWhile P (rev xs)) + 1) else m)"
proof -
  have old: "\<exists>as ws bs. xs @ [x] = as @ ws @ bs \<and> list_all P ws \<and> length ws = m"
    using assms unfolding longest_run_def by (metis append.assoc)
  have new: "\<exists>as ws bs. xs @ [x] = as @ ws @ bs \<and> list_all P ws \<and> length ws = length (takeWhile P (rev xs)) + 1" if "P x"
  proof -
    obtain as ws where "xs = as @ ws" "list_all P ws" "length ws = length (takeWhile P (rev xs))"
      using suffix_run_exists by blast
    then show ?thesis using that by (intro exI [of _ as] exI [of _ "ws @ [x]"] exI [of _ "[]"]) simp
  qed
  have bound: "length ws \<le> (if P x then max m (length (takeWhile P (rev xs)) + 1) else m)"
    if "xs @ [x] = as @ ws @ bs" "list_all P ws" for as ws bs
  proof (cases bs rule: rev_cases)
    case Nil
    then have "length ws \<le> length (takeWhile P (rev (xs @ [x])))" using that suffix_run [of "xs @ [x]" as ws P] by simp
    then show ?thesis by (auto split: if_splits)
  next
    case (snoc bs' b)
    then have "xs = as @ ws @ bs'" using that by simp
    then have "length ws \<le> m" using assms that(2) by (auto simp: longest_run_def)
    then show ?thesis by (auto simp: le_max_iff_disj)
  qed
  show ?thesis
    unfolding longest_run_def using old new bound by (auto simp: max_def)
qed

definition streaks_of :: "closed_trade list \<Rightarrow> streaks \<Rightarrow> bool" where
  "streaks_of xs s \<longleftrightarrow> sk_curWin s = length (takeWhile wins (rev xs)) \<and> sk_curLoss s = length (takeWhile (\<lambda>t. \<not> wins t) (rev xs)) \<and>
     longest_run wins xs (sk_maxWin s) \<and> longest_run (\<lambda>t. \<not> wins t) xs (sk_maxLoss s)"

lemma add_to_streak_runs:
  assumes "streaks_of xs s"
  shows "streaks_of (xs @ [x]) (add_to_streak x s)"
proof -
  have "longest_run wins (xs @ [x]) (if wins x then max (sk_maxWin s) (sk_curWin s + 1) else sk_maxWin s)"
    using longest_run_snoc [of wins xs "sk_maxWin s" x] assms unfolding streaks_of_def by metis
  moreover have "longest_run (\<lambda>t. \<not> wins t) (xs @ [x]) (if \<not> wins x then max (sk_maxLoss s) (sk_curLoss s + 1) else sk_maxLoss s)"
    using longest_run_snoc [of "\<lambda>t. \<not> wins t" xs "sk_maxLoss s" x] assms unfolding streaks_of_def by metis
  ultimately show ?thesis using assms by (cases "wins x") (simp_all add: streaks_of_def add_to_streak_def)
qed

lemma fold_streaks: "streaks_of xs (fold add_to_streak xs no_streaks)"
proof (induction xs rule: rev_induct)
  case (snoc x xs)
  then show ?case using add_to_streak_runs by simp
qed (auto simp: streaks_of_def no_streaks_def longest_run_def)

text \<open>
  the longest streaks the panel shows are the longest runs of won and of lost trades in order of time, but the streak it calls
  current is the run of equal outcomes at the oldest end, not at the newest.
\<close>

theorem current_streak_is_the_oldest:
  assumes "list_all (\<lambda>t. ct_close_time t \<noteq> NaN) trades"
  shows "\<exists>oldest_first. mset oldest_first = mset trades \<and>
    sorted_wrt (\<lambda>s t. ct_close_time s \<le> ct_close_time t) oldest_first \<and>
    currentStreak trades =
      (if takeWhile wins oldest_first \<noteq> [] then int (length (takeWhile wins oldest_first))
       else - int (length (takeWhile (\<lambda>t. \<not> wins t) oldest_first))) \<and>
    longest_run wins (rev oldest_first) (sk_maxWin (count_streaks trades)) \<and>
    longest_run (\<lambda>t. \<not> wins t) (rev oldest_first) (sk_maxLoss (count_streaks trades))"
proof -
  define xs where "xs = sort_by (\<lambda>t. - ct_close_time t) trades"
  have c: "count_streaks trades = fold add_to_streak xs no_streaks"
    by (simp add: count_streaks_def xs_def no_streaks_def)
  have m: "mset (rev xs) = mset trades" by (simp add: xs_def)
  have neg: "- a \<le> - b \<longleftrightarrow> b \<le> a" for a b :: jsnum by (cases a; cases b) auto
  have "- ct_close_time t \<noteq> NaN" if "t \<in> set trades" for t
    using that assms by (cases "ct_close_time t") (auto simp: list_all_iff)
  then have "sorted_wrt (\<lambda>s t. - ct_close_time s \<le> - ct_close_time t) xs"
    unfolding xs_def by (intro sorted_sort_by) blast
  then have "sorted_wrt (\<lambda>s t. ct_close_time s \<le> ct_close_time t) (rev xs)"
    by (simp add: sorted_wrt_rev neg)
  then show ?thesis
    using fold_streaks [of xs] m by (intro exI [of _ "rev xs"]) (auto simp: currentStreak_def c streaks_of_def Let_def)

qed

theorem current_streak_is_the_oldest_witness:
  "\<exists>oldest_first. mset oldest_first = mset [\<lparr>ct_pnl = 5, ct_close_time = 1\<rparr>, \<lparr>ct_pnl = - 5, ct_close_time = 2\<rparr>] \<and>
    sorted_wrt (\<lambda>s t. ct_close_time s \<le> ct_close_time t) oldest_first \<and>
    currentStreak [\<lparr>ct_pnl = 5, ct_close_time = 1\<rparr>, \<lparr>ct_pnl = - 5, ct_close_time = 2\<rparr>] = 1"
proof -
  have "currentStreak [\<lparr>ct_pnl = 5, ct_close_time = 1\<rparr>, \<lparr>ct_pnl = - 5, ct_close_time = 2\<rparr>] = 1"
    by (simp add: currentStreak_def count_streaks_def sort_by_def add_to_streak_def)
  then show ?thesis
    using current_streak_is_the_oldest [of "[\<lparr>ct_pnl = 5, ct_close_time = 1\<rparr>, \<lparr>ct_pnl = - 5, ct_close_time = 2\<rparr>]"] by auto
qed

end
