(* ===== verification/LocalStore.thy ===== *)
theory LocalStore
  imports Interfaces
begin

text \<open>
  \<open>hooks/useLocalStorage.ts\<close>: a state value that is written to \<open>localStorage\<close> whenever it has changed. JSON is taken to give a
  stored value back, and the storage to accept it, unless an event says otherwise. \<open>same\<close> is the identity React compares state
  values with: equality on primitive values; two objects made by different expressions are never the same.
\<close>

section \<open>The hook\<close>

record 'a local_value =
  lv_value :: 'a
  lv_removed :: bool
  lv_stored :: "'a option" \<comment> \<open>the entry of the storage\<close>

text \<open>The effect after a render in which the value changed; \<open>ok\<close>: the storage has room.\<close>

definition store_effect :: "bool \<Rightarrow> 'a local_value \<Rightarrow> 'a local_value" where
  "store_effect ok s =
     (if lv_removed s then s\<lparr>lv_removed := False\<rparr>
      else if ok then s\<lparr>lv_stored := Some (lv_value s)\<rparr> else s)"

definition mount_local :: "'a \<Rightarrow> bool \<Rightarrow> 'a option \<Rightarrow> 'a local_value" where
  "mount_local initialValue ok stored =
     store_effect ok \<lparr>lv_value = (case stored of Some v \<Rightarrow> v | None \<Rightarrow> initialValue), lv_removed = False, lv_stored = stored\<rparr>"

definition set_local :: "('a \<Rightarrow> 'a \<Rightarrow> bool) \<Rightarrow> bool \<Rightarrow> ('a \<Rightarrow> 'a) \<Rightarrow> 'a local_value \<Rightarrow> 'a local_value" where
  "set_local same ok f s =
     (let v = f (lv_value s) in if same v (lv_value s) then s else store_effect ok (s\<lparr>lv_value := v\<rparr>))"

definition remove_local :: "('a \<Rightarrow> 'a \<Rightarrow> bool) \<Rightarrow> 'a \<Rightarrow> bool \<Rightarrow> 'a local_value \<Rightarrow> 'a local_value" where
  "remove_local same initialValue ok s =
     (let s1 = s\<lparr>lv_stored := None, lv_removed := True\<rparr>
      in if same initialValue (lv_value s) then s1 else store_effect ok (s1\<lparr>lv_value := initialValue\<rparr>))"

datatype 'a local_event = LocalSet "'a \<Rightarrow> 'a" | LocalRemove

fun local_step :: "('a \<Rightarrow> 'a \<Rightarrow> bool) \<Rightarrow> 'a \<Rightarrow> 'a local_event \<Rightarrow> 'a local_value \<Rightarrow> 'a local_value" where
  "local_step same ini (LocalSet f) s = set_local same True f s"
| "local_step same ini LocalRemove s = remove_local same ini True s"

section \<open>What a reload finds\<close>

definition reload_value :: "'a \<Rightarrow> 'a local_value \<Rightarrow> 'a" where
  "reload_value ini s = (case lv_stored s of Some v \<Rightarrow> v | None \<Rightarrow> ini)"

text \<open>The value survives a reload as long as no removal meets the initial value.\<close>

definition in_step :: "'a \<Rightarrow> 'a local_value \<Rightarrow> bool" where
  "in_step ini s \<longleftrightarrow> \<not> lv_removed s \<and> reload_value ini s = lv_value s"

fun safe_events :: "'a \<Rightarrow> 'a local_event list \<Rightarrow> 'a local_value \<Rightarrow> bool" where
  \<comment> \<open>no removal while the value is the initial one\<close>
  "safe_events ini [] s \<longleftrightarrow> True"
| "safe_events ini (e # es) s \<longleftrightarrow>
     (case e of LocalRemove \<Rightarrow> lv_value s \<noteq> ini | LocalSet f \<Rightarrow> True) \<and> safe_events ini es (local_step (=) ini e s)"

lemma in_step_mount: "in_step ini (mount_local ini True stored)"
  by (simp add: mount_local_def store_effect_def in_step_def reload_value_def)

lemma in_step_set: "in_step ini s \<Longrightarrow> in_step ini (set_local (=) True f s)"
  by (simp add: set_local_def store_effect_def in_step_def reload_value_def Let_def)

lemma in_step_remove: "in_step ini s \<Longrightarrow> lv_value s \<noteq> ini \<Longrightarrow> in_step ini (remove_local (=) ini True s)"
  by (simp add: remove_local_def store_effect_def in_step_def reload_value_def Let_def)

lemma in_step_run:
  "in_step ini s \<Longrightarrow> safe_events ini es s \<Longrightarrow> in_step ini (fold (local_step (=) ini) es s)"
proof (induction es arbitrary: s)
  case (Cons e es)
  then show ?case by (cases e) (auto simp: in_step_set in_step_remove)
qed simp

text \<open>
  a primitive value survives a reload over every run of sets and removals in which nothing is removed while the value is the
  initial one; after such a removal the next value set is lost: it is not stored, and a reload gives the initial value.
\<close>

theorem stored_value_survives:
  "(\<forall>es. safe_events ini es (mount_local ini True stored) \<longrightarrow>
      reload_value ini (fold (local_step (=) ini) es (mount_local ini True stored)) =
      lv_value (fold (local_step (=) ini) es (mount_local ini True stored))) \<and>
   (\<forall>v. v \<noteq> ini \<longrightarrow>
      lv_value (fold (local_step (=) ini) [LocalRemove, LocalSet (\<lambda>_. v)] (mount_local ini True None)) = v \<and>
      reload_value ini (fold (local_step (=) ini) [LocalRemove, LocalSet (\<lambda>_. v)] (mount_local ini True None)) = ini)"
proof (intro conjI allI impI)
  fix es assume "safe_events ini es (mount_local ini True stored)"
  then have "in_step ini (fold (local_step (=) ini) es (mount_local ini True stored))"
    by (rule in_step_run [OF in_step_mount])
  then show "reload_value ini (fold (local_step (=) ini) es (mount_local ini True stored)) =
      lv_value (fold (local_step (=) ini) es (mount_local ini True stored))" by (simp add: in_step_def)
next
  fix v :: 'a
  assume "v \<noteq> ini"
  then show "lv_value (fold (local_step (=) ini) [LocalRemove, LocalSet (\<lambda>_. v)] (mount_local ini True None)) = v"
    "reload_value ini (fold (local_step (=) ini) [LocalRemove, LocalSet (\<lambda>_. v)] (mount_local ini True None)) = ini"
    by (simp_all add: mount_local_def remove_local_def set_local_def store_effect_def reload_value_def)
qed

theorem stored_value_survives_witness:
  "lv_value (fold (local_step (=) (0 :: nat)) [LocalSet (\<lambda>_. 4), LocalRemove, LocalSet (\<lambda>n. n + 7)] (mount_local 0 True None)) = 7 \<and>
   reload_value 0 (fold (local_step (=) (0 :: nat)) [LocalSet (\<lambda>_. 4), LocalRemove, LocalSet (\<lambda>n. n + 7)] (mount_local 0 True None)) = 7 \<and>
   reload_value 0 (fold (local_step (=) (0 :: nat)) [LocalRemove, LocalSet (\<lambda>_. 7)] (mount_local 0 True None)) = 0"
proof -
  have "safe_events (0 :: nat) [LocalSet (\<lambda>_. 4), LocalRemove, LocalSet (\<lambda>n. n + 7)] (mount_local 0 True None)"
    by (simp add: mount_local_def remove_local_def set_local_def store_effect_def)
  then have "reload_value 0 (fold (local_step (=) (0 :: nat)) [LocalSet (\<lambda>_. 4), LocalRemove, LocalSet (\<lambda>n. n + 7)] (mount_local 0 True None)) =
      lv_value (fold (local_step (=) (0 :: nat)) [LocalSet (\<lambda>_. 4), LocalRemove, LocalSet (\<lambda>n. n + 7)] (mount_local 0 True None))"
    using stored_value_survives [of "0 :: nat" None] by blast
  moreover have "reload_value 0 (fold (local_step (=) (0 :: nat)) [LocalRemove, LocalSet (\<lambda>_. 7)] (mount_local 0 True None)) = 0"
    using stored_value_survives [of "0 :: nat" None] by simp
  ultimately show ?thesis
    by (simp add: mount_local_def remove_local_def set_local_def store_effect_def)
qed

end
