(* ===== verification/TradeJournal.thy ===== *)
theory TradeJournal
  imports LocalStore JsDecimal JsSort JsRandom
begin

text \<open>
  The trade journal: \<open>hooks/useTradeJournal.ts\<close> and the panels that use it, \<open>components/TradeJournal.jsx\<close> and
  \<open>components/TradeHistory.jsx\<close>. The text of a number in a template literal is an argument \<open>pr\<close>, the ISO text of a date
  an argument \<open>isodate\<close> (\<open>None\<close>: an invalid date, for which \<open>toISOString\<close> throws). A numeric field that may be missing is NaN when
  it is. Drawing and downloading are left out.
\<close>

section \<open>Journal data\<close>

record journal_note =
  jn_note :: string
  jn_tags :: "string list"
  jn_savedAt :: int

datatype journal_value = OldNote string | Note journal_note

type_synonym journal_data = "(string, journal_value) jsmap"

definition js_trim :: "string \<Rightarrow> string" where
  "js_trim s = rev (dropWhile is_js_space (rev (dropWhile is_js_space s)))"

definition saveEntry :: "int \<Rightarrow> string \<Rightarrow> string \<Rightarrow> string list \<Rightarrow> journal_data \<Rightarrow> journal_data" where
  "saveEntry now key note tags d =
     (if js_trim note \<noteq> [] then map_set key (Note \<lparr>jn_note = js_trim note, jn_tags = tags, jn_savedAt = now\<rparr>) d else map_delete key d)"

definition getTags :: "journal_data \<Rightarrow> string \<Rightarrow> string list" where
  "getTags d key = (case map_get d key of Some (Note n) \<Rightarrow> jn_tags n | _ \<Rightarrow> [])"

definition saveNote :: "int \<Rightarrow> string \<Rightarrow> string \<Rightarrow> journal_data \<Rightarrow> journal_data" where
  "saveNote now key text d =
     (if js_trim text \<noteq> []
      then map_set key (Note \<lparr>jn_note = js_trim text, jn_tags = getTags d key, jn_savedAt = now\<rparr>) d else map_delete key d)"

definition note_text :: "journal_value option \<Rightarrow> string" where
  "note_text v = (case v of None \<Rightarrow> [] | Some (OldNote s) \<Rightarrow> s | Some (Note n) \<Rightarrow> jn_note n)"

definition getNote :: "journal_data \<Rightarrow> string \<Rightarrow> string" where
  "getNote d key = note_text (map_get d key)"

definition getEntry :: "journal_data \<Rightarrow> string \<Rightarrow> journal_note option" where
  "getEntry d key =
     (case map_get d key of
        None \<Rightarrow> None
      | Some (OldNote s) \<Rightarrow> if s = [] then None else Some \<lparr>jn_note = s, jn_tags = [], jn_savedAt = 0\<rparr>
      | Some (Note n) \<Rightarrow> Some n)"

definition deleteNote :: "string \<Rightarrow> journal_data \<Rightarrow> journal_data" where
  "deleteNote key d = map_delete key d"

definition add_tag :: "string \<Rightarrow> string list \<Rightarrow> string list" where
  "add_tag t ts = (if t \<in> set ts then ts else ts @ [t])"

definition allTags :: "journal_data \<Rightarrow> string list" where
  "allTags d = fold (\<lambda>v ts. case v of Note n \<Rightarrow> fold add_tag (jn_tags n) ts | OldNote _ \<Rightarrow> ts) (map_values d) []"

section \<open>Trades and keys\<close>

record trade_entry =
  te_exchange :: string
  te_symbol :: string
  te_side :: string
  te_entry_price :: jsnum
  te_exit_price :: jsnum
  te_quantity :: jsnum
  te_pnl :: jsnum
  te_reason :: string
  te_closed_at :: jsnum
  te_timestamp :: jsnum

record extracted_trade = trade_entry +
  te_id :: string

definition tradeKey :: "(jsnum \<Rightarrow> string) \<Rightarrow> ('a trade_entry_scheme) \<Rightarrow> string" where
  "tradeKey pr t =
     te_exchange t @ ''|'' @ te_symbol t @ ''|'' @ pr (te_closed_at t) @ ''|'' @ pr (te_entry_price t)"

definition tradeKeyFromId :: "string \<Rightarrow> string" where
  "tradeKeyFromId i = map (\<lambda>c. if c = CHR ''_'' then CHR ''|'' else c) i"

definition trade_id :: "(jsnum \<Rightarrow> string) \<Rightarrow> string \<Rightarrow> trade_entry \<Rightarrow> draws \<Rightarrow> string \<times> draws" where
  "trade_id pr exId t s =
     (let time = jor (te_closed_at t) (te_timestamp t)
      in if truthy time then (exId @ ''_'' @ te_symbol t @ ''_'' @ pr time, s)
         else (exId @ ''_'' @ te_symbol t @ ''_'' @ pr (Fin (s 0)), \<lambda>k. s (Suc k)))"

fun extract_account :: "(jsnum \<Rightarrow> string) \<Rightarrow> string \<Rightarrow> trade_entry list \<Rightarrow> draws \<Rightarrow> extracted_trade list \<times> draws" where
  "extract_account pr exId [] s = ([], s)"
| "extract_account pr exId (t # ts) s =
     (let (i, s1) = trade_id pr exId t s; (es, s2) = extract_account pr exId ts s1
      in (trade_entry.extend (t\<lparr>te_exchange := exId\<rparr>) \<lparr>te_id = i\<rparr> # es, s2))"

fun extract_accounts :: "(jsnum \<Rightarrow> string) \<Rightarrow> (string \<times> trade_entry list) list \<Rightarrow> draws \<Rightarrow> extracted_trade list" where
  "extract_accounts pr [] s = []"
| "extract_accounts pr ((exId, ts) # accs) s =
     (let (es, s1) = extract_account pr exId ts s in es @ extract_accounts pr accs s1)"

definition extractTradesFromAccounts ::
  "(jsnum \<Rightarrow> string) \<Rightarrow> (string \<times> trade_entry list) list option \<Rightarrow> draws \<Rightarrow> extracted_trade list" where
  "extractTradesFromAccounts pr accounts s =
     (case accounts of
        None \<Rightarrow> []
      | Some accs \<Rightarrow> sort_by (\<lambda>t. - jor (te_closed_at t) 0) (extract_accounts pr accs s))"

section \<open>Export\<close>

text \<open>A row of nine columns, \<open>None\<close> when the date cannot be printed.\<close>

definition trade_row :: "(jsnum \<Rightarrow> string) \<Rightarrow> (jsnum \<Rightarrow> string option) \<Rightarrow> ('a trade_entry_scheme) \<Rightarrow> string list option" where
  "trade_row pr isodate t =
     map_option (\<lambda>date. [te_exchange t, te_symbol t, te_side t, pr (te_entry_price t), pr (te_exit_price t), pr (te_quantity t),
        pr (te_pnl t), if te_reason t \<noteq> [] then te_reason t else ''MANUAL'', date]) (isodate (te_closed_at t * 1000))"

definition csv_note :: "string \<Rightarrow> string" where
  "csv_note note = map (\<lambda>c. if c = CHR '','' then CHR '';'' else if c = char_of (10 :: nat) then CHR '' '' else c) note"

fun join_with :: "string \<Rightarrow> string list \<Rightarrow> string" where
  "join_with sep [] = []"
| "join_with sep [x] = x"
| "join_with sep (x # y # zs) = x @ sep @ join_with sep (y # zs)"

definition journal_row ::
  "(jsnum \<Rightarrow> string) \<Rightarrow> (jsnum \<Rightarrow> string option) \<Rightarrow> journal_data \<Rightarrow> ('a trade_entry_scheme) \<Rightarrow> string list option" where
  "journal_row pr isodate d t =
     (let key = tradeKey pr t
      in map_option (\<lambda>row. row @ [csv_note (getNote d key), join_with '';'' (getTags d key)]) (trade_row pr isodate t))"

definition trade_headers :: "string list" where
  "trade_headers = [''Exchange'', ''Symbol'', ''Side'', ''Entry Price'', ''Exit Price'', ''Quantity'', ''PnL'', ''Reason'', ''Closed At'']"

definition csv_text :: "string list list \<Rightarrow> string" where
  "csv_text rows = join_with [char_of (10 :: nat)] (map (join_with '','') rows)"

definition exportTradesCSV :: "(jsnum \<Rightarrow> string) \<Rightarrow> (jsnum \<Rightarrow> string option) \<Rightarrow> extracted_trade list \<Rightarrow> string option" where
  "exportTradesCSV pr isodate trades = map_option (\<lambda>rows. csv_text (trade_headers # rows)) (those (map (trade_row pr isodate) trades))"

definition exportJournalCSV ::
  "(jsnum \<Rightarrow> string) \<Rightarrow> (jsnum \<Rightarrow> string option) \<Rightarrow> journal_data \<Rightarrow> extracted_trade list \<Rightarrow> string option" where
  "exportJournalCSV pr isodate d trades =
     map_option (\<lambda>rows. csv_text ((trade_headers @ [''Note'', ''Tags'']) # rows)) (those (map (journal_row pr isodate d) trades))"

section \<open>The journal panel\<close>

datatype win_filter = AnyResult | OnlyWins | OnlyLosses

definition journal_shows ::
  "journal_data \<Rightarrow> string option \<Rightarrow> win_filter \<Rightarrow> string \<Rightarrow> extracted_trade \<Rightarrow> bool" where
  "journal_shows entries filterTag filterWin search t =
     (let key = tradeKeyFromId (te_id t);
          tags = getTags entries key;
          note = getNote entries key;
          q = to_lower search
      in (case filterTag of Some tag \<Rightarrow> tag = [] \<or> tag \<in> set tags | None \<Rightarrow> True)
       \<and> \<not> (filterWin = OnlyWins \<and> jor (te_pnl t) 0 \<le> 0)
       \<and> \<not> (filterWin = OnlyLosses \<and> jor (te_pnl t) 0 > 0)
       \<and> (search = [] \<or> str_includes (to_lower (te_symbol t)) q \<or> str_includes (to_lower note) q))"

record journal_panel =
  jp_filterTag :: "string option"
  jp_filterWin :: win_filter
  jp_search :: string
  jp_activeTradeId :: "string option"
  jp_noteText :: string
  jp_noteTags :: "string list"

definition filteredTrades :: "journal_data \<Rightarrow> journal_panel \<Rightarrow> extracted_trade list \<Rightarrow> extracted_trade list" where
  "filteredTrades entries p trades = filter (journal_shows entries (jp_filterTag p) (jp_filterWin p) (jp_search p)) trades"

definition toggleTag :: "string \<Rightarrow> journal_panel \<Rightarrow> journal_panel" where
  "toggleTag tag p =
     p\<lparr>jp_noteTags := (if tag \<in> set (jp_noteTags p) then filter (\<lambda>t. t \<noteq> tag) (jp_noteTags p) else jp_noteTags p @ [tag])\<rparr>"

definition clickTagButton :: "string \<Rightarrow> journal_panel \<Rightarrow> journal_panel" where
  "clickTagButton tag p = p\<lparr>jp_filterTag := (if jp_filterTag p = Some tag then None else Some tag)\<rparr>"

definition clickEdit :: "journal_data \<Rightarrow> string \<Rightarrow> journal_panel \<Rightarrow> journal_panel" where
  "clickEdit entries i p =
     (if jp_activeTradeId p = Some i then p\<lparr>jp_activeTradeId := None\<rparr>
      else p\<lparr>jp_activeTradeId := Some i, jp_noteText := getNote entries (tradeKeyFromId i), jp_noteTags := getTags entries (tradeKeyFromId i)\<rparr>)"

definition handleSaveNote :: "int \<Rightarrow> string \<Rightarrow> journal_panel \<times> journal_data \<Rightarrow> journal_panel \<times> journal_data" where
  "handleSaveNote now tradeId pd =
     (let (p, d) = pd
      in (p\<lparr>jp_activeTradeId := None, jp_noteText := [], jp_noteTags := []\<rparr>,
          saveEntry now (tradeKeyFromId tradeId) (jp_noteText p) (jp_noteTags p) d))"

section \<open>The history panel\<close>

datatype history_sort = ByDate | ByPnl | BySymbol

definition cycleSort :: "history_sort \<Rightarrow> history_sort" where
  "cycleSort m = (case m of ByDate \<Rightarrow> ByPnl | ByPnl \<Rightarrow> BySymbol | BySymbol \<Rightarrow> ByDate)"

record history_summary =
  hs_best :: "extracted_trade option"
  hs_worst :: "extracted_trade option"
  hs_pnl :: jsnum
  hs_wins :: nat
  hs_losses :: nat

definition add_to_history :: "extracted_trade \<Rightarrow> history_summary \<Rightarrow> history_summary" where
  "add_to_history t h =
     \<lparr>hs_best = (case hs_best h of None \<Rightarrow> Some t | Some b \<Rightarrow> if te_pnl t > te_pnl b then Some t else Some b),
      hs_worst = (case hs_worst h of None \<Rightarrow> Some t | Some w \<Rightarrow> if te_pnl t < te_pnl w then Some t else Some w),
      hs_pnl = hs_pnl h + te_pnl t,
      hs_wins = (if te_pnl t \<ge> 0 then hs_wins h + 1 else hs_wins h),
      hs_losses = (if te_pnl t \<ge> 0 then hs_losses h else hs_losses h + 1)\<rparr>"

definition history_trades ::
  "(extracted_trade list \<Rightarrow> extracted_trade list) \<Rightarrow> history_sort \<Rightarrow> extracted_trade list \<Rightarrow> extracted_trade list" where
  \<comment> \<open>the first argument sorts by the locale's order of symbols\<close>
  "history_trades by_symbol m base =
     (case m of
        ByPnl \<Rightarrow> sort_by (\<lambda>t. - te_pnl t) base
      | BySymbol \<Rightarrow> by_symbol base
      | ByDate \<Rightarrow> sort_by (\<lambda>t. - jor (te_closed_at t) 0) base)"

definition history_of :: "extracted_trade list \<Rightarrow> history_summary" where
  "history_of trades = fold add_to_history trades \<lparr>hs_best = None, hs_worst = None, hs_pnl = 0, hs_wins = 0, hs_losses = 0\<rparr>"

definition history_winRate :: "extracted_trade list \<Rightarrow> jsnum" where
  "history_winRate trades =
     (if trades \<noteq> [] then to_fixed 1 (jnat (hs_wins (history_of trades)) / jnat (length trades) * 100) else 0)"

record history_panel =
  hp_expandedKey :: "string option"
  hp_noteDraft :: string
  hp_sortMode :: history_sort

definition clickNote :: "journal_data \<Rightarrow> string \<Rightarrow> history_panel \<Rightarrow> history_panel" where
  "clickNote d tKey h =
     (if hp_expandedKey h = Some tKey then h\<lparr>hp_expandedKey := None\<rparr>
      else h\<lparr>hp_expandedKey := Some tKey, hp_noteDraft := getNote d tKey\<rparr>)"

definition historySave :: "int \<Rightarrow> string \<Rightarrow> history_panel \<times> journal_data \<Rightarrow> history_panel \<times> journal_data" where
  "historySave now tKey st = (let (h, d) = st in (h\<lparr>hp_expandedKey := None\<rparr>, saveNote now tKey (hp_noteDraft h) d))"

definition historyDelete :: "string \<Rightarrow> history_panel \<times> journal_data \<Rightarrow> history_panel \<times> journal_data" where
  "historyDelete tKey st = (let (h, d) = st in (h\<lparr>hp_expandedKey := None, hp_noteDraft := []\<rparr>, deleteNote tKey d))"

end
