(* ===== verification/JournalLaws.thy ===== *)
theory JournalLaws
  imports TradeJournal
begin

text \<open>
  Laws of the trade journal: the two panels use keys that never coincide, so that notes of one are not seen or exported by the
  other, and each writes its own copy of all notes over the other's.
\<close>

section \<open>Keys\<close>

definition plain :: "string \<Rightarrow> bool" where
  "plain s \<longleftrightarrow> CHR ''|'' \<notin> set s \<and> CHR ''_'' \<notin> set s"

definition bars :: "string \<Rightarrow> nat" where
  "bars s = length (filter (\<lambda>c. c = CHR ''|'') s)"

lemma bars_append [simp]: "bars (a @ b) = bars a + bars b" "bars [] = 0" "bars (c # b) = (if c = CHR ''|'' then Suc (bars b) else bars b)"
  by (simp_all add: bars_def)

lemma bars_plain: "plain s \<Longrightarrow> bars s = 0"
  by (auto simp: plain_def bars_def filter_empty_conv)

lemma from_id_plain: "plain s \<Longrightarrow> tradeKeyFromId s = s"
  by (induction s) (auto simp: tradeKeyFromId_def plain_def)

lemma from_id_append: "tradeKeyFromId (a @ b) = tradeKeyFromId a @ tradeKeyFromId b"
  by (simp add: tradeKeyFromId_def)

definition plain_account :: "string \<times> trade_entry list \<Rightarrow> bool" where
  "plain_account acc \<longleftrightarrow> plain (fst acc) \<and> list_all (\<lambda>t. plain (te_symbol t)) (snd acc)"

definition sound_trade :: "(jsnum \<Rightarrow> string) \<Rightarrow> extracted_trade \<Rightarrow> bool" where
  "sound_trade pr t \<longleftrightarrow> plain (te_exchange t) \<and> plain (te_symbol t) \<and>
     (\<exists>v. te_id t = te_exchange t @ ''_'' @ te_symbol t @ ''_'' @ pr v)"

lemma extract_account_sound:
  "plain exId \<Longrightarrow> list_all (\<lambda>t. plain (te_symbol t)) ts \<Longrightarrow> list_all (sound_trade pr) (fst (extract_account pr exId ts s))"
proof (induction ts arbitrary: s)
  case (Cons t ts)
  obtain i s1 where i: "trade_id pr exId t s = (i, s1)" by fastforce
  obtain es s2 where es: "extract_account pr exId ts s1 = (es, s2)" by fastforce
  have "\<exists>v. i = exId @ ''_'' @ te_symbol t @ ''_'' @ pr v"
    using i by (auto simp: trade_id_def Let_def split: if_splits)
  then show ?case
    using Cons.IH [of s1] Cons.prems by (auto simp: i es sound_trade_def trade_entry.extend_def)
qed simp

lemma extract_sound:
  assumes "list_all plain_account accs" "t \<in> set (extractTradesFromAccounts pr (Some accs) s)"
  shows "sound_trade pr t"
proof -
  have "list_all (sound_trade pr) (extract_accounts pr accs s)"
    using assms(1)
  proof (induction accs arbitrary: s)
    case (Cons a accs)
    obtain exId ts where a: "a = (exId, ts)" by fastforce
    obtain es s1 where es: "extract_account pr exId ts s = (es, s1)" by fastforce
    have "list_all (sound_trade pr) es"
      using extract_account_sound [of exId ts pr s] Cons.prems by (simp add: plain_account_def a es)
    then show ?case using Cons.IH [of s1] Cons.prems by (simp add: a es)
  qed simp
  then show ?thesis using assms(2) by (auto simp: extractTradesFromAccounts_def list_all_iff)
qed

lemma keys_differ:
  assumes "sound_trade pr t" "sound_trade pr u" "\<And>v. plain (pr v)"
  shows "tradeKeyFromId (te_id t) \<noteq> tradeKey pr u"
proof -
  obtain v where v: "te_id t = te_exchange t @ ''_'' @ te_symbol t @ ''_'' @ pr v" "plain (te_exchange t)" "plain (te_symbol t)"
    using assms(1) by (auto simp: sound_trade_def)
  have "tradeKeyFromId ''_'' = ''|''" by (simp add: tradeKeyFromId_def)
  then have "tradeKeyFromId (te_id t) = te_exchange t @ ''|'' @ te_symbol t @ ''|'' @ pr v"
    unfolding v(1) from_id_append by (simp add: from_id_plain v assms(3))
  then have "bars (tradeKeyFromId (te_id t)) = 2" using v(2,3) assms(3) by (simp add: bars_plain)
  moreover have "bars (tradeKey pr u) = 3" using assms(2,3) by (simp add: tradeKey_def sound_trade_def bars_plain)
  ultimately show ?thesis by force
qed

section \<open>The panels\<close>

text \<open>The notes after saves in the journal panel, each for a trade of its list.\<close>

definition panel_notes :: "(int \<times> extracted_trade \<times> string \<times> string list) list \<Rightarrow> journal_data" where
  "panel_notes saves = fold (\<lambda>(now, t, note, tags). saveEntry now (tradeKeyFromId (te_id t)) note tags) saves []"

lemma panel_notes_keys:
  assumes "\<And>t. t \<in> set (map (fst \<circ> snd) saves) \<Longrightarrow> tradeKeyFromId (te_id t) \<noteq> k"
  shows "map_get (panel_notes saves) k = None"
proof -
  have "map_get (fold (\<lambda>(now, t, note, tags). saveEntry now (tradeKeyFromId (te_id t)) note tags) saves d) k = None"
    if "map_get d k = None" for d
    using assms that
  proof (induction saves arbitrary: d)
    case (Cons x saves)
    obtain m t nt tags where x: "x = (m, t, nt, tags)" by (cases x) auto
    have "map_get (saveEntry m (tradeKeyFromId (te_id t)) nt tags d) k = None"
      using Cons.prems by (auto simp: saveEntry_def x)
    then show ?case using Cons by (simp add: x)
  qed simp
  then show ?thesis by (simp add: panel_notes_def)
qed

text \<open>
  C36: whatever notes are saved in the journal panel, the history panel shows none of them and the journal CSV it exports has an empty
  note and no tags in every row, because the two panels make different keys for a trade. (Names of exchanges and symbols and
  the printed numbers have no bar and no underscore.)
\<close>

theorem journal_notes_not_exported:
  assumes "\<And>v. plain (pr v)" "list_all plain_account accs" "list_all plain_account accs'"
    and "list_all (\<lambda>(now, t, note, tags). t \<in> set (extractTradesFromAccounts pr (Some accs) s)) saves"
    and "u \<in> set (extractTradesFromAccounts pr (Some accs') s')"
  shows "getNote (panel_notes saves) (tradeKey pr u) = [] \<and> getTags (panel_notes saves) (tradeKey pr u) = [] \<and>
    journal_row pr isodate (panel_notes saves) u = map_option (\<lambda>row. row @ [[], []]) (trade_row pr isodate u)"
proof -
  have "tradeKeyFromId (te_id t) \<noteq> tradeKey pr u" if "t \<in> set (map (fst \<circ> snd) saves)" for t
  proof (rule keys_differ [OF extract_sound [OF assms(2)] extract_sound [OF assms(3,5)] assms(1)])
    show "t \<in> set (extractTradesFromAccounts pr (Some accs) s)" using assms(4) that by (auto simp: list_all_iff)
  qed
  then have "map_get (panel_notes saves) (tradeKey pr u) = None" by (rule panel_notes_keys)
  then have "getNote (panel_notes saves) (tradeKey pr u) = []" "getTags (panel_notes saves) (tradeKey pr u) = []"
    by (simp_all add: getNote_def note_text_def getTags_def)
  then show ?thesis by (simp add: journal_row_def csv_note_def Let_def)
qed

definition sample_trade :: trade_entry where
  "sample_trade = \<lparr>te_exchange = [], te_symbol = ''BTC/USDT'', te_side = ''BUY'', te_entry_price = 100, te_exit_price = 110,
     te_quantity = 1, te_pnl = 10, te_reason = [], te_closed_at = 1700, te_timestamp = NaN\<rparr>"

theorem journal_notes_not_exported_witness:
  "\<exists>u. extractTradesFromAccounts (\<lambda>_. ''7'') (Some [(''binance'', [sample_trade])]) (\<lambda>_. 0) = [u] \<and>
    getNote (panel_notes [(0, u, ''good entry'', [])]) (tradeKeyFromId (te_id u)) = ''good entry'' \<and>
    getNote (panel_notes [(0, u, ''good entry'', [])]) (tradeKey (\<lambda>_. ''7'') u) = []"
proof -
  define u where "u = trade_entry.extend (sample_trade\<lparr>te_exchange := ''binance''\<rparr>) \<lparr>te_id = ''binance_BTC/USDT_7''\<rparr>"
  have e: "extractTradesFromAccounts (\<lambda>_. ''7'') (Some [(''binance'', [sample_trade])]) (\<lambda>_. 0) = [u]"
    by (simp add: extractTradesFromAccounts_def trade_id_def sort_by_def u_def sample_trade_def)
  have "list_all plain_account [(''binance'', [sample_trade])]"
    by (simp add: plain_account_def plain_def sample_trade_def)
  then have "getNote (panel_notes [(0, u, ''good entry'', [])]) (tradeKey (\<lambda>_. ''7'') u) = []"
    using journal_notes_not_exported [of "\<lambda>_. ''7''" "[(''binance'', [sample_trade])]" "[(''binance'', [sample_trade])]" "\<lambda>_. 0"
        "[(0, u, ''good entry'', [])]" u "\<lambda>_. 0" "\<lambda>_. None"] e by (simp add: plain_def)
  moreover have "getNote (panel_notes [(0, u, ''good entry'', [])]) (tradeKeyFromId (te_id u)) = ''good entry''"
    by (simp add: panel_notes_def saveEntry_def getNote_def note_text_def js_trim_def is_js_space_def of_char_def)
  ultimately show ?thesis using e by blast
qed

section \<open>Both panels open\<close>

text \<open>Each panel has its own copy of the notes, read when it is mounted, and writes it to the one entry of the storage.\<close>

record open_panels =
  op_journal :: "journal_data local_value"
  op_history :: "journal_data local_value"

definition share :: "journal_data option \<Rightarrow> journal_data local_value \<Rightarrow> journal_data local_value" where
  "share stored v = v\<lparr>lv_stored := stored\<rparr>"

definition panels_journal_save :: "int \<Rightarrow> string \<Rightarrow> string \<Rightarrow> string list \<Rightarrow> open_panels \<Rightarrow> open_panels" where
  "panels_journal_save now key note tags w =
     (let j = set_local (\<lambda>_ _. False) True (saveEntry now key note tags) (op_journal w)
      in \<lparr>op_journal = j, op_history = share (lv_stored j) (op_history w)\<rparr>)"

definition panels_history_save :: "int \<Rightarrow> string \<Rightarrow> string \<Rightarrow> open_panels \<Rightarrow> open_panels" where
  "panels_history_save now key text w =
     (let h = set_local (\<lambda>_ _. False) True (saveNote now key text) (op_history w)
      in \<lparr>op_journal = share (lv_stored h) (op_journal w), op_history = h\<rparr>)"

definition both_mounted :: "journal_data \<Rightarrow> open_panels" where
  "both_mounted d = \<lparr>op_journal = mount_local [] True (Some d), op_history = mount_local [] True (Some d)\<rparr>"

lemma open_panels_overwrite:
  assumes "js_trim note \<noteq> []" "js_trim text \<noteq> []" "k \<noteq> k'" "map_get d k = None"
  shows "getNote (lv_value (op_journal (panels_journal_save now k note tags (both_mounted d)))) k = js_trim note"
    "\<exists>d'. lv_stored (op_journal (panels_history_save now' k' text (panels_journal_save now k note tags (both_mounted d)))) = Some d' \<and>
       getNote d' k = [] \<and> getNote d' k' = js_trim text"
  using assms
  by (simp_all add: panels_journal_save_def panels_history_save_def both_mounted_def mount_local_def set_local_def store_effect_def
      share_def saveEntry_def saveNote_def getNote_def note_text_def Let_def)

end
