(* ===== verification/SavedBacktests.thy ===== *)
theory SavedBacktests
  imports Interfaces
begin

text \<open>
  \<open>hooks/useSavedBacktests.js\<close>: saved backtests in \<open>localStorage\<close> and the comparison of some of them by the server, with its
  timeout, as a step function over events. Results are opaque JSON values; numbers of the configuration are given as their text.
  The random id of an entry and its time are part of the event.
\<close>

section \<open>State\<close>

record backtest_config =
  cf_strategy :: string
  cf_candles :: string
  cf_volatility :: string
  cf_trailing_stop :: bool
  cf_breakeven :: bool

record saved_backtest =
  sb_id :: string
  sb_label :: string
  sb_config :: backtest_config
  sb_results :: json
  sb_timestamp :: string

text \<open>A message of the server: its type, its error if any, and the rest.\<close>

record comparison_message =
  cm_type :: string
  cm_error :: "string option"
  cm_body :: json

record saved_state =
  bs_saved :: "saved_backtest list"
  bs_stored :: "saved_backtest list option"
  bs_comparison :: "comparison_message option"
  bs_selected :: "string list"
  bs_loading :: bool
  bs_error :: "string option"
  bs_clock :: int
  bs_timers :: "int list" \<comment> \<open>when the pending timeouts are due\<close>
  bs_sent :: "(string \<times> json) list list" \<comment> \<open>comparison requests\<close>

definition mount_saved :: "saved_backtest list option \<Rightarrow> saved_state" where
  "mount_saved stored =
     \<lparr>bs_saved = (case stored of Some l \<Rightarrow> l | None \<Rightarrow> []), bs_stored = stored, bs_comparison = None, bs_selected = [],
      bs_loading = False, bs_error = None, bs_clock = 0, bs_timers = [], bs_sent = []\<rparr>"

section \<open>Operations\<close>

definition backtest_label :: "backtest_config \<Rightarrow> string" where
  "backtest_label c =
     cf_strategy c @ '' | '' @ cf_candles c @ ''c | vol='' @ cf_volatility c @
     (if cf_trailing_stop c then '' | TS'' else []) @ (if cf_breakeven c then '' | BE'' else [])"

text \<open>After a successful write the reload handler sets the list to what was stored; \<open>ok\<close>: the storage has room.\<close>

definition keep_saved :: "bool \<Rightarrow> saved_backtest list \<Rightarrow> saved_state \<Rightarrow> saved_state" where
  "keep_saved ok next s = s\<lparr>bs_saved := next, bs_stored := (if ok then Some next else bs_stored s)\<rparr>"

text \<open>\<open>None\<close>: the result is missing or has an error.\<close>

definition handleSaveBacktest ::
  "bool \<Rightarrow> string \<Rightarrow> string \<Rightarrow> json option \<Rightarrow> backtest_config \<Rightarrow> saved_state \<Rightarrow> saved_state" where
  "handleSaveBacktest ok newId stamp result config s =
     (case result of
        None \<Rightarrow> s
      | Some r \<Rightarrow>
          let entry = \<lparr>sb_id = newId, sb_label = backtest_label config, sb_config = config, sb_results = r, sb_timestamp = stamp\<rparr>
          in keep_saved ok (slice_last 10 (bs_saved s @ [entry])) s)"

definition handleDeleteSaved :: "bool \<Rightarrow> string \<Rightarrow> saved_state \<Rightarrow> saved_state" where
  "handleDeleteSaved ok i s = keep_saved ok (filter (\<lambda>b. sb_id b \<noteq> i) (bs_saved s)) s"

definition toggleSelectForCompare :: "string \<Rightarrow> saved_state \<Rightarrow> saved_state" where
  "toggleSelectForCompare i s =
     s\<lparr>bs_selected := (if i \<in> set (bs_selected s) then filter (\<lambda>j. j \<noteq> i) (bs_selected s) else bs_selected s @ [i])\<rparr>"

definition handleRunComparison :: "saved_state \<Rightarrow> saved_state" where
  "handleRunComparison s =
     (let selected = filter (\<lambda>b. sb_id b \<in> set (bs_selected s)) (bs_saved s)
      in if length selected < 2 then s
         else s\<lparr>bs_loading := True, bs_comparison := None,
                bs_sent := bs_sent s @ [map (\<lambda>b. (sb_label b, sb_results b)) selected],
                bs_timers := bs_timers s @ [bs_clock s + 15000]\<rparr>)"

text \<open>The dash of the text is a long one in the code.\<close>

definition timeout_text :: string where
  "timeout_text = ''Comparison timed out'' @ '' - no response from server''"

definition comparison_timeout :: "saved_state \<Rightarrow> saved_state" where
  "comparison_timeout s = (if bs_loading s then s\<lparr>bs_error := Some timeout_text, bs_loading := False\<rparr> else s)"

definition handleComparisonMessage :: "comparison_message \<Rightarrow> saved_state \<Rightarrow> saved_state \<times> bool" where
  "handleComparisonMessage msg s =
     (if cm_type msg \<noteq> ''comparison_result'' then (s, False)
      else (s\<lparr>bs_comparison := Some msg, bs_loading := False,
              bs_error := (case cm_error msg of Some e \<Rightarrow> if e \<noteq> [] then Some e else None | None \<Rightarrow> None)\<rparr>, True))"

text \<open>Time passes: the timeouts that are due fire.\<close>

definition pass_time :: "nat \<Rightarrow> saved_state \<Rightarrow> saved_state" where
  "pass_time d s =
     (let s1 = s\<lparr>bs_clock := bs_clock s + int d\<rparr>;
          due = filter (\<lambda>t. t \<le> bs_clock s1) (bs_timers s1)
      in fold (\<lambda>_. comparison_timeout) due (s1\<lparr>bs_timers := filter (\<lambda>t. \<not> t \<le> bs_clock s1) (bs_timers s1)\<rparr>))"

text \<open>Another panel or tab has written the storage.\<close>

definition reload_saved :: "saved_backtest list option \<Rightarrow> saved_state \<Rightarrow> saved_state" where
  "reload_saved stored s = s\<lparr>bs_stored := stored, bs_saved := (case stored of Some l \<Rightarrow> l | None \<Rightarrow> [])\<rparr>"

datatype saved_event =
    SaveBacktest bool string string "json option" backtest_config
  | DeleteSaved bool string
  | ToggleSelect string
  | RunComparison
  | ServerMessage comparison_message
  | PassTime nat
  | StorageChanged "saved_backtest list option"

fun saved_step :: "saved_event \<Rightarrow> saved_state \<Rightarrow> saved_state" where
  "saved_step (SaveBacktest ok i stamp r c) s = handleSaveBacktest ok i stamp r c s"
| "saved_step (DeleteSaved ok i) s = handleDeleteSaved ok i s"
| "saved_step (ToggleSelect i) s = toggleSelectForCompare i s"
| "saved_step RunComparison s = handleRunComparison s"
| "saved_step (ServerMessage m) s = fst (handleComparisonMessage m s)"
| "saved_step (PassTime d) s = pass_time d s"
| "saved_step (StorageChanged l) s = reload_saved l s"

section \<open>A comparison ends\<close>

text \<open>While a comparison is awaited a timeout is pending, due in at most 15 seconds; no timeout is overdue.\<close>

definition awaited :: "saved_state \<Rightarrow> bool" where
  "awaited s \<longleftrightarrow> (bs_loading s \<longrightarrow> (\<exists>t \<in> set (bs_timers s). t \<le> bs_clock s + 15000)) \<and> (\<forall>t \<in> set (bs_timers s). bs_clock s < t)"

lemma fold_timeout:
  "fold (\<lambda>_. comparison_timeout) ts s = (if ts = [] then s else comparison_timeout s)"
proof (induction ts arbitrary: s)
  case (Cons t ts)
  then show ?case by (simp add: comparison_timeout_def)
qed simp

lemma pass_time_unfold:
  "pass_time d s =
    (let s2 = s\<lparr>bs_clock := bs_clock s + int d, bs_timers := filter (\<lambda>t. bs_clock s + int d < t) (bs_timers s)\<rparr>
     in if \<exists>t \<in> set (bs_timers s). t \<le> bs_clock s + int d then comparison_timeout s2 else s2)"
  by (auto simp: pass_time_def Let_def fold_timeout filter_empty_conv not_le)

lemma awaited_step: "awaited s \<Longrightarrow> awaited (saved_step e s)"
proof (cases e)
  case (PassTime d)
  assume "awaited s"
  then show ?thesis
    by (force simp: PassTime pass_time_unfold Let_def comparison_timeout_def awaited_def)
qed (auto simp: awaited_def handleSaveBacktest_def keep_saved_def handleDeleteSaved_def toggleSelectForCompare_def
    handleRunComparison_def handleComparisonMessage_def reload_saved_def Let_def split: option.splits)

lemma awaited_run: "awaited (fold saved_step es (mount_saved stored))"
proof -
  have "awaited s \<Longrightarrow> awaited (fold saved_step es s)" for s
    by (induction es arbitrary: s) (simp_all add: awaited_step)
  then show ?thesis by (simp add: awaited_def mount_saved_def)
qed

lemma awaited_ends: "awaited s \<Longrightarrow> \<not> bs_loading (saved_step (PassTime 15000) s)"
  by (auto simp: pass_time_unfold Let_def comparison_timeout_def awaited_def)

definition sample_backtest :: "string \<Rightarrow> saved_backtest" where
  "sample_backtest i = \<lparr>sb_id = i, sb_label = i,
     sb_config = \<lparr>cf_strategy = ''all'', cf_candles = ''500'', cf_volatility = ''1'', cf_trailing_stop = False, cf_breakeven = False\<rparr>,
     sb_results = JNull, sb_timestamp = ''''\<rparr>"

definition two_comparisons :: "saved_event list" where
  "two_comparisons =
     [ToggleSelect ''a'', ToggleSelect ''b'', RunComparison, PassTime 2000,
      ServerMessage \<lparr>cm_type = ''comparison_result'', cm_error = None, cm_body = JNull\<rparr>, PassTime 8000, RunComparison, PassTime 5000]"

text \<open>
  C33: over every run, a comparison that gets no answer is given up within 15 seconds. But the timeout of an answered comparison is not
  cleared: a second comparison is reported as timed out 5 seconds after its start when the first was started 10 seconds
  before it.
\<close>

theorem comparisons_end:
  "\<not> bs_loading (saved_step (PassTime 15000) (fold saved_step es (mount_saved stored))) \<and>
   (let s = fold saved_step two_comparisons (mount_saved (Some [sample_backtest ''a'', sample_backtest ''b'']))
    in bs_clock s = 15000 \<and> length (bs_sent s) = 2 \<and> bs_timers s = [25000] \<and> bs_error s = Some timeout_text \<and> \<not> bs_loading s)"
proof
  show "\<not> bs_loading (saved_step (PassTime 15000) (fold saved_step es (mount_saved stored)))"
    using awaited_ends [OF awaited_run] .
  show "let s = fold saved_step two_comparisons (mount_saved (Some [sample_backtest ''a'', sample_backtest ''b'']))
    in bs_clock s = 15000 \<and> length (bs_sent s) = 2 \<and> bs_timers s = [25000] \<and> bs_error s = Some timeout_text \<and> \<not> bs_loading s"
    by (simp add: two_comparisons_def mount_saved_def sample_backtest_def toggleSelectForCompare_def handleRunComparison_def
        handleComparisonMessage_def pass_time_unfold comparison_timeout_def Let_def)
qed

text \<open>A save keeps the newest ten.\<close>

lemma saves_capped:
  "bs_saved (handleSaveBacktest ok i stamp (Some r) c s) = slice_last 10 (bs_saved s @
     [\<lparr>sb_id = i, sb_label = backtest_label c, sb_config = c, sb_results = r, sb_timestamp = stamp\<rparr>]) \<and>
   length (bs_saved (handleSaveBacktest ok i stamp (Some r) c s)) \<le> 10"
  by (simp add: handleSaveBacktest_def keep_saved_def length_slice_last Let_def)

end
