(* ===== verification/SessionRecorder.thy ===== *)
theory SessionRecorder
  imports Interfaces
begin

text \<open>
  \<open>hooks/useSessionRecorder.ts\<close>: recording of trading sessions as snapshots, the statistics at the end of a recording, the saved
  recordings in \<open>localStorage\<close>, import, and the snapshot nearest to a time. Fills, signals and candle rows are opaque; of an account
  the code reads equity, balance (NaN when missing) and the trade history. The file download is left out.
\<close>

section \<open>Data\<close>

record account_snap =
  as_equity :: jsnum
  as_balance :: jsnum
  as_trades :: "nat option" \<comment> \<open>length of the trade history\<close>

record session_data =
  sd_accounts :: "(string \<times> account_snap) list"
  sd_fills :: "json list"
  sd_signals :: "json list"
  sd_candles :: "(string \<times> json list) list"
  sd_prices :: "(string \<times> jsnum) list"

text \<open>A snapshot has the fields of the data, cut, and an empty object of order books.\<close>

record session_snapshot = session_data +
  ss_t :: int

record session_metadata =
  sm_schemaVersion :: nat
  sm_totalTrades :: nat
  sm_finalBalance :: jsnum
  sm_peakEquity :: jsnum
  sm_maxDrawdown :: jsnum

record session_recording =
  sr_id :: string
  sr_name :: string
  sr_startTime :: int
  sr_endTime :: int
  sr_symbol :: string
  sr_exchange :: string
  sr_snapshots :: "session_snapshot list"
  sr_metadata :: session_metadata

record recorder =
  rc_isRecording :: bool
  rc_snapshotCount :: nat
  rc_saved :: "session_recording list"
  rc_stored :: "session_recording list option"
  rc_recording :: "session_recording option"
  rc_data :: "session_data option"

definition empty_metadata :: session_metadata where
  "empty_metadata = \<lparr>sm_schemaVersion = 1, sm_totalTrades = 0, sm_finalBalance = 0, sm_peakEquity = 0, sm_maxDrawdown = 0\<rparr>"

definition mount_recorder :: "session_recording list option \<Rightarrow> recorder" where
  "mount_recorder stored =
     \<lparr>rc_isRecording = False, rc_snapshotCount = 0, rc_saved = (case stored of Some l \<Rightarrow> l | None \<Rightarrow> []), rc_stored = stored,
      rc_recording = None, rc_data = None\<rparr>"

section \<open>Operations\<close>

text \<open>\<open>ok\<close>: the storage has room.\<close>

definition persistRecordings :: "bool \<Rightarrow> session_recording list \<Rightarrow> recorder \<Rightarrow> recorder" where
  "persistRecordings ok l s = s\<lparr>rc_saved := l, rc_stored := (if ok then Some l else rc_stored s)\<rparr>"

definition startRecording :: "int \<Rightarrow> string \<Rightarrow> string \<Rightarrow> string \<Rightarrow> string \<Rightarrow> recorder \<Rightarrow> recorder" where
  \<comment> \<open>the second argument is the default name, with the local time\<close>
  "startRecording time defaultName name symbol exchange s =
     s\<lparr>rc_recording := Some \<lparr>sr_id = ''session-'' @ show_int time, sr_name = (if name \<noteq> [] then name else defaultName),
          sr_startTime = time, sr_endTime = 0, sr_symbol = symbol, sr_exchange = exchange, sr_snapshots = [],
          sr_metadata = empty_metadata\<rparr>,
       rc_isRecording := True, rc_snapshotCount := 0\<rparr>"

definition updateData :: "session_data \<Rightarrow> recorder \<Rightarrow> recorder" where
  "updateData d s = s\<lparr>rc_data := Some d\<rparr>"

definition take_snapshot :: "int \<Rightarrow> session_data \<Rightarrow> session_snapshot" where
  "take_snapshot time d =
     \<lparr>sd_accounts = sd_accounts d, sd_fills = slice_last 200 (sd_fills d), sd_signals = slice_last 50 (sd_signals d),
      sd_candles = map (\<lambda>(key, cs). (key, slice_last 100 cs)) (sd_candles d), sd_prices = sd_prices d, ss_t = time\<rparr>"

definition captureSnapshot :: "int \<Rightarrow> recorder \<Rightarrow> recorder" where
  "captureSnapshot time s =
     (case (rc_recording s, rc_data s) of
        (Some r, Some d) \<Rightarrow>
          if length (sr_snapshots r) \<ge> 5000 then s
          else let r' = r\<lparr>sr_snapshots := sr_snapshots r @ [take_snapshot time d]\<rparr>
               in s\<lparr>rc_recording := Some r', rc_snapshotCount := length (sr_snapshots r')\<rparr>
      | _ \<Rightarrow> s)"

text \<open>The running peak, maximum drawdown and final balance.\<close>

definition add_account_stats :: "account_snap \<Rightarrow> jsnum \<times> jsnum \<times> jsnum \<Rightarrow> jsnum \<times> jsnum \<times> jsnum" where
  "add_account_stats acc st =
     (let (peak, maxDD, finalBalance) = st;
          equity = jor (as_equity acc) (jor (as_balance acc) 0);
          peak' = (if equity > peak then equity else peak);
          dd = (if peak' > 0 then (peak' - equity) / peak' else 0)
      in (peak', if dd > maxDD then dd else maxDD, jmax finalBalance (jor (as_balance acc) 0)))"

definition snapshot_stats :: "session_snapshot list \<Rightarrow> jsnum \<times> jsnum \<times> jsnum" where
  "snapshot_stats snaps = fold (\<lambda>snap st. fold add_account_stats (map_values (sd_accounts snap)) st) snaps (0, 0, 0)"

definition total_trades :: "session_snapshot list \<Rightarrow> nat" where
  "total_trades snaps =
     (if snaps = [] then 0
      else sum_list (map (\<lambda>acc. case as_trades acc of Some n \<Rightarrow> n | None \<Rightarrow> 0) (map_values (sd_accounts (snaps ! (length snaps - 1))))))"

definition finished_recording :: "int \<Rightarrow> session_recording \<Rightarrow> session_recording" where
  "finished_recording time r =
     (let (peak, maxDD, finalBalance) = snapshot_stats (sr_snapshots r)
      in r\<lparr>sr_endTime := time,
           sr_metadata := (sr_metadata r)\<lparr>sm_totalTrades := total_trades (sr_snapshots r), sm_finalBalance := finalBalance,
              sm_peakEquity := peak, sm_maxDrawdown := maxDD\<rparr>\<rparr>)"

definition stopRecording :: "bool \<Rightarrow> int \<Rightarrow> recorder \<Rightarrow> recorder \<times> session_recording option" where
  "stopRecording ok time s =
     (case rc_recording s of
        None \<Rightarrow> (s, None)
      | Some r \<Rightarrow>
          let r' = finished_recording time r;
              s' = persistRecordings ok (slice_first 20 (r' # rc_saved s)) s
          in (s'\<lparr>rc_isRecording := False, rc_snapshotCount := 0, rc_recording := None\<rparr>, Some r'))"

definition deleteRecording :: "bool \<Rightarrow> string \<Rightarrow> recorder \<Rightarrow> recorder" where
  "deleteRecording ok i s = persistRecordings ok (filter (\<lambda>r. sr_id r \<noteq> i) (rc_saved s)) s"

text \<open>What \<open>JSON.parse\<close> makes of the text: an exception with its message, a value without an array of snapshots, or a recording,
  with or without metadata.\<close>

datatype parsed_recording = ParseError string | NoSnapshots | ParsedRecording session_recording bool

datatype import_result = ImportFailed string | Imported session_recording

definition importRecording :: "bool \<Rightarrow> parsed_recording \<Rightarrow> recorder \<Rightarrow> recorder \<times> import_result" where
  "importRecording ok p s =
     (case p of
        ParseError m \<Rightarrow> (s, ImportFailed (''Parse error: '' @ m))
      | NoSnapshots \<Rightarrow> (s, ImportFailed ''Invalid recording format'')
      | ParsedRecording r has_metadata \<Rightarrow>
          let r' = (if has_metadata then r else r\<lparr>sr_metadata := empty_metadata\<rparr>)
          in (persistRecordings ok (slice_first 20 (r' # rc_saved s)) s, Imported r'))"

text \<open>The scan starts with no snapshot and the difference Infinity.\<close>

definition nearer :: "int \<Rightarrow> session_snapshot \<Rightarrow> session_snapshot option \<Rightarrow> session_snapshot option" where
  "nearer timestamp snap best =
     (case best of
        None \<Rightarrow> Some snap
      | Some b \<Rightarrow> if \<bar>ss_t snap - timestamp\<bar> < \<bar>ss_t b - timestamp\<bar> then Some snap else Some b)"

definition getSnapshotAt :: "session_recording \<Rightarrow> int \<Rightarrow> session_snapshot option" where
  "getSnapshotAt r timestamp = fold (nearer timestamp) (sr_snapshots r) None"

datatype recorder_event =
    StartRecording int string string string string
  | UpdateData session_data
  | CaptureSnapshot int
  | StopRecording bool int
  | DeleteRecording bool string
  | ImportRecording bool parsed_recording

fun recorder_step :: "recorder_event \<Rightarrow> recorder \<Rightarrow> recorder" where
  "recorder_step (StartRecording t dn n sy ex) s = startRecording t dn n sy ex s"
| "recorder_step (UpdateData d) s = updateData d s"
| "recorder_step (CaptureSnapshot t) s = captureSnapshot t s"
| "recorder_step (StopRecording ok t) s = fst (stopRecording ok t s)"
| "recorder_step (DeleteRecording ok i) s = deleteRecording ok i s"
| "recorder_step (ImportRecording ok p) s = fst (importRecording ok p s)"

section \<open>Bounds\<close>

definition small_snapshot :: "session_snapshot \<Rightarrow> bool" where
  "small_snapshot n \<longleftrightarrow> length (sd_fills n) \<le> 200 \<and> length (sd_signals n) \<le> 50 \<and> list_all (\<lambda>(k, cs). length cs \<le> 100) (sd_candles n)"

definition small_recording :: "session_recording \<Rightarrow> bool" where
  "small_recording r \<longleftrightarrow> length (sr_snapshots r) \<le> 5000 \<and> list_all small_snapshot (sr_snapshots r)"

definition recorder_ok :: "recorder \<Rightarrow> bool" where
  "recorder_ok s \<longleftrightarrow> length (rc_saved s) \<le> 20 \<and> rc_isRecording s = (rc_recording s \<noteq> None) \<and>
     (case rc_recording s of
        None \<Rightarrow> rc_snapshotCount s = 0
      | Some r \<Rightarrow> rc_snapshotCount s = length (sr_snapshots r) \<and> small_recording r)"

lemma small_snapshot_taken: "small_snapshot (take_snapshot t d)"
  by (auto simp: small_snapshot_def take_snapshot_def length_slice_last list_all_iff)

lemma recorder_ok_step: "recorder_ok s \<Longrightarrow> recorder_ok (recorder_step e s)"
proof (cases e)
  case (CaptureSnapshot t)
  assume s: "recorder_ok s"
  show ?thesis
  proof (cases "rc_recording s = None \<or> rc_data s = None")
    case True
    then show ?thesis using s by (auto simp: CaptureSnapshot captureSnapshot_def split: option.splits)
  next
    case False
    then obtain r d where "rc_recording s = Some r" "rc_data s = Some d" by auto
    then show ?thesis
      using s small_snapshot_taken by (auto simp: CaptureSnapshot captureSnapshot_def recorder_ok_def small_recording_def Let_def)
  qed
next
  case (StopRecording ok t)
  assume "recorder_ok s"
  then show ?thesis
    by (auto simp: StopRecording stopRecording_def recorder_ok_def persistRecordings_def slice_first_def Let_def split: option.splits)
next
  case (DeleteRecording ok i)
  assume "recorder_ok s"
  moreover have "length (filter (\<lambda>r. sr_id r \<noteq> i) (rc_saved s)) \<le> length (rc_saved s)" by simp
  ultimately show ?thesis
    by (auto simp: DeleteRecording deleteRecording_def recorder_ok_def persistRecordings_def simp del: length_filter_le)
next
  case (ImportRecording ok p)
  assume "recorder_ok s"
  then show ?thesis
    by (auto simp: ImportRecording importRecording_def recorder_ok_def persistRecordings_def slice_first_def Let_def
        split: parsed_recording.splits)
qed (auto simp: recorder_ok_def startRecording_def updateData_def small_recording_def)

text \<open>
  C32: over every run from a storage with at most 20 recordings there are at most 20 saved recordings; the recording under way, which exists
  exactly while the hook says so, has at most 5000 snapshots, as many as the counter says, each with at most 200 fills, 50 signals and
  100 candles per series.
\<close>

theorem recorder_bounds:
  assumes "case stored of Some l \<Rightarrow> length l \<le> 20 | None \<Rightarrow> True"
  shows "recorder_ok (fold recorder_step es (mount_recorder stored))"
proof -
  have run: "recorder_ok s \<Longrightarrow> recorder_ok (fold recorder_step es s)" for s
    by (induction es arbitrary: s) (simp_all add: recorder_ok_step)
  have "recorder_ok (mount_recorder stored)"
    using assms by (auto simp: recorder_ok_def mount_recorder_def split: option.splits)
  then show ?thesis by (rule run)
qed

theorem recorder_bounds_witness:
  "recorder_ok (fold recorder_step [StartRecording 0 ''s'' '''' ''BTC'' ''x'',
     UpdateData \<lparr>sd_accounts = [], sd_fills = replicate 300 JNull, sd_signals = [], sd_candles = [], sd_prices = []\<rparr>, CaptureSnapshot 1]
     (mount_recorder None))"
  by (rule recorder_bounds) simp

section \<open>The nearest snapshot\<close>

lemma nearer_fold:
  "(\<exists>b. fold (nearer t) ns (Some n) = Some b \<and> b \<in> set (n # ns) \<and> (\<forall>m \<in> set (n # ns). \<bar>ss_t b - t\<bar> \<le> \<bar>ss_t m - t\<bar>))"
proof (induction ns arbitrary: n)
  case (Cons m ns)
  obtain k where k: "nearer t m (Some n) = Some k" "k = m \<or> k = n" "\<bar>ss_t k - t\<bar> \<le> \<bar>ss_t m - t\<bar>" "\<bar>ss_t k - t\<bar> \<le> \<bar>ss_t n - t\<bar>"
    by (rule that [of "if \<bar>ss_t m - t\<bar> < \<bar>ss_t n - t\<bar> then m else n"]) (auto simp: nearer_def)
  obtain b where "fold (nearer t) ns (Some k) = Some b" "b \<in> set (k # ns)" "\<forall>m \<in> set (k # ns). \<bar>ss_t b - t\<bar> \<le> \<bar>ss_t m - t\<bar>"
    using Cons.IH by blast
  then show ?case using k by (intro exI [of _ b]) fastforce
qed simp

lemma snapshot_nearest:
  assumes "sr_snapshots r \<noteq> []"
  shows "\<exists>b. getSnapshotAt r t = Some b \<and> b \<in> set (sr_snapshots r) \<and> (\<forall>m \<in> set (sr_snapshots r). \<bar>ss_t b - t\<bar> \<le> \<bar>ss_t m - t\<bar>)"
proof -
  obtain n ns where "sr_snapshots r = n # ns" using assms by (cases "sr_snapshots r") auto
  then show ?thesis using nearer_fold [of t ns n] by (simp add: getSnapshotAt_def nearer_def)
qed

section \<open>Statistics of several accounts\<close>

definition steady_snapshot :: "real \<Rightarrow> real \<Rightarrow> int \<Rightarrow> session_snapshot" where
  "steady_snapshot a b t =
     \<lparr>sd_accounts = [(''A'', \<lparr>as_equity = Fin a, as_balance = Fin a, as_trades = None\<rparr>),
        (''B'', \<lparr>as_equity = Fin b, as_balance = Fin b, as_trades = None\<rparr>)],
      sd_fills = [], sd_signals = [], sd_candles = [], sd_prices = [], ss_t = t\<rparr>"

text \<open>
  two accounts whose equity never changes are recorded with a drawdown, the difference of the accounts, because the peak is
  taken over all accounts; and the final balance is the largest balance ever seen.
\<close>

theorem steady_accounts_draw_down:
  assumes "0 < b" "b < a" "ts \<noteq> []"
  shows "snapshot_stats (map (steady_snapshot a b) ts) = (Fin a, Fin ((a - b) / a), Fin a)"
proof -
  have s: "fold add_account_stats (map_values (sd_accounts (steady_snapshot a b t))) st = (Fin a, Fin ((a - b) / a), Fin a)"
    if "st = (0, 0, 0) \<or> st = (Fin a, Fin ((a - b) / a), Fin a)" for st t
  proof -
    have "(a - b) / a > 0" using assms by simp
    then show ?thesis using that assms by (auto simp: steady_snapshot_def add_account_stats_def Let_def)
  qed
  have "fold (\<lambda>n st. fold add_account_stats (map_values (sd_accounts n)) st) (map (steady_snapshot a b) ts) st =
      (Fin a, Fin ((a - b) / a), Fin a)" if "st = (Fin a, Fin ((a - b) / a), Fin a)" for ts st
    using that by (induction ts arbitrary: st) (simp_all add: s)
  moreover obtain t ts' where "ts = t # ts'" using assms by (cases ts) auto
  ultimately show ?thesis using s by (simp add: snapshot_stats_def)
qed

theorem steady_accounts_draw_down_witness:
  "snapshot_stats (map (steady_snapshot 100 60) [1, 2]) = (Fin 100, Fin (2 / 5), Fin 100)"
  using steady_accounts_draw_down [of 60 100 "[1, 2]"] by simp

end
