(* ===== verification/StrategyMarket.thy ===== *)
theory StrategyMarket
  imports Interfaces
begin

text \<open>
  \<open>hooks/useStrategyMarketplace.ts\<close>: the built-in strategy packages, and the imported ones kept in \<open>localStorage\<close>. A package is a JSON
  object. What \<open>JSON.parse\<close> makes of a text is an argument (\<open>Inl\<close> the message of its exception), and so is the numeric
  value the language gives to a JSON value that is not a number.
\<close>

section \<open>JSON values as the code uses them\<close>

fun truthy_json :: "json \<Rightarrow> bool" where
  "truthy_json JNull \<longleftrightarrow> False"
| "truthy_json (JBool b) \<longleftrightarrow> b"
| "truthy_json (JNum x) \<longleftrightarrow> x \<noteq> 0"
| "truthy_json (JStr s) \<longleftrightarrow> s \<noteq> []"
| "truthy_json (JArr l) \<longleftrightarrow> True"
| "truthy_json (JObj l) \<longleftrightarrow> True"

text \<open>A property read, \<open>None\<close> for \<open>undefined\<close>; on \<open>null\<close> it throws. Arrays and texts have none of the properties read here.\<close>

fun get_prop :: "json \<Rightarrow> string \<Rightarrow> json option" where
  "get_prop (JObj l) k = map_get l k"
| "get_prop _ k = None"

definition truthy_opt :: "json option \<Rightarrow> bool" where
  "truthy_opt v \<longleftrightarrow> (case v of None \<Rightarrow> False | Some j \<Rightarrow> truthy_json j)"

fun is_array :: "json \<Rightarrow> bool" where
  "is_array (JArr l) \<longleftrightarrow> True"
| "is_array _ \<longleftrightarrow> False"

text \<open>\<open>===\<close> on two values read from different objects: arrays and objects are never the same.\<close>

fun strict_eq :: "json option \<Rightarrow> json option \<Rightarrow> bool" where
  "strict_eq None None \<longleftrightarrow> True"
| "strict_eq (Some (JArr a)) v \<longleftrightarrow> False"
| "strict_eq (Some (JObj a)) v \<longleftrightarrow> False"
| "strict_eq (Some u) (Some v) \<longleftrightarrow> u = v"
| "strict_eq _ _ \<longleftrightarrow> False"

section \<open>Built-in strategies\<close>

definition rule_json :: "real \<Rightarrow> string \<Rightarrow> real option \<Rightarrow> string \<Rightarrow> real \<Rightarrow> json" where
  "rule_json i condition v action qty =
     JObj ([(''id'', JNum i), (''condition'', JStr condition)] @ (case v of Some x \<Rightarrow> [(''value'', JNum x)] | None \<Rightarrow> [])
        @ [(''action'', JStr action), (''qty'', JNum qty)])"

definition strategy_json ::
  "string \<Rightarrow> string \<Rightarrow> string \<Rightarrow> string \<Rightarrow> string list \<Rightarrow> json list \<Rightarrow> string \<Rightarrow> (string \<times> real) list \<Rightarrow> real \<times> real \<times> real \<times> real \<Rightarrow> json" where
  "strategy_json created i name descr tags rules indicator params risk =
     (case risk of (psize, sl, tp, open_max) \<Rightarrow>
        JObj [(''id'', JStr i), (''name'', JStr name), (''author'', JStr ''system''), (''version'', JStr ''1.0.0''),
          (''description'', JStr descr), (''tags'', JArr (map JStr tags)), (''rules'', JArr rules),
          (''indicators'', JArr [JObj [(''type'', JStr indicator), (''params'', JObj (map (\<lambda>(k, v). (k, JNum v)) params))]]),
          (''riskParams'', JObj [(''maxPositionSize'', JNum psize), (''stopLossPct'', JNum sl), (''takeProfitPct'', JNum tp),
             (''maxOpenPositions'', JNum open_max)]),
          (''createdAt'', JStr created), (''updatedAt'', JStr created), (''schemaVersion'', JNum 1)])"

definition DEFAULT_STRATEGIES :: "string \<Rightarrow> json list" where
  \<comment> \<open>the argument is the time at which the module was loaded\<close>
  "DEFAULT_STRATEGIES created =
     [strategy_json created ''rsi-oversold-bounce'' ''RSI Oversold Bounce''
        ''Buy when RSI < 30, sell when RSI > 70. Classic mean reversion.'' [''mean-reversion'', ''rsi'', ''beginner'']
        [rule_json 1 ''rsi_below'' (Some 30) ''buy'' 0.1, rule_json 2 ''rsi_above'' (Some 70) ''sell'' 0.1]
        ''RSI'' [(''period'', 14)] (0.5, 2, 4, 3),
      strategy_json created ''ema-crossover-trend'' ''EMA Crossover Trend''
        ''Follow trend via EMA fast/slow crossover. Buy on golden cross, sell on death cross.''
        [''trend-following'', ''ema'', ''beginner'']
        [rule_json 1 ''ema_cross_up'' None ''buy'' 0.2, rule_json 2 ''ema_cross_down'' None ''sell'' 0.2]
        ''EMA'' [(''fast'', 12), (''slow'', 26)] (1, 3, 6, 2),
      strategy_json created ''volume-spike-breakout'' ''Volume Spike Breakout''
        ''Buy on volume spike > 3x average with 5-candle price change > 5%.'' [''breakout'', ''volume'', ''intermediate'']
        [rule_json 1 ''volume_spike'' (Some 3) ''buy'' 0.15, rule_json 2 ''price_change_5'' (Some 5) ''sell'' 0.15]
        ''Volume'' [(''avgPeriod'', 20)] (0.8, 2.5, 5, 5)]"

text \<open>The read path of other panels; the argument is the parsed entry of the storage, \<open>None\<close> if it is missing, empty or corrupt.\<close>

definition listMarketplaceStrategies :: "string \<Rightarrow> json option \<Rightarrow> json list" where
  "listMarketplaceStrategies created saved =
     DEFAULT_STRATEGIES created @ (case saved of Some (JArr l) \<Rightarrow> l | _ \<Rightarrow> [])"

section \<open>The hook\<close>

record market =
  mk_strategies :: "json list"
  mk_imported :: json \<comment> \<open>whatever the storage held\<close>
  mk_stored :: "json option"

definition mount_market :: "string \<Rightarrow> json option \<Rightarrow> market" where
  "mount_market created saved =
     \<lparr>mk_strategies = DEFAULT_STRATEGIES created, mk_imported = (case saved of Some j \<Rightarrow> j | None \<Rightarrow> JArr []), mk_stored = saved\<rparr>"

definition saveImported :: "bool \<Rightarrow> json list \<Rightarrow> market \<Rightarrow> market" where
  "saveImported ok next s = s\<lparr>mk_imported := JArr next, mk_stored := (if ok then Some (JArr next) else mk_stored s)\<rparr>"

datatype strategy_import = StrategyRejected string | StrategyImported "(string \<times> json) list"

definition json_number :: "(json \<Rightarrow> jsnum) \<Rightarrow> json \<Rightarrow> jsnum" where
  "json_number to_num j = (case j of JNum x \<Rightarrow> Fin x | _ \<Rightarrow> to_num j)"

definition imported_package :: "string \<Rightarrow> string \<Rightarrow> (string \<times> json) list \<Rightarrow> (string \<times> json) list" where
  "imported_package time stamp p =
     map_set ''updatedAt'' (JStr stamp) (map_set ''schemaVersion'' (JNum 1)
       (map_set ''id'' (case map_get p ''id'' of
            Some i \<Rightarrow> if truthy_json i then i else JStr (''imported-'' @ time) | None \<Rightarrow> JStr (''imported-'' @ time)) p))"

text \<open>\<open>time\<close> and \<open>stamp\<close> are the texts of the present time; \<open>shown\<close> prints a JSON value in a template literal.\<close>

definition importStrategy ::
  "bool \<Rightarrow> (json \<Rightarrow> jsnum) \<Rightarrow> (json \<Rightarrow> string) \<Rightarrow> string \<Rightarrow> string \<Rightarrow> string + json \<Rightarrow> market \<Rightarrow> market \<times> strategy_import" where
  "importStrategy ok to_num shown time stamp parsed s =
     (case parsed of
        Inl e \<Rightarrow> (s, StrategyRejected (''JSON parse error: '' @ e))
      | Inr JNull \<Rightarrow> (s, StrategyRejected ''JSON parse error: null has no properties'')
      | Inr j \<Rightarrow>
          if \<not> truthy_opt (get_prop j ''name'') \<or> \<not> truthy_opt (get_prop j ''rules'')
             \<or> \<not> (case get_prop j ''rules'' of Some r \<Rightarrow> is_array r | None \<Rightarrow> False)
          then (s, StrategyRejected ''Invalid strategy format: missing name or rules'')
          else
            case (get_prop j ''schemaVersion'', j) of
              (sv, JObj p) \<Rightarrow>
                if truthy_opt sv \<and> (case sv of Some v \<Rightarrow> json_number to_num v > 1 | None \<Rightarrow> False)
                then (s, StrategyRejected (''Schema version '' @ (case sv of Some v \<Rightarrow> shown v | None \<Rightarrow> []) @ '' not supported (max: 1)''))
                else
                  let strategy = imported_package time stamp p; same = (\<lambda>q. strict_eq (get_prop q ''id'') (map_get strategy ''id''))
                  in (case mk_imported s of
                        JArr l \<Rightarrow>
                          let next = (if list_ex same l then map (\<lambda>q. if same q then JObj strategy else q) l else l @ [JObj strategy])
                          in (saveImported ok next s, StrategyImported strategy)
                      | _ \<Rightarrow> (s, StrategyRejected ''JSON parse error: find is not a function''))
            | _ \<Rightarrow> (s, StrategyRejected ''Invalid strategy format: missing name or rules''))"

text \<open>Deletion, \<open>None\<close> when it throws; and the list of the page, \<open>None\<close> when the spread throws and the page cannot be drawn.\<close>

definition deleteImported :: "bool \<Rightarrow> json \<Rightarrow> market \<Rightarrow> market option" where
  "deleteImported ok i s =
     (case mk_imported s of
        JArr l \<Rightarrow> Some (saveImported ok (filter (\<lambda>q. \<not> strict_eq (get_prop q ''id'') (Some i)) l) s)
      | _ \<Rightarrow> None)"

definition allStrategies :: "market \<Rightarrow> json list option" where
  "allStrategies s =
     (case mk_imported s of
        JArr l \<Rightarrow> Some (mk_strategies s @ l)
      | JStr t \<Rightarrow> Some (mk_strategies s @ map (\<lambda>c. JStr [c]) t)
      | _ \<Rightarrow> None)"

section \<open>Invariant\<close>

text \<open>
  Whether \<open>localStorage.setItem\<close> throws in \<open>saveImported\<close> comes with every event that may write; the exception is caught and the
  page goes on with its new list. \<open>Remount\<close>: the page is left or loaded again, at the time given, and reads the storage.
\<close>

datatype market_event =
    ImportStrategy bool string string "string + json"
  | DeleteImported bool json
  | Remount string

definition market_step :: "(json \<Rightarrow> jsnum) \<Rightarrow> (json \<Rightarrow> string) \<Rightarrow> market_event \<Rightarrow> market \<Rightarrow> market" where
  "market_step to_num shown e s =
     (case e of
        ImportStrategy ok time stamp p \<Rightarrow> fst (importStrategy ok to_num shown time stamp p s)
      | DeleteImported ok i \<Rightarrow> (case deleteImported ok i s of Some s' \<Rightarrow> s' | None \<Rightarrow> s)
      | Remount created \<Rightarrow> mount_market created (mk_stored s))"

definition write_fails :: "market_event \<Rightarrow> bool" where
  "write_fails e = (case e of ImportStrategy ok _ _ _ \<Rightarrow> \<not> ok | DeleteImported ok _ \<Rightarrow> \<not> ok | Remount _ \<Rightarrow> False)"

definition sound_package :: "json \<Rightarrow> bool" where
  "sound_package q \<longleftrightarrow> truthy_opt (get_prop q ''name'') \<and> truthy_opt (get_prop q ''id'') \<and> get_prop q ''schemaVersion'' = Some (JNum 1)
     \<and> (\<exists>l. get_prop q ''rules'' = Some (JArr l))"

definition distinct_ids :: "json list \<Rightarrow> bool" where
  "distinct_ids l \<longleftrightarrow> sorted_wrt (\<lambda>p q. \<not> strict_eq (get_prop p ''id'') (get_prop q ''id'')) l"

lemma strict_eq_iff:
  "strict_eq a b \<longleftrightarrow> a = b \<and> (case a of Some (JArr l) \<Rightarrow> False | Some (JObj l) \<Rightarrow> False | _ \<Rightarrow> True)"
  by (cases "(a, b)" rule: strict_eq.cases) (auto split: option.splits json.splits)

lemma strict_eq_sym: "strict_eq a b = strict_eq b a"
  by (auto simp: strict_eq_iff)

lemma strict_eq_trans: "strict_eq a b \<Longrightarrow> strict_eq b c \<Longrightarrow> strict_eq a c"
  by (auto simp: strict_eq_iff)

lemma sound_imported:
  assumes "truthy_opt (map_get p ''name'')" "map_get p ''rules'' = Some r" "is_array r"
  shows "sound_package (JObj (imported_package time stamp p))"
  using assms by (cases r) (auto simp: sound_package_def imported_package_def truthy_opt_def split: option.splits)

lemma distinct_ids_replace:
  assumes "distinct_ids l" and i: "map_get st ''id'' = i"
  shows "distinct_ids (map (\<lambda>q. if strict_eq (get_prop q ''id'') i then JObj st else q) l)"
  using assms(1)
proof (induction l)
  case (Cons q l)
  have ih: "distinct_ids (map (\<lambda>q. if strict_eq (get_prop q ''id'') i then JObj st else q) l)"
    using Cons by (simp add: distinct_ids_def)
  have q: "\<not> strict_eq (get_prop q ''id'') (get_prop r ''id'')" if "r \<in> set l" for r
    using Cons.prems that by (simp add: distinct_ids_def)
  have "\<not> strict_eq (get_prop (if strict_eq (get_prop q ''id'') i then JObj st else q) ''id'')
      (get_prop (if strict_eq (get_prop r ''id'') i then JObj st else r) ''id'')" if "r \<in> set l" for r
    using q [OF that] i by (auto simp: strict_eq_iff split: if_splits)
  then have "\<forall>r \<in> set l. \<not> strict_eq (get_prop (if strict_eq (get_prop q ''id'') i then JObj st else q) ''id'')
      (get_prop (if strict_eq (get_prop r ''id'') i then JObj st else r) ''id'')" by blast
  then show ?case using ih by (simp only: distinct_ids_def list.map sorted_wrt.simps set_map ball_simps)
qed (simp add: distinct_ids_def)

definition sound_list :: "json list \<Rightarrow> bool" where
  "sound_list l \<longleftrightarrow> list_all sound_package l \<and> distinct_ids l"

text \<open>The page shows sound packages, the storage is empty or holds sound packages; and when the two are the same.\<close>

definition market_ok :: "market \<Rightarrow> bool" where
  "market_ok s \<longleftrightarrow> (\<exists>l. mk_imported s = JArr l \<and> sound_list l) \<and>
     (case mk_stored s of None \<Rightarrow> True | Some j \<Rightarrow> \<exists>l. j = JArr l \<and> sound_list l)"

definition in_step_with_storage :: "market \<Rightarrow> bool" where
  "in_step_with_storage s \<longleftrightarrow> mk_imported s = (case mk_stored s of None \<Rightarrow> JArr [] | Some j \<Rightarrow> j)"

lemma market_ok_saved: "market_ok s \<Longrightarrow> sound_list l \<Longrightarrow> market_ok (saveImported ok l s)"
  by (simp add: market_ok_def saveImported_def)

lemma market_ok_mount: "market_ok s \<Longrightarrow> market_ok (mount_market created (mk_stored s))"
  by (auto simp: market_ok_def mount_market_def sound_list_def distinct_ids_def split: option.splits)

text \<open>An import leaves the page as it was or saves a sound list, a deletion saves one.\<close>

lemma import_saves:
  assumes s: "market_ok s"
  shows "fst (importStrategy ok to_num shown time stamp parsed s) = s \<or>
    (\<exists>l. sound_list l \<and> fst (importStrategy ok to_num shown time stamp parsed s) = saveImported ok l s)"
proof (cases "\<exists>p r. parsed = Inr (JObj p) \<and> truthy_opt (map_get p ''name'') \<and> map_get p ''rules'' = Some r \<and> is_array r")
  case False
  then show ?thesis
    by (cases parsed; cases "projr parsed") (auto simp: importStrategy_def truthy_opt_def split: option.splits)
next
  case True
  then obtain p r where p: "parsed = Inr (JObj p)" "truthy_opt (map_get p ''name'')" "map_get p ''rules'' = Some r" "is_array r"
    by blast
  obtain l where l: "mk_imported s = JArr l" "list_all sound_package l" "distinct_ids l"
    using s by (auto simp: market_ok_def sound_list_def)
  define st where "st = imported_package time stamp p"
  define same where "same = (\<lambda>q. strict_eq (get_prop q ''id'') (map_get st ''id''))"
  define next_l where "next_l = (if list_ex same l then map (\<lambda>q. if same q then JObj st else q) l else l @ [JObj st])"
  have "sound_package (JObj st)" unfolding st_def using sound_imported p by blast
  then have "list_all sound_package next_l" using l(2) by (auto simp: next_l_def list_all_iff)
  moreover have "distinct_ids next_l"
  proof (cases "list_ex same l")
    case True
    then show ?thesis using distinct_ids_replace [OF l(3)] by (simp add: next_l_def same_def)
  next
    case False
    then show ?thesis using l(3) by (auto simp: next_l_def same_def distinct_ids_def sorted_wrt_append list_ex_iff)
  qed
  moreover have "fst (importStrategy ok to_num shown time stamp parsed s) = s \<or>
      fst (importStrategy ok to_num shown time stamp parsed s) = saveImported ok next_l s"
    by (auto simp: importStrategy_def p(1) l(1) Let_def next_l_def same_def st_def [symmetric])
  ultimately show ?thesis by (auto simp: sound_list_def)
qed

lemma delete_saves:
  assumes s: "market_ok s"
  shows "\<exists>l. sound_list l \<and> deleteImported ok i s = Some (saveImported ok l s)"
proof -
  obtain l where l: "mk_imported s = JArr l" "sound_list l" using s by (auto simp: market_ok_def)
  then have "sound_list (filter (\<lambda>q. \<not> strict_eq (get_prop q ''id'') (Some i)) l)"
    by (auto simp: sound_list_def list_all_iff distinct_ids_def intro: sorted_wrt_filter)
  then show ?thesis by (auto simp: deleteImported_def l(1))
qed

lemma market_step_cases:
  assumes "market_ok s"
  shows "market_step to_num shown e s = s \<or>
    (\<exists>l. sound_list l \<and> market_step to_num shown e s = saveImported (\<not> write_fails e) l s) \<or>
    (\<exists>created. e = Remount created \<and> market_step to_num shown e s = mount_market created (mk_stored s))"
proof (cases e)
  case (ImportStrategy ok time stamp parsed)
  then show ?thesis using import_saves [OF assms, of ok to_num shown time stamp parsed] by (auto simp: market_step_def write_fails_def)
next
  case (DeleteImported ok i)
  then show ?thesis using delete_saves [OF assms, of ok i] by (auto simp: market_step_def write_fails_def)
qed (simp add: market_step_def)

lemma market_ok_step: "market_ok s \<Longrightarrow> market_ok (market_step to_num shown e s)"
  using market_step_cases [of s to_num shown e] by (auto simp: market_ok_saved market_ok_mount)

lemma step_in_step:
  assumes "market_ok s"
  shows "in_step_with_storage (market_step to_num shown e s) \<or>
    mk_stored (market_step to_num shown e s) = mk_stored s \<and> (write_fails e \<or> market_step to_num shown e s = s)"
  using market_step_cases [OF assms, of to_num shown e]
  by (cases "write_fails e") (auto simp: in_step_with_storage_def saveImported_def mount_market_def)

text \<open>
  C31: from an empty storage, over every sequence of imports of any texts, deletions and reloads, each write of which may fail, the
  page shows and the storage holds only packages with a name, an identity, an array of rules and the current schema version, no two
  with the same identity. The storage holds the list of the page at some moment of the run, and every later change was lost by a
  failing write; so it is the list of the page itself as long as all writes succeed.
\<close>

theorem marketplace_invariant:
  fixes to_num :: "json \<Rightarrow> jsnum" and shown :: "json \<Rightarrow> string" and created :: string
  defines "run \<equiv> \<lambda>es. fold (market_step to_num shown) es (mount_market created None)"
  shows "market_ok (run es) \<and>
    (\<exists>k \<le> length es. in_step_with_storage (run (take k es)) \<and> mk_stored (run es) = mk_stored (run (take k es)) \<and>
      (\<forall>j \<in> {k..<length es}. write_fails (es ! j) \<or> run (take (Suc j) es) = run (take j es))) \<and>
    (list_all (\<lambda>e. \<not> write_fails e) es \<longrightarrow> in_step_with_storage (run es))"
proof (induction es rule: rev_induct)
  case Nil
  show ?case by (auto simp: run_def market_ok_def mount_market_def in_step_with_storage_def sound_list_def distinct_ids_def)
next
  case (snoc e es)
  have run: "run (es @ [e]) = market_step to_num shown e (run es)" by (simp add: run_def)
  have ok: "market_ok (run es)" using snoc.IH by blast
  obtain k where k: "k \<le> length es" "in_step_with_storage (run (take k es))" "mk_stored (run es) = mk_stored (run (take k es))"
      "\<forall>j \<in> {k..<length es}. write_fails (es ! j) \<or> run (take (Suc j) es) = run (take j es)"
    using snoc.IH by blast
  have "\<exists>k \<le> length (es @ [e]). in_step_with_storage (run (take k (es @ [e]))) \<and>
      mk_stored (run (es @ [e])) = mk_stored (run (take k (es @ [e]))) \<and>
      (\<forall>j \<in> {k..<length (es @ [e])}. write_fails ((es @ [e]) ! j) \<or> run (take (Suc j) (es @ [e])) = run (take j (es @ [e])))"
  proof (cases "in_step_with_storage (run (es @ [e]))")
    case True
    then show ?thesis by (intro exI [of _ "length (es @ [e])"]) simp
  next
    case False
    then have "mk_stored (run (es @ [e])) = mk_stored (run es)" "write_fails e \<or> run (es @ [e]) = run es"
      using step_in_step [OF ok, of to_num shown e] by (auto simp: run)
    then show ?thesis using k by (intro exI [of _ k]) (auto simp: nth_append less_Suc_eq)
  qed
  moreover have "list_all (\<lambda>e. \<not> write_fails e) (es @ [e]) \<longrightarrow> in_step_with_storage (run (es @ [e]))"
    using snoc.IH step_in_step [OF ok, of to_num shown e] by (auto simp: run)
  ultimately show ?case using market_ok_step [OF ok] run by simp
qed

text \<open>Concretely: an import, an import whose write fails, and a reload, which loses the second.\<close>

definition sample_package :: "string \<Rightarrow> json" where
  "sample_package i = JObj [(''name'', JStr ''N''), (''id'', JStr i), (''rules'', JArr [])]"

theorem marketplace_invariant_witness:
  "let run = (\<lambda>es. fold (market_step (\<lambda>_. NaN) (\<lambda>_. []) ) es (mount_market [] None));
       lost = [ImportStrategy True [] [] (Inr (sample_package ''a'')), ImportStrategy False [] [] (Inr (sample_package ''b''))]
   in in_step_with_storage (run [ImportStrategy True [] [] (Inr (sample_package ''a''))]) \<and>
      mk_stored (run lost) = mk_stored (run [ImportStrategy True [] [] (Inr (sample_package ''a''))]) \<and>
      \<not> in_step_with_storage (run lost)"
proof -
  let ?a = "ImportStrategy True [] [] (Inr (sample_package ''a''))"
  have "in_step_with_storage (fold (market_step (\<lambda>_. NaN) (\<lambda>_. [])) [?a] (mount_market [] None))"
    using marketplace_invariant [where to_num = "\<lambda>_. NaN" and shown = "\<lambda>_. []" and created = "[]" and es = "[?a]"] by (simp add: write_fails_def)
  then show ?thesis
    by (simp add: Let_def in_step_with_storage_def market_step_def importStrategy_def sample_package_def imported_package_def
        saveImported_def mount_market_def truthy_opt_def)
qed

text \<open>A stored value that is no array is skipped by the read path, but the hook takes it and its page cannot be drawn.\<close>

lemma corrupt_storage_breaks_page:
  "listMarketplaceStrategies created (Some (JObj kvs)) = DEFAULT_STRATEGIES created \<and>
   allStrategies (mount_market created (Some (JObj kvs))) = None"
  by (simp add: listMarketplaceStrategies_def allStrategies_def mount_market_def)

end
