(* ===== verification/Hawkes.thy ===== *)
theory Hawkes
  imports Candles JsDecimal JsRandom
begin

text \<open>
  The Hawkes process panel \<open>components/HawkesProcess.jsx\<close>: log-likelihood with its recursion, the grid search, the intensity, the
  simulation by thinning, and the result of the panel. The request to the server is left out.
\<close>

section \<open>Log-likelihood\<close>

definition hawkes_walk :: "jsnum list \<Rightarrow> jsnum \<Rightarrow> jsnum \<Rightarrow> jsnum \<Rightarrow> jsnum \<times> jsnum" where
  \<comment> \<open>the recursive sum and the log-likelihood after all events\<close>
  "hawkes_walk events mu alpha beta =
     for_loop 0 (length events) (\<lambda>i (R, logLik).
       let dt = (if i > 0 then events ! i - events ! (i - 1) else 0);
           R' = jexp (- beta * dt) * (1 + R);
           lambda = mu + alpha * R'
       in (R', logLik + jlog (jmax (Fin (1 / 10 ^ 10)) lambda))) (0, 0)"

definition hawkes_integral :: "jsnum list \<Rightarrow> jsnum \<Rightarrow> jsnum \<Rightarrow> jsnum \<Rightarrow> jsnum \<Rightarrow> jsnum" where
  "hawkes_integral events mu alpha beta T =
     for_loop 0 (length events) (\<lambda>i s. s + alpha / beta * (1 - jexp (- beta * (T - events ! i)))) (mu * T)"

definition hawkesLogLik :: "jsnum list \<Rightarrow> jsnum \<Rightarrow> jsnum \<Rightarrow> jsnum \<Rightarrow> jsnum \<Rightarrow> jsnum" where
  "hawkesLogLik events mu alpha beta T =
     (if alpha \<ge> beta then NInf
      else if mu \<le> 0 \<or> alpha < 0 \<or> beta \<le> 0 then NInf
      else snd (hawkes_walk events mu alpha beta) - hawkes_integral events mu alpha beta T)"

section \<open>Fit\<close>

record hawkes_params =
  hk_mu :: jsnum
  hk_alpha :: jsnum
  hk_beta :: jsnum
  hk_logLik :: jsnum

definition try_params :: "jsnum list \<Rightarrow> jsnum \<Rightarrow> jsnum \<times> jsnum \<times> jsnum \<Rightarrow> hawkes_params \<Rightarrow> hawkes_params" where
  "try_params events T p best =
     (let (mu, alpha, beta) = p
      in if alpha \<ge> beta then best
         else let ll = hawkesLogLik events mu alpha beta T
              in if ll > hk_logLik best then \<lparr>hk_mu = mu, hk_alpha = alpha, hk_beta = beta, hk_logLik = ll\<rparr> else best)"

definition hawkes_grid :: "(jsnum \<times> jsnum \<times> jsnum) list" where
  "hawkes_grid = List.product (map Fin [0.01, 0.05, 0.1, 0.2, 0.5, 1])
     (List.product (map Fin [0.1, 0.3, 0.5, 0.7, 0.9, 1.2, 1.5]) (map Fin [0.5, 1, 2, 3, 5, 8, 10]))"

text \<open>The steps of the three loops around the best point are exact in this range.\<close>

definition hawkes_fine :: "hawkes_params \<Rightarrow> (jsnum \<times> jsnum \<times> jsnum) list" where
  "hawkes_fine best =
     map (\<lambda>(dm, da, db). (jmax (Fin 0.001) (hk_mu best + dm), jmax (Fin 0.01) (hk_alpha best + da), jmax (Fin 0.1) (hk_beta best + db)))
       (List.product (map Fin [- 0.02, - 0.01, 0, 0.01, 0.02])
          (List.product (map Fin [- 0.1, - 0.05, 0, 0.05, 0.1]) (map Fin [- 0.5, - 0.25, 0, 0.25, 0.5])))"

definition initial_params :: hawkes_params where
  "initial_params = \<lparr>hk_mu = Fin 0.1, hk_alpha = Fin 0.5, hk_beta = 1, hk_logLik = NInf\<rparr>"

definition fitHawkes :: "jsnum list \<Rightarrow> jsnum \<Rightarrow> hawkes_params \<times> jsnum" where
  \<comment> \<open>with the branching ratio\<close>
  "fitHawkes events T =
     (let coarse = fold (try_params events T) hawkes_grid initial_params;
          best = fold (try_params events T) (hawkes_fine coarse) coarse
      in (best, hk_alpha best / hk_beta best))"

section \<open>Intensity and simulation\<close>

definition hawkesIntensity :: "jsnum \<Rightarrow> jsnum list \<Rightarrow> jsnum \<Rightarrow> jsnum \<Rightarrow> jsnum \<Rightarrow> jsnum" where
  "hawkesIntensity t events mu alpha beta =
     foldl (\<lambda>s ti. s + alpha * jexp (- beta * (t - ti))) mu (takeWhile (\<lambda>ti. \<not> ti \<ge> t) events)"

text \<open>Thinning; with unlucky draws the candidate times need never reach \<open>T\<close>.\<close>

partial_function (option) simulate_from ::
  "jsnum \<Rightarrow> jsnum \<Rightarrow> jsnum \<Rightarrow> jsnum \<Rightarrow> nat \<Rightarrow> jsnum list \<Rightarrow> jsnum \<Rightarrow> jsnum \<Rightarrow> draws \<Rightarrow> (jsnum list) option" where
  "simulate_from mu alpha beta T maxEvents events t intensity s =
     (if t < T \<and> length events < maxEvents
      then let t' = t + - jlog (Fin (s 0)) / intensity
           in if t' \<ge> T then Some events
              else
                let newIntensity = hawkesIntensity t' events mu alpha beta
                in if Fin (s 1) < newIntensity / intensity
                   then simulate_from mu alpha beta T maxEvents (events @ [t']) t' (newIntensity + alpha) (\<lambda>k. s (k + 2))
                   else simulate_from mu alpha beta T maxEvents events t' newIntensity (\<lambda>k. s (k + 2))
      else Some events)"

definition simulateHawkes :: "jsnum \<Rightarrow> jsnum \<Rightarrow> jsnum \<Rightarrow> jsnum \<Rightarrow> nat \<Rightarrow> draws \<Rightarrow> (jsnum list) option" where
  "simulateHawkes mu alpha beta T maxEvents s = simulate_from mu alpha beta T maxEvents [] 0 mu s"

section \<open>The panel\<close>

definition price_events :: "jsnum list \<Rightarrow> nat list" where
  "price_events closes =
     filter (\<lambda>i. \<bar>(rd closes i - rd closes (i - 1)) / rd closes (i - 1)\<bar> > Fin 0.003) [1..<length closes]"

definition inter_arrivals :: "jsnum list \<Rightarrow> jsnum list" where
  "inter_arrivals events = map (\<lambda>i. events ! i - events ! (i - 1)) [1..<length events]"

definition mean_or_0 :: "jsnum list \<Rightarrow> jsnum" where
  "mean_or_0 xs = (if xs \<noteq> [] then jsum xs / jnat (length xs) else 0)"

definition max_burst :: "jsnum list \<Rightarrow> jsnum \<Rightarrow> nat" where
  "max_burst arrivals meanIA =
     fst (foldl (\<lambda>(maxB, cur) d. if d < meanIA * Fin 0.5 then (max maxB (cur + 1), cur + 1) else (maxB, 0)) (0, 0) arrivals)"

definition hawkes_signal :: "jsnum \<Rightarrow> string \<times> string" where
  "hawkes_signal n =
     (if n > Fin 0.7
      then (''TREND'', ''High branching ratio (n='' @ show_fixed 3 n @ ''): trades strongly self-excite, expect clustering'')
      else if n > Fin 0.4
      then (''MOMENTUM'', ''Moderate branching (n='' @ show_fixed 3 n @ ''): some trade clustering expected'')
      else (''MEAN_REVERT'', ''Low branching (n='' @ show_fixed 3 n @ ''): trades independent, mean-reverting''))"

record hawkes_result =
  hr_events :: "jsnum list"
  hr_T :: nat
  hr_params :: hawkes_params
  hr_branchingRatio :: jsnum
  hr_intensityPath :: "(nat \<times> jsnum) list"
  hr_simulated :: "jsnum list"
  hr_interArrivals :: "jsnum list"
  hr_meanIA :: jsnum
  hr_meanSimIA :: jsnum
  hr_maxBurst :: nat
  hr_signal :: string
  hr_reason :: string
  hr_currentIntensity :: jsnum
  hr_intensityRatio :: jsnum

definition intensity_path :: "nat \<Rightarrow> jsnum list \<Rightarrow> hawkes_params \<Rightarrow> (nat \<times> jsnum) list" where
  "intensity_path T events p =
     (let stepSize = max 1 (T div 200)
      in map (\<lambda>t. (t, hawkesIntensity (jnat t) events (hk_mu p) (hk_alpha p) (hk_beta p)))
           (filter (\<lambda>t. t mod stepSize = 0) [0..<T]))"

text \<open>\<open>None\<close>: the simulation never ends; \<open>Some None\<close>: too few candles or events.\<close>

definition hawkes_panel ::
  "candle list option \<Rightarrow> string \<Rightarrow> string \<Rightarrow> jsnum \<Rightarrow> jsnum \<Rightarrow> jsnum \<Rightarrow> bool \<Rightarrow> jsnum \<Rightarrow> draws \<Rightarrow> hawkes_result option option" where
  "hawkes_panel candles exchange symbol mu alpha beta autoFit simT s =
     (let cds = select_candles candles exchange symbol
      in if length cds < 30 then Some None
         else
           let events = map (\<lambda>i. jnat i) (price_events (map cd_close cds))
           in if length events < 5 then Some None
              else
                let T = length cds;
                    (params, n) = (if autoFit then fitHawkes events (jnat T)
                      else (\<lparr>hk_mu = mu, hk_alpha = alpha, hk_beta = beta, hk_logLik = hawkesLogLik events mu alpha beta (jnat T)\<rparr>, alpha / beta));
                    intensityPath = intensity_path T events params;
                    interArrivals = inter_arrivals events;
                    meanIA = mean_or_0 interArrivals;
                    currentIntensity = jor (if intensityPath \<noteq> [] then snd (intensityPath ! (length intensityPath - 1)) else NaN) 0
                in map_option (\<lambda>simulated.
                     Some \<lparr>hr_events = events, hr_T = T, hr_params = params, hr_branchingRatio = n, hr_intensityPath = intensityPath,
                       hr_simulated = simulated, hr_interArrivals = interArrivals, hr_meanIA = meanIA,
                       hr_meanSimIA = mean_or_0 (inter_arrivals simulated), hr_maxBurst = max_burst interArrivals meanIA,
                       hr_signal = fst (hawkes_signal n), hr_reason = snd (hawkes_signal n), hr_currentIntensity = currentIntensity,
                       hr_intensityRatio = currentIntensity / hk_mu params\<rparr>)
                     (simulateHawkes (hk_mu params) (hk_alpha params) (hk_beta params) simT 300 s))"

end
