(* ===== verification/ModeDecomposition.thy ===== *)
theory ModeDecomposition
  imports Candles JsSort Copula "HOL-Library.Word"
begin

text \<open>
  The empirical mode decomposition panel \<open>components/EmpiricalModeDecomposition.jsx\<close>: cubic splines, sifting, the decomposition, the
  Fourier transform and the Hilbert transform built on it, and the result of the panel. The drawing is left out.
\<close>

unbundle bit_operations_syntax

section \<open>Natural cubic splines\<close>

definition spline_h :: "jsnum list \<Rightarrow> nat \<Rightarrow> jsnum" where
  "spline_h xs i = rd xs (i + 1) - rd xs i"

definition spline_alpha :: "jsnum list \<Rightarrow> jsnum list \<Rightarrow> nat \<Rightarrow> jsnum" where
  \<comment> \<open>\<open>alpha[i - 1]\<close>\<close>
  "spline_alpha xs ys i = 3 * ((rd ys (i + 1) - rd ys i) / spline_h xs i - (rd ys i - rd ys (i - 1)) / spline_h xs (i - 1))"

text \<open>The forward sweep: \<open>mu[i]\<close> and \<open>z[i]\<close>.\<close>

fun spline_sweep :: "jsnum list \<Rightarrow> jsnum list \<Rightarrow> nat \<Rightarrow> jsnum \<times> jsnum" where
  "spline_sweep xs ys 0 = (0, 0)"
| "spline_sweep xs ys (Suc k) =
     (let (mu, z) = spline_sweep xs ys k; i = Suc k;
          l = 2 * (rd xs (i + 1) - rd xs (i - 1)) - spline_h xs (i - 1) * mu
      in (spline_h xs i / l, (spline_alpha xs ys i - spline_h xs (i - 1) * z) / l))"

text \<open>The backward sweep: \<open>c[n - 1 - k]\<close>, from \<open>c[n - 1] = 0\<close>.\<close>

fun spline_c :: "jsnum list \<Rightarrow> jsnum list \<Rightarrow> nat \<Rightarrow> nat \<Rightarrow> jsnum" where
  "spline_c xs ys n 0 = 0"
| "spline_c xs ys n (Suc k) =
     (let (mu, z) = spline_sweep xs ys (n - 1 - Suc k) in z - mu * spline_c xs ys n k)"

definition spline_index :: "jsnum list \<Rightarrow> nat \<Rightarrow> jsnum \<Rightarrow> nat" where
  "spline_index xs n q =
     (case find_index (\<lambda>i. q \<ge> rd xs i \<and> q \<le> rd xs (i + 1)) [0..<n - 1] of Some i \<Rightarrow> i | None \<Rightarrow> n - 2)"

definition cubicSpline :: "jsnum list \<Rightarrow> jsnum list \<Rightarrow> jsnum \<Rightarrow> jsnum" where
  "cubicSpline xPoints yPoints xQuery =
     (let n = length xPoints
      in if n < 2 then rd yPoints 0
         else
           let sorted = sort_by fst (zip xPoints yPoints); xs = map fst sorted; ys = map snd sorted
           in if n = 2 then rd ys 0 + (xQuery - rd xs 0) / (rd xs 1 - rd xs 0) * (rd ys 1 - rd ys 0)
              else
                let i = spline_index xs n xQuery;
                    c = spline_c xs ys n (n - 1 - i);
                    c1 = spline_c xs ys n (n - 1 - (i + 1));
                    b = (rd ys (i + 1) - rd ys i) / spline_h xs i - spline_h xs i * (c1 + 2 * c) / 3;
                    d = (c1 - c) / (3 * spline_h xs i);
                    dx = xQuery - rd xs i
                in rd ys i + b * dx + c * dx * dx + d * dx * dx * dx)"

section \<open>Sifting\<close>

text \<open>Index and value of the local extrema, the end points included when they are one.\<close>

definition findMaxima :: "jsnum list \<Rightarrow> (nat \<times> jsnum) list" where
  "findMaxima signal =
     (let n = length signal; s = rd signal
      in (if s 0 > s 1 then [(0, s 0)] else [])
         @ map (\<lambda>i. (i, s i)) (filter (\<lambda>i. s i > s (i - 1) \<and> s i \<ge> s (i + 1)) [1..<n - 1])
         @ (if s (n - 1) > s (n - 2) then [(n - 1, s (n - 1))] else []))"

definition findMinima :: "jsnum list \<Rightarrow> (nat \<times> jsnum) list" where
  "findMinima signal =
     (let n = length signal; s = rd signal
      in (if s 0 < s 1 then [(0, s 0)] else [])
         @ map (\<lambda>i. (i, s i)) (filter (\<lambda>i. s i < s (i - 1) \<and> s i \<le> s (i + 1)) [1..<n - 1])
         @ (if s (n - 1) < s (n - 2) then [(n - 1, s (n - 1))] else []))"

definition envelope :: "(nat \<times> jsnum) list \<Rightarrow> nat \<Rightarrow> jsnum list" where
  "envelope points n = map (\<lambda>i. cubicSpline (map (\<lambda>p. jnat (fst p)) points) (map snd points) (jnat i)) [0..<n]"

definition sift_step :: "jsnum list \<Rightarrow> jsnum list" where
  "sift_step h =
     (let n = length h; upper = envelope (findMaxima h) n; lower = envelope (findMinima h) n
      in map (\<lambda>i. h ! i - (upper ! i + lower ! i) / 2) [0..<n])"

definition sift_sd :: "jsnum list \<Rightarrow> jsnum list \<Rightarrow> jsnum" where
  "sift_sd prevH h =
     for_loop 0 (length h) (\<lambda>i s. s + (rd prevH i - h ! i) ^ 2 / (rd prevH i ^ 2 + Fin (1 / 10 ^ 10))) 0 / jnat (length h)"

fun sift_loop :: "nat \<Rightarrow> jsnum \<Rightarrow> jsnum list \<Rightarrow> jsnum list \<Rightarrow> jsnum list" where
  "sift_loop 0 sdThreshold h prevH = h"
| "sift_loop (Suc k) sdThreshold h prevH =
     (if length (findMaxima h) < 2 \<or> length (findMinima h) < 2 then h
      else
        let h' = sift_step h
        in if sift_sd prevH h' < sdThreshold then h' else sift_loop k sdThreshold h' h')"

definition sift :: "jsnum list \<Rightarrow> nat \<Rightarrow> jsnum \<Rightarrow> jsnum list" where
  "sift signal maxIter sdThreshold = sift_loop maxIter sdThreshold signal signal"

fun emd_loop :: "nat \<Rightarrow> nat \<Rightarrow> jsnum list \<Rightarrow> jsnum list list \<Rightarrow> jsnum list list \<times> jsnum list" where
  "emd_loop 0 maxIter residue imfs = (imfs, residue)"
| "emd_loop (Suc k) maxIter residue imfs =
     (let imf = sift residue maxIter (Fin 0.05);
          imfs' = imfs @ [imf];
          residue' = map (\<lambda>i. residue ! i - rd imf i) [0..<length residue]
      in if length (findMaxima residue') < 2 \<and> length (findMinima residue') < 2 then (imfs', residue')
         else emd_loop k maxIter residue' imfs')"

definition emd :: "jsnum list \<Rightarrow> nat \<Rightarrow> nat \<Rightarrow> jsnum list list \<times> jsnum list" where
  "emd signal maxIMFs maxIter = emd_loop maxIMFs maxIter signal []"

section \<open>Fourier transform\<close>

type_synonym jcomplex = "jsnum \<times> jsnum" \<comment> \<open>real and imaginary part\<close>

text \<open>The next bit-reversed index: the carry runs from the highest bit down.\<close>

fun reverse_carry :: "nat \<Rightarrow> nat \<Rightarrow> nat" where
  "reverse_carry j bt = (if bt > 0 \<and> j AND bt \<noteq> 0 then reverse_carry (j XOR bt) (bt div 2) else j XOR bt)"

declare reverse_carry.simps [simp del]

definition swap_items :: "nat \<Rightarrow> nat \<Rightarrow> 'a list \<Rightarrow> 'a list" where
  "swap_items i j x = x[i := x ! j, j := x ! i]"

definition bit_reversal :: "'a list \<Rightarrow> 'a list" where
  "bit_reversal signal =
     snd (for_loop 1 (length signal) (\<lambda>i (j, x).
       let j' = reverse_carry j (length signal div 2) in (j', if i < j' then swap_items i j' x else x)) (0, signal))"

definition butterfly :: "jsnum \<Rightarrow> nat \<Rightarrow> nat \<Rightarrow> nat \<Rightarrow> jcomplex list \<Rightarrow> jcomplex list" where
  "butterfly angle halfLen i k x =
     (let wRe = jcos (angle * jnat k); wIm = jsin (angle * jnat k);
          (aRe, aIm) = x ! (i + k); (bRe, bIm) = x ! (i + k + halfLen);
          tRe = wRe * bRe - wIm * bIm; tIm = wRe * bIm + wIm * bRe
      in x[i + k + halfLen := (aRe - tRe, aIm - tIm), i + k := (aRe + tRe, aIm + tIm)])"

text \<open>The passes over blocks of \<open>len\<close>, twice as long each time.\<close>

definition fft_pass :: "nat \<Rightarrow> jcomplex list \<Rightarrow> jcomplex list" where
  "fft_pass len x =
     for_loop 0 (length x div len) (\<lambda>b. for_loop 0 (len div 2) (butterfly (Fin (- 2 * pi) / jnat len) (len div 2) (b * len))) x"

function fft_passes :: "nat \<Rightarrow> jcomplex list \<Rightarrow> jcomplex list" where
  "fft_passes len x = (if 0 < len \<and> len \<le> length x then fft_passes (2 * len) (fft_pass len x) else x)"
  by pat_completeness auto

lemma length_swap [simp]: "length (swap_items i j x) = length x"
  by (simp add: swap_items_def)

lemma length_butterfly [simp]: "length (butterfly a h i k x) = length x"
  by (simp add: butterfly_def Let_def split: prod.splits)

lemma length_fft_pass [simp]: "length (fft_pass len x) = length x"
proof -
  have "length (for_loop 0 m (butterfly a h i) x) = length x" for m a h i x
    by (rule for_loop_preserves [where P = "\<lambda>y. length y = length x"]) auto
  then show ?thesis unfolding fft_pass_def
    by (intro for_loop_preserves [where P = "\<lambda>y. length y = length x"]) auto
qed

termination fft_passes
  by (relation "measure (\<lambda>(len, x). length x + 1 - len)") auto

declare fft_passes.simps [simp del]

definition fft :: "jsnum list \<Rightarrow> jcomplex list" where
  \<comment> \<open>of a list whose length is a power of 2\<close>
  "fft signal =
     (if length signal \<le> 1 then [(jor (rd signal 0) 0, 0)]
      else fft_passes 2 (bit_reversal (map (\<lambda>v. (v, 0)) signal)))"

definition ifftDirect :: "jcomplex list \<Rightarrow> nat \<Rightarrow> jsnum list" where
  "ifftDirect spectrum N =
     map (\<lambda>n. for_loop 0 N (\<lambda>k re.
         let angle = Fin (2 * pi) * jnat k * jnat n / jnat N; (sr, si) = spectrum ! k
         in re + (sr * jcos angle - si * jsin angle)) 0 / jnat N) [0..<N]"

section \<open>Hilbert transform\<close>

fun jatan2 :: "jsnum \<Rightarrow> jsnum \<Rightarrow> jsnum" where
  "jatan2 (Fin y) (Fin x) =
     Fin (if x > 0 then arctan (y / x) else if x < 0 then (if y \<ge> 0 then arctan (y / x) + pi else arctan (y / x) - pi)
          else if y > 0 then pi / 2 else if y < 0 then - pi / 2 else 0)"
| "jatan2 NaN x = NaN"
| "jatan2 y NaN = NaN"
| "jatan2 (Fin y) PInf = 0"
| "jatan2 (Fin y) NInf = (if y \<ge> 0 then Fin pi else Fin (- pi))"
| "jatan2 PInf (Fin x) = Fin (pi / 2)"
| "jatan2 NInf (Fin x) = Fin (- pi / 2)"
| "jatan2 PInf PInf = Fin (pi / 4)"
| "jatan2 PInf NInf = Fin (3 * pi / 4)"
| "jatan2 NInf PInf = Fin (- pi / 4)"
| "jatan2 NInf NInf = Fin (- 3 * pi / 4)"

definition next_pow2 :: "nat \<Rightarrow> nat" where
  "next_pow2 N = (if N = 0 then 0 else 2 ^ nat \<lceil>log 2 (real N)\<rceil>)"

text \<open>The entries at 0 and in the middle stay as they are.\<close>

definition hilbert_filter :: "nat \<Rightarrow> nat \<Rightarrow> jcomplex \<Rightarrow> jcomplex" where
  "hilbert_filter N2 i s =
     (case s of (re, im) \<Rightarrow>
        if i = 0 \<or> 2 * i = N2 then (re, im) else if 2 * i < N2 then (im, - re) else (- im, re))"

definition unwrap_phase :: "jsnum \<Rightarrow> jsnum" where
  "unwrap_phase d =
     (let d1 = (if d > Fin pi then d - Fin (2 * pi) else d) in if d1 < Fin (- pi) then d1 + Fin (2 * pi) else d1)"

record hilbert_data =
  hd_amplitude :: "jsnum list"
  hd_phase :: "jsnum list"
  hd_frequency :: "jsnum list"

definition hilbert_of :: "jsnum list \<Rightarrow> jsnum list" where
  "hilbert_of signal =
     (let N = length signal; N2 = next_pow2 N;
          spectrum = fft (signal @ replicate (N2 - N) 0)
      in ifftDirect (map (\<lambda>i. hilbert_filter N2 i (spectrum ! i)) [0..<N2]) N2)"

definition hilbertTransform :: "jsnum list \<Rightarrow> hilbert_data" where
  "hilbertTransform signal =
     (let N = length signal; hilbert = hilbert_of signal;
          amplitude = map (\<lambda>i. jsqrt (signal ! i * signal ! i + rd hilbert i * rd hilbert i)) [0..<N];
          phase = map (\<lambda>i. jatan2 (rd hilbert i) (signal ! i)) [0..<N];
          freq = (\<lambda>i. unwrap_phase (rd phase i - rd phase (i - 1)) / Fin (2 * pi))
      in \<lparr>hd_amplitude = amplitude, hd_phase = phase,
          hd_frequency = jor (if N > 1 then freq 1 else NaN) 0 # map freq [1..<N]\<rparr>)"

section \<open>The panel\<close>

record emd_result =
  er_imfs :: "jsnum list list"
  er_residue :: "jsnum list"
  er_hht :: "hilbert_data list"
  er_energies :: "jsnum list"
  er_meanFreqs :: "jsnum list"
  er_energyPct :: "jsnum list"
  er_dominantIdx :: nat
  er_sigDir :: string
  er_reason :: string

definition imf_hht :: "nat \<Rightarrow> jsnum list \<Rightarrow> hilbert_data" where
  "imf_hht N imf =
     (if list_all (\<lambda>v. \<bar>v\<bar> < Fin (1 / 10 ^ 10)) imf
      then \<lparr>hd_amplitude = replicate N 0, hd_phase = replicate N 0, hd_frequency = replicate N 0\<rparr>
      else hilbertTransform imf)"

definition imf_energy :: "jsnum list \<Rightarrow> jsnum" where
  "imf_energy imf =
     (let m = jsum imf / jnat (length imf) in jsum (map (\<lambda>v. (v - m) ^ 2) imf) / jnat (length imf))"

definition mean_frequency :: "hilbert_data \<Rightarrow> jsnum" where
  "mean_frequency h =
     (let valid = filter (\<lambda>f. f > 0 \<and> is_fin f) (hd_frequency h)
      in if valid \<noteq> [] then jsum valid / jnat (length valid) else 0)"

definition last_slope :: "jsnum list \<Rightarrow> jsnum" where
  "last_slope xs = (if length xs > 1 then xs ! (length xs - 1) - xs ! (length xs - 2) else 0)"

definition emd_signal :: "jsnum \<Rightarrow> jsnum \<Rightarrow> nat \<Rightarrow> string \<times> string" where
  "emd_signal trendSlope domSlope idx =
     (if trendSlope > 0 \<and> domSlope > 0 then (''BUY'', ''Trend up + dominant IMF'' @ show_nat (idx + 1) @ '' positive'')
      else if trendSlope < 0 \<and> domSlope < 0 then (''SELL'', ''Trend down + dominant IMF'' @ show_nat (idx + 1) @ '' negative'')
      else (''NEUTRAL'', ''Trend: '' @ (if trendSlope > 0 then ''up'' else ''down'') @ '', IMF'' @ show_nat (idx + 1) @ '': ''
              @ (if domSlope > 0 then ''+'' else ''-'')))"

text \<open>\<open>None\<close>: no energy is the greatest (there is no mode, or a NaN), so that reading the dominant mode throws;
  \<open>Some None\<close>: too few candles.\<close>

definition emd_panel :: "candle list option \<Rightarrow> string \<Rightarrow> string \<Rightarrow> nat \<Rightarrow> nat \<Rightarrow> emd_result option option" where
  "emd_panel candles exchange symbol maxIMFs maxIter =
     (let cds = select_candles candles exchange symbol
      in if length cds < 32 then Some None
         else
           let N = min 128 (length cds);
               prices = map cd_close (slice_last N cds);
               mean = jsum prices / jnat N;
               (imfs, residue) = emd (map (\<lambda>p. p - mean) prices) maxIMFs maxIter;
               hht = map (imf_hht N) imfs;
               energies = map imf_energy imfs;
               totalEnergy = jsum energies + Fin (1 / 10 ^ 10)
           in (case find_index (jeq (jmax_list energies)) energies of
                 None \<Rightarrow> None
               | Some idx \<Rightarrow>
                   let (dir, reason) = emd_signal (last_slope residue) (last_slope (imfs ! idx)) idx
                   in Some (Some \<lparr>er_imfs = imfs, er_residue = residue, er_hht = hht, er_energies = energies,
                        er_meanFreqs = map mean_frequency hht, er_energyPct = map (\<lambda>e. e / totalEnergy * 100) energies,
                        er_dominantIdx = idx, er_sigDir = dir, er_reason = reason\<rparr>)))"

end
