(* ===== verification/ModeLaws.thy ===== *)
theory ModeLaws
  imports ModeDecomposition
begin

text \<open>
  Laws of the empirical mode decomposition: on numbers the splines and the sifting yield numbers, and the modes and the
  residue add up to the signal.
\<close>

section \<open>Splines\<close>

lemma insert_by_last: "\<forall>y \<in> set ys. \<not> f x < f y \<Longrightarrow> insert_by f x ys = ys @ [x]"
  by (induction ys) auto

lemma sort_by_sorted:
  assumes "sorted_wrt (\<lambda>a b. \<not> f b < f a) xs"
  shows "sort_by f xs = xs"
proof -
  have "fold (insert_by f) zs ys = ys @ zs" if "sorted_wrt (\<lambda>a b. \<not> f b < f a) (ys @ zs)" for ys zs
    using that
  proof (induction zs arbitrary: ys)
    case (Cons z zs)
    have "insert_by f z ys = ys @ [z]" using Cons.prems by (intro insert_by_last) (auto simp: sorted_wrt_append)
    then show ?case using Cons.IH [of "ys @ [z]"] Cons.prems by simp
  qed simp
  from this [of "[]" xs] show ?thesis using assms by (simp add: sort_by_def)
qed

text \<open>Points with increasing indices.\<close>

definition knots :: "nat list \<Rightarrow> real list \<Rightarrow> bool" where
  "knots is ys \<longleftrightarrow> sorted_wrt (<) is \<and> length ys = length is"

lemma knots_less: "knots is ys \<Longrightarrow> i < j \<Longrightarrow> j < length is \<Longrightarrow> real (is ! i) < real (is ! j)"
  by (simp add: knots_def sorted_wrt_iff_nth_less)

lemma spline_h_knots:
  assumes "knots is ys" "i + 1 < length is"
  shows "spline_h (map jnat is) i = Fin (real (is ! (i + 1)) - real (is ! i))" "real (is ! (i + 1)) - real (is ! i) > 0"
  using assms knots_less [OF assms(1), of i "i + 1"] by (simp_all add: spline_h_def)

lemma spline_alpha_knots:
  assumes "knots is ys" "0 < i" "i + 1 < length is"
  shows "\<exists>a. spline_alpha (map jnat is) (map Fin ys) i = Fin a"
  using assms spline_h_knots [OF assms(1), of i] spline_h_knots [OF assms(1), of "i - 1"]
  by (auto simp: spline_alpha_def knots_def)

lemma spline_sweep_knots:
  assumes "knots is ys"
  shows "k + 1 < length is \<Longrightarrow> \<exists>mu z. spline_sweep (map jnat is) (map Fin ys) k = (Fin mu, Fin z) \<and> 0 \<le> mu \<and> mu < 1"
proof (induction k)
  case (Suc k)
  obtain mu z where s: "spline_sweep (map jnat is) (map Fin ys) k = (Fin mu, Fin z)" and mu: "0 \<le> mu" "mu < 1"
    using Suc by auto
  define h0 h1 where "h0 = real (is ! Suc k) - real (is ! k)" and "h1 = real (is ! Suc (Suc k)) - real (is ! Suc k)"
  have h: "spline_h (map jnat is) k = Fin h0" "spline_h (map jnat is) (Suc k) = Fin h1" "0 < h0" "0 < h1"
    using spline_h_knots [OF assms, of k] spline_h_knots [OF assms, of "Suc k"] Suc.prems by (simp_all add: h0_def h1_def)
  obtain a where a: "spline_alpha (map jnat is) (map Fin ys) (Suc k) = Fin a"
    using spline_alpha_knots [OF assms, of "Suc k"] Suc.prems by auto
  define l where "l = 2 * (h0 + h1) - h0 * mu"
  have "h0 * mu \<le> h0" using mu h(3) by (simp add: mult_left_le)
  then have "2 * h1 + h0 \<le> l" by (simp add: l_def)
  then have l: "0 < l" "h1 < l" using h(3,4) by linarith+
  have "2 * (rd (map jnat is) (Suc k + 1) - rd (map jnat is) (Suc k - 1)) - spline_h (map jnat is) (Suc k - 1) * Fin mu = Fin l"
    using Suc.prems by (simp add: h l_def h0_def h1_def)
  then have "spline_sweep (map jnat is) (map Fin ys) (Suc k) = (Fin (h1 / l), Fin ((a - h0 * z) / l))"
    using l(1) a h by (simp add: s Let_def)
  then show ?case using l h(4) by simp
qed simp

lemma spline_c_knots:
  assumes "knots is ys" "2 \<le> length is"
  shows "k < length is \<Longrightarrow> \<exists>c. spline_c (map jnat is) (map Fin ys) (length is) k = Fin c"
proof (induction k)
  case (Suc k)
  obtain c where "spline_c (map jnat is) (map Fin ys) (length is) k = Fin c" using Suc by auto
  moreover obtain mu z where "spline_sweep (map jnat is) (map Fin ys) (length is - 1 - Suc k) = (Fin mu, Fin z)"
    using spline_sweep_knots [OF assms(1), of "length is - 1 - Suc k"] Suc.prems by fastforce
  ultimately show ?case by simp
qed simp

lemma spline_index_less: "2 \<le> n \<Longrightarrow> spline_index xs n q + 1 < n"
proof -
  assume n: "2 \<le> n"
  show ?thesis
  proof (cases "find_index (\<lambda>i. q \<ge> rd xs i \<and> q \<le> rd xs (i + 1)) [0..<n - 1]")
    case None
    then show ?thesis using n by (simp add: spline_index_def)
  next
    case (Some i)
    then have "spline_index xs n q = i" "i < n - 1" using find_index_Some [OF Some] by (simp_all add: spline_index_def)
    then show ?thesis by simp
  qed
qed

lemma cubicSpline_knots:
  assumes "knots is ys" "2 \<le> length is"
  shows "\<exists>v. cubicSpline (map jnat is) (map Fin ys) (Fin q) = Fin v"
proof -
  define zs where "zs = zip (map jnat is) (map Fin ys)"
  have len: "length ys = length is" using assms(1) by (simp add: knots_def)
  have "sorted_wrt (\<lambda>a b. \<not> fst b < fst a) zs"
    unfolding zs_def sorted_wrt_iff_nth_less using len knots_less [OF assms(1)] by (auto simp: not_less intro: less_imp_le)
  then have "sort_by fst zs = zs" by (rule sort_by_sorted)
  then have sort: "map fst (sort_by fst zs) = map jnat is" "map snd (sort_by fst zs) = map Fin ys"
    using len by (simp_all add: zs_def)
  define i where "i = spline_index (map jnat is) (length is) (Fin q)"
  have i: "i + 1 < length is" unfolding i_def using assms(2) by (rule spline_index_less)
  obtain c where c: "spline_c (map jnat is) (map Fin ys) (length is) (length is - 1 - i) = Fin c"
    using spline_c_knots [OF assms, of "length is - 1 - i"] i by fastforce
  obtain c1 where c1: "spline_c (map jnat is) (map Fin ys) (length is) (length is - 1 - (i + 1)) = Fin c1"
    using spline_c_knots [OF assms, of "length is - 1 - (i + 1)"] i by fastforce
  define h where "h = real (is ! (i + 1)) - real (is ! i)"
  have h: "spline_h (map jnat is) i = Fin h" "0 < h" using spline_h_knots [OF assms(1) i] by (simp_all add: h_def)
  have h01: "real (is ! 1) - real (is ! 0) > 0" using knots_less [OF assms(1), of 0 1] assms(2) by simp
  have "\<not> length is < 2" using assms(2) by simp
  then show ?thesis
    unfolding cubicSpline_def Let_def zs_def [symmetric] sort length_map i_def [symmetric] c c1 h(1)
    using h(2) h01 i len by auto
qed

section \<open>Sifting\<close>

lemma findMaxima_knots:
  obtains ps where "findMaxima (map Fin s) = map (\<lambda>i. (i, Fin (s ! i))) ps" "sorted_wrt (<) ps" "\<forall>i \<in> set ps. i < length s"
proof -
  define n where "n = length s"
  define ps where "ps = (if rd (map Fin s) 0 > rd (map Fin s) 1 then [0] else []) @
     filter (\<lambda>i. rd (map Fin s) i > rd (map Fin s) (i - 1) \<and> rd (map Fin s) i \<ge> rd (map Fin s) (i + 1)) [1..<n - 1] @
     (if rd (map Fin s) (n - 1) > rd (map Fin s) (n - 2) then [n - 1] else [])"
  have pos: "2 \<le> n" if "rd (map Fin s) 0 > rd (map Fin s) 1 \<or> rd (map Fin s) (n - 1) > rd (map Fin s) (n - 2)"
  proof (rule ccontr)
    assume "\<not> 2 \<le> n"
    then have "n = 0 \<or> n = 1" by auto
    then show False using that by (auto simp: n_def)
  qed
  have lt: "\<forall>i \<in> set ps. i < length s" using pos by (auto simp: ps_def n_def split: if_splits)
  have "sorted_wrt (<) (filter P [1..<n - 1])" for P by (intro sorted_wrt_filter) (simp add: sorted_wrt_upt)
  then have sort: "sorted_wrt (<) ps"
    using pos by (auto simp: ps_def sorted_wrt_append)
  have "findMaxima (map Fin s) = map (\<lambda>i. (i, rd (map Fin s) i)) ps"
    by (simp add: findMaxima_def ps_def Let_def n_def)
  also have "\<dots> = map (\<lambda>i. (i, Fin (s ! i))) ps" using lt by simp
  finally show ?thesis using that sort lt by blast
qed

lemma minima_of_negation: "findMinima (map Fin s) = map (\<lambda>(i, v). (i, - v)) (findMaxima (map Fin (map uminus s)))"
proof -
  have r: "rd (map Fin (map uminus s)) i = - rd (map Fin s) i" for i by (simp add: rd_def)
  have neg: "- a > - b \<longleftrightarrow> a < b" "- a \<ge> - b \<longleftrightarrow> a \<le> b" "- (- a) = a" for a b :: jsnum by (cases a; cases b; auto)+
  show ?thesis unfolding findMinima_def findMaxima_def Let_def length_map r neg by (simp add: neg)
qed

lemma findMinima_knots:
  obtains ps where "findMinima (map Fin s) = map (\<lambda>i. (i, Fin (s ! i))) ps" "sorted_wrt (<) ps" "\<forall>i \<in> set ps. i < length s"
proof -
  obtain ps where "findMaxima (map Fin (map uminus s)) = map (\<lambda>i. (i, Fin (map uminus s ! i))) ps"
    "sorted_wrt (<) ps" "\<forall>i \<in> set ps. i < length (map uminus s)" by (rule findMaxima_knots)
  moreover have "map (\<lambda>(i, v). (i, - v)) (map (\<lambda>i. (i, Fin (map uminus s ! i))) ps) = map (\<lambda>i. (i, Fin (s ! i))) ps"
    using calculation(3) by simp
  ultimately show ?thesis by (intro that [of ps]) (simp_all add: minima_of_negation)
qed

lemma envelope_real:
  assumes "points = map (\<lambda>i. (i, Fin (s ! i))) ps" "sorted_wrt (<) ps" "2 \<le> length points"
  shows "\<exists>vs. envelope points n = map Fin vs \<and> length vs = n"
proof -
  have k: "knots ps (map (\<lambda>i. s ! i) ps)" using assms(2) by (simp add: knots_def)
  have "\<exists>v. cubicSpline (map jnat ps) (map Fin (map (\<lambda>i. s ! i) ps)) (jnat i) = Fin v" for i
    using assms by (intro cubicSpline_knots [OF k]) simp
  then obtain v where v: "\<And>i. cubicSpline (map jnat ps) (map Fin (map (\<lambda>i. s ! i) ps)) (jnat i) = Fin (v i)" by metis
  have "envelope points n = map Fin (map v [0..<n])"
    using v by (simp add: envelope_def assms(1) comp_def)
  then show ?thesis by (intro exI [of _ "map v [0..<n]"]) simp
qed

lemma sift_step_real:
  assumes "2 \<le> length (findMaxima (map Fin s))" "2 \<le> length (findMinima (map Fin s))"
  shows "\<exists>r. sift_step (map Fin s) = map Fin r \<and> length r = length s"
proof -
  obtain ps where ps: "findMaxima (map Fin s) = map (\<lambda>i. (i, Fin (s ! i))) ps" "sorted_wrt (<) ps" by (rule findMaxima_knots)
  obtain us where us: "envelope (findMaxima (map Fin s)) (length s) = map Fin us" "length us = length s"
    using envelope_real [OF ps assms(1)] by blast
  obtain qs where qs: "findMinima (map Fin s) = map (\<lambda>i. (i, Fin (s ! i))) qs" "sorted_wrt (<) qs" by (rule findMinima_knots)
  obtain ls where ls: "envelope (findMinima (map Fin s)) (length s) = map Fin ls" "length ls = length s"
    using envelope_real [OF qs assms(2)] by blast
  have "sift_step (map Fin s) = map Fin (map (\<lambda>i. s ! i - (us ! i + ls ! i) / 2) [0..<length s])"
    using us ls by (simp add: sift_step_def Let_def)
  then show ?thesis by (intro exI [of _ "map (\<lambda>i. s ! i - (us ! i + ls ! i) / 2) [0..<length s]"]) simp
qed

lemma sift_real: "\<exists>r. sift (map Fin s) maxIter th = map Fin r \<and> length r = length s"
proof -
  have "\<exists>r. sift_loop k th (map Fin s) p = map Fin r \<and> length r = length s" for k p s
  proof (induction k arbitrary: s p)
    case (Suc k)
    show ?case
    proof (cases "length (findMaxima (map Fin s)) < 2 \<or> length (findMinima (map Fin s)) < 2")
      case True
      then show ?thesis by auto
    next
      case False
      then obtain r where r: "sift_step (map Fin s) = map Fin r" "length r = length s"
        using sift_step_real [of s] by auto
      obtain t where "sift_loop k th (map Fin r) (map Fin r) = map Fin t" "length t = length r" using Suc.IH by blast
      then show ?thesis using False r by (auto simp: Let_def)
    qed
  qed auto
  then show ?thesis by (simp add: sift_def)
qed

section \<open>The decomposition\<close>

definition add_up :: "nat \<Rightarrow> real list list \<Rightarrow> real list \<Rightarrow> real list" where
  "add_up n imfs residue = map (\<lambda>i. sum_list (map (\<lambda>f. f ! i) imfs) + residue ! i) [0..<n]"

lemma emd_loop_real:
  assumes "length r = n" "list_all (\<lambda>f. length f = n) fs"
  shows "\<exists>imfs residue. emd_loop k maxIter (map Fin r) (map (map Fin) fs) = (map (map Fin) imfs, map Fin residue) \<and>
    length imfs \<le> length fs + k \<and> list_all (\<lambda>f. length f = n) imfs \<and> length residue = n \<and> add_up n imfs residue = add_up n fs r"
  using assms
proof (induction k arbitrary: r fs)
  case 0
  then show ?case by auto
next
  case (Suc k)
  obtain f where f: "sift (map Fin r) maxIter (Fin 0.05) = map Fin f" "length f = n"
    using sift_real [of r maxIter] Suc.prems(1) by blast
  define r' where "r' = map (\<lambda>i. r ! i - f ! i) [0..<n]"
  have r': "map (\<lambda>i. map Fin r ! i - rd (map Fin f) i) [0..<length (map Fin r)] = map Fin r'" "length r' = n"
    using Suc.prems(1) f(2) by (simp_all add: r'_def)
  have fs': "map (map Fin) fs @ [map Fin f] = map (map Fin) (fs @ [f])" by simp
  have sum: "add_up n (fs @ [f]) r' = add_up n fs r" by (simp add: add_up_def r'_def)
  have l: "list_all (\<lambda>f. length f = n) (fs @ [f])" using Suc.prems(2) f(2) by simp
  show ?case
  proof (cases "length (findMaxima (map Fin r')) < 2 \<and> length (findMinima (map Fin r')) < 2")
    case True
    then have "emd_loop (Suc k) maxIter (map Fin r) (map (map Fin) fs) = (map (map Fin) (fs @ [f]), map Fin r')"
      by (simp only: emd_loop.simps Let_def f(1) r'(1) fs' simp_thms if_True)
    then show ?thesis using sum l r'(2) by (intro exI [of _ "fs @ [f]"] exI [of _ r']) simp
  next
    case False
    then have "emd_loop (Suc k) maxIter (map Fin r) (map (map Fin) fs) = emd_loop k maxIter (map Fin r') (map (map Fin) (fs @ [f]))"
      by (simp only: emd_loop.simps Let_def f(1) r'(1) fs' False if_False)
    moreover obtain imfs residue where "emd_loop k maxIter (map Fin r') (map (map Fin) (fs @ [f])) = (map (map Fin) imfs, map Fin residue)"
      "length imfs \<le> length (fs @ [f]) + k" "list_all (\<lambda>f. length f = n) imfs" "length residue = n"
      "add_up n imfs residue = add_up n (fs @ [f]) r'"
      using Suc.IH [OF r'(2) l] by blast
    ultimately show ?thesis using sum by auto
  qed
qed

text \<open>
  C39: the decomposition loses nothing: for any real signal and any limits, sifting divides by no zero, and the modes, at most the
  number asked for, and the residue are real and add up to the signal at every point.
\<close>

theorem emd_reconstructs:
  "\<exists>imfs residue. emd (map Fin signal) maxIMFs maxIter = (map (map Fin) imfs, map Fin residue) \<and> length imfs \<le> maxIMFs \<and>
    list_all (\<lambda>f. length f = length signal) imfs \<and> length residue = length signal \<and>
    map (\<lambda>i. sum_list (map (\<lambda>f. f ! i) imfs) + residue ! i) [0..<length signal] = signal"
proof -
  have "add_up (length signal) [] signal = signal" by (simp add: add_up_def map_nth)
  then show ?thesis
    using emd_loop_real [of signal "length signal" "[]" maxIMFs maxIter] by (auto simp: emd_def add_up_def)
qed

end
