(* ===== verification/FourierLaws.thy ===== *)
theory FourierLaws
  imports ModeDecomposition IndicatorLaws
begin

text \<open>
  The in-place fast Fourier transform computes the discrete Fourier transform, and the direct inverse undoes it.
\<close>

section \<open>Reversing bits\<close>

fun brev :: "nat \<Rightarrow> nat \<Rightarrow> nat" where
  "brev 0 i = 0"
| "brev (Suc m) i = (i mod 2) * 2 ^ m + brev m (i div 2)"

lemma brev_less: "brev m i < 2 ^ m"
proof (induction m arbitrary: i)
  case (Suc m)
  have "i mod 2 = 0 \<or> i mod 2 = 1" by auto
  then show ?case using Suc [of "i div 2"] by auto
qed simp

lemma brev_double: "brev (Suc m) (2 * t) = brev m t" "brev (Suc m) (2 * t + 1) = 2 ^ m + brev m t"
  by simp_all

lemma brev_high: "r < 2 ^ m \<Longrightarrow> c < 2 \<Longrightarrow> brev (Suc m) (c * 2 ^ m + r) = 2 * brev m r + c"
proof (induction m arbitrary: r)
  case (Suc m)
  have e: "c * 2 ^ Suc m + r = r + (c * 2 ^ m) * 2" by simp
  have d: "(c * 2 ^ Suc m + r) mod 2 = r mod 2" "(c * 2 ^ Suc m + r) div 2 = c * 2 ^ m + r div 2"
    unfolding e mod_mult_self1 by simp_all
  have "r div 2 < 2 ^ m" using Suc.prems by simp
  then have "brev (Suc m) (c * 2 ^ m + r div 2) = 2 * brev m (r div 2) + c" using Suc by blast
  then show ?case unfolding brev.simps(2) [of "Suc m"] d by (simp only: brev.simps power_Suc) simp
qed simp

lemma brev_brev: "i < 2 ^ m \<Longrightarrow> brev m (brev m i) = i"
proof (induction m arbitrary: i)
  case (Suc m)
  have "i div 2 < 2 ^ m" using Suc.prems by simp
  have "brev (Suc m) ((i mod 2) * 2 ^ m + brev m (i div 2)) = 2 * brev m (brev m (i div 2)) + i mod 2"
    by (rule brev_high [OF brev_less]) simp
  then show ?case using Suc.IH [OF \<open>i div 2 < 2 ^ m\<close>] by simp
qed simp

lemma high_bit:
  assumes "r < 2 ^ k"
  shows "(2 ^ k + r) AND 2 ^ k \<noteq> (0 :: nat)" "r AND 2 ^ k = (0 :: nat)" "r XOR 2 ^ k = 2 ^ k + (r :: nat)" "(2 ^ k + r) XOR 2 ^ k = (r :: nat)"
proof -
  have b: "n < k" if "bit r n" for n
  proof (rule ccontr)
    assume "\<not> n < k"
    with that have n: "bit r n" "\<not> n < k" by simp_all
    then have "(2 :: nat) ^ k \<le> 2 ^ n" by (intro power_increasing) auto
    then have "r < 2 ^ n" using assms by linarith
    then have "r div 2 ^ n = 0" by simp
    then show False using n(1) by (simp add: bit_iff_odd)
  qed
  show r0: "r AND 2 ^ k = 0" using b [of k] by (auto simp: and_exp_eq_0_iff_not_bit)
  have "r XOR 2 ^ k = r OR 2 ^ k" by (rule bit_eqI) (use b in \<open>auto simp: bit_simps\<close>)
  moreover have "r + 2 ^ k = r OR 2 ^ k" by (rule disjunctive_add_eq_or) (simp add: r0)
  ultimately show x: "r XOR 2 ^ k = 2 ^ k + r" by simp
  have "(r XOR 2 ^ k) XOR 2 ^ k = r" by (simp add: xor.assoc)
  then show "(2 ^ k + r) XOR 2 ^ k = r" by (simp add: x)
  have "bit (r XOR 2 ^ k) k" using b [of k] by (auto simp: bit_simps)
  then show "(2 ^ k + r) AND 2 ^ k \<noteq> 0" by (simp add: x and_exp_eq_0_iff_not_bit)
qed

lemma reverse_carry_brev: "i + 1 < 2 ^ m \<Longrightarrow> reverse_carry (brev m i) (2 ^ m div 2) = brev m (i + 1)"
proof (induction m arbitrary: i)
  case (Suc m)
  have bt: "2 ^ Suc m div 2 = (2 ^ m :: nat)" by simp
  show ?case
  proof (cases "even i")
    case True
    then obtain t where t: "i = 2 * t" by blast
    show ?thesis
      unfolding bt t brev_double reverse_carry.simps [of "brev m t"] by (simp add: high_bit [OF brev_less])
  next
    case False
    then obtain t where t: "i = 2 * t + 1" by (rule oddE)
    have t1: "i + 1 = 2 * (t + 1)" using t by simp
    have "t + 1 < 2 ^ m" using Suc.prems t by simp
    then have "reverse_carry (brev m t) (2 ^ m div 2) = brev m (t + 1)" by (rule Suc.IH)
    then show ?thesis
      unfolding bt t1 brev_double unfolding t brev_double reverse_carry.simps [of "2 ^ m + brev m t"]
      by (simp add: high_bit [OF brev_less])
  qed
qed simp

text \<open>The list before index \<open>i\<close>: the pairs with a member below \<open>i\<close> are swapped.\<close>

definition reversed_below :: "nat \<Rightarrow> 'a list \<Rightarrow> nat \<Rightarrow> nat \<Rightarrow> 'a" where
  "reversed_below m s i k = (if k < i \<or> brev m k < i then s ! brev m k else s ! k)"

lemma reversed_below_1: "k < 2 ^ m \<Longrightarrow> reversed_below m s 1 k = s ! k"
proof -
  assume k: "k < 2 ^ m"
  have "brev m 0 = 0" by (induction m) simp_all
  then show ?thesis using brev_brev [OF k] by (auto simp: reversed_below_def)
qed

lemma reversed_below_swap:
  assumes "i < 2 ^ m" "i < brev m i" "length x = 2 ^ m" "\<And>k. k < 2 ^ m \<Longrightarrow> x ! k = reversed_below m s i k" "k < 2 ^ m"
  shows "swap_items i (brev m i) x ! k = reversed_below m s (Suc i) k"
proof -
  have lt: "brev m i < 2 ^ m" by (rule brev_less)
  have inv: "brev m (brev m i) = i" using assms(1) by (rule brev_brev)
  have xi: "x ! i = s ! i" "x ! brev m i = s ! brev m i" using assms(1,2,4) lt inv by (simp_all add: reversed_below_def)
  consider "k = i" | "k = brev m i" | "k \<noteq> i" "k \<noteq> brev m i" by blast
  then show ?thesis
  proof cases
    case 3
    then have "brev m k \<noteq> i" using brev_brev [OF assms(5)] by auto
    then show ?thesis using 3 assms(3-5) by (auto simp: swap_items_def reversed_below_def less_Suc_eq)
  qed (use assms lt xi inv in \<open>simp_all add: swap_items_def reversed_below_def\<close>)
qed

lemma reversed_below_keep:
  assumes "\<not> i < brev m i" "k < 2 ^ m"
  shows "reversed_below m s (Suc i) k = reversed_below m s i k"
proof -
  have "s ! brev m k = s ! k \<or> k < i \<or> brev m k < i" if "k = i \<or> brev m k = i"
    using that assms(1) brev_brev [OF assms(2)] by (metis linorder_neqE_nat)
  then show ?thesis by (auto simp: reversed_below_def less_Suc_eq)
qed

lemma bit_reversal_nth:
  fixes s :: "'a list"
  assumes "length s = 2 ^ m"
  shows "length (bit_reversal s) = 2 ^ m" "k < 2 ^ m \<Longrightarrow> bit_reversal s ! k = s ! brev m k"
proof -
  define body where "body = (\<lambda>i (j, x :: 'a list). let j' = reverse_carry j (length s div 2) in (j', if i < j' then swap_items i j' x else x))"
  define P where "P = (\<lambda>i (j, x :: 'a list). j = brev m (i - 1) \<and> length x = 2 ^ m \<and> (\<forall>k < 2 ^ m. x ! k = reversed_below m s i k))"
  have "P (2 ^ m) (for_loop 1 (2 ^ m) body (0, s))"
  proof (rule for_loop_invariant)
    have "brev m 0 = 0" by (induction m) simp_all
    then show "P 1 (0, s)" using assms by (simp add: P_def reversed_below_1 del: One_nat_def)
  next
    fix i st assume i: "1 \<le> i" "i < 2 ^ m" "P i st"
    obtain j x where st: "st = (j, x)" by fastforce
    have x: "j = brev m (i - 1)" "length x = 2 ^ m" "\<And>k. k < 2 ^ m \<Longrightarrow> x ! k = reversed_below m s i k"
      using i(3) by (auto simp: P_def st)
    have j': "reverse_carry j (length s div 2) = brev m i"
      using reverse_carry_brev [of "i - 1" m] i x(1) assms by simp
    show "P (Suc i) (body i st)"
      using x(2,3) reversed_below_swap [OF i(2) _ x(2,3)] reversed_below_keep [of i m _ s]
      by (simp add: P_def st body_def j' Let_def)
  qed simp
  then have "P (2 ^ m) (for_loop 1 (length s) body (0, s))" using assms by simp
  moreover have "bit_reversal s = snd (for_loop 1 (length s) body (0, s))" by (simp add: bit_reversal_def body_def)
  ultimately show "length (bit_reversal s) = 2 ^ m" "k < 2 ^ m \<Longrightarrow> bit_reversal s ! k = s ! brev m k"
    by (auto simp: P_def reversed_below_def split: prod.splits)
qed

section \<open>Roots of unity\<close>

definition twiddle :: "nat \<Rightarrow> nat \<Rightarrow> complex" where
  "twiddle N k = cis (- 2 * pi * real k / real N)"

lemma twiddle_add: "twiddle N (a + b) = twiddle N a * twiddle N b"
proof -
  have "- 2 * pi * real (a + b) / real N = - 2 * pi * real a / real N + - 2 * pi * real b / real N"
    by (cases "N = 0") (simp_all add: field_simps)
  then show ?thesis by (simp only: twiddle_def cis_mult)
qed

lemma twiddle_half: "twiddle (2 * h) (2 * k) = twiddle h k"
proof -
  have "- 2 * pi * real (2 * k) / real (2 * h) = - 2 * pi * real k / real h" by (simp add: field_simps)
  then show ?thesis by (simp only: twiddle_def)
qed

lemma twiddle_0 [simp]: "twiddle N 0 = 1"
  by (simp add: twiddle_def)

lemma twiddle_period: "0 < N \<Longrightarrow> twiddle N (N * t) = 1"
proof -
  assume "0 < N"
  then have "- 2 * pi * real (N * t) / real N = 2 * pi * (- real t)" by simp
  moreover have "cis (2 * pi * (- real t)) = 1" by (rule cis_multiple_2pi) simp
  ultimately show ?thesis by (simp only: twiddle_def)
qed

lemma twiddle_middle: "0 < h \<Longrightarrow> twiddle (2 * h) h = - 1"
proof -
  assume "0 < h"
  then have "- 2 * pi * real h / real (2 * h) = - pi" by simp
  then show ?thesis by (simp only: twiddle_def) (simp add: complex_eq_iff)
qed

definition cfin :: "complex \<Rightarrow> jcomplex" where
  "cfin z = (Fin (Re z), Fin (Im z))"

section \<open>One pass\<close>

definition pass_val :: "nat \<Rightarrow> complex list \<Rightarrow> nat \<Rightarrow> complex" where
  "pass_val h zs p =
     (let q = p mod (2 * h) in if q < h then zs ! p + twiddle (2 * h) q * zs ! (p + h) else zs ! (p - h) - twiddle (2 * h) (q - h) * zs ! p)"

definition pass_done :: "nat \<Rightarrow> nat \<Rightarrow> nat \<Rightarrow> nat \<Rightarrow> bool" where
  "pass_done h b k p \<longleftrightarrow> p div (2 * h) < b \<or> p div (2 * h) = b \<and> p mod (2 * h) mod h < k"

definition pass_state :: "nat \<Rightarrow> complex list \<Rightarrow> nat \<Rightarrow> nat \<Rightarrow> jcomplex list" where
  "pass_state h zs b k = map (\<lambda>p. cfin (if pass_done h b k p then pass_val h zs p else zs ! p)) [0..<length zs]"

lemma pair_positions:
  assumes "0 < h" "k < (h :: nat)"
  shows "p div (2 * h) = b \<and> p mod (2 * h) mod h = k \<longleftrightarrow> p = b * (2 * h) + k \<or> p = b * (2 * h) + k + h"
proof
  assume a: "p div (2 * h) = b \<and> p mod (2 * h) mod h = k"
  define q where "q = p mod (2 * h)"
  have "p div (2 * h) * (2 * h) + q = p" unfolding q_def by (rule div_mult_mod_eq)
  then have pq: "p = b * (2 * h) + q" using a by simp
  have "q < 2 * h" using assms by (simp add: q_def)
  moreover have "q mod h = k" using a by (simp add: q_def)
  ultimately have "q = k \<or> q = k + h"
    using le_mod_geq [of h q] by (cases "q < h") auto
  then show "p = b * (2 * h) + k \<or> p = b * (2 * h) + k + h" using pq by auto
next
  have q: "(q + b * (2 * h)) div (2 * h) = b \<and> (q + b * (2 * h)) mod (2 * h) = q" if "q < 2 * h" for q
    using that by simp
  assume "p = b * (2 * h) + k \<or> p = b * (2 * h) + k + h"
  then consider "p = k + b * (2 * h)" | "p = (k + h) + b * (2 * h)" by linarith
  then show "p div (2 * h) = b \<and> p mod (2 * h) mod h = k"
    by cases (use q [of k] q [of "k + h"] assms in simp_all)
qed

lemma butterfly_state:
  assumes "0 < h" "k < h" "b * (2 * h) + 2 * h \<le> length zs"
  shows "butterfly (Fin (- 2 * pi) / jnat (2 * h)) h (b * (2 * h)) k (pass_state h zs b k) = pass_state h zs b (Suc k)"
proof -
  define p1 p2 where "p1 = b * (2 * h) + k" and "p2 = b * (2 * h) + k + h"
  have lt: "p1 < length zs" "p2 < length zs" using assms by (simp_all add: p1_def p2_def)
  have e: "p1 = k + b * (2 * h)" "p2 = (k + h) + b * (2 * h)" by (simp_all add: p1_def p2_def)
  have d1: "p1 div (2 * h) = b" "p1 mod (2 * h) = k" unfolding e(1) using assms by simp_all
  have d2: "p2 div (2 * h) = b" "p2 mod (2 * h) = k + h" unfolding e(2) using assms by simp_all
  have nd: "\<not> pass_done h b k p1" "\<not> pass_done h b k p2" using assms d1 d2 by (simp_all add: pass_done_def)
  have at_pos: "pass_state h zs b k ! p1 = cfin (zs ! p1)" "pass_state h zs b k ! p2 = cfin (zs ! p2)"
    using nd lt by (simp_all add: pass_state_def)
  have v1: "pass_val h zs p1 = zs ! p1 + twiddle (2 * h) k * zs ! p2" using d1 assms by (simp add: pass_val_def p1_def p2_def)
  have v2: "pass_val h zs p2 = zs ! p1 - twiddle (2 * h) k * zs ! p2" using d2 assms by (simp add: pass_val_def p1_def p2_def)
  have w: "jcos (Fin (- 2 * pi) / jnat (2 * h) * jnat k) = Fin (Re (twiddle (2 * h) k))"
    "jsin (Fin (- 2 * pi) / jnat (2 * h) * jnat k) = Fin (Im (twiddle (2 * h) k))"
    using assms(1) by (simp_all add: twiddle_def)
  have p12: "b * (2 * h) + k = p1" "p1 + h = p2" by (simp_all add: p1_def p2_def)
  have up: "butterfly (Fin (- 2 * pi) / jnat (2 * h)) h (b * (2 * h)) k (pass_state h zs b k) =
      (pass_state h zs b k)[p2 := cfin (pass_val h zs p2), p1 := cfin (pass_val h zs p1)]"
    unfolding butterfly_def Let_def w p12 at_pos
    by (simp add: cfin_def v1 v2)
  show ?thesis
  proof (rule nth_equalityI)
    show "length (butterfly (Fin (- 2 * pi) / jnat (2 * h)) h (b * (2 * h)) k (pass_state h zs b k)) = length (pass_state h zs b (Suc k))"
      by (simp add: pass_state_def)
    fix p assume "p < length (butterfly (Fin (- 2 * pi) / jnat (2 * h)) h (b * (2 * h)) k (pass_state h zs b k))"
    then have p: "p < length zs" by (simp add: pass_state_def)
    have new: "pass_done h b (Suc k) p \<longleftrightarrow> pass_done h b k p \<or> p = p1 \<or> p = p2"
    proof -
      have "p div (2 * h) = b \<and> p mod (2 * h) mod h = k \<longleftrightarrow> p = p1 \<or> p = p2"
        unfolding p1_def p2_def by (rule pair_positions) (use assms in simp_all)
      then show ?thesis by (auto simp: pass_done_def less_Suc_eq)
    qed
    show "butterfly (Fin (- 2 * pi) / jnat (2 * h)) h (b * (2 * h)) k (pass_state h zs b k) ! p = pass_state h zs b (Suc k) ! p"
      unfolding up using p lt new by (auto simp: pass_state_def nth_list_update)
  qed
qed

lemma fft_pass_complex:
  assumes "0 < h" "2 * h dvd length zs"
  shows "fft_pass (2 * h) (map cfin zs) = map cfin (map (pass_val h zs) [0..<length zs])"
proof -
  define n where "n = length zs div (2 * h)"
  have n: "length zs = n * (2 * h)" using assms(2) by (simp add: n_def)
  have inner: "for_loop 0 h (butterfly (Fin (- 2 * pi) / jnat (2 * h)) h (b * (2 * h))) (pass_state h zs b 0) = pass_state h zs (Suc b) 0"
    if "b < n" for b
  proof -
    have "Suc b * (2 * h) \<le> n * (2 * h)" using that by (intro mult_le_mono1) simp
    then have fits: "b * (2 * h) + 2 * h \<le> length zs" by (simp add: n)
    have "for_loop 0 h (butterfly (Fin (- 2 * pi) / jnat (2 * h)) h (b * (2 * h))) (pass_state h zs b 0) = pass_state h zs b h"
      by (rule for_loop_invariant [where P = "\<lambda>k st. st = pass_state h zs b k"])
        (use assms(1) fits butterfly_state in auto)
    also have "pass_state h zs b h = pass_state h zs (Suc b) 0"
      using assms(1) by (auto simp: pass_state_def pass_done_def less_Suc_eq)
    finally show ?thesis .
  qed
  have start: "pass_state h zs 0 0 = map cfin zs"
    by (rule nth_equalityI) (simp_all add: pass_state_def pass_done_def)
  have "for_loop 0 n (\<lambda>b. for_loop 0 h (butterfly (Fin (- 2 * pi) / jnat (2 * h)) h (b * (2 * h)))) (pass_state h zs 0 0) = pass_state h zs n 0"
    by (rule for_loop_invariant [where P = "\<lambda>b st. st = pass_state h zs b 0"]) (use inner in auto)
  moreover have "pass_state h zs n 0 = map cfin (map (pass_val h zs) [0..<length zs])"
  proof -
    have "p div (2 * h) < n" if "p < length zs" for p using that n assms(1) by (simp add: less_mult_imp_div_less)
    then show ?thesis by (auto simp: pass_state_def pass_done_def)
  qed
  ultimately show ?thesis by (simp add: fft_pass_def start n_def)
qed

section \<open>All passes\<close>

lemma sum_even_odd: "(\<Sum>t < 2 * (n :: nat). f t) = (\<Sum>u < n. f (2 * u)) + (\<Sum>u < n. f (2 * u + 1) :: 'a :: comm_monoid_add)"
  by (induction n) (simp_all add: ac_simps)

definition block_dft :: "nat \<Rightarrow> complex list \<Rightarrow> nat \<Rightarrow> complex" where
  "block_dft s xs p = (\<Sum>t < 2 ^ s. xs ! (p div 2 ^ s * 2 ^ s + brev s t) * twiddle (2 ^ s) (p mod 2 ^ s * t))"

lemma twiddle_mod: "0 < h \<Longrightarrow> twiddle h (q * u) = twiddle h (q mod h * u)"
proof -
  assume h: "0 < h"
  have "q * u = (q mod h + h * (q div h)) * u" by simp
  then have e: "q * u = q mod h * u + h * (q div h * u)" by (simp only: distrib_right mult.assoc)
  show ?thesis unfolding e twiddle_add twiddle_period [OF h] by simp
qed

lemma block_dft_Suc:
  assumes "2 * B + 1 < 2 * c" "q < 2 * 2 ^ s"
  shows "block_dft (Suc s) xs (B * (2 * 2 ^ s) + q) =
    (\<Sum>u < 2 ^ s. xs ! (2 * B * 2 ^ s + brev s u) * twiddle (2 ^ s) (q mod 2 ^ s * u)) +
    twiddle (2 * 2 ^ s) q * (\<Sum>u < 2 ^ s. xs ! ((2 * B + 1) * 2 ^ s + brev s u) * twiddle (2 ^ s) (q mod 2 ^ s * u))"
proof -
  define h where "h = (2 :: nat) ^ s"
  have h: "0 < h" "2 ^ Suc s = 2 * h" by (simp_all add: h_def)
  have p: "(B * (2 * h) + q) div (2 * h) = B" "(B * (2 * h) + q) mod (2 * h) = q"
    using assms(2) h(1) by (simp_all add: h_def [symmetric])
  have even: "xs ! (B * (2 * h) + brev (Suc s) (2 * u)) * twiddle (2 * h) (q * (2 * u)) =
      xs ! (2 * B * h + brev s u) * twiddle h (q mod h * u)" for u
  proof -
    have "q * (2 * u) = 2 * (q * u)" by simp
    then have "twiddle (2 * h) (q * (2 * u)) = twiddle h (q mod h * u)"
      by (simp only: twiddle_half twiddle_mod [OF h(1), of q u])
    then show ?thesis unfolding brev_double by (simp add: ac_simps)
  qed
  have odd: "xs ! (B * (2 * h) + brev (Suc s) (2 * u + 1)) * twiddle (2 * h) (q * (2 * u + 1)) =
      twiddle (2 * h) q * (xs ! ((2 * B + 1) * h + brev s u) * twiddle h (q mod h * u))" for u
  proof -
    have "q * (2 * u + 1) = q + 2 * (q * u)" by simp
    then have "twiddle (2 * h) (q * (2 * u + 1)) = twiddle (2 * h) q * twiddle h (q mod h * u)"
      by (simp only: twiddle_add twiddle_half twiddle_mod [OF h(1), of q u])
    moreover have "B * (2 * h) + brev (Suc s) (2 * u + 1) = (2 * B + 1) * h + brev s u"
      unfolding brev_double h_def by (simp add: algebra_simps)
    ultimately show ?thesis by (simp add: ac_simps)
  qed
  show ?thesis
    unfolding block_dft_def h_def [symmetric] h(2) p sum_even_odd even odd sum_distrib_left ..
qed

lemma pass_val_block:
  assumes "p < 2 ^ m" "Suc s \<le> m"
  shows "pass_val (2 ^ s) (map (block_dft s xs) [0..<2 ^ m]) p = block_dft (Suc s) xs p"
proof -
  define h where "h = (2 :: nat) ^ s"
  define B q where "B = p div (2 * h)" and "q = p mod (2 * h)"
  have h: "0 < h" by (simp add: h_def)
  have p: "p = B * (2 * h) + q" "q < 2 * h" using h by (simp_all add: B_def q_def mult.commute [of "p div (2 * h)"])
  have "2 * h dvd (2 :: nat) ^ m" using assms(2) by (simp add: h_def le_imp_power_dvd flip: power_Suc)
  then obtain c where c: "(2 :: nat) ^ m = c * (2 * h)" by (metis dvd_def mult.commute)
  have "B < c" using assms(1) h unfolding B_def c by (simp add: less_mult_imp_div_less)
  then have "Suc B * (2 * h) \<le> c * (2 * h)" by (intro mult_le_mono1) simp
  then have fits: "B * (2 * h) + 2 * h \<le> 2 ^ m" unfolding c by simp
  define S where "S = (\<lambda>C k. \<Sum>u < h. xs ! (C * h + brev s u) * twiddle h (k * u))"
  have blk: "block_dft s xs (C * h + k) = S C k" if "k < h" for C k
    using that h unfolding block_dft_def h_def [symmetric] S_def by simp
  have res: "block_dft (Suc s) xs p = S (2 * B) (q mod h) + twiddle (2 * h) q * S (2 * B + 1) (q mod h)"
    using block_dft_Suc [of B "B + 1" q s xs] p unfolding h_def [symmetric] S_def by simp
  show ?thesis
  proof (cases "q < h")
    case True
    have a: "p = (2 * B) * h + q" "p + h = (2 * B + 1) * h + q" using p by (simp_all add: algebra_simps)
    have l: "p < 2 ^ m" "p + h < 2 ^ m" using assms(1) fits True p by simp_all
    have "map (block_dft s xs) [0..<2 ^ m] ! p = S (2 * B) q" "map (block_dft s xs) [0..<2 ^ m] ! (p + h) = S (2 * B + 1) q"
      using l blk [OF True, of "2 * B"] blk [OF True, of "2 * B + 1"] unfolding a [symmetric] by simp_all
    then show ?thesis using True unfolding pass_val_def h_def [symmetric] q_def [symmetric] Let_def res by simp
  next
    case False
    then obtain k where k: "q = k + h" "k < h" using p(2) by (metis add_less_cancel_right le_Suc_ex add.commute mult_2 not_less)
    have a: "p - h = (2 * B) * h + k" "p = (2 * B + 1) * h + k" using p k by (simp_all add: algebra_simps)
    have l: "p < 2 ^ m" "p - h < 2 ^ m" using assms(1) by simp_all
    have v: "map (block_dft s xs) [0..<2 ^ m] ! (p - h) = S (2 * B) k" "map (block_dft s xs) [0..<2 ^ m] ! p = S (2 * B + 1) k"
      using l blk [OF k(2), of "2 * B"] blk [OF k(2), of "2 * B + 1"] unfolding a [symmetric] by simp_all
    have "q mod h = k" "twiddle (2 * h) q = - twiddle (2 * h) k"
      using k h by (simp_all add: twiddle_add twiddle_middle)
    then show ?thesis using False v k unfolding pass_val_def h_def [symmetric] q_def [symmetric] Let_def res by simp
  qed
qed

lemma fft_passes_block:
  "s \<le> m \<Longrightarrow>
    fft_passes (2 * 2 ^ s) (map cfin (map (block_dft s xs) [0..<2 ^ m])) = map cfin (map (block_dft m xs) [0..<2 ^ m])"
proof (induction "m - s" arbitrary: s)
  case 0
  then have "s = m" by simp
  then show ?case by (subst fft_passes.simps) simp
next
  case (Suc d)
  have step: "s < m" "d = m - Suc s" using Suc.hyps by simp_all
  have dv: "2 * 2 ^ s dvd (2 :: nat) ^ m" using step(1) by (simp add: le_imp_power_dvd flip: power_Suc)
  then have "2 * 2 ^ s \<le> (2 :: nat) ^ m" by (simp add: dvd_imp_le)
  then have "fft_passes (2 * 2 ^ s) (map cfin (map (block_dft s xs) [0..<2 ^ m])) =
      fft_passes (2 * (2 * 2 ^ s)) (fft_pass (2 * 2 ^ s) (map cfin (map (block_dft s xs) [0..<2 ^ m])))"
    by (subst fft_passes.simps) simp
  also have "fft_pass (2 * 2 ^ s) (map cfin (map (block_dft s xs) [0..<2 ^ m])) = map cfin (map (block_dft (Suc s) xs) [0..<2 ^ m])"
    using dv pass_val_block [of _ m s xs] step(1) by (subst fft_pass_complex) simp_all
  finally show ?case using Suc.hyps(1) [OF step(2)] step(1) by simp
qed

section \<open>The transform and its inverse\<close>

text \<open>Reference definition: the discrete Fourier transform of a real signal.\<close>

definition dft :: "real list \<Rightarrow> complex list" where
  "dft s = map (\<lambda>k. \<Sum>t < length s. of_real (s ! t) * twiddle (length s) (k * t)) [0..<length s]"

lemma fft_dft:
  assumes "length s = 2 ^ m"
  shows "fft (map Fin s) = map cfin (dft s)"
proof (cases "m = 0")
  case True
  then obtain v where "s = [v]" using assms by (auto simp: length_Suc_conv)
  then show ?thesis by (simp add: fft_def dft_def cfin_def zero_jsnum_def)
next
  case False
  then have long: "1 < length s" using assms one_less_power [of "2 :: nat" m] by simp
  define xs where "xs = map (\<lambda>k. complex_of_real (s ! brev m k)) [0..<2 ^ m]"
  have "bit_reversal (map (\<lambda>v. (v, 0)) (map Fin s)) = map cfin (map (block_dft 0 xs) [0..<2 ^ m])"
  proof (rule nth_equalityI)
    show "length (bit_reversal (map (\<lambda>v. (v, 0)) (map Fin s))) = length (map cfin (map (block_dft 0 xs) [0..<2 ^ m]))"
      using assms by (simp add: bit_reversal_nth)
    fix k assume "k < length (bit_reversal (map (\<lambda>v. (v, 0 :: jsnum)) (map Fin s)))"
    then have "k < 2 ^ m" using assms by (simp add: bit_reversal_nth)
    then show "bit_reversal (map (\<lambda>v. (v, 0)) (map Fin s)) ! k = map cfin (map (block_dft 0 xs) [0..<2 ^ m]) ! k"
      using assms brev_less [of m k] by (simp add: bit_reversal_nth block_dft_def xs_def cfin_def zero_jsnum_def)
  qed
  then have "fft (map Fin s) = fft_passes (2 * 2 ^ 0) (map cfin (map (block_dft 0 xs) [0..<2 ^ m]))"
    using long by (simp add: fft_def)
  also have "\<dots> = map cfin (map (block_dft m xs) [0..<2 ^ m])" by (rule fft_passes_block) simp
  also have "map (block_dft m xs) [0..<2 ^ m] = dft s"
    using brev_less [of m] by (auto simp: dft_def assms block_dft_def xs_def brev_brev intro!: sum.cong)
  finally show ?thesis .
qed

lemma twiddle_power: "twiddle N (k * d) = twiddle N d ^ k"
  by (induction k) (simp_all add: twiddle_add)

lemma twiddle_norm: "twiddle N a * cnj (twiddle N a) = 1"
  by (simp add: twiddle_def cis_cnj cis_mult)

lemma twiddle_distinct:
  assumes "t < N" "n < N" "twiddle N t * cnj (twiddle N n) = 1"
  shows "t = n"
proof -
  define x where "x = 2 * pi * (real n - real t) / real N"
  have "twiddle N t * cnj (twiddle N n) = cis x"
    unfolding twiddle_def cis_cnj cis_mult x_def by (rule arg_cong [of _ _ cis]) (simp add: diff_divide_distrib right_diff_distrib)
  then have "cos x = 1" using assms(3) by (simp add: complex_eq_iff)
  then obtain i :: int where i: "x = i * 2 * pi" by (auto simp: cos_one_2pi_int)
  have "2 * pi * (real n - real t) = 2 * pi * (i * real N)"
    using i assms(1) by (simp add: x_def field_simps)
  then have "real n - real t = i * real N" by simp
  then have "real_of_int (int n - int t) = real_of_int (i * int N)" by simp
  then have e: "int n - int t = i * int N" by (simp only: of_int_eq_iff)
  have "\<bar>int n - int t\<bar> < int N" using assms by linarith
  then have "\<bar>i\<bar> * int N < 1 * int N" by (simp add: e abs_mult)
  then have "\<bar>i\<bar> < 1" by (simp only: mult_less_cancel_right)
  then have "i = 0" by simp
  then show ?thesis using e by simp
qed

lemma twiddle_orthogonal:
  assumes "t < N" "n < N"
  shows "(\<Sum>k < N. twiddle N (k * t) * cnj (twiddle N (k * n))) = (if t = n then of_nat N else 0)"
proof -
  define w where "w = twiddle N t * cnj (twiddle N n)"
  have w: "twiddle N (k * t) * cnj (twiddle N (k * n)) = w ^ k" for k
    by (simp add: w_def twiddle_power power_mult_distrib)
  show ?thesis
  proof (cases "t = n")
    case True
    then have "w = 1" by (simp add: w_def twiddle_norm)
    then show ?thesis unfolding w using True by simp
  next
    case False
    then have "w \<noteq> 1" using twiddle_distinct [OF assms] by (auto simp: w_def)
    moreover have "w ^ N = 1"
      using assms twiddle_period [of N t] twiddle_period [of N n] by (simp add: w [symmetric])
    ultimately show ?thesis using False by (simp add: w geometric_sum)
  qed
qed

lemma ifftDirect_complex:
  assumes "length zs = N"
  shows "ifftDirect (map cfin zs) N =
    map (\<lambda>n. Fin (Re (\<Sum>k < N. zs ! k * cnj (twiddle N (k * n))) / real N)) [0..<N]"
proof -
  have summand: "(let angle = Fin (2 * pi) * jnat k * jnat n / jnat N; (sr, si) = map cfin zs ! k
      in sr * jcos angle - si * jsin angle) = Fin (Re (zs ! k * cnj (twiddle N (k * n))))" if "k < N" for k n
  proof -
    have a: "Fin (2 * pi) * jnat k * jnat n / jnat N = Fin (2 * pi * real (k * n) / real N)" using that by simp
    have "cnj (twiddle N (k * n)) = cis (2 * pi * real (k * n) / real N)" by (simp add: twiddle_def cis_cnj)
    then show ?thesis unfolding a Let_def using that assms by (simp add: cfin_def)
  qed
  have "for_loop 0 N (\<lambda>k re. let angle = Fin (2 * pi) * jnat k * jnat n / jnat N; (sr, si) = map cfin zs ! k
      in re + (sr * jcos angle - si * jsin angle)) 0 = Fin (\<Sum>k < N. Re (zs ! k * cnj (twiddle N (k * n))))" for n
  proof -
    have "for_loop 0 N (\<lambda>k re. let angle = Fin (2 * pi) * jnat k * jnat n / jnat N; (sr, si) = map cfin zs ! k
        in re + (sr * jcos angle - si * jsin angle)) 0 =
      for_loop 0 N (\<lambda>k re. re + Fin (Re (zs ! k * cnj (twiddle N (k * n))))) (Fin 0)"
      unfolding zero_jsnum_def
      by (rule for_loop_cong) (simp only: summand [symmetric], simp add: Let_def split: prod.splits)
    then show ?thesis by (simp add: for_loop_sum_Fin lessThan_atLeast0)
  qed
  then show ?thesis unfolding ifftDirect_def by simp
qed

lemma ifft_dft:
  assumes "s \<noteq> []"
  shows "ifftDirect (map cfin (dft s)) (length s) = map Fin s"
proof -
  define N where "N = length s"
  have N: "0 < N" using assms by (simp add: N_def)
  have inv: "(\<Sum>k < N. dft s ! k * cnj (twiddle N (k * n))) = of_nat N * of_real (s ! n)" if n: "n < N" for n
  proof -
    have "(\<Sum>k < N. dft s ! k * cnj (twiddle N (k * n))) =
        (\<Sum>k < N. \<Sum>t < N. of_real (s ! t) * (twiddle N (k * t) * cnj (twiddle N (k * n))))"
      by (simp add: dft_def N_def sum_distrib_right mult.assoc)
    also have "\<dots> = (\<Sum>t < N. of_real (s ! t) * (\<Sum>k < N. twiddle N (k * t) * cnj (twiddle N (k * n))))"
      by (subst sum.swap) (simp add: sum_distrib_left)
    also have "\<dots> = (\<Sum>t < N. if t = n then of_nat N * of_real (s ! n) else 0)"
      using n by (intro sum.cong) (auto simp: twiddle_orthogonal)
    finally show ?thesis using n by (simp add: sum.delta)
  qed
  have re: "Re (\<Sum>k < N. dft s ! k * cnj (twiddle N (k * n))) / real N = s ! n" if "n < N" for n
  proof -
    have "of_nat N * complex_of_real (s ! n) = of_real (real N * s ! n)" by simp
    then show ?thesis using N by (simp only: inv [OF that] Re_complex_of_real) simp
  qed
  have "ifftDirect (map cfin (dft s)) N = map (\<lambda>n. Fin (Re (\<Sum>k < N. dft s ! k * cnj (twiddle N (k * n))) / real N)) [0..<N]"
    by (rule ifftDirect_complex) (simp add: dft_def N_def)
  also have "\<dots> = map (\<lambda>n. Fin (s ! n)) [0..<N]" using re by (intro map_cong refl) (simp only: set_upt atLeastLessThan_iff)
  also have "\<dots> = map Fin s" by (rule nth_equalityI) (simp_all add: N_def)
  finally show ?thesis by (simp add: N_def)
qed

lemma next_pow2_exact: "next_pow2 (2 ^ m) = 2 ^ m"
  by (simp add: next_pow2_def)

lemma dft_constant: "dft (replicate N c) = map (\<lambda>k. if k = 0 then of_real (c * real N) else 0) [0..<N]"
proof -
  have "(\<Sum>t < N. of_real c * twiddle N (k * t)) = (if k = 0 then of_real (c * real N) else 0)" if k: "k < N" for k
  proof -
    have "(\<Sum>t < N. of_real c * twiddle N (k * t)) = of_real c * (\<Sum>t < N. twiddle N (t * k) * cnj (twiddle N (t * 0)))"
      by (simp add: sum_distrib_left mult.commute)
    also have "\<dots> = of_real c * (if k = 0 then of_nat N else 0)" using k by (subst twiddle_orthogonal) auto
    finally show ?thesis by simp
  qed
  then show ?thesis by (simp add: dft_def)
qed

text \<open>
  C38: the fast transform is the discrete Fourier transform for every real signal whose length is a power of two, and the direct inverse
  returns the signal.
\<close>

theorem fourier_transform_correct:
  assumes "length s = 2 ^ m"
  shows "fft (map Fin s) = map cfin (dft s) \<and> ifftDirect (fft (map Fin s)) (length s) = map Fin s"
proof -
  have "s \<noteq> []" using assms by auto
  then show ?thesis by (simp add: fft_dft [OF assms] ifft_dft)
qed

theorem fourier_transform_correct_witness:
  "fft (map Fin [1, 5, 2, 7]) = map cfin (dft [1, 5, 2, 7]) \<and> ifftDirect (fft (map Fin [1, 5, 2, 7])) (length [1, 5, 2, 7 :: real]) = map Fin [1, 5, 2, 7]"
  by (rule fourier_transform_correct [of "[1, 5, 2, 7]" 2]) simp

text \<open>
  the mean of a signal passes the Hilbert filter, which is meant to remove it: a constant signal of any length that is a power of two is
  its own Hilbert transform.
\<close>

theorem hilbert_keeps_constants: "hilbert_of (replicate (2 ^ m) (Fin c)) = replicate (2 ^ m) (Fin c)"
proof -
  define N :: nat where "N = 2 ^ m"
  define z where "z = dft (replicate N c)"
  have f: "fft (map Fin (replicate N c)) = map cfin z" unfolding z_def by (rule fft_dft) (simp add: N_def)
  have pow: "next_pow2 N = N" by (simp add: N_def next_pow2_exact)
  have same: "map (\<lambda>i. hilbert_filter N i (map cfin z ! i)) [0..<N] = map cfin z"
    by (rule nth_equalityI) (auto simp: z_def dft_constant hilbert_filter_def cfin_def)
  have "hilbert_of (replicate N (Fin c)) = ifftDirect (map cfin z) N"
    using f same 
    unfolding hilbert_of_def Let_def length_replicate pow by simp
  also have "\<dots> = map Fin (replicate N c)" unfolding z_def using ifft_dft [of "replicate N c"] by (simp add: N_def)
  finally show ?thesis by (simp add: N_def)
qed

end
