(* ===== verification/SmartRouter.thy ===== *)
theory SmartRouter
  imports Candles JsSort OrderBook
begin

text \<open>
  The order router panel \<open>components/SmartOrderRouter.jsx\<close>: for every symbol the cheapest and the most expensive exchange, the arbitrage
  between them and the tightest book. The drawing is left out.
\<close>

section \<open>The routes\<close>

definition last_close :: "candle list \<Rightarrow> string \<Rightarrow> string \<Rightarrow> jsnum" where
  \<comment> \<open>NaN for the \<open>undefined\<close> of no candle\<close>
  "last_close candles ex sm =
     (let cs = filter (\<lambda>c. cd_exchange c = ex \<and> cd_symbol c = sm) candles
      in if cs = [] then NaN else cd_close (cs ! (length cs - 1)))"

record venue_spread =
  vs_bid :: jsnum
  vs_ask :: jsnum
  vs_spread :: jsnum
  vs_bidQty :: jsnum
  vs_askQty :: jsnum

definition best_of_book :: "book \<Rightarrow> venue_spread option" where
  "best_of_book ob =
     (case (bk_bids ob, bk_asks ob) of
        (b # _, a # _) \<Rightarrow>
          Some \<lparr>vs_bid = Fin (lv_price b), vs_ask = Fin (lv_price a), vs_spread = Fin (lv_price a) - Fin (lv_price b),
            vs_bidQty = Fin (lv_quantity b), vs_askQty = Fin (lv_quantity a)\<rparr>
      | _ \<Rightarrow> None)"

definition note_price :: "candle list \<Rightarrow> string \<Rightarrow> string \<Rightarrow> (string, jsnum) jsmap \<Rightarrow> (string, jsnum) jsmap" where
  "note_price candles sm ex prices =
     (let lastPrice = last_close candles ex sm in if truthy lastPrice then map_set ex lastPrice prices else prices)"

definition note_spread ::
  "(string, book) jsmap \<Rightarrow> string \<Rightarrow> string \<Rightarrow> (string, venue_spread) jsmap \<Rightarrow> (string, venue_spread) jsmap" where
  "note_spread orderbooks sm ex spreads =
     (case map_get orderbooks (ex @ ''|'' @ sm) of
        None \<Rightarrow> spreads
      | Some ob \<Rightarrow> (case best_of_book ob of None \<Rightarrow> spreads | Some v \<Rightarrow> map_set ex v spreads))"

text \<open>\<open>!bestSpread\<close> holds for \<open>null\<close>, and also for a spread of 0.\<close>

definition tighter :: "(jsnum \<times> string) option \<Rightarrow> string \<times> venue_spread \<Rightarrow> (jsnum \<times> string) option" where
  "tighter best e =
     (case best of
        None \<Rightarrow> Some (vs_spread (snd e), fst e)
      | Some (b, ex) \<Rightarrow> if \<not> truthy b \<or> vs_spread (snd e) < b then Some (vs_spread (snd e), fst e) else best)"

definition best_spread :: "(string, venue_spread) jsmap \<Rightarrow> (jsnum \<times> string) option" where
  "best_spread spreads = foldl tighter None spreads"

record venue_route =
  vr_symbol :: string
  vr_prices :: "(string, jsnum) jsmap"
  vr_spreads :: "(string, venue_spread) jsmap"
  vr_cheapest :: "string \<times> jsnum"
  vr_mostExpensive :: "string \<times> jsnum"
  vr_arbSpread :: jsnum
  vr_arbPct :: jsnum
  vr_best :: "(jsnum \<times> string) option"

definition route_of :: "candle list \<Rightarrow> (string, book) jsmap \<Rightarrow> string list \<Rightarrow> string \<Rightarrow> venue_route option" where
  \<comment> \<open>\<open>None\<close>: fewer than two prices\<close>
  "route_of candles orderbooks exchanges sm =
     (let prices = fold (note_price candles sm) exchanges [];
          spreads = fold (note_spread orderbooks sm) exchanges []
      in if length prices < 2 then None
         else
           let sortedByPrice = sort_by snd prices;
               cheapest = sortedByPrice ! 0;
               mostExpensive = sortedByPrice ! (length sortedByPrice - 1);
               arbSpread = snd mostExpensive - snd cheapest
           in Some \<lparr>vr_symbol = sm, vr_prices = prices, vr_spreads = spreads, vr_cheapest = cheapest,
                vr_mostExpensive = mostExpensive, vr_arbSpread = arbSpread,
                vr_arbPct = (if snd cheapest > 0 then arbSpread / snd cheapest * 100 else 0),
                vr_best = best_spread spreads\<rparr>)"

definition routing ::
  "candle list \<Rightarrow> (string, book) jsmap option \<Rightarrow> string list \<Rightarrow> string list \<Rightarrow> venue_route list" where
  "routing candles orderbooks symbols exchanges =
     List.map_filter (route_of candles (case orderbooks of None \<Rightarrow> [] | Some m \<Rightarrow> m) exchanges) symbols"

definition flags_arbitrage :: "venue_route \<Rightarrow> bool" where
  "flags_arbitrage r \<longleftrightarrow> vr_arbPct r > Fin 0.1"

section \<open>What a route says\<close>

lemma map_get_fold_note_price:
  "map_get (fold (note_price candles sm) exs m) ex =
     (if ex \<in> set exs \<and> truthy (last_close candles ex sm) then Some (last_close candles ex sm) else map_get m ex)"
proof (induction exs arbitrary: m)
  case (Cons e exs)
  have "map_get (note_price candles sm e m) ex =
      (if ex = e \<and> truthy (last_close candles ex sm) then Some (last_close candles ex sm) else map_get m ex)"
    by (auto simp: note_price_def Let_def)
  then show ?case using Cons by auto
qed simp

lemma map_ok_fold_note_price: "map_ok m \<Longrightarrow> map_ok (fold (note_price candles sm) exs m)"
  by (induction exs arbitrary: m) (auto simp: note_price_def Let_def)

lemma map_ok_fold_note_spread: "map_ok m \<Longrightarrow> map_ok (fold (note_spread obs sm) exs m)"
  by (induction exs arbitrary: m) (auto simp: note_spread_def split: option.splits)

lemma finite_last_close: "list_all (\<lambda>c. is_fin (cd_close c)) candles \<Longrightarrow> truthy (last_close candles ex sm) \<Longrightarrow> is_fin (last_close candles ex sm)"
proof -
  assume f: "list_all (\<lambda>c. is_fin (cd_close c)) candles" and t: "truthy (last_close candles ex sm)"
  let ?cs = "filter (\<lambda>c. cd_exchange c = ex \<and> cd_symbol c = sm) candles"
  have "?cs \<noteq> []" using t by (auto simp: last_close_def truthy_def)
  then have "?cs ! (length ?cs - 1) \<in> set ?cs" by (intro nth_mem) simp
  then show ?thesis using f \<open>?cs \<noteq> []\<close> by (auto simp: last_close_def list_all_iff Let_def)
qed

lemma sorted_ends:
  assumes "sorted_wrt (\<lambda>a b. f a \<le> f b) xs" "x \<in> set xs" "\<forall>x \<in> set xs. f x \<noteq> NaN"
  shows "f (xs ! 0) \<le> f x" "f x \<le> f (xs ! (length xs - 1))"
proof -
  obtain i where i: "i < length xs" "x = xs ! i" using assms(2) by (auto simp: in_set_conv_nth)
  have refl: "f x \<le> f x" using assms(2,3) by (cases "f x") auto
  show "f (xs ! 0) \<le> f x" using sorted_wrt_nth_less [OF assms(1), of 0 i] i refl by (cases "i = 0") auto
  show "f x \<le> f (xs ! (length xs - 1))"
    using sorted_wrt_nth_less [OF assms(1), of i "length xs - 1"] i refl by (cases "i = length xs - 1") auto
qed

text \<open>
  On candles with finite prices every route buys at the lowest and sells at the highest of the latest prices, on two different
  exchanges, and its spread is not negative.
\<close>

theorem routes_sound:
  assumes "list_all (\<lambda>c. is_fin (cd_close c)) candles" "r \<in> set (routing candles orderbooks symbols exchanges)"
  shows "vr_symbol r \<in> set symbols \<and>
    (\<forall>(ex, p) \<in> set (vr_prices r). ex \<in> set exchanges \<and> p = last_close candles ex (vr_symbol r) \<and>
       snd (vr_cheapest r) \<le> p \<and> p \<le> snd (vr_mostExpensive r)) \<and>
    vr_cheapest r \<in> set (vr_prices r) \<and> vr_mostExpensive r \<in> set (vr_prices r) \<and>
    fst (vr_cheapest r) \<noteq> fst (vr_mostExpensive r) \<and> 0 \<le> vr_arbSpread r"
proof -
  obtain sm where sm: "sm \<in> set symbols" "route_of candles (case orderbooks of None \<Rightarrow> [] | Some m \<Rightarrow> m) exchanges sm = Some r"
    using assms(2) by (auto simp: routing_def map_filter_def)
  define prices where "prices = fold (note_price candles sm) exchanges []"
  define sorted where "sorted = sort_by snd prices"
  let ?n = "length prices"
  have r: "vr_symbol r = sm" "vr_prices r = prices" "vr_cheapest r = sorted ! 0" "vr_mostExpensive r = sorted ! (?n - 1)"
    "vr_arbSpread r = snd (sorted ! (?n - 1)) - snd (sorted ! 0)" and n: "2 \<le> ?n"
    using sm(2) unfolding route_of_def Let_def prices_def [symmetric] sorted_def by (auto split: if_splits)
  have ok: "map_ok prices" unfolding prices_def by (rule map_ok_fold_note_price) simp
  have entry: "ex \<in> set exchanges \<and> p = last_close candles ex sm \<and> is_fin p" if "(ex, p) \<in> set prices" for ex p
  proof -
    have "map_get prices ex = Some p" using ok that by (simp add: map_ok_def)
    then show ?thesis
      unfolding prices_def map_get_fold_note_price using finite_last_close [OF assms(1)] by (auto split: if_splits)
  qed
  then have num: "\<forall>e \<in> set prices. snd e \<noteq> NaN" by (force simp: is_fin_def)
  have len: "length sorted = ?n" by (simp add: sorted_def)
  have set: "set sorted = set prices" by (simp add: sorted_def)
  have mem: "sorted ! 0 \<in> set prices" "sorted ! (?n - 1) \<in> set prices"
    using n order_less_le_trans [of 0 2 ?n] len nth_mem [of 0 sorted] nth_mem [of "?n - 1" sorted] unfolding set by simp_all
  have ends: "snd (sorted ! 0) \<le> snd e" "snd e \<le> snd (sorted ! (?n - 1))" if "e \<in> set prices" for e
    using sorted_ends [OF sorted_sort_by [OF num], of e] that num by (simp_all add: sorted_def)
  have "distinct (map fst sorted)"
    using ok mset_sort_by [of snd prices] unfolding map_ok_def sorted_def by (metis mset_eq_imp_distinct_iff mset_map)
  then have diff: "fst (sorted ! 0) \<noteq> fst (sorted ! (?n - 1))"
    using n order_less_le_trans [of 0 2 ?n] len nth_eq_iff_index_eq [of "map fst sorted" 0 "?n - 1"] by simp
  have "is_fin (snd e)" if "e \<in> set prices" for e using entry [of "fst e" "snd e"] that by (metis prod.collapse)
  then obtain lo hi where "snd (sorted ! 0) = Fin lo" "snd (sorted ! (?n - 1)) = Fin hi"
    using mem by (meson is_fin_def)
  then have "0 \<le> snd (sorted ! (?n - 1)) - snd (sorted ! 0)" using ends(1) [OF mem(2)] by (simp add: zero_jsnum_def)
  then show ?thesis using r sm(1) entry mem ends diff by auto
qed

theorem routes_sound_witness:
  "0 \<le> vr_arbSpread (routing
      [\<lparr>cd_exchange = ''A'', cd_symbol = ''X'', cd_timestamp = 1, cd_open = 1, cd_high = 1, cd_low = 1, cd_close = Fin 10, cd_volume = 1\<rparr>,
       \<lparr>cd_exchange = ''B'', cd_symbol = ''X'', cd_timestamp = 1, cd_open = 1, cd_high = 1, cd_low = 1, cd_close = Fin 9, cd_volume = 1\<rparr>]
      None [''X''] [''A'', ''B''] ! 0)"
  (is "0 \<le> vr_arbSpread (?R ! 0)")
proof -
  let ?C = "[\<lparr>cd_exchange = ''A'', cd_symbol = ''X'', cd_timestamp = 1, cd_open = 1, cd_high = 1, cd_low = 1, cd_close = Fin 10, cd_volume = 1\<rparr>,
    \<lparr>cd_exchange = ''B'', cd_symbol = ''X'', cd_timestamp = 1, cd_open = 1, cd_high = 1, cd_low = 1, cd_close = Fin 9, cd_volume = 1\<rparr>]"
  have "last_close ?C ''A'' ''X'' = Fin 10" "last_close ?C ''B'' ''X'' = Fin 9" by (simp_all add: last_close_def Let_def)
  then have "route_of ?C [] [''A'', ''B''] ''X'' \<noteq> None"
    by (simp add: route_of_def note_price_def note_spread_def Let_def truthy_def)
  then have "?R \<noteq> []" by (auto simp: routing_def map_filter_def)
  then have "?R ! 0 \<in> set ?R" by (intro nth_mem) simp
  then show ?thesis using routes_sound [of ?C "?R ! 0" None "[''X'']" "[''A'', ''B'']"] by simp
qed

section \<open>The tightest book\<close>

text \<open>When no book is locked, the reported spread is the least one.\<close>

lemma best_spread_least:
  assumes "spreads \<noteq> []" "list_all (\<lambda>e. is_fin (vs_spread (snd e)) \<and> truthy (vs_spread (snd e))) spreads"
  shows "\<exists>ex v. best_spread spreads = Some (vs_spread v, ex) \<and> (ex, v) \<in> set spreads \<and>
    (\<forall>e \<in> set spreads. vs_spread v \<le> vs_spread (snd e))"
proof -
  have step: "\<exists>e \<in> insert x (set xs). foldl tighter (Some (vs_spread (snd x), fst x)) xs = Some (vs_spread (snd e), fst e) \<and>
      (\<forall>y \<in> insert x (set xs). vs_spread (snd e) \<le> vs_spread (snd y))"
    if "list_all (\<lambda>e. is_fin (vs_spread (snd e)) \<and> truthy (vs_spread (snd e))) (x # xs)" for x xs
    using that
  proof (induction xs arbitrary: x)
    case Nil
    then show ?case by (auto simp: is_fin_def)
  next
    case (Cons y ys)
    obtain a b where ab: "vs_spread (snd x) = Fin a" "vs_spread (snd y) = Fin b" using Cons.prems by (auto simp: is_fin_def)
    define z where "z = (if b < a then y else x)"
    have "tighter (Some (vs_spread (snd x), fst x)) y = Some (vs_spread (snd z), fst z)"
      using Cons.prems ab by (simp add: tighter_def z_def)
    moreover have "list_all (\<lambda>e. is_fin (vs_spread (snd e)) \<and> truthy (vs_spread (snd e))) (z # ys)"
      using Cons.prems by (simp add: z_def)
    from Cons.IH [OF this] obtain e where e: "e \<in> insert z (set ys)"
      "foldl tighter (Some (vs_spread (snd z), fst z)) ys = Some (vs_spread (snd e), fst e)"
      "\<forall>w \<in> insert z (set ys). vs_spread (snd e) \<le> vs_spread (snd w)" by blast
    moreover have "vs_spread (snd e) \<le> vs_spread (snd w)" if "w = x \<or> w = y" for w
      using bspec [OF e(3), of z] that ab by (cases "vs_spread (snd e)") (auto simp: z_def split: if_splits)
    ultimately show ?case by (intro bexI [of _ e]) (auto simp: z_def split: if_splits)
  qed
  obtain x xs where "spreads = x # xs" using assms(1) by (cases spreads) auto
  then show ?thesis using step [of x xs] assms(2) by (fastforce simp: best_spread_def tighter_def)
qed

text \<open>
  A locked book, whose bid is its ask, is passed over for the next one, whatever that costs: its spread of 0 is taken for the
  \<open>null\<close> of no book yet.
\<close>

theorem locked_book_passed_over:
  "best_spread [(a, \<lparr>vs_bid = Fin p, vs_ask = Fin p, vs_spread = Fin p - Fin p, vs_bidQty = x, vs_askQty = y\<rparr>), (b, w)] =
    Some (vs_spread w, b)"
  by (simp add: best_spread_def tighter_def truthy_def)

end
