(* ===== verification/Rebalance.thy ===== *)
theory Rebalance
  imports SmartRouter TradeTicket
begin

text \<open>
  The rebalancing panel \<open>components/AutoRebalance.jsx\<close>: the value of an account, the drift from the target weights, the trades that
  remove it, and the panel's own state. The drawing is left out.
\<close>

section \<open>The plan\<close>

record held_position =
  hp_quantity :: jsnum
  hp_value :: jsnum
  hp_side :: string

record rebalance_trade =
  rt_symbol :: string
  rt_side :: string
  rt_quantity :: jsnum
  rt_value :: jsnum
  rt_price :: jsnum

record rebalance_plan =
  rp_totalValue :: jsnum
  rp_positions :: "(string, held_position) jsmap"
  rp_currentWeights :: "(string, jsnum) jsmap"
  rp_cashWeight :: jsnum
  rp_drift :: "(string, jsnum) jsmap"
  rp_maxDrift :: jsnum
  rp_trades :: "rebalance_trade list"
  rp_needsRebalance :: bool

definition number_at :: "(string, jsnum) jsmap \<Rightarrow> string \<Rightarrow> jsnum" where
  \<comment> \<open>\<open>m[k] || 0\<close>\<close>
  "number_at m k = jor (case map_get m k of None \<Rightarrow> NaN | Some v \<Rightarrow> v) 0"

definition symbol_prices :: "candle list \<Rightarrow> string \<Rightarrow> string list \<Rightarrow> (string, jsnum) jsmap" where
  "symbol_prices candles exchange symbols = map_set_all id (\<lambda>s. jor (last_close candles exchange s) 0) symbols []"

definition add_position ::
  "(string, jsnum) jsmap \<Rightarrow> jsnum \<times> (string, held_position) jsmap \<Rightarrow> open_position \<Rightarrow> jsnum \<times> (string, held_position) jsmap" where
  "add_position prices acc p =
     (let value = jor (op_quantity p) 0 * number_at prices (op_symbol p)
      in (fst acc + value, map_set (op_symbol p) \<lparr>hp_quantity = op_quantity p, hp_value = value, hp_side = op_side p\<rparr> (snd acc)))"

definition held_value :: "(string, held_position) jsmap \<Rightarrow> string \<Rightarrow> jsnum" where
  "held_value positions s = jor (case map_get positions s of None \<Rightarrow> NaN | Some h \<Rightarrow> hp_value h) 0"

definition trade_to_target :: "jsnum \<Rightarrow> jsnum \<Rightarrow> jsnum \<Rightarrow> string \<Rightarrow> rebalance_trade option" where
  "trade_to_target targetValue currentValue price s =
     (let diff = targetValue - currentValue
      in if price > 0 \<and> \<bar>diff\<bar> > 1
         then Some \<lparr>rt_symbol = s, rt_side = (if diff > 0 then ''BUY'' else ''SELL''), rt_quantity = \<bar>diff / price\<bar>,
                rt_value = \<bar>diff\<bar>, rt_price = price\<rparr>
         else None)"

definition portfolio_of ::
  "(string, (jsnum \<times> open_position list) option) jsmap \<Rightarrow> candle list \<Rightarrow> string list \<Rightarrow> string \<Rightarrow>
   (string, jsnum) jsmap \<Rightarrow> jsnum \<Rightarrow> rebalance_plan option" where
  \<comment> \<open>an account: its balance and positions; \<open>None\<close>: no account\<close>
  "portfolio_of accounts candles symbols exchange targetWeights threshold =
     (case map_get accounts exchange of
        Some (Some (balance, ps)) \<Rightarrow>
          let prices = symbol_prices candles exchange symbols;
              (totalValue, positions) = foldl (add_position prices) (jor balance 0, []) ps;
              share = (\<lambda>v none. if totalValue > 0 then v / totalValue * 100 else none);
              currentWeights = map_set_all id (\<lambda>s. share (held_value positions s) 0) symbols [];
              driftOf = (\<lambda>s. number_at currentWeights s - number_at targetWeights s);
              maxDrift = foldl (\<lambda>m s. if \<bar>driftOf s\<bar> > m then \<bar>driftOf s\<bar> else m) 0 symbols
          in Some \<lparr>rp_totalValue = totalValue, rp_positions = positions, rp_currentWeights = currentWeights,
               rp_cashWeight = share (jor balance 0) 100, rp_drift = map_set_all id driftOf symbols [], rp_maxDrift = maxDrift,
               rp_trades = List.map_filter (\<lambda>s. trade_to_target (totalValue * (number_at targetWeights s / 100))
                 (held_value positions s) (number_at prices s) s) symbols,
               rp_needsRebalance = maxDrift > threshold\<rparr>
      | _ \<Rightarrow> None)"

section \<open>The panel\<close>

record rebalance_order =
  ro_type :: string
  ro_side :: string
  ro_quantity :: jsnum
  ro_symbol :: string

record rebalancer =
  rb_targetWeights :: "(string, jsnum) jsmap"
  rb_threshold :: jsnum
  rb_log :: "(int \<times> nat) list" \<comment> \<open>time and number of trades\<close>
  rb_sent :: "rebalance_order list"

definition initial_rebalancer :: rebalancer where
  "initial_rebalancer = \<lparr>rb_targetWeights = [], rb_threshold = 5, rb_log = [], rb_sent = []\<rparr>"

text \<open>The effect that runs when the symbols change.\<close>

definition equal_weights :: "string list \<Rightarrow> rebalancer \<Rightarrow> rebalancer" where
  "equal_weights symbols r =
     (if rb_targetWeights r = [] \<and> symbols \<noteq> []
      then r\<lparr>rb_targetWeights := map_set_all id (\<lambda>_. 100 / jnat (length symbols)) symbols []\<rparr> else r)"

definition updateWeight :: "string \<Rightarrow> jsnum \<Rightarrow> rebalancer \<Rightarrow> rebalancer" where
  "updateWeight s v r = r\<lparr>rb_targetWeights := map_set s v (rb_targetWeights r)\<rparr>"

definition handleRebalance :: "rebalance_plan \<Rightarrow> bool \<Rightarrow> int \<Rightarrow> rebalancer \<Rightarrow> rebalancer" where
  "handleRebalance plan onSubmit now r =
     (if \<not> rp_needsRebalance plan \<or> \<not> onSubmit then r
      else r\<lparr>rb_sent := rb_sent r @ map (\<lambda>t. \<lparr>ro_type = ''MARKET'', ro_side = rt_side t, ro_quantity = rt_quantity t,
               ro_symbol = rt_symbol t\<rparr>) (rp_trades plan),
             rb_log := slice_last 4 (rb_log r) @ [(now, length (rp_trades plan))]\<rparr>)"

section \<open>Values on real accounts\<close>

lemma get_set_all_id: "map_get (map_set_all id f xs m) k = (if k \<in> set xs then Some (f k) else map_get m k)"
  by (induction xs arbitrary: m) auto

lemma number_at_set_all: "number_at (map_set_all id f xs []) k = (if k \<in> set xs then jor (f k) 0 else 0)"
  by (simp add: number_at_def get_set_all_id jor_def truthy_def)

lemma jor_Fin_0 [simp]: "jor (Fin v) 0 = Fin v" "jor (jor x 0) 0 = jor x 0"
  by (auto simp: jor_def truthy_def zero_jsnum_def)

definition quantity_of :: "open_position list \<Rightarrow> string \<Rightarrow> real" where
  "quantity_of ps s = sum_list (map (\<lambda>p. case op_quantity p of Fin q \<Rightarrow> q | _ \<Rightarrow> 0) (filter (\<lambda>p. op_symbol p = s) ps))"

lemma add_positions_real:
  assumes "list_all (\<lambda>p. is_fin (op_quantity p)) ps" "\<And>p. p \<in> set ps \<Longrightarrow> number_at prices (op_symbol p) = Fin (P (op_symbol p))"
    "distinct (map op_symbol ps)"
  shows "fst (foldl (add_position prices) (Fin b, m) ps) = Fin (b + (\<Sum>p \<leftarrow> ps. quantity_of ps (op_symbol p) * P (op_symbol p)))"
    and "s \<in> op_symbol ` set ps \<Longrightarrow> held_value (snd (foldl (add_position prices) (Fin b, m) ps)) s = Fin (quantity_of ps s * P s)"
    and "s \<notin> op_symbol ` set ps \<Longrightarrow> map_get (snd (foldl (add_position prices) (Fin b, m) ps)) s = map_get m s"
proof -
  have q: "quantity_of (p # ps) t = (if op_symbol p = t then (case op_quantity p of Fin q \<Rightarrow> q | _ \<Rightarrow> 0) else 0) + quantity_of ps t" for p ps t
    by (simp add: quantity_of_def)
  have none: "quantity_of ps t = 0" if "t \<notin> op_symbol ` set ps" for ps t
    using that by (induction ps) (auto simp: quantity_of_def)
  have "fst (foldl (add_position prices) (Fin b, m) ps) = Fin (b + (\<Sum>p \<leftarrow> ps. quantity_of ps (op_symbol p) * P (op_symbol p))) \<and>
      (s \<in> op_symbol ` set ps \<longrightarrow> held_value (snd (foldl (add_position prices) (Fin b, m) ps)) s = Fin (quantity_of ps s * P s)) \<and>
      (s \<notin> op_symbol ` set ps \<longrightarrow> map_get (snd (foldl (add_position prices) (Fin b, m) ps)) s = map_get m s)"
    using assms
  proof (induction ps arbitrary: b m)
    case (Cons p ps)
    obtain v where v: "op_quantity p = Fin v" using Cons.prems(1) by (auto simp: is_fin_def)
    have new: "op_symbol p \<notin> op_symbol ` set ps" using Cons.prems(3) by auto
    let ?h = "\<lparr>hp_quantity = Fin v, hp_value = Fin (v * P (op_symbol p)), hp_side = op_side p\<rparr>"
    have step: "add_position prices (Fin b, m) p = (Fin (b + v * P (op_symbol p)), map_set (op_symbol p) ?h m)"
      using Cons.prems(2) [of p] by (simp add: add_position_def v Let_def)
    have sums: "(\<Sum>p' \<leftarrow> ps. quantity_of (p # ps) (op_symbol p') * P (op_symbol p')) = (\<Sum>p' \<leftarrow> ps. quantity_of ps (op_symbol p') * P (op_symbol p'))"
      using new by (intro arg_cong [of _ _ sum_list] map_cong refl) (auto simp: q)
    note IH = Cons.IH [of "b + v * P (op_symbol p)" "map_set (op_symbol p) ?h m"]
    have total: "(\<Sum>p' \<leftarrow> p # ps. quantity_of (p # ps) (op_symbol p') * P (op_symbol p')) =
        v * P (op_symbol p) + (\<Sum>p' \<leftarrow> ps. quantity_of ps (op_symbol p') * P (op_symbol p'))"
      by (simp only: list.map sum_list.Cons sums) (simp add: q v none [OF new])
    have qs: "quantity_of (p # ps) s = (if op_symbol p = s then v else quantity_of ps s)" using none [OF new] by (auto simp: q v)
    have "list_all (\<lambda>p. is_fin (op_quantity p)) ps" "distinct (map op_symbol ps)"
      "\<And>p. p \<in> set ps \<Longrightarrow> number_at prices (op_symbol p) = Fin (P (op_symbol p))" using Cons.prems by simp_all
    note IH' = IH [OF this(1,3,2)]
    show ?case
    proof (cases "op_symbol p = s")
      case True
      have "map_get (snd (foldl (add_position prices) (Fin (b + v * P (op_symbol p)), map_set (op_symbol p) ?h m) ps)) s = Some ?h"
        using IH' new True by auto
      then show ?thesis
        using IH' True qs unfolding total
        by (simp add: step held_value_def add.assoc jor_def truthy_def zero_jsnum_def)
    next
      case False
      then show ?thesis
        using IH' qs unfolding total by (auto simp: step add.assoc)
    qed
  qed (simp add: quantity_of_def)
  then show "fst (foldl (add_position prices) (Fin b, m) ps) = Fin (b + (\<Sum>p \<leftarrow> ps. quantity_of ps (op_symbol p) * P (op_symbol p)))"
    "s \<in> op_symbol ` set ps \<Longrightarrow> held_value (snd (foldl (add_position prices) (Fin b, m) ps)) s = Fin (quantity_of ps s * P s)"
    "s \<notin> op_symbol ` set ps \<Longrightarrow> map_get (snd (foldl (add_position prices) (Fin b, m) ps)) s = map_get m s" by auto
qed

text \<open>What is held of a symbol once the trades are executed in full, a purchase adding and a sale removing.\<close>

definition quantity_after :: "rebalance_trade list \<Rightarrow> string \<Rightarrow> jsnum \<Rightarrow> jsnum" where
  "quantity_after ts s q =
     foldl (\<lambda>q t. if rt_symbol t = s then (if rt_side t = ''BUY'' then q + rt_quantity t else q - rt_quantity t) else q) q ts"

text \<open>One trade per symbol brings its value to the target, up to 1.\<close>

lemma trade_hits_target:
  assumes "0 < P"
  shows "\<exists>q'. quantity_after (case trade_to_target (Fin T) (Fin (q * P)) (Fin P) s of None \<Rightarrow> [] | Some t \<Rightarrow> [t]) s (Fin q) = Fin q' \<and>
    \<bar>q' * P - T\<bar> \<le> 1"
proof (cases "\<bar>T - q * P\<bar> > 1")
  case True
  have "q + \<bar>(T - q * P) / P\<bar> = T / P" if "T - q * P > 0" using that assms by (simp add: field_simps)
  moreover have "q - \<bar>(T - q * P) / P\<bar> = T / P" if "\<not> T - q * P > 0"
    using that assms by (simp add: abs_of_nonpos divide_nonpos_pos) (simp add: field_simps)
  ultimately show ?thesis using True assms by (auto simp: trade_to_target_def quantity_after_def)
qed (auto simp: trade_to_target_def quantity_after_def)

lemma quantity_after_others: "list_all (\<lambda>t. rt_symbol t \<noteq> s) ts \<Longrightarrow> quantity_after ts s q = q"
  by (induction ts arbitrary: q) (simp_all add: quantity_after_def)

lemma quantity_after_append: "quantity_after (ts @ us) s q = quantity_after us s (quantity_after ts s q)"
  by (simp add: quantity_after_def)

lemma quantity_after_trades:
  assumes "distinct symbols" "s \<in> set symbols" "\<And>t u. f t = Some u \<Longrightarrow> rt_symbol u = t"
  shows "quantity_after (List.map_filter f symbols) s q = quantity_after (case f s of None \<Rightarrow> [] | Some t \<Rightarrow> [t]) s q"
proof -
  obtain xs ys where xs: "symbols = xs @ s # ys" using assms(2) by (auto simp: in_set_conv_decomp)
  have none: "list_all (\<lambda>t. rt_symbol t \<noteq> s) (List.map_filter f zs)" if "s \<notin> set zs" for zs
    using that assms(3) by (induction zs) (auto simp: map_filter_simps split: option.splits)
  have "List.map_filter f symbols = List.map_filter f xs @ (case f s of None \<Rightarrow> [] | Some t \<Rightarrow> [t]) @ List.map_filter f ys"
    unfolding xs by (auto simp: map_filter_def split: option.splits)
  then show ?thesis using none assms(1) by (simp add: xs quantity_after_append quantity_after_others split: option.splits)
qed

text \<open>What an account holds of a symbol, a position on the side \<open>SELL\<close> being short.\<close>

definition holding :: "open_position list \<Rightarrow> string \<Rightarrow> real" where
  "holding ps s = (\<Sum>p \<leftarrow> ps. if op_symbol p = s then (if op_side p = ''SELL'' then -1 else 1) * (case op_quantity p of Fin q \<Rightarrow> q | _ \<Rightarrow> 0)
     else 0)"

lemma holding_long: "list_all (\<lambda>p. op_side p = ''BUY'') ps \<Longrightarrow> holding ps s = quantity_of ps s"
  by (induction ps) (simp_all add: holding_def quantity_of_def)

text \<open>
  C40: for an account whose positions are all long (side \<open>BUY\<close>). With distinct symbols, positive prices and finite target weights,
  at most one position for each symbol and none elsewhere, executing the trades brings what is held of every symbol to within 1 of
  its share of the total value, which counts the balance and every position. Short positions are excluded: the panel ignores the
  side of a position, and doubles a short it should close (\<open>short_position_doubled\<close>).
\<close>

theorem rebalance_reaches_targets:
  assumes acct: "map_get accounts exchange = Some (Some (Fin b, ps))"
    and ps: "list_all (\<lambda>p. is_fin (op_quantity p) \<and> op_symbol p \<in> set symbols) ps" "distinct (map op_symbol ps)"
    and long: "list_all (\<lambda>p. op_side p = ''BUY'') ps"
    and market: "distinct symbols" "list_all (\<lambda>s. last_close candles exchange s = Fin (P s) \<and> 0 < P s) symbols"
    and target: "list_all (\<lambda>s. map_get targetWeights s = Some (Fin (W s))) symbols" and s: "s \<in> set symbols"
  shows "\<exists>plan V q. portfolio_of accounts candles symbols exchange targetWeights threshold = Some plan \<and>
    rp_totalValue plan = Fin V \<and> V = b + (\<Sum>p \<leftarrow> ps. holding ps (op_symbol p) * P (op_symbol p)) \<and>
    quantity_after (rp_trades plan) s (Fin (holding ps s)) = Fin q \<and> \<bar>q * P s - V * (W s / 100)\<bar> \<le> 1"
proof -
  define prices where "prices = symbol_prices candles exchange symbols"
  have price: "number_at prices t = Fin (P t)" if "t \<in> set symbols" for t
    using that market(2) by (auto simp: prices_def symbol_prices_def number_at_set_all list_all_iff)
  define V where "V = b + (\<Sum>p \<leftarrow> ps. quantity_of ps (op_symbol p) * P (op_symbol p))"
  define acc where "acc = foldl (add_position prices) (Fin b, []) ps"
  note vals = add_positions_real [where P = P and prices = prices and b = b and m = "[]", OF _ _ ps(2)]
  have fin: "list_all (\<lambda>p. is_fin (op_quantity p)) ps" and syms: "\<And>p. p \<in> set ps \<Longrightarrow> number_at prices (op_symbol p) = Fin (P (op_symbol p))"
    using ps(1) price by (auto simp: list_all_iff)
  have total: "fst acc = Fin V" using vals(1) [OF fin syms] by (simp add: acc_def V_def)
  have held: "held_value (snd acc) s = Fin (quantity_of ps s * P s)"
  proof (cases "s \<in> op_symbol ` set ps")
    case False
    then have "quantity_of ps s = 0" by (induction ps) (auto simp: quantity_of_def)
    then show ?thesis using vals(3) [OF fin syms False] by (simp add: held_value_def acc_def jor_def truthy_def zero_jsnum_def)
  qed (use vals(2) [OF fin syms] in \<open>simp add: acc_def\<close>)
  have W: "number_at targetWeights s = Fin (W s)" using target s by (simp add: number_at_def list_all_iff)
  define f where "f = (\<lambda>t. trade_to_target (Fin V * (number_at targetWeights t / 100)) (held_value (snd acc) t) (number_at prices t) t)"
  have b: "(if b \<noteq> 0 then Fin b else Fin 0) = Fin b" by simp
  obtain plan where plan: "portfolio_of accounts candles symbols exchange targetWeights threshold = Some plan"
    "rp_totalValue plan = Fin V" "rp_trades plan = List.map_filter f symbols"
    using total unfolding portfolio_of_def f_def prices_def [symmetric]
    by (simp add: acct Let_def case_prod_unfold b flip: acc_def)
  have "rt_symbol u = t" if "f t = Some u" for t u
    using that by (auto simp: f_def trade_to_target_def Let_def split: if_splits)
  then have "quantity_after (rp_trades plan) s q = quantity_after (case f s of None \<Rightarrow> [] | Some t \<Rightarrow> [t]) s q" for q
    unfolding plan(3) by (rule quantity_after_trades [OF market(1) s])
  moreover have "f s = trade_to_target (Fin (V * (W s / 100))) (Fin (quantity_of ps s * P s)) (Fin (P s)) s"
    by (simp add: f_def held price [OF s] W)
  moreover have "0 < P s" using market(2) s by (simp add: list_all_iff)
  then obtain q where "quantity_after (case trade_to_target (Fin (V * (W s / 100))) (Fin (quantity_of ps s * P s)) (Fin (P s)) s of
      None \<Rightarrow> [] | Some t \<Rightarrow> [t]) s (Fin (quantity_of ps s)) = Fin q" "\<bar>q * P s - V * (W s / 100)\<bar> \<le> 1"
    using trade_hits_target [of "P s" "V * (W s / 100)" "quantity_of ps s" s] by blast
  ultimately show ?thesis
    using plan(1,2) V_def unfolding holding_long [OF long] by (intro exI [of _ plan] exI [of _ V] exI [of _ q]) simp
qed

theorem rebalance_reaches_targets_witness:
  "\<exists>plan q. portfolio_of [(''E'', Some (Fin 100, [\<lparr>op_symbol = ''X'', op_side = ''BUY'', op_entry = Fin 9, op_quantity = Fin 30,
        op_stop_loss = NaN, op_take_profit = NaN, op_pnl = 0\<rparr>]))]
      [\<lparr>cd_exchange = ''E'', cd_symbol = ''X'', cd_timestamp = 1, cd_open = 1, cd_high = 1, cd_low = 1, cd_close = Fin 10, cd_volume = 1\<rparr>]
      [''X''] ''E'' [(''X'', Fin 50)] 5 = Some plan \<and>
    quantity_after (rp_trades plan) ''X'' (Fin 30) = Fin q \<and> \<bar>q * 10 - 200\<bar> \<le> 1"
  using rebalance_reaches_targets [of "[(''E'', Some (Fin 100, [\<lparr>op_symbol = ''X'', op_side = ''BUY'', op_entry = Fin 9,
        op_quantity = Fin 30, op_stop_loss = NaN, op_take_profit = NaN, op_pnl = 0\<rparr>]))]" "''E''" 100
      "[\<lparr>op_symbol = ''X'', op_side = ''BUY'', op_entry = Fin 9, op_quantity = Fin 30, op_stop_loss = NaN, op_take_profit = NaN, op_pnl = 0\<rparr>]"
      "[''X'']"
      "[\<lparr>cd_exchange = ''E'', cd_symbol = ''X'', cd_timestamp = 1, cd_open = 1, cd_high = 1, cd_low = 1, cd_close = Fin 10, cd_volume = 1\<rparr>]"
      "\<lambda>_. 10" "[(''X'', Fin 50)]" "\<lambda>_. 50" "''X''" 5]
  by (force simp: last_close_def holding_def)

text \<open>
  The side of a position is ignored: for a short position whose target weight is 0 the panel sends a sale of the same size, which doubles
  it, and it counts the position as an asset.
\<close>

theorem short_position_doubled:
  fixes price qty b :: real
  assumes "0 < price" "1 < qty * price"
  defines "short \<equiv> \<lparr>op_symbol = ''X'', op_side = ''SELL'', op_entry = Fin price, op_quantity = Fin qty, op_stop_loss = NaN,
    op_take_profit = NaN, op_pnl = 0\<rparr>"
  shows "\<exists>plan. portfolio_of [(''E'', Some (Fin b, [short]))]
      [\<lparr>cd_exchange = ''E'', cd_symbol = ''X'', cd_timestamp = t, cd_open = Fin price, cd_high = Fin price, cd_low = Fin price,
        cd_close = Fin price, cd_volume = 1\<rparr>] [''X''] ''E'' [(''X'', 0)] threshold = Some plan \<and>
    rp_totalValue plan = Fin (b + qty * price) \<and>
    rp_trades plan = [\<lparr>rt_symbol = ''X'', rt_side = ''SELL'', rt_quantity = Fin qty, rt_value = Fin (qty * price), rt_price = Fin price\<rparr>] \<and>
    holding [short] ''X'' = - qty \<and> quantity_after (rp_trades plan) ''X'' (Fin (holding [short] ''X'')) = Fin (2 * - qty)"
proof -
  have "0 < qty" using assms by (metis less_trans zero_less_mult_pos2 zero_less_one)
  then show ?thesis
    using assms unfolding portfolio_of_def symbol_prices_def
    by (auto simp: last_close_def Let_def add_position_def number_at_def held_value_def trade_to_target_def map_filter_simps
        holding_def quantity_after_def)
qed

text \<open>The log keeps the last five rebalances.\<close>

lemma rebalance_log_bound: "length (rb_log r) \<le> 5 \<Longrightarrow> length (rb_log (handleRebalance plan onSubmit now r)) \<le> 5"
  by (simp add: handleRebalance_def slice_last_def) linarith

end
