(* ===== verification/SlippagePanel.thy ===== *)
theory SlippagePanel
  imports Candles OrderBook Indicators
begin

text \<open>
  The slippage panel \<open>components/SlippageSimulator.jsx\<close>: the cost of a market order under four slippage models and its comparison with
  five slices. The drawing, with its colours and the volumes of both sides that the result repeats, is left out.
\<close>

section \<open>The simulation\<close>

datatype slippage_model = Linear_Model | Square_Root_Model | Constant_Model | Volume_Model

record slippage_result =
  sl_qty :: jsnum
  sl_executionPrice :: jsnum
  sl_priceImpact :: jsnum
  sl_slippagePct :: jsnum
  sl_spread :: jsnum
  sl_bestBid :: jsnum
  sl_bestAsk :: jsnum
  sl_topLiquidity :: jsnum
  sl_fee :: jsnum
  sl_feeRate :: jsnum
  sl_grossValue :: jsnum
  sl_actualValue :: jsnum
  sl_totalCost :: jsnum
  sl_slippageCost :: jsnum
  sl_totalRoundTrip :: jsnum
  sl_effectivePrice :: jsnum
  sl_slippagePctOfTotal :: jsnum
  sl_feePctOfTotal :: jsnum
  sl_twapSavings :: jsnum
  sl_twapSavingsPct :: jsnum
  sl_orderVsLiquidity :: jsnum
  sl_liquidityZone :: string
  sl_lastAtr :: jsnum
  sl_avgVol :: jsnum
  sl_maxVol :: jsnum

definition slippage_pct :: "slippage_model \<Rightarrow> jsnum \<Rightarrow> jsnum \<Rightarrow> jsnum \<Rightarrow> jsnum" where
  "slippage_pct model orderVsLiquidity avgVol qty =
     (case model of
        Linear_Model \<Rightarrow> jmin (orderVsLiquidity * Fin 0.5) 5
      | Square_Root_Model \<Rightarrow> jmin (jsqrt orderVsLiquidity * Fin 0.3) 5
      | Constant_Model \<Rightarrow> Fin 0.1
      | Volume_Model \<Rightarrow> jmin ((if avgVol > 0 then qty / avgVol else 1) * Fin 0.2) 5)"

definition fee_rate :: "string \<Rightarrow> jsnum" where
  "fee_rate tier = (if tier = ''maker'' then Fin 0.0002 else if tier = ''taker'' then Fin 0.0005 else Fin 0.001)"

definition slice_impact :: "slippage_model \<Rightarrow> jsnum \<Rightarrow> jsnum \<Rightarrow> jsnum" where
  "slice_impact model sliceQty topLiquidity =
     (if model = Square_Root_Model then jsqrt (sliceQty / topLiquidity) * Fin 0.3 else sliceQty / topLiquidity * Fin 0.5)"

definition twap_slippage :: "slippage_model \<Rightarrow> jsnum \<Rightarrow> jsnum \<Rightarrow> jsnum \<Rightarrow> jsnum" where
  "twap_slippage model qty topLiquidity currentPrice =
     for_loop 0 5 (\<lambda>i s. s + jmin (slice_impact model (qty / 5) topLiquidity) 5 / 100 * currentPrice * (qty / 5)) 0"

definition liquidity_zone :: "jsnum \<Rightarrow> string" where
  "liquidity_zone v = (if v > Fin 0.5 then ''Thin'' else if v > Fin 0.2 then ''Moderate'' else ''Deep'')"

text \<open>The numbers of an order, once the book and the candles are read.\<close>

definition order_cost ::
  "bool \<Rightarrow> slippage_model \<Rightarrow> string \<Rightarrow> jsnum \<Rightarrow> jsnum \<Rightarrow> jsnum \<Rightarrow> jsnum \<Rightarrow> jsnum \<Rightarrow> jsnum \<Rightarrow> jsnum \<Rightarrow> jsnum \<Rightarrow> slippage_result" where
  "order_cost buy model feeTier qty currentPrice topLiquidity bestBid bestAsk lastAtr avgVol maxVol =
     (let orderVsLiquidity = (if topLiquidity > 0 then qty / topLiquidity else 1);
          slippagePct = slippage_pct model orderVsLiquidity avgVol qty;
          executionPrice = (if buy then currentPrice * (1 + slippagePct / 100) else currentPrice * (1 - slippagePct / 100));
          priceImpact = (if buy then executionPrice - currentPrice else currentPrice - executionPrice);
          feeRate = fee_rate feeTier;
          fee = executionPrice * qty * feeRate;
          actualValue = executionPrice * qty;
          slippageCost = \<bar>priceImpact * qty\<bar>;
          totalRoundTrip = slippageCost + fee;
          twapSavings = slippageCost - twap_slippage model qty topLiquidity currentPrice
      in \<lparr>sl_qty = qty, sl_executionPrice = executionPrice, sl_priceImpact = priceImpact, sl_slippagePct = slippagePct,
          sl_spread = bestAsk - bestBid, sl_bestBid = bestBid, sl_bestAsk = bestAsk, sl_topLiquidity = topLiquidity,
          sl_fee = fee, sl_feeRate = feeRate, sl_grossValue = currentPrice * qty, sl_actualValue = actualValue,
          sl_totalCost = actualValue + fee, sl_slippageCost = slippageCost, sl_totalRoundTrip = totalRoundTrip,
          sl_effectivePrice = (if buy then currentPrice + totalRoundTrip / qty else currentPrice - totalRoundTrip / qty),
          sl_slippagePctOfTotal = (if totalRoundTrip > 0 then slippageCost / totalRoundTrip * 100 else 0),
          sl_feePctOfTotal = (if totalRoundTrip > 0 then fee / totalRoundTrip * 100 else 0),
          sl_twapSavings = twapSavings, sl_twapSavingsPct = (if slippageCost > 0 then twapSavings / slippageCost * 100 else 0),
          sl_orderVsLiquidity = orderVsLiquidity, sl_liquidityZone = liquidity_zone orderVsLiquidity,
          sl_lastAtr = lastAtr, sl_avgVol = avgVol, sl_maxVol = maxVol\<rparr>)"

definition level_volume :: "level list \<Rightarrow> jsnum" where
  "level_volume ls = foldl (\<lambda>s l. s + Fin (lv_quantity l)) 0 (take 5 ls)"

definition slippage_panel ::
  "candle list \<Rightarrow> (string, book) jsmap option \<Rightarrow> jsnum \<Rightarrow> string \<Rightarrow> string \<Rightarrow> bool \<Rightarrow> jsnum \<Rightarrow> slippage_model \<Rightarrow> string \<Rightarrow>
   slippage_result option" where
  \<comment> \<open>\<open>orderSize\<close>: the text of the field read by \<open>parseFloat\<close>\<close>
  "slippage_panel candles orderbooks currentPrice symbol exchange buy orderSize model feeTier =
     (let symCandles = slice_last 50 (filter (\<lambda>c. cd_exchange c = exchange \<and> cd_symbol c = symbol) candles)
      in if length symCandles < 10 \<or> \<not> truthy currentPrice then None
         else
           let volumes = map (\<lambda>c. jor (cd_volume c) 0) symCandles;
               validAtr = filter (\<lambda>v. v \<noteq> NaN) (calcATR (map cd_high symCandles) (map cd_low symCandles) (map cd_close symCandles) 14);
               lastAtr = (if length validAtr > 0 then validAtr ! (length validAtr - 1) else currentPrice * Fin 0.01);
               avgVol = (if length volumes > 0 then jsum volumes / jnat (length volumes) else 1000);
               maxVol = jmax_list (volumes @ [1]);
               qty = jor orderSize 0
           in if qty \<le> 0 then None
              else
                let ob = (case orderbooks of None \<Rightarrow> None | Some m \<Rightarrow> map_get m (exchange @ ''|'' @ symbol));
                    bids = (case ob of None \<Rightarrow> [] | Some b \<Rightarrow> bk_bids b);
                    asks = (case ob of None \<Rightarrow> [] | Some b \<Rightarrow> bk_asks b);
                    bestBid = (if length bids > 0 then Fin (lv_price (bids ! 0)) else currentPrice * Fin 0.999);
                    bestAsk = (if length asks > 0 then Fin (lv_price (asks ! 0)) else currentPrice * Fin 1.001);
                    topLiquidity = (if buy then level_volume asks else level_volume bids)
                in Some (order_cost buy model feeTier qty currentPrice topLiquidity bestBid bestAsk lastAtr avgVol maxVol))"

section \<open>What the simulation shows\<close>

definition slip_real :: "slippage_model \<Rightarrow> real \<Rightarrow> real \<Rightarrow> real \<Rightarrow> real" where
  "slip_real model L v q =
     (let r = (if L > 0 then q / L else 1)
      in case model of
           Linear_Model \<Rightarrow> min (r * 0.5) 5
         | Square_Root_Model \<Rightarrow> min (sqrt r * 0.3) 5
         | Constant_Model \<Rightarrow> 0.1
         | Volume_Model \<Rightarrow> min ((if v > 0 then q / v else 1) * 0.2) 5)"

lemma slip_real_range: "0 < q \<Longrightarrow> 0 < slip_real model L v q" "slip_real model L v q \<le> 5"
  by (cases model; simp add: slip_real_def Let_def)+

lemma slippage_pct_Fin:
  assumes "0 < q"
  shows "slippage_pct model (if Fin L > 0 then Fin q / Fin L else 1) (Fin v) (Fin q) = Fin (slip_real model L v q)"
proof -
  have "0 < q / L" if "0 < L" using that assms by simp
  then have "\<not> q / L < 0" if "0 < L" using that by (meson less_asym)
  then show ?thesis
    using assms by (cases model) (auto simp: slippage_pct_def slip_real_def Let_def jmin_def min_def)
qed

definition fee_real :: "string \<Rightarrow> real" where
  "fee_real tier = (if tier = ''maker'' then 0.0002 else if tier = ''taker'' then 0.0005 else 0.001)"

lemma fee_rate_Fin: "fee_rate tier = Fin (fee_real tier)" "0 < fee_real tier"
  by (simp_all add: fee_rate_def fee_real_def)

text \<open>
  For a positive quantity and price the slippage is above 0 and at most 5 percent, in the direction that hurts; the effective price is
  the execution price with the fee per unit, and the two shares of the cost make up 100 percent.
\<close>

theorem slippage_costs:
  assumes "0 < q" "0 < P"
  shows "\<exists>s e f. let c = order_cost buy model tier (Fin q) (Fin P) (Fin L) bid ask atr (Fin v) mx in
    sl_slippagePct c = Fin s \<and> 0 < s \<and> s \<le> 5 \<and> sl_executionPrice c = Fin e \<and> e = (if buy then P * (1 + s / 100) else P * (1 - s / 100)) \<and>
    sl_fee c = Fin f \<and> 0 < f \<and> sl_slippageCost c = Fin (P * (s / 100) * q) \<and>
    sl_effectivePrice c = Fin (if buy then e + f / q else e - f / q) \<and>
    sl_slippagePctOfTotal c + sl_feePctOfTotal c = Fin 100"
proof -
  define s where "s = slip_real model L v q"
  define e where "e = (if buy then P * (1 + s / 100) else P * (1 - s / 100))"
  define f where "f = e * q * fee_real tier"
  have s: "0 < s" "s \<le> 5" using slip_real_range assms(1) by (simp_all add: s_def)
  have e: "0 < e" using s assms(2) by (simp add: e_def)
  have f: "0 < f" using e assms(1) fee_rate_Fin(2) [of tier] by (simp add: f_def)
  define c where "c = order_cost buy model tier (Fin q) (Fin P) (Fin L) bid ask atr (Fin v) mx"
  have impact: "\<bar>(if buy then e - P else P - e) * q\<bar> = P * (s / 100) * q"
    using s assms by (simp add: e_def abs_mult algebra_simps)
  let ?k = "P * (s / 100) * q"
  have k: "0 < ?k" using s assms by simp
  have "sl_slippagePct c = Fin s" "sl_executionPrice c = Fin e" "sl_fee c = Fin f"
    unfolding c_def order_cost_def Let_def slippage_pct_Fin [OF assms(1)] fee_rate_Fin(1)
    by (simp_all add: e_def f_def s_def)
  moreover have "sl_slippageCost c = Fin ?k"
    unfolding c_def order_cost_def Let_def slippage_pct_Fin [OF assms(1)] using impact by (cases buy) (simp_all add: e_def s_def)
  moreover have "sl_totalRoundTrip c = sl_slippageCost c + sl_fee c"
    "sl_effectivePrice c = (if buy then Fin P + sl_totalRoundTrip c / Fin q else Fin P - sl_totalRoundTrip c / Fin q)"
    "sl_slippagePctOfTotal c = (if sl_totalRoundTrip c > 0 then sl_slippageCost c / sl_totalRoundTrip c * 100 else 0)"
    "sl_feePctOfTotal c = (if sl_totalRoundTrip c > 0 then sl_fee c / sl_totalRoundTrip c * 100 else 0)"
    by (simp_all add: c_def order_cost_def Let_def)
  moreover have "P + (?k + f) / q = e + f / q" if buy using that assms(1) by (simp add: e_def field_simps)
  moreover have "P - (?k + f) / q = e - f / q" if "\<not> buy" using that assms(1) by (simp add: e_def field_simps)
  moreover have "?k / (?k + f) * 100 + f / (?k + f) * 100 = 100"
  proof -
    have "a / (a + f) * 100 + f / (a + f) * 100 = 100" if "0 < a" for a :: real
    proof -
      have "a / (a + f) * 100 + f / (a + f) * 100 = (a + f) / (a + f) * 100" by (simp only: add_divide_distrib distrib_right)
      then show ?thesis using that f by simp
    qed
    then show ?thesis using k by blast
  qed
  ultimately show ?thesis using s f k e_def unfolding c_def [symmetric] Let_def by (intro exI [of _ s] exI [of _ e] exI [of _ f]) auto
qed

text \<open>Below the cap, five slices save four fifths under the linear model, whatever the order.\<close>

theorem slices_save_four_fifths:
  assumes "0 < q" "0 < P" "0 < L" "q / L \<le> 10"
  shows "sl_twapSavingsPct (order_cost buy Linear_Model tier (Fin q) (Fin P) (Fin L) bid ask atr (Fin v) mx) = Fin 80"
proof -
  define c where "c = order_cost buy Linear_Model tier (Fin q) (Fin P) (Fin L) bid ask atr (Fin v) mx"
  define k where "k = P * q * (q / L) / 200"
  have k: "0 < k" using assms by (simp add: k_def)
  have "q \<le> 10 * L" using assms by (simp add: field_simps)
  then have "twap_slippage Linear_Model (Fin q) (Fin L) (Fin P) = Fin (k / 5)"
    using assms by (simp add: twap_slippage_def slice_impact_def for_loop_def upt_conv_Cons jmin_def k_def)
  moreover have "sl_slippageCost c = Fin k"
    using assms \<open>q \<le> 10 * L\<close>
    by (cases buy) (simp_all add: c_def order_cost_def Let_def slippage_pct_def jmin_def abs_mult k_def field_simps)
  moreover have "sl_twapSavings c = sl_slippageCost c - twap_slippage Linear_Model (Fin q) (Fin L) (Fin P)"
    "sl_twapSavingsPct c = (if sl_slippageCost c > 0 then sl_twapSavings c / sl_slippageCost c * 100 else 0)"
    by (simp_all add: c_def order_cost_def Let_def)
  ultimately show ?thesis using k unfolding c_def [symmetric] by (simp add: field_simps)
qed

text \<open>
  With an empty side of the book the comparison with slices divides by zero: each slice gets the cap of 5 percent, the whole order
  0.5 percent, and the saving shown is minus 900 percent.
\<close>

theorem empty_book_slices_lose:
  assumes "0 < q" "0 < P"
  shows "sl_twapSavingsPct (order_cost buy Linear_Model tier (Fin q) (Fin P) 0 bid ask atr (Fin v) mx) = Fin (- 900)"
proof -
  define c where "c = order_cost buy Linear_Model tier (Fin q) (Fin P) 0 bid ask atr (Fin v) mx"
  have "twap_slippage Linear_Model (Fin q) 0 (Fin P) = Fin (P * q / 20)"
    using assms by (simp add: twap_slippage_def slice_impact_def for_loop_def upt_conv_Cons jmin_def)
  moreover have "sl_slippageCost c = Fin (P * q / 200)"
    using assms by (cases buy) (simp_all add: c_def order_cost_def Let_def slippage_pct_def jmin_def abs_mult algebra_simps)
  moreover have "sl_twapSavings c = sl_slippageCost c - twap_slippage Linear_Model (Fin q) 0 (Fin P)"
    "sl_twapSavingsPct c = (if sl_slippageCost c > 0 then sl_twapSavings c / sl_slippageCost c * 100 else 0)"
    by (simp_all add: c_def order_cost_def Let_def)
  ultimately show ?thesis using assms unfolding c_def [symmetric] by (simp add: field_simps)
qed

end
