(* ===== verification/RuinPanel.thy ===== *)
theory RuinPanel
  imports JsRandom JsSort Copula
begin

text \<open>
  The risk-of-ruin panel \<open>components/RiskOfRuin.jsx\<close>: the closed formula, the simulated paths and drawdowns, whatever
  \<open>Math.random()\<close> returns. The drawing is left out, and the running
  maximum of a path, which is computed and not used.
\<close>

section \<open>Simulated balances\<close>

definition starting_balance :: jsnum where
  "starting_balance = 10000"

definition ruin_threshold :: jsnum where
  "ruin_threshold = starting_balance * Fin 0.5"

definition ruin_trade :: "jsnum \<Rightarrow> jsnum \<Rightarrow> jsnum \<Rightarrow> jsnum \<Rightarrow> (draws, jsnum) state" where
  "ruin_trade w riskPct rewardRatio balance = do {
     u \<leftarrow> random_draw;
     let riskAmount = balance * (riskPct / 100);
     State_Monad.return (if u < w then balance + riskAmount * rewardRatio else balance - riskAmount)
   }"

text \<open>A path of at most \<open>n\<close> more trades, and whether it ends in ruin.\<close>

primrec ruin_walk :: "nat \<Rightarrow> jsnum \<Rightarrow> jsnum \<Rightarrow> jsnum \<Rightarrow> jsnum list \<Rightarrow> jsnum \<Rightarrow> (draws, jsnum list \<times> bool) state" where
  "ruin_walk 0 w riskPct rewardRatio path balance = State_Monad.return (path, False)"
| "ruin_walk (Suc n) w riskPct rewardRatio path balance = do {
     b \<leftarrow> ruin_trade w riskPct rewardRatio balance;
     if b \<le> ruin_threshold then State_Monad.return (path @ [b], True)
     else ruin_walk n w riskPct rewardRatio (path @ [b]) b
   }"

record ruin_tally =
  ru_count :: nat
  ru_ruinPaths :: "jsnum list list"
  ru_survivalPaths :: "jsnum list list"

definition tally_path :: "jsnum list \<times> bool \<Rightarrow> ruin_tally \<Rightarrow> ruin_tally" where
  "tally_path p t =
     (if snd p
      then t\<lparr>ru_count := ru_count t + 1,
             ru_ruinPaths := (if length (ru_ruinPaths t) < 5 then ru_ruinPaths t @ [fst p] else ru_ruinPaths t)\<rparr>
      else t\<lparr>ru_survivalPaths := (if length (ru_survivalPaths t) < 5 then ru_survivalPaths t @ [fst p] else ru_survivalPaths t)\<rparr>)"

definition ruin_simulations :: "nat \<Rightarrow> jsnum \<Rightarrow> jsnum \<Rightarrow> jsnum \<Rightarrow> (draws, ruin_tally) state" where
  "ruin_simulations sims w riskPct rewardRatio =
     fold_state (\<lambda>_ t. do {
         p \<leftarrow> ruin_walk 100 w riskPct rewardRatio [starting_balance] starting_balance;
         State_Monad.return (tally_path p t)
       }) [0..<sims] \<lparr>ru_count = 0, ru_ruinPaths = [], ru_survivalPaths = []\<rparr>"

text \<open>Balance, peak and drawdown of a trade of the second simulation.\<close>

definition drawdown_trade :: "jsnum \<Rightarrow> jsnum \<Rightarrow> jsnum \<Rightarrow> jsnum \<times> jsnum \<times> jsnum \<Rightarrow> (draws, jsnum \<times> jsnum \<times> jsnum) state" where
  "drawdown_trade w riskPct rewardRatio st =
     (case st of (balance, peak, maxDD) \<Rightarrow> do {
       u \<leftarrow> random_draw;
       let riskAmount = balance * (riskPct / 100);
       let b = balance + (if u < w then riskAmount * rewardRatio else - riskAmount);
       let p = (if b > peak then b else peak);
       let dd = (p - b) / p * 100;
       State_Monad.return (b, p, if dd > maxDD then dd else maxDD)
     })"

definition drawdown_run :: "jsnum \<Rightarrow> jsnum \<Rightarrow> jsnum \<Rightarrow> (draws, jsnum) state" where
  "drawdown_run w riskPct rewardRatio = do {
     st \<leftarrow> fold_state (\<lambda>_. drawdown_trade w riskPct rewardRatio) [0..<100] (starting_balance, starting_balance, 0);
     State_Monad.return (snd (snd st))
   }"

definition drawdown_runs :: "nat \<Rightarrow> jsnum \<Rightarrow> jsnum \<Rightarrow> jsnum \<Rightarrow> (draws, jsnum list) state" where
  "drawdown_runs sims w riskPct rewardRatio =
     fold_state (\<lambda>_ ds. do { d \<leftarrow> drawdown_run w riskPct rewardRatio; State_Monad.return (ds @ [d]) }) [0..<sims] []"

section \<open>The panel\<close>

definition risk_of_ruin :: "jsnum \<Rightarrow> jsnum \<Rightarrow> jsnum" where
  "risk_of_ruin edge riskPct =
     (let units = 1 / (riskPct / 100)
      in if edge \<le> 0 then 100 else jpow ((1 - edge) / (1 + edge)) units * 100)"

text \<open>Profits of the trades in the histories of the accounts.\<close>

definition actual_win_rate :: "jsnum list list option \<Rightarrow> jsnum option \<times> nat" where
  "actual_win_rate accounts =
     (let pnls = (case accounts of None \<Rightarrow> [] | Some hs \<Rightarrow> concat hs);
          wins = length (filter (\<lambda>p. p > 0) pnls)
      in (if length pnls > 0 then Some (jnat wins / jnat (length pnls) * 100) else None, length pnls))"

record ruin_data =
  rd_wr :: jsnum
  rd_edge :: jsnum
  rd_riskOfRuin :: jsnum
  rd_mcRuinPct :: jsnum
  rd_avgMaxDD :: jsnum
  rd_worstDD :: jsnum
  rd_medianDD :: jsnum
  rd_profitFactor :: jsnum
  rd_breakevenWinRate :: jsnum
  rd_actualWinRate :: "jsnum option"
  rd_actualTrades :: nat
  rd_ruinPaths :: "jsnum list list"
  rd_survivalPaths :: "jsnum list list"

definition ruin_panel :: "jsnum list list option \<Rightarrow> jsnum \<Rightarrow> jsnum \<Rightarrow> jsnum \<Rightarrow> nat \<Rightarrow> (draws, ruin_data) state" where
  "ruin_panel accounts winRate riskPct rewardRatio simulations =
     (let (actual, trades) = actual_win_rate accounts;
          wr = (case actual of Some a \<Rightarrow> a | None \<Rightarrow> winRate);
          w = wr / 100; l = (100 - wr) / 100;
          edge = w * rewardRatio - l;
          sims = min simulations 500
      in do {
        t \<leftarrow> ruin_simulations sims w riskPct rewardRatio;
        maxDDs \<leftarrow> drawdown_runs 100 w riskPct rewardRatio;
        State_Monad.return
          \<lparr>rd_wr = wr, rd_edge = edge, rd_riskOfRuin = risk_of_ruin edge riskPct,
           rd_mcRuinPct = jnat (ru_count t) / jnat sims * 100,
           rd_avgMaxDD = jsum maxDDs / jnat (length maxDDs), rd_worstDD = jmax_list maxDDs,
           rd_medianDD = rd (sort_by (\<lambda>x. x) maxDDs) (length maxDDs div 2),
           rd_profitFactor = w * rewardRatio / l, rd_breakevenWinRate = 1 / (1 + rewardRatio) * 100,
           rd_actualWinRate = actual, rd_actualTrades = trades,
           rd_ruinPaths = ru_ruinPaths t, rd_survivalPaths = ru_survivalPaths t\<rparr>
      })"

section \<open>What the simulation yields\<close>

definition survives :: "jsnum list \<Rightarrow> bool" where
  "survives path \<longleftrightarrow> list_all (\<lambda>b. \<not> b \<le> ruin_threshold) path"

text \<open>A path starts with the starting balance, has at most 101 points and only the last of a ruined path is at the threshold or below.\<close>

definition path_ok :: "nat \<Rightarrow> jsnum list \<times> bool \<Rightarrow> bool" where
  "path_ok n p \<longleftrightarrow> fst p \<noteq> [] \<and> hd (fst p) = starting_balance \<and> length (fst p) \<le> n \<and>
     (if snd p then survives (butlast (fst p)) \<and> last (fst p) \<le> ruin_threshold else survives (fst p) \<and> length (fst p) = n)"

lemma ruin_walk_ok:
  assumes "path \<noteq> []" "hd path = starting_balance" "survives path" "length path + n = m"
  shows "yields (path_ok m) (ruin_walk n w riskPct rewardRatio path balance)"
  using assms
proof (induction n arbitrary: path balance)
  case (Suc n)
  have "yields (path_ok m)
      (if b \<le> ruin_threshold then State_Monad.return (path @ [b], True) else ruin_walk n w riskPct rewardRatio (path @ [b]) b)" for b
  proof (cases "b \<le> ruin_threshold")
    case True
    then show ?thesis using Suc.prems by (simp add: path_ok_def)
  next
    case False
    then have "yields (path_ok m) (ruin_walk n w riskPct rewardRatio (path @ [b]) b)"
      using Suc.prems by (intro Suc.IH) (simp_all add: survives_def)
    then show ?thesis using False by simp
  qed
  then show ?case by (auto intro: yields_any)
qed (simp add: path_ok_def)

definition tally_ok :: "nat \<Rightarrow> ruin_tally \<Rightarrow> bool" where
  "tally_ok k t \<longleftrightarrow> ru_count t \<le> k \<and> length (ru_ruinPaths t) \<le> 5 \<and> length (ru_survivalPaths t) \<le> 5 \<and>
     list_all (\<lambda>p. path_ok 101 (p, True)) (ru_ruinPaths t) \<and> list_all (\<lambda>p. path_ok 101 (p, False)) (ru_survivalPaths t)"

lemma tally_path_ok: "tally_ok k t \<Longrightarrow> path_ok 101 p \<Longrightarrow> tally_ok (Suc k) (tally_path p t)"
  by (cases p; cases "snd p") (auto simp: tally_ok_def tally_path_def)

lemma ruin_simulations_ok: "yields (tally_ok sims) (ruin_simulations sims w riskPct rewardRatio)"
proof -
  let ?f = "\<lambda>_ t. do {
      p \<leftarrow> ruin_walk 100 w riskPct rewardRatio [starting_balance] starting_balance;
      State_Monad.return (tally_path p t)
    }"
  have walk: "yields (path_ok 101) (ruin_walk 100 w riskPct rewardRatio [starting_balance] starting_balance)"
    by (rule ruin_walk_ok) (simp_all add: survives_def starting_balance_def ruin_threshold_def)
  have "yields (tally_ok (k + length xs)) (fold_state ?f xs t)" if "tally_ok k t" for xs k t
    using that
  proof (induction xs arbitrary: k t)
    case (Cons x xs)
    have "yields (tally_ok (Suc k)) (?f x t)"
      by (rule yields_bind [OF walk]) (use Cons.prems in \<open>auto intro: tally_path_ok\<close>)
    then have "yields (tally_ok (Suc k + length xs)) (do { t' \<leftarrow> ?f x t; fold_state ?f xs t' })"
      by (rule yields_bind) (rule Cons.IH)
    then show ?case by simp
  qed simp
  from this [of 0 _ "[0..<sims]"] show ?thesis by (simp add: ruin_simulations_def tally_ok_def)
qed

text \<open>A drawdown run keeps a non-negative balance below its peak.\<close>

definition run_ok :: "jsnum \<times> jsnum \<times> jsnum \<Rightarrow> bool" where
  "run_ok st \<longleftrightarrow> (\<exists>b p d. st = (Fin b, Fin p, Fin d) \<and> 0 \<le> b \<and> b \<le> p \<and> 0 < p \<and> 0 \<le> d \<and> d \<le> 100)"

lemma drawdown_trade_ok:
  assumes "0 \<le> risk" "risk \<le> 100" "0 \<le> rr" "run_ok st"
  shows "yields run_ok (drawdown_trade w (Fin risk) (Fin rr) st)"
proof -
  obtain b p d where st: "st = (Fin b, Fin p, Fin d)" "0 \<le> b" "b \<le> p" "0 < p" "0 \<le> d" "d \<le> 100"
    using assms(4) by (auto simp: run_ok_def)
  have step: "run_ok (Fin b', if Fin b' > Fin p then Fin b' else Fin p,
      if ((if Fin b' > Fin p then Fin b' else Fin p) - Fin b') / (if Fin b' > Fin p then Fin b' else Fin p) * 100 > Fin d
      then ((if Fin b' > Fin p then Fin b' else Fin p) - Fin b') / (if Fin b' > Fin p then Fin b' else Fin p) * 100 else Fin d)"
    if "0 \<le> b'" for b'
  proof (cases "b' \<le> p")
    case True
    then have "0 \<le> (p - b') / p * 100 \<and> (p - b') / p * 100 \<le> 100" using that st(4) by (simp add: field_simps)
    then show ?thesis using True that st by (auto simp: run_ok_def)
  qed (use that st in \<open>auto simp: run_ok_def\<close>)
  have "0 \<le> b + b * (risk / 100) * rr" using st assms by simp
  moreover have "0 \<le> b - b * (risk / 100)" using mult_left_mono [of "risk / 100" 1 b] st assms by simp
  ultimately have "\<exists>b'. Fin b + (if u < w then Fin b * (Fin risk / 100) * Fin rr else - (Fin b * (Fin risk / 100))) = Fin b' \<and> 0 \<le> b'" for u
    by (cases "u < w") simp_all
  then show ?thesis
    unfolding drawdown_trade_def st prod.case Let_def
    by (intro yields_any) (use step in \<open>metis yields_return\<close>)
qed

lemma drawdown_run_ok:
  assumes "0 \<le> risk" "risk \<le> 100" "0 \<le> rr"
  shows "yields (\<lambda>d. \<exists>r. d = Fin r \<and> 0 \<le> r \<and> r \<le> 100) (drawdown_run w (Fin risk) (Fin rr))"
proof -
  have "yields run_ok (fold_state (\<lambda>_. drawdown_trade w (Fin risk) (Fin rr)) [0..<100] (starting_balance, starting_balance, 0))"
    by (rule yields_fold) (auto simp: run_ok_def starting_balance_def zero_jsnum_def intro: drawdown_trade_ok [OF assms])
  then show ?thesis unfolding drawdown_run_def by (rule yields_bind) (auto simp: run_ok_def)
qed

lemma drawdown_runs_ok:
  assumes "0 \<le> risk" "risk \<le> 100" "0 \<le> rr"
  shows "yields (\<lambda>ds. \<exists>rs. ds = map Fin rs \<and> length rs = sims \<and> (\<forall>r \<in> set rs. 0 \<le> r \<and> r \<le> 100)) (drawdown_runs sims w (Fin risk) (Fin rr))"
proof -
  let ?Q = "\<lambda>k ds. \<exists>rs. ds = map Fin rs \<and> length rs = k \<and> (\<forall>r \<in> set rs. 0 \<le> r \<and> r \<le> 100)"
  let ?f = "\<lambda>_ ds. do { d \<leftarrow> drawdown_run w (Fin risk) (Fin rr); State_Monad.return (ds @ [d]) }"
  have "yields (?Q (k + length xs)) (fold_state ?f xs ds)" if "?Q k ds" for xs :: "nat list" and k ds
    using that
  proof (induction xs arbitrary: k ds)
    case (Cons x xs)
    have "?Q (Suc k) (ds @ [d])" if d: "\<exists>r. d = Fin r \<and> 0 \<le> r \<and> r \<le> 100" for d
    proof -
      obtain rs r where "ds = map Fin rs" "length rs = k" "\<forall>r \<in> set rs. 0 \<le> r \<and> r \<le> 100" "d = Fin r" "0 \<le> r" "r \<le> 100"
        using Cons.prems d by blast
      then show ?thesis by (intro exI [of _ "rs @ [r]"]) auto
    qed
    then have "yields (?Q (Suc k)) (?f x ds)"
      by (intro yields_bind [OF drawdown_run_ok [OF assms]]) simp
    then have "yields (?Q (Suc k + length xs)) (do { t' \<leftarrow> ?f x ds; fold_state ?f xs t' })"
      by (rule yields_bind) (rule Cons.IH)
    then show ?case by simp
  qed simp
  moreover have "?Q 0 []" by simp
  ultimately have "yields (?Q (0 + length [0..<sims])) (fold_state ?f [0..<sims] [])" by blast
  then show ?thesis by (simp add: drawdown_runs_def)
qed

lemma sorted_nth_mem: "k < length xs \<Longrightarrow> rd (sort_by f xs) k \<in> set xs"
proof -
  assume k: "k < length xs"
  have "length (sort_by f xs) = length xs" using mset_sort_by [of f xs] by (metis size_mset)
  then have "sort_by f xs ! k \<in> set (sort_by f xs)" "rd (sort_by f xs) k = sort_by f xs ! k"
    using k by (auto simp: rd_def simp del: set_sort_by)
  then show ?thesis by simp
qed

lemma jmax_list_range:
  assumes "rs \<noteq> []" "\<forall>r \<in> set rs. 0 \<le> r \<and> r \<le> (c :: real)"
  shows "\<exists>m. jmax_list (map Fin rs) = Fin m \<and> m \<in> set rs \<and> (\<forall>r \<in> set rs. r \<le> m)"
proof -
  have "\<exists>m. foldl jmax (Fin a) (map Fin rs) = Fin m \<and> m \<in> insert a (set rs) \<and> (\<forall>r \<in> insert a (set rs). r \<le> m)" for a rs
  proof (induction rs arbitrary: a)
    case (Cons r rs)
    have "jmax (Fin a) (Fin r) = Fin (max a r)" by (simp add: jmax_def max_def)
    then show ?case using Cons [of "max a r"] by (auto simp: max_def split: if_splits)
  qed simp
  moreover obtain a as where "rs = a # as" using assms(1) by (cases rs) auto
  ultimately show ?thesis by (simp add: jmax_list_def jmax_def)
qed

text \<open>
  Whatever is drawn, for a risk between 0 and 100 percent and a non-negative reward: the simulated risk of ruin is a percentage; at most
  five paths of each kind are kept, each starting at the balance, the ruined ones ending at half of it or less after staying above, the others
  staying above for all 100 trades; the average and the median drawdown are between 0 and the worst, which is at most 100.
\<close>

theorem ruin_panel_bounds:
  assumes "0 \<le> risk" "risk \<le> 100" "0 \<le> rr" "0 < simulations"
  shows "yields (\<lambda>d. (\<exists>p. rd_mcRuinPct d = Fin p \<and> 0 \<le> p \<and> p \<le> 100) \<and>
      length (rd_ruinPaths d) \<le> 5 \<and> length (rd_survivalPaths d) \<le> 5 \<and>
      list_all (\<lambda>q. path_ok 101 (q, True)) (rd_ruinPaths d) \<and> list_all (\<lambda>q. path_ok 101 (q, False)) (rd_survivalPaths d) \<and>
      (\<exists>a m w. rd_avgMaxDD d = Fin a \<and> rd_medianDD d = Fin m \<and> rd_worstDD d = Fin w \<and>
        0 \<le> a \<and> a \<le> w \<and> 0 \<le> m \<and> m \<le> w \<and> w \<le> 100))
    (ruin_panel accounts winRate (Fin risk) (Fin rr) simulations)"
proof -
  obtain actual trades where act: "actual_win_rate accounts = (actual, trades)" by fastforce
  define n where "n = min simulations 500"
  have n: "0 < n" using assms(4) by (simp add: n_def)
  have count: "\<exists>p. jnat (ru_count t) / jnat n * 100 = Fin p \<and> 0 \<le> p \<and> p \<le> 100" if "tally_ok n t" for t
    using that n by (simp add: tally_ok_def divide_le_eq)
  have dds: "\<exists>a m w. jsum (map Fin rs) / jnat (length rs) = Fin a \<and> rd (sort_by (\<lambda>x. x) (map Fin rs)) (length rs div 2) = Fin m \<and>
      jmax_list (map Fin rs) = Fin w \<and> 0 \<le> a \<and> a \<le> w \<and> 0 \<le> m \<and> m \<le> w \<and> w \<le> 100"
    if rs: "length rs = 100" "\<forall>r \<in> set rs. 0 \<le> r \<and> r \<le> 100" for rs
  proof -
    obtain w where w: "jmax_list (map Fin rs) = Fin w" "w \<in> set rs" "\<forall>r \<in> set rs. r \<le> w"
      using jmax_list_range [of rs 100] rs by (metis length_0_conv zero_neq_numeral)
    have "rd (sort_by (\<lambda>x. x) (map Fin rs)) (length rs div 2) \<in> set (map Fin rs)" using rs(1) by (intro sorted_nth_mem) simp
    then obtain m where m: "rd (sort_by (\<lambda>x. x) (map Fin rs)) (length rs div 2) = Fin m" "m \<in> set rs" by auto
    have "sum_list rs \<le> w * real (length rs)"
      using sum_list_mono [of rs "\<lambda>r. r" "\<lambda>_. w"] w(3) by (simp add: sum_list_triv mult.commute)
    moreover have "0 \<le> sum_list rs" using rs(2) by (simp add: sum_list_nonneg)
    moreover have "jsum (map Fin rs) / jnat (length rs) = Fin (sum_list rs / 100)" using rs(1) by (simp add: jsum_Fin)
    ultimately show ?thesis
      using w m rs by (intro exI [of _ "sum_list rs / 100"] exI [of _ m] exI [of _ w]) simp
  qed
  show ?thesis
    unfolding ruin_panel_def act Let_def prod.case n_def [symmetric]
    by (rule yields_bind [OF ruin_simulations_ok], rule yields_bind [OF drawdown_runs_ok [OF assms(1-3), where sims = 100]])
      (use count dds in \<open>auto simp: tally_ok_def\<close>)
qed

theorem ruin_panel_bounds_witness:
  "yields (\<lambda>d. length (rd_ruinPaths d) \<le> 5 \<and> list_all (\<lambda>q. path_ok 101 (q, False)) (rd_survivalPaths d))
    (ruin_panel None 45 (Fin 2) (Fin 2) 1000)"
  using ruin_panel_bounds [of 2 2 1000 None 45] by (simp add: yields_def)

text \<open>
  The closed formula is a percentage for an edge between 0 and 1; above 1 its base is negative: with 80 percent of wins at twice the risk,
  a risk of 4 percent gives a negative risk of ruin and a risk of 3 percent gives NaN.
\<close>

lemma risk_of_ruin_percentage:
  assumes "0 < risk" "edge \<le> 1"
  shows "\<exists>p. risk_of_ruin (Fin edge) (Fin risk) = Fin p \<and> 0 \<le> p \<and> p \<le> 100"
proof -
  have "((1 - edge) / (1 + edge)) powr (100 / risk) \<le> 1 powr (100 / risk)" if "0 < edge"
    using that assms by (intro powr_mono2) simp_all
  then have p: "((1 - edge) / (1 + edge)) powr (100 / risk) \<le> 1" if "0 < edge" using that by simp
  consider "edge \<le> 0" | "edge = 1" | "0 < edge" "edge < 1" using assms(2) by linarith
  then show ?thesis
    by cases (use assms p in \<open>simp_all add: risk_of_ruin_def Let_def\<close>)
qed

theorem risk_of_ruin_breaks:
  "risk_of_ruin (Fin (14 / 10)) (Fin 4) < 0 \<and> risk_of_ruin (Fin (14 / 10)) (Fin 3) = NaN"
proof -
  have "\<lfloor>100 / 3 :: real\<rfloor> = 33" by (simp add: floor_eq_iff)
  then show ?thesis by (simp add: risk_of_ruin_def Let_def)
qed

end
