(* ===== verification/IsoForest.thy ===== *)
theory IsoForest
  imports Candles JsRandom JsSort Copula "HOL-Library.Log_Nat"
begin

text \<open>
  The anomaly panel \<open>components/IsolationForest.jsx\<close>: isolation trees on random splits, the forest with its random subsamples, the
  scores and the result of the panel. The loop that draws a subsample is a partial function, since it ends only when the
  draws are varied enough. The drawing is left out.
\<close>

section \<open>Trees\<close>

definition H_CONST :: jsnum where
  "H_CONST = Fin 0.5772156649"

definition harmonicApprox :: "nat \<Rightarrow> jsnum" where
  "harmonicApprox n = (if n \<le> 1 then 0 else jlog (jnat n - 1) + H_CONST)"

definition cFactor :: "nat \<Rightarrow> jsnum" where
  "cFactor n = (if n \<le> 1 then 0 else if n = 2 then 1 else 2 * harmonicApprox n - 2 * (jnat n - 1) / jnat n)"

datatype itree = ILeaf (il_size: nat) (il_depth: nat) | INode (in_feature: nat) (in_split: jsnum) (in_left: itree) (in_right: itree) nat

definition random_index :: "nat \<Rightarrow> (draws, nat) state" where
  \<comment> \<open>\<open>Math.floor(Math.random() * n)\<close>\<close>
  "random_index n = State (\<lambda>s. (nat \<lfloor>s 0 * real n\<rfloor>, \<lambda>i. s (Suc i)))"

definition feature_range :: "nat \<Rightarrow> jsnum list list \<Rightarrow> jsnum \<times> jsnum" where
  "feature_range f data =
     foldl (\<lambda>(mn, mx) point. (if rd point f < mn then rd point f else mn, if rd point f > mx then rd point f else mx)) (PInf, NInf) data"

text \<open>The first argument is \<open>maxDepth - depth\<close>.\<close>

primrec buildITree :: "nat \<Rightarrow> nat \<Rightarrow> jsnum list list \<Rightarrow> (draws, itree) state" where
  "buildITree 0 depth data = State_Monad.return (ILeaf (length data) depth)"
| "buildITree (Suc k) depth data =
     (if length data \<le> 1 then State_Monad.return (ILeaf (length data) depth)
      else do {
        featureIdx \<leftarrow> random_index (length (data ! 0));
        let (mn, mx) = feature_range featureIdx data;
        if jeq mn mx then State_Monad.return (ILeaf (length data) depth)
        else do {
          u \<leftarrow> random_draw;
          let split = mn + u * (mx - mn);
          l \<leftarrow> buildITree k (depth + 1) (filter (\<lambda>p. rd p featureIdx < split) data);
          r \<leftarrow> buildITree k (depth + 1) (filter (\<lambda>p. rd p featureIdx \<ge> split) data);
          State_Monad.return (INode featureIdx split l r depth)
        }
      })"

fun pathLength :: "jsnum list \<Rightarrow> itree \<Rightarrow> nat \<Rightarrow> jsnum" where
  "pathLength point (ILeaf n d) depth = jnat depth + cFactor n"
| "pathLength point (INode f split l r d) depth =
     (if rd point f < split then pathLength point l (depth + 1) else pathLength point r (depth + 1))"

definition anomalyScore :: "jsnum list \<Rightarrow> itree list \<Rightarrow> nat \<Rightarrow> jsnum" where
  "anomalyScore point trees subSampleSize =
     (let totalPath = foldl (\<lambda>s t. s + pathLength point t 0) 0 trees;
          avgPath = totalPath / jnat (length trees)
      in jpow 2 (- avgPath / cFactor subSampleSize))"

section \<open>The forest\<close>

text \<open>The \<open>Set\<close> of indices in the order of insertion, until it has \<open>k\<close> elements.\<close>

partial_function (option) sample_indices :: "nat \<Rightarrow> nat \<Rightarrow> nat list \<Rightarrow> draws \<Rightarrow> (nat list \<times> draws) option" where
  "sample_indices n k indices s =
     (if length indices < k
      then
        let (i, s') = run_state (random_index n) s
        in sample_indices n k (if i \<in> set indices then indices else indices @ [i]) s'
      else Some (indices, s))"

primrec build_trees :: "nat \<Rightarrow> nat \<Rightarrow> nat \<Rightarrow> jsnum list list \<Rightarrow> draws \<Rightarrow> (itree list \<times> draws) option" where
  "build_trees 0 maxDepth k data s = Some ([], s)"
| "build_trees (Suc t) maxDepth k data s =
     (case sample_indices (length data) k [] s of
        None \<Rightarrow> None
      | Some (indices, s1) \<Rightarrow>
          let (tree, s2) = run_state (buildITree maxDepth 0 (map (\<lambda>i. data ! i) indices)) s1
          in (case build_trees t maxDepth k data s2 of
                None \<Rightarrow> None
              | Some (trees, s3) \<Rightarrow> Some (tree # trees, s3)))"

definition buildIsolationForest :: "jsnum list list \<Rightarrow> nat \<Rightarrow> nat \<Rightarrow> draws \<Rightarrow> (itree list \<times> draws) option" where
  \<comment> \<open>\<open>Math.ceil(Math.log2(subSampleSize))\<close> is \<open>ceillog2\<close>\<close>
  "buildIsolationForest data nTrees subSampleSize = build_trees nTrees (ceillog2 subSampleSize) (min subSampleSize (length data)) data"

section \<open>Features and the panel\<close>

record anomaly_point =
  ap_features :: "jsnum list"
  ap_timestamp :: int
  ap_price :: jsnum
  ap_index :: nat

definition window_rsi :: "jsnum list \<Rightarrow> jsnum" where
  "window_rsi prices =
     (let (gains, losses) = foldl (\<lambda>(g, l) j. let change = rd prices j - rd prices (j - 1)
            in if change > 0 then (g + change, l) else (g, l - change)) (0, 0) [1..<20];
          rs = (if losses > 0 then gains / 19 / (losses / 19) else 100)
      in 100 - 100 / (1 + rs))"

definition anomaly_features :: "candle list \<Rightarrow> jsnum list" where
  \<comment> \<open>of a window of 20 candles\<close>
  "anomaly_features window =
     (let prices = map cd_close window;
          volumes = map (\<lambda>c. jor (cd_volume c) 1) window;
          ret = (rd prices 19 - rd prices 18) / rd prices 18;
          rets = map (\<lambda>j. (rd prices j - rd prices (j - 1)) / rd prices (j - 1)) [1..<20];
          meanR = jsum rets / jnat (length rets);
          vol = jsqrt (jsum (map (\<lambda>r. (r - meanR) ^ 2) rets) / jnat (length rets));
          meanV = jsum volumes / jnat (length volumes);
          stdV = jsqrt (jsum (map (\<lambda>v. (v - meanV) ^ 2) volumes) / jnat (length volumes));
          volZ = (if stdV > 0 then (rd volumes 19 - meanV) / stdV else 0);
          newest = window ! 19;
          range = (cd_high newest - cd_low newest) / cd_close newest;
          skew = (if vol > 0 then jsum (map (\<lambda>r. ((r - meanR) / vol) ^ 3) rets) / jnat (length rets) else 0);
          sma = jsum prices / jnat (length prices)
      in [ret * 100, vol * 100, volZ, range * 100, window_rsi prices, skew, (rd prices 19 - sma) / sma * 100])"

definition extractAnomalyFeatures :: "candle list \<Rightarrow> anomaly_point list" where
  "extractAnomalyFeatures candles =
     map (\<lambda>i. let window = take 20 (drop (i - 20) candles)
       in \<lparr>ap_features = anomaly_features window, ap_timestamp = cd_timestamp (candles ! i),
           ap_price = rd (map cd_close window) 19, ap_index = i\<rparr>) [20..<length candles]"

primrec feature_usage :: "itree \<Rightarrow> nat list \<Rightarrow> nat list" where
  "feature_usage (ILeaf n d) usage = usage"
| "feature_usage (INode f split l r d) usage = feature_usage r (feature_usage l (usage[f := usage ! f + 1]))"

record anomaly_result =
  an_scores :: "jsnum list"
  an_anomalies :: "(anomaly_point \<times> jsnum) list"
  an_normal :: "(anomaly_point \<times> jsnum) list"
  an_currentScore :: jsnum
  an_isAnomaly :: bool
  an_featureImportance :: "jsnum list"
  an_featureData :: "anomaly_point list"
  an_scoresRecent :: "jsnum list"
  an_prices :: "jsnum list"

definition forest_result :: "candle list \<Rightarrow> itree list \<Rightarrow> nat \<Rightarrow> jsnum \<Rightarrow> anomaly_result" where
  "forest_result cds trees subSampleSize threshold =
     (let featureData = extractAnomalyFeatures cds;
          scores = map (\<lambda>f. anomalyScore (ap_features f) trees subSampleSize) featureData;
          scored = zip featureData scores;
          usage = foldl (\<lambda>u t. feature_usage t u) (replicate 7 0) trees;
          totalUsage = sum_list usage
      in \<lparr>an_scores = scores,
          an_anomalies = sort_by (\<lambda>a. - snd a) (filter (\<lambda>a. snd a \<ge> threshold) scored),
          an_normal = filter (\<lambda>a. \<not> snd a \<ge> threshold) scored,
          an_currentScore = rd scores (length scores - 1), an_isAnomaly = rd scores (length scores - 1) \<ge> threshold,
          an_featureImportance = map (\<lambda>u. if totalUsage > 0 then jnat u / jnat totalUsage else 0) usage,
          an_featureData = slice_last 60 featureData, an_scoresRecent = slice_last 60 scores,
          an_prices = map cd_close (slice_last 60 cds)\<rparr>)"

text \<open>The outer option is a loop that may not end, the inner one too little data.\<close>

definition forest_panel ::
  "candle list option \<Rightarrow> string \<Rightarrow> string \<Rightarrow> nat \<Rightarrow> nat \<Rightarrow> jsnum \<Rightarrow> draws \<Rightarrow> anomaly_result option option" where
  "forest_panel candles exchange symbol nTrees subSampleSize threshold s =
     (let cds = select_candles candles exchange symbol;
          matrix = map ap_features (extractAnomalyFeatures cds);
          sub = min subSampleSize (length matrix)
      in if length cds < 40 \<or> length matrix < 10 then Some None
         else
           (case buildIsolationForest matrix nTrees sub s of
              None \<Rightarrow> None
            | Some (trees, _) \<Rightarrow> Some (Some (forest_result cds trees sub threshold))))"

section \<open>Scores\<close>

lemma cFactor_Fin: "\<exists>c. cFactor n = Fin c \<and> 0 \<le> c \<and> (2 \<le> n \<longrightarrow> 0 < c)"
proof -
  consider "n \<le> 1" | "n = 2" | "3 \<le> n" by linarith
  then show ?thesis
  proof cases
    case 3
    define x where "x = real n - 1"
    have x: "2 \<le> x" using 3 by (simp add: x_def)
    have "ln (1 / x) \<le> 1 / x - 1" using x by (intro ln_le_minus_one) simp
    moreover have "1 / x \<le> 1 / 2" using x by (simp add: field_simps)
    moreover have "ln (1 / x) = - ln x" using x by (simp add: ln_div)
    ultimately have l: "1 / 2 \<le> ln x" by linarith
    have "x / real n < 1" using 3 by (simp add: x_def)
    then have "0 < 2 * (ln x + 0.5772156649) - 2 * x / real n" using l by simp
    then show ?thesis using 3 x by (simp add: cFactor_def harmonicApprox_def H_CONST_def x_def)
  qed (simp_all add: cFactor_def zero_jsnum_def one_jsnum_def)
qed

lemma pathLength_Fin: "\<exists>v. pathLength point t d = Fin v \<and> real d \<le> v"
proof (induction t arbitrary: d)
  case (ILeaf n e)
  then show ?case using cFactor_Fin [of n] by auto
next
  case (INode f split l r e)
  obtain v w where "pathLength point l (d + 1) = Fin v" "real (d + 1) \<le> v" "pathLength point r (d + 1) = Fin w" "real (d + 1) \<le> w"
    using INode.IH by blast
  then show ?case by (cases "rd point f < split") auto
qed

lemma score_range:
  assumes "trees \<noteq> []" "2 \<le> sub"
  shows "\<exists>v. anomalyScore point trees sub = Fin v \<and> 0 < v \<and> v \<le> 1"
proof -
  have "\<exists>v. foldl (\<lambda>s t. s + pathLength point t 0) (Fin a) ts = Fin v \<and> 0 \<le> v" if "0 \<le> a" for a ts
    using that
  proof (induction ts arbitrary: a)
    case (Cons t ts)
    obtain v where "pathLength point t 0 = Fin v" "0 \<le> v" using pathLength_Fin [of point t 0] by auto
    then show ?case using Cons.IH [of "a + v"] Cons.prems by simp
  qed simp
  then obtain total where t: "foldl (\<lambda>s t. s + pathLength point t 0) (Fin 0) trees = Fin total" "0 \<le> total" by blast
  obtain c where c: "cFactor sub = Fin c" "0 < c" using cFactor_Fin [of sub] assms(2) by blast
  define e where "e = - (total / real (length trees)) / c"
  have n: "0 < real (length trees)" using assms(1) by simp
  have e: "e \<le> 0" using t(2) c(2) n by (simp add: e_def divide_nonpos_pos)
  have s: "anomalyScore point trees sub = jpow (Fin 2) (Fin e)"
    using n t(1) c by (simp add: anomalyScore_def zero_jsnum_def e_def)
  have "2 powr e \<le> 2 powr 0" using e by (intro powr_mono) simp_all
  then show ?thesis unfolding s by (cases "e = 0") (simp_all add: one_jsnum_def)
qed

section \<open>A tree partitions its points\<close>

definition unit_draws :: "draws \<Rightarrow> bool" where
  "unit_draws s \<longleftrightarrow> (\<forall>i. 0 \<le> s i \<and> s i < 1)"

primrec leaf_total :: "itree \<Rightarrow> nat" where
  "leaf_total (ILeaf n d) = n"
| "leaf_total (INode f split l r d) = leaf_total l + leaf_total r"

primrec tree_levels :: "itree \<Rightarrow> nat" where
  "tree_levels (ILeaf n d) = 0"
| "tree_levels (INode f split l r d) = Suc (max (tree_levels l) (tree_levels r))"

definition rows_ok :: "nat \<Rightarrow> jsnum list list \<Rightarrow> bool" where
  "rows_ok w data \<longleftrightarrow> list_all (\<lambda>p. length p = w \<and> list_all is_fin p) data"

lemma unit_draws_tail: "unit_draws s \<Longrightarrow> unit_draws (\<lambda>i. s (Suc i))"
  by (simp add: unit_draws_def)

lemma random_index_run:
  assumes "unit_draws s" "0 < n"
  shows "\<exists>i < n. run_state (random_index n) s = (i, \<lambda>i. s (Suc i))"
proof -
  have "0 \<le> s 0 * real n" "s 0 * real n < real n" using assms by (simp_all add: unit_draws_def)
  then have "0 \<le> \<lfloor>s 0 * real n\<rfloor>" "\<lfloor>s 0 * real n\<rfloor> < int n" by (simp_all add: floor_less_iff)
  then have "nat \<lfloor>s 0 * real n\<rfloor> < n" by linarith
  then show ?thesis by (simp add: random_index_def)
qed

lemma feature_range_Fin:
  assumes "data \<noteq> []" "\<forall>p \<in> set data. is_fin (rd p f)"
  shows "\<exists>a b. feature_range f data = (Fin a, Fin b)"
proof -
  have "\<exists>a b. foldl (\<lambda>(mn, mx) p. (if rd p f < mn then rd p f else mn, if rd p f > mx then rd p f else mx)) (Fin x, Fin y) ds = (Fin a, Fin b)"
    if "\<forall>p \<in> set ds. is_fin (rd p f)" for x y ds
    using that
  proof (induction ds arbitrary: x y)
    case (Cons p ds)
    obtain v where v: "rd p f = Fin v" using Cons.prems by (auto simp: is_fin_def)
    show ?case using Cons.IH [of "if v < x then v else x" "if v > y then v else y"] Cons.prems by (simp add: v split: if_splits)
  qed simp
  moreover obtain p ds where "data = p # ds" using assms(1) by (cases data) auto
  ultimately show ?thesis using assms(2) by (fastforce simp: feature_range_def is_fin_def)
qed

theorem tree_partitions:
  assumes "rows_ok w data" "0 < w" "unit_draws s"
  shows "\<exists>t s'. run_state (buildITree k depth data) s = (t, s') \<and> unit_draws s' \<and> leaf_total t = length data \<and> tree_levels t \<le> k"
  using assms(1,3)
proof (induction k arbitrary: depth data s)
  case (Suc k)
  show ?case
  proof (cases "length data \<le> 1")
    case False
    then have ne: "data \<noteq> []" by auto
    have len: "length (data ! 0) = w" using Suc.prems(1) ne by (cases data) (auto simp: rows_ok_def)
    obtain f where f: "f < w" "run_state (random_index w) s = (f, \<lambda>i. s (Suc i))"
      using random_index_run [OF Suc.prems(2) assms(2)] by blast
    have fin: "\<forall>p \<in> set data. is_fin (rd p f)"
      using Suc.prems(1) f(1) by (auto simp: rows_ok_def list_all_iff rd_def)
    obtain a b where ab: "feature_range f data = (Fin a, Fin b)" using feature_range_Fin [OF ne fin] by blast
    define split where "split = Fin (a + s 1 * (b - a))"
    define L R where "L = filter (\<lambda>p. rd p f < split) data" and "R = filter (\<lambda>p. rd p f \<ge> split) data"
    have "R = filter (\<lambda>p. \<not> rd p f < split) data"
      unfolding R_def by (rule filter_cong) (use fin in \<open>auto simp: split_def is_fin_def\<close>)
    then have parts: "length L + length R = length data" unfolding L_def by (simp add: sum_length_filter_compl)
    have ok: "rows_ok w L" "rows_ok w R" using Suc.prems(1) by (auto simp: rows_ok_def list_all_iff L_def R_def)
    have u2: "unit_draws (\<lambda>i. s (Suc (Suc i)))" using Suc.prems(2) by (simp add: unit_draws_def)
    obtain l s1 where l: "run_state (buildITree k (depth + 1) L) (\<lambda>i. s (Suc (Suc i))) = (l, s1)" "unit_draws s1"
      "leaf_total l = length L" "tree_levels l \<le> k" using Suc.IH [OF ok(1) u2] by blast
    obtain r s2 where r: "run_state (buildITree k (depth + 1) R) s1 = (r, s2)" "unit_draws s2"
      "leaf_total r = length R" "tree_levels r \<le> k" using Suc.IH [OF ok(2) l(2)] by blast
    have "run_state (buildITree (Suc k) depth data) s =
        (if jeq (Fin a) (Fin b) then (ILeaf (length data) depth, \<lambda>i. s (Suc i)) else (INode f split l r depth, s2))"
      using False f(2) l(1) r(1) by (simp add: len ab Let_def random_run split_def L_def R_def)
    then show ?thesis
      using l r parts unit_draws_tail [OF Suc.prems(2)] by (auto split: if_splits)
  qed (use Suc.prems in simp)
qed simp

section \<open>The forest is built\<close>

text \<open>Every index keeps being drawn.\<close>

definition recurrent :: "nat \<Rightarrow> draws \<Rightarrow> bool" where
  "recurrent n s \<longleftrightarrow> unit_draws s \<and> (\<forall>i < n. \<forall>m. \<exists>j \<ge> m. nat \<lfloor>s j * real n\<rfloor> = i)"

lemma recurrent_suffix: "recurrent n s \<Longrightarrow> recurrent n (\<lambda>i. s (i + k))"
  unfolding recurrent_def unit_draws_def by (metis add_le_imp_le_diff le_add_diff_inverse2 le_add2 le_trans)

lemma recurrent_tail: "recurrent n s \<Longrightarrow> recurrent n (\<lambda>i. s (Suc i))"
  using recurrent_suffix [of n s 1] by simp

lemma sample_indices_ends:
  assumes "recurrent n s" "distinct indices" "set indices \<subseteq> {..<n}" "length indices \<le> k" "k \<le> n"
  shows "\<exists>is s'. sample_indices n k indices s = Some (is, s') \<and> recurrent n s' \<and> distinct is \<and> set is \<subseteq> {..<n} \<and> length is = k"
  using assms
proof (induction "k - length indices" arbitrary: indices s rule: less_induct)
  case less
  show ?case
  proof (cases "length indices < k")
    case True
    then have "card (set indices) < card {..<n}" using less.prems distinct_card [of indices] by simp
    then obtain i where i: "i < n" "i \<notin> set indices"
      by (metis card_mono finite_set lessThan_iff linorder_not_less subsetI)
    obtain j where "nat \<lfloor>s j * real n\<rfloor> = i" using less.prems(1) i(1) by (auto simp: recurrent_def)
    then show ?thesis
      using less.prems(1)
    proof (induction j arbitrary: s)
      case 0
      then have "sample_indices n k indices s = sample_indices n k (indices @ [i]) (\<lambda>i. s (Suc i))"
        using True i by (subst sample_indices.simps) (simp add: random_index_def)
      moreover have "k - length (indices @ [i]) < k - length indices" using True by simp
      ultimately show ?case
        using less.hyps [of "indices @ [i]" "\<lambda>i. s (Suc i)"] recurrent_tail [OF 0(2)] less.prems i True by simp
    next
      case (Suc j)
      obtain x where x: "x < n" "run_state (random_index n) s = (x, \<lambda>i. s (Suc i))"
        using random_index_run [of s n] Suc.prems(2) i(1) by (auto simp: recurrent_def)
      have tail: "recurrent n (\<lambda>i. s (Suc i))" using Suc.prems(2) by (rule recurrent_tail)
      show ?case
      proof (cases "x \<in> set indices")
        case old: True
        have "sample_indices n k indices s = sample_indices n k indices (\<lambda>i. s (Suc i))"
          using True old x by (subst sample_indices.simps) simp
        then show ?thesis using Suc.IH [of "\<lambda>i. s (Suc i)"] Suc.prems(1) tail by simp
      next
        case False
        have "sample_indices n k indices s = sample_indices n k (indices @ [x]) (\<lambda>i. s (Suc i))"
          using True False x by (subst sample_indices.simps) simp
        moreover have "k - length (indices @ [x]) < k - length indices" using True by simp
        ultimately show ?thesis
          using less.hyps [of "indices @ [x]" "\<lambda>i. s (Suc i)"] tail less.prems x False True by simp
      qed
    qed
  next
    case False
    then show ?thesis using less.prems by (subst sample_indices.simps) simp
  qed
qed

lemma buildITree_suffix: "\<exists>n. snd (run_state (buildITree k d data) s) = (\<lambda>i. s (i + n))"
proof (induction k arbitrary: d data s)
  case 0
  show ?case by (rule exI [of _ 0]) simp
next
  case (Suc k)
  show ?case
  proof (cases "length data \<le> 1")
    case True
    then show ?thesis by (intro exI [of _ 0]) simp
  next
    case False
    define f where "f = nat \<lfloor>s 0 * real (length (data ! 0))\<rfloor>"
    obtain mn mx where r: "feature_range f data = (mn, mx)" by fastforce
    define split where "split = mn + Fin (s 1) * (mx - mn)"
    define L R where "L = filter (\<lambda>p. rd p f < split) data" and "R = filter (\<lambda>p. rd p f \<ge> split) data"
    obtain l a where l: "run_state (buildITree k (d + 1) L) (\<lambda>i. s (Suc (Suc i))) = (l, \<lambda>i. s (Suc (Suc (i + a))))"
      using Suc.IH [of "d + 1" L "\<lambda>i. s (Suc (Suc i))"] by (metis prod.collapse)
    obtain t b where t: "run_state (buildITree k (d + 1) R) (\<lambda>i. s (Suc (Suc (i + a)))) = (t, \<lambda>i. s (Suc (Suc (i + b + a))))"
      using Suc.IH [of "d + 1" R "\<lambda>i. s (Suc (Suc (i + a)))"] by (metis prod.collapse)
    have "snd (run_state (buildITree (Suc k) d data) s) =
        (if jeq mn mx then (\<lambda>i. s (i + 1)) else (\<lambda>i. s (i + (b + a + 2))))"
      using False l t by (simp add: random_index_def random_run Let_def r split_def L_def R_def add.assoc flip: f_def)
    then show ?thesis by (metis (full_types))
  qed
qed

lemma build_trees_ends:
  "recurrent (length data) s \<Longrightarrow> k \<le> length data \<Longrightarrow>
    \<exists>ts s'. build_trees t d k data s = Some (ts, s') \<and> length ts = t"
proof (induction t arbitrary: s)
  case (Suc t)
  obtain ix s1 where ix: "sample_indices (length data) k [] s = Some (ix, s1)" "recurrent (length data) s1"
    using sample_indices_ends [of "length data" s "[]" k] Suc.prems by auto
  obtain tree s2 where tree: "run_state (buildITree d 0 (map (\<lambda>i. data ! i) ix)) s1 = (tree, s2)" by fastforce
  then have "recurrent (length data) s2"
    using buildITree_suffix [of d 0 "map (\<lambda>i. data ! i) ix" s1] recurrent_suffix [OF ix(2)] by auto
  then show ?case using Suc.IH [of s2] Suc.prems(2) ix(1) tree by auto
qed simp

text \<open>
  When every index of the data keeps being drawn, the forest of the asked number of trees is built, and every point has a score
  above 0 and at most 1, for any data.
\<close>

theorem forest_scores:
  assumes "recurrent (length data) s" "0 < nTrees" "2 \<le> sub"
  shows "\<exists>trees s'. buildIsolationForest data nTrees sub s = Some (trees, s') \<and> length trees = nTrees \<and>
    (\<forall>point. \<exists>v. anomalyScore point trees sub = Fin v \<and> 0 < v \<and> v \<le> 1)"
proof -
  obtain trees s' where t: "buildIsolationForest data nTrees sub s = Some (trees, s')" "length trees = nTrees"
    using build_trees_ends [OF assms(1), of "min sub (length data)" nTrees "ceillog2 sub"] by (auto simp: buildIsolationForest_def)
  then have "trees \<noteq> []" using assms(2) by auto
  then show ?thesis using t score_range [OF _ assms(3), of trees] by blast
qed

text \<open>
  The newest candle is never scored: of the last candle only the timestamp is used, while features and price are those of the candles
  before it.
\<close>

theorem newest_candle_not_scored:
  "cd_timestamp c = cd_timestamp c' \<Longrightarrow> extractAnomalyFeatures (cs @ [c]) = extractAnomalyFeatures (cs @ [c'])"
  by (auto simp: extractAnomalyFeatures_def nth_append Let_def)

end
