(* ===== verification/GraphNetwork.thy ===== *)
theory GraphNetwork
  imports Candles JsSort Kelly
begin

text \<open>
  The correlation network panel \<open>components/GraphTheoryNetwork.jsx\<close>: correlations, Kruskal's spanning tree with its union-find array,
  the centralities and the result of the panel. The layout and the drawing are left out.
\<close>

section \<open>Correlations\<close>

definition corr_sums :: "jsnum list \<Rightarrow> jsnum list \<Rightarrow> nat \<Rightarrow> jsnum \<times> jsnum \<times> jsnum" where
  "corr_sums xs ys T =
     (let mi = jsum xs / jnat T; mj = jsum ys / jnat T
      in for_loop 0 T (\<lambda>t (cov, vi, vj).
           let di = rd xs t - mi; dj = rd ys t - mj in (cov + di * dj, vi + di * di, vj + dj * dj)) (0, 0, 0))"

definition correlationMatrix :: "jsnum list list \<Rightarrow> matrix" where
  "correlationMatrix allReturns =
     (let n = length allReturns; T = length (allReturns ! 0)
      in map (\<lambda>i. map (\<lambda>j. case corr_sums (allReturns ! i) (allReturns ! j) T of
           (cov, vi, vj) \<Rightarrow> if vi > 0 \<and> vj > 0 then cov / jsqrt (vi * vj) else 0) [0..<n]) [0..<n])"

section \<open>Kruskal's spanning tree\<close>

record graph_edge =
  ge_a :: nat
  ge_b :: nat
  ge_weight :: jsnum
  ge_corr :: jsnum

text \<open>\<open>find\<close> with path compression: the root and the array it leaves. It does not return on a cycle of parents.\<close>

partial_function (option) uf_find :: "nat list \<Rightarrow> nat \<Rightarrow> (nat \<times> nat list) option" where
  "uf_find parent x =
     (if parent ! x = x then Some (x, parent)
      else Option.bind (uf_find parent (parent ! x)) (\<lambda>(r, p). Some (r, p[x := r])))"

fun kruskal_loop :: "graph_edge list \<Rightarrow> nat list \<Rightarrow> graph_edge list \<Rightarrow> graph_edge list option" where
  "kruskal_loop [] parent mst = Some mst"
| "kruskal_loop (e # es) parent mst =
     (case uf_find parent (ge_a e) of
        None \<Rightarrow> None
      | Some (ra, p1) \<Rightarrow>
          (case uf_find p1 (ge_b e) of
             None \<Rightarrow> None
           | Some (rb, p2) \<Rightarrow>
               if ra \<noteq> rb then kruskal_loop es (p2[ra := rb]) (mst @ [e]) else kruskal_loop es p2 mst))"

definition kruskalMST :: "graph_edge list \<Rightarrow> nat \<Rightarrow> graph_edge list option" where
  "kruskalMST edges n = kruskal_loop (sort_by ge_weight edges) [0..<n] []"

section \<open>Centralities\<close>

definition power_step :: "matrix \<Rightarrow> jsnum list \<Rightarrow> jsnum list" where
  "power_step adj v =
     (let n = length adj;
          newV = map (\<lambda>i. for_loop 0 n (\<lambda>j s. s + entry adj i j * rd v j) 0) [0..<n];
          norm = jor (jsqrt (jsum (map (\<lambda>x. x * x) newV))) 1
      in map (\<lambda>x. x / norm) newV)"

definition eigenvectorCentrality :: "matrix \<Rightarrow> nat \<Rightarrow> jsnum list" where
  "eigenvectorCentrality adj maxIter = (power_step adj ^^ maxIter) (replicate (length adj) (1 / jnat (length adj)))"

definition adjacency_lists :: "graph_edge list \<Rightarrow> nat \<Rightarrow> nat list list" where
  "adjacency_lists es n =
     foldl (\<lambda>adj e. let adj1 = adj[ge_a e := adj ! ge_a e @ [ge_b e]] in adj1[ge_b e := adj1 ! ge_b e @ [ge_a e]]) (replicate n []) es"

text \<open>Visited flags, parents (\<open>None\<close> for \<open>-1\<close>) and the queue of a breadth-first search; nodes are below the length.\<close>

type_synonym bfs_state = "bool list \<times> nat option list \<times> nat list"

definition visit_neighbour :: "nat \<Rightarrow> bfs_state \<Rightarrow> nat \<Rightarrow> bfs_state" where
  "visit_neighbour u st v =
     (case st of (visited, par, queue) \<Rightarrow>
        if v < length visited \<and> \<not> visited ! v then (visited[v := True], par[v := Some u], queue @ [v]) else st)"

definition unvisited :: "bool list \<Rightarrow> nat" where
  "unvisited visited = length (filter Not visited)"

lemma visit_measure:
  "(case visit_neighbour u st v of (vis, par, q) \<Rightarrow> 2 * unvisited vis + length q) \<le> (case st of (vis, par, q) \<Rightarrow> 2 * unvisited vis + length q)"
proof -
  obtain vis par q where st: "st = (vis, par, q)" by (cases st)
  have "unvisited (vis[v := True]) + 1 = unvisited vis" if "v < length vis" "\<not> vis ! v"
    using that unfolding unvisited_def
  proof (induction vis arbitrary: v)
    case (Cons b bs)
    then show ?case by (cases v) auto
  qed simp
  then show ?thesis by (auto simp: visit_neighbour_def st)
qed

lemma visit_all_measure:
  "(case foldl (visit_neighbour u) st vs of (vis, par, q) \<Rightarrow> 2 * unvisited vis + length q) \<le> (case st of (vis, par, q) \<Rightarrow> 2 * unvisited vis + length q)"
proof (induction vs arbitrary: st)
  case (Cons v vs)
  show ?case using Cons [of "visit_neighbour u st v"] visit_measure [of u st v] by simp
qed simp

function bfs_parents :: "nat list list \<Rightarrow> nat \<Rightarrow> bool list \<Rightarrow> nat option list \<Rightarrow> nat list \<Rightarrow> nat option list" where
  "bfs_parents adj t visited par [] = par"
| "bfs_parents adj t visited par (u # queue) =
     (if u = t then par
      else case foldl (visit_neighbour u) (visited, par, queue) (adj ! u) of (vis', par', q') \<Rightarrow> bfs_parents adj t vis' par' q')"
  by pat_completeness auto
termination
  apply (relation "measure (\<lambda>(adj, t, vis, par, q). 2 * unvisited vis + length q)")
  apply simp
  subgoal for adj t visited par u queue x
    using visit_all_measure [of u "(visited, par, queue)" "adj ! u"] by (auto split: prod.splits)
  done

partial_function (option) backtrack :: "nat option list \<Rightarrow> nat \<Rightarrow> nat \<Rightarrow> nat option \<Rightarrow> nat list \<Rightarrow> nat list option" where
  "backtrack par s t u counts =
     (case u of
        None \<Rightarrow> Some counts
      | Some x \<Rightarrow>
          if x = s then Some counts
          else backtrack par s t (par ! x) (if x \<noteq> t then counts[x := counts ! x + 1] else counts))"

definition count_path :: "nat list list \<Rightarrow> nat \<Rightarrow> nat \<times> nat \<Rightarrow> nat list \<Rightarrow> nat list option" where
  "count_path adj n p counts =
     (case p of (s, t) \<Rightarrow>
        let par = bfs_parents adj t ((replicate n False)[s := True]) (replicate n None) [s]
        in backtrack par s t (Some t) counts)"

fun count_paths :: "nat list list \<Rightarrow> nat \<Rightarrow> (nat \<times> nat) list \<Rightarrow> nat list \<Rightarrow> nat list option" where
  "count_paths adj n [] counts = Some counts"
| "count_paths adj n (p # ps) counts =
     (case count_path adj n p counts of None \<Rightarrow> None | Some c \<Rightarrow> count_paths adj n ps c)"

definition node_pairs :: "nat \<Rightarrow> (nat \<times> nat) list" where
  "node_pairs n = concat (map (\<lambda>i. map (\<lambda>j. (i, j)) [i + 1..<n]) [0..<n])"

definition betweennessCentrality :: "graph_edge list \<Rightarrow> nat \<Rightarrow> jsnum list option" where
  "betweennessCentrality es n =
     (case count_paths (adjacency_lists es n) n (node_pairs n) (replicate n 0) of
        None \<Rightarrow> None
      | Some counts \<Rightarrow>
          let norm = (jnat n - 1) * (jnat n - 2) / 2
          in Some (map (\<lambda>c. if norm > 0 then jnat c / norm else 0) counts))"

text \<open>Neighbours in the order of insertion into their \<open>Set\<close>.\<close>

definition neighbours_of :: "graph_edge list \<Rightarrow> nat \<Rightarrow> nat list" where
  "neighbours_of es i =
     foldl (\<lambda>ns e.
       let ns1 = (if ge_a e = i \<and> ge_b e \<notin> set ns then ns @ [ge_b e] else ns)
       in if ge_b e = i \<and> ge_a e \<notin> set ns1 then ns1 @ [ge_a e] else ns1) [] es"

definition clusteringCoeff :: "graph_edge list \<Rightarrow> nat \<Rightarrow> jsnum list" where
  "clusteringCoeff es n =
     map (\<lambda>i.
       let ns = neighbours_of es i; k = length ns;
           links = length (filter (\<lambda>(a, b). ns ! b \<in> set (neighbours_of es (ns ! a))) (node_pairs k))
       in if k < 2 then 0 else 2 * jnat links / (jnat k * (jnat k - 1))) [0..<n]"

section \<open>The panel\<close>

definition correlation_edges :: "matrix \<Rightarrow> nat \<Rightarrow> graph_edge list" where
  "correlation_edges corr n =
     map (\<lambda>(i, j). \<lparr>ge_a = i, ge_b = j, ge_weight = jsqrt (jmax 0 (2 * (1 - entry corr i j))), ge_corr = entry corr i j\<rparr>) (node_pairs n)"

definition tree_matrix :: "graph_edge list \<Rightarrow> nat \<Rightarrow> matrix" where
  "tree_matrix mst n =
     foldl (\<lambda>m e. let m1 = m[ge_a e := (m ! ge_a e)[ge_b e := 1]] in m1[ge_b e := (m1 ! ge_b e)[ge_a e := 1]])
       (replicate n (replicate n 0)) mst"

record network_result =
  nr_symbols :: "string list"
  nr_corr :: matrix
  nr_edges :: "graph_edge list"
  nr_mst :: "graph_edge list"
  nr_filteredEdges :: "graph_edge list"
  nr_eigenCent :: "jsnum list"
  nr_betwCent :: "jsnum list"
  nr_clusterCoeff :: "jsnum list"
  nr_degrees :: "jsnum list"
  nr_avgCorr :: jsnum
  nr_mstAvgDist :: jsnum
  nr_mstAvgCorr :: jsnum
  nr_hubIdx :: "nat option"
  nr_is_hub :: bool

text \<open>The outer option is a search that does not return, the inner one too few symbols with data.\<close>

definition network_panel ::
  "candle list option \<Rightarrow> string \<Rightarrow> string list option \<Rightarrow> nat \<Rightarrow> jsnum \<Rightarrow> network_result option option" where
  "network_panel candles exchange symbols lookback edgeThreshold =
     (let bySym = group_candles candles exchange;
          syms = (case symbols of None \<Rightarrow> [] | Some xs \<Rightarrow> xs);
          valid = asset_returns bySym lookback syms
      in if bySym = [] \<or> length syms < 3 \<or> length valid < 3 then Some None
         else
           let n = length valid;
               corr = correlationMatrix (map snd valid);
               edges = correlation_edges corr n
           in (case kruskalMST edges n of
                 None \<Rightarrow> None
               | Some mst \<Rightarrow>
                   let adjM = tree_matrix mst n; degrees = map jsum adjM;
                       hubIdx = find_index (jeq (jmax_list degrees)) degrees
                   in (case betweennessCentrality mst n of
                         None \<Rightarrow> None
                       | Some betw \<Rightarrow>
                           Some (Some \<lparr>nr_symbols = map fst valid, nr_corr = corr, nr_edges = edges, nr_mst = mst,
                             nr_filteredEdges = filter (\<lambda>e. \<bar>ge_corr e\<bar> > edgeThreshold) edges,
                             nr_eigenCent = eigenvectorCentrality adjM 100, nr_betwCent = betw,
                             nr_clusterCoeff = clusteringCoeff mst n, nr_degrees = degrees,
                             nr_avgCorr = jsum (map ge_corr edges) / jnat (length edges),
                             nr_mstAvgDist = jsum (map ge_weight mst) / jnat (length mst),
                             nr_mstAvgCorr = jsum (map ge_corr mst) / jnat (length mst),
                             nr_hubIdx = hubIdx,
                             nr_is_hub = (case hubIdx of None \<Rightarrow> False | Some h \<Rightarrow> rd degrees h > 2)\<rparr>))))"

end
