(* ===== verification/GraphLaws.thy ===== *)
theory GraphLaws
  imports GraphNetwork
begin

text \<open>
  Laws of the correlation network: the union-find array represents connectedness, Kruskal's algorithm returns a spanning forest of
  least weight, its clustering coefficients are always zero, and what the power iteration gives on three symbols.
\<close>

section \<open>Connectedness and components\<close>

definition edge_rel :: "graph_edge list \<Rightarrow> (nat \<times> nat) set" where
  "edge_rel es = {(x, y). \<exists>e \<in> set es. (x = ge_a e \<and> y = ge_b e) \<or> (x = ge_b e \<and> y = ge_a e)}"

definition linked :: "graph_edge list \<Rightarrow> nat \<Rightarrow> nat \<Rightarrow> bool" where
  "linked es x y \<longleftrightarrow> (x, y) \<in> (edge_rel es)\<^sup>*"

lemma linked_refl [simp]: "linked es x x"
  by (simp add: linked_def)

lemma linked_trans: "linked es x y \<Longrightarrow> linked es y z \<Longrightarrow> linked es x z"
  unfolding linked_def by (rule rtrancl_trans)

lemma linked_sym: "linked es x y \<Longrightarrow> linked es y x"
proof -
  have "sym (edge_rel es)" by (auto simp: sym_def edge_rel_def)
  then show "linked es x y \<Longrightarrow> linked es y x" unfolding linked_def by (meson sym_rtrancl symD)
qed

lemma linked_edge: "e \<in> set es \<Longrightarrow> linked es (ge_a e) (ge_b e)"
  unfolding linked_def by (rule r_into_rtrancl) (auto simp: edge_rel_def)

lemma linked_mono: "set es \<subseteq> set fs \<Longrightarrow> linked es x y \<Longrightarrow> linked fs x y"
  unfolding linked_def by (rule rtrancl_mono [THEN subsetD]) (auto simp: edge_rel_def)

text \<open>The least relation of its kind: whatever is an equivalence containing the edges contains \<open>linked\<close>.\<close>

lemma linked_least:
  assumes "linked es x y" "\<And>e. e \<in> set es \<Longrightarrow> f (ge_a e) = f (ge_b e)"
  shows "f x = f y"
proof -
  have "(x, y) \<in> (edge_rel es)\<^sup>*" using assms(1) by (simp add: linked_def)
  then show ?thesis by (induction rule: rtrancl_induct) (auto simp: edge_rel_def assms(2))
qed

text \<open>Reference: every node carries a label, and an edge gives the label of one end to all that have the label of the other.\<close>

definition join_labels :: "(nat \<Rightarrow> nat) \<Rightarrow> graph_edge \<Rightarrow> nat \<Rightarrow> nat" where
  "join_labels lab e x = (if lab x = lab (ge_a e) then lab (ge_b e) else lab x)"

definition labels :: "graph_edge list \<Rightarrow> nat \<Rightarrow> nat" where
  "labels es = foldl join_labels id es"

lemma labels_snoc: "labels (es @ [e]) = join_labels (labels es) e"
  by (simp add: labels_def)

lemma labels_linked: "labels es x = labels es y \<longleftrightarrow> linked es x y"
proof
  show "linked es x y" if "labels es x = labels es y"
    using that
  proof (induction es arbitrary: x y rule: rev_induct)
    case (snoc e es)
    let ?l = "labels es"
    have step: "linked (es @ [e]) u v" if "?l u = ?l v" for u v
      by (rule linked_mono [OF _ snoc.IH [OF that]]) auto
    have edge: "linked (es @ [e]) (ge_a e) (ge_b e)" by (rule linked_edge) simp
    consider "?l x = ?l y" | "?l x = ?l (ge_a e)" "?l y = ?l (ge_b e)" | "?l x = ?l (ge_b e)" "?l y = ?l (ge_a e)"
      using snoc.prems by (auto simp: labels_snoc join_labels_def split: if_splits)
    then show ?case
    proof cases
      case 1
      then show ?thesis by (rule step)
    next
      case 2
      then show ?thesis using step edge linked_trans by metis
    next
      case 3
      then show ?thesis using step edge linked_trans linked_sym by metis
    qed
  qed (simp add: labels_def)
next
  have keep: "labels es u = labels es v \<Longrightarrow> labels (es @ fs) u = labels (es @ fs) v" for es fs u v
  proof (induction fs rule: rev_induct)
    case (snoc f fs)
    then show ?case by (simp add: labels_snoc join_labels_def flip: append_assoc)
  qed simp
  show "labels es x = labels es y" if "linked es x y"
  proof (rule linked_least [OF that])
    fix e assume "e \<in> set es"
    then obtain as bs where es: "es = (as @ [e]) @ bs" by (metis append.assoc append_Cons append_Nil split_list)
    have "labels (as @ [e]) (ge_a e) = labels (as @ [e]) (ge_b e)" by (simp add: labels_snoc join_labels_def)
    then show "labels es (ge_a e) = labels es (ge_b e)" unfolding es by (rule keep)
  qed
qed

definition components :: "nat \<Rightarrow> graph_edge list \<Rightarrow> nat" where
  "components n es = card (labels es ` {..<n})"

definition edges_below :: "nat \<Rightarrow> graph_edge list \<Rightarrow> bool" where
  "edges_below n es \<longleftrightarrow> list_all (\<lambda>e. ge_a e < n \<and> ge_b e < n) es"

lemma components_snoc:
  assumes "ge_a e < n" "ge_b e < n"
  shows "components n (es @ [e]) + (if linked es (ge_a e) (ge_b e) then 0 else 1) = components n es"
proof (cases "linked es (ge_a e) (ge_b e)")
  case True
  then have "labels es (ge_a e) = labels es (ge_b e)" by (simp add: labels_linked)
  then have "labels (es @ [e]) = labels es" by (auto simp: labels_snoc join_labels_def fun_eq_iff)
  then show ?thesis using True by (simp add: components_def)
next
  case False
  let ?l = "labels es"
  have ne: "?l (ge_a e) \<noteq> ?l (ge_b e)" using False by (simp add: labels_linked)
  have "labels (es @ [e]) ` {..<n} = ?l ` {..<n} - {?l (ge_a e)}"
    using ne assms by (auto simp: labels_snoc join_labels_def image_iff)
  moreover have "?l (ge_a e) \<in> ?l ` {..<n}" using assms by simp
  ultimately show ?thesis using False card_Suc_Diff1 [of "?l ` {..<n}" "?l (ge_a e)"] by (simp add: components_def)
qed

lemma components_append: "edges_below n fs \<Longrightarrow> components n es \<le> components n (es @ fs) + length fs"
proof (induction fs rule: rev_induct)
  case (snoc f fs)
  then have "components n es \<le> components n (es @ fs) + length fs" by (simp add: edges_below_def)
  moreover have "components n ((es @ fs) @ [f]) + (if linked (es @ fs) (ge_a f) (ge_b f) then 0 else 1) = components n (es @ fs)"
    using snoc.prems by (intro components_snoc) (simp_all add: edges_below_def)
  ultimately show ?case by (auto split: if_splits)
qed simp

lemma card_image_same_kernel:
  assumes "\<And>x y. x \<in> A \<Longrightarrow> y \<in> A \<Longrightarrow> f x = f y \<longleftrightarrow> g x = g y"
  shows "card (f ` A) = card (g ` A)"
proof -
  define P where "P = (\<lambda>x. (f x, g x)) ` A"
  have "inj_on fst P" "inj_on snd P" using assms by (auto simp: inj_on_def P_def)
  moreover have "fst ` P = f ` A" "snd ` P = g ` A" by (auto simp: P_def image_image)
  ultimately show ?thesis by (metis card_image)
qed

lemma components_cong: "(\<And>x y. linked es x y = linked fs x y) \<Longrightarrow> components n es = components n fs"
  unfolding components_def by (rule card_image_same_kernel) (simp add: labels_linked)

lemma components_Nil [simp]: "components n [] = n"
  by (simp add: components_def labels_def)

section \<open>The union-find array\<close>

inductive uf_root :: "nat list \<Rightarrow> nat \<Rightarrow> nat \<Rightarrow> bool" for parent where
  is_root: "parent ! x = x \<Longrightarrow> uf_root parent x x"
| climb: "parent ! x \<noteq> x \<Longrightarrow> uf_root parent (parent ! x) r \<Longrightarrow> uf_root parent x r"

lemma uf_root_unique: "uf_root parent x r \<Longrightarrow> uf_root parent x q \<Longrightarrow> r = q"
proof (induction rule: uf_root.induct)
  case (is_root x)
  from is_root(2,1) show ?case by cases auto
next
  case (climb x r)
  from climb(4,1) have "uf_root parent (parent ! x) q" by cases auto
  then show ?case by (rule climb.IH)
qed

lemma uf_root_fixed: "uf_root parent x r \<Longrightarrow> parent ! r = r"
  by (induction rule: uf_root.induct)

definition uf_ok :: "nat \<Rightarrow> nat list \<Rightarrow> bool" where
  "uf_ok n parent \<longleftrightarrow> length parent = n \<and> (\<forall>x < n. parent ! x < n \<and> (\<exists>r. uf_root parent x r))"

lemma uf_root_below: "uf_root parent x r \<Longrightarrow> uf_ok n parent \<Longrightarrow> x < n \<Longrightarrow> r < n"
  by (induction rule: uf_root.induct) (auto simp: uf_ok_def)

text \<open>Redirecting a root to another node joins its tree; redirecting an inner node to its root changes no root.\<close>

lemma redirect_root:
  assumes "uf_ok n parent" "ra < n" "rb < n" "ra \<noteq> rb" "parent ! ra = ra" "parent ! rb = rb" "uf_root parent y z" "y < n"
  shows "uf_root (parent[ra := rb]) y (if z = ra then rb else z)"
  using assms(7,8)
proof (induction rule: uf_root.induct)
  case (is_root x)
  have rb: "uf_root (parent[ra := rb]) rb rb" by (rule uf_root.is_root) (use assms in \<open>simp add: uf_ok_def\<close>)
  have at_ra: "parent[ra := rb] ! ra = rb" using assms(1,2) by (simp add: uf_ok_def)
  have "uf_root (parent[ra := rb]) ra rb" by (rule uf_root.climb) (simp_all add: at_ra assms(4) [symmetric] rb)
  moreover have "uf_root (parent[ra := rb]) x x" if "x \<noteq> ra" by (rule uf_root.is_root) (use that is_root in simp)
  ultimately show ?case by (cases "x = ra") simp_all
next
  case (climb x r)
  then have x: "parent ! x < n" "x \<noteq> ra" using assms(1,5) by (auto simp: uf_ok_def)
  show ?case by (rule uf_root.climb) (use x climb in simp_all)
qed

lemma compress_root:
  assumes "uf_ok n parent" "x < n" "uf_root parent x r" "x \<noteq> r" "uf_root parent y z"
  shows "uf_root (parent[x := r]) y z"
  using assms(5)
proof (induction rule: uf_root.induct)
  case (is_root v)
  then have "v \<noteq> x" using assms(3,4) is_root by (auto dest: uf_root_unique [OF uf_root.is_root])
  then show ?case by (intro uf_root.is_root) (simp add: is_root)
next
  case (climb v q)
  have fixed: "uf_root (parent[x := r]) r r" 
    by (rule uf_root.is_root) (use uf_root_fixed [OF assms(3)] assms(4) in simp)
  show ?case
  proof (cases "v = x")
    case True
    have "uf_root parent x q" using uf_root.climb [OF climb(1,2)] True by simp
    then have q: "q = r" using assms(3) by (rule uf_root_unique)
    have at_x: "parent[x := r] ! x = r" using assms(1,2) by (simp add: uf_ok_def)
    have "uf_root (parent[x := r]) x r" by (rule uf_root.climb) (simp_all add: at_x assms(4) [symmetric] fixed)
    then show ?thesis using True q by simp
  next
    case False
    show ?thesis by (rule uf_root.climb) (use False climb in simp_all)
  qed
qed

lemma uf_ok_update:
  assumes "uf_ok n parent" "v < n" "\<And>y z. y < n \<Longrightarrow> uf_root parent y z \<Longrightarrow> \<exists>q. uf_root (parent[x := v]) y q"
  shows "uf_ok n (parent[x := v])"
proof -
  have "parent[x := v] ! y < n" if "y < n" for y using assms(1,2) that by (cases "y = x") (auto simp: uf_ok_def)
  moreover have "\<exists>q. uf_root (parent[x := v]) y q" if "y < n" for y using assms(1,3) that unfolding uf_ok_def by blast
  ultimately show ?thesis using assms(1) by (simp add: uf_ok_def)
qed

lemma uf_find_root:
  "uf_root parent x r \<Longrightarrow> uf_ok n parent \<Longrightarrow> x < n \<Longrightarrow>
    \<exists>p. uf_find parent x = Some (r, p) \<and> uf_ok n p \<and> (\<forall>y < n. \<forall>z. uf_root p y z \<longleftrightarrow> uf_root parent y z)"
proof (induction rule: uf_root.induct)
  case (is_root x)
  then show ?case by (subst uf_find.simps) simp
next
  case (climb x r)
  have "parent ! x < n" using climb.prems by (simp add: uf_ok_def)
  then obtain p where p: "uf_find parent (parent ! x) = Some (r, p)" "uf_ok n p" "\<forall>y < n. \<forall>z. uf_root p y z \<longleftrightarrow> uf_root parent y z"
    using climb by blast
  have x: "uf_root p x r" using p(3) climb uf_root.climb by blast
  have ne: "x \<noteq> r" using climb.hyps uf_root_fixed by blast
  have keep: "uf_root p y z \<Longrightarrow> uf_root (p[x := r]) y z" for y z
    by (rule compress_root [OF p(2) climb.prems(2) x ne])
  have ok: "uf_ok n (p[x := r])"
    using uf_root_below [OF x p(2) climb.prems(2)] keep by (intro uf_ok_update [OF p(2)]) blast+
  have "uf_root (p[x := r]) y z \<longleftrightarrow> uf_root p y z" if "y < n" for y z
    using keep uf_root_unique p(2) that unfolding uf_ok_def by metis
  then show ?case using p ok climb.hyps(1) by (subst uf_find.simps) simp
qed

section \<open>Kruskal's algorithm\<close>

text \<open>Reference: take an edge when the edges taken so far do not connect its ends.\<close>

fun greedy_forest :: "graph_edge list \<Rightarrow> graph_edge list \<Rightarrow> graph_edge list" where
  "greedy_forest [] m = m"
| "greedy_forest (e # es) m = greedy_forest es (if labels m (ge_a e) = labels m (ge_b e) then m else m @ [e])"

definition represents :: "nat \<Rightarrow> nat list \<Rightarrow> graph_edge list \<Rightarrow> bool" where
  "represents n parent m \<longleftrightarrow> uf_ok n parent \<and>
     (\<forall>x < n. \<forall>y < n. (\<exists>r. uf_root parent x r \<and> uf_root parent y r) \<longleftrightarrow> labels m x = labels m y)"

lemma represents_join:
  assumes "represents n p m" "ge_a e < n" "ge_b e < n" "uf_root p (ge_a e) ra" "uf_root p (ge_b e) rb" "ra \<noteq> rb"
  shows "represents n (p[ra := rb]) (m @ [e])"
proof -
  have ok: "uf_ok n p" and rep: "\<And>x y. x < n \<Longrightarrow> y < n \<Longrightarrow> (\<exists>r. uf_root p x r \<and> uf_root p y r) \<longleftrightarrow> labels m x = labels m y"
    using assms(1) by (auto simp: represents_def)
  have below: "ra < n" "rb < n" using uf_root_below assms ok by blast+
  note red = redirect_root [OF ok below assms(6) uf_root_fixed [OF assms(4)] uf_root_fixed [OF assms(5)]]
  have ok': "uf_ok n (p[ra := rb])" using red by (intro uf_ok_update [OF ok below(2)]) blast
  have lab: "labels m x = labels m y \<longleftrightarrow> rx = ry" if "x < n" "y < n" "uf_root p x rx" "uf_root p y ry" for x y rx ry
    using rep [OF that(1,2)] that(3,4) uf_root_unique by metis
  have "(\<exists>r. uf_root (p[ra := rb]) x r \<and> uf_root (p[ra := rb]) y r) \<longleftrightarrow> labels (m @ [e]) x = labels (m @ [e]) y"
    if xy: "x < n" "y < n" for x y
  proof -
    obtain rx ry where r: "uf_root p x rx" "uf_root p y ry" using ok xy unfolding uf_ok_def by blast
    have "(\<exists>r. uf_root (p[ra := rb]) x r \<and> uf_root (p[ra := rb]) y r) \<longleftrightarrow>
        (if rx = ra then rb else rx) = (if ry = ra then rb else ry)"
      using red [OF r(1) xy(1)] red [OF r(2) xy(2)] by (auto dest: uf_root_unique)
    then show ?thesis
      using lab [OF xy r] lab [OF xy(1) assms(2) r(1) assms(4)] lab [OF xy(2) assms(2) r(2) assms(4)]
        lab [OF xy(1) assms(3) r(1) assms(5)] lab [OF xy(2) assms(3) r(2) assms(5)] assms(6)
      by (auto simp: labels_snoc join_labels_def)
  qed
  then show ?thesis using ok' by (simp add: represents_def)
qed

lemma kruskal_loop_greedy:
  "represents n p m \<Longrightarrow> edges_below n es \<Longrightarrow> kruskal_loop es p m = Some (greedy_forest es m)"
proof (induction es arbitrary: p m)
  case (Cons e es)
  have e: "ge_a e < n" "ge_b e < n" and es: "edges_below n es" using Cons.prems(2) by (simp_all add: edges_below_def)
  have ok: "uf_ok n p" using Cons.prems(1) by (simp add: represents_def)
  obtain ra rb where r: "uf_root p (ge_a e) ra" "uf_root p (ge_b e) rb" using ok e unfolding uf_ok_def by blast
  obtain p1 where p1: "uf_find p (ge_a e) = Some (ra, p1)" "uf_ok n p1" "\<forall>y < n. \<forall>z. uf_root p1 y z \<longleftrightarrow> uf_root p y z"
    using uf_find_root [OF r(1) ok e(1)] by blast
  obtain p2 where p2: "uf_find p1 (ge_b e) = Some (rb, p2)" "uf_ok n p2" "\<forall>y < n. \<forall>z. uf_root p2 y z \<longleftrightarrow> uf_root p1 y z"
    using uf_find_root [of p1 "ge_b e" rb n] p1(2,3) r(2) e(2) by blast
  have rep2: "represents n p2 m" using Cons.prems(1) p1(3) p2 by (simp add: represents_def)
  have same: "labels m (ge_a e) = labels m (ge_b e) \<longleftrightarrow> ra = rb"
    using Cons.prems(1) e r uf_root_unique unfolding represents_def by metis
  show ?case
  proof (cases "ra = rb")
    case True
    then show ?thesis using Cons.IH [OF rep2 es] p1(1) p2(1) same by simp
  next
    case False
    have "represents n (p2[ra := rb]) (m @ [e])"
      using represents_join [OF rep2 e] p1(3) p2(3) r e False by blast
    then show ?thesis using Cons.IH es p1(1) p2(1) same False by simp
  qed
qed simp

lemma represents_initial: "represents n [0..<n] []"
proof -
  have "uf_root [0..<n] x r \<longleftrightarrow> r = x" if "x < n" for x r
    using that by (auto elim: uf_root.cases intro: uf_root.is_root)
  then show ?thesis by (auto simp: represents_def uf_ok_def labels_def)
qed

lemma greedy_append: "greedy_forest (xs @ ys) m = greedy_forest ys (greedy_forest xs m)"
  by (induction xs arbitrary: m) simp_all

lemma greedy_extends: "\<exists>ks. greedy_forest es m = m @ ks \<and> set ks \<subseteq> set es"
proof (induction es arbitrary: m)
  case (Cons e es)
  obtain ks where "greedy_forest es (if labels m (ge_a e) = labels m (ge_b e) then m else m @ [e]) =
      (if labels m (ge_a e) = labels m (ge_b e) then m else m @ [e]) @ ks" "set ks \<subseteq> set es"
    using Cons by blast
  then show ?case by (auto split: if_splits)
qed simp

text \<open>The forest connects what the edges connect, with one edge for every component it removes.\<close>

lemma greedy_linked: "linked (greedy_forest es m) x y \<longleftrightarrow> linked (m @ es) x y"
proof (induction es arbitrary: m)
  case (Cons e es)
  show ?case
  proof (cases "labels m (ge_a e) = labels m (ge_b e)")
    case True
    have "linked (m @ es) x y" if "linked (m @ e # es) x y"
    proof -
      have "labels (m @ es) x = labels (m @ es) y"
      proof (rule linked_least [OF that])
        fix f assume "f \<in> set (m @ e # es)"
        then have "f = e \<or> f \<in> set (m @ es)" by auto
        moreover have "linked (m @ es) (ge_a e) (ge_b e)"
          by (rule linked_mono [where es = m]) (use True in \<open>auto simp: labels_linked\<close>)
        ultimately show "labels (m @ es) (ge_a f) = labels (m @ es) (ge_b f)"
          using linked_edge [of f "m @ es"] by (auto simp: labels_linked)
      qed
      then show ?thesis by (simp add: labels_linked)
    qed
    moreover have "linked (m @ es) x y \<Longrightarrow> linked (m @ e # es) x y" by (rule linked_mono) auto
    ultimately show ?thesis using Cons True by auto
  qed (use Cons in simp)
qed simp

lemma greedy_count:
  "edges_below n (m @ es) \<Longrightarrow> length m + components n m = n \<Longrightarrow>
    length (greedy_forest es m) + components n (greedy_forest es m) = n"
proof (induction es arbitrary: m)
  case (Cons e es)
  have e: "ge_a e < n" "ge_b e < n" using Cons.prems(1) by (simp_all add: edges_below_def)
  have "length (m @ [e]) + components n (m @ [e]) = n" if "labels m (ge_a e) \<noteq> labels m (ge_b e)"
    using components_snoc [OF e, of m] Cons.prems(2) that by (simp add: labels_linked)
  then show ?case using Cons by (simp add: edges_below_def)
qed simp

section \<open>Least weight\<close>

text \<open>Of two lists of non-negative numbers, the one with fewer entries above every bound has the lesser sum.\<close>

lemma sum_by_counts:
  fixes xs ys :: "real list"
  assumes "\<And>t. 0 \<le> t \<Longrightarrow> length (filter (\<lambda>x. t < x) xs) \<le> length (filter (\<lambda>x. t < x) ys)" "list_all (\<lambda>x. 0 \<le> x) xs" "list_all (\<lambda>x. 0 \<le> x) ys"
  shows "sum_list xs \<le> sum_list ys"
  using assms
proof (induction "length xs" arbitrary: xs ys)
  case 0
  then show ?case by (simp add: list_all_iff sum_list_nonneg)
next
  case (Suc k)
  define a where "a = Max (set xs)"
  have xs: "xs \<noteq> []" using Suc.hyps(2) by auto
  have a: "a \<in> set xs" "\<And>x. x \<in> set xs \<Longrightarrow> x \<le> a" using xs by (simp_all add: a_def)
  have a0: "0 \<le> a" using a(1) Suc.prems(2) by (simp add: list_all_iff)
  show ?case
  proof (cases "a = 0")
    case True
    then have "\<forall>x \<in> set xs. x = 0" using a(2) Suc.prems(2) by (force simp: list_all_iff)
    then have "sum_list xs = 0" by (induction xs) simp_all
    then show ?thesis using Suc.prems(3) by (simp add: list_all_iff sum_list_nonneg)
  next
    case False
    have "\<exists>b \<in> set ys. a \<le> b"
    proof (rule ccontr)
      assume "\<not> (\<exists>b \<in> set ys. a \<le> b)"
      then have below: "\<And>b. b \<in> set ys \<Longrightarrow> b < a" by force
      define t where "t = Max (insert 0 (set ys))"
      have t: "0 \<le> t" "t < a" using below a0 False by (auto simp: t_def)
      have "b \<le> t" if "b \<in> set ys" for b using that by (simp add: t_def)
      then have "filter (\<lambda>x. t < x) ys = []" by (simp add: filter_empty_conv not_less)
      moreover have "filter (\<lambda>x. t < x) xs \<noteq> []" using a(1) t(2) by (auto simp: filter_empty_conv)
      ultimately show False using Suc.prems(1) [OF t(1)] by simp
    qed
    then obtain b where b: "b \<in> set ys" "a \<le> b" by blast
    have drop: "length (filter P zs) = length (filter P (remove1 z zs)) + (if P z then 1 else 0)" if "z \<in> set zs" for z P and zs :: "real list"
      using that by (induction zs) auto
    have total: "sum_list zs = z + sum_list (remove1 z zs)" if "z \<in> set zs" for z and zs :: "real list"
      using that by (induction zs) auto
    have "length (filter (\<lambda>x. t < x) (remove1 a xs)) \<le> length (filter (\<lambda>x. t < x) (remove1 b ys))" if "0 \<le> t" for t
    proof (cases "t < a")
      case True
      then show ?thesis
        using Suc.prems(1) [OF that] drop [OF a(1), of "\<lambda>x. t < x"] drop [OF b(1), of "\<lambda>x. t < x"] b(2) by simp
    next
      case False
      then have "filter (\<lambda>x. t < x) (remove1 a xs) = []"
        using a(2) by (force simp: filter_empty_conv dest: notin_set_remove1)
      then show ?thesis by simp
    qed
    moreover have "length (remove1 a xs) = k" using Suc.hyps(2) a(1) by (simp add: length_remove1)
    moreover have "list_all (\<lambda>x. 0 \<le> x) (remove1 a xs)" "list_all (\<lambda>x. 0 \<le> x) (remove1 b ys)"
      using Suc.prems(2,3) by (auto simp: list_all_iff dest: notin_set_remove1)
    ultimately have "sum_list (remove1 a xs) \<le> sum_list (remove1 b ys)" using Suc.hyps(1) by blast
    then show ?thesis using total [OF a(1)] total [OF b(1)] b(2) by simp
  qed
qed

definition edge_weight :: "graph_edge \<Rightarrow> real" where
  "edge_weight e = (case ge_weight e of Fin w \<Rightarrow> w | _ \<Rightarrow> 0)"

definition weights_ok :: "graph_edge list \<Rightarrow> bool" where
  "weights_ok es \<longleftrightarrow> list_all (\<lambda>e. ge_weight e = Fin (edge_weight e) \<and> 0 \<le> edge_weight e) es"

lemma weights_sum: "weights_ok es \<Longrightarrow> jsum (map ge_weight es) = Fin (sum_list (map edge_weight es))"
proof -
  assume "weights_ok es"
  then have "map ge_weight es = map Fin (map edge_weight es)" by (simp add: weights_ok_def list_all_iff)
  then show ?thesis by (simp only: jsum_Fin)
qed

lemma sorted_split:
  fixes f :: "'a \<Rightarrow> real"
  shows "sorted_wrt (\<lambda>a b. f a \<le> f b) xs \<Longrightarrow> xs = filter (\<lambda>x. \<not> t < f x) xs @ filter (\<lambda>x. t < f x) xs"
proof (induction xs)
  case (Cons x xs)
  have "filter (\<lambda>x. \<not> t < f x) xs = []" if "t < f x" using that Cons.prems by (auto simp: filter_empty_conv)
  then show ?case using Cons by auto
qed simp

lemma edges_below_subset: "set fs \<subseteq> set es \<Longrightarrow> edges_below n es \<Longrightarrow> edges_below n fs"
  by (auto simp: edges_below_def list_all_iff)

lemma greedy_least:
  assumes es: "edges_below n es" "weights_ok es" "sorted_wrt (\<lambda>a b. edge_weight a \<le> edge_weight b) es"
    and S: "set S \<subseteq> set es" "\<And>x y. linked es x y \<Longrightarrow> linked S x y"
  shows "sum_list (map edge_weight (greedy_forest es [])) \<le> sum_list (map edge_weight S)"
proof (rule sum_by_counts)
  let ?M = "greedy_forest es []"
  have M: "set ?M \<subseteq> set es" using greedy_extends [of es "[]"] by auto
  show "list_all (\<lambda>x. 0 \<le> x) (map edge_weight ?M)" "list_all (\<lambda>x. 0 \<le> x) (map edge_weight S)"
    using M S(1) es(2) by (auto simp: weights_ok_def list_all_iff)
  fix t :: real assume "0 \<le> t"
  define low high where "low = filter (\<lambda>e. \<not> t < edge_weight e) es" and "high = filter (\<lambda>e. t < edge_weight e) es"
  have split: "es = low @ high" unfolding low_def high_def by (rule sorted_split [OF es(3)])
  obtain ks where ks: "?M = greedy_forest low [] @ ks" "set ks \<subseteq> set high"
    using greedy_extends [of high "greedy_forest low []"] split greedy_append [of low high "[]"] by auto
  have low: "set (greedy_forest low []) \<subseteq> set low" using greedy_extends [of low "[]"] by auto
  have "filter (\<lambda>e. t < edge_weight e) ?M = ks"
  proof -
    have "filter (\<lambda>e. t < edge_weight e) (greedy_forest low []) = []" using low by (auto simp: filter_empty_conv low_def)
    moreover have "filter (\<lambda>e. t < edge_weight e) ks = ks" using ks(2) by (auto simp: high_def intro!: filter_True)
    ultimately show ?thesis by (simp add: ks(1))
  qed
  moreover have "length ks + components n es = components n low"
  proof -
    have "length ?M + components n ?M = n" "length (greedy_forest low []) + components n (greedy_forest low []) = n"
      using es(1) edges_below_subset [of low es n] by (auto intro!: greedy_count simp: low_def)
    moreover have "components n ?M = components n es" "components n (greedy_forest low []) = components n low"
      by (rule components_cong, simp add: greedy_linked)+
    ultimately show ?thesis by (simp add: ks(1))
  qed
  moreover have "components n low \<le> components n es + length (filter (\<lambda>e. t < edge_weight e) S)"
  proof -
    let ?H = "filter (\<lambda>e. t < edge_weight e) S"
    have "edges_below n ?H" using S(1) es(1) by (intro edges_below_subset [of ?H es]) auto
    then have "components n low \<le> components n (low @ ?H) + length ?H" by (rule components_append)
    moreover have "components n (low @ ?H) = components n es"
    proof (rule components_cong)
      fix x y
      have "set S \<subseteq> set (low @ ?H)" "set (low @ ?H) \<subseteq> set es" using S(1) by (auto simp: low_def)
      then show "linked (low @ ?H) x y = linked es x y" using S(2) linked_mono by blast
    qed
    ultimately show ?thesis by simp
  qed
  ultimately show "length (filter (\<lambda>x. t < x) (map edge_weight ?M)) \<le> length (filter (\<lambda>x. t < x) (map edge_weight S))"
    by (simp add: filter_map comp_def)
qed

text \<open>
  C35: Kruskal's algorithm on edges between nodes below \<open>n\<close> with non-negative weights returns, the searches of the union-find array ending;
  the result is a forest of given edges, one edge for every component fewer, that links the nodes the edges link, and no set of given
  edges that links them has a lesser weight.
\<close>

theorem kruskal_minimum_spanning_forest:
  assumes "edges_below n edges" "weights_ok edges"
  shows "\<exists>mst. kruskalMST edges n = Some mst \<and> set mst \<subseteq> set edges \<and> length mst + components n edges = n \<and>
    (\<forall>x y. linked mst x y \<longleftrightarrow> linked edges x y) \<and>
    (\<forall>S. set S \<subseteq> set edges \<longrightarrow> (\<forall>x y. linked edges x y \<longrightarrow> linked S x y) \<longrightarrow>
      jsum (map ge_weight mst) \<le> jsum (map ge_weight S))"
proof -
  define es where "es = sort_by ge_weight edges"
  have set: "set es = set edges" by (simp add: es_def)
  have es: "edges_below n es" "weights_ok es" using assms set by (simp_all add: edges_below_def weights_ok_def list_all_iff)
  have "sorted_wrt (\<lambda>a b. ge_weight a \<le> ge_weight b) es"
    unfolding es_def by (rule sorted_sort_by) (use assms(2) in \<open>force simp: weights_ok_def list_all_iff\<close>)
  then have sorted: "sorted_wrt (\<lambda>a b. edge_weight a \<le> edge_weight b) es"
    by (rule sorted_wrt_mono_rel [rotated]) (use es(2) in \<open>force simp: weights_ok_def list_all_iff\<close>)
  define M where "M = greedy_forest es []"
  have M: "kruskalMST edges n = Some M" unfolding kruskalMST_def es_def [symmetric] M_def
    by (rule kruskal_loop_greedy [OF represents_initial es(1)])
  have sub: "set M \<subseteq> set edges" using greedy_extends [of es "[]"] set by (auto simp: M_def)
  have both: "linked es x y \<longleftrightarrow> linked edges x y" for x y using linked_mono [of es edges] linked_mono [of edges es] set by auto
  have link: "linked M x y \<longleftrightarrow> linked edges x y" for x y by (simp add: M_def greedy_linked both)
  have "length M + components n M = n" unfolding M_def using es(1) by (intro greedy_count) simp_all
  then have count: "length M + components n edges = n" using components_cong [of M edges n] link by simp
  have "jsum (map ge_weight M) \<le> jsum (map ge_weight S)"
    if "set S \<subseteq> set edges" "\<forall>x y. linked edges x y \<longrightarrow> linked S x y" for S
  proof -
    have "weights_ok M" "weights_ok S" using sub that(1) assms(2) by (auto simp: weights_ok_def list_all_iff)
    moreover have "sum_list (map edge_weight M) \<le> sum_list (map edge_weight S)"
      unfolding M_def using that by (intro greedy_least [OF es sorted]) (simp_all add: set both)
    ultimately show ?thesis by (simp add: weights_sum)
  qed
  then show ?thesis using M sub count link by blast
qed

theorem kruskal_minimum_spanning_forest_witness:
  "\<exists>mst. kruskalMST [\<lparr>ge_a = 0, ge_b = 1, ge_weight = Fin 2, ge_corr = 0\<rparr>, \<lparr>ge_a = 1, ge_b = 2, ge_weight = Fin 1, ge_corr = 0\<rparr>,
      \<lparr>ge_a = 0, ge_b = 2, ge_weight = Fin 1, ge_corr = 0\<rparr>] 3 = Some mst \<and>
    jsum (map ge_weight mst) \<le> jsum [Fin 2, Fin 1, Fin 1]"
proof -
  let ?E = "[\<lparr>ge_a = 0, ge_b = 1, ge_weight = Fin 2, ge_corr = 0\<rparr>, \<lparr>ge_a = 1, ge_b = 2, ge_weight = Fin 1, ge_corr = 0\<rparr>,
    \<lparr>ge_a = 0, ge_b = 2, ge_weight = Fin 1, ge_corr = 0\<rparr>]"
  obtain mst where "kruskalMST ?E 3 = Some mst"
    "\<forall>S. set S \<subseteq> set ?E \<longrightarrow> (\<forall>x y. linked ?E x y \<longrightarrow> linked S x y) \<longrightarrow> jsum (map ge_weight mst) \<le> jsum (map ge_weight S)"
    using kruskal_minimum_spanning_forest [of 3 ?E] by (auto simp: edges_below_def weights_ok_def edge_weight_def)
  then show ?thesis by (intro exI [of _ mst]) (auto dest: spec [of _ ?E])
qed

section \<open>The forest has no triangle\<close>

lemma node_pairs_iff: "(i, j) \<in> set (node_pairs n) \<longleftrightarrow> i < j \<and> j < n"
  by (force simp: node_pairs_def)

text \<open>No edge links nodes that the edges before it link already.\<close>

definition grown :: "graph_edge list \<Rightarrow> bool" where
  "grown m \<longleftrightarrow> (\<forall>k < length m. \<not> linked (take k m) (ge_a (m ! k)) (ge_b (m ! k)))"

lemma greedy_grown: "grown m \<Longrightarrow> grown (greedy_forest es m)"
proof (induction es arbitrary: m)
  case (Cons e es)
  have "grown (m @ [e])" if "labels m (ge_a e) \<noteq> labels m (ge_b e)"
    using Cons.prems that by (auto simp: grown_def nth_append labels_linked)
  then show ?case using Cons by simp
qed simp

definition joins :: "graph_edge \<Rightarrow> nat \<Rightarrow> nat \<Rightarrow> bool" where
  "joins e x y \<longleftrightarrow> (ge_a e = x \<and> ge_b e = y) \<or> (ge_a e = y \<and> ge_b e = x)"

lemma joins_linked: "e \<in> set es \<Longrightarrow> joins e x y \<Longrightarrow> linked es x y"
  using linked_edge [of e es] linked_sym by (auto simp: joins_def)

lemma grown_last:
  assumes "grown m" "i < length m" "j < i" "k < i" "joins (m ! i) x y" "joins (m ! j) y z" "joins (m ! k) z x"
  shows False
proof -
  have "m ! j \<in> set (take i m)" "m ! k \<in> set (take i m)"
    using assms(2-4) by (auto simp: in_set_conv_nth)
  then have "linked (take i m) y z" "linked (take i m) z x" using assms(6,7) joins_linked by blast+
  then have "linked (take i m) y x" by (rule linked_trans)
  then have "linked (take i m) (ge_a (m ! i)) (ge_b (m ! i))"
    using assms(5) linked_sym [of "take i m" y x] by (auto simp: joins_def)
  then show False using assms(1,2) by (simp add: grown_def)
qed

lemma joins_commute: "joins e x y = joins e y x"
  by (auto simp: joins_def)

lemma grown_no_triangle:
  assumes "grown m" "e \<in> set m" "f \<in> set m" "g \<in> set m" "joins e x y" "joins f y z" "joins g z x" "x \<noteq> y" "y \<noteq> z" "z \<noteq> x"
  shows False
proof -
  obtain i j k where i: "i < length m" "m ! i = e" and j: "j < length m" "m ! j = f" and k: "k < length m" "m ! k = g"
    using assms(2-4) by (auto simp: in_set_conv_nth)
  have "i \<noteq> j" "j \<noteq> k" "i \<noteq> k" using assms i(2) j(2) k(2) by (auto simp: joins_def)
  then consider "j < i" "k < i" | "i < j" "k < j" | "i < k" "j < k" by linarith
  then show False
  proof cases
    case 1
    then show ?thesis using grown_last [OF assms(1) i(1), of j k x y z] assms(5-7) i j k by simp
  next
    case 2
    then show ?thesis using grown_last [OF assms(1) j(1), of k i y z x] assms(5-7) i j k by simp
  next
    case 3
    then show ?thesis using grown_last [OF assms(1) k(1), of i j z x y] assms(5-7) i j k by simp
  qed
qed

lemma neighbours_of_spec: "distinct (neighbours_of es i) \<and> (\<forall>v. v \<in> set (neighbours_of es i) \<longleftrightarrow> (\<exists>e \<in> set es. joins e i v))"
proof -
  define step where "step = (\<lambda>ns (e :: graph_edge).
    let ns1 = (if ge_a e = i \<and> ge_b e \<notin> set ns then ns @ [ge_b e] else ns)
    in if ge_b e = i \<and> ge_a e \<notin> set ns1 then ns1 @ [ge_a e] else ns1)"
  have "distinct (foldl step [] es) \<and> set (foldl step [] es) = {v. \<exists>e \<in> set es. joins e i v}"
  proof (induction es rule: rev_induct)
    case (snoc e es)
    let ?ns = "foldl step [] es"
    have "distinct (step ?ns e) \<and> set (step ?ns e) = set ?ns \<union> {v. joins e i v}"
      using snoc by (auto simp: step_def Let_def joins_def)
    then show ?case using snoc by auto
  qed simp
  then show ?thesis unfolding neighbours_of_def step_def by auto
qed

lemma clustering_of_forest: "grown m \<Longrightarrow> clusteringCoeff m n = replicate n 0"
proof -
  assume g: "grown m"
  have "filter (\<lambda>(a, b). neighbours_of m i ! b \<in> set (neighbours_of m (neighbours_of m i ! a))) (node_pairs (length (neighbours_of m i))) = []"
    (is "filter ?P (node_pairs ?k) = []") for i
  proof -
    let ?ns = "neighbours_of m i"
    have False if ab: "(a, b) \<in> set (node_pairs ?k)" "?ns ! b \<in> set (neighbours_of m (?ns ! a))" for a b
    proof -
      have lt: "a < b" "b < ?k" using ab(1) by (simp_all add: node_pairs_iff)
      define u v where "u = ?ns ! a" and "v = ?ns ! b"
      have "u \<in> set ?ns" "v \<in> set ?ns" using lt by (simp_all add: u_def v_def)
      then obtain e f h where e: "e \<in> set m" "joins e i u" and f: "f \<in> set m" "joins f i v" and h: "h \<in> set m" "joins h u v"
        using ab(2) neighbours_of_spec [of m] by (auto simp: u_def [symmetric] v_def [symmetric])
      have "u \<noteq> v" using lt neighbours_of_spec [of m i] by (simp add: u_def v_def nth_eq_iff_index_eq)
      moreover have "\<not> joins x w w" if x: "x \<in> set m" for x w
      proof
        assume "joins x w w"
        moreover obtain k where "k < length m" "m ! k = x" using x by (auto simp: in_set_conv_nth)
        ultimately show False using g by (auto simp: grown_def joins_def)
      qed
      then have "i \<noteq> u" "i \<noteq> v" using e f by auto
      ultimately show False
        using grown_no_triangle [OF g e(1) h(1) f(1) e(2) h(2)] f(2) joins_commute by metis
    qed
    then show ?thesis by (auto simp: filter_empty_conv)
  qed
  then have "clusteringCoeff m n = map (\<lambda>i. if length (neighbours_of m i) < 2 then 0
      else 2 * jnat 0 / (jnat (length (neighbours_of m i)) * (jnat (length (neighbours_of m i)) - 1))) [0..<n]"
    unfolding clusteringCoeff_def Let_def by simp
  also have "\<dots> = map (\<lambda>_. 0) [0..<n]" by (rule map_cong) (auto simp: zero_jsnum_def)
  finally show ?thesis by (simp add: map_replicate_const)
qed

text \<open>
  On the complete graph of the panel the tree always spans all symbols with one edge fewer than symbols, whatever the correlations; and
  its clustering coefficients are all 0, so the figure the panel computes on the tree tells nothing.
\<close>

theorem correlation_tree:
  "\<exists>mst. kruskalMST (correlation_edges corr (Suc m)) (Suc m) = Some mst \<and> length mst = m \<and>
    (\<forall>x < Suc m. \<forall>y < Suc m. linked mst x y) \<and> clusteringCoeff mst (Suc m) = replicate (Suc m) 0"
proof -
  let ?n = "Suc m"
  define edges where "edges = correlation_edges corr ?n"
  define es where "es = sort_by ge_weight edges"
  have set: "set es = set edges" by (simp add: es_def)
  have "edges_below ?n edges" by (auto simp: edges_def correlation_edges_def edges_below_def list_all_iff node_pairs_iff)
  then have below: "edges_below ?n es" using set by (simp add: edges_below_def list_all_iff)
  have res: "kruskalMST edges ?n = Some (greedy_forest es [])" unfolding kruskalMST_def es_def [symmetric]
    by (rule kruskal_loop_greedy [OF represents_initial below])
  have all: "linked es x y" if "x < ?n" "y < ?n" for x y
  proof -
    have pair: "linked es i j" if "i < j" "j < ?n" for i j
    proof -
      have "(i, j) \<in> set (node_pairs ?n)" using that by (simp add: node_pairs_iff)
      then obtain e where "e \<in> set es" "joins e i j" using set by (force simp: edges_def correlation_edges_def joins_def)
      then show ?thesis by (rule joins_linked)
    qed
    show ?thesis using pair [of x y] pair [of y x] that linked_sym by (cases x y rule: linorder_cases) auto
  qed
  have "labels es ` {..<?n} = (\<lambda>_. labels es 0) ` {..<?n}"
    by (rule image_cong) (use all in \<open>simp_all add: labels_linked\<close>)
  moreover have "(\<lambda>_. labels es 0) ` {..<?n} = {labels es 0}" by auto
  ultimately have "components ?n es = 1" by (simp add: components_def)
  moreover have "length (greedy_forest es []) + components ?n (greedy_forest es []) = ?n" using below by (intro greedy_count) simp_all
  moreover have "components ?n (greedy_forest es []) = components ?n es" by (rule components_cong) (simp add: greedy_linked)
  moreover have "clusteringCoeff (greedy_forest es []) ?n = replicate ?n 0"
    by (intro clustering_of_forest greedy_grown) (simp add: grown_def)
  ultimately show ?thesis using all res unfolding edges_def [symmetric] by (simp add: greedy_linked)
qed

section \<open>The searches end\<close>

text \<open>Parents were visited before their children: \<open>rank\<close> is the time of the visit.\<close>

definition search_ok :: "nat \<Rightarrow> (nat \<Rightarrow> nat) \<Rightarrow> nat \<Rightarrow> bfs_state \<Rightarrow> bool" where
  "search_ok n rank k st \<longleftrightarrow> (case st of (vis, par, queue) \<Rightarrow>
     length vis = n \<and> length par = n \<and> (\<forall>x \<in> set queue. x < n \<and> vis ! x) \<and> (\<forall>x < n. vis ! x \<longrightarrow> rank x < k) \<and>
     (\<forall>v < n. \<forall>u. par ! v = Some u \<longrightarrow> u < n \<and> vis ! u \<and> rank u < rank v))"

lemma visit_ok:
  assumes "search_ok n rank k st" "u < n" "fst st ! u"
  shows "\<exists>rank' k'. search_ok n rank' k' (visit_neighbour u st v) \<and> fst (visit_neighbour u st v) ! u"
proof -
  obtain vis par q where st: "st = (vis, par, q)" by (cases st)
  note s = assms [unfolded st search_ok_def prod.case]
  show ?thesis
  proof (cases "v < length vis \<and> \<not> vis ! v")
    case True
    have v: "v < n" "\<not> vis ! v" "v \<noteq> u" using True s by auto
    have step: "visit_neighbour u st v = (vis[v := True], par[v := Some u], q @ [v])" using True by (simp add: st visit_neighbour_def)
    have "search_ok n (rank(v := k)) (Suc k) (vis[v := True], par[v := Some u], q @ [v])"
      unfolding search_ok_def prod.case
    proof (intro conjI allI impI ballI)
      fix x z assume "x < n" "par[v := Some u] ! x = Some z"
      then have "x = v \<and> z = u \<or> x \<noteq> v \<and> par ! x = Some z" using s v by (auto simp: nth_list_update split: if_splits)
      then have z: "z < n \<and> vis ! z \<and> (x = v \<and> rank z < k \<or> x \<noteq> v \<and> rank z < rank x)" using s v \<open>x < n\<close> by auto
      then show "z < n" by simp
      show "vis[v := True] ! z" using z s v by (auto simp: nth_list_update)
      show "(rank(v := k)) z < (rank(v := k)) x" using z v by auto
    qed (use s v in \<open>auto simp: nth_list_update less_Suc_eq split: if_splits\<close>)
    then show ?thesis using step s v by (auto simp: nth_list_update intro!: exI [of _ "rank(v := k)"] exI [of _ "Suc k"])
  next
    case False
    then have "visit_neighbour u st v = st" by (auto simp: st visit_neighbour_def)
    then show ?thesis using assms by auto
  qed
qed

lemma visit_all_ok:
  "search_ok n rank k st \<Longrightarrow> u < n \<Longrightarrow> fst st ! u \<Longrightarrow> \<exists>rank' k'. search_ok n rank' k' (foldl (visit_neighbour u) st vs)"
proof (induction vs arbitrary: rank k st)
  case (Cons v vs)
  obtain rank' k' where "search_ok n rank' k' (visit_neighbour u st v)" "fst (visit_neighbour u st v) ! u"
    using visit_ok [OF Cons.prems] by blast
  then show ?case using Cons.IH Cons.prems(2) by simp
qed auto

lemma bfs_parents_ok:
  "search_ok n rank k (vis, par, queue) \<Longrightarrow>
    \<exists>rank' k' vis' q'. search_ok n rank' k' (vis', bfs_parents adj t vis par queue, q')"
proof (induction adj t vis par queue arbitrary: rank k rule: bfs_parents.induct)
  case (2 adj t vis par u queue)
  have u: "u < n" "vis ! u" and ok: "search_ok n rank k (vis, par, queue)" using 2(2) by (auto simp: search_ok_def)
  obtain rank' k' where "search_ok n rank' k' (foldl (visit_neighbour u) (vis, par, queue) (adj ! u))"
    using visit_all_ok [OF ok u(1), of "adj ! u"] u(2) by auto
  then show ?case using 2 by (auto split: prod.splits)
qed auto

lemma backtrack_ends:
  assumes "search_ok n rank k (vis, par, q)"
  shows "case u of None \<Rightarrow> True | Some x \<Rightarrow> x < n \<Longrightarrow> \<exists>c. backtrack par s t u counts = Some c \<and> length c = length counts"
proof (induction "case u of None \<Rightarrow> 0 | Some x \<Rightarrow> Suc (rank x)" arbitrary: u counts rule: less_induct)
  case less
  show ?case
  proof (cases u)
    case None
    then show ?thesis by (subst backtrack.simps) simp
  next
    case (Some x)
    show ?thesis
    proof (cases "x = s")
      case True
      then show ?thesis using Some by (subst backtrack.simps) simp
    next
      case False
      have "case par ! x of None \<Rightarrow> True | Some y \<Rightarrow> y < n \<and> rank y < rank x"
        using assms less.prems Some by (auto simp: search_ok_def split: option.splits)
      then have "\<exists>c. backtrack par s t (par ! x) (if x \<noteq> t then counts[x := counts ! x + 1] else counts) = Some c \<and>
          length c = length (if x \<noteq> t then counts[x := counts ! x + 1] else counts)"
        using Some by (intro less.hyps) (auto split: option.splits)
      then show ?thesis using Some False by (subst backtrack.simps) (auto split: if_splits)
    qed
  qed
qed

lemma count_path_ends:
  assumes "s < n" "t < n"
  shows "\<exists>c. count_path adj n (s, t) counts = Some c \<and> length c = length counts"
proof -
  have "search_ok n (\<lambda>_. 0) 1 ((replicate n False)[s := True], replicate n None, [s])"
    using assms by (auto simp: search_ok_def nth_list_update)
  then obtain rank k vis q where
    "search_ok n rank k (vis, bfs_parents adj t ((replicate n False)[s := True]) (replicate n None) [s], q)"
    using bfs_parents_ok by blast
  then show ?thesis unfolding count_path_def prod.case Let_def by (rule backtrack_ends) (simp add: assms)
qed

lemma count_paths_end:
  "list_all (\<lambda>(s, t). s < n \<and> t < n) ps \<Longrightarrow> \<exists>c. count_paths adj n ps counts = Some c \<and> length c = length counts"
proof (induction ps arbitrary: counts)
  case (Cons p ps)
  obtain s t where p: "p = (s, t)" "s < n" "t < n" using Cons.prems by (cases p) auto
  obtain c where c: "count_path adj n (s, t) counts = Some c" "length c = length counts" using count_path_ends p by blast
  obtain d where "count_paths adj n ps c = Some d" "length d = length c" using Cons.IH Cons.prems by auto
  then show ?case using c p by auto
qed simp

text \<open>The panel always returns: no search of the union-find array or of a path runs forever.\<close>

theorem network_panel_returns: "network_panel candles exchange symbols lookback edgeThreshold \<noteq> None"
proof -
  define valid where "valid = asset_returns (group_candles candles exchange) lookback (case symbols of None \<Rightarrow> [] | Some xs \<Rightarrow> xs)"
  have betw: "betweennessCentrality es n \<noteq> None" for es n
  proof -
    have "list_all (\<lambda>(s, t). s < n \<and> t < n) (node_pairs n)" by (auto simp: list_all_iff node_pairs_iff)
    then obtain c where "count_paths (adjacency_lists es n) n (node_pairs n) (replicate n 0) = Some c"
      using count_paths_end by blast
    then show ?thesis by (simp add: betweennessCentrality_def Let_def)
  qed
  show ?thesis
  proof (cases "length valid < 3")
    case False
    then obtain m where m: "length valid = Suc m" by (cases "length valid") auto
    obtain mst where "kruskalMST (correlation_edges (correlationMatrix (map snd valid)) (Suc m)) (Suc m) = Some mst"
      using correlation_tree by blast
    moreover obtain b where "betweennessCentrality mst (Suc m) = Some b" using betw by blast
    ultimately show ?thesis unfolding network_panel_def Let_def valid_def [symmetric] m by simp
  qed (simp add: network_panel_def Let_def valid_def)
qed

section \<open>The hub of three symbols\<close>

definition path_matrix :: matrix where
  "path_matrix = [[0, 1, 0], [1, 0, 1], [0, 1, 0]]"

lemma path_power_step:
  assumes "0 < a" "0 < b"
  defines "N \<equiv> sqrt (2 * b ^ 2 + 4 * a ^ 2)"
  shows "power_step path_matrix [Fin a, Fin b, Fin a] = [Fin (b / N), Fin (2 * a / N), Fin (b / N)]"
proof -
  have sums: "map (\<lambda>i. for_loop 0 3 (\<lambda>j s. s + entry path_matrix i j * rd [Fin a, Fin b, Fin a] j) 0) [0..<3] = [Fin b, Fin (2 * a), Fin b]"
    by (simp add: upt_conv_Cons for_loop_def entry_def rd_def path_matrix_def zero_jsnum_def one_jsnum_def numeral_3_eq_3)
  have "2 * b ^ 2 + 4 * a ^ 2 = b * b + 2 * a * (2 * a) + b * b" by (simp add: power2_eq_square)
  moreover have "0 < 2 * b ^ 2 + 4 * a ^ 2" using assms by (simp add: add_pos_pos)
  ultimately have norm: "jsqrt (jsum (map (\<lambda>x. x * x) [Fin b, Fin (2 * a), Fin b])) = Fin N" "N \<noteq> 0"
    by (simp_all add: N_def jsum_def)
  have len: "length path_matrix = 3" by (simp add: path_matrix_def)
  show ?thesis
    unfolding power_step_def Let_def len sums norm(1) using norm(2) by (simp add: jor_def truthy_def)
qed

lemma path_two_steps:
  assumes "0 < k"
  shows "power_step path_matrix (power_step path_matrix (replicate 3 (Fin k))) = replicate 3 (Fin (1 / sqrt 3))"
proof -
  have three: "replicate 3 x = [x, x, x]" for x :: jsnum by (simp add: numeral_3_eq_3)
  have n1: "sqrt (2 * k ^ 2 + 4 * k ^ 2) = sqrt 6 * k" using assms by (simp add: real_sqrt_mult)
  have h: "k / (sqrt 6 * k) = 1 / sqrt 6" "2 * k / (sqrt 6 * k) = 2 / sqrt 6" using assms by simp_all
  have n2: "sqrt (2 * (2 / sqrt 6) ^ 2 + 4 * (1 / sqrt 6) ^ 2) = sqrt 2" by (simp add: power_divide)
  have "sqrt 6 * sqrt 2 = sqrt (2 ^ 2 * 3)" by (simp flip: real_sqrt_mult)
  also have "\<dots> = 2 * sqrt 3" unfolding real_sqrt_mult real_sqrt_abs by simp
  finally have s: "2 / sqrt 6 / sqrt 2 = 1 / sqrt 3" "2 * (1 / sqrt 6) / sqrt 2 = 1 / sqrt 3" by simp_all
  show ?thesis
    unfolding three path_power_step [OF assms assms] n1 h
    by (subst path_power_step) (simp_all only: n2 s zero_less_divide_iff, simp_all)
qed

text \<open>
  The tree of three symbols is a path, and the power iteration on it oscillates with period 2: after the 100 steps of the panel, and after
  any other even number, the middle symbol has the same centrality as the two ends.
\<close>

theorem hub_centrality_lost:
  "eigenvectorCentrality (tree_matrix [\<lparr>ge_a = 0, ge_b = 1, ge_weight = w, ge_corr = r\<rparr>,
      \<lparr>ge_a = 1, ge_b = 2, ge_weight = w', ge_corr = r'\<rparr>] 3) (2 * Suc m) = replicate 3 (Fin (1 / sqrt 3))"
proof -
  have path: "tree_matrix [\<lparr>ge_a = 0, ge_b = 1, ge_weight = w, ge_corr = r\<rparr>, \<lparr>ge_a = 1, ge_b = 2, ge_weight = w', ge_corr = r'\<rparr>] 3 = path_matrix"
    by (simp add: tree_matrix_def path_matrix_def numeral_3_eq_3 Let_def numeral_2_eq_2)
  have "(power_step path_matrix ^^ (2 * Suc m)) (replicate 3 (Fin k)) = replicate 3 (Fin (1 / sqrt 3))" if "0 < k" for k
    using that
  proof (induction m arbitrary: k)
    case 0
    then show ?case using path_two_steps by (simp add: numeral_2_eq_2)
  next
    case (Suc m)
    have "(power_step path_matrix ^^ (2 * Suc (Suc m))) (replicate 3 (Fin k)) =
        (power_step path_matrix ^^ (2 * Suc m)) (power_step path_matrix (power_step path_matrix (replicate 3 (Fin k))))"
      by (simp add: funpow_swap1)
    then show ?case using path_two_steps [OF Suc.prems] Suc.IH by simp
  qed
  from this [of "1 / 3"] have "(power_step path_matrix ^^ (2 * Suc m)) (replicate 3 (Fin (1 / 3))) = replicate 3 (Fin (1 / sqrt 3))" by simp
  moreover have "replicate (length path_matrix) (1 / jnat (length path_matrix)) = replicate 3 (Fin (1 / 3))"
    by (simp add: path_matrix_def one_jsnum_def numeral_3_eq_3)
  ultimately show ?thesis unfolding path eigenvectorCentrality_def by simp
qed

end
