(* ===== verification/PanelContext.thy ===== *)
theory PanelContext
  imports Interfaces
begin

text \<open>
  How live data reaches a sidebar panel: the exchange and signal hooks (\<open>hooks/useExchangeData.js\<close>,
  \<open>hooks/useSignalData.js\<close>, in mock mode \<open>hooks/useMockData.js\<close>) return objects,
  \<open>hooks/useTradingStoreSync.js\<close> and the effect of \<open>hooks/useChartCandles.js\<close> copy their fields into the
  Zustand store \<open>stores/useTradingStore.js\<close>, \<open>stores/usePanelContext.js\<close> builds from the stores the
  context that each panel's props builder reads. JavaScript objects are association lists from
  property names; reading a property that is missing gives \<open>Undef\<close>, and reading one of \<open>undefined\<close>
  or \<open>null\<close> throws (\<open>None\<close>).
\<close>

section \<open>Values\<close>

datatype 'f jsval =
    Data json
  | Func 'f
  | Obj "(string \<times> 'f jsval) list"
  | Undef
  | AlertCallback "'f jsval"

text \<open>\<open>AlertCallback ctx\<close> is the closure \<open>(alert) => ctx.addToast(...)\<close> of the price alert panel.\<close>

type_synonym 'f obj = "(string \<times> 'f jsval) list"

definition field :: "'f obj \<Rightarrow> string \<Rightarrow> 'f jsval" where
  "field ob k = (case map_get ob k of None \<Rightarrow> Undef | Some v \<Rightarrow> v)"

fun access :: "'f jsval \<Rightarrow> string \<Rightarrow> 'f jsval option" where
  "access (Obj ob) k = Some (field ob k)"
| "access (Data (JObj ob)) k = Some (case map_of ob k of None \<Rightarrow> Undef | Some j \<Rightarrow> Data j)"
| "access (Data (JArr xs)) k = Some (if k = ''length'' then Data (JNum (real (length xs))) else Undef)"
| "access (Data (JStr s)) k = Some (if k = ''length'' then Data (JNum (real (length s))) else Undef)"
| "access (Data JNull) k = None"
| "access Undef k = None"
| "access _ k = Some Undef"

text \<open>Optional chaining, \<open>v?.k\<close>.\<close>

definition opt_access :: "'f jsval \<Rightarrow> string \<Rightarrow> 'f jsval option" where
  "opt_access v k = (if v = Undef \<or> v = Data JNull then Some Undef else access v k)"

fun truthy_val :: "'f jsval \<Rightarrow> bool" where
  "truthy_val Undef = False"
| "truthy_val (Data JNull) = False"
| "truthy_val (Data (JBool b)) = b"
| "truthy_val (Data (JNum x)) = (x \<noteq> 0)"
| "truthy_val (Data (JStr s)) = (s \<noteq> [])"
| "truthy_val _ = True"

section \<open>The trading store\<close>

text \<open>Zustand's \<open>set(data)\<close> merges the object into the state, one level deep; the three setters of the store
  are all \<open>set\<close> itself and are left out of its state.\<close>

definition set_state :: "'f obj \<Rightarrow> 'f obj \<Rightarrow> 'f obj" where
  "set_state data st = run_writes map_set map_delete (map (\<lambda>(k, v). (k, Some v)) data) st"

definition trading_store_init :: "'f obj" where
  "trading_store_init =
    [(''candles'', Data (JArr [])), (''prices'', Data (JObj [])), (''accounts'', Data (JObj [])),
     (''arbitrage'', Data JNull), (''fills'', Data (JArr [])), (''auditLogs'', Data (JArr [])),
     (''lastError'', Data JNull), (''orderbooks'', Data (JObj [])), (''fundingRates'', Data (JObj [])),
     (''candlesToFunding'', Data JNull), (''newsEvent'', Data JNull),
     (''weekendMode'', Data (JBool False)), (''replayPaused'', Data (JBool False)),
     (''tradingActive'', Data (JBool True)), (''optionsChain'', Data JNull),
     (''exchangeConnected'', Data (JBool False)), (''exchangeLatency'', Data (JNum 0)),
     (''exchangeReconnects'', Data (JNum 0)), (''exchangeNextReconnectIn'', Data JNull),
     (''openOrders'', Data (JObj [])), (''submitOrder'', Data JNull), (''closePosition'', Data JNull),
     (''cancelOrder'', Data JNull), (''cancelAllOrders'', Data JNull),
     (''exchangeConnect'', Data JNull), (''requestOptionsChain'', Data JNull),
     (''sendSpeedChange'', Data JNull), (''sendConfigUpdate'', Data JNull),
     (''toggleReplay'', Data JNull), (''scrubReplay'', Data JNull), (''startTrading'', Data JNull),
     (''stopTrading'', Data JNull), (''signals'', Data (JArr [])), (''regime'', Data JNull),
     (''backtestResult'', Data JNull), (''circuitBreaker'', Data JNull),
     (''portfolioResult'', Data JNull), (''volSurfaceResult'', Data JNull),
     (''cvarResult'', Data JNull), (''stressTestResult'', Data JNull),
     (''positionSizeResult'', Data JNull), (''hawkesResult'', Data JNull),
     (''fundingArbResult'', Data JNull), (''authState'', Data JNull),
     (''signalConnected'', Data (JBool False)), (''signalLatency'', Data (JNum 0)),
     (''signalNextReconnectIn'', Data JNull), (''sendSignalMessage'', Data JNull),
     (''signalConnect'', Data JNull), (''chartCandles'', Data (JArr [])),
     (''currentPrice'', Data (JNum 0)), (''priceChange'', Data (JNum 0))]"

text \<open>What the two hooks return, by name, in real and in mock mode.\<close>

definition exchange_hook_keys :: "string list" where
  "exchange_hook_keys =
    [''candles'', ''prices'', ''accounts'', ''arbitrage'', ''fills'', ''auditLogs'', ''orderbooks'',
     ''fundingRates'', ''candlesToFunding'', ''newsEvent'', ''weekendMode'', ''replayPaused'',
     ''tradingActive'', ''optionsChain'', ''lastError'', ''openOrders'', ''connected'', ''latency'',
     ''reconnects'', ''connect'', ''nextReconnectIn'', ''submitOrder'', ''cancelOrder'',
     ''cancelAllOrders'', ''closePosition'', ''requestOptionsChain'', ''sendSpeedChange'',
     ''sendConfigUpdate'', ''toggleReplay'', ''scrubReplay'', ''startTrading'', ''stopTrading'']"

definition signal_hook_keys :: "string list" where
  "signal_hook_keys =
    [''signals'', ''regime'', ''backtestResult'', ''circuitBreaker'', ''portfolioResult'',
     ''volSurfaceResult'', ''cvarResult'', ''stressTestResult'', ''positionSizeResult'',
     ''hawkesResult'', ''fundingArbResult'', ''authState'', ''connected'', ''sendSignalMessage'',
     ''latency'', ''connect'', ''nextReconnectIn'']"

definition mock_exchange_keys :: "string list" where
  "mock_exchange_keys =
    [''candles'', ''prices'', ''accounts'', ''arbitrage'', ''fills'', ''orderbooks'', ''fundingRates'',
     ''candlesToFunding'', ''newsEvent'', ''weekendMode'', ''replayPaused'', ''tradingActive'',
     ''auditLogs'', ''optionsChain'', ''lastError'', ''openOrders'', ''connected'', ''latency'',
     ''reconnects'', ''connect'', ''nextReconnectIn'', ''submitOrder'', ''closePosition'',
     ''sendSpeedChange'', ''sendConfigUpdate'', ''cancelOrder'', ''cancelAllOrders'',
     ''requestOptionsChain'', ''toggleReplay'', ''scrubReplay'', ''startTrading'', ''stopTrading'']"

definition mock_signal_keys :: "string list" where
  "mock_signal_keys =
    [''signals'', ''regime'', ''backtestResult'', ''circuitBreaker'', ''portfolioResult'',
     ''volSurfaceResult'', ''cvarResult'', ''stressTestResult'', ''positionSizeResult'',
     ''hawkesResult'', ''fundingArbResult'', ''authState'', ''connected'', ''sendSignalMessage'',
     ''latency'', ''connect'', ''nextReconnectIn'']"

text \<open>The object a hook returns when the value of its field \<open>k\<close> is \<open>h k\<close>.\<close>

definition hook_object :: "string list \<Rightarrow> (string \<Rightarrow> 'f jsval) \<Rightarrow> 'f obj" where
  "hook_object keys h = map (\<lambda>k. (k, h k)) keys"

text \<open>The two effects of \<open>useTradingStoreSync\<close>: store field, hook field.\<close>

definition exchange_sync_fields :: "(string \<times> string) list" where
  "exchange_sync_fields =
    [(''candles'', ''candles''), (''prices'', ''prices''), (''accounts'', ''accounts''),
     (''arbitrage'', ''arbitrage''), (''fills'', ''fills''), (''auditLogs'', ''auditLogs''),
     (''lastError'', ''lastError''), (''orderbooks'', ''orderbooks''),
     (''fundingRates'', ''fundingRates''), (''candlesToFunding'', ''candlesToFunding''),
     (''newsEvent'', ''newsEvent''), (''weekendMode'', ''weekendMode''),
     (''replayPaused'', ''replayPaused''), (''tradingActive'', ''tradingActive''),
     (''optionsChain'', ''optionsChain''), (''exchangeConnected'', ''connected''),
     (''exchangeLatency'', ''latency''), (''submitOrder'', ''submitOrder''),
     (''closePosition'', ''closePosition''), (''openOrders'', ''openOrders''),
     (''cancelOrder'', ''cancelOrder''), (''cancelAllOrders'', ''cancelAllOrders''),
     (''exchangeReconnects'', ''reconnects''), (''exchangeConnect'', ''connect''),
     (''exchangeNextReconnectIn'', ''nextReconnectIn''),
     (''requestOptionsChain'', ''requestOptionsChain''), (''sendSpeedChange'', ''sendSpeedChange''),
     (''sendConfigUpdate'', ''sendConfigUpdate''), (''toggleReplay'', ''toggleReplay''),
     (''scrubReplay'', ''scrubReplay''), (''startTrading'', ''startTrading''),
     (''stopTrading'', ''stopTrading'')]"

definition signal_sync_fields :: "(string \<times> string) list" where
  "signal_sync_fields =
    [(''signals'', ''signals''), (''regime'', ''regime''), (''backtestResult'', ''backtestResult''),
     (''circuitBreaker'', ''circuitBreaker''), (''portfolioResult'', ''portfolioResult''),
     (''volSurfaceResult'', ''volSurfaceResult''), (''cvarResult'', ''cvarResult''),
     (''stressTestResult'', ''stressTestResult''), (''positionSizeResult'', ''positionSizeResult''),
     (''hawkesResult'', ''hawkesResult''), (''fundingArbResult'', ''fundingArbResult''),
     (''authState'', ''authState''), (''signalConnected'', ''connected''),
     (''signalLatency'', ''latency''), (''sendSignalMessage'', ''sendSignalMessage''),
     (''signalConnect'', ''connect''), (''signalNextReconnectIn'', ''nextReconnectIn'')]"

definition copy_fields :: "(string \<times> string) list \<Rightarrow> 'f obj \<Rightarrow> 'f obj" where
  "copy_fields tab ob = map (\<lambda>(k, h). (k, field ob h)) tab"

definition useTradingStoreSync :: "'f obj \<Rightarrow> 'f obj \<Rightarrow> 'f obj \<Rightarrow> 'f obj" where
  "useTradingStoreSync exchange signals st =
     set_state (copy_fields signal_sync_fields signals)
       (set_state (copy_fields exchange_sync_fields exchange) st)"

definition sync_chart_candles :: "'f jsval \<Rightarrow> 'f jsval \<Rightarrow> 'f jsval \<Rightarrow> 'f obj \<Rightarrow> 'f obj" where
  "sync_chart_candles chartCandles currentPrice priceChange st =
     set_state [(''chartCandles'', chartCandles), (''currentPrice'', currentPrice), (''priceChange'', priceChange)] st"

section \<open>The panel context\<close>

definition context_exchange_fields :: "(string \<times> string) list" where
  "context_exchange_fields =
    [(''candles'', ''candles''), (''prices'', ''prices''), (''accounts'', ''accounts''),
     (''arbitrage'', ''arbitrage''), (''fills'', ''fills''), (''auditLogs'', ''auditLogs''),
     (''lastError'', ''lastError''), (''orderbooks'', ''orderbooks''),
     (''fundingRates'', ''fundingRates''), (''candlesToFunding'', ''candlesToFunding''),
     (''newsEvent'', ''newsEvent''), (''weekendMode'', ''weekendMode''),
     (''replayPaused'', ''replayPaused''), (''tradingActive'', ''tradingActive''),
     (''optionsChain'', ''optionsChain''), (''connected'', ''exchangeConnected''),
     (''latency'', ''exchangeLatency''), (''reconnects'', ''exchangeReconnects''),
     (''nextReconnectIn'', ''exchangeNextReconnectIn''), (''openOrders'', ''openOrders''),
     (''submitOrder'', ''submitOrder''), (''closePosition'', ''closePosition''),
     (''cancelOrder'', ''cancelOrder''), (''cancelAllOrders'', ''cancelAllOrders''),
     (''connect'', ''exchangeConnect''), (''requestOptionsChain'', ''requestOptionsChain''),
     (''sendSpeedChange'', ''sendSpeedChange''), (''sendConfigUpdate'', ''sendConfigUpdate''),
     (''toggleReplay'', ''toggleReplay''), (''scrubReplay'', ''scrubReplay''),
     (''startTrading'', ''startTrading''), (''stopTrading'', ''stopTrading'')]"

definition context_signal_fields :: "(string \<times> string) list" where
  "context_signal_fields =
    [(''signals'', ''signals''), (''regime'', ''regime''), (''backtestResult'', ''backtestResult''),
     (''circuitBreaker'', ''circuitBreaker''), (''portfolioResult'', ''portfolioResult''),
     (''volSurfaceResult'', ''volSurfaceResult''), (''cvarResult'', ''cvarResult''),
     (''stressTestResult'', ''stressTestResult''), (''positionSizeResult'', ''positionSizeResult''),
     (''hawkesResult'', ''hawkesResult''), (''fundingArbResult'', ''fundingArbResult''),
     (''authState'', ''authState''), (''connected'', ''signalConnected''),
     (''latency'', ''signalLatency''), (''nextReconnectIn'', ''signalNextReconnectIn''),
     (''sendSignalMessage'', ''sendSignalMessage''), (''connect'', ''signalConnect'')]"

definition usePanelContext :: "'f obj \<Rightarrow> 'f obj \<Rightarrow> 'f obj \<Rightarrow> 'f jsval" where
  "usePanelContext ui trading toast =
     Obj [(''exchange'', Obj (copy_fields context_exchange_fields trading)),
          (''signals'', Obj (copy_fields context_signal_fields trading)),
          (''selectedExchange'', field ui ''selectedExchange''),
          (''selectedSymbol'', field ui ''selectedSymbol''),
          (''chartCandles'', field trading ''chartCandles''),
          (''currentPrice'', field trading ''currentPrice''),
          (''SYMBOLS'', field ui ''SYMBOLS''),
          (''EXCHANGES'', field ui ''EXCHANGES''),
          (''toasts'', field toast ''toasts''),
          (''addToast'', field toast ''addToast''),
          (''removeToast'', field toast ''removeToast''),
          (''clearAll'', field toast ''clearAll''),
          (''setSelectedSymbol'', field ui ''setSelectedSymbol''),
          (''customIndicators'', field ui ''customIndicators''),
          (''setCustomIndicators'', field ui ''setCustomIndicators'')]"

section \<open>Props builders\<close>

text \<open>
  The expressions that the arrow functions \<open>props: (ctx) => ({...})\<close> of the registry are made of. \<open>Book\<close>
  is the helper \<open>ob(ctx)\<close>, which reads the book under the key \<open>exchange|symbol\<close> of the selection (two
  strings of the UI store) with optional chaining; \<open>OnAlert\<close> is the price alert's callback.
\<close>

datatype expr = Ctx | Dot expr string | And expr expr | Book | OnAlert

definition cx :: "string \<Rightarrow> expr" where "cx k = Dot Ctx k"
definition ex :: "string \<Rightarrow> expr" where "ex k = Dot (Dot Ctx ''exchange'') k"
definition sg :: "string \<Rightarrow> expr" where "sg k = Dot (Dot Ctx ''signals'') k"

fun book_key :: "'f jsval \<Rightarrow> 'f jsval \<Rightarrow> string option" where
  "book_key (Data (JStr e)) (Data (JStr s)) = Some (bar_join e s)"
| "book_key _ _ = None"

definition ob :: "'f jsval \<Rightarrow> 'f jsval option" where
  "ob ctx = Option.bind (access ctx ''exchange'') (\<lambda>e. Option.bind (opt_access e ''orderbooks'') (\<lambda>b.
     Option.bind (access ctx ''selectedExchange'') (\<lambda>x. Option.bind (access ctx ''selectedSymbol'') (\<lambda>s.
       case book_key x s of None \<Rightarrow> Some Undef | Some k \<Rightarrow> opt_access b k))))"

fun eval_expr :: "'f jsval \<Rightarrow> expr \<Rightarrow> 'f jsval option" where
  "eval_expr c Ctx = Some c"
| "eval_expr c (Dot e k) = Option.bind (eval_expr c e) (\<lambda>v. access v k)"
| "eval_expr c (And a b) = Option.bind (eval_expr c a) (\<lambda>v. if truthy_val v then eval_expr c b else Some v)"
| "eval_expr c Book = ob c"
| "eval_expr c OnAlert = Some (AlertCallback c)"

end
