(* ===== verification/PanelRegistry.thy ===== *)
theory PanelRegistry
  imports PanelContext
begin

text \<open>
  The sidebar's registry, \<open>panels/registry.js\<close>: the lazily imported components, the categories, every
  panel with its props builder as an expression over the context, the set of advanced panels and the
  panels visible by default. The panels are listed by the sections of the source.
\<close>

section \<open>Lazily imported components\<close>

text \<open>\<open>const C = lazy(() => import('../components/C'))\<close>: every identifier names its own module.\<close>

definition lazy_import :: "string \<Rightarrow> string \<times> string" where
  "lazy_import c = (c, ''../components/'' @ c)"

definition components1 :: "(string \<times> string) list" where
  "components1 = map lazy_import
    [''DepthChart'', ''OrderFlowImbalance'', ''SpoofingDetector'', ''OrderBookHeatmap'',
     ''LiquidityHeatmap'', ''TradeTimeline'', ''TradeReplay'', ''OrderFlowTape'', ''CumulativeVolumeDelta'',
     ''DarkOrderFlow'', ''VolumeProfile'', ''MarketProfile'', ''MarketRegime'', ''FibonacciLevels'',
     ''FairValueGap'', ''PatternScanner'', ''PatternDetector'', ''SupportResistance'', ''ExecutionBot'',
     ''PriceAlerts'', ''IndicatorBuilder'', ''ReplayControls'', ''ConfigPanel'', ''SessionStats'',
     ''HeatmapCalendar'', ''TimeOfDayPerformance'', ''TradeClustering'', ''CorrelationMatrix'',
     ''PositionCorrelation'', ''HedgingSuggestions'', ''VolatilitySurface'', ''RiskParityCalculator'',
     ''GreeksCalculator'', ''OptionsStrategySimulator'', ''MultiLegOptions'', ''KellyCalculator'',
     ''DrawdownAnalysis'', ''RiskAdjustedComparison'', ''RiskDashboard'', ''PnLAttribution'',
     ''PnLAttributionChart'', ''MonteCarlo'', ''WalkForward'', ''SentimentIndicator'',
     ''PortfolioOptimizer'', ''AutoRebalance'', ''Watchlist'', ''StrategyBuilder'', ''AlertWebhook'',
     ''SessionExport'', ''TradeStatsExport'', ''MultiAccountView'', ''SmartOrderRouter'', ''TradeJournal'',
     ''OBVIndicator'', ''MFIIndicator'', ''WilliamsRIndicator'', ''IchimokuCloud'', ''RenkoChart'',
     ''StochasticOscillator'', ''ATRIndicator'', ''ParabolicSAR'', ''ADXIndicator'', ''CCIIndicator'',
     ''AwesomeOscillator'', ''VWAPMACD'', ''HeikinAshi'', ''MultiTimeframeComparison'', ''PointAndFigure'',
     ''KagiChart'', ''ThreeLineBreak'', ''OrderBlocks'', ''SessionVolumeProfile'', ''VolatilityRegime'',
     ''PairTradingSignals'', ''TickChart'', ''VolumeClockChart'', ''LiquidationMap'',
     ''FundingRateHistory'', ''WhaleAlerts'', ''OpenInterestTracker'', ''FearGreedIndex'',
     ''CumulativeTickIndex'', ''InterExchangeSpread'', ''PositionSizeOptimizer'', ''LiquidationCascade'',
     ''FootprintChart'', ''DeltaDivergence'', ''TrailingStopCalculator'', ''RiskOfRuin'',
     ''ExpectedValueCalculator'', ''RegimeSwitching'', ''SmartMoneyConcepts'', ''LiquidityGrabDetector'',
     ''CustomIndicatorPlugin'', ''VolumeAnomalyDetector'', ''MultiTimeframeConfluence'',
     ''OrderFlowAbsorption'', ''SessionVWAP'', ''CompositeSignalDashboard'', ''ConfidenceScorer'',
     ''RegimeAdaptiveStrategy'', ''CrossMarketDivergence'', ''PerformanceAttribution'',
     ''PriceActionScore'', ''TickSpeedAnomaly'', ''PutCallRatio'', ''CorrelationHeatmap'',
     ''SignalMatrixHeatmap'', ''MITOrderSimulator'', ''SlippageSimulator'', ''OrderFlowHeatmap'',
     ''MarketDepthReplay'', ''IndicatorFormulaParser'', ''GARCHVolatility'', ''CointegrationScanner'',
     ''MarkovRegimePredictor'', ''FractalAnalyzer'', ''KalmanFilterPrice'', ''SpectralAnalysis'',
     ''EhlersSuperSmoother'', ''BayesianPricePredictor'', ''AlmgrenChriss'', ''WaveletDecomposition'',
     ''KMeansClustering'', ''CopulaModel'', ''HiddenMarkovModel'', ''PrincipalComponentAnalysis'',
     ''OptimalStopping'', ''IsolationForest'', ''VariationalModeDecomposition'',
     ''EmpiricalModeDecomposition'', ''SupportVectorMachine'', ''BlackLitterman'', ''HawkesProcess'',
     ''DynamicTimeWarping'']"

definition components2 :: "(string \<times> string) list" where
  "components2 = map lazy_import
    [''RecurrentNeuralNetwork'', ''KellyCriterion'', ''GaussianProcessRegression'',
     ''MarkovSwitchingGARCH'', ''EmpiricalDynamicModeling'', ''Autoencoder'', ''OptimalTransport'',
     ''RoughVolatility'', ''TransferEntropy'', ''GraphTheoryNetwork'', ''ConditionalValueAtRisk'',
     ''NonStationarySpectral'', ''RandomMatrixTheory'', ''BayesianStructuralTimeSeries'',
     ''TopologicalDataAnalysis'', ''StochasticDifferentialEquations'', ''GaussianMixtureModel'',
     ''WaveletPacketDecomposition'', ''InformationBottleneck'', ''AffineArithmetic'',
     ''RenormalizationGroup'', ''FreeEnergyPrinciple'', ''TensorDecomposition'', ''CompressedSensing'',
     ''MalliavinCalculus'', ''HamiltonianMonteCarlo'', ''ReproducingKernelHilbertSpace'',
     ''VariationalAutoencoder'', ''SchrodingerBridge'', ''LieGroupSymmetries'', ''KolmogorovSinaiEntropy'',
     ''PersistentHomologyLandscape'', ''FokkerPlanckEquation'', ''HopfBifurcation'', ''CramerRaoBound'',
     ''WassersteinBarycenters'', ''KoopmanOperatorTheory'', ''StochasticOptimalControl'',
     ''RenyiEntropyDynamics'', ''PontryaginMaximumPrinciple'', ''BurgersEquation'',
     ''SobolevSpaceRegularization'', ''ItoCalculusGenerator'', ''BanachFixedPoint'', ''CesaroFejerKernel'',
     ''GirsanovTheorem'', ''StoneCechCompactification'', ''MalliavinSteinSensitivity'', ''ProkhorovMetric'',
     ''RadonNikodymDerivative'', ''HahnDecomposition'', ''CameronMartinFormula'', ''ArzelaAscoli'',
     ''RieszRepresentation'', ''LaxMilgram'', ''StrategyBacktest'', ''BacktestComparison'',
     ''StrategyMarketplace'', ''SessionReplay'', ''SessionReportExport'', ''CompetitionFramework'',
     ''WsManager'', ''ApiClient'', ''MLInsights'', ''NotificationCenter'', ''PriceComparison'',
     ''FillsPanel'', ''DrawingTools'', ''PerformanceDashboard'', ''SignalPerformance'', ''AccountPanel'',
     ''OptionsPricing'', ''OptionsStrategies'', ''ArbitragePanel'', ''BacktestRunner'', ''TradeHistory'',
     ''Auth'', ''AuditLogViewer'', ''BotStatus'', ''DatabaseViewer'', ''DeployStatus'', ''NewsFeed'',
     ''OnboardingTutorial'', ''WsInspector'', ''FeatureFlags'', ''ChartTemplates'', ''SymbolHeatmap'',
     ''ThemeSwitcher'', ''StatToolkit'', ''ModelDashboard'', ''SessionMarkers'', ''TaxReport'',
     ''LatencyPanel'', ''MarketImpact'', ''Inventory'', ''Colocation'', ''ABTesting'', ''ScenarioSim'',
     ''ApiPlayground'', ''DataQuality'', ''LogDashboard'', ''AuditTrail'', ''TeamCollab'',
     ''StrategyVersionControl'', ''OptionsChain'', ''Microstructure'', ''TickReplay'', ''PacketInspector'',
     ''WidgetSDK'', ''SentimentDashboard'', ''OnChainAnalytics'', ''FuturesBasis'', ''VolSurface'',
     ''PairsArb'', ''TCA'', ''CapacityAnalysis'', ''RegimeDetector'', ''FeatureStudio'', ''HyperoptUI'',
     ''RetrainingPipeline'', ''SlippageAnalytics'', ''StrategyCorrelation'', ''WalkForwardViewer'',
     ''RealtimeAttribution'', ''GeneticViewer'', ''CostBasis'', ''FillAnalytics'', ''CancelMonitor'',
     ''DashboardProfiler'', ''CrossAssetMatrix'', ''LiquidityMap3D'', ''SignalTracker'',
     ''PortfolioOptLab'', ''BlackSwanTester'', ''ArbScanner'']"

section \<open>Categories and panels\<close>

record category =
  c_id :: string
  c_label :: string
  c_icon :: string
  c_order :: nat

definition CATEGORIES :: "category list" where
  "CATEGORIES =
    [\<lparr>c_id = ''orderflow'', c_label = ''Order Flow'', c_icon = ''Activity'', c_order = 1\<rparr>,
     \<lparr>c_id = ''technical'', c_label = ''Technical Analysis'', c_icon = ''TrendingUp'', c_order = 2\<rparr>,
     \<lparr>c_id = ''risk'', c_label = ''Risk & Analytics'', c_icon = ''Shield'', c_order = 3\<rparr>,
     \<lparr>c_id = ''portfolio'', c_label = ''Portfolio & Optimization'', c_icon = ''Briefcase'', c_order = 4\<rparr>,
     \<lparr>c_id = ''strategy'', c_label = ''Strategy & Automation'', c_icon = ''Bot'', c_order = 5\<rparr>,
     \<lparr>c_id = ''export'', c_label = ''Export & Tools'', c_icon = ''Download'', c_order = 6\<rparr>,
     \<lparr>c_id = ''config'', c_label = ''Config & Session'', c_icon = ''Settings'', c_order = 7\<rparr>]"

record panel =
  p_id :: string
  p_name :: string
  p_category :: string
  p_component :: string
  p_props :: "(string \<times> expr) list"

definition panel :: "string \<Rightarrow> string \<Rightarrow> string \<Rightarrow> string \<Rightarrow> (string \<times> expr) list \<Rightarrow> panel" where
  "panel i n c k ps = \<lparr>p_id = i, p_name = n, p_category = c, p_component = k, p_props = ps\<rparr>"

definition panels_orderflow :: "panel list" where
  "panels_orderflow =
    [panel ''depth-chart'' ''Depth Chart'' ''orderflow'' ''DepthChart''
       [(''orderbookData'', Book), (''currentPrice'', cx ''currentPrice'')],
     panel ''order-flow-imbalance'' ''Order Flow Imbalance'' ''orderflow'' ''OrderFlowImbalance''
       [(''orderbookData'', Book), (''currentPrice'', cx ''currentPrice'')],
     panel ''spoofing-detector'' ''Spoofing Detector'' ''orderflow'' ''SpoofingDetector''
       [(''orderbookData'', Book), (''currentPrice'', cx ''currentPrice'')],
     panel ''order-book-heatmap'' ''Order Book Heatmap'' ''orderflow'' ''OrderBookHeatmap''
       [(''orderbookData'', Book), (''currentPrice'', cx ''currentPrice'')],
     panel ''liquidity-heatmap'' ''Liquidity Heatmap'' ''orderflow'' ''LiquidityHeatmap''
       [(''orderbookData'', Book)],
     panel ''trade-timeline'' ''Execution Timeline'' ''orderflow'' ''TradeTimeline''
       [(''fills'', ex ''fills''), (''symbol'', cx ''selectedSymbol''),
        (''selectedExchange'', cx ''selectedExchange'')],
     panel ''trade-replay'' ''Trade Replay'' ''orderflow'' ''TradeReplay''
       [(''fills'', ex ''fills''), (''candles'', ex ''candles''), (''accounts'', ex ''accounts''),
        (''symbol'', cx ''selectedSymbol''), (''selectedExchange'', cx ''selectedExchange'')],
     panel ''order-flow-tape'' ''Order Flow Tape'' ''orderflow'' ''OrderFlowTape''
       [(''fills'', ex ''fills''), (''candles'', ex ''candles''), (''symbol'', cx ''selectedSymbol''),
        (''selectedExchange'', cx ''selectedExchange'')],
     panel ''cvd'' ''Cumulative Volume Delta'' ''orderflow'' ''CumulativeVolumeDelta''
       [(''candles'', ex ''candles''), (''symbol'', cx ''selectedSymbol''),
        (''exchange'', cx ''selectedExchange'')],
     panel ''dark-order-flow'' ''Dark Order Flow'' ''orderflow'' ''DarkOrderFlow''
       [(''candles'', ex ''candles''), (''symbol'', cx ''selectedSymbol''),
        (''exchange'', cx ''selectedExchange'')],
     panel ''of-heatmap'' ''Order Flow Heatmap'' ''orderflow'' ''OrderFlowHeatmap''
       [(''candles'', ex ''candles''), (''fills'', ex ''fills''), (''symbol'', cx ''selectedSymbol''),
        (''exchange'', cx ''selectedExchange'')],
     panel ''depth-replay'' ''Market Depth Replay'' ''orderflow'' ''MarketDepthReplay''
       [(''candles'', ex ''candles''), (''orderbooks'', ex ''orderbooks''), (''fills'', ex ''fills''),
        (''symbol'', cx ''selectedSymbol''), (''exchange'', cx ''selectedExchange'')],
     panel ''fills-panel'' ''Fills Panel'' ''orderflow'' ''FillsPanel''
       [(''fills'', ex ''fills'')]]"

definition panels_technical :: "panel list" where
  "panels_technical =
    [panel ''volume-profile'' ''Volume Profile'' ''technical'' ''VolumeProfile''
       [(''candles'', cx ''chartCandles'')],
     panel ''market-profile'' ''Market Profile (TPO)'' ''technical'' ''MarketProfile''
       [(''candles'', ex ''candles''), (''symbol'', cx ''selectedSymbol''),
        (''exchange'', cx ''selectedExchange'')],
     panel ''market-regime'' ''Market Regime'' ''technical'' ''MarketRegime''
       [(''candles'', ex ''candles''), (''symbol'', cx ''selectedSymbol''),
        (''exchange'', cx ''selectedExchange'')],
     panel ''fibonacci'' ''Fibonacci Levels'' ''technical'' ''FibonacciLevels''
       [(''candles'', cx ''chartCandles''), (''currentPrice'', cx ''currentPrice'')],
     panel ''fvg'' ''Fair Value Gaps'' ''technical'' ''FairValueGap''
       [(''candles'', ex ''candles''), (''symbol'', cx ''selectedSymbol''),
        (''exchange'', cx ''selectedExchange'')],
     panel ''pattern-scanner'' ''Pattern Scanner'' ''technical'' ''PatternScanner''
       [(''candles'', ex ''candles''), (''symbols'', cx ''SYMBOLS''), (''exchange'', cx ''selectedExchange'')],
     panel ''pattern-detector'' ''Candle Pattern Detector'' ''technical'' ''PatternDetector''
       [(''candles'', cx ''chartCandles'')],
     panel ''support-resistance'' ''Support / Resistance'' ''technical'' ''SupportResistance''
       [(''candles'', cx ''chartCandles''), (''currentPrice'', cx ''currentPrice'')],
     panel ''indicator-builder'' ''Custom Indicator Builder'' ''technical'' ''IndicatorBuilder''
       [(''candles'', cx ''chartCandles''), (''onIndicatorsChange'', cx ''setCustomIndicators'')],
     panel ''formula-parser'' ''Indicator Formula Parser'' ''technical'' ''IndicatorFormulaParser''
       [(''candles'', ex ''candles''), (''symbol'', cx ''selectedSymbol''),
        (''exchange'', cx ''selectedExchange'')],
     panel ''obv'' ''On-Balance Volume (OBV)'' ''technical'' ''OBVIndicator''
       [(''candles'', ex ''candles''), (''symbol'', cx ''selectedSymbol''),
        (''exchange'', cx ''selectedExchange'')],
     panel ''mfi'' ''Money Flow Index (MFI)'' ''technical'' ''MFIIndicator''
       [(''candles'', ex ''candles''), (''symbol'', cx ''selectedSymbol''),
        (''exchange'', cx ''selectedExchange'')],
     panel ''williams-r'' ''Williams %R'' ''technical'' ''WilliamsRIndicator''
       [(''candles'', ex ''candles''), (''symbol'', cx ''selectedSymbol''),
        (''exchange'', cx ''selectedExchange'')],
     panel ''ichimoku'' ''Ichimoku Cloud'' ''technical'' ''IchimokuCloud''
       [(''candles'', ex ''candles''), (''symbol'', cx ''selectedSymbol''),
        (''exchange'', cx ''selectedExchange'')],
     panel ''renko'' ''Renko Chart'' ''technical'' ''RenkoChart''
       [(''candles'', ex ''candles''), (''symbol'', cx ''selectedSymbol''),
        (''exchange'', cx ''selectedExchange'')],
     panel ''stochastic'' ''Stochastic Oscillator'' ''technical'' ''StochasticOscillator''
       [(''candles'', ex ''candles''), (''symbol'', cx ''selectedSymbol''),
        (''exchange'', cx ''selectedExchange'')],
     panel ''atr'' ''Average True Range (ATR)'' ''technical'' ''ATRIndicator''
       [(''candles'', ex ''candles''), (''symbol'', cx ''selectedSymbol''),
        (''exchange'', cx ''selectedExchange'')],
     panel ''psar'' ''Parabolic SAR'' ''technical'' ''ParabolicSAR''
       [(''candles'', ex ''candles''), (''symbol'', cx ''selectedSymbol''),
        (''exchange'', cx ''selectedExchange'')],
     panel ''adx'' ''ADX / DI (Trend Strength)'' ''technical'' ''ADXIndicator''
       [(''candles'', ex ''candles''), (''symbol'', cx ''selectedSymbol''),
        (''exchange'', cx ''selectedExchange'')],
     panel ''cci'' ''Commodity Channel Index'' ''technical'' ''CCIIndicator''
       [(''candles'', ex ''candles''), (''symbol'', cx ''selectedSymbol''),
        (''exchange'', cx ''selectedExchange'')],
     panel ''awesome-osc'' ''Awesome Oscillator'' ''technical'' ''AwesomeOscillator''
       [(''candles'', ex ''candles''), (''symbol'', cx ''selectedSymbol''),
        (''exchange'', cx ''selectedExchange'')],
     panel ''vwap-macd'' ''Volume-Weighted MACD'' ''technical'' ''VWAPMACD''
       [(''candles'', ex ''candles''), (''symbol'', cx ''selectedSymbol''),
        (''exchange'', cx ''selectedExchange'')],
     panel ''heikin-ashi'' ''Heikin-Ashi Candles'' ''technical'' ''HeikinAshi''
       [(''candles'', ex ''candles''), (''symbol'', cx ''selectedSymbol''),
        (''exchange'', cx ''selectedExchange'')],
     panel ''multi-timeframe'' ''Multi-Timeframe Analysis'' ''technical'' ''MultiTimeframeComparison''
       [(''candles'', ex ''candles''), (''symbol'', cx ''selectedSymbol''),
        (''exchange'', cx ''selectedExchange'')],
     panel ''point-figure'' ''Point & Figure Chart'' ''technical'' ''PointAndFigure''
       [(''candles'', ex ''candles''), (''symbol'', cx ''selectedSymbol''),
        (''exchange'', cx ''selectedExchange'')],
     panel ''kagi'' ''Kagi Chart'' ''technical'' ''KagiChart''
       [(''candles'', ex ''candles''), (''symbol'', cx ''selectedSymbol''),
        (''exchange'', cx ''selectedExchange'')],
     panel ''three-line-break'' ''Three-Line Break'' ''technical'' ''ThreeLineBreak''
       [(''candles'', ex ''candles''), (''symbol'', cx ''selectedSymbol''),
        (''exchange'', cx ''selectedExchange'')],
     panel ''order-blocks'' ''Order Block Detection'' ''technical'' ''OrderBlocks''
       [(''candles'', ex ''candles''), (''symbol'', cx ''selectedSymbol''),
        (''exchange'', cx ''selectedExchange'')],
     panel ''session-volume'' ''Session Volume Profile'' ''technical'' ''SessionVolumeProfile''
       [(''candles'', ex ''candles''), (''symbol'', cx ''selectedSymbol''),
        (''exchange'', cx ''selectedExchange'')],
     panel ''volatility-regime'' ''Volatility Regime'' ''technical'' ''VolatilityRegime''
       [(''candles'', ex ''candles''), (''symbol'', cx ''selectedSymbol''),
        (''exchange'', cx ''selectedExchange'')],
     panel ''tick-chart'' ''Tick Chart'' ''technical'' ''TickChart''
       [(''candles'', ex ''candles''), (''symbol'', cx ''selectedSymbol''),
        (''exchange'', cx ''selectedExchange'')],
     panel ''volume-clock'' ''Volume Clock Chart'' ''technical'' ''VolumeClockChart''
       [(''candles'', ex ''candles''), (''symbol'', cx ''selectedSymbol''),
        (''exchange'', cx ''selectedExchange'')],
     panel ''liquidation-map'' ''Liquidation Map'' ''technical'' ''LiquidationMap''
       [(''candles'', ex ''candles''), (''accounts'', ex ''accounts''), (''symbol'', cx ''selectedSymbol''),
        (''exchange'', cx ''selectedExchange'')],
     panel ''funding-history'' ''Funding Rate History'' ''technical'' ''FundingRateHistory''
       [(''fundingRates'', ex ''fundingRates''), (''candlesToFunding'', ex ''candlesToFunding''),
        (''prices'', ex ''prices''), (''symbols'', cx ''SYMBOLS''),
        (''sendSignalMessage'', sg ''sendSignalMessage''), (''fundingArbResult'', sg ''fundingArbResult''),
        (''signalsConnected'', sg ''connected'')],
     panel ''open-interest'' ''Open Interest Tracker'' ''technical'' ''OpenInterestTracker''
       [(''candles'', ex ''candles''), (''fills'', ex ''fills''), (''symbol'', cx ''selectedSymbol''),
        (''exchange'', cx ''selectedExchange'')],
     panel ''cumulative-tick'' ''Cumulative Tick Index'' ''technical'' ''CumulativeTickIndex''
       [(''candles'', ex ''candles''), (''fills'', ex ''fills''), (''symbol'', cx ''selectedSymbol''),
        (''exchange'', cx ''selectedExchange'')],
     panel ''inter-exchange-spread'' ''Inter-Exchange Spread'' ''technical'' ''InterExchangeSpread''
       [(''candles'', ex ''candles''), (''prices'', ex ''prices''), (''symbols'', cx ''SYMBOLS'')],
     panel ''footprint'' ''Footprint Chart'' ''technical'' ''FootprintChart''
       [(''candles'', ex ''candles''), (''fills'', ex ''fills''), (''symbol'', cx ''selectedSymbol''),
        (''exchange'', cx ''selectedExchange'')],
     panel ''regime-switch'' ''Regime Switching Detection'' ''technical'' ''RegimeSwitching''
       [(''candles'', ex ''candles''), (''symbol'', cx ''selectedSymbol''),
        (''exchange'', cx ''selectedExchange'')],
     panel ''smc'' ''Smart Money Concepts'' ''technical'' ''SmartMoneyConcepts''
       [(''candles'', ex ''candles''), (''symbol'', cx ''selectedSymbol''),
        (''exchange'', cx ''selectedExchange'')],
     panel ''liquidity-grab'' ''Liquidity Grab Detector'' ''technical'' ''LiquidityGrabDetector''
       [(''candles'', ex ''candles''), (''symbol'', cx ''selectedSymbol''),
        (''exchange'', cx ''selectedExchange'')],
     panel ''custom-indicator'' ''Custom Indicator Plugin'' ''technical'' ''CustomIndicatorPlugin''
       [(''candles'', ex ''candles''), (''symbol'', cx ''selectedSymbol'')],
     panel ''volume-anomaly'' ''Volume Anomaly Detector'' ''technical'' ''VolumeAnomalyDetector''
       [(''candles'', ex ''candles''), (''symbol'', cx ''selectedSymbol''),
        (''exchange'', cx ''selectedExchange'')],
     panel ''mtf-confluence'' ''Multi-Timeframe Confluence'' ''technical'' ''MultiTimeframeConfluence''
       [(''candles'', ex ''candles''), (''symbol'', cx ''selectedSymbol''),
        (''exchange'', cx ''selectedExchange'')],
     panel ''session-vwap'' ''Session VWAP'' ''technical'' ''SessionVWAP''
       [(''candles'', ex ''candles''), (''symbol'', cx ''selectedSymbol''),
        (''exchange'', cx ''selectedExchange'')],
     panel ''price-action-score'' ''Price Action Score'' ''technical'' ''PriceActionScore''
       [(''candles'', ex ''candles''), (''symbol'', cx ''selectedSymbol''),
        (''exchange'', cx ''selectedExchange'')],
     panel ''drawing-tools'' ''Drawing Tools'' ''technical'' ''DrawingTools''
       [(''symbol'', cx ''selectedSymbol''), (''addToast'', cx ''addToast'')]]"

definition panels_risk1 :: "panel list" where
  "panels_risk1 =
    [panel ''session-stats'' ''Session Stats'' ''risk'' ''SessionStats''
       [(''accounts'', ex ''accounts''), (''fills'', ex ''fills'')],
     panel ''heatmap-calendar'' ''PnL Heatmap Calendar'' ''risk'' ''HeatmapCalendar''
       [(''accounts'', ex ''accounts'')],
     panel ''time-of-day'' ''Performance by Hour'' ''risk'' ''TimeOfDayPerformance''
       [(''accounts'', ex ''accounts'')],
     panel ''trade-clustering'' ''Trade Clustering'' ''risk'' ''TradeClustering''
       [(''fills'', ex ''fills'')],
     panel ''correlation-matrix'' ''Correlation Matrix'' ''risk'' ''CorrelationMatrix''
       [(''candles'', ex ''candles''), (''exchange'', cx ''selectedExchange''), (''symbols'', cx ''SYMBOLS'')],
     panel ''position-correlation'' ''Position Correlation'' ''risk'' ''PositionCorrelation''
       [(''accounts'', ex ''accounts''), (''candles'', ex ''candles''),
        (''exchange'', cx ''selectedExchange'')],
     panel ''volatility-surface'' ''Volatility Surface'' ''risk'' ''VolatilitySurface''
       [(''candles'', ex ''candles''), (''symbols'', cx ''SYMBOLS''), (''exchange'', cx ''selectedExchange'')],
     panel ''drawdown'' ''Drawdown Analysis'' ''risk'' ''DrawdownAnalysis''
       [(''accounts'', ex ''accounts'')],
     panel ''risk-adjusted'' ''Risk-Adjusted Returns'' ''risk'' ''RiskAdjustedComparison''
       [(''accounts'', ex ''accounts''), (''fills'', ex ''fills'')],
     panel ''risk-dashboard'' ''Risk Dashboard (VaR/CVaR)'' ''risk'' ''RiskDashboard''
       [(''accounts'', ex ''accounts''), (''candles'', ex ''candles''),
        (''exchange'', cx ''selectedExchange''), (''prices'', ex ''prices''),
        (''sendSignalMessage'', sg ''sendSignalMessage''), (''stressTestResult'', sg ''stressTestResult''),
        (''signalsConnected'', sg ''connected'')],
     panel ''pnl-attribution'' ''PnL Attribution'' ''risk'' ''PnLAttribution''
       [(''accounts'', ex ''accounts'')],
     panel ''pnl-attribution-chart'' ''PnL Attribution Chart'' ''risk'' ''PnLAttributionChart''
       [(''accounts'', ex ''accounts'')],
     panel ''monte-carlo'' ''Monte Carlo Simulation'' ''risk'' ''MonteCarlo''
       [(''accounts'', ex ''accounts'')],
     panel ''walk-forward'' ''Walk-Forward Analysis'' ''risk'' ''WalkForward''
       [(''accounts'', ex ''accounts'')],
     panel ''sentiment'' ''Sentiment Indicator'' ''risk'' ''SentimentIndicator''
       [(''candles'', ex ''candles''), (''signals'', sg ''signals''), (''symbol'', cx ''selectedSymbol''),
        (''exchange'', cx ''selectedExchange'')],
     panel ''fear-greed'' ''Fear & Greed Index'' ''risk'' ''FearGreedIndex''
       [(''candles'', ex ''candles''), (''signals'', sg ''signals''), (''fills'', ex ''fills''),
        (''symbol'', cx ''selectedSymbol''), (''exchange'', cx ''selectedExchange'')],
     panel ''delta-divergence'' ''Delta Divergence Detector'' ''risk'' ''DeltaDivergence''
       [(''candles'', ex ''candles''), (''fills'', ex ''fills''), (''symbol'', cx ''selectedSymbol''),
        (''exchange'', cx ''selectedExchange'')],
     panel ''risk-of-ruin'' ''Risk of Ruin Calculator'' ''risk'' ''RiskOfRuin''
       [(''accounts'', ex ''accounts''), (''fills'', ex ''fills'')],
     panel ''ev-calc'' ''Expected Value Calculator'' ''risk'' ''ExpectedValueCalculator''
       [(''accounts'', ex ''accounts''), (''fills'', ex ''fills''), (''signals'', sg ''signals'')],
     panel ''absorption'' ''Order Flow Absorption'' ''risk'' ''OrderFlowAbsorption''
       [(''candles'', ex ''candles''), (''fills'', ex ''fills''), (''orderbooks'', ex ''orderbooks''),
        (''symbol'', cx ''selectedSymbol''), (''exchange'', cx ''selectedExchange'')],
     panel ''composite-dashboard'' ''Composite Signal Dashboard'' ''risk'' ''CompositeSignalDashboard''
       [(''candles'', ex ''candles''), (''signals'', sg ''signals''), (''fills'', ex ''fills''),
        (''symbol'', cx ''selectedSymbol''), (''exchange'', cx ''selectedExchange'')],
     panel ''confidence-scorer'' ''Signal Confidence Scorer'' ''risk'' ''ConfidenceScorer''
       [(''candles'', ex ''candles''), (''signals'', sg ''signals''), (''fills'', ex ''fills''),
        (''symbol'', cx ''selectedSymbol''), (''exchange'', cx ''selectedExchange'')],
     panel ''regime-strategy'' ''Regime Adaptive Strategy'' ''risk'' ''RegimeAdaptiveStrategy''
       [(''candles'', ex ''candles''), (''symbol'', cx ''selectedSymbol''),
        (''exchange'', cx ''selectedExchange'')],
     panel ''cross-market'' ''Cross-Market Divergence'' ''risk'' ''CrossMarketDivergence''
       [(''candles'', ex ''candles''), (''symbols'', cx ''SYMBOLS''), (''exchange'', cx ''selectedExchange'')],
     panel ''perf-attribution'' ''Performance Attribution'' ''risk'' ''PerformanceAttribution''
       [(''accounts'', ex ''accounts''), (''fills'', ex ''fills''), (''signals'', sg ''signals'')],
     panel ''tick-speed'' ''Tick Speed Anomaly'' ''risk'' ''TickSpeedAnomaly''
       [(''candles'', ex ''candles''), (''fills'', ex ''fills''), (''symbol'', cx ''selectedSymbol''),
        (''exchange'', cx ''selectedExchange'')],
     panel ''perf-dashboard'' ''Performance Dashboard'' ''risk'' ''PerformanceDashboard''
       [(''accounts'', ex ''accounts''), (''fills'', ex ''fills''), (''signals'', sg ''signals'')],
     panel ''signal-perf'' ''Signal Performance Tracker'' ''risk'' ''SignalPerformance''
       [(''signals'', sg ''signals''), (''fills'', ex ''fills'')],
     panel ''put-call'' ''Put/Call Ratio (Sim)'' ''risk'' ''PutCallRatio''
       [(''fills'', ex ''fills''), (''candles'', ex ''candles''), (''symbol'', cx ''selectedSymbol''),
        (''exchange'', cx ''selectedExchange'')],
     panel ''signal-matrix'' ''Signal Matrix Heatmap'' ''risk'' ''SignalMatrixHeatmap''
       [(''candles'', ex ''candles''), (''signals'', sg ''signals''), (''fills'', ex ''fills''),
        (''symbols'', cx ''SYMBOLS''), (''exchange'', cx ''selectedExchange'')],
     panel ''slippage-sim'' ''Slippage Simulator'' ''risk'' ''SlippageSimulator''
       [(''candles'', ex ''candles''), (''orderbooks'', ex ''orderbooks''),
        (''currentPrice'', cx ''currentPrice''), (''symbol'', cx ''selectedSymbol''),
        (''exchange'', cx ''selectedExchange'')],
     panel ''garch-vol'' ''GARCH Volatility Forecaster'' ''risk'' ''GARCHVolatility''
       [(''candles'', ex ''candles''), (''symbol'', cx ''selectedSymbol''),
        (''exchange'', cx ''selectedExchange'')],
     panel ''cointegration'' ''Cointegration Scanner'' ''risk'' ''CointegrationScanner''
       [(''candles'', ex ''candles''), (''symbols'', cx ''SYMBOLS''), (''exchange'', cx ''selectedExchange'')],
     panel ''markov-regime'' ''Markov Regime Predictor'' ''risk'' ''MarkovRegimePredictor''
       [(''candles'', ex ''candles''), (''symbol'', cx ''selectedSymbol''),
        (''exchange'', cx ''selectedExchange'')],
     panel ''fractal'' ''Hurst Exponent + Fractal Dim'' ''risk'' ''FractalAnalyzer''
       [(''candles'', ex ''candles''), (''symbol'', cx ''selectedSymbol''),
        (''exchange'', cx ''selectedExchange'')],
     panel ''kalman'' ''Kalman Filter Price'' ''risk'' ''KalmanFilterPrice''
       [(''candles'', ex ''candles''), (''symbol'', cx ''selectedSymbol''),
        (''exchange'', cx ''selectedExchange'')],
     panel ''spectral'' ''Spectral Analysis (Welch PSD)'' ''risk'' ''SpectralAnalysis''
       [(''candles'', ex ''candles''), (''symbol'', cx ''selectedSymbol''),
        (''exchange'', cx ''selectedExchange'')],
     panel ''ehlers-super'' ''Ehlers SuperSmoother (DSP)'' ''risk'' ''EhlersSuperSmoother''
       [(''candles'', ex ''candles''), (''symbol'', cx ''selectedSymbol''),
        (''exchange'', cx ''selectedExchange'')],
     panel ''bayesian-predictor'' ''Bayesian Price Predictor'' ''risk'' ''BayesianPricePredictor''
       [(''candles'', ex ''candles''), (''symbol'', cx ''selectedSymbol''),
        (''exchange'', cx ''selectedExchange'')],
     panel ''wavelet'' ''Wavelet Decomposition (MRA)'' ''risk'' ''WaveletDecomposition''
       [(''candles'', ex ''candles''), (''symbol'', cx ''selectedSymbol''),
        (''exchange'', cx ''selectedExchange'')],
     panel ''kmeans'' ''K-Means Market Clustering'' ''risk'' ''KMeansClustering''
       [(''candles'', ex ''candles''), (''symbol'', cx ''selectedSymbol''),
        (''exchange'', cx ''selectedExchange'')],
     panel ''copula'' ''Copula Dependency Model'' ''risk'' ''CopulaModel''
       [(''candles'', ex ''candles''), (''symbols'', cx ''SYMBOLS''), (''exchange'', cx ''selectedExchange'')],
     panel ''almgren-chriss'' ''Almgren-Chriss Execution'' ''portfolio'' ''AlmgrenChriss''
       [(''candles'', ex ''candles''), (''symbol'', cx ''selectedSymbol''),
        (''exchange'', cx ''selectedExchange'')],
     panel ''hmm'' ''Hidden Markov Model'' ''risk'' ''HiddenMarkovModel''
       [(''candles'', ex ''candles''), (''symbol'', cx ''selectedSymbol''),
        (''exchange'', cx ''selectedExchange'')],
     panel ''pca'' ''Principal Component Analysis'' ''risk'' ''PrincipalComponentAnalysis''
       [(''candles'', ex ''candles''), (''symbols'', cx ''SYMBOLS''), (''exchange'', cx ''selectedExchange'')],
     panel ''optimal-stopping'' ''Optimal Stopping (Snell)'' ''portfolio'' ''OptimalStopping''
       [(''candles'', ex ''candles''), (''symbol'', cx ''selectedSymbol''),
        (''exchange'', cx ''selectedExchange''), (''currentPrice'', cx ''currentPrice'')],
     panel ''isolation-forest'' ''Isolation Forest Anomaly'' ''risk'' ''IsolationForest''
       [(''candles'', ex ''candles''), (''symbol'', cx ''selectedSymbol''),
        (''exchange'', cx ''selectedExchange'')],
     panel ''vmd'' ''Variational Mode Decomp'' ''risk'' ''VariationalModeDecomposition''
       [(''candles'', ex ''candles''), (''symbol'', cx ''selectedSymbol''),
        (''exchange'', cx ''selectedExchange'')],
     panel ''emd'' ''Empirical Mode Decomp (HHT)'' ''risk'' ''EmpiricalModeDecomposition''
       [(''candles'', ex ''candles''), (''symbol'', cx ''selectedSymbol''),
        (''exchange'', cx ''selectedExchange'')],
     panel ''svm'' ''SVM Signal Classifier'' ''risk'' ''SupportVectorMachine''
       [(''candles'', ex ''candles''), (''symbol'', cx ''selectedSymbol''),
        (''exchange'', cx ''selectedExchange'')],
     panel ''black-litterman'' ''Black-Litterman Allocation'' ''portfolio'' ''BlackLitterman''
       [(''candles'', ex ''candles''), (''symbols'', cx ''SYMBOLS''), (''exchange'', cx ''selectedExchange'')],
     panel ''hawkes'' ''Hawkes Process (Trade Clustering)'' ''risk'' ''HawkesProcess''
       [(''candles'', ex ''candles''), (''symbol'', cx ''selectedSymbol''),
        (''exchange'', cx ''selectedExchange''), (''sendSignalMessage'', sg ''sendSignalMessage''),
        (''hawkesResult'', sg ''hawkesResult''), (''signalsConnected'', sg ''connected'')],
     panel ''dtw'' ''Dynamic Time Warping'' ''risk'' ''DynamicTimeWarping''
       [(''candles'', ex ''candles''), (''symbol'', cx ''selectedSymbol''),
        (''exchange'', cx ''selectedExchange'')],
     panel ''rnn-lstm'' ''LSTM Neural Network'' ''risk'' ''RecurrentNeuralNetwork''
       [(''candles'', ex ''candles''), (''symbol'', cx ''selectedSymbol''),
        (''exchange'', cx ''selectedExchange'')],
     panel ''kelly'' ''Kelly Criterion Sizing'' ''portfolio'' ''KellyCriterion''
       [(''candles'', ex ''candles''), (''symbols'', cx ''SYMBOLS''), (''exchange'', cx ''selectedExchange'')]]"

definition panels_risk2 :: "panel list" where
  "panels_risk2 =
    [panel ''gp-regression'' ''Gaussian Process Regression'' ''risk'' ''GaussianProcessRegression''
       [(''candles'', ex ''candles''), (''symbol'', cx ''selectedSymbol''),
        (''exchange'', cx ''selectedExchange'')],
     panel ''ms-garch'' ''Markov-Switching GARCH'' ''risk'' ''MarkovSwitchingGARCH''
       [(''candles'', ex ''candles''), (''symbol'', cx ''selectedSymbol''),
        (''exchange'', cx ''selectedExchange'')],
     panel ''edm'' ''Empirical Dynamic Modeling'' ''risk'' ''EmpiricalDynamicModeling''
       [(''candles'', ex ''candles''), (''symbol'', cx ''selectedSymbol''),
        (''exchange'', cx ''selectedExchange''), (''symbols'', cx ''SYMBOLS'')],
     panel ''autoencoder'' ''Autoencoder Anomaly'' ''risk'' ''Autoencoder''
       [(''candles'', ex ''candles''), (''symbol'', cx ''selectedSymbol''),
        (''exchange'', cx ''selectedExchange'')],
     panel ''optimal-transport'' ''Optimal Transport (Wasserstein)'' ''risk'' ''OptimalTransport''
       [(''candles'', ex ''candles''), (''symbol'', cx ''selectedSymbol''),
        (''exchange'', cx ''selectedExchange'')],
     panel ''rough-vol'' ''Rough Volatility (rBergomi)'' ''risk'' ''RoughVolatility''
       [(''candles'', ex ''candles''), (''symbol'', cx ''selectedSymbol''),
        (''exchange'', cx ''selectedExchange'')],
     panel ''transfer-entropy'' ''Transfer Entropy (Causality)'' ''risk'' ''TransferEntropy''
       [(''candles'', ex ''candles''), (''symbol'', cx ''selectedSymbol''),
        (''exchange'', cx ''selectedExchange''), (''symbols'', cx ''SYMBOLS'')],
     panel ''graph-network'' ''Graph Theory Network'' ''portfolio'' ''GraphTheoryNetwork''
       [(''candles'', ex ''candles''), (''symbols'', cx ''SYMBOLS''), (''exchange'', cx ''selectedExchange'')],
     panel ''cvar'' ''Conditional VaR (Expected Shortfall)'' ''portfolio'' ''ConditionalValueAtRisk''
       [(''candles'', ex ''candles''), (''symbols'', cx ''SYMBOLS''), (''exchange'', cx ''selectedExchange''),
        (''sendSignalMessage'', sg ''sendSignalMessage''), (''cvarResult'', sg ''cvarResult''),
        (''signalsConnected'', sg ''connected'')],
     panel ''nonstat-spectral'' ''Non-Stationary Spectral (STFT+CWT)'' ''risk'' ''NonStationarySpectral''
       [(''candles'', ex ''candles''), (''symbol'', cx ''selectedSymbol''),
        (''exchange'', cx ''selectedExchange'')],
     panel ''rmt'' ''Random Matrix Theory'' ''portfolio'' ''RandomMatrixTheory''
       [(''candles'', ex ''candles''), (''symbols'', cx ''SYMBOLS''), (''exchange'', cx ''selectedExchange'')],
     panel ''bsts'' ''Bayesian Structural Time Series'' ''risk'' ''BayesianStructuralTimeSeries''
       [(''candles'', ex ''candles''), (''symbol'', cx ''selectedSymbol''),
        (''exchange'', cx ''selectedExchange'')],
     panel ''tda'' ''Topological Data Analysis'' ''risk'' ''TopologicalDataAnalysis''
       [(''candles'', ex ''candles''), (''symbol'', cx ''selectedSymbol''),
        (''exchange'', cx ''selectedExchange'')],
     panel ''sde'' ''Stochastic Differential Equations'' ''risk'' ''StochasticDifferentialEquations''
       [(''candles'', ex ''candles''), (''symbol'', cx ''selectedSymbol''),
        (''exchange'', cx ''selectedExchange'')],
     panel ''gmm'' ''Gaussian Mixture Model (EM)'' ''risk'' ''GaussianMixtureModel''
       [(''candles'', ex ''candles''), (''symbol'', cx ''selectedSymbol''),
        (''exchange'', cx ''selectedExchange'')],
     panel ''wpd'' ''Wavelet Packet Decomposition'' ''risk'' ''WaveletPacketDecomposition''
       [(''candles'', ex ''candles''), (''symbol'', cx ''selectedSymbol''),
        (''exchange'', cx ''selectedExchange'')],
     panel ''info-bottleneck'' ''Information Bottleneck'' ''risk'' ''InformationBottleneck''
       [(''candles'', ex ''candles''), (''symbol'', cx ''selectedSymbol''),
        (''exchange'', cx ''selectedExchange'')],
     panel ''affine-arithmetic'' ''Affine Arithmetic (Uncertainty)'' ''risk'' ''AffineArithmetic''
       [(''candles'', ex ''candles''), (''symbol'', cx ''selectedSymbol''),
        (''exchange'', cx ''selectedExchange'')],
     panel ''rg'' ''Renormalization Group (Multi-Scale)'' ''risk'' ''RenormalizationGroup''
       [(''candles'', ex ''candles''), (''symbol'', cx ''selectedSymbol''),
        (''exchange'', cx ''selectedExchange'')],
     panel ''fep'' ''Free Energy Principle (Active Inference)'' ''risk'' ''FreeEnergyPrinciple''
       [(''candles'', ex ''candles''), (''symbol'', cx ''selectedSymbol''),
        (''exchange'', cx ''selectedExchange'')],
     panel ''tensor-decomp'' ''Tensor Decomposition (CP/ALS)'' ''portfolio'' ''TensorDecomposition''
       [(''candles'', ex ''candles''), (''symbols'', cx ''SYMBOLS''), (''exchange'', cx ''selectedExchange'')],
     panel ''compressed-sensing'' ''Compressed Sensing (Sparse Recovery)'' ''risk'' ''CompressedSensing''
       [(''candles'', ex ''candles''), (''symbol'', cx ''selectedSymbol''),
        (''exchange'', cx ''selectedExchange'')],
     panel ''malliavin'' ''Malliavin Calculus (Greeks)'' ''risk'' ''MalliavinCalculus''
       [(''candles'', ex ''candles''), (''symbol'', cx ''selectedSymbol''),
        (''exchange'', cx ''selectedExchange'')],
     panel ''hmc'' ''Hamiltonian Monte Carlo (Bayesian)'' ''risk'' ''HamiltonianMonteCarlo''
       [(''candles'', ex ''candles''), (''symbol'', cx ''selectedSymbol''),
        (''exchange'', cx ''selectedExchange'')],
     panel ''rkhs'' ''RKHS (Kernel Methods)'' ''risk'' ''ReproducingKernelHilbertSpace''
       [(''candles'', ex ''candles''), (''symbol'', cx ''selectedSymbol''),
        (''exchange'', cx ''selectedExchange'')],
     panel ''vae'' ''Variational Autoencoder (VAE)'' ''risk'' ''VariationalAutoencoder''
       [(''candles'', ex ''candles''), (''symbol'', cx ''selectedSymbol''),
        (''exchange'', cx ''selectedExchange'')],
     panel ''schrodinger-bridge'' (''Schr'' @ CHR 0xF6 # ''dinger Bridge (Entropy OT)'') ''risk'' ''SchrodingerBridge''
       [(''candles'', ex ''candles''), (''symbol'', cx ''selectedSymbol''),
        (''exchange'', cx ''selectedExchange'')],
     panel ''lie-group'' ''Lie Group Symmetries'' ''risk'' ''LieGroupSymmetries''
       [(''candles'', ex ''candles''), (''symbol'', cx ''selectedSymbol''),
        (''exchange'', cx ''selectedExchange'')],
     panel ''ks-entropy'' ''Kolmogorov-Sinai Entropy (Chaos)'' ''risk'' ''KolmogorovSinaiEntropy''
       [(''candles'', ex ''candles''), (''symbol'', cx ''selectedSymbol''),
        (''exchange'', cx ''selectedExchange'')],
     panel ''ph-landscape'' ''Persistent Homology Landscape'' ''risk'' ''PersistentHomologyLandscape''
       [(''candles'', ex ''candles''), (''symbol'', cx ''selectedSymbol''),
        (''exchange'', cx ''selectedExchange'')],
     panel ''fokker-planck'' ''Fokker-Planck Equation (Density)'' ''risk'' ''FokkerPlanckEquation''
       [(''candles'', ex ''candles''), (''symbol'', cx ''selectedSymbol''),
        (''exchange'', cx ''selectedExchange'')],
     panel ''hopf-bifurcation'' ''Hopf Bifurcation (Cycles)'' ''risk'' ''HopfBifurcation''
       [(''candles'', ex ''candles''), (''symbol'', cx ''selectedSymbol''),
        (''exchange'', cx ''selectedExchange'')],
     panel ''cramer-rao'' (''Cram'' @ CHR 0xE9 # ''r-Rao Lower Bound'') ''risk'' ''CramerRaoBound''
       [(''candles'', ex ''candles''), (''symbol'', cx ''selectedSymbol''),
        (''exchange'', cx ''selectedExchange'')],
     panel ''wasserstein-bary'' ''Wasserstein Barycenters (OT Mean)'' ''portfolio'' ''WassersteinBarycenters''
       [(''candles'', ex ''candles''), (''symbols'', cx ''SYMBOLS''), (''exchange'', cx ''selectedExchange'')],
     panel ''koopman'' ''Koopman Operator Theory (EDMD)'' ''risk'' ''KoopmanOperatorTheory''
       [(''candles'', ex ''candles''), (''symbol'', cx ''selectedSymbol''),
        (''exchange'', cx ''selectedExchange'')],
     panel ''stochastic-control'' ''Stochastic Optimal Control (HJB)'' ''risk'' ''StochasticOptimalControl''
       [(''candles'', ex ''candles''), (''symbol'', cx ''selectedSymbol''),
        (''exchange'', cx ''selectedExchange'')],
     panel ''renyi-entropy'' (''R'' @ CHR 0xE9 # ''nyi Entropy Dynamics'') ''risk'' ''RenyiEntropyDynamics''
       [(''candles'', ex ''candles''), (''symbol'', cx ''selectedSymbol''),
        (''exchange'', cx ''selectedExchange'')],
     panel ''pontryagin'' ''Pontryagin Maximum Principle'' ''portfolio'' ''PontryaginMaximumPrinciple''
       [(''candles'', ex ''candles''), (''symbol'', cx ''selectedSymbol''),
        (''exchange'', cx ''selectedExchange'')],
     panel ''burgers-eq'' ''Burgers Equation (Shock Formation)'' ''risk'' ''BurgersEquation''
       [(''candles'', ex ''candles''), (''symbol'', cx ''selectedSymbol''),
        (''exchange'', cx ''selectedExchange'')],
     panel ''sobolev-reg'' ''Sobolev Space Regularization'' ''risk'' ''SobolevSpaceRegularization''
       [(''candles'', ex ''candles''), (''symbol'', cx ''selectedSymbol''),
        (''exchange'', cx ''selectedExchange'')],
     panel ''ito-generator'' ''Ito Calculus Generator'' ''risk'' ''ItoCalculusGenerator''
       [(''candles'', ex ''candles''), (''symbol'', cx ''selectedSymbol''),
        (''exchange'', cx ''selectedExchange'')],
     panel ''banach-fixed'' ''Banach Fixed-Point Iteration'' ''strategy'' ''BanachFixedPoint''
       [(''candles'', ex ''candles''), (''symbol'', cx ''selectedSymbol''),
        (''exchange'', cx ''selectedExchange'')],
     panel ''cesaro-fejer'' ''Cesaro/Fejer Kernel (Trend)'' ''technical'' ''CesaroFejerKernel''
       [(''candles'', ex ''candles''), (''symbol'', cx ''selectedSymbol''),
        (''exchange'', cx ''selectedExchange'')],
     panel ''girsanov'' ''Girsanov Theorem (Measure Change)'' ''risk'' ''GirsanovTheorem''
       [(''candles'', ex ''candles''), (''symbol'', cx ''selectedSymbol''),
        (''exchange'', cx ''selectedExchange'')],
     panel ''stone-cech'' ''Stone-Cech Compactification'' ''risk'' ''StoneCechCompactification''
       [(''candles'', ex ''candles''), (''symbol'', cx ''selectedSymbol''),
        (''exchange'', cx ''selectedExchange'')],
     panel ''malliavin-stein'' ''Malliavin-Stein Sensitivity'' ''risk'' ''MalliavinSteinSensitivity''
       [(''candles'', ex ''candles''), (''symbol'', cx ''selectedSymbol''),
        (''exchange'', cx ''selectedExchange'')],
     panel ''prokhorov'' ''Prokhorov Metric (Weak Conv.)'' ''risk'' ''ProkhorovMetric''
       [(''candles'', ex ''candles''), (''symbol'', cx ''selectedSymbol''),
        (''exchange'', cx ''selectedExchange'')],
     panel ''radon-nikodym'' ''Radon-Nikodym Derivative'' ''risk'' ''RadonNikodymDerivative''
       [(''candles'', ex ''candles''), (''symbol'', cx ''selectedSymbol''),
        (''exchange'', cx ''selectedExchange'')],
     panel ''hahn-decomp'' ''Hahn Decomposition (Signal/Noise)'' ''risk'' ''HahnDecomposition''
       [(''candles'', ex ''candles''), (''symbol'', cx ''selectedSymbol''),
        (''exchange'', cx ''selectedExchange'')],
     panel ''cameron-martin'' ''Cameron-Martin Formula'' ''risk'' ''CameronMartinFormula''
       [(''candles'', ex ''candles''), (''symbol'', cx ''selectedSymbol''),
        (''exchange'', cx ''selectedExchange'')],
     panel ''arzela-ascoli'' ''Arzela-Ascoli (Equicontinuity)'' ''risk'' ''ArzelaAscoli''
       [(''candles'', ex ''candles''), (''symbol'', cx ''selectedSymbol''),
        (''exchange'', cx ''selectedExchange'')],
     panel ''riesz-rep'' ''Riesz Representation'' ''risk'' ''RieszRepresentation''
       [(''candles'', ex ''candles''), (''symbol'', cx ''selectedSymbol''),
        (''exchange'', cx ''selectedExchange'')],
     panel ''lax-milgram'' ''Lax-Milgram (Variational PDE)'' ''risk'' ''LaxMilgram''
       [(''candles'', ex ''candles''), (''symbol'', cx ''selectedSymbol''),
        (''exchange'', cx ''selectedExchange'')]]"

definition panels_portfolio :: "panel list" where
  "panels_portfolio =
    [panel ''hedging'' ''Hedging Suggestions'' ''portfolio'' ''HedgingSuggestions''
       [(''candles'', ex ''candles''), (''accounts'', ex ''accounts''), (''symbols'', cx ''SYMBOLS''),
        (''exchange'', cx ''selectedExchange'')],
     panel ''risk-parity'' ''Risk Parity Calculator'' ''portfolio'' ''RiskParityCalculator''
       [(''candles'', ex ''candles''), (''symbols'', cx ''SYMBOLS''), (''exchange'', cx ''selectedExchange'')],
     panel ''portfolio-optimizer'' ''Portfolio Optimizer'' ''portfolio'' ''PortfolioOptimizer''
       [(''candles'', ex ''candles''), (''symbols'', cx ''SYMBOLS''), (''exchange'', cx ''selectedExchange'')],
     panel ''auto-rebalance'' ''Auto-Rebalance'' ''portfolio'' ''AutoRebalance''
       [(''accounts'', ex ''accounts''), (''candles'', ex ''candles''), (''symbols'', cx ''SYMBOLS''),
        (''exchange'', cx ''selectedExchange''), (''onSubmit'', ex ''submitOrder'')],
     panel ''multi-account'' ''Multi-Account View'' ''portfolio'' ''MultiAccountView''
       [(''accounts'', ex ''accounts''), (''exchanges'', cx ''EXCHANGES'')],
     panel ''smart-router'' ''Smart Order Router'' ''portfolio'' ''SmartOrderRouter''
       [(''candles'', ex ''candles''), (''orderbooks'', ex ''orderbooks''), (''symbols'', cx ''SYMBOLS''),
        (''exchanges'', cx ''EXCHANGES'')],
     panel ''kelly-calc'' ''Kelly Criterion'' ''portfolio'' ''KellyCalculator''
       [(''accounts'', ex ''accounts'')],
     panel ''greeks'' ''Greeks Calculator'' ''portfolio'' ''GreeksCalculator''
       [(''currentPrice'', cx ''currentPrice'')],
     panel ''options-strategy-sim'' ''Options Strategy P&L'' ''portfolio'' ''OptionsStrategySimulator''
       [(''currentPrice'', cx ''currentPrice'')],
     panel ''multi-leg-options'' ''Multi-Leg Options'' ''portfolio'' ''MultiLegOptions''
       [(''currentPrice'', cx ''currentPrice'')],
     panel ''pair-trading'' ''Pair Trading Signals'' ''portfolio'' ''PairTradingSignals''
       [(''candles'', ex ''candles''), (''symbols'', cx ''SYMBOLS''), (''exchange'', cx ''selectedExchange'')],
     panel ''whale-alerts'' ''Whale Alert Monitor'' ''portfolio'' ''WhaleAlerts''
       [(''fills'', ex ''fills''), (''candles'', ex ''candles''), (''symbol'', cx ''selectedSymbol''),
        (''exchange'', cx ''selectedExchange'')],
     panel ''position-optimizer'' ''Position Size Optimizer'' ''portfolio'' ''PositionSizeOptimizer''
       [(''candles'', ex ''candles''), (''accounts'', ex ''accounts''),
        (''currentPrice'', cx ''currentPrice''), (''symbol'', cx ''selectedSymbol''),
        (''exchange'', cx ''selectedExchange''), (''sendSignalMessage'', sg ''sendSignalMessage''),
        (''positionSizeResult'', sg ''positionSizeResult''), (''signalsConnected'', sg ''connected'')],
     panel ''liq-cascade'' ''Liquidation Cascade Simulator'' ''portfolio'' ''LiquidationCascade''
       [(''candles'', ex ''candles''), (''accounts'', ex ''accounts''), (''symbol'', cx ''selectedSymbol''),
        (''exchange'', cx ''selectedExchange'')],
     panel ''trailing-stop'' ''Trailing Stop Calculator'' ''portfolio'' ''TrailingStopCalculator''
       [(''candles'', ex ''candles''), (''accounts'', ex ''accounts''),
        (''currentPrice'', cx ''currentPrice''), (''symbol'', cx ''selectedSymbol''),
        (''exchange'', cx ''selectedExchange'')],
     panel ''corr-heatmap'' ''Correlation Heatmap'' ''portfolio'' ''CorrelationHeatmap''
       [(''candles'', ex ''candles''), (''symbols'', cx ''SYMBOLS''), (''exchange'', cx ''selectedExchange'')],
     panel ''account-panel'' ''Account Panel'' ''portfolio'' ''AccountPanel''
       [(''accounts'', ex ''accounts'')],
     panel ''options-pricing'' ''Options Pricing (Black-Scholes)'' ''portfolio'' ''OptionsPricing''
       [],
     panel ''options-strategies'' ''Options Strategies P&L'' ''portfolio'' ''OptionsStrategies''
       []]"

definition panels_strategy :: "panel list" where
  "panels_strategy =
    [panel ''strategy-backtest'' ''Strategy Backtest Engine'' ''strategy'' ''StrategyBacktest''
       [],
     panel ''backtest-comparison'' ''Backtest Comparison'' ''strategy'' ''BacktestComparison''
       [],
     panel ''execution-bot'' ''Execution Bot (TWAP/VWAP)'' ''strategy'' ''ExecutionBot''
       [(''currentPrice'', cx ''currentPrice''), (''onSubmit'', ex ''submitOrder''),
        (''connected'', And (ex ''connected'') (ex ''tradingActive'')), (''symbol'', cx ''selectedSymbol''),
        (''exchange'', cx ''selectedExchange'')],
     panel ''watchlist'' ''Watchlist'' ''strategy'' ''Watchlist''
       [(''candles'', ex ''candles''), (''prices'', ex ''prices''),
        (''onSelectSymbol'', cx ''setSelectedSymbol'')],
     panel ''strategy-builder'' ''Strategy Builder'' ''strategy'' ''StrategyBuilder''
       [(''currentPrice'', cx ''currentPrice'')],
     panel ''strategy-marketplace'' ''Strategy Marketplace'' ''strategy'' ''StrategyMarketplace''
       [],
     panel ''competition'' ''Strategy Competition'' ''strategy'' ''CompetitionFramework''
       [(''sendSignalMessage'', sg ''sendSignalMessage''), (''backtestResult'', sg ''backtestResult''),
        (''connected'', sg ''connected''), (''candles'', ex ''candles''), (''symbol'', cx ''selectedSymbol''),
        (''exchange'', cx ''selectedExchange'')],
     panel ''session-replay'' ''Session Replay'' ''export'' ''SessionReplay''
       [(''accounts'', ex ''accounts''), (''fills'', ex ''fills''), (''signals'', sg ''signals''),
        (''candles'', ex ''candles''), (''prices'', ex ''prices''), (''orderbooks'', ex ''orderbooks''),
        (''symbol'', cx ''selectedSymbol''), (''exchange'', cx ''selectedExchange'')],
     panel ''session-report'' ''Session Report (PDF)'' ''export'' ''SessionReportExport''
       [(''accounts'', ex ''accounts''), (''fills'', ex ''fills''), (''candles'', ex ''candles''),
        (''symbol'', cx ''selectedSymbol''), (''exchange'', cx ''selectedExchange'')],
     panel ''alert-webhook'' ''Alert Webhooks'' ''strategy'' ''AlertWebhook''
       [(''fills'', ex ''fills''), (''toasts'', cx ''toasts'')],
     panel ''trade-journal'' ''Trade Journal'' ''strategy'' ''TradeJournal''
       [(''accounts'', ex ''accounts'')],
     panel ''mit-simulator'' ''MIT Order Simulator'' ''strategy'' ''MITOrderSimulator''
       [(''candles'', ex ''candles''), (''accounts'', ex ''accounts''),
        (''currentPrice'', cx ''currentPrice''), (''symbol'', cx ''selectedSymbol''),
        (''exchange'', cx ''selectedExchange''), (''onSubmit'', ex ''submitOrder'')],
     panel ''arbitrage-panel'' ''Arbitrage Scanner'' ''strategy'' ''ArbitragePanel''
       [(''arbitrage'', ex ''arbitrage'')],
     panel ''backtest-runner'' ''Backtest Runner'' ''strategy'' ''BacktestRunner''
       [(''symbol'', cx ''selectedSymbol''), (''connected'', sg ''connected''),
        (''sendSignalMessage'', sg ''sendSignalMessage''), (''backtestResult'', sg ''backtestResult'')],
     panel ''trade-history'' ''Trade History'' ''strategy'' ''TradeHistory''
       [(''accounts'', ex ''accounts'')]]"

definition panels_tools :: "panel list" where
  "panels_tools =
    [panel ''session-export'' ''Session Export (JSON)'' ''export'' ''SessionExport''
       [(''accounts'', ex ''accounts''), (''fills'', ex ''fills''), (''candles'', ex ''candles''),
        (''signals'', sg ''signals'')],
     panel ''trade-stats-export'' ''Trade Stats Export (CSV)'' ''export'' ''TradeStatsExport''
       [(''accounts'', ex ''accounts'')],
     panel ''price-alerts'' ''Price Alerts'' ''config'' ''PriceAlerts''
       [(''currentPrice'', cx ''currentPrice''), (''symbol'', cx ''selectedSymbol''),
        (''exchange'', cx ''selectedExchange''), (''onAlert'', OnAlert)],
     panel ''replay-controls'' ''Replay Controls'' ''config'' ''ReplayControls''
       [(''paused'', ex ''replayPaused''), (''onToggle'', ex ''toggleReplay''),
        (''onScrub'', ex ''scrubReplay''), (''candleCount'', Dot (cx ''chartCandles'') ''length'')],
     panel ''config-panel'' ''Simulator Config'' ''config'' ''ConfigPanel''
       [(''onConfigUpdate'', ex ''sendConfigUpdate''), (''fundingRates'', ex ''fundingRates''),
        (''weekendMode'', ex ''weekendMode'')],
     panel ''ws-manager'' ''WebSocket Manager'' ''config'' ''WsManager''
       [(''exchange'', cx ''exchange''), (''signals'', cx ''signals''), (''toasts'', cx ''toasts''),
        (''addToast'', cx ''addToast'')],
     panel ''api-client'' ''API Client'' ''config'' ''ApiClient''
       [(''exchange'', cx ''exchange''), (''signals'', cx ''signals''), (''addToast'', cx ''addToast'')],
     panel ''ml-insights'' ''ML Insights Dashboard'' ''risk'' ''MLInsights''
       [(''signals'', cx ''signals'')],
     panel ''notifications'' ''Notification Center'' ''config'' ''NotificationCenter''
       [(''toasts'', cx ''toasts''), (''addToast'', cx ''addToast''), (''removeToast'', cx ''removeToast''),
        (''clearAll'', cx ''clearAll'')],
     panel ''auth'' ''Authentication'' ''config'' ''Auth''
       [(''addToast'', cx ''addToast'')],
     panel ''audit-log'' ''Audit Log Viewer'' ''config'' ''AuditLogViewer''
       [(''auditLogs'', ex ''auditLogs'')],
     panel ''bot-status'' ''Bot Status Monitor'' ''config'' ''BotStatus''
       [(''signals'', sg ''signals''), (''fills'', ex ''fills''), (''accounts'', ex ''accounts''),
        (''signalConnected'', sg ''connected''), (''exchangeConnected'', ex ''connected''),
        (''circuitBreaker'', sg ''circuitBreaker''), (''tradingActive'', ex ''tradingActive'')],
     panel ''database-viewer'' ''Database Viewer'' ''config'' ''DatabaseViewer''
       [(''addToast'', cx ''addToast'')],
     panel ''deploy-status'' ''Deployment Status'' ''config'' ''DeployStatus''
       [(''addToast'', cx ''addToast'')],
     panel ''news-feed'' ''News Feed'' ''config'' ''NewsFeed''
       [(''newsEvent'', ex ''newsEvent'')],
     panel ''onboarding'' ''Onboarding Tutorial'' ''config'' ''OnboardingTutorial''
       [],
     panel ''ws-inspector'' ''Raw WebSocket Inspector'' ''config'' ''WsInspector''
       [],
     panel ''feature-flags'' ''Feature Flags Manager'' ''config'' ''FeatureFlags''
       [(''addToast'', cx ''addToast'')],
     panel ''chart-templates'' ''Chart Templates'' ''config'' ''ChartTemplates''
       [(''symbol'', cx ''selectedSymbol''), (''addToast'', cx ''addToast'')],
     panel ''symbol-heatmap'' ''Multi-Symbol Heatmap'' ''technical'' ''SymbolHeatmap''
       [(''candles'', ex ''candles''), (''prices'', ex ''prices''), (''symbols'', cx ''SYMBOLS''),
        (''onSelectSymbol'', cx ''setSelectedSymbol''), (''exchange'', cx ''selectedExchange'')],
     panel ''price-comparison'' ''Multi-Exchange Prices'' ''technical'' ''PriceComparison''
       [(''prices'', ex ''prices''), (''symbols'', cx ''SYMBOLS''),
        (''selectedSymbol'', cx ''selectedSymbol''), (''exchanges'', cx ''EXCHANGES'')],
     panel ''theme-switcher'' ''Theme Switcher'' ''config'' ''ThemeSwitcher''
       [(''addToast'', cx ''addToast'')],
     panel ''stat-toolkit'' ''Statistical Toolkit'' ''risk'' ''StatToolkit''
       [(''candles'', ex ''candles''), (''symbol'', cx ''selectedSymbol'')],
     panel ''model-dashboard'' ''Model Management'' ''risk'' ''ModelDashboard''
       [(''addToast'', cx ''addToast'')]]"

definition panels_late :: "panel list" where
  "panels_late =
    [panel ''session-markers'' ''Trading Sessions'' ''orderflow'' ''SessionMarkers''
       [(''fills'', ex ''fills''), (''symbol'', cx ''selectedSymbol'')],
     panel ''tax-report'' ''Tax Report'' ''export'' ''TaxReport''
       [(''accounts'', ex ''accounts''), (''addToast'', cx ''addToast'')],
     panel ''latency-panel'' ''Latency Monitor'' ''config'' ''LatencyPanel''
       [(''exchange'', cx ''exchange'')],
     panel ''market-impact'' ''Market Impact Analysis'' ''risk'' ''MarketImpact''
       [(''candles'', ex ''candles''), (''symbol'', cx ''selectedSymbol''),
        (''exchange'', cx ''selectedExchange''), (''currentPrice'', cx ''currentPrice''),
        (''orderbooks'', ex ''orderbooks'')],
     panel ''inventory'' ''Inventory Manager'' ''portfolio'' ''Inventory''
       [(''accounts'', ex ''accounts''), (''prices'', ex ''prices'')],
     panel ''colocation'' ''Colocation Status'' ''config'' ''Colocation''
       [],
     panel ''ab-testing'' ''A/B Testing'' ''strategy'' ''ABTesting''
       [],
     panel ''scenario-sim'' ''Scenario Simulator'' ''risk'' ''ScenarioSim''
       [(''currentPrice'', cx ''currentPrice''), (''candles'', ex ''candles''),
        (''exchange'', cx ''selectedExchange''), (''symbol'', cx ''selectedSymbol'')],
     panel ''api-playground'' ''API Playground'' ''config'' ''ApiPlayground''
       [(''addToast'', cx ''addToast'')],
     panel ''data-quality'' ''Data Quality Monitor'' ''config'' ''DataQuality''
       [(''candles'', ex ''candles''), (''exchange'', cx ''selectedExchange''),
        (''symbol'', cx ''selectedSymbol'')],
     panel ''log-dashboard'' ''Log Dashboard'' ''config'' ''LogDashboard''
       [],
     panel ''audit-trail'' ''Audit Trail'' ''config'' ''AuditTrail''
       [(''fills'', ex ''fills''), (''signals'', sg ''signals'')],
     panel ''team-collab'' ''Team Collaboration'' ''config'' ''TeamCollab''
       [(''addToast'', cx ''addToast'')],
     panel ''strategy-version'' ''Strategy Version Control'' ''strategy'' ''StrategyVersionControl''
       [(''addToast'', cx ''addToast'')],
     panel ''options-chain'' ''Options Chain'' ''orderflow'' ''OptionsChain''
       [(''currentPrice'', cx ''currentPrice''), (''candles'', ex ''candles''),
        (''exchange'', cx ''selectedExchange''), (''symbol'', cx ''selectedSymbol''),
        (''optionsChain'', ex ''optionsChain''), (''requestOptionsChain'', ex ''requestOptionsChain'')],
     panel ''microstructure'' ''Microstructure Analysis'' ''orderflow'' ''Microstructure''
       [(''symbol'', cx ''selectedSymbol''), (''orderbooks'', ex ''orderbooks''),
        (''exchange'', cx ''selectedExchange'')],
     panel ''tick-replay'' ''Tick Replay'' ''orderflow'' ''TickReplay''
       [(''symbol'', cx ''selectedSymbol''), (''fills'', ex ''fills'')],
     panel ''packet-inspector'' ''Packet Inspector'' ''config'' ''PacketInspector''
       [],
     panel ''widget-sdk'' ''Widget SDK'' ''export'' ''WidgetSDK''
       [(''addToast'', cx ''addToast'')],
     panel ''sentiment-dashboard'' ''Sentiment Dashboard'' ''strategy'' ''SentimentDashboard''
       [(''symbol'', cx ''selectedSymbol''), (''newsEvent'', ex ''newsEvent'')],
     panel ''onchain-analytics'' ''On-Chain Analytics'' ''risk'' ''OnChainAnalytics''
       [(''symbol'', cx ''selectedSymbol'')],
     panel ''futures-basis'' ''Futures Basis'' ''risk'' ''FuturesBasis''
       [(''currentPrice'', cx ''currentPrice''), (''fundingRates'', ex ''fundingRates''),
        (''prices'', ex ''prices''), (''symbol'', cx ''selectedSymbol'')],
     panel ''vol-surface'' ''Volatility Surface'' ''risk'' ''VolSurface''
       [(''candles'', ex ''candles''), (''exchange'', cx ''selectedExchange''),
        (''symbol'', cx ''selectedSymbol''), (''sendSignalMessage'', sg ''sendSignalMessage''),
        (''volSurfaceResult'', sg ''volSurfaceResult''), (''signalsConnected'', sg ''connected''),
        (''optionsChain'', ex ''optionsChain''), (''requestOptionsChain'', ex ''requestOptionsChain'')],
     panel ''pairs-arb'' ''Pairs Arbitrage'' ''strategy'' ''PairsArb''
       [(''candles'', ex ''candles''), (''symbols'', cx ''SYMBOLS''), (''exchange'', cx ''selectedExchange'')],
     panel ''tca'' ''Transaction Cost Analysis'' ''risk'' ''TCA''
       [(''fills'', ex ''fills'')],
     panel ''capacity-analysis'' ''Capacity Analysis'' ''risk'' ''CapacityAnalysis''
       [(''candles'', ex ''candles''), (''symbol'', cx ''selectedSymbol''),
        (''exchange'', cx ''selectedExchange'')],
     panel ''regime-detector'' ''Regime Detector'' ''risk'' ''RegimeDetector''
       [(''symbol'', cx ''selectedSymbol''), (''candles'', ex ''candles''), (''regime'', sg ''regime''),
        (''exchange'', cx ''selectedExchange'')],
     panel ''feature-studio'' ''Feature Studio'' ''strategy'' ''FeatureStudio''
       [(''candles'', ex ''candles''), (''symbol'', cx ''selectedSymbol''),
        (''exchange'', cx ''selectedExchange'')],
     panel ''hyperopt-ui'' ''Hyperparameter Optimization'' ''strategy'' ''HyperoptUI''
       [],
     panel ''retraining-pipeline'' ''Retraining Pipeline'' ''strategy'' ''RetrainingPipeline''
       [],
     panel ''slippage-analytics'' ''Slippage Analytics'' ''risk'' ''SlippageAnalytics''
       [(''symbol'', cx ''selectedSymbol''), (''fills'', ex ''fills''), (''candles'', ex ''candles''),
        (''exchange'', cx ''selectedExchange'')],
     panel ''strategy-correlation'' ''Strategy Correlation'' ''risk'' ''StrategyCorrelation''
       [(''signals'', sg ''signals'')],
     panel ''walk-forward-viewer'' ''Walk-Forward Viewer'' ''strategy'' ''WalkForwardViewer''
       [(''backtestResult'', sg ''backtestResult'')],
     panel ''realtime-attribution'' ''Realtime PnL Attribution'' ''portfolio'' ''RealtimeAttribution''
       [(''accounts'', ex ''accounts'')],
     panel ''genetic-viewer'' ''Genetic Algorithm Viewer'' ''strategy'' ''GeneticViewer''
       [],
     panel ''cost-basis'' ''Cost Basis Tracker'' ''portfolio'' ''CostBasis''
       [(''fills'', ex ''fills''), (''accounts'', ex ''accounts''), (''prices'', ex ''prices''),
        (''symbol'', cx ''selectedSymbol''), (''exchange'', cx ''selectedExchange'')],
     panel ''fill-analytics'' ''Fill Analytics'' ''risk'' ''FillAnalytics''
       [(''fills'', ex ''fills'')],
     panel ''cancel-monitor'' ''Cancel Monitor'' ''risk'' ''CancelMonitor''
       [],
     panel ''dashboard-profiler'' ''Dashboard Profiler'' ''config'' ''DashboardProfiler''
       [],
     panel ''cross-asset-matrix'' ''Cross-Asset Matrix'' ''risk'' ''CrossAssetMatrix''
       [(''candles'', ex ''candles''), (''prices'', ex ''prices''), (''symbols'', cx ''SYMBOLS''),
        (''exchange'', cx ''selectedExchange'')],
     panel ''liquidity-map-3d'' ''Liquidity Map 3D'' ''orderflow'' ''LiquidityMap3D''
       [(''currentPrice'', cx ''currentPrice''), (''orderbooks'', ex ''orderbooks''),
        (''exchange'', cx ''selectedExchange''), (''symbol'', cx ''selectedSymbol'')],
     panel ''signal-tracker'' ''Signal Tracker'' ''strategy'' ''SignalTracker''
       [(''signals'', sg ''signals''), (''prices'', ex ''prices'')],
     panel ''portfolio-opt-lab'' ''Portfolio Optimization Lab'' ''portfolio'' ''PortfolioOptLab''
       [(''sendSignalMessage'', sg ''sendSignalMessage''), (''portfolioResult'', sg ''portfolioResult''),
        (''connected'', sg ''connected''), (''candles'', ex ''candles''), (''symbols'', cx ''SYMBOLS''),
        (''exchange'', cx ''selectedExchange''), (''accounts'', ex ''accounts''), (''prices'', ex ''prices'')],
     panel ''black-swan-tester'' ''Black Swan Tester'' ''risk'' ''BlackSwanTester''
       [(''candles'', ex ''candles''), (''accounts'', ex ''accounts''), (''prices'', ex ''prices''),
        (''symbol'', cx ''selectedSymbol''), (''exchange'', cx ''selectedExchange'')],
     panel ''arb-scanner'' ''Arbitrage Scanner'' ''strategy'' ''ArbScanner''
       [(''arbitrage'', ex ''arbitrage'')]]"

definition PANELS :: "panel list" where
  "PANELS = panels_orderflow @ panels_technical @ panels_risk1 @ panels_risk2 @ panels_portfolio @ panels_strategy @ panels_tools @ panels_late"

definition ADVANCED_PANEL_IDS :: "string list" where
  "ADVANCED_PANEL_IDS =
    [''garch-vol'', ''cointegration'', ''markov-regime'', ''fractal'', ''kalman'', ''spectral'',
     ''ehlers-super'', ''bayesian-predictor'', ''wavelet'', ''kmeans'', ''copula'', ''hmm'', ''pca'',
     ''optimal-stopping'', ''isolation-forest'', ''vmd'', ''emd'', ''svm'', ''black-litterman'', ''hawkes'',
     ''dtw'', ''rnn-lstm'', ''kelly'', ''gp-regression'', ''ms-garch'', ''edm'', ''autoencoder'',
     ''optimal-transport'', ''rough-vol'', ''transfer-entropy'', ''cvar'', ''nonstat-spectral'', ''rmt'',
     ''bsts'', ''tda'', ''sde'', ''gmm'', ''wpd'', ''info-bottleneck'', ''affine-arithmetic'', ''rg'',
     ''fep'', ''tensor-decomp'', ''compressed-sensing'', ''malliavin'', ''hmc'', ''rkhs'', ''vae'',
     ''schrodinger-bridge'', ''lie-group'', ''ks-entropy'', ''ph-landscape'', ''fokker-planck'',
     ''hopf-bifurcation'', ''cramer-rao'', ''wasserstein-bary'', ''koopman'', ''stochastic-control'',
     ''renyi-entropy'', ''pontryagin'', ''burgers-eq'', ''sobolev-reg'', ''ito-generator'',
     ''banach-fixed'', ''cesaro-fejer'', ''girsanov'', ''stone-cech'', ''malliavin-stein'', ''prokhorov'',
     ''radon-nikodym'', ''hahn-decomp'', ''cameron-martin'', ''arzela-ascoli'', ''riesz-rep'',
     ''lax-milgram'', ''almgren-chriss'', ''graph-network'']"

definition DEFAULT_VISIBLE :: "string list" where
  "DEFAULT_VISIBLE = map p_id (filter (\<lambda>p. p_id p \<notin> set ADVANCED_PANEL_IDS) PANELS)"

definition getPanelsByCategory :: "string \<Rightarrow> panel list" where
  "getPanelsByCategory c = filter (\<lambda>p. p_category p = c) PANELS"

text \<open>
  \<open>preloadCategory\<close> remembers the categories it has warmed and returns the components whose import it
  triggers, in order; the state is the set \<open>_preloadedCategories\<close>.
\<close>

definition preloadCategory :: "string \<Rightarrow> string list \<Rightarrow> string list \<times> string list" where
  "preloadCategory c done =
     (if c \<in> set done then (done, []) else (c # done, map p_component (getPanelsByCategory c)))"

definition props_of :: "'f jsval \<Rightarrow> panel \<Rightarrow> (string \<times> 'f jsval option) list" where
  "props_of ctx p = map (\<lambda>(k, e). (k, eval_expr ctx e)) (p_props p)"

end
