(* ===== verification/PanelLaws.thy ===== *)
theory PanelLaws
  imports PanelRegistry
begin

text \<open>
  Laws of the panel wiring: what a panel reads through store and context is what the hooks returned,
  and the registry is well formed (distinct ids, known categories, imported components).
\<close>

section \<open>Objects and the store\<close>

lemma field_hook: "field (hook_object keys h) k = (if k \<in> set keys then h k else Undef)"
  by (induction keys) (auto simp: hook_object_def field_def)

lemma field_copy: "field (copy_fields tab ob1) k = (case map_of tab k of None \<Rightarrow> Undef | Some h \<Rightarrow> field ob1 h)"
  by (induction tab) (auto simp: copy_fields_def field_def)

lemma set_state_Nil [simp]: "set_state [] st = st"
  by (simp add: set_state_def run_writes_def)

lemma set_state_Cons [simp]: "set_state ((k, v) # data) st = set_state data (map_set k v st)"
  by (simp add: set_state_def run_writes_def write_one_def)

lemma get_set_state: "map_get (set_state data st) k = (case map_of (rev data) k of None \<Rightarrow> map_get st k | Some v \<Rightarrow> Some v)"
  by (induction data arbitrary: st) (auto simp: map_add_def split: option.splits)

lemma field_set_state:
  "field (set_state data st) k = (case map_of (rev data) k of None \<Rightarrow> field st k | Some v \<Rightarrow> v)"
  by (simp add: field_def get_set_state split: option.splits)

lemma map_of_copy_rev: "map_of (rev (copy_fields tab ob1)) k = map_option (field ob1) (map_of (rev tab) k)"
proof -
  have "rev (copy_fields tab ob1) = map (\<lambda>(k, h). (k, field ob1 h)) (rev tab)" by (simp add: copy_fields_def rev_map)
  then show ?thesis by (simp add: map_of_map)
qed

lemma opt_access_total: "\<exists>v. opt_access x k = Some v"
  unfolding opt_access_def by (cases "(x, k)" rule: access.cases) auto

section \<open>From the hooks to the context\<close>

definition chart_fields :: "string list" where
  "chart_fields = [''chartCandles'', ''currentPrice'', ''priceChange'']"

text \<open>
  A context table and a sync table are inverse to each other, and no later write of the store
  (\<open>others\<close>) overwrites what the sync wrote.
\<close>

definition wired :: "(string \<times> string) list \<Rightarrow> (string \<times> string) list \<Rightarrow> string list \<Rightarrow> bool" where
  "wired context sync others \<longleftrightarrow> distinct (map fst context) \<and> distinct (map fst sync) \<and>
     list_all (\<lambda>(k, s). (s, k) \<in> set sync \<and> s \<notin> set others) context"

lemma wiredD:
  assumes "wired context sync others" "k \<in> set (map fst context)"
  shows "\<exists>s. map_of context k = Some s \<and> s \<notin> set others \<and> map_of (rev sync) s = Some k"
proof -
  obtain s where s: "(k, s) \<in> set context" using assms(2) by auto
  with assms(1) have "(s, k) \<in> set (rev sync)" "distinct (map fst (rev sync))" "s \<notin> set others"
    by (auto simp: wired_def list_all_iff simp flip: rev_map)
  with s assms(1) show ?thesis by (auto simp: wired_def intro: map_of_is_SomeI)
qed

lemma distinct_tables:
  "distinct (map fst context_exchange_fields)" "distinct (map fst exchange_sync_fields)"
  "distinct (map fst context_signal_fields)" "distinct (map fst signal_sync_fields)"
  by (simp_all add: context_exchange_fields_def exchange_sync_fields_def context_signal_fields_def signal_sync_fields_def)

lemma exchange_sync_pairs: "list_all (\<lambda>(k, s). (s, k) \<in> set exchange_sync_fields) context_exchange_fields"
  by (simp add: context_exchange_fields_def exchange_sync_fields_def)

lemma exchange_sync_kept:
  "list_all (\<lambda>(k, s). s \<notin> set (chart_fields @ map fst signal_sync_fields)) context_exchange_fields"
  by (simp add: context_exchange_fields_def signal_sync_fields_def chart_fields_def)

lemma signal_sync_pairs: "list_all (\<lambda>(k, s). (s, k) \<in> set signal_sync_fields \<and> s \<notin> set chart_fields) context_signal_fields"
  by (simp add: context_signal_fields_def signal_sync_fields_def chart_fields_def)

lemma wired_exchange:
  "wired context_exchange_fields exchange_sync_fields (chart_fields @ map fst signal_sync_fields)"
  unfolding wired_def using distinct_tables exchange_sync_pairs exchange_sync_kept by (fastforce simp: list_all_iff)

lemma wired_signals: "wired context_signal_fields signal_sync_fields chart_fields"
  unfolding wired_def using distinct_tables signal_sync_pairs by blast

lemma context_keys:
  "set exchange_hook_keys \<subseteq> set (map fst context_exchange_fields)"
  "set signal_hook_keys \<subseteq> set (map fst context_signal_fields)"
  by (simp_all add: exchange_hook_keys_def context_exchange_fields_def signal_hook_keys_def context_signal_fields_def)

lemma mock_shape: "set mock_exchange_keys = set exchange_hook_keys" "set mock_signal_keys = set signal_hook_keys"
proof -
  have "set mock_exchange_keys \<subseteq> set exchange_hook_keys" "set exchange_hook_keys \<subseteq> set mock_exchange_keys"
    by (simp_all add: mock_exchange_keys_def exchange_hook_keys_def)
  then show "set mock_exchange_keys = set exchange_hook_keys" by blast
  have "set mock_signal_keys \<subseteq> set signal_hook_keys" "set signal_hook_keys \<subseteq> set mock_signal_keys"
    by (simp_all add: mock_signal_keys_def signal_hook_keys_def)
  then show "set mock_signal_keys = set signal_hook_keys" by blast
qed

definition live_store where
  "live_store kx ks ex_h sg_h chart price change st =
     sync_chart_candles chart price change (useTradingStoreSync (hook_object kx ex_h) (hook_object ks sg_h) st)"

lemma field_chart:
  "k \<notin> set chart_fields \<Longrightarrow> field (sync_chart_candles c p d st) k = field st k"
  by (auto simp: sync_chart_candles_def chart_fields_def field_def)

lemma field_not_copied:
  "k \<notin> set (map fst tab) \<Longrightarrow> field (set_state (copy_fields tab ob1) st) k = field st k"
  by (simp add: field_set_state map_of_copy_rev map_of_eq_None_iff split: option.splits) (force dest: map_of_SomeD)

lemma field_copied:
  "map_of (rev tab) k = Some h \<Longrightarrow> field (set_state (copy_fields tab ob1) st) k = field ob1 h"
  by (simp add: field_set_state map_of_copy_rev)

lemma exchange_field:
  assumes "k \<in> set exchange_hook_keys" "set kx = set exchange_hook_keys"
  shows "field (copy_fields context_exchange_fields (live_store kx ks eh sh c p d st)) k = eh k"
proof -
  obtain s where "map_of context_exchange_fields k = Some s" "s \<notin> set chart_fields"
    "s \<notin> set (map fst signal_sync_fields)" "map_of (rev exchange_sync_fields) s = Some k"
    using wiredD [OF wired_exchange, of k] assms(1) context_keys(1) by auto
  then show ?thesis using assms
    by (simp add: field_copy live_store_def field_chart useTradingStoreSync_def field_not_copied field_copied field_hook)
qed

lemma signal_field:
  assumes "k \<in> set signal_hook_keys" "set ks = set signal_hook_keys"
  shows "field (copy_fields context_signal_fields (live_store kx ks eh sh c p d st)) k = sh k"
proof -
  obtain s where "map_of context_signal_fields k = Some s" "s \<notin> set chart_fields"
    "map_of (rev signal_sync_fields) s = Some k"
    using wiredD [OF wired_signals, of k] assms(1) context_keys(2) by auto
  then show ?thesis using assms
    by (simp add: field_copy live_store_def field_chart useTradingStoreSync_def field_copied field_hook)
qed

lemma chart_field:
  "field (live_store kx ks eh sh c p d st) ''chartCandles'' = c"
  "field (live_store kx ks eh sh c p d st) ''currentPrice'' = p"
  by (simp_all add: live_store_def sync_chart_candles_def field_def)

section \<open>Props of the panels\<close>

text \<open>The expressions whose path is present in the context.\<close>

definition context_fields :: "string list" where
  "context_fields = [''exchange'', ''signals'', ''selectedExchange'', ''selectedSymbol'', ''chartCandles'',
     ''currentPrice'', ''SYMBOLS'', ''EXCHANGES'', ''toasts'', ''addToast'', ''removeToast'', ''clearAll'',
     ''setSelectedSymbol'', ''customIndicators'', ''setCustomIndicators'']"

fun supplied :: "expr \<Rightarrow> bool" where
  "supplied (Dot Ctx k) = (k \<in> set context_fields)"
| "supplied (Dot (Dot Ctx s) k) = (s = ''exchange'' \<and> k \<in> set exchange_hook_keys \<or>
     s = ''signals'' \<and> k \<in> set signal_hook_keys \<or> s = ''chartCandles'' \<and> k = ''length'')"
| "supplied (And a b) = (supplied a \<and> supplied b)"
| "supplied Book = True"
| "supplied OnAlert = True"
| "supplied _ = False"

lemma supplied_exchange:
  "supplied (ex ''accounts'')" "supplied (ex ''arbitrage'')" "supplied (ex ''auditLogs'')"
  "supplied (ex ''candles'')" "supplied (ex ''candlesToFunding'')" "supplied (ex ''connected'')"
  "supplied (ex ''fills'')" "supplied (ex ''fundingRates'')" "supplied (ex ''newsEvent'')"
  "supplied (ex ''optionsChain'')" "supplied (ex ''orderbooks'')" "supplied (ex ''prices'')"
  "supplied (ex ''replayPaused'')" "supplied (ex ''requestOptionsChain'')"
  "supplied (ex ''scrubReplay'')" "supplied (ex ''sendConfigUpdate'')"
  "supplied (ex ''submitOrder'')" "supplied (ex ''toggleReplay'')"
  "supplied (ex ''tradingActive'')" "supplied (ex ''weekendMode'')"
  by (simp_all add: ex_def exchange_hook_keys_def)

lemma supplied_signals:
  "supplied (sg ''backtestResult'')" "supplied (sg ''circuitBreaker'')"
  "supplied (sg ''connected'')" "supplied (sg ''cvarResult'')"
  "supplied (sg ''fundingArbResult'')" "supplied (sg ''hawkesResult'')"
  "supplied (sg ''portfolioResult'')" "supplied (sg ''positionSizeResult'')"
  "supplied (sg ''regime'')" "supplied (sg ''sendSignalMessage'')" "supplied (sg ''signals'')"
  "supplied (sg ''stressTestResult'')" "supplied (sg ''volSurfaceResult'')"
  by (simp_all add: sg_def signal_hook_keys_def)

lemma supplied_context:
  "supplied (cx ''EXCHANGES'')" "supplied (cx ''SYMBOLS'')" "supplied (cx ''addToast'')"
  "supplied (cx ''chartCandles'')" "supplied (cx ''clearAll'')" "supplied (cx ''currentPrice'')"
  "supplied (cx ''exchange'')" "supplied (cx ''removeToast'')"
  "supplied (cx ''selectedExchange'')" "supplied (cx ''selectedSymbol'')"
  "supplied (cx ''setCustomIndicators'')" "supplied (cx ''setSelectedSymbol'')"
  "supplied (cx ''signals'')" "supplied (cx ''toasts'')"
  "supplied (Dot (cx ''chartCandles'') ''length'')"
  by (simp_all add: cx_def context_fields_def)

lemmas supplied_path = supplied_exchange supplied_signals supplied_context supplied.simps(3-5)

lemma panel_sel:
  "p_id (panel i n c k ps) = i" "p_category (panel i n c k ps) = c"
  "p_component (panel i n c k ps) = k" "p_props (panel i n c k ps) = ps"
  by (simp_all add: panel_def)

lemma panels_supplied: "list_all (\<lambda>p. list_all (\<lambda>(k, e). supplied e) (p_props p)) PANELS"
  unfolding PANELS_def list_all_append
  by (simp only: panels_orderflow_def panels_technical_def panels_risk1_def panels_risk2_def panels_portfolio_def panels_strategy_def panels_tools_def panels_late_def list.pred_inject panel_sel case_prod_conv supplied_path
      simp_thms)

text \<open>What a panel would see if it read the hooks themselves.\<close>

definition hook_context :: "'f obj \<Rightarrow> 'f obj \<Rightarrow> 'f jsval \<Rightarrow> 'f jsval \<Rightarrow> 'f obj \<Rightarrow> 'f obj \<Rightarrow> 'f jsval" where
  "hook_context exchange signals chart price ui toast =
     Obj ((''exchange'', Obj exchange) # (''signals'', Obj signals) # (''chartCandles'', chart) #
       (''currentPrice'', price) # map (\<lambda>k. (k, field toast k)) [''toasts'', ''addToast'', ''removeToast'', ''clearAll'']
       @ map (\<lambda>k. (k, field ui k)) [''selectedExchange'', ''selectedSymbol'', ''SYMBOLS'', ''EXCHANGES'',
           ''setSelectedSymbol'', ''customIndicators'', ''setCustomIndicators''])"

text \<open>
  Two values no component tells apart: equal, objects that agree in every field, or alert callbacks that
  reach the same \<open>addToast\<close>.
\<close>

definition same_view :: "'f jsval \<Rightarrow> 'f jsval \<Rightarrow> bool" where
  "same_view v w \<longleftrightarrow> v = w \<or> (\<exists>a b. v = Obj a \<and> w = Obj b \<and> (\<forall>k. field a k = field b k)) \<or>
     (\<exists>c d. v = AlertCallback c \<and> w = AlertCallback d \<and> access c ''addToast'' = access d ''addToast'')"

lemma same_view_refl [intro, simp]: "same_view v v"
  by (simp add: same_view_def)

lemma same_view_truthy: "same_view v w \<Longrightarrow> truthy_val v = truthy_val w"
  by (auto simp: same_view_def)

lemma context_keys_only:
  "set (map fst context_exchange_fields) \<subseteq> set exchange_hook_keys"
  "set (map fst context_signal_fields) \<subseteq> set signal_hook_keys"
  by (simp_all add: exchange_hook_keys_def context_exchange_fields_def signal_hook_keys_def context_signal_fields_def)

lemma field_copy_out: "k \<notin> set (map fst tab) \<Longrightarrow> field (copy_fields tab st) k = Undef"
  by (simp add: field_copy map_of_eq_None_iff split: option.splits) (force dest: map_of_SomeD)

lemma exchange_view:
  assumes "set kx = set exchange_hook_keys"
  shows "field (copy_fields context_exchange_fields (live_store kx ks eh sh c p d st)) k = field (hook_object kx eh) k"
proof (cases "k \<in> set exchange_hook_keys")
  case True
  then show ?thesis using exchange_field [OF True assms] assms by (simp add: field_hook)
next
  case False
  then have "k \<notin> set (map fst context_exchange_fields)" using context_keys_only(1) by blast
  then show ?thesis using False assms by (simp add: field_copy_out field_hook)
qed

lemma signal_view:
  assumes "set ks = set signal_hook_keys"
  shows "field (copy_fields context_signal_fields (live_store kx ks eh sh c p d st)) k = field (hook_object ks sh) k"
proof (cases "k \<in> set signal_hook_keys")
  case True
  then show ?thesis using signal_field [OF True assms] assms by (simp add: field_hook)
next
  case False
  then have "k \<notin> set (map fst context_signal_fields)" using context_keys_only(2) by blast
  then show ?thesis using False assms by (simp add: field_copy_out field_hook)
qed

lemma field_Cons: "field ((k, v) # xs) j = (if j = k then v else field xs j)"
  by (simp add: field_def)

lemma eval_supplied:
  fixes ui toast st :: "'f obj" and eh sh :: "string \<Rightarrow> 'f jsval" and chart price change :: "'f jsval" and kx ks :: "string list"
  defines "ctx \<equiv> usePanelContext ui (live_store kx ks eh sh chart price change st) toast"
    and "live \<equiv> hook_context (hook_object kx eh) (hook_object ks sh) chart price ui toast"
  assumes kx: "set kx = set exchange_hook_keys" and ks: "set ks = set signal_hook_keys"
    and len: "access chart ''length'' \<noteq> None"
  shows "supplied e \<Longrightarrow> \<exists>v w. eval_expr ctx e = Some v \<and> eval_expr live e = Some w \<and> same_view v w"
proof (induction e rule: supplied.induct)
  case (1 k)
  let ?st = "live_store kx ks eh sh chart price change st"
  have objs: "same_view (Obj (copy_fields context_exchange_fields ?st)) (Obj (hook_object kx eh))"
    "same_view (Obj (copy_fields context_signal_fields ?st)) (Obj (hook_object ks sh))"
    using exchange_view [OF kx] signal_view [OF ks] by (auto simp: same_view_def)
  have "k = ''exchange'' \<or> k = ''signals'' \<or> k = ''selectedExchange'' \<or> k = ''selectedSymbol'' \<or>
      k = ''chartCandles'' \<or> k = ''currentPrice'' \<or> k = ''SYMBOLS'' \<or> k = ''EXCHANGES'' \<or> k = ''toasts'' \<or>
      k = ''addToast'' \<or> k = ''removeToast'' \<or> k = ''clearAll'' \<or> k = ''setSelectedSymbol'' \<or>
      k = ''customIndicators'' \<or> k = ''setCustomIndicators''"
    using 1 by (simp add: context_fields_def)
  then have "\<exists>v w. access ctx k = Some v \<and> access live k = Some w \<and> same_view v w"
    unfolding ctx_def live_def usePanelContext_def hook_context_def
    by (elim disjE) (simp_all add: field_Cons chart_field objs)
  then show ?case by simp
next
  case (2 s k)
  let ?st = "live_store kx ks eh sh chart price change st"
  have top: "access ctx ''exchange'' = Some (Obj (copy_fields context_exchange_fields ?st))"
    "access live ''exchange'' = Some (Obj (hook_object kx eh))"
    "access ctx ''signals'' = Some (Obj (copy_fields context_signal_fields ?st))"
    "access live ''signals'' = Some (Obj (hook_object ks sh))"
    "access ctx ''chartCandles'' = Some chart" "access live ''chartCandles'' = Some chart"
    by (simp_all add: ctx_def live_def usePanelContext_def hook_context_def field_Cons chart_field)
  have eq: "field (copy_fields context_exchange_fields ?st) k = field (hook_object kx eh) k"
    "field (copy_fields context_signal_fields ?st) k = field (hook_object ks sh) k"
    by (rule exchange_view [OF kx], rule signal_view [OF ks])
  from 2 consider "s = ''exchange''" | "s = ''signals''" | "s = ''chartCandles''" "k = ''length''" by auto
  then show ?case
  proof cases
    case 3
    then show ?thesis using top len by auto
  qed (simp_all add: top eq)
next
  case (3 a b)
  then obtain v w v' w' where "eval_expr ctx a = Some v" "eval_expr live a = Some w" "same_view v w"
    "eval_expr ctx b = Some v'" "eval_expr live b = Some w'" "same_view v' w'" by auto
  then show ?case using same_view_truthy [of v w] by simp
next
  case 4
  have eq: "ob ctx = ob live"
    using exchange_view [OF kx, of ks eh sh chart price change st "''orderbooks''"]
    by (simp add: ob_def opt_access_def ctx_def live_def usePanelContext_def hook_context_def field_Cons)
  obtain b where b: "opt_access (Obj (hook_object kx eh)) ''orderbooks'' = Some b" using opt_access_total by blast
  have "\<exists>v. ob live = Some v"
    using b opt_access_total [of b]
    by (simp add: ob_def live_def hook_context_def field_Cons split: option.splits)
  then show ?case using eq by auto
next
  case 5
  have "access ctx ''addToast'' = access live ''addToast''"
    by (simp add: ctx_def live_def usePanelContext_def hook_context_def field_Cons)
  then show ?case by (auto simp: same_view_def)
qed simp_all

section \<open>Properties\<close>

text \<open>
  C8: Panels read live data: for every panel of the registry, every prop that its builder computes from the
  context of \<open>usePanelContext\<close>, after \<open>useTradingStoreSync\<close> and the chart effect have copied the hooks'
  objects into any trading store, is computed without an exception and is what it would be computed from the
  hooks' objects directly, in real and in mock mode: no field is lost, renamed wrongly or read under a
  name that nothing provides.
\<close>
theorem panels_read_live_data:
  assumes "kx = exchange_hook_keys \<and> ks = signal_hook_keys \<or> kx = mock_exchange_keys \<and> ks = mock_signal_keys"
    and "access chart ''length'' \<noteq> None" and "p \<in> set PANELS" and "(k, e) \<in> set (p_props p)"
  shows "\<exists>v w. eval_expr (usePanelContext ui (sync_chart_candles chart price change
           (useTradingStoreSync (hook_object kx eh) (hook_object ks sh) st)) toast) e = Some v \<and>
         eval_expr (hook_context (hook_object kx eh) (hook_object ks sh) chart price ui toast) e = Some w \<and>
         same_view v w"
proof -
  have "set kx = set exchange_hook_keys" "set ks = set signal_hook_keys" using assms(1) mock_shape by auto
  moreover have "supplied e" using panels_supplied assms(3,4) by (fastforce simp: list_all_iff)
  ultimately show ?thesis using eval_supplied assms(2) unfolding live_store_def by blast
qed

theorem panels_read_live_data_witness:
  "\<exists>v w. eval_expr (usePanelContext [] (sync_chart_candles (Data (JArr [])) (Data (JNum 1)) (Data (JNum 0))
       (useTradingStoreSync (hook_object exchange_hook_keys (\<lambda>k. Func k)) (hook_object signal_hook_keys (\<lambda>k. Func k))
         trading_store_init)) []) (ex ''fills'') = Some v \<and>
     eval_expr (hook_context (hook_object exchange_hook_keys (\<lambda>k. Func k)) (hook_object signal_hook_keys (\<lambda>k. Func k))
       (Data (JArr [])) (Data (JNum 1)) [] []) (ex ''fills'') = Some w \<and> same_view v w"
proof (rule panels_read_live_data)
  let ?p = "panel ''fills-panel'' ''Fills Panel'' ''orderflow'' ''FillsPanel'' [(''fills'', ex ''fills'')]"
  show "?p \<in> set PANELS"
    unfolding PANELS_def panels_orderflow_def set_append list.set by blast
  show "(''fills'', ex ''fills'') \<in> set (p_props ?p)" by (simp add: panel_sel)
qed simp_all

end
