(* ===== verification/RegistryCheck.thy ===== *)
theory RegistryCheck
  imports PanelLaws
begin

text \<open>
  The registry as data: ids are distinct, categories known, every component imported, every advanced id
  is the id of a panel. Distinctness is checked on a small hash of the ids; membership by scanning a
  table with a cursor that restarts a bounded number of times, since both lists are nearly in the same order.
\<close>

section \<open>Two checks on lists\<close>

fun hash :: "nat \<Rightarrow> string \<Rightarrow> nat" where
  "hash h [] = h"
| "hash h (c # cs) = hash ((h * 153 + of_char c) mod 8192) cs"

lemma distinct_by_hash: "distinct (map (hash 0) xs) \<Longrightarrow> distinct xs"
  by (rule distinct_map [THEN iffD1, THEN conjunct1])

fun covered :: "'a list \<Rightarrow> 'a list \<Rightarrow> 'a list \<Rightarrow> nat \<Rightarrow> bool" where
  "covered [] full rest n = True"
| "covered (x # xs) full [] 0 = False"
| "covered (x # xs) full [] (Suc n) = covered (x # xs) full full n"
| "covered (x # xs) full (y # ys) n = (if x = y then covered xs full ys n else covered (x # xs) full ys n)"

lemma covered_subset: "covered xs full rest n \<Longrightarrow> set rest \<subseteq> set full \<Longrightarrow> set xs \<subseteq> set full"
  by (induction xs full rest n rule: covered.induct) (auto split: if_splits)

lemma covered_step [simp]:
  "covered (x # xs) full (x # ys) n = covered xs full ys n"
  "x \<noteq> y \<Longrightarrow> covered (x # xs) full (y # ys) n = covered (x # xs) full ys n"
  "covered (x # xs) full [] (numeral k) = covered (x # xs) full full (pred_numeral k)"
  by (simp_all add: numeral_eq_Suc)

declare covered.simps(4) [simp del]

section \<open>The registry\<close>

lemma panel_ids_distinct: "distinct (map p_id PANELS)"
proof (rule distinct_by_hash)
  show "distinct (map (hash 0) (map p_id PANELS))"
    unfolding PANELS_def panels_orderflow_def panels_technical_def panels_risk1_def panels_risk2_def panels_portfolio_def panels_strategy_def panels_tools_def panels_late_def
      list.map map_append append.simps panel_sel
    by simp
qed

lemma panel_categories: "list_all (\<lambda>p. p_category p \<in> set (map c_id CATEGORIES)) PANELS"
  unfolding PANELS_def list_all_append
  by (simp only: panels_orderflow_def panels_technical_def panels_risk1_def panels_risk2_def panels_portfolio_def panels_strategy_def panels_tools_def panels_late_def
      list.pred_inject panel_sel CATEGORIES_def list.map category.simps list.set insert_iff simp_thms)

lemma advanced_ids: "set ADVANCED_PANEL_IDS \<subseteq> set (map p_id (panels_risk1 @ panels_risk2))"
proof (rule covered_subset)
  show "covered ADVANCED_PANEL_IDS (map p_id (panels_risk1 @ panels_risk2)) (map p_id (panels_risk1 @ panels_risk2)) 2"
    unfolding panels_risk1_def panels_risk2_def list.map map_append append.simps panel_sel ADVANCED_PANEL_IDS_def
    by simp
qed simp

lemma advanced_panels_exist: "set ADVANCED_PANEL_IDS \<subseteq> p_id ` set PANELS"
  using advanced_ids by (auto simp: PANELS_def)

definition component_names :: "string list" where
  "component_names = map fst (components1 @ components2)"

lemma components_panels_orderflow: "p_component ` set panels_orderflow \<subseteq> set component_names"
proof -
  have "covered (map p_component panels_orderflow) component_names component_names 20"
    unfolding panels_orderflow_def component_names_def components1_def components2_def lazy_import_def
      list.map map_append append.simps panel_sel fst_conv
    by simp
  then show ?thesis using covered_subset [of "map p_component panels_orderflow" component_names component_names 20] by simp
qed

lemma components_panels_technical: "p_component ` set panels_technical \<subseteq> set component_names"
proof -
  have "covered (map p_component panels_technical) component_names component_names 20"
    unfolding panels_technical_def component_names_def components1_def components2_def lazy_import_def
      list.map map_append append.simps panel_sel fst_conv
    by simp
  then show ?thesis using covered_subset [of "map p_component panels_technical" component_names component_names 20] by simp
qed

lemma components_panels_risk1: "p_component ` set panels_risk1 \<subseteq> set component_names"
proof -
  have "covered (map p_component panels_risk1) component_names component_names 20"
    unfolding panels_risk1_def component_names_def components1_def components2_def lazy_import_def
      list.map map_append append.simps panel_sel fst_conv
    by simp
  then show ?thesis using covered_subset [of "map p_component panels_risk1" component_names component_names 20] by simp
qed

lemma components_panels_risk2: "p_component ` set panels_risk2 \<subseteq> set component_names"
proof -
  have "covered (map p_component panels_risk2) component_names component_names 20"
    unfolding panels_risk2_def component_names_def components1_def components2_def lazy_import_def
      list.map map_append append.simps panel_sel fst_conv
    by simp
  then show ?thesis using covered_subset [of "map p_component panels_risk2" component_names component_names 20] by simp
qed

lemma components_panels_portfolio: "p_component ` set panels_portfolio \<subseteq> set component_names"
proof -
  have "covered (map p_component panels_portfolio) component_names component_names 20"
    unfolding panels_portfolio_def component_names_def components1_def components2_def lazy_import_def
      list.map map_append append.simps panel_sel fst_conv
    by simp
  then show ?thesis using covered_subset [of "map p_component panels_portfolio" component_names component_names 20] by simp
qed

lemma components_panels_strategy: "p_component ` set panels_strategy \<subseteq> set component_names"
proof -
  have "covered (map p_component panels_strategy) component_names component_names 20"
    unfolding panels_strategy_def component_names_def components1_def components2_def lazy_import_def
      list.map map_append append.simps panel_sel fst_conv
    by simp
  then show ?thesis using covered_subset [of "map p_component panels_strategy" component_names component_names 20] by simp
qed

lemma components_panels_tools: "p_component ` set panels_tools \<subseteq> set component_names"
proof -
  have "covered (map p_component panels_tools) component_names component_names 20"
    unfolding panels_tools_def component_names_def components1_def components2_def lazy_import_def
      list.map map_append append.simps panel_sel fst_conv
    by simp
  then show ?thesis using covered_subset [of "map p_component panels_tools" component_names component_names 20] by simp
qed

lemma components_panels_late: "p_component ` set panels_late \<subseteq> set component_names"
proof -
  have "covered (map p_component panels_late) component_names component_names 20"
    unfolding panels_late_def component_names_def components1_def components2_def lazy_import_def
      list.map map_append append.simps panel_sel fst_conv
    by simp
  then show ?thesis using covered_subset [of "map p_component panels_late" component_names component_names 20] by simp
qed

lemma components_imported: "p_component ` set PANELS \<subseteq> set component_names"
  using components_panels_orderflow components_panels_technical components_panels_risk1 components_panels_risk2 components_panels_portfolio components_panels_strategy components_panels_tools components_panels_late unfolding PANELS_def by auto

text \<open>
  C18: The registry is well formed: panel ids are distinct, every panel belongs to one of the seven
  categories and names a component that is imported, the advanced ids are ids of panels, and the panels
  visible by default are exactly the others.
\<close>
theorem registry_well_formed:
  "distinct (map p_id PANELS) \<and> p_category ` set PANELS \<subseteq> c_id ` set CATEGORIES \<and>
   p_component ` set PANELS \<subseteq> fst ` set (components1 @ components2) \<and>
   set ADVANCED_PANEL_IDS \<subseteq> p_id ` set PANELS \<and> distinct DEFAULT_VISIBLE \<and>
   set DEFAULT_VISIBLE = p_id ` set PANELS - set ADVANCED_PANEL_IDS"
proof -
  have "distinct DEFAULT_VISIBLE"
    using panel_ids_distinct unfolding DEFAULT_VISIBLE_def by (simp add: distinct_map_filter)
  then show ?thesis
    using panel_ids_distinct panel_categories advanced_panels_exist components_imported
    by (auto simp: list_all_iff DEFAULT_VISIBLE_def component_names_def)
qed

end
