(* ===== verification/PanelSidebar.thy ===== *)
theory PanelSidebar
  imports RegistryCheck
begin

text \<open>
  The sidebar \<open>panels/PanelContainer.jsx\<close> and the feature flags it uses, \<open>featureFlags.js\<close>: which panels are
  rendered, in what order, and how the user's clicks change that. The laws: exactly the panels the user
  asked for are rendered, once; and the button that should show the advanced panels cannot.
\<close>

section \<open>Feature flags\<close>

record feature_flag =
  fl_id :: string
  fl_name :: string
  fl_category :: string
  fl_description :: string
  fl_key :: string
  fl_default :: bool
  fl_needs_reload :: bool

definition FEATURE_FLAGS :: "feature_flag list" where
  "FEATURE_FLAGS =
    [\<lparr>fl_id = ''mock-mode'', fl_name = ''Mock Mode'', fl_category = ''core'',
      fl_description = ''Use simulated data instead of live WS'', fl_key = ''mock-mode'',
      fl_default = False, fl_needs_reload = True\<rparr>,
     \<lparr>fl_id = ''sound-alerts'', fl_name = ''Sound Alerts'', fl_category = ''core'',
      fl_description = ''Play sounds on fills and signals'', fl_key = ''trading-sim-sound'',
      fl_default = True, fl_needs_reload = False\<rparr>,
     \<lparr>fl_id = ''auto-reconnect'', fl_name = ''Auto Reconnect'', fl_category = ''core'',
      fl_description = ''Automatically reconnect on WS disconnect'', fl_key = ''trading-sim-auto-reconnect'',
      fl_default = True, fl_needs_reload = True\<rparr>,
     \<lparr>fl_id = ''advanced-panels'', fl_name = ''Advanced Panels'', fl_category = ''ui'',
      fl_description = ''Show math/research panels in sidebar'', fl_key = ''trading-sim-advanced-panels'',
      fl_default = False, fl_needs_reload = False\<rparr>,
     \<lparr>fl_id = ''detachable-panels'', fl_name = ''Detachable Panels'', fl_category = ''ui'',
      fl_description = ''Allow panels to be detached to separate windows'', fl_key = ''trading-sim-detachable-panels'',
      fl_default = True, fl_needs_reload = False\<rparr>,
     \<lparr>fl_id = ''trailing-stop'', fl_name = ''Trailing Stop'', fl_category = ''risk'',
      fl_description = ''Offer TRAILING_STOP in the order form'', fl_key = ''trading-sim-order-trailing-stop'',
      fl_default = True, fl_needs_reload = False\<rparr>]"

definition flag_by_id :: "string \<Rightarrow> feature_flag option" where
  "flag_by_id i = find (\<lambda>f. fl_id f = i) FEATURE_FLAGS"

text \<open>\<open>localStorage\<close>: \<open>None\<close> where accessing it throws.\<close>

type_synonym storage = "(string, string) jsmap option"

definition isFlagEnabled :: "string \<Rightarrow> storage \<Rightarrow> bool" where
  "isFlagEnabled i st =
     (case flag_by_id i of
        None \<Rightarrow> False
      | Some f \<Rightarrow> (case st of
          None \<Rightarrow> fl_default f
        | Some m \<Rightarrow> (case map_get m (fl_key f) of None \<Rightarrow> fl_default f | Some v \<Rightarrow> v = ''true'')))"

text \<open>
  What callers pass to the setter of \<open>useFeatureFlag\<close>: a boolean, or (in the sidebar) an updater function,
  of which \<open>String\<close> gives the source text.
\<close>

datatype flag_value = FlagBool bool | FlagUpdater string

fun flag_text :: "flag_value \<Rightarrow> string" where
  "flag_text (FlagBool b) = (if b then ''true'' else ''false'')"
| "flag_text (FlagUpdater src) = src"

fun flag_truthy :: "flag_value \<Rightarrow> bool" where
  "flag_truthy (FlagBool b) = b"
| "flag_truthy (FlagUpdater src) = True"

definition setFlag :: "string \<Rightarrow> flag_value \<Rightarrow> storage \<Rightarrow> storage" where
  "setFlag i v st =
     (case flag_by_id i of
        None \<Rightarrow> st
      | Some f \<Rightarrow> map_option (map_set (fl_key f) (flag_text v)) st)"

section \<open>The sidebar\<close>

record sidebar =
  sb_visible :: "string list"
  sb_collapsed :: "(string, bool) jsmap"
  sb_settings :: bool
  sb_advanced :: bool
  sb_storage :: storage

definition togglePanel :: "string \<Rightarrow> sidebar \<Rightarrow> sidebar" where
  "togglePanel i s = s\<lparr>sb_visible :=
     (if i \<in> set (sb_visible s) then filter (\<lambda>v. v \<noteq> i) (sb_visible s) else sb_visible s @ [i])\<rparr>"

definition is_collapsed :: "sidebar \<Rightarrow> string \<Rightarrow> bool" where
  "is_collapsed s c = (map_get (sb_collapsed s) c = Some True)"

definition toggleCategory :: "string \<Rightarrow> sidebar \<Rightarrow> sidebar" where
  "toggleCategory c s = s\<lparr>sb_collapsed := map_set c (\<not> is_collapsed s c) (sb_collapsed s)\<rparr>"

definition toggleSettings :: "sidebar \<Rightarrow> sidebar" where
  "toggleSettings s = s\<lparr>sb_settings := \<not> sb_settings s\<rparr>"

text \<open>
  The state updates that one click on the advanced button queues, in order: the listener of
  \<open>feature-flag-changed\<close> sets the truth value of the event's detail, then the setter passes what it was
  given to \<open>setEnabled\<close>, where React calls an updater with the value before.
\<close>

datatype flag_update = SetTo bool | ApplyUpdater

definition hide_advanced :: "sidebar \<Rightarrow> sidebar" where
  "hide_advanced s = s\<lparr>sb_visible := filter (\<lambda>i. i \<notin> set ADVANCED_PANEL_IDS) (sb_visible s)\<rparr>"

fun apply_update :: "flag_update \<Rightarrow> sidebar \<Rightarrow> sidebar" where
  "apply_update (SetTo b) s = s\<lparr>sb_advanced := b\<rparr>"
| "apply_update ApplyUpdater s =
     (let next = \<not> sb_advanced s; s1 = (if \<not> next then hide_advanced s else s)
      in s1\<lparr>sb_advanced := next\<rparr>)"

definition set_advanced_flag :: "flag_value \<Rightarrow> sidebar \<Rightarrow> sidebar" where
  "set_advanced_flag v s =
     fold apply_update [SetTo (flag_truthy v), (case v of FlagBool b \<Rightarrow> SetTo b | FlagUpdater src \<Rightarrow> ApplyUpdater)]
       (s\<lparr>sb_storage := setFlag ''advanced-panels'' v (sb_storage s)\<rparr>)"

text \<open>\<open>src\<close> is the source text of the arrow function in \<open>toggleAdvanced\<close>.\<close>

definition toggleAdvanced :: "string \<Rightarrow> sidebar \<Rightarrow> sidebar" where
  "toggleAdvanced src s = set_advanced_flag (FlagUpdater src) s"

definition cat_panels :: "sidebar \<Rightarrow> string \<Rightarrow> panel list" where
  "cat_panels s c = filter (\<lambda>p. sb_advanced s \<or> p_id p \<notin> set ADVANCED_PANEL_IDS) (getPanelsByCategory c)"

definition visible_panels :: "sidebar \<Rightarrow> string \<Rightarrow> panel list" where
  "visible_panels s c = filter (\<lambda>p. p_id p \<in> set (sb_visible s)) (cat_panels s c)"

text \<open>What is rendered: a header for every category with visible panels, its panels unless collapsed.\<close>

definition render_sidebar :: "sidebar \<Rightarrow> (string \<times> nat \<times> panel list) list" where
  "render_sidebar s =
     map (\<lambda>c. (c_label c, length (visible_panels s (c_id c)),
         if is_collapsed s (c_id c) then [] else visible_panels s (c_id c)))
       (filter (\<lambda>c. visible_panels s (c_id c) \<noteq> []) (sort_key c_order CATEGORIES))"

definition panel_counts :: "sidebar \<Rightarrow> nat \<times> nat" where
  "panel_counts s = (length (sb_visible s),
     if sb_advanced s then length PANELS
     else length (filter (\<lambda>p. p_id p \<notin> set ADVANCED_PANEL_IDS) PANELS))"

definition render_panel :: "'f jsval \<Rightarrow> panel \<Rightarrow> string \<times> string \<times> (string \<times> 'f jsval option) list" where
  "render_panel ctx p = (p_component p, p_name p, props_of ctx p)"

section \<open>Laws\<close>

lemma visible_panels_iff:
  "p \<in> set (visible_panels s c) \<longleftrightarrow> p \<in> set PANELS \<and> p_category p = c \<and> p_id p \<in> set (sb_visible s) \<and>
     (sb_advanced s \<or> p_id p \<notin> set ADVANCED_PANEL_IDS)"
  by (auto simp: visible_panels_def cat_panels_def getPanelsByCategory_def)

lemma panels_distinct: "distinct PANELS"
  using panel_ids_distinct by (rule distinct_map [THEN iffD1, THEN conjunct1])

lemma rendered_by_category:
  "concat (map (\<lambda>(_, _, ps). ps) (render_sidebar s)) =
     concat (map (\<lambda>c. if is_collapsed s (c_id c) then [] else visible_panels s (c_id c)) (sort_key c_order CATEGORIES))"
proof -
  have "concat (map (\<lambda>(_, _, ps). ps) (map (\<lambda>c. (lab c, n c, if k c then [] else f c)) (filter (\<lambda>c. f c \<noteq> []) cs)))
      = concat (map (\<lambda>c. if k c then [] else f c) cs)" for cs :: "category list" and f :: "category \<Rightarrow> panel list"
    and lab :: "category \<Rightarrow> string" and n :: "category \<Rightarrow> nat" and k
    by (induction cs) auto
  then show ?thesis unfolding render_sidebar_def .
qed

lemma category_ids: "distinct (map c_id (sort_key c_order CATEGORIES))"
  "set (map c_id (sort_key c_order CATEGORIES)) = set (map c_id CATEGORIES)"
  by (simp_all add: CATEGORIES_def)

lemma distinct_by_class:
  "distinct ks \<Longrightarrow> distinct xs \<Longrightarrow> distinct (concat (map (\<lambda>k. if Q k then [] else filter (\<lambda>x. g x = k \<and> R x) xs) ks))"
  by (induction ks) auto

lemma visible_panels_filter:
  "visible_panels s c = filter (\<lambda>p. p_category p = c \<and> p_id p \<in> set (sb_visible s) \<and>
     (sb_advanced s \<or> p_id p \<notin> set ADVANCED_PANEL_IDS)) PANELS"
  unfolding visible_panels_def cat_panels_def getPanelsByCategory_def filter_filter by (rule filter_cong) auto

lemma rendered_distinct: "distinct (concat (map (\<lambda>(_, _, ps). ps) (render_sidebar s)))"
proof -
  let ?f = "\<lambda>k. if is_collapsed s k then [] else visible_panels s k"
  have "concat (map (\<lambda>(_, _, ps). ps) (render_sidebar s)) = concat (map ?f (map c_id (sort_key c_order CATEGORIES)))"
    by (simp add: rendered_by_category comp_def)
  moreover have "distinct (concat (map ?f (map c_id (sort_key c_order CATEGORIES))))"
    unfolding visible_panels_filter by (rule distinct_by_class [OF category_ids(1) panels_distinct])
  ultimately show ?thesis by simp
qed

section \<open>Properties\<close>

text \<open>
  The sidebar renders exactly the panels the user asked for, each once: those of the registry that are
  marked visible, not hidden as advanced, and in a category that is not collapsed.
\<close>
theorem sidebar_renders_visible:
  "distinct (concat (map (\<lambda>(_, _, ps). ps) (render_sidebar s))) \<and>
   set (concat (map (\<lambda>(_, _, ps). ps) (render_sidebar s))) =
     {p \<in> set PANELS. p_id p \<in> set (sb_visible s) \<and> p_id p \<notin> (if sb_advanced s then {} else set ADVANCED_PANEL_IDS) \<and>
        \<not> is_collapsed s (p_category p)}"
proof -
  have "p_category p \<in> set (map c_id (sort_key c_order CATEGORIES))" if "p \<in> set PANELS" for p
    using panel_categories that category_ids(2) by (auto simp: list_all_iff)
  then show ?thesis
    using rendered_distinct unfolding rendered_by_category by (fastforce simp: visible_panels_iff split: if_splits)
qed

text \<open>
  The advanced button never shows the advanced panels: whatever the state and whatever the storage, after
  a click they are off, none of them is visible, and unless the function's source is the word true, the
  flag is off after a reload.
\<close>
theorem advanced_button_never_enables:
  "sb_advanced (toggleAdvanced src s) = False \<and>
   set (sb_visible (toggleAdvanced src s)) \<inter> set ADVANCED_PANEL_IDS = {} \<and>
   (src \<noteq> ''true'' \<longrightarrow> \<not> isFlagEnabled ''advanced-panels'' (sb_storage (toggleAdvanced src s)))"
proof -
  have f: "flag_by_id ''advanced-panels'' = Some (FEATURE_FLAGS ! 3)" "fl_default (FEATURE_FLAGS ! 3) = False"
    by (simp_all add: flag_by_id_def FEATURE_FLAGS_def)
  show ?thesis
    by (auto simp: toggleAdvanced_def set_advanced_flag_def hide_advanced_def isFlagEnabled_def setFlag_def f
        split: option.splits)
qed

theorem advanced_button_never_enables_witness:
  "\<not> isFlagEnabled ''advanced-panels'' (sb_storage (toggleAdvanced ''prev => {}''
     \<lparr>sb_visible = DEFAULT_VISIBLE, sb_collapsed = [], sb_settings = False, sb_advanced = False, sb_storage = Some []\<rparr>))"
  using advanced_button_never_enables [of "''prev => {}''"] by simp

end
