(* ===== verification/Toasts.thy ===== *)
theory Toasts
  imports ExchangeFeed
begin

text \<open>
  The toast store of \<open>stores/useToastStore.js\<close> and the effects of \<open>hooks/useNotifications.js\<close> that feed it.
  A store action is a function on the state; the timers that remove toasts are part of the state, and
  their firing is a step of its own. The laws: at most five toasts, ids never reused, and every toast
  with a duration has a pending timer, so that it goes away.
\<close>

section \<open>The store\<close>

record toast =
  ts_id :: nat
  ts_type :: string
  ts_message :: "string option"
  ts_duration :: jsnum

record toast_store =
  tt_last_id :: nat
  tt_toasts :: "toast list"
  tt_timers :: "(nat \<times> jsnum) list"

definition toast_init :: toast_store where
  "toast_init = \<lparr>tt_last_id = 0, tt_toasts = [], tt_timers = []\<rparr>"

text \<open>The two ways of calling \<open>addToast\<close>: with an object, or with type, message and duration; a message
  that is \<open>undefined\<close> is \<open>None\<close>.\<close>

datatype toast_request =
    ToastObject string "string option" "string option" "jsnum option"
  | ToastArgs string "string option" "jsnum option"

definition text_of :: "string option \<Rightarrow> string" where
  \<comment> \<open>in a template literal\<close>
  "text_of m = (case m of None \<Rightarrow> ''undefined'' | Some t \<Rightarrow> t)"

fun toast_fields :: "toast_request \<Rightarrow> string \<times> string option \<times> jsnum" where
  "toast_fields (ToastObject ty title msg d) =
     (ty, case title of Some t \<Rightarrow> if t \<noteq> [] then Some (t @ '': '' @ text_of msg) else msg | None \<Rightarrow> msg,
      case d of Some v \<Rightarrow> v | None \<Rightarrow> 5000)"
| "toast_fields (ToastArgs ty msg d) = (ty, msg, case d of Some v \<Rightarrow> v | None \<Rightarrow> 5000)"

definition addToast :: "toast_request \<Rightarrow> toast_store \<Rightarrow> nat \<times> toast_store" where
  "addToast req s =
     (let i = Suc (tt_last_id s)
      in case toast_fields req of (ty, msg, d) \<Rightarrow>
        (i, \<lparr>tt_last_id = i,
             tt_toasts = slice_last 4 (tt_toasts s) @ [\<lparr>ts_id = i, ts_type = ty, ts_message = msg, ts_duration = d\<rparr>],
             tt_timers = (if d > 0 then tt_timers s @ [(i, d)] else tt_timers s)\<rparr>))"

definition removeToast :: "nat \<Rightarrow> toast_store \<Rightarrow> toast_store" where
  "removeToast i s = s\<lparr>tt_toasts := filter (\<lambda>t. ts_id t \<noteq> i) (tt_toasts s)\<rparr>"

definition clearAll :: "toast_store \<Rightarrow> toast_store" where
  "clearAll s = s\<lparr>tt_toasts := []\<rparr>"

text \<open>The timeout callback of toast \<open>i\<close>.\<close>

definition toast_expires :: "nat \<Rightarrow> toast_store \<Rightarrow> toast_store" where
  "toast_expires i s = (removeToast i s)\<lparr>tt_timers := filter (\<lambda>p. fst p \<noteq> i) (tt_timers s)\<rparr>"

inductive toast_reach :: "toast_store \<Rightarrow> bool" where
  init: "toast_reach toast_init"
| add: "toast_reach s \<Longrightarrow> toast_reach (snd (addToast req s))"
| remove: "toast_reach s \<Longrightarrow> toast_reach (removeToast i s)"
| clear: "toast_reach s \<Longrightarrow> toast_reach (clearAll s)"
| expire: "toast_reach s \<Longrightarrow> i \<in> fst ` set (tt_timers s) \<Longrightarrow> toast_reach (toast_expires i s)"

section \<open>Notifications\<close>

text \<open>
  The state of \<open>useNotifications\<close>: what its refs remember. A head key is \<open>undefined\<close> (\<open>Some None\<close>) while the
  list is empty and \<open>null\<close> (\<open>None\<close>) before the first run. Messages are the text the code builds, its
  template's parts given as arguments where they are numbers.
\<close>

datatype sound = SoundConnect | SoundDisconnect | SoundFill | SoundAlert

record note_state =
  nt_ex_conn :: bool
  nt_sig_conn :: bool
  nt_fill_head :: "string option option"
  nt_signal_head :: "string option option"
  nt_news :: "(string \<times> real) option"
  nt_error_at :: "int option option"
  nt_toasts :: toast_store
  nt_sounds :: "sound list"

definition notes_init :: note_state where
  "notes_init = \<lparr>nt_ex_conn = False, nt_sig_conn = False, nt_fill_head = None, nt_signal_head = None,
     nt_news = None, nt_error_at = None, nt_toasts = toast_init, nt_sounds = []\<rparr>"

definition notify :: "toast_request \<Rightarrow> sound \<Rightarrow> note_state \<Rightarrow> note_state" where
  "notify req snd1 s = s\<lparr>nt_toasts := snd (addToast req (nt_toasts s)), nt_sounds := nt_sounds s @ [snd1]\<rparr>"

definition exchange_connection_effect :: "bool \<Rightarrow> note_state \<Rightarrow> note_state" where
  "exchange_connection_effect conn s =
     (let s1 = (if conn \<and> \<not> nt_ex_conn s
                then notify (ToastArgs ''success'' (Some ''Exchange Simulator connected'') None) SoundConnect s
                else if \<not> conn \<and> nt_ex_conn s
                then notify (ToastArgs ''error'' (Some ''Exchange Simulator disconnected'') None) SoundDisconnect s
                else s)
      in s1\<lparr>nt_ex_conn := conn\<rparr>)"

text \<open>The dash of the message is the character U+2014, outside the eight-bit characters; \<open>dash\<close> stands for it.\<close>

definition signal_connection_effect :: "string \<Rightarrow> bool \<Rightarrow> note_state \<Rightarrow> note_state" where
  "signal_connection_effect dash conn s =
     (let s1 = (if conn \<and> \<not> nt_sig_conn s
                then notify (ToastArgs ''success'' (Some ''AI Signal Bot connected'') None) SoundConnect s
                else if \<not> conn \<and> nt_sig_conn s
                then notify (ToastArgs ''warning'' (Some (''AI Signal Bot disconnected '' @ dash @ '' retrying...'')) None) SoundDisconnect s
                else s)
      in s1\<lparr>nt_sig_conn := conn\<rparr>)"

text \<open>\<open>head\<close>: key, status and message of \<open>exchange.fills[0]\<close>, if there is one.\<close>

definition fill_effect :: "(string \<times> string \<times> string) option \<Rightarrow> note_state \<Rightarrow> note_state" where
  "fill_effect head s =
     (let key = map_option fst head;
          s1 = (case head of
                  Some (k, status, msg) \<Rightarrow>
                    if k \<noteq> [] \<and> nt_fill_head s \<noteq> None \<and> Some key \<noteq> nt_fill_head s \<and> status = ''FILLED''
                    then notify (ToastArgs ''info'' (Some msg) (Some 4000)) SoundFill s else s
                | None \<Rightarrow> s)
      in s1\<lparr>nt_fill_head := Some key\<rparr>)"

text \<open>\<open>head\<close>: key, confidence and message of \<open>signals.signals[0]\<close>.\<close>

definition signal_effect :: "(string \<times> jsnum \<times> string) option \<Rightarrow> note_state \<Rightarrow> note_state" where
  "signal_effect head s =
     (let key = map_option fst head;
          s1 = (case head of
                  Some (k, confidence, msg) \<Rightarrow>
                    if nt_signal_head s \<noteq> None \<and> Some key \<noteq> nt_signal_head s \<and> confidence \<ge> 75
                    then notify (ToastArgs ''info'' (Some msg) (Some 4000)) SoundAlert s else s
                | None \<Rightarrow> s)
      in s1\<lparr>nt_signal_head := Some key\<rparr>)"

text \<open>A string has neither \<open>at\<close> nor \<open>message\<close>: both are \<open>undefined\<close> (\<open>None\<close>).\<close>

fun error_at :: "last_error \<Rightarrow> int option" where
  "error_at (ErrorObject m t) = Some t"
| "error_at (ErrorString m) = None"

fun error_message :: "last_error \<Rightarrow> string option" where
  "error_message (ErrorObject m t) = Some m"
| "error_message (ErrorString m) = None"

definition falsy_error :: "last_error \<Rightarrow> bool" where
  "falsy_error e \<longleftrightarrow> e = ErrorString []"

definition error_effect :: "last_error option \<Rightarrow> note_state \<Rightarrow> note_state" where
  "error_effect err s =
     (case err of
        Some e \<Rightarrow>
          if falsy_error e then s
          else (if Some (error_at e) \<noteq> nt_error_at s
                then notify (ToastArgs ''error'' (error_message e) (Some 5000)) SoundDisconnect s else s)
               \<lparr>nt_error_at := Some (error_at e)\<rparr>
      | None \<Rightarrow> s)"

text \<open>\<open>news\<close>: symbol and remaining ticks of the event, with the message.\<close>

definition news_effect :: "(string \<times> real \<times> string) option \<Rightarrow> note_state \<Rightarrow> note_state" where
  "news_effect news s =
     (let s1 = (case news of
                  Some (symbol, remaining, msg) \<Rightarrow>
                    if nt_news s = None \<or> fst (the (nt_news s)) \<noteq> symbol \<or> snd (the (nt_news s)) < remaining
                    then notify (ToastArgs ''warning'' (Some msg) (Some 5000)) SoundAlert s else s
                | None \<Rightarrow> s)
      in s1\<lparr>nt_news := map_option (\<lambda>(symbol, remaining, _). (symbol, remaining)) news\<rparr>)"

section \<open>Laws of the store\<close>

definition toasts_ok :: "toast_store \<Rightarrow> bool" where
  "toasts_ok s \<longleftrightarrow> length (tt_toasts s) \<le> 5 \<and> sorted_wrt (<) (map ts_id (tt_toasts s)) \<and>
     (\<forall>t \<in> set (tt_toasts s). ts_id t \<le> tt_last_id s \<and> (ts_duration t > 0 \<longrightarrow> (ts_id t, ts_duration t) \<in> set (tt_timers s))) \<and>
     (\<forall>p \<in> set (tt_timers s). fst p \<le> tt_last_id s)"

lemma sorted_map_filter: "sorted_wrt (<) (map f xs) \<Longrightarrow> sorted_wrt (<) (map f (filter P xs))"
  by (simp add: sorted_wrt_map sorted_wrt_filter)

lemma toasts_ok_remove: "toasts_ok s \<Longrightarrow> toasts_ok (removeToast i s)"
  by (auto simp: toasts_ok_def removeToast_def sorted_map_filter intro: le_trans [OF length_filter_le])

lemma toasts_ok_expire: "toasts_ok s \<Longrightarrow> toasts_ok (toast_expires i s)"
  using toasts_ok_remove [of s i] by (auto simp: toasts_ok_def toast_expires_def removeToast_def)

lemma toasts_ok_add:
  assumes ok: "toasts_ok s"
  shows "toasts_ok (snd (addToast req s))"
proof -
  let ?old = "slice_last 4 (tt_toasts s)"
  have len: "length ?old \<le> 4" by (simp add: length_slice_last)
  have sub: "set ?old \<subseteq> set (tt_toasts s)" by (rule set_slice_last)
  have "sorted_wrt (<) (map ts_id ?old)"
    using ok sorted_slice_last [of "(<)" "map ts_id (tt_toasts s)" 4] by (simp add: toasts_ok_def slice_last_map)
  moreover have "\<forall>t \<in> set ?old. ts_id t < Suc (tt_last_id s)"
    using ok sub by (auto simp: toasts_ok_def less_Suc_eq_le)
  ultimately have "sorted_wrt (<) (map ts_id ?old @ [Suc (tt_last_id s)])"
    by (auto simp: sorted_wrt_append)
  then show ?thesis
    using ok len sub unfolding toasts_ok_def addToast_def Let_def
    by (auto split: prod.splits intro: le_SucI)
qed

lemma toast_reach_ok: "toast_reach s \<Longrightarrow> toasts_ok s"
proof (induction rule: toast_reach.induct)
  case init
  show ?case by (simp add: toasts_ok_def toast_init_def)
next
  case (clear s)
  then show ?case by (simp add: toasts_ok_def clearAll_def)
qed (blast intro: toasts_ok_add toasts_ok_remove toasts_ok_expire)+

text \<open>Every effect keeps the store reachable: it changes it by \<open>addToast\<close> only.\<close>

lemma notify_reach: "toast_reach (nt_toasts s) \<Longrightarrow> toast_reach (nt_toasts (notify req n s))"
  by (simp add: notify_def toast_reach.add)

lemma effects_reach:
  assumes "toast_reach (nt_toasts s)"
  shows "toast_reach (nt_toasts (exchange_connection_effect c s))"
    "toast_reach (nt_toasts (signal_connection_effect dash c s))"
    "toast_reach (nt_toasts (fill_effect f s))" "toast_reach (nt_toasts (signal_effect g s))"
    "toast_reach (nt_toasts (error_effect e s))" "toast_reach (nt_toasts (news_effect n s))"
  using assms
  by (auto simp: exchange_connection_effect_def signal_connection_effect_def fill_effect_def signal_effect_def
      error_effect_def news_effect_def Let_def intro: notify_reach split: option.splits)

section \<open>Properties\<close>

text \<open>
  In every reachable state of the toast store there are at most five toasts, their ids are distinct and
  in order of arrival, and every toast with a positive duration has its timer pending, with that
  duration: no toast that should go away is left on screen.
\<close>
theorem toast_store_sound:
  assumes "toast_reach s"
  shows "length (tt_toasts s) \<le> 5 \<and> sorted_wrt (<) (map ts_id (tt_toasts s)) \<and>
    (\<forall>t \<in> set (tt_toasts s). ts_duration t > 0 \<longrightarrow>
       (ts_id t, ts_duration t) \<in> set (tt_timers s) \<and> t \<notin> set (tt_toasts (toast_expires (ts_id t) s)))"
  using toast_reach_ok [OF assms] by (auto simp: toasts_ok_def toast_expires_def removeToast_def)

theorem toast_store_sound_witness:
  "length (tt_toasts (snd (addToast (ToastArgs ''info'' (Some ''hi'') None) toast_init))) \<le> 5"
  using toast_store_sound [OF toast_reach.add [OF toast_reach.init]] by blast

text \<open>
  A socket error never reaches the user as text: \<open>useExchangeData\<close> stores it as a bare string, the
  toast's message is \<open>undefined\<close>, and a second socket error, whatever its text, is not shown at all.
\<close>
theorem socket_error_toast_is_undefined:
  assumes "m \<noteq> []" "m' \<noteq> []"
  shows "ts_message (last (tt_toasts (nt_toasts (error_effect (Some (ErrorString m)) notes_init)))) = None
    \<and> nt_toasts (error_effect (Some (ErrorString m')) (error_effect (Some (ErrorString m)) notes_init))
        = nt_toasts (error_effect (Some (ErrorString m)) notes_init)"
  using assms by (simp add: error_effect_def falsy_error_def notify_def addToast_def notes_init_def)

theorem socket_error_toast_is_undefined_witness:
  "ts_message (last (tt_toasts (nt_toasts (error_effect (Some (ErrorString ''closed'')) notes_init)))) = None"
  using socket_error_toast_is_undefined [of "''closed''" "''again''"] by simp

end
