(* ===== verification/UIStore.thy ===== *)
theory UIStore
  imports Candles
begin

text \<open>
  The selection and layout store of \<open>stores/useUIStore.js\<close> and the keyboard shortcuts of
  \<open>hooks/useAppShortcuts.js\<close>. The laws: the cached list of filtered symbols is always what search and
  category ask for, and the categories against the list of symbols.
\<close>

section \<open>Constants\<close>

definition EXCHANGES :: "string list" where
  "EXCHANGES = [''binance'', ''bybit'', ''okx'']"

definition SYMBOLS :: "string list" where
  "SYMBOLS =
    [''BTC/USDT'', ''ETH/USDT'', ''SOL/USDT'', ''BNB/USDT'', ''XRP/USDT'', ''ADA/USDT'', ''DOGE/USDT'',
     ''DOT/USDT'', ''MATIC/USDT'', ''SHIB/USDT'', ''AVAX/USDT'', ''LINK/USDT'', ''UNI/USDT'',
     ''ATOM/USDT'', ''LTC/USDT'', ''NEAR/USDT'', ''XLM/USDT'', ''ALGO/USDT'', ''VET/USDT'',
     ''FIL/USDT'', ''APT/USDT'', ''INJ/USDT'', ''OP/USDT'', ''ARB/USDT'', ''QNT/USDT'', ''ETC/USDT'',
     ''HBAR/USDT'', ''ICP/USDT'', ''LDO/USDT'', ''GRT/USDT'', ''STX/USDT'', ''AAVE/USDT'', ''MKR/USDT'',
     ''COMP/USDT'', ''SUSHI/USDT'', ''CRV/USDT'', ''1INCH/USDT'', ''SNX/USDT'', ''MANA/USDT'',
     ''SAND/USDT'', ''AXS/USDT'', ''ENJ/USDT'', ''FTM/USDT'', ''CRO/USDT'', ''GLM/USDT'', ''KAVA/USDT'',
     ''ROSE/USDT'', ''CELO/USDT'', ''MINA/USDT'']"

definition SYMBOL_CATEGORIES :: "(string \<times> string list) list" where
  "SYMBOL_CATEGORIES =
    [(''Major'', [''BTC/USDT'', ''ETH/USDT'', ''BNB/USDT'', ''SOL/USDT'', ''XRP/USDT'', ''ADA/USDT'']),
     (''DeFi'', [''UNI/USDT'', ''AAVE/USDT'', ''MKR/USDT'', ''COMP/USDT'', ''SUSHI/USDT'', ''CRV/USDT'',
        ''1INCH/USDT'', ''LDO/USDT'', ''SNX/USDT'']),
     (''Layer 1'', [''SOL/USDT'', ''AVAX/USDT'', ''DOT/USDT'', ''ATOM/USDT'', ''NEAR/USDT'', ''ALGO/USDT'',
        ''FIL/USDT'', ''APT/USDT'', ''INJ/USDT'', ''OP/USDT'', ''ARB/USDT'']),
     (''Layer 2'', [''MATIC/USDT'', ''OP/USDT'', ''ARB/USDT'']),
     (''Gaming'', [''MANA/USDT'', ''SAND/USDT'', ''AXS/USDT'', ''ENJ/USDT'']),
     (''Meme'', [''DOGE/USDT'', ''SHIB/USDT'']),
     (''Other'', [''LTC/USDT'', ''XLM/USDT'', ''VET/USDT'', ''QNT/USDT'', ''ETC/USDT'', ''HBAR/USDT'', ''ICP/USDT'',
        ''GRT/USDT'', ''STX/USDT'', ''FTM/USDT'', ''CRO/USDT'', ''GLM/USDT'', ''KAVA/USDT'', ''ROSE/USDT'',
        ''CELO/USDT'', ''MINA/USDT''])]"

section \<open>State and actions\<close>

record ui_store =
  ui_exchange :: string
  ui_symbol :: string
  ui_search :: string
  ui_category :: string
  ui_filtered :: "string list"
  ui_tab :: string
  ui_timeframe :: timeframe
  ui_indicators :: json
  ui_speed :: real
  ui_collapsed :: bool
  ui_mobile :: string
  ui_sound :: bool

definition ui_init :: ui_store where
  "ui_init = \<lparr>ui_exchange = ''binance'', ui_symbol = ''BTC/USDT'', ui_search = [], ui_category = ''All'',
     ui_filtered = SYMBOLS, ui_tab = ''account'', ui_timeframe = hd TIMEFRAMES, ui_indicators = JArr [],
     ui_speed = 1, ui_collapsed = False, ui_mobile = ''chart'', ui_sound = True\<rparr>"

definition recomputeFilteredSymbols :: "ui_store \<Rightarrow> ui_store" where
  "recomputeFilteredSymbols s =
     (let filtered = (case map_get SYMBOL_CATEGORIES (ui_category s) of
            Some c \<Rightarrow> if ui_category s \<noteq> ''All'' then c else SYMBOLS
          | None \<Rightarrow> SYMBOLS);
          filtered = (if ui_search s \<noteq> []
            then filter (\<lambda>x. str_includes (to_lower x) (to_lower (ui_search s))) filtered else filtered)
      in s\<lparr>ui_filtered := filtered\<rparr>)"

definition setSymbolSearch :: "string \<Rightarrow> ui_store \<Rightarrow> ui_store" where
  "setSymbolSearch q s = recomputeFilteredSymbols (s\<lparr>ui_search := q\<rparr>)"

definition setSelectedCategory :: "string \<Rightarrow> ui_store \<Rightarrow> ui_store" where
  "setSelectedCategory c s = recomputeFilteredSymbols (s\<lparr>ui_category := c\<rparr>)"

datatype ui_action =
    SetExchange string | SetSymbol string | SetSearch string | SetCategory string | SetTab string
  | SetTimeframe timeframe | SetIndicators json | SetSpeed real | SetCollapsed bool | ToggleSidebar
  | SetMobile string | SetSound bool | ToggleSound

fun ui_step :: "ui_action \<Rightarrow> ui_store \<Rightarrow> ui_store" where
  "ui_step (SetExchange e) s = s\<lparr>ui_exchange := e\<rparr>"
| "ui_step (SetSymbol x) s = s\<lparr>ui_symbol := x\<rparr>"
| "ui_step (SetSearch q) s = setSymbolSearch q s"
| "ui_step (SetCategory c) s = setSelectedCategory c s"
| "ui_step (SetTab t) s = s\<lparr>ui_tab := t\<rparr>"
| "ui_step (SetTimeframe tf) s = s\<lparr>ui_timeframe := tf\<rparr>"
| "ui_step (SetIndicators i) s = s\<lparr>ui_indicators := i\<rparr>"
| "ui_step (SetSpeed v) s = s\<lparr>ui_speed := v\<rparr>"
| "ui_step (SetCollapsed b) s = s\<lparr>ui_collapsed := b\<rparr>"
| "ui_step ToggleSidebar s = s\<lparr>ui_collapsed := \<not> ui_collapsed s\<rparr>"
| "ui_step (SetMobile p) s = s\<lparr>ui_mobile := p\<rparr>"
| "ui_step (SetSound b) s = s\<lparr>ui_sound := b\<rparr>"
| "ui_step ToggleSound s = s\<lparr>ui_sound := \<not> ui_sound s\<rparr>"

definition getFilteredSymbols :: "ui_store \<Rightarrow> string list" where
  "getFilteredSymbols s = ui_filtered s"

text \<open>The action a shortcut triggers in a state.\<close>

definition app_shortcut :: "string \<Rightarrow> ui_store \<Rightarrow> ui_action option" where
  "app_shortcut key s = map_of
     [(''1'', SetExchange (EXCHANGES ! 0)), (''2'', SetExchange (EXCHANGES ! 1)), (''3'', SetExchange (EXCHANGES ! 2)),
      (''q'', SetSymbol (SYMBOLS ! 0)), (''w'', SetSymbol (SYMBOLS ! 1)), (''e'', SetSymbol (SYMBOLS ! 2)),
      ('' '', SetSpeed (if ui_speed s = 0 then 1 else 0)),
      (''a'', SetTab ''account''), (''b'', SetTab ''bots''), (''s'', SetTab ''signals''), (''r'', SetTab ''arbitrage''),
      (''p'', SetTab ''prices''), (''f'', SetTab ''fills''), (''h'', SetTab ''history''), (''t'', SetTab ''performance''),
      (''shift+'' @ [CHR 0x5C], SetCollapsed (\<not> ui_collapsed s)), (''shift+|'', SetCollapsed (\<not> ui_collapsed s))] key"

section \<open>Laws\<close>

text \<open>The symbols a category and a search text ask for.\<close>

definition symbols_matching :: "string \<Rightarrow> string \<Rightarrow> string list" where
  "symbols_matching c q = filter (\<lambda>x. \<exists>as bs. to_lower x = as @ to_lower q @ bs)
     (if c = ''All'' then SYMBOLS else case map_of SYMBOL_CATEGORIES c of Some l \<Rightarrow> l | None \<Rightarrow> SYMBOLS)"

lemma split_exists [simp]: "\<exists>as bs. (xs :: string) = as @ bs"
  by (rule exI [of _ "[]"]) simp

lemma recompute_matching: "ui_filtered (recomputeFilteredSymbols s) = symbols_matching (ui_category s) (ui_search s)"
proof -
  have "filter (\<lambda>x. str_includes (to_lower x) (to_lower [])) l = l" for l
    by (simp add: includes_iff to_lower_def)
  then show ?thesis
    by (auto simp: recomputeFilteredSymbols_def symbols_matching_def Let_def includes_iff to_lower_def
        split: option.splits)
qed

definition ui_ok :: "ui_store \<Rightarrow> bool" where
  "ui_ok s \<longleftrightarrow> ui_filtered s = symbols_matching (ui_category s) (ui_search s)"

lemma ui_init_ok: "ui_ok ui_init"
  by (simp add: ui_ok_def ui_init_def symbols_matching_def to_lower_def)

lemma recompute_keeps: "ui_category (recomputeFilteredSymbols s) = ui_category s"
    "ui_search (recomputeFilteredSymbols s) = ui_search s"
  by (simp_all add: recomputeFilteredSymbols_def Let_def)

lemma ui_step_ok: "ui_ok s \<Longrightarrow> ui_ok (ui_step a s)"
  by (cases a) (simp_all add: ui_ok_def setSymbolSearch_def setSelectedCategory_def recompute_matching recompute_keeps)

lemma categories_known: "list_all (\<lambda>(c, l). list_all (\<lambda>x. x \<in> set SYMBOLS) l) SYMBOL_CATEGORIES"
  by (simp add: SYMBOLS_def SYMBOL_CATEGORIES_def)

lemma symbols_matching_known: "set (symbols_matching c q) \<subseteq> set SYMBOLS"
  using categories_known
  by (fastforce simp: symbols_matching_def list_all_iff dest: map_of_SomeD split: if_splits option.splits)

lemma link_uncategorised: "list_all (\<lambda>(c, l). ''LINK/USDT'' \<notin> set l) SYMBOL_CATEGORIES"
  by (simp add: SYMBOL_CATEGORIES_def)

section \<open>Properties\<close>

text \<open>
  After any sequence of actions of the store the cached list \<open>getFilteredSymbols\<close> is what the current
  category and search text ask for, in the order of the category, and holds only tradable symbols; each
  shortcut acts through the same actions.
\<close>
theorem filtered_symbols_fresh:
  "let s = fold ui_step acts ui_init
   in getFilteredSymbols s = symbols_matching (ui_category s) (ui_search s) \<and> set (getFilteredSymbols s) \<subseteq> set SYMBOLS"
proof -
  have "ui_ok s \<Longrightarrow> ui_ok (fold ui_step acts s)" for s
    by (induction acts arbitrary: s) (auto intro: ui_step_ok)
  from this [OF ui_init_ok] show ?thesis
    using symbols_matching_known by (simp add: ui_ok_def getFilteredSymbols_def)
qed

text \<open>
  The category filter can hide a tradable symbol for good: LINK/USDT is in the list of symbols but in no
  category, so that no choice of a category other than all shows it, whatever is searched.
\<close>
theorem link_in_no_category:
  "''LINK/USDT'' \<in> set SYMBOLS \<and>
   (\<forall>c \<in> set (map fst SYMBOL_CATEGORIES). \<forall>q. ''LINK/USDT'' \<notin> set (ui_filtered (setSelectedCategory c (setSymbolSearch q ui_init))))"
proof -
  have "''LINK/USDT'' \<notin> set (symbols_matching c q)" if c: "c \<in> set (map fst SYMBOL_CATEGORIES)" for c q
  proof -
    obtain l where l: "map_of SYMBOL_CATEGORIES c = Some l"
      using c map_of_eq_None_iff [of SYMBOL_CATEGORIES c] by (cases "map_of SYMBOL_CATEGORIES c") auto
    have "c \<noteq> ''All''" using c by (auto simp: SYMBOL_CATEGORIES_def)
    moreover have "''LINK/USDT'' \<notin> set l"
      using link_uncategorised map_of_SomeD [OF l] by (auto simp: list_all_iff)
    ultimately show ?thesis using l by (simp add: symbols_matching_def)
  qed
  moreover have "''LINK/USDT'' \<in> set SYMBOLS" by (simp add: SYMBOLS_def)
  ultimately show ?thesis
    by (simp add: setSelectedCategory_def recompute_matching)
qed

text \<open>The hypothesis of the quantifier is met by a category of the store.\<close>

theorem link_in_no_category_witness:
  "''LINK/USDT'' \<notin> set (ui_filtered (setSelectedCategory ''DeFi'' (setSymbolSearch [] ui_init)))"
proof -
  have "''DeFi'' \<in> set (map fst SYMBOL_CATEGORIES)" by (simp add: SYMBOL_CATEGORIES_def)
  then show ?thesis using link_in_no_category by blast
qed

end
