(* ===== verification/SignalFeed.thy ===== *)
theory SignalFeed
  imports Interfaces
begin

text \<open>
  The signal hook, \<open>hooks/useSignalData.js\<close>: its state, the message handler with the table of result
  setters, and the socket's open callback. A message that carries a payload stored unread is its JSON
  value. The laws: the feed of signals is the newest fifty, and a result message changes its own slot only.
\<close>

section \<open>State and messages\<close>

record breaker =
  cb_tripped :: bool
  cb_state :: string
  cb_losses :: jsnum
  cb_trips :: jsnum
  cb_blocks :: jsnum

datatype auth_state = AuthDisabled | AuthPending | AuthOkState | AuthFailedState

record signal_state =
  sd_signals :: "json list"
  sd_regime :: "json option"
  sd_backtest :: "json option"
  sd_breaker :: "breaker option"
  sd_portfolio :: "json option"
  sd_vol_surface :: "json option"
  sd_cvar :: "json option"
  sd_stress :: "json option"
  sd_position_size :: "json option"
  sd_hawkes :: "json option"
  sd_funding_arb :: "json option"
  sd_auth :: auth_state
  sd_callbacks :: "json list"

text \<open>\<open>token\<close> is the configured signal token, empty when there is none.\<close>

definition signal_init :: "string \<Rightarrow> signal_state" where
  "signal_init token = \<lparr>sd_signals = [], sd_regime = None, sd_backtest = None, sd_breaker = None,
     sd_portfolio = None, sd_vol_surface = None, sd_cvar = None, sd_stress = None, sd_position_size = None,
     sd_hawkes = None, sd_funding_arb = None,
     sd_auth = (if token \<noteq> [] then AuthPending else AuthDisabled), sd_callbacks = []\<rparr>"

text \<open>\<open>Typed t d\<close> is a message of any other type.\<close>

datatype signal_msg =
    SignalHistory "json list option"
  | NewSignal json
  | MarketRegime json
  | BreakerStatus string jsnum jsnum jsnum
  | BacktestResult json
  | AuthOk
  | AuthFailed
  | Typed string json

definition cap_signals :: nat where
  "cap_signals = 50"

definition push_signals :: "json list \<Rightarrow> json list \<Rightarrow> json list" where
  "push_signals new prev = slice_first cap_signals (new @ prev)"

definition resultSetters :: "(string \<times> (json \<Rightarrow> signal_state \<Rightarrow> signal_state)) list" where
  "resultSetters =
    [(''comparison_result'', \<lambda>d s. s\<lparr>sd_backtest := Some d\<rparr>),
     (''portfolio_result'', \<lambda>d s. s\<lparr>sd_portfolio := Some d\<rparr>),
     (''vol_surface_result'', \<lambda>d s. s\<lparr>sd_vol_surface := Some d\<rparr>),
     (''cvar_result'', \<lambda>d s. s\<lparr>sd_cvar := Some d\<rparr>),
     (''stress_test_result'', \<lambda>d s. s\<lparr>sd_stress := Some d\<rparr>),
     (''position_size_result'', \<lambda>d s. s\<lparr>sd_position_size := Some d\<rparr>),
     (''hawkes_result'', \<lambda>d s. s\<lparr>sd_hawkes := Some d\<rparr>),
     (''funding_arb_result'', \<lambda>d s. s\<lparr>sd_funding_arb := Some d\<rparr>)]"

fun handleSignalMessage :: "signal_msg \<Rightarrow> signal_state \<Rightarrow> signal_state" where
  "handleSignalMessage (SignalHistory xs) s = s\<lparr>sd_signals := (case xs of None \<Rightarrow> [] | Some l \<Rightarrow> l)\<rparr>"
| "handleSignalMessage (NewSignal d) s = s\<lparr>sd_signals := push_signals [d] (sd_signals s)\<rparr>"
| "handleSignalMessage (MarketRegime d) s = s\<lparr>sd_regime := Some d\<rparr>"
| "handleSignalMessage (BreakerStatus st fails trips blocks) s =
     s\<lparr>sd_breaker := Some \<lparr>cb_tripped = (st = ''OPEN''), cb_state = st, cb_losses = jor fails 0,
        cb_trips = jor trips 0, cb_blocks = jor blocks 0\<rparr>\<rparr>"
| "handleSignalMessage (BacktestResult d) s = s\<lparr>sd_backtest := Some d, sd_callbacks := sd_callbacks s @ [d]\<rparr>"
| "handleSignalMessage AuthOk s = s\<lparr>sd_auth := AuthOkState\<rparr>"
| "handleSignalMessage AuthFailed s = s\<lparr>sd_auth := AuthFailedState\<rparr>"
| "handleSignalMessage (Typed t d) s = (case map_of resultSetters t of None \<Rightarrow> s | Some f \<Rightarrow> f d s)"

definition on_signal_open :: "string \<Rightarrow> signal_state \<Rightarrow> signal_state" where
  "on_signal_open token s = (if token \<noteq> [] then s\<lparr>sd_auth := AuthPending\<rparr> else s)"

section \<open>Laws\<close>

interpretation signals_feed: capped_feed push_signals cap_signals
  by unfold_locales (simp add: push_signals_def slice_first_def)

text \<open>The signals a list of messages carries, oldest first, since the last history among them.\<close>

fun is_history :: "signal_msg \<Rightarrow> bool" where
  "is_history (SignalHistory xs) = True"
| "is_history _ = False"

fun signal_of :: "signal_msg \<Rightarrow> json list" where
  "signal_of (NewSignal d) = [d]"
| "signal_of _ = []"

lemma setters_keep_feed:
  "map_of resultSetters t = Some f \<Longrightarrow>
     sd_signals (f d s) = sd_signals s \<and> sd_auth (f d s) = sd_auth s \<and> sd_regime (f d s) = sd_regime s \<and>
     sd_breaker (f d s) = sd_breaker s \<and> sd_callbacks (f d s) = sd_callbacks s"
  by (auto simp: resultSetters_def split: if_splits)

lemma handle_signals:
  "\<not> is_history m \<Longrightarrow> sd_signals (handleSignalMessage m s) =
     (if signal_of m = [] then sd_signals s else push_signals (signal_of m) (sd_signals s))"
  by (cases m) (auto simp: setters_keep_feed split: option.splits)

lemma signals_run:
  assumes "\<forall>m \<in> set ms. \<not> is_history m"
  shows "sd_signals (fold handleSignalMessage ms s) =
    foldl (\<lambda>f b. push_signals b f) (sd_signals s) (filter (\<lambda>b. b \<noteq> []) (map signal_of ms))"
  using assms by (induction ms arbitrary: s) (auto simp: handle_signals)

text \<open>The slot that a message type writes, as the value it leaves there.\<close>

definition result_slots :: "(string \<times> (signal_state \<Rightarrow> json option)) list" where
  "result_slots =
    [(''comparison_result'', sd_backtest), (''portfolio_result'', sd_portfolio),
     (''vol_surface_result'', sd_vol_surface), (''cvar_result'', sd_cvar), (''stress_test_result'', sd_stress),
     (''position_size_result'', sd_position_size), (''hawkes_result'', sd_hawkes),
     (''funding_arb_result'', sd_funding_arb)]"

lemma slot_written:
  "list_all (\<lambda>(t, get). get (handleSignalMessage (Typed t d) s) = Some d \<and>
     list_all (\<lambda>(u, get'). u = t \<or> get' (handleSignalMessage (Typed t d) s) = get' s) result_slots) result_slots"
  by (simp add: result_slots_def resultSetters_def)

section \<open>Properties\<close>

text \<open>
  Between two histories the feed of signals is the newest fifty of what arrived followed by what the
  history left: with at least one new signal never more than fifty, newest first; no message of another
  kind touches it.
\<close>
theorem signals_feed_newest:
  assumes "\<forall>m \<in> set ms. \<not> is_history m"
  shows "sd_signals (fold handleSignalMessage ms s) =
    (if concat (map signal_of ms) = [] then sd_signals s
     else take 50 (rev (concat (map signal_of ms)) @ sd_signals s))"
proof -
  let ?b = "filter (\<lambda>b. b \<noteq> []) (map signal_of ms)"
  have "rev (signal_of m) = signal_of m" for m by (cases m) simp_all
  then have single: "rev b = b" if "b \<in> set ?b" for b using that by auto
  have "map rev ?b = ?b" by (rule map_idI) (rule single)
  then have "rev (concat ?b) = concat (rev ?b)" by (metis rev_concat rev_map)
  moreover have "concat ?b = concat (map signal_of ms)" by (induction ms) auto
  moreover have "?b = [] \<longleftrightarrow> concat ?b = []" by (induction ms) auto
  ultimately show ?thesis
    using signals_run [OF assms] signals_feed.push_run_from [of "sd_signals s" ?b]
    by (simp add: cap_signals_def)
qed

theorem signals_feed_newest_witness:
  "sd_signals (fold handleSignalMessage [NewSignal JNull, AuthOk] (signal_init [])) = [JNull]"
  using signals_feed_newest [of "[NewSignal JNull, AuthOk]" "signal_init []"] by (simp add: signal_init_def)

text \<open>
  Server results do not cross: a message of a result type of the table stores its payload in the slot of
  its type and leaves every other slot, the feed, the regime, the breaker and the authentication as they were.
\<close>
theorem results_do_not_cross:
  assumes "(t, get) \<in> set result_slots"
  shows "get (handleSignalMessage (Typed t d) s) = Some d \<and>
    (\<forall>(u, get') \<in> set result_slots. u \<noteq> t \<longrightarrow> get' (handleSignalMessage (Typed t d) s) = get' s) \<and>
    sd_signals (handleSignalMessage (Typed t d) s) = sd_signals s \<and>
    sd_regime (handleSignalMessage (Typed t d) s) = sd_regime s \<and>
    sd_breaker (handleSignalMessage (Typed t d) s) = sd_breaker s \<and>
    sd_auth (handleSignalMessage (Typed t d) s) = sd_auth s"
  using slot_written [of d s] assms setters_keep_feed
  by (fastforce simp: list_all_iff split: option.splits)

theorem results_do_not_cross_witness:
  "sd_hawkes (handleSignalMessage (Typed ''hawkes_result'' JNull) (signal_init [])) = Some JNull"
proof -
  have "(''hawkes_result'', sd_hawkes) \<in> set result_slots" by (simp add: result_slots_def)
  then show ?thesis using results_do_not_cross by blast
qed

end
