(* ===== verification/PerfMonitor.thy ===== *)
theory PerfMonitor
  imports JsSort
begin

text \<open>
  \<open>utils/performanceMonitor.js\<close> and its panel \<open>components/DashboardProfiler.jsx\<close>: web vitals with budgets, ratings and alert
  callbacks, render metrics of every panel, and the alert list of the panel over its mounts. The library that measures the vitals
  is outside: a report is an event, delivered to every handler registered so far. The console lines, the frame counter and the
  drawing are left out.
\<close>

section \<open>Budgets and ratings\<close>

definition PERFORMANCE_BUDGETS :: "(string, jsnum) jsmap" where
  "PERFORMANCE_BUDGETS = [(''LCP'', 2500), (''INP'', 200), (''CLS'', Fin (1 / 10)), (''TTFB'', 800), (''FCP'', 1800)]"

definition rating_thresholds :: "(string, jsnum \<times> jsnum) jsmap" where
  "rating_thresholds =
     [(''LCP'', (2500, 4000)), (''INP'', (200, 500)), (''CLS'', (Fin (1 / 10), Fin (1 / 4))), (''TTFB'', (800, 1800)),
      (''FCP'', (1800, 3000))]"

definition exceedsBudget :: "string \<Rightarrow> jsnum \<Rightarrow> bool" where
  "exceedsBudget name v = (case map_get PERFORMANCE_BUDGETS name of None \<Rightarrow> False | Some budget \<Rightarrow> v > budget)"

datatype rating = Good | NeedsImprovement | Poor | UnknownRating

definition getRating :: "string \<Rightarrow> jsnum \<Rightarrow> rating" where
  "getRating name v =
     (case map_get rating_thresholds name of
        None \<Rightarrow> UnknownRating
      | Some (good, poor) \<Rightarrow> if v \<le> good then Good else if v \<le> poor then NeedsImprovement else Poor)"

section \<open>The monitor\<close>

record vital_alert =
  va_name :: string
  va_value :: jsnum
  va_budget :: "jsnum option"
  va_rating :: rating
  va_time :: int

type_synonym vitals = "(string, jsnum option) jsmap"

text \<open>Callbacks are numbers; \<open>pm_calls\<close> logs the calls made. \<open>pm_handlers\<close> counts the registrations with the library.\<close>

record monitor =
  pm_metrics :: vitals
  pm_callbacks :: "nat list"
  pm_handlers :: nat
  pm_calls :: "(nat \<times> vital_alert) list"

definition no_metrics :: vitals where
  "no_metrics = [(''LCP'', None), (''INP'', None), (''CLS'', None), (''TTFB'', None), (''FCP'', None)]"

definition initial_monitor :: monitor where
  "initial_monitor = \<lparr>pm_metrics = no_metrics, pm_callbacks = [], pm_handlers = 0, pm_calls = []\<rparr>"

definition resetMetrics :: "monitor \<Rightarrow> monitor" where
  "resetMetrics m = m\<lparr>pm_metrics := no_metrics, pm_callbacks := []\<rparr>"

definition onAlert :: "nat \<Rightarrow> monitor \<Rightarrow> monitor" where
  "onAlert cb m = m\<lparr>pm_callbacks := pm_callbacks m @ [cb]\<rparr>"

definition offAlert :: "nat \<Rightarrow> monitor \<Rightarrow> monitor" where
  "offAlert cb m = m\<lparr>pm_callbacks := filter (\<lambda>c. c \<noteq> cb) (pm_callbacks m)\<rparr>"

definition triggerAlert :: "int \<Rightarrow> string \<Rightarrow> jsnum \<Rightarrow> jsnum option \<Rightarrow> monitor \<Rightarrow> monitor" where
  "triggerAlert now name v budget m =
     (let alert = \<lparr>va_name = name, va_value = v, va_budget = budget, va_rating = getRating name v, va_time = now\<rparr>
      in m\<lparr>pm_calls := pm_calls m @ map (\<lambda>cb. (cb, alert)) (pm_callbacks m)\<rparr>)"

text \<open>The handler of one vital, the same for all five.\<close>

definition vital_handler :: "int \<Rightarrow> string \<Rightarrow> jsnum \<Rightarrow> monitor \<Rightarrow> monitor" where
  "vital_handler now name v m =
     (let m1 = m\<lparr>pm_metrics := map_set name (Some v) (pm_metrics m)\<rparr>
      in if exceedsBudget name v then triggerAlert now name v (map_get PERFORMANCE_BUDGETS name) m1 else m1)"

definition initPerformanceMonitoring :: "monitor \<Rightarrow> monitor" where
  "initPerformanceMonitoring m = m\<lparr>pm_handlers := pm_handlers m + 1\<rparr>"

text \<open>The library reports a vital to all handlers.\<close>

definition report_vital :: "int \<Rightarrow> string \<Rightarrow> jsnum \<Rightarrow> monitor \<Rightarrow> monitor" where
  "report_vital now name v m = (vital_handler now name v ^^ pm_handlers m) m"

record violation =
  vi_name :: string
  vi_value :: jsnum
  vi_budget :: "jsnum option"
  vi_rating :: rating

definition checkBudgets :: "vitals \<Rightarrow> violation list" where
  "checkBudgets metrics =
     concat (map (\<lambda>(name, value). case value of
         None \<Rightarrow> []
       | Some v \<Rightarrow>
           if exceedsBudget name v
           then [\<lparr>vi_name = name, vi_value = v, vi_budget = map_get PERFORMANCE_BUDGETS name, vi_rating = getRating name v\<rparr>]
           else []) metrics)"

section \<open>Render metrics\<close>

definition MAX_RENDER_SAMPLES :: nat where
  "MAX_RENDER_SAMPLES = 50"

record panel_metrics =
  px_renders :: nat
  px_totalActual :: jsnum
  px_maxActual :: jsnum
  px_mountTime :: "jsnum option"
  px_lastBase :: jsnum
  px_history :: "jsnum list"

definition new_panel_metrics :: panel_metrics where
  "new_panel_metrics = \<lparr>px_renders = 0, px_totalActual = 0, px_maxActual = 0, px_mountTime = None, px_lastBase = 0, px_history = []\<rparr>"

definition count_render :: "jsnum \<Rightarrow> jsnum \<Rightarrow> panel_metrics \<Rightarrow> panel_metrics" where
  "count_render actual base m =
     (let history = px_history m @ [actual]
      in \<lparr>px_renders = px_renders m + 1, px_totalActual = px_totalActual m + actual, px_maxActual = jmax (px_maxActual m) actual,
          px_mountTime = (case px_mountTime m of None \<Rightarrow> Some actual | Some t \<Rightarrow> Some t), px_lastBase = base,
          px_history = (if length history > MAX_RENDER_SAMPLES then tl history else history)\<rparr>)"

definition recordPanelRender :: "string \<Rightarrow> jsnum \<Rightarrow> jsnum \<Rightarrow> (string, panel_metrics) jsmap \<Rightarrow> (string, panel_metrics) jsmap" where
  "recordPanelRender i actual base ms =
     map_set i (count_render actual base (case map_get ms i of None \<Rightarrow> new_panel_metrics | Some m \<Rightarrow> m)) ms"

record render_stats =
  rs_id :: string
  rs_renders :: nat
  rs_avgRender :: jsnum
  rs_maxRender :: jsnum
  rs_mountTime :: jsnum
  rs_baseTime :: jsnum

definition panel_stats :: "string \<times> panel_metrics \<Rightarrow> render_stats" where
  "panel_stats p =
     (case p of (i, m) \<Rightarrow>
        \<lparr>rs_id = i, rs_renders = px_renders m,
         rs_avgRender = (if px_renders m > 0 then px_totalActual m / jnat (px_renders m) else 0), rs_maxRender = px_maxActual m,
         rs_mountTime = (case px_mountTime m of None \<Rightarrow> 0 | Some t \<Rightarrow> t), rs_baseTime = px_lastBase m\<rparr>)"

definition getPanelMetrics :: "(string, panel_metrics) jsmap \<Rightarrow> render_stats list" where
  "getPanelMetrics ms = sort_by (\<lambda>s. - rs_avgRender s) (map panel_stats ms)"

section \<open>The panel\<close>

datatype vital_status = StatusOk | StatusWarn | StatusCritical

definition vitalStatus :: "jsnum option \<Rightarrow> jsnum \<Rightarrow> vital_status" where
  "vitalStatus v budget =
     (case v of
        None \<Rightarrow> StatusOk
      | Some x \<Rightarrow> if x \<le> budget * Fin (8 / 10) then StatusOk else if x \<le> budget then StatusWarn else StatusCritical)"

definition fps_status :: "jsnum option \<Rightarrow> vital_status" where
  "fps_status v = (case v of None \<Rightarrow> StatusOk | Some x \<Rightarrow> if x \<ge> 50 then StatusOk else if x \<ge> 30 then StatusWarn else StatusCritical)"

definition render_status :: "render_stats \<Rightarrow> vital_status" where
  "render_status p = (if rs_avgRender p > 20 then StatusCritical else if rs_avgRender p > 10 then StatusWarn else StatusOk)"

definition criticalCount :: "render_stats list \<Rightarrow> nat" where
  "criticalCount panels = length (filter (\<lambda>p. rs_avgRender p > 20) panels)"

text \<open>The vital the banner calls the worst.\<close>

definition worst_shown :: "violation list \<Rightarrow> violation option" where
  "worst_shown vs = (case vs of [] \<Rightarrow> None | v # _ \<Rightarrow> Some v)"

text \<open>The alert callback of a mounted panel.\<close>

definition keep_alert :: "vital_alert \<Rightarrow> vital_alert list \<Rightarrow> vital_alert list" where
  "keep_alert a prev = slice_last 4 prev @ [a]"

text \<open>Events on the monitor. Every mount of the panel registers again, since the mark that it has is kept per mount.\<close>

datatype monitor_event =
    MountProfiler nat
  | UnmountProfiler nat
  | ReportVital int string jsnum

fun monitor_step :: "monitor_event \<Rightarrow> monitor \<Rightarrow> monitor" where
  "monitor_step (MountProfiler cb) m = onAlert cb (initPerformanceMonitoring m)"
| "monitor_step (UnmountProfiler cb) m = offAlert cb m"
| "monitor_step (ReportVital now name v) m = report_vital now name v m"

text \<open>The list a panel shows: its own calls, folded.\<close>

definition shown_alerts :: "nat \<Rightarrow> monitor \<Rightarrow> vital_alert list" where
  "shown_alerts cb m = fold keep_alert (map snd (filter (\<lambda>c. fst c = cb) (pm_calls m))) []"

section \<open>Ratings agree with budgets\<close>

lemma rating_names: "map_get rating_thresholds name = None \<longleftrightarrow> map_get PERFORMANCE_BUDGETS name = None"
  by (auto simp: rating_thresholds_def PERFORMANCE_BUDGETS_def split: if_splits)

text \<open>A value is over its budget exactly when its rating is not the best, for every measured value of the five vitals.\<close>

lemma exceeds_iff_not_good:
  "v \<noteq> NaN \<Longrightarrow> exceedsBudget name v \<longleftrightarrow> map_has PERFORMANCE_BUDGETS name \<and> getRating name v \<noteq> Good"
  by (auto simp: exceedsBudget_def getRating_def rating_thresholds_def PERFORMANCE_BUDGETS_def jsnum_not_less [symmetric]
      split: if_splits)

lemma exceeds_not_good: "exceedsBudget name v \<Longrightarrow> getRating name v \<noteq> Good"
  using exceeds_iff_not_good [of v name] by (cases "v = NaN") (auto simp: exceedsBudget_def split: option.splits)

section \<open>Alerts\<close>

definition alert_ok :: "vital_alert \<Rightarrow> bool" where
  "alert_ok a \<longleftrightarrow> exceedsBudget (va_name a) (va_value a) \<and> va_budget a = map_get PERFORMANCE_BUDGETS (va_name a) \<and>
     va_rating a = getRating (va_name a) (va_value a) \<and> va_rating a \<noteq> Good"

lemma vital_handler_calls:
  "pm_calls (vital_handler now name v m) =
    pm_calls m @ (if exceedsBudget name v
      then map (\<lambda>cb. (cb, \<lparr>va_name = name, va_value = v, va_budget = map_get PERFORMANCE_BUDGETS name,
        va_rating = getRating name v, va_time = now\<rparr>)) (pm_callbacks m) else [])"
  by (simp add: vital_handler_def triggerAlert_def Let_def)

lemma vital_handler_keeps [simp]:
  "pm_callbacks (vital_handler now name v m) = pm_callbacks m" "pm_handlers (vital_handler now name v m) = pm_handlers m"
  by (simp_all add: vital_handler_def triggerAlert_def Let_def)

lemma handlers_keep [simp]: "pm_callbacks ((vital_handler now name v ^^ k) m) = pm_callbacks m"
  by (induction k) simp_all

lemma concat_replicate_append: "concat (replicate k ys) @ ys = ys @ concat (replicate k ys)"
  by (induction k) simp_all

lemma report_calls:
  assumes "exceedsBudget name v"
  shows "pm_calls (report_vital now name v m) =
    pm_calls m @ concat (replicate (pm_handlers m) (map (\<lambda>cb. (cb, \<lparr>va_name = name, va_value = v,
      va_budget = map_get PERFORMANCE_BUDGETS name, va_rating = getRating name v, va_time = now\<rparr>)) (pm_callbacks m)))"
proof -
  have "pm_calls ((vital_handler now name v ^^ k) m) =
      pm_calls m @ concat (replicate k (map (\<lambda>cb. (cb, \<lparr>va_name = name, va_value = v,
        va_budget = map_get PERFORMANCE_BUDGETS name, va_rating = getRating name v, va_time = now\<rparr>)) (pm_callbacks m)))" for k
    by (induction k) (simp_all add: vital_handler_calls assms concat_replicate_append)
  then show ?thesis by (simp add: report_vital_def)
qed

lemma alerts_ok_step:
  "list_all alert_ok (map snd (pm_calls m)) \<Longrightarrow> list_all alert_ok (map snd (pm_calls (monitor_step e m)))"
proof (induction e)
  case (ReportVital now name v)
  have "list_all alert_ok (map snd (pm_calls ((vital_handler now name v ^^ k) m)))" for k
  proof (induction k)
    case 0
    show ?case using ReportVital by simp
  qed (auto simp: vital_handler_calls alert_ok_def list_all_iff exceeds_not_good)
  then show ?case by (simp add: report_vital_def)
qed (simp_all add: onAlert_def initPerformanceMonitoring_def offAlert_def)

text \<open>Over every run, an alert is raised only for a vital over its budget, and its rating is never the best.\<close>

lemma alerts_over_budget: "list_all alert_ok (map snd (pm_calls (fold monitor_step es initial_monitor)))"
proof -
  have "list_all alert_ok (map snd (pm_calls m)) \<Longrightarrow> list_all alert_ok (map snd (pm_calls (fold monitor_step es m)))" for m
    by (induction es arbitrary: m) (simp_all add: alerts_ok_step)
  then show ?thesis by (simp add: initial_monitor_def)
qed

definition remounts :: "nat \<Rightarrow> monitor_event list" where
  "remounts n = concat (map (\<lambda>i. [MountProfiler i, UnmountProfiler i]) [0..<n])"

lemma remounts_run:
  "pm_handlers (fold monitor_step (remounts n) initial_monitor) = n \<and> pm_callbacks (fold monitor_step (remounts n) initial_monitor) = [] \<and>
    pm_calls (fold monitor_step (remounts n) initial_monitor) = []"
  by (induction n) (simp_all add: remounts_def initial_monitor_def onAlert_def offAlert_def initPerformanceMonitoring_def)

lemma fold_keep_alert_length: "length xs \<le> 5 \<Longrightarrow> length (fold keep_alert as xs) = min 5 (length as + length xs)"
proof (induction as arbitrary: xs)
  case (Cons a as)
  have "length (keep_alert a xs) = min 5 (Suc (length xs))" by (simp add: keep_alert_def length_slice_last)
  then show ?case using Cons.IH [of "keep_alert a xs"] by simp
qed simp

text \<open>
  Every mount of the panel registers the handlers again and an unmount does not undo it: after \<open>n\<close> earlier mounts one report over
  budget calls the one mounted panel \<open>n + 1\<close> times, and the panel shows as many equal alerts, at most five.
\<close>

theorem remounts_multiply_alerts:
  assumes "exceedsBudget name v"
  shows "\<exists>a. map snd (pm_calls (fold monitor_step (remounts n @ [MountProfiler n, ReportVital now name v]) initial_monitor)) = replicate (n + 1) a \<and>
    va_name a = name \<and> va_value a = v \<and>
    length (shown_alerts n (fold monitor_step (remounts n @ [MountProfiler n, ReportVital now name v]) initial_monitor)) = min 5 (n + 1)"
proof -
  define a where "a = \<lparr>va_name = name, va_value = v, va_budget = map_get PERFORMANCE_BUDGETS name,
    va_rating = getRating name v, va_time = now\<rparr>"
  have "pm_calls (fold monitor_step (remounts n @ [MountProfiler n, ReportVital now name v]) initial_monitor) = concat (replicate (n + 1) [(n, a)])"
    using remounts_run [of n] by (simp add: report_calls [OF assms] onAlert_def initPerformanceMonitoring_def a_def)
  moreover have "concat (replicate k [x]) = replicate k x" for k and x :: "nat \<times> vital_alert" by (induction k) simp_all
  ultimately have calls: "pm_calls (fold monitor_step (remounts n @ [MountProfiler n, ReportVital now name v]) initial_monitor) = replicate (n + 1) (n, a)"
    by simp
  then have "shown_alerts n (fold monitor_step (remounts n @ [MountProfiler n, ReportVital now name v]) initial_monitor) =
      fold keep_alert (replicate (n + 1) a) []"
    unfolding shown_alerts_def by (simp only: filter_replicate map_replicate fst_conv snd_conv if_True simp_thms)
  then have "length (shown_alerts n (fold monitor_step (remounts n @ [MountProfiler n, ReportVital now name v]) initial_monitor)) = min 5 (n + 1)"
    using fold_keep_alert_length [of "[]" "replicate (n + 1) a"] by (simp only: length_replicate list.size add_0_right)
  then show ?thesis using calls by (intro exI [of _ a]) (simp only: map_replicate snd_conv, simp add: a_def)
qed

theorem remounts_multiply_alerts_witness:
  "length (shown_alerts 2 (fold monitor_step (remounts 2 @ [MountProfiler 2, ReportVital 0 ''LCP'' 5000]) initial_monitor)) = 3"
  using remounts_multiply_alerts [of "''LCP''" 5000 2 0] by (auto simp: exceedsBudget_def PERFORMANCE_BUDGETS_def)

text \<open>The banner names the first vital over budget, not the one that is furthest over it.\<close>

lemma worst_is_first:
  "map_option vi_name (worst_shown (checkBudgets [(''LCP'', Some 2501), (''INP'', Some 5000), (''CLS'', None)])) = Some ''LCP''"
  by (simp add: worst_shown_def checkBudgets_def exceedsBudget_def PERFORMANCE_BUDGETS_def)

section \<open>What the render metrics are\<close>

text \<open>The metrics of a panel as functions of its renders, oldest first.\<close>

definition metrics_of :: "(jsnum \<times> jsnum) list \<Rightarrow> panel_metrics" where
  "metrics_of rs =
     \<lparr>px_renders = length rs, px_totalActual = jsum (map fst rs), px_maxActual = foldl jmax 0 (map fst rs),
      px_mountTime = (if rs = [] then None else Some (fst (rs ! 0))), px_lastBase = (if rs = [] then 0 else snd (rs ! (length rs - 1))),
      px_history = slice_last MAX_RENDER_SAMPLES (map fst rs)\<rparr>"

lemma count_render_metrics: "count_render actual base (metrics_of rs) = metrics_of (rs @ [(actual, base)])"
proof -
  have "(if length (slice_last 50 xs @ [x]) > 50 then tl (slice_last 50 xs @ [x]) else slice_last 50 xs @ [x]) = slice_last 50 (xs @ [x])"
    for xs :: "jsnum list" and x
  proof (cases "length xs < 50")
    case False
    then have "length xs - 49 = Suc (length xs - 50)" "length (slice_last 50 xs) = 50" by (simp_all add: length_slice_last)
    then show ?thesis using False by (cases "drop (length xs - 50) xs") (simp_all add: slice_last_def drop_Suc flip: tl_drop)
  qed (simp add: slice_last_def)
  then show ?thesis
    by (cases rs) (simp_all add: count_render_def metrics_of_def Let_def MAX_RENDER_SAMPLES_def nth_append jsnum_add_assoc)
qed

definition record_all :: "(string \<times> jsnum \<times> jsnum) list \<Rightarrow> (string, panel_metrics) jsmap" where
  "record_all rs = fold (\<lambda>(i, actual, base). recordPanelRender i actual base) rs []"

definition renders_of :: "string \<Rightarrow> (string \<times> jsnum \<times> jsnum) list \<Rightarrow> (jsnum \<times> jsnum) list" where
  "renders_of i rs = map snd (filter (\<lambda>r. fst r = i) rs)"

text \<open>
  After any sequence of renders the metrics of a panel are the count, the sum, the maximum, the first duration, the last base duration
  and the newest fifty durations of its own renders.
\<close>

theorem render_metrics_refine:
  "map_get (record_all rs) i = (if renders_of i rs = [] then None else Some (metrics_of (renders_of i rs)))"
proof (induction rs rule: rev_induct)
  case (snoc r rs)
  obtain j actual base where r: "r = (j, actual, base)" by (cases r) auto
  have "count_render actual base new_panel_metrics = metrics_of [(actual, base)]"
    by (simp add: count_render_def new_panel_metrics_def metrics_of_def slice_last_def MAX_RENDER_SAMPLES_def)
  then show ?case
    using snoc by (auto simp: r record_all_def recordPanelRender_def renders_of_def count_render_metrics)
qed (simp add: record_all_def renders_of_def)

end
