(* ===== verification/Spec2Isabelle.thy ===== *)
theory Spec2Isabelle
  imports Candles OrderBook ExchangeFeed ExchangeInvariants IndicatorLaws BacktestLaws WebSocketLaws
    Kalman KMeans Regression Garch HiddenMarkovLaws TimeWarping WaveletLaws FormulaLaws AffineLaws MockLaws TradeTicket
    PriceAlerts KellyLaws CopulaLaws DynamicLaws ExecutionBot OptionLaws OptimalExecution SupportLaws
    PatternScan PerformanceLaws JournalLaws SavedBacktests SessionRecorder StrategyMarket HawkesLaws ModeLaws FourierLaws
    SmartRouter Rebalance SlippagePanel RuinPanel IsoForest GraphLaws PanelLaws RegistryCheck PanelSidebar Toasts UIStore SignalFeed
    PerfMonitor
begin

text \<open>
  A model of the web front end of the trading simulator (\<open>src/web-ui/src\<close>): the data path from the socket
  to the panels, and the numerical code that the panels and the backtester share.

  \<^bold>\<open>The program.\<close> \<open>hooks/useWebSocket.ts\<close> keeps one socket open, retries with backoff, and hands decoded
  messages to \<open>hooks/useExchangeData.js\<close>, which maintains candles, order books, fills, open orders and the
  pending acknowledgements of submitted orders. \<open>hooks/useChartCandles.js\<close> derives the chart's candles,
  \<open>hooks/useTradingStoreSync.js\<close> copies everything into the Zustand store, \<open>stores/usePanelContext.js\<close> builds
  the context and \<open>panels/registry.js\<close> says which props each of the 271 sidebar panels takes from it. The
  panels compute with \<open>utils/indicators.js\<close>, \<open>utils/backtestEngine.js\<close> and the \<open>utils/*Math.js\<close> modules.

  \<^bold>\<open>Library.\<close>
  \<^item> \<open>JsPrelude\<close>: JavaScript numbers (reals, the infinities and NaN, with the comparison and arithmetic rules
    of the language), \<open>Math\<close> functions, array reads out of range (NaN in arithmetic), \<open>reduce\<close> sums, counting
    loops, \<open>slice\<close>, and insertion-ordered maps.
  \<^item> \<open>JsText\<close>: JSON values, decimal printing, keys joined by \<open>|\<close>, substring search.
  \<^item> \<open>JsDecimal\<close>, \<open>JsSort\<close>, \<open>JsRandom\<close>: decimal text and that parsing undoes printing, sorting by a numeric key, and
    computations that draw random numbers.
  \<^item> \<open>Interfaces\<close>: the locales \<open>keyed_store\<close> (interpreted on JavaScript maps here and on one side of an order
    book in \<open>OrderBook\<close>), \<open>capped_feed\<close> (fills and audit log in \<open>ExchangeInvariants\<close>) and \<open>averaging\<close>
    (exponential and Wilder averages in \<open>IndicatorLaws\<close>).

  \<^bold>\<open>Components.\<close>
  \<^item> \<open>Candles\<close> (\<open>utils/candles.js\<close>, \<open>utils/timeframes.ts\<close>, \<open>hooks/useChartCandles.js\<close> and the candle cache of
    the exchange hook): the cache holds the newest 500 of the candles written last for their keys;
    aggregation to a timeframe.
  \<^item> \<open>OrderBook\<close> (order-book deltas of the exchange hook, and \<open>_compute_orderbook_delta\<close> of
    \<open>exchange_simulator/ws_broadcast.py\<close>): refinement to a finite map, and the protocol on whole
    books: the client shows the prices of the last snapshot, and its quantities up to 1e-12 for each delta since the full book.
  \<^item> \<open>ExchangeFeed\<close>, \<open>ExchangeInvariants\<close> (\<open>hooks/useExchangeData.js\<close>): every message case, request and timer
    as a function on one state record; the invariant over reachable states and the life of an acknowledgement.
  \<^item> \<open>WebSocketClient\<close>, \<open>WebSocketLaws\<close> (\<open>hooks/useWebSocket.ts\<close>): events, among them renders with new
    options, as a step function with an inductive reachability predicate. Sockets and timers keep the options their callbacks
    closed over (\<open>ws_closure\<close>), as \<open>useCallback\<close> and the refs make them; bounds, the cap on retries, handshake order, queue
    flush, and the retry that authenticates with an old token.
  \<^item> \<open>Indicators\<close>, \<open>IndicatorLaws\<close> (\<open>utils/indicators.js\<close>): all indicators; ranges and equivalence with
    reference definitions over the reals.
  \<^item> \<open>Backtest\<close>, \<open>BacktestLaws\<close> (\<open>utils/backtestEngine.js\<close>): the bar loop as a state function; bookkeeping,
    absence of look-ahead, drawdown and order of the trades.
  \<^item> \<open>Kalman\<close>, \<open>KMeans\<close>, \<open>Regression\<close> (\<open>utils/kalmanMath.js\<close>, \<open>kmeansMath.js\<close>, \<open>cointegrationMath.js\<close>).
  \<^item> \<open>Garch\<close> (\<open>utils/garchMath.js\<close>): the fit stays admissible; its update ascends the negative log-likelihood.
  \<^item> \<open>HiddenMarkov\<close>, \<open>HiddenMarkovLaws\<close> (\<open>utils/hmmMath.js\<close>): forward, backward, Viterbi, Baum-Welch; the
    scaled likelihood is the sum over the paths of hidden states, and the decoded path is an optimal one.
  \<^item> \<open>TimeWarping\<close> (\<open>components/DynamicTimeWarping.jsx\<close>): the banded dynamic program attains the least cost of a
    warping path; the panel reports a nearest pattern.
  \<^item> \<open>Wavelet\<close>, \<open>WaveletLaws\<close> (\<open>components/WaveletDecomposition.jsx\<close>): exact reconstruction, proved in the locale
    \<open>filter_bank\<close> and interpreted on the Haar and Daubechies filters.
  \<^item> \<open>FormulaParser\<close>, \<open>FormulaLaws\<close> (\<open>components/IndicatorFormulaParser.jsx\<close>): tokenizer, recursive-descent parser and
    evaluator; totality, the round trip with a printer that omits the parentheses precedence and left association make redundant,
    and why the default formula is zero.
  \<^item> \<open>AffineForms\<close>, \<open>AffineLaws\<close> (\<open>components/AffineArithmetic.jsx\<close>): sums, differences and products of
    affine forms enclose the exact result, exponentials do on narrow arguments only.
  \<^item> \<open>MockData\<close>, \<open>MockFeed\<close>, \<open>MockLaws\<close> (\<open>utils/mockData.js\<close>, \<open>hooks/useMockData.js\<close>): the demonstration feed as a
    state monad over the random draws; its accounts balance and its buffers are bounded over every run.
  \<^item> \<open>TradeTicket\<close> (\<open>components/OrderForm.jsx\<close>, \<open>PositionsPanel.jsx\<close>): the ticket as a step function; one order in
    flight, sizing and liquidation price.
  \<^item> \<open>PriceAlerts\<close> (\<open>components/PriceAlerts.jsx\<close>): effects on the set of triggered alerts; each fires once.
  \<^item> \<open>Kelly\<close>, \<open>KellyLaws\<close> (\<open>components/KellyCriterion.jsx\<close>): the fraction is growth-optimal, the simulation ends;
    the matrix inverse is wrong.
  \<^item> \<open>Copula\<close>, \<open>CopulaLaws\<close> (\<open>utils/copulaMath.js\<close>): rank correlations are in range, the Archimedean copulas have
    uniform margins, the Gaussian one exceeds 1.
  \<^item> \<open>DynamicModeling\<close>, \<open>DynamicLaws\<close> (\<open>utils/edmMath.js\<close>, \<open>components/EmpiricalDynamicModeling.jsx\<close>): mutual
    information, nearest library points and cross mapping.
  \<^item> \<open>ExecutionBot\<close> (\<open>components/ExecutionBot.jsx\<close>): the slicing bot with its interval timers; for whole slice
    counts it completes, and every run keeps to the total and the slices set when it was started.
  \<^item> \<open>Options\<close>, \<open>OptionLaws\<close> (\<open>components/OptionsPricing.jsx\<close>, \<open>GreeksCalculator.jsx\<close>, \<open>OptionsStrategies.jsx\<close>):
    put-call parity and the payoffs of the strategies.
  \<^item> \<open>OptimalExecution\<close> (\<open>components/AlmgrenChriss.jsx\<close>): the schedule, in shrinking slices, against equal
    ones.
  \<^item> \<open>SupportVectors\<close>, \<open>SupportLaws\<close> (\<open>components/SupportVectorMachine.jsx\<close>): sequential minimal optimisation keeps its
    multipliers in the box.
  \<^item> \<open>Hawkes\<close>, \<open>HawkesLaws\<close> (\<open>components/HawkesProcess.jsx\<close>): the likelihood in closed form, and a fit that is
    stationary and best on its grid.
  \<^item> \<open>ModeDecomposition\<close>, \<open>ModeLaws\<close>, \<open>FourierLaws\<close> (\<open>components/EmpiricalModeDecomposition.jsx\<close>): the modes
    add up to the signal; the in-place fast transform is the discrete Fourier transform.
  \<^item> \<open>SmartRouter\<close>, \<open>Rebalance\<close>, \<open>SlippagePanel\<close>, \<open>RuinPanel\<close> (\<open>components/SmartOrderRouter.jsx\<close>,
    \<open>AutoRebalance.jsx\<close>, \<open>SlippageSimulator.jsx\<close>, \<open>RiskOfRuin.jsx\<close>): routes, rebalancing trades (which reach their
    targets on accounts without short positions), order costs and simulated ruin.
  \<^item> \<open>IsoForest\<close> (\<open>components/IsolationForest.jsx\<close>), \<open>GraphNetwork\<close>, \<open>GraphLaws\<close>
    (\<open>components/GraphTheoryNetwork.jsx\<close>): isolation trees and their scores; Kruskal's tree is a minimum spanning
    forest. The drawing of a subsample, the union-find search and the walk back along a path need no fuel: they are
    partial functions, and it is proved that they return.
  \<^item> \<open>PatternScan\<close> (\<open>utils/patterns.ts\<close>): the candlestick patterns and their report.
  \<^item> \<open>PerformanceStats\<close>, \<open>PerformanceLaws\<close> (\<open>utils/performance.ts\<close>, \<open>performanceReport.js\<close>,
    \<open>components/performance\<close>): equity curve, drawdown and streaks, and what the panel makes of them.
  \<^item> \<open>LocalStore\<close> (\<open>hooks/useLocalStorage.ts\<close>), \<open>TradeJournal\<close>, \<open>JournalLaws\<close> (\<open>hooks/useTradeJournal.ts\<close> and its two
    panels): when a stored value survives a reload; the keys of the journal.
  \<^item> \<open>SavedBacktests\<close> (\<open>hooks/useSavedBacktests.js\<close>), \<open>SessionRecorder\<close> (\<open>hooks/useSessionRecorder.ts\<close>),
    \<open>StrategyMarket\<close> (\<open>hooks/useStrategyMarketplace.ts\<close>): step functions with invariants over all runs, failing writes included.
  \<^item> \<open>PerfMonitor\<close> (\<open>utils/performanceMonitor.js\<close>, \<open>components/DashboardProfiler.jsx\<close>): budgets, alerts and render
    metrics; every mount of the panel multiplies the alerts.
  \<^item> \<open>SignalFeed\<close> (\<open>hooks/useSignalData.js\<close>): the messages of the signal bot.
  \<^item> \<open>Toasts\<close> (\<open>stores/useToastStore.js\<close>, \<open>hooks/useNotifications.js\<close>): the toast queue and what raises one.
  \<^item> \<open>UIStore\<close> (\<open>stores/useUIStore.js\<close>, \<open>hooks/useAppShortcuts.js\<close>): the store of the page, its cached
    list of filtered symbols.
  \<^item> \<open>PanelContext\<close>, \<open>PanelRegistry\<close>, \<open>PanelLaws\<close> (\<open>stores/useTradingStore.js\<close>, \<open>usePanelContext.js\<close>,
    \<open>hooks/useTradingStoreSync.js\<close>, \<open>panels/registry.js\<close>): the props of every panel as expressions over
    the context; what a panel reads is what the hooks returned. \<open>RegistryCheck\<close>: the registry is well
    formed. \<open>PanelSidebar\<close> (\<open>featureFlags.js\<close>, \<open>panels/PanelContainer.jsx\<close>): the flags and the sidebar.

  \<^bold>\<open>Bounds and fuel.\<close> Loops with a counter are \<open>for_loop\<close>, a fold over an interval, and need no fuel.
  The k-means iteration and the EM loop of the hidden Markov model count down from \<open>maxIter\<close> as the code
  does, the levels of the wavelet decomposition from their number. Lentz's method counts down from 200. The formula parser has a fuel of one more
  than its tokens (\<open>parse_fuel\<close>): \<open>formula_parser_total\<close> shows that it never runs out. The loops of the
  Kelly panel that wait for a nonzero draw are a partial function; \<open>kelly_panel_ends\<close> shows when they end. The price
  grid of an option strategy ends for finite bounds by a measure. No other recursion is bounded.

  \<^bold>\<open>Not modelled.\<close> Floating-point rounding (numbers are reals extended by infinities and NaN; the sign of zero
  is not kept), React's scheduling of effects, the browser's sockets and timers beyond the events they
  deliver, JSX rendering, the Python and C++ programs of the repository apart from the delta encoder,
  tests and deployment files. A render of the
  socket hook is one event: its cleanup and its effect run together.
\<close>

end
